(* ===== verification/Harns_Prelude.thy ===== *)
theory Harns_Prelude
  imports Main "HOL-Library.Word" "HOL-Library.Multiset" "HOL-Library.Sublist"
begin

unbundle bit_operations_syntax

text \<open>
  Shared vocabulary of the development: the named collections that the component
  theories feed, the synchronised map of the managers (Go's \<open>sync.Map\<close>) as an
  association list, the list scans the Go loops become, and the word facts the
  bit-level components need.
\<close>

named_theorems harns_cache \<open>equations of the synchronised-map operations\<close>
named_theorems harns_branch \<open>definitions unfolded to walk through the branches of an operation\<close>

subsection \<open>Synchronised maps\<close>

text \<open>
  A \<open>sync.Map\<close> is an association list. \<open>Range\<close> of the source visits the entries in an
  unspecified order: the order of the list stands for it, and no theorem assumes a
  particular one. A map produced by the operations below has distinct keys.
\<close>

type_synonym ('k, 'a) smap = "('k \<times> 'a) list"
type_synonym 'a cache = "(string, 'a) smap"

definition cache_load :: "('k, 'a) smap \<Rightarrow> 'k \<Rightarrow> 'a option" where
  "cache_load m k = map_of m k"

fun cache_store :: "'k \<Rightarrow> 'a \<Rightarrow> ('k, 'a) smap \<Rightarrow> ('k, 'a) smap" where
  "cache_store k v [] = [(k, v)]"
| "cache_store k v ((k', v') # m) = (if k' = k then (k, v) # m else (k', v') # cache_store k v m)"

definition cache_delete :: "'k \<Rightarrow> ('k, 'a) smap \<Rightarrow> ('k, 'a) smap" where
  "cache_delete k m = filter (\<lambda>e. fst e \<noteq> k) m"

definition cache_values :: "('k, 'a) smap \<Rightarrow> 'a list" where
  "cache_values m = map snd m"

definition cache_ok :: "('k, 'a) smap \<Rightarrow> bool" where
  "cache_ok m = distinct (map fst m)"

lemma cache_load_Nil [simp, harns_cache]: "cache_load [] k = None"
  by (simp add: cache_load_def)

lemma cache_load_store [simp, harns_cache]:
  "cache_load (cache_store k v m) k' = (if k' = k then Some v else cache_load m k')"
  by (induction m) (auto simp: cache_load_def)

lemma cache_load_delete [simp, harns_cache]:
  "cache_load (cache_delete k m) k' = (if k' = k then None else cache_load m k')"
  by (induction m) (auto simp: cache_load_def cache_delete_def)

lemma set_cache_store:
  "set (cache_store k v m) \<subseteq> insert (k, v) (set m)"
  by (induction m) (auto split: if_splits)

lemma fst_set_cache_store:
  "fst ` set (cache_store k v m) = insert k (fst ` set m)"
  by (induction k v m rule: cache_store.induct) auto

lemma cache_ok_Nil [simp]: "cache_ok []"
  by (simp add: cache_ok_def)

lemma cache_ok_store [simp, intro]: "cache_ok m \<Longrightarrow> cache_ok (cache_store k v m)"
  by (induction m) (auto simp: cache_ok_def fst_set_cache_store)

lemma cache_ok_delete [simp, intro]: "cache_ok m \<Longrightarrow> cache_ok (cache_delete k m)"
  by (induction m) (auto simp: cache_ok_def cache_delete_def)

lemma cache_load_in_set: "cache_load m k = Some v \<Longrightarrow> (k, v) \<in> set m"
  by (simp add: cache_load_def map_of_SomeD)

lemma cache_load_of_set: "cache_ok m \<Longrightarrow> (k, v) \<in> set m \<Longrightarrow> cache_load m k = Some v"
  by (simp add: cache_load_def cache_ok_def)

lemma cache_load_set_iff: "cache_ok m \<Longrightarrow> cache_load m k = Some v \<longleftrightarrow> (k, v) \<in> set m"
  by (blast intro: cache_load_in_set cache_load_of_set)

lemma cache_values_set: "set (cache_values m) = snd ` set m"
  by (simp add: cache_values_def)

subsection \<open>Subsequences\<close>

lemma subseq_set: "subseq xs ys \<Longrightarrow> set xs \<subseteq> set ys"
  by (induction rule: list_emb.induct) auto

lemma subseq_distinct: "subseq xs ys \<Longrightarrow> distinct ys \<Longrightarrow> distinct xs"
  by (induction rule: list_emb.induct) (auto dest: subseq_set)

lemma subseq_concat_filter: "subseq (concat (map f (filter P xs))) (concat (map f xs))"
  by (induction xs) (auto intro: list_emb_append_mono)

subsection \<open>Intervals\<close>

lemma upt_split: "i \<le> j \<Longrightarrow> j \<le> k \<Longrightarrow> [i..<k] = [i..<j] @ [j..<k]"
  by (metis le_add_diff_inverse upt_add_eq_append)

subsection \<open>Words\<close>

lemma bit64_less: "bit (w :: 64 word) k \<Longrightarrow> k < 64"
  by (drule bit_imp_le_length) simp

end
