(* ===== verification/Interfaces.thy ===== *)
theory Interfaces
  imports Harns_Prelude
begin

text \<open>
  The interfaces between the components, as locales: the operations a client calls and
  the laws it relies on.
\<close>

subsection \<open>Search results\<close>

text \<open>
  The contract of a search that answers with an index and a flag: the first index from
  \<open>i\<close> on that satisfies \<open>P\<close>, or \<open>(0, False)\<close> when there is none.
\<close>

definition first_from :: "(nat \<Rightarrow> bool) \<Rightarrow> nat \<Rightarrow> nat \<times> bool \<Rightarrow> bool" where
  "first_from P i r =
     (if snd r then i \<le> fst r \<and> P (fst r) \<and> (\<forall>k. i \<le> k \<and> k < fst r \<longrightarrow> \<not> P k)
      else fst r = 0 \<and> (\<forall>k. i \<le> k \<longrightarrow> \<not> P k))"

lemma first_from_unique: "first_from P i r \<Longrightarrow> first_from P i r' \<Longrightarrow> r = r'"
  by (cases r; cases r') (force simp: first_from_def not_less split: if_splits)

lemma first_from_skip:
  "first_from P i' r \<Longrightarrow> i \<le> i' \<Longrightarrow> (\<And>k. i \<le> k \<Longrightarrow> k < i' \<Longrightarrow> \<not> P k) \<Longrightarrow> first_from P i r"
  by (auto simp: first_from_def split: if_splits) (meson not_le_imp_less)+

subsection \<open>A set of identifiers below a capacity\<close>

text \<open>What the registry of consumers relies on when it looks for unused identifiers.\<close>

locale id_set =
  fixes create :: "nat \<Rightarrow> 's option"
    and add :: "'s \<Rightarrow> nat \<Rightarrow> 's"
    and next_free :: "'s \<Rightarrow> nat \<Rightarrow> nat \<times> bool"
    and capacity :: "'s \<Rightarrow> nat"
    and elems :: "'s \<Rightarrow> nat set"
    and valid :: "'s \<Rightarrow> bool"
  assumes create_valid: "create n = Some s \<Longrightarrow> valid s \<and> capacity s = n \<and> elems s = {}"
    and add_valid: "valid s \<Longrightarrow> valid (add s i)"
    and add_capacity: "capacity (add s i) = capacity s"
    and add_elems: "valid s \<Longrightarrow> elems (add s i) = elems s \<union> ({i} \<inter> {..<capacity s})"
    and next_free_first:
      "valid s \<Longrightarrow> first_from (\<lambda>j. j < capacity s \<and> j \<notin> elems s) i (next_free s i)"
begin

definition free_list :: "'s \<Rightarrow> nat \<Rightarrow> nat list" where
  "free_list s i = filter (\<lambda>j. j \<notin> elems s) [i..<capacity s]"

lemma add_all:
  "valid s \<Longrightarrow>
     valid (foldl add s is) \<and> capacity (foldl add s is) = capacity s \<and>
     elems (foldl add s is) = elems s \<union> (set is \<inter> {..<capacity s})"
  by (induction "is" arbitrary: s) (auto simp: add_valid add_capacity add_elems)

lemma free_list_next:
  assumes v: "valid s"
  shows "free_list s i = (case next_free s i of (j, ok) \<Rightarrow> if ok then j # free_list s (Suc j) else [])"
proof (cases "next_free s i")
  case (Pair j ok)
  with next_free_first [OF v, of i]
  have ff: "first_from (\<lambda>j. j < capacity s \<and> j \<notin> elems s) i (j, ok)" by simp
  show ?thesis
  proof (cases ok)
    case True
    with ff have "[i..<capacity s] = [i..<j] @ j # [Suc j..<capacity s]"
      using upt_split [of i j "capacity s"] by (simp add: first_from_def upt_conv_Cons)
    moreover have "filter (\<lambda>j. j \<notin> elems s) [i..<j] = []"
      using ff True by (auto simp: first_from_def filter_empty_conv)
    ultimately show ?thesis using ff True Pair by (simp add: free_list_def first_from_def)
  next
    case False
    with ff Pair show ?thesis
      by (auto simp: free_list_def first_from_def filter_empty_conv)
  qed
qed

end

subsection \<open>Tables that write and read an enumeration\<close>

text \<open>
  The \<open>...ToString\<close> and \<open>...FromString\<close> tables of the source: reading what was written
  gives the value back, and only what is written is read.
\<close>

locale codec =
  fixes enc :: "'e \<Rightarrow> 's" and dec :: "'s \<Rightarrow> 'e option"
  assumes dec_enc: "dec (enc x) = Some x"
    and enc_dec: "dec s = Some x \<Longrightarrow> enc x = s"
begin

lemma enc_inject: "enc x = enc y \<longleftrightarrow> x = y"
  by (metis dec_enc option.inject)

lemma dec_iff: "dec s = Some x \<longleftrightarrow> s = enc x"
  using dec_enc enc_dec by blast

lemma dec_None_iff: "dec s = None \<longleftrightarrow> (\<forall>x. s \<noteq> enc x)"
  by (metis dec_enc dec_iff not_None_eq)

end

text \<open>Codes of a fixed width can be cut off the front of a longer string.\<close>

locale prefix_codec = codec enc dec for enc :: "'e \<Rightarrow> 'c list" and dec :: "'c list \<Rightarrow> 'e option" +
  fixes width :: nat
  assumes width_enc: "length (enc x) = width"
begin

lemma dec_take: "dec (take width (enc x @ rest)) = Some x"
  using width_enc [of x] by (simp add: dec_enc)

lemma drop_enc: "drop (width + n) (enc x @ rest) = drop n rest"
  using width_enc [of x] by simp

lemma dec_width: "dec s = Some x \<Longrightarrow> length s = width"
  using enc_dec width_enc by blast

end

subsection \<open>Persistence behind a cache\<close>

text \<open>
  What the managers rely on when they send an object to the store and wait for the result:
  a saved object replaces what was stored under its identifier, a removal removes it, an
  error changes nothing. \<open>admissible\<close> delimits the objects and the environments for which the
  store promises this. The lemmas show that a manager that updates its cache with the saved object
  keeps cache and store equal.
\<close>

locale object_store =
  fixes persist :: "'env \<Rightarrow> 's \<Rightarrow> 'o \<Rightarrow> 's \<times> ('err + 'o option)"
    and stored :: "'s \<Rightarrow> string \<Rightarrow> 'o option"
    and id_of :: "'o \<Rightarrow> string"
    and admissible :: "'env \<Rightarrow> 'o \<Rightarrow> bool"
  assumes persist_saved: "admissible e ob \<Longrightarrow> persist e s ob = (s', Inr (Some ob')) \<Longrightarrow>
      id_of ob' = id_of ob \<and> stored s' = (stored s)(id_of ob \<mapsto> ob')"
    and persist_removed: "admissible e ob \<Longrightarrow> persist e s ob = (s', Inr None) \<Longrightarrow>
      stored s' = (stored s)(id_of ob := None)"
    and persist_failed: "admissible e ob \<Longrightarrow> persist e s ob = (s', Inl err) \<Longrightarrow> stored s' = stored s"
begin

definition coherent :: "'o cache \<Rightarrow> 's \<Rightarrow> bool" where
  "coherent m s = (cache_load m = stored s)"

lemma coherent_saved:
  assumes "coherent m s" "admissible e ob" "persist e s ob = (s', Inr (Some ob'))"
  shows "coherent (cache_store (id_of ob) ob' m) s'"
  using persist_saved [OF assms(2,3)] assms(1) by (auto simp: coherent_def)

lemma coherent_removed:
  assumes "coherent m s" "admissible e ob" "persist e s ob = (s', Inr None)"
  shows "coherent (cache_delete (id_of ob) m) s'"
  using persist_removed [OF assms(2,3)] assms(1) by (auto simp: coherent_def)

lemma coherent_failed:
  assumes "coherent m s" "admissible e ob" "persist e s ob = (s', Inl err)"
  shows "coherent m s'"
  using persist_failed [OF assms(2,3)] assms(1) by (simp add: coherent_def)

end

subsection \<open>Comparison functions\<close>

text \<open>
  What insertion by binary search needs of a comparison: a strict weak order. \<open>descending\<close> is the
  order of the listings: no element is less than one after it.
\<close>

locale weak_order =
  fixes less :: "'a \<Rightarrow> 'a \<Rightarrow> bool"
  assumes less_asym: "less x y \<Longrightarrow> \<not> less y x"
    and less_split: "less x z \<Longrightarrow> less x y \<or> less y z"
begin

definition descending :: "'a list \<Rightarrow> bool" where
  "descending xs = sorted_wrt (\<lambda>x y. \<not> less x y) xs"

lemma not_less_trans: "\<not> less x y \<Longrightarrow> \<not> less y z \<Longrightarrow> \<not> less x z"
  using less_split by blast

lemma less_mono: "\<not> less x y \<Longrightarrow> less x z \<Longrightarrow> less y z"
  using less_split by blast

lemma descending_insert:
  assumes d: "descending xs" and i: "i \<le> length xs"
    and pre: "\<And>j. j < i \<Longrightarrow> \<not> less (xs ! j) x" and post: "\<And>j. i \<le> j \<Longrightarrow> j < length xs \<Longrightarrow> less (xs ! j) x"
  shows "descending (take i xs @ x # drop i xs)"
proof -
  have 1: "\<not> less a x" if "a \<in> set (take i xs)" for a
    using that pre i by (auto simp: in_set_conv_nth)
  have 2: "\<not> less x b" if "b \<in> set (drop i xs)" for b
  proof -
    from that obtain k where k: "k < length xs - i" "b = xs ! (i + k)" by (auto simp: in_set_conv_nth)
    then have "less b x" using post [of "i + k"] by simp
    then show ?thesis by (rule less_asym)
  qed
  have "sorted_wrt (\<lambda>x y. \<not> less x y) (take i xs) \<and> sorted_wrt (\<lambda>x y. \<not> less x y) (drop i xs) \<and>
      (\<forall>a\<in>set (take i xs). \<forall>b\<in>set (drop i xs). \<not> less a b)"
    using d unfolding descending_def by (metis append_take_drop_id sorted_wrt_append)
  then show ?thesis using 1 2 by (auto simp: descending_def sorted_wrt_append)
qed

end

end
