(* ===== verification/Bitset.thy ===== *)
theory Bitset
  imports Interfaces
begin

text \<open>
  The bit set of \<open>src/pkg/util/bitset/bits.go\<close>: a length and a slice of 64-bit words.
  Go's \<open>uint\<close> indices are natural numbers: every sum the code forms is at most
  \<open>64 * length (bset b)\<close>, so none of them wraps. A slice is indexed inside its bounds
  for every value that \<open>New\<close> and the operations build (\<open>bs_ok\<close>).

  Shown: the operations keep \<open>bs_ok\<close> and implement a set of indices below the length;
  \<open>NextSet\<close> and \<open>NextClear\<close> return the first member and the first non-member from an index
  on; \<open>String\<close> prints the set bit by bit, and panics when the length is a multiple of 64.
\<close>

record BitSet =
  len :: nat
  bset :: "64 word list"

definition BitSet_New :: "nat \<Rightarrow> BitSet option" where
  "BitSet_New n = (if n \<le> 0 then None
            else Some \<lparr>len = n, bset = replicate (((n - 1) div 64) + 1) 0\<rparr>)"

definition BitSet_Len :: "BitSet \<Rightarrow> nat" where
  "BitSet_Len b = len b"

definition BitSet_Get :: "BitSet \<Rightarrow> nat \<Rightarrow> bool" where
  "BitSet_Get b i = (if i \<ge> len b then False
              else (bset b ! (i div 64)) AND (push_bit (i mod 64) 1) \<noteq> 0)"

definition BitSet_Clean :: "BitSet \<Rightarrow> BitSet" where
  "BitSet_Clean b = b\<lparr>bset := map (\<lambda>_. 0) (bset b)\<rparr>"

definition BitSet_Set :: "BitSet \<Rightarrow> nat \<Rightarrow> BitSet" where
  "BitSet_Set b i = (if i \<ge> len b then b
              else b\<lparr>bset := (bset b)[i div 64 := (bset b ! (i div 64)) OR push_bit (i mod 64) 1]\<rparr>)"

definition BitSet_Clear :: "BitSet \<Rightarrow> nat \<Rightarrow> BitSet" where
  "BitSet_Clear b i = (if i \<ge> len b then b
                else b\<lparr>bset := (bset b)[i div 64 := (bset b ! (i div 64)) AND NOT (push_bit (i mod 64) 1)]\<rparr>)"

definition BitSet_SetValue :: "BitSet \<Rightarrow> nat \<Rightarrow> bool \<Rightarrow> BitSet" where
  "BitSet_SetValue b i v = (if i \<ge> len b then b else if v then BitSet_Set b i else BitSet_Clear b i)"

text \<open>\<open>bits.TrailingZeros64\<close> of the standard library: 64 for the zero word.\<close>

definition TrailingZeros64 :: "64 word \<Rightarrow> nat" where
  "TrailingZeros64 w = (case find (bit w) [0..<64] of None \<Rightarrow> 64 | Some n \<Rightarrow> n)"

text \<open>The loops over the words after the one that holds the starting index.\<close>

function BitSet_NextSet_loop :: "BitSet \<Rightarrow> nat \<Rightarrow> nat \<times> bool" where
  "BitSet_NextSet_loop b x =
     (if x < length (bset b)
      then if bset b ! x \<noteq> 0 then (x * 64 + TrailingZeros64 (bset b ! x), True)
           else BitSet_NextSet_loop b (x + 1)
      else (0, False))"
  by pat_completeness auto
termination
  by (relation "measure (\<lambda>(b, x). length (bset b) - x)") auto

definition BitSet_NextSet :: "BitSet \<Rightarrow> nat \<Rightarrow> nat \<times> bool" where
  "BitSet_NextSet b i =
     (let x = i div 64 in
      if x \<ge> length (bset b) then (0, False)
      else let w = drop_bit (i mod 64) (bset b ! x) in
           if w \<noteq> 0 then (i + TrailingZeros64 w, True)
           else BitSet_NextSet_loop b (x + 1))"

function BitSet_NextClear_loop :: "BitSet \<Rightarrow> nat \<Rightarrow> nat \<times> bool" where
  "BitSet_NextClear_loop b x =
     (if x < length (bset b)
      then let index = x * 64 + TrailingZeros64 (NOT (bset b ! x)) in
           if bset b ! x \<noteq> - 1 \<and> index < len b then (index, True)
           else BitSet_NextClear_loop b (x + 1)
      else (0, False))"
  by pat_completeness auto
termination
  by (relation "measure (\<lambda>(b, x). length (bset b) - x)") auto

definition BitSet_NextClear :: "BitSet \<Rightarrow> nat \<Rightarrow> nat \<times> bool" where
  "BitSet_NextClear b i =
     (let x = i div 64 in
      if x \<ge> length (bset b) then (0, False)
      else let w = drop_bit (i mod 64) (bset b ! x);
               wA = drop_bit (i mod 64) (- 1);
               index = i + TrailingZeros64 (NOT w) in
           if w \<noteq> wA \<and> index < len b then (index, True)
           else BitSet_NextClear_loop b (x + 1))"

text \<open>
  The verb \<open>%0nb\<close> of package fmt on a 64-bit word: its binary digits, most significant
  first and without leading zeros (\<open>0\<close> for the zero word), padded with zeros to width n.
\<close>

definition bit_char :: "bool \<Rightarrow> char" where
  "bit_char v = (if v then CHR ''1'' else CHR ''0'')"

definition low_digits :: "nat \<Rightarrow> 64 word \<Rightarrow> string" where
  "low_digits n w = map (\<lambda>k. bit_char (bit w k)) (rev [0..<n])"

definition bin_digits :: "64 word \<Rightarrow> string" where
  "bin_digits w =
     (case dropWhile (\<lambda>c. c = CHR ''0'') (low_digits 64 w) of [] \<Rightarrow> ''0'' | ds \<Rightarrow> ds)"

definition fmt_b :: "nat \<Rightarrow> 64 word \<Rightarrow> string" where
  "fmt_b n w = (let ds = bin_digits w in replicate (n - length ds) (CHR ''0'') @ ds)"

text \<open>\<open>None\<close> is the index-out-of-range panic of the slice access \<open>b.set[quotient]\<close>.\<close>

definition BitSet_String :: "BitSet \<Rightarrow> string option" where
  "BitSet_String b =
     (let quotient = len b div 64; remainder = len b mod 64 in
      if quotient < length (bset b)
      then Some (fmt_b remainder (bset b ! quotient) @
                 concat (map (\<lambda>i. fmt_b 64 (bset b ! i)) (rev [0..<quotient])))
      else None)"

declare BitSet_NextSet_loop.simps [simp del] BitSet_NextClear_loop.simps [simp del]

subsection \<open>The set a bit set stands for\<close>

definition word_bit :: "BitSet \<Rightarrow> nat \<Rightarrow> bool" where
  "word_bit b j = (j < 64 * length (bset b) \<and> bit (bset b ! (j div 64)) (j mod 64))"

definition bs_ok :: "BitSet \<Rightarrow> bool" where
  "bs_ok b = (0 < len b \<and> length (bset b) = (len b - 1) div 64 + 1 \<and>
              (\<forall>w \<in> set (zip [0..<length (bset b)] (bset b)).
                 \<forall>k \<in> set [0..<64]. len b \<le> fst w * 64 + k \<longrightarrow> \<not> bit (snd w) k))"

definition members :: "BitSet \<Rightarrow> nat set" where
  "members b = {i. i < len b \<and> word_bit b i}"

lemma bs_ok_iff:
  "bs_ok b \<longleftrightarrow> 0 < len b \<and> length (bset b) = (len b - 1) div 64 + 1 \<and> (\<forall>j. word_bit b j \<longrightarrow> j < len b)"
proof -
  have "(\<forall>w \<in> set (zip [0..<length (bset b)] (bset b)).
                 \<forall>k \<in> set [0..<64]. len b \<le> fst w * 64 + k \<longrightarrow> \<not> bit (snd w) k)
        \<longleftrightarrow> (\<forall>j. word_bit b j \<longrightarrow> j < len b)" (is "?L \<longleftrightarrow> ?R")
  proof
    assume L: ?L
    show ?R
    proof (intro allI impI)
      fix j assume j: "word_bit b j"
      then have x: "j div 64 < length (bset b)" by (auto simp: word_bit_def)
      then have "(j div 64, bset b ! (j div 64)) \<in> set (zip [0..<length (bset b)] (bset b))"
        by (force simp: set_zip)
      with L j have "\<not> len b \<le> j div 64 * 64 + j mod 64"
        by (fastforce simp: word_bit_def)
      then show "j < len b" by simp
    qed
  next
    assume R: ?R
    show ?L
    proof (intro ballI impI notI)
      fix w k assume w: "w \<in> set (zip [0..<length (bset b)] (bset b))"
        and k: "k \<in> set [0..<64]" and le: "len b \<le> fst w * 64 + k" and bit: "bit (snd w) k"
      from w obtain i where i: "i < length (bset b)" "w = (i, bset b ! i)"
        by (auto simp: set_zip)
      with k bit have "word_bit b (i * 64 + k)"
        by (auto simp: word_bit_def)
      with R have "i * 64 + k < len b" by blast
      with le i show False by simp
    qed
  qed
  then show ?thesis by (simp add: bs_ok_def)
qed

lemma bs_ok_capacity: "bs_ok b \<Longrightarrow> len b \<le> 64 * length (bset b)"
  by (auto simp: bs_ok_iff)

lemma bs_ok_index: "bs_ok b \<Longrightarrow> i < len b \<Longrightarrow> i div 64 < length (bset b)"
  by (auto simp: bs_ok_iff)

lemma BitSet_Get_members: "bs_ok b \<Longrightarrow> BitSet_Get b i \<longleftrightarrow> i \<in> members b"
  by (auto simp: BitSet_Get_def members_def word_bit_def and_exp_eq_0_iff_not_bit dest: bs_ok_capacity)

lemma members_bound: "members b \<subseteq> {..<len b}"
  by (auto simp: members_def)

subsection \<open>The operations keep the invariant and act on the set\<close>

lemma len_ops [simp]:
  "len (BitSet_Set b i) = len b" "len (BitSet_Clear b i) = len b"
  "len (BitSet_SetValue b i v) = len b" "len (BitSet_Clean b) = len b"
  by (simp_all add: BitSet_Set_def BitSet_Clear_def BitSet_SetValue_def BitSet_Clean_def)

lemma length_bset_ops [simp]:
  "length (bset (BitSet_Set b i)) = length (bset b)"
  "length (bset (BitSet_Clear b i)) = length (bset b)"
  "length (bset (BitSet_Clean b)) = length (bset b)"
  by (simp_all add: BitSet_Set_def BitSet_Clear_def BitSet_Clean_def)

lemma word_bit_Set:
  assumes "bs_ok b"
  shows "word_bit (BitSet_Set b i) j \<longleftrightarrow> word_bit b j \<or> (j = i \<and> i < len b)"
proof (cases "i < len b")
  case True
  with assms have "i div 64 < length (bset b)" by (rule bs_ok_index)
  moreover from this have "i < 64 * length (bset b)" by simp
  moreover have "j = i \<longleftrightarrow> j div 64 = i div 64 \<and> j mod 64 = i mod 64"
    by (metis div_mult_mod_eq)
  ultimately show ?thesis using True
    by (auto simp: BitSet_Set_def word_bit_def nth_list_update bit_simps)
next
  case False
  then show ?thesis by (simp add: BitSet_Set_def)
qed

lemma word_bit_Clear:
  assumes "bs_ok b"
  shows "word_bit (BitSet_Clear b i) j \<longleftrightarrow> word_bit b j \<and> j \<noteq> i"
proof (cases "i < len b")
  case True
  with assms have "i div 64 < length (bset b)" by (rule bs_ok_index)
  moreover have "j = i \<longleftrightarrow> j div 64 = i div 64 \<and> j mod 64 = i mod 64"
    by (metis div_mult_mod_eq)
  ultimately show ?thesis using True
    by (auto simp: BitSet_Clear_def word_bit_def nth_list_update bit_simps)
next
  case False
  with assms show ?thesis by (auto simp: BitSet_Clear_def bs_ok_iff)
qed

lemma word_bit_Clean: "\<not> word_bit (BitSet_Clean b) j"
  by (auto simp: BitSet_Clean_def word_bit_def)

lemma bs_ok_Set [simp, intro]: "bs_ok b \<Longrightarrow> bs_ok (BitSet_Set b i)"
  using word_bit_Set [of b i] by (auto simp: bs_ok_iff)

lemma bs_ok_Clear [simp, intro]: "bs_ok b \<Longrightarrow> bs_ok (BitSet_Clear b i)"
  using word_bit_Clear [of b i] by (auto simp: bs_ok_iff)

lemma bs_ok_SetValue [simp, intro]: "bs_ok b \<Longrightarrow> bs_ok (BitSet_SetValue b i v)"
  by (simp add: BitSet_SetValue_def)

lemma bs_ok_Clean [simp, intro]: "bs_ok b \<Longrightarrow> bs_ok (BitSet_Clean b)"
  by (simp add: bs_ok_iff word_bit_Clean)

lemma members_Set: "bs_ok b \<Longrightarrow> members (BitSet_Set b i) = members b \<union> ({i} \<inter> {..<len b})"
  by (auto simp: members_def word_bit_Set)

lemma members_Clear: "bs_ok b \<Longrightarrow> members (BitSet_Clear b i) = members b - {i}"
  by (auto simp: members_def word_bit_Clear)

lemma members_SetValue:
  "bs_ok b \<Longrightarrow> members (BitSet_SetValue b i v) =
     (if v then members b \<union> ({i} \<inter> {..<len b}) else members b - {i})"
  by (auto simp: BitSet_SetValue_def members_Set members_Clear) (auto simp: members_def)

lemma members_Clean: "members (BitSet_Clean b) = {}"
  by (simp add: members_def word_bit_Clean)

lemma word_bit_zeros: "\<not> word_bit \<lparr>len = n, bset = replicate m 0\<rparr> j"
  by (auto simp: word_bit_def)

lemma BitSet_New_ok: "BitSet_New n = Some b \<Longrightarrow> bs_ok b \<and> len b = n \<and> members b = {}"
  by (auto simp: BitSet_New_def bs_ok_iff members_def word_bit_zeros simp del: replicate.simps
      split: if_splits)

lemma BitSet_New_Some: "0 < n \<Longrightarrow> \<exists>b. BitSet_New n = Some b"
  by (simp add: BitSet_New_def)

subsection \<open>The searches\<close>

lemma TrailingZeros64_nonzero:
  assumes "w \<noteq> 0"
  shows "TrailingZeros64 w < 64" "bit w (TrailingZeros64 w)"
    "k < TrailingZeros64 w \<Longrightarrow> \<not> bit w k"
proof -
  from assms obtain n where "bit w n" by (auto simp: bit_eq_iff)
  moreover from this have "n < 64" using bit_imp_le_length by fastforce
  ultimately have "find (bit w) [0..<64] \<noteq> None"
    by (auto simp: find_None_iff)
  then obtain m where m: "find (bit w) [0..<64] = Some m" by auto
  then have "m < 64 \<and> bit w m \<and> (\<forall>k<m. \<not> bit w k)"
    by (auto simp: find_Some_iff)
  with m show "TrailingZeros64 w < 64" "bit w (TrailingZeros64 w)"
    "k < TrailingZeros64 w \<Longrightarrow> \<not> bit w k"
    by (auto simp: TrailingZeros64_def)
qed

text \<open>A word of the slice read from its bit \<open>k\<close> on, against the bits of the whole set.\<close>

lemma word_bit_word:
  "x < length (bset b) \<Longrightarrow> k < 64 \<Longrightarrow> word_bit b (x * 64 + k) \<longleftrightarrow> bit (bset b ! x) k"
  by (auto simp: word_bit_def)

lemma word_bit_in_word:
  assumes "x < length (bset b)" "x * 64 \<le> j" "j < x * 64 + 64"
  shows "word_bit b j \<longleftrightarrow> bit (bset b ! x) (j - x * 64)"
  using word_bit_word [of x b "j - x * 64"] assms by simp

lemma first_in_word:
  assumes x: "x < length (bset b)" and i: "x * 64 \<le> i" "i < x * 64 + 64"
    and w: "w \<noteq> 0"
    and P: "\<And>k. i + k < x * 64 + 64 \<Longrightarrow> bit w k \<longleftrightarrow> P (i + k)"
    and inside: "i + TrailingZeros64 w < x * 64 + 64"
  shows "first_from P i (i + TrailingZeros64 w, True)"
proof -
  have "P (i + TrailingZeros64 w)"
    using P [OF inside] TrailingZeros64_nonzero(2) [OF w] by simp
  moreover have "\<not> P k" if "i \<le> k" "k < i + TrailingZeros64 w" for k
    using P [of "k - i"] TrailingZeros64_nonzero(3) [OF w, of "k - i"] that inside by auto
  ultimately show ?thesis by (auto simp: first_from_def)
qed

lemma NextSet_loop_first: "first_from (word_bit b) (x * 64) (BitSet_NextSet_loop b x)"
proof (induction b x rule: BitSet_NextSet_loop.induct)
  case (1 b x)
  show ?case
  proof (cases "x < length (bset b)")
    case False
    then show ?thesis
      by (subst BitSet_NextSet_loop.simps) (auto simp: first_from_def word_bit_def)
  next
    case x: True
    show ?thesis
    proof (cases "bset b ! x = 0")
      case True
      have "first_from (word_bit b) (x * 64) (BitSet_NextSet_loop b (x + 1))"
      proof (rule first_from_skip [OF 1 [OF x]])
        show "\<not> word_bit b k" if "x * 64 \<le> k" "k < (x + 1) * 64" for k
          using that True by (simp add: word_bit_in_word [OF x])
      qed (use True in simp_all)
      with x True show ?thesis by (subst BitSet_NextSet_loop.simps) simp
    next
      case False
      have "first_from (word_bit b) (x * 64) (x * 64 + TrailingZeros64 (bset b ! x), True)"
        using TrailingZeros64_nonzero(1) [OF False] x
        by (intro first_in_word [OF x _ _ False]) (auto simp: word_bit_word)
      with x False show ?thesis by (subst BitSet_NextSet_loop.simps) simp
    qed
  qed
qed

lemma NextSet_first: "first_from (word_bit b) i (BitSet_NextSet b i)"
proof (cases "i div 64 < length (bset b)")
  case False
  then show ?thesis by (auto simp: BitSet_NextSet_def first_from_def word_bit_def)
next
  case x: True
  let ?x = "i div 64" and ?w = "drop_bit (i mod 64) (bset b ! (i div 64))"
  have i: "?x * 64 \<le> i" "i < ?x * 64 + 64" "i = ?x * 64 + i mod 64" by simp_all
  have bits: "bit ?w k \<longleftrightarrow> word_bit b (i + k)" if "i + k < ?x * 64 + 64" for k
    using that word_bit_word [OF x, of "i mod 64 + k"] i(3)
    by (simp add: bit_drop_bit_eq add.assoc [symmetric])
  have top: "i + k < ?x * 64 + 64" if "bit ?w k" for k
  proof -
    from that have "i mod 64 + k < 64"
      by (auto simp: bit_drop_bit_eq intro: bit64_less)
    with i(3) show ?thesis by linarith
  qed
  show ?thesis
  proof (cases "?w = 0")
    case True
    have "first_from (word_bit b) i (BitSet_NextSet_loop b (?x + 1))"
    proof (rule first_from_skip [OF NextSet_loop_first])
      show "\<not> word_bit b k" if "i \<le> k" "k < (?x + 1) * 64" for k
        using bits [of "k - i"] that True by simp
    qed (use i(2) in simp)
    with x True show ?thesis by (simp add: BitSet_NextSet_def Let_def)
  next
    case False
    then have "first_from (word_bit b) i (i + TrailingZeros64 ?w, True)"
      using TrailingZeros64_nonzero [OF False] top bits
      by (intro first_in_word [OF x i(1,2) False]) auto
    with x False show ?thesis by (simp add: BitSet_NextSet_def Let_def)
  qed
qed

text \<open>\<open>NextClear\<close> also stops at the length of the set.\<close>

abbreviation free_bit :: "BitSet \<Rightarrow> nat \<Rightarrow> bool" where
  "free_bit b j \<equiv> j < len b \<and> \<not> word_bit b j"

lemma no_free_beyond: "len b \<le> 64 * length (bset b) \<Longrightarrow> length (bset b) \<le> x \<Longrightarrow> x * 64 \<le> k \<Longrightarrow> \<not> free_bit b k"
  by auto

lemma not_NOT_zero: "(w :: 64 word) \<noteq> - 1 \<longleftrightarrow> NOT w \<noteq> 0"
  by (metis bit.compl_zero bit.double_compl)

lemma NextClear_loop_first:
  "len b \<le> 64 * length (bset b) \<Longrightarrow> first_from (free_bit b) (x * 64) (BitSet_NextClear_loop b x)"
proof (induction b x rule: BitSet_NextClear_loop.induct)
  case (1 b x)
  show ?case
  proof (cases "x < length (bset b)")
    case False
    with 1(2) show ?thesis
      by (subst BitSet_NextClear_loop.simps) (auto simp: first_from_def)
  next
    case x: True
    let ?w = "NOT (bset b ! x)" and ?index = "x * 64 + TrailingZeros64 (NOT (bset b ! x))"
    have wb: "bit ?w k \<longleftrightarrow> \<not> word_bit b (x * 64 + k)" if "k < 64" for k
      using that by (simp add: word_bit_word [OF x] bit_simps)
    show ?thesis
    proof (cases "bset b ! x \<noteq> - 1 \<and> ?index < len b")
      case True
      then have w: "?w \<noteq> 0" by (simp add: not_NOT_zero)
      from True have "first_from (\<lambda>j. \<not> word_bit b j) (x * 64) (?index, True)"
        using TrailingZeros64_nonzero(1) [OF w]
        by (intro first_in_word [OF x _ _ w]) (auto simp: wb)
      with True x show ?thesis
        by (subst BitSet_NextClear_loop.simps) (auto simp: Let_def first_from_def)
    next
      case False
      have "first_from (free_bit b) (x * 64) (BitSet_NextClear_loop b (x + 1))"
      proof (rule first_from_skip [OF "1.IH" [OF x refl False "1.prems"]])
        show "\<not> free_bit b k" if k: "x * 64 \<le> k" "k < (x + 1) * 64" for k
        proof (cases "?w = 0")
          case True
          with k show ?thesis using wb [of "k - x * 64"] by simp
        next
          case w: False
          with False have "len b \<le> ?index" by (simp add: not_NOT_zero)
          moreover have "word_bit b k" if "k < ?index"
            using wb [of "k - x * 64"] TrailingZeros64_nonzero(3) [OF w, of "k - x * 64"] k that by simp
          ultimately show ?thesis by linarith
        qed
      qed simp
      with False x show ?thesis
        by (subst BitSet_NextClear_loop.simps) (auto simp: Let_def)
    qed
  qed
qed

lemma NextClear_first:
  assumes ok: "bs_ok b"
  shows "first_from (free_bit b) i (BitSet_NextClear b i)"
proof (cases "i div 64 < length (bset b)")
  case False
  with bs_ok_capacity [OF ok] show ?thesis
    by (auto simp: BitSet_NextClear_def first_from_def)
next
  case x: True
  let ?x = "i div 64" and ?w = "drop_bit (i mod 64) (bset b ! (i div 64))"
    and ?wA = "drop_bit (i mod 64) (- 1 :: 64 word)"
  let ?index = "i + TrailingZeros64 (NOT ?w)"
  have i: "?x * 64 \<le> i" "i < ?x * 64 + 64" "i = ?x * 64 + i mod 64" by simp_all
  have wb: "bit (NOT ?w) k \<longleftrightarrow> \<not> word_bit b (i + k)" if "i + k < ?x * 64 + 64" for k
  proof -
    from that i(3) have "i mod 64 + k < 64" by linarith
    then show ?thesis
      using word_bit_word [OF x, of "i mod 64 + k"] i(3)
      by (simp add: bit_drop_bit_eq bit_not_iff add.assoc [symmetric])
  qed
  have full: "?w = ?wA" if "\<And>k. i + k < ?x * 64 + 64 \<Longrightarrow> word_bit b (i + k)"
  proof (rule bit_eqI)
    fix k
    show "bit ?w k = bit ?wA k"
    proof (cases "i + k < ?x * 64 + 64")
      case True
      moreover from this i(3) have "i mod 64 + k < 64" by linarith
      ultimately show ?thesis using wb [OF True] that [OF True]
        by (simp add: bit_not_iff bit_drop_bit_eq bit_mask_iff)
    next
      case False
      with i(3) have "\<not> i mod 64 + k < 64" by linarith
      then show ?thesis
        using bit64_less [of "bset b ! ?x" "i mod 64 + k"]
        by (auto simp: bit_drop_bit_eq bit_mask_iff)
    qed
  qed
  have nz: "NOT ?w \<noteq> 0 \<and> ?index < ?x * 64 + 64" if ne: "?w \<noteq> ?wA"
  proof -
    from ne full obtain k where k: "i + k < ?x * 64 + 64" "\<not> word_bit b (i + k)" by blast
    with wb have "bit (NOT ?w) k" by blast
    then have "NOT ?w \<noteq> 0" by auto
    with \<open>bit (NOT ?w) k\<close> have "\<not> k < TrailingZeros64 (NOT ?w)"
      using TrailingZeros64_nonzero(3) by blast
    with k(1) \<open>NOT ?w \<noteq> 0\<close> show ?thesis by linarith
  qed
  show ?thesis
  proof (cases "?w \<noteq> ?wA \<and> ?index < len b")
    case True
    with nz have w: "NOT ?w \<noteq> 0" "?index < ?x * 64 + 64" by blast+
    have "first_from (\<lambda>j. \<not> word_bit b j) i (?index, True)"
      by (rule first_in_word [OF x i(1,2) w(1) wb w(2)])
    with True x show ?thesis by (auto simp: BitSet_NextClear_def Let_def first_from_def)
  next
    case False
    have "first_from (free_bit b) i (BitSet_NextClear_loop b (?x + 1))"
    proof (rule first_from_skip [OF NextClear_loop_first [OF bs_ok_capacity [OF ok]]])
      show "\<not> free_bit b k" if k: "i \<le> k" "k < (?x + 1) * 64" for k
      proof (cases "?w = ?wA")
        case True
        moreover from k have "i + (k - i) < ?x * 64 + 64" by simp
        with i(3) have "i mod 64 + (k - i) < 64" by linarith
        ultimately have "\<not> bit (NOT ?w) (k - i)"
          by (simp add: bit_not_iff bit_drop_bit_eq bit_mask_iff)
        with wb [of "k - i"] k show ?thesis by simp
      next
        case ne: False
        with False have "len b \<le> ?index" by linarith
        moreover have "word_bit b k" if "k < ?index"
          using wb [of "k - i"] TrailingZeros64_nonzero(3) [of "NOT ?w" "k - i"] nz [OF ne] k that
          by simp
        ultimately show ?thesis by linarith
      qed
    qed (use i(2) in simp)
    with False x show ?thesis by (auto simp: BitSet_NextClear_def Let_def)
  qed
qed

subsection \<open>Printing\<close>

lemma dropWhile_zeros:
  "replicate (length ds - length (dropWhile (\<lambda>c. c = z) ds)) z @ dropWhile (\<lambda>c. c = z) ds = ds"
  by (induction ds) (auto simp: Suc_diff_le length_dropWhile_le)

lemma length_low_digits [simp]: "length (low_digits n w) = n"
  by (simp add: low_digits_def)

lemma low_digits_split:
  assumes "n \<le> m"
  shows "low_digits m w = map (\<lambda>k. bit_char (bit w k)) (rev [n..<m]) @ low_digits n w"
proof -
  from assms have "[0..<m] = [0..<n] @ [n..<m]"
    by (intro upt_split) simp_all
  then show ?thesis by (simp add: low_digits_def)
qed

lemma bin_digits_low:
  assumes "n \<le> 64" and top: "\<And>k. n \<le> k \<Longrightarrow> \<not> bit w k"
  shows "bin_digits w = (case dropWhile (\<lambda>c. c = CHR ''0'') (low_digits n w) of [] \<Rightarrow> ''0'' | ds \<Rightarrow> ds)"
proof -
  have "dropWhile (\<lambda>c. c = CHR ''0'') (low_digits 64 w) = dropWhile (\<lambda>c. c = CHR ''0'') (low_digits n w)"
    unfolding low_digits_split [OF assms(1)]
    by (rule dropWhile_append2) (auto simp: bit_char_def top)
  then show ?thesis by (simp only: bin_digits_def)
qed

lemma fmt_b_digits:
  assumes n: "0 < n" "n \<le> 64" and top: "\<And>k. n \<le> k \<Longrightarrow> \<not> bit w k"
  shows "fmt_b n w = low_digits n w"
proof (cases "dropWhile (\<lambda>c. c = CHR ''0'') (low_digits n w)")
  case Nil
  then have "\<forall>c \<in> set (low_digits n w). c = CHR ''0''"
    by (simp add: dropWhile_eq_Nil_conv)
  then have "low_digits n w = replicate n (CHR ''0'')"
    by (metis length_low_digits replicate_length_same)
  moreover have "replicate (n - 1) (CHR ''0'') @ ''0'' = replicate n (CHR ''0'')"
    using n(1) by (cases n) (simp_all add: replicate_append_same)
  ultimately show ?thesis
    by (simp add: fmt_b_def bin_digits_low [OF n(2) top] Nil)
next
  case (Cons e es)
  with dropWhile_zeros [of "low_digits n w" "CHR ''0''"] show ?thesis
    by (simp add: fmt_b_def bin_digits_low [OF n(2) top])
qed

text \<open>
  The printed form, most significant bit first: the low digits of the partial last word and
  then 64 digits for every full word below it.
\<close>

definition bits_of :: "BitSet \<Rightarrow> string" where
  "bits_of b = map (\<lambda>i. bit_char (BitSet_Get b i)) (rev [0..<len b])"

lemma low_digits_word:
  assumes ok: "bs_ok b" and n: "n \<le> 64" "64 * x + n \<le> len b" "x < length (bset b)"
  shows "low_digits n (bset b ! x) = map (\<lambda>i. bit_char (BitSet_Get b i)) (rev [64 * x..<64 * x + n])"
proof -
  have "BitSet_Get b (64 * x + k) \<longleftrightarrow> bit (bset b ! x) k" if "k < n" for k
    using n that by (auto simp: BitSet_Get_members [OF ok] members_def word_bit_def)
  moreover have "[64 * x..<64 * x + n] = map (\<lambda>k. k + 64 * x) [0..<n]"
    by (simp add: map_add_upt add.commute)
  ultimately show ?thesis by (simp add: low_digits_def rev_map add.commute)
qed

lemma full_words_digits:
  assumes ok: "bs_ok b" and q: "q \<le> length (bset b)" "64 * q \<le> len b"
  shows "concat (map (\<lambda>i. fmt_b 64 (bset b ! i)) (rev [0..<q])) =
         map (\<lambda>i. bit_char (BitSet_Get b i)) (rev [0..<64 * q])"
  using q
proof (induction q)
  case (Suc q)
  have "fmt_b 64 (bset b ! q) = low_digits 64 (bset b ! q)"
    by (rule fmt_b_digits) (auto dest: bit64_less)
  also have "\<dots> = map (\<lambda>i. bit_char (BitSet_Get b i)) (rev [64 * q..<64 * q + 64])"
    using Suc.prems by (intro low_digits_word [OF ok]) auto
  finally show ?case using Suc upt_add_eq_append [of 0 "64 * q" 64]
    by (simp add: add.commute)
qed simp

text \<open>
  Printing. The printed form is the bits of the set, most significant first, whenever
  the length is not a multiple of 64; for a multiple of 64 the slice access is out of range.
\<close>

theorem BitSet_String_bits:
  assumes ok: "bs_ok b"
  shows "BitSet_String b = (if len b mod 64 = 0 then None else Some (bits_of b))"
proof (cases "len b mod 64 = 0")
  case True
  with ok have "\<not> len b div 64 < length (bset b)"
    by (auto simp: bs_ok_iff)
  with True show ?thesis by (simp add: BitSet_String_def)
next
  case False
  let ?q = "len b div 64" and ?r = "len b mod 64"
  have len: "len b = 64 * ?q + ?r" by simp
  from False have "(len b - 1) div 64 = ?q"
    by (metis Suc_pred' diff_Suc_1 div_Suc mod_0 neq0_conv not_gr_zero)
  then have q: "?q < length (bset b)" using ok by (simp add: bs_ok_iff)
  have "fmt_b ?r (bset b ! ?q) = low_digits ?r (bset b ! ?q)"
  proof (rule fmt_b_digits)
    show "\<not> bit (bset b ! ?q) k" if "?r \<le> k" for k
    proof
      assume bit: "bit (bset b ! ?q) k"
      then have "word_bit b (?q * 64 + k)" using q by (simp add: word_bit_word bit64_less)
      then have "?q * 64 + k < len b" using ok by (simp add: bs_ok_iff)
      with that show False using len by linarith
    qed
  qed (use False in auto)
  also have "\<dots> = map (\<lambda>i. bit_char (BitSet_Get b i)) (rev [64 * ?q..<64 * ?q + ?r])"
    using q len by (intro low_digits_word [OF ok]) (auto intro: less_imp_le)
  finally show ?thesis
    using False q full_words_digits [OF ok, of ?q] upt_add_eq_append [of 0 "64 * ?q" ?r]
    by (simp add: BitSet_String_def bits_of_def Let_def)
qed


theorem BitSet_String_bits_witness:
  "bs_ok \<lparr>len = 3, bset = [5]\<rparr> \<and> BitSet_String \<lparr>len = 3, bset = [5]\<rparr> = Some ''101''"
proof -
  have ok: "bs_ok \<lparr>len = 3, bset = [5]\<rparr>" by code_simp
  moreover have "bits_of \<lparr>len = 3, bset = [5]\<rparr> = ''101''" by code_simp
  ultimately show ?thesis using BitSet_String_bits [OF ok] by simp
qed

subsection \<open>The set of identifiers\<close>

interpretation bits: id_set BitSet_New BitSet_Set BitSet_NextClear len members bs_ok
proof unfold_locales
  show "bs_ok s \<and> len s = n \<and> members s = {}" if "BitSet_New n = Some s" for n s
    using that by (rule BitSet_New_ok)
  show "first_from (\<lambda>j. j < len s \<and> j \<notin> members s) i (BitSet_NextClear s i)" if "bs_ok s" for s i
  proof -
    have "(\<lambda>j. j < len s \<and> j \<notin> members s) = free_bit s" by (auto simp: members_def)
    with NextClear_first [OF that] show ?thesis by simp
  qed
qed (auto simp: members_Set)

end
