(* ===== verification/Registry.thy ===== *)
theory Registry
  imports Bitset
begin

text \<open>
  The registry of consumer instances: \<open>src/pkg/consumer/instance/registry.go\<close> and the
  consumer list of \<open>src/pkg/consumer/instance/consumer.go\<close>. Each instance holds some of the
  worker identifiers \<open>0 ..< maxInstances\<close>; \<open>allocateIDs\<close> drops the instances that stopped
  their heartbeat and moves this instance towards its fair share of the identifiers.

  Consumer entries are shared by pointer in the source (\<open>self\<close> is an element of \<open>ws\<close>);
  the model writes the new \<open>self\<close> back at its index. \<open>None\<close> is a run-time panic: the division
  by zero on an empty list, and the nil bit set of a registry with no identifiers.
  The log storage that holds the list is a parameter: the list read from it comes in as an
  argument and the list to be written is part of the result.
\<close>

record consumerInfo =
  ci_IDs :: "nat list"
  ci_Name :: string
  ci_RecentTime :: int

type_synonym consumers = "consumerInfo list"

record registry =
  heartbeatInterval :: int
  maxInstances :: nat
  instanceName :: string

fun findByName_from :: "nat \<Rightarrow> consumers \<Rightarrow> string \<Rightarrow> int" where
  "findByName_from i [] name = -1"
| "findByName_from i (c # cs) name =
     (if ci_Name c = name then int i else findByName_from (i + 1) cs name)"

definition findByName :: "consumers \<Rightarrow> string \<Rightarrow> int" where
  "findByName cs name = findByName_from 0 cs name"

text \<open>\<open>now\<close> is the clock in milliseconds, read once per call.\<close>

definition collate :: "registry \<Rightarrow> int \<Rightarrow> consumers \<Rightarrow> consumers" where
  "collate r now ws = filter (\<lambda>w. now - ci_RecentTime w < 20 * heartbeatInterval r) ws"

text \<open>
  The loop that gives identifiers back, from the last position down; \<open>lockedIDs\<close> is asked
  about the position, and a locked position uses up one round as well.
\<close>

fun release_loop :: "nat list \<Rightarrow> nat \<Rightarrow> nat \<Rightarrow> 'i list \<Rightarrow> 'i list" where
  "release_loop lockedIDs 0 cnt ids = ids"
| "release_loop lockedIDs (Suc i) cnt ids =
     (if cnt > 0
      then release_loop lockedIDs i (cnt - 1)
             (if i \<notin> set lockedIDs then take i ids @ drop (i + 1) ids else ids)
      else ids)"

text \<open>The loop that takes unused identifiers; a failed search restarts it at 0 + 1.\<close>

fun take_loop :: "(nat \<Rightarrow> nat \<times> bool) \<Rightarrow> nat \<Rightarrow> nat \<Rightarrow> nat \<Rightarrow> nat list \<Rightarrow> nat list" where
  "take_loop nextClear m i 0 ids = ids"
| "take_loop nextClear m i (Suc cnt) ids =
     (if i < m
      then (case nextClear i of (j, ok) \<Rightarrow>
              take_loop nextClear m (j + 1) cnt (if ok then ids @ [j] else ids))
      else ids)"

definition expectedIDCnt :: "nat \<Rightarrow> int \<Rightarrow> int \<Rightarrow> int" where
  "expectedIDCnt m n index = (int m + n - index - 1) div n"

definition allocate :: "registry \<Rightarrow> consumerInfo \<Rightarrow> consumers \<Rightarrow> nat list \<Rightarrow> consumerInfo option" where
  "allocate r self ws lockedIDs =
     (let instanceCnt = int (length ws);
          index = findByName ws (ci_Name self) in
      if instanceCnt = 0 then None
      else
        let allocateIDCnt = expectedIDCnt (maxInstances r) instanceCnt index - int (length (ci_IDs self)) in
        if allocateIDCnt < 0
        then Some (self\<lparr>ci_IDs := release_loop lockedIDs (length (ci_IDs self)) (nat (- allocateIDCnt)) (ci_IDs self)\<rparr>)
        else if allocateIDCnt > 0
        then let ids = concat (map ci_IDs ws) in
             (case BitSet_New (maxInstances r) of
                None \<Rightarrow> if ids = [] then Some self else None
              | Some bs \<Rightarrow>
                  Some (self\<lparr>ci_IDs := take_loop (BitSet_NextClear (foldl BitSet_Set bs ids))
                                         (maxInstances r) 0 (nat allocateIDCnt) (ci_IDs self)\<rparr>))
        else Some self)"

text \<open>The entry of this instance, found or added, with its heartbeat renewed.\<close>

definition register :: "registry \<Rightarrow> int \<Rightarrow> consumers \<Rightarrow> consumerInfo \<times> consumers" where
  "register r now ws =
     (let index = findByName ws (instanceName r) in
      if index = -1
      then let self = \<lparr>ci_IDs = [], ci_Name = instanceName r, ci_RecentTime = now\<rparr> in (self, ws @ [self])
      else let self = (ws ! nat index)\<lparr>ci_RecentTime := now\<rparr> in (self, ws[nat index := self]))"

text \<open>
  \<open>ws\<close> is what \<open>read\<close> returned; the result is the identifiers of this instance and the
  list handed to \<open>write\<close>. \<open>now\<close> and \<open>now'\<close> are the two clock readings; \<open>self\<close> is still an
  element of the collated list when its own heartbeat is recent at the second one.
\<close>

definition allocateIDs :: "registry \<Rightarrow> int \<Rightarrow> int \<Rightarrow> consumers \<Rightarrow> nat list \<Rightarrow> (nat list \<times> consumers) option" where
  "allocateIDs r now now' ws lockedIDs =
     (case register r now ws of (self, ws1) \<Rightarrow>
        let ws2 = collate r now' ws1 in
        case allocate r self ws2 lockedIDs of
          None \<Rightarrow> None
        | Some self' \<Rightarrow>
            Some (ci_IDs self',
                  if now' - now < 20 * heartbeatInterval r
                  then ws2[nat (findByName ws2 (ci_Name self)) := self'] else ws2))"

subsection \<open>Fair shares\<close>

lemma sum_div_shift: "0 < n \<Longrightarrow> (\<Sum>k<n. (m + k) div n) = (m :: nat)"
proof (induction m)
  case 0
  then show ?case by simp
next
  case (Suc m)
  have "(\<Sum>k<n. (Suc m + k) div n) + m div n = (\<Sum>k<Suc n. (m + k) div n)"
    by (subst sum.lessThan_Suc_shift) simp
  also have "\<dots> = (\<Sum>k<n. (m + k) div n) + Suc (m div n)"
    using Suc.prems by (simp add: div_add_self2)
  finally show ?case using Suc by simp
qed

lemma expectedIDCnt_nat:
  "k < n \<Longrightarrow> expectedIDCnt m (int n) (int k) = int ((m + (n - Suc k)) div n)"
  by (simp add: expectedIDCnt_def zdiv_int of_nat_diff algebra_simps)

lemma expectedIDCnt_sum:
  assumes "0 < n"
  shows "(\<Sum>k<n. expectedIDCnt m (int n) (int k)) = int m"
proof -
  have "(\<Sum>k<n. expectedIDCnt m (int n) (int k)) = int (\<Sum>k<n. (m + (n - Suc k)) div n)"
    by (simp add: expectedIDCnt_nat)
  also have "(\<Sum>k<n. (m + (n - Suc k)) div n) = m"
    using sum_div_shift [OF assms, of m] sum.nat_diff_reindex [of "\<lambda>k. (m + k) div n" n] by simp
  finally show ?thesis .
qed

subsection \<open>The loops\<close>

lemma release_loop_subseq: "subseq (release_loop locked i cnt ids) ids"
proof (induction locked i cnt ids rule: release_loop.induct)
  case (2 locked i cnt ids)
  have "subseq (take i ids @ drop (i + 1) ids) ids"
    by (metis append_take_drop_id drop_drop add.commute list_emb_append_mono sublist_imp_subseq
        sublist_drop subseq_order.refl)
  with 2 show ?case by (auto intro: subseq_order.trans)
qed simp

lemma release_loop_map: "release_loop locked i cnt (map f ids) = map f (release_loop locked i cnt ids)"
  by (induction locked i cnt ids rule: release_loop.induct) (auto simp: take_map drop_map)

lemma release_loop_unlocked:
  "(\<And>k. k < i \<Longrightarrow> k \<notin> set locked) \<Longrightarrow> i \<le> length ids \<Longrightarrow>
     release_loop locked i cnt ids = take (i - cnt) ids @ drop i ids"
proof (induction locked i cnt ids rule: release_loop.induct)
  case (2 locked i cnt ids)
  show ?case
  proof (cases "cnt > 0")
    case True
    with 2 show ?thesis by (simp add: min_def)
  qed (simp add: 2)
qed simp

context id_set
begin

lemma take_loop_free:
  assumes "valid s" "cnt \<le> Suc (length (free_list s i))"
  shows "take_loop (next_free s) (capacity s) i cnt ids = ids @ take cnt (free_list s i)"
  using assms(2)
proof (induction cnt arbitrary: i ids)
  case (Suc cnt)
  obtain j ok where n: "next_free s i = (j, ok)" by fastforce
  note fl = free_list_next [OF assms(1), of i]
  show ?case
  proof (cases "i < capacity s \<and> ok")
    case True
    with n fl have "free_list s i = j # free_list s (Suc j)" by simp
    with Suc True n show ?thesis by simp
  next
    case False
    have "free_list s i = []"
    proof (cases "i < capacity s")
      case True
      with False n fl show ?thesis by simp
    qed (simp add: free_list_def)
    with Suc False n show ?thesis by auto
  qed
qed simp

end

subsection \<open>Allocation\<close>

definition all_ids :: "consumers \<Rightarrow> nat list" where
  "all_ids ws = concat (map ci_IDs ws)"

text \<open>No identifier is held twice, and every one is below \<open>maxInstances\<close>.\<close>

definition ids_ok :: "registry \<Rightarrow> consumers \<Rightarrow> bool" where
  "ids_ok r ws = (distinct (all_ids ws) \<and> (\<forall>i \<in> set (all_ids ws). i < maxInstances r))"

text \<open>The identifiers held by the instances other than the one at index \<open>k\<close>.\<close>

definition other_ids :: "nat \<Rightarrow> consumers \<Rightarrow> nat list" where
  "other_ids k ws = all_ids (take k ws) @ all_ids (drop (Suc k) ws)"

text \<open>
  The others leave enough identifiers for the share of instance \<open>k\<close> (one short is still
  enough: the loop then stops on its first failed search).
\<close>

definition room :: "registry \<Rightarrow> nat \<Rightarrow> consumers \<Rightarrow> bool" where
  "room r k ws = (expectedIDCnt (maxInstances r) (int (length ws)) (int k) + int (length (other_ids k ws))
                  \<le> int (maxInstances r) + 1)"

lemma findByName_from_cases:
  "(findByName_from i cs name = -1 \<and> (\<forall>c \<in> set cs. ci_Name c \<noteq> name)) \<or>
   (\<exists>xs c ys. cs = xs @ c # ys \<and> ci_Name c = name \<and> (\<forall>x \<in> set xs. ci_Name x \<noteq> name) \<and>
      findByName_from i cs name = int (i + length xs))"
proof (induction cs arbitrary: i)
  case (Cons c cs)
  show ?case
  proof (cases "ci_Name c = name")
    case True
    then have "c # cs = [] @ c # cs" "findByName_from i (c # cs) name = int (i + length [])" by simp_all
    with True show ?thesis by (metis empty_iff list.set(1))
  next
    case False
    from Cons.IH [of "i + 1"] show ?thesis
    proof (elim disjE exE conjE)
      fix xs c' ys
      assume "cs = xs @ c' # ys" "ci_Name c' = name" "\<forall>x \<in> set xs. ci_Name x \<noteq> name"
        "findByName_from (i + 1) cs name = int (i + 1 + length xs)"
      with False have "c # cs = (c # xs) @ c' # ys" "\<forall>x \<in> set (c # xs). ci_Name x \<noteq> name"
        "findByName_from i (c # cs) name = int (i + length (c # xs))" by simp_all
      with \<open>ci_Name c' = name\<close> show ?thesis by metis
    qed (use False in simp)
  qed
qed simp

lemma findByName_cases:
  obtains (absent) "findByName cs name = -1" "\<forall>c \<in> set cs. ci_Name c \<noteq> name"
  | (found) xs c ys where "cs = xs @ c # ys" "ci_Name c = name" "\<forall>x \<in> set xs. ci_Name x \<noteq> name"
      "findByName cs name = int (length xs)"
  using findByName_from_cases [of 0 cs name] by (auto simp: findByName_def)

lemma findByName_append:
  assumes "\<forall>x \<in> set xs. ci_Name x \<noteq> name" "ci_Name c = name"
  shows "findByName (xs @ c # ys) name = int (length xs)"
proof -
  have "findByName_from i (xs @ c # ys) name = int (i + length xs)" for i
    using assms by (induction xs arbitrary: i) auto
  then show ?thesis by (simp add: findByName_def)
qed

lemma mset_all_ids_update:
  assumes "k < length ws"
  shows "mset (all_ids (ws[k := w])) = mset (other_ids k ws) + mset (ci_IDs w)"
  using assms by (simp add: upd_conv_take_nth_drop all_ids_def other_ids_def)

lemma mset_all_ids:
  assumes "k < length ws"
  shows "mset (all_ids ws) = mset (other_ids k ws) + mset (ci_IDs (ws ! k))"
  using mset_all_ids_update [OF assms, of "ws ! k"] by simp

lemma ids_ok_perm:
  assumes "mset (all_ids ws) = mset xs"
  shows "ids_ok r ws \<longleftrightarrow> distinct xs \<and> (\<forall>i \<in> set xs. i < maxInstances r)"
  using mset_eq_imp_distinct_iff [OF assms] mset_eq_setD [OF assms] by (simp add: ids_ok_def)

lemma ids_ok_update:
  "k < length ws \<Longrightarrow> ids_ok r (ws[k := w]) \<longleftrightarrow>
     distinct (other_ids k ws @ ci_IDs w) \<and> (\<forall>i \<in> set (other_ids k ws @ ci_IDs w). i < maxInstances r)"
  by (rule ids_ok_perm) (simp add: mset_all_ids_update)

lemma ids_ok_split:
  "k < length ws \<Longrightarrow> ids_ok r ws \<longleftrightarrow>
     distinct (other_ids k ws @ ci_IDs (ws ! k)) \<and>
     (\<forall>i \<in> set (other_ids k ws @ ci_IDs (ws ! k)). i < maxInstances r)"
  by (rule ids_ok_perm) (simp add: mset_all_ids)

lemma length_unused:
  assumes "distinct xs" "\<forall>i \<in> set xs. i < m"
  shows "length (filter (\<lambda>j. j \<notin> set xs) [0..<m]) = m - length xs"
proof -
  have "set (filter (\<lambda>j. j \<notin> set xs) [0..<m]) = {..<m} - set xs" by auto
  then have "length (filter (\<lambda>j. j \<notin> set xs) [0..<m]) = card ({..<m} - set xs)"
    by (metis distinct_card distinct_filter distinct_upt)
  also have "\<dots> = m - length xs"
    using assms by (subst card_Diff_subset) (auto simp: distinct_card)
  finally show ?thesis .
qed

text \<open>The identifiers \<open>allocate\<close> takes are the lowest unused ones.\<close>

lemma take_unused:
  assumes bs: "BitSet_New (maxInstances r) = Some bs" and ok: "ids_ok r ws"
    and cnt: "cnt + length (all_ids ws) \<le> Suc (maxInstances r)"
  shows "take_loop (BitSet_NextClear (foldl BitSet_Set bs (all_ids ws))) (maxInstances r) 0 cnt ids =
         ids @ take cnt (filter (\<lambda>j. j \<notin> set (all_ids ws)) [0..<maxInstances r])"
proof -
  let ?b = "foldl BitSet_Set bs (all_ids ws)"
  have new: "bs_ok bs" "len bs = maxInstances r" "members bs = {}"
    using BitSet_New_ok [OF bs] by auto
  then have b: "bs_ok ?b" "len ?b = maxInstances r" "members ?b = set (all_ids ws)"
    using bits.add_all [OF new(1), of "all_ids ws"] ok by (auto simp: ids_ok_def)
  have fl: "bits.free_list ?b 0 = filter (\<lambda>j. j \<notin> set (all_ids ws)) [0..<maxInstances r]"
    by (simp add: bits.free_list_def b)
  have "length (bits.free_list ?b 0) = maxInstances r - length (all_ids ws)"
    unfolding fl using ok by (intro length_unused) (auto simp: ids_ok_def)
  with cnt have "cnt \<le> Suc (length (bits.free_list ?b 0))" by linarith
  from bits.take_loop_free [OF b(1) this] show ?thesis by (simp add: b fl)
qed

lemma release_ids_ok:
  assumes k: "k < length ws" and ok: "ids_ok r ws" and sub: "subseq ids' (ci_IDs (ws ! k))"
  shows "ids_ok r (ws[k := (ws ! k)\<lparr>ci_IDs := ids'\<rparr>])"
proof -
  have "set ids' \<subseteq> set (ci_IDs (ws ! k))" "distinct (ci_IDs (ws ! k)) \<longrightarrow> distinct ids'"
    using sub by (auto dest: subseq_set subseq_distinct)
  moreover have "distinct (other_ids k ws @ ci_IDs (ws ! k)) \<and>
     (\<forall>i \<in> set (other_ids k ws @ ci_IDs (ws ! k)). i < maxInstances r)"
    using ok ids_ok_split [OF k] by blast
  ultimately show ?thesis by (auto simp: ids_ok_update [OF k])
qed

lemma allocate_total:
  assumes idx: "findByName ws (ci_Name self) = int k" and k: "k < length ws"
  shows "\<exists>ids'. allocate r self ws lockedIDs = Some (self\<lparr>ci_IDs := ids'\<rparr>)"
proof (cases "BitSet_New (maxInstances r)")
  case None
  then have "maxInstances r = 0" by (auto simp: BitSet_New_def split: if_splits)
  then have "expectedIDCnt (maxInstances r) (int (length ws)) (int k) = 0"
    using k by (simp add: expectedIDCnt_nat)
  with idx k show ?thesis
    by (cases "ci_IDs self = []") (auto simp: allocate_def Let_def intro: exI [of _ "ci_IDs self"])
next
  case (Some bs)
  have "self = self\<lparr>ci_IDs := ci_IDs self\<rparr>" by simp
  with Some idx k show ?thesis
    by (auto simp: allocate_def Let_def split: if_splits) (rule exI [of _ "ci_IDs self"], simp)
qed

lemma allocate_ids_ok:
  assumes idx: "findByName ws (ci_Name self) = int k" and k: "k < length ws" and self: "ws ! k = self"
    and ok: "ids_ok r ws" and room: "room r k ws"
    and res: "allocate r self ws lockedIDs = Some self'"
  shows "ids_ok r (ws[k := self'])"
proof -
  let ?cnt = "expectedIDCnt (maxInstances r) (int (length ws)) (int k) - int (length (ci_IDs self))"
  consider (release) "?cnt < 0" | (grow) "?cnt > 0" | (keep) "?cnt = 0" by linarith
  then show ?thesis
  proof cases
    case release
    with res idx k have "self' = self\<lparr>ci_IDs := release_loop lockedIDs (length (ci_IDs self)) (nat (- ?cnt)) (ci_IDs self)\<rparr>"
      by (auto simp: allocate_def Let_def split: if_splits)
    with release_ids_ok [OF k ok, of "release_loop lockedIDs (length (ci_IDs self)) (nat (- ?cnt)) (ci_IDs self)"]
    show ?thesis by (simp add: self release_loop_subseq)
  next
    case grow
    have "maxInstances r \<noteq> 0"
    proof
      assume "maxInstances r = 0"
      with grow k show False by (simp add: expectedIDCnt_nat)
    qed
    then obtain bs where bs: "BitSet_New (maxInstances r) = Some bs"
      using BitSet_New_Some by blast
    have len: "length (all_ids ws) = length (other_ids k ws) + length (ci_IDs self)"
      using mset_all_ids [OF k] self by (metis size_mset size_union)
    from room grow have "nat ?cnt + length (all_ids ws) \<le> Suc (maxInstances r)"
      unfolding room_def len by linarith
    from take_unused [OF bs ok this]
    have "self' = self\<lparr>ci_IDs := ci_IDs self @ take (nat ?cnt) (filter (\<lambda>j. j \<notin> set (all_ids ws)) [0..<maxInstances r])\<rparr>"
      using res idx k grow bs by (auto simp: allocate_def Let_def all_ids_def split: if_splits)
    moreover have "set (all_ids ws) = set (other_ids k ws) \<union> set (ci_IDs self)"
      using mset_all_ids [OF k] self by (metis set_mset_mset set_mset_union)
    moreover have "distinct (other_ids k ws @ ci_IDs self) \<and>
       (\<forall>i \<in> set (other_ids k ws @ ci_IDs self). i < maxInstances r)"
      using ok ids_ok_split [OF k] self by blast
    ultimately show ?thesis
      by (auto simp: ids_ok_update [OF k] dest!: in_set_takeD)
  next
    case keep
    with res idx k have "self' = self" by (auto simp: allocate_def Let_def split: if_splits)
    with ok self show ?thesis by auto
  qed
qed

subsection \<open>One round of a live instance\<close>

lemma register_cases:
  obtains xs self ys where "register r now ws = (self, xs @ self # ys)"
    "ci_Name self = instanceName r" "ci_RecentTime self = now"
    "\<forall>x \<in> set xs. ci_Name x \<noteq> instanceName r" "all_ids (xs @ self # ys) = all_ids ws"
proof (cases rule: findByName_cases [of ws "instanceName r"])
  case absent
  with that [of "\<lparr>ci_IDs = [], ci_Name = instanceName r, ci_RecentTime = now\<rparr>" ws "[]"]
  show ?thesis by (simp add: register_def all_ids_def Let_def)
next
  case (found xs c ys)
  with that [of "c\<lparr>ci_RecentTime := now\<rparr>" xs ys]
  show ?thesis by (simp add: register_def all_ids_def Let_def)
qed

lemma collate_live:
  assumes "register r now ws = (self, xs @ self # ys)" "ci_RecentTime self = now"
    and live: "now' - now < 20 * heartbeatInterval r"
  shows "collate r now' (xs @ self # ys) = collate r now' xs @ self # collate r now' ys"
  using assms by (simp add: collate_def)

lemma ids_ok_collate: "ids_ok r ws \<Longrightarrow> ids_ok r (collate r now ws)"
  using subseq_concat_filter [of ci_IDs _ ws]
  by (auto simp: ids_ok_def all_ids_def collate_def dest: subseq_distinct subseq_set)

text \<open>The list of live instances a round of \<open>allocateIDs\<close> works on.\<close>

definition live_list :: "registry \<Rightarrow> int \<Rightarrow> int \<Rightarrow> consumers \<Rightarrow> consumers" where
  "live_list r now now' ws = collate r now' (snd (register r now ws))"

definition self_index :: "registry \<Rightarrow> int \<Rightarrow> int \<Rightarrow> consumers \<Rightarrow> nat" where
  "self_index r now now' ws = nat (findByName (live_list r now now' ws) (instanceName r))"

lemma live_list_self:
  assumes live: "now' - now < 20 * heartbeatInterval r"
  obtains self where "fst (register r now ws) = self" "ci_Name self = instanceName r"
    "self_index r now now' ws < length (live_list r now now' ws)"
    "live_list r now now' ws ! self_index r now now' ws = self"
    "findByName (live_list r now now' ws) (instanceName r) = int (self_index r now now' ws)"
proof -
  obtain xs self ys where reg: "register r now ws = (self, xs @ self # ys)"
    "ci_Name self = instanceName r" "ci_RecentTime self = now"
    "\<forall>x \<in> set xs. ci_Name x \<noteq> instanceName r" "all_ids (xs @ self # ys) = all_ids ws"
    by (rule register_cases)
  have ll: "live_list r now now' ws = collate r now' xs @ self # collate r now' ys"
    using collate_live [OF reg(1,3) live] reg(1) by (simp add: live_list_def)
  have "findByName (live_list r now now' ws) (instanceName r) = int (length (collate r now' xs))"
    unfolding ll using reg(2,4) by (intro findByName_append) (auto simp: collate_def)
  with ll reg that show ?thesis by (simp add: self_index_def)
qed



subsection \<open>Shares, locks and exhaustion\<close>

text \<open>
  The shares of \<open>n\<close> live instances add up to exactly \<open>maxInstances\<close>, whatever \<open>n\<close> is, and
  no share differs from \<open>maxInstances div n\<close> by more than one.
\<close>

theorem expectedIDCnt_shares:
  assumes "0 < n"
  shows "(\<Sum>index<n. expectedIDCnt m (int n) (int index)) = int m \<and>
         (\<forall>index<n. int m div int n \<le> expectedIDCnt m (int n) (int index) \<and>
                    expectedIDCnt m (int n) (int index) \<le> int m div int n + 1)"
proof -
  have "m div n \<le> (m + (n - Suc k)) div n" "(m + (n - Suc k)) div n \<le> m div n + 1" if "k < n" for k
  proof -
    show "m div n \<le> (m + (n - Suc k)) div n" by (intro div_le_mono) simp
    have "(m + (n - Suc k)) div n \<le> (m + n) div n" by (intro div_le_mono) simp
    also have "\<dots> = m div n + 1" using assms by (simp add: div_add_self2)
    finally show "(m + (n - Suc k)) div n \<le> m div n + 1" .
  qed
  then show ?thesis
    using expectedIDCnt_sum [OF assms, of m] by (simp add: expectedIDCnt_nat zdiv_int [symmetric])
      (metis of_nat_1 of_nat_add of_nat_le_iff Suc_eq_plus1)
qed

theorem expectedIDCnt_shares_witness:
  "(0::nat) < 3 \<and> (\<Sum>index<(3::nat). expectedIDCnt 16 (int 3) (int index)) = 16"
  using expectedIDCnt_shares [of 3 16] by simp

text \<open>
  The locks protect positions, not identifiers. What the release loop keeps depends only
  on the positions in \<open>self.IDs\<close>: renaming the identifiers commutes with it, so a set of
  locked identifiers has no bearing on which identifiers are given back. In the instance below the
  identifier 1 is locked (a job of it is running), and it is given back.
\<close>

theorem release_ignores_identifiers:
  "release_loop lockedIDs i cnt (map f ids) = map f (release_loop lockedIDs i cnt ids) \<and>
   map_option ci_IDs (allocate \<lparr>heartbeatInterval = 1, maxInstances = 4, instanceName = ''a''\<rparr>
      \<lparr>ci_IDs = [3, 2, 1, 0], ci_Name = ''a'', ci_RecentTime = 0\<rparr>
      [\<lparr>ci_IDs = [3, 2, 1, 0], ci_Name = ''a'', ci_RecentTime = 0\<rparr>,
       \<lparr>ci_IDs = [], ci_Name = ''b'', ci_RecentTime = 0\<rparr>] [1]) = Some [3, 2]"
proof
  show "release_loop lockedIDs i cnt (map f ids) = map f (release_loop lockedIDs i cnt ids)"
    by (rule release_loop_map)
qed code_simp

text \<open>
  Without room the loop that takes identifiers wraps around. When the other instances hold
  all identifiers but one, an instance whose share is three takes the same identifier twice.
\<close>

theorem allocate_duplicates_without_room:
  "map_option ci_IDs (allocate \<lparr>heartbeatInterval = 1, maxInstances = 6, instanceName = ''a''\<rparr>
      \<lparr>ci_IDs = [], ci_Name = ''a'', ci_RecentTime = 0\<rparr>
      [\<lparr>ci_IDs = [], ci_Name = ''a'', ci_RecentTime = 0\<rparr>,
       \<lparr>ci_IDs = [0, 2, 3, 4, 5], ci_Name = ''b'', ci_RecentTime = 0\<rparr>] []) = Some [1, 1]"
  by code_simp

end
