(* ===== verification/Go_Strconv.thy ===== *)
theory Go_Strconv
  imports Harns_Prelude
begin

text \<open>
  The parts of Go's \<open>strconv\<close>, \<open>fmt\<close>, \<open>strings\<close> and \<open>hash/crc32\<close> that the components use.
  Strings are byte sequences. Shown: decimal formatting and parsing are inverse on the
  64-bit range, also through zero padding.
\<close>

subsection \<open>Decimal digits\<close>

definition digit_char :: "nat \<Rightarrow> char" where
  "digit_char d = char_of (48 + d)"

fun dec_digits :: "nat \<Rightarrow> string" where
  "dec_digits n = (if n < 10 then [digit_char n] else dec_digits (n div 10) @ [digit_char (n mod 10)])"

declare dec_digits.simps [simp del]

definition is_digit :: "char \<Rightarrow> bool" where
  "is_digit c = (48 \<le> (of_char c :: nat) \<and> (of_char c :: nat) \<le> 57)"

definition digit_val :: "char \<Rightarrow> nat" where
  "digit_val c = of_char c - 48"

definition digits_val :: "string \<Rightarrow> nat" where
  "digits_val s = foldl (\<lambda>a c. 10 * a + digit_val c) 0 s"

text \<open>\<open>strconv.FormatInt(n, 10)\<close> and \<open>strconv.FormatUint(n, 10)\<close>.\<close>

definition FormatInt :: "int \<Rightarrow> string" where
  "FormatInt n = (if n < 0 then CHR ''-'' # dec_digits (nat (- n)) else dec_digits (nat n))"

text \<open>The verb \<open>%0wd\<close> of package fmt: the sign counts towards the width.\<close>

definition fmt_0d :: "nat \<Rightarrow> int \<Rightarrow> string" where
  "fmt_0d w n =
     (if n < 0 then let ds = dec_digits (nat (- n)) in CHR ''-'' # replicate (w - 1 - length ds) (CHR ''0'') @ ds
      else let ds = dec_digits (nat n) in replicate (w - length ds) (CHR ''0'') @ ds)"

text \<open>
  \<open>strconv.ParseInt(s, 10, 64)\<close>: \<open>None\<close> for a syntax or a range error.
\<close>

definition max_int64 :: int where "max_int64 = 9223372036854775807"
definition min_int64 :: int where "min_int64 = - 9223372036854775808"

definition parse_digits :: "string \<Rightarrow> nat option" where
  "parse_digits s = (if s \<noteq> [] \<and> list_all is_digit s then Some (digits_val s) else None)"

definition parse_signed :: "string \<Rightarrow> int option" where
  "parse_signed s =
     (let (neg, ds) = (case s of [] \<Rightarrow> (False, [])
                       | c # cs \<Rightarrow> if c = CHR ''-'' then (True, cs)
                                   else if c = CHR ''+'' then (False, cs) else (False, c # cs)) in
      case parse_digits ds of None \<Rightarrow> None
      | Some m \<Rightarrow> Some (if neg then - int m else int m))"

definition ParseInt :: "string \<Rightarrow> int option" where
  "ParseInt s =
     (case parse_signed s of None \<Rightarrow> None
      | Some v \<Rightarrow> if min_int64 \<le> v \<and> v \<le> max_int64 then Some v else None)"

text \<open>
  The value of \<open>strconv.Atoi(s)\<close> when its error is dropped: 0 for a syntax error, the nearest
  bound for a range error.
\<close>

definition Atoi_val :: "string \<Rightarrow> int" where
  "Atoi_val s = (case parse_signed s of None \<Rightarrow> 0 | Some v \<Rightarrow> max min_int64 (min max_int64 v))"

text \<open>\<open>strconv.ParseUint(s, 10, 64)\<close>: no sign is accepted. With \<open>ver, _ :=\<close> the code keeps the
  value that accompanies the error: 0 for a syntax error and the maximum for a range error.\<close>

definition ParseUint_val :: "string \<Rightarrow> nat" where
  "ParseUint_val s = (case parse_digits s of None \<Rightarrow> 0
                      | Some m \<Rightarrow> if m < 2 ^ 64 then m else 2 ^ 64 - 1)"

subsection \<open>Round trips\<close>

lemma of_char_digit_char: "d < 10 \<Longrightarrow> (of_char (digit_char d) :: nat) = 48 + d"
  by (simp add: digit_char_def)

lemma digit_val_char [simp]: "d < 10 \<Longrightarrow> digit_val (digit_char d) = d"
  by (simp add: digit_val_def of_char_digit_char)

lemma is_digit_char [simp]: "d < 10 \<Longrightarrow> is_digit (digit_char d)"
  by (simp add: is_digit_def of_char_digit_char)

lemma digits_val_snoc [simp]: "digits_val (s @ [c]) = 10 * digits_val s + digit_val c"
  by (simp add: digits_val_def)

lemma dec_digits_val [simp]: "digits_val (dec_digits n) = n"
proof (induction n rule: dec_digits.induct)
  case (1 n)
  show ?case
  proof (cases "n < 10")
    case True
    then show ?thesis by (subst dec_digits.simps) (simp add: digits_val_def)
  next
    case False
    with 1 show ?thesis by (subst dec_digits.simps) simp
  qed
qed

lemma dec_digits_all [simp]: "list_all is_digit (dec_digits n)"
proof (induction n rule: dec_digits.induct)
  case (1 n)
  then show ?case by (subst dec_digits.simps) simp
qed

lemma dec_digits_nonempty [simp]: "dec_digits n \<noteq> []"
  by (subst dec_digits.simps) simp

lemma digits_val_zeros [simp]: "digits_val (replicate k (CHR ''0'') @ s) = digits_val s"
proof -
  have "foldl (\<lambda>a c. 10 * a + digit_val c) 0 (replicate k (CHR ''0'')) = 0"
    by (induction k) (simp_all add: digit_val_def)
  then show ?thesis by (simp add: digits_val_def)
qed

lemma list_all_zeros [simp]: "list_all is_digit (replicate k (CHR ''0''))"
  by (simp add: list_all_iff is_digit_def)

lemma parse_digits_padded [simp]: "parse_digits (replicate k (CHR ''0'') @ dec_digits n) = Some n"
  by (simp add: parse_digits_def)

lemma parse_digits_dec [simp]: "parse_digits (dec_digits n) = Some n"
  using parse_digits_padded [of 0] by simp

lemma length_dec_digits: "n < 10 ^ k \<Longrightarrow> 0 < k \<Longrightarrow> length (dec_digits n) \<le> k"
proof (induction n arbitrary: k rule: dec_digits.induct)
  case (1 n)
  show ?case
  proof (cases "n < 10")
    case True
    with 1(3) show ?thesis by (subst dec_digits.simps) simp
  next
    case False
    with 1(2,3) obtain k' where k: "k = Suc k'" "0 < k'" by (cases k; cases "k - 1") auto
    with 1(2) have "n div 10 < 10 ^ k'" by simp
    with 1(1) [OF False] k False show ?thesis by (subst dec_digits.simps) simp
  qed
qed

lemma length_dec_digits_ge: "10 ^ k \<le> n \<Longrightarrow> k < length (dec_digits n)"
proof (induction n arbitrary: k rule: dec_digits.induct)
  case (1 n)
  show ?case
  proof (cases k)
    case 0
    then show ?thesis by simp
  next
    case (Suc k')
    with 1(2) have n: "10 ^ k' \<le> n div 10" by (simp add: less_eq_div_iff_mult_less_eq)
    moreover have "(1::nat) \<le> 10 ^ k'" by simp
    ultimately have "\<not> n < 10" by (metis div_less not_one_le_zero le_trans)
    with 1(1) n show ?thesis using Suc by (subst dec_digits.simps) simp
  qed
qed

lemma digit_not_sign: "is_digit c \<Longrightarrow> c \<noteq> CHR ''-'' \<and> c \<noteq> CHR ''+''"
  by (auto simp: is_digit_def)

lemma ParseInt_digits:
  assumes "parse_digits s = Some m" "int m \<le> max_int64"
  shows "ParseInt s = Some (int m)"
proof -
  from assms(1) obtain c cs where s: "s = c # cs" "is_digit c"
    by (cases s) (auto simp: parse_digits_def split: if_splits)
  with digit_not_sign have "c \<noteq> CHR ''-''" "c \<noteq> CHR ''+''" by auto
  with s assms show ?thesis by (simp add: ParseInt_def parse_signed_def min_int64_def)
qed

lemma ParseInt_fmt_0d:
  assumes "min_int64 \<le> n" "n \<le> max_int64"
  shows "ParseInt (fmt_0d w n) = Some n"
proof (cases "n < 0")
  case True
  with assms show ?thesis by (simp add: fmt_0d_def ParseInt_def parse_signed_def Let_def)
next
  case False
  then show ?thesis using assms ParseInt_digits [of "fmt_0d w n" "nat n"]
    by (simp add: fmt_0d_def Let_def)
qed

lemma fmt_0d_unpadded: "fmt_0d 0 n = FormatInt n"
  by (simp add: fmt_0d_def FormatInt_def Let_def)

lemma ParseInt_FormatInt: "min_int64 \<le> n \<Longrightarrow> n \<le> max_int64 \<Longrightarrow> ParseInt (FormatInt n) = Some n"
  using ParseInt_fmt_0d [of n 0] by (simp only: fmt_0d_unpadded)

lemma Atoi_val_ParseInt: "ParseInt s = Some n \<Longrightarrow> Atoi_val s = n"
  by (auto simp: ParseInt_def Atoi_val_def split: option.splits if_splits)

lemma ParseUint_FormatInt: "n < 2 ^ 64 \<Longrightarrow> ParseUint_val (FormatInt (int n)) = n"
  by (simp add: ParseUint_val_def FormatInt_def)

lemma length_fmt_0d:
  assumes "- (10 ^ (w - 1)) < n" "n < 10 ^ w" "1 < w"
  shows "length (fmt_0d w n) = w"
proof (cases "n < 0")
  case True
  then have "nat (- n) < 10 ^ (w - 1)" using assms(1) by (simp add: nat_less_iff)
  then have "length (dec_digits (nat (- n))) \<le> w - 1" using assms(3) by (intro length_dec_digits) auto
  with True assms(3) show ?thesis by (simp add: fmt_0d_def Let_def)
next
  case False
  then have "nat n < 10 ^ w" using assms(2) by (simp add: nat_less_iff)
  then have "length (dec_digits (nat n)) \<le> w" using assms(3) by (intro length_dec_digits) auto
  with False show ?thesis by (simp add: fmt_0d_def Let_def)
qed

end
