(* ===== verification/Go_Time.thy ===== *)
theory Go_Time
  imports Go_Strconv
begin

text \<open>
  The part of Go's package \<open>time\<close> the components use. An instant is the number of
  nanoseconds since January 1 of year 1, 00:00 UTC, so the zero value of \<open>time.Time\<close> is 0.
  A duration is a 64-bit count of nanoseconds: \<open>Sub\<close> saturates and sums of durations wrap.
  A location is its list of zones (start, end, offset in seconds), as \<open>Location.lookup\<close> sees them.
\<close>

type_synonym time = int
type_synonym duration = int
type_synonym Location = "(int \<times> int \<times> int) list"

definition wrap64 :: "int \<Rightarrow> int" where
  "wrap64 x = (x + 2 ^ 63) mod 2 ^ 64 - 2 ^ 63"

definition trunc_quot :: "int \<Rightarrow> int \<Rightarrow> int" where
  "trunc_quot a b = sgn a * sgn b * (\<bar>a\<bar> div \<bar>b\<bar>)"

definition trunc_rem :: "int \<Rightarrow> int \<Rightarrow> int" where
  "trunc_rem a b = a - b * trunc_quot a b"

definition time_IsZero :: "time \<Rightarrow> bool" where
  "time_IsZero t = (t = 0)"

definition time_Unix :: "time \<Rightarrow> int" where
  "time_Unix t = t div 1000000000 - 62135596800"

definition time_UnixMilli :: "time \<Rightarrow> int" where
  "time_UnixMilli t = t div 1000000 - 62135596800000"

definition time_of_Unix :: "int \<Rightarrow> time" where
  "time_of_Unix s = (s + 62135596800) * 1000000000"

definition time_Sub :: "time \<Rightarrow> time \<Rightarrow> duration" where
  "time_Sub t u = max min_int64 (min max_int64 (t - u))"

definition dur_add :: "duration \<Rightarrow> duration \<Rightarrow> duration" where
  "dur_add a b = wrap64 (a + b)"

definition dur_Milliseconds :: "duration \<Rightarrow> int" where
  "dur_Milliseconds d = trunc_quot d 1000000"

definition Second :: duration where "Second = 1000000000"
definition Minute :: duration where "Minute = 60 * Second"
definition Hour :: duration where "Hour = 60 * Minute"

lemmas duration_units = Second_def Minute_def Hour_def

subsection \<open>Zones and wall clocks\<close>

fun loc_lookup :: "Location \<Rightarrow> int \<Rightarrow> int \<times> int \<times> int" where
  "loc_lookup [] sec = (min_int64, max_int64, 0)"
| "loc_lookup ((start, end, off) # zs) sec =
     (if start \<le> sec \<and> sec < end then (start, end, off) else loc_lookup zs sec)"

definition loc_offset :: "Location \<Rightarrow> int \<Rightarrow> int" where
  "loc_offset loc sec = snd (snd (loc_lookup loc sec))"

text \<open>
  The wall clock of an instant in a location: the number of the day (counted from the Unix
  epoch; the civil date is a function of it), hour, minute and second.
\<close>

definition wall_clock :: "Location \<Rightarrow> time \<Rightarrow> int \<times> int \<times> int \<times> int" where
  "wall_clock loc t =
     (let ls = time_Unix t + loc_offset loc (time_Unix t);
          r = ls mod 86400 in
      (ls div 86400, r div 3600, r mod 3600 div 60, r mod 60))"

text \<open>\<open>time.Date\<close> of a wall clock, in Unix seconds.\<close>

definition date_Unix :: "Location \<Rightarrow> int \<Rightarrow> int \<Rightarrow> int \<Rightarrow> int \<Rightarrow> int" where
  "date_Unix loc day h m s =
     (let unix = day * 86400 + h * 3600 + m * 60 + s in
      case loc_lookup loc unix of (start, end, off) \<Rightarrow>
        if off \<noteq> 0 then
          let utc = unix - off in
          if utc < start \<or> utc \<ge> end then unix - loc_offset loc utc else unix - off
        else unix)"

definition fixed_zone :: "int \<Rightarrow> Location" where
  "fixed_zone off = [(min_int64, max_int64, off)]"

text \<open>Instants far enough from the ends of the 64-bit range for every sum below to stay inside.\<close>

definition near :: "int \<Rightarrow> bool" where
  "near s = (\<bar>s\<bar> \<le> 4000000000000000000)"

lemma loc_lookup_fixed:
  "min_int64 \<le> sec \<Longrightarrow> sec < max_int64 \<Longrightarrow> loc_lookup (fixed_zone off) sec = (min_int64, max_int64, off)"
  by (simp add: fixed_zone_def)

lemma date_Unix_fixed:
  assumes "near u" "\<bar>off\<bar> \<le> 86400" "day * 86400 + h * 3600 + m * 60 + s = u"
  shows "date_Unix (fixed_zone off) day h m s = u - off"
proof -
  have b: "min_int64 \<le> u" "u < max_int64" "min_int64 \<le> u - off" "u - off < max_int64"
    using assms(1,2) by (auto simp: near_def min_int64_def max_int64_def)
  then show ?thesis using assms(3)
    by (simp add: date_Unix_def Let_def loc_lookup_fixed)
qed

lemma wall_clock_fixed:
  assumes "near (time_Unix t)"
  shows "wall_clock (fixed_zone off) t =
     (let ls = time_Unix t + off in (ls div 86400, ls mod 86400 div 3600, ls mod 86400 mod 3600 div 60, ls mod 86400 mod 60))"
  using assms by (simp add: wall_clock_def loc_offset_def loc_lookup_fixed near_def min_int64_def max_int64_def Let_def)

text \<open>Cutting a wall clock down to a unit is rounding the local seconds down.\<close>

lemma clock_floor:
  fixes ls :: int
  shows "ls div 86400 * 86400 = ls - ls mod 86400"
    "ls div 86400 * 86400 + ls mod 86400 div 3600 * 3600 = ls - ls mod 3600"
    "ls div 86400 * 86400 + ls mod 86400 div 3600 * 3600 + ls mod 86400 mod 3600 div 60 * 60 = ls - ls mod 60"
    "ls div 86400 * 86400 + ls mod 86400 div 3600 * 3600 + ls mod 86400 mod 3600 div 60 * 60 + ls mod 86400 mod 60 = ls"
proof -
  have r: "ls mod 86400 mod 3600 = ls mod 3600" "ls mod 3600 mod 60 = ls mod 60" "ls mod 86400 mod 60 = ls mod 60"
    by (simp_all add: mod_mod_cancel)
  show "ls div 86400 * 86400 = ls - ls mod 86400" by (rule minus_mod_eq_div_mult [symmetric])
  then show 2: "ls div 86400 * 86400 + ls mod 86400 div 3600 * 3600 = ls - ls mod 3600"
    using minus_mod_eq_div_mult [of "ls mod 86400" 3600] r by linarith
  then show "ls div 86400 * 86400 + ls mod 86400 div 3600 * 3600 + ls mod 86400 mod 3600 div 60 * 60 = ls - ls mod 60"
    using minus_mod_eq_div_mult [of "ls mod 3600" 60] unfolding r by linarith
  then show "ls div 86400 * 86400 + ls mod 86400 div 3600 * 3600 + ls mod 86400 mod 3600 div 60 * 60 + ls mod 86400 mod 60 = ls"
    unfolding r by linarith
qed

lemma date_floor_fixed:
  assumes u: "\<bar>u\<bar> \<le> 1000000000000000" and off: "\<bar>off\<bar> \<le> 86400"
  defines "ls \<equiv> u + off"
  shows "date_Unix (fixed_zone off) (ls div 86400) 0 0 0 = u - ls mod 86400"
    "date_Unix (fixed_zone off) (ls div 86400) (ls mod 86400 div 3600) 0 0 = u - ls mod 3600"
    "date_Unix (fixed_zone off) (ls div 86400) (ls mod 86400 div 3600) (ls mod 86400 mod 3600 div 60) 0 = u - ls mod 60"
    "date_Unix (fixed_zone off) (ls div 86400) (ls mod 86400 div 3600) (ls mod 86400 mod 3600 div 60) (ls mod 86400 mod 60) = u"
proof -
  have n: "near (ls - ls mod d)" if "0 < d" "d \<le> 86400" for d
    using pos_mod_bound [OF that(1), of ls] pos_mod_sign [OF that(1), of ls] u off that(2)
    unfolding near_def ls_def by linarith
  have n86400: "near (ls - ls mod 86400)" and n3600: "near (ls - ls mod 3600)" and n60: "near (ls - ls mod 60)"
    by (rule n; simp)+
  have n': "near ls" using u off unfolding near_def ls_def by linarith
  have "date_Unix (fixed_zone off) (ls div 86400) 0 0 0 = ls - ls mod 86400 - off"
    by (rule date_Unix_fixed [OF n86400 off]) (simp only: clock_floor(1) mult_zero_left add_0_right)
  then show "date_Unix (fixed_zone off) (ls div 86400) 0 0 0 = u - ls mod 86400"
    by (simp only: ls_def)
  have "date_Unix (fixed_zone off) (ls div 86400) (ls mod 86400 div 3600) 0 0 = ls - ls mod 3600 - off"
    by (rule date_Unix_fixed [OF n3600 off]) (simp only: clock_floor(2) mult_zero_left add_0_right)
  then show "date_Unix (fixed_zone off) (ls div 86400) (ls mod 86400 div 3600) 0 0 = u - ls mod 3600"
    by (simp only: ls_def)
  have "date_Unix (fixed_zone off) (ls div 86400) (ls mod 86400 div 3600) (ls mod 86400 mod 3600 div 60) 0 = ls - ls mod 60 - off"
    by (rule date_Unix_fixed [OF n60 off]) (simp only: clock_floor(3) mult_zero_left add_0_right)
  then show "date_Unix (fixed_zone off) (ls div 86400) (ls mod 86400 div 3600) (ls mod 86400 mod 3600 div 60) 0 = u - ls mod 60"
    by (simp only: ls_def)
  have "date_Unix (fixed_zone off) (ls div 86400) (ls mod 86400 div 3600) (ls mod 86400 mod 3600 div 60) (ls mod 86400 mod 60) = ls - off"
    by (rule date_Unix_fixed [OF n' off clock_floor(4)])
  then show "date_Unix (fixed_zone off) (ls div 86400) (ls mod 86400 div 3600) (ls mod 86400 mod 3600 div 60) (ls mod 86400 mod 60) = u"
    by (simp only: ls_def add_diff_cancel_right')
qed

lemma time_in_second: "time_of_Unix (time_Unix t) \<le> t \<and> t < time_of_Unix (time_Unix t) + 1000000000"
proof -
  have "time_of_Unix (time_Unix t) = t - t mod 1000000000"
    using minus_mod_eq_div_mult [of t 1000000000] by (simp only: time_of_Unix_def time_Unix_def diff_add_cancel)
  moreover have "0 \<le> t mod 1000000000" "t mod 1000000000 < 1000000000" by simp_all
  ultimately show ?thesis by simp
qed

lemma time_of_Unix_diff: "time_of_Unix (a - b) = time_of_Unix a - b * 1000000000"
  by (simp add: time_of_Unix_def algebra_simps)

lemma time_of_Unix_add: "time_of_Unix (a + b) = time_of_Unix a + b * 1000000000"
  by (simp add: time_of_Unix_def algebra_simps)

lemma time_Unix_of [simp]: "time_Unix (time_of_Unix s) = s"
  by (simp add: time_Unix_def time_of_Unix_def)

end
