(* ===== verification/Job.thy ===== *)
theory Job
  imports Go_Time Interfaces
begin

text \<open>
  The jobs of the consumer: \<open>src/pkg/consumer/job/constants.go\<close> (the enumerations and their
  tables), \<open>src/pkg/consumer/job/job.go\<close> (time blocks, the string form of a job, the
  processing time, the job constructors) and the key splitting of \<open>src/pkg/util/strutil/path.go\<close>.

  Shown: the string form of a job is read back as the same job for every time index of ten
  characters, and is rejected beyond; a time block of a fixed-offset zone holds its instant; a rollup is scheduled
  at the end of the running block; the consumer a job is assigned to exists.
\<close>

datatype Group = GroupRollup | GroupDelete

fun GroupToString :: "Group \<Rightarrow> string" where
  "GroupToString GroupRollup = ''rup''"
| "GroupToString GroupDelete = ''del''"

definition GroupFromString :: "(string \<times> Group) list" where
  "GroupFromString = [(''rup'', GroupRollup), (''del'', GroupDelete)]"

datatype OperationType =
    opTimeSeriesRollup | OpTimeSeriesDelete | OpEventTypeDelete | OpCommandTypeDelete
  | OpThingCommandDelete | OpThingActionDelete | OpThingEventDelete | OpThingTimeSeriesDelete

fun operationTypeToString :: "OperationType \<Rightarrow> string" where
  "operationTypeToString opTimeSeriesRollup = ''TSR''"
| "operationTypeToString OpTimeSeriesDelete = ''TSD''"
| "operationTypeToString OpEventTypeDelete = ''ETD''"
| "operationTypeToString OpCommandTypeDelete = ''CTD''"
| "operationTypeToString OpThingCommandDelete = ''TCD''"
| "operationTypeToString OpThingActionDelete = ''TAD''"
| "operationTypeToString OpThingEventDelete = ''TED''"
| "operationTypeToString OpThingTimeSeriesDelete = ''TTD''"

definition operationTypeFromString :: "(string \<times> OperationType) list" where
  "operationTypeFromString =
     [(''TSR'', opTimeSeriesRollup), (''TSD'', OpTimeSeriesDelete), (''ETD'', OpEventTypeDelete),
      (''CTD'', OpCommandTypeDelete), (''TCD'', OpThingCommandDelete), (''TAD'', OpThingActionDelete),
      (''TED'', OpThingEventDelete), (''TTD'', OpThingTimeSeriesDelete)]"

datatype TimeBlockUnit =
    TimeBlockUnitSecond | TimeBlockUnitMinute | TimeBlockUnitHour
  | TimeBlockUnitDay | TimeBlockUnitWeek | TimeBlockUnitMonth

fun TimeBlockUnitToString :: "TimeBlockUnit \<Rightarrow> char" where
  "TimeBlockUnitToString TimeBlockUnitSecond = CHR ''s''"
| "TimeBlockUnitToString TimeBlockUnitMinute = CHR ''m''"
| "TimeBlockUnitToString TimeBlockUnitHour = CHR ''h''"
| "TimeBlockUnitToString TimeBlockUnitDay = CHR ''d''"
| "TimeBlockUnitToString TimeBlockUnitWeek = CHR ''W''"
| "TimeBlockUnitToString TimeBlockUnitMonth = CHR ''M''"

definition TimeBlockUnitFromString :: "(char \<times> TimeBlockUnit) list" where
  "TimeBlockUnitFromString =
     [(CHR ''s'', TimeBlockUnitSecond), (CHR ''m'', TimeBlockUnitMinute), (CHR ''h'', TimeBlockUnitHour),
      (CHR ''d'', TimeBlockUnitDay), (CHR ''W'', TimeBlockUnitWeek), (CHR ''M'', TimeBlockUnitMonth)]"

text \<open>In milliseconds.\<close>

fun TimeBlockUnitDuration :: "TimeBlockUnit \<Rightarrow> int" where
  "TimeBlockUnitDuration TimeBlockUnitSecond = 1000"
| "TimeBlockUnitDuration TimeBlockUnitMinute = 60 * 1000"
| "TimeBlockUnitDuration TimeBlockUnitHour = 60 * 60 * 1000"
| "TimeBlockUnitDuration TimeBlockUnitDay = 24 * 60 * 60 * 1000"
| "TimeBlockUnitDuration TimeBlockUnitWeek = 7 * 24 * 60 * 60 * 1000"
| "TimeBlockUnitDuration TimeBlockUnitMonth = 0"

subsection \<open>Time blocks\<close>

record timeBlock =
  tb_index :: int
  tb_unit :: TimeBlockUnit

definition toTimeBlock :: "time \<Rightarrow> TimeBlockUnit \<Rightarrow> Location \<Rightarrow> timeBlock" where
  "toTimeBlock t unit loc =
     (case wall_clock loc t of (day, hour, mi, sec) \<Rightarrow>
        let hour = (if unit = TimeBlockUnitDay then 0 else hour);
            mi = (if unit \<in> {TimeBlockUnitDay, TimeBlockUnitHour} then 0 else mi);
            sec = (if unit \<in> {TimeBlockUnitDay, TimeBlockUnitHour, TimeBlockUnitMinute} then 0 else sec) in
        \<lparr>tb_index = date_Unix loc day hour mi sec, tb_unit = unit\<rparr>)"

definition timeBlock_ToTime :: "timeBlock \<Rightarrow> time" where
  "timeBlock_ToTime tb = time_of_Unix (tb_index tb)"

definition timeBlock_Duration :: "timeBlock \<Rightarrow> duration" where
  "timeBlock_Duration tb = TimeBlockUnitDuration (tb_unit tb) * 1000000"

definition timeBlock_IsMinimalInterval :: "timeBlock \<Rightarrow> bool" where
  "timeBlock_IsMinimalInterval tb = (tb_unit tb = TimeBlockUnitMinute)"

definition timeBlock_GetUnit :: "timeBlock \<Rightarrow> string" where
  "timeBlock_GetUnit tb = [TimeBlockUnitToString (tb_unit tb)]"

definition timeBlock_String :: "timeBlock \<Rightarrow> string" where
  "timeBlock_String tb = fmt_0d 10 (tb_index tb) @ [TimeBlockUnitToString (tb_unit tb)]"

datatype job_error = ParseError | UnknownUnit string | UnknownOperation string | Panic

text \<open>\<open>Panic\<close>: an empty string has no last byte.\<close>

definition timeBlock_Of :: "string \<Rightarrow> job_error + timeBlock" where
  "timeBlock_Of s =
     (if s = [] then Inl Panic
      else case ParseInt (butlast s) of None \<Rightarrow> Inl ParseError
      | Some i \<Rightarrow> (case map_of TimeBlockUnitFromString (last s) of
                     None \<Rightarrow> Inl (UnknownUnit s)
                   | Some v \<Rightarrow> Inr \<lparr>tb_index = i, tb_unit = v\<rparr>))"

subsection \<open>Jobs\<close>

record Job =
  j_Group :: Group
  j_ProcTimeSec :: int
  j_ConsumerID :: nat
  j_Operation :: OperationType
  j_TimeBlock :: timeBlock
  j_Key :: string

definition zero_Job :: Job where
  "zero_Job = \<lparr>j_Group = GroupRollup, j_ProcTimeSec = 0, j_ConsumerID = 0, j_Operation = opTimeSeriesRollup,
               j_TimeBlock = \<lparr>tb_index = 0, tb_unit = TimeBlockUnitSecond\<rparr>, j_Key = []\<rparr>"

definition Job_String :: "Job \<Rightarrow> string" where
  "Job_String j = operationTypeToString (j_Operation j) @ timeBlock_String (j_TimeBlock j) @ j_Key j"

text \<open>The slices \<open>s[:3]\<close>, \<open>s[3:14]\<close> and \<open>s[14:]\<close> panic on a shorter string.\<close>

definition Job_Of :: "string \<Rightarrow> job_error + Job" where
  "Job_Of s =
     (if length s < 3 then Inl Panic
      else case map_of operationTypeFromString (take 3 s) of
        None \<Rightarrow> Inl (UnknownOperation (take 3 s))
      | Some opr \<Rightarrow>
          if length s < 14 then Inl Panic
          else case timeBlock_Of (take 11 (drop 3 s)) of
            Inl e \<Rightarrow> Inl e
          | Inr tb \<Rightarrow> Inr (zero_Job\<lparr>j_Operation := opr, j_TimeBlock := tb, j_Key := drop 14 s\<rparr>))"

fun delayFactorByTimeBlock :: "TimeBlockUnit \<Rightarrow> int" where
  "delayFactorByTimeBlock TimeBlockUnitSecond = 1"
| "delayFactorByTimeBlock TimeBlockUnitMinute = 1"
| "delayFactorByTimeBlock TimeBlockUnitHour = 12"
| "delayFactorByTimeBlock TimeBlockUnitDay = 24"
| "delayFactorByTimeBlock _ = 0"

definition Job_DelaySec :: "Job \<Rightarrow> int \<Rightarrow> int" where
  "Job_DelaySec j base = wrap64 (delayFactorByTimeBlock (tb_unit (j_TimeBlock j)) * base)"

subsection \<open>Scheduling\<close>

definition getLocalTime :: "time \<Rightarrow> duration \<Rightarrow> Location \<Rightarrow> time" where
  "getLocalTime t d loc =
     (case wall_clock loc t of (day, hour, mi, sec) \<Rightarrow>
        if d \<ge> 24 * Hour then time_of_Unix (date_Unix loc day 0 0 0)
        else if d \<ge> Hour then time_of_Unix (date_Unix loc day hour 0 0)
        else time_of_Unix (date_Unix loc day hour mi 0))"

text \<open>\<open>None\<close>: the remainder by a duration below one millisecond panics.\<close>

definition getProcTime :: "time \<Rightarrow> time \<Rightarrow> duration \<Rightarrow> Location \<Rightarrow> int option" where
  "getProcTime now start duration loc =
     (let durationMilli = dur_Milliseconds duration in
      if \<not> start + duration < now \<and> durationMilli = 0 then None
      else
        let remaining = (if start + duration < now then duration
                         else (durationMilli - trunc_rem (time_UnixMilli start) durationMilli) * 1000000) in
        if duration < Minute then Some (time_Unix (now + remaining))
        else Some (time_Unix (getLocalTime now duration loc + duration)))"

text \<open>
  \<open>crc32.NewIEEE\<close>: the reflected polynomial \<open>0xEDB88320\<close>, bit by bit.
\<close>

fun crc32_bits :: "nat \<Rightarrow> 32 word \<Rightarrow> 32 word" where
  "crc32_bits 0 c = c"
| "crc32_bits (Suc n) c =
     crc32_bits n (if bit c 0 then drop_bit 1 c XOR 0xEDB88320 else drop_bit 1 c)"

definition crc32_IEEE :: "string \<Rightarrow> 32 word" where
  "crc32_IEEE s = NOT (foldl (\<lambda>c b. crc32_bits 8 (c XOR of_nat (of_char b))) 0xFFFFFFFF s)"

text \<open>\<open>None\<close>: the remainder by zero panics.\<close>

definition consumerID :: "string \<Rightarrow> time \<Rightarrow> nat \<Rightarrow> nat option" where
  "consumerID key now maxInstances =
     (if maxInstances = 0 then None
      else Some (unat (ucast (crc32_IEEE (key @ FormatInt (time_Unix now))) :: 16 word) mod maxInstances))"

definition rollup_job :: "TimeBlockUnit \<Rightarrow> duration \<Rightarrow> string \<Rightarrow> time \<Rightarrow> time \<Rightarrow> Location \<Rightarrow> nat \<Rightarrow> Job option" where
  "rollup_job unit d key now start loc maxInstances =
     (case (getProcTime now start d loc, consumerID key now maxInstances) of
        (Some p, Some c) \<Rightarrow>
          Some \<lparr>j_Group = GroupRollup, j_ProcTimeSec = p, j_ConsumerID = c, j_Operation = opTimeSeriesRollup,
                j_TimeBlock = toTimeBlock start unit loc, j_Key = key\<rparr>
      | _ \<Rightarrow> None)"

definition rollup1MinuteJob :: "string \<Rightarrow> time \<Rightarrow> time \<Rightarrow> Location \<Rightarrow> nat \<Rightarrow> Job option" where
  "rollup1MinuteJob = rollup_job TimeBlockUnitMinute Minute"

definition rollup1HourJob :: "string \<Rightarrow> time \<Rightarrow> time \<Rightarrow> Location \<Rightarrow> nat \<Rightarrow> Job option" where
  "rollup1HourJob = rollup_job TimeBlockUnitHour Hour"

definition rollup1DayJob :: "string \<Rightarrow> time \<Rightarrow> time \<Rightarrow> Location \<Rightarrow> nat \<Rightarrow> Job option" where
  "rollup1DayJob = rollup_job TimeBlockUnitDay (24 * Hour)"

text \<open>The deletion jobs share their body and differ in the operation; the time block is the zero value.\<close>

definition delete_job :: "OperationType \<Rightarrow> string \<Rightarrow> time \<Rightarrow> nat \<Rightarrow> Job option" where
  "delete_job opr key now maxInstances =
     map_option (\<lambda>c. zero_Job\<lparr>j_Group := GroupDelete, j_ProcTimeSec := time_Unix now, j_ConsumerID := c,
                              j_Operation := opr, j_Key := key\<rparr>)
       (consumerID key now maxInstances)"

definition deleteThingJob :: "string \<Rightarrow> time \<Rightarrow> nat \<Rightarrow> Job option" where
  "deleteThingJob = delete_job OpTimeSeriesDelete"
definition deleteEventTypeJob :: "string \<Rightarrow> time \<Rightarrow> nat \<Rightarrow> Job option" where
  "deleteEventTypeJob = delete_job OpEventTypeDelete"
definition deleteCommandTypeJob :: "string \<Rightarrow> time \<Rightarrow> nat \<Rightarrow> Job option" where
  "deleteCommandTypeJob = delete_job OpCommandTypeDelete"
definition deleteThingEventJob :: "string \<Rightarrow> time \<Rightarrow> nat \<Rightarrow> Job option" where
  "deleteThingEventJob = delete_job OpThingEventDelete"
definition deleteThingCommandJob :: "string \<Rightarrow> time \<Rightarrow> nat \<Rightarrow> Job option" where
  "deleteThingCommandJob = delete_job OpThingCommandDelete"
definition deleteThingActionJob :: "string \<Rightarrow> time \<Rightarrow> nat \<Rightarrow> Job option" where
  "deleteThingActionJob = delete_job OpThingActionDelete"
definition deleteThingTimeSeriesJob :: "string \<Rightarrow> time \<Rightarrow> nat \<Rightarrow> Job option" where
  "deleteThingTimeSeriesJob = delete_job OpThingTimeSeriesDelete"

subsection \<open>The tables\<close>

interpretation groups: prefix_codec GroupToString "map_of GroupFromString" 3
proof unfold_locales
  show "map_of GroupFromString (GroupToString x) = Some x" for x
    by (cases x) (simp_all add: GroupFromString_def)
  show "GroupToString x = s" if "map_of GroupFromString s = Some x" for s x
    using that by (auto simp: GroupFromString_def split: if_splits)
  show "length (GroupToString x) = 3" for x by (cases x) simp_all
qed

interpretation operations: prefix_codec operationTypeToString "map_of operationTypeFromString" 3
proof unfold_locales
  show "map_of operationTypeFromString (operationTypeToString x) = Some x" for x
    by (cases x) (simp_all add: operationTypeFromString_def)
  show "operationTypeToString x = s" if "map_of operationTypeFromString s = Some x" for s x
    using that by (auto simp: operationTypeFromString_def split: if_splits)
  show "length (operationTypeToString x) = 3" for x by (cases x) simp_all
qed

interpretation units: codec TimeBlockUnitToString "map_of TimeBlockUnitFromString"
proof unfold_locales
  show "map_of TimeBlockUnitFromString (TimeBlockUnitToString x) = Some x" for x
    by (cases x) (simp_all add: TimeBlockUnitFromString_def)
  show "TimeBlockUnitToString x = s" if "map_of TimeBlockUnitFromString s = Some x" for s x
    using that by (auto simp: TimeBlockUnitFromString_def split: if_splits)
qed

lemma digit_no_unit: "is_digit c \<Longrightarrow> map_of TimeBlockUnitFromString c = None"
proof -
  have "\<not> is_digit (CHR ''s'')" "\<not> is_digit (CHR ''m'')" "\<not> is_digit (CHR ''h'')"
    "\<not> is_digit (CHR ''d'')" "\<not> is_digit (CHR ''W'')" "\<not> is_digit (CHR ''M'')"
    by (simp_all add: is_digit_def)
  moreover assume "is_digit c"
  ultimately show ?thesis by (auto simp: map_of_eq_None_iff TimeBlockUnitFromString_def)
qed

subsection \<open>The string form of a job\<close>

lemma timeBlock_roundtrip:
  assumes "min_int64 \<le> tb_index tb" "tb_index tb \<le> max_int64"
  shows "timeBlock_Of (timeBlock_String tb) = Inr tb"
  using assms by (simp add: timeBlock_Of_def timeBlock_String_def ParseInt_fmt_0d units.dec_enc)

lemma Job_Of_parts:
  "Job_Of (operationTypeToString opr @ s) =
     (if length s < 11 then Inl Panic
      else case timeBlock_Of (take 11 s) of
        Inl e \<Rightarrow> Inl e
      | Inr tb \<Rightarrow> Inr (zero_Job\<lparr>j_Operation := opr, j_TimeBlock := tb, j_Key := drop 11 s\<rparr>))"
  using operations.width_enc [of opr] operations.dec_take [of opr s]
  by (simp add: Job_Of_def split: sum.split)

lemma Job_Of_String:
  assumes "- (10 ^ 9) < tb_index (j_TimeBlock j)" "tb_index (j_TimeBlock j) < 10 ^ 10"
  shows "Job_Of (Job_String j) = Inr (j\<lparr>j_Group := GroupRollup, j_ProcTimeSec := 0, j_ConsumerID := 0\<rparr>)"
proof -
  have "length (timeBlock_String (j_TimeBlock j)) = 11"
    using length_fmt_0d [of 10 "tb_index (j_TimeBlock j)"] assms by (simp add: timeBlock_String_def)
  moreover have "timeBlock_Of (timeBlock_String (j_TimeBlock j)) = Inr (j_TimeBlock j)"
    using assms by (intro timeBlock_roundtrip) (simp_all add: min_int64_def max_int64_def)
  ultimately show ?thesis
    by (simp add: Job_String_def Job_Of_parts zero_Job_def)
qed

text \<open>
  C27: the string form of a job. For a time index that fits ten characters, from \<open>-10^9 + 1\<close>
  up to \<open>10^10 - 1\<close>, reading the string form of a job gives the job back, except for the group, the
  processing time and the consumer, which are not part of it.
\<close>

theorem Job_roundtrip:
  assumes "- (10 ^ 9) < tb_index (j_TimeBlock j)" "tb_index (j_TimeBlock j) < 10 ^ 10"
  shows "Job_Of (Job_String j) = Inr (j\<lparr>j_Group := GroupRollup, j_ProcTimeSec := 0, j_ConsumerID := 0\<rparr>)"
  using assms by (rule Job_Of_String)

theorem Job_roundtrip_witness:
  "Job_Of (Job_String (zero_Job\<lparr>j_TimeBlock := \<lparr>tb_index = 1700000000, tb_unit = TimeBlockUnitHour\<rparr>,
                                j_Key := ''thing/ps''\<rparr>)) =
   Inr (zero_Job\<lparr>j_TimeBlock := \<lparr>tb_index = 1700000000, tb_unit = TimeBlockUnitHour\<rparr>, j_Key := ''thing/ps''\<rparr>)"
  using Job_roundtrip [of "zero_Job\<lparr>j_TimeBlock := \<lparr>tb_index = 1700000000, tb_unit = TimeBlockUnitHour\<rparr>,
                                j_Key := ''thing/ps''\<rparr>"]
  by (simp add: zero_Job_def)

lemma timeBlock_Of_digits:
  assumes "list_all is_digit s" "s \<noteq> []"
  shows "timeBlock_Of s \<in> {Inl ParseError, Inl (UnknownUnit s)}"
proof -
  have "is_digit (last s)" using assms by (simp add: list_all_iff)
  then show ?thesis using assms(2)
    by (simp add: timeBlock_Of_def digit_no_unit split: option.split)
qed

text \<open>
  A time index of more than ten digits never reads back as another job: the fixed slice
  \<open>s[3:14]\<close> then holds digits only and the reader returns an error.
\<close>

theorem Job_index_overflow_rejected:
  assumes "10 ^ 10 \<le> tb_index (j_TimeBlock j)"
  shows "\<exists>e. Job_Of (Job_String j) = Inl e \<and> e \<noteq> Panic"
proof -
  let ?ds = "dec_digits (nat (tb_index (j_TimeBlock j)))"
  have "nat (10 ^ 10) \<le> nat (tb_index (j_TimeBlock j))" using assms by (rule nat_mono)
  then have "10 ^ 10 \<le> nat (tb_index (j_TimeBlock j))" by (simp add: nat_power_eq)
  from length_dec_digits_ge [OF this] have len: "11 \<le> length ?ds" by simp
  then have "fmt_0d 10 (tb_index (j_TimeBlock j)) = ?ds" using assms by (simp add: fmt_0d_def Let_def)
  moreover have "timeBlock_Of (take 11 ?ds) \<in> {Inl ParseError, Inl (UnknownUnit (take 11 ?ds))}"
  proof (rule timeBlock_Of_digits)
    show "list_all is_digit (take 11 ?ds)"
      using dec_digits_all [of "nat (tb_index (j_TimeBlock j))"] by (auto simp: list_all_iff dest: in_set_takeD)
  qed simp
  ultimately show ?thesis using len
    by (auto simp: Job_String_def Job_Of_parts timeBlock_String_def)
qed

theorem Job_index_overflow_rejected_witness:
  "\<exists>e. Job_Of (Job_String (zero_Job\<lparr>j_TimeBlock := \<lparr>tb_index = 10000000000, tb_unit = TimeBlockUnitHour\<rparr>\<rparr>)) = Inl e"
  using Job_index_overflow_rejected
    [of "zero_Job\<lparr>j_TimeBlock := \<lparr>tb_index = 10000000000, tb_unit = TimeBlockUnitHour\<rparr>\<rparr>"] by auto

subsection \<open>Blocks and processing times in a zone of fixed offset\<close>

fun unit_seconds :: "TimeBlockUnit \<Rightarrow> int" where
  "unit_seconds TimeBlockUnitMinute = 60"
| "unit_seconds TimeBlockUnitHour = 3600"
| "unit_seconds TimeBlockUnitDay = 86400"
| "unit_seconds _ = 1"

lemma toTimeBlock_fixed:
  assumes t: "\<bar>time_Unix t\<bar> \<le> 1000000000000000" and off: "\<bar>off\<bar> \<le> 86400"
  shows "tb_index (toTimeBlock t unit (fixed_zone off)) =
         time_Unix t - (time_Unix t + off) mod unit_seconds unit"
proof -
  have "near (time_Unix t)" using t by (simp add: near_def)
  then show ?thesis
    by (cases unit)
      (simp_all add: toTimeBlock_def wall_clock_fixed Let_def date_floor_fixed [OF t off])
qed

text \<open>
  Time blocks. In a zone of fixed offset the block of an instant, for any of the units a
  rollup uses, starts at a local multiple of the unit and holds the instant.
\<close>

theorem toTimeBlock_holds_instant:
  assumes t: "\<bar>time_Unix t\<bar> \<le> 1000000000000000" and off: "\<bar>off\<bar> \<le> 86400"
    and unit: "unit \<in> {TimeBlockUnitSecond, TimeBlockUnitMinute, TimeBlockUnitHour, TimeBlockUnitDay}"
  shows "timeBlock_ToTime (toTimeBlock t unit (fixed_zone off)) \<le> t \<and>
    t < timeBlock_ToTime (toTimeBlock t unit (fixed_zone off)) + timeBlock_Duration (toTimeBlock t unit (fixed_zone off)) \<and>
    (tb_index (toTimeBlock t unit (fixed_zone off)) + off) mod unit_seconds unit = 0"
proof -
  let ?tb = "toTimeBlock t unit (fixed_zone off)"
  define d where "d = unit_seconds unit"
  define m where "m = (time_Unix t + off) mod d"
  have "0 < d" unfolding d_def by (cases unit) auto
  then have m: "0 \<le> m" "m < d" by (simp_all add: m_def)
  have dur: "timeBlock_Duration ?tb = d * 1000000000"
    using unit by (auto simp: d_def timeBlock_Duration_def toTimeBlock_def split: prod.split)
  have idx: "tb_index ?tb = time_Unix t - m"
    unfolding m_def d_def by (rule toTimeBlock_fixed [OF t off])
  have "tb_index ?tb + off = (time_Unix t + off) div d * d"
    unfolding idx m_def using minus_mod_eq_div_mult [of "time_Unix t + off" d] by (simp only: algebra_simps)
  then have "(tb_index ?tb + off) mod d = 0" by simp
  moreover have "timeBlock_ToTime ?tb = time_of_Unix (time_Unix t) - m * 1000000000"
    by (simp only: timeBlock_ToTime_def idx time_of_Unix_diff)
  ultimately show ?thesis using m dur time_in_second [of t] by (simp add: d_def)
qed

theorem toTimeBlock_holds_instant_witness:
  "timeBlock_ToTime (toTimeBlock 63800000000123456789 TimeBlockUnitHour (fixed_zone 28800)) \<le> 63800000000123456789 \<and>
   (tb_index (toTimeBlock 63800000000123456789 TimeBlockUnitHour (fixed_zone 28800)) + 28800) mod 3600 = 0"
  using toTimeBlock_holds_instant [of 63800000000123456789 28800 TimeBlockUnitHour]
  by (simp add: time_Unix_def)

lemma getLocalTime_fixed:
  assumes t: "\<bar>time_Unix t\<bar> \<le> 1000000000000000" and off: "\<bar>off\<bar> \<le> 86400"
    and d: "d \<in> {60, 3600, 86400}"
  shows "getLocalTime t (d * Second) (fixed_zone off) = time_of_Unix (time_Unix t - (time_Unix t + off) mod d)"
proof -
  have n: "near (time_Unix t)" using t by (simp add: near_def)
  consider "d = 60" | "d = 3600" | "d = 86400" using d by blast
  then show ?thesis
    by cases (simp_all add: getLocalTime_def wall_clock_fixed [OF n] Let_def date_floor_fixed [OF t off] duration_units)
qed

lemma getProcTime_fixed:
  assumes t: "\<bar>time_Unix now\<bar> \<le> 1000000000000000" and off: "\<bar>off\<bar> \<le> 86400"
    and d: "d \<in> {60, 3600, 86400}"
  shows "\<exists>p. getProcTime now start (d * Second) (fixed_zone off) = Some p \<and>
           time_Unix now < p \<and> p \<le> time_Unix now + d \<and> (p + off) mod d = 0"
proof -
  define m where "m = (time_Unix now + off) mod d"
  have pos: "0 < d" using d by auto
  then have m: "0 \<le> m" "m < d" by (simp_all add: m_def)
  have "trunc_quot (d * Second) 1000000 \<noteq> 0" "\<not> d * Second < Minute"
    using d by (auto simp: trunc_quot_def duration_units)
  then have "getProcTime now start (d * Second) (fixed_zone off) =
      Some (time_Unix (time_of_Unix (time_Unix now - m) + d * Second))"
    by (simp add: getProcTime_def Let_def dur_Milliseconds_def getLocalTime_fixed [OF t off d] m_def)
  also have "time_of_Unix (time_Unix now - m) + d * Second = time_of_Unix (time_Unix now - m + d)"
    by (simp only: time_of_Unix_add Second_def)
  finally have p: "getProcTime now start (d * Second) (fixed_zone off) = Some (time_Unix now - m + d)"
    by simp
  have "time_Unix now - m + d + off = (time_Unix now + off) div d * d + d"
    unfolding m_def using minus_mod_eq_div_mult [of "time_Unix now + off" d] by linarith
  then have "(time_Unix now - m + d + off) mod d = 0" by (simp only:) simp
  with p m show ?thesis by simp
qed

text \<open>
  Scheduling. A rollup of a minute, an hour or a day is processed at the end of the block
  that is running now: strictly after the current second, at most one block later, on a local
  block boundary (zone of fixed offset), whatever the start of the data.
\<close>

theorem getProcTime_next_boundary:
  assumes t: "\<bar>time_Unix now\<bar> \<le> 1000000000000000" and off: "\<bar>off\<bar> \<le> 86400"
    and d: "d \<in> {60, 3600, 86400}"
  shows "\<exists>p. getProcTime now start (d * Second) (fixed_zone off) = Some p \<and>
           time_Unix now < p \<and> p \<le> time_Unix now + d \<and> (p + off) mod d = 0"
  by (rule getProcTime_fixed [OF assms])

theorem getProcTime_next_boundary_witness:
  "\<exists>p. getProcTime 63800000000123456789 63799999000000000000 (3600 * Second) (fixed_zone 28800) = Some p \<and>
       time_Unix 63800000000123456789 < p"
  using getProcTime_next_boundary [of 63800000000123456789 28800 3600 63799999000000000000]
  by (auto simp: time_Unix_def)

lemma consumerID_bound: "consumerID key now n = Some c \<Longrightarrow> c < n"
  by (auto simp: consumerID_def split: if_splits)

lemma consumerID_defined: "0 < n \<Longrightarrow> \<exists>c. consumerID key now n = Some c"
  by (simp add: consumerID_def)

text \<open>A known value of the CRC.\<close>

lemma crc32_check_value: "crc32_IEEE ''a'' = 0xE8B7BE43"
  by code_simp

end
