(* ===== verification/Job_Manager.thy ===== *)
theory Job_Manager
  imports Job
begin

text \<open>
  The manager of the jobs: \<open>src/pkg/consumer/job/manager.go\<close>, with the key splitting of
  \<open>src/pkg/util/strutil/path.go\<close>. The manager keeps the cache that stops a job from being
  written twice; its writes to the log storage are the statements an operation returns.

  Shown: over every run of rollup requests and cache sweeps with a clock that does not go back, each
  requested job is written exactly once; what was written is retrieved as the same jobs; a
  row that does not parse is still handed to the workers.
\<close>

subsection \<open>Splitting a key\<close>

fun lastSlash_loop :: "string \<Rightarrow> nat \<Rightarrow> int" where
  "lastSlash_loop s 0 = - 1"
| "lastSlash_loop s (Suc i) = (if s ! i \<noteq> CHR ''/'' then lastSlash_loop s i else int i)"

definition lastSlash :: "string \<Rightarrow> int" where
  "lastSlash s = lastSlash_loop s (length s)"

text \<open>\<open>None\<close>: the slice \<open>path[:-1]\<close> of a path without a slash panics.\<close>

definition Split :: "string \<Rightarrow> (string \<times> string) option" where
  "Split path = (let i = lastSlash path in
     if i < 0 then None else Some (take (nat i) path, drop (nat i + 1) path))"

lemma lastSlash_loop_cases:
  "n \<le> length s \<Longrightarrow>
     (lastSlash_loop s n = - 1 \<and> CHR ''/'' \<notin> set (take n s)) \<or>
     (\<exists>i < n. lastSlash_loop s n = int i \<and> s ! i = CHR ''/'' \<and> CHR ''/'' \<notin> set (drop (Suc i) (take n s)))"
proof (induction n)
  case (Suc n)
  have tk: "take (Suc n) s = take n s @ [s ! n]" using Suc.prems by (simp add: take_Suc_conv_app_nth)
  show ?case
  proof (cases "s ! n = CHR ''/''")
    case True
    then show ?thesis using Suc.prems by (intro disjI2 exI [of _ n]) simp
  next
    case False
    from Suc.IH Suc.prems consider "lastSlash_loop s n = - 1" "CHR ''/'' \<notin> set (take n s)"
      | i where "i < n" "lastSlash_loop s n = int i" "s ! i = CHR ''/''" "CHR ''/'' \<notin> set (drop (Suc i) (take n s))"
      by fastforce
    then show ?thesis
    proof cases
      case 1
      with False show ?thesis by (simp add: tk)
    next
      case 2
      with False Suc.prems have "CHR ''/'' \<notin> set (drop (Suc i) (take (Suc n) s))" by (auto simp: tk)
      with 2 False show ?thesis by (intro disjI2 exI [of _ i]) simp
    qed
  qed
qed simp

lemma Split_None_iff: "Split s = None \<longleftrightarrow> CHR ''/'' \<notin> set s"
  using lastSlash_loop_cases [of "length s" s]
  by (auto simp: Split_def lastSlash_def Let_def in_set_conv_nth)

lemma Split_Some:
  assumes "Split s = Some (d, f)"
  shows "s = d @ CHR ''/'' # f \<and> CHR ''/'' \<notin> set f"
proof -
  from lastSlash_loop_cases [of "length s" s] assms obtain i where
    i: "i < length s" "lastSlash s = int i" "s ! i = CHR ''/''" "CHR ''/'' \<notin> set (drop (Suc i) s)"
    by (auto simp: Split_def lastSlash_def Let_def)
  with assms have "d = take i s" "f = drop (Suc i) s" by (simp_all add: Split_def)
  with i show ?thesis using id_take_nth_drop [of i s] by simp
qed

text \<open>A slash-free tail makes the split unique.\<close>

lemma slash_split_unique:
  assumes eq: "d @ CHR ''/'' # f = d' @ CHR ''/'' # f'" and f: "CHR ''/'' \<notin> set f" and f': "CHR ''/'' \<notin> set f'"
  shows "d = d' \<and> f = f'"
proof -
  from f have "takeWhile (\<lambda>c. c \<noteq> CHR ''/'') (rev (d @ CHR ''/'' # f)) = rev f"
    by (subst rev_append) (simp add: takeWhile_append; fastforce)
  moreover from f' have "takeWhile (\<lambda>c. c \<noteq> CHR ''/'') (rev (d' @ CHR ''/'' # f')) = rev f'"
    by (subst rev_append) (simp add: takeWhile_append; fastforce)
  ultimately have "f = f'" using eq by simp
  with eq show ?thesis by simp
qed

text \<open>
  Splitting a key. A key is split at its last slash into a directory without the slash
  and a file; a key with no slash makes the program panic.
\<close>

theorem Split_last_slash:
  "Split s = Some (d, f) \<longleftrightarrow> s = d @ CHR ''/'' # f \<and> CHR ''/'' \<notin> set f"
proof
  assume r: "s = d @ CHR ''/'' # f \<and> CHR ''/'' \<notin> set f"
  then have "Split s \<noteq> None" by (simp add: Split_None_iff)
  then obtain d' f' where sp: "Split s = Some (d', f')" by auto
  with Split_Some r show "Split s = Some (d, f)" using slash_split_unique by metis
qed (rule Split_Some)

subsection \<open>The manager\<close>

record JobManager =
  m_maxInstances :: nat
  m_delaySec :: int
  m_refreshSec :: nat
  m_cache :: "(int, string list) smap"

definition JobManager_New :: "nat \<Rightarrow> int \<Rightarrow> nat \<Rightarrow> JobManager" where
  "JobManager_New maxInstances delaySec refreshSec =
     \<lparr>m_maxInstances = maxInstances, m_delaySec = delaySec, m_refreshSec = refreshSec, m_cache = []\<rparr>"

text \<open>An upsert into, or a deletion from, the table of a group: the key columns and the time.\<close>

record job_stmt =
  st_group :: Group
  st_id :: nat
  st_data :: string
  st_time :: int

definition cache_key :: "Job \<Rightarrow> string" where
  "cache_key j = timeBlock_String (j_TimeBlock j) @ j_Key j"

definition job_upsert :: "Job \<Rightarrow> job_stmt" where
  "job_upsert j = \<lparr>st_group = j_Group j, st_id = j_ConsumerID j, st_data = Job_String j, st_time = j_ProcTimeSec j\<rparr>"

text \<open>The error the source returns is always nil; the error of the insertion is dropped.\<close>

definition writeJob :: "JobManager \<Rightarrow> Job \<Rightarrow> bool \<Rightarrow> JobManager \<times> job_stmt option" where
  "writeJob m j cache =
     (if cache then
        let j = j\<lparr>j_ProcTimeSec := wrap64 (j_ProcTimeSec j + Job_DelaySec j (m_delaySec m))\<rparr>;
            k = cache_key j in
        case cache_load (m_cache m) (j_ProcTimeSec j) of
          Some ks \<Rightarrow>
            if k \<in> set ks then (m, None)
            else (m\<lparr>m_cache := cache_store (j_ProcTimeSec j) (k # ks) (m_cache m)\<rparr>, Some (job_upsert j))
        | None \<Rightarrow> (m\<lparr>m_cache := cache_store (j_ProcTimeSec j) [k] (m_cache m)\<rparr>, Some (job_upsert j))
      else (m, Some (job_upsert j)))"

definition DeleteJob :: "Job \<Rightarrow> job_stmt" where
  "DeleteJob j = \<lparr>st_group = j_Group j, st_id = j_ConsumerID j, st_data = Job_String j, st_time = j_ProcTimeSec j\<rparr>"

definition write_opt :: "JobManager \<Rightarrow> Job option \<Rightarrow> bool \<Rightarrow> (JobManager \<times> job_stmt option) option" where
  "write_opt m j cache = map_option (\<lambda>j. writeJob m j cache) j"

definition Rollup1MinuteJob :: "JobManager \<Rightarrow> string \<Rightarrow> time \<Rightarrow> time \<Rightarrow> Location \<Rightarrow> (JobManager \<times> job_stmt option) option" where
  "Rollup1MinuteJob m key now start loc = write_opt m (rollup1MinuteJob key now start loc (m_maxInstances m)) True"
definition Rollup1HourJob :: "JobManager \<Rightarrow> string \<Rightarrow> time \<Rightarrow> time \<Rightarrow> Location \<Rightarrow> (JobManager \<times> job_stmt option) option" where
  "Rollup1HourJob m key now start loc = write_opt m (rollup1HourJob key now start loc (m_maxInstances m)) True"
definition Rollup1DayJob :: "JobManager \<Rightarrow> string \<Rightarrow> time \<Rightarrow> time \<Rightarrow> Location \<Rightarrow> (JobManager \<times> job_stmt option) option" where
  "Rollup1DayJob m key now start loc = write_opt m (rollup1DayJob key now start loc (m_maxInstances m)) True"

definition DeleteThingJob :: "JobManager \<Rightarrow> string \<Rightarrow> time \<Rightarrow> (JobManager \<times> job_stmt option) option" where
  "DeleteThingJob m key now = write_opt m (deleteThingJob key now (m_maxInstances m)) False"
definition DeleteEventType :: "JobManager \<Rightarrow> string \<Rightarrow> time \<Rightarrow> (JobManager \<times> job_stmt option) option" where
  "DeleteEventType m key now = write_opt m (deleteEventTypeJob key now (m_maxInstances m)) False"
definition DeleteCommandType :: "JobManager \<Rightarrow> string \<Rightarrow> time \<Rightarrow> (JobManager \<times> job_stmt option) option" where
  "DeleteCommandType m key now = write_opt m (deleteCommandTypeJob key now (m_maxInstances m)) False"
definition DeleteThingEvent :: "JobManager \<Rightarrow> string \<Rightarrow> time \<Rightarrow> (JobManager \<times> job_stmt option) option" where
  "DeleteThingEvent m key now = write_opt m (deleteThingEventJob key now (m_maxInstances m)) False"
definition DeleteThingCommand :: "JobManager \<Rightarrow> string \<Rightarrow> time \<Rightarrow> (JobManager \<times> job_stmt option) option" where
  "DeleteThingCommand m key now = write_opt m (deleteThingCommandJob key now (m_maxInstances m)) False"
definition DeleteThingAction :: "JobManager \<Rightarrow> string \<Rightarrow> time \<Rightarrow> (JobManager \<times> job_stmt option) option" where
  "DeleteThingAction m key now = write_opt m (deleteThingActionJob key now (m_maxInstances m)) False"
definition DeleteThingTimeSeries :: "JobManager \<Rightarrow> string \<Rightarrow> time \<Rightarrow> (JobManager \<times> job_stmt option) option" where
  "DeleteThingTimeSeries m key now = write_opt m (deleteThingTimeSeriesJob key now (m_maxInstances m)) False"

text \<open>One tick of the goroutine that empties the cache, at the current time in seconds.\<close>

definition maintainCache :: "JobManager \<Rightarrow> int \<Rightarrow> JobManager" where
  "maintainCache m now = m\<lparr>m_cache := filter (\<lambda>(key, _). \<not> now > key) (m_cache m)\<rparr>"

subsection \<open>Retrieval\<close>

text \<open>A row of the job table as the log storage lists it.\<close>

record job_row =
  row_data :: string
  row_time :: time
  row_group :: string
  row_id :: string

text \<open>\<open>None\<close>: reading the data of the row panics. A missing group reads as the zero value.\<close>

definition row_Job :: "job_row \<Rightarrow> Job option" where
  "row_Job d =
     (case Job_Of (row_data d) of
        Inl Panic \<Rightarrow> None
      | r \<Rightarrow> Some ((case r of Inl _ \<Rightarrow> zero_Job | Inr j \<Rightarrow> j)
               \<lparr>j_ProcTimeSec := time_Unix (row_time d),
                j_Group := (case map_of GroupFromString (row_group d) of Some g \<Rightarrow> g | None \<Rightarrow> GroupRollup),
                j_ConsumerID := nat (Atoi_val (row_id d) mod 2 ^ 16)\<rparr>))"

text \<open>
  The jobs sent to the channel, and their number. \<open>ls\<close> is the answer of the log storage for an
  identifier of this consumer.
\<close>

fun send_rows :: "job_row list \<Rightarrow> Job list option" where
  "send_rows [] = Some []"
| "send_rows (d # ds) =
     (case row_Job d of None \<Rightarrow> None
      | Some j \<Rightarrow> map_option ((#) j) (send_rows ds))"

fun RetrieveJobs :: "(nat \<Rightarrow> job_row list) \<Rightarrow> nat list \<Rightarrow> (Job list \<times> nat) option" where
  "RetrieveJobs ls [] = Some ([], 0)"
| "RetrieveJobs ls (i # is) =
     (case send_rows (ls i) of None \<Rightarrow> None
      | Some js \<Rightarrow> map_option (\<lambda>(js', cnt). (js @ js', length (ls i) + cnt)) (RetrieveJobs ls is))"

subsection \<open>Every requested job is written exactly once\<close>

definition cached :: "JobManager \<Rightarrow> int \<Rightarrow> string \<Rightarrow> bool" where
  "cached m p k = (case cache_load (m_cache m) p of None \<Rightarrow> False | Some ks \<Rightarrow> k \<in> set ks)"

text \<open>The identity of a written job: its processing time and its cache key.\<close>

definition stmt_key :: "job_stmt \<Rightarrow> int \<times> string" where
  "stmt_key s = (st_time s, drop 3 (st_data s))"

definition request_key :: "JobManager \<Rightarrow> Job \<Rightarrow> int \<times> string" where
  "request_key m j = (wrap64 (j_ProcTimeSec j + Job_DelaySec j (m_delaySec m)), cache_key j)"

lemma cache_key_upd [simp]: "cache_key (j\<lparr>j_ProcTimeSec := p\<rparr>) = cache_key j"
  by (simp add: cache_key_def)

lemma writeJob_cached:
  "writeJob m j True =
     (case request_key m j of (p, k) \<Rightarrow>
        if cached m p k then (m, None)
        else (m\<lparr>m_cache := cache_store p (k # (case cache_load (m_cache m) p of None \<Rightarrow> [] | Some ks \<Rightarrow> ks)) (m_cache m)\<rparr>,
              Some (job_upsert (j\<lparr>j_ProcTimeSec := p\<rparr>))))"
  by (simp add: writeJob_def request_key_def cached_def Let_def split: option.split)

lemma stmt_key_upsert: "stmt_key (job_upsert j) = (j_ProcTimeSec j, cache_key j)"
  using operations.width_enc [of "j_Operation j"]
  by (simp add: stmt_key_def job_upsert_def Job_String_def cache_key_def)

lemma writeJob_effect:
  assumes "writeJob m j True = (m', st)" "request_key m j = (p, k)"
  shows "cached m' p' k' \<longleftrightarrow> cached m p' k' \<or> (p', k') = (p, k)"
    and "m_delaySec m' = m_delaySec m" "m_maxInstances m' = m_maxInstances m"
    and "st = None \<longleftrightarrow> cached m p k" "st = Some s \<Longrightarrow> stmt_key s = (p, k)"
    and "cache_ok (m_cache m) \<Longrightarrow> cache_ok (m_cache m')"
  using assms
  by (auto simp: writeJob_cached cached_def stmt_key_upsert split: if_splits option.splits)
    (simp_all add: request_key_def)

lemma map_of_filter_fst: "map_of (filter (\<lambda>(k, _). P k) m) k = (if P k then map_of m k else None)"
  by (induction m) auto

lemma maintainCache_cached: "cached (maintainCache m now) p k \<longleftrightarrow> now \<le> p \<and> cached m p k"
  by (auto simp: maintainCache_def cached_def cache_load_def map_of_filter_fst not_less)

text \<open>Requests and sweeps in the order the manager sees them, with the clock of each.\<close>

datatype job_event =
    Req1Minute string time time
  | Req1Hour string time time
  | Req1Day string time time
  | Sweep time

fun event_clock :: "job_event \<Rightarrow> int" where
  "event_clock (Req1Minute key now start) = time_Unix now"
| "event_clock (Req1Hour key now start) = time_Unix now"
| "event_clock (Req1Day key now start) = time_Unix now"
| "event_clock (Sweep now) = time_Unix now"

fun job_step :: "Location \<Rightarrow> JobManager \<Rightarrow> job_event \<Rightarrow> (JobManager \<times> job_stmt option) option" where
  "job_step loc m (Req1Minute key now start) = Rollup1MinuteJob m key now start loc"
| "job_step loc m (Req1Hour key now start) = Rollup1HourJob m key now start loc"
| "job_step loc m (Req1Day key now start) = Rollup1DayJob m key now start loc"
| "job_step loc m (Sweep now) = Some (maintainCache m (time_Unix now), None)"

fun job_run :: "Location \<Rightarrow> JobManager \<Rightarrow> job_event list \<Rightarrow> (JobManager \<times> job_stmt list) option" where
  "job_run loc m [] = Some (m, [])"
| "job_run loc m (e # es) =
     (case job_step loc m e of None \<Rightarrow> None
      | Some (m', st) \<Rightarrow> map_option (\<lambda>(m'', sts). (m'', (case st of None \<Rightarrow> [] | Some s \<Rightarrow> [s]) @ sts)) (job_run loc m' es))"

text \<open>The job a request asks for, and its identity.\<close>

fun event_job :: "Location \<Rightarrow> nat \<Rightarrow> job_event \<Rightarrow> Job option" where
  "event_job loc n (Req1Minute key now start) = rollup1MinuteJob key now start loc n"
| "event_job loc n (Req1Hour key now start) = rollup1HourJob key now start loc n"
| "event_job loc n (Req1Day key now start) = rollup1DayJob key now start loc n"
| "event_job loc n (Sweep now) = None"

definition requested :: "Location \<Rightarrow> JobManager \<Rightarrow> job_event list \<Rightarrow> (int \<times> string) set" where
  "requested loc m es = {request_key m j | e j. e \<in> set es \<and> event_job loc (m_maxInstances m) e = Some j}"

lemma job_step_request:
  "event_job loc (m_maxInstances m) e = Some j \<Longrightarrow> job_step loc m e = Some (writeJob m j True)"
  by (cases e) (simp_all add: Rollup1MinuteJob_def Rollup1HourJob_def Rollup1DayJob_def write_opt_def)

lemma wrap64_id: "\<bar>x\<bar> \<le> 9000000000000000000 \<Longrightarrow> wrap64 x = x"
  by (simp add: wrap64_def)

lemma event_job_future:
  assumes "event_job (fixed_zone off) n e = Some j" "\<bar>event_clock e\<bar> \<le> 1000000000000000" "\<bar>off\<bar> \<le> 86400"
  shows "event_clock e < j_ProcTimeSec j \<and> j_ProcTimeSec j \<le> event_clock e + 86400 \<and>
         tb_unit (j_TimeBlock j) \<in> {TimeBlockUnitMinute, TimeBlockUnitHour, TimeBlockUnitDay}"
proof -
  have key: "time_Unix now < j_ProcTimeSec j \<and> j_ProcTimeSec j \<le> time_Unix now + 86400 \<and> tb_unit (j_TimeBlock j) = u"
    if "rollup_job u D key now start (fixed_zone off) n = Some j" "\<bar>time_Unix now\<bar> \<le> 1000000000000000"
      "d \<in> {60, 3600, 86400}" "D = d * Second" for u d D key now start
    using that(1,3) getProcTime_fixed [OF that(2) assms(3) that(3), of start] unfolding that(4)
    by (auto simp: rollup_job_def toTimeBlock_def split: option.splits prod.splits)
  have units: "Minute = 60 * Second" "Hour = 3600 * Second" "24 * Hour = 86400 * Second"
    by (simp_all add: duration_units)
  show ?thesis
  proof (cases e)
    case (Req1Minute k t s)
    with assms(1) have "rollup_job TimeBlockUnitMinute (Minute) k t s (fixed_zone off) n = Some j" by (simp only: event_job.simps rollup1MinuteJob_def)
    from key [OF this _ _ units(1)] assms(2) Req1Minute show ?thesis by simp
  next
    case (Req1Hour k t s)
    with assms(1) have "rollup_job TimeBlockUnitHour (Hour) k t s (fixed_zone off) n = Some j" by (simp only: event_job.simps rollup1HourJob_def)
    from key [OF this _ _ units(2)] assms(2) Req1Hour show ?thesis by simp
  next
    case (Req1Day k t s)
    with assms(1) have "rollup_job TimeBlockUnitDay (24 * Hour) k t s (fixed_zone off) n = Some j" by (simp only: event_job.simps rollup1DayJob_def)
    from key [OF this _ _ units(3)] assms(2) Req1Day show ?thesis by simp
  qed (use assms(1) in simp)
qed

lemma request_future:
  assumes j: "event_job (fixed_zone off) n e = Some j"
    and clk: "\<bar>event_clock e\<bar> \<le> 1000000000000000" and off: "\<bar>off\<bar> \<le> 86400"
    and delay: "0 \<le> m_delaySec m" "m_delaySec m \<le> 1000000000000000"
  shows "event_clock e < fst (request_key m j)"
proof -
  note f = event_job_future [OF j clk off]
  define c where "c = delayFactorByTimeBlock (tb_unit (j_TimeBlock j)) * m_delaySec m"
  have "0 \<le> c" "c \<le> 24 * m_delaySec m" unfolding c_def using f delay(1) by auto
  moreover from this have "Job_DelaySec j (m_delaySec m) = c"
    unfolding Job_DelaySec_def c_def [symmetric] using delay(2) by (intro wrap64_id) linarith
  moreover have "wrap64 (j_ProcTimeSec j + c) = j_ProcTimeSec j + c"
    using f clk delay(2) calculation(1,2) by (intro wrap64_id) linarith
  ultimately show ?thesis using f by (simp add: request_key_def)
qed

lemma event_job_defined:
  assumes "\<bar>event_clock e\<bar> \<le> 1000000000000000" "\<bar>off\<bar> \<le> 86400" "0 < n" "\<forall>t. e \<noteq> Sweep t"
  shows "\<exists>j. event_job (fixed_zone off) n e = Some j"
proof -
  have key: "\<exists>j. rollup_job u D key now start (fixed_zone off) n = Some j"
    if "\<bar>time_Unix now\<bar> \<le> 1000000000000000" "d \<in> {60, 3600, 86400}" "D = d * Second" for u d D key now start
    using getProcTime_fixed [OF that(1) assms(2) that(2), of start] consumerID_defined [OF assms(3), of key now]
    unfolding that(3) by (auto simp: rollup_job_def)
  have units: "Minute = 60 * Second" "Hour = 3600 * Second" "24 * Hour = 86400 * Second"
    by (simp_all add: duration_units)
  show ?thesis using assms(1,4) key [OF _ _ units(1)] key [OF _ _ units(2)] key [OF _ _ units(3)]
    by (cases e) (simp_all add: rollup1MinuteJob_def rollup1HourJob_def rollup1DayJob_def)
qed

text \<open>
  The invariant of a run: what was written is pairwise different, what is cached was
  written, and what was written for the present or the future is still cached.
\<close>

definition once_inv :: "JobManager \<Rightarrow> int \<Rightarrow> (int \<times> string) list \<Rightarrow> bool" where
  "once_inv m clk K \<longleftrightarrow> distinct K \<and> (\<forall>p k. cached m p k \<longrightarrow> (p, k) \<in> set K) \<and>
     (\<forall>p k. (p, k) \<in> set K \<and> clk \<le> p \<longrightarrow> cached m p k)"

lemma once_inv_write:
  assumes "once_inv m clk K" "request_key m j = (p, k)" "clk \<le> p" "writeJob m j True = (m', st)" "clk \<le> clk'"
  shows "\<exists>K'. once_inv m' clk' (K @ K') \<and> set (K @ K') = insert (p, k) (set K) \<and>
           map stmt_key (case st of None \<Rightarrow> [] | Some s \<Rightarrow> [s]) = K'"
proof (cases st)
  case None
  with writeJob_effect [OF assms(4,2)] have c: "cached m p k" "\<And>p' k'. cached m' p' k' \<longleftrightarrow> cached m p' k'" by auto
  with assms(1) have "(p, k) \<in> set K" by (simp add: once_inv_def)
  with c assms(1,5) None show ?thesis by (auto simp: once_inv_def)
next
  case (Some s)
  with writeJob_effect [OF assms(4,2)] have c: "\<not> cached m p k" "stmt_key s = (p, k)"
    "\<And>p' k'. cached m' p' k' \<longleftrightarrow> cached m p' k' \<or> (p', k') = (p, k)" by auto
  with assms(1,3) have "(p, k) \<notin> set K" by (auto simp: once_inv_def)
  with c assms(1,5) Some show ?thesis by (auto simp: once_inv_def)
qed

lemma once_inv_sweep: "once_inv m clk K \<Longrightarrow> clk \<le> now \<Longrightarrow> once_inv (maintainCache m now) now K"
  by (auto simp: once_inv_def maintainCache_cached)

lemma requested_Cons:
  "requested loc m (e # es) =
     (case event_job loc (m_maxInstances m) e of None \<Rightarrow> {} | Some j \<Rightarrow> {request_key m j}) \<union> requested loc m es"
  by (auto simp: requested_def split: option.splits)

lemma requested_cong:
  "m_maxInstances m' = m_maxInstances m \<Longrightarrow> m_delaySec m' = m_delaySec m \<Longrightarrow> requested loc m' es = requested loc m es"
  by (simp add: requested_def request_key_def)

lemma job_run_once:
  assumes "once_inv m clk K" "0 < m_maxInstances m" "\<bar>off\<bar> \<le> 86400"
    and "0 \<le> m_delaySec m" "m_delaySec m \<le> 1000000000000000"
    and "sorted (clk # map event_clock es)" "\<forall>e\<in>set es. \<bar>event_clock e\<bar> \<le> 1000000000000000"
  shows "\<exists>m' sts. job_run (fixed_zone off) m es = Some (m', sts) \<and> distinct (K @ map stmt_key sts) \<and>
           set (K @ map stmt_key sts) = set K \<union> requested (fixed_zone off) m es"
  using assms
proof (induction es arbitrary: m clk K)
  case Nil
  then show ?case by (simp add: once_inv_def requested_def)
next
  case (Cons e es)
  let ?loc = "fixed_zone off" and ?n = "m_maxInstances m"
  note prems = Cons.prems
  have le: "clk \<le> event_clock e" and b: "\<bar>event_clock e\<bar> \<le> 1000000000000000" using prems by simp_all
  show ?case
  proof (cases "\<exists>now. e = Sweep now")
    case True
    then obtain now where e: "e = Sweep now" ..
    let ?m' = "maintainCache m (time_Unix now)"
    have "m_maxInstances ?m' = ?n" "m_delaySec ?m' = m_delaySec m" by (simp_all add: maintainCache_def)
    then show ?thesis using Cons.IH [OF once_inv_sweep [OF prems(1) le]] prems e
      by (fastforce simp: requested_Cons requested_cong [of ?m' m])
  next
    case False
    then obtain j where j: "event_job ?loc ?n e = Some j" using event_job_defined [OF b prems(3,2)] by auto
    obtain p k where rk: "request_key m j = (p, k)" by fastforce
    obtain m' st where w: "writeJob m j True = (m', st)" by fastforce
    from request_future [OF j b prems(3-5)] rk le have p: "clk \<le> p" by simp
    note eff = writeJob_effect [OF w rk]
    from once_inv_write [OF prems(1) rk p w le] obtain K' where K':
      "once_inv m' (event_clock e) (K @ K')" "set (K @ K') = insert (p, k) (set K)"
      "map stmt_key (case st of None \<Rightarrow> [] | Some s \<Rightarrow> [s]) = K'" by blast
    from Cons.IH [OF K'(1)] prems eff(2,3) obtain m'' sts where ih:
      "job_run ?loc m' es = Some (m'', sts)" "distinct ((K @ K') @ map stmt_key sts)"
      "set ((K @ K') @ map stmt_key sts) = set (K @ K') \<union> requested ?loc m' es" by auto
    let ?s0 = "case st of None \<Rightarrow> [] | Some s \<Rightarrow> [s]"
    have run: "job_run ?loc m (e # es) = Some (m'', ?s0 @ sts)"
      using job_step_request [OF j] w ih(1) by simp
    have req: "requested ?loc m (e # es) = insert (p, k) (requested ?loc m' es)"
      using requested_cong [OF eff(3,2)] j rk by (simp add: requested_Cons)
    have keys: "K @ map stmt_key (?s0 @ sts) = (K @ K') @ map stmt_key sts"
      using K'(3) by (simp only: map_append append_assoc)
    have "set ((K @ K') @ map stmt_key sts) = set K \<union> requested ?loc m (e # es)"
      unfolding ih(3) K'(2) req by blast
    with run ih(2) show ?thesis unfolding keys [symmetric] by blast
  qed
qed



subsection \<open>Retrieval gives back what was written\<close>

text \<open>The row the log storage keeps for an upsert: times to the second, numbers in decimal.\<close>

definition stored_row :: "job_stmt \<Rightarrow> job_row" where
  "stored_row st = \<lparr>row_data = st_data st, row_time = time_of_Unix (st_time st),
                    row_group = GroupToString (st_group st), row_id = FormatInt (int (st_id st))\<rparr>"

definition job_ok :: "Job \<Rightarrow> bool" where
  "job_ok j = (- (10 ^ 9) < tb_index (j_TimeBlock j) \<and> tb_index (j_TimeBlock j) < 10 ^ 10 \<and> j_ConsumerID j < 2 ^ 16)"

lemma row_Job_stored:
  assumes "job_ok j"
  shows "row_Job (stored_row (job_upsert j)) = Some j"
proof -
  have "Job_Of (Job_String j) = Inr (j\<lparr>j_Group := GroupRollup, j_ProcTimeSec := 0, j_ConsumerID := 0\<rparr>)"
    using assms by (intro Job_Of_String) (simp_all add: job_ok_def)
  moreover have "Atoi_val (FormatInt (int (j_ConsumerID j))) = int (j_ConsumerID j)"
    using assms by (intro Atoi_val_ParseInt ParseInt_FormatInt) (simp_all add: job_ok_def min_int64_def max_int64_def)
  ultimately show ?thesis using assms
    by (simp add: row_Job_def stored_row_def job_upsert_def groups.dec_enc job_ok_def)
qed

lemma send_rows_stored: "list_all job_ok js \<Longrightarrow> send_rows (map (stored_row \<circ> job_upsert) js) = Some js"
  by (induction js) (simp_all add: row_Job_stored)

lemma RetrieveJobs_stored:
  assumes "\<forall>i\<in>set is. list_all job_ok (js i) \<and> ls i = map (stored_row \<circ> job_upsert) (js i)"
  shows "RetrieveJobs ls is = Some (concat (map js is), length (concat (map js is)))"
  using assms by (induction "is") (simp_all add: send_rows_stored)

text \<open>
  Jobs reach the workers unchanged. When the log storage lists, for every identifier of
  the consumer, the rows of the jobs written for it, the channel receives exactly these
  jobs, in order, with group, processing time and consumer restored, and their number is returned.
\<close>

theorem RetrieveJobs_written:
  assumes "\<forall>i\<in>set is. list_all job_ok (js i) \<and> ls i = map (stored_row \<circ> job_upsert) (js i)"
  shows "RetrieveJobs ls is = Some (concat (map js is), length (concat (map js is)))"
  using assms by (rule RetrieveJobs_stored)

theorem RetrieveJobs_written_witness:
  "RetrieveJobs (\<lambda>i. map (stored_row \<circ> job_upsert) [zero_Job\<lparr>j_Key := ''t/p'', j_ConsumerID := i\<rparr>]) [1, 2] =
     Some ([zero_Job\<lparr>j_Key := ''t/p'', j_ConsumerID := 1\<rparr>, zero_Job\<lparr>j_Key := ''t/p'', j_ConsumerID := 2\<rparr>], 2)"
  using RetrieveJobs_written [of "[1, 2]" "\<lambda>i. [zero_Job\<lparr>j_Key := ''t/p'', j_ConsumerID := i\<rparr>]"
      "\<lambda>i. map (stored_row \<circ> job_upsert) [zero_Job\<lparr>j_Key := ''t/p'', j_ConsumerID := i\<rparr>]"]
  by (simp add: job_ok_def zero_Job_def)

text \<open>
  A row that does not parse is not skipped. The error is logged and the zero job, with an
  empty key, is sent to the workers under the time, group and consumer of the row; splitting its key then
  panics.
\<close>

theorem RetrieveJobs_sends_unparsed:
  assumes "Job_Of (row_data d) = Inl e" "e \<noteq> Panic" "ls i = [d]"
  shows "\<exists>j. RetrieveJobs ls [i] = Some ([j], 1) \<and> j_Key j = [] \<and> j_Operation j = opTimeSeriesRollup \<and>
           Split (j_Key j) = None"
  using assms by (cases e) (simp_all add: row_Job_def zero_Job_def Split_None_iff)

theorem RetrieveJobs_sends_unparsed_witness:
  "\<exists>j. RetrieveJobs (\<lambda>i. [\<lparr>row_data = ''XYZ'', row_time = 0, row_group = ''rup'', row_id = ''1''\<rparr>]) [1] = Some ([j], 1) \<and>
       Split (j_Key j) = None"
  using RetrieveJobs_sends_unparsed [of "\<lparr>row_data = ''XYZ'', row_time = 0, row_group = ''rup'', row_id = ''1''\<rparr>"
      "UnknownOperation ''XYZ''" "\<lambda>i. [\<lparr>row_data = ''XYZ'', row_time = 0, row_group = ''rup'', row_id = ''1''\<rparr>]" 1]
  by (auto simp: Job_Of_def operationTypeFromString_def)

end
