(* ===== verification/Consumer.thy ===== *)
theory Consumer
  imports Registry Job_Manager
begin

text \<open>
  A consumer instance: \<open>src/pkg/consumer/instance/consumer.go\<close> (the workers, the counters of
  running jobs and the identifiers they lock) and the handlers of the deletion jobs under
  \<open>src/pkg/consumer/{event,command,thing,data}/deletion.go\<close>. The log storage is a parameter:
  a record of the operations the handlers call, on a state of any type.

  Shown: in every reachable state of the workers the locked identifiers are those of the jobs being
  processed; a deletion run deletes the data of the first two things and asks for another run exactly when there
  were more, and keeps its job when the storage fails.
\<close>

subsection \<open>The log storage the handlers use\<close>

record 's log_store =
  List :: "'s \<Rightarrow> string \<Rightarrow> string \<Rightarrow> time \<Rightarrow> time \<Rightarrow> string list option"
  ListTables :: "'s \<Rightarrow> string \<Rightarrow> string \<Rightarrow> time \<Rightarrow> time \<Rightarrow> string list option"
  GetTimes :: "'s \<Rightarrow> string \<Rightarrow> string \<Rightarrow> string \<Rightarrow> time list option"
  Delete :: "'s \<Rightarrow> string \<Rightarrow> string \<Rightarrow> string \<Rightarrow> time \<Rightarrow> time \<Rightarrow> 's option"
  GetTTLSeconds :: "string \<Rightarrow> int"
  GetTTLDays :: "string \<Rightarrow> int"

text \<open>
  \<open>List\<close> gives the thing of each row of a table of a database in a time range, \<open>ListTables\<close> the tables of a
  database that hold a thing, \<open>GetTimes\<close> the times of the rows of a thing, \<open>Delete\<close> removes the rows of a thing from a
  table; \<open>None\<close> is an error of the storage.
\<close>

definition DeleteThreshold :: nat where "DeleteThreshold = 2"
definition TimeThreshold :: duration where "TimeThreshold = 2 * Second"

text \<open>
  A run of a handler: the storage afterwards, the jobs written, and whether an error was
  returned.
\<close>

record 's del_run =
  dr_store :: 's
  dr_jobs :: "job_stmt list"
  dr_err :: bool

text \<open>The loop over the fixed-size array: entries left empty are skipped, the first error ends it.\<close>

fun delete_loop :: "(string \<Rightarrow> 's \<Rightarrow> 's option) \<Rightarrow> string list \<Rightarrow> 's \<Rightarrow> 's \<times> bool" where
  "delete_loop del [] st = (st, False)"
| "delete_loop del (t # ts) st =
     (if t = [] then delete_loop del ts st
      else case del t st of None \<Rightarrow> (st, True) | Some st' \<Rightarrow> delete_loop del ts st')"

text \<open>What the handlers share after the listing: delete the first two entries, ask for a new run when there are more.\<close>

definition delete_listed ::
  "(string \<Rightarrow> 's \<Rightarrow> 's option) \<Rightarrow> string list \<Rightarrow> 's \<Rightarrow> (JobManager \<times> job_stmt option) option \<Rightarrow> 's del_run option" where
  "delete_listed del xs st again =
     (if xs = [] then Some \<lparr>dr_store = st, dr_jobs = [], dr_err = False\<rparr>
      else case delete_loop del (take DeleteThreshold xs) st of
        (st', True) \<Rightarrow> Some \<lparr>dr_store = st', dr_jobs = [], dr_err = True\<rparr>
      | (st', False) \<Rightarrow>
          if length xs > DeleteThreshold
          then map_option (\<lambda>(_, s). \<lparr>dr_store = st', dr_jobs = (case s of None \<Rightarrow> [] | Some s \<Rightarrow> [s]), dr_err = False\<rparr>) again
          else Some \<lparr>dr_store = st', dr_jobs = [], dr_err = False\<rparr>)"

definition event_Delete :: "'s log_store \<Rightarrow> JobManager \<Rightarrow> Job \<Rightarrow> time \<Rightarrow> time \<Rightarrow> 's \<Rightarrow> 's del_run option" where
  "event_Delete ls jm j now now' st =
     (if j_Key j = [] then Some \<lparr>dr_store = st, dr_jobs = [], dr_err = False\<rparr>
      else case Split (j_Key j) of None \<Rightarrow> None
      | Some (ttlStr, eventTypeId) \<Rightarrow>
          (case ParseInt ttlStr of
             None \<Rightarrow> Some \<lparr>dr_store = st, dr_jobs = [], dr_err = True\<rparr>
           | Some ttl \<Rightarrow>
               let shift = wrap64 (wrap64 (ttl - GetTTLDays ls ''event-raw'') * 24 * Hour);
                   end = now + shift;
                   start = end + wrap64 (wrap64 (- ttl) * 24 * Hour) in
               case List ls st ''event-raw'' eventTypeId start end of
                 None \<Rightarrow> Some \<lparr>dr_store = st, dr_jobs = [], dr_err = True\<rparr>
               | Some things \<Rightarrow>
                   delete_listed (\<lambda>t st. Delete ls st ''event-raw'' eventTypeId t start end) things st
                     (DeleteEventType jm (j_Key j) (now' + TimeThreshold))))"

definition command_Delete :: "'s log_store \<Rightarrow> JobManager \<Rightarrow> Job \<Rightarrow> time \<Rightarrow> time \<Rightarrow> 's \<Rightarrow> 's del_run option" where
  "command_Delete ls jm j now now' st =
     (if j_Key j = [] then Some \<lparr>dr_store = st, dr_jobs = [], dr_err = False\<rparr>
      else let start = now + wrap64 (wrap64 (- GetTTLSeconds ls ''cmd-raw'') * Second) in
        case List ls st ''cmd-raw'' (j_Key j) start now of
          None \<Rightarrow> Some \<lparr>dr_store = st, dr_jobs = [], dr_err = True\<rparr>
        | Some things \<Rightarrow>
            delete_listed (\<lambda>t st. Delete ls st ''cmd-raw'' (j_Key j) t start now) things st
              (DeleteCommandType jm (j_Key j) (now' + TimeThreshold)))"

text \<open>\<open>deleteRelation\<close> reads the lifetime of the command database whatever the database is.\<close>

definition deleteRelation ::
  "'s log_store \<Rightarrow> string \<Rightarrow> string \<Rightarrow> (JobManager \<times> job_stmt option) option \<Rightarrow> time \<Rightarrow> 's \<Rightarrow> 's del_run option" where
  "deleteRelation ls thingId database again now st =
     (if thingId = [] then Some \<lparr>dr_store = st, dr_jobs = [], dr_err = False\<rparr>
      else let start = now + wrap64 (wrap64 (- GetTTLSeconds ls ''cmd-raw'') * Second) in
        case ListTables ls st database thingId start now of
          None \<Rightarrow> Some \<lparr>dr_store = st, dr_jobs = [], dr_err = True\<rparr>
        | Some tables \<Rightarrow>
            delete_listed (\<lambda>t st. Delete ls st database t thingId start now) tables st again)"

definition relation_Delete :: "'s log_store \<Rightarrow> JobManager \<Rightarrow> Job \<Rightarrow> time \<Rightarrow> time \<Rightarrow> 's \<Rightarrow> 's del_run option" where
  "relation_Delete ls jm j now now' st =
     (if j_Operation j = OpThingCommandDelete then
        deleteRelation ls (j_Key j) ''cmd-raw'' (DeleteThingCommand jm (j_Key j) (now' + TimeThreshold)) now st
      else if j_Operation j = OpThingEventDelete then
        deleteRelation ls (j_Key j) ''event-raw'' (DeleteThingEvent jm (j_Key j) (now' + TimeThreshold)) now st
      else if j_Operation j = OpThingActionDelete then
        deleteRelation ls (j_Key j) ''act-raw'' (DeleteThingAction jm (j_Key j) (now' + TimeThreshold)) now st
      else Some \<lparr>dr_store = st, dr_jobs = [], dr_err = False\<rparr>)"

text \<open>The deletion of a thing is spread over four further jobs.\<close>

definition opt_stmts :: "(JobManager \<times> job_stmt option) option list \<Rightarrow> job_stmt list option" where
  "opt_stmts ws = (if None \<in> set ws then None
     else Some (concat (map (\<lambda>w. case w of Some (_, Some s) \<Rightarrow> [s] | _ \<Rightarrow> []) ws)))"

definition thing_Delete :: "JobManager \<Rightarrow> Job \<Rightarrow> time \<Rightarrow> 's \<Rightarrow> 's del_run option" where
  "thing_Delete jm j now st =
     (if j_Key j = [] then Some \<lparr>dr_store = st, dr_jobs = [], dr_err = False\<rparr>
      else map_option (\<lambda>ss. \<lparr>dr_store = st, dr_jobs = ss, dr_err = False\<rparr>)
        (opt_stmts [DeleteThingAction jm (j_Key j) now,
                    DeleteThingCommand jm (j_Key j) (now + Second),
                    DeleteThingEvent jm (j_Key j) (now + 2 * Second),
                    DeleteThingTimeSeries jm (j_Key j) (now + 3 * Second)]))"

text \<open>The time series of a thing: one day of one property set at a time, until none is left.\<close>

definition data_Delete :: "'s log_store \<Rightarrow> JobManager \<Rightarrow> Job \<Rightarrow> time \<Rightarrow> time \<Rightarrow> 's \<Rightarrow> 's del_run option" where
  "data_Delete ls jm j now now' st =
     (let stop = (\<lambda>st err. Some \<lparr>dr_store = st, dr_jobs = [], dr_err = err\<rparr>);
          again = (\<lambda>st. map_option (\<lambda>(_, s). \<lparr>dr_store = st, dr_jobs = (case s of None \<Rightarrow> [] | Some s \<Rightarrow> [s]), dr_err = False\<rparr>)
                     (DeleteThingTimeSeries jm (j_Key j) (now' + TimeThreshold))) in
      if j_Key j = [] then stop st False
      else let start = now + wrap64 (wrap64 (- GetTTLSeconds ls ''data-raw'') * Second) in
        case ListTables ls st ''data-raw'' (j_Key j) start now of
          None \<Rightarrow> stop st True
        | Some [] \<Rightarrow> stop st False
        | Some (ps # _) \<Rightarrow>
            (case GetTimes ls st ''data-raw'' ps (j_Key j) of
               None \<Rightarrow> stop st True
             | Some [] \<Rightarrow> again st
             | Some (t # _) \<Rightarrow>
                 (case Delete ls st ''data-raw'' ps (j_Key j) (t - 24 * Hour) t of
                    None \<Rightarrow> stop st True
                  | Some st' \<Rightarrow> again st')))"

text \<open>The handlers registered by \<open>init\<close>; an operation without one is no error.\<close>

definition executeDeletionJob :: "'s log_store \<Rightarrow> JobManager \<Rightarrow> Job \<Rightarrow> time \<Rightarrow> time \<Rightarrow> 's \<Rightarrow> 's del_run option" where
  "executeDeletionJob ls jm j now now' st =
     (case j_Operation j of
        OpEventTypeDelete \<Rightarrow> event_Delete ls jm j now now' st
      | OpCommandTypeDelete \<Rightarrow> command_Delete ls jm j now now' st
      | OpTimeSeriesDelete \<Rightarrow> thing_Delete jm j now st
      | OpThingTimeSeriesDelete \<Rightarrow> data_Delete ls jm j now now' st
      | OpThingCommandDelete \<Rightarrow> relation_Delete ls jm j now now' st
      | OpThingActionDelete \<Rightarrow> relation_Delete ls jm j now now' st
      | OpThingEventDelete \<Rightarrow> relation_Delete ls jm j now now' st
      | opTimeSeriesRollup \<Rightarrow> Some \<lparr>dr_store = st, dr_jobs = [], dr_err = False\<rparr>)"

subsection \<open>The workers\<close>

text \<open>
  The counters of the running jobs per identifier, the channels, and the jobs a worker has
  received and not finished. The workers of a group take jobs from its channel concurrently.
\<close>

record consumer =
  jobCnts :: "int list"
  ch_rollup :: "Job list"
  ch_delete :: "Job list"
  run_rollup :: "Job multiset"
  run_delete :: "Job multiset"
  deleted :: "job_stmt list"

definition Consumer_New :: "nat \<Rightarrow> consumer" where
  "Consumer_New n =
     \<lparr>jobCnts = replicate n 0, ch_rollup = [], ch_delete = [], run_rollup = {#}, run_delete = {#}, deleted = []\<rparr>"

definition getLockedIDs :: "consumer \<Rightarrow> nat list" where
  "getLockedIDs c = filter (\<lambda>i. jobCnts c ! i > 0) [0..<length (jobCnts c)]"

definition add_cnt :: "int \<Rightarrow> Job \<Rightarrow> consumer \<Rightarrow> consumer" where
  "add_cnt d j c = c\<lparr>jobCnts := (jobCnts c)[j_ConsumerID j := jobCnts c ! j_ConsumerID j + d]\<rparr>"

text \<open>
  \<open>receive_rollup\<close> and \<open>receive_delete\<close> are the first half of a turn of a worker, up to the increment of
  the counter (which panics for an identifier outside the counters), \<open>finish_rollup\<close> and \<open>finish_delete\<close> the rest. The job row is deleted
  after a rollup, and after a deletion that returned no error.
\<close>

inductive consumer_step :: "consumer \<Rightarrow> consumer \<Rightarrow> bool" where
  retrieve_rollup: "consumer_step c (c\<lparr>ch_rollup := ch_rollup c @ js\<rparr>)"
| retrieve_delete: "consumer_step c (c\<lparr>ch_delete := ch_delete c @ js\<rparr>)"
| receive_rollup: "ch_rollup c = j # q \<Longrightarrow> j_ConsumerID j < length (jobCnts c) \<Longrightarrow>
    consumer_step c (add_cnt 1 j (c\<lparr>ch_rollup := q, run_rollup := add_mset j (run_rollup c)\<rparr>))"
| finish_rollup: "j \<in># run_rollup c \<Longrightarrow>
    consumer_step c (add_cnt (- 1) j (c\<lparr>run_rollup := run_rollup c - {#j#}, deleted := DeleteJob j # deleted c\<rparr>))"
| receive_delete: "ch_delete c = j # q \<Longrightarrow> j_ConsumerID j < length (jobCnts c) \<Longrightarrow>
    consumer_step c (add_cnt 1 j (c\<lparr>ch_delete := q, run_delete := add_mset j (run_delete c)\<rparr>))"
| finish_delete: "j \<in># run_delete c \<Longrightarrow>
    consumer_step c (add_cnt (- 1) j (c\<lparr>run_delete := run_delete c - {#j#},
                                        deleted := (if err then deleted c else DeleteJob j # deleted c)\<rparr>))"

inductive consumer_reachable :: "nat \<Rightarrow> consumer \<Rightarrow> bool" for n where
  start: "consumer_reachable n (Consumer_New n)"
| step: "consumer_reachable n c \<Longrightarrow> consumer_step c c' \<Longrightarrow> consumer_reachable n c'"

definition running :: "consumer \<Rightarrow> Job multiset" where
  "running c = run_rollup c + run_delete c"

text \<open>The number of running jobs of an identifier.\<close>

definition running_of :: "consumer \<Rightarrow> nat \<Rightarrow> nat" where
  "running_of c i = size (filter_mset (\<lambda>j. j_ConsumerID j = i) (running c))"

definition cnts_ok :: "nat \<Rightarrow> consumer \<Rightarrow> bool" where
  "cnts_ok n c = (length (jobCnts c) = n \<and> (\<forall>j\<in>#running c. j_ConsumerID j < n) \<and>
     (\<forall>i<n. jobCnts c ! i = int (running_of c i)))"

lemma running_add_cnt [simp]: "running (add_cnt d j c) = running c"
  by (simp add: running_def add_cnt_def)

lemma cnts_ok_receive:
  assumes "cnts_ok n c" "j_ConsumerID j < n" "jobCnts c' = jobCnts c" "running c' = add_mset j (running c)"
  shows "cnts_ok n (add_cnt 1 j c')"
  using assms by (auto simp: cnts_ok_def running_of_def) (auto simp: add_cnt_def nth_list_update)

lemma cnts_ok_finish:
  assumes "cnts_ok n c" "j \<in># running c" "jobCnts c' = jobCnts c" "running c' = running c - {#j#}"
  shows "cnts_ok n (add_cnt (- 1) j c')"
proof -
  from assms(2) obtain M where M: "running c = add_mset j M" by (metis insert_DiffM)
  with assms(4) have M': "running c' = M" by simp
  show ?thesis using assms(1,3) unfolding cnts_ok_def running_of_def running_add_cnt M M'
    by (auto simp: add_cnt_def nth_list_update)
qed

lemma consumer_step_ok: "consumer_step c c' \<Longrightarrow> cnts_ok n c \<Longrightarrow> cnts_ok n c'"
proof (induction rule: consumer_step.induct)
  case (receive_rollup c j q)
  then show ?case by (intro cnts_ok_receive [of n c]) (auto simp: cnts_ok_def running_def)
next
  case (finish_rollup j c)
  then show ?case by (intro cnts_ok_finish [of n c]) (auto simp: running_def)
next
  case (receive_delete c j q)
  then show ?case by (intro cnts_ok_receive [of n c]) (auto simp: cnts_ok_def running_def)
next
  case (finish_delete j c err)
  then show ?case by (intro cnts_ok_finish [of n c]) (auto simp: running_def)
qed (auto simp: cnts_ok_def running_def running_of_def)

lemma consumer_reachable_ok: "consumer_reachable n c \<Longrightarrow> cnts_ok n c"
proof (induction rule: consumer_reachable.induct)
  case start
  show ?case by (simp add: cnts_ok_def Consumer_New_def running_def running_of_def)
qed (rule consumer_step_ok)

lemma getLockedIDs_running:
  assumes "cnts_ok n c"
  shows "set (getLockedIDs c) = j_ConsumerID ` set_mset (running c)"
proof -
  have pos: "0 < running_of c i \<longleftrightarrow> (\<exists>j\<in>#running c. j_ConsumerID j = i)" for i
    by (auto simp: running_of_def size_eq_0_iff_empty [symmetric] nonempty_has_size [symmetric] filter_mset_eq_conv
        multiset_eq_iff)
  show ?thesis using assms pos by (fastforce simp: getLockedIDs_def cnts_ok_def)
qed

text \<open>
  C29: the locks are exact. In every reachable state of the concurrent workers, the
  identifiers reported as locked are exactly those of the jobs that a worker has received and not finished.
\<close>

theorem locked_iff_running:
  assumes "consumer_reachable n c"
  shows "set (getLockedIDs c) = j_ConsumerID ` set_mset (running c)"
  by (rule getLockedIDs_running [OF consumer_reachable_ok [OF assms]])

theorem locked_iff_running_witness:
  "set (getLockedIDs (add_cnt 1 zero_Job (Consumer_New 3\<lparr>run_rollup := {#zero_Job#}\<rparr>))) = {0}"
proof -
  let ?c = "Consumer_New 3\<lparr>ch_rollup := [zero_Job]\<rparr>"
  have "consumer_reachable 3 ?c"
    using step [OF start retrieve_rollup, of 3 "[zero_Job]"] by (simp add: Consumer_New_def)
  moreover have "consumer_step ?c (add_cnt 1 zero_Job (?c\<lparr>ch_rollup := [], run_rollup := add_mset zero_Job {#}\<rparr>))"
    using receive_rollup [of ?c zero_Job "[]"] by (simp add: Consumer_New_def zero_Job_def)
  ultimately have "consumer_reachable 3 (add_cnt 1 zero_Job (Consumer_New 3\<lparr>run_rollup := {#zero_Job#}\<rparr>))"
    using step by (fastforce simp: Consumer_New_def)
  from locked_iff_running [OF this] show ?thesis
    by (simp add: running_def add_cnt_def Consumer_New_def zero_Job_def)
qed

subsection \<open>The deletion handlers\<close>

lemma delete_loop_ok:
  assumes "\<And>t st. \<exists>st'. del t st = Some st'"
  shows "\<exists>st'. delete_loop del ts st = (st', False)"
proof (induction ts arbitrary: st)
  case (Cons t ts)
  with assms [of t st] show ?case by auto
qed simp

text \<open>The store after the deletions, when none of them fails.\<close>

lemma delete_loop_foldl:
  assumes "\<And>t st. del t st = Some (d t st)" "[] \<notin> set ts"
  shows "delete_loop del ts st = (foldl (\<lambda>st t. d t st) st ts, False)"
  using assms(2) by (induction ts arbitrary: st) (auto simp: assms(1))

lemma DeleteCommandType_written:
  assumes "0 < m_maxInstances jm"
  shows "\<exists>s. DeleteCommandType jm key now = Some (jm, Some s) \<and>
     st_group s = GroupDelete \<and> drop 14 (st_data s) = key \<and> take 3 (st_data s) = ''CTD'' \<and> st_id s < m_maxInstances jm"
proof -
  obtain c where c: "consumerID key now (m_maxInstances jm) = Some c"
    using consumerID_defined [OF assms] by blast
  have "length (timeBlock_String \<lparr>tb_index = 0, tb_unit = TimeBlockUnitSecond\<rparr>) = 11"
    using length_fmt_0d [of 10 0] by (simp add: timeBlock_String_def)
  then show ?thesis using c consumerID_bound [OF c]
    by (simp add: DeleteCommandType_def write_opt_def deleteCommandTypeJob_def delete_job_def writeJob_def
        job_upsert_def Job_String_def zero_Job_def)
qed

text \<open>
  A run of the deletion of a command type. When the storage answers, the data of the
  first two listed things is deleted, in order; a new deletion job for the same command type is written
  exactly when more than two things were listed; no error is returned, so the worker removes the old job.
\<close>

theorem command_Delete_run:
  assumes "j_Key j \<noteq> []" "0 < m_maxInstances jm"
    and "start = now + wrap64 (wrap64 (- GetTTLSeconds ls ''cmd-raw'') * Second)"
    and "List ls st ''cmd-raw'' (j_Key j) start now = Some things" "[] \<notin> set things"
    and "\<And>t st. Delete ls st ''cmd-raw'' (j_Key j) t start now = Some (d t st)"
  shows "\<exists>r. command_Delete ls jm j now now' st = Some r \<and> \<not> dr_err r \<and>
     dr_store r = foldl (\<lambda>st t. d t st) st (take 2 things) \<and>
     (if length things \<le> 2 then dr_jobs r = []
      else \<exists>s. dr_jobs r = [s] \<and> st_group s = GroupDelete \<and> take 3 (st_data s) = ''CTD'' \<and> drop 14 (st_data s) = j_Key j)"
proof -
  have "[] \<notin> set (take 2 things)" using assms(5) by (auto dest: in_set_takeD)
  from delete_loop_foldl [of "\<lambda>t st. Delete ls st ''cmd-raw'' (j_Key j) t start now" d, OF assms(6) this]
  have "delete_loop (\<lambda>t st. Delete ls st ''cmd-raw'' (j_Key j) t start now) (take 2 things) st =
      (foldl (\<lambda>st t. d t st) st (take 2 things), False)" .
  moreover obtain s where "DeleteCommandType jm (j_Key j) (now' + TimeThreshold) = Some (jm, Some s)"
    "st_group s = GroupDelete" "take 3 (st_data s) = ''CTD''" "drop 14 (st_data s) = j_Key j"
    using DeleteCommandType_written [OF assms(2)] by blast
  ultimately show ?thesis using assms(1,4)
    by (auto simp: command_Delete_def delete_listed_def DeleteThreshold_def Let_def assms(3) [symmetric])
qed

theorem command_Delete_run_witness:
  "let ls = \<lparr>List = \<lambda>st _ _ _ _. Some st, ListTables = \<lambda>_ _ _ _ _. None, GetTimes = \<lambda>_ _ _ _. None,
             Delete = \<lambda>st _ _ t _ _. Some (removeAll t st), GetTTLSeconds = \<lambda>_. 60, GetTTLDays = \<lambda>_. 1\<rparr> in
   \<exists>r s. command_Delete ls (JobManager_New 4 0 0) (zero_Job\<lparr>j_Key := ''c''\<rparr>) (100 * Second) (101 * Second) [''a'', ''b'', ''d''] = Some r \<and>
       dr_store r = [''d''] \<and> dr_jobs r = [s]"
proof -
  let ?ls = "\<lparr>List = \<lambda>st _ _ _ _. Some st, ListTables = \<lambda>_ _ _ _ _. None, GetTimes = \<lambda>_ _ _ _. None,
             Delete = \<lambda>st _ _ t _ _. Some (removeAll t st), GetTTLSeconds = \<lambda>_. 60, GetTTLDays = \<lambda>_. 1\<rparr>"
  show ?thesis
    using command_Delete_run [of "zero_Job\<lparr>j_Key := ''c''\<rparr>" "JobManager_New 4 0 0" _ "100 * Second" ?ls
        "[''a'', ''b'', ''d'']" "[''a'', ''b'', ''d'']" removeAll "101 * Second", OF _ _ refl]
    by (auto simp: JobManager_New_def)
qed

lemma delete_listed_error: "delete_listed del xs st again = Some r \<Longrightarrow> dr_err r \<Longrightarrow> dr_jobs r = []"
  by (auto simp: delete_listed_def split: if_splits prod.splits bool.splits)

lemma event_Delete_error: "event_Delete ls jm j now now' st = Some r \<Longrightarrow> dr_err r \<Longrightarrow> dr_jobs r = []"
  by (auto simp: event_Delete_def Let_def intro: delete_listed_error split: if_splits option.splits)

lemma command_Delete_error: "command_Delete ls jm j now now' st = Some r \<Longrightarrow> dr_err r \<Longrightarrow> dr_jobs r = []"
  by (auto simp: command_Delete_def Let_def intro: delete_listed_error split: if_splits option.splits)

lemma deleteRelation_error: "deleteRelation ls t db again now st = Some r \<Longrightarrow> dr_err r \<Longrightarrow> dr_jobs r = []"
  by (auto simp: deleteRelation_def Let_def intro: delete_listed_error split: if_splits option.splits)

lemma relation_Delete_error: "relation_Delete ls jm j now now' st = Some r \<Longrightarrow> dr_err r \<Longrightarrow> dr_jobs r = []"
  by (auto simp: relation_Delete_def intro: deleteRelation_error split: if_splits)

lemma thing_Delete_error: "thing_Delete jm j now st = Some r \<Longrightarrow> \<not> dr_err r"
  by (auto simp: thing_Delete_def split: if_splits)

lemma data_Delete_error: "data_Delete ls jm j now now' st = Some r \<Longrightarrow> dr_err r \<Longrightarrow> dr_jobs r = []"
  by (auto simp: data_Delete_def Let_def split: if_splits option.splits list.splits)

lemmas deletion_errors = event_Delete_error command_Delete_error relation_Delete_error data_Delete_error

text \<open>
  An error of the storage keeps the deletion job. When listing or a deletion fails, every handler that
  reads the storage returns the error and writes no job; the worker then leaves the row of the job in place, so it is retrieved again.
\<close>

theorem deletion_error_writes_nothing:
  assumes "executeDeletionJob ls jm j now now' st = Some r" "dr_err r"
  shows "dr_jobs r = []"
  using assms thing_Delete_error [of jm j now st r]
  by (cases "j_Operation j") (auto simp: executeDeletionJob_def intro: deletion_errors)

theorem deletion_error_writes_nothing_witness:
  "\<exists>r. executeDeletionJob \<lparr>List = \<lambda>(st::nat) _ _ _ _. None, ListTables = \<lambda>_ _ _ _ _. None, GetTimes = \<lambda>_ _ _ _. None,
             Delete = \<lambda>st _ _ t _ _. None, GetTTLSeconds = \<lambda>_. 60, GetTTLDays = \<lambda>_. 1\<rparr>
        (JobManager_New 4 0 0) (zero_Job\<lparr>j_Operation := OpCommandTypeDelete, j_Key := ''c''\<rparr>) 0 0 0 = Some r \<and>
       dr_err r \<and> dr_jobs r = []"
proof -
  let ?ls = "\<lparr>List = \<lambda>(st::nat) _ _ _ _. None, ListTables = \<lambda>_ _ _ _ _. None, GetTimes = \<lambda>_ _ _ _. None,
             Delete = \<lambda>st _ _ t _ _. None, GetTTLSeconds = \<lambda>_. 60, GetTTLDays = \<lambda>_. 1\<rparr>"
  let ?j = "zero_Job\<lparr>j_Operation := OpCommandTypeDelete, j_Key := ''c''\<rparr>"
  have r: "executeDeletionJob ?ls (JobManager_New 4 0 0) ?j 0 0 0 = Some \<lparr>dr_store = 0, dr_jobs = [], dr_err = True\<rparr>"
    by (simp add: executeDeletionJob_def command_Delete_def)
  from deletion_error_writes_nothing [OF this] r show ?thesis by simp
qed

end
