(* ===== verification/Go_Strings.thy ===== *)
theory Go_Strings
  imports Go_Strconv
begin

text \<open>
  The parts of Go's \<open>strings\<close> and \<open>path/filepath\<close> the managers use, on byte strings.
  \<open>TrimSpace\<close> removes the UTF-8 encodings of the Unicode spaces. \<open>filepath.Join\<close> cleans the
  joined path. Shown: trimming is idempotent and keeps a string without spaces at its ends; joining
  a directory and a plain file name only puts a slash between them.
\<close>

definition HasPrefix :: "string \<Rightarrow> string \<Rightarrow> bool" where
  "HasPrefix s p = (take (length p) s = p)"

definition HasSuffix :: "string \<Rightarrow> string \<Rightarrow> bool" where
  "HasSuffix s p = (length p \<le> length s \<and> drop (length s - length p) s = p)"

fun Contains :: "string \<Rightarrow> string \<Rightarrow> bool" where
  "Contains [] p = (p = [])"
| "Contains (c # s) p = (HasPrefix (c # s) p \<or> Contains s p)"

lemma HasPrefix_iff: "HasPrefix s p \<longleftrightarrow> (\<exists>r. s = p @ r)"
  by (metis HasPrefix_def append_eq_conv_conj append_take_drop_id)

lemma HasSuffix_iff: "HasSuffix s p \<longleftrightarrow> (\<exists>r. s = r @ p)"
proof
  assume "HasSuffix s p"
  then show "\<exists>r. s = r @ p" unfolding HasSuffix_def by (metis append_take_drop_id)
qed (auto simp: HasSuffix_def)

lemma Contains_iff: "Contains s p \<longleftrightarrow> (\<exists>a b. s = a @ p @ b)"
proof (induction s)
  case (Cons c s)
  have "(\<exists>a b. c # s = a @ p @ b) \<longleftrightarrow> (\<exists>b. c # s = p @ b) \<or> (\<exists>a b. s = a @ p @ b)"
    by (metis append_Cons append_Nil list.exhaust list.inject)
  with Cons show ?case by (simp add: HasPrefix_iff)
qed auto

subsection \<open>Trimming\<close>

definition bytes :: "nat list \<Rightarrow> string" where
  "bytes bs = map char_of bs"

text \<open>The white space of \<open>unicode.IsSpace\<close>.\<close>

definition spaces :: "string list" where
  "spaces = map bytes
     ([[9], [10], [11], [12], [13], [32], [194, 133], [194, 160], [225, 154, 128],
       [226, 128, 168], [226, 128, 169], [226, 128, 175], [226, 129, 159], [227, 128, 128]]
      @ map (\<lambda>b. [226, 128, b]) [128..<139])"

definition space_at :: "string list \<Rightarrow> string \<Rightarrow> string option" where
  "space_at sps s = find (\<lambda>sp. HasPrefix s sp) sps"

text \<open>A leading space is never empty, so the rest is shorter.\<close>

function trim_left :: "string list \<Rightarrow> string \<Rightarrow> string" where
  "trim_left sps s = (case space_at sps s of
      None \<Rightarrow> s
    | Some sp \<Rightarrow> if sp = [] then s else trim_left sps (drop (length sp) s))"
  by auto
termination
proof (relation "measure (length \<circ> snd)", goal_cases)
  case (2 sps s sp)
  then have "HasPrefix s sp" "sp \<noteq> []" by (auto simp: space_at_def find_Some_iff)
  then have "s \<noteq> []" "0 < length sp" by (auto simp: HasPrefix_def)
  then show ?case by simp
qed simp

declare trim_left.simps [simp del]

definition TrimSpace :: "string \<Rightarrow> string" where
  "TrimSpace s = rev (trim_left (map rev spaces) (rev (trim_left spaces s)))"

lemma trim_left_none: "space_at sps s = None \<Longrightarrow> trim_left sps s = s"
  by (simp add: trim_left.simps)

lemma trim_left_done: "[] \<notin> set sps \<Longrightarrow> space_at sps (trim_left sps s) = None"
proof (induction sps s rule: trim_left.induct)
  case (1 sps s)
  show ?case
  proof (cases "space_at sps s")
    case (Some sp)
    then have "sp \<in> set sps" by (auto simp: space_at_def find_Some_iff)
    with 1(2) have "sp \<noteq> []" by blast
    with 1 Some show ?thesis by (subst trim_left.simps) simp
  qed (simp add: trim_left_none)
qed

lemma trim_left_suffix: "\<exists>p. s = p @ trim_left sps s"
proof (induction sps s rule: trim_left.induct)
  case (1 sps s)
  show ?case
  proof (cases "\<exists>sp. space_at sps s = Some sp \<and> sp \<noteq> []")
    case True
    then obtain sp where sp: "space_at sps s = Some sp" "sp \<noteq> []" by blast
    from 1 [OF sp] obtain p where "drop (length sp) s = p @ trim_left sps (drop (length sp) s)" by blast
    then have "s = (take (length sp) s @ p) @ trim_left sps (drop (length sp) s)"
      by (metis append_assoc append_take_drop_id)
    moreover have "trim_left sps s = trim_left sps (drop (length sp) s)" using sp by (subst trim_left.simps) simp
    ultimately show ?thesis by metis
  next
    case False
    then have "trim_left sps s = s" by (subst trim_left.simps) (auto split: option.splits)
    then show ?thesis by simp
  qed
qed

lemma spaces_nonempty: "[] \<notin> set spaces" "[] \<notin> set (map rev spaces)"
  by (auto simp: spaces_def bytes_def)

text \<open>A string that neither starts nor ends with a space is not changed.\<close>

lemma TrimSpace_id:
  "space_at spaces s = None \<Longrightarrow> space_at (map rev spaces) (rev s) = None \<Longrightarrow> TrimSpace s = s"
  by (simp add: TrimSpace_def trim_left_none)

text \<open>The bytes of the spaces are control characters, the blank, or outside ASCII.\<close>

definition visible :: "char \<Rightarrow> bool" where
  "visible c = (32 < (of_char c :: nat) \<and> (of_char c :: nat) < 128)"

lemma spaces_invisible: "sp \<in> set spaces \<Longrightarrow> c \<in> set sp \<Longrightarrow> \<not> visible c"
  by (auto simp: spaces_def bytes_def visible_def)

lemma space_at_visible:
  assumes "visible (hd s)" "\<And>sp c. sp \<in> set sps \<Longrightarrow> c \<in> set sp \<Longrightarrow> \<not> visible c" "[] \<notin> set sps"
  shows "space_at sps s = None"
proof -
  have "\<not> HasPrefix s sp" if "sp \<in> set sps" for sp
    using assms that by (cases sp) (auto simp: HasPrefix_iff)
  then show ?thesis by (auto simp: space_at_def find_None_iff)
qed

lemma TrimSpace_visible: "visible (hd s) \<Longrightarrow> visible (last s) \<Longrightarrow> TrimSpace s = s"
  using spaces_invisible spaces_nonempty
  by (intro TrimSpace_id space_at_visible) (auto simp: hd_rev)

lemma TrimSpace_blank: "TrimSpace (CHR '' '' # s) = TrimSpace s"
proof -
  have "bytes [9] = [CHR 9]" "bytes [10] = [CHR 10]" "bytes [11] = [CHR 11]" "bytes [12] = [CHR 12]" "bytes [13] = [CHR 13]" "bytes [32] = '' ''"
    by (simp_all add: bytes_def char_of_def bit_iff_odd)
  then have "space_at spaces (CHR '' '' # s) = Some '' ''"
    by (simp add: space_at_def HasPrefix_def spaces_def)
  then have "trim_left spaces (CHR '' '' # s) = trim_left spaces s" by (subst trim_left.simps) simp
  then show ?thesis by (simp add: TrimSpace_def)
qed

lemma space_at_append_None: "space_at sps (s @ t) = None \<Longrightarrow> space_at sps s = None"
  by (auto simp: space_at_def find_None_iff HasPrefix_iff)

lemma TrimSpace_idem: "TrimSpace (TrimSpace s) = TrimSpace s"
proof (rule TrimSpace_id)
  let ?l = "trim_left spaces s"
  obtain p where "rev ?l = p @ trim_left (map rev spaces) (rev ?l)" using trim_left_suffix by blast
  then have "rev (rev ?l) = rev (trim_left (map rev spaces) (rev ?l)) @ rev p" by (metis rev_append)
  then have "?l = TrimSpace s @ rev p" by (simp add: TrimSpace_def)
  then show "space_at spaces (TrimSpace s) = None"
    using trim_left_done [OF spaces_nonempty(1), of s] space_at_append_None by metis
  show "space_at (map rev spaces) (rev (TrimSpace s)) = None"
    using trim_left_done [OF spaces_nonempty(2)] by (simp add: TrimSpace_def)
qed

subsection \<open>Paths\<close>

fun split_at :: "char \<Rightarrow> string \<Rightarrow> string list" where
  "split_at d [] = [[]]"
| "split_at d (c # s) =
     (if c = d then [] # split_at d s
      else case split_at d s of [] \<Rightarrow> [[c]] | w # ws \<Rightarrow> (c # w) # ws)"

fun join_with :: "string \<Rightarrow> string list \<Rightarrow> string" where
  "join_with sep [] = []"
| "join_with sep [w] = w"
| "join_with sep (w # v # ws) = w @ sep @ join_with sep (v # ws)"

text \<open>
  \<open>filepath.Clean\<close>, lexically: empty and \<open>.\<close> elements vanish, \<open>..\<close> removes the element before it; at
  the start it stays, unless the path is rooted.
\<close>

fun clean_elems :: "bool \<Rightarrow> string list \<Rightarrow> string list \<Rightarrow> string list" where
  "clean_elems rooted out [] = rev out"
| "clean_elems rooted out (w # ws) =
     (if w = [] \<or> w = ''.'' then clean_elems rooted out ws
      else if w = ''..'' then
        (case out of
           [] \<Rightarrow> clean_elems rooted (if rooted then [] else [''..'']) ws
         | v # out' \<Rightarrow> if v = ''..'' then clean_elems rooted (''..'' # out) ws else clean_elems rooted out' ws)
      else clean_elems rooted (w # out) ws)"

definition filepath_Clean :: "string \<Rightarrow> string" where
  "filepath_Clean p =
     (let rooted = HasPrefix p ''/'';
          es = clean_elems rooted [] (split_at (CHR ''/'') p) in
      if rooted then ''/'' @ join_with ''/'' es
      else if es = [] then ''.'' else join_with ''/'' es)"

definition filepath_Join :: "string \<Rightarrow> string \<Rightarrow> string" where
  "filepath_Join a b =
     (if a = [] \<and> b = [] then []
      else if a = [] then filepath_Clean b
      else if b = [] then filepath_Clean a
      else filepath_Clean (a @ ''/'' @ b))"

definition plain_elem :: "string \<Rightarrow> bool" where
  "plain_elem w = (w \<noteq> [] \<and> w \<noteq> ''.'' \<and> w \<noteq> ''..'' \<and> CHR ''/'' \<notin> set w)"

lemma split_at_plain: "d \<notin> set s \<Longrightarrow> split_at d s = [s]"
  by (induction s) auto

lemma split_at_append: "d \<notin> set s \<Longrightarrow> split_at d (s @ d # t) = s # split_at d t"
  by (induction s) auto

lemma filepath_Join_plain:
  assumes "plain_elem a" "plain_elem b"
  shows "filepath_Join a b = a @ ''/'' @ b"
proof -
  from assms obtain c cs where a: "a = c # cs" "c \<noteq> CHR ''/''" by (cases a) (auto simp: plain_elem_def)
  then have "\<not> HasPrefix (a @ CHR ''/'' # b) ''/''" by (simp add: HasPrefix_def)
  moreover have "split_at (CHR ''/'') (a @ CHR ''/'' # b) = [a, b]"
    using assms by (simp add: plain_elem_def split_at_append split_at_plain)
  ultimately show ?thesis using assms
    by (simp add: filepath_Join_def filepath_Clean_def plain_elem_def)
qed

end
