(* ===== verification/Responses.thy ===== *)
theory Responses
  imports Go_Strings
begin

text \<open>
  The errors the managers return: the sentinel errors of \<open>src/pkg/apis/constants.go\<close>, of \<open>os\<close> and of
  the storage, and the coded errors of \<open>src/pkg/apis/response\<close> with their message templates.
  A coded error is its code and its arguments; \<open>error_Message\<close> renders it. Shown: which codes have a template, and
  what a caller reads for the one that has none.
\<close>

datatype go_error =
    ErrNotExist
  | ErrExist
  | ErrMismatch
  | ErrInternal
  | ErrWriteConflict
  | ResponseError nat "string list"
  | OtherError string
  | GoPanic

text \<open>\<open>GoPanic\<close> stands for a panic of the request's goroutine, which the HTTP server recovers.\<close>

definition IsResponseError :: "go_error \<Rightarrow> bool" where
  "IsResponseError err = (case err of ResponseError _ _ \<Rightarrow> True | _ \<Rightarrow> False)"

definition generateError :: "nat \<Rightarrow> string list \<Rightarrow> go_error" where
  "generateError code s = ResponseError code s"

definition ErrResourceExists :: "string \<Rightarrow> go_error" where "ErrResourceExists resource = generateError 10002 [resource]"
definition ErrResourceNotFound :: "string \<Rightarrow> go_error" where "ErrResourceNotFound resource = generateError 10003 [resource]"
definition ErrTimeZoneInvalid :: "string \<Rightarrow> go_error" where "ErrTimeZoneInvalid timeZone = generateError 10004 [timeZone]"
definition ErrEmailAddressInvalid :: "string \<Rightarrow> go_error" where "ErrEmailAddressInvalid addr = generateError 10008 [addr]"
definition ErrWebhookUriInvalid :: "string \<Rightarrow> go_error" where "ErrWebhookUriInvalid addr = generateError 10009 [addr]"
definition ErrRecipientNotFound :: "string list \<Rightarrow> go_error" where
  "ErrRecipientNotFound r = generateError 10010 [''['' @ join_with '' '' r @ '']'']"
definition ErrMessageTmplNotFound :: "string list \<Rightarrow> go_error" where
  "ErrMessageTmplNotFound mt = generateError 10011 [''['' @ join_with '' '' mt @ '']'']"
definition ErrMessageTmplContentInvalid :: "string \<Rightarrow> go_error" where "ErrMessageTmplContentInvalid content = generateError 10012 [content]"
definition ErrRuleExpressionInvalid :: "string \<Rightarrow> go_error" where "ErrRuleExpressionInvalid err = generateError 10013 [err]"
definition ErrRuleExpressionOperandInvalid :: "string \<Rightarrow> go_error" where "ErrRuleExpressionOperandInvalid operand = generateError 10014 [operand]"
definition ErrThingNotFound :: "string \<Rightarrow> go_error" where "ErrThingNotFound thingId = generateError 10015 [thingId]"
definition ErrPropertyOfThingNotFound :: "string \<Rightarrow> string \<Rightarrow> string \<Rightarrow> go_error" where "ErrPropertyOfThingNotFound property propertySet thingId = generateError 10016 [property, propertySet, thingId]"
definition ErrVirtualParameterOverlapsOperand :: "string \<Rightarrow> go_error" where "ErrVirtualParameterOverlapsOperand vp = generateError 10018 [vp]"
definition ErrTemplateNotFound :: "string \<Rightarrow> go_error" where "ErrTemplateNotFound tmpId = generateError 10020 [tmpId]"
definition ErrParentTypeNotFound :: "string \<Rightarrow> go_error" where "ErrParentTypeNotFound parentType = generateError 10022 [parentType]"
definition ErrPropertySetTypeNotFound :: "string \<Rightarrow> go_error" where "ErrPropertySetTypeNotFound propertySetType = generateError 10023 [propertySetType]"
definition ErrThingTypeNotFound :: "string \<Rightarrow> go_error" where "ErrThingTypeNotFound thingType = generateError 10024 [thingType]"
definition ErrAgentTypeNotFound :: "string \<Rightarrow> go_error" where "ErrAgentTypeNotFound agentType = generateError 10026 [agentType]"
definition ErrAgentNotFound :: "string \<Rightarrow> go_error" where "ErrAgentNotFound agent = generateError 10027 [agent]"
definition ErrDataSourceNotFound :: "string \<Rightarrow> go_error" where "ErrDataSourceNotFound dataSource = generateError 10028 [dataSource]"
definition ErrDataPointNotFound :: "string \<Rightarrow> go_error" where "ErrDataPointNotFound dataPoint = generateError 10029 [dataPoint]"
definition ErrPropertySetNotFound :: "string \<Rightarrow> go_error" where "ErrPropertySetNotFound propertySet = generateError 10030 [propertySet]"
definition ErrPropertyNotFound :: "string \<Rightarrow> go_error" where "ErrPropertyNotFound property = generateError 10031 [property]"
definition ErrCommandOptionExists :: "string \<Rightarrow> go_error" where "ErrCommandOptionExists option = generateError 10036 [option]"
definition ErrCommandTypeNotFound :: "string \<Rightarrow> go_error" where "ErrCommandTypeNotFound commandTypeId = generateError 10037 [commandTypeId]"
definition ErrCommandOptionNotFound :: "string list \<Rightarrow> go_error" where
  "ErrCommandOptionNotFound options = generateError 10038 [join_with ''|'' options]"
definition ErrCommandOptionValueMissed :: "string list \<Rightarrow> go_error" where
  "ErrCommandOptionValueMissed options = generateError 10039 [join_with ''|'' options]"
definition ErrIntegerInvalid :: "string list \<Rightarrow> go_error" where
  "ErrIntegerInvalid infos = generateError 10040 (if length infos = 1 then infos @ [[]] else infos)"
definition ErrLongInvalid :: "string list \<Rightarrow> go_error" where
  "ErrLongInvalid infos = generateError 10041 (if length infos = 1 then infos @ [[]] else infos)"
definition ErrDoubleInvalid :: "string list \<Rightarrow> go_error" where
  "ErrDoubleInvalid infos = generateError 10042 (if length infos = 1 then infos @ [[]] else infos)"
definition ErrBooleanInvalid :: "string list \<Rightarrow> go_error" where
  "ErrBooleanInvalid infos = generateError 10043 (if length infos = 1 then infos @ [[]] else infos)"
definition ErrTimestampInvalid :: "string list \<Rightarrow> go_error" where
  "ErrTimestampInvalid infos = generateError 10044 (if length infos = 1 then infos @ [[]] else infos)"
definition ErrStringTooLong :: "string list \<Rightarrow> go_error" where
  "ErrStringTooLong infos = generateError 10045 (if length infos = 1 then infos @ [[]] else infos)"
definition ErrEnumInvalid :: "string list \<Rightarrow> go_error" where
  "ErrEnumInvalid infos = generateError 10046 (if length infos = 1 then infos @ [[]] else infos)"
definition ErrMapInvalid :: "string list \<Rightarrow> go_error" where
  "ErrMapInvalid infos = generateError 10047 (if length infos = 1 then infos @ [[]] else infos)"
definition ErrLinkInvalid :: "string \<Rightarrow> go_error" where "ErrLinkInvalid link = generateError 10048 [link]"
definition ErrPropertyNotWritable :: "string \<Rightarrow> go_error" where "ErrPropertyNotWritable property = generateError 10049 [property]"
definition ErrResourceDeleting :: "string \<Rightarrow> go_error" where "ErrResourceDeleting resource = generateError 10053 [resource]"
definition ErrAssociatedResourceDeletionFailed :: "string \<Rightarrow> go_error" where "ErrAssociatedResourceDeletionFailed resource = generateError 10054 [resource]"
definition ErrTimeInvalid :: "string \<Rightarrow> go_error" where "ErrTimeInvalid t = generateError 10055 [t]"
definition ErrDuplicatedComponent :: "string \<Rightarrow> go_error" where "ErrDuplicatedComponent component = generateError 10059 [component]"
definition ErrComponentUriInvalid :: "string \<Rightarrow> string \<Rightarrow> go_error" where "ErrComponentUriInvalid component uri = generateError 10060 [component, uri]"
definition ErrChildTypeExist :: "string \<Rightarrow> go_error" where "ErrChildTypeExist typeId = generateError 10061 [typeId]"
definition ErrAssociateResourceExist :: "string \<Rightarrow> go_error" where "ErrAssociateResourceExist resourceId = generateError 10062 [resourceId]"
definition ErrRollupIntervalInvalid :: "string \<Rightarrow> go_error" where "ErrRollupIntervalInvalid parameter = generateError 10064 [parameter]"
definition ErrRollupStartInvalid :: "string \<Rightarrow> go_error" where "ErrRollupStartInvalid parameter = generateError 10065 [parameter]"
definition ErrRollupEndInvalid :: "string \<Rightarrow> go_error" where "ErrRollupEndInvalid parameter = generateError 10066 [parameter]"
definition ErrDuplicatedField :: "string \<Rightarrow> go_error" where "ErrDuplicatedField fld = generateError 10067 [fld]"
definition ErrFieldExists :: "string \<Rightarrow> string \<Rightarrow> go_error" where "ErrFieldExists fld parents = generateError 10068 [fld, parents]"
definition ErrRequiredFieldMissed :: "string list \<Rightarrow> go_error" where
  "ErrRequiredFieldMissed fields = generateError 10069 [join_with ''|'' fields]"
definition ErrFieldInvalid :: "string \<Rightarrow> string \<Rightarrow> go_error" where "ErrFieldInvalid fld val = generateError 10070 [val, fld]"
definition ErrFieldUnSupported :: "string \<Rightarrow> go_error" where "ErrFieldUnSupported t = generateError 10071 [t]"
definition ErrDeleteFundamentalResourceFailed :: "string \<Rightarrow> go_error" where "ErrDeleteFundamentalResourceFailed resource = generateError 10072 [resource]"
definition ErrInvalidValue :: "string \<Rightarrow> go_error" where "ErrInvalidValue info = generateError 10073 [info]"
definition ErrInvalidUpdate :: "string \<Rightarrow> go_error" where "ErrInvalidUpdate info = generateError 10074 [info]"
definition ErrTooManyJsonPatchOperations :: "int \<Rightarrow> go_error" where "ErrTooManyJsonPatchOperations m = generateError 10075 [FormatInt m]"
definition ErrCharacteristicNotFound :: "string \<Rightarrow> go_error" where "ErrCharacteristicNotFound ch = generateError 10076 [ch]"
definition ErrCycledThing :: "string \<Rightarrow> go_error" where "ErrCycledThing thingId = generateError 10077 [thingId]"
definition ErrMalformedJSON :: go_error where "ErrMalformedJSON = generateError 10001 []"
definition ErrEmailServerUnconfigured :: go_error where "ErrEmailServerUnconfigured = generateError 10005 []"
definition ErrWeComServerUnconfigured :: go_error where "ErrWeComServerUnconfigured = generateError 10006 []"
definition ErrWeChatServerUnconfigured :: go_error where "ErrWeChatServerUnconfigured = generateError 10007 []"
definition ErrRealTimeRuleRefersMoreThanOnePropertySet :: go_error where "ErrRealTimeRuleRefersMoreThanOnePropertySet = generateError 10017 []"
definition ErrSimpleMessageContentNotFound :: go_error where "ErrSimpleMessageContentNotFound = generateError 10021 []"
definition ErrThingTypeNotInstantiable :: go_error where "ErrThingTypeNotInstantiable = generateError 10025 []"
definition ErrDatatypeMismatch :: go_error where "ErrDatatypeMismatch = generateError 10032 []"
definition ErrDataUnitMismatch :: go_error where "ErrDataUnitMismatch = generateError 10033 []"
definition ErrAccessModeMismatch :: go_error where "ErrAccessModeMismatch = generateError 10034 []"
definition ErrDataPointMappingExists :: go_error where "ErrDataPointMappingExists = generateError 10035 []"
definition ErrLegalActionNotFound :: go_error where "ErrLegalActionNotFound = generateError 10050 []"
definition ErrDeliverFailed :: go_error where "ErrDeliverFailed = generateError 10051 []"
definition ErrDataPointMappingNotFound :: go_error where "ErrDataPointMappingNotFound = generateError 10052 []"
definition ErrRootThingTypeNotBaseAgent :: go_error where "ErrRootThingTypeNotBaseAgent = generateError 10056 []"
definition ErrImageNameNotFound :: go_error where "ErrImageNameNotFound = generateError 10057 []"
definition ErrImageFileNotFound :: go_error where "ErrImageFileNotFound = generateError 10058 []"
definition ErrAllSelectInvalid :: go_error where "ErrAllSelectInvalid = generateError 10063 []"

subsection \<open>Messages\<close>

text \<open>The templates; \<open>%d\<close> and \<open>%v\<close> render an already formatted argument as \<open>%s\<close> does.\<close>

definition errors :: "(nat \<times> string) list" where
  "errors =
     [(10001, ''The JSON you provided was not well-formed or did not validate against our published format.''),
      (10002, ''[%s] already exists.''),
      (10003, ''[%s] not found.''),
      (10004, ''TimeZone [%s] not valid.''),
      (10005, ''Email server not configured.''),
      (10006, ''WeCom server not configured.''),
      (10007, ''WeChat server not configured.''),
      (10008, ''Email addr [%s] not valid.''),
      (10009, ''Webhook URI [%s] not valid.''),
      (10010, ''Recipient [%s] not found.''),
      (10011, ''Message template [%s] not found.''),
      (10012, ''Invalid content [%s].''),
      (10013, ''Invalid expression [%s].''),
      (10014, ''Invalid operand [%s], it should be <propertySetName>'' @ [CHR 0x1F] @ ''<propertyName>.''),
      (10015, ''Thing [%s] not found.''),
      (10016, ''Property %s is not defined in property set %s of thing %s''),
      (10017, ''Real time rule refers more than one property set.''),
      (10018, ''Virtual parameter [%s] overlaps operand.''),
      (10019, ''Virtual parameter [%s] mismatches property datatype[%s:%s] or unit[%s:%s] or length[%d:%d]''),
      (10020, ''Template [%s] not found.''),
      (10021, ''Simple message content not found.''),
      (10022, ''Parent type [%s] not found.''),
      (10023, ''Property set type [%s] not found.''),
      (10024, ''Thing type [%s] not found.''),
      (10025, ''Thing type is not instantiable.''),
      (10026, ''Agent type [%s] not found.''),
      (10028, ''Data source [%s] not found.''),
      (10029, ''Data point [%s] not found.''),
      (10030, ''Property set [%s] not found.''),
      (10031, ''Property [%s] not found.''),
      (10032, ''Data type mismatches.''),
      (10033, ''Data unit mismatches.''),
      (10034, ''Access mode mismatches.''),
      (10035, ''Data point mapping already exists.''),
      (10036, ''Command option [%s] already exists.''),
      (10037, ''Command type [%s] not found.''),
      (10038, ''Command option [%s] not found.''),
      (10039, ''Command option [%s]'s value missed.''),
      (10040, ''Integer [%s] not valid. %s''),
      (10041, ''Long [%s] not valid. %s''),
      (10042, ''Double [%s] not valid. %s''),
      (10043, ''Boolean [%s] not valid. %s''),
      (10044, ''Timestamp [%s] not valid. %s''),
      (10045, ''String [%s] not valid. %s''),
      (10046, ''Enum [%s] not valid. %v''),
      (10047, ''Map [%s] not valid. %v''),
      (10048, ''Link [%s] not valid.''),
      (10049, ''Property [%s] not writable.''),
      (10050, ''Legal action not found.''),
      (10051, ''Deliver command/action failed.''),
      (10052, ''Data point mapping not found.''),
      (10053, ''Resource [%s] deleting.''),
      (10054, ''Failed deleting the associated resource of [%s].''),
      (10055, ''Time [%s] invalid.''),
      (10056, ''Root thing type not BaseAgent.''),
      (10057, ''name is required.''),
      (10058, ''file is required.''),
      (10059, ''Component [%s] duplicated''),
      (10060, ''URI [%s] of component [%s] not valid.''),
      (10061, ''Resource [%s] has child type.''),
      (10062, ''Resource [%s] is referred.''),
      (10063, ''All selects not valid.''),
      (10064, ''Interval [%s] not valid.''),
      (10065, ''Rollup start time [%s] not valid.''),
      (10066, ''Rollup end time [%s] not valid.''),
      (10067, ''Property [%s] duplicated.''),
      (10068, ''Property [%s] already exists in [%s].''),
      (10069, ''Required field [%s] missed.''),
      (10070, ''The value %v of the field [%s] not valid.''),
      (10071, ''Unsupported datatype %s.''),
      (10072, ''Resource [%s] is fundamental and cannot be deleted.''),
      (10073, ''%s''),
      (10074, ''%s''),
      (10075, ''Json Patch operations exceeds %d.''),
      (10076, ''Characteristic [%s] not found.''),
      (10077, ''Cycled thing [%s].'')]"

text \<open>
  \<open>fmt.Sprintf\<close> for the verbs of the templates with string arguments: a missing and an extra
  argument are reported in the text.
\<close>

definition extra_args :: "string list \<Rightarrow> string" where
  "extra_args as = (if as = [] then [] else ''%!(EXTRA '' @ join_with '', '' (map (\<lambda>a. ''string='' @ a) as) @ '')'')"

fun Sprintf :: "string \<Rightarrow> string list \<Rightarrow> string" where
  "Sprintf [] as = extra_args as"
| "Sprintf [c] as = c # extra_args as"
| "Sprintf (c # v # t) as =
     (if c = CHR ''%'' \<and> v \<in> {CHR ''s'', CHR ''d'', CHR ''v''} then
        (case as of a # as' \<Rightarrow> a @ Sprintf t as' | [] \<Rightarrow> ''%!'' @ [v] @ ''(MISSING)'' @ Sprintf t [])
      else c # Sprintf (v # t) as)"

text \<open>A code without a template has the empty one.\<close>

definition error_Message :: "go_error \<Rightarrow> string" where
  "error_Message err = (case err of
     ResponseError code as \<Rightarrow> Sprintf (case map_of errors code of Some t \<Rightarrow> t | None \<Rightarrow> []) as
   | _ \<Rightarrow> [])"

lemma errors_codes: "map fst errors = [10001..<10027] @ [10028..<10078]"
  by (simp add: errors_def upt_rec_numeral)

lemma errors_None_iff: "map_of errors c = None \<longleftrightarrow> c \<notin> {10001..<10027} \<union> {10028..<10078}"
proof -
  have "fst ` set errors = {10001..<10027} \<union> {10028..<10078}"
    unfolding set_map [symmetric] errors_codes by (simp only: set_append set_upt)
  then show ?thesis by (simp only: map_of_eq_None_iff)
qed

text \<open>
  Error messages. Of the codes 10001 to 10077 exactly one has no template, 10027, the
  code of an agent that is not found; its message is the formatting report of the extra argument.
\<close>

theorem ErrAgentNotFound_message:
  "filter (\<lambda>c. map_of errors c = None) [10001..<10078] = [10027] \<and>
   error_Message (ErrAgentNotFound a) = ''%!(EXTRA string='' @ a @ '')''"
proof
  have "[10001..<10078] = [10001..<10027] @ 10027 # [10028..<10078 :: nat]"
    using upt_split [of 10001 10027 10078] by (simp add: upt_conv_Cons)
  then show "filter (\<lambda>c. map_of errors c = None) [10001..<10078] = [10027]"
    unfolding errors_None_iff by (simp add: filter_empty_conv)
  have "map_of errors 10027 = None" by (simp add: errors_None_iff)
  then show "error_Message (ErrAgentNotFound a) = ''%!(EXTRA string='' @ a @ '')''"
    by (simp add: error_Message_def ErrAgentNotFound_def generateError_def extra_args_def)
qed

end
