(* ===== verification/Store.thy ===== *)
theory Store
  imports Responses Go_Time Interfaces
begin

text \<open>
  Persistence: the metadata every object carries (\<open>src/pkg/generic/meta\<close>), the file store
  (\<open>src/pkg/storage/store_fs.go\<close>) and the store of a resource (\<open>src/pkg/generic/store.go\<close>), whose goroutine
  decides between deleting, creating and updating.

  An object is a record that extends \<open>ObjectMeta\<close>, as the structs of the source embed it. The directory of the
  client is the root of the modelled file system: a map from paths to files. A file whose bytes do not
  decode has no object. The calls of the operating system may fail; the faults of one operation
  are an argument. The random increment of the version is an argument too.

  Shown: the full behaviour of the three branches; an error leaves the stored objects unchanged unless the
  encoder failed after the file was truncated; of two writers that read the same version the second is rejected,
  except when the random increment is zero.
\<close>

record ObjectMeta =
  om_Tenant :: string
  om_Name :: string
  om_ID :: string
  om_Version :: string
  om_ModTime :: time

definition Validate_meta_name :: "string \<Rightarrow> (string \<Rightarrow> string option) \<Rightarrow> string list" where
  "Validate_meta_name name nameFn =
     (if name = [] then [''name: Required'']
      else case nameFn name of Some err \<Rightarrow> [''name: Invalid: '' @ err] | None \<Rightarrow> [])"

subsection \<open>The file store\<close>

record 'o fs_file =
  f_obj :: "'o option"
  f_mtime :: time

type_synonym 'o files = "(string, 'o fs_file) smap"

text \<open>The calls that fail during one operation.\<close>

record fs_fault =
  flt_open :: bool
  flt_read :: bool
  flt_lock :: bool
  flt_truncate :: bool
  flt_seek :: bool
  flt_encode :: bool
  flt_remove :: bool

definition no_fault :: fs_fault where
  "no_fault = \<lparr>flt_open = False, flt_read = False, flt_lock = False, flt_truncate = False, flt_seek = False,
               flt_encode = False, flt_remove = False\<rparr>"

text \<open>The environment of an operation: the faults, the clock, and \<open>rand.Intn(100)\<close>.\<close>

record persist_env =
  pe_fault :: fs_fault
  pe_now :: time
  pe_rand :: nat

definition FsClient_Create :: "persist_env \<Rightarrow> 'o files \<Rightarrow> string \<Rightarrow> 'o \<Rightarrow> 'o files \<times> (go_error + 'o)" where
  "FsClient_Create e fs key obj =
     (if cache_load fs key \<noteq> None then (fs, Inl ErrExist)
      else if flt_open (pe_fault e) then (fs, Inl (OtherError ''open''))
      else if flt_encode (pe_fault e) then (cache_store key \<lparr>f_obj = None, f_mtime = pe_now e\<rparr> fs, Inl (OtherError ''encode''))
      else (cache_store key \<lparr>f_obj = Some obj, f_mtime = pe_now e\<rparr> fs, Inr obj))"

text \<open>The bytes of a file, as what they decode to.\<close>

definition FsClient_Get :: "persist_env \<Rightarrow> 'o files \<Rightarrow> string \<Rightarrow> go_error + 'o option" where
  "FsClient_Get e fs key =
     (case cache_load fs key of
        None \<Rightarrow> Inl ErrNotExist
      | Some f \<Rightarrow> if flt_read (pe_fault e) then Inl (OtherError ''read'') else Inr (f_obj f))"

definition FsClient_List :: "'o files \<Rightarrow> string \<Rightarrow> (string \<times> time) list" where
  "FsClient_List fs key = map (\<lambda>(p, f). (p, f_mtime f)) (filter (\<lambda>(p, f). HasPrefix p (key @ ''/'')) fs)"

text \<open>
  \<open>isEphemeralError\<close> is constantly false on Linux. Another error of \<open>OpenFile\<close> than a missing file is not
  returned: the lock on the nil file then fails.
\<close>

definition FsClient_Delete :: "persist_env \<Rightarrow> 'a ObjectMeta_scheme files \<Rightarrow> string \<Rightarrow> string \<Rightarrow>
    'a ObjectMeta_scheme files \<times> (go_error + unit)" where
  "FsClient_Delete e fs key version =
     (if version = [] then
        (if flt_remove (pe_fault e) then fs else cache_delete key fs, Inr ())
      else case cache_load fs key of
        None \<Rightarrow> (fs, Inl ErrNotExist)
      | Some f \<Rightarrow>
          if flt_open (pe_fault e) \<or> flt_lock (pe_fault e) then (fs, Inl ErrWriteConflict)
          else case f_obj f of
            None \<Rightarrow> (fs, Inl ErrInternal)
          | Some target \<Rightarrow>
              if om_Version target \<noteq> version then (fs, Inl ErrMismatch)
              else if flt_remove (pe_fault e) then (fs, Inl ErrInternal)
              else (cache_delete key fs, Inr ()))"

definition next_version :: "persist_env \<Rightarrow> string \<Rightarrow> string" where
  "next_version e version = FormatInt (int ((ParseUint_val version + pe_rand e) mod 2 ^ 64))"

definition FsClient_Update :: "persist_env \<Rightarrow> 'a ObjectMeta_scheme files \<Rightarrow> string \<Rightarrow> string \<Rightarrow> 'a ObjectMeta_scheme \<Rightarrow>
    'a ObjectMeta_scheme files \<times> (go_error + 'a ObjectMeta_scheme)" where
  "FsClient_Update e fs key version obj =
     (case cache_load fs key of
        None \<Rightarrow> (fs, Inl ErrNotExist)
      | Some f \<Rightarrow>
          if flt_open (pe_fault e) \<or> flt_lock (pe_fault e) then (fs, Inl ErrWriteConflict)
          else case f_obj f of
            None \<Rightarrow> (fs, Inl ErrInternal)
          | Some old \<Rightarrow>
              if version \<noteq> om_Version old then (fs, Inl ErrMismatch)
              else
                let obj = obj\<lparr>om_Version := next_version e version\<rparr> in
                if flt_truncate (pe_fault e) then (fs, Inl ErrInternal)
                else if flt_seek (pe_fault e) \<or> flt_encode (pe_fault e) then
                  (cache_store key \<lparr>f_obj = None, f_mtime = pe_now e\<rparr> fs, Inl ErrInternal)
                else (cache_store key \<lparr>f_obj = Some obj, f_mtime = pe_now e\<rparr> fs, Inr obj))"

subsection \<open>The store of a resource\<close>

text \<open>
  One turn of the goroutine of \<open>Start\<close>: the object received, and the result sent back
  (\<open>Inr None\<close> after a deletion). An object with the zero modification time asks for a deletion.
\<close>

definition Store_persist :: "string \<Rightarrow> persist_env \<Rightarrow> 'a ObjectMeta_scheme files \<Rightarrow> 'a ObjectMeta_scheme \<Rightarrow>
    'a ObjectMeta_scheme files \<times> (go_error + 'a ObjectMeta_scheme option)" where
  "Store_persist resource e fs object =
     (let key = filepath_Join resource (om_ID object) in
      if time_IsZero (om_ModTime object) then
        (case FsClient_Delete e fs key (om_Version object) of
           (fs', Inl err) \<Rightarrow> (fs', Inl err) | (fs', Inr _) \<Rightarrow> (fs', Inr None))
      else case FsClient_Get e fs key of
        Inl _ \<Rightarrow> (case FsClient_Create e fs key object of
                    (fs', Inl err) \<Rightarrow> (fs', Inl err) | (fs', Inr saved) \<Rightarrow> (fs', Inr (Some saved)))
      | Inr _ \<Rightarrow> (case FsClient_Update e fs key (om_Version object) object of
                    (fs', Inl err) \<Rightarrow> (fs', Inl err) | (fs', Inr saved) \<Rightarrow> (fs', Inr (Some saved))))"

text \<open>The objects of a resource, each with the modification time of its file; what does not decode is skipped.\<close>

definition LoadResource :: "string \<Rightarrow> 'a ObjectMeta_scheme files \<Rightarrow> 'a ObjectMeta_scheme list" where
  "LoadResource resource fs =
     List.map_filter (\<lambda>(path, mtime).
         map_option (\<lambda>obj. obj\<lparr>om_ModTime := mtime\<rparr>) (Option.bind (cache_load fs path) f_obj))
       (FsClient_List fs resource)"

datatype fs_event = EventCreate string | EventUpdate string | EventRemove string

text \<open>
  The object a watch event delivers to the manager (\<open>zero\<close> is the zero value of the resource's
  type): a file that does not decode delivers the zero value, a removed file the zero value with its identifier.
\<close>

definition Store_processEvent :: "string \<Rightarrow> 'a ObjectMeta_scheme \<Rightarrow> persist_env \<Rightarrow> 'a ObjectMeta_scheme files \<Rightarrow> fs_event \<Rightarrow>
    'a ObjectMeta_scheme option" where
  "Store_processEvent resource zero e fs ev =
     (let deliver = (\<lambda>data. case FsClient_Get e fs (filepath_Join resource data) of
                       Inl _ \<Rightarrow> None | Inr (Some obj) \<Rightarrow> Some obj | Inr None \<Rightarrow> Some zero) in
      case ev of
        EventCreate data \<Rightarrow> deliver data
      | EventUpdate data \<Rightarrow> deliver data
      | EventRemove data \<Rightarrow> Some (zero\<lparr>om_ID := last (split_at (CHR ''/'') data)\<rparr>))"

subsection \<open>What is stored\<close>

definition stored_obj :: "string \<Rightarrow> 'o files \<Rightarrow> string \<Rightarrow> 'o option" where
  "stored_obj resource fs i =
     (if plain_elem i then Option.bind (cache_load fs (filepath_Join resource i)) f_obj else None)"

text \<open>
  The environments and objects for which the store keeps its contract: a resource and an
  identifier that are plain path elements, no failure after a truncation, no dropped failure of a removal.
\<close>

definition store_admissible :: "string \<Rightarrow> persist_env \<Rightarrow> 'a ObjectMeta_scheme \<Rightarrow> bool" where
  "store_admissible resource e obj =
     (plain_elem resource \<and> plain_elem (om_ID obj) \<and> \<not> flt_encode (pe_fault e) \<and> \<not> flt_seek (pe_fault e) \<and>
      \<not> flt_read (pe_fault e) \<and> \<not> flt_remove (pe_fault e))"

lemma filepath_Join_inject:
  "plain_elem r \<Longrightarrow> plain_elem i \<Longrightarrow> plain_elem j \<Longrightarrow> filepath_Join r i = filepath_Join r j \<longleftrightarrow> i = j"
  by (simp add: filepath_Join_plain)

lemma stored_obj_store:
  assumes "plain_elem r" "plain_elem i"
  shows "stored_obj r (cache_store (filepath_Join r i) f fs) = (stored_obj r fs)(i := f_obj f)"
  using assms by (auto simp: stored_obj_def filepath_Join_inject fun_eq_iff)

lemma stored_obj_delete:
  assumes "plain_elem r" "plain_elem i"
  shows "stored_obj r (cache_delete (filepath_Join r i) fs) = (stored_obj r fs)(i := None)"
  using assms by (auto simp: stored_obj_def filepath_Join_inject fun_eq_iff)

text \<open>The three branches, for an admissible call.\<close>

lemma Store_persist_delete:
  assumes "plain_elem r" "plain_elem (om_ID obj)" "time_IsZero (om_ModTime obj)" "\<not> flt_remove (pe_fault e)"
    and "Store_persist r e fs obj = (fs', res)"
  shows "(\<exists>err. res = Inl err \<and> fs' = fs) \<or> (res = Inr None \<and> stored_obj r fs' = (stored_obj r fs)(om_ID obj := None))"
  using assms
  by (auto simp: Store_persist_def FsClient_Delete_def Let_def stored_obj_delete split: if_splits option.splits)

lemma Store_persist_write:
  assumes "store_admissible r e obj" "\<not> time_IsZero (om_ModTime obj)" "Store_persist r e fs obj = (fs', res)"
  shows "(\<exists>err. res = Inl err \<and> fs' = fs) \<or>
         (\<exists>obj'. res = Inr (Some obj') \<and> om_ID obj' = om_ID obj \<and> stored_obj r fs' = (stored_obj r fs)(om_ID obj \<mapsto> obj'))"
  using assms
  by (auto simp: Store_persist_def FsClient_Get_def FsClient_Create_def FsClient_Update_def Let_def store_admissible_def
      stored_obj_store split: if_splits option.splits)

interpretation fs_store: object_store "Store_persist r" "stored_obj r" om_ID "store_admissible r" for r
proof
  fix e s s' err and ob ob' :: "'a ObjectMeta_scheme"
  assume adm: "store_admissible r e ob"
  then have pl: "plain_elem r" "plain_elem (om_ID ob)" "\<not> flt_remove (pe_fault e)" by (simp_all add: store_admissible_def)
  note cases = Store_persist_write [OF adm] Store_persist_delete [OF pl(1,2) _ pl(3)]
  show "om_ID ob' = om_ID ob \<and> stored_obj r s' = (stored_obj r s)(om_ID ob \<mapsto> ob')"
    if "Store_persist r e s ob = (s', Inr (Some ob'))"
    using cases that by (cases "time_IsZero (om_ModTime ob)") fastforce+
  show "stored_obj r s' = (stored_obj r s)(om_ID ob := None)" if "Store_persist r e s ob = (s', Inr None)"
    using cases that by (cases "time_IsZero (om_ModTime ob)") fastforce+
  show "stored_obj r s' = stored_obj r s" if "Store_persist r e s ob = (s', Inl err)"
    using cases that by (cases "time_IsZero (om_ModTime ob)") fastforce+
qed

text \<open>The files of a resource are named by plain elements, and stay so.\<close>

definition files_ok :: "string \<Rightarrow> 'o files \<Rightarrow> bool" where
  "files_ok r fs \<longleftrightarrow> cache_ok fs \<and> (\<forall>(p, f)\<in>set fs. HasPrefix p (r @ ''/'') \<longrightarrow> (\<exists>i. plain_elem i \<and> p = filepath_Join r i))"

lemma files_ok_Nil [simp]: "files_ok r []"
  by (simp add: files_ok_def)

lemma Store_persist_files:
  assumes "Store_persist r e fs ob = (fs', res)"
  defines "key \<equiv> filepath_Join r (om_ID ob)"
  shows "fs' = fs \<or> fs' = cache_delete key fs \<or> (\<exists>f. fs' = cache_store key f fs)"
  using assms
  by (auto simp: Store_persist_def FsClient_Get_def FsClient_Create_def FsClient_Update_def FsClient_Delete_def Let_def
      split: if_splits option.splits)

lemma files_ok_persist:
  assumes "files_ok r fs" "plain_elem (om_ID ob)" "Store_persist r e fs ob = (fs', res)"
  shows "files_ok r fs'"
proof -
  have "files_ok r (cache_delete k fs)" for k
    using assms(1) by (auto simp: files_ok_def) (auto simp: cache_delete_def)
  moreover have "files_ok r (cache_store (filepath_Join r (om_ID ob)) f fs)" for f
    using assms(1,2) set_cache_store [of "filepath_Join r (om_ID ob)" f fs] by (auto simp: files_ok_def)
  ultimately show ?thesis using Store_persist_files [OF assms(3)] assms(1) by auto
qed

lemma LoadResource_set:
  assumes "files_ok r fs" "plain_elem r"
  shows "ob \<in> set (LoadResource r fs) \<longleftrightarrow>
    (\<exists>i f ob'. plain_elem i \<and> cache_load fs (filepath_Join r i) = Some f \<and> f_obj f = Some ob' \<and> ob = ob'\<lparr>om_ModTime := f_mtime f\<rparr>)"
    (is "_ \<longleftrightarrow> ?R")
proof
  assume "ob \<in> set (LoadResource r fs)"
  then obtain p f g ob' where "(p, f) \<in> set fs" "HasPrefix p (r @ ''/'')" "cache_load fs p = Some g" "f_obj g = Some ob'" "ob = ob'\<lparr>om_ModTime := f_mtime f\<rparr>"
    by (auto simp: LoadResource_def FsClient_List_def List.map_filter_def bind_eq_Some_conv split: option.splits)
  moreover have "f = g" using calculation assms(1) by (simp add: files_ok_def cache_load_set_iff) (metis cache_load_of_set option.inject)
  ultimately show ?R using assms(1) by (fastforce simp: files_ok_def)
next
  assume ?R
  then obtain i f ob' where "plain_elem i" and l: "cache_load fs (filepath_Join r i) = Some f" "f_obj f = Some ob'" "ob = ob'\<lparr>om_ModTime := f_mtime f\<rparr>" by blast
  then have "HasPrefix (filepath_Join r i) (r @ ''/'')" using assms(2) by (simp add: filepath_Join_plain HasPrefix_def)
  with l cache_load_in_set [OF l(1)] show "ob \<in> set (LoadResource r fs)"
    by (force simp: LoadResource_def FsClient_List_def List.map_filter_def image_iff)
qed

text \<open>Loading the stored objects into an empty cache restores what the store holds, with the modification times of the files.\<close>

definition untimed :: "'a ObjectMeta_scheme \<Rightarrow> 'a ObjectMeta_scheme" where
  "untimed ob = ob\<lparr>om_ModTime := 0\<rparr>"

lemma load_all:
  assumes "\<And>x y. x \<in> set xs \<Longrightarrow> y \<in> set xs \<Longrightarrow> key x = key y \<Longrightarrow> x = y" "\<And>x. x \<in> set xs \<Longrightarrow> cache_load m (key x) = None \<or> cache_load m (key x) = Some x"
  shows "cache_load (foldl (\<lambda>m x. cache_store (key x) x m) m xs) k = (if k \<in> key ` set xs then Some (the_elem {x \<in> set xs. key x = k}) else cache_load m k)"
  using assms
proof (induction xs arbitrary: m)
  case (Cons x xs)
  then have IH: "cache_load (foldl (\<lambda>m x. cache_store (key x) x m) (cache_store (key x) x m) xs) k =
      (if k \<in> key ` set xs then Some (the_elem {y \<in> set xs. key y = k}) else cache_load (cache_store (key x) x m) k)"
    by (intro Cons.IH) auto
  show ?case
  proof (cases "k \<in> key ` set xs")
    case True
    then obtain y where "y \<in> set xs" "key y = k" by blast
    then have "{y \<in> set xs. key y = k} = {y}" "{y \<in> set (x # xs). key y = k} = {y}" using Cons.prems(1) by auto
    with IH True show ?thesis by simp
  next
    case False
    have "{y \<in> set (x # xs). key y = k} = {x}" if "key x = k" using that Cons.prems(1) [of _ x] by auto
    with IH False show ?thesis by (cases "key x = k") simp_all
  qed
qed simp

lemma reload_stored:
  assumes "files_ok r fs" "plain_elem r" "\<And>i ob. stored_obj r fs i = Some ob \<Longrightarrow> om_ID ob = i"
  shows "map_option untimed (cache_load (foldl (\<lambda>m ob. cache_store (om_ID ob) ob m) [] (LoadResource r fs)) k) = map_option untimed (stored_obj r fs k)"
proof -
  let ?L = "LoadResource r fs"
  note L = LoadResource_set [OF assms(1,2)]
  have id: "om_ID ob' = i" if "plain_elem i" "cache_load fs (filepath_Join r i) = Some f" "f_obj f = Some ob'" for i f ob'
    using that assms(3) [of i ob'] by (simp add: stored_obj_def)
  have inj: "x = y" if "x \<in> set ?L" "y \<in> set ?L" "om_ID x = om_ID y" for x y
    using that id unfolding L by fastforce
  have "cache_load (foldl (\<lambda>m ob. cache_store (om_ID ob) ob m) [] ?L) k = (if k \<in> om_ID ` set ?L then Some (the_elem {x \<in> set ?L. om_ID x = k}) else None)"
    by (subst load_all) (use inj in auto)
  moreover have "map_option untimed (stored_obj r fs k) = None" if "k \<notin> om_ID ` set ?L"
  proof (rule ccontr)
    assume "map_option untimed (stored_obj r fs k) \<noteq> None"
    then obtain f ob where "plain_elem k" "cache_load fs (filepath_Join r k) = Some f" "f_obj f = Some ob"
      by (auto simp: stored_obj_def bind_eq_Some_conv split: if_splits)
    then have "ob\<lparr>om_ModTime := f_mtime f\<rparr> \<in> set ?L" "om_ID ob = k" using id unfolding L by blast+
    with that show False by (auto simp: image_iff)
  qed
  moreover have "map_option untimed (stored_obj r fs k) = Some (untimed (the_elem {x \<in> set ?L. om_ID x = k}))" if "k \<in> om_ID ` set ?L"
  proof -
    from that obtain x where x: "x \<in> set ?L" "om_ID x = k" by auto
    then have "{x \<in> set ?L. om_ID x = k} = {x}" using inj by auto
    moreover from x(1) obtain i f ob where f: "plain_elem i" "cache_load fs (filepath_Join r i) = Some f" "f_obj f = Some ob" "x = ob\<lparr>om_ModTime := f_mtime f\<rparr>"
      unfolding L by blast
    moreover from id [OF f(1-3)] f(4) x(2) have "i = k" by simp
    ultimately show ?thesis by (simp add: stored_obj_def untimed_def)
  qed
  ultimately show ?thesis by (cases "k \<in> om_ID ` set ?L") (simp_all only: if_True if_False option.map simp_thms)
qed

lemma ParseUint_val_less: "ParseUint_val s < 2 ^ 64"
  by (simp add: ParseUint_val_def split: option.split)

lemma next_version_differs:
  assumes "0 < pe_rand e" "pe_rand e < 2 ^ 64"
  shows "next_version e v \<noteq> v"
proof
  assume eq: "next_version e v = v"
  let ?n = "(ParseUint_val v + pe_rand e) mod 2 ^ 64"
  have "ParseUint_val (next_version e v) = ?n" unfolding next_version_def by (rule ParseUint_FormatInt) simp
  with eq have n: "ParseUint_val v = ?n" by simp
  show False
  proof (cases "ParseUint_val v + pe_rand e < 2 ^ 64")
    case True
    with n assms show ?thesis by simp
  next
    case False
    then have "?n = ParseUint_val v + pe_rand e - 2 ^ 64"
      using ParseUint_val_less [of v] assms by (simp add: le_mod_geq)
    with n assms False show ?thesis by simp
  qed
qed

lemma next_version_same: "pe_rand e = 0 \<Longrightarrow> n < 2 ^ 64 \<Longrightarrow> next_version e (FormatInt (int n)) = FormatInt (int n)"
  by (simp add: next_version_def ParseUint_FormatInt)

text \<open>An update of an existing object, when no call fails.\<close>

lemma Store_persist_update:
  assumes "plain_elem r" "plain_elem (om_ID obj)" "\<not> time_IsZero (om_ModTime obj)" "pe_fault e = no_fault"
    and "stored_obj r fs (om_ID obj) = Some old"
  shows "Store_persist r e fs obj =
     (if om_Version obj \<noteq> om_Version old then (fs, Inl ErrMismatch)
      else (cache_store (filepath_Join r (om_ID obj))
              \<lparr>f_obj = Some (obj\<lparr>om_Version := next_version e (om_Version obj)\<rparr>), f_mtime = pe_now e\<rparr> fs,
            Inr (Some (obj\<lparr>om_Version := next_version e (om_Version obj)\<rparr>))))"
proof -
  from assms(2,5) obtain f where f: "cache_load fs (filepath_Join r (om_ID obj)) = Some f" "f_obj f = Some old"
    by (auto simp: stored_obj_def split: if_splits bind_splits)
  then show ?thesis using assms(1-4)
    by (simp add: Store_persist_def FsClient_Get_def FsClient_Update_def no_fault_def Let_def)
qed

text \<open>
  C25: optimistic concurrency. Two writers read the same version of a stored object. When the
  first update succeeds with a positive random increment, the update of the second is rejected with
  \<open>ErrMismatch\<close> and changes nothing.
\<close>

theorem stale_writer_rejected:
  assumes "plain_elem r" "plain_elem (om_ID a)" "\<not> time_IsZero (om_ModTime a)" "\<not> time_IsZero (om_ModTime b)"
    and "stored_obj r fs (om_ID a) = Some old" "om_ID b = om_ID a" "om_Version b = om_Version a"
    and "pe_fault e1 = no_fault" "pe_fault e2 = no_fault" "0 < pe_rand e1" "pe_rand e1 < 100"
    and "Store_persist r e1 fs a = (fs1, Inr saved)"
  shows "Store_persist r e2 fs1 b = (fs1, Inl ErrMismatch)"
proof -
  let ?a = "a\<lparr>om_Version := next_version e1 (om_Version a)\<rparr>"
  from assms(12) Store_persist_update [OF assms(1-3,8,5)]
  have "fs1 = cache_store (filepath_Join r (om_ID a)) \<lparr>f_obj = Some ?a, f_mtime = pe_now e1\<rparr> fs"
    by (auto split: if_splits)
  then have "stored_obj r fs1 (om_ID b) = Some ?a"
    using assms(1,2,6) by (simp add: stored_obj_store)
  moreover have "next_version e1 (om_Version a) \<noteq> om_Version a"
    using assms(10,11) by (intro next_version_differs) simp_all
  ultimately show ?thesis
    using Store_persist_update [of r b e2 fs1 ?a] assms(1,2,4,6,7,9) by simp
qed

definition obj_at :: "string \<Rightarrow> string \<Rightarrow> ObjectMeta" where
  "obj_at i v = \<lparr>om_Tenant = ''main'', om_Name = i, om_ID = i, om_Version = v, om_ModTime = 5\<rparr>"

definition env_at :: "nat \<Rightarrow> persist_env" where
  "env_at n = \<lparr>pe_fault = no_fault, pe_now = 7, pe_rand = n\<rparr>"

theorem stale_writer_rejected_witness:
  "\<exists>fs1 saved. Store_persist ''things'' (env_at 3) [(''things/x'', \<lparr>f_obj = Some (obj_at ''x'' ''41''), f_mtime = 1\<rparr>)] (obj_at ''x'' ''41'')
       = (fs1, Inr saved) \<and>
     Store_persist ''things'' (env_at 0) fs1 (obj_at ''x'' ''41'') = (fs1, Inl ErrMismatch)"
proof -
  let ?fs = "[(''things/x'', \<lparr>f_obj = Some (obj_at ''x'' ''41''), f_mtime = 1\<rparr>)]"
  have pl: "plain_elem ''things''" "plain_elem (om_ID (obj_at ''x'' ''41''))" by (simp_all add: plain_elem_def obj_at_def)
  have st: "stored_obj ''things'' ?fs (om_ID (obj_at ''x'' ''41'')) = Some (obj_at ''x'' ''41'')"
    using pl by (simp add: stored_obj_def filepath_Join_plain cache_load_def) (simp add: obj_at_def)
  have env: "pe_fault (env_at 3) = no_fault" "pe_fault (env_at 0) = no_fault" "0 < pe_rand (env_at 3)" "pe_rand (env_at 3) < 100"
    by (simp_all add: env_at_def)
  have nz: "\<not> time_IsZero (om_ModTime (obj_at ''x'' ''41''))" by (simp add: time_IsZero_def obj_at_def)
  obtain fs1 saved where "Store_persist ''things'' (env_at 3) ?fs (obj_at ''x'' ''41'') = (fs1, Inr saved)"
    using Store_persist_update [OF pl nz env(1) st] by simp
  then show ?thesis using stale_writer_rejected [OF pl nz nz st refl refl env] by blast
qed

text \<open>
  A random increment of zero loses an update. The version is advanced by \<open>rand.Intn(100)\<close>, which can be 0:
  then the version does not change and a second writer that read the same version overwrites the first one's update
  without an error.
\<close>

theorem zero_increment_loses_update:
  assumes "plain_elem r" "plain_elem (om_ID a)" "\<not> time_IsZero (om_ModTime a)" "\<not> time_IsZero (om_ModTime b)"
    and "stored_obj r fs (om_ID a) = Some old" "om_Version a = om_Version old" "om_Version a = FormatInt (int n)" "n < 2 ^ 64"
    and "om_ID b = om_ID a" "om_Version b = om_Version a"
    and "pe_fault e1 = no_fault" "pe_fault e2 = no_fault" "pe_rand e1 = 0"
  shows "\<exists>fs1 fs2 b'. Store_persist r e1 fs a = (fs1, Inr (Some a)) \<and> Store_persist r e2 fs1 b = (fs2, Inr (Some b')) \<and>
           stored_obj r fs2 (om_ID a) = Some b'"
proof -
  have "next_version e1 (om_Version a) = om_Version a"
    unfolding assms(7) using assms(8,13) by (intro next_version_same)
  then have a: "a\<lparr>om_Version := next_version e1 (om_Version a)\<rparr> = a" by simp
  define fs1 where "fs1 = cache_store (filepath_Join r (om_ID a)) \<lparr>f_obj = Some a, f_mtime = pe_now e1\<rparr> fs"
  have 1: "Store_persist r e1 fs a = (fs1, Inr (Some a))"
    using Store_persist_update [OF assms(1-3,11,5)] assms(6) a by (simp add: fs1_def)
  have "stored_obj r fs1 (om_ID b) = Some a" using assms(1,2,9) by (simp add: fs1_def stored_obj_store)
  then show ?thesis
    using 1 Store_persist_update [of r b e2 fs1 a] assms(1,2,4,9,10,12) by (auto simp: stored_obj_store)
qed

theorem zero_increment_loses_update_witness:
  "\<exists>fs1 fs2 b'. Store_persist ''things'' (env_at 0) [(''things/x'', \<lparr>f_obj = Some (obj_at ''x'' (FormatInt (int 41))), f_mtime = 1\<rparr>)]
        (obj_at ''x'' (FormatInt (int 41))) = (fs1, Inr (Some (obj_at ''x'' (FormatInt (int 41))))) \<and>
     Store_persist ''things'' (env_at 9) fs1 (obj_at ''x'' (FormatInt (int 41))) = (fs2, Inr (Some b'))"
proof -
  let ?o = "obj_at ''x'' (FormatInt (int 41))"
  let ?fs = "[(''things/x'', \<lparr>f_obj = Some ?o, f_mtime = 1\<rparr>)]"
  have pl: "plain_elem ''things''" "plain_elem (om_ID ?o)" by (simp_all add: plain_elem_def obj_at_def)
  have st: "stored_obj ''things'' ?fs (om_ID ?o) = Some ?o"
    using pl by (simp add: stored_obj_def filepath_Join_plain cache_load_def) (simp add: obj_at_def)
  have env: "pe_fault (env_at 0) = no_fault" "pe_fault (env_at 9) = no_fault" "pe_rand (env_at 0) = 0"
    by (simp_all add: env_at_def)
  have o: "\<not> time_IsZero (om_ModTime ?o)" "om_Version ?o = FormatInt (int 41)" by (simp_all add: time_IsZero_def obj_at_def)
  show ?thesis using zero_increment_loses_update [OF pl o(1) o(1) st refl o(2) _ refl refl env] by fastforce
qed

text \<open>
  Failures. When an operation of the store returns an error, the files are unchanged, unless
  a seek or the encoder failed after the file was truncated or created: then the file no longer decodes and the object is lost.
\<close>

theorem Store_persist_error:
  assumes "Store_persist r e fs obj = (fs', Inl err)"
  shows "fs' = fs \<or>
    ((flt_seek (pe_fault e) \<or> flt_encode (pe_fault e)) \<and>
     cache_load fs' (filepath_Join r (om_ID obj)) = Some \<lparr>f_obj = None, f_mtime = pe_now e\<rparr> \<and>
     (\<forall>k. k \<noteq> filepath_Join r (om_ID obj) \<longrightarrow> cache_load fs' k = cache_load fs k))"
  using assms
  by (auto simp: Store_persist_def FsClient_Delete_def FsClient_Get_def FsClient_Create_def FsClient_Update_def Let_def
      split: if_splits option.splits sum.splits)

theorem Store_persist_error_witness:
  "fst (Store_persist ''things'' ((env_at 0)\<lparr>pe_fault := no_fault\<lparr>flt_encode := True\<rparr>\<rparr>) [] (obj_at ''x'' ''1'')) \<noteq> []"
proof -
  let ?e = "(env_at 0)\<lparr>pe_fault := no_fault\<lparr>flt_encode := True\<rparr>\<rparr>"
  have "snd (Store_persist ''things'' ?e [] (obj_at ''x'' ''1'')) = Inl (OtherError ''encode'')"
    by (simp add: Store_persist_def FsClient_Get_def FsClient_Create_def env_at_def no_fault_def obj_at_def time_IsZero_def Let_def)
  then obtain fs' where r: "Store_persist ''things'' ?e [] (obj_at ''x'' ''1'') = (fs', Inl (OtherError ''encode''))"
    by (metis prod.collapse)
  have "fs' \<noteq> []"
    using r by (auto simp: Store_persist_def FsClient_Get_def FsClient_Create_def env_at_def no_fault_def obj_at_def time_IsZero_def Let_def)
  with Store_persist_error [OF r] r show ?thesis by simp
qed

end
