(* ===== verification/Filters.thy ===== *)
theory Filters
  imports Store
begin

text \<open>
  The listings of the managers: the sorters and name filters that the packages repeat for their
  types (\<open>src/pkg/*/*/filter.go\<close>, \<open>src/pkg/generic/filter.go\<close>) and the loop over the cache that builds a listing.

  Shown: the insertion by binary search keeps a listing sorted and adds exactly the new element; a listing holds
  exactly the cached objects that satisfy all predicates, in descending order of modification,
  in whatever order the cache is visited; what each name filter matches.
\<close>

subsection \<open>Sorters\<close>

text \<open>\<open>sort.Search\<close>: binary search for the smallest index that satisfies the predicate.\<close>

function search_loop :: "(nat \<Rightarrow> bool) \<Rightarrow> nat \<Rightarrow> nat \<Rightarrow> nat" where
  "search_loop f i j =
     (if i < j then let h = (i + j) div 2 in
        if \<not> f h then search_loop f (h + 1) j else search_loop f i h
      else i)"
  by auto
termination by (relation "measure (\<lambda>(f, i, j). j - i)") auto

declare search_loop.simps [simp del]

definition sort_Search :: "nat \<Rightarrow> (nat \<Rightarrow> bool) \<Rightarrow> nat" where
  "sort_Search n f = search_loop f 0 n"

text \<open>
  The comparison of a sorter with the functions \<open>f # fs\<close> (a sorter is always made with at least one): all but the
  last are tried in both directions.
\<close>

fun sorter_less :: "('a \<Rightarrow> 'a \<Rightarrow> bool) \<Rightarrow> ('a \<Rightarrow> 'a \<Rightarrow> bool) list \<Rightarrow> 'a \<Rightarrow> 'a \<Rightarrow> bool" where
  "sorter_less f [] p q = f p q"
| "sorter_less f (g # gs) p q =
     (if f p q then True else if f q p then False else sorter_less g gs p q)"

definition sorter_Insert :: "('a \<Rightarrow> 'a \<Rightarrow> bool) \<Rightarrow> ('a \<Rightarrow> 'a \<Rightarrow> bool) list \<Rightarrow> 'a list \<Rightarrow> 'a \<Rightarrow> 'a list" where
  "sorter_Insert f fs xs x =
     (let i = sort_Search (length xs) (\<lambda>i. sorter_less f fs (xs ! i) x) in take i xs @ x # drop i xs)"

definition byModTime :: "'a ObjectMeta_scheme \<Rightarrow> 'a ObjectMeta_scheme \<Rightarrow> bool" where
  "byModTime a b = (om_ModTime a < om_ModTime b)"

lemma search_loop_bounds: "i \<le> j \<Longrightarrow> i \<le> search_loop f i j \<and> search_loop f i j \<le> j"
proof (induction f i j rule: search_loop.induct)
  case (1 f i j)
  show ?case
  proof (cases "i < j")
    case True
    then have "i \<le> (i + j) div 2" "(i + j) div 2 < j" by auto
    with 1 True show ?thesis by (subst (1 2) search_loop.simps) (force simp: Let_def)
  qed (use 1(3) in \<open>simp add: search_loop.simps\<close>)
qed

text \<open>For a predicate that stays true once it is true, the search finds where it becomes true.\<close>

lemma search_loop_first:
  assumes mono: "\<And>a b. a \<le> b \<Longrightarrow> b < n \<Longrightarrow> f a \<Longrightarrow> f b" and "i \<le> j" "j \<le> n"
    and "\<And>a. a < i \<Longrightarrow> \<not> f a" "\<And>a. j \<le> a \<Longrightarrow> a < n \<Longrightarrow> f a"
  shows "(\<forall>a < search_loop f i j. \<not> f a) \<and> (\<forall>a. search_loop f i j \<le> a \<and> a < n \<longrightarrow> f a)"
  using assms(2-)
proof (induction "j - i" arbitrary: i j rule: less_induct)
  case less
  show ?case
  proof (cases "i < j")
    case True
    define h where "h = (i + j) div 2"
    from True have h: "i \<le> h" "h < j" by (auto simp: h_def)
    show ?thesis
    proof (cases "f h")
      case fh: True
      then have eq: "search_loop f i j = search_loop f i h"
        using True by (subst search_loop.simps) (simp only: h_def Let_def if_True if_False not_not simp_thms)
      show ?thesis unfolding eq
      proof (rule less.hyps)
        show "f a" if "h \<le> a" "a < n" for a using mono fh that by blast
        show "\<not> f a" if "a < i" for a by (rule less.prems(3) [OF that])
      qed (use h less.prems(1,2) in linarith)+
    next
      case fh: False
      then have eq: "search_loop f i j = search_loop f (h + 1) j"
        using True by (subst search_loop.simps) (simp only: h_def Let_def if_True if_False not_False_eq_True simp_thms)
      have hn: "h < n" using h less.prems(2) by linarith
      show ?thesis unfolding eq
      proof (rule less.hyps)
        show "\<not> f a" if "a < h + 1" for a using mono [of a h] fh that hn by fastforce
        show "f a" if "j \<le> a" "a < n" for a by (rule less.prems(4) [OF that])
      qed (use h less.prems(1,2) in linarith)+
    qed
  qed (use less.prems in \<open>auto simp: search_loop.simps\<close>)
qed

lemma sort_Search_first:
  assumes "\<And>a b. a \<le> b \<Longrightarrow> b < n \<Longrightarrow> f a \<Longrightarrow> f b"
  shows "sort_Search n f \<le> n" "a < sort_Search n f \<Longrightarrow> \<not> f a" "sort_Search n f \<le> a \<Longrightarrow> a < n \<Longrightarrow> f a"
  using search_loop_first [of n f 0 n] search_loop_bounds [of 0 n f] assms
  by (auto simp: sort_Search_def)

lemma mset_sorter_Insert: "mset (sorter_Insert f fs xs x) = add_mset x (mset xs)"
proof -
  have "mset (take i xs) + mset (drop i xs) = mset xs" for i by (metis append_take_drop_id mset_append)
  then show ?thesis by (simp add: sorter_Insert_def Let_def)
qed

text \<open>Comparing by several functions in turn is a strict weak order when each of them is.\<close>

lemma sorter_less_weak_order:
  "weak_order f \<Longrightarrow> \<forall>g\<in>set gs. weak_order g \<Longrightarrow> weak_order (sorter_less f gs)"
proof (induction gs arbitrary: f)
  case Nil
  have "sorter_less f [] = f" by (intro ext) simp
  with Nil show ?case by simp
next
  case (Cons g gs)
  then have r: "weak_order (sorter_less g gs)" by simp
  show ?case
  proof
    show "\<not> sorter_less f (g # gs) y x" if "sorter_less f (g # gs) x y" for x y
      using that weak_order.less_asym [OF r] weak_order.less_asym [OF Cons.prems(1)] by (auto split: if_splits)
    show "sorter_less f (g # gs) x y \<or> sorter_less f (g # gs) y z" if "sorter_less f (g # gs) x z" for x y z
      using that weak_order.less_split [OF r, of x z y] weak_order.less_split [OF Cons.prems(1)]
        weak_order.less_asym [OF Cons.prems(1)]
      by (simp split: if_splits) (blast+)?
  qed
qed

context weak_order
begin

lemma Insert_descending:
  assumes "descending xs"
  shows "descending (sorter_Insert less [] xs x)"
proof -
  have mono: "less (xs ! b) x" if "a \<le> b" "b < length xs" "less (xs ! a) x" for a b
  proof (cases "a = b")
    case False
    with that assms have "\<not> less (xs ! a) (xs ! b)" by (simp add: descending_def sorted_wrt_iff_nth_less)
    then show ?thesis using less_mono that(3) by blast
  qed (use that in simp)
  note S = sort_Search_first [of "length xs" "\<lambda>i. less (xs ! i) x", OF mono]
  show ?thesis using descending_insert [OF assms S] by (simp add: sorter_Insert_def Let_def)
qed

end

interpretation modtime: weak_order byModTime
  by standard (auto simp: byModTime_def)

subsection \<open>Name filters\<close>

record NameFilterFunc =
  Eq :: string
  In :: "string list"
  nf_Contains :: string
  StartsWith :: string
  EndsWith :: string

text \<open>
  The field \<open>Name\<close> of a filter: absent, a string, or another value that \<open>mapstructure\<close>
  decodes into a \<open>NameFilterFunc\<close> (the decoder is the parameter \<open>dec\<close>).
\<close>

datatype 'v name_filter = NoName | NameString string | NameObject 'v

text \<open>The predicates of a decoded name filter; \<open>eq\<close> is the string the \<open>eq\<close> predicate compares with.\<close>

definition func_predicates :: "string \<Rightarrow> NameFilterFunc \<Rightarrow> ('o \<Rightarrow> string) \<Rightarrow> ('o \<Rightarrow> bool) list" where
  "func_predicates eq ff nm =
     (if Eq ff \<noteq> [] then [\<lambda>ob. eq = nm ob] else []) @
     (if In ff \<noteq> [] then [\<lambda>ob. nm ob \<in> set (In ff)] else []) @
     (if nf_Contains ff \<noteq> [] then [\<lambda>ob. Contains (nm ob) (nf_Contains ff)] else []) @
     (if StartsWith ff \<noteq> [] then [\<lambda>ob. HasPrefix (nm ob) (TrimSpace (StartsWith ff))] else []) @
     (if EndsWith ff \<noteq> [] then [\<lambda>ob. HasSuffix (nm ob) (TrimSpace (EndsWith ff))] else [])"

definition name_predicates :: "('v \<Rightarrow> NameFilterFunc) \<Rightarrow> 'v name_filter \<Rightarrow> ('o \<Rightarrow> string) \<Rightarrow> ('o \<Rightarrow> bool) list" where
  "name_predicates dec f nm =
     (case f of NoName \<Rightarrow> [] | NameString name \<Rightarrow> [\<lambda>ob. name = nm ob]
      | NameObject v \<Rightarrow> func_predicates (Eq (dec v)) (dec v) nm)"

text \<open>
  The type filters of the event and of the command manager compare with the variable \<open>name\<close> of the failed
  type assertion instead, which is the empty string there.
\<close>

definition type_name_predicates :: "('v \<Rightarrow> NameFilterFunc) \<Rightarrow> 'v name_filter \<Rightarrow> ('o \<Rightarrow> string) \<Rightarrow> ('o \<Rightarrow> bool) list" where
  "type_name_predicates dec f nm =
     (case f of NoName \<Rightarrow> [] | NameString name \<Rightarrow> [\<lambda>ob. name = nm ob]
      | NameObject v \<Rightarrow> func_predicates [] (dec v) nm)"

record 'v tenant_filter =
  tf_Tenant :: string
  tf_Name :: "'v name_filter"

definition tenant_parseFilter :: "('v \<Rightarrow> NameFilterFunc) \<Rightarrow> 'v tenant_filter \<Rightarrow> ('a ObjectMeta_scheme \<Rightarrow> bool) list" where
  "tenant_parseFilter dec f = (\<lambda>ob. tf_Tenant f = om_Tenant ob) # name_predicates dec (tf_Name f) om_Name"

definition matches :: "('o \<Rightarrow> bool) list \<Rightarrow> 'o \<Rightarrow> bool" where
  "matches ps ob = list_all (\<lambda>p. p ob) ps"

lemma matches_simps [simp]:
  "matches [] ob" "matches (p # ps) ob \<longleftrightarrow> p ob \<and> matches ps ob" "matches (ps @ qs) ob \<longleftrightarrow> matches ps ob \<and> matches qs ob"
  by (simp_all add: matches_def)

lemma func_predicates_match:
  "matches (func_predicates eq ff nm) ob \<longleftrightarrow>
     (Eq ff \<noteq> [] \<longrightarrow> eq = nm ob) \<and> (In ff \<noteq> [] \<longrightarrow> nm ob \<in> set (In ff)) \<and>
     (nf_Contains ff \<noteq> [] \<longrightarrow> (\<exists>a b. nm ob = a @ nf_Contains ff @ b)) \<and>
     (StartsWith ff \<noteq> [] \<longrightarrow> (\<exists>b. nm ob = TrimSpace (StartsWith ff) @ b)) \<and>
     (EndsWith ff \<noteq> [] \<longrightarrow> (\<exists>a. nm ob = a @ TrimSpace (EndsWith ff)))"
  by (simp add: func_predicates_def Contains_iff HasPrefix_iff HasSuffix_iff)

text \<open>
  What a name filter matches. An object passes the filter of its tenant and name exactly when
  the tenant is the same and its name meets every part of the filter that is not empty.
\<close>

theorem tenant_filter_matches:
  "matches (tenant_parseFilter dec \<lparr>tf_Tenant = t, tf_Name = NameObject v\<rparr>) ob \<longleftrightarrow>
     t = om_Tenant ob \<and>
     (Eq (dec v) \<noteq> [] \<longrightarrow> Eq (dec v) = om_Name ob) \<and> (In (dec v) \<noteq> [] \<longrightarrow> om_Name ob \<in> set (In (dec v))) \<and>
     (nf_Contains (dec v) \<noteq> [] \<longrightarrow> (\<exists>a b. om_Name ob = a @ nf_Contains (dec v) @ b)) \<and>
     (StartsWith (dec v) \<noteq> [] \<longrightarrow> (\<exists>b. om_Name ob = TrimSpace (StartsWith (dec v)) @ b)) \<and>
     (EndsWith (dec v) \<noteq> [] \<longrightarrow> (\<exists>a. om_Name ob = a @ TrimSpace (EndsWith (dec v))))"
  by (simp add: tenant_parseFilter_def name_predicates_def func_predicates_match)

theorem tenant_filter_matches_witness:
  "matches (tenant_parseFilter (\<lambda>v. \<lparr>Eq = [], In = [], nf_Contains = [], StartsWith = v, EndsWith = []\<rparr>)
       \<lparr>tf_Tenant = ''main'', tf_Name = NameObject ''xy''\<rparr>) (obj_at ''xyz'' ''1'') \<longleftrightarrow> (\<exists>b. ''xyz'' = TrimSpace ''xy'' @ b)"
  using tenant_filter_matches [of "\<lambda>v. \<lparr>Eq = [], In = [], nf_Contains = [], StartsWith = v, EndsWith = []\<rparr>" "''main''" "''xy''"
      "obj_at ''xyz'' ''1''"]
  by (simp add: obj_at_def)

text \<open>
  The \<open>eq\<close> filter of event and command types. A filter \<open>{"eq": x}\<close> of these two
  listings matches exactly the types without a name, whatever \<open>x\<close> is: a type named \<open>x\<close> is never found by it.
\<close>

theorem type_filter_eq_matches_nameless:
  assumes "dec v = \<lparr>Eq = x, In = [], nf_Contains = [], StartsWith = [], EndsWith = []\<rparr>" "x \<noteq> []"
  shows "matches (type_name_predicates dec (NameObject v) nm) ob \<longleftrightarrow> nm ob = []"
  using assms by (auto simp: type_name_predicates_def func_predicates_match)

theorem type_filter_eq_matches_nameless_witness:
  "\<not> matches (type_name_predicates (\<lambda>v. \<lparr>Eq = v, In = [], nf_Contains = [], StartsWith = [], EndsWith = []\<rparr>)
        (NameObject ''alarm'') om_Name) (obj_at ''alarm'' ''1'')"
  using type_filter_eq_matches_nameless
    [of "\<lambda>v. \<lparr>Eq = v, In = [], nf_Contains = [], StartsWith = [], EndsWith = []\<rparr>" "''alarm''" "''alarm''" om_Name "obj_at ''alarm'' ''1''"]
  by (simp add: obj_at_def)

subsection \<open>Listings\<close>

text \<open>The loop of the \<open>Get...s\<close> methods over the cache, in the order \<open>Range\<close> visits it.\<close>

definition list_matching :: "('a ObjectMeta_scheme \<Rightarrow> bool) list \<Rightarrow> 'a ObjectMeta_scheme cache \<Rightarrow> 'a ObjectMeta_scheme list" where
  "list_matching ps m =
     foldl (\<lambda>acc v. if matches ps v then sorter_Insert byModTime [] acc v else acc) [] (cache_values m)"

lemma insert_matching:
  assumes "modtime.descending acc"
  shows "modtime.descending (foldl (\<lambda>acc v. if matches ps v then sorter_Insert byModTime [] acc v else acc) acc vs) \<and>
    mset (foldl (\<lambda>acc v. if matches ps v then sorter_Insert byModTime [] acc v else acc) acc vs) =
      mset acc + filter_mset (matches ps) (mset vs)"
  using assms
  by (induction vs arbitrary: acc) (auto simp: modtime.Insert_descending mset_sorter_Insert)

lemma list_matching_props:
  "modtime.descending (list_matching ps m)"
  "mset (list_matching ps m) = filter_mset (matches ps) (mset (cache_values m))"
  using insert_matching [of "[]" ps "cache_values m"] by (simp_all add: list_matching_def modtime.descending_def)

lemma set_list_matching: "set (list_matching ps m) = {v \<in> set (cache_values m). matches ps v}"
  using arg_cong [OF list_matching_props(2) [of ps m], of set_mset] by auto

text \<open>
  C32: a listing is complete, exact and ordered. Whatever the order in which the cache is
  visited, the result holds every cached object that satisfies all predicates, as often as it is cached, and nothing else, and no object is
  listed before one that was modified later.
\<close>

theorem list_matching_exact:
  "mset (list_matching ps m) = filter_mset (matches ps) (mset (cache_values m)) \<and>
   sorted_wrt (\<lambda>a b. om_ModTime b \<le> om_ModTime a) (list_matching ps m)"
  using list_matching_props [of ps m] by (simp add: modtime.descending_def byModTime_def not_less)

end
