(* ===== verification/Model_Types.thy ===== *)
theory Model_Types
  imports Filters
begin

text \<open>
  The data of the model service: the request types of \<open>src/pkg/model/v1/types.go\<close> (fields with
  the suffix \<open>1\<close> in their prefix) and the runtime types of \<open>src/pkg/model/runtime/types.go\<close>.

  The index maps of the runtime types (\<open>PropertyByName\<close>, \<open>CharacteristicByName\<close>, \<open>PropertySetByName\<close> of a type) point
  to the elements of the list beside them and are rebuilt from it wherever an object is created, copied or loaded; they are
  the lookup by name in that list. A pointer to a shared property set type, a thing type or a parent thing is
  the identifier it has in the cache. Floating-point bounds are only copied and are kept as their 64 bits.
\<close>

datatype Datatype = DataTypeString | DataTypeInt | DataTypeLong | DataTypeDouble | DataTypeBoolean

fun DataTypeToString :: "Datatype \<Rightarrow> string" where
  "DataTypeToString DataTypeString = ''string''"
| "DataTypeToString DataTypeInt = ''int''"
| "DataTypeToString DataTypeLong = ''long''"
| "DataTypeToString DataTypeDouble = ''double''"
| "DataTypeToString DataTypeBoolean = ''bool''"

definition DataTypeFromString :: "(string \<times> Datatype) list" where
  "DataTypeFromString = [(''string'', DataTypeString), (''int'', DataTypeInt), (''long'', DataTypeLong),
     (''double'', DataTypeDouble), (''bool'', DataTypeBoolean)]"

text \<open>An access mode is a byte; a request that leaves it out has the zero byte.\<close>

type_synonym AccessMode = "8 word"

definition AccessModeReadOnly :: AccessMode where "AccessModeReadOnly = 114"
definition AccessModeReadWrite :: AccessMode where "AccessModeReadWrite = 114 + 119"

text \<open>The JSON forms of the two enumerations.\<close>

definition AccessMode_Marshal :: "AccessMode \<Rightarrow> string" where
  "AccessMode_Marshal am = (if am = AccessModeReadWrite then ''rw'' else ''r'')"

definition AccessMode_Unmarshal :: "string \<Rightarrow> AccessMode" where
  "AccessMode_Unmarshal s = (if s = ''rw'' then AccessModeReadWrite else AccessModeReadOnly)"

type_synonym float64 = "64 word"

subsection \<open>Requests\<close>

record v1_Property =
  p1_Name :: string
  p1_Unit :: string
  p1_Length :: int
  p1_Datatype :: Datatype
  p1_AccessMode :: AccessMode
  p1_Min :: "float64 option"
  p1_Max :: "float64 option"

record v1_PropertySetType =
  pst1_Name :: string
  pst1_Description :: "string option"
  pst1_Properties :: "v1_Property list"

record v1_PropertySet =
  ps1_Name :: string
  ps1_PropertySetTypeId :: "string option"
  ps1_PropertySetType :: "v1_PropertySetType option"

record v1_Characteristic =
  c1_Name :: string
  c1_Unit :: string
  c1_Length :: int
  c1_DataType :: Datatype
  c1_DefaultValue :: string
  c1_Searchable :: bool

record v1_ThingType =
  tt1_Name :: string
  tt1_Description :: "string option"
  tt1_ParentTypeId :: string
  tt1_Instantiable :: "bool option"
  tt1_Characteristics :: "v1_Characteristic list"
  tt1_PropertySets :: "v1_PropertySet list"

record v1_Thing =
  t1_Name :: string
  t1_Description :: "string option"
  t1_TypeId :: string
  t1_ParentId :: string
  t1_TimeZone :: "string option"
  t1_Characteristics :: "(string \<times> string) list"

subsection \<open>Runtime objects\<close>

record Property =
  p_Name :: string
  p_Unit :: string
  p_Length :: int
  p_DataType :: Datatype
  p_AccessMode :: AccessMode
  p_Min :: "float64 option"
  p_Max :: "float64 option"

record PropertySetType = ObjectMeta +
  pst_Description :: "string option"
  pst_Properties :: "Property list"

definition IsShared :: "PropertySetType \<Rightarrow> bool" where
  "IsShared pst = (CHR ''.'' \<in> set (om_ID pst))"

record Characteristic =
  c_Name :: string
  c_Unit :: string
  c_Length :: int
  c_DataType :: Datatype
  c_DefaultValue :: string
  c_Searchable :: bool

text \<open>A property set refers to a shared property set type by its identifier or has its own.\<close>

datatype pst_ref = SharedPst string | OwnPst PropertySetType

record PropertySet =
  ps_Name :: string
  ps_PropertySetType :: pst_ref

fun pst_ref_id :: "pst_ref \<Rightarrow> string" where
  "pst_ref_id (SharedPst i) = i"
| "pst_ref_id (OwnPst pst) = om_ID pst"

record ThingType = ObjectMeta +
  tt_Description :: "string option"
  tt_ParentTypeId :: string
  tt_Instantiable :: "bool option"
  tt_Characteristics :: "Characteristic list"
  tt_PropertySets :: "PropertySet list"

text \<open>
  A thing: the maps of its characteristics and property sets hold, for a name, the
  identifier of the thing type whose definition is inherited.
\<close>

record Thing = ObjectMeta +
  t_Description :: "string option"
  t_Type :: string
  t_Parent :: "string option"
  t_TimeZone :: "string option"
  t_Characteristics :: "(string \<times> string) list"
  t_CharacteristicByName :: "(string, string) smap"
  t_PropertySetByName :: "(string, string) smap"

subsection \<open>Lists indexed by name\<close>

text \<open>
  The maps from names to elements: the loops that build them store every element, so the last
  one of a name stays. \<open>update_last\<close> writes through the pointer the map holds.
\<close>

definition by_name :: "('a \<Rightarrow> string) \<Rightarrow> 'a list \<Rightarrow> string \<Rightarrow> 'a option" where
  "by_name nm xs n = find (\<lambda>x. nm x = n) (rev xs)"

fun update_first :: "('a \<Rightarrow> bool) \<Rightarrow> ('a \<Rightarrow> 'a) \<Rightarrow> 'a list \<Rightarrow> 'a list" where
  "update_first P f [] = []"
| "update_first P f (x # xs) = (if P x then f x # xs else x # update_first P f xs)"

definition update_last :: "('a \<Rightarrow> string) \<Rightarrow> string \<Rightarrow> ('a \<Rightarrow> 'a) \<Rightarrow> 'a list \<Rightarrow> 'a list" where
  "update_last nm n f xs = rev (update_first (\<lambda>x. nm x = n) f (rev xs))"

lemma by_name_None_iff: "by_name nm xs n = None \<longleftrightarrow> n \<notin> nm ` set xs"
  by (auto simp: by_name_def find_None_iff)

lemma by_name_Some: "by_name nm xs n = Some x \<Longrightarrow> x \<in> set xs \<and> nm x = n"
  by (auto simp: by_name_def find_Some_iff) (metis length_rev nth_mem set_rev)

lemma by_name_distinct:
  assumes "distinct (map nm xs)" "x \<in> set xs"
  shows "by_name nm xs (nm x) = Some x"
proof -
  from assms(2) have "by_name nm xs (nm x) \<noteq> None" by (auto simp: by_name_None_iff)
  then obtain y where y: "by_name nm xs (nm x) = Some y" by auto
  then have "y \<in> set xs" "nm y = nm x" using by_name_Some by fastforce+
  then have "y = x" using assms by (auto simp: distinct_map inj_on_def)
  with y show ?thesis by simp
qed

lemma map_update_first: "(\<And>x. g (f x) = g x) \<Longrightarrow> map g (update_first P f xs) = map g xs"
  by (induction xs) auto

lemma map_update_last: "(\<And>x. g (f x) = g x) \<Longrightarrow> map g (update_last nm n f xs) = map g xs"
  by (simp add: update_last_def rev_map [symmetric] map_update_first)

lemma length_update_last [simp]: "length (update_last nm n f xs) = length xs"
  using map_update_last [of "\<lambda>_. ()" f nm n xs] by (metis length_map)

text \<open>Insertion of the elements whose name is new, as the loops of the managers do.\<close>

fun add_new :: "('b \<Rightarrow> string) \<Rightarrow> ('a \<Rightarrow> 'b) \<Rightarrow> 'a list \<Rightarrow> 'b list \<Rightarrow> 'b list" where
  "add_new nm mk [] acc = acc"
| "add_new nm mk (x # xs) acc =
     (if by_name nm acc (nm (mk x)) \<noteq> None then add_new nm mk xs acc else add_new nm mk xs (acc @ [mk x]))"

lemma add_new_distinct: "distinct (map nm acc) \<Longrightarrow> distinct (map nm (add_new nm mk xs acc))"
  by (induction nm mk xs acc rule: add_new.induct) (auto simp: by_name_None_iff)

lemma add_new_names: "nm ` set (add_new nm mk xs acc) = nm ` set acc \<union> (nm \<circ> mk) ` set xs"
proof (induction nm mk xs acc rule: add_new.induct)
  case (2 nm mk x xs acc)
  have "nm (mk x) \<in> nm ` set acc" if "by_name nm acc (nm (mk x)) \<noteq> None"
    using that by (simp only: by_name_None_iff) simp
  with 2 show ?case by auto
qed simp

lemma add_new_set: "set (add_new nm mk xs acc) \<subseteq> set acc \<union> mk ` set xs"
  by (induction nm mk xs acc rule: add_new.induct) auto

lemma add_new_prefix: "\<exists>ys. add_new nm mk xs acc = acc @ ys"
  by (induction nm mk xs acc rule: add_new.induct) auto

text \<open>Without clashes nothing is dropped.\<close>

lemma add_new_all:
  "distinct (map (nm \<circ> mk) xs) \<Longrightarrow> (nm \<circ> mk) ` set xs \<inter> nm ` set acc = {} \<Longrightarrow> add_new nm mk xs acc = acc @ map mk xs"
proof (induction nm mk xs acc rule: add_new.induct)
  case (2 nm mk x xs acc)
  then have "nm (mk x) \<notin> nm ` set acc" by auto
  then have "by_name nm acc (nm (mk x)) = None" by (simp add: by_name_None_iff)
  with 2 show ?case by (auto simp: image_iff)
qed simp

interpretation dtypes: codec DataTypeToString "map_of DataTypeFromString"
proof unfold_locales
  show "map_of DataTypeFromString (DataTypeToString x) = Some x" for x
    by (cases x) (simp_all add: DataTypeFromString_def)
  show "DataTypeToString x = s" if "map_of DataTypeFromString s = Some x" for s x
    using that by (auto simp: DataTypeFromString_def split: if_splits)
qed

lemma AccessMode_roundtrip:
  "am \<in> {AccessModeReadOnly, AccessModeReadWrite} \<Longrightarrow> AccessMode_Unmarshal (AccessMode_Marshal am) = am"
  by (auto simp: AccessMode_Unmarshal_def AccessMode_Marshal_def AccessModeReadOnly_def AccessModeReadWrite_def)

end
