(* ===== verification/Model_Validation.thy ===== *)
theory Model_Validation
  imports Model_Types
begin

text \<open>
  The validation of the model requests: \<open>src/pkg/model/validation/validation.go\<close>, with the helpers of
  \<open>src/pkg/generic/validation.go\<close>, \<open>src/pkg/generic/meta/validation.go\<close> and \<open>src/pkg/util/validation/validation.go\<close>. A
  validation returns the list of its errors, each with the path of the field.

  Shown: exactly which requests pass; an accepted update of a property set type keeps every property with
  its data type, unit and length and never makes a read-only property writable; the identifier of an accepted type is a plain path element.
\<close>

datatype field_error =
    Required string
  | Invalid string
  | TooLong string
  | Duplicate string
  | Forbidden string

definition child :: "string \<Rightarrow> string \<Rightarrow> string" where
  "child p n = p @ ''.'' @ n"

definition idx :: "string \<Rightarrow> nat \<Rightarrow> string" where
  "idx p i = p @ ''['' @ FormatInt (int i) @ '']''"

subsection \<open>Helpers\<close>

definition IsStringLengthInRange :: "string \<Rightarrow> int \<Rightarrow> int \<Rightarrow> bool" where
  "IsStringLengthInRange v lo hi = (int (length v) \<ge> lo \<and> int (length v) \<le> hi)"

definition is_word_char :: "char \<Rightarrow> bool" where
  "is_word_char c = (let n = of_char c :: nat in
     (97 \<le> n \<and> n \<le> 122) \<or> (65 \<le> n \<and> n \<le> 90) \<or> (48 \<le> n \<and> n \<le> 57) \<or> n = 95)"

definition column_length :: "string \<Rightarrow> int" where
  "column_length v = sum_list (map (\<lambda>c. if is_word_char c then 1 else 3) v)"

definition IsColumnNameLengthInRange :: "string \<Rightarrow> int \<Rightarrow> int \<Rightarrow> bool" where
  "IsColumnNameLengthInRange v lo hi = (column_length v \<ge> lo \<and> column_length v \<le> hi)"

definition ExcludesAll :: "string \<Rightarrow> string \<Rightarrow> bool" where
  "ExcludesAll v chars = (\<not> list_ex (\<lambda>c. c \<in> set chars) v)"

text \<open>The illegal characters \<open>./?\\<close>, \<open>./\,\<close> and \<open>/\\<close> of identifiers, properties and names.\<close>

definition illegalIDChars :: string where "illegalIDChars = [CHR 0x2E, CHR 0x2F, CHR 0x3F, CHR 0x5C]"
definition illegalPropertyChars :: string where "illegalPropertyChars = [CHR 0x2E, CHR 0x2F, CHR 0x5C, CHR 0x2C]"
definition illegalNameChars :: string where "illegalNameChars = [CHR 0x2F, CHR 0x5C]"

definition preservedColumns :: "string list" where
  "preservedColumns = [''and'', ''import'', ''not'', ''return'', ''option'', ''test'', ''empty'', ''in'', ''or'', ''package'',
     ''builtin'', ''ttl'', ''ps'', ''ti'', ''_time'']"

text \<open>
  \<open>strings.ToLower\<close>, exact whenever the result is ASCII, which is all that membership in the
  preserved columns depends on: besides the letters, the Kelvin sign (E2 84 AA) and the dotted capital i (C4 B0) are the
  characters whose lower case is ASCII.
\<close>

fun ToLower :: "string \<Rightarrow> string" where
  "ToLower [] = []"
| "ToLower (a # s) =
     (if of_char a = (196::nat) \<and> s \<noteq> [] \<and> of_char (hd s) = (176::nat) then CHR ''i'' # ToLower (tl s)
      else if of_char a = (226::nat) \<and> length s \<ge> 2 \<and> of_char (s ! 0) = (132::nat) \<and> of_char (s ! 1) = (170::nat)
        then CHR ''k'' # ToLower (drop 2 s)
      else (if 65 \<le> (of_char a :: nat) \<and> of_char a \<le> (90::nat) then char_of (of_char a + 32 :: nat) else a) # ToLower s)"

definition ValidateDescription :: "string option \<Rightarrow> string \<Rightarrow> field_error list" where
  "ValidateDescription d path =
     (case d of None \<Rightarrow> [] | Some s \<Rightarrow> if \<not> IsStringLengthInRange s 0 255 then [TooLong path] else [])"

text \<open>A name function returns whether the name is an error.\<close>

definition ValidateObjectMeta :: "string \<Rightarrow> (string \<Rightarrow> bool) \<Rightarrow> field_error list" where
  "ValidateObjectMeta name bad =
     (if name = [] then [Required ''name''] else if bad name then [Invalid ''name''] else [])"

definition ValidateName_at :: "string \<Rightarrow> (string \<Rightarrow> bool) \<Rightarrow> string \<Rightarrow> field_error list" where
  "ValidateName_at name bad path =
     (if name = [] then [Required (child path ''name'')] else if bad name then [Invalid (child path ''name'')] else [])"

definition ValidateTypeName :: "string \<Rightarrow> bool" where
  "ValidateTypeName name =
     (\<not> ExcludesAll name illegalIDChars \<or>
      \<not> IsColumnNameLengthInRange name 1 (255 - 4 - 36 - 1 - 1 - 9 - 12 - 3))"

definition ValidateName :: "string \<Rightarrow> bool" where
  "ValidateName name = (\<not> ExcludesAll name illegalNameChars \<or> \<not> IsStringLengthInRange name 1 64)"

subsection \<open>Property set types\<close>

definition validatePropertyName :: "string \<Rightarrow> string \<Rightarrow> field_error list" where
  "validatePropertyName name path =
     (if name = [] then [Required path]
      else if \<not> ExcludesAll name illegalPropertyChars then [Invalid path]
      else if ToLower name \<in> set preservedColumns then [Invalid path]
      else if \<not> IsColumnNameLengthInRange name 1 (255 - 4) then [TooLong path]
      else [])"

text \<open>The loop that reports a name seen before and otherwise validates the element.\<close>

fun distinct_loop :: "('a \<Rightarrow> string) \<Rightarrow> (nat \<Rightarrow> string) \<Rightarrow> (nat \<Rightarrow> 'a \<Rightarrow> field_error list) \<Rightarrow> string list \<Rightarrow> nat \<Rightarrow> 'a list \<Rightarrow> field_error list" where
  "distinct_loop nm path check names i [] = []"
| "distinct_loop nm path check names i (x # xs) =
     (if nm x \<in> set names then Duplicate (path i) # distinct_loop nm path check names (Suc i) xs
      else check i x @ distinct_loop nm path check (nm x # names) (Suc i) xs)"

definition validateProperties :: "v1_Property list \<Rightarrow> string \<Rightarrow> field_error list" where
  "validateProperties properties path =
     (if properties = [] then [Required path] else []) @
     distinct_loop p1_Name (\<lambda>i. child (idx path i) ''name'')
       (\<lambda>i p. validatePropertyName (p1_Name p) (child (idx path i) ''name'')) [] 0 properties"

definition ValidatePropertySetType :: "v1_PropertySetType \<Rightarrow> field_error list" where
  "ValidatePropertySetType pst =
     ValidateObjectMeta (pst1_Name pst) ValidateTypeName @
     ValidateDescription (pst1_Description pst) ''description'' @
     validateProperties (pst1_Properties pst) ''properties''"

definition ValidateImmutableField :: "'a \<Rightarrow> 'a \<Rightarrow> string \<Rightarrow> field_error list" where
  "ValidateImmutableField new old path = (if new = old then [] else [Invalid path])"

text \<open>The checks of the first new property with the name of an old one; none: the property was removed.\<close>

definition propertyUpdate_at :: "v1_Property list \<Rightarrow> string \<Rightarrow> Property \<Rightarrow> field_error list option" where
  "propertyUpdate_at newProperties path op =
     (case find (\<lambda>(j, np). p1_Name np = p_Name op) (enumerate 0 newProperties) of
        None \<Rightarrow> None
      | Some (j, np) \<Rightarrow> Some
          (ValidateImmutableField (p1_Datatype np) (p_DataType op) (child (idx path j) ''unit'') @
           ValidateImmutableField (p1_Unit np) (p_Unit op) (child (idx path j) ''datatype'') @
           ValidateImmutableField (p1_Length np) (p_Length op) (child (idx path j) ''length'') @
           (if p1_AccessMode np \<noteq> p_AccessMode op \<and> p_AccessMode op = AccessModeReadOnly
            then [Forbidden (child (idx path j) ''accessMode'')] else [])))"

definition validatePropertyUpdate :: "v1_Property list \<Rightarrow> Property list \<Rightarrow> string \<Rightarrow> field_error list" where
  "validatePropertyUpdate newProperties oldProperties path =
     (if length newProperties < length oldProperties then [Invalid path]
      else
        let rs = map (propertyUpdate_at newProperties path) oldProperties in
        concat (map (\<lambda>r. case r of None \<Rightarrow> [] | Some es \<Rightarrow> es) rs) @
        (if list_ex (\<lambda>r. r = None) rs then [Invalid path] else []))"

definition ValidatePropertySetTypeUpdate :: "v1_PropertySetType \<Rightarrow> PropertySetType \<Rightarrow> field_error list" where
  "ValidatePropertySetTypeUpdate new old =
     ValidateImmutableField (pst1_Name new) (om_Name old) ''name'' @
     validatePropertyUpdate (pst1_Properties new) (pst_Properties old) ''properties''"

subsection \<open>What passes\<close>

lemma distinct_loop_nil_iff:
  "distinct_loop nm path check names i xs = [] \<longleftrightarrow>
     distinct (map nm xs) \<and> nm ` set xs \<inter> set names = {} \<and> (\<forall>k<length xs. check (i + k) (xs ! k) = [])"
proof (induction nm path check names i xs rule: distinct_loop.induct)
  case (2 nm path check names i x xs)
  have "(\<forall>k<length (x # xs). check (i + k) ((x # xs) ! k) = []) \<longleftrightarrow>
      check i x = [] \<and> (\<forall>k<length xs. check (Suc i + k) (xs ! k) = [])"
    by (auto simp: nth_Cons split: nat.splits)
  with 2 show ?case by auto
qed simp

definition valid_property_name :: "string \<Rightarrow> bool" where
  "valid_property_name n \<longleftrightarrow> n \<noteq> [] \<and> set n \<inter> set illegalPropertyChars = {} \<and> ToLower n \<notin> set preservedColumns \<and> column_length n \<le> 251"

lemma column_length_nonneg: "0 \<le> column_length n"
  by (induction n) (auto simp: column_length_def)

lemma column_length_pos: "n \<noteq> [] \<Longrightarrow> 1 \<le> column_length n"
  by (cases n) (use column_length_nonneg [of "tl n"] in \<open>auto simp: column_length_def\<close>)

lemma ExcludesAll_iff: "ExcludesAll v cs \<longleftrightarrow> set v \<inter> set cs = {}"
  by (auto simp: ExcludesAll_def list_ex_iff)

lemma validatePropertyName_nil_iff: "validatePropertyName n path = [] \<longleftrightarrow> valid_property_name n"
  using column_length_pos [of n]
  by (auto simp: validatePropertyName_def valid_property_name_def ExcludesAll_iff IsColumnNameLengthInRange_def)

lemma validateProperties_nil_iff:
  "validateProperties ps path = [] \<longleftrightarrow>
     ps \<noteq> [] \<and> distinct (map p1_Name ps) \<and> (\<forall>p\<in>set ps. valid_property_name (p1_Name p))"
  by (auto simp: validateProperties_def distinct_loop_nil_iff validatePropertyName_nil_iff all_set_conv_all_nth)

definition valid_type_name :: "string \<Rightarrow> bool" where
  "valid_type_name n \<longleftrightarrow> n \<noteq> [] \<and> set n \<inter> set illegalIDChars = {} \<and> column_length n \<le> 189"

lemma ValidateObjectMeta_type_nil_iff: "ValidateObjectMeta n ValidateTypeName = [] \<longleftrightarrow> valid_type_name n"
  using column_length_pos [of n]
  by (auto simp: ValidateObjectMeta_def ValidateTypeName_def valid_type_name_def ExcludesAll_iff IsColumnNameLengthInRange_def)

lemma ValidateDescription_nil_iff: "ValidateDescription d path = [] \<longleftrightarrow> (\<forall>s. d = Some s \<longrightarrow> length s \<le> 255)"
  by (auto simp: ValidateDescription_def IsStringLengthInRange_def split: option.splits)

text \<open>
  Which property set types are accepted. A request passes exactly when its name is a legal type name, its
  description has at most 255 bytes and it has at least one property, with distinct and legal names.
\<close>

theorem ValidatePropertySetType_accepts:
  "ValidatePropertySetType pst = [] \<longleftrightarrow>
     valid_type_name (pst1_Name pst) \<and> (\<forall>s. pst1_Description pst = Some s \<longrightarrow> length s \<le> 255) \<and>
     pst1_Properties pst \<noteq> [] \<and> distinct (map p1_Name (pst1_Properties pst)) \<and>
     (\<forall>p\<in>set (pst1_Properties pst). valid_property_name (p1_Name p))"
  by (simp add: ValidatePropertySetType_def ValidateObjectMeta_type_nil_iff ValidateDescription_nil_iff validateProperties_nil_iff)

theorem ValidatePropertySetType_accepts_witness:
  "ValidatePropertySetType \<lparr>pst1_Name = ''Engine'', pst1_Description = None, pst1_Properties = []\<rparr> \<noteq> []"
  using ValidatePropertySetType_accepts [of "\<lparr>pst1_Name = ''Engine'', pst1_Description = None, pst1_Properties = []\<rparr>"]
  by simp

lemma find_enumerate_Some:
  "find (\<lambda>(j, x). P x) (enumerate i xs) = Some (j, x) \<Longrightarrow> x \<in> set xs \<and> P x"
  by (induction xs arbitrary: i) (auto split: if_splits)

lemma propertyUpdate_ok:
  assumes "propertyUpdate_at news path op = Some []"
  shows "\<exists>np\<in>set news. p1_Name np = p_Name op \<and> p1_Datatype np = p_DataType op \<and> p1_Unit np = p_Unit op \<and>
           p1_Length np = p_Length op \<and> (p_AccessMode op = AccessModeReadOnly \<longrightarrow> p1_AccessMode np = AccessModeReadOnly)"
proof -
  from assms obtain j np where f: "find (\<lambda>(j, np). p1_Name np = p_Name op) (enumerate 0 news) = Some (j, np)"
    by (auto simp: propertyUpdate_at_def split: option.splits prod.splits)
  with assms find_enumerate_Some [OF f] show ?thesis
    by (intro bexI [of _ np]) (auto simp: propertyUpdate_at_def ValidateImmutableField_def split: if_splits)
qed

lemma validatePropertyUpdate_ok:
  assumes "validatePropertyUpdate news olds path = []" "op \<in> set olds"
  shows "propertyUpdate_at news path op = Some []"
proof -
  from assms(1) have "(\<forall>r\<in>set (map (propertyUpdate_at news path) olds). (case r of None \<Rightarrow> [] | Some es \<Rightarrow> es) = []) \<and>
      None \<notin> set (map (propertyUpdate_at news path) olds)"
    by (auto simp: validatePropertyUpdate_def Let_def list_ex_iff split: if_splits)
  with assms(2) show ?thesis by (cases "propertyUpdate_at news path op") (auto simp: image_iff)
qed

text \<open>
  Compatible updates. When an update of a property set type passes the validation, its name is
  unchanged and every stored property is still in the request, with the same data type, unit and length, and a read-only
  property is still read-only.
\<close>

theorem ValidatePropertySetTypeUpdate_compatible:
  assumes "ValidatePropertySetTypeUpdate new old = []" "op \<in> set (pst_Properties old)"
  shows "pst1_Name new = om_Name old \<and>
    (\<exists>np\<in>set (pst1_Properties new). p1_Name np = p_Name op \<and> p1_Datatype np = p_DataType op \<and> p1_Unit np = p_Unit op \<and>
       p1_Length np = p_Length op \<and> (p_AccessMode op = AccessModeReadOnly \<longrightarrow> p1_AccessMode np = AccessModeReadOnly))"
proof
  from assms(1) have "ValidateImmutableField (pst1_Name new) (om_Name old) ''name'' = []"
    and u: "validatePropertyUpdate (pst1_Properties new) (pst_Properties old) ''properties'' = []"
    by (simp_all add: ValidatePropertySetTypeUpdate_def)
  then show "pst1_Name new = om_Name old" by (simp add: ValidateImmutableField_def split: if_splits)
  show "\<exists>np\<in>set (pst1_Properties new). p1_Name np = p_Name op \<and> p1_Datatype np = p_DataType op \<and> p1_Unit np = p_Unit op \<and>
       p1_Length np = p_Length op \<and> (p_AccessMode op = AccessModeReadOnly \<longrightarrow> p1_AccessMode np = AccessModeReadOnly)"
    by (rule propertyUpdate_ok [OF validatePropertyUpdate_ok [OF u assms(2)]])
qed

theorem ValidatePropertySetTypeUpdate_compatible_witness:
  "let op = \<lparr>p_Name = ''speed'', p_Unit = ''rpm'', p_Length = 0, p_DataType = DataTypeInt, p_AccessMode = 114, p_Min = None, p_Max = None\<rparr>;
       np = \<lparr>p1_Name = ''speed'', p1_Unit = ''rpm'', p1_Length = 0, p1_Datatype = DataTypeInt, p1_AccessMode = 114, p1_Min = None, p1_Max = None\<rparr>;
       old = \<lparr>om_Tenant = ''main'', om_Name = ''E'', om_ID = ''main.E'', om_Version = ''1'', om_ModTime = 1,
              pst_Description = None, pst_Properties = [op]\<rparr>;
       new = \<lparr>pst1_Name = ''E'', pst1_Description = None, pst1_Properties = [np]\<rparr> in
   ValidatePropertySetTypeUpdate new old = [] \<and> (\<exists>np\<in>set (pst1_Properties new). p1_Name np = p_Name op)"
proof -
  let ?op = "\<lparr>p_Name = ''speed'', p_Unit = ''rpm'', p_Length = 0, p_DataType = DataTypeInt, p_AccessMode = 114, p_Min = None, p_Max = None\<rparr>"
  let ?np = "\<lparr>p1_Name = ''speed'', p1_Unit = ''rpm'', p1_Length = 0, p1_Datatype = DataTypeInt, p1_AccessMode = 114, p1_Min = None, p1_Max = None\<rparr>"
  let ?old = "\<lparr>om_Tenant = ''main'', om_Name = ''E'', om_ID = ''main.E'', om_Version = ''1'', om_ModTime = 1,
              pst_Description = None, pst_Properties = [?op]\<rparr>"
  let ?new = "\<lparr>pst1_Name = ''E'', pst1_Description = None, pst1_Properties = [?np]\<rparr>"
  have "ValidatePropertySetTypeUpdate ?new ?old = []"
    by (simp add: ValidatePropertySetTypeUpdate_def ValidateImmutableField_def validatePropertyUpdate_def propertyUpdate_at_def)
  with ValidatePropertySetTypeUpdate_compatible [OF this, of ?op] show ?thesis by (simp add: Let_def)
qed

text \<open>The identifier made from an accepted type name names a file of its own.\<close>

lemma plain_type_id:
  assumes "valid_type_name n"
  shows "plain_elem (''main.'' @ n)"
  using assms by (auto simp: plain_elem_def valid_type_name_def illegalIDChars_def)

end
