(* ===== verification/Handlers.thy ===== *)
theory Handlers
  imports Store
begin

text \<open>
  The HTTP handlers of \<open>src/pkg/generic/endpoints/handlers\<close> over a resource, the interface
  \<open>rest.Interface\<close> of \<open>src/pkg/generic/rest\<close>. The decoded body, the JSON and the patch library are arguments.

  Shown, once for every resource that keeps the contract \<open>versioned_resource\<close>: an update, a patch or a deletion succeeds only
  under the version the client names in \<open>If-Match\<close>; a stale version changes nothing and is answered with 412 or another
  error; which status each error has.
\<close>

datatype 'b body = NoBody | Body 'b | ErrorBody go_error

record 'b http =
  h_status :: nat
  h_etag :: "string option"
  h_body :: "'b body"

record ('s, 'v, 'o) resource =
  r_Create :: "'s \<Rightarrow> 'v \<Rightarrow> 's \<times> (go_error + 'o)"
  r_Get :: "'s \<Rightarrow> string \<Rightarrow> go_error + 'o"
  r_Update :: "'s \<Rightarrow> string \<Rightarrow> 'v \<Rightarrow> string \<Rightarrow> 's \<times> (go_error + 'o)"
  r_Delete :: "'s \<Rightarrow> string \<Rightarrow> string \<Rightarrow> 's \<times> (go_error + 'o)"
  r_Version :: "'o \<Rightarrow> string option"

text \<open>\<open>r_Version\<close> is the version through the accessor; \<open>None\<close> for an object without metadata.\<close>

definition reply :: "nat \<Rightarrow> 'b http" where
  "reply n = \<lparr>h_status = n, h_etag = None, h_body = NoBody\<rparr>"

definition reply_error :: "nat \<Rightarrow> go_error \<Rightarrow> 'b http" where
  "reply_error n err = \<lparr>h_status = n, h_etag = None, h_body = ErrorBody err\<rparr>"

text \<open>\<open>ValidateFunc\<close> and \<open>ValidateUpdateFunc\<close>: the errors of a validation, rendered by \<open>render\<close>, as one coded error.\<close>

definition ValidateFunc :: "('e list \<Rightarrow> string) \<Rightarrow> ('v \<Rightarrow> 'e list) \<Rightarrow> 'v \<Rightarrow> go_error option" where
  "ValidateFunc render validate obj =
     (let errs = validate obj in if length errs \<noteq> 0 then Some (ErrInvalidValue (render errs)) else None)"

definition ValidateUpdateFunc :: "('e list \<Rightarrow> string) \<Rightarrow> ('v \<Rightarrow> 'e list) \<Rightarrow> ('v \<Rightarrow> 'o \<Rightarrow> 'e list) \<Rightarrow> 'v \<Rightarrow> 'o \<Rightarrow> go_error option" where
  "ValidateUpdateFunc render validate validateUpdate obj old =
     (if length (validate obj) \<noteq> 0 then Some (ErrInvalidValue (render (validate obj)))
      else if length (validateUpdate obj old) \<noteq> 0 then Some (ErrInvalidUpdate (render (validateUpdate obj old)))
      else None)"

text \<open>The errors of a creation and of an update; a recovered panic is the status 500.\<close>

definition create_error :: "go_error \<Rightarrow> 'b http" where
  "create_error err =
     (if err = ErrMismatch then reply 412
      else if IsResponseError err then reply_error 400 err else reply 500)"

definition update_error :: "go_error \<Rightarrow> 'b http" where
  "update_error err =
     (if err = ErrNotExist then reply 404
      else if err = ErrMismatch then reply 412
      else if IsResponseError err then reply_error 400 err else reply 500)"

definition delete_error :: "go_error \<Rightarrow> 'b http" where
  "delete_error err =
     (if err = ErrNotExist then reply 404
      else if err = ErrInternal then reply 500
      else if err = ErrMismatch then reply 412
      else if err = ErrWriteConflict then reply 409
      else if IsResponseError err then reply_error 400 err else reply 500)"

definition handle_Create :: "('s, 'v, 'o) resource \<Rightarrow> 's \<Rightarrow> 'v option \<Rightarrow> 's \<times> 'o http" where
  "handle_Create R s b =
     (case b of None \<Rightarrow> (s, reply_error 400 ErrMalformedJSON)
      | Some obj \<Rightarrow>
          (case r_Create R s obj of
             (s', Inl err) \<Rightarrow> (s', create_error err)
           | (s', Inr created) \<Rightarrow> (s', \<lparr>h_status = 201, h_etag = r_Version R created, h_body = Body created\<rparr>)))"

definition handle_Get :: "('s, 'v, 'o) resource \<Rightarrow> 's \<Rightarrow> string \<Rightarrow> string \<Rightarrow> 'o http" where
  "handle_Get R s i ifNoneMatch =
     (case r_Get R s i of
        Inl _ \<Rightarrow> reply 404
      | Inr obj \<Rightarrow>
          (case r_Version R obj of
             Some v \<Rightarrow> if ifNoneMatch = v then reply 304 else \<lparr>h_status = 200, h_etag = Some v, h_body = Body obj\<rparr>
           | None \<Rightarrow> \<lparr>h_status = 200, h_etag = None, h_body = Body obj\<rparr>))"

definition handle_Update :: "('s, 'v, 'o) resource \<Rightarrow> 's \<Rightarrow> string \<Rightarrow> string \<Rightarrow> 'v option \<Rightarrow> 's \<times> 'o http" where
  "handle_Update R s i ifMatch b =
     (if ifMatch = [] then (s, reply 428)
      else case b of None \<Rightarrow> (s, reply_error 400 ErrMalformedJSON)
      | Some obj \<Rightarrow>
          (case r_Update R s i obj ifMatch of
             (s', Inl err) \<Rightarrow> (s', update_error err)
           | (s', Inr updated) \<Rightarrow> (s', \<lparr>h_status = 200, h_etag = r_Version R updated, h_body = Body updated\<rparr>)))"

definition handle_Delete :: "('s, 'v, 'o) resource \<Rightarrow> 's \<Rightarrow> string \<Rightarrow> string \<Rightarrow> 's \<times> 'o http" where
  "handle_Delete R s i ifMatch =
     (if ifMatch = [] then (s, reply 428)
      else case r_Delete R s i ifMatch of
        (s', Inl err) \<Rightarrow> (s', delete_error err)
      | (s', Inr obj) \<Rightarrow> (s', \<lparr>h_status = 200, h_etag = None, h_body = Body obj\<rparr>))"

text \<open>
  \<open>Patch\<close>: the JSON of the stored object, the application of the patch and the decoding of the result are
  the arguments \<open>marshal\<close>, \<open>applyJSPatch\<close> and \<open>decode\<close>; the body is \<open>None\<close> when it cannot be read. Parameters after a semicolon of the content type are
  cut off, unless the semicolon is the first character.
\<close>

definition media_type :: "string \<Rightarrow> string" where
  "media_type ct = (let w = takeWhile (\<lambda>c. c \<noteq> CHR '';'') ct in if w = [] then ct else w)"

definition handle_Patch ::
  "('s, 'v, 'o) resource \<Rightarrow> string list \<Rightarrow> ('o \<Rightarrow> 'j option) \<Rightarrow> (string \<Rightarrow> string \<Rightarrow> 'j \<Rightarrow> go_error + 'j) \<Rightarrow> ('j \<Rightarrow> 'v option) \<Rightarrow>
   's \<Rightarrow> string \<Rightarrow> string \<Rightarrow> string \<Rightarrow> string option \<Rightarrow> 's \<times> 'o http" where
  "handle_Patch R patchTypes marshal applyJSPatch decode s i contentType ifMatch b =
     (if media_type contentType \<notin> set patchTypes then (s, reply 415)
      else if ifMatch = [] then (s, reply 428)
      else case b of None \<Rightarrow> (s, reply 500)
      | Some patch \<Rightarrow>
          (case r_Get R s i of Inl _ \<Rightarrow> (s, reply 404)
           | Inr old \<Rightarrow>
               (case marshal old of None \<Rightarrow> (s, reply 500)
                | Some js \<Rightarrow>
                    (case applyJSPatch (media_type contentType) patch js of
                       Inl err \<Rightarrow> (s, reply_error 400 err)
                     | Inr js' \<Rightarrow>
                         (case decode js' of None \<Rightarrow> (s, reply_error 400 ErrMalformedJSON)
                          | Some obj \<Rightarrow>
                              (case r_Update R s i obj ifMatch of
                                 (s', Inl err) \<Rightarrow> (s', update_error err)
                               | (s', Inr updated) \<Rightarrow> (s', \<lparr>h_status = 200, h_etag = r_Version R updated, h_body = Body updated\<rparr>)))))))"

subsection \<open>Resources that check the version\<close>

lemma error_status:
  "h_status (create_error err) \<in> {400, 412, 500}" "h_status (update_error err) \<in> {400, 404, 412, 500}"
  "h_status (delete_error err) \<in> {400, 404, 409, 412, 500}"
  by (simp_all add: create_error_def update_error_def delete_error_def reply_def reply_error_def)

lemma error_not_ok [simp]: "h_status (update_error err) \<noteq> 200" "h_status (delete_error err) \<noteq> 200"
  by (simp_all add: update_error_def delete_error_def reply_def reply_error_def)

text \<open>
  The contract: \<open>current\<close> is the version a client reads; an operation that does not fail was asked for under this version, and
  one that fails changes nothing \<open>visible\<close>.
\<close>

locale versioned_resource =
  fixes R :: "('s, 'v, 'o) resource"
    and current :: "'s \<Rightarrow> string \<Rightarrow> string option"
    and visible :: "'s \<Rightarrow> 'w"
  assumes update_current: "r_Update R s i obj v = (s', Inr ob) \<Longrightarrow> current s i = Some v"
    and delete_current: "r_Delete R s i v = (s', Inr ob) \<Longrightarrow> current s i = Some v"
    and update_failed: "r_Update R s i obj v = (s', Inl err) \<Longrightarrow> visible s' = visible s"
    and delete_failed: "r_Delete R s i v = (s', Inl err) \<Longrightarrow> visible s' = visible s"
begin

lemma handle_Update_current:
  "handle_Update R s i v b = (s', r) \<Longrightarrow> h_status r = 200 \<Longrightarrow> current s i = Some v"
  by (auto simp: handle_Update_def reply_def reply_error_def split: if_splits option.splits prod.splits sum.splits
      dest: update_current)

lemma handle_Delete_current:
  "handle_Delete R s i v = (s', r) \<Longrightarrow> h_status r = 200 \<Longrightarrow> current s i = Some v"
  by (auto simp: handle_Delete_def reply_def split: if_splits prod.splits sum.splits dest: delete_current)

lemma handle_Update_stale:
  assumes "current s i \<noteq> Some v" "handle_Update R s i v b = (s', r)"
  shows "h_status r \<noteq> 200 \<and> visible s' = visible s"
proof
  show "h_status r \<noteq> 200" using handle_Update_current assms by blast
  show "visible s' = visible s" using assms
    by (auto simp: handle_Update_def split: if_splits option.splits prod.splits sum.splits dest: update_current update_failed)
qed

lemma handle_Delete_stale:
  assumes "current s i \<noteq> Some v" "handle_Delete R s i v = (s', r)"
  shows "h_status r \<noteq> 200 \<and> visible s' = visible s"
proof
  show "h_status r \<noteq> 200" using handle_Delete_current assms by blast
  show "visible s' = visible s" using assms
    by (auto simp: handle_Delete_def split: if_splits prod.splits sum.splits dest: delete_current delete_failed)
qed

lemma handle_Patch_stale:
  assumes "current s i \<noteq> Some v" "handle_Patch R types marshal app dec s i ct v b = (s', r)"
  shows "h_status r \<noteq> 200 \<and> visible s' = visible s"
  using assms
  by (auto simp: handle_Patch_def reply_def reply_error_def split: if_splits option.splits prod.splits sum.splits
      dest: update_current update_failed)

end

end
