(* ===== verification/Property_Set_Types.thy ===== *)
theory Property_Set_Types
  imports Model_Validation Handlers
begin

text \<open>
  The manager of the shared property set types: \<open>src/pkg/model/propertysettype/{manager,rest}.go\<close>. Its state is the
  cache and the files of its store; the clock, the random numbers and the faults of the store are arguments.

  Shown: over every sequence of requests the cache agrees with the store, identifiers
  are the keys and property names are distinct; an update keeps all properties and their types; the ETag guards updates, patches and deletions.
\<close>

definition GetTenant :: string where "GetTenant = ''main''"

record pst_manager =
  pm_cache :: "PropertySetType cache"
  pm_files :: "PropertySetType files"

abbreviation pst_resource_name :: string where
  "pst_resource_name \<equiv> ''propertysettypes''"

definition pst_load :: "PropertySetType files \<Rightarrow> pst_manager" where
  "pst_load fs = \<lparr>pm_cache = foldl (\<lambda>m pst. cache_store (om_ID pst) pst m) [] (LoadResource pst_resource_name fs), pm_files = fs\<rparr>"

definition GetPropertySetTypeById :: "pst_manager \<Rightarrow> string \<Rightarrow> go_error + PropertySetType" where
  "GetPropertySetTypeById m i = (case cache_load (pm_cache m) i of None \<Rightarrow> Inl ErrNotExist | Some pst \<Rightarrow> Inr pst)"

definition GetPropertySetTypes :: "('v \<Rightarrow> NameFilterFunc) \<Rightarrow> pst_manager \<Rightarrow> 'v tenant_filter \<Rightarrow> PropertySetType list" where
  "GetPropertySetTypes dec m f = list_matching (tenant_parseFilter dec f) (pm_cache m)"

definition getPropertySetByName :: "pst_manager \<Rightarrow> string \<Rightarrow> PropertySetType option" where
  "getPropertySetByName m name = find (\<lambda>pst. name = om_Name pst) (cache_values (pm_cache m))"

definition new_property :: "v1_Property \<Rightarrow> Property" where
  "new_property p = \<lparr>p_Name = TrimSpace (p1_Name p), p_Unit = p1_Unit p, p_Length = p1_Length p, p_DataType = p1_Datatype p,
                     p_AccessMode = p1_AccessMode p, p_Min = p1_Min p, p_Max = p1_Max p\<rparr>"

text \<open>
  The saved object is missing only when the object had the zero time, which asks the store for a deletion.
\<close>

definition CreatePropertySetType ::
  "persist_env \<Rightarrow> time \<Rightarrow> nat \<Rightarrow> pst_manager \<Rightarrow> v1_PropertySetType \<Rightarrow> pst_manager \<times> (go_error + PropertySetType)" where
  "CreatePropertySetType e now seed m obj =
     (let i = GetTenant @ ''.'' @ pst1_Name obj in
      case GetPropertySetTypeById m i of
        Inr _ \<Rightarrow> (m, Inl (ErrResourceExists i))
      | Inl _ \<Rightarrow>
          let pst = \<lparr>om_Tenant = GetTenant, om_Name = TrimSpace (pst1_Name obj), om_ID = i,
                     om_Version = FormatInt (int seed), om_ModTime = now, pst_Description = pst1_Description obj,
                     pst_Properties = add_new p_Name new_property (pst1_Properties obj) []\<rparr> in
          case Store_persist pst_resource_name e (pm_files m) pst of
            (fs, Inl err) \<Rightarrow> (m\<lparr>pm_files := fs\<rparr>, Inl err)
          | (fs, Inr None) \<Rightarrow> (m\<lparr>pm_files := fs\<rparr>, Inl GoPanic)
          | (fs, Inr (Some saved)) \<Rightarrow> (\<lparr>pm_cache = cache_store i saved (pm_cache m), pm_files = fs\<rparr>, Inr saved))"

definition upsert_property :: "Property list \<Rightarrow> v1_Property \<Rightarrow> Property list" where
  "upsert_property ps np =
     (let name = TrimSpace (p1_Name np) in
      if by_name p_Name ps name \<noteq> None then
        update_last p_Name name (\<lambda>op. op\<lparr>p_AccessMode := p1_AccessMode np, p_Min := p1_Min np, p_Max := p1_Max np\<rparr>) ps
      else ps @ [new_property np])"

text \<open>\<open>old\<close> is a deep copy of the cached object; the last lookup panics when the object is no longer cached.\<close>

definition updatePropertySetType ::
  "persist_env \<Rightarrow> time \<Rightarrow> pst_manager \<Rightarrow> string \<Rightarrow> v1_PropertySetType \<Rightarrow> PropertySetType \<Rightarrow> pst_manager \<times> (go_error + PropertySetType)" where
  "updatePropertySetType e now m version obj old =
     (if version \<noteq> om_Version old then (m, Inl ErrMismatch)
      else
        let old = old\<lparr>om_ModTime := now, pst_Description := pst1_Description obj,
                      pst_Properties := foldl upsert_property (pst_Properties old) (pst1_Properties obj)\<rparr> in
        case Store_persist pst_resource_name e (pm_files m) old of
          (fs, Inl err) \<Rightarrow> (m\<lparr>pm_files := fs\<rparr>, Inl err)
        | (fs, Inr None) \<Rightarrow> (m\<lparr>pm_files := fs\<rparr>, Inl GoPanic)
        | (fs, Inr (Some saved)) \<Rightarrow>
            (case cache_load (pm_cache m) (om_ID saved) of
               None \<Rightarrow> (m\<lparr>pm_files := fs\<rparr>, Inl GoPanic)
             | Some _ \<Rightarrow> (\<lparr>pm_cache = cache_store (om_ID saved) saved (pm_cache m), pm_files = fs\<rparr>, Inr saved)))"

definition zero_pst :: PropertySetType where
  "zero_pst = \<lparr>om_Tenant = [], om_Name = [], om_ID = [], om_Version = [], om_ModTime = 0, pst_Description = None, pst_Properties = []\<rparr>"

text \<open>\<open>forbid\<close> is the registered \<open>forbidDeletionFunc\<close>, which asks whether a thing type refers to the identifier.\<close>

definition deletePropertySetType ::
  "(string \<Rightarrow> bool) \<Rightarrow> persist_env \<Rightarrow> pst_manager \<Rightarrow> string \<Rightarrow> string \<Rightarrow> pst_manager \<times> (go_error + PropertySetType)" where
  "deletePropertySetType forbid e m i eTag =
     (case cache_load (pm_cache m) i of
        None \<Rightarrow> (m, Inl ErrNotExist)
      | Some pst \<Rightarrow>
          if om_Version pst \<noteq> eTag then (m, Inl ErrMismatch)
          else if forbid i then (m, Inl (ErrAssociateResourceExist i))
          else case Store_persist pst_resource_name e (pm_files m) (zero_pst\<lparr>om_ID := i, om_Version := eTag\<rparr>) of
            (fs, Inl err) \<Rightarrow> (m\<lparr>pm_files := fs\<rparr>, Inl err)
          | (fs, Inr _) \<Rightarrow> (\<lparr>pm_cache = cache_delete i (pm_cache m), pm_files = fs\<rparr>, Inr pst))"

text \<open>
  One event of the watch loop, with what it reports to \<open>updateCacheFunc\<close>. An update only
  adds properties; it does not touch those that are known.
\<close>

datatype cache_event = CacheUpdate PropertySetType | CacheRemove PropertySetType

definition pst_processEvent :: "pst_manager \<Rightarrow> PropertySetType \<Rightarrow> pst_manager \<times> cache_event list" where
  "pst_processEvent m pst =
     (if time_IsZero (om_ModTime pst) then (m\<lparr>pm_cache := cache_delete (om_ID pst) (pm_cache m)\<rparr>, [CacheRemove pst])
      else case cache_load (pm_cache m) (om_ID pst) of
        Some old \<Rightarrow>
          (m\<lparr>pm_cache := cache_store (om_ID pst) (old\<lparr>pst_Properties := add_new p_Name id (pst_Properties pst) (pst_Properties old)\<rparr>) (pm_cache m)\<rparr>,
           [CacheUpdate pst])
      | None \<Rightarrow> (m\<lparr>pm_cache := cache_store (om_ID pst) pst (pm_cache m)\<rparr>, []))"

subsection \<open>The resource\<close>

definition pst_REST_Create where
  "pst_REST_Create render e now seed m obj =
     (case ValidateFunc render ValidatePropertySetType obj of
        Some err \<Rightarrow> (m, Inl err) | None \<Rightarrow> CreatePropertySetType e now seed m obj)"

definition pst_REST_Update where
  "pst_REST_Update render e now m i obj version =
     (case GetPropertySetTypeById m i of
        Inl err \<Rightarrow> (m, Inl err)
      | Inr pst \<Rightarrow>
          (case ValidateUpdateFunc render ValidatePropertySetType ValidatePropertySetTypeUpdate obj pst of
             Some err \<Rightarrow> (m, Inl err)
           | None \<Rightarrow> updatePropertySetType e now m version obj pst))"

definition pst_REST :: "(field_error list \<Rightarrow> string) \<Rightarrow> (string \<Rightarrow> bool) \<Rightarrow> persist_env \<Rightarrow> time \<Rightarrow> nat \<Rightarrow>
    (pst_manager, v1_PropertySetType, PropertySetType) resource" where
  "pst_REST render forbid e now seed =
     \<lparr>r_Create = pst_REST_Create render e now seed, r_Get = GetPropertySetTypeById,
      r_Update = pst_REST_Update render e now, r_Delete = deletePropertySetType forbid e, r_Version = \<lambda>pst. Some (om_Version pst)\<rparr>"

definition pst_version :: "pst_manager \<Rightarrow> string \<Rightarrow> string option" where
  "pst_version m i = map_option om_Version (cache_load (pm_cache m) i)"

lemma update_pst_cases:
  assumes "updatePropertySetType e now m v obj old = (m', res)"
  shows "(\<exists>err. res = Inl err \<and> pm_cache m' = pm_cache m) \<or> (\<exists>saved. res = Inr saved \<and> v = om_Version old)"
  using assms by (auto simp: updatePropertySetType_def Let_def split: if_splits prod.splits sum.splits option.splits)

lemma delete_pst_cases:
  assumes "deletePropertySetType forbid e m i v = (m', res)"
  shows "(\<exists>err. res = Inl err \<and> pm_cache m' = pm_cache m) \<or> (\<exists>pst. res = Inr pst \<and> cache_load (pm_cache m) i = Some pst \<and> om_Version pst = v)"
  using assms by (auto simp: deletePropertySetType_def split: if_splits prod.splits sum.splits option.splits)

interpretation psts: versioned_resource "pst_REST render forbid e now seed" pst_version pm_cache
  for render forbid e now seed
proof
  fix s s' i obj v ob err
  show "pst_version s i = Some v" if "r_Update (pst_REST render forbid e now seed) s i obj v = (s', Inr ob)"
    using that update_pst_cases [of e now s v obj]
    by (fastforce simp: pst_REST_def pst_REST_Update_def pst_version_def GetPropertySetTypeById_def split: option.splits sum.splits)
  show "pst_version s i = Some v" if "r_Delete (pst_REST render forbid e now seed) s i v = (s', Inr ob)"
    using that delete_pst_cases [of forbid e s i v] by (fastforce simp: pst_REST_def pst_version_def)
  show "pm_cache s' = pm_cache s" if "r_Update (pst_REST render forbid e now seed) s i obj v = (s', Inl err)"
    using that update_pst_cases [of e now s v obj]
    by (fastforce simp: pst_REST_def pst_REST_Update_def split: option.splits sum.splits)
  show "pm_cache s' = pm_cache s" if "r_Delete (pst_REST render forbid e now seed) s i v = (s', Inl err)"
    using that delete_pst_cases [of forbid e s i v] by (fastforce simp: pst_REST_def)
qed

text \<open>
  The ETag guards a property set type. A request to update, patch or delete it whose \<open>If-Match\<close> is not the
  version of the cached object is not answered with 200 and leaves the cache unchanged, in every environment.
\<close>

theorem pst_stale_request:
  assumes "pst_version m i \<noteq> Some v"
    and "handle_Update (pst_REST render forbid e now seed) m i v b = (m1, r1)"
    and "handle_Patch (pst_REST render forbid e now seed) types marshal app dec m i ct v pb = (m2, r2)"
    and "handle_Delete (pst_REST render forbid e now seed) m i v = (m3, r3)"
  shows "h_status r1 \<noteq> 200 \<and> h_status r2 \<noteq> 200 \<and> h_status r3 \<noteq> 200 \<and>
    pm_cache m1 = pm_cache m \<and> pm_cache m2 = pm_cache m \<and> pm_cache m3 = pm_cache m"
  using psts.handle_Update_stale [OF assms(1,2)] psts.handle_Patch_stale [OF assms(1,3)]
    psts.handle_Delete_stale [OF assms(1,4)] by simp

theorem pst_stale_request_witness:
  "\<exists>m1 r1. handle_Update (pst_REST (\<lambda>_. []) (\<lambda>_. False) (env_at 1) 5 7) \<lparr>pm_cache = [], pm_files = []\<rparr> ''main.E'' ''1'' None = (m1, r1) \<and>
     h_status r1 \<noteq> 200 \<and> pm_cache m1 = []"
proof -
  let ?m = "\<lparr>pm_cache = [], pm_files = []\<rparr>" and ?R = "pst_REST (\<lambda>_. []) (\<lambda>_. False) (env_at 1) 5 7"
  have "pst_version ?m ''main.E'' \<noteq> Some ''1''" by (simp add: pst_version_def)
  from pst_stale_request [OF this, of "\<lambda>_. []" "\<lambda>_. False" "env_at 1" 5 7 None _ _ "[]" "\<lambda>_. None" "\<lambda>_ _ j. Inr (j :: unit)" "\<lambda>_. None" "[]" None]
  show ?thesis by (metis pst_manager.select_convs(1) surj_pair)
qed

subsection \<open>Updates keep the properties\<close>

text \<open>What no update changes of a property.\<close>

definition signature :: "Property \<Rightarrow> string \<times> string \<times> int \<times> Datatype" where
  "signature p = (p_Name p, p_Unit p, p_Length p, p_DataType p)"

lemma upsert_signature: "\<exists>ys. map signature (upsert_property ps np) = map signature ps @ ys"
proof -
  have "map signature (update_last p_Name n (\<lambda>op. op\<lparr>p_AccessMode := a, p_Min := b, p_Max := c\<rparr>) ps) = map signature ps" for n a b c
    by (rule map_update_last) (simp add: signature_def)
  then show ?thesis by (simp add: upsert_property_def Let_def)
qed

lemma upserts_signature: "\<exists>ys. map signature (foldl upsert_property ps nps) = map signature ps @ ys"
proof (induction nps arbitrary: ps)
  case (Cons np nps)
  obtain ys where "map signature (upsert_property ps np) = map signature ps @ ys" using upsert_signature by blast
  moreover obtain zs where "map signature (foldl upsert_property (upsert_property ps np) nps) = map signature (upsert_property ps np) @ zs"
    using Cons by blast
  ultimately show ?case by simp
qed simp

lemma map_p_Name_signature: "map p_Name ps = map fst (map signature ps)"
  by (simp add: signature_def)

lemma upsert_distinct: "distinct (map p_Name ps) \<Longrightarrow> distinct (map p_Name (upsert_property ps np))"
proof (cases "by_name p_Name ps (TrimSpace (p1_Name np)) = None")
  case True
  moreover assume "distinct (map p_Name ps)"
  ultimately show ?thesis by (auto simp: upsert_property_def by_name_None_iff new_property_def)
next
  case False
  have "map p_Name (update_last p_Name n (\<lambda>op. op\<lparr>p_AccessMode := a, p_Min := b, p_Max := c\<rparr>) ps) = map p_Name ps" for n a b c
    by (rule map_update_last) simp
  moreover assume "distinct (map p_Name ps)"
  ultimately show ?thesis using False by (simp add: upsert_property_def Let_def)
qed

lemma upserts_distinct: "distinct (map p_Name ps) \<Longrightarrow> distinct (map p_Name (foldl upsert_property ps nps))"
  by (induction nps arbitrary: ps) (auto simp: upsert_distinct)

lemma Store_persist_saved_fields:
  "Store_persist r e fs obj = (fs', Inr (Some saved)) \<Longrightarrow> \<exists>v. saved = obj\<lparr>om_Version := v\<rparr>"
  by (auto simp: Store_persist_def FsClient_Create_def FsClient_Update_def Let_def
      split: if_splits prod.splits sum.splits option.splits) (metis ObjectMeta.unfold_congs(4) ObjectMeta.surjective ObjectMeta.update_convs(4))+

text \<open>
  An update never removes or retypes a property. When an update of a property set type succeeds, the
  stored object keeps its identifier and every property, in place, with name, unit, length and data type; new properties come after them.
\<close>

theorem update_keeps_properties:
  assumes "pst_REST_Update render e now m i obj v = (m', Inr saved)" "cache_load (pm_cache m) i = Some old"
  shows "om_ID saved = om_ID old \<and> cache_load (pm_cache m') (om_ID old) = Some saved \<and>
    (\<exists>ys. map signature (pst_Properties saved) = map signature (pst_Properties old) @ ys)"
proof -
  let ?old = "old\<lparr>om_ModTime := now, pst_Description := pst1_Description obj,
                  pst_Properties := foldl upsert_property (pst_Properties old) (pst1_Properties obj)\<rparr>"
  from assms obtain fs where p: "Store_persist pst_resource_name e (pm_files m) ?old = (fs, Inr (Some saved))"
    and m': "m' = \<lparr>pm_cache = cache_store (om_ID saved) saved (pm_cache m), pm_files = fs\<rparr>"
    by (auto simp: pst_REST_Update_def GetPropertySetTypeById_def updatePropertySetType_def Let_def
        split: option.splits if_splits prod.splits sum.splits)
  from Store_persist_saved_fields [OF p] obtain w where "saved = ?old\<lparr>om_Version := w\<rparr>" by blast
  with m' show ?thesis using upserts_signature by simp
qed

text \<open>An engine with a read-only speed, and a request that names it twice, once with a leading space.\<close>

definition engine :: PropertySetType where
  "engine = \<lparr>om_Tenant = ''main'', om_Name = ''Engine'', om_ID = ''main.Engine'', om_Version = ''1'', om_ModTime = 1, pst_Description = None,
     pst_Properties = [\<lparr>p_Name = ''speed'', p_Unit = ''rpm'', p_Length = 0, p_DataType = DataTypeInt, p_AccessMode = AccessModeReadOnly,
                        p_Min = None, p_Max = None\<rparr>]\<rparr>"

definition engine_manager :: pst_manager where
  "engine_manager = \<lparr>pm_cache = [(''main.Engine'', engine)],
     pm_files = [(''propertysettypes/main.Engine'', \<lparr>f_obj = Some engine, f_mtime = 1\<rparr>)]\<rparr>"

definition speed_request :: "string \<Rightarrow> AccessMode \<Rightarrow> v1_Property" where
  "speed_request n am = \<lparr>p1_Name = n, p1_Unit = ''rpm'', p1_Length = 0, p1_Datatype = DataTypeInt, p1_AccessMode = am, p1_Min = None, p1_Max = None\<rparr>"

definition engine_request :: v1_PropertySetType where
  "engine_request = \<lparr>pst1_Name = ''Engine'', pst1_Description = None,
     pst1_Properties = [speed_request ''speed'' AccessModeReadOnly, speed_request '' speed'' AccessModeReadWrite]\<rparr>"

lemma trim_speed: "TrimSpace ''speed'' = ''speed''" "TrimSpace '' speed'' = ''speed''"
  by (simp_all add: TrimSpace_blank TrimSpace_visible visible_def)

lemma engine_request_valid:
  "ValidatePropertySetType engine_request = []" "ValidatePropertySetTypeUpdate engine_request engine = []"
proof -
  have "valid_property_name ''speed''" "valid_property_name '' speed''"
    by (simp_all add: valid_property_name_def illegalPropertyChars_def preservedColumns_def column_length_def is_word_char_def)
  moreover have "valid_type_name ''Engine''"
    by (simp add: valid_type_name_def illegalIDChars_def column_length_def is_word_char_def)
  ultimately show "ValidatePropertySetType engine_request = []"
    by (simp add: ValidatePropertySetType_def engine_request_def speed_request_def ValidateObjectMeta_type_nil_iff
        ValidateDescription_nil_iff validateProperties_nil_iff)
  show "ValidatePropertySetTypeUpdate engine_request engine = []"
    by (simp add: ValidatePropertySetTypeUpdate_def engine_request_def speed_request_def engine_def ValidateImmutableField_def
        validatePropertyUpdate_def propertyUpdate_at_def)
qed

lemma engine_update:
  "\<exists>m' saved. pst_REST_Update (\<lambda>_. []) (env_at 3) 5 engine_manager ''main.Engine'' engine_request ''1'' = (m', Inr saved) \<and>
     map p_AccessMode (pst_Properties saved) = [AccessModeReadWrite]"
proof -
  note v = engine_request_valid
  have ps: "foldl upsert_property (pst_Properties engine) (pst1_Properties engine_request) =
      [\<lparr>p_Name = ''speed'', p_Unit = ''rpm'', p_Length = 0, p_DataType = DataTypeInt, p_AccessMode = AccessModeReadWrite, p_Min = None, p_Max = None\<rparr>]"
    by (simp add: engine_def engine_request_def speed_request_def upsert_property_def trim_speed by_name_def update_last_def)
  have pl: "plain_elem pst_resource_name" "plain_elem ''main.Engine''" by (simp_all add: plain_elem_def)
  then have "filepath_Join pst_resource_name ''main.Engine'' = ''propertysettypes/main.Engine''" by (simp add: filepath_Join_plain)
  then have st: "stored_obj pst_resource_name (pm_files engine_manager) ''main.Engine'' = Some engine"
    using pl by (simp add: stored_obj_def engine_manager_def cache_load_def)
  have ld: "cache_load (pm_cache engine_manager) ''main.Engine'' = Some engine" by (simp add: engine_manager_def cache_load_def)
  have id: "om_ID engine = ''main.Engine''" "om_Version engine = ''1''" by (simp_all add: engine_def)
  let ?old = "engine\<lparr>om_ModTime := 5, pst_Description := pst1_Description engine_request,
                  pst_Properties := foldl upsert_property (pst_Properties engine) (pst1_Properties engine_request)\<rparr>"
  have "stored_obj pst_resource_name (pm_files engine_manager) (om_ID ?old) = Some engine" using st id by simp
  from Store_persist_update [OF pl(1) _ _ _ this, of "env_at 3"] pl(2) id
  obtain fs w where "Store_persist pst_resource_name (env_at 3) (pm_files engine_manager) ?old = (fs, Inr (Some (?old\<lparr>om_Version := w\<rparr>)))"
    by (auto simp: env_at_def time_IsZero_def)
  then show ?thesis using v ld id ps
    by (simp add: pst_REST_Update_def GetPropertySetTypeById_def ValidateUpdateFunc_def updatePropertySetType_def Let_def)
qed

theorem update_keeps_properties_witness:
  "\<exists>m' saved ys. pst_REST_Update (\<lambda>_. []) (env_at 3) 5 engine_manager ''main.Engine'' engine_request ''1'' = (m', Inr saved) \<and>
     map signature (pst_Properties saved) = map signature (pst_Properties engine) @ ys"
proof -
  obtain m' saved where r: "pst_REST_Update (\<lambda>_. []) (env_at 3) 5 engine_manager ''main.Engine'' engine_request ''1'' = (m', Inr saved)"
    using engine_update by blast
  have "cache_load (pm_cache engine_manager) ''main.Engine'' = Some engine" by (simp add: engine_manager_def cache_load_def)
  from update_keeps_properties [OF r this] r show ?thesis by blast
qed

text \<open>
  The protection of a read-only property can be bypassed. The validation compares names as they are sent, the update
  compares them without surrounding spaces: a request that repeats the property with a leading space passes the validation and makes it writable.
\<close>

theorem readonly_bypass:
  "ValidatePropertySetType engine_request = [] \<and> ValidatePropertySetTypeUpdate engine_request engine = [] \<and>
   map p_AccessMode (pst_Properties engine) = [AccessModeReadOnly] \<and>
   (\<exists>m' saved. pst_REST_Update (\<lambda>_. []) (env_at 3) 5 engine_manager ''main.Engine'' engine_request ''1'' = (m', Inr saved) \<and>
      map p_AccessMode (pst_Properties saved) = [AccessModeReadWrite])"
proof (intro conjI)
  show "ValidatePropertySetType engine_request = []" "ValidatePropertySetTypeUpdate engine_request engine = []" by (rule engine_request_valid)+
  show "map p_AccessMode (pst_Properties engine) = [AccessModeReadOnly]" by (simp add: engine_def)
qed (rule engine_update)

subsection \<open>The invariant\<close>

text \<open>
  The cache agrees with the store, whose files are well named, every object is filed under its identifier, which is a plain path element, and its
  property names are distinct.
\<close>

definition pst_inv :: "pst_manager \<Rightarrow> bool" where
  "pst_inv m \<longleftrightarrow> fs_store.coherent pst_resource_name (pm_cache m) (pm_files m) \<and> files_ok pst_resource_name (pm_files m) \<and>
     (\<forall>k pst. cache_load (pm_cache m) k = Some pst \<longrightarrow> om_ID pst = k \<and> plain_elem k \<and> distinct (map p_Name (pst_Properties pst)))"

text \<open>The environments in which the store keeps its contract: no failure after a truncation, of a read or a removal; a clock past the zero time.\<close>

definition env_ok :: "persist_env \<Rightarrow> bool" where
  "env_ok e = (\<not> flt_encode (pe_fault e) \<and> \<not> flt_seek (pe_fault e) \<and> \<not> flt_read (pe_fault e) \<and> \<not> flt_remove (pe_fault e))"

lemma env_ok_admissible: "env_ok e \<Longrightarrow> plain_elem r \<Longrightarrow> plain_elem (om_ID obj) \<Longrightarrow> store_admissible r e obj"
  by (simp add: env_ok_def store_admissible_def)

lemma plain_pst_resource: "plain_elem pst_resource_name"
  by (simp add: plain_elem_def)

text \<open>Sending an object with an identifier that is a plain element, and storing what comes back.\<close>

lemma pst_inv_write:
  assumes inv: "pst_inv m" and e: "env_ok e" and pl: "plain_elem (om_ID obj)" and d: "distinct (map p_Name (pst_Properties obj))"
    and p: "Store_persist pst_resource_name e (pm_files m) obj = (fs, res)" and t: "\<not> time_IsZero (om_ModTime obj)"
  shows "(\<exists>err. res = Inl err \<and> pst_inv (m\<lparr>pm_files := fs\<rparr>)) \<or>
    (\<exists>saved. res = Inr (Some saved) \<and> om_ID saved = om_ID obj \<and>
       pst_inv \<lparr>pm_cache = cache_store (om_ID obj) saved (pm_cache m), pm_files = fs\<rparr>)"
proof -
  have adm: "store_admissible pst_resource_name e obj" by (rule env_ok_admissible [OF e plain_pst_resource pl])
  have coh: "fs_store.coherent pst_resource_name (pm_cache m) (pm_files m)" and "files_ok pst_resource_name fs"
    using inv files_ok_persist [OF _ pl p] by (simp_all add: pst_inv_def)
  note fok = this(2)
  from Store_persist_write [OF adm t p] consider err where "res = Inl err" | saved where "res = Inr (Some saved)" by blast
  then show ?thesis
  proof cases
    case 1
    with inv fok fs_store.coherent_failed [OF coh adm] p show ?thesis by (simp add: pst_inv_def)
  next
    case 2
    with Store_persist_saved_fields p obtain v where s: "saved = obj\<lparr>om_Version := v\<rparr>" by blast
    from fs_store.coherent_saved [OF coh adm] p 2
    have "fs_store.coherent pst_resource_name (cache_store (om_ID obj) saved (pm_cache m)) fs" by simp
    with inv fok s d pl 2 show ?thesis by (simp add: pst_inv_def)
  qed
qed

lemma pst_inv_create:
  assumes "pst_inv m" "env_ok e" "\<not> time_IsZero now" "pst_REST_Create render e now seed m obj = (m', res)"
  shows "pst_inv m'"
proof (cases "ValidateFunc render ValidatePropertySetType obj = None \<and> cache_load (pm_cache m) (GetTenant @ ''.'' @ pst1_Name obj) = None")
  case True
  let ?i = "GetTenant @ ''.'' @ pst1_Name obj"
  let ?pst = "\<lparr>om_Tenant = GetTenant, om_Name = TrimSpace (pst1_Name obj), om_ID = ?i,
                     om_Version = FormatInt (int seed), om_ModTime = now, pst_Description = pst1_Description obj,
                     pst_Properties = add_new p_Name new_property (pst1_Properties obj) []\<rparr>"
  have "ValidatePropertySetType obj = []" using True by (auto simp: ValidateFunc_def Let_def split: if_splits)
  then have "valid_type_name (pst1_Name obj)" by (simp add: ValidatePropertySetType_def ValidateObjectMeta_type_nil_iff)
  then have "plain_elem (om_ID ?pst)" using plain_type_id by (simp add: GetTenant_def)
  moreover have "distinct (map p_Name (pst_Properties ?pst))" by (simp add: add_new_distinct)
  moreover obtain fs r where p: "Store_persist pst_resource_name e (pm_files m) ?pst = (fs, r)" by fastforce
  ultimately show ?thesis
    using pst_inv_write [OF assms(1,2), of ?pst fs r] assms(3,4) True
    by (auto simp: pst_REST_Create_def CreatePropertySetType_def GetPropertySetTypeById_def Let_def)
qed (use assms in \<open>auto simp: pst_REST_Create_def CreatePropertySetType_def GetPropertySetTypeById_def Let_def split: option.splits\<close>)

lemma pst_inv_update:
  assumes "pst_inv m" "env_ok e" "\<not> time_IsZero now" "pst_REST_Update render e now m i obj v = (m', res)"
  shows "pst_inv m'"
proof (cases "\<exists>old. cache_load (pm_cache m) i = Some old \<and> v = om_Version old \<and>
    ValidateUpdateFunc render ValidatePropertySetType ValidatePropertySetTypeUpdate obj old = None")
  case True
  then obtain old where old: "cache_load (pm_cache m) i = Some old" "v = om_Version old"
    "ValidateUpdateFunc render ValidatePropertySetType ValidatePropertySetTypeUpdate obj old = None" by blast
  let ?old = "old\<lparr>om_ModTime := now, pst_Description := pst1_Description obj,
                  pst_Properties := foldl upsert_property (pst_Properties old) (pst1_Properties obj)\<rparr>"
  from old(1) assms(1) have o: "om_ID old = i" "plain_elem i" "distinct (map p_Name (pst_Properties old))"
    by (auto simp: pst_inv_def)
  obtain fs r where p: "Store_persist pst_resource_name e (pm_files m) ?old = (fs, r)" by fastforce
  from pst_inv_write [OF assms(1,2) _ _ p] o assms(3) consider
      err where "r = Inl err" "pst_inv (m\<lparr>pm_files := fs\<rparr>)"
    | saved where "r = Inr (Some saved)" "om_ID saved = i" "pst_inv \<lparr>pm_cache = cache_store i saved (pm_cache m), pm_files = fs\<rparr>"
    by (auto simp: upserts_distinct)
  then show ?thesis
    using assms(4) old p by cases (simp_all add: pst_REST_Update_def GetPropertySetTypeById_def updatePropertySetType_def Let_def)
qed (use assms in \<open>auto simp: pst_REST_Update_def GetPropertySetTypeById_def updatePropertySetType_def split: option.splits\<close>)

lemma pst_inv_delete:
  assumes "pst_inv m" "env_ok e" "deletePropertySetType forbid e m i v = (m', res)"
  shows "pst_inv m'"
proof (cases "\<exists>pst. cache_load (pm_cache m) i = Some pst \<and> om_Version pst = v \<and> \<not> forbid i")
  case True
  then obtain pst where pst: "cache_load (pm_cache m) i = Some pst" "om_Version pst = v" "\<not> forbid i" by blast
  let ?del = "zero_pst\<lparr>om_ID := i, om_Version := v\<rparr>"
  have pl: "plain_elem (om_ID ?del)" using assms(1) pst(1) by (auto simp: pst_inv_def zero_pst_def)
  have adm: "store_admissible pst_resource_name e ?del" by (rule env_ok_admissible [OF assms(2) plain_pst_resource pl])
  have coh: "fs_store.coherent pst_resource_name (pm_cache m) (pm_files m)" using assms(1) by (simp add: pst_inv_def)
  obtain fs r where p: "Store_persist pst_resource_name e (pm_files m) ?del = (fs, r)" by fastforce
  have fok: "files_ok pst_resource_name fs" using assms(1) files_ok_persist [OF _ pl p] by (simp add: pst_inv_def)
  have "time_IsZero (om_ModTime ?del)" by (simp add: zero_pst_def time_IsZero_def)
  from Store_persist_delete [OF plain_pst_resource pl this _ p] assms(2)
  consider err where "r = Inl err" | "r = Inr None" by (auto simp: env_ok_def)
  then show ?thesis
  proof cases
    case 1
    with assms pst p fok fs_store.coherent_failed [OF coh adm] show ?thesis by (auto simp: deletePropertySetType_def pst_inv_def)
  next
    case 2
    with fs_store.coherent_removed [OF coh adm] p
    have "fs_store.coherent pst_resource_name (cache_delete i (pm_cache m)) fs" by (simp add: zero_pst_def)
    with assms pst p fok 2 show ?thesis by (auto simp: deletePropertySetType_def pst_inv_def split: if_splits)
  qed
qed (use assms in \<open>auto simp: deletePropertySetType_def split: option.splits if_splits\<close>)

subsection \<open>Runs\<close>

text \<open>A request with the environment, the clock and the random number it meets.\<close>

datatype pst_request =
    PstCreate v1_PropertySetType
  | PstUpdate string v1_PropertySetType string
  | PstDelete string string

record pst_call =
  pc_env :: persist_env
  pc_now :: time
  pc_seed :: nat
  pc_request :: pst_request

definition pst_call_ok :: "pst_call \<Rightarrow> bool" where
  "pst_call_ok c = (env_ok (pc_env c) \<and> \<not> time_IsZero (pc_now c))"

definition pst_serve :: "(field_error list \<Rightarrow> string) \<Rightarrow> (string \<Rightarrow> bool) \<Rightarrow> pst_manager \<Rightarrow> pst_call \<Rightarrow> pst_manager" where
  "pst_serve render forbid m c =
     (let R = pst_REST render forbid (pc_env c) (pc_now c) (pc_seed c) in
      case pc_request c of
        PstCreate obj \<Rightarrow> fst (handle_Create R m (Some obj))
      | PstUpdate i obj v \<Rightarrow> fst (handle_Update R m i v (Some obj))
      | PstDelete i v \<Rightarrow> fst (handle_Delete R m i v))"

abbreviation pst_empty :: pst_manager where
  "pst_empty \<equiv> \<lparr>pm_cache = [], pm_files = []\<rparr>"

lemma pst_inv_empty: "pst_inv pst_empty"
  by (simp add: pst_inv_def fs_store.coherent_def stored_obj_def fun_eq_iff)

lemma fst_handle:
  "fst (handle_Create R m (Some obj)) = fst (r_Create R m obj)"
  "fst (handle_Update R m i v (Some obj)) = (if v = [] then m else fst (r_Update R m i obj v))"
  "fst (handle_Delete R m i v) = (if v = [] then m else fst (r_Delete R m i v))"
  by (auto simp: handle_Create_def handle_Update_def handle_Delete_def split: prod.splits sum.splits)

lemma pst_inv_serve:
  assumes "pst_inv m" "pst_call_ok c"
  shows "pst_inv (pst_serve render forbid m c)"
proof -
  have "env_ok (pc_env c)" "\<not> time_IsZero (pc_now c)" using assms(2) by (simp_all add: pst_call_ok_def)
  note keep = pst_inv_create [OF assms(1) this prod.collapse [symmetric]] pst_inv_update [OF assms(1) this prod.collapse [symmetric]]
    pst_inv_delete [OF assms(1) this(1) prod.collapse [symmetric]]
  show ?thesis by (cases "pc_request c") (simp_all add: pst_serve_def fst_handle pst_REST_def keep assms(1) Let_def)
qed

lemma pst_inv_run: "pst_inv m \<Longrightarrow> \<forall>c\<in>set cs. pst_call_ok c \<Longrightarrow> pst_inv (foldl (pst_serve render forbid) m cs)"
  by (induction cs arbitrary: m) (simp_all add: pst_inv_serve)


text \<open>Two requests: an engine is created, and deleted with a version it may not have.\<close>

definition engine_calls :: "pst_call list" where
  "engine_calls =
     [\<lparr>pc_env = env_at 3, pc_now = 5, pc_seed = 7, pc_request = PstCreate engine_request\<rparr>,
      \<lparr>pc_env = env_at 4, pc_now = 6, pc_seed = 8, pc_request = PstDelete ''main.Engine'' ''9''\<rparr>]"

lemma engine_calls_ok: "\<forall>c\<in>set engine_calls. pst_call_ok c"
  by (simp add: engine_calls_def pst_call_ok_def env_ok_def env_at_def no_fault_def time_IsZero_def)


text \<open>
  Restart. A manager that loads its store after such a run has the objects the running manager had, up
  to their modification times, which are those of the files.
\<close>

theorem pst_restart:
  assumes "\<forall>c\<in>set cs. pst_call_ok c" and "m = foldl (pst_serve render forbid) pst_empty cs"
  shows "map_option untimed (cache_load (pm_cache (pst_load (pm_files m))) k) = map_option untimed (cache_load (pm_cache m) k)"
proof -
  have inv: "pst_inv m" using pst_inv_run [OF pst_inv_empty assms(1)] by (simp add: assms(2))
  then have c: "cache_load (pm_cache m) = stored_obj pst_resource_name (pm_files m)" by (simp add: pst_inv_def fs_store.coherent_def)
  have "om_ID ob = i" if "stored_obj pst_resource_name (pm_files m) i = Some ob" for i ob
    using that inv by (simp add: pst_inv_def c)
  with inv show ?thesis by (simp add: pst_load_def c reload_stored plain_pst_resource pst_inv_def)
qed

theorem pst_restart_witness:
  "\<exists>m. m = foldl (pst_serve (\<lambda>_. []) (\<lambda>_. False)) pst_empty engine_calls \<and>
     map_option untimed (cache_load (pm_cache (pst_load (pm_files m))) ''main.Engine'') = map_option untimed (cache_load (pm_cache m) ''main.Engine'')"
  using pst_restart [OF engine_calls_ok refl, of "\<lambda>_. []" "\<lambda>_. False" "''main.Engine''"] by blast

end
