(* ===== verification/Thing_Validation.thy ===== *)
theory Thing_Validation
  imports Model_Validation
begin

text \<open>
  The validation of thing types and things, the second half of \<open>src/pkg/model/validation/validation.go\<close>. Whether a text is
  a floating-point number (\<open>strconv.ParseFloat\<close>, with the range of doubles) is the parameter \<open>is_float\<close>.

  Shown: the name of an accepted type makes a plain identifier, its property sets have distinct names and each a type; an accepted
  update of a type keeps name and parent, and of a thing keeps the type and never makes it its own parent.
\<close>

definition ParseBool :: "string \<Rightarrow> bool option" where
  "ParseBool s =
     (if s \<in> set [''1'', ''t'', ''T'', ''true'', ''TRUE'', ''True''] then Some True
      else if s \<in> set [''0'', ''f'', ''F'', ''false'', ''FALSE'', ''False''] then Some False else None)"

definition ValidateCharacteristicValue :: "(string \<Rightarrow> bool) \<Rightarrow> Datatype \<Rightarrow> string \<Rightarrow> int \<Rightarrow> string \<Rightarrow> field_error list" where
  "ValidateCharacteristicValue is_float datatype v len path =
     (if v = [] then []
      else case datatype of
        DataTypeString \<Rightarrow> if int (length v) > len then [TooLong path] else []
      | DataTypeInt \<Rightarrow> if ParseInt v = None then [Invalid path] else []
      | DataTypeLong \<Rightarrow> if ParseInt v = None then [Invalid path] else []
      | DataTypeDouble \<Rightarrow> if \<not> is_float v then [Invalid path] else []
      | DataTypeBoolean \<Rightarrow> if ParseBool v = None then [Invalid path] else [])"

definition validateCharacteristics :: "(string \<Rightarrow> bool) \<Rightarrow> v1_Characteristic list \<Rightarrow> string \<Rightarrow> field_error list" where
  "validateCharacteristics is_float chars path =
     concat (map (\<lambda>(i, c). validatePropertyName (c1_Name c) (child (idx path i) ''name'') @
         ValidateCharacteristicValue is_float (c1_DataType c) (c1_DefaultValue c) (c1_Length c) (child (idx path i) ''defaultValue''))
       (enumerate 0 chars))"

text \<open>Whether a property set names a shared type.\<close>

definition shared_id :: "v1_PropertySet \<Rightarrow> string option" where
  "shared_id ps = (case ps1_PropertySetTypeId ps of Some i \<Rightarrow> if i = [] then None else Some i | None \<Rightarrow> None)"

definition validatePropertySet_at :: "string \<Rightarrow> nat \<Rightarrow> v1_PropertySet \<Rightarrow> field_error list" where
  "validatePropertySet_at path i ps =
     validatePropertyName (ps1_Name ps) (child (idx path i) ''name'') @
     (if shared_id ps = None then
        (case ps1_PropertySetType ps of
           None \<Rightarrow> [Required (idx path i)]
         | Some pst \<Rightarrow>
             let p = child (idx path i) ''propertySetType'' in
             ValidateDescription (pst1_Description pst) (child p ''description'') @
             validateProperties (pst1_Properties pst) (child p ''properties''))
      else [])"

definition validatePropertySets :: "v1_PropertySet list \<Rightarrow> string \<Rightarrow> field_error list" where
  "validatePropertySets pss path =
     distinct_loop ps1_Name (\<lambda>i. child (idx path i) ''name'') (validatePropertySet_at path) [] 0 pss"

definition ValidateThingType :: "(string \<Rightarrow> bool) \<Rightarrow> v1_ThingType \<Rightarrow> field_error list" where
  "ValidateThingType is_float tt =
     ValidateObjectMeta (tt1_Name tt) ValidateTypeName @
     ValidateDescription (tt1_Description tt) ''description'' @
     validateCharacteristics is_float (tt1_Characteristics tt) ''characteristics'' @
     validatePropertySets (tt1_PropertySets tt) ''propertySets''"

definition validateCharacteristicUpdate :: "v1_Characteristic list \<Rightarrow> Characteristic list \<Rightarrow> string \<Rightarrow> field_error list" where
  "validateCharacteristicUpdate newChars oldChars path =
     concat (map (\<lambda>(i, nc). concat (map (\<lambda>oc.
         if c1_Name nc = c_Name oc then
           ValidateImmutableField (c1_DataType nc) (c_DataType oc) (child (idx path i) ''datatype'') @
           ValidateImmutableField (c1_Searchable nc) (c_Searchable oc) (child (idx path i) ''searchable'') @
           (if c1_DataType nc = c_DataType oc \<and> c1_DataType nc = DataTypeString \<and> c1_Length nc < c_Length oc
            then [Invalid (child (idx path i) ''length'')] else [])
         else []) oldChars)) (enumerate 0 newChars))"

text \<open>\<open>props\<close> reads the properties through the pointer to the type of a stored property set.\<close>

definition validatePropertySetUpdate :: "(PropertySet \<Rightarrow> Property list) \<Rightarrow> v1_PropertySet list \<Rightarrow> PropertySet list \<Rightarrow> string \<Rightarrow> field_error list" where
  "validatePropertySetUpdate props newPss oldPss path =
     concat (map (\<lambda>(i, nps). concat (map (\<lambda>ops.
         if ps1_Name nps = ps_Name ops then
           (case (shared_id nps, ps1_PropertySetType nps) of
              (None, Some pst) \<Rightarrow>
                validatePropertyUpdate (pst1_Properties pst) (props ops) (child (child (idx path i) ''propertySetType'') ''properties'')
            | _ \<Rightarrow> [])
         else []) oldPss)) (enumerate 0 newPss))"

definition ValidateThingTypeUpdate :: "(PropertySet \<Rightarrow> Property list) \<Rightarrow> v1_ThingType \<Rightarrow> ThingType \<Rightarrow> field_error list" where
  "ValidateThingTypeUpdate props newTt oldTt =
     ValidateImmutableField (tt1_Name newTt) (om_Name oldTt) ''name'' @
     ValidateImmutableField (tt1_ParentTypeId newTt) (tt_ParentTypeId oldTt) ''parentTypeId'' @
     validateCharacteristicUpdate (tt1_Characteristics newTt) (tt_Characteristics oldTt) ''characteristics'' @
     validatePropertySetUpdate props (tt1_PropertySets newTt) (tt_PropertySets oldTt) ''propertySets''"

definition ValidateThing :: "v1_Thing \<Rightarrow> field_error list" where
  "ValidateThing t =
     ValidateObjectMeta (t1_Name t) ValidateName @
     ValidateDescription (t1_Description t) ''description'' @
     (if t1_TypeId t = [] then [Required ''typeId''] else []) @
     concat (map (\<lambda>(i, n, v).
         (if n = [] then [Required (child (idx ''characteristics'' i) ''name'')] else []) @
         (if v = [] then [Required (child (idx ''characteristics'' i) ''value'')] else []))
       (enumerate 0 (t1_Characteristics t)))"

definition ValidateThingUpdate :: "v1_Thing \<Rightarrow> Thing \<Rightarrow> field_error list" where
  "ValidateThingUpdate newT oldT =
     ValidateImmutableField (t1_TypeId newT) (t_Type oldT) ''typeId'' @
     (if t1_ParentId newT = om_ID oldT then [Invalid ''parentId''] else [])"

subsection \<open>What passes\<close>

lemma ValidateThingType_name: "ValidateThingType is_float tt = [] \<Longrightarrow> valid_type_name (tt1_Name tt)"
  by (simp add: ValidateThingType_def ValidateObjectMeta_type_nil_iff)

lemma ValidateThingType_sets:
  assumes "ValidateThingType is_float tt = []"
  shows "distinct (map ps1_Name (tt1_PropertySets tt)) \<and>
    (\<forall>ps\<in>set (tt1_PropertySets tt). shared_id ps \<noteq> None \<or> ps1_PropertySetType ps \<noteq> None)"
proof -
  from assms have "distinct (map ps1_Name (tt1_PropertySets tt))"
    and "\<forall>k<length (tt1_PropertySets tt). validatePropertySet_at ''propertySets'' k (tt1_PropertySets tt ! k) = []"
    by (simp_all add: ValidateThingType_def validatePropertySets_def distinct_loop_nil_iff)
  then show ?thesis by (auto simp: validatePropertySet_at_def all_set_conv_all_nth split: if_splits option.splits)
qed

lemma ValidateThingTypeUpdate_keeps:
  "ValidateThingTypeUpdate props new old = [] \<Longrightarrow> tt1_Name new = om_Name old \<and> tt1_ParentTypeId new = tt_ParentTypeId old"
  by (simp add: ValidateThingTypeUpdate_def ValidateImmutableField_def split: if_splits)

lemma ValidateThingUpdate_keeps:
  "ValidateThingUpdate new old = [] \<longleftrightarrow> t1_TypeId new = t_Type old \<and> t1_ParentId new \<noteq> om_ID old"
  by (simp add: ValidateThingUpdate_def ValidateImmutableField_def)

end
