(* ===== verification/Forest.thy ===== *)
theory Forest
  imports Go_Strings
begin

text \<open>
  The interface of the two hierarchies of the model service, the parents of things and the parents of thing types: in an
  admissible state the parent relation is finite and has no cycle. It is what makes the loops that walk up to the
  ancestors and the breadth-first searches over the descendants end.
\<close>

locale forest =
  fixes parent :: "'s \<Rightarrow> 'k \<Rightarrow> 'k option" and ok :: "'s \<Rightarrow> bool"
  assumes finite_parents: "ok s \<Longrightarrow> finite (dom (parent s))"
    and acyclic_parents: "ok s \<Longrightarrow> acyclic {(c, p). parent s c = Some p}"
begin

definition up :: "'s \<Rightarrow> ('k \<times> 'k) set" where
  "up s = {(c, p). parent s c = Some p}"

definition descendants :: "'s \<Rightarrow> 'k \<Rightarrow> 'k set" where
  "descendants s p = {c. (c, p) \<in> (up s)\<^sup>+}"

definition rank :: "'s \<Rightarrow> 'k \<Rightarrow> nat" where
  "rank s p = card (descendants s p)"

definition depth :: "'s \<Rightarrow> 'k \<Rightarrow> nat" where
  "depth s c = card {p. (c, p) \<in> (up s)\<^sup>+}"

lemma up_iff: "(c, p) \<in> up s \<longleftrightarrow> parent s c = Some p"
  by (simp add: up_def)

lemma finite_up: "ok s \<Longrightarrow> finite (up s)"
proof -
  assume "ok s"
  then have "finite ((\<lambda>c. (c, the (parent s c))) ` dom (parent s))" using finite_parents by blast
  moreover have "up s \<subseteq> (\<lambda>c. (c, the (parent s c))) ` dom (parent s)" by (force simp: up_def dom_def image_iff)
  ultimately show ?thesis by (rule finite_subset [rotated])
qed

lemma irrefl_up: "ok s \<Longrightarrow> (x, x) \<notin> (up s)\<^sup>+"
  using acyclic_parents by (simp add: up_def acyclic_def)

lemma finite_related: "ok s \<Longrightarrow> finite (descendants s p) \<and> finite {p. (c, p) \<in> (up s)\<^sup>+}"
proof -
  assume "ok s"
  then have fin: "finite ((up s)\<^sup>+)" by (simp add: finite_up)
  have "descendants s p \<subseteq> fst ` (up s)\<^sup>+" "{p. (c, p) \<in> (up s)\<^sup>+} \<subseteq> snd ` (up s)\<^sup>+"
    by (force simp: descendants_def)+
  with fin show ?thesis by (blast intro: finite_subset)
qed

lemma rank_less: "ok s \<Longrightarrow> parent s c = Some p \<Longrightarrow> rank s c < rank s p"
  unfolding rank_def
proof (rule psubset_card_mono)
  assume ok: "ok s" and p: "parent s c = Some p"
  from ok show "finite (descendants s p)" by (simp add: finite_related)
  have "c \<in> descendants s p" "c \<notin> descendants s c" using p irrefl_up [OF ok] by (auto simp: descendants_def up_iff)
  moreover have "descendants s c \<subseteq> descendants s p" using p by (auto simp: descendants_def up_iff intro: trancl_into_trancl)
  ultimately show "descendants s c \<subset> descendants s p" by blast
qed

lemma depth_less: "ok s \<Longrightarrow> parent s c = Some p \<Longrightarrow> depth s p < depth s c"
  unfolding depth_def
proof (rule psubset_card_mono)
  assume ok: "ok s" and p: "parent s c = Some p"
  from ok show "finite {p. (c, p) \<in> (up s)\<^sup>+}" by (simp add: finite_related)
  have "p \<in> {p. (c, p) \<in> (up s)\<^sup>+}" "p \<notin> {q. (p, q) \<in> (up s)\<^sup>+}" using p irrefl_up [OF ok] by (auto simp: up_iff)
  moreover have "{q. (p, q) \<in> (up s)\<^sup>+} \<subseteq> {q. (c, q) \<in> (up s)\<^sup>+}" using p by (auto simp: up_iff intro: trancl_into_trancl2)
  ultimately show "{q. (p, q) \<in> (up s)\<^sup>+} \<subset> {q. (c, q) \<in> (up s)\<^sup>+}" by blast
qed

text \<open>A node and its children, for the searches by levels.\<close>

lemma descendants_unfold: "descendants s p = {c. parent s c = Some p} \<union> (\<Union>c\<in>{c. parent s c = Some p}. descendants s c)"
proof -
  have "(c, p) \<in> (up s)\<^sup>+ \<longleftrightarrow> parent s c = Some p \<or> (\<exists>d. parent s d = Some p \<and> (c, d) \<in> (up s)\<^sup>+)" for c
    unfolding up_iff [symmetric] by (metis trancl.cases trancl.intros)
  then show ?thesis by (auto simp: descendants_def)
qed

lemma descendants_iff: "c \<in> descendants s p \<longleftrightarrow> (\<exists>d. parent s d = Some p \<and> (c = d \<or> c \<in> descendants s d))"
  by (subst descendants_unfold) auto

text \<open>A search over levels: \<open>next\<close> has exactly the children of the nodes of a level.\<close>

lemma levels_end:
  assumes "ok s" and step: "\<And>xs. set (nxt xs) = {c. \<exists>x\<in>set xs. parent s c = Some x}"
  shows "\<exists>n. (nxt ^^ n) xs = []"
proof -
  have "\<exists>n. (nxt ^^ n) xs = []" if "\<forall>x\<in>set xs. rank s x < k" for k xs
    using that
  proof (induction k arbitrary: xs)
    case 0
    then have "(nxt ^^ 0) xs = []" by (cases xs) auto
    then show ?case by blast
  next
    case (Suc k)
    have "\<forall>y\<in>set (nxt xs). rank s y < k" using Suc.prems rank_less [OF assms(1)] by (force simp: step)
    from Suc.IH [OF this] obtain n where "(nxt ^^ n) (nxt xs) = []" by blast
    then have "(nxt ^^ Suc n) xs = []" by (simp only: funpow_Suc_right o_apply)
    then show ?case by blast
  qed
  moreover have "\<forall>x\<in>set xs. rank s x < Suc (sum_list (map (rank s) xs))"
    by (auto simp: less_Suc_eq_le member_le_sum_list)
  ultimately show ?thesis by blast
qed

text \<open>A cycle can only come from a new parent among the node and its descendants.\<close>

lemma acyclic_reparent:
  assumes "ok s" "p \<noteq> i" "p \<notin> descendants s i"
  shows "acyclic {(c, q). (if c = i then Some p else parent s c) = Some q}"
proof -
  have sub: "{(c, q). (if c = i then Some p else parent s c) = Some q} \<subseteq> insert (i, p) (up s)" by (auto simp: up_def split: if_splits)
  have "(p, i) \<notin> (up s)\<^sup>*" using assms(2,3) by (auto simp: descendants_def rtrancl_eq_or_trancl)
  moreover have "acyclic (up s)" using acyclic_parents [OF assms(1)] by (simp add: up_def)
  ultimately have "acyclic (insert (i, p) (up s))" by (simp add: acyclic_insert)
  then show ?thesis by (rule acyclic_subset [OF _ sub])
qed

lemma acyclic_subforest:
  assumes "ok s" "\<And>c p. f c = Some p \<Longrightarrow> parent s c = Some p"
  shows "acyclic {(c, p). f c = Some p}"
  by (rule acyclic_subset [OF acyclic_parents [OF assms(1)]]) (use assms(2) in auto)

text \<open>A new node has no children, so its parent may be any other node.\<close>

lemma acyclic_new:
  assumes "ok s" "\<And>c. parent s c \<noteq> Some i" "q \<noteq> Some i"
  shows "acyclic {(c, p). (if c = i then q else parent s c) = Some p}"
proof (cases q)
  case None
  then show ?thesis by (intro acyclic_subforest [OF assms(1)]) (auto split: if_splits)
next
  case (Some p)
  have "p \<notin> descendants s i" using assms(2) descendants_unfold [of s i] by auto
  with assms(3) Some acyclic_reparent [OF assms(1), of p i] show ?thesis by (simp only: Some option.inject not_False_eq_True)
qed

end

end
