(* ===== verification/Differences.thy ===== *)
theory Differences
  imports Go_Strings "HOL-Library.Word"
begin

unbundle bit_operations_syntax

text \<open>
  The set operations on names of \<open>src/pkg/generic/utils.go\<close>, as the code computes them: a map from
  names to a byte with one bit per side. The order of the results is that of the map's iteration, which
  Go leaves open and no caller relies on; here it is the order in which the names were first met.

  Shown: the three results are the two differences and the intersection of the names, without repetition.
\<close>

definition mark :: "8 word \<Rightarrow> (string, 8 word) smap \<Rightarrow> string \<Rightarrow> (string, 8 word) smap" where
  "mark b m k = cache_store k ((case cache_load m k of Some v \<Rightarrow> v | None \<Rightarrow> 0) OR b) m"

definition DifferenceAndIntersectionStrings :: "string list \<Rightarrow> string list \<Rightarrow> string list \<times> string list \<times> string list" where
  "DifferenceAndIntersectionStrings src des =
     (let m = foldl (mark (push_bit 1 1)) (foldl (mark (push_bit 0 1)) [] src) des;
          a = (\<lambda>v. v AND push_bit 0 1 \<noteq> 0); b = (\<lambda>v. v AND push_bit 1 1 \<noteq> 0) in
      (map fst (filter (\<lambda>(k, v). a v \<and> \<not> b v) m),
       map fst (filter (\<lambda>(k, v). a v \<and> b v) m),
       map fst (filter (\<lambda>(k, v). \<not> a v \<and> b v) m)))"

definition DifferenceAndIntersectionObjects ::
  "'a list \<Rightarrow> 'b list \<Rightarrow> ('a \<Rightarrow> string) \<Rightarrow> ('b \<Rightarrow> string) \<Rightarrow> string list \<times> string list \<times> string list" where
  "DifferenceAndIntersectionObjects src des getSrcKey getDesKey =
     DifferenceAndIntersectionStrings (map getSrcKey src) (map getDesKey des)"

definition DifferenceAndIntersectionSameTypeObjects ::
  "'a list \<Rightarrow> 'a list \<Rightarrow> ('a \<Rightarrow> string) \<Rightarrow> string list \<times> string list \<times> string list" where
  "DifferenceAndIntersectionSameTypeObjects src des get =
     DifferenceAndIntersectionStrings (map get src) (map get des)"

lemma mark_load:
  "cache_load (foldl (mark b) m ks) k =
     (if k \<in> set ks then Some ((case cache_load m k of Some v \<Rightarrow> v | None \<Rightarrow> 0) OR b) else cache_load m k)"
  by (induction ks arbitrary: m) (auto simp: mark_def or.assoc)

lemma mark_ok: "cache_ok m \<Longrightarrow> cache_ok (foldl (mark b) m ks)"
  by (induction ks arbitrary: m) (simp_all add: mark_def cache_ok_store)

lemma cache_ok_distinct: "cache_ok m \<Longrightarrow> distinct (map fst (filter P m))"
  unfolding cache_ok_def by (rule distinct_map_filter)

lemma differences:
  fixes src des
  defines "r \<equiv> DifferenceAndIntersectionStrings src des"
  shows "set (fst r) = set src - set des" "set (fst (snd r)) = set src \<inter> set des" "set (snd (snd r)) = set des - set src"
    "distinct (fst r)" "distinct (fst (snd r))" "distinct (snd (snd r))"
proof -
  let ?m = "foldl (mark 2) (foldl (mark 1) [] src) des"
  have ok: "cache_ok ?m" by (intro mark_ok) simp
  have "cache_load ?m k = (if k \<in> set des then Some (if k \<in> set src then 3 else 2) else if k \<in> set src then Some 1 else None)" for k
    by (simp add: mark_load)
  then have mem: "(k, v) \<in> set ?m \<longleftrightarrow> (if k \<in> set des then v = (if k \<in> set src then 3 else 2) else k \<in> set src \<and> v = 1)" for k v
    unfolding cache_load_set_iff [OF ok, symmetric] by auto
  have sets: "set (map fst (filter (\<lambda>(k, v). P v) ?m)) = {k. \<exists>v. (k, v) \<in> set ?m \<and> P v}" for P
    by (force simp: image_iff)
  have r: "r = (map fst (filter (\<lambda>(k, v). v AND 1 \<noteq> 0 \<and> \<not> v AND 2 \<noteq> 0) ?m), map fst (filter (\<lambda>(k, v). v AND 1 \<noteq> 0 \<and> v AND 2 \<noteq> 0) ?m),
       map fst (filter (\<lambda>(k, v). \<not> v AND 1 \<noteq> 0 \<and> v AND 2 \<noteq> 0) ?m))"
    by (simp add: r_def DifferenceAndIntersectionStrings_def Let_def)
  show "set (fst r) = set src - set des" "set (fst (snd r)) = set src \<inter> set des" "set (snd (snd r)) = set des - set src"
    unfolding r fst_conv snd_conv sets mem by (auto split: if_splits)
  show "distinct (fst r)" "distinct (fst (snd r))" "distinct (snd (snd r))"
    unfolding r fst_conv snd_conv by (rule cache_ok_distinct [OF ok])+
qed

text \<open>
  The comparison of two lists of names returns exactly the names only in the first, in both and only in the
  second, each once.
\<close>

theorem DifferenceAndIntersectionStrings_exact:
  assumes "DifferenceAndIntersectionStrings src des = (onlySrc, intersection, onlyDes)"
  shows "set onlySrc = set src - set des \<and> set intersection = set src \<inter> set des \<and> set onlyDes = set des - set src \<and>
    distinct onlySrc \<and> distinct intersection \<and> distinct onlyDes"
  using assms differences [of src des] by simp

theorem DifferenceAndIntersectionStrings_exact_witness:
  "\<exists>a b c. DifferenceAndIntersectionStrings [''x'', ''y''] [''y'', ''z''] = (a, b, c) \<and> set a = {''x''} \<and> set b = {''y''} \<and> set c = {''z''}"
proof -
  obtain a b c where r: "DifferenceAndIntersectionStrings [''x'', ''y''] [''y'', ''z''] = (a, b, c)" by (metis surj_pair)
  from DifferenceAndIntersectionStrings_exact [OF r] r show ?thesis by auto
qed

end
