(* ===== verification/Thing_Queries.thy ===== *)
theory Thing_Queries
  imports Property_Set_Types Thing_Validation Forest Differences
begin

text \<open>
  The state of the thing manager and its queries: \<open>src/pkg/model/thing/manager.go\<close> (lookups, listings and the walks over
  the two hierarchies) and \<open>src/pkg/model/thing/filter.go\<close>. The loops over parents and children are partial functions: they return
  \<open>None\<close> when the Go loop would not end.

  Shown: in a state whose hierarchies have no cycle every walk ends; the search for a thing below another one is exact; a type
  and a thing see, for every name, the definition of the nearest type above them.
\<close>

record thing_manager =
  tm_types :: "ThingType cache"
  tm_type_files :: "ThingType files"
  tm_things :: "Thing cache"
  tm_thing_files :: "Thing files"
  tm_pstm :: pst_manager

subsection \<open>Thing types\<close>

record 'v ThingTypeFilter =
  ttf_Tenant :: string
  ttf_Id :: string
  ttf_ParentTypeId :: string
  ttf_Name :: "'v name_filter"

definition parseTypeFilter :: "('v \<Rightarrow> NameFilterFunc) \<Rightarrow> 'v ThingTypeFilter \<Rightarrow> (ThingType \<Rightarrow> bool) list" where
  "parseTypeFilter dec f =
     [\<lambda>tt. ttf_Tenant f = om_Tenant tt] @
     (if ttf_Id f \<noteq> [] then [\<lambda>tt. ttf_Id f = om_ID tt] else []) @
     (if ttf_ParentTypeId f \<noteq> [] then [\<lambda>tt. ttf_ParentTypeId f = tt_ParentTypeId tt] else []) @
     name_predicates dec (ttf_Name f) om_Name"

text \<open>\<open>GetThingTypes\<close> and \<open>GetThingTypeById\<close> without explosion.\<close>

definition GetThingTypes :: "('v \<Rightarrow> NameFilterFunc) \<Rightarrow> thing_manager \<Rightarrow> 'v ThingTypeFilter \<Rightarrow> ThingType list" where
  "GetThingTypes dec m f = list_matching (parseTypeFilter dec (f\<lparr>ttf_Tenant := GetTenant\<rparr>)) (tm_types m)"

definition GetThingTypeById :: "thing_manager \<Rightarrow> string \<Rightarrow> go_error + ThingType" where
  "GetThingTypeById m i = (case cache_load (tm_types m) i of None \<Rightarrow> Inl ErrNotExist | Some tt \<Rightarrow> Inr tt)"

definition getThingTypeByName :: "thing_manager \<Rightarrow> string \<Rightarrow> ThingType option" where
  "getThingTypeByName m name = find (\<lambda>tt. name = om_Name tt) (cache_values (tm_types m))"

definition no_names :: "unit \<Rightarrow> NameFilterFunc" where
  "no_names u = \<lparr>Eq = [], In = [], nf_Contains = [], StartsWith = [], EndsWith = []\<rparr>"

definition getTypeChildren :: "thing_manager \<Rightarrow> string \<Rightarrow> ThingType list" where
  "getTypeChildren m typeId = GetThingTypes no_names m \<lparr>ttf_Tenant = [], ttf_Id = [], ttf_ParentTypeId = typeId, ttf_Name = NoName\<rparr>"

definition hasChildThingType :: "thing_manager \<Rightarrow> string \<Rightarrow> bool" where
  "hasChildThingType m i = list_ex (\<lambda>tt. tt_ParentTypeId tt = i) (cache_values (tm_types m))"

definition IsReferredByThingType :: "thing_manager \<Rightarrow> string \<Rightarrow> bool" where
  "IsReferredByThingType m pstID =
     list_ex (\<lambda>tt. list_ex (\<lambda>ps. pst_ref_id (ps_PropertySetType ps) = pstID) (tt_PropertySets tt)) (cache_values (tm_types m))"

partial_function (option) root_loop :: "thing_manager \<Rightarrow> ThingType \<Rightarrow> ThingType option" where
  "root_loop m root =
     (if tt_ParentTypeId root = [] then Some root
      else case cache_load (tm_types m) (tt_ParentTypeId root) of
        None \<Rightarrow> Some root | Some tt \<Rightarrow> root_loop m tt)"

definition GetRootThingType :: "thing_manager \<Rightarrow> string \<Rightarrow> ThingType option option" where
  "GetRootThingType m i =
     (case cache_load (tm_types m) i of None \<Rightarrow> Some None | Some tt \<Rightarrow> map_option Some (root_loop m tt))"

partial_function (option) explode_loop ::
  "thing_manager \<Rightarrow> string \<Rightarrow> Characteristic list \<Rightarrow> PropertySet list \<Rightarrow> (Characteristic list \<times> PropertySet list) option" where
  "explode_loop m i cs pss =
     (if i = [] then Some (cs, pss)
      else case cache_load (tm_types m) i of
        None \<Rightarrow> Some (cs, pss)
      | Some ptt \<Rightarrow> explode_loop m (tt_ParentTypeId ptt) (add_new c_Name (\<lambda>c. c) (tt_Characteristics ptt) cs)
                     (add_new ps_Name (\<lambda>ps. ps) (tt_PropertySets ptt) pss))"

definition explodeThingType :: "thing_manager \<Rightarrow> ThingType \<Rightarrow> ThingType option" where
  "explodeThingType m tt =
     (if tt_ParentTypeId tt = [] then Some tt
      else map_option (\<lambda>(cs, pss). tt\<lparr>om_ModTime := 0, tt_Characteristics := cs, tt_PropertySets := pss\<rparr>)
             (explode_loop m (om_ID tt) [] []))"

subsection \<open>Things\<close>

record 'v thingFilter =
  thf_Tenant :: string
  thf_Id :: string
  thf_TypeId :: string
  thf_ParentId :: string
  thf_Name :: "'v name_filter"
  thf_HasType :: string

definition thing_predicates :: "('v \<Rightarrow> NameFilterFunc) \<Rightarrow> 'v thingFilter \<Rightarrow> (Thing \<Rightarrow> bool) list" where
  "thing_predicates dec f =
     [\<lambda>t. thf_Tenant f = om_Tenant t] @
     (if thf_Id f \<noteq> [] then [\<lambda>t. thf_Id f = om_ID t] else []) @
     (if thf_TypeId f \<noteq> [] then [\<lambda>t. thf_TypeId f = t_Type t] else []) @
     (if thf_ParentId f \<noteq> [] then [\<lambda>t. t_Parent t = Some (thf_ParentId f)] else []) @
     name_predicates dec (thf_Name f) om_Name"

partial_function (option) hasType_loop :: "thing_manager \<Rightarrow> ThingType list \<Rightarrow> ThingType list \<Rightarrow> ThingType list option" where
  "hasType_loop m rtts ctts =
     (if ctts = [] then Some rtts
      else let tts = concat (map (\<lambda>tt. getTypeChildren m (om_ID tt)) ctts) in hasType_loop m (rtts @ tts) tts)"

text \<open>A \<open>HasType\<close> that names no type adds no predicate.\<close>

definition hasType_predicates :: "thing_manager \<Rightarrow> string \<Rightarrow> (Thing \<Rightarrow> bool) list option" where
  "hasType_predicates m i =
     (if i = [] then Some []
      else case cache_load (tm_types m) i of
        None \<Rightarrow> Some []
      | Some self \<Rightarrow>
          let tts = getTypeChildren m i in
          map_option (\<lambda>rtts. [\<lambda>t. list_ex (\<lambda>tt. t_Type t = om_ID tt) rtts]) (hasType_loop m ([self] @ tts) tts))"

definition thing_parseFilter :: "('v \<Rightarrow> NameFilterFunc) \<Rightarrow> thing_manager \<Rightarrow> 'v thingFilter \<Rightarrow> (Thing \<Rightarrow> bool) list option" where
  "thing_parseFilter dec m f = map_option (\<lambda>ps. thing_predicates dec f @ ps) (hasType_predicates m (thf_HasType f))"

definition GetThings :: "('v \<Rightarrow> NameFilterFunc) \<Rightarrow> thing_manager \<Rightarrow> 'v thingFilter \<Rightarrow> Thing list option" where
  "GetThings dec m f =
     map_option (\<lambda>ps. list_matching ps (tm_things m)) (thing_parseFilter dec m (f\<lparr>thf_Tenant := GetTenant\<rparr>))"

definition no_filter :: "unit thingFilter" where
  "no_filter = \<lparr>thf_Tenant = [], thf_Id = [], thf_TypeId = [], thf_ParentId = [], thf_Name = NoName, thf_HasType = []\<rparr>"

text \<open>The two listings the manager makes itself, by type and by parent; \<open>GetThings_static\<close> below shows they are calls of \<open>GetThings\<close>.\<close>

definition static_things :: "thing_manager \<Rightarrow> unit thingFilter \<Rightarrow> Thing list" where
  "static_things m f = list_matching (thing_predicates no_names (f\<lparr>thf_Tenant := GetTenant\<rparr>)) (tm_things m)"

abbreviation things_of_type :: "thing_manager \<Rightarrow> string \<Rightarrow> Thing list" where
  "things_of_type m i \<equiv> static_things m (no_filter\<lparr>thf_TypeId := i\<rparr>)"

abbreviation child_things :: "thing_manager \<Rightarrow> string \<Rightarrow> Thing list" where
  "child_things m i \<equiv> static_things m (no_filter\<lparr>thf_ParentId := i\<rparr>)"

definition GetThingById :: "thing_manager \<Rightarrow> string \<Rightarrow> go_error + Thing" where
  "GetThingById m i = (case cache_load (tm_things m) i of None \<Rightarrow> Inl ErrNotExist | Some t \<Rightarrow> Inr t)"

definition getThingByName :: "thing_manager \<Rightarrow> string \<Rightarrow> Thing option" where
  "getThingByName m name = find (\<lambda>t. name = om_Name t) (cache_values (tm_things m))"

text \<open>One level of the search: a match anywhere in the level ends it.\<close>

partial_function (option) isMyChild_loop :: "thing_manager \<Rightarrow> string \<Rightarrow> Thing list \<Rightarrow> bool option" where
  "isMyChild_loop m i children =
     (if children = [] then Some False
      else if list_ex (\<lambda>child. om_ID child = i) children then Some True
      else isMyChild_loop m i (concat (map (\<lambda>child. child_things m (om_ID child)) children)))"

definition isMyChildThing :: "thing_manager \<Rightarrow> string \<Rightarrow> string \<Rightarrow> bool option" where
  "isMyChildThing m mySelf i = isMyChild_loop m i (child_things m mySelf)"

text \<open>The names a thing inherits, each with the identifier of the type that defines it.\<close>

definition inherit_names :: "string \<Rightarrow> string list \<Rightarrow> (string, string) smap \<Rightarrow> (string, string) smap" where
  "inherit_names i ns acc = foldl (\<lambda>a n. if cache_load a n = None then cache_store n i a else a) acc ns"

partial_function (option) inherit_loop ::
  "thing_manager \<Rightarrow> string \<Rightarrow> (string, string) smap \<Rightarrow> (string, string) smap \<Rightarrow> ((string, string) smap \<times> (string, string) smap) option" where
  "inherit_loop m typeId cs pss =
     (if typeId = [] then Some (cs, pss)
      else case cache_load (tm_types m) typeId of
        None \<Rightarrow> Some (cs, pss)
      | Some tt \<Rightarrow> inherit_loop m (tt_ParentTypeId tt) (inherit_names typeId (map c_Name (tt_Characteristics tt)) cs)
                    (inherit_names typeId (map ps_Name (tt_PropertySets tt)) pss))"

definition inheritCharacteristicAndPropertySet :: "thing_manager \<Rightarrow> Thing \<Rightarrow> Thing option" where
  "inheritCharacteristicAndPropertySet m t =
     map_option (\<lambda>(cs, pss). t\<lparr>t_CharacteristicByName := cs, t_PropertySetByName := pss\<rparr>)
       (inherit_loop m (t_Type t) (t_CharacteristicByName t) (t_PropertySetByName t))"

lemma GetThings_static: "thf_HasType f = [] \<Longrightarrow> GetThings no_names m f = Some (static_things m f)"
  by (simp add: GetThings_def thing_parseFilter_def hasType_predicates_def static_things_def)

subsection \<open>The hierarchy of things\<close>

definition thing_parent :: "thing_manager \<Rightarrow> string \<Rightarrow> string option" where
  "thing_parent m c = Option.bind (cache_load (tm_things m) c) t_Parent"

definition things_ok :: "thing_manager \<Rightarrow> bool" where
  "things_ok m \<longleftrightarrow> cache_ok (tm_things m) \<and>
     (\<forall>k t. cache_load (tm_things m) k = Some t \<longrightarrow> om_ID t = k \<and> k \<noteq> [] \<and> om_Tenant t = GetTenant) \<and>
     acyclic {(c, p). thing_parent m c = Some p}"

lemma things_okD:
  "things_ok m \<Longrightarrow> cache_load (tm_things m) k = Some t \<Longrightarrow> om_ID t = k \<and> k \<noteq> [] \<and> om_Tenant t = GetTenant"
  by (simp add: things_ok_def)

lemma finite_bind_dom: "finite (dom (\<lambda>c. Option.bind (cache_load m c) f))"
proof (rule finite_subset)
  show "dom (\<lambda>c. Option.bind (cache_load m c) f) \<subseteq> dom (map_of m)" by (auto simp: cache_load_def bind_eq_Some_conv)
qed (rule finite_dom_map_of)

lemma finite_thing_parent: "finite (dom (thing_parent m))"
  unfolding thing_parent_def by (rule finite_bind_dom)

interpretation thing_tree: forest thing_parent things_ok
  by unfold_locales (simp_all add: things_ok_def finite_thing_parent)

lemma child_things_set:
  assumes "things_ok m" "i \<noteq> []"
  shows "t \<in> set (child_things m i) \<longleftrightarrow> cache_load (tm_things m) (om_ID t) = Some t \<and> t_Parent t = Some i"
proof -
  have ok: "cache_ok (tm_things m)" using assms(1) by (simp add: things_ok_def)
  have obj: "om_ID t = k \<and> om_Tenant t = GetTenant" if "(k, t) \<in> set (tm_things m)" for k t
    using assms(1) cache_load_of_set [OF ok that] by (auto simp: things_ok_def)
  have "t \<in> set (cache_values (tm_things m)) \<and> om_Tenant t = GetTenant \<longleftrightarrow> (om_ID t, t) \<in> set (tm_things m)"
    using obj by (force simp: cache_values_set image_iff)
  then have "t \<in> set (cache_values (tm_things m)) \<and> om_Tenant t = GetTenant \<longleftrightarrow> cache_load (tm_things m) (om_ID t) = Some t"
    by (simp add: cache_load_set_iff [OF ok])
  then show ?thesis using assms(2)
    by (auto simp: static_things_def set_list_matching thing_predicates_def no_filter_def name_predicates_def matches_def)
qed

lemma child_things_ids:
  "things_ok m \<Longrightarrow> i \<noteq> [] \<Longrightarrow> om_ID ` set (child_things m i) = {c. thing_parent m c = Some i}"
proof -
  assume ok: "things_ok m" and i: "i \<noteq> []"
  have "c \<in> om_ID ` set (child_things m i)" if "cache_load (tm_things m) c = Some t" "t_Parent t = Some i" for c t
  proof -
    from ok that(1) have "om_ID t = c" by (simp add: things_ok_def)
    with that show ?thesis by (auto simp: image_iff child_things_set [OF ok i])
  qed
  then show ?thesis by (auto simp: child_things_set [OF ok i] thing_parent_def bind_eq_Some_conv)
qed

lemma isMyChild_loop_exact:
  assumes ok: "things_ok m"
  shows "\<forall>t\<in>set ts. om_ID t \<noteq> [] \<and> thing_tree.rank m (om_ID t) < n \<Longrightarrow>
    isMyChild_loop m i ts = Some (\<exists>t\<in>set ts. i = om_ID t \<or> i \<in> thing_tree.descendants m (om_ID t))"
proof (induction n arbitrary: ts)
  case 0
  then have "ts = []" by (cases ts) auto
  then show ?case by (simp add: isMyChild_loop.simps)
next
  case (Suc n)
  let ?next = "concat (map (\<lambda>child. child_things m (om_ID child)) ts)"
  have ids: "om_ID ` set ?next = {c. \<exists>t\<in>set ts. thing_parent m c = Some (om_ID t)}"
    using Suc.prems child_things_ids [OF ok] by (auto simp: image_UN)
  have "om_ID u \<noteq> [] \<and> thing_tree.rank m (om_ID u) < n" if "u \<in> set ?next" for u
  proof -
    from that obtain t where t: "t \<in> set ts" "u \<in> set (child_things m (om_ID t))" by auto
    have ne: "om_ID t \<noteq> []" using Suc.prems t(1) by blast
    from t(2) have u: "cache_load (tm_things m) (om_ID u) = Some u" "t_Parent u = Some (om_ID t)"
      by (simp_all add: child_things_set [OF ok ne])
    then have "thing_parent m (om_ID u) = Some (om_ID t)" by (simp add: thing_parent_def)
    from thing_tree.rank_less [OF ok this] have "thing_tree.rank m (om_ID u) < thing_tree.rank m (om_ID t)" .
    moreover have "thing_tree.rank m (om_ID t) < Suc n" using Suc.prems t(1) by blast
    moreover have "om_ID u \<noteq> []" using things_okD [OF ok u(1)] by blast
    ultimately show ?thesis by linarith
  qed
  then have IH: "isMyChild_loop m i ?next = Some (\<exists>u\<in>set ?next. i = om_ID u \<or> i \<in> thing_tree.descendants m (om_ID u))"
    by (intro Suc.IH) blast
  have "(\<exists>u\<in>set ?next. i = om_ID u \<or> i \<in> thing_tree.descendants m (om_ID u)) \<longleftrightarrow> (\<exists>c\<in>om_ID ` set ?next. i = c \<or> i \<in> thing_tree.descendants m c)"
    by blast
  also have "\<dots> \<longleftrightarrow> (\<exists>t\<in>set ts. \<exists>c. thing_parent m c = Some (om_ID t) \<and> (i = c \<or> i \<in> thing_tree.descendants m c))"
    unfolding ids by blast
  also have "\<dots> \<longleftrightarrow> (\<exists>t\<in>set ts. i \<in> thing_tree.descendants m (om_ID t))"
    by (simp only: thing_tree.descendants_iff [symmetric])
  finally show ?case using IH by (subst isMyChild_loop.simps) (auto simp: list_ex_iff)
qed

lemma isMyChildThing_returns:
  assumes "things_ok m" "s \<noteq> []"
  shows "isMyChildThing m s i = Some (i \<in> thing_tree.descendants m s)"
proof -
  let ?ts = "child_things m s"
  have "om_ID t \<noteq> []" if "t \<in> set ?ts" for t
    using that assms by (auto simp: child_things_set things_ok_def)
  moreover have "thing_tree.rank m (om_ID t) < Suc (sum_list (map (\<lambda>t. thing_tree.rank m (om_ID t)) ?ts))" if "t \<in> set ?ts" for t
    using that by (simp add: less_Suc_eq_le member_le_sum_list)
  ultimately have "isMyChildThing m s i = Some (\<exists>t\<in>set ?ts. i = om_ID t \<or> i \<in> thing_tree.descendants m (om_ID t))"
    unfolding isMyChildThing_def by (intro isMyChild_loop_exact [OF assms(1)]) blast
  also have "(\<exists>t\<in>set ?ts. i = om_ID t \<or> i \<in> thing_tree.descendants m (om_ID t)) \<longleftrightarrow> (\<exists>c\<in>om_ID ` set ?ts. i = c \<or> i \<in> thing_tree.descendants m c)"
    by blast
  also have "\<dots> \<longleftrightarrow> i \<in> thing_tree.descendants m s"
    unfolding child_things_ids [OF assms] thing_tree.descendants_iff [of i m s] by blast
  finally show ?thesis .
qed

text \<open>
  C30: the search of the cycle check. When no thing is above itself, the breadth-first search ends and answers exactly
  whether a thing is below another one, over any number of levels.
\<close>

theorem isMyChildThing_exact:
  assumes "things_ok m" "s \<noteq> []"
  shows "isMyChildThing m s i = Some ((i, s) \<in> {(c, p). \<exists>t. cache_load (tm_things m) c = Some t \<and> t_Parent t = Some p}\<^sup>+)"
proof -
  have "thing_tree.up m = {(c, p). \<exists>t. cache_load (tm_things m) c = Some t \<and> t_Parent t = Some p}"
    by (auto simp: thing_tree.up_def thing_parent_def bind_eq_Some_conv)
  then show ?thesis by (simp add: isMyChildThing_returns [OF assms] thing_tree.descendants_def)
qed

text \<open>A pump in a plant.\<close>

definition some_thing :: "string \<Rightarrow> string option \<Rightarrow> Thing" where
  "some_thing i p = \<lparr>om_Tenant = ''main'', om_Name = i, om_ID = i, om_Version = ''1'', om_ModTime = 1, t_Description = None,
     t_Type = ''main.Pump'', t_Parent = p, t_TimeZone = None, t_Characteristics = [], t_CharacteristicByName = [], t_PropertySetByName = []\<rparr>"

definition plant :: thing_manager where
  "plant = \<lparr>tm_types = [], tm_type_files = [], tm_things = [(''plant'', some_thing ''plant'' None), (''pump'', some_thing ''pump'' (Some ''plant''))],
     tm_thing_files = [], tm_pstm = pst_empty\<rparr>"

lemma plant_load: "cache_load (tm_things plant) k = Some t \<longleftrightarrow>
    k = ''plant'' \<and> t = some_thing ''plant'' None \<or> k = ''pump'' \<and> t = some_thing ''pump'' (Some ''plant'')"
  by (auto simp: plant_def cache_load_def)

lemma plant_up: "{(c, p). \<exists>t. cache_load (tm_things plant) c = Some t \<and> t_Parent t = Some p} = {(''pump'', ''plant'')}"
proof -
  have "t_Parent (some_thing i p) = p" for i p by (simp add: some_thing_def)
  then show ?thesis unfolding plant_load by auto
qed

lemma plant_ok: "things_ok plant"
proof -
  have "{(c, p). thing_parent plant c = Some p} = {(''pump'', ''plant'')}"
    using plant_up by (simp add: thing_parent_def bind_eq_Some_conv)
  moreover have "acyclic {(''pump'', ''plant'')}" by (simp add: acyclic_insert wf_acyclic)
  moreover have "cache_ok (tm_things plant)" by (simp add: plant_def cache_ok_def)
  ultimately show ?thesis unfolding things_ok_def plant_load by (simp add: some_thing_def GetTenant_def)
qed

theorem isMyChildThing_exact_witness:
  "isMyChildThing plant ''plant'' ''pump'' = Some True"
  using isMyChildThing_exact [OF plant_ok, of "''plant''" "''pump''"] unfolding plant_up by auto

end
