(* ===== verification/Thing_Inheritance.thy ===== *)
theory Thing_Inheritance
  imports Thing_Queries
begin

text \<open>
  The hierarchy of thing types and what is inherited along it (\<open>explodeThingType\<close>, \<open>GetRootThingType\<close>, the \<open>HasType\<close>
  filter and \<open>inheritCharacteristicAndPropertySet\<close> of \<open>src/pkg/model/thing\<close>).

  Shown: on a hierarchy without cycles all of them return; an exploded type has, for every name, the definition of the nearest type that
  has one, and a thing inherits the same; \<open>HasType\<close> lets through exactly the things of a type and of the types below it.
\<close>

definition type_parent :: "thing_manager \<Rightarrow> string \<Rightarrow> string option" where
  "type_parent m c = Option.bind (cache_load (tm_types m) c) (\<lambda>tt. if tt_ParentTypeId tt = [] then None else Some (tt_ParentTypeId tt))"

definition type_names_ok :: "ThingType \<Rightarrow> bool" where
  "type_names_ok tt \<longleftrightarrow> distinct (map c_Name (tt_Characteristics tt)) \<and> distinct (map ps_Name (tt_PropertySets tt))"

definition types_ok :: "thing_manager \<Rightarrow> bool" where
  "types_ok m \<longleftrightarrow> cache_ok (tm_types m) \<and>
     (\<forall>k tt. cache_load (tm_types m) k = Some tt \<longrightarrow> om_ID tt = k \<and> k \<noteq> [] \<and> om_Tenant tt = GetTenant \<and> type_names_ok tt) \<and>
     acyclic {(c, p). type_parent m c = Some p}"

lemma types_okD:
  "types_ok m \<Longrightarrow> cache_load (tm_types m) k = Some tt \<Longrightarrow> om_ID tt = k \<and> k \<noteq> [] \<and> om_Tenant tt = GetTenant \<and> type_names_ok tt"
  by (simp add: types_ok_def)

lemma finite_type_parent: "finite (dom (type_parent m))"
  unfolding type_parent_def by (rule finite_bind_dom)

interpretation type_tree: forest type_parent types_ok
  by unfold_locales (simp_all add: types_ok_def finite_type_parent)

lemma type_parentI:
  "cache_load (tm_types m) c = Some tt \<Longrightarrow> tt_ParentTypeId tt \<noteq> [] \<Longrightarrow> type_parent m c = Some (tt_ParentTypeId tt)"
  by (simp add: type_parent_def)

text \<open>Walking up: induction over a type and its ancestors.\<close>

lemma type_walk:
  assumes ok: "types_ok m"
    and stop: "\<And>i. i = [] \<or> cache_load (tm_types m) i = None \<Longrightarrow> P i"
    and step: "\<And>i tt. i \<noteq> [] \<Longrightarrow> cache_load (tm_types m) i = Some tt \<Longrightarrow> P (tt_ParentTypeId tt) \<Longrightarrow> P i"
  shows "P i"
proof (induction "type_tree.depth m i" arbitrary: i rule: less_induct)
  case less
  show ?case
  proof (cases "cache_load (tm_types m) i")
    case (Some tt)
    then have i: "i \<noteq> []" using types_okD [OF ok] by blast
    show ?thesis
    proof (cases "tt_ParentTypeId tt = []")
      case True
      with stop show ?thesis by (intro step [OF i Some]) simp
    next
      case False
      from type_tree.depth_less [OF ok type_parentI [OF Some False]] less show ?thesis by (blast intro: step [OF i Some])
    qed
  qed (simp add: stop)
qed

subsection \<open>The nearest definition\<close>

text \<open>\<open>nearest m names i n j\<close>: \<open>j\<close> is the first type from \<open>i\<close> upwards among whose names is \<open>n\<close>.\<close>

inductive nearest :: "thing_manager \<Rightarrow> (ThingType \<Rightarrow> string list) \<Rightarrow> string \<Rightarrow> string \<Rightarrow> string \<Rightarrow> bool"
  for m names where
  here: "cache_load (tm_types m) i = Some tt \<Longrightarrow> n \<in> set (names tt) \<Longrightarrow> nearest m names i n i"
| above: "cache_load (tm_types m) i = Some tt \<Longrightarrow> n \<notin> set (names tt) \<Longrightarrow> nearest m names (tt_ParentTypeId tt) n j \<Longrightarrow> nearest m names i n j"

inductive_cases nearestE: "nearest m names i n j"

abbreviation char_names :: "ThingType \<Rightarrow> string list" where "char_names tt \<equiv> map c_Name (tt_Characteristics tt)"
abbreviation set_names :: "ThingType \<Rightarrow> string list" where "set_names tt \<equiv> map ps_Name (tt_PropertySets tt)"

lemma nearest_stop: "cache_load (tm_types m) i = None \<Longrightarrow> \<not> nearest m names i n j"
  by (auto elim: nearestE)

lemma nearest_step:
  "cache_load (tm_types m) i = Some tt \<Longrightarrow>
     nearest m names i n j \<longleftrightarrow> (if n \<in> set (names tt) then j = i else nearest m names (tt_ParentTypeId tt) n j)"
  by (auto elim: nearestE intro: nearest.intros)

text \<open>What the loops add: the elements of a list whose name is new.\<close>

lemma by_name_snoc: "by_name nm (xs @ [x]) n = (if nm x = n then Some x else by_name nm xs n)"
  by (simp add: by_name_def)

lemma by_name_Cons: "nm x \<notin> nm ` set xs \<Longrightarrow> by_name nm (x # xs) n = (if nm x = n then Some x else by_name nm xs n)"
proof -
  assume x: "nm x \<notin> nm ` set xs"
  have "find P (ys @ zs) = (case find P ys of None \<Rightarrow> find P zs | Some y \<Rightarrow> Some y)" for P and ys zs :: "'a list"
    by (induction ys) auto
  moreover have "find (\<lambda>y. nm y = nm x) (rev xs) = None" using x by (simp add: find_None_iff) (metis image_eqI)
  ultimately show ?thesis by (auto simp: by_name_def split: option.splits)
qed

lemma by_name_add_new:
  "distinct (map nm xs) \<Longrightarrow>
     by_name nm (add_new nm (\<lambda>x. x) xs acc) n = (case by_name nm acc n of Some c \<Rightarrow> Some c | None \<Rightarrow> by_name nm xs n)"
proof (induction xs arbitrary: acc)
  case Nil
  then show ?case by (simp add: by_name_def split: option.split)
next
  case (Cons x xs)
  then have x: "nm x \<notin> nm ` set xs" "distinct (map nm xs)" by auto
  show ?case
    using Cons.IH [OF x(2)] by (auto simp: by_name_snoc by_name_Cons [OF x(1)] split: option.splits)
qed

lemma cache_load_inherit_names:
  "cache_load (inherit_names i ns acc) n =
     (case cache_load acc n of Some j \<Rightarrow> Some j | None \<Rightarrow> if n \<in> set ns then Some i else None)"
  by (induction ns arbitrary: acc) (auto simp: inherit_names_def split: option.splits)

text \<open>The definition found from \<open>i\<close> upwards.\<close>

definition found :: "thing_manager \<Rightarrow> ('a \<Rightarrow> string) \<Rightarrow> (ThingType \<Rightarrow> 'a list) \<Rightarrow> string \<Rightarrow> string \<Rightarrow> 'a \<Rightarrow> bool" where
  "found m nm elems i n c \<longleftrightarrow>
     (\<exists>j tt. nearest m (\<lambda>tt. map nm (elems tt)) i n j \<and> cache_load (tm_types m) j = Some tt \<and> by_name nm (elems tt) n = Some c)"

lemma found_stop: "cache_load (tm_types m) i = None \<Longrightarrow> \<not> found m nm elems i n c"
  by (simp add: found_def nearest_stop)

lemma found_step:
  "cache_load (tm_types m) i = Some tt \<Longrightarrow>
     found m nm elems i n c \<longleftrightarrow> (case by_name nm (elems tt) n of Some d \<Rightarrow> c = d | None \<Rightarrow> found m nm elems (tt_ParentTypeId tt) n c)"
  by (auto simp: found_def nearest_step by_name_None_iff split: option.splits dest: by_name_Some)

lemma found_merge:
  assumes "cache_load (tm_types m) i = Some tt" "distinct (map nm (elems tt))"
  shows "by_name nm (add_new nm (\<lambda>x. x) (elems tt) acc) n = Some c \<or>
      by_name nm (add_new nm (\<lambda>x. x) (elems tt) acc) n = None \<and> found m nm elems (tt_ParentTypeId tt) n c \<longleftrightarrow>
    by_name nm acc n = Some c \<or> by_name nm acc n = None \<and> found m nm elems i n c"
  unfolding by_name_add_new [OF assms(2)] found_step [OF assms(1)] by (auto split: option.splits)

lemma nearest_merge:
  assumes "cache_load (tm_types m) i = Some tt"
  shows "cache_load (inherit_names i (names tt) acc) n = Some j \<or> cache_load (inherit_names i (names tt) acc) n = None \<and> nearest m names (tt_ParentTypeId tt) n j \<longleftrightarrow>
    cache_load acc n = Some j \<or> cache_load acc n = None \<and> nearest m names i n j"
  unfolding cache_load_inherit_names nearest_step [OF assms(1)] by (auto split: option.splits)

lemma load_Nil: "types_ok m \<Longrightarrow> cache_load (tm_types m) [] = None"
  using types_okD by (cases "cache_load (tm_types m) []") auto

lemma explode_loop_returns:
  assumes ok: "types_ok m"
  shows "\<exists>cs' pss'. explode_loop m i cs pss = Some (cs', pss') \<and>
    (\<forall>n c. by_name c_Name cs' n = Some c \<longleftrightarrow> by_name c_Name cs n = Some c \<or> by_name c_Name cs n = None \<and> found m c_Name tt_Characteristics i n c) \<and>
    (\<forall>n ps. by_name ps_Name pss' n = Some ps \<longleftrightarrow> by_name ps_Name pss n = Some ps \<or> by_name ps_Name pss n = None \<and> found m ps_Name tt_PropertySets i n ps)"
proof (induction i arbitrary: cs pss rule: type_walk [OF ok, consumes 0, case_names stop step])
  case (stop i)
  then have none: "cache_load (tm_types m) i = None" using load_Nil [OF ok] by blast
  then have "explode_loop m i cs pss = Some (cs, pss)" by (simp add: explode_loop.simps)
  then show ?case by (auto simp: found_stop [OF none])
next
  case (step i tt)
  have names: "distinct (map c_Name (tt_Characteristics tt))" "distinct (map ps_Name (tt_PropertySets tt))"
    using types_okD [OF ok step(2)] by (simp_all add: type_names_ok_def)
  let ?cs = "add_new c_Name (\<lambda>c. c) (tt_Characteristics tt) cs" and ?pss = "add_new ps_Name (\<lambda>ps. ps) (tt_PropertySets tt) pss"
  have "explode_loop m i cs pss = explode_loop m (tt_ParentTypeId tt) ?cs ?pss"
    using step(1,2) by (subst explode_loop.simps) simp
  with step(3) [of ?cs ?pss] show ?case
    by (simp only: found_merge [where elems = tt_Characteristics, OF step(2) names(1)] found_merge [where elems = tt_PropertySets, OF step(2) names(2)])
qed

lemma inherit_loop_returns:
  assumes ok: "types_ok m"
  shows "\<exists>cs' pss'. inherit_loop m i cs pss = Some (cs', pss') \<and>
    (\<forall>n j. cache_load cs' n = Some j \<longleftrightarrow> cache_load cs n = Some j \<or> cache_load cs n = None \<and> nearest m char_names i n j) \<and>
    (\<forall>n j. cache_load pss' n = Some j \<longleftrightarrow> cache_load pss n = Some j \<or> cache_load pss n = None \<and> nearest m set_names i n j)"
proof (induction i arbitrary: cs pss rule: type_walk [OF ok, consumes 0, case_names stop step])
  case (stop i)
  then have none: "cache_load (tm_types m) i = None" using load_Nil [OF ok] by blast
  then have "inherit_loop m i cs pss = Some (cs, pss)" by (simp add: inherit_loop.simps)
  then show ?case by (auto simp: nearest_stop [OF none])
next
  case (step i tt)
  let ?cs = "inherit_names i (char_names tt) cs" and ?pss = "inherit_names i (set_names tt) pss"
  have "inherit_loop m i cs pss = inherit_loop m (tt_ParentTypeId tt) ?cs ?pss"
    using step(1,2) by (subst inherit_loop.simps) simp
  with step(3) [of ?cs ?pss] show ?case
    by (simp only: nearest_merge [where names = char_names, OF step(2)] nearest_merge [where names = set_names, OF step(2)])
qed

lemma found_root:
  assumes "types_ok m" "cache_load (tm_types m) i = Some tt" "tt_ParentTypeId tt = []"
  shows "found m nm elems i n c \<longleftrightarrow> by_name nm (elems tt) n = Some c"
  unfolding found_step [OF assms(2)] assms(3) by (auto simp: found_stop [OF load_Nil [OF assms(1)]] split: option.splits)

text \<open>
  C26: exploded types. On a hierarchy without cycles the explosion of a cached type returns, and has for every name exactly the
  characteristic and the property set of the nearest type, from the type itself upwards, that defines one: a type hides
  the definitions of its ancestors and inherits the rest.
\<close>

theorem explode_nearest:
  assumes "types_ok m" "cache_load (tm_types m) i = Some tt"
  shows "\<exists>r. explodeThingType m tt = Some r \<and> om_ID r = i \<and>
    (\<forall>n c. by_name c_Name (tt_Characteristics r) n = Some c \<longleftrightarrow> found m c_Name tt_Characteristics i n c) \<and>
    (\<forall>n ps. by_name ps_Name (tt_PropertySets r) n = Some ps \<longleftrightarrow> found m ps_Name tt_PropertySets i n ps)"
proof (cases "tt_ParentTypeId tt = []")
  case True
  have id: "om_ID tt = i" using types_okD [OF assms] by blast
  with True show ?thesis by (simp add: explodeThingType_def found_root [OF assms True])
next
  case False
  have id: "om_ID tt = i" using types_okD [OF assms] by blast
  from explode_loop_returns [OF assms(1), of i "[]" "[]"] obtain cs pss where
    "explode_loop m i [] [] = Some (cs, pss)"
    "\<forall>n c. by_name c_Name cs n = Some c \<longleftrightarrow> found m c_Name tt_Characteristics i n c"
    "\<forall>n ps. by_name ps_Name pss n = Some ps \<longleftrightarrow> found m ps_Name tt_PropertySets i n ps"
    by (auto simp: by_name_def)
  with False id show ?thesis by (simp add: explodeThingType_def)
qed

text \<open>A base pump with two characteristics, and a pump that redefines one.\<close>

definition some_char :: "string \<Rightarrow> int \<Rightarrow> Characteristic" where
  "some_char n len = \<lparr>c_Name = n, c_Unit = [], c_Length = len, c_DataType = DataTypeString, c_DefaultValue = [], c_Searchable = False\<rparr>"

definition some_type :: "string \<Rightarrow> string \<Rightarrow> Characteristic list \<Rightarrow> ThingType" where
  "some_type i p cs = \<lparr>om_Tenant = ''main'', om_Name = i, om_ID = i, om_Version = ''1'', om_ModTime = 1, tt_Description = None,
     tt_ParentTypeId = p, tt_Instantiable = Some True, tt_Characteristics = cs, tt_PropertySets = []\<rparr>"

definition pumps :: thing_manager where
  "pumps = plant\<lparr>tm_types := [(''Base'', some_type ''Base'' [] [some_char ''maker'' 8, some_char ''model'' 8]),
                             (''Pump'', some_type ''Pump'' ''Base'' [some_char ''model'' 16])]\<rparr>"

lemma pumps_load: "cache_load (tm_types pumps) k = Some tt \<longleftrightarrow>
    k = ''Base'' \<and> tt = some_type ''Base'' [] [some_char ''maker'' 8, some_char ''model'' 8] \<or>
    k = ''Pump'' \<and> tt = some_type ''Pump'' ''Base'' [some_char ''model'' 16]"
  by (auto simp: pumps_def cache_load_def)

lemma pumps_ok: "types_ok pumps"
proof -
  have "{(c, p). type_parent pumps c = Some p} = {(''Pump'', ''Base'')}"
  proof -
    have "tt_ParentTypeId (some_type i p cs) = p" for i p cs by (simp add: some_type_def)
    then have "type_parent pumps c = Some p \<longleftrightarrow> c = ''Pump'' \<and> p = ''Base''" for c p
      by (auto simp: type_parent_def pumps_def cache_load_def)
    then show ?thesis by simp
  qed
  moreover have "acyclic {(''Pump'', ''Base'')}" by (simp add: acyclic_insert wf_acyclic)
  moreover have "cache_ok (tm_types pumps)" by (simp add: pumps_def cache_ok_def)
  ultimately show ?thesis unfolding types_ok_def pumps_load by (simp add: some_type_def some_char_def type_names_ok_def GetTenant_def)
qed

theorem explode_nearest_witness:
  "\<exists>r. explodeThingType pumps (some_type ''Pump'' ''Base'' [some_char ''model'' 16]) = Some r \<and>
     by_name c_Name (tt_Characteristics r) ''maker'' = Some (some_char ''maker'' 8)"
proof -
  have l: "cache_load (tm_types pumps) ''Pump'' = Some (some_type ''Pump'' ''Base'' [some_char ''model'' 16])"
    "cache_load (tm_types pumps) ''Base'' = Some (some_type ''Base'' [] [some_char ''maker'' 8, some_char ''model'' 8])"
    by (simp_all add: pumps_load)
  have "found pumps c_Name tt_Characteristics ''Pump'' ''maker'' (some_char ''maker'' 8)"
    by (simp add: found_step [OF l(1)] found_step [OF l(2)] some_type_def some_char_def by_name_def)
  with explode_nearest [OF pumps_ok l(1)] show ?thesis by blast
qed

text \<open>
  What a new thing inherits. The maps of a thing get, for every name, the nearest type from the thing's type
  upwards that defines the name, as the exploded type does; the walk returns on a hierarchy without cycles.
\<close>

theorem inherit_nearest:
  assumes "types_ok m" "t_CharacteristicByName t = []" "t_PropertySetByName t = []"
  shows "\<exists>t'. inheritCharacteristicAndPropertySet m t = Some t' \<and>
    (\<forall>n j. cache_load (t_CharacteristicByName t') n = Some j \<longleftrightarrow> nearest m char_names (t_Type t) n j) \<and>
    (\<forall>n j. cache_load (t_PropertySetByName t') n = Some j \<longleftrightarrow> nearest m set_names (t_Type t) n j)"
  using inherit_loop_returns [OF assms(1), of "t_Type t" "[]" "[]"] assms(2,3)
  by (auto simp: inheritCharacteristicAndPropertySet_def)

theorem inherit_nearest_witness:
  "\<exists>t'. inheritCharacteristicAndPropertySet pumps ((some_thing ''p'' None)\<lparr>t_Type := ''Pump''\<rparr>) = Some t' \<and>
     cache_load (t_CharacteristicByName t') ''model'' = Some ''Pump''"
proof -
  have l: "cache_load (tm_types pumps) ''Pump'' = Some (some_type ''Pump'' ''Base'' [some_char ''model'' 16])" by (simp add: pumps_load)
  have "nearest pumps char_names ''Pump'' ''model'' ''Pump''" by (simp add: nearest_step [OF l] some_type_def some_char_def)
  with inherit_nearest [OF pumps_ok, of "(some_thing ''p'' None)\<lparr>t_Type := ''Pump''\<rparr>"] show ?thesis
    by (auto simp: some_thing_def)
qed

subsection \<open>Types below a type\<close>

lemma getTypeChildren_set:
  assumes "types_ok m" "i \<noteq> []"
  shows "tt \<in> set (getTypeChildren m i) \<longleftrightarrow> cache_load (tm_types m) (om_ID tt) = Some tt \<and> tt_ParentTypeId tt = i"
proof -
  have ok: "cache_ok (tm_types m)" using assms(1) by (simp add: types_ok_def)
  have obj: "om_ID tt = k \<and> om_Tenant tt = GetTenant" if "(k, tt) \<in> set (tm_types m)" for k tt
    using types_okD [OF assms(1) cache_load_of_set [OF ok that]] by blast
  have "tt \<in> set (cache_values (tm_types m)) \<and> om_Tenant tt = GetTenant \<longleftrightarrow> (om_ID tt, tt) \<in> set (tm_types m)"
    using obj by (force simp: cache_values_set image_iff)
  then have "tt \<in> set (cache_values (tm_types m)) \<and> om_Tenant tt = GetTenant \<longleftrightarrow> cache_load (tm_types m) (om_ID tt) = Some tt"
    by (simp add: cache_load_set_iff [OF ok])
  then show ?thesis using assms(2)
    by (auto simp: getTypeChildren_def GetThingTypes_def set_list_matching parseTypeFilter_def name_predicates_def matches_def)
qed

lemma getTypeChildren_ids:
  assumes "types_ok m" "i \<noteq> []"
  shows "om_ID ` set (getTypeChildren m i) = {c. type_parent m c = Some i}"
proof -
  have "c \<in> om_ID ` set (getTypeChildren m i)" if "cache_load (tm_types m) c = Some tt" "tt_ParentTypeId tt = i" for c tt
  proof -
    have "om_ID tt = c" using types_okD [OF assms(1) that(1)] by blast
    with that have "tt \<in> set (getTypeChildren m i)" by (simp add: getTypeChildren_set [OF assms])
    with \<open>om_ID tt = c\<close> show ?thesis by blast
  qed
  then show ?thesis using assms(2) by (auto simp: getTypeChildren_set [OF assms] type_parent_def bind_eq_Some_conv split: if_splits)
qed

lemma hasType_loop_returns:
  assumes ok: "types_ok m"
  shows "\<forall>tt\<in>set ctts. om_ID tt \<noteq> [] \<and> type_tree.rank m (om_ID tt) < n \<Longrightarrow>
    \<exists>rs. hasType_loop m rtts ctts = Some rs \<and>
      om_ID ` set rs = om_ID ` set rtts \<union> {c. \<exists>tt\<in>set ctts. c \<in> type_tree.descendants m (om_ID tt)}"
proof (induction n arbitrary: rtts ctts)
  case 0
  then have "ctts = []" by (cases ctts) auto
  then show ?case by (simp add: hasType_loop.simps)
next
  case (Suc n)
  let ?next = "concat (map (\<lambda>tt. getTypeChildren m (om_ID tt)) ctts)"
  have ids: "om_ID ` set ?next = {c. \<exists>tt\<in>set ctts. type_parent m c = Some (om_ID tt)}"
    using Suc.prems getTypeChildren_ids [OF ok] by (auto simp: image_UN)
  have "om_ID u \<noteq> [] \<and> type_tree.rank m (om_ID u) < n" if "u \<in> set ?next" for u
  proof -
    from that obtain tt where tt: "tt \<in> set ctts" "u \<in> set (getTypeChildren m (om_ID tt))" by auto
    have ne: "om_ID tt \<noteq> []" using Suc.prems tt(1) by blast
    from tt(2) have u: "cache_load (tm_types m) (om_ID u) = Some u" "tt_ParentTypeId u = om_ID tt"
      by (simp_all add: getTypeChildren_set [OF ok ne])
    then have "type_parent m (om_ID u) = Some (om_ID tt)" using type_parentI ne by metis
    from type_tree.rank_less [OF ok this] have "type_tree.rank m (om_ID u) < type_tree.rank m (om_ID tt)" .
    moreover have "type_tree.rank m (om_ID tt) < Suc n" using Suc.prems tt(1) by blast
    moreover have "om_ID u \<noteq> []" using types_okD [OF ok u(1)] by blast
    ultimately show ?thesis by linarith
  qed
  then obtain rs where rs: "hasType_loop m (rtts @ ?next) ?next = Some rs"
    "om_ID ` set rs = om_ID ` set (rtts @ ?next) \<union> {c. \<exists>u\<in>set ?next. c \<in> type_tree.descendants m (om_ID u)}"
    using Suc.IH [of ?next "rtts @ ?next"] by blast
  have "{c. \<exists>tt\<in>set ctts. c \<in> type_tree.descendants m (om_ID tt)} =
      {c. \<exists>tt\<in>set ctts. \<exists>d. type_parent m d = Some (om_ID tt) \<and> (c = d \<or> c \<in> type_tree.descendants m d)}"
    by (simp only: type_tree.descendants_iff [symmetric])
  also have "\<dots> = {c. \<exists>d\<in>om_ID ` set ?next. c = d \<or> c \<in> type_tree.descendants m d}" unfolding ids by blast
  finally have "om_ID ` set rs = om_ID ` set rtts \<union> {c. \<exists>tt\<in>set ctts. c \<in> type_tree.descendants m (om_ID tt)}"
    unfolding rs(2) by auto
  moreover have "hasType_loop m rtts ctts = (if ctts = [] then Some rtts else hasType_loop m (rtts @ ?next) ?next)"
    by (subst hasType_loop.simps) (simp add: Let_def)
  ultimately show ?case using rs(1) by auto
qed

text \<open>
  The \<open>HasType\<close> filter. For a cached type the listing returns and has exactly the cached things whose type is
  that type or one below it, over any number of levels.
\<close>

theorem hasType_exact:
  assumes "types_ok m" "cache_load (tm_types m) i = Some self"
  shows "\<exists>ts. GetThings no_names m (no_filter\<lparr>thf_HasType := i\<rparr>) = Some ts \<and>
    set ts = {t \<in> set (cache_values (tm_things m)). om_Tenant t = GetTenant \<and>
               (t_Type t = i \<or> (t_Type t, i) \<in> {(c, p). type_parent m c = Some p}\<^sup>+)}"
proof -
  have i: "i \<noteq> []" "om_ID self = i" using types_okD [OF assms] by blast+
  let ?ch = "getTypeChildren m i"
  have "\<forall>tt\<in>set ?ch. om_ID tt \<noteq> [] \<and> type_tree.rank m (om_ID tt) < Suc (sum_list (map (\<lambda>tt. type_tree.rank m (om_ID tt)) ?ch))"
    using types_okD [OF assms(1)] by (auto simp: getTypeChildren_set [OF assms(1) i(1)] less_Suc_eq_le member_le_sum_list)
  from hasType_loop_returns [OF assms(1) this, of "[self] @ ?ch"] obtain rs where
    rs: "hasType_loop m ([self] @ ?ch) ?ch = Some rs"
      "om_ID ` set rs = om_ID ` set ([self] @ ?ch) \<union> {c. \<exists>tt\<in>set ?ch. c \<in> type_tree.descendants m (om_ID tt)}" by blast
  have "om_ID ` set rs = {i} \<union> {c. \<exists>d\<in>om_ID ` set ?ch. c = d \<or> c \<in> type_tree.descendants m d}"
    unfolding rs(2) using i(2) by auto
  also have "\<dots> = {i} \<union> type_tree.descendants m i"
    unfolding getTypeChildren_ids [OF assms(1) i(1)] using type_tree.descendants_iff [of _ m i] by blast
  finally have ids: "list_ex (\<lambda>tt. t_Type t = om_ID tt) rs \<longleftrightarrow> t_Type t \<in> {i} \<union> type_tree.descendants m i" for t :: Thing
    by (auto simp: list_ex_iff image_iff)
  have d: "type_tree.descendants m i = {c. (c, i) \<in> {(c, p). type_parent m c = Some p}\<^sup>+}"
    by (simp add: type_tree.descendants_def type_tree.up_def)
  show ?thesis
    using i(1) assms(2) rs(1)
    by (auto simp: GetThings_def thing_parseFilter_def hasType_predicates_def no_filter_def set_list_matching thing_predicates_def
        name_predicates_def matches_def ids d)
qed

theorem hasType_exact_witness:
  "\<exists>ts. GetThings no_names pumps (no_filter\<lparr>thf_HasType := ''Base''\<rparr>) = Some ts \<and> ts = []"
proof -
  have "cache_load (tm_types pumps) ''Base'' = Some (some_type ''Base'' [] [some_char ''maker'' 8, some_char ''model'' 8])" by (simp add: pumps_load)
  from hasType_exact [OF pumps_ok this] obtain ts where
    r: "GetThings no_names pumps (no_filter\<lparr>thf_HasType := ''Base''\<rparr>) = Some ts"
      "set ts = {t \<in> set (cache_values (tm_things pumps)). om_Tenant t = GetTenant \<and>
         (t_Type t = ''Base'' \<or> (t_Type t, ''Base'') \<in> {(c, p). type_parent pumps c = Some p}\<^sup>+)}" by blast
  have "type_parent pumps ''main.Pump'' = None" by (simp add: type_parent_def pumps_def cache_load_def)
  then have "(''main.Pump'', ''Base'') \<notin> {(c, p). type_parent pumps c = Some p}\<^sup>+" by (auto dest: tranclD)
  moreover have "\<forall>t\<in>set (cache_values (tm_things pumps)). t_Type t = ''main.Pump''"
    by (simp add: pumps_def plant_def cache_values_def some_thing_def)
  ultimately have "set ts = {}" unfolding r(2) by auto
  then have "ts = []" by simp
  with r(1) show ?thesis by blast
qed

text \<open>
  The root of a type. On a hierarchy without cycles the walk to the root returns a type above the given
  one (or itself) that has no cached parent.
\<close>

theorem GetRootThingType_root:
  assumes "types_ok m" "cache_load (tm_types m) i = Some tt"
  shows "\<exists>r. GetRootThingType m i = Some (Some r) \<and> cache_load (tm_types m) (om_ID r) = Some r \<and>
    (om_ID r = i \<or> (i, om_ID r) \<in> {(c, p). type_parent m c = Some p}\<^sup>+) \<and>
    (tt_ParentTypeId r = [] \<or> cache_load (tm_types m) (tt_ParentTypeId r) = None)"
proof -
  have "\<forall>tt. cache_load (tm_types m) i = Some tt \<longrightarrow> (\<exists>r. root_loop m tt = Some r \<and> cache_load (tm_types m) (om_ID r) = Some r \<and>
      (om_ID r = i \<or> (i, om_ID r) \<in> {(c, p). type_parent m c = Some p}\<^sup>+) \<and>
      (tt_ParentTypeId r = [] \<or> cache_load (tm_types m) (tt_ParentTypeId r) = None))" for i
  proof (induction i rule: type_walk [OF assms(1), consumes 0, case_names stop step])
    case (stop i)
    then show ?case using load_Nil [OF assms(1)] by auto
  next
    case (step i tt)
    have id: "om_ID tt = i" using types_okD [OF assms(1) step(2)] by blast
    show ?case
    proof (cases "tt_ParentTypeId tt \<noteq> [] \<and> cache_load (tm_types m) (tt_ParentTypeId tt) \<noteq> None")
      case True
      then obtain p where p: "cache_load (tm_types m) (tt_ParentTypeId tt) = Some p" by auto
      then have "root_loop m tt = root_loop m p" using True by (subst root_loop.simps) simp
      moreover have "(i, tt_ParentTypeId tt) \<in> {(c, p). type_parent m c = Some p}" using type_parentI [OF step(2)] True by simp
      ultimately show ?thesis using step(2,3) p by (auto intro: trancl_into_trancl2)
    next
      case False
      then have "root_loop m tt = Some tt" by (subst root_loop.simps) (auto split: option.split)
      with step(2) id False show ?thesis by auto
    qed
  qed
  with assms(2) show ?thesis by (fastforce simp: GetRootThingType_def)
qed

theorem GetRootThingType_root_witness:
  "\<exists>r. GetRootThingType pumps ''Pump'' = Some (Some r) \<and> cache_load (tm_types pumps) (om_ID r) = Some r"
proof -
  have "cache_load (tm_types pumps) ''Pump'' = Some (some_type ''Pump'' ''Base'' [some_char ''model'' 16])" by (simp add: pumps_load)
  from GetRootThingType_root [OF pumps_ok this] show ?thesis by blast
qed

end
