(* ===== verification/Things.thy ===== *)
theory Things
  imports Thing_Inheritance
begin

text \<open>
  The operations on things of \<open>src/pkg/model/thing/{manager,rest,defaults}.go\<close>. An operation that walks a hierarchy returns
  \<open>None\<close> when the walk does not end. What an operation asks of other managers and of goroutines is a list of effects; one attempt of the goroutine
  that detaches the child of a deleted thing is an operation of its own. The time zone database is the parameter \<open>tzdb\<close>.

  Shown: over every sequence of operations, whatever the store does, no thing is above itself, and so every request returns; an update
  that would close a cycle is refused; a deletion schedules the removal of its data and the detachment of exactly its children; a detachment that comes late brings a deleted
  child back.
\<close>

datatype thing_effect =
    DeleteThingJobOf string time
  | DetachChild Thing
  | DeleteAgentOf string

abbreviation things_resource :: string where "things_resource \<equiv> ''things''"

definition SetDefaults_Thing :: "(string \<Rightarrow> string option) \<Rightarrow> Thing \<Rightarrow> Thing" where
  "SetDefaults_Thing tzdb t = (if t_TimeZone t = None then t\<lparr>t_TimeZone := tzdb ''Asia/Shanghai''\<rparr> else t)"

text \<open>The zone of a request: absent, unknown, or a location.\<close>

definition load_zone :: "(string \<Rightarrow> string option) \<Rightarrow> string option \<Rightarrow> go_error + string option" where
  "load_zone tzdb z =
     (case z of None \<Rightarrow> Inr None
      | Some n \<Rightarrow> (case tzdb n of None \<Rightarrow> Inl (ErrTimeZoneInvalid n) | Some loc \<Rightarrow> Inr (Some loc)))"

definition unknown_characteristic :: "v1_Thing \<Rightarrow> Thing \<Rightarrow> string option" where
  "unknown_characteristic obj t =
     map_option fst (find (\<lambda>(n, v). cache_load (t_CharacteristicByName t) n = None) (t1_Characteristics obj))"

definition new_thing :: "time \<Rightarrow> nat \<Rightarrow> string \<Rightarrow> ThingType \<Rightarrow> thing_manager \<Rightarrow> v1_Thing \<Rightarrow> string option \<Rightarrow> Thing" where
  "new_thing now seed uuid tt m obj tz =
     \<lparr>om_Tenant = GetTenant, om_Name = TrimSpace (t1_Name obj), om_ID = uuid, om_Version = FormatInt (int seed), om_ModTime = now,
      t_Description = t1_Description obj, t_Type = om_ID tt, t_Parent = map_option om_ID (cache_load (tm_things m) (t1_ParentId obj)),
      t_TimeZone = tz, t_Characteristics = [], t_CharacteristicByName = [], t_PropertySetByName = []\<rparr>"

definition CreateThing ::
  "persist_env \<Rightarrow> time \<Rightarrow> nat \<Rightarrow> string \<Rightarrow> (string \<Rightarrow> string option) \<Rightarrow> thing_manager \<Rightarrow> v1_Thing \<Rightarrow> (thing_manager \<times> (go_error + Thing)) option" where
  "CreateThing e now seed uuid tzdb m obj =
     (case cache_load (tm_types m) (t1_TypeId obj) of
        None \<Rightarrow> Some (m, Inl (ErrThingTypeNotFound (t1_TypeId obj)))
      | Some tt \<Rightarrow>
          (case tt_Instantiable tt of
             None \<Rightarrow> Some (m, Inl GoPanic)
           | Some False \<Rightarrow> Some (m, Inl ErrThingTypeNotInstantiable)
           | Some True \<Rightarrow>
               if t1_ParentId obj \<noteq> [] \<and> cache_load (tm_things m) (t1_ParentId obj) = None
               then Some (m, Inl (ErrParentTypeNotFound (t1_ParentId obj)))
               else case load_zone tzdb (t1_TimeZone obj) of
                 Inl err \<Rightarrow> Some (m, Inl err)
               | Inr tz \<Rightarrow>
                   (case inheritCharacteristicAndPropertySet m (SetDefaults_Thing tzdb (new_thing now seed uuid tt m obj tz)) of
                      None \<Rightarrow> None
                    | Some t \<Rightarrow>
                        (case unknown_characteristic obj t of
                           Some n \<Rightarrow> Some (m, Inl (ErrCharacteristicNotFound n))
                         | None \<Rightarrow>
                             let t = t\<lparr>t_Characteristics := t1_Characteristics obj\<rparr> in
                             (case Store_persist things_resource e (tm_thing_files m) t of
                                (fs, Inl _) \<Rightarrow> Some (m\<lparr>tm_thing_files := fs\<rparr>, Inl ErrInternal)
                              | (fs, Inr None) \<Rightarrow> Some (m\<lparr>tm_thing_files := fs\<rparr>, Inl GoPanic)
                              | (fs, Inr (Some saved)) \<Rightarrow>
                                  Some (m\<lparr>tm_things := cache_store uuid saved (tm_things m), tm_thing_files := fs\<rparr>, Inr saved))))))"

definition zero_thing :: Thing where
  "zero_thing = \<lparr>om_Tenant = [], om_Name = [], om_ID = [], om_Version = [], om_ModTime = 0, t_Description = None, t_Type = [], t_Parent = None,
     t_TimeZone = None, t_Characteristics = [], t_CharacteristicByName = [], t_PropertySetByName = []\<rparr>"

definition deleteThing :: "persist_env \<Rightarrow> time \<Rightarrow> thing_manager \<Rightarrow> string \<Rightarrow> string \<Rightarrow> thing_manager \<times> thing_effect list \<times> (go_error + Thing)" where
  "deleteThing e now m i version =
     (case cache_load (tm_things m) i of
        None \<Rightarrow> (m, [], Inl ErrNotExist)
      | Some t \<Rightarrow>
          if om_Version t \<noteq> version then (m, [], Inl ErrMismatch)
          else case Store_persist things_resource e (tm_thing_files m) (zero_thing\<lparr>om_ID := i, om_Version := version\<rparr>) of
            (fs, Inl _) \<Rightarrow> (m\<lparr>tm_thing_files := fs\<rparr>, [], Inl ErrInternal)
          | (fs, Inr _) \<Rightarrow>
              let m' = m\<lparr>tm_things := cache_delete i (tm_things m), tm_thing_files := fs\<rparr> in
              (m', [DeleteThingJobOf i now] @ map DetachChild (child_things m' i) @ [DeleteAgentOf i], Inr t))"

text \<open>
  One attempt of the goroutine of a \<open>DetachChild\<close>. It holds a pointer to the child, which is the cached object as long as
  the child is cached. The attempt is repeated until it succeeds.
\<close>

definition detach_attempt :: "persist_env \<Rightarrow> time \<Rightarrow> thing_manager \<Rightarrow> Thing \<Rightarrow> thing_manager \<times> bool" where
  "detach_attempt e now m held =
     (let t = (case cache_load (tm_things m) (om_ID held) of Some cached \<Rightarrow> cached | None \<Rightarrow> held)\<lparr>t_Parent := None\<rparr>;
          m1 = (if cache_load (tm_things m) (om_ID held) = None then m else m\<lparr>tm_things := cache_store (om_ID held) t (tm_things m)\<rparr>) in
      case Store_persist things_resource e (tm_thing_files m) t of
        (fs, Inr (Some saved)) \<Rightarrow>
          (m1\<lparr>tm_things := cache_store (om_ID held) (saved\<lparr>om_ModTime := now\<rparr>) (tm_things m1), tm_thing_files := fs\<rparr>, True)
      | (fs, _) \<Rightarrow> (m1\<lparr>tm_thing_files := fs\<rparr>, False))"

text \<open>
  The characteristics of an update. The index of the loop that removes the dropped ones is never advanced, so
  the list is cut to nothing; the assignment for a name that is present goes to a copy.
\<close>

definition drop_characteristics :: "string list \<Rightarrow> (string \<times> string) list \<Rightarrow> (string \<times> string) list" where
  "drop_characteristics del cs = take 0 (foldl (\<lambda>acc c. if fst c \<notin> set del then acc[0 := c] else acc) cs cs)"

definition upsert_characteristics :: "(string \<times> string) list \<Rightarrow> (string \<times> string) list \<Rightarrow> (string \<times> string) list" where
  "upsert_characteristics cs ncs = foldl (\<lambda>acc nc. if list_ex (\<lambda>oc. fst nc = fst oc) acc then acc else acc @ [nc]) cs ncs"

definition new_parent :: "thing_manager \<Rightarrow> v1_Thing \<Rightarrow> Thing \<Rightarrow> (go_error + string option) option" where
  "new_parent m obj old =
     (if t_Parent old = None \<or> Some (t1_ParentId obj) \<noteq> t_Parent old then
        (if t1_ParentId obj = [] then Some (Inr None)
         else case cache_load (tm_things m) (t1_ParentId obj) of
           None \<Rightarrow> Some (Inl (ErrParentTypeNotFound (t1_ParentId obj)))
         | Some parent \<Rightarrow>
             (case isMyChildThing m (om_ID old) (t1_ParentId obj) of
                None \<Rightarrow> None
              | Some True \<Rightarrow> Some (Inl (ErrCycledThing (t1_ParentId obj)))
              | Some False \<Rightarrow> Some (Inr (Some (om_ID parent)))))
      else Some (Inr (t_Parent old)))"

definition updateCachedThing :: "Thing \<Rightarrow> Thing \<Rightarrow> Thing" where
  "updateCachedThing new old =
     old\<lparr>om_Version := om_Version new, om_ModTime := om_ModTime new, t_Description := t_Description new, t_TimeZone := t_TimeZone new,
         t_Parent := t_Parent new, t_Characteristics := t_Characteristics new\<rparr>"

definition updateThing ::
  "persist_env \<Rightarrow> time \<Rightarrow> (string \<Rightarrow> string option) \<Rightarrow> thing_manager \<Rightarrow> string \<Rightarrow> string \<Rightarrow> v1_Thing \<Rightarrow> Thing \<Rightarrow> (thing_manager \<times> (go_error + Thing)) option" where
  "updateThing e now tzdb m i version obj old =
     (if version \<noteq> om_Version old then Some (m, Inl ErrMismatch)
      else case load_zone tzdb (t1_TimeZone obj) of
        Inl err \<Rightarrow> Some (m, Inl err)
      | Inr tz \<Rightarrow>
          (case unknown_characteristic obj old of
             Some n \<Rightarrow> Some (m, Inl (ErrCharacteristicNotFound n))
           | None \<Rightarrow>
               (case new_parent m obj old of
                  None \<Rightarrow> None
                | Some (Inl err) \<Rightarrow> Some (m, Inl err)
                | Some (Inr p) \<Rightarrow>
                    let delChars = fst (DifferenceAndIntersectionObjects (t_Characteristics old) (t1_Characteristics obj) fst fst);
                        old = old\<lparr>om_ModTime := now, t_Description := t1_Description obj,
                                  t_TimeZone := (if t1_TimeZone obj = None then t_TimeZone old else tz), t_Parent := p,
                                  t_Characteristics := upsert_characteristics (drop_characteristics delChars (t_Characteristics old)) (t1_Characteristics obj)\<rparr> in
                    (case Store_persist things_resource e (tm_thing_files m) old of
                       (fs, Inl err) \<Rightarrow> Some (m\<lparr>tm_thing_files := fs\<rparr>, Inl err)
                     | (fs, Inr None) \<Rightarrow> Some (m\<lparr>tm_thing_files := fs\<rparr>, Inl GoPanic)
                     | (fs, Inr (Some saved)) \<Rightarrow>
                         (case cache_load (tm_things m) i of
                            None \<Rightarrow> Some (m\<lparr>tm_thing_files := fs\<rparr>, Inl GoPanic)
                          | Some t \<Rightarrow>
                              let t = updateCachedThing saved t in
                              Some (m\<lparr>tm_things := cache_store i t (tm_things m), tm_thing_files := fs\<rparr>, Inr t))))))"

text \<open>The resource \<open>REST\<close>; the deep copy of an update shares nothing that the update changes.\<close>

definition thing_REST_Create where
  "thing_REST_Create render e now seed uuid tzdb m obj =
     (case ValidateFunc render ValidateThing obj of
        Some err \<Rightarrow> Some (m, Inl err) | None \<Rightarrow> CreateThing e now seed uuid tzdb m obj)"

definition thing_REST_Update where
  "thing_REST_Update render e now tzdb m i obj version =
     (case GetThingById m i of
        Inl err \<Rightarrow> Some (m, Inl err)
      | Inr t \<Rightarrow>
          (case ValidateUpdateFunc render ValidateThing ValidateThingUpdate obj t of
             Some err \<Rightarrow> Some (m, Inl err)
           | None \<Rightarrow> updateThing e now tzdb m i version obj t))"

text \<open>
  The effective characteristics of a thing, with their values: its own, then the defaults of the rest. A definition is read
  in the cached type that holds it; a name that this type lacks is a nil pointer in the map. (The pointers of a thing whose type was
  deleted outlive the type; such things are about to be deleted and not covered.)
\<close>

definition default_value :: "thing_manager \<Rightarrow> string \<Rightarrow> string \<Rightarrow> string option" where
  "default_value m j n =
     map_option c_DefaultValue (Option.bind (cache_load (tm_types m) j) (\<lambda>tt. by_name c_Name (tt_Characteristics tt) n))"

definition getThingCharacteristics :: "thing_manager \<Rightarrow> string \<Rightarrow> go_error + (string \<times> string) list" where
  "getThingCharacteristics m i =
     (case cache_load (tm_things m) i of
        None \<Rightarrow> Inl ErrNotExist
      | Some t \<Rightarrow>
          let inherited = filter (\<lambda>(n, j). n \<notin> fst ` set (t_Characteristics t)) (t_CharacteristicByName t) in
          if list_ex (\<lambda>(n, j). default_value m j n = None) inherited then Inl GoPanic
          else Inr (t_Characteristics t @ map (\<lambda>(n, j). (n, the (default_value m j n))) inherited))"

definition getThingPropertySets :: "thing_manager \<Rightarrow> string \<Rightarrow> go_error + (string \<times> string) list" where
  "getThingPropertySets m i =
     (case cache_load (tm_things m) i of None \<Rightarrow> Inl ErrNotExist | Some t \<Rightarrow> Inr (t_PropertySetByName t))"

subsection \<open>What the operations keep\<close>

lemma things_ok_same: "things_ok m \<Longrightarrow> tm_things m' = tm_things m \<Longrightarrow> things_ok m'"
  unfolding things_ok_def thing_parent_def by simp

lemma thing_parent_store:
  "tm_things m' = cache_store i t (tm_things m) \<Longrightarrow> thing_parent m' = (\<lambda>c. if c = i then t_Parent t else thing_parent m c)"
  by (auto simp: thing_parent_def fun_eq_iff)

lemma things_ok_store:
  assumes "things_ok m" "tm_things m' = cache_store i t (tm_things m)" "om_ID t = i" "i \<noteq> []" "om_Tenant t = GetTenant" "t_Parent t = q"
    and "acyclic {(c, p). (if c = i then q else thing_parent m c) = Some p}"
  shows "things_ok m'"
  unfolding things_ok_def thing_parent_store [OF assms(2)] assms(6)
  using assms things_okD [OF assms(1)] by (simp add: things_ok_def)

lemma things_ok_delete:
  assumes "things_ok m" "tm_things m' = cache_delete i (tm_things m)"
  shows "things_ok m'"
proof -
  have "acyclic {(c, p). thing_parent m' c = Some p}"
    by (rule thing_tree.acyclic_subforest [OF assms(1)]) (simp add: thing_parent_def assms(2) split: if_splits)
  then show ?thesis using assms things_okD [OF assms(1)] by (simp add: things_ok_def)
qed

text \<open>An identifier that is neither in use nor the parent of a thing, as a new UUID is.\<close>

definition fresh_id :: "thing_manager \<Rightarrow> string \<Rightarrow> bool" where
  "fresh_id m i \<longleftrightarrow> i \<noteq> [] \<and> cache_load (tm_things m) i = None \<and> (\<forall>c. thing_parent m c \<noteq> Some i)"

lemma SetDefaults_Thing_fields [simp]:
  "om_ID (SetDefaults_Thing tzdb t) = om_ID t" "om_Tenant (SetDefaults_Thing tzdb t) = om_Tenant t" "t_Parent (SetDefaults_Thing tzdb t) = t_Parent t"
  by (simp_all add: SetDefaults_Thing_def)

lemma inherit_fields:
  "inheritCharacteristicAndPropertySet m t = Some t' \<Longrightarrow> om_ID t' = om_ID t \<and> om_Tenant t' = om_Tenant t \<and> t_Parent t' = t_Parent t"
  by (auto simp: inheritCharacteristicAndPropertySet_def)

lemma inherit_returns: "types_ok m \<Longrightarrow> \<exists>t'. inheritCharacteristicAndPropertySet m t = Some t'"
  using inherit_loop_returns [of m "t_Type t" "t_CharacteristicByName t" "t_PropertySetByName t"]
  by (auto simp: inheritCharacteristicAndPropertySet_def)

lemma CreateThing_cases:
  assumes "CreateThing e now seed uuid tzdb m obj = Some (m', r)"
  shows "tm_types m' = tm_types m \<and>
    ((\<exists>err. r = Inl err \<and> tm_things m' = tm_things m) \<or>
     (\<exists>t. r = Inr t \<and> om_ID t = uuid \<and> om_Tenant t = GetTenant \<and>
        t_Parent t = map_option om_ID (cache_load (tm_things m) (t1_ParentId obj)) \<and> tm_things m' = cache_store uuid t (tm_things m)))"
proof -
  have saved: "om_ID s = uuid \<and> om_Tenant s = GetTenant \<and> t_Parent s = map_option om_ID (cache_load (tm_things m) (t1_ParentId obj))"
    if "inheritCharacteristicAndPropertySet m (SetDefaults_Thing tzdb (new_thing now seed uuid tt m obj tz)) = Some t"
      "Store_persist things_resource e fs0 (t\<lparr>t_Characteristics := cs\<rparr>) = (fs, Inr (Some s))" for t tt tz fs0 cs fs s
    using inherit_fields [OF that(1)] Store_persist_saved_fields [OF that(2)] by (auto simp: new_thing_def)
  show ?thesis
    using assms unfolding CreateThing_def
    by (auto simp: Let_def split: option.splits bool.splits if_splits sum.splits prod.splits dest: saved)
qed

lemma CreateThing_ok:
  assumes "things_ok m" "fresh_id m uuid" "CreateThing e now seed uuid tzdb m obj = Some (m', r)"
  shows "things_ok m'"
proof -
  from CreateThing_cases [OF assms(3)] consider
      "tm_things m' = tm_things m"
    | t where "om_ID t = uuid" "om_Tenant t = GetTenant" "t_Parent t = map_option om_ID (cache_load (tm_things m) (t1_ParentId obj))"
        "tm_things m' = cache_store uuid t (tm_things m)" by blast
  then show ?thesis
  proof cases
    case 1
    with assms(1) show ?thesis by (rule things_ok_same)
  next
    case 2
    have "t_Parent t \<noteq> Some uuid"
      using 2(3) assms(2) things_okD [OF assms(1)] by (auto simp: fresh_id_def)
    then have "acyclic {(c, p). (if c = uuid then t_Parent t else thing_parent m c) = Some p}"
      using assms(2) by (intro thing_tree.acyclic_new [OF assms(1)]) (auto simp: fresh_id_def)
    from things_ok_store [OF assms(1) 2(4,1) _ 2(2) refl this] assms(2) show ?thesis by (simp add: fresh_id_def)
  qed
qed

lemma deleteThing_ok:
  assumes "things_ok m" "deleteThing e now m i v = (m', effs, r)"
  shows "things_ok m' \<and> tm_types m' = tm_types m"
proof -
  have "tm_types m' = tm_types m \<and> (tm_things m' = tm_things m \<or> tm_things m' = cache_delete i (tm_things m))"
    using assms(2) by (auto simp: deleteThing_def Let_def split: option.splits if_splits prod.splits sum.splits)
  with things_ok_same [OF assms(1)] things_ok_delete [OF assms(1)] show ?thesis by blast
qed

lemma updateThing_cases:
  assumes "updateThing e now tzdb m i version obj old = Some (m', r)"
  shows "tm_types m' = tm_types m \<and>
    ((\<exists>err. r = Inl err \<and> tm_things m' = tm_things m) \<or>
     (\<exists>saved t. version = om_Version old \<and> new_parent m obj old = Some (Inr (t_Parent saved)) \<and> cache_load (tm_things m) i = Some t \<and>
        t_Characteristics saved = upsert_characteristics [] (t1_Characteristics obj) \<and>
        r = Inr (updateCachedThing saved t) \<and> tm_things m' = cache_store i (updateCachedThing saved t) (tm_things m)))"
proof -
  have saved: "t_Parent s = t_Parent ob \<and> t_Characteristics s = t_Characteristics ob"
    if "Store_persist things_resource e fs0 ob = (fs, Inr (Some s))" for ob fs0 fs s
    using Store_persist_saved_fields [OF that] by auto
  show ?thesis
    using assms unfolding updateThing_def
    by (auto simp: Let_def drop_characteristics_def split: option.splits if_splits sum.splits prod.splits dest!: saved)
qed

lemma updateCachedThing_fields [simp]:
  "om_ID (updateCachedThing new old) = om_ID old" "om_Tenant (updateCachedThing new old) = om_Tenant old"
  "t_Parent (updateCachedThing new old) = t_Parent new" "t_Characteristics (updateCachedThing new old) = t_Characteristics new"
  "om_Version (updateCachedThing new old) = om_Version new"
  by (simp_all add: updateCachedThing_def)

text \<open>The new parent is none, the old one, or a cached thing outside the tree of the updated one.\<close>

lemma new_parent_cases:
  assumes "things_ok m" "cache_load (tm_things m) i = Some old" "new_parent m obj old = Some (Inr p)"
  shows "p = None \<or> p = t_Parent old \<or>
    (\<exists>q. p = Some q \<and> q = t1_ParentId obj \<and> cache_load (tm_things m) q \<noteq> None \<and> q \<notin> thing_tree.descendants m i)"
proof -
  have i: "om_ID old = i" "i \<noteq> []" using things_okD [OF assms(1,2)] by blast+
  have q: "om_ID t = k" if "cache_load (tm_things m) k = Some t" for k t using things_okD [OF assms(1) that] by blast
  show ?thesis
    using assms(3) q unfolding new_parent_def i(1) isMyChildThing_returns [OF assms(1) i(2)]
    by (auto split: if_splits option.splits bool.splits)
qed

lemma REST_Update_cases:
  assumes "thing_REST_Update render e now tzdb m i obj v = Some (m', r)"
  obtains "tm_types m' = tm_types m" "tm_things m' = tm_things m" "\<exists>err. r = Inl err"
  | old where "cache_load (tm_things m) i = Some old" "t1_ParentId obj \<noteq> om_ID old" "updateThing e now tzdb m i v obj old = Some (m', r)"
  using assms
  by (auto simp: thing_REST_Update_def GetThingById_def ValidateUpdateFunc_def ValidateThingUpdate_keeps split: option.splits if_splits)

lemma REST_Update_ok:
  assumes ok: "things_ok m" and u: "thing_REST_Update render e now tzdb m i obj v = Some (m', r)"
  shows "things_ok m' \<and> tm_types m' = tm_types m"
  using u
proof (cases rule: REST_Update_cases)
  case 1
  with things_ok_same [OF ok] show ?thesis by blast
next
  case (2 old)
  have i: "om_ID old = i" "i \<noteq> []" "om_Tenant old = GetTenant" using things_okD [OF ok 2(1)] by blast+
  from updateThing_cases [OF 2(3)] have ty: "tm_types m' = tm_types m" and cs:
    "tm_things m' = tm_things m \<or> (\<exists>saved. new_parent m obj old = Some (Inr (t_Parent saved)) \<and>
       tm_things m' = cache_store i (updateCachedThing saved old) (tm_things m))" using 2(1) by auto
  from cs show ?thesis
  proof (elim disjE exE conjE)
    fix saved
    assume p: "new_parent m obj old = Some (Inr (t_Parent saved))" and st: "tm_things m' = cache_store i (updateCachedThing saved old) (tm_things m)"
    have self: "thing_parent m i = t_Parent old" using 2(1) by (simp add: thing_parent_def)
    have "acyclic {(c, p). (if c = i then t_Parent saved else thing_parent m c) = Some p}"
      using new_parent_cases [OF ok 2(1) p]
    proof (elim disjE exE conjE)
      fix q assume q: "t_Parent saved = Some q" "q = t1_ParentId obj" "q \<notin> thing_tree.descendants m i"
      then have "q \<noteq> i" using 2(2) i(1) by simp
      from thing_tree.acyclic_reparent [OF ok this q(3)] show ?thesis unfolding q(1) .
    qed (rule thing_tree.acyclic_subforest [OF ok], use self in \<open>simp split: if_splits\<close>)+
    from things_ok_store [OF ok st _ _ _ _ this] show ?thesis using ty i by simp
  qed (use ty things_ok_same [OF ok] in blast)
qed

lemma detach_ok:
  assumes "things_ok m" "om_ID held \<noteq> []" "om_Tenant held = GetTenant" "detach_attempt e now m held = (m', done)"
  shows "things_ok m' \<and> tm_types m' = tm_types m"
proof -
  let ?t = "(case cache_load (tm_things m) (om_ID held) of Some cached \<Rightarrow> cached | None \<Rightarrow> held)\<lparr>t_Parent := None\<rparr>"
  have t: "om_ID ?t = om_ID held" "om_Tenant ?t = GetTenant" "t_Parent ?t = None"
    using assms(2,3) things_okD [OF assms(1)] by (auto split: option.split)
  have none: "acyclic {(c, p). (if c = om_ID held then None else thing_parent n c) = Some p}" if "things_ok n" for n
    by (rule thing_tree.acyclic_subforest [OF that]) (simp split: if_splits)
  have st: "things_ok (n\<lparr>tm_things := cache_store (om_ID held) u (tm_things n), tm_thing_files := fs\<rparr>)"
    if "things_ok n" "om_ID u = om_ID held" "om_Tenant u = GetTenant" "t_Parent u = None" for n u fs
    by (rule things_ok_store [OF that(1) _ _ _ _ _ none [OF that(1)]]) (use that assms(2) in simp_all)
  define m1 where "m1 = (if cache_load (tm_things m) (om_ID held) = None then m else m\<lparr>tm_things := cache_store (om_ID held) ?t (tm_things m)\<rparr>)"
  have m1: "things_ok m1" "tm_types m1 = tm_types m"
    using assms(1) things_ok_same [OF st [OF assms(1) t, of "[]"]] by (auto simp: m1_def)
  obtain fs res where p: "Store_persist things_resource e (tm_thing_files m) ?t = (fs, res)" by fastforce
  show ?thesis
  proof (cases "\<exists>saved. res = Inr (Some saved)")
    case True
    then obtain saved where s: "res = Inr (Some saved)" by blast
    with p Store_persist_saved_fields obtain w where w: "saved = ?t\<lparr>om_Version := w\<rparr>" by blast
    have "m' = m1\<lparr>tm_things := cache_store (om_ID held) (saved\<lparr>om_ModTime := now\<rparr>) (tm_things m1), tm_thing_files := fs\<rparr>"
      using assms(4) p s by (simp add: detach_attempt_def m1_def Let_def)
    then show ?thesis using st [OF m1(1)] m1(2) t w by simp
  next
    case False
    then have "m' = m1\<lparr>tm_thing_files := fs\<rparr>"
      using assms(4) p by (auto simp: detach_attempt_def m1_def Let_def split: sum.splits option.splits)
    then show ?thesis using things_ok_same [OF m1(1)] m1(2) by simp
  qed
qed

subsection \<open>Runs\<close>

text \<open>
  One operation of the manager: a request that was answered, or an attempt of a goroutine, which may come at any later time and
  then holds any object of the tenant. New identifiers are fresh, as UUIDs are. The clocks, the random numbers and the faults of the store are arbitrary.
\<close>

inductive thing_step :: "thing_manager \<Rightarrow> thing_manager \<Rightarrow> bool" where
  step_create: "fresh_id m uuid \<Longrightarrow> thing_REST_Create render e now seed uuid tzdb m obj = Some (m', r) \<Longrightarrow> thing_step m m'"
| step_update: "thing_REST_Update render e now tzdb m i obj v = Some (m', r) \<Longrightarrow> thing_step m m'"
| step_delete: "deleteThing e now m i v = (m', effs, r) \<Longrightarrow> thing_step m m'"
| step_detach: "om_ID held \<noteq> [] \<Longrightarrow> om_Tenant held = GetTenant \<Longrightarrow> detach_attempt e now m held = (m', finished) \<Longrightarrow> thing_step m m'"

inductive_cases thing_stepE: "thing_step m m'"

lemma REST_Create_ok:
  assumes "things_ok m" "fresh_id m uuid" "thing_REST_Create render e now seed uuid tzdb m obj = Some (m', r)"
  shows "things_ok m' \<and> tm_types m' = tm_types m"
proof (cases "ValidateFunc render ValidateThing obj")
  case None
  with assms(3) have "CreateThing e now seed uuid tzdb m obj = Some (m', r)" by (simp add: thing_REST_Create_def)
  with CreateThing_ok [OF assms(1,2)] CreateThing_cases show ?thesis by blast
qed (use assms in \<open>simp add: thing_REST_Create_def\<close>)

lemma thing_step_ok: "thing_step m m' \<Longrightarrow> things_ok m \<Longrightarrow> things_ok m' \<and> tm_types m' = tm_types m"
  by (elim thing_stepE) (blast dest: REST_Create_ok REST_Update_ok deleteThing_ok detach_ok)+

lemma thing_steps_ok: "thing_step\<^sup>*\<^sup>* m m' \<Longrightarrow> things_ok m \<Longrightarrow> things_ok m' \<and> tm_types m' = tm_types m"
  by (induction rule: rtranclp_induct) (auto dest: thing_step_ok)

lemma new_parent_returns: "things_ok m \<Longrightarrow> om_ID old \<noteq> [] \<Longrightarrow> new_parent m obj old \<noteq> None"
  by (auto simp: new_parent_def isMyChildThing_returns split: option.splits bool.splits)

lemma updateThing_returns: "new_parent m obj old \<noteq> None \<Longrightarrow> updateThing e now tzdb m i v obj old \<noteq> None"
  by (auto simp: updateThing_def Let_def split: option.splits sum.splits prod.splits)

lemma REST_Update_returns: "things_ok m \<Longrightarrow> thing_REST_Update render e now tzdb m i obj v \<noteq> None"
  using updateThing_returns [of m obj _ e now tzdb i v] new_parent_returns [of m _ obj] things_okD [of m i]
  by (auto simp: thing_REST_Update_def GetThingById_def split: option.splits)

lemma REST_Create_returns: "types_ok m \<Longrightarrow> thing_REST_Create render e now seed uuid tzdb m obj \<noteq> None"
proof -
  assume ok: "types_ok m"
  have inh: False if "inheritCharacteristicAndPropertySet m t = None" for t using inherit_returns [OF ok, of t] that by auto
  show ?thesis
    by (auto simp: thing_REST_Create_def CreateThing_def Let_def split: option.splits bool.splits sum.splits prod.splits dest: inh)
qed

text \<open>
  C1: no thing is above itself. From a state without cycles, after any sequence of requests to create, update and delete
  things and of detachments, with any faults of the store, no thing is among its own ancestors; and so in every state that is reached
  each further request returns, although the cycle check searches the children level by level without a bound.
\<close>

theorem things_stay_forest:
  assumes "thing_step\<^sup>*\<^sup>* m0 m" "things_ok m0" "types_ok m0"
  shows "(\<forall>c. (c, c) \<notin> {(c, p). \<exists>t. cache_load (tm_things m) c = Some t \<and> t_Parent t = Some p}\<^sup>+) \<and>
    thing_REST_Update render e now tzdb m i obj v \<noteq> None \<and> thing_REST_Create render e now seed uuid tzdb m obj \<noteq> None"
proof -
  from thing_steps_ok [OF assms(1,2)] have ok: "things_ok m" and ty: "tm_types m = tm_types m0" by blast+
  have "types_ok m" using assms(3) ty by (simp add: types_ok_def type_parent_def)
  moreover have "thing_tree.up m = {(c, p). \<exists>t. cache_load (tm_things m) c = Some t \<and> t_Parent t = Some p}"
    by (auto simp: thing_tree.up_def thing_parent_def bind_eq_Some_conv)
  ultimately show ?thesis
    using thing_tree.irrefl_up [OF ok] REST_Update_returns [OF ok] REST_Create_returns by auto
qed

text \<open>A request to put the plant under its pump.\<close>

definition under_pump :: v1_Thing where
  "under_pump = \<lparr>t1_Name = ''plant'', t1_Description = None, t1_TypeId = ''main.Pump'', t1_ParentId = ''pump'', t1_TimeZone = None, t1_Characteristics = []\<rparr>"

theorem things_stay_forest_witness:
  "thing_REST_Update (\<lambda>_. []) (env_at 3) 5 Some pumps ''plant'' under_pump ''1'' \<noteq> None"
proof -
  have "things_ok pumps" by (rule things_ok_same [OF plant_ok]) (simp add: pumps_def)
  from things_stay_forest [OF rtranclp.rtrancl_refl this pumps_ok] show ?thesis by blast
qed

text \<open>
  Updates that would close a cycle. A request to put a thing under itself or under any thing below it is answered with an error and changes no thing.
\<close>

theorem cycle_rejected:
  assumes "things_ok m" "thing_REST_Update render e now tzdb m i obj v = Some (m', r)"
    and "t1_ParentId obj = i \<or> (t1_ParentId obj, i) \<in> {(c, p). \<exists>t. cache_load (tm_things m) c = Some t \<and> t_Parent t = Some p}\<^sup>+"
  shows "(\<exists>err. r = Inl err) \<and> tm_things m' = tm_things m"
  using assms(2)
proof (cases rule: REST_Update_cases)
  case (2 old)
  have i: "om_ID old = i" "i \<noteq> []" using things_okD [OF assms(1) 2(1)] by blast+
  have up: "thing_tree.up m = {(c, p). \<exists>t. cache_load (tm_things m) c = Some t \<and> t_Parent t = Some p}"
    by (auto simp: thing_tree.up_def thing_parent_def bind_eq_Some_conv)
  with assms(3) 2(2) i have d: "t1_ParentId obj \<in> thing_tree.descendants m i" by (simp add: thing_tree.descendants_def)
  have "\<nexists>p. new_parent m obj old = Some (Inr p)"
  proof
    assume "\<exists>p. new_parent m obj old = Some (Inr p)"
    then obtain p where p: "new_parent m obj old = Some (Inr p)" by blast
    have "isMyChildThing m (om_ID old) (t1_ParentId obj) = Some True" using d i isMyChildThing_returns [OF assms(1), of i] by simp
    moreover have "t1_ParentId obj \<noteq> []"
    proof
      assume "t1_ParentId obj = []"
      moreover obtain q where "thing_parent m (t1_ParentId obj) = Some q" using d thing_tree.up_iff by (auto simp: thing_tree.descendants_def dest: tranclD)
      ultimately show False using things_okD [OF assms(1)] by (auto simp: thing_parent_def bind_eq_Some_conv)
    qed
    moreover have "t_Parent old \<noteq> Some (t1_ParentId obj)"
    proof
      assume "t_Parent old = Some (t1_ParentId obj)"
      then have "(i, t1_ParentId obj) \<in> thing_tree.up m" using 2(1) by (simp add: thing_tree.up_iff thing_parent_def)
      with d have "(i, i) \<in> (thing_tree.up m)\<^sup>+" by (auto simp: thing_tree.descendants_def)
      with thing_tree.irrefl_up [OF assms(1)] show False by blast
    qed
    ultimately show False using p by (auto simp: new_parent_def split: option.splits if_splits)
  qed
  with updateThing_cases [OF 2(3)] show ?thesis by blast
qed blast

theorem cycle_rejected_witness:
  "\<exists>m' err. thing_REST_Update (\<lambda>_. []) (env_at 3) 5 Some plant ''plant'' under_pump ''1'' = Some (m', Inl err) \<and> tm_things m' = tm_things plant"
proof -
  obtain m' r where u: "thing_REST_Update (\<lambda>_. []) (env_at 3) 5 Some plant ''plant'' under_pump ''1'' = Some (m', r)"
    using REST_Update_returns [OF plant_ok] by fastforce
  have "t1_ParentId under_pump = ''plant'' \<or>
      (t1_ParentId under_pump, ''plant'') \<in> {(c, p). \<exists>t. cache_load (tm_things plant) c = Some t \<and> t_Parent t = Some p}\<^sup>+"
    unfolding plant_up by (auto simp: under_pump_def)
  from cycle_rejected [OF plant_ok u this] u show ?thesis by blast
qed

subsection \<open>Single operations\<close>

lemma upsert_map_of: "map_of (upsert_characteristics cs ncs) n = map_of (cs @ ncs) n"
proof (induction ncs arbitrary: cs)
  case (Cons nc ncs)
  have "map_of (cs @ ncs) n = map_of (cs @ nc # ncs) n" if "list_ex (\<lambda>oc. fst nc = fst oc) cs"
  proof -
    from that have "map_of cs (fst nc) \<noteq> None" by (auto simp: list_ex_iff map_of_eq_None_iff)
    then show ?thesis by (cases nc) (auto simp: map_add_def split: option.split)
  qed
  with Cons [of cs] Cons [of "cs @ [nc]"] show ?case by (simp add: upsert_characteristics_def)
qed (simp add: upsert_characteristics_def)

lemma upsert_names_distinct: "distinct (map fst cs) \<Longrightarrow> distinct (map fst (upsert_characteristics cs ncs))"
proof (induction ncs arbitrary: cs)
  case (Cons nc ncs)
  have "distinct (map fst (cs @ [nc]))" if "\<not> list_ex (\<lambda>oc. fst nc = fst oc) cs"
    using that Cons.prems by (auto simp: list_ex_iff)
  with Cons show ?case by (simp add: upsert_characteristics_def)
qed (simp add: upsert_characteristics_def)

text \<open>
  The characteristics of an updated thing are exactly those of the request, of a repeated name the first one; none of the
  old values stays. (The loops that look as if they kept old values lose them all, and the request restates the list.)
\<close>

theorem update_characteristics:
  assumes "updateThing e now tzdb m i v obj old = Some (m', Inr t)"
  shows "distinct (map fst (t_Characteristics t)) \<and> map_of (t_Characteristics t) = map_of (t1_Characteristics obj) \<and>
    cache_load (tm_things m') i = Some t"
proof -
  from updateThing_cases [OF assms] have "t_Characteristics t = upsert_characteristics [] (t1_Characteristics obj)" "cache_load (tm_things m') i = Some t"
    by auto
  with upsert_map_of [of "[]" "t1_Characteristics obj"] upsert_names_distinct [of "[]" "t1_Characteristics obj"] show ?thesis
    by (simp add: fun_eq_iff)
qed

text \<open>A plant in a store, and a request without characteristics.\<close>

definition stored_plant :: thing_manager where
  "stored_plant = plant\<lparr>tm_thing_files := [(''things/plant'', \<lparr>f_obj = Some (some_thing ''plant'' None), f_mtime = 1\<rparr>),
                                          (''things/pump'', \<lparr>f_obj = Some (some_thing ''pump'' (Some ''plant'')), f_mtime = 1\<rparr>)]\<rparr>"

definition rename_plant :: v1_Thing where
  "rename_plant = under_pump\<lparr>t1_ParentId := [], t1_Description := Some ''north''\<rparr>"

lemma plain_things: "plain_elem things_resource" "plain_elem ''plant''" "plain_elem ''pump''"
  by (simp_all add: plain_elem_def)

lemma stored_plant_objs:
  "stored_obj things_resource (tm_thing_files stored_plant) ''plant'' = Some (some_thing ''plant'' None)"
  "stored_obj things_resource (tm_thing_files stored_plant) ''pump'' = Some (some_thing ''pump'' (Some ''plant''))"
proof -
  have "filepath_Join things_resource ''plant'' = ''things/plant''" "filepath_Join things_resource ''pump'' = ''things/pump''"
    using plain_things by (simp_all add: filepath_Join_plain)
  then show "stored_obj things_resource (tm_thing_files stored_plant) ''plant'' = Some (some_thing ''plant'' None)"
    "stored_obj things_resource (tm_thing_files stored_plant) ''pump'' = Some (some_thing ''pump'' (Some ''plant''))"
    using plain_things by (simp_all add: stored_obj_def stored_plant_def cache_load_def)
qed

theorem update_characteristics_witness:
  "\<exists>m' t. updateThing (env_at 3) 5 Some stored_plant ''plant'' ''1'' rename_plant (some_thing ''plant'' None) = Some (m', Inr t) \<and>
     map_of (t_Characteristics t) = map_of (t1_Characteristics rename_plant)"
proof -
  let ?new = "(some_thing ''plant'' None)\<lparr>om_ModTime := 5, t_Description := Some ''north'', t_Parent := None, t_Characteristics := []\<rparr>"
  have "stored_obj things_resource (tm_thing_files stored_plant) (om_ID ?new) = Some (some_thing ''plant'' None)"
    using stored_plant_objs(1) by (simp add: some_thing_def)
  from Store_persist_update [OF plain_things(1) _ _ _ this, of "env_at 3"] plain_things(2) obtain fs w where
    p: "Store_persist things_resource (env_at 3) (tm_thing_files stored_plant) ?new = (fs, Inr (Some (?new\<lparr>om_Version := w\<rparr>)))"
    by (auto simp: env_at_def time_IsZero_def some_thing_def)
  have new: "?new = (some_thing ''plant'' None)\<lparr>om_ModTime := 5, t_Description := Some ''north'', t_TimeZone := None, t_Parent := None, t_Characteristics := []\<rparr>"
    by (simp add: some_thing_def)
  have "\<exists>m' t. updateThing (env_at 3) 5 Some stored_plant ''plant'' ''1'' rename_plant (some_thing ''plant'' None) = Some (m', Inr t)"
    using p unfolding new
    by (simp add: updateThing_def load_zone_def unknown_characteristic_def new_parent_def rename_plant_def under_pump_def some_thing_def
        drop_characteristics_def upsert_characteristics_def Let_def stored_plant_def plant_def cache_load_def)
  with update_characteristics show ?thesis by blast
qed

text \<open>
  What a deletion leaves to do. A successful deletion removes exactly the thing from the cache and
  asks, in this order, for the job that removes its data, for the detachment of exactly its children, and for the removal of its agent.
\<close>

theorem deleteThing_effects:
  assumes "things_ok m" "deleteThing e now m i v = (m', effs, Inr t)"
  shows "cache_load (tm_things m') = (cache_load (tm_things m))(i := None) \<and>
    (\<exists>cs. effs = DeleteThingJobOf i now # map DetachChild cs @ [DeleteAgentOf i] \<and>
       set cs = {c. cache_load (tm_things m) (om_ID c) = Some c \<and> t_Parent c = Some i \<and> om_ID c \<noteq> i})"
proof -
  from assms(2) have c: "cache_load (tm_things m) i = Some t" and th: "tm_things m' = cache_delete i (tm_things m)"
    and effs: "effs = DeleteThingJobOf i now # map DetachChild (child_things m' i) @ [DeleteAgentOf i]"
    by (auto simp: deleteThing_def Let_def split: option.splits if_splits prod.splits sum.splits)
  have ok: "things_ok m'" by (rule things_ok_delete [OF assms(1) th])
  have "i \<noteq> []" using things_okD [OF assms(1) c] by blast
  then have "set (child_things m' i) = {c. cache_load (tm_things m) (om_ID c) = Some c \<and> t_Parent c = Some i \<and> om_ID c \<noteq> i}"
    by (auto simp: child_things_set [OF ok] th split: if_splits)
  with effs th show ?thesis by (auto simp: fun_eq_iff)
qed

lemma delete_stored:
  assumes "cache_load (tm_things m) i = Some t" "om_Version t = v" "stored_obj things_resource (tm_thing_files m) i = Some t"
    and "plain_elem i" "pe_fault e = no_fault"
  shows "\<exists>m' effs. deleteThing e now m i v = (m', effs, Inr t) \<and> stored_obj things_resource (tm_thing_files m') = (stored_obj things_resource (tm_thing_files m))(i := None)"
proof -
  let ?del = "zero_thing\<lparr>om_ID := i, om_Version := v\<rparr>"
  obtain fs r where p: "Store_persist things_resource e (tm_thing_files m) ?del = (fs, r)" by fastforce
  have "\<exists>u. r = Inr u"
    using p assms by (auto simp: Store_persist_def FsClient_Delete_def Let_def zero_thing_def time_IsZero_def no_fault_def stored_obj_def bind_eq_Some_conv
        split: if_splits option.splits)
  then obtain u where r: "r = Inr u" by blast
  from Store_persist_delete [OF plain_things(1) _ _ _ p] assms(4,5) r
  have "stored_obj things_resource fs = (stored_obj things_resource (tm_thing_files m))(i := None)"
    by (auto simp: zero_thing_def time_IsZero_def no_fault_def)
  with p r assms(1,2) show ?thesis by (simp add: deleteThing_def Let_def)
qed

theorem deleteThing_effects_witness:
  "\<exists>m' effs t. deleteThing (env_at 3) 5 stored_plant ''plant'' ''1'' = (m', effs, Inr t) \<and>
     (\<exists>cs. effs = DeleteThingJobOf ''plant'' 5 # map DetachChild cs @ [DeleteAgentOf ''plant''])"
proof -
  have "cache_load (tm_things stored_plant) ''plant'' = Some (some_thing ''plant'' None)" "om_Version (some_thing ''plant'' None) = ''1''"
    by (simp_all add: stored_plant_def plant_def cache_load_def some_thing_def)
  from delete_stored [OF this stored_plant_objs(1) plain_things(2), of "env_at 3" 5] obtain m' effs where
    d: "deleteThing (env_at 3) 5 stored_plant ''plant'' ''1'' = (m', effs, Inr (some_thing ''plant'' None))" by (auto simp: env_at_def)
  have "things_ok stored_plant" by (rule things_ok_same [OF plant_ok]) (simp add: stored_plant_def)
  from deleteThing_effects [OF this d] d show ?thesis by blast
qed

text \<open>
  A late detachment brings a deleted thing back. The goroutine that detaches a child of a deleted thing does not look whether the child still
  exists: when the child was deleted before the attempt, the attempt creates its file again and puts it back into the cache.
\<close>

theorem detach_resurrects:
  assumes "deleteThing e now m (om_ID held) v = (m1, effs, Inr t)" "plain_elem (om_ID held)" "pe_fault e = no_fault"
    and "detach_attempt e' now' m1 held = (m2, finished)" "pe_fault e' = no_fault" "\<not> time_IsZero (om_ModTime held)"
  shows "cache_load (tm_things m1) (om_ID held) = None \<and>
    cache_load (tm_things m2) (om_ID held) = Some (held\<lparr>t_Parent := None, om_ModTime := now'\<rparr>) \<and>
    stored_obj things_resource (tm_thing_files m2) (om_ID held) = Some (held\<lparr>t_Parent := None\<rparr>)"
proof -
  let ?i = "om_ID held"
  from assms(1) obtain fs u where p: "Store_persist things_resource e (tm_thing_files m) (zero_thing\<lparr>om_ID := ?i, om_Version := v\<rparr>) = (fs, Inr u)"
    and th: "tm_things m1 = cache_delete ?i (tm_things m)" and f1: "tm_thing_files m1 = fs"
    by (auto simp: deleteThing_def Let_def split: option.splits if_splits prod.splits sum.splits)
  from p assms(3) have gone: "cache_load fs (filepath_Join things_resource ?i) = None"
    by (auto simp: Store_persist_def FsClient_Delete_def Let_def zero_thing_def time_IsZero_def no_fault_def split: if_splits option.splits)
  then have "Store_persist things_resource e' fs (held\<lparr>t_Parent := None\<rparr>) =
      (cache_store (filepath_Join things_resource ?i) \<lparr>f_obj = Some (held\<lparr>t_Parent := None\<rparr>), f_mtime = pe_now e'\<rparr> fs, Inr (Some (held\<lparr>t_Parent := None\<rparr>)))"
    using assms(5,6) by (simp add: Store_persist_def FsClient_Get_def FsClient_Create_def no_fault_def Let_def)
  with assms(4) th f1 have "tm_things m2 = cache_store ?i (held\<lparr>t_Parent := None, om_ModTime := now'\<rparr>) (tm_things m1)"
    "tm_thing_files m2 = cache_store (filepath_Join things_resource ?i) \<lparr>f_obj = Some (held\<lparr>t_Parent := None\<rparr>), f_mtime = pe_now e'\<rparr> fs"
    by (auto simp: detach_attempt_def Let_def)
  then show ?thesis using th assms(2) by (simp add: stored_obj_def)
qed

theorem detach_resurrects_witness:
  "\<exists>m1 effs m2 finished. deleteThing (env_at 3) 5 stored_plant ''pump'' ''1'' = (m1, effs, Inr (some_thing ''pump'' (Some ''plant''))) \<and>
     detach_attempt (env_at 4) 6 m1 (some_thing ''pump'' (Some ''plant'')) = (m2, finished) \<and>
     cache_load (tm_things m1) ''pump'' = None \<and> cache_load (tm_things m2) ''pump'' \<noteq> None"
proof -
  let ?pump = "some_thing ''pump'' (Some ''plant'')"
  have c: "cache_load (tm_things stored_plant) ''pump'' = Some ?pump" "om_Version ?pump = ''1''" and id: "om_ID ?pump = ''pump''"
    by (simp_all add: stored_plant_def plant_def cache_load_def some_thing_def)
  from delete_stored [OF c stored_plant_objs(2) plain_things(3), of "env_at 3" 5] obtain m1 effs where
    d: "deleteThing (env_at 3) 5 stored_plant ''pump'' ''1'' = (m1, effs, Inr ?pump)" by (auto simp: env_at_def)
  obtain m2 finished where a: "detach_attempt (env_at 4) 6 m1 ?pump = (m2, finished)" by fastforce
  have "plain_elem (om_ID ?pump)" "pe_fault (env_at n) = no_fault" "\<not> time_IsZero (om_ModTime ?pump)" for n
    using plain_things(3) by (simp_all add: env_at_def some_thing_def time_IsZero_def)
  from detach_resurrects [OF _ this(1,2) a this(2,3)] d a show ?thesis unfolding id by blast
qed

end
