(* ===== verification/Model_Manager.thy ===== *)
theory Model_Manager
  imports Thing_Types
begin

text \<open>
  The model manager as a whole: the requests to the managers of property set types, thing types and things, in any order, on one
  state. The manager of property set types asks the thing manager before it deletes (\<open>forbidDeletionFunc\<close>), and thing types point into
  its cache.

  Shown: over every sequence of requests both hierarchies stay without cycles, the parent of every type and every property set type that
  a type shares are cached, and every request returns.
\<close>

inductive model_step :: "thing_manager \<Rightarrow> thing_manager \<Rightarrow> bool" where
  on_things: "thing_step m m' \<Longrightarrow> model_step m m'"
| on_property_set_types: "m' = m\<lparr>tm_pstm := pst_serve render (IsReferredByThingType m) (tm_pstm m) c\<rparr> \<Longrightarrow> model_step m m'"
| create_type: "type_REST_Create is_float render e now seed uuids m obj = (m', tr) \<Longrightarrow> model_step m m'"
| update_type: "type_REST_Update is_float render e now uuids m i obj v = Some (m', effs, tr) \<Longrightarrow> model_step m m'"
| delete_type: "deleteThingType e m i v = (m', effs, tr) \<Longrightarrow> model_step m m'"

inductive_cases model_stepE: "model_step m m'"

subsection \<open>Shared property set types stay cached\<close>

definition shares :: "PropertySet list \<Rightarrow> string set" where
  "shares pss = {i. SharedPst i \<in> ps_PropertySetType ` set pss}"

definition pst_cached :: "pst_manager \<Rightarrow> string set" where
  "pst_cached pstm = dom (cache_load (pm_cache pstm))"

definition refs_ok :: "thing_manager \<Rightarrow> bool" where
  "refs_ok m \<longleftrightarrow> (\<forall>k tt. cache_load (tm_types m) k = Some tt \<longrightarrow> shares (tt_PropertySets tt) \<subseteq> pst_cached (tm_pstm m))"

lemma refs_okD: "refs_ok m \<Longrightarrow> cache_load (tm_types m) k = Some tt \<Longrightarrow> shares (tt_PropertySets tt) \<subseteq> pst_cached (tm_pstm m)"
  by (simp add: refs_ok_def)

lemma refs_ok_mono:
  assumes "refs_ok m" "pst_cached (tm_pstm m) \<subseteq> pst_cached (tm_pstm m')"
    and "\<And>k tt. cache_load (tm_types m') k = Some tt \<Longrightarrow> cache_load (tm_types m) k = Some tt \<or> shares (tt_PropertySets tt) \<subseteq> pst_cached (tm_pstm m')"
  shows "refs_ok m'"
  unfolding refs_ok_def using refs_okD [OF assms(1)] assms(2,3) by (meson subset_trans)

lemma shares_simps [simp]:
  "shares [] = {}" "shares (xs @ ys) = shares xs \<union> shares ys"
  "shares (x # xs) = (case ps_PropertySetType x of SharedPst i \<Rightarrow> {i} | OwnPst _ \<Rightarrow> {}) \<union> shares xs"
  by (auto simp: shares_def split: pst_ref.splits)

lemma shares_mono: "set xs \<subseteq> set ys \<Longrightarrow> shares xs \<subseteq> shares ys"
  by (auto simp: shares_def)

lemma createPropertySet_shares:
  "createPropertySet uuid pstm ps tt = Inr rps \<Longrightarrow> shares [rps] \<subseteq> pst_cached pstm"
  by (auto simp: createPropertySet_def GetPropertySetTypeById_def Let_def pst_cached_def split: option.splits)

lemma create_sets_shares:
  "create_sets uuids pstm tt k pss acc = Inr res \<Longrightarrow> shares acc \<subseteq> pst_cached pstm \<Longrightarrow> shares res \<subseteq> pst_cached pstm"
proof (induction pss arbitrary: k acc)
  case (Cons ps pss)
  show ?case
  proof (cases "by_name ps_Name acc (TrimSpace (ps1_Name ps)) = None")
    case True
    with Cons.prems(1) obtain rps where r: "createPropertySet (uuids k) pstm ps tt = Inr rps" "create_sets uuids pstm tt (Suc k) pss (acc @ [rps]) = Inr res"
      by (auto split: sum.splits)
    have "shares (acc @ [rps]) \<subseteq> pst_cached pstm"
      using createPropertySet_shares [OF r(1)] Cons.prems(2) by simp
    from Cons.IH [OF r(2) this] show ?thesis .
  qed (use Cons in auto)
qed simp

lemma set_update_last: "set (update_last nm n f xs) \<subseteq> set xs \<union> f ` set xs"
proof -
  have "set (update_first P f ys) \<subseteq> set ys \<union> f ` set ys" for P ys by (induction ys) auto
  from this [of "\<lambda>x. nm x = n" "rev xs"] show ?thesis by (simp add: update_last_def)
qed

lemma shares_update_last:
  "shares (update_last ps_Name n (\<lambda>ps. ps\<lparr>ps_PropertySetType := r\<rparr>) pss) \<subseteq> shares pss \<union> (case r of SharedPst i \<Rightarrow> {i} | OwnPst _ \<Rightarrow> {})"
  using set_update_last [of ps_Name n "\<lambda>ps. ps\<lparr>ps_PropertySetType := r\<rparr>" pss]
  by (force simp: shares_def split: pst_ref.splits)

lemma upsert_set_shares:
  assumes "upsert_set now uuid tt pstm pss nps = (pstm', Inr pss')" "shares pss \<subseteq> pst_cached pstm"
  shows "shares pss' \<subseteq> pst_cached pstm"
proof (cases "by_name ps_Name pss (ps1_Name nps)")
  case None
  with assms(1) obtain rps where r: "createPropertySet uuid pstm nps tt = Inr rps" "pss' = pss @ [rps]"
    by (auto simp: upsert_set_def split: sum.splits)
  show ?thesis using createPropertySet_shares [OF r(1)] assms(2) by (simp add: r(2))
next
  case (Some ops)
  have "pss' = pss \<or> (\<exists>r. pss' = update_last ps_Name (ps1_Name nps) (\<lambda>ps. ps\<lparr>ps_PropertySetType := r\<rparr>) pss \<and> (\<forall>i. r = SharedPst i \<longrightarrow> i \<in> pst_cached pstm))"
    using assms(1) Some by (auto simp: upsert_set_def GetPropertySetTypeById_def pst_cached_def split: option.splits if_splits sum.splits pst_ref.splits)
  then show ?thesis
  proof (elim disjE exE conjE)
    fix r
    assume "pss' = update_last ps_Name (ps1_Name nps) (\<lambda>ps. ps\<lparr>ps_PropertySetType := r\<rparr>) pss" and "\<forall>i. r = SharedPst i \<longrightarrow> i \<in> pst_cached pstm"
    with shares_update_last [of "ps1_Name nps" r pss] assms(2) show ?thesis by (cases r) auto
  qed (simp add: assms(2))
qed

lemma upsert_sets_shares:
  "upsert_sets now uuids tt k pstm pss npss = (pstm', Inr pss') \<Longrightarrow> shares pss \<subseteq> pst_cached pstm \<Longrightarrow> shares pss' \<subseteq> pst_cached pstm"
proof (induction npss arbitrary: k pstm pss)
  case (Cons nps npss)
  then obtain pstm1 pss1 where u: "upsert_set now (uuids k) tt pstm pss nps = (pstm1, Inr pss1)"
    and r: "upsert_sets now uuids tt (Suc k) pstm1 pss1 npss = (pstm', Inr pss')"
    by (auto split: prod.splits sum.splits)
  from Cons.IH [OF r] upsert_set_shares [OF u Cons.prems(2)] upsert_set_dom [OF u] show ?case by (simp add: pst_cached_def)
qed simp

lemma set_take_over: "set (take_over nm del news olds) \<subseteq> set news \<union> set olds"
proof -
  have "set (foldl (\<lambda>acc x. if by_name nm acc (nm x) \<noteq> None then update_last nm (nm x) (\<lambda>_. x) acc else acc @ [x]) acc news) \<subseteq> set news \<union> set acc" for acc
  proof (induction news arbitrary: acc)
    case (Cons x news)
    show ?case using set_update_last [of nm "nm x" "\<lambda>_. x" acc]
      Cons [of "if by_name nm acc (nm x) \<noteq> None then update_last nm (nm x) (\<lambda>_. x) acc else acc @ [x]"] by (auto split: if_splits)
  qed simp
  from this [of "filter (\<lambda>x. nm x \<notin> set del) olds"] show ?thesis by (auto simp: take_over_def)
qed

subsection \<open>Every step keeps the invariant\<close>

definition model_inv :: "thing_manager \<Rightarrow> bool" where
  "model_inv m \<longleftrightarrow> things_ok m \<and> types_inv m \<and> refs_ok m"

lemma thing_step_pstm: "thing_step m m' \<Longrightarrow> tm_pstm m' = tm_pstm m"
proof (induction rule: thing_step.induct)
  case (step_create m uuid render e now seed tzdb obj m' r)
  then show ?case
    by (auto simp: thing_REST_Create_def CreateThing_def Let_def split: option.splits bool.splits if_splits sum.splits prod.splits)
next
  case (step_update render e now tzdb m i obj v m' r)
  then show ?case
    by (auto simp: thing_REST_Update_def updateThing_def Let_def split: option.splits if_splits sum.splits prod.splits)
next
  case (step_delete e now m i v m' effs r)
  then show ?case by (auto simp: deleteThing_def Let_def split: option.splits if_splits sum.splits prod.splits)
next
  case (step_detach held e now m m' finished)
  then show ?case by (auto simp: detach_attempt_def Let_def split: option.splits if_splits sum.splits prod.splits)
qed

lemma pst_ops_cached:
  assumes "k \<in> pst_cached m"
  shows "k \<in> pst_cached (fst (CreatePropertySetType e now seed m obj))"
    and "k \<in> pst_cached (fst (updatePropertySetType e now m v obj old))"
    and "forbid k \<Longrightarrow> k \<in> pst_cached (fst (deletePropertySetType forbid e m i v))"
  using assms
  by (auto simp: pst_cached_def CreatePropertySetType_def updatePropertySetType_def deletePropertySetType_def Let_def
      split: option.splits sum.splits prod.splits)

lemma pst_serve_cached: "k \<in> pst_cached m \<Longrightarrow> forbid k \<Longrightarrow> k \<in> pst_cached (pst_serve render forbid m c)"
  by (cases "pc_request c")
    (simp_all add: pst_serve_def fst_handle pst_REST_def pst_REST_Create_def pst_REST_Update_def pst_ops_cached Let_def split: option.splits sum.splits)

lemma shares_referred:
  assumes "cache_load (tm_types m) k = Some tt" "i \<in> shares (tt_PropertySets tt)"
  shows "IsReferredByThingType m i"
proof -
  from assms(2) obtain ps where "ps \<in> set (tt_PropertySets tt)" "ps_PropertySetType ps = SharedPst i" by (auto simp: shares_def)
  then have "\<exists>ps\<in>set (tt_PropertySets tt). pst_ref_id (ps_PropertySetType ps) = i" by force
  with cache_load_in_set [OF assms(1)] show ?thesis by (force simp: IsReferredByThingType_def list_ex_iff cache_values_set)
qed

lemma refs_ok_serve:
  assumes "refs_ok m" "m' = m\<lparr>tm_pstm := pst_serve render (IsReferredByThingType m) (tm_pstm m) c\<rparr>"
  shows "refs_ok m'"
  unfolding refs_ok_def
proof (intro allI impI subsetI)
  fix k tt i
  assume "cache_load (tm_types m') k = Some tt" and i: "i \<in> shares (tt_PropertySets tt)"
  then have l: "cache_load (tm_types m) k = Some tt" by (simp add: assms(2))
  with refs_okD [OF assms(1)] i have "i \<in> pst_cached (tm_pstm m)" by blast
  from pst_serve_cached [OF this, of "IsReferredByThingType m"] shares_referred [OF l i] show "i \<in> pst_cached (tm_pstm m')" by (simp add: assms(2))
qed

lemma refs_ok_create:
  assumes "refs_ok m" "CreateThingType e now seed uuids m obj = (m', r)"
  shows "refs_ok m'"
proof -
  note cs = CreateThingType_cases [OF assms(2)]
  have "shares (tt_PropertySets tt) \<subseteq> pst_cached (tm_pstm m)"
    if "create_sets uuids (tm_pstm m) base k (tt1_PropertySets obj) [] = Inr (tt_PropertySets tt)" for tt k base
    using create_sets_shares [OF that] by simp
  with cs show ?thesis by (intro refs_ok_mono [OF assms(1)]) (auto split: if_splits, blast+)
qed

lemma type_REST_Update_keeps:
  assumes "model_inv m"
  shows "\<exists>m' effs r. type_REST_Update is_float render e now uuids m i obj v = Some (m', effs, r) \<and> model_inv m'"
proof (cases "cache_load (tm_types m) i")
  case (Some tt)
  show ?thesis
  proof (cases "ValidateUpdateFunc render (ValidateThingType is_float) (ValidateThingTypeUpdate (set_properties m)) obj tt")
    case None
    from assms have inv: "types_inv m" "things_ok m" "refs_ok m" by (simp_all add: model_inv_def)
    from updateThingType_returns [OF inv(1), of e now uuids i v obj tt] obtain m' effs r where
      u: "updateThingType e now uuids m i v obj tt = Some (m', effs, r)" "types_inv m'" "things_ok m'"
      and dm: "dom (cache_load (pm_cache (tm_pstm m'))) = dom (cache_load (pm_cache (tm_pstm m)))"
      and t: "tm_types m' = tm_types m \<or> (\<exists>tt' cached base dp pstm pss. cache_load (tm_types m') = (cache_load (tm_types m))(i \<mapsto> tt') \<and>
        cache_load (tm_types m) i = Some cached \<and>
        upsert_sets now uuids base 0 (tm_pstm m) (filter (\<lambda>ps. ps_Name ps \<notin> set dp) (tt_PropertySets tt)) (tt1_PropertySets obj) = (pstm, Inr pss) \<and>
        tt_PropertySets tt' = take_over ps_Name dp pss (tt_PropertySets cached))"
      using inv(2) by blast
    then have d: "pst_cached (tm_pstm m') = pst_cached (tm_pstm m)" by (simp add: pst_cached_def)
    have old: "shares (tt_PropertySets tt) \<subseteq> pst_cached (tm_pstm m)" using refs_okD [OF inv(3) Some] .
    have new: "shares (take_over ps_Name dp pss (tt_PropertySets tt)) \<subseteq> pst_cached (tm_pstm m)"
      if "upsert_sets now uuids base 0 (tm_pstm m) (filter (\<lambda>ps. ps_Name ps \<notin> set dp) (tt_PropertySets tt)) (tt1_PropertySets obj) = (pstm, Inr pss)"
      for base dp pstm pss
    proof -
      have "shares (filter (\<lambda>ps. ps_Name ps \<notin> set dp) (tt_PropertySets tt)) \<subseteq> pst_cached (tm_pstm m)"
        using old shares_mono [of "filter (\<lambda>ps. ps_Name ps \<notin> set dp) (tt_PropertySets tt)" "tt_PropertySets tt"] by auto
      from upsert_sets_shares [OF that this] old
      show ?thesis using shares_mono [of "take_over ps_Name dp pss (tt_PropertySets tt)" "pss @ tt_PropertySets tt"] set_take_over [of ps_Name dp pss] by auto
    qed
    have "refs_ok m'"
    proof (rule refs_ok_mono [OF inv(3)])
      fix k tt'
      assume "cache_load (tm_types m') k = Some tt'"
      with t Some show "cache_load (tm_types m) k = Some tt' \<or> shares (tt_PropertySets tt') \<subseteq> pst_cached (tm_pstm m')"
        unfolding d using new by (cases "k = i") (fastforce, auto)
    qed (simp add: d)
    with u None Some show ?thesis by (simp add: type_REST_Update_def model_inv_def)
  qed (use Some assms in \<open>simp add: type_REST_Update_def\<close>)
qed (use assms in \<open>simp add: type_REST_Update_def\<close>)

lemma type_REST_Create_keeps:
  assumes "model_inv m" "type_REST_Create is_float render e now seed uuids m obj = (m', r)"
  shows "model_inv m'"
proof (cases "ValidateFunc render (ValidateThingType is_float) obj")
  case None
  with assms(2) have c: "CreateThingType e now seed uuids m obj = (m', r)" by (simp add: type_REST_Create_def)
  have "tm_things m' = tm_things m" using CreateThingType_cases [OF c] by blast
  with assms(1) CreateThingType_inv [OF _ c] refs_ok_create [OF _ c] show ?thesis using things_ok_same by (auto simp: model_inv_def)
qed (use assms in \<open>simp add: type_REST_Create_def\<close>)

lemma deleteThingType_keeps:
  assumes "model_inv m" "deleteThingType e m i v = (m', effs, r)"
  shows "model_inv m'"
proof -
  note cs = deleteThingType_cases [OF assms(2)]
  have inv: "things_ok m" "types_inv m" "refs_ok m" using assms(1) by (simp_all add: model_inv_def)
  have "refs_ok m'" using cs by (intro refs_ok_mono [OF inv(3)]) (auto split: if_splits)
  with deleteThingType_inv [OF inv(2) assms(2)] things_ok_same [OF inv(1)] cs show ?thesis by (simp add: model_inv_def)
qed

lemma model_step_inv: "model_step m m' \<Longrightarrow> model_inv m \<Longrightarrow> model_inv m'"
proof (induction rule: model_step.induct)
  case (on_things m m')
  then have "things_ok m'" "tm_types m' = tm_types m" "tm_pstm m' = tm_pstm m"
    using thing_step_ok thing_step_pstm by (auto simp: model_inv_def)
  with on_things.prems show ?case using types_inv_same by (auto simp: model_inv_def intro: refs_ok_mono [of m])
next
  case (on_property_set_types m' render m c)
  from on_property_set_types(1) have "tm_things m' = tm_things m" "tm_types m' = tm_types m" by simp_all
  with on_property_set_types show ?case using things_ok_same types_inv_same refs_ok_serve by (auto simp: model_inv_def)
next
  case (create_type is_float render e now seed uuids m obj m' tr)
  then show ?case using type_REST_Create_keeps by blast
next
  case (update_type is_float render e now uuids m i obj v m' effs tr)
  then show ?case using type_REST_Update_keeps [of m is_float render e now uuids i obj v] by force
next
  case (delete_type e m i v m' effs tr)
  then show ?case using deleteThingType_keeps by blast
qed

lemma model_steps_inv: "model_step\<^sup>*\<^sup>* m m' \<Longrightarrow> model_inv m \<Longrightarrow> model_inv m'"
  by (induction rule: rtranclp_induct) (auto dest: model_step_inv)

definition new_manager :: thing_manager where
  "new_manager = \<lparr>tm_types = [], tm_type_files = [], tm_things = [], tm_thing_files = [], tm_pstm = pst_empty\<rparr>"

lemma model_inv_new: "model_inv new_manager"
  by (simp add: new_manager_def model_inv_def things_ok_def types_inv_def types_ok_def parents_cached_def refs_ok_def thing_parent_def type_parent_def acyclic_def)

text \<open>
  C2: the integrity of the model. After any sequence of requests to create, update and delete property set types, thing
  types and things, starting with no objects, with any faults of the store: the parent of every cached type is cached, every property
  set type that a cached type shares is cached, and no type is above itself.
\<close>

theorem model_integrity:
  assumes "model_step\<^sup>*\<^sup>* new_manager m" "cache_load (tm_types m) k = Some tt"
  shows "(tt_ParentTypeId tt \<noteq> [] \<longrightarrow> cache_load (tm_types m) (tt_ParentTypeId tt) \<noteq> None) \<and>
    (\<forall>ps\<in>set (tt_PropertySets tt). \<forall>i. ps_PropertySetType ps = SharedPst i \<longrightarrow> cache_load (pm_cache (tm_pstm m)) i \<noteq> None) \<and>
    (k, k) \<notin> {(c, p). \<exists>tt. cache_load (tm_types m) c = Some tt \<and> tt_ParentTypeId tt = p \<and> p \<noteq> []}\<^sup>+"
proof -
  have inv: "model_inv m" using model_steps_inv [OF assms(1) model_inv_new] .
  then have ok: "types_ok m" and pc: "parents_cached m" and rf: "refs_ok m" by (simp_all add: model_inv_def types_inv_def)
  have "type_tree.up m = {(c, p). \<exists>tt. cache_load (tm_types m) c = Some tt \<and> tt_ParentTypeId tt = p \<and> p \<noteq> []}"
    by (auto simp: type_tree.up_def type_parent_def bind_eq_Some_conv split: if_splits)
  moreover have "cache_load (pm_cache (tm_pstm m)) i \<noteq> None" if "ps \<in> set (tt_PropertySets tt)" "ps_PropertySetType ps = SharedPst i" for ps i
    using refs_okD [OF rf assms(2)] that by (force simp: shares_def pst_cached_def)
  ultimately show ?thesis using type_tree.irrefl_up [OF ok, of k] pc assms(2) by (auto simp: parents_cached_def)
qed

text \<open>
  C31: every request to a type is answered. In every state of such a run an update of a type returns, although it visits the
  derived types level by level without a bound, and so does an update of a thing.
\<close>

theorem model_requests_return:
  assumes "model_step\<^sup>*\<^sup>* new_manager m"
  shows "type_REST_Update is_float render e now uuids m i obj v \<noteq> None \<and> thing_REST_Update render' e' now' tzdb m i' obj' v' \<noteq> None"
  using type_REST_Update_keeps [OF model_steps_inv [OF assms model_inv_new], of is_float render e now uuids i obj v]
    model_steps_inv [OF assms model_inv_new] REST_Update_returns by (auto simp: model_inv_def)

text \<open>A request for a type of pumps.\<close>

definition pump_request :: v1_ThingType where
  "pump_request = \<lparr>tt1_Name = ''Pump'', tt1_Description = None, tt1_ParentTypeId = [], tt1_Instantiable = None, tt1_Characteristics = [], tt1_PropertySets = []\<rparr>"

definition pump_created :: thing_manager where
  "pump_created = fst (type_REST_Create (\<lambda>_. True) (\<lambda>_. []) (env_at 3) 5 7 (\<lambda>_. []) new_manager pump_request)"

lemma pump_created_step: "model_step\<^sup>*\<^sup>* new_manager pump_created"
  unfolding pump_created_def by (intro r_into_rtranclp create_type [where tr = "snd (type_REST_Create (\<lambda>_. True) (\<lambda>_. []) (env_at 3) 5 7 (\<lambda>_. []) new_manager pump_request)"]) simp

lemma pump_created_type: "\<exists>tt. cache_load (tm_types pump_created) ''main.Pump'' = Some tt"
proof -
  have "valid_type_name ''Pump''"
    by (simp add: valid_type_name_def illegalIDChars_def column_length_def is_word_char_def)
  then have "ValidateThingType (\<lambda>_. True) pump_request = []"
    by (simp add: ValidateThingType_def pump_request_def ValidateObjectMeta_type_nil_iff ValidateDescription_nil_iff validateCharacteristics_def
        validatePropertySets_def)
  then have "tm_types pump_created = tm_types (fst (CreateThingType (env_at 3) 5 7 (\<lambda>_. []) new_manager pump_request))"
    by (simp add: pump_created_def type_REST_Create_def ValidateFunc_def)
  then show ?thesis
    by (simp add: pump_request_def CreateThingType_def new_manager_def cache_load_def SetDefaults_ThingType_def Store_persist_def
        time_IsZero_def FsClient_Get_def FsClient_Create_def env_at_def no_fault_def GetTenant_def Let_def)
qed

theorem model_integrity_witness:
  "\<exists>tt. cache_load (tm_types pump_created) ''main.Pump'' = Some tt \<and> 
     (''main.Pump'', ''main.Pump'') \<notin> {(c, p). \<exists>tt. cache_load (tm_types pump_created) c = Some tt \<and> tt_ParentTypeId tt = p \<and> p \<noteq> []}\<^sup>+"
  using pump_created_type model_integrity [OF pump_created_step] by blast

theorem model_requests_return_witness:
  "type_REST_Update (\<lambda>_. True) (\<lambda>_. []) (env_at 4) 6 (\<lambda>_. []) pump_created ''main.Pump'' pump_request ''7'' \<noteq> None"
  using model_requests_return [OF pump_created_step] by blast

subsection \<open>Overridden definitions\<close>

text \<open>Three types, each derived from the one before, of which the last has a characteristic of its own, and a thing of the last.\<close>

definition color :: Characteristic where
  "color = \<lparr>c_Name = ''color'', c_Unit = [], c_Length = 0, c_DataType = DataTypeInt, c_DefaultValue = ''0'', c_Searchable = False\<rparr>"

definition chain_type :: "string \<Rightarrow> string \<Rightarrow> Characteristic list \<Rightarrow> ThingType" where
  "chain_type i p cs = \<lparr>om_Tenant = ''main'', om_Name = i, om_ID = i, om_Version = ''1'', om_ModTime = 1, tt_Description = None, tt_ParentTypeId = p,
     tt_Instantiable = Some True, tt_Characteristics = cs, tt_PropertySets = []\<rparr>"

definition chain :: thing_manager where
  "chain = \<lparr>tm_types = [(''A'', chain_type ''A'' [] []), (''B'', chain_type ''B'' ''A'' []), (''C'', chain_type ''C'' ''B'' [color])], tm_type_files = [],
     tm_things = [(''t'', (some_thing ''t'' None)\<lparr>t_Type := ''C'', t_CharacteristicByName := [(''color'', ''C'')]\<rparr>)], tm_thing_files = [], tm_pstm = pst_empty\<rparr>"

lemma chain_updated:
  "map_option (\<lambda>(m', effs). (map_option (\<lambda>t. (t_Type t, t_CharacteristicByName t)) (cache_load (tm_things m') ''t''), map_option char_names (cache_load (tm_types m') ''C'')))
     (updateCachedThingType chain ''A'' (chain_type ''A'' [] [color]) (chain_type ''A'' [] []) [] [''color''] [] []) =
   Some (Some (''C'', [(''color'', ''A'')]), Some [''color''])"
  by code_simp

text \<open>
  A definition that overrides at a distance of two types is lost. When a characteristic is added to a type, the things of a type
  two levels below that has a characteristic of the same name get the new definition, although their own type's is the nearest.
\<close>

theorem override_lost:
  "\<exists>m' effs t. updateCachedThingType chain ''A'' (chain_type ''A'' [] [color]) (chain_type ''A'' [] []) [] [''color''] [] [] = Some (m', effs) \<and>
     cache_load (tm_things m') ''t'' = Some t \<and> t_Type t = ''C'' \<and> nearest m' char_names ''C'' ''color'' ''C'' \<and>
     cache_load (t_CharacteristicByName t) ''color'' = Some ''A''"
proof -
  from chain_updated obtain m' effs t tt where
    "updateCachedThingType chain ''A'' (chain_type ''A'' [] [color]) (chain_type ''A'' [] []) [] [''color''] [] [] = Some (m', effs)"
    "cache_load (tm_things m') ''t'' = Some t" "t_Type t = ''C''" "t_CharacteristicByName t = [(''color'', ''A'')]"
    "cache_load (tm_types m') ''C'' = Some tt" "char_names tt = [''color'']"
    by (auto simp: map_option_case split: option.splits)
  then show ?thesis by (auto intro!: nearest.here simp: cache_load_def)
qed

end
