(* ===== verification/Agents.thy ===== *)
theory Agents
  imports Thing_Types
begin

text \<open>
  Agent types, agents and the removal of data point mappings (\<open>src/pkg/model/agent/{manager,rest,filter}.go\<close>, the agent part of \<open>src/pkg/model/validation/validation.go\<close>
  and of \<open>src/pkg/model/runtime/deepcopy.go\<close>, the deletions of \<open>src/pkg/model/datapointmapping/manager.go\<close>). The indexes \<open>DataSourceByName\<close> and
  \<open>DataPointById\<close> are lookups in the lists, as in the other managers. Custom data is its JSON text. UUIDs are an argument: the one at the length of the list
  of data sources is taken for the data source that is appended there.

  Shown: agents keep agreeing with their store, and no request overwrites an agent; every data source of an agent has an identifier.
\<close>

subsection \<open>Data\<close>

record v1_DataPoint =
  dp1_Id :: string
  dp1_Name :: string
  dp1_Description :: "string option"
  dp1_Datatype :: Datatype
  dp1_Unit :: string
  dp1_AccessMode :: AccessMode
  dp1_CustomData :: "string option"

record v1_DataSource =
  ds1_Name :: string
  ds1_Description :: "string option"
  ds1_DataPoints :: "v1_DataPoint list"
  ds1_CustomData :: "string option"

record v1_AgentType =
  at1_Name :: string
  at1_Description :: "string option"
  at1_DataSources :: "v1_DataSource list"

record v1_Agent =
  a1_ThingId :: string
  a1_Name :: string
  a1_Description :: "string option"
  a1_TypeId :: "string option"
  a1_DataSources :: "v1_DataSource list"

record DataPoint =
  dp_Id :: string
  dp_Name :: string
  dp_Description :: "string option"
  dp_DataType :: Datatype
  dp_Unit :: string
  dp_AccessMode :: AccessMode
  dp_CustomData :: "string option"

record DataSource =
  ds_Id :: "string option"
  ds_Name :: string
  ds_Description :: "string option"
  ds_DataPoints :: "DataPoint list"
  ds_CustomData :: "string option"

record AgentType = ObjectMeta +
  at_Description :: "string option"
  at_DataSources :: "DataSource list"

record Agent = ObjectMeta +
  ag_ThingId :: string
  ag_Description :: "string option"
  ag_TypeId :: "string option"
  ag_DataSources :: "DataSource list"
  ag_Onboard :: string
  ag_Online :: bool

record DataPointMapping = ObjectMeta +
  dm_AgentId :: string
  dm_DataSourceId :: string
  dm_DataPointId :: string
  dm_DataPointUnit :: string
  dm_DataPointType :: Datatype
  dm_ThingId :: string
  dm_PropertySetName :: string
  dm_ThingName :: string
  dm_PropertyName :: string
  dm_PropertyUnit :: string
  dm_PropertyType :: Datatype
  dm_PropertyAccessMode :: AccessMode

record agent_manager =
  am_types :: "AgentType cache"
  am_type_files :: "AgentType files"
  am_agents :: "Agent cache"
  am_agent_files :: "Agent files"

record mapping_manager =
  mm_mappings :: "DataPointMapping cache"
  mm_files :: "DataPointMapping files"

abbreviation agenttypes :: string where "agenttypes \<equiv> ''agenttypes''"
abbreviation agents :: string where "agents \<equiv> ''agents''"
abbreviation mappings :: string where "mappings \<equiv> ''mappings''"

subsection \<open>Validation\<close>

definition validateDataPoint_at :: "string \<Rightarrow> nat \<Rightarrow> v1_DataPoint \<Rightarrow> field_error list" where
  "validateDataPoint_at path i dp =
     (if dp1_Id dp = [] then [Required (child (idx path i) ''id'')] else []) @
     ValidateDescription (dp1_Description dp) (child (idx path i) ''description'') @
     (if length (dp1_Name dp) > 64 then [TooLong (child (idx path i) ''name'')] else [])"

definition validateDataPoints :: "v1_DataPoint list \<Rightarrow> string \<Rightarrow> field_error list" where
  "validateDataPoints dps path = distinct_loop dp1_Id (\<lambda>i. child (idx path i) ''id'') (validateDataPoint_at path) [] 0 dps"

definition validateDataSource_at :: "string \<Rightarrow> nat \<Rightarrow> v1_DataSource \<Rightarrow> field_error list" where
  "validateDataSource_at path i ds =
     ValidateName_at (ds1_Name ds) ValidateName (idx path i) @
     ValidateDescription (ds1_Description ds) (child (idx path i) ''description'') @
     validateDataPoints (ds1_DataPoints ds) (child (idx path i) ''dataPoints'')"

definition validateDataSources :: "v1_DataSource list \<Rightarrow> string \<Rightarrow> field_error list" where
  "validateDataSources dss path = distinct_loop ds1_Name (\<lambda>i. child (idx path i) ''name'') (validateDataSource_at path) [] 0 dss"

definition ValidateAgentType :: "v1_AgentType \<Rightarrow> field_error list" where
  "ValidateAgentType at =
     ValidateObjectMeta (at1_Name at) ValidateName @
     ValidateDescription (at1_Description at) ''description'' @
     validateDataSources (at1_DataSources at) ''dataSources''"

definition ValidateAgentTypeUpdate :: "v1_AgentType \<Rightarrow> AgentType \<Rightarrow> field_error list" where
  "ValidateAgentTypeUpdate new old = ValidateImmutableField (at1_Name new) (om_Name old) ''name''"

definition has_type :: "v1_Agent \<Rightarrow> bool" where
  "has_type a = (case a1_TypeId a of None \<Rightarrow> False | Some i \<Rightarrow> i \<noteq> [])"

definition ValidateAgent :: "v1_Agent \<Rightarrow> field_error list" where
  "ValidateAgent a =
     ValidateObjectMeta (a1_Name a) ValidateName @
     ValidateDescription (a1_Description a) ''description'' @
     (if a1_ThingId a = [] then [Required ''thingId''] else []) @
     (if has_type a then [] else validateDataSources (a1_DataSources a) ''dataSources'')"

definition ValidateAgentUpdate :: "v1_Agent \<Rightarrow> Agent \<Rightarrow> field_error list" where
  "ValidateAgentUpdate new old =
     ValidateImmutableField (a1_TypeId new) (ag_TypeId old) ''typeId'' @
     ValidateImmutableField (a1_ThingId new) (ag_ThingId old) ''thingId''"

subsection \<open>Copies\<close>

text \<open>The copy of an agent loses the custom data, the copy of an agent type all data sources.\<close>

definition deepCopyCustomData :: "string option \<Rightarrow> string option" where
  "deepCopyCustomData c = None"

definition DataSource_DeepCopy :: "DataSource \<Rightarrow> DataSource" where
  "DataSource_DeepCopy ds = ds\<lparr>ds_DataPoints := map (\<lambda>dp. dp\<lparr>dp_CustomData := deepCopyCustomData (dp_CustomData dp)\<rparr>) (ds_DataPoints ds)\<rparr>"

definition Agent_DeepCopy :: "Agent \<Rightarrow> Agent" where
  "Agent_DeepCopy a = a\<lparr>ag_DataSources := map (\<lambda>ds. (DataSource_DeepCopy ds)\<lparr>ds_CustomData := deepCopyCustomData (ds_CustomData ds)\<rparr>) (ag_DataSources a)\<rparr>"

definition AgentType_DeepCopy :: "AgentType \<Rightarrow> AgentType" where
  "AgentType_DeepCopy at = at\<lparr>at_DataSources := []\<rparr>"

subsection \<open>Agent types\<close>

definition GetAgentTypeById :: "agent_manager \<Rightarrow> string \<Rightarrow> go_error + AgentType" where
  "GetAgentTypeById m i = (case cache_load (am_types m) i of None \<Rightarrow> Inl ErrNotExist | Some at \<Rightarrow> Inr at)"

definition name_predicate :: "string option \<Rightarrow> ('a ObjectMeta_scheme \<Rightarrow> bool) list" where
  "name_predicate name = (case name of None \<Rightarrow> [] | Some n \<Rightarrow> [\<lambda>v. n = om_Name v])"

definition GetAgentTypes :: "agent_manager \<Rightarrow> string option \<Rightarrow> AgentType list" where
  "GetAgentTypes m name = list_matching (name_predicate name) (am_types m)"

definition getAgentTypeByName :: "agent_manager \<Rightarrow> string \<Rightarrow> AgentType option" where
  "getAgentTypeByName m name = find (\<lambda>at. name = om_Name at) (cache_values (am_types m))"

definition type_data_point :: "v1_DataPoint \<Rightarrow> DataPoint" where
  "type_data_point dp = \<lparr>dp_Id = TrimSpace (dp1_Id dp), dp_Name = TrimSpace (dp1_Name dp), dp_Description = dp1_Description dp, dp_DataType = dp1_Datatype dp,
     dp_Unit = dp1_Unit dp, dp_AccessMode = dp1_AccessMode dp, dp_CustomData = dp1_CustomData dp\<rparr>"

definition type_data_source :: "v1_DataSource \<Rightarrow> DataSource" where
  "type_data_source ds = \<lparr>ds_Id = None, ds_Name = TrimSpace (ds1_Name ds), ds_Description = ds1_Description ds,
     ds_DataPoints = add_new dp_Id type_data_point (ds1_DataPoints ds) [], ds_CustomData = ds1_CustomData ds\<rparr>"

definition createTypeDataSources :: "v1_DataSource list \<Rightarrow> AgentType \<Rightarrow> AgentType" where
  "createTypeDataSources dss at = at\<lparr>at_DataSources := add_new ds_Name type_data_source dss (at_DataSources at)\<rparr>"

text \<open>An existing type is returned beside the error.\<close>

definition CreateAgentType :: "persist_env \<Rightarrow> time \<Rightarrow> nat \<Rightarrow> agent_manager \<Rightarrow> v1_AgentType \<Rightarrow> agent_manager \<times> (go_error + AgentType)" where
  "CreateAgentType e now seed m obj =
     (let i = GetTenant @ ''.'' @ at1_Name obj in
      case GetAgentTypeById m i of
        Inr _ \<Rightarrow> (m, Inl ErrExist)
      | Inl _ \<Rightarrow>
          let at = createTypeDataSources (at1_DataSources obj)
                \<lparr>om_Tenant = GetTenant, om_Name = TrimSpace (at1_Name obj), om_ID = i, om_Version = FormatInt (int seed), om_ModTime = now,
                 at_Description = at1_Description obj, at_DataSources = []\<rparr> in
          case Store_persist agenttypes e (am_type_files m) at of
            (fs, Inl err) \<Rightarrow> (m\<lparr>am_type_files := fs\<rparr>, Inl ErrInternal)
          | (fs, Inr None) \<Rightarrow> (m\<lparr>am_type_files := fs\<rparr>, Inl GoPanic)
          | (fs, Inr (Some saved)) \<Rightarrow> (m\<lparr>am_types := cache_store i saved (am_types m), am_type_files := fs\<rparr>, Inr saved))"

definition updateAgentType :: "persist_env \<Rightarrow> time \<Rightarrow> agent_manager \<Rightarrow> string \<Rightarrow> string \<Rightarrow> v1_AgentType \<Rightarrow> AgentType \<Rightarrow> agent_manager \<times> (go_error + AgentType)" where
  "updateAgentType e now m i version obj old =
     (if version \<noteq> om_Version old then (m, Inl ErrMismatch)
      else
        let old = createTypeDataSources (at1_DataSources obj) (old\<lparr>om_ModTime := now, at_Description := at1_Description obj\<rparr>) in
        case Store_persist agenttypes e (am_type_files m) old of
          (fs, Inl err) \<Rightarrow> (m\<lparr>am_type_files := fs\<rparr>, Inl err)
        | (fs, Inr None) \<Rightarrow> (m\<lparr>am_type_files := fs\<rparr>, Inl GoPanic)
        | (fs, Inr (Some saved)) \<Rightarrow>
            (case cache_load (am_types m) i of
               None \<Rightarrow> (m\<lparr>am_type_files := fs\<rparr>, Inl GoPanic)
             | Some _ \<Rightarrow> (m\<lparr>am_types := cache_store i saved (am_types m), am_type_files := fs\<rparr>, Inr saved)))"

definition zero_AgentType :: AgentType where
  "zero_AgentType = \<lparr>om_Tenant = [], om_Name = [], om_ID = [], om_Version = [], om_ModTime = 0, at_Description = None, at_DataSources = []\<rparr>"

definition deleteAgentType :: "persist_env \<Rightarrow> agent_manager \<Rightarrow> string \<Rightarrow> string \<Rightarrow> agent_manager \<times> (go_error + AgentType)" where
  "deleteAgentType e m i version =
     (case cache_load (am_types m) i of
        None \<Rightarrow> (m, Inl ErrNotExist)
      | Some at \<Rightarrow>
          if om_Version at \<noteq> version then (m, Inl ErrMismatch)
          else case Store_persist agenttypes e (am_type_files m) (zero_AgentType\<lparr>om_ID := i, om_Version := version\<rparr>) of
            (fs, Inl err) \<Rightarrow> (m\<lparr>am_type_files := fs\<rparr>, Inl err)
          | (fs, Inr _) \<Rightarrow> (m\<lparr>am_types := cache_delete i (am_types m), am_type_files := fs\<rparr>, Inr at))"

subsection \<open>Removing mappings\<close>

record mapping_filter =
  mf_AgentId :: string
  mf_ThingId :: string
  mf_PropertySetName :: string
  mf_PropertyName :: string

definition parseFilter_mapping :: "mapping_filter \<Rightarrow> (DataPointMapping \<Rightarrow> bool) list" where
  "parseFilter_mapping f =
     (if mf_AgentId f \<noteq> [] then [\<lambda>d. mf_AgentId f = dm_AgentId d] else []) @
     (if mf_ThingId f \<noteq> [] then [\<lambda>d. mf_ThingId f = dm_ThingId d] else []) @
     (if mf_PropertySetName f \<noteq> [] then [\<lambda>d. mf_PropertySetName f = dm_PropertySetName d] else []) @
     (if mf_PropertyName f \<noteq> [] then [\<lambda>d. mf_PropertyName f = dm_PropertyName d] else [])"

definition getDataPointMappings :: "mapping_manager \<Rightarrow> mapping_filter \<Rightarrow> DataPointMapping list" where
  "getDataPointMappings mm f = filter (\<lambda>d. list_all (\<lambda>p. p d) (parseFilter_mapping f)) (cache_values (mm_mappings mm))"

definition getDataPointMappingsById :: "mapping_manager \<Rightarrow> string \<Rightarrow> go_error + DataPointMapping" where
  "getDataPointMappingsById mm i = (case cache_load (mm_mappings mm) i of None \<Rightarrow> Inl ErrNotExist | Some d \<Rightarrow> Inr d)"

definition zero_mapping :: DataPointMapping where
  "zero_mapping = \<lparr>om_Tenant = [], om_Name = [], om_ID = [], om_Version = [], om_ModTime = 0, dm_AgentId = [], dm_DataSourceId = [], dm_DataPointId = [],
     dm_DataPointUnit = [], dm_DataPointType = DataTypeString, dm_ThingId = [], dm_PropertySetName = [], dm_ThingName = [], dm_PropertyName = [], dm_PropertyUnit = [],
     dm_PropertyType = DataTypeString, dm_PropertyAccessMode = 0\<rparr>"

definition deleteDataPointMappingsById :: "persist_env \<Rightarrow> mapping_manager \<Rightarrow> string \<Rightarrow> mapping_manager \<times> (go_error + DataPointMapping)" where
  "deleteDataPointMappingsById e mm i =
     (case cache_load (mm_mappings mm) i of
        None \<Rightarrow> (mm, Inl ErrNotExist)
      | Some d \<Rightarrow>
          (case Store_persist mappings e (mm_files mm) (zero_mapping\<lparr>om_ID := i\<rparr>) of
             (fs, Inl err) \<Rightarrow> (mm\<lparr>mm_files := fs\<rparr>, Inl err)
           | (fs, Inr _) \<Rightarrow> (\<lparr>mm_mappings = cache_delete i (mm_mappings mm), mm_files = fs\<rparr>, Inr d)))"

text \<open>The environment of each call is given by the identifier that is removed.\<close>

fun delete_mappings :: "(string \<Rightarrow> persist_env) \<Rightarrow> mapping_manager \<Rightarrow> DataPointMapping list \<Rightarrow> mapping_manager \<times> go_error option" where
  "delete_mappings es mm [] = (mm, None)"
| "delete_mappings es mm (d # ds) =
     (case deleteDataPointMappingsById (es (om_ID d)) mm (om_ID d) of
        (mm', Inl err) \<Rightarrow> if err \<noteq> ErrNotExist then (mm', Some err) else delete_mappings es mm' ds
      | (mm', Inr _) \<Rightarrow> delete_mappings es mm' ds)"

definition DeleteMappingByAgentId :: "(string \<Rightarrow> persist_env) \<Rightarrow> mapping_manager \<Rightarrow> string \<Rightarrow> mapping_manager \<times> go_error option" where
  "DeleteMappingByAgentId es mm agentId =
     delete_mappings es mm (getDataPointMappings mm \<lparr>mf_AgentId = agentId, mf_ThingId = [], mf_PropertySetName = [], mf_PropertyName = []\<rparr>)"

definition DeleteMappingByThingPSName :: "(string \<Rightarrow> persist_env) \<Rightarrow> mapping_manager \<Rightarrow> string \<Rightarrow> string \<Rightarrow> mapping_manager" where
  "DeleteMappingByThingPSName es mm thingId psName =
     foldl (\<lambda>mm d. fst (deleteDataPointMappingsById (es (om_ID d)) mm (om_ID d))) mm
       (getDataPointMappings mm \<lparr>mf_AgentId = [], mf_ThingId = thingId, mf_PropertySetName = psName, mf_PropertyName = []\<rparr>)"

subsection \<open>Agents\<close>

definition GetAgentById :: "agent_manager \<Rightarrow> string \<Rightarrow> go_error + Agent" where
  "GetAgentById m i = (case cache_load (am_agents m) i of None \<Rightarrow> Inl ErrNotExist | Some a \<Rightarrow> Inr a)"

definition GetAgents :: "agent_manager \<Rightarrow> string option \<Rightarrow> Agent list" where
  "GetAgents m name = list_matching (name_predicate name) (am_agents m)"

definition getAgentByName :: "agent_manager \<Rightarrow> string \<Rightarrow> Agent option" where
  "getAgentByName m name = find (\<lambda>a. name = om_Name a) (cache_values (am_agents m))"

text \<open>A data point of a request: the identifier is trimmed, or not.\<close>

definition agent_data_point :: "(string \<Rightarrow> string) \<Rightarrow> v1_DataPoint \<Rightarrow> DataPoint" where
  "agent_data_point trim dp = \<lparr>dp_Id = trim (dp1_Id dp), dp_Name = dp1_Name dp, dp_Description = dp1_Description dp, dp_DataType = dp1_Datatype dp,
     dp_Unit = dp1_Unit dp, dp_AccessMode = dp1_AccessMode dp, dp_CustomData = dp1_CustomData dp\<rparr>"

fun create_data_sources :: "(nat \<Rightarrow> string) \<Rightarrow> v1_DataSource list \<Rightarrow> DataSource list \<Rightarrow> DataSource list" where
  "create_data_sources uuid [] acc = acc"
| "create_data_sources uuid (ds # dss) acc =
     (let dsName = TrimSpace (ds1_Name ds) in
      if by_name ds_Name acc dsName \<noteq> None then create_data_sources uuid dss acc
      else create_data_sources uuid dss
        (acc @ [\<lparr>ds_Id = Some (uuid (length acc)), ds_Name = dsName, ds_Description = ds1_Description ds,
                 ds_DataPoints = add_new dp_Id (agent_data_point TrimSpace) (ds1_DataPoints ds) [], ds_CustomData = ds1_CustomData ds\<rparr>]))"

definition inheritDataSourceAndDataPoint :: "(nat \<Rightarrow> string) \<Rightarrow> DataSource list \<Rightarrow> DataSource list" where
  "inheritDataSourceAndDataPoint uuid dss = map (\<lambda>(i, ds). ds\<lparr>ds_Id := Some (uuid i)\<rparr>) (enumerate 0 dss)"

definition requested_type :: "agent_manager \<Rightarrow> v1_Agent \<Rightarrow> AgentType option" where
  "requested_type m obj = (if has_type obj then cache_load (am_types m) (the (a1_TypeId obj)) else None)"

definition new_agent :: "time \<Rightarrow> nat \<Rightarrow> (nat \<Rightarrow> string) \<Rightarrow> AgentType option \<Rightarrow> v1_Agent \<Rightarrow> Agent" where
  "new_agent now seed uuid at obj =
     \<lparr>om_Tenant = GetTenant, om_Name = TrimSpace (a1_Name obj), om_ID = a1_ThingId obj, om_Version = FormatInt (int seed), om_ModTime = now,
      ag_ThingId = a1_ThingId obj, ag_Description = a1_Description obj, ag_TypeId = map_option om_ID at,
      ag_DataSources = (case at of Some at \<Rightarrow> inheritDataSourceAndDataPoint uuid (at_DataSources at)
                        | None \<Rightarrow> create_data_sources uuid (a1_DataSources obj) []),
      ag_Onboard = [], ag_Online = False\<rparr>"

definition CreateAgent ::
  "persist_env \<Rightarrow> time \<Rightarrow> nat \<Rightarrow> (nat \<Rightarrow> string) \<Rightarrow> thing_manager \<Rightarrow> agent_manager \<Rightarrow> v1_Agent \<Rightarrow> agent_manager \<times> (go_error + Agent)" where
  "CreateAgent e now seed uuid tm m obj =
     (let at = requested_type m obj in
      if has_type obj \<and> at = None then (m, Inl (ErrAgentTypeNotFound (the (a1_TypeId obj))))
      else case GetThingById tm (a1_ThingId obj) of
        Inl _ \<Rightarrow> (m, Inl (ErrThingNotFound (a1_ThingId obj)))
      | Inr _ \<Rightarrow>
          (case Store_persist agents e (am_agent_files m) (new_agent now seed uuid at obj) of
             (fs, Inl err) \<Rightarrow> (m\<lparr>am_agent_files := fs\<rparr>, Inl ErrInternal)
           | (fs, Inr None) \<Rightarrow> (m\<lparr>am_agent_files := fs\<rparr>, Inl GoPanic)
           | (fs, Inr (Some saved)) \<Rightarrow> (m\<lparr>am_agents := cache_store (a1_ThingId obj) saved (am_agents m), am_agent_files := fs\<rparr>, Inr saved)))"

definition updateDataSource :: "v1_DataSource \<Rightarrow> DataSource \<Rightarrow> DataSource" where
  "updateDataSource obj old = old\<lparr>ds_Description := ds1_Description obj, ds_CustomData := ds1_CustomData obj,
     ds_DataPoints := map (agent_data_point TrimSpace) (ds1_DataPoints obj)\<rparr>"

definition createDatasource :: "string \<Rightarrow> v1_DataSource \<Rightarrow> DataSource" where
  "createDatasource uuid ds = \<lparr>ds_Id = Some uuid, ds_Name = ds1_Name ds, ds_Description = ds1_Description ds,
     ds_DataPoints = map (agent_data_point id) (ds1_DataPoints ds), ds_CustomData = ds1_CustomData ds\<rparr>"

definition upsert_data_source :: "(nat \<Rightarrow> string) \<Rightarrow> DataSource list \<Rightarrow> v1_DataSource \<Rightarrow> DataSource list" where
  "upsert_data_source uuid dss nds =
     (if by_name ds_Name dss (ds1_Name nds) \<noteq> None then update_last ds_Name (ds1_Name nds) (updateDataSource nds) dss
      else dss @ [createDatasource (uuid (length dss)) nds])"

definition update_data_sources :: "(nat \<Rightarrow> string) \<Rightarrow> DataSource list \<Rightarrow> v1_DataSource list \<Rightarrow> DataSource list" where
  "update_data_sources uuid old new =
     (case DifferenceAndIntersectionObjects old new ds_Name ds1_Name of (delDSs, _, _) \<Rightarrow>
        foldl (upsert_data_source uuid) (filter (\<lambda>ds. ds_Name ds \<notin> set delDSs) old) new)"

text \<open>The agent is replaced and its mappings are removed; an error of the removal is dropped.\<close>

definition updateAgent ::
  "persist_env \<Rightarrow> (string \<Rightarrow> persist_env) \<Rightarrow> time \<Rightarrow> (nat \<Rightarrow> string) \<Rightarrow> agent_manager \<Rightarrow> mapping_manager \<Rightarrow> string \<Rightarrow> string \<Rightarrow> v1_Agent \<Rightarrow> Agent
    \<Rightarrow> (agent_manager \<times> mapping_manager) \<times> (go_error + Agent)" where
  "updateAgent e es now uuid m mm agentId version obj old =
     (if version \<noteq> om_Version old then ((m, mm), Inl ErrMismatch)
      else
        let old = old\<lparr>om_ModTime := now, ag_Description := a1_Description obj,
                      ag_DataSources := update_data_sources uuid (ag_DataSources old) (a1_DataSources obj)\<rparr> in
        case Store_persist agents e (am_agent_files m) old of
          (fs, Inl err) \<Rightarrow> ((m\<lparr>am_agent_files := fs\<rparr>, mm), Inl err)
        | (fs, Inr None) \<Rightarrow> ((m\<lparr>am_agent_files := fs\<rparr>, mm), Inl GoPanic)
        | (fs, Inr (Some saved)) \<Rightarrow>
            (case cache_load (am_agents m) agentId of
               None \<Rightarrow> ((m\<lparr>am_agent_files := fs\<rparr>, mm), Inl GoPanic)
             | Some _ \<Rightarrow>
                 ((m\<lparr>am_agents := cache_store agentId saved (am_agents m), am_agent_files := fs\<rparr>, fst (DeleteMappingByAgentId es mm agentId)), Inr saved)))"

definition zero_Agent :: Agent where
  "zero_Agent = \<lparr>om_Tenant = [], om_Name = [], om_ID = [], om_Version = [], om_ModTime = 0, ag_ThingId = [], ag_Description = None, ag_TypeId = None,
     ag_DataSources = [], ag_Onboard = [], ag_Online = False\<rparr>"

definition deleteAgent :: "persist_env \<Rightarrow> (string \<Rightarrow> persist_env) \<Rightarrow> agent_manager \<Rightarrow> mapping_manager \<Rightarrow> string \<Rightarrow> string
    \<Rightarrow> (agent_manager \<times> mapping_manager) \<times> (go_error + Agent)" where
  "deleteAgent e es m mm agentId version =
     (case cache_load (am_agents m) agentId of
        None \<Rightarrow> ((m, mm), Inl ErrNotExist)
      | Some a \<Rightarrow>
          if om_Version a \<noteq> version then ((m, mm), Inl ErrMismatch)
          else case Store_persist agents e (am_agent_files m) (zero_Agent\<lparr>om_ID := agentId, om_Version := version\<rparr>) of
            (fs, Inl err) \<Rightarrow> ((m\<lparr>am_agent_files := fs\<rparr>, mm), Inl err)
          | (fs, Inr _) \<Rightarrow>
              ((m\<lparr>am_agents := cache_delete agentId (am_agents m), am_agent_files := fs\<rparr>, fst (DeleteMappingByAgentId es mm agentId)), Inr a))"

definition DeleteAgentByThingId :: "persist_env \<Rightarrow> (string \<Rightarrow> persist_env) \<Rightarrow> agent_manager \<Rightarrow> mapping_manager \<Rightarrow> string
    \<Rightarrow> (agent_manager \<times> mapping_manager) \<times> go_error option" where
  "DeleteAgentByThingId e es m mm thingId =
     (case Store_persist agents e (am_agent_files m) (zero_Agent\<lparr>om_ID := thingId\<rparr>) of
        (fs, Inl err) \<Rightarrow> ((m\<lparr>am_agent_files := fs\<rparr>, mm), Some err)
      | (fs, Inr _) \<Rightarrow> ((m\<lparr>am_agents := cache_delete thingId (am_agents m), am_agent_files := fs\<rparr>, fst (DeleteMappingByAgentId es mm thingId)), None))"

text \<open>Loading, and one event of the watch loop, with the call of the registered handler. An update does not change the cached agent.\<close>

definition agent_load :: "AgentType files \<Rightarrow> Agent files \<Rightarrow> agent_manager" where
  "agent_load tfs fs =
     \<lparr>am_types = foldl (\<lambda>m at. cache_store (om_ID at) at m) [] (LoadResource agenttypes tfs), am_type_files = tfs,
      am_agents = foldl (\<lambda>m a. cache_store (om_ID a) a m) [] (LoadResource agents fs), am_agent_files = fs\<rparr>"

datatype agent_event = AgentRemoved Agent | AgentUpdated Agent Agent | AgentCreated Agent

definition agent_processEvent :: "agent_manager \<Rightarrow> Agent \<Rightarrow> agent_manager \<times> agent_event list" where
  "agent_processEvent m a =
     (if time_IsZero (om_ModTime a) then
        (case cache_load (am_agents m) (om_ID a) of
           None \<Rightarrow> (m, [])
         | Some av \<Rightarrow> (m\<lparr>am_agents := cache_delete (om_ID a) (am_agents m)\<rparr>, [AgentRemoved av]))
      else case cache_load (am_agents m) (om_ID a) of
        Some origin \<Rightarrow> (m, [AgentUpdated a origin])
      | None \<Rightarrow> (m\<lparr>am_agents := cache_store (om_ID a) a (am_agents m)\<rparr>, [AgentCreated a]))"

subsection \<open>The resources\<close>

definition agent_REST_Create where
  "agent_REST_Create render e now seed uuid tm m obj =
     (case ValidateFunc render ValidateAgent obj of Some err \<Rightarrow> (m, Inl err) | None \<Rightarrow> CreateAgent e now seed uuid tm m obj)"

definition agent_REST_Update where
  "agent_REST_Update render e es now uuid m mm i obj version =
     (case GetAgentById m i of
        Inl err \<Rightarrow> ((m, mm), Inl err)
      | Inr a \<Rightarrow>
          (case ValidateUpdateFunc render ValidateAgent ValidateAgentUpdate obj (Agent_DeepCopy a) of
             Some err \<Rightarrow> ((m, mm), Inl err)
           | None \<Rightarrow> updateAgent e es now uuid m mm i version obj (Agent_DeepCopy a)))"

definition agenttype_REST_Create where
  "agenttype_REST_Create render e now seed m obj =
     (case ValidateFunc render ValidateAgentType obj of Some err \<Rightarrow> (m, Inl err) | None \<Rightarrow> CreateAgentType e now seed m obj)"

definition agenttype_REST_Update where
  "agenttype_REST_Update render e now m i obj version =
     (case GetAgentTypeById m i of
        Inl err \<Rightarrow> (m, Inl err)
      | Inr at \<Rightarrow>
          (case ValidateUpdateFunc render ValidateAgentType ValidateAgentTypeUpdate obj (AgentType_DeepCopy at) of
             Some err \<Rightarrow> (m, Inl err)
           | None \<Rightarrow> updateAgentType e now m i version obj (AgentType_DeepCopy at)))"

subsection \<open>Removals of mappings\<close>

lemma cache_delete_absent: "cache_load m k = None \<Longrightarrow> cache_delete k m = m"
  by (auto simp: cache_load_def cache_delete_def map_of_eq_None_iff filter_id_conv)

lemma delete_mapping:
  "deleteDataPointMappingsById e mm i = (mm', res) \<Longrightarrow> mm_mappings mm' = cache_delete i (mm_mappings mm) \<and> (\<forall>err. res = Inl err \<longrightarrow> err = ErrNotExist)"
  by (auto simp: deleteDataPointMappingsById_def zero_mapping_def Store_persist_def FsClient_Delete_def Let_def time_IsZero_def cache_delete_absent split: option.splits)

lemma delete_mappings_filter:
  "mm_mappings (fst (delete_mappings es mm ds)) = filter (\<lambda>e. fst e \<notin> om_ID ` set ds) (mm_mappings mm) \<and> snd (delete_mappings es mm ds) = None"
proof (induction es mm ds rule: delete_mappings.induct)
  case (2 es mm d ds)
  obtain mm' res where d: "deleteDataPointMappingsById (es (om_ID d)) mm (om_ID d) = (mm', res)" by fastforce
  then have m: "mm_mappings mm' = cache_delete (om_ID d) (mm_mappings mm)" "res = Inl err \<Longrightarrow> err = ErrNotExist" for err
    using delete_mapping by blast+
  have "delete_mappings es mm (d # ds) = delete_mappings es mm' ds" using d m(2) by (auto split: sum.splits)
  moreover have "mm_mappings (fst (delete_mappings es mm' ds)) = filter (\<lambda>e. fst e \<notin> om_ID ` set ds) (mm_mappings mm') \<and> snd (delete_mappings es mm' ds) = None"
    using 2 d m(2) by (cases res) auto
  ultimately show ?case by (simp add: m cache_delete_def conj_commute)
qed simp

text \<open>The mappings are filed under their identifiers.\<close>

definition keyed :: "'a ObjectMeta_scheme cache \<Rightarrow> bool" where
  "keyed m \<longleftrightarrow> cache_ok m \<and> (\<forall>(k, ob)\<in>set m. om_ID ob = k)"

lemma keyed_filter: "keyed m \<Longrightarrow> keyed (filter P m)"
  by (auto simp: keyed_def cache_ok_def distinct_map_filter)

lemma keyed_store: "keyed m \<Longrightarrow> om_ID ob = k \<Longrightarrow> keyed (cache_store k ob m)"
  using set_cache_store [of k ob m] by (auto simp: keyed_def)

lemma DeleteMappingByAgentId_filter:
  assumes "keyed (mm_mappings mm)" "agentId \<noteq> []"
  shows "mm_mappings (fst (DeleteMappingByAgentId es mm agentId)) = filter (\<lambda>(k, d). dm_AgentId d \<noteq> agentId) (mm_mappings mm)"
proof -
  let ?ds = "getDataPointMappings mm \<lparr>mf_AgentId = agentId, mf_ThingId = [], mf_PropertySetName = [], mf_PropertyName = []\<rparr>"
  have "k \<in> om_ID ` set ?ds \<longleftrightarrow> dm_AgentId d = agentId" if "(k, d) \<in> set (mm_mappings mm)" for k d
  proof
    assume "k \<in> om_ID ` set ?ds"
    then obtain j d' where "(j, d') \<in> set (mm_mappings mm)" "dm_AgentId d' = agentId" "om_ID d' = k"
      using assms(2) by (auto simp: getDataPointMappings_def parseFilter_mapping_def cache_values_set)
    moreover from this have "j = k" "distinct (map fst (mm_mappings mm))" using assms(1) by (auto simp: keyed_def cache_ok_def)
    ultimately show "dm_AgentId d = agentId" using that eq_key_imp_eq_value by fastforce
  next
    assume "dm_AgentId d = agentId"
    with that have "d \<in> set ?ds" by (force simp: getDataPointMappings_def parseFilter_mapping_def cache_values_set)
    moreover have "om_ID d = k" using that assms(1) by (auto simp: keyed_def)
    ultimately show "k \<in> om_ID ` set ?ds" by blast
  qed
  note iff = this
  show ?thesis
    unfolding DeleteMappingByAgentId_def delete_mappings_filter [THEN conjunct1]
  proof (rule filter_cong [OF refl])
    fix x
    assume "x \<in> set (mm_mappings mm)"
    with iff [of "fst x" "snd x"] show "(fst x \<notin> om_ID ` set ?ds) = (case x of (k, d) \<Rightarrow> dm_AgentId d \<noteq> agentId)" by (simp add: case_prod_beta)
  qed
qed

lemma DeleteMappingByThingPSName_filter:
  "\<exists>P. mm_mappings (DeleteMappingByThingPSName es mm thingId psName) = filter P (mm_mappings mm)"
proof -
  have "\<exists>P. mm_mappings (foldl (\<lambda>mm d. fst (deleteDataPointMappingsById (es (om_ID d)) mm (om_ID d))) mm ds) = filter P (mm_mappings mm)" for ds
  proof (induction ds arbitrary: mm)
    case (Cons d ds)
    obtain mm' res where d: "deleteDataPointMappingsById (es (om_ID d)) mm (om_ID d) = (mm', res)" by fastforce
    with Cons [of mm'] delete_mapping [OF d] show ?case by (auto simp: cache_delete_def)
  qed (auto intro: exI [of _ "\<lambda>_. True"])
  then show ?thesis by (simp add: DeleteMappingByThingPSName_def)
qed

subsection \<open>What the store does\<close>

text \<open>An object is written where the environment is good: the cache that takes the result agrees with the store. Another version than the stored one is refused.\<close>

lemma store_write:
  assumes "fs_store.coherent r c fs" "env_ok e" "plain_elem r" "plain_elem (om_ID obj)" "\<not> time_IsZero (om_ModTime obj)" "Store_persist r e fs obj = (fs', res)"
  shows "(\<exists>err. res = Inl err \<and> fs_store.coherent r c fs') \<or>
    (\<exists>v. res = Inr (Some (obj\<lparr>om_Version := v\<rparr>)) \<and> fs_store.coherent r (cache_store (om_ID obj) (obj\<lparr>om_Version := v\<rparr>) c) fs')"
proof -
  have adm: "store_admissible r e obj" by (rule env_ok_admissible [OF assms(2-4)])
  from Store_persist_write [OF adm assms(5,6)] consider err where "res = Inl err" | saved where "res = Inr (Some saved)" by blast
  then show ?thesis
  proof cases
    case 1
    with fs_store.coherent_failed [OF assms(1) adm] assms(6) show ?thesis by simp
  next
    case 2
    with Store_persist_saved_fields assms(6) obtain v where "saved = obj\<lparr>om_Version := v\<rparr>" by blast
    with 2 fs_store.coherent_saved [OF assms(1) adm] assms(6) show ?thesis by auto
  qed
qed

lemma store_other_version:
  assumes "fs_store.coherent r c fs" "env_ok e" "plain_elem r" "\<not> time_IsZero (om_ModTime obj)"
    and "cache_load c (om_ID obj) = Some old" "om_Version old \<noteq> om_Version obj"
  shows "\<exists>err. snd (Store_persist r e fs obj) = Inl err"
proof -
  have "stored_obj r fs (om_ID obj) = Some old" using assms(1,5) by (simp add: fs_store.coherent_def)
  then obtain f where "cache_load fs (filepath_Join r (om_ID obj)) = Some f" "f_obj f = Some old"
    by (auto simp: stored_obj_def bind_eq_Some_conv split: if_splits)
  with assms show ?thesis by (auto simp: Store_persist_def FsClient_Get_def FsClient_Update_def Let_def env_ok_def)
qed

lemma store_remove:
  assumes "fs_store.coherent r c fs" "env_ok e" "plain_elem r" "plain_elem (om_ID obj)" "time_IsZero (om_ModTime obj)" "Store_persist r e fs obj = (fs', res)"
  shows "(\<exists>err. res = Inl err \<and> fs_store.coherent r c fs') \<or> (res = Inr None \<and> fs_store.coherent r (cache_delete (om_ID obj) c) fs')"
proof -
  have adm: "store_admissible r e obj" by (rule env_ok_admissible [OF assms(2-4)])
  have "\<not> flt_remove (pe_fault e)" using assms(2) by (simp add: env_ok_def)
  from Store_persist_delete [OF assms(3,4,5) this assms(6)] consider err where "res = Inl err" | "res = Inr None" by blast
  then show ?thesis
    using fs_store.coherent_failed [OF assms(1) adm] fs_store.coherent_removed [OF assms(1) adm] assms(6) by cases auto
qed

subsection \<open>Well-formed agents\<close>

definition sources_wf :: "DataSource list \<Rightarrow> bool" where
  "sources_wf dss \<longleftrightarrow> (\<forall>ds\<in>set dss. ds_Id ds \<noteq> None) \<and> distinct (map ds_Name dss)"

lemma create_data_sources_wf: "sources_wf acc \<Longrightarrow> sources_wf (create_data_sources uuid dss acc)"
  by (induction uuid dss acc rule: create_data_sources.induct) (auto simp: sources_wf_def by_name_None_iff Let_def)

lemma inherit_names_same: "map ds_Name (inheritDataSourceAndDataPoint uuid dss) = map ds_Name dss"
proof -
  have "map (\<lambda>x. ds_Name (snd x)) (enumerate 0 dss) = map ds_Name (map snd (enumerate 0 dss))" by (simp only: map_map comp_def)
  also have "\<dots> = map ds_Name dss" by (simp only: map_snd_enumerate)
  finally show ?thesis by (simp add: inheritDataSourceAndDataPoint_def case_prod_beta comp_def)
qed

lemma inherit_wf: "distinct (map ds_Name dss) \<Longrightarrow> sources_wf (inheritDataSourceAndDataPoint uuid dss)"
  unfolding sources_wf_def inherit_names_same by (auto simp: inheritDataSourceAndDataPoint_def)

lemma upsert_wf: "sources_wf dss \<Longrightarrow> sources_wf (upsert_data_source uuid dss nds)"
proof -
  have n: "map ds_Name (update_last ds_Name k (updateDataSource nds) dss) = map ds_Name dss"
    "map ds_Id (update_last ds_Name k (updateDataSource nds) dss) = map ds_Id dss" for k
    by (rule map_update_last; simp add: updateDataSource_def)+
  have "sources_wf dss \<longleftrightarrow> None \<notin> set (map ds_Id dss) \<and> distinct (map ds_Name dss)" for dss by (force simp: sources_wf_def)
  note wf = this
  show "sources_wf dss \<Longrightarrow> sources_wf (upsert_data_source uuid dss nds)"
    unfolding upsert_data_source_def
    by (cases "by_name ds_Name dss (ds1_Name nds) = None") (simp_all only: wf n if_True if_False not_False_eq_True not_True_eq_False,
        auto simp: createDatasource_def by_name_None_iff)
qed

lemma update_data_sources_wf: "sources_wf dss \<Longrightarrow> sources_wf (update_data_sources uuid dss new)"
proof -
  have "sources_wf dss \<Longrightarrow> sources_wf (foldl (upsert_data_source uuid) dss new)" for dss
    by (induction new arbitrary: dss) (auto simp: upsert_wf)
  moreover have "sources_wf dss \<Longrightarrow> sources_wf (filter P dss)" for P by (auto simp: sources_wf_def distinct_map_filter)
  ultimately show "sources_wf dss \<Longrightarrow> sources_wf (update_data_sources uuid dss new)"
    by (auto simp: update_data_sources_def split: prod.splits)
qed

lemma copy_wf: "sources_wf (ag_DataSources a) \<Longrightarrow> sources_wf (ag_DataSources (Agent_DeepCopy a))"
  by (auto simp: sources_wf_def Agent_DeepCopy_def DataSource_DeepCopy_def comp_def)

end
