(* ===== verification/Rollup.thy ===== *)
theory Rollup
  imports Complex_Main Job_Manager Responses
begin

text \<open>
  The aggregation of time series in \<open>src/pkg/consumer/data/rollup.go\<close>: raw samples of a block are aggregated to one item, and the items of short blocks are
  rolled up to the item of a longer one.

  The arithmetic on \<open>float64\<close> is an argument (\<open>float_ops\<close>), so the definitions hold for Go's arithmetic; theorems on sums and
  averages are for exact arithmetic (\<open>real_ops\<close>). A column of the log storage holds the JSON form of an item, represented by
  what it decodes to: \<open>None\<close> when it does not decode. Go's \<open>map[bool]\<close>s are functions, zero where nothing was stored.

  Shown: rolling up the items of blocks gives the item of all their samples, for numbers in every field up to the standard deviation and for truth values with the
  durations, gaps between the blocks included; and a boolean rollup computed on the fly, which passes the duration of the whole interval instead of that of a block, is wrong.
\<close>

subsection \<open>Values and items\<close>

record 'f float_ops =
  fo_of_int :: "int \<Rightarrow> 'f"
  fo_add :: "'f \<Rightarrow> 'f \<Rightarrow> 'f"
  fo_sub :: "'f \<Rightarrow> 'f \<Rightarrow> 'f"
  fo_mul :: "'f \<Rightarrow> 'f \<Rightarrow> 'f"
  fo_div :: "'f \<Rightarrow> 'f \<Rightarrow> 'f"
  fo_pow2 :: "'f \<Rightarrow> 'f"
  fo_sqrt :: "'f \<Rightarrow> 'f"
  fo_less :: "'f \<Rightarrow> 'f \<Rightarrow> bool"
  fo_finite :: "'f \<Rightarrow> bool"

datatype 'f val = VFloat 'f | VInt64 int | VInt int | VBool bool | VOther string

record 'f sample =
  f_value :: "'f val"
  f_time :: time

record 'f RollupNumericItem =
  n_FirstTime :: time
  n_FirstValue :: "'f val"
  n_LastTime :: time
  n_LastValue :: "'f val"
  n_MinTime :: time
  n_MinValue :: "'f val"
  n_MaxTime :: time
  n_MaxValue :: "'f val"
  n_Avg :: 'f
  n_Sum :: 'f
  n_SD :: 'f
  n_GoodCnt :: int
  n_BadCnt :: int
  n_UncertainCnt :: int

record RollupBoolItem =
  b_FirstTrueTime :: time
  b_FirstFalseTime :: time
  b_LastTrueTime :: time
  b_LastFalseTime :: time
  b_LastValue :: bool
  b_TrueCnt :: int
  b_TrueDuration :: int
  b_FalseCnt :: int
  b_FalseDuration :: int

record 'i ResultColumn =
  rc_Value :: "'i option"
  rc_Time :: time

definition toFloat64 :: "'f float_ops \<Rightarrow> 'f val \<Rightarrow> 'f" where
  "toFloat64 ops v = (case v of VFloat x \<Rightarrow> x | VInt64 i \<Rightarrow> fo_of_int ops i | VInt i \<Rightarrow> fo_of_int ops i | _ \<Rightarrow> fo_of_int ops 0)"

subsection \<open>Numbers\<close>

text \<open>The loop for the least and greatest value: the values so far and their positions.\<close>

fun extremes :: "('f \<Rightarrow> 'f \<Rightarrow> bool) \<Rightarrow> nat \<Rightarrow> ('f \<times> 'f) list \<Rightarrow> 'f \<times> nat \<times> 'f \<times> nat \<Rightarrow> 'f \<times> nat \<times> 'f \<times> nat" where
  "extremes lt i [] acc = acc"
| "extremes lt i ((lo, hi) # xs) (minValue, minIndex, maxValue, maxIndex) =
     extremes lt (Suc i) xs
       (if lt lo minValue then lo else minValue, if lt lo minValue then i else minIndex,
        if lt maxValue hi then hi else maxValue, if lt maxValue hi then i else maxIndex)"

definition aggregateNumeric :: "'f float_ops \<Rightarrow> 'f sample list \<Rightarrow> 'f RollupNumericItem option" where
  "aggregateNumeric ops data =
     (if data = [] then None
      else
        let cnt = length data;
            vs = map (toFloat64 ops \<circ> f_value) data;
            (_, minIndex, _, maxIndex) = extremes (fo_less ops) 0 (map (\<lambda>v. (v, v)) vs) (hd vs, 0, hd vs, 0);
            sum = foldl (fo_add ops) (fo_of_int ops 0) vs;
            mean = fo_div ops sum (fo_of_int ops (int cnt));
            sq = foldl (\<lambda>a v. fo_add ops a (fo_pow2 ops (fo_sub ops v mean))) (fo_of_int ops 0) vs in
        Some \<lparr>n_FirstTime = f_time (data ! 0), n_FirstValue = f_value (data ! 0),
              n_LastTime = f_time (data ! (cnt - 1)), n_LastValue = f_value (data ! (cnt - 1)),
              n_MinTime = f_time (data ! minIndex), n_MinValue = f_value (data ! minIndex),
              n_MaxTime = f_time (data ! maxIndex), n_MaxValue = f_value (data ! maxIndex),
              n_Avg = mean, n_Sum = sum, n_SD = fo_sqrt ops (fo_div ops sq (fo_of_int ops (int cnt))),
              n_GoodCnt = wrap64 (int cnt), n_BadCnt = 0, n_UncertainCnt = 0\<rparr>)"

definition n_Cnt :: "'f RollupNumericItem \<Rightarrow> int" where
  "n_Cnt r = wrap64 (wrap64 (n_GoodCnt r + n_BadCnt r) + n_UncertainCnt r)"

text \<open>An item that did not decode stays a nil pointer, and reading it panics.\<close>

definition rollupNumeric :: "'f float_ops \<Rightarrow> 'f RollupNumericItem ResultColumn list \<Rightarrow> go_error + 'f RollupNumericItem option" where
  "rollupNumeric ops data =
     (if data = [] then Inr None
      else if list_ex (\<lambda>c. rc_Value c = None) data then Inl GoPanic
      else
        let items = map (the \<circ> rc_Value) data;
            cnt = length items;
            lohi = map (\<lambda>f. (toFloat64 ops (n_MinValue f), toFloat64 ops (n_MaxValue f))) items;
            (_, minIndex, _, maxIndex) = extremes (fo_less ops) 0 lohi (fst (hd lohi), 0, snd (hd lohi), 0);
            sum = foldl (\<lambda>a f. fo_add ops a (n_Sum f)) (fo_of_int ops 0) items;
            good = foldl (\<lambda>a f. wrap64 (a + n_GoodCnt f)) 0 items;
            bad = foldl (\<lambda>a f. wrap64 (a + n_BadCnt f)) 0 items;
            uncertain = foldl (\<lambda>a f. wrap64 (a + n_UncertainCnt f)) 0 items;
            total = fo_of_int ops (wrap64 (wrap64 (good + bad) + uncertain));
            mean = fo_div ops sum total;
            sq = foldl (\<lambda>a f. fo_add ops a (fo_mul ops (fo_of_int ops (n_Cnt f))
                   (fo_add ops (fo_pow2 ops (n_SD f)) (fo_pow2 ops (fo_sub ops (n_Avg f) mean))))) (fo_of_int ops 0) items in
        Inr (Some \<lparr>n_FirstTime = n_FirstTime (items ! 0), n_FirstValue = n_FirstValue (items ! 0),
              n_LastTime = n_LastTime (items ! (cnt - 1)), n_LastValue = n_LastValue (items ! (cnt - 1)),
              n_MinTime = n_MinTime (items ! minIndex), n_MinValue = n_MinValue (items ! minIndex),
              n_MaxTime = n_MaxTime (items ! maxIndex), n_MaxValue = n_MaxValue (items ! maxIndex),
              n_Avg = mean, n_Sum = sum, n_SD = fo_sqrt ops (fo_div ops sq total),
              n_GoodCnt = good, n_BadCnt = bad, n_UncertainCnt = uncertain\<rparr>))"

subsection \<open>Truth values\<close>

definition val_bool :: "'f val \<Rightarrow> bool option" where
  "val_bool v = (case v of VBool b \<Rightarrow> Some b | _ \<Rightarrow> None)"

record bool_scan =
  bs_sentry :: bool
  bs_firsts :: "bool \<Rightarrow> time"
  bs_durations :: "bool \<Rightarrow> duration"
  bs_trues :: "time list"
  bs_falses :: "time list"
  bs_cnts :: "bool \<Rightarrow> int"

definition scan_start :: "bool \<Rightarrow> time \<Rightarrow> time \<Rightarrow> bool_scan" where
  "scan_start v0 t0 start =
     \<lparr>bs_sentry = v0, bs_firsts = (\<lambda>_. 0)(v0 := t0), bs_durations = (\<lambda>_. 0)(v0 := time_Sub t0 start),
      bs_trues = [], bs_falses = [], bs_cnts = (\<lambda>_. 0)\<rparr>"

text \<open>One sample of the loop.\<close>

definition scan_bool :: "bool_scan \<Rightarrow> bool \<times> time \<Rightarrow> bool_scan" where
  "scan_bool s x =
     (case x of (v, t) \<Rightarrow>
        let s = (if v \<noteq> bs_sentry s
                 then s\<lparr>bs_firsts := (bs_firsts s)(v := t),
                        bs_durations := (bs_durations s)((\<not> v) := dur_add (bs_durations s (\<not> v)) (time_Sub t (bs_firsts s (\<not> v)))),
                        bs_sentry := v\<rparr>
                 else s);
            s = (if v then s\<lparr>bs_trues := bs_trues s @ [t]\<rparr> else s\<lparr>bs_falses := bs_falses s @ [t]\<rparr>) in
        s\<lparr>bs_cnts := (bs_cnts s)(v := wrap64 (bs_cnts s v + 1))\<rparr>)"

definition first_time :: "time list \<Rightarrow> time" where "first_time ts = (if ts = [] then 0 else hd ts)"
definition last_time :: "time list \<Rightarrow> time" where "last_time ts = (if ts = [] then 0 else last ts)"

definition aggregateBool :: "(bool \<times> time) list \<Rightarrow> time \<Rightarrow> time \<Rightarrow> RollupBoolItem option" where
  "aggregateBool data start end =
     (if data = [] then None
      else
        let (v0, t0) = hd data;
            lastValue = fst (last data);
            s = foldl scan_bool (scan_start v0 t0 start) data;
            durations = (bs_durations s)(lastValue := dur_add (bs_durations s lastValue) (time_Sub end (bs_firsts s lastValue)));
            whole = dur_Milliseconds (time_Sub end start) in
        Some \<lparr>b_FirstTrueTime = first_time (bs_trues s), b_FirstFalseTime = first_time (bs_falses s),
              b_LastTrueTime = last_time (bs_trues s), b_LastFalseTime = last_time (bs_falses s),
              b_LastValue = lastValue, b_TrueCnt = bs_cnts s True,
              b_TrueDuration = (if bs_cnts s True = 0 then 0 else if bs_cnts s False = 0 then whole else dur_Milliseconds (durations True)),
              b_FalseCnt = bs_cnts s False,
              b_FalseDuration = (if bs_cnts s True = 0 then whole else if bs_cnts s False = 0 then 0 else dur_Milliseconds (durations False))\<rparr>)"

definition block_start :: "time \<Rightarrow> int \<Rightarrow> time" where
  "block_start endTime durationMs = endTime + wrap64 (- durationMs * 1000000)"

record bool_merge =
  bm_item :: RollupBoolItem
  bm_durations :: "bool \<Rightarrow> int"
  bm_last :: "(bool \<times> time) option"

definition merge_start :: "bool \<Rightarrow> bool_merge" where
  "merge_start lastValue =
     \<lparr>bm_item = \<lparr>b_FirstTrueTime = 0, b_FirstFalseTime = 0, b_LastTrueTime = 0, b_LastFalseTime = 0, b_LastValue = lastValue,
                 b_TrueCnt = 0, b_TrueDuration = 0, b_FalseCnt = 0, b_FalseDuration = 0\<rparr>,
      bm_durations = (\<lambda>_. 0), bm_last = None\<rparr>"

text \<open>One item of the loop of \<open>rollupBool\<close>, with the time of its column; \<open>bm_last\<close> is \<open>None\<close> before the first one.\<close>

definition merge_bool :: "int \<Rightarrow> bool_merge \<Rightarrow> RollupBoolItem \<times> time \<Rightarrow> bool_merge" where
  "merge_bool durationMs m x =
     (case x of (f, endTime) \<Rightarrow>
        let startTime = block_start endTime durationMs;
            firstValue = (b_FirstFalseTime f = 0 \<or> b_FirstTrueTime f \<noteq> 0 \<and> b_FirstTrueTime f < b_FirstFalseTime f);
            firstTime = (if firstValue then b_FirstTrueTime f else b_FirstFalseTime f);
            d = bm_durations m;
            d = (case bm_last m of
                   None \<Rightarrow> d
                 | Some (lastValue, lastEndTime) \<Rightarrow>
                     if firstValue = lastValue
                     then d(firstValue := wrap64 (d firstValue + dur_Milliseconds (time_Sub startTime lastEndTime)))
                     else let d = d(lastValue := wrap64 (d lastValue + dur_Milliseconds (time_Sub firstTime lastEndTime))) in
                          d(firstValue := wrap64 (d firstValue - dur_Milliseconds (time_Sub firstTime startTime))));
            r = bm_item m;
            r = r\<lparr>b_FirstTrueTime := (if b_FirstTrueTime r = 0 then b_FirstTrueTime f else b_FirstTrueTime r),
                  b_FirstFalseTime := (if b_FirstFalseTime r = 0 then b_FirstFalseTime f else b_FirstFalseTime r),
                  b_LastTrueTime := (if b_LastTrueTime f \<noteq> 0 then b_LastTrueTime f else b_LastTrueTime r),
                  b_LastFalseTime := (if b_LastFalseTime f \<noteq> 0 then b_LastFalseTime f else b_LastFalseTime r),
                  b_TrueCnt := wrap64 (b_TrueCnt r + b_TrueCnt f), b_FalseCnt := wrap64 (b_FalseCnt r + b_FalseCnt f)\<rparr>;
            d = d(True := wrap64 (d True + b_TrueDuration f), False := wrap64 (d False + b_FalseDuration f)) in
        \<lparr>bm_item = r, bm_durations = d, bm_last = Some (b_LastValue f, endTime)\<rparr>)"

definition rollupBool :: "RollupBoolItem ResultColumn list \<Rightarrow> time \<Rightarrow> time \<Rightarrow> int \<Rightarrow> go_error + RollupBoolItem option" where
  "rollupBool data start end durationMs =
     (if data = [] then Inr None
      else if list_ex (\<lambda>c. rc_Value c = None) data then Inl GoPanic
      else
        let items = map (\<lambda>c. (the (rc_Value c), rc_Time c)) data;
            lastValue = b_LastValue (fst (last items));
            m = foldl (merge_bool durationMs) (merge_start lastValue) items;
            r = bm_item m;
            startTime = block_start (snd (hd items)) durationMs;
            firstValue = (b_FirstTrueTime r \<noteq> 0 \<and> (b_FirstFalseTime r = 0 \<or> b_FirstTrueTime r < b_FirstFalseTime r));
            d = bm_durations m;
            d = d(firstValue := wrap64 (d firstValue + dur_Milliseconds (time_Sub startTime start)));
            d = d(lastValue := wrap64 (d lastValue + dur_Milliseconds (time_Sub end (snd (last items))))) in
        Inr (Some (r\<lparr>b_TrueDuration := d True, b_FalseDuration := d False\<rparr>)))"

subsection \<open>Exact arithmetic\<close>

definition real_ops :: "real float_ops" where
  "real_ops = \<lparr>fo_of_int = of_int, fo_add = (+), fo_sub = (-), fo_mul = (*), fo_div = (/), fo_pow2 = (\<lambda>x. x\<^sup>2), fo_sqrt = sqrt, fo_less = (<),
     fo_finite = (\<lambda>_. True)\<rparr>"

lemma real_ops_sel [simp]:
  "fo_of_int real_ops = of_int" "fo_add real_ops = (+)" "fo_sub real_ops = (-)" "fo_mul real_ops = (*)" "fo_div real_ops = (/)"
  "fo_pow2 real_ops = (\<lambda>x. x\<^sup>2)" "fo_sqrt real_ops = sqrt" "fo_less real_ops = (<)"
  by (simp_all add: real_ops_def)

text \<open>JSON turns every number in an \<open>interface{}\<close> into a \<open>float64\<close>.\<close>

definition json_val :: "'f float_ops \<Rightarrow> 'f val \<Rightarrow> 'f val" where
  "json_val ops v = (case v of VInt64 i \<Rightarrow> VFloat (fo_of_int ops i) | VInt i \<Rightarrow> VFloat (fo_of_int ops i) | _ \<Rightarrow> v)"

definition json_item :: "'f float_ops \<Rightarrow> 'f RollupNumericItem \<Rightarrow> 'f RollupNumericItem" where
  "json_item ops r = r\<lparr>n_FirstValue := json_val ops (n_FirstValue r), n_LastValue := json_val ops (n_LastValue r),
     n_MinValue := json_val ops (n_MinValue r), n_MaxValue := json_val ops (n_MaxValue r)\<rparr>"

lemma toFloat64_json [simp]: "toFloat64 ops (json_val ops v) = toFloat64 ops v"
  by (cases v) (simp_all add: toFloat64_def json_val_def)

text \<open>The positions found by the loop are those of the first least and first greatest element.\<close>

definition pick :: "('a \<Rightarrow> 'a \<Rightarrow> bool) \<Rightarrow> 'a \<Rightarrow> 'a \<Rightarrow> 'a" where
  "pick lt a x = (if lt x a then x else a)"

lemma extremes_pick:
  assumes "xs = drop i ys" "p < length ys" "q < length ys"
  shows "\<exists>p' q' l h. p' < length ys \<and> q' < length ys \<and> extremes lt i (map (\<lambda>x. (lo x, hi x)) xs) (lo (ys ! p), p, hi (ys ! q), q) = (l, p', h, q') \<and>
     ys ! p' = foldl (pick (\<lambda>x y. lt (lo x) (lo y))) (ys ! p) xs \<and> ys ! q' = foldl (pick (\<lambda>x y. lt (hi y) (hi x))) (ys ! q) xs"
  using assms
proof (induction xs arbitrary: i p q)
  case (Cons x xs)
  then have x: "ys ! i = x" "xs = drop (Suc i) ys"
    by (metis nth_via_drop) (metis Cons.prems drop_Suc list.sel(3) tl_drop)
  let ?p = "if lt (lo x) (lo (ys ! p)) then i else p" and ?q = "if lt (hi (ys ! q)) (hi x) then i else q"
  have "lo (ys ! ?p) = (if lt (lo x) (lo (ys ! p)) then lo x else lo (ys ! p))" "hi (ys ! ?q) = (if lt (hi (ys ! q)) (hi x) then hi x else hi (ys ! q))"
    "ys ! ?p = pick (\<lambda>x y. lt (lo x) (lo y)) (ys ! p) x" "ys ! ?q = pick (\<lambda>x y. lt (hi y) (hi x)) (ys ! q) x"
    by (simp_all add: x(1) pick_def)
  moreover have "i < length ys" using Cons.prems(1) by (metis drop_eq_Nil list.distinct(1) not_less)
  then have "?p < length ys" "?q < length ys" using Cons.prems by simp_all
  ultimately show ?case using Cons.IH [OF x(2), of ?p ?q] by simp
qed simp

lemma pick_foldl:
  fixes key :: "'a \<Rightarrow> real"
  assumes "xs \<noteq> []"
  shows "pick (\<lambda>x y. key x < key y) a (foldl (pick (\<lambda>x y. key x < key y)) (hd xs) xs) = foldl (pick (\<lambda>x y. key x < key y)) a xs"
proof -
  have *: "pick (\<lambda>x y. key x < key y) a (foldl (pick (\<lambda>x y. key x < key y)) b xs) = foldl (pick (\<lambda>x y. key x < key y)) (pick (\<lambda>x y. key x < key y) a b) xs" for b xs
  proof (induction xs arbitrary: b)
    case (Cons x xs)
    have "pick (\<lambda>x y. key x < key y) a (pick (\<lambda>x y. key x < key y) b x) = pick (\<lambda>x y. key x < key y) (pick (\<lambda>x y. key x < key y) a b) x"
      by (auto simp: pick_def)
    then show ?case using Cons [of "pick (\<lambda>x y. key x < key y) b x"] by simp
  qed simp
  have "foldl (pick (\<lambda>x y. key x < key y)) (pick (\<lambda>x y. key x < key y) a (hd xs)) xs = foldl (pick (\<lambda>x y. key x < key y)) a xs"
    using assms by (cases xs) (auto simp: pick_def)
  with * show ?thesis by simp
qed

lemma foldl_add_sum_list: "foldl (+) a xs = a + sum_list (xs :: real list)"
  by (induction xs arbitrary: a) simp_all

lemma foldl_add_sum: "foldl (\<lambda>a x. a + g x) a xs = a + sum_list (map g xs)" for g :: "'a \<Rightarrow> real"
  by (induction xs arbitrary: a) simp_all

text \<open>What the aggregation computes, with the loops as sums and the extremes as picked samples.\<close>

abbreviation num :: "real sample \<Rightarrow> real" where "num f \<equiv> toFloat64 real_ops (f_value f)"

definition lowest :: "real sample list \<Rightarrow> real sample" where
  "lowest data = foldl (pick (\<lambda>x y. num x < num y)) (hd data) data"

definition highest :: "real sample list \<Rightarrow> real sample" where
  "highest data = foldl (pick (\<lambda>x y. num y < num x)) (hd data) data"

definition spread :: "real \<Rightarrow> real sample list \<Rightarrow> real" where
  "spread c data = (\<Sum>f\<leftarrow>data. (num f - c)\<^sup>2)"

definition mean :: "real sample list \<Rightarrow> real" where
  "mean data = (\<Sum>f\<leftarrow>data. num f) / real (length data)"

definition numeric_item :: "real sample list \<Rightarrow> real RollupNumericItem" where
  "numeric_item data =
    \<lparr>n_FirstTime = f_time (hd data), n_FirstValue = f_value (hd data), n_LastTime = f_time (last data), n_LastValue = f_value (last data),
     n_MinTime = f_time (lowest data), n_MinValue = f_value (lowest data), n_MaxTime = f_time (highest data), n_MaxValue = f_value (highest data),
     n_Avg = mean data, n_Sum = (\<Sum>f\<leftarrow>data. num f), n_SD = sqrt (spread (mean data) data / real (length data)),
     n_GoodCnt = int (length data), n_BadCnt = 0, n_UncertainCnt = 0\<rparr>"

lemma aggregateNumeric_eq:
  assumes "data \<noteq> []" "int (length data) < 2 ^ 63"
  shows "aggregateNumeric real_ops data = Some (numeric_item data)"
proof -
  obtain l p h q where e: "extremes (<) 0 (map (\<lambda>f. (num f, num f)) data) (num (data ! 0), 0, num (data ! 0), 0) = (l, p, h, q)"
    and pq: "data ! p = foldl (pick (\<lambda>x y. num x < num y)) (data ! 0) data" "data ! q = foldl (pick (\<lambda>x y. num y < num x)) (data ! 0) data"
    using extremes_pick [of data 0 data 0 0 "(<)" num num] assms(1) by auto
  have "hd (map (toFloat64 real_ops \<circ> f_value) data) = num (data ! 0)" using assms(1) by (simp add: hd_map hd_conv_nth)
  moreover have "map ((\<lambda>v. (v, v)) \<circ> (toFloat64 real_ops \<circ> f_value)) data = map (\<lambda>f. (num f, num f)) data" by simp
  moreover have "wrap64 (int (length data)) = int (length data)" using assms(2) by (simp add: wrap64_def)
  moreover have "foldl (\<lambda>a v. a + (v - c)\<^sup>2) 0 (map (toFloat64 real_ops \<circ> f_value) data) = spread c data" for c
    by (simp add: foldl_add_sum spread_def comp_def)
  ultimately show ?thesis using e pq assms(1)
    by (simp add: aggregateNumeric_def numeric_item_def Let_def lowest_def highest_def hd_conv_nth last_conv_nth foldl_add_sum_list mean_def comp_def)
qed

text \<open>The law of total variance.\<close>

lemma spread_shift:
  assumes "data \<noteq> []"
  shows "spread c data = spread (mean data) data + real (length data) * (mean data - c)\<^sup>2"
proof -
  let ?m = "mean data" and ?n = "real (length data)"
  have s: "(\<Sum>f\<leftarrow>data. num f) = ?n * ?m" using assms by (simp add: mean_def)
  have "spread c xs = spread ?m xs + 2 * (?m - c) * ((\<Sum>f\<leftarrow>xs. num f) - real (length xs) * ?m) + real (length xs) * (?m - c)\<^sup>2" for xs
    by (induction xs) (simp_all add: spread_def algebra_simps power2_eq_square)
  from this [of data] s show ?thesis by simp
qed

lemma picked_concat:
  fixes key :: "'a \<Rightarrow> real"
  defines "best \<equiv> \<lambda>xs. foldl (pick (\<lambda>x y. key x < key y)) (hd xs) xs"
  assumes "blocks \<noteq> []" "[] \<notin> set blocks"
  shows "best (foldl (pick (\<lambda>x y. key (best x) < key (best y))) (hd blocks) blocks) = best (concat blocks)"
proof -
  have step: "foldl (pick (\<lambda>x y. key x < key y)) a b = pick (\<lambda>x y. key x < key y) a (best b)" if "b \<noteq> []" for a b
    unfolding best_def pick_foldl [OF that] ..
  have "best (foldl (pick (\<lambda>x y. key (best x) < key (best y))) b0 bs) = foldl (pick (\<lambda>x y. key x < key y)) (best b0) (concat bs)"
    if "[] \<notin> set bs" for b0 bs
    using that
  proof (induction bs arbitrary: b0)
    case (Cons b bs)
    have "best (pick (\<lambda>x y. key (best x) < key (best y)) b0 b) = pick (\<lambda>x y. key x < key y) (best b0) (best b)" by (simp add: pick_def)
    moreover have "b \<noteq> []" using Cons.prems by auto
    ultimately show ?case using Cons step [of b "best b0"] by simp
  qed simp
  from this [OF assms(3), of "hd blocks"] have "best (foldl (pick (\<lambda>x y. key (best x) < key (best y))) (hd blocks) blocks) =
      foldl (pick (\<lambda>x y. key x < key y)) (best (hd blocks)) (concat blocks)" .
  moreover obtain b bs where b: "blocks = b # bs" "b \<noteq> []" using assms(2,3) by (cases blocks) auto
  moreover have "foldl (pick (\<lambda>x y. key x < key y)) (best b) b = best b" unfolding step [OF b(2)] by (simp add: pick_def)
  moreover have "best (b @ concat bs) = foldl (pick (\<lambda>x y. key x < key y)) (best b) (concat bs)" using b(2) by (simp add: best_def)
  ultimately show ?thesis by simp
qed

lemma lowest_concat:
  "blocks \<noteq> [] \<Longrightarrow> [] \<notin> set blocks \<Longrightarrow> lowest (foldl (pick (\<lambda>x y. num (lowest x) < num (lowest y))) (hd blocks) blocks) = lowest (concat blocks)"
  using picked_concat [of blocks num] unfolding lowest_def by blast

lemma highest_concat:
  "blocks \<noteq> [] \<Longrightarrow> [] \<notin> set blocks \<Longrightarrow> highest (foldl (pick (\<lambda>x y. num (highest y) < num (highest x))) (hd blocks) blocks) = highest (concat blocks)"
  using picked_concat [of blocks "\<lambda>x. - num x"] unfolding highest_def by simp

lemma sum_list_concat: "sum_list (map (\<lambda>b. sum_list (map g b)) blocks) = sum_list (map g (concat blocks))" for g :: "'a \<Rightarrow> 'b::monoid_add"
  by (induction blocks) simp_all

lemma spread_concat:
  "[] \<notin> set blocks \<Longrightarrow> (\<Sum>b\<leftarrow>blocks. real (length b) * ((sqrt (spread (mean b) b / real (length b)))\<^sup>2 + (mean b - c)\<^sup>2)) = spread c (concat blocks)"
proof (induction blocks)
  case (Cons b bs)
  have ne: "b \<noteq> []" using Cons.prems by auto
  have "0 \<le> spread (mean b) b" unfolding spread_def by (rule sum_list_nonneg) auto
  then have "real (length b) * ((sqrt (spread (mean b) b / real (length b)))\<^sup>2 + (mean b - c)\<^sup>2) = spread c b"
    using ne spread_shift [OF ne, of c] by (simp add: distrib_left)
  with Cons show ?case by (simp add: spread_def)
qed (simp add: spread_def)

lemma foldl_wrap_sum: "wrap64 a = a \<Longrightarrow> foldl (\<lambda>a x. wrap64 (a + g x)) a xs = wrap64 (a + sum_list (map g xs))"
proof (induction xs arbitrary: a)
  case (Cons x xs)
  have w: "wrap64 (wrap64 y) = wrap64 y" "wrap64 (wrap64 y + z) = wrap64 (y + z)" for y z
    by (simp_all add: wrap64_def mod_simps add_ac)
  from Cons.IH [of "wrap64 (a + g x)"] show ?case by (simp add: w add.assoc)
qed simp

lemma last_blocks: "blocks \<noteq> [] \<Longrightarrow> [] \<notin> set blocks \<Longrightarrow> last (concat blocks) = last (last blocks)"
proof (induction blocks)
  case (Cons b bs)
  show ?case
  proof (cases "bs = []")
    case False
    then have "concat bs \<noteq> []" using Cons.prems by (cases bs) auto
    with False Cons show ?thesis by simp
  qed (use Cons in simp)
qed simp

lemma rollupNumeric_items:
  assumes "map (the \<circ> rc_Value) cols = items" "\<not> list_ex (\<lambda>c. rc_Value c = None) cols" "items \<noteq> []"
    and "extremes (<) 0 (map (\<lambda>f. (toFloat64 real_ops (n_MinValue f), toFloat64 real_ops (n_MaxValue f))) items)
      (toFloat64 real_ops (n_MinValue (items ! 0)), 0, toFloat64 real_ops (n_MaxValue (items ! 0)), 0) = (l, p, h, q)"
    and "\<forall>f\<in>set items. n_BadCnt f = 0 \<and> n_UncertainCnt f = 0 \<and> 0 \<le> n_GoodCnt f" "(\<Sum>f\<leftarrow>items. n_GoodCnt f) < 2 ^ 63"
  defines "all_cnt \<equiv> real_of_int (\<Sum>f\<leftarrow>items. n_GoodCnt f)"
  defines "avg \<equiv> (\<Sum>f\<leftarrow>items. n_Sum f) / all_cnt"
  shows "rollupNumeric real_ops cols = Inr (Some
    \<lparr>n_FirstTime = n_FirstTime (items ! 0), n_FirstValue = n_FirstValue (items ! 0),
     n_LastTime = n_LastTime (last items), n_LastValue = n_LastValue (last items),
     n_MinTime = n_MinTime (items ! p), n_MinValue = n_MinValue (items ! p), n_MaxTime = n_MaxTime (items ! q), n_MaxValue = n_MaxValue (items ! q),
     n_Avg = avg, n_Sum = (\<Sum>f\<leftarrow>items. n_Sum f),
     n_SD = sqrt ((\<Sum>f\<leftarrow>items. n_GoodCnt f * ((n_SD f)\<^sup>2 + (n_Avg f - avg)\<^sup>2)) / all_cnt),
     n_GoodCnt = (\<Sum>f\<leftarrow>items. n_GoodCnt f), n_BadCnt = 0, n_UncertainCnt = 0\<rparr>)"
proof -
  have ne: "cols \<noteq> []" using assms(1,3) by auto
  have nn: "0 \<le> (\<Sum>f\<leftarrow>items. n_GoodCnt f)" using assms(5) by (intro sum_list_nonneg) auto
  then have w: "wrap64 (\<Sum>f\<leftarrow>items. n_GoodCnt f) = (\<Sum>f\<leftarrow>items. n_GoodCnt f)" using assms(6) by (simp add: wrap64_def)
  have w0: "wrap64 0 = 0" by (simp add: wrap64_def)
  have z: "map n_BadCnt items = map (\<lambda>_. 0) items" "map n_UncertainCnt items = map (\<lambda>_. 0) items" using assms(5) by auto
  have cnt: "foldl (\<lambda>a f. wrap64 (a + n_GoodCnt f)) 0 items = (\<Sum>f\<leftarrow>items. n_GoodCnt f)"
    "foldl (\<lambda>a f. wrap64 (a + n_BadCnt f)) 0 items = 0" "foldl (\<lambda>a f. wrap64 (a + n_UncertainCnt f)) 0 items = 0"
    by (simp_all add: foldl_wrap_sum [OF w0] w w0 z sum_list_triv)
  have "n_Cnt f = n_GoodCnt f" if "f \<in> set items" for f
  proof -
    have "n_GoodCnt f \<le> (\<Sum>f\<leftarrow>items. n_GoodCnt f)" using that assms(5) by (intro member_le_sum_list) auto
    then have "wrap64 (n_GoodCnt f) = n_GoodCnt f" using assms(5,6) that by (simp add: wrap64_def)
    then show ?thesis using assms(5) that by (simp add: n_Cnt_def)
  qed
  then have sq: "map (\<lambda>f. of_int (n_Cnt f) * ((n_SD f)\<^sup>2 + (n_Avg f - c)\<^sup>2)) items = map (\<lambda>f. of_int (n_GoodCnt f) * ((n_SD f)\<^sup>2 + (n_Avg f - c)\<^sup>2)) items" for c :: real
    by simp
  show ?thesis
    using assms(3,4)
    unfolding rollupNumeric_def if_not_P [OF ne] if_not_P [OF assms(2)] assms(1) Let_def
    by (simp add: cnt w foldl_add_sum sq all_cnt_def avg_def hd_map hd_conv_nth last_conv_nth)
qed

abbreviation stored_item :: "real sample list \<Rightarrow> real RollupNumericItem" where
  "stored_item b \<equiv> json_item real_ops (numeric_item b)"

lemma stored_item_sel [simp]:
  "n_MinValue (stored_item b) = json_val real_ops (f_value (lowest b))" "n_MaxValue (stored_item b) = json_val real_ops (f_value (highest b))"
  "n_GoodCnt (stored_item b) = int (length b)" "n_BadCnt (stored_item b) = 0" "n_UncertainCnt (stored_item b) = 0" "n_Sum (stored_item b) = (\<Sum>f\<leftarrow>b. num f)"
  "n_SD (stored_item b) = sqrt (spread (mean b) b / real (length b))" "n_Avg (stored_item b) = mean b"
  "n_FirstTime (stored_item b) = f_time (hd b)" "n_FirstValue (stored_item b) = json_val real_ops (f_value (hd b))"
  "n_LastTime (stored_item b) = f_time (last b)" "n_LastValue (stored_item b) = json_val real_ops (f_value (last b))"
  "n_MinTime (stored_item b) = f_time (lowest b)" "n_MaxTime (stored_item b) = f_time (highest b)"
  by (simp_all add: numeric_item_def json_item_def)

lemma stored_item_eq:
  "stored_item b =
    \<lparr>n_FirstTime = f_time (hd b), n_FirstValue = json_val real_ops (f_value (hd b)), n_LastTime = f_time (last b),
     n_LastValue = json_val real_ops (f_value (last b)), n_MinTime = f_time (lowest b), n_MinValue = json_val real_ops (f_value (lowest b)),
     n_MaxTime = f_time (highest b), n_MaxValue = json_val real_ops (f_value (highest b)),
     n_Avg = mean b, n_Sum = (\<Sum>f\<leftarrow>b. num f), n_SD = sqrt (spread (mean b) b / real (length b)),
     n_GoodCnt = int (length b), n_BadCnt = 0, n_UncertainCnt = 0\<rparr>"
  by (simp add: numeric_item_def json_item_def)

lemma rollupNumeric_blocks:
  assumes bl: "blocks \<noteq> []" "[] \<notin> set blocks" "int (length (concat blocks)) < 2 ^ 63"
    and cols: "map (the \<circ> rc_Value) cols = map stored_item blocks" "\<not> list_ex (\<lambda>c. rc_Value c = None) cols"
  shows "rollupNumeric real_ops cols = Inr (Some (stored_item (concat blocks)))"
proof -
  obtain l p h q where e: "extremes (<) 0 (map (\<lambda>b. (num (lowest b), num (highest b))) blocks) (num (lowest (blocks ! 0)), 0, num (highest (blocks ! 0)), 0) = (l, p, h, q)"
    and pq: "blocks ! p = foldl (pick (\<lambda>x y. num (lowest x) < num (lowest y))) (blocks ! 0) blocks"
      "blocks ! q = foldl (pick (\<lambda>x y. num (highest y) < num (highest x))) (blocks ! 0) blocks"
    and p: "p < length blocks" "q < length blocks"
    using extremes_pick [of blocks 0 blocks 0 0 "(<)" "\<lambda>b. num (lowest b)" "\<lambda>b. num (highest b)"] bl(1) by auto
  have good: "(\<Sum>b\<leftarrow>blocks. int (length b)) = int (length (concat blocks))" "(\<Sum>b\<leftarrow>blocks. real (length b)) = real (length (concat blocks))"
    by (simp_all add: length_concat sum_list_of_nat sum_list_of_nat [symmetric] comp_def)
  have b0: "blocks ! 0 = hd blocks" using bl(1) by (simp add: hd_conv_nth)
  have pq': "lowest (blocks ! p) = lowest (concat blocks)" "highest (blocks ! q) = highest (concat blocks)"
    unfolding pq b0 by (rule lowest_concat [OF bl(1,2)], rule highest_concat [OF bl(1,2)])
  have "hd blocks \<noteq> []" using bl(1,2) hd_in_set by metis
  then have fl: "hd (hd blocks) = hd (concat blocks)" "last (last blocks) = last (concat blocks)"
    using hd_concat [OF bl(1)] last_blocks [OF bl(1,2)] by simp_all
  show ?thesis
  proof (subst rollupNumeric_items [where items = "map stored_item blocks" and l = l and p = p and h = h and q = q, OF cols])
    show "extremes (<) 0 (map (\<lambda>f. (toFloat64 real_ops (n_MinValue f), toFloat64 real_ops (n_MaxValue f))) (map stored_item blocks))
        (toFloat64 real_ops (n_MinValue (map stored_item blocks ! 0)), 0, toFloat64 real_ops (n_MaxValue (map stored_item blocks ! 0)), 0) = (l, p, h, q)"
      using e bl(1) by (simp add: comp_def)
  qed (use bl p in \<open>simp_all add: comp_def good pq' b0 fl mean_def [of "concat blocks"] last_map spread_concat sum_list_concat stored_item_eq [of "concat blocks"]\<close>)
qed

text \<open>
  C18: rolling up is aggregating. The item rolled up from the stored items of several blocks of samples is the item of all
  samples: first and last value, the first least and greatest value with their times, sum, average, standard deviation and count (in exact arithmetic).
\<close>

theorem rollupNumeric_merges:
  assumes "bts \<noteq> []" "[] \<notin> set (map fst bts)" "int (length (concat (map fst bts))) < 2 ^ 63"
  shows "rollupNumeric real_ops (map (\<lambda>(b, t). \<lparr>rc_Value = map_option (json_item real_ops) (aggregateNumeric real_ops b), rc_Time = t\<rparr>) bts) =
    Inr (map_option (json_item real_ops) (aggregateNumeric real_ops (concat (map fst bts))))"
proof -
  let ?blocks = "map fst bts"
  let ?cols = "map (\<lambda>(b, t). \<lparr>rc_Value = map_option (json_item real_ops) (aggregateNumeric real_ops b), rc_Time = t\<rparr>) bts"
  have len: "length b \<le> length (concat ?blocks)" if "b \<in> set ?blocks" for b
    using that unfolding length_concat by (intro member_le_sum_list) auto
  have agg: "map_option (json_item real_ops) (aggregateNumeric real_ops b) = Some (stored_item b)" if "b \<in> set ?blocks" for b
    using that assms(2,3) len [OF that] aggregateNumeric_eq [of b] by (cases "b = []") auto
  have "concat ?blocks \<noteq> []" using assms(1,2) by (cases bts) auto
  then have "aggregateNumeric real_ops (concat ?blocks) = Some (numeric_item (concat ?blocks))" using assms(3) by (rule aggregateNumeric_eq)
  moreover have "map (the \<circ> rc_Value) ?cols = map stored_item ?blocks" "\<not> list_ex (\<lambda>c. rc_Value c = None) ?cols"
    using agg by (force simp: list_ex_iff)+
  ultimately show ?thesis using rollupNumeric_blocks [of ?blocks ?cols] assms by simp
qed

definition two_blocks :: "(real sample list \<times> time) list" where
  "two_blocks = [([\<lparr>f_value = VInt 3, f_time = 1\<rparr>, \<lparr>f_value = VFloat (1 / 2), f_time = 2\<rparr>], 60), ([\<lparr>f_value = VInt64 7, f_time = 61\<rparr>], 120)]"

theorem rollupNumeric_merges_witness:
  "rollupNumeric real_ops (map (\<lambda>(b, t). \<lparr>rc_Value = map_option (json_item real_ops) (aggregateNumeric real_ops b), rc_Time = t\<rparr>) two_blocks) =
    Inr (map_option (json_item real_ops) (aggregateNumeric real_ops (concat (map fst two_blocks))))"
  by (rule rollupNumeric_merges) (simp_all add: two_blocks_def)

subsection \<open>How long a value was held\<close>

text \<open>
  The reference: from time \<open>t\<close>, at which the value is \<open>v\<close>, through the samples up to \<open>e\<close>, for how long the value was \<open>b\<close>.
\<close>

fun held :: "bool \<Rightarrow> bool \<Rightarrow> time \<Rightarrow> (bool \<times> time) list \<Rightarrow> time \<Rightarrow> int" where
  "held b v t [] e = (if v = b then e - t else 0)"
| "held b v t ((w, u) # xs) e = (if v = b then u - t else 0) + held b w u xs e"

lemma held_append: "held b v t (xs @ ys) e = held b v t xs s + held b (fst (last ((v, t) # xs))) s ys e"
proof (induction xs arbitrary: v t)
  case Nil
  then show ?case by (cases ys) auto
next
  case (Cons x xs)
  then show ?case by (cases x) simp
qed

lemma held_bounds: "sorted_wrt (\<le>) (t # map snd xs @ [e]) \<Longrightarrow> 0 \<le> held b v t xs e \<and> held b v t xs e \<le> e - t"
proof (induction xs arbitrary: v t)
  case (Cons x xs)
  obtain w u where x: "x = (w, u)" by (cases x)
  from Cons.prems have "sorted_wrt (\<le>) (u # map snd xs @ [e])" "t \<le> u" "u \<le> e" by (simp_all add: x)
  with Cons.IH [of u w] show ?case by (simp add: x)
qed simp

lemma held_constant: "\<forall>x\<in>set xs. fst x = v \<Longrightarrow> held b v t xs e = (if v = b then e - t else 0)"
  by (induction b v t xs e rule: held.induct) auto

definition in64 :: "int \<Rightarrow> bool" where "in64 x \<longleftrightarrow> min_int64 \<le> x \<and> x \<le> max_int64"

lemma wrap64_in64 [simp]: "in64 x \<Longrightarrow> wrap64 x = x"
  by (simp add: in64_def min_int64_def max_int64_def wrap64_def)

lemma in64_wrap64 [simp]: "in64 (wrap64 x)"
  by (simp add: in64_def min_int64_def max_int64_def wrap64_def)

lemma in64_0 [simp]: "in64 0"
  by (simp add: in64_def min_int64_def max_int64_def)

lemma time_Sub_exact: "in64 (t - u) \<Longrightarrow> time_Sub t u = t - u"
  by (simp add: time_Sub_def in64_def)

lemma wrap64_absorb [simp]: "wrap64 (wrap64 x + y) = wrap64 (x + y)" "wrap64 (x + wrap64 y) = wrap64 (x + y)" "wrap64 (wrap64 x - y) = wrap64 (x - y)"
  by (simp_all add: wrap64_def mod_simps algebra_simps)

lemma in64_between: "s \<le> t \<Longrightarrow> t \<le> e \<Longrightarrow> s \<le> u \<Longrightarrow> u \<le> e \<Longrightarrow> e - s \<le> max_int64 \<Longrightarrow> in64 (t - u)"
  by (simp add: in64_def min_int64_def max_int64_def)

text \<open>The scan: what was held up to the last sample, in the durations and the open run.\<close>

lemma scan_durations:
  assumes "\<forall>x\<in>set xs. lo \<le> snd x \<and> snd x \<le> e" "lo \<le> bs_firsts s (bs_sentry s)" "bs_firsts s (bs_sentry s) \<le> e" "e - lo \<le> max_int64" "\<forall>b. in64 (bs_durations s b)"
  defines "s' \<equiv> foldl scan_bool s xs"
  shows "bs_sentry s' = fst (last ((bs_sentry s, t) # xs)) \<and> (\<forall>b. in64 (bs_durations s' b)) \<and>
    lo \<le> bs_firsts s' (bs_sentry s') \<and> bs_firsts s' (bs_sentry s') \<le> e \<and>
    wrap64 (bs_durations s' b + (if bs_sentry s' = b then e - bs_firsts s' b else 0)) =
    wrap64 (bs_durations s b + (if bs_sentry s = b then t - bs_firsts s b else 0) + held b (bs_sentry s) t xs e)"
  using assms(1-5) unfolding s'_def
proof (induction xs arbitrary: s t)
  case (Cons x xs)
  obtain w u where x: "x = (w, u)" by (cases x)
  define s1 where "s1 = scan_bool s x"
  have u: "lo \<le> u" "u \<le> e" using Cons.prems(1) by (simp_all add: x)
  have sub: "time_Sub u (bs_firsts s (bs_sentry s)) = u - bs_firsts s (bs_sentry s)"
    using u Cons.prems(2-4) by (intro time_Sub_exact in64_between [of lo _ e])
  have sentry: "bs_sentry s1 = w" by (simp add: s1_def scan_bool_def x Let_def)
  have fi: "lo \<le> bs_firsts s1 w" "bs_firsts s1 w \<le> e" using Cons.prems(2,3) u
    by (cases w; cases "bs_sentry s"; simp add: s1_def scan_bool_def x Let_def)+
  have i64: "\<forall>b. in64 (bs_durations s1 b)" using Cons.prems(5) by (simp add: s1_def scan_bool_def x Let_def dur_add_def)
  have eq: "wrap64 (bs_durations s1 b + (if w = b then u - bs_firsts s1 b else 0) + held b w u xs e) =
      wrap64 (bs_durations s b + (if bs_sentry s = b then t - bs_firsts s b else 0) + ((if bs_sentry s = b then u - t else 0) + held b w u xs e))"
    using sub by (cases w; cases "bs_sentry s"; cases b) (simp_all add: s1_def scan_bool_def x Let_def dur_add_def add_diff_eq diff_add_eq diff_diff_eq2 add_ac)
  have "foldl scan_bool s (x # xs) = foldl scan_bool s1 xs" "last ((bs_sentry s, t) # x # xs) = last ((w, u) # xs)"
    "held b (bs_sentry s) t (x # xs) e = (if bs_sentry s = b then u - t else 0) + held b w u xs e" by (simp_all add: s1_def x)
  note now = this
  have "\<forall>x\<in>set xs. lo \<le> snd x \<and> snd x \<le> e" using Cons.prems(1) by simp
  from Cons.IH [OF this, of s1 u, unfolded sentry, OF fi Cons.prems(4) i64] show ?case unfolding now eq .
qed simp

lemma scan_lists:
  "bs_trues (foldl scan_bool s xs) = bs_trues s @ map snd (filter fst xs) \<and>
   bs_falses (foldl scan_bool s xs) = bs_falses s @ map snd (filter (Not \<circ> fst) xs)"
proof (induction xs arbitrary: s)
  case (Cons x xs)
  then show ?case by (cases x; cases "fst x") (simp_all add: scan_bool_def Let_def)
qed simp

lemma scan_cnts:
  assumes "wrap64 (bs_cnts s b) = bs_cnts s b"
  shows "bs_cnts (foldl scan_bool s xs) b = wrap64 (bs_cnts s b + int (length (filter (\<lambda>x. fst x = b) xs)))"
  using assms
proof (induction xs arbitrary: s)
  case (Cons x xs)
  have "bs_cnts (scan_bool s x) b = (if fst x = b then wrap64 (bs_cnts s b + 1) else bs_cnts s b)"
    by (cases x; cases b) (simp_all add: scan_bool_def Let_def)
  then show ?case using Cons.IH [of "scan_bool s x"] Cons.prems by (simp add: algebra_simps)
qed simp

abbreviation times :: "bool \<Rightarrow> (bool \<times> time) list \<Rightarrow> time list" where
  "times b data \<equiv> map snd (filter (\<lambda>x. fst x = b) data)"

text \<open>The scan of a whole block.\<close>

lemma scan_block:
  assumes "data \<noteq> []" "hd data = (v0, t0)" "sorted_wrt (\<le>) (start # map snd data @ [end])" "end - start \<le> max_int64"
  defines "s \<equiv> foldl scan_bool (scan_start v0 t0 start) data"
  shows "((bs_durations s)(fst (last data) := dur_add (bs_durations s (fst (last data))) (time_Sub end (bs_firsts s (fst (last data)))))) b =
    held b v0 start data end"
proof -
  have rng: "\<forall>x\<in>set data. start \<le> snd x \<and> snd x \<le> end" "start \<le> end" using assms(3) by (auto simp: sorted_wrt_append)
  then have t0: "start \<le> t0" "t0 \<le> end" using assms(1,2) hd_in_set by fastforce+
  then have sub: "time_Sub t0 start = t0 - start" "in64 (t0 - start)"
    using assms(4) rng(2) by (auto intro!: time_Sub_exact in64_between [of start _ "end"])
  have last: "last ((v0, t0) # data) = last data" using assms(1) by simp
  have h0: "t0 - start + held v0 v0 t0 data end = held v0 v0 start data end" "v0 \<noteq> b \<Longrightarrow> held b v0 t0 data end = held b v0 start data end" for b
    using assms(1,2) by (cases data; auto)+
  have st: "bs_sentry (scan_start v0 t0 start) = v0" "bs_firsts (scan_start v0 t0 start) v0 = t0"
    "bs_durations (scan_start v0 t0 start) b = (if b = v0 then t0 - start else 0)" for b
    using sub by (simp_all add: scan_start_def)
  have "\<forall>b. in64 (bs_durations (scan_start v0 t0 start) b)" using sub(2) by (simp add: st)
  note sd = scan_durations [of data start "end" "scan_start v0 t0 start" t0 b, unfolded st(1,2), OF rng(1) t0 assms(4) this, folded s_def, unfolded last]
  have eq: "(if b = v0 then t0 - start else 0) + (if v0 = b then t0 - bs_firsts (scan_start v0 t0 start) b else 0) + held b v0 t0 data end = held b v0 start data end"
    using h0 st(2) by (cases "v0 = b") auto
  have sc: "bs_sentry s = fst (last data)" "\<forall>b. in64 (bs_durations s b)" "start \<le> bs_firsts s (bs_sentry s)" "bs_firsts s (bs_sentry s) \<le> end"
    "wrap64 (bs_durations s b + (if bs_sentry s = b then end - bs_firsts s b else 0)) = wrap64 (held b v0 start data end)"
    using sd [unfolded st(3) eq] by blast+
  have "0 \<le> held b v0 start data end" "held b v0 start data end \<le> max_int64" using held_bounds [OF assms(3), of b v0] assms(4) by auto
  then have w: "wrap64 (held b v0 start data end) = held b v0 start data end" by (intro wrap64_in64) (simp add: in64_def min_int64_def)
  have "time_Sub end (bs_firsts s (fst (last data))) = end - bs_firsts s (fst (last data))"
    using sc(1,3,4) rng(2) assms(4) by (intro time_Sub_exact in64_between [of start _ "end"]) simp_all
  then show ?thesis using sc w by (cases "b = fst (last data)") (auto simp: dur_add_def)
qed

text \<open>
  The durations of a block: the aggregation of samples in the block gives the times of the first and last sample of each value, their numbers, and
  as durations the milliseconds for which each value was held, from the start, with the first value, to the end.
\<close>

lemma aggregateBool_held:
  assumes "data \<noteq> []" "sorted_wrt (\<le>) (start # map snd data @ [end])" "end - start \<le> max_int64" "int (length data) \<le> max_int64"
  shows "aggregateBool data start end = Some
    \<lparr>b_FirstTrueTime = first_time (times True data), b_FirstFalseTime = first_time (times False data),
     b_LastTrueTime = last_time (times True data), b_LastFalseTime = last_time (times False data), b_LastValue = fst (last data),
     b_TrueCnt = int (length (times True data)), b_TrueDuration = dur_Milliseconds (held True (fst (hd data)) start data end),
     b_FalseCnt = int (length (times False data)), b_FalseDuration = dur_Milliseconds (held False (fst (hd data)) start data end)\<rparr>"
proof -
  obtain v0 t0 where hd: "hd data = (v0, t0)" by fastforce
  define s where "s = foldl scan_bool (scan_start v0 t0 start) data"
  define d where "d = (bs_durations s)(fst (last data) := dur_add (bs_durations s (fst (last data))) (time_Sub end (bs_firsts s (fst (last data)))))"
  have dur: "d b = held b v0 start data end" for b unfolding d_def s_def by (rule scan_block [OF assms(1) hd assms(2,3)])
  have cnt: "bs_cnts s b = int (length (times b data))" for b
    using scan_cnts [of "scan_start v0 t0 start" b data] assms(4) length_filter_le [of "\<lambda>x. fst x = b" data]
    by (simp add: s_def scan_start_def in64_def min_int64_def)
  have lists: "bs_trues s = times True data" "bs_falses s = times False data"
    using scan_lists [of "scan_start v0 t0 start" data] by (simp_all add: s_def comp_def scan_start_def)
  have "start \<le> end" using assms(2) by (simp add: sorted_wrt_append)
  then have whole: "time_Sub end start = end - start" using assms(3) by (intro time_Sub_exact in64_between [of start _ "end"]) simp_all
  have all: "held b v0 start data end = (if v0 = b then end - start else 0)" if "times (\<not> v0) data = []" for b
  proof (rule held_constant)
    show "\<forall>x\<in>set data. fst x = v0" using that by (auto simp: filter_empty_conv)
  qed
  have ne: "times v0 data \<noteq> []" using assms(1) hd by (cases data) auto
  have z: "dur_Milliseconds 0 = 0" by (simp add: dur_Milliseconds_def trunc_quot_def)
  show ?thesis unfolding aggregateBool_def if_not_P [OF assms(1)] hd Let_def prod.case fst_conv s_def [symmetric] d_def [symmetric] lists whole cnt dur
    using ne all [of True] all [of False] z by (cases v0) simp_all
qed

subsection \<open>Rolling up truth values\<close>

text \<open>
  Blocks of \<open>d\<close> nanoseconds, given by their samples and their end, one after the other with gaps, between \<open>s\<close> and \<open>e\<close>;
  all times are whole milliseconds.
\<close>

fun windows :: "int \<Rightarrow> time \<Rightarrow> ((bool \<times> time) list \<times> time) list \<Rightarrow> time \<Rightarrow> bool" where
  "windows d s [] e = (s \<le> e)"
| "windows d s ((b, t) # bts) e =
     (s \<le> t - d \<and> b \<noteq> [] \<and> sorted_wrt (<) (map snd b) \<and> (\<forall>x\<in>set b. t - d \<le> snd x \<and> snd x < t \<and> 1000000 dvd snd x) \<and> 1000000 dvd t \<and>
      windows d t bts e)"

lemma windows_le: "0 < d \<Longrightarrow> windows d s bts e \<Longrightarrow> s \<le> e"
proof (induction d s bts e rule: windows.induct)
  case (2 d s b t bts e)
  then show ?case by auto
qed simp

lemma windows_nonempty: "windows d s bts e \<Longrightarrow> [] \<notin> set (map fst bts)"
  by (induction d s bts e rule: windows.induct) auto

lemma windows_samples:
  "0 < d \<Longrightarrow> windows d s bts e \<Longrightarrow> sorted_wrt (<) (map snd (concat (map fst bts))) \<and>
     (\<forall>x\<in>set (concat (map fst bts)). s \<le> snd x \<and> snd x < e \<and> 1000000 dvd snd x)"
proof (induction d s bts e rule: windows.induct)
  case (2 d s b t bts e)
  have te: "t \<le> e" using windows_le [of d t bts e] 2 by simp
  from 2 have ih: "sorted_wrt (<) (map snd (concat (map fst bts)))" "\<forall>x\<in>set (concat (map fst bts)). t \<le> snd x \<and> snd x < e \<and> 1000000 dvd snd x" by auto
  from 2 have b: "\<forall>x\<in>set b. s \<le> snd x \<and> snd x < t \<and> 1000000 dvd snd x" by force
  have "sorted_wrt (<) (map snd b @ map snd (concat (map fst bts)))"
    using 2(3) ih b unfolding sorted_wrt_append by fastforce
  moreover have "\<forall>x\<in>set b \<union> set (concat (map fst bts)). s \<le> snd x \<and> snd x < e \<and> 1000000 dvd snd x"
    using ih(2) b te 2 by fastforce
  ultimately show ?case by simp
qed simp

lemma ms_exact: "1000000 dvd x \<Longrightarrow> dur_Milliseconds x = x div 1000000"
  by (auto simp: dur_Milliseconds_def trunc_quot_def abs_mult sgn_mult elim!: dvdE) (simp add: sgn_mult_abs)

lemma ms_add: "1000000 dvd x \<Longrightarrow> 1000000 dvd y \<Longrightarrow> dur_Milliseconds (x + y) = dur_Milliseconds x + dur_Milliseconds y"
  by (simp add: ms_exact div_add dvd_add)

lemma held_dvd: "k dvd t \<Longrightarrow> k dvd e \<Longrightarrow> \<forall>x\<in>set xs. k dvd snd x \<Longrightarrow> k dvd held b v t xs e"
  by (induction b v t xs e rule: held.induct) (auto intro: dvd_diff dvd_add)

text \<open>The first value of samples, read from the times of the first true and false one.\<close>

lemma first_value:
  assumes "sorted_wrt (<) (map snd b)" "\<forall>x\<in>set b. 0 < snd x" "b \<noteq> []" "hd b = (v, u)"
  defines "T \<equiv> first_time (times True b)" and "F \<equiv> first_time (times False b)"
  shows "(F = 0 \<or> T \<noteq> 0 \<and> T < F) = v" "(T \<noteq> 0 \<and> (F = 0 \<or> T < F)) = v" "v \<Longrightarrow> T = u" "\<not> v \<Longrightarrow> F = u"
proof -
  obtain r where b: "b = (v, u) # r" using assms(3,4) by (cases b) auto
  have later: "first_time (times w r) = 0 \<or> u < first_time (times w r)" for w
  proof (cases "times w r")
    case (Cons y ys)
    then have "y \<in> snd ` set r" by (metis (no_types, lifting) filter_is_subset image_mono list.set_intros(1) list.set_map subsetD)
    with assms(1) show ?thesis by (auto simp: b Cons first_time_def)
  qed (simp add: first_time_def)
  have u: "0 < u" using assms(2) by (simp add: b)
  have here: "T = (if v then u else first_time (times True r))" "F = (if v then first_time (times False r) else u)"
    by (simp_all add: T_def F_def b first_time_def)
  show "(F = 0 \<or> T \<noteq> 0 \<and> T < F) = v" "(T \<noteq> 0 \<and> (F = 0 \<or> T < F)) = v" "v \<Longrightarrow> T = u" "\<not> v \<Longrightarrow> F = u"
    using later [of True] later [of False] u unfolding here by auto
qed

definition item_of :: "int \<Rightarrow> (bool \<times> time) list \<times> time \<Rightarrow> RollupBoolItem \<times> time" where
  "item_of d x = (case x of (b, t) \<Rightarrow> (the (aggregateBool b (t - d) t), t))"

definition item_duration :: "RollupBoolItem \<Rightarrow> bool \<Rightarrow> int" where
  "item_duration f v = (if v then b_TrueDuration f else b_FalseDuration f)"

lemma block_item:
  assumes "windows d s ((b, t) # bts) e" "0 < d" "e - s \<le> max_int64" "int (length b) \<le> max_int64" "hd b = (v, u)"
  shows "aggregateBool b (t - d) t = Some (fst (item_of d (b, t)))" "snd (item_of d (b, t)) = t"
    "b_FirstTrueTime (fst (item_of d (b, t))) = first_time (times True b)" "b_FirstFalseTime (fst (item_of d (b, t))) = first_time (times False b)"
    "b_LastTrueTime (fst (item_of d (b, t))) = last_time (times True b)" "b_LastFalseTime (fst (item_of d (b, t))) = last_time (times False b)"
    "b_TrueCnt (fst (item_of d (b, t))) = int (length (times True b))" "b_FalseCnt (fst (item_of d (b, t))) = int (length (times False b))"
    "b_LastValue (fst (item_of d (b, t))) = fst (last b)"
    "item_duration (fst (item_of d (b, t))) w = dur_Milliseconds (held w v (t - d) b t)"
proof -
  have te: "t \<le> e" "s \<le> t - d" using assms(1,2) windows_le [of d t bts e] by simp_all
  have "sorted_wrt (\<le>) (map snd b)" using assms(1) by (auto intro: sorted_wrt_mono_rel [of _ "(<)" "(\<le>)"])
  then have "sorted_wrt (\<le>) ((t - d) # map snd b @ [t])" using assms(1,2) by (auto simp: sorted_wrt_append less_imp_le)
  from aggregateBool_held [OF _ this] assms(1,3,4) te
  have "aggregateBool b (t - d) t = Some
    \<lparr>b_FirstTrueTime = first_time (times True b), b_FirstFalseTime = first_time (times False b),
     b_LastTrueTime = last_time (times True b), b_LastFalseTime = last_time (times False b), b_LastValue = fst (last b),
     b_TrueCnt = int (length (times True b)), b_TrueDuration = dur_Milliseconds (held True (fst (hd b)) (t - d) b t),
     b_FalseCnt = int (length (times False b)), b_FalseDuration = dur_Milliseconds (held False (fst (hd b)) (t - d) b t)\<rparr>" by simp
  note eq = this [unfolded assms(5) fst_conv]
  show "aggregateBool b (t - d) t = Some (fst (item_of d (b, t)))" "snd (item_of d (b, t)) = t"
    "b_FirstTrueTime (fst (item_of d (b, t))) = first_time (times True b)" "b_FirstFalseTime (fst (item_of d (b, t))) = first_time (times False b)"
    "b_LastTrueTime (fst (item_of d (b, t))) = last_time (times True b)" "b_LastFalseTime (fst (item_of d (b, t))) = last_time (times False b)"
    "b_TrueCnt (fst (item_of d (b, t))) = int (length (times True b))" "b_FalseCnt (fst (item_of d (b, t))) = int (length (times False b))"
    "b_LastValue (fst (item_of d (b, t))) = fst (last b)"
    "item_duration (fst (item_of d (b, t))) w = dur_Milliseconds (held w v (t - d) b t)"
    by (simp_all add: item_of_def eq item_duration_def)
qed

text \<open>One step of the merge accounts for the time since the end of the last block.\<close>

lemma merge_durations:
  fixes m :: bool_merge
  assumes w: "windows (ms * 1000000) s ((b, t) # bts) e" and ms: "0 < ms" "in64 (ms * 1000000)" and pos: "0 < s" "1000000 dvd s"
    and b64: "e - s \<le> max_int64" "int (length b) \<le> max_int64" and hd: "hd b = (v, u)"
  defines "m' \<equiv> merge_bool ms m (item_of (ms * 1000000) (b, t))"
  shows "bm_last m' = Some (fst (last b), t)" "in64 (bm_durations m' w')"
    "bm_last m = Some (lv, s) \<Longrightarrow> wrap64 (bm_durations m' w' + h) = wrap64 (bm_durations m w' + dur_Milliseconds (held w' lv s b t) + h)"
    "bm_last m = None \<Longrightarrow> wrap64 (bm_durations m' w' + h) = wrap64 (bm_durations m w' + dur_Milliseconds (held w' v (t - ms * 1000000) b t) + h)"
proof -
  let ?d = "ms * 1000000"
  have d: "0 < ?d" using ms(1) by simp
  note it = block_item [OF w d b64 hd]
  obtain f where f: "item_of ?d (b, t) = (f, t)" using it(2) by (metis prod.collapse)
  note it = it [unfolded f fst_conv]
  have te: "t \<le> e" "s \<le> t - ?d" using w d windows_le [of ?d t bts e] by simp_all
  have "in64 (- ms * 1000000)" using ms by (simp add: in64_def min_int64_def max_int64_def)
  then have st: "block_start t ms = t - ?d" by (simp add: block_start_def)
  have bx: "sorted_wrt (<) (map snd b)" "\<forall>x\<in>set b. 0 < snd x" "b \<noteq> []" using w pos d by auto
  note fv = first_value [OF bx hd]
  obtain r where b: "b = (v, u) # r" using hd bx(3) by (cases b) auto
  have u: "t - ?d \<le> u" "u < t" "1000000 dvd u" "1000000 dvd t" "\<forall>x\<in>set r. 1000000 dvd snd x" using w by (auto simp: b)
  define H where "H = (\<lambda>w. dur_Milliseconds (held w v u r t))"
  have "1000000 dvd held w v u r t" for w using u by (intro held_dvd) auto
  then have add: "dur_Milliseconds (x + held w v u r t) = dur_Milliseconds x + H w" if "1000000 dvd x" for x w
    using ms_add [OF that] by (simp add: H_def)
  have z: "dur_Milliseconds 0 = 0" by (simp add: dur_Milliseconds_def trunc_quot_def)
  define Y Z where "Y = dur_Milliseconds (t - ?d - s)" and "Z = dur_Milliseconds (u - (t - ?d))"
  have X: "dur_Milliseconds (u - s) = Y + Z" using ms_add [of "t - ?d - s" "u - (t - ?d)"] u pos(2) by (simp add: Y_def Z_def)
  have fd: "item_duration f w = (if v = w then Z else 0) + H w" for w
    using it(10) [of w] add [of "u - (t - ?d)" w] add [of 0 w] u(3,4) z by (auto simp: b Z_def)
  have hl: "dur_Milliseconds (held w lv s b t) = (if lv = w then Y + Z else 0) + H w" for w
    using add [of "u - s" w] add [of 0 w] u(3) pos(2) z X by (auto simp: b)
  have sub: "time_Sub (t - ?d) s = t - ?d - s" "time_Sub u s = u - s" "time_Sub u (t - ?d) = u - (t - ?d)"
    using te u b64(1) d by (auto intro!: time_Sub_exact in64_between [of s _ e])
  show "bm_last m' = Some (fst (last b), t)" by (simp add: m'_def merge_bool_def f Let_def it(9))
  show "in64 (bm_durations m' w')" by (cases w') (simp_all add: m'_def merge_bool_def f Let_def)
  have first: "(b_FirstFalseTime f = 0 \<or> b_FirstTrueTime f \<noteq> 0 \<and> b_FirstTrueTime f < b_FirstFalseTime f) = v"
    "(if v then b_FirstTrueTime f else b_FirstFalseTime f) = u" using fv(1,3,4) by (auto simp: it)
  have fdur: "b_TrueDuration f = item_duration f True" "b_FalseDuration f = item_duration f False" by (simp_all add: item_duration_def)
  note step = m'_def merge_bool_def f Let_def prod.case first st sub fdur fd
  show "wrap64 (bm_durations m' w' + h) = wrap64 (bm_durations m w' + dur_Milliseconds (held w' lv s b t) + h)" if "bm_last m = Some (lv, s)"
    unfolding step that option.case hl Y_def [symmetric] Z_def [symmetric] X by (cases v; cases lv; cases w'; simp add: add.assoc; simp add: algebra_simps)
  show "wrap64 (bm_durations m' w' + h) = wrap64 (bm_durations m w' + dur_Milliseconds (held w' v (t - ms * 1000000) b t) + h)" if "bm_last m = None"
    unfolding step that option.case it(10) [symmetric] by (cases v; cases w'; simp add: add.assoc)
qed

lemma merge_loop:
  assumes "0 < ms" "in64 (ms * 1000000)" "1000000 dvd e"
  shows "windows (ms * 1000000) s bts e \<Longrightarrow> 0 < s \<Longrightarrow> 1000000 dvd s \<Longrightarrow> e - s \<le> max_int64 \<Longrightarrow> int (length (concat (map fst bts))) \<le> max_int64 \<Longrightarrow>
    bm_last m = Some (lv, s) \<Longrightarrow> \<forall>w. in64 (bm_durations m w) \<Longrightarrow>
    \<exists>m' lv' s'. foldl (merge_bool ms) m (map (item_of (ms * 1000000)) bts) = m' \<and> bm_last m' = Some (lv', s') \<and>
      s' = (if bts = [] then s else snd (last bts)) \<and> s \<le> s' \<and> s' \<le> e \<and> 1000000 dvd s' \<and> lv' = fst (last ((lv, s) # concat (map fst bts))) \<and> (\<forall>w. in64 (bm_durations m' w)) \<and>
      (\<forall>w. wrap64 (bm_durations m' w + (if lv' = w then dur_Milliseconds (e - s') else 0)) = wrap64 (bm_durations m w + dur_Milliseconds (held w lv s (concat (map fst bts)) e)))"
proof (induction bts arbitrary: m lv s)
  case Nil
  have "dur_Milliseconds 0 = 0" by (simp add: dur_Milliseconds_def trunc_quot_def)
  with Nil show ?case by simp
next
  case (Cons x bts)
  obtain b t where x: "x = (b, t)" by (cases x)
  note w = Cons.prems(1) [unfolded x]
  obtain v u where hd: "hd b = (v, u)" by fastforce
  have len: "int (length b) \<le> max_int64" using Cons.prems(5) by (simp add: x)
  note md = merge_durations [OF w assms(1,2) Cons.prems(2-4) len hd, of m]
  let ?m = "merge_bool ms m (item_of (ms * 1000000) (b, t))"
  have w': "windows (ms * 1000000) t bts e" "s < t" "1000000 dvd t" "b \<noteq> []" using w assms(1) by simp_all
  have te: "t \<le> e" using windows_le [OF _ w'(1)] assms(1) by simp
  have p: "0 < t" "e - t \<le> max_int64" "int (length (concat (map fst bts))) \<le> max_int64" using w'(2) Cons.prems(2,4,5) by (simp_all add: x)
  from Cons.IH [OF w'(1) p(1) w'(3) p(2,3), of ?m "fst (last b)"] md(1,2) obtain m' lv' s' where
    ih: "foldl (merge_bool ms) ?m (map (item_of (ms * 1000000)) bts) = m'" "bm_last m' = Some (lv', s')" "s' = (if bts = [] then t else snd (last bts))"
      "t \<le> s'" "s' \<le> e" "1000000 dvd s'" "lv' = fst (last ((fst (last b), t) # concat (map fst bts)))" "\<forall>w. in64 (bm_durations m' w)"
      "\<forall>w. wrap64 (bm_durations m' w + (if lv' = w then dur_Milliseconds (e - s') else 0)) =
        wrap64 (bm_durations ?m w + dur_Milliseconds (held w (fst (last b)) t (concat (map fst bts)) e))" by blast
  have dv: "\<forall>x\<in>set b. 1000000 dvd snd x" "\<forall>x\<in>set (concat (map fst bts)). 1000000 dvd snd x"
    using w windows_samples [OF _ w'(1)] assms(1) by auto
  have "held w lv s (b @ concat (map fst bts)) e = held w lv s b t + held w (fst (last b)) t (concat (map fst bts)) e" for w
    using held_append [of w lv s b "concat (map fst bts)" e t] w'(4) by simp
  then have "dur_Milliseconds (held w lv s (b @ concat (map fst bts)) e) =
      dur_Milliseconds (held w lv s b t) + dur_Milliseconds (held w (fst (last b)) t (concat (map fst bts)) e)" for w
    using dv w'(3) Cons.prems(3) assms(3) by (simp add: ms_add held_dvd)
  then have "\<forall>w. wrap64 (bm_durations m' w + (if lv' = w then dur_Milliseconds (e - s') else 0)) =
      wrap64 (bm_durations m w + dur_Milliseconds (held w lv s (b @ concat (map fst bts)) e))"
    using ih(9) md(3) [OF Cons.prems(6)] by (simp add: add.assoc)
  moreover have "s' = (if x # bts = [] then s else snd (last (x # bts)))" "lv' = fst (last ((lv, s) # concat (map fst (x # bts))))"
    using ih(3,7) w'(4) by (auto simp: x)
  moreover have "foldl (merge_bool ms) m (map (item_of (ms * 1000000)) (x # bts)) = m'" using ih(1) by (simp add: x)
  ultimately show ?case using ih(2,4,5,6,8) w'(2) by (intro exI [of _ m'] exI [of _ lv'] exI [of _ s']) (simp add: x)
qed

text \<open>The other fields.\<close>

lemma first_time_append: "\<forall>t\<in>set xs. 0 < t \<Longrightarrow> first_time (xs @ ys) = (if first_time xs = 0 then first_time ys else first_time xs)"
  by (cases xs) (auto simp: first_time_def)

lemma last_time_append: "\<forall>t\<in>set ys. 0 < t \<Longrightarrow> last_time (xs @ ys) = (if last_time ys = 0 then last_time xs else last_time ys)"
  by (cases ys rule: rev_cases) (auto simp: last_time_def)

lemma merge_fields:
  assumes "0 < ms"
  shows "windows (ms * 1000000) s bts e \<Longrightarrow> 0 < s \<Longrightarrow> e - s \<le> max_int64 \<Longrightarrow> int (length (concat (map fst bts))) \<le> max_int64 \<Longrightarrow>
    bm_item m = \<lparr>b_FirstTrueTime = first_time (times True xs), b_FirstFalseTime = first_time (times False xs), b_LastTrueTime = last_time (times True xs),
      b_LastFalseTime = last_time (times False xs), b_LastValue = v, b_TrueCnt = int (length (times True xs)), b_TrueDuration = 0,
      b_FalseCnt = int (length (times False xs)), b_FalseDuration = 0\<rparr> \<Longrightarrow> \<forall>x\<in>set xs. 0 < snd x \<Longrightarrow> int (length (xs @ concat (map fst bts))) \<le> max_int64 \<Longrightarrow>
    ys = xs @ concat (map fst bts) \<Longrightarrow>
    bm_item (foldl (merge_bool ms) m (map (item_of (ms * 1000000)) bts)) =
      \<lparr>b_FirstTrueTime = first_time (times True ys), b_FirstFalseTime = first_time (times False ys), b_LastTrueTime = last_time (times True ys),
       b_LastFalseTime = last_time (times False ys), b_LastValue = v, b_TrueCnt = int (length (times True ys)), b_TrueDuration = 0,
       b_FalseCnt = int (length (times False ys)), b_FalseDuration = 0\<rparr>"
proof (induction bts arbitrary: m s xs)
  case (Cons x bts)
  obtain b t where x: "x = (b, t)" by (cases x)
  note w = Cons.prems(1) [unfolded x]
  obtain v0 u where hd: "hd b = (v0, u)" by fastforce
  have len: "int (length b) \<le> max_int64" using Cons.prems(4) by (simp add: x)
  have d: "0 < ms * 1000000" using assms by simp
  note it = block_item [OF w d Cons.prems(3) len hd]
  obtain f where f: "item_of (ms * 1000000) (b, t) = (f, t)" using it(2) by (metis prod.collapse)
  note it = it [unfolded f fst_conv]
  let ?m = "merge_bool ms m (f, t)"
  have w': "windows (ms * 1000000) t bts e" "s < t" "\<forall>x\<in>set b. 0 < snd x" using w assms Cons.prems(2) by auto
  have cnt: "in64 (int (length (times w xs)) + int (length (times w b)))" for w
  proof -
    have "int (length (times w xs)) \<le> int (length xs)" "int (length (times w b)) \<le> int (length b)" by simp_all
    moreover have "int (length xs) + int (length b) \<le> max_int64" using Cons.prems(7) by (simp add: x)
    ultimately show ?thesis unfolding in64_def min_int64_def by linarith
  qed
  have pos: "\<forall>t\<in>set (times w xs). 0 < t" "\<forall>t\<in>set (times w b). 0 < t" for w using Cons.prems(6) w'(3) by auto
  have ft: "first_time (times w (xs @ b)) = (if first_time (times w xs) = 0 then first_time (times w b) else first_time (times w xs))"
    and lt: "last_time (times w (xs @ b)) = (if last_time (times w b) \<noteq> 0 then last_time (times w b) else last_time (times w xs))" for w
    using first_time_append [OF pos(1)] last_time_append [OF pos(2)] by simp_all
  have "bm_item ?m = \<lparr>b_FirstTrueTime = first_time (times True (xs @ b)), b_FirstFalseTime = first_time (times False (xs @ b)), b_LastTrueTime = last_time (times True (xs @ b)),
      b_LastFalseTime = last_time (times False (xs @ b)), b_LastValue = v, b_TrueCnt = int (length (times True (xs @ b))), b_TrueDuration = 0,
      b_FalseCnt = int (length (times False (xs @ b))), b_FalseDuration = 0\<rparr>"
    unfolding ft lt using cnt [of True] cnt [of False] by (simp add: merge_bool_def Let_def Cons.prems(5) it)
  moreover have "\<forall>x\<in>set (xs @ b). 0 < snd x" using Cons.prems(6) w'(3) by auto
  ultimately show ?case using Cons.IH [OF w'(1), of ?m "xs @ b"] Cons.prems w'(2) by (simp add: x f)
qed simp

lemma sorted_samples:
  fixes xs :: "(bool \<times> time) list"
  assumes "sorted_wrt (<) (map snd xs)" "\<forall>x\<in>set xs. s \<le> snd x \<and> snd x < e \<and> P x" "s \<le> e"
  shows "sorted_wrt (\<le>) (s # map snd xs @ [e])"
proof -
  have "sorted_wrt (\<le>) (map snd xs)" using assms(1) by (rule sorted_wrt_mono_rel [rotated]) (simp add: less_imp_le)
  with assms(2,3) show ?thesis unfolding sorted_wrt.simps sorted_wrt_append by fastforce
qed

lemma held_to_int64:
  assumes "sorted_wrt (\<le>) (s # map snd xs @ [e])" "e - s \<le> max_int64" "1000000 dvd held w v s xs e"
  shows "in64 (dur_Milliseconds (held w v s xs e))"
proof -
  have "0 \<le> held w v s xs e" "held w v s xs e \<le> max_int64" using held_bounds [OF assms(1), of w v] assms(2) by auto
  moreover from this have "0 \<le> held w v s xs e div 1000000" "held w v s xs e div 1000000 \<le> held w v s xs e" by simp_all
  ultimately show ?thesis using assms(3) by (simp add: ms_exact in64_def min_int64_def)
qed

lemma held_blocks:
  assumes "windows d start ((b, t) # rest) end" "0 < d" "1000000 dvd d" "1000000 dvd start" "1000000 dvd end" "end - start \<le> max_int64" "hd b = (v, u)"
  defines "all \<equiv> b @ concat (map fst rest)"
  shows "dur_Milliseconds (held w v start all end) = dur_Milliseconds (if v = w then t - d - start else 0) + dur_Milliseconds (held w v (t - d) b t) +
      dur_Milliseconds (held w (fst (last b)) t (concat (map fst rest)) end)"
    "in64 (dur_Milliseconds (held w v start all end))"
proof -
  have w: "windows d t rest end" "start \<le> t - d" "1000000 dvd t" "b \<noteq> []" using assms(1) by simp_all
  obtain r where b: "b = (v, u) # r" using w(4) assms(7) by (cases b) auto
  have smp: "sorted_wrt (<) (map snd all)" "\<forall>x\<in>set all. start \<le> snd x \<and> snd x < end \<and> 1000000 dvd snd x"
    using windows_samples [OF assms(2,1)] by (simp_all add: all_def)
  let ?x = "if v = w then t - d - start else 0"
  have "held w v start all end = ?x + held w v (t - d) b t + held w (fst (last b)) t (concat (map fst rest)) end"
    using held_append [of w v start b "concat (map fst rest)" "end" t] w(4) by (simp add: b all_def)
  moreover have "1000000 dvd ?x" "1000000 dvd held w v (t - d) b t" "1000000 dvd held w (fst (last b)) t (concat (map fst rest)) end"
    using w(3) assms(3-5) smp(2) by (auto simp: all_def intro!: held_dvd)
  ultimately show "dur_Milliseconds (held w v start all end) = dur_Milliseconds ?x + dur_Milliseconds (held w v (t - d) b t) +
      dur_Milliseconds (held w (fst (last b)) t (concat (map fst rest)) end)" by (simp only: ms_add dvd_add)
  have "start \<le> end" using windows_le [OF assms(2) w(1)] w(2) assms(2) by linarith
  from held_to_int64 [OF sorted_samples [OF smp this] assms(6)] smp(2) assms(4,5)
  show "in64 (dur_Milliseconds (held w v start all end))" by (simp add: held_dvd)
qed

lemma merge_all:
  fixes m0 :: bool_merge
  assumes "windows (ms * 1000000) start ((b, t) # rest) end" "0 < ms" "in64 (ms * 1000000)" "0 < start" "1000000 dvd start" "1000000 dvd end"
    and "end - start \<le> max_int64" "int (length (b @ concat (map fst rest))) \<le> max_int64" "hd b = (v, u)"
    and "bm_last m0 = None" "\<forall>w. bm_durations m0 w = 0"
  defines "m \<equiv> foldl (merge_bool ms) m0 (map (item_of (ms * 1000000)) ((b, t) # rest))"
  shows "in64 (bm_durations m w)"
    "wrap64 (bm_durations m w + (if v = w then dur_Milliseconds (t - ms * 1000000 - start) else 0) +
       (if fst (last (b @ concat (map fst rest))) = w then dur_Milliseconds (end - snd (last ((b, t) # rest))) else 0)) =
     dur_Milliseconds (held w v start (b @ concat (map fst rest)) end)"
    "start \<le> snd (last ((b, t) # rest))" "snd (last ((b, t) # rest)) \<le> end"
proof -
  let ?d = "ms * 1000000" and ?m1 = "merge_bool ms m0 (item_of (ms * 1000000) (b, t))" and ?rest = "concat (map fst rest)"
  have d: "0 < ?d" using assms(2) by simp
  have len: "int (length b) \<le> max_int64" "int (length ?rest) \<le> max_int64" using assms(8) by simp_all
  note md = merge_durations [OF assms(1-5,7) len(1) assms(9), of m0]
  have w: "windows ?d t rest end" "start \<le> t - ?d" "1000000 dvd t" "b \<noteq> []" "\<forall>x\<in>set b. 1000000 dvd snd x" using assms(1) by simp_all
  have te: "t \<le> end" using windows_le [OF d w(1)] .
  have "0 < t" "end - t \<le> max_int64" using w(2) d assms(4,7) by linarith+
  from merge_loop [OF assms(2,3,6) w(1) this(1) w(3) this(2) len(2) md(1)] md(2) obtain lv' s' where
    lp: "s' = (if rest = [] then t else snd (last rest))" "t \<le> s'" "s' \<le> end" "lv' = fst (last ((fst (last b), t) # ?rest))" "\<forall>w. in64 (bm_durations m w)"
      "wrap64 (bm_durations m w + (if lv' = w then dur_Milliseconds (end - s') else 0)) = wrap64 (bm_durations ?m1 w + dur_Milliseconds (held w (fst (last b)) t ?rest end))"
    by (auto simp: m_def)
  have e: "snd (last ((b, t) # rest)) = s'" "fst (last (b @ ?rest)) = lv'" using lp(1,4) w(4) by auto
  show "in64 (bm_durations m w)" "start \<le> snd (last ((b, t) # rest))" "snd (last ((b, t) # rest)) \<le> end" using lp e w(2) d by auto
  have "1000000 dvd ?d" by simp
  note hb = held_blocks [OF assms(1) d this assms(5,6,7,9), of w]
  define P Q R where "P = dur_Milliseconds (if v = w then t - ?d - start else 0)" and "Q = dur_Milliseconds (held w v (t - ?d) b t)"
    and "R = dur_Milliseconds (held w (fst (last b)) t ?rest end)"
  have "wrap64 (bm_durations ?m1 w + (R + P)) = wrap64 (Q + (R + P))" using md(4) [OF assms(10), of w "R + P"] assms(11) by (simp add: Q_def)
  then have "wrap64 (wrap64 (bm_durations ?m1 w + R) + P) = P + Q + R" using hb unfolding P_def [symmetric] Q_def [symmetric] R_def [symmetric] by (simp add: add_ac)
  then have fin: "wrap64 (bm_durations m w + (if lv' = w then dur_Milliseconds (end - s') else 0) + P) = dur_Milliseconds (held w v start (b @ ?rest) end)"
    unfolding R_def lp(6) [symmetric] hb(1) P_def Q_def by simp
  have "dur_Milliseconds 0 = 0" by (simp add: dur_Milliseconds_def trunc_quot_def)
  then have "P = (if v = w then dur_Milliseconds (t - ?d - start) else 0)" by (simp add: P_def)
  with fin show "wrap64 (bm_durations m w + (if v = w then dur_Milliseconds (t - ms * 1000000 - start) else 0) +
       (if fst (last (b @ concat (map fst rest))) = w then dur_Milliseconds (end - snd (last ((b, t) # rest))) else 0)) =
     dur_Milliseconds (held w v start (b @ concat (map fst rest)) end)"
    unfolding e by (simp only: add_ac)
qed

lemma aggregateBool_ends:
  "aggregateBool b s e = None \<longleftrightarrow> b = []" "b \<noteq> [] \<Longrightarrow> b_LastValue (the (aggregateBool b s e)) = fst (last b)"
  by (auto simp: aggregateBool_def Let_def split: prod.splits)

text \<open>The rollup of the items of blocks, field by field.\<close>

lemma rollupBool_blocks:
  assumes "windows (ms * 1000000) start bts end" "bts \<noteq> []" "0 < ms" "in64 (ms * 1000000)" "0 < start" "1000000 dvd start" "1000000 dvd end"
    and "end - start \<le> max_int64" "int (length (concat (map fst bts))) \<le> max_int64" "hd (concat (map fst bts)) = (v, u)"
  defines "all \<equiv> concat (map fst bts)"
  defines "m \<equiv> foldl (merge_bool ms) (merge_start (fst (last all))) (map (item_of (ms * 1000000)) bts)"
  shows "bm_item m = \<lparr>b_FirstTrueTime = first_time (times True all), b_FirstFalseTime = first_time (times False all), b_LastTrueTime = last_time (times True all),
       b_LastFalseTime = last_time (times False all), b_LastValue = fst (last all), b_TrueCnt = int (length (times True all)), b_TrueDuration = 0,
       b_FalseCnt = int (length (times False all)), b_FalseDuration = 0\<rparr>"
    and "x = dur_Milliseconds (time_Sub (block_start (snd (hd bts)) ms) start) \<Longrightarrow> y = dur_Milliseconds (time_Sub end (snd (last bts))) \<Longrightarrow>
      ((bm_durations m)(v := wrap64 (bm_durations m v + x), fst (last all) := wrap64 (((bm_durations m)(v := wrap64 (bm_durations m v + x))) (fst (last all)) + y))) w =
      dur_Milliseconds (held w v start all end)"
proof -
  let ?d = "ms * 1000000"
  have d: "0 < ?d" using assms(3) by simp
  obtain b t rest where bts: "bts = (b, t) # rest" using assms(2) by (cases bts) auto
  have "b \<noteq> []" using windows_nonempty [OF assms(1)] by (auto simp: bts)
  then have hd: "hd b = (v, u)" using assms(10) by (simp add: bts)
  let ?m0 = "merge_start (fst (last all))"
  have m0: "bm_last ?m0 = None" "\<forall>w. bm_durations ?m0 w = 0" by (simp_all add: merge_start_def)
  have all: "b @ concat (map fst rest) = all" by (simp add: bts all_def)
  have len: "int (length all) \<le> max_int64" using assms(9) by (simp add: all_def)
  note dur = merge_all [OF assms(1) [unfolded bts] assms(3-8) _ hd m0, unfolded all, folded bts, folded m_def, OF len]
  show "bm_item m = \<lparr>b_FirstTrueTime = first_time (times True all), b_FirstFalseTime = first_time (times False all), b_LastTrueTime = last_time (times True all),
       b_LastFalseTime = last_time (times False all), b_LastValue = fst (last all), b_TrueCnt = int (length (times True all)), b_TrueDuration = 0,
       b_FalseCnt = int (length (times False all)), b_FalseDuration = 0\<rparr>"
    unfolding m_def by (rule merge_fields [OF assms(3,1,5,8,9), of ?m0 "[]"]) (simp_all add: merge_start_def first_time_def last_time_def all_def assms(9))
  have te: "start \<le> t - ?d" "t \<le> end" using assms(1) windows_le [OF d, of t rest "end"] by (simp_all add: bts)
  have "in64 (- ms * 1000000)" using assms(3,4) by (simp add: in64_def min_int64_def max_int64_def)
  then have "block_start (snd (hd bts)) ms = t - ?d" by (simp add: block_start_def bts)
  moreover have "time_Sub (t - ?d) start = t - ?d - start" "time_Sub end (snd (last bts)) = end - snd (last bts)"
    using te d dur(3,4) assms(8) by (auto intro!: time_Sub_exact in64_between [of start _ "end"])
  moreover have "((bm_durations m)(v := wrap64 (bm_durations m v + x), fst (last all) := wrap64 (((bm_durations m)(v := wrap64 (bm_durations m v + x))) (fst (last all)) + y))) w =
      wrap64 (bm_durations m w + (if v = w then x else 0) + (if fst (last all) = w then y else 0))" for x y
    using dur(1) [of w] by (auto simp: add.assoc)
  ultimately show "((bm_durations m)(v := wrap64 (bm_durations m v + x), fst (last all) := wrap64 (((bm_durations m)(v := wrap64 (bm_durations m v + x))) (fst (last all)) + y))) w =
      dur_Milliseconds (held w v start all end)"
    if "x = dur_Milliseconds (time_Sub (block_start (snd (hd bts)) ms) start)" "y = dur_Milliseconds (time_Sub end (snd (last bts)))"
    using that dur(2) [of w] by simp
qed

text \<open>
  C17: rolling up truth values. The item rolled up from the items of blocks, with gaps where a block had no sample, is the item
  that aggregates all samples from the start to the end: times, numbers and durations, when all times are whole milliseconds.
\<close>

theorem rollupBool_merges:
  assumes "windows (ms * 1000000) start bts end" "bts \<noteq> []" "0 < ms" "in64 (ms * 1000000)" "0 < start" "1000000 dvd start" "1000000 dvd end"
    and "end - start \<le> max_int64" "int (length (concat (map fst bts))) \<le> max_int64"
  shows "rollupBool (map (\<lambda>(b, t). \<lparr>rc_Value = aggregateBool b (t - ms * 1000000) t, rc_Time = t\<rparr>) bts) start end ms =
    Inr (aggregateBool (concat (map fst bts)) start end)"
proof -
  let ?all = "concat (map fst bts)" and ?cols = "map (\<lambda>(b, t). \<lparr>rc_Value = aggregateBool b (t - ms * 1000000) t, rc_Time = t\<rparr>) bts"
  let ?items = "map (item_of (ms * 1000000)) bts"
  have bl: "[] \<notin> set (map fst bts)" by (rule windows_nonempty [OF assms(1)])
  then have ne: "?all \<noteq> []" using assms(2) by (cases bts) auto
  obtain v u where hd: "hd ?all = (v, u)" by fastforce
  define m where "m = foldl (merge_bool ms) (merge_start (fst (last ?all))) ?items"
  note rb = rollupBool_blocks [OF assms hd, folded m_def]
  have smp: "sorted_wrt (<) (map snd ?all)" "\<forall>x\<in>set ?all. start \<le> snd x \<and> snd x < end \<and> 1000000 dvd snd x"
    using windows_samples [OF _ assms(1)] assms(3) by auto
  have pos: "\<forall>x\<in>set ?all. 0 < snd x" using smp(2) assms(5) by force
  have fv: "(b_FirstTrueTime (bm_item m) \<noteq> 0 \<and> (b_FirstFalseTime (bm_item m) = 0 \<or> b_FirstTrueTime (bm_item m) < b_FirstFalseTime (bm_item m))) = v"
    using first_value(2) [OF smp(1) pos ne hd] by (simp add: rb(1))
  have items: "map (\<lambda>c. (the (rc_Value c), rc_Time c)) ?cols = ?items" "\<not> list_ex (\<lambda>c. rc_Value c = None) ?cols" "?cols \<noteq> []"
    using bl assms(2) by (force simp: item_of_def list_ex_iff aggregateBool_ends)+
  have "fst (last bts) \<in> set (map fst bts)" using assms(2) by simp
  with bl have "fst (last bts) \<noteq> []" by metis
  moreover have "last ?all = last (fst (last bts))" using last_blocks [of "map fst bts"] assms(2) bl by (simp add: last_map)
  ultimately have lv: "b_LastValue (fst (last ?items)) = fst (last ?all)"
    using assms(2) by (cases "last bts") (simp add: last_map item_of_def aggregateBool_ends(2))
  have ends: "snd (hd ?items) = snd (hd bts)" "snd (last ?items) = snd (last bts)" using assms(2) by (simp_all add: hd_map last_map item_of_def split: prod.splits)
  have le: "start \<le> end" using windows_le [OF _ assms(1)] assms(3) by simp
  show ?thesis
    unfolding rollupBool_def if_not_P [OF items(3)] if_not_P [OF items(2)] items(1) Let_def lv m_def [symmetric] fv ends
      rb(2) [OF refl refl] aggregateBool_held [OF ne sorted_samples [OF smp le] assms(8,9)] hd fst_conv
    by (simp add: rb(1))
qed

definition lamp_blocks :: "((bool \<times> time) list \<times> time) list" where
  "lamp_blocks = [([(True, 3000000)], 5000000), ([(False, 11000000), (True, 12000000)], 13000000)]"

theorem rollupBool_merges_witness:
  "rollupBool (map (\<lambda>(b, t). \<lparr>rc_Value = aggregateBool b (t - 4 * 1000000) t, rc_Time = t\<rparr>) lamp_blocks) 1000000 21000000 4 =
     Inr (aggregateBool (concat (map fst lamp_blocks)) 1000000 21000000)"
  by (rule rollupBool_merges) (simp_all add: lamp_blocks_def in64_def min_int64_def max_int64_def)

end
