(* ===== verification/Rollup_Worker.thy ===== *)
theory Rollup_Worker
  imports Rollup Thing_Types
begin

text \<open>
  The worker of \<open>src/pkg/consumer/data/rollup.go\<close>: a rollup job reads the raw samples or the items of shorter blocks, aggregates them and writes one row; and the
  rollups that a query computes on the fly. The log storage is an argument: what it returns for a range of time, by property, and what it is
  asked to write. The columns of a property hold items of its data type. Days and months come from the calendar \<open>date\<close>, an argument here.

  Shown: the loop of the rollups on the fly returns exactly when its interval is not zero; and its durations of truth values are wrong.
\<close>

datatype 'f item = NumericItem "'f RollupNumericItem option" | BoolItem "RollupBoolItem option"
datatype 'f columns = NumericColumns "'f RollupNumericItem ResultColumn list" | BoolColumns "RollupBoolItem ResultColumn list"

subsection \<open>Aggregating the properties\<close>

text \<open>The type assertions of \<open>aggregateBool\<close>.\<close>

definition bool_samples :: "'f sample list \<Rightarrow> (bool \<times> time) list option" where
  "bool_samples data = those (map (\<lambda>f. map_option (\<lambda>b. (b, f_time f)) (val_bool (f_value f))) data)"

fun aggregateData :: "'f float_ops \<Rightarrow> Property list \<Rightarrow> time \<Rightarrow> time \<Rightarrow> (string \<times> 'f sample list) list \<Rightarrow> go_error + (string \<times> 'f item) list" where
  "aggregateData ops props start end [] = Inr []"
| "aggregateData ops props start end ((k, v) # data) =
     (case by_name p_Name props k of
        None \<Rightarrow> Inl GoPanic
      | Some p \<Rightarrow>
          (case (if p_DataType p \<noteq> DataTypeBoolean then Some (map_option (\<lambda>r. NumericItem (Some r)) (aggregateNumeric ops v))
                 else map_option (\<lambda>bs. map_option (\<lambda>r. BoolItem (Some r)) (aggregateBool bs start end)) (bool_samples v)) of
             None \<Rightarrow> Inl GoPanic
           | Some r \<Rightarrow>
               (case aggregateData ops props start end data of
                  Inl err \<Rightarrow> Inl err
                | Inr rollups \<Rightarrow> Inr (case r of None \<Rightarrow> rollups | Some i \<Rightarrow> (k, i) # rollups))))"

definition rollup_columns :: "'f float_ops \<Rightarrow> time \<Rightarrow> time \<Rightarrow> int \<Rightarrow> 'f columns \<Rightarrow> go_error + 'f item" where
  "rollup_columns ops start end durationMs v =
     (case v of
        NumericColumns cs \<Rightarrow> (case rollupNumeric ops cs of Inl err \<Rightarrow> Inl err | Inr r \<Rightarrow> Inr (NumericItem r))
      | BoolColumns cs \<Rightarrow> (case rollupBool cs start end durationMs of Inl err \<Rightarrow> Inl err | Inr r \<Rightarrow> Inr (BoolItem r)))"

fun rollupData :: "'f float_ops \<Rightarrow> Property list \<Rightarrow> time \<Rightarrow> time \<Rightarrow> int \<Rightarrow> (string \<times> 'f columns) list \<Rightarrow> go_error + (string \<times> 'f item) list" where
  "rollupData ops props start end durationMs [] = Inr []"
| "rollupData ops props start end durationMs ((k, v) # rups) =
     (if by_name p_Name props k = None then Inl GoPanic
      else case rollup_columns ops start end durationMs v of
        Inl err \<Rightarrow> Inl err
      | Inr r \<Rightarrow> (case rollupData ops props start end durationMs rups of Inl err \<Rightarrow> Inl err | Inr rollups \<Rightarrow> Inr ((k, r) # rollups)))"

subsection \<open>The rows of the log storage\<close>

datatype ColumnType = ColumnTypePrimaryKey | ColumnTypeSecondaryKey | ColumnTypeUniqueKey | ColumnTypeAttribute
datatype ColumnDatatype = ColumnDatatypeString | ColumnDatatypeInt | ColumnDatatypeLong | ColumnDatatypeDouble | ColumnDatatypeBoolean | ColumnDatatypeTimestamp

record TableDefinition =
  td_name :: string
  td_columns :: "(string, ColumnType \<times> ColumnDatatype) smap"
  td_database :: string

definition AddColumn :: "string \<Rightarrow> ColumnType \<Rightarrow> ColumnDatatype \<Rightarrow> TableDefinition \<Rightarrow> TableDefinition" where
  "AddColumn name columnType datatype td = td\<lparr>td_columns := cache_store name (columnType, datatype) (td_columns td)\<rparr>"

definition columnThingId :: string where "columnThingId = ''ti''"
definition columnPropertySetName :: string where "columnPropertySetName = ''ps''"
definition columnTimeBlock :: string where "columnTimeBlock = ''tb''"

definition property_column :: "TableDefinition \<Rightarrow> Property \<Rightarrow> TableDefinition" where
  "property_column td p =
     (case p_DataType p of
        DataTypeInt \<Rightarrow> AddColumn (p_Name p) ColumnTypeAttribute ColumnDatatypeInt td
      | DataTypeLong \<Rightarrow> AddColumn (p_Name p) ColumnTypeAttribute ColumnDatatypeLong td
      | DataTypeDouble \<Rightarrow> AddColumn (p_Name p) ColumnTypeAttribute ColumnDatatypeDouble td
      | DataTypeBoolean \<Rightarrow> AddColumn (p_Name p) ColumnTypeAttribute ColumnDatatypeBoolean td
      | _ \<Rightarrow> td)"

definition GetCommandTableDefinition :: "PropertySetType \<Rightarrow> TableDefinition" where
  "GetCommandTableDefinition pst =
     foldl property_column
       (AddColumn columnTimeBlock ColumnTypePrimaryKey ColumnDatatypeString
         (AddColumn columnPropertySetName ColumnTypePrimaryKey ColumnDatatypeString
           (AddColumn columnThingId ColumnTypePrimaryKey ColumnDatatypeString
             \<lparr>td_name = om_ID pst, td_columns = [], td_database = ''data-rup''\<rparr>)))
       (pst_Properties pst)"

record 'f rollup_row =
  rr_table :: TableDefinition
  rr_thing :: string
  rr_ps :: string
  rr_tb :: string
  rr_time :: time
  rr_values :: "(string \<times> 'f item) list"

text \<open>\<open>json.Marshal\<close> refuses numbers that are not finite; a nil pointer becomes \<open>null\<close>.\<close>

definition val_finite :: "'f float_ops \<Rightarrow> 'f val \<Rightarrow> bool" where
  "val_finite ops v = (case v of VFloat x \<Rightarrow> fo_finite ops x | _ \<Rightarrow> True)"

definition item_finite :: "'f float_ops \<Rightarrow> 'f item \<Rightarrow> bool" where
  "item_finite ops i =
     (case i of
        NumericItem (Some r) \<Rightarrow> list_all (val_finite ops) [n_FirstValue r, n_LastValue r, n_MinValue r, n_MaxValue r] \<and> list_all (fo_finite ops) [n_Avg r, n_Sum r, n_SD r]
      | _ \<Rightarrow> True)"

definition persistRollup :: "'f float_ops \<Rightarrow> string \<Rightarrow> string \<Rightarrow> time \<Rightarrow> string \<Rightarrow> (string \<times> 'f item) list \<Rightarrow> TableDefinition \<Rightarrow> 'f rollup_row" where
  "persistRollup ops thingId psName end tb rup td =
     \<lparr>rr_table = td, rr_thing = thingId, rr_ps = psName, rr_tb = tb, rr_time = end, rr_values = filter (\<lambda>(k, v). item_finite ops v) rup\<rparr>"

text \<open>
  The table definitions in the LRU cache, which the watch events of property set types keep up to date. A definition that the cache evicts is computed again
  from the same type; evictions are left out.
\<close>

definition updateCache :: "(string, TableDefinition) smap \<Rightarrow> cache_event \<Rightarrow> (string, TableDefinition) smap" where
  "updateCache cache ev =
     (case ev of
        CacheRemove pst \<Rightarrow> cache_delete (om_ID pst) cache
      | CacheUpdate pst \<Rightarrow> cache_store (om_ID pst) (GetCommandTableDefinition pst) cache)"

definition getCommandTableDefinition :: "(string, TableDefinition) smap \<Rightarrow> PropertySetType \<Rightarrow> (string, TableDefinition) smap \<times> TableDefinition" where
  "getCommandTableDefinition cache pst =
     (case cache_load cache (om_ID pst) of
        Some td \<Rightarrow> (cache, td)
      | None \<Rightarrow> let td = GetCommandTableDefinition pst in (cache_store (om_ID pst) td cache, td))"

text \<open>
  The storage: the raw samples of the named properties in a half-open range, and the columns of the first result of a range
  query (\<open>None\<close>: no result).
\<close>

record 'f data_store =
  ds_raw :: "string \<Rightarrow> string \<Rightarrow> string \<Rightarrow> time \<Rightarrow> time \<Rightarrow> string list \<Rightarrow> (string \<times> 'f sample list) list"
  ds_list :: "TableDefinition \<Rightarrow> string \<Rightarrow> string \<Rightarrow> string \<Rightarrow> time \<Rightarrow> time \<Rightarrow> string list \<Rightarrow> (string \<times> 'f columns) list option"

definition GetRollups :: "'f data_store \<Rightarrow> string \<Rightarrow> string \<Rightarrow> time \<Rightarrow> time \<Rightarrow> string \<Rightarrow> string list \<Rightarrow> TableDefinition \<Rightarrow> (string \<times> 'f columns) list" where
  "GetRollups ds thingId psName start end tb properties td =
     (case ds_list ds td thingId psName tb (start + 1000000) (end + 1000000) properties of None \<Rightarrow> [] | Some rups \<Rightarrow> rups)"

subsection \<open>A rollup job\<close>

text \<open>The property set of a thing: the map of the thing names the type \<open>j\<close> that has it; a name that the type lacks is a nil pointer.\<close>

definition type_set :: "thing_manager \<Rightarrow> string \<Rightarrow> string \<Rightarrow> PropertySet option" where
  "type_set m j psName = Option.bind (cache_load (tm_types m) j) (\<lambda>tt. by_name ps_Name (tt_PropertySets tt) psName)"

text \<open>A shared property set type of a cached thing type is cached (\<open>model_integrity\<close>).\<close>

definition set_type :: "thing_manager \<Rightarrow> PropertySet \<Rightarrow> PropertySetType option" where
  "set_type m ps = (case ps_PropertySetType ps of OwnPst pst \<Rightarrow> Some pst | SharedPst i \<Rightarrow> cache_load (pm_cache (tm_pstm m)) i)"

definition Rollup_job ::
  "'f float_ops \<Rightarrow> thing_manager \<Rightarrow> 'f data_store \<Rightarrow> (string, TableDefinition) smap \<Rightarrow> Job \<Rightarrow> (string, TableDefinition) smap \<times> (go_error + 'f rollup_row option)" where
  "Rollup_job ops m ds cache j =
     (case Split (j_Key j) of
        None \<Rightarrow> (cache, Inl GoPanic)
      | Some (thingId, psName) \<Rightarrow>
          (case GetThingById m thingId of
             Inl _ \<Rightarrow> (cache, Inr None)
           | Inr thing \<Rightarrow>
               if cache_load (t_PropertySetByName thing) psName = None then (cache, Inr None)
               else (case Option.bind (cache_load (t_PropertySetByName thing) psName) (\<lambda>j. Option.bind (type_set m j psName) (set_type m)) of
                  None \<Rightarrow> (cache, Inl GoPanic)
                | Some pst \<Rightarrow>
                    let props = pst_Properties pst;
                        legal = map p_Name (filter (\<lambda>p. p_DataType p \<noteq> DataTypeString) props);
                        start = timeBlock_ToTime (j_TimeBlock j);
                        end = start + timeBlock_Duration (j_TimeBlock j);
                        unit = timeBlock_GetUnit (j_TimeBlock j) in
                    if legal = [] then (cache, Inr None)
                    else if timeBlock_IsMinimalInterval (j_TimeBlock j) then
                      (case aggregateData ops props start end (ds_raw ds thingId psName (om_ID pst) start end legal) of
                         Inl err \<Rightarrow> (cache, Inl err)
                       | Inr rup \<Rightarrow>
                           if rup = [] then (cache, Inr None)
                           else let (cache, td) = getCommandTableDefinition cache pst in (cache, Inr (Some (persistRollup ops thingId psName end unit rup td))))
                    else
                      let tb = (if timeBlock_Duration (j_TimeBlock j) > Hour then TimeBlockUnitHour else TimeBlockUnitMinute);
                          (cache, td) = getCommandTableDefinition cache pst;
                          rups = GetRollups ds thingId psName start end [TimeBlockUnitToString tb] legal td in
                      case rollupData ops props start end (TimeBlockUnitDuration tb) rups of
                        Inl err \<Rightarrow> (cache, Inl err)
                      | Inr rup \<Rightarrow> (cache, Inr (Some (persistRollup ops thingId psName end unit rup td))))))"

subsection \<open>Rollups on the fly\<close>

definition DaysPerMonth :: "int list" where
  "DaysPerMonth = [31, 28, 31, 30, 31, 30, 31, 31, 30, 31, 30, 31]"

text \<open>
  The milliseconds of the \<open>n\<close> months before the month of a date; \<open>None\<close>: the index is out of range. The year is the one of the date for all of
  them.
\<close>

definition month_days :: "int \<Rightarrow> int \<Rightarrow> int option" where
  "month_days year m =
     (let cm = (if m \<le> 0 then m + 12 else m) in
      if cm < 1 \<or> cm > 12 then None
      else Some (if cm = 2 \<and> (year mod 4 = 0 \<and> (year mod 100 \<noteq> 0 \<or> year mod 400 = 0)) then 29 else DaysPerMonth ! nat (cm - 1)))"

fun months_ms :: "int \<Rightarrow> int \<Rightarrow> nat \<Rightarrow> int option" where
  "months_ms year month 0 = Some 0"
| "months_ms year month (Suc i) =
     Option.bind (months_ms year month i) (\<lambda>ms.
       map_option (\<lambda>days. ms + days * TimeBlockUnitDuration TimeBlockUnitDay) (month_days year (month - int i - 1)))"

definition add_record :: "string \<Rightarrow> 'a \<Rightarrow> (string, 'a list) smap \<Rightarrow> (string, 'a list) smap" where
  "add_record k x rs = cache_store k ((case cache_load rs k of None \<Rightarrow> [] | Some xs \<Rightarrow> xs) @ [x]) rs"

fun add_records :: "'f float_ops \<Rightarrow> Property list \<Rightarrow> time \<Rightarrow> time \<Rightarrow> int \<Rightarrow> (string \<times> 'f columns) list \<Rightarrow> (string, ('f item \<times> time) list) smap
    \<Rightarrow> go_error + (string, ('f item \<times> time) list) smap" where
  "add_records ops props start end durationMs [] rs = Inr rs"
| "add_records ops props start end durationMs ((k, v) # rups) rs =
     (if by_name p_Name props k = None then Inl GoPanic
      else case rollup_columns ops start end durationMs v of
        Inl err \<Rightarrow> Inl err
      | Inr r \<Rightarrow> add_records ops props start end durationMs rups (add_record k (r, end) rs))"

text \<open>\<open>date\<close> gives the year and month of an instant in the location of the query; \<open>fetch\<close> is \<open>GetRollups\<close> for a range.\<close>

partial_function (option) on_the_fly_loop ::
  "'f float_ops \<Rightarrow> (time \<Rightarrow> int \<times> int) \<Rightarrow> (time \<Rightarrow> time \<Rightarrow> (string \<times> 'f columns) list) \<Rightarrow> Property list \<Rightarrow> int \<Rightarrow> nat \<Rightarrow> time \<Rightarrow> time
    \<Rightarrow> (string, ('f item \<times> time) list) smap \<Rightarrow> (go_error + (string, ('f item \<times> time) list) smap) option" where
  "on_the_fly_loop ops date fetch props durationMs interval start end rs =
     (if \<not> start < end then Some (Inr rs)
      else case (if durationMs \<noteq> 0 then Some durationMs else months_ms (fst (date end)) (snd (date end)) interval) of
        None \<Rightarrow> Some (Inl GoPanic)
      | Some ms \<Rightarrow>
          let tmpStart = block_start end ms in
          (case add_records ops props tmpStart end ms (fetch tmpStart end) rs of
             Inl err \<Rightarrow> Some (Inl err)
           | Inr rs' \<Rightarrow> on_the_fly_loop ops date fetch props durationMs interval start tmpStart rs'))"

declare on_the_fly_loop.simps [code]

definition GetRollupsOnTheFly where
  "GetRollupsOnTheFly ops date ds thingId psName start end tb durationMs interval properties td pst =
     on_the_fly_loop ops date (\<lambda>s e. GetRollups ds thingId psName s e tb properties td) (pst_Properties pst) durationMs interval start end []"

subsection \<open>When the loop returns\<close>

lemma month_days_range: "month_days year m = Some days \<Longrightarrow> 28 \<le> days \<and> days \<le> 31"
proof -
  have "28 \<le> d \<and> d \<le> 31" if "d \<in> set DaysPerMonth" for d using that by (auto simp: DaysPerMonth_def)
  moreover have "length DaysPerMonth = 12" by (simp add: DaysPerMonth_def)
  ultimately have "28 \<le> DaysPerMonth ! n \<and> DaysPerMonth ! n \<le> 31" if "n < 12" for n using that by simp
  then show "month_days year m = Some days \<Longrightarrow> 28 \<le> days \<and> days \<le> 31"
    by (auto simp: month_days_def Let_def split: if_splits)
qed

lemma months_ms_range: "months_ms year month n = Some ms \<Longrightarrow> int n * 28 * 86400000 \<le> ms \<and> ms \<le> int n * 31 * 86400000"
proof (induction n arbitrary: ms)
  case (Suc n)
  then obtain a d where a: "months_ms year month n = Some a" "month_days year (month - int n - 1) = Some d" "ms = a + d * 86400000"
    by (auto simp: bind_eq_Some_conv)
  with Suc.IH [OF a(1)] month_days_range [OF a(2)] show ?case by (simp add: algebra_simps)
qed simp

lemma block_start_before: "0 < ms \<Longrightarrow> ms * 1000000 \<le> max_int64 \<Longrightarrow> block_start e ms = e - ms * 1000000"
  by (simp add: block_start_def in64_def min_int64_def max_int64_def)

lemma on_the_fly_done: "\<not> s < e \<Longrightarrow> on_the_fly_loop ops date fetch props ms n s e rs = Some (Inr rs)"
  by (subst on_the_fly_loop.simps) simp

lemma on_the_fly_returns:
  assumes "durationMs \<noteq> 0 \<Longrightarrow> 0 < durationMs \<and> durationMs * 1000000 \<le> max_int64" "durationMs = 0 \<Longrightarrow> 0 < interval \<and> interval \<le> 99"
  shows "on_the_fly_loop ops date fetch props durationMs interval start end rs \<noteq> None"
proof (induction "nat (end - start)" arbitrary: "end" rs rule: less_induct)
  case less
  show ?case
  proof (cases "start < end")
    case True
    show ?thesis
    proof (cases "if durationMs \<noteq> 0 then Some durationMs else months_ms (fst (date end)) (snd (date end)) interval")
      case None
      with True show ?thesis by (subst on_the_fly_loop.simps) simp
    next
      case (Some ms)
      have ms: "0 < ms" "ms * 1000000 \<le> max_int64"
        using Some assms months_ms_range [of "fst (date end)" "snd (date end)" interval ms] by (auto simp: max_int64_def split: if_splits)
      let ?s = "block_start end ms"
      have "nat (?s - start) < nat (end - start)" using block_start_before [OF ms, of "end"] ms(1) True by simp
      from less [OF this] Some True show ?thesis
        by (subst on_the_fly_loop.simps) (simp add: Let_def split: sum.splits)
    qed
  qed (simp add: on_the_fly_done)
qed

lemma on_the_fly_hangs:
  assumes "fetch end end = []" "start < end"
  shows "on_the_fly_loop ops date fetch props 0 0 start end rs = None"
proof (rule ccontr)
  assume "on_the_fly_loop ops date fetch props 0 0 start end rs \<noteq> None"
  then obtain r where ret: "on_the_fly_loop ops date fetch props 0 0 start end rs = Some r" by blast
  have "\<not> ((0 :: int) = 0 \<and> (0 :: nat) = 0 \<and> start < end \<and> fetch end end = [])"
  proof (rule on_the_fly_loop.raw_induct [where P = "\<lambda>ops date fetch props ms n s e rs r. \<not> (ms = 0 \<and> n = 0 \<and> s < e \<and> fetch e e = [])", OF _ ret])
    fix f :: "'a float_ops \<Rightarrow> (time \<Rightarrow> int \<times> int) \<Rightarrow> (time \<Rightarrow> time \<Rightarrow> (string \<times> 'a columns) list) \<Rightarrow> Property list \<Rightarrow> int \<Rightarrow> nat \<Rightarrow> time \<Rightarrow> time \<Rightarrow>
      (string, ('a item \<times> time) list) smap \<Rightarrow> (go_error + (string, ('a item \<times> time) list) smap) option"
    fix ops date fetch props ms n s e rs r
    assume ih: "\<And>ops date fetch props ms n s e rs r. f ops date fetch props ms n s e rs = Some r \<Longrightarrow> \<not> (ms = 0 \<and> n = 0 \<and> s < e \<and> fetch e e = [])"
    assume "(if \<not> s < e then Some (Inr rs)
      else case (if ms \<noteq> 0 then Some ms else months_ms (fst (date e)) (snd (date e)) n) of
        None \<Rightarrow> Some (Inl GoPanic)
      | Some ms' \<Rightarrow>
          let tmpStart = block_start e ms' in
          (case add_records ops props tmpStart e ms' (fetch tmpStart e) rs of
             Inl err \<Rightarrow> Some (Inl err)
           | Inr rs' \<Rightarrow> f ops date fetch props ms n s tmpStart rs')) = Some r"
    then show "\<not> (ms = 0 \<and> n = 0 \<and> s < e \<and> fetch e e = [])"
      using ih [of ops date fetch props ms n s e rs r] by (auto simp: block_start_def Let_def wrap64_def)
  qed
  with assms show False by simp
qed

subsection \<open>Durations on the fly\<close>

text \<open>A lamp that is on for two hours, with one sample in each, and the two hourly items.\<close>

definition lamp_columns :: "RollupBoolItem ResultColumn list" where
  "lamp_columns =
     [\<lparr>rc_Value = aggregateBool [(True, 2 * Hour)] (2 * Hour) (3 * Hour), rc_Time = 3 * Hour\<rparr>,
      \<lparr>rc_Value = aggregateBool [(True, 3 * Hour)] (3 * Hour) (4 * Hour), rc_Time = 4 * Hour\<rparr>]"

definition lamp_type :: PropertySetType where
  "lamp_type = \<lparr>om_Tenant = ''main'', om_Name = ''Lamp'', om_ID = ''main.Lamp'', om_Version = ''1'', om_ModTime = 1, pst_Description = None,
     pst_Properties = [\<lparr>p_Name = ''on'', p_Unit = [], p_Length = 0, p_DataType = DataTypeBoolean, p_AccessMode = AccessModeReadOnly, p_Min = None, p_Max = None\<rparr>]\<rparr>"

definition lamp_store :: "'f data_store" where
  "lamp_store = \<lparr>ds_raw = (\<lambda>_ _ _ _ _ _. []), ds_list = (\<lambda>_ _ _ _ _ _ _. Some [(''on'', BoolColumns lamp_columns)])\<rparr>"

text \<open>
  Durations computed on the fly are wrong. For a lamp that was on all the time, the hourly items roll up to an item with two hours of light; but a query
  for an interval of two hours passes the length of the interval as the length of the blocks, and answers that the lamp was never on.
\<close>

theorem on_the_fly_durations_wrong:
  fixes ops :: "'f float_ops"
  shows "(\<exists>r. rollupBool lamp_columns (2 * Hour) (4 * Hour) 3600000 = Inr (Some r) \<and> b_TrueDuration r = 7200000) \<and>
   (\<exists>r. GetRollupsOnTheFly ops date lamp_store ''lamp'' ''light'' (2 * Hour) (4 * Hour) ''h'' 7200000 2 [''on''] (GetCommandTableDefinition lamp_type) lamp_type =
      Some (Inr [(''on'', [(BoolItem (Some r), 4 * Hour)])]) \<and> b_TrueDuration r = 0)"
proof -
  have "map_sum id (map_option b_TrueDuration) (rollupBool lamp_columns (2 * Hour) (4 * Hour) 3600000) = Inr (Some 7200000)" by code_simp
  then have 1: "\<exists>r. rollupBool lamp_columns (2 * Hour) (4 * Hour) 3600000 = Inr (Some r) \<and> b_TrueDuration r = 7200000"
    by (cases "rollupBool lamp_columns (2 * Hour) (4 * Hour) 3600000") auto
  have "map_sum id (map_option b_TrueDuration) (rollupBool lamp_columns (2 * Hour) (4 * Hour) 7200000) = Inr (Some 0)" by code_simp
  then obtain r where r: "rollupBool lamp_columns (2 * Hour) (4 * Hour) 7200000 = Inr (Some r)" "b_TrueDuration r = 0"
    by (cases "rollupBool lamp_columns (2 * Hour) (4 * Hour) 7200000") auto
  have "GetRollupsOnTheFly ops date lamp_store ''lamp'' ''light'' (2 * Hour) (4 * Hour) ''h'' 7200000 2 [''on''] (GetCommandTableDefinition lamp_type) lamp_type =
      Some (Inr [(''on'', [(BoolItem (Some r), 4 * Hour)])])"
  proof -
    have "block_start (4 * Hour) 7200000 = 2 * Hour" by (simp add: block_start_before max_int64_def duration_units)
    moreover have "GetRollups (lamp_store :: 'f data_store) ''lamp'' ''light'' (2 * Hour) (4 * Hour) ''h'' [''on''] (GetCommandTableDefinition lamp_type) = [(''on'', BoolColumns lamp_columns)]"
      by (simp add: GetRollups_def lamp_store_def)
    moreover have "by_name p_Name (pst_Properties lamp_type) ''on'' \<noteq> None" by (simp add: lamp_type_def by_name_def)
    moreover have "0 < Hour" by (simp add: duration_units)
    ultimately show ?thesis using r(1) unfolding GetRollupsOnTheFly_def
      by (subst on_the_fly_loop.simps) (simp add: Let_def rollup_columns_def add_record_def on_the_fly_done)
  qed
  with 1 r(2) show ?thesis by blast
qed

end
