(* ===== verification/Rollup_Query.thy ===== *)
theory Rollup_Query
  imports Rollup_Worker
begin

text \<open>
  Queries for rollups (\<open>src/pkg/rollup/data/{types,request-validator,manager,server}.go\<close>): parsing and checking a request, aligning its times, choosing the blocks and
  assembling the answer. Go's calendar is in the first section.

  Shown: the numbering of days is inverse to the calendar; the start of a query for seconds, minutes, hours or days is aligned down to its unit, but weeks
  that start on Mondays move a Sunday forward; a request with the interval zero passes the checks and is never answered, all others return.
\<close>

subsection \<open>Dates\<close>

text \<open>
  The number of a day, from the Unix epoch, of a year, month and day, as \<open>time.Date\<close> normalises them: months count on beyond the year, days beyond the
  month. Years begin in March, so that leap days are last.
\<close>

definition days_of_date :: "int \<Rightarrow> int \<Rightarrow> int \<Rightarrow> int" where
  "days_of_date year month day =
     (let y = year + (month - 3) div 12; m = (month - 3) mod 12 in
      365 * y + y div 4 - y div 100 + y div 400 + (153 * m + 2) div 5 + day - 719469)"

text \<open>The inverse, in cycles of 400, 100, 4 and 1 years; the last of four centuries and of four years is the one with the extra day.\<close>

definition four_of :: "int \<Rightarrow> int \<Rightarrow> int \<times> int" where
  "four_of k d = (let n = d div k; c = n - n div 4 in (c, d - k * c))"

definition month_of :: "int \<Rightarrow> int" where
  "month_of doy = (5 * doy + 2) div 153"

definition date_of_days :: "int \<Rightarrow> int \<times> int \<times> int" where
  "date_of_days day =
     (let z = day + 719468 in
      case four_of 36524 (z mod 146097) of (c, d) \<Rightarrow>
      case four_of 365 (d mod 1461) of (r, doy) \<Rightarrow>
        let mp = month_of doy; m = (if mp < 10 then mp + 3 else mp - 9) in
        (400 * (z div 146097) + 100 * c + 4 * (d div 1461) + r + (if m \<le> 2 then 1 else 0), m, doy - (153 * mp + 2) div 5 + 1))"

lemma div_bounds: "0 < k \<Longrightarrow> k * (x div k) \<le> x" "0 < k \<Longrightarrow> x < k * (x div k) + k" for x k :: int
  using pos_mod_sign [of k x] pos_mod_bound [of k x] by (simp_all add: mult.commute [of k] minus_mod_eq_div_mult [symmetric])

lemma four_of_cases:
  assumes "0 \<le> d" "d \<le> 4 * k" "0 < k"
  obtains c r where "four_of k d = (c, r)" "0 \<le> c" "c \<le> 3" "0 \<le> r" "r \<le> k" "d = k * c + r"
proof
  let ?c = "d div k - d div k div 4"
  have kd: "k * (d div k) \<le> d" "d < k * (d div k) + k" "0 \<le> d div k"
    using assms(1,3) div_bounds [of k d] by (simp_all add: pos_imp_zdiv_nonneg_iff)
  have "d div k \<le> 4" using assms(2,3) zdiv_mono1 [OF assms(2), of k] by simp
  with kd(3) consider "d div k \<in> {0, 1, 2, 3}" | "d div k = 4" by fastforce
  then show "0 \<le> ?c" "?c \<le> 3" "0 \<le> d - k * ?c" "d - k * ?c \<le> k" using kd assms(2) by (cases; auto)+
qed (simp_all add: four_of_def Let_def)

lemma month_of_range: "0 \<le> doy \<Longrightarrow> doy \<le> 365 \<Longrightarrow> 0 \<le> month_of doy \<and> month_of doy \<le> 11"
  using div_bounds [of 153 "5 * doy + 2"] unfolding month_of_def by linarith

lemma days_of_date_of_days: "(case date_of_days n of (y, m, d) \<Rightarrow> days_of_date y m d) = n"
proof -
  define z where "z = n + 719468"
  have z: "0 \<le> z mod 146097" "z mod 146097 \<le> 4 * 36524" using pos_mod_bound [of 146097 z] by simp_all
  obtain c d where c: "four_of 36524 (z mod 146097) = (c, d)" "0 \<le> c" "c \<le> 3" "0 \<le> d" "d \<le> 36524" "z mod 146097 = 36524 * c + d"
    using four_of_cases [OF z zero_less_numeral] by metis
  have d: "0 \<le> d mod 1461" "d mod 1461 \<le> 4 * 365" using pos_mod_bound [of 1461 d] by simp_all
  obtain r doy where r: "four_of 365 (d mod 1461) = (r, doy)" "0 \<le> r" "r \<le> 3" "0 \<le> doy" "doy \<le> 365" "d mod 1461 = 365 * r + doy"
    using four_of_cases [OF d zero_less_numeral] by metis
  define era q mp where "era = z div 146097" and "q = d div 1461" and "mp = month_of doy"
  have mp: "0 \<le> mp" "mp \<le> 11" using month_of_range [OF r(4,5)] by (simp_all add: mp_def)
  have q: "0 \<le> q" "q \<le> 24" using div_bounds [of 1461 d] c(4,5) unfolding q_def by linarith+
  let ?m = "if mp < 10 then mp + 3 else mp - 9" and ?y = "400 * era + 100 * c + 4 * q + r"
  have dt: "date_of_days n = (?y + (if ?m \<le> 2 then 1 else 0), ?m, doy - (153 * mp + 2) div 5 + 1)"
    by (simp add: date_of_days_def z_def [symmetric] c(1) r(1) era_def q_def mp_def Let_def)
  have "?m - 3 = (if mp < 10 then mp else mp - 12)" by simp
  then have m: "(?m - 3) div 12 = (if ?m \<le> 2 then - 1 else 0)" "(?m - 3) mod 12 = mp" using mp by (auto simp: div_pos_neg_trivial)
  have y: "?y div 4 = 100 * era + 25 * c + q" "?y div 100 = 4 * era + c" "?y div 400 = era"
    by (rule int_div_pos_eq [where r = r], use r(2,3) in simp_all, rule int_div_pos_eq [where r = "4 * q + r"], use q r(2,3) in simp_all,
        rule int_div_pos_eq [where r = "100 * c + 4 * q + r"], use c(2,3) q r(2,3) in simp_all)
  have "z = 146097 * era + (36524 * c + d)" "d = 1461 * q + (365 * r + doy)" using mult_div_mod_eq [of 146097 z] mult_div_mod_eq [of 1461 d]
    unfolding c(6) r(6) era_def q_def by linarith+
  then have "n = 146097 * era + 36524 * c + 1461 * q + 365 * r + doy - 719468" by (simp add: z_def)
  with y show ?thesis unfolding dt prod.case days_of_date_def Let_def m by simp
qed

definition weekday :: "int \<Rightarrow> int" where
  "weekday day = (day + 4) mod 7"

text \<open>The year of the Thursday of a day's week, Monday being its first day.\<close>

definition ISOWeek_year :: "int \<Rightarrow> int" where
  "ISOWeek_year day = fst (date_of_days (day - (weekday day + 6) mod 7 + 3))"

text \<open>\<open>time.Date\<close> in a location, as an instant.\<close>

definition time_Date :: "Location \<Rightarrow> int \<Rightarrow> int \<Rightarrow> int \<Rightarrow> int \<Rightarrow> int \<Rightarrow> int \<Rightarrow> time" where
  "time_Date loc year month day hour mi sec = time_of_Unix (date_Unix loc (days_of_date year month day) hour mi sec)"

subsection \<open>Intervals\<close>

record Interval =
  iv_amount :: nat
  iv_unit :: char

definition QueryIntervalUnitToDuration :: "char \<Rightarrow> duration" where
  "QueryIntervalUnitToDuration u =
     (case map_of [(CHR ''s'', Second), (CHR ''m'', Minute), (CHR ''h'', Hour), (CHR ''D'', 24 * Hour), (CHR ''W'', 7 * 24 * Hour), (CHR ''M'', 0)] u of
        None \<Rightarrow> 0 | Some d \<Rightarrow> d)"

text \<open>The character class of the expression holds the bar, too.\<close>

definition interval_unit :: "char \<Rightarrow> bool" where
  "interval_unit u = (u \<in> set ''s|mhDWM'')"

fun ToInterval :: "string \<Rightarrow> Interval option" where
  "ToInterval [d, u] = (if is_digit d \<and> interval_unit u then Some \<lparr>iv_amount = digit_val d, iv_unit = u\<rparr> else None)"
| "ToInterval [d1, d2, u] =
     (if is_digit d1 \<and> is_digit d2 \<and> interval_unit u then Some \<lparr>iv_amount = 10 * digit_val d1 + digit_val d2, iv_unit = u\<rparr> else None)"
| "ToInterval _ = None"

definition toDuration :: "Interval \<Rightarrow> duration" where
  "toDuration iv = wrap64 (int (iv_amount iv) * QueryIntervalUnitToDuration (iv_unit iv))"

subsection \<open>The request\<close>

record Request =
  rq_thingId :: string
  rq_propertySetName :: string
  rq_start :: string
  rq_end :: string
  rq_interval :: string
  rq_filter :: string
  rq_weekStartFromSunday :: bool

text \<open>
  The validator: times with the location they are in. \<open>parse\<close> is \<open>time.Parse\<close> for RFC 3339: the instant and the offset of its zone.
\<close>

record RequestValidator =
  rv_start :: time
  rv_start_loc :: Location
  rv_end :: time
  rv_end_loc :: Location
  rv_interval :: Interval

definition parseDates :: "(string \<Rightarrow> (time \<times> int) option) \<Rightarrow> Request \<Rightarrow> go_error + RequestValidator" where
  "parseDates parse rq =
     (case parse (rq_start rq) of
        None \<Rightarrow> Inl (ErrRollupStartInvalid (rq_start rq))
      | Some (start, soff) \<Rightarrow>
          (case parse (rq_end rq) of
             None \<Rightarrow> Inl (ErrRollupEndInvalid (rq_end rq))
           | Some (end, eoff) \<Rightarrow>
               (case ToInterval (rq_interval rq) of
                  None \<Rightarrow> Inl (ErrRollupIntervalInvalid (rq_interval rq))
                | Some iv \<Rightarrow> Inr \<lparr>rv_start = start, rv_start_loc = fixed_zone soff, rv_end = end, rv_end_loc = fixed_zone eoff, rv_interval = iv\<rparr>)))"

definition date_in :: "Location \<Rightarrow> time \<Rightarrow> int \<times> int \<times> int" where
  "date_in loc t = date_of_days (fst (wall_clock loc t))"

definition CheckQueries :: "(string \<Rightarrow> (time \<times> int) option) \<Rightarrow> Request \<Rightarrow> go_error + RequestValidator" where
  "CheckQueries parse rq =
     (case parseDates parse rq of
        Inl err \<Rightarrow> Inl err
      | Inr v \<Rightarrow>
          if rv_start v > rv_end v then Inl (ErrTimeInvalid (rq_end rq))
          else if iv_unit (rv_interval v) \<noteq> CHR ''M'' then
            (if rv_start v + toDuration (rv_interval v) > rv_end v then Inl (ErrRollupIntervalInvalid (rq_interval rq)) else Inr v)
          else
            (case (date_in (rv_start_loc v) (rv_start v), date_in (rv_end_loc v) (rv_end v)) of
               ((sy, sm, _), (ey, em, _)) \<Rightarrow>
                 if (ey - sy) * 12 + (em - sm) < int (iv_amount (rv_interval v)) then Inl (ErrRollupIntervalInvalid (rq_interval rq)) else Inr v))"

subsection \<open>Aligning\<close>

definition week_offset :: "int \<Rightarrow> int \<Rightarrow> int" where
  "week_offset day weekStart = trunc_rem (7 - (weekday day - weekStart)) 7"

definition alignStartDate :: "Location \<Rightarrow> int \<Rightarrow> char \<Rightarrow> time \<Rightarrow> time option" where
  "alignStartDate loc weekStart unit t =
     (case wall_clock loc t of (n, hour, mi, sec) \<Rightarrow>
      case date_of_days n of (year, month, day) \<Rightarrow>
        if unit = CHR ''M'' then Some (time_Date loc year month 1 0 0 0)
        else if unit = CHR ''W'' then
          Some (time_Date loc year month
            (if ISOWeek_year n = year then day - (weekday n - weekStart) else day + week_offset n weekStart) 0 0 0)
        else if unit = CHR ''D'' then Some (time_Date loc year month day 0 0 0)
        else if unit = CHR ''h'' then Some (time_Date loc year month day hour 0 0)
        else if unit = CHR ''m'' then Some (time_Date loc year month day hour mi 0)
        else if unit = CHR ''s'' then Some (time_Date loc year month day hour mi sec)
        else None)"

definition alignEndDate :: "Location \<Rightarrow> int \<Rightarrow> Interval \<Rightarrow> time \<Rightarrow> time option" where
  "alignEndDate loc weekStart iv t =
     (case wall_clock loc t of (n, hour, mi, sec) \<Rightarrow>
      case date_of_days n of (year, month, day) \<Rightarrow>
        if iv_unit iv = CHR ''M'' then
          (if day > 1 \<or> sec > 0 \<or> mi > 0 \<or> hour > 0 then
             (case date_in loc (time_Date loc year (month + int (iv_amount iv)) day hour mi sec) of (y, m, _) \<Rightarrow> Some (time_Date loc y m 1 0 0 0))
           else Some (time_Date loc year month day hour mi sec))
        else if iv_unit iv = CHR ''W'' then Some (time_Date loc year month (day + week_offset n weekStart) 0 0 0)
        else if iv_unit iv = CHR ''D'' then
          Some (if sec > 0 \<or> mi > 0 \<or> hour > 0 then time_Date loc year month day 0 0 0 + 24 * Hour else time_Date loc year month day hour mi sec)
        else if iv_unit iv = CHR ''h'' then
          Some (if sec > 0 \<or> mi > 0 then time_Date loc year month day hour 0 0 + Hour else time_Date loc year month day hour mi sec)
        else if iv_unit iv = CHR ''m'' then
          Some (if sec > 0 then time_Date loc year month day hour mi 0 + Minute else time_Date loc year month day hour mi sec)
        else if iv_unit iv = CHR ''s'' then Some (time_Date loc year month day hour mi sec)
        else None)"

text \<open>\<open>zone\<close> is the location of a name. A thing without a zone has the nil location, at which \<open>In\<close> panics.\<close>

definition alignDate :: "(string \<Rightarrow> Location) \<Rightarrow> thing_manager \<Rightarrow> Request \<Rightarrow> RequestValidator \<Rightarrow> go_error + RequestValidator" where
  "alignDate zone m rq v =
     (case GetThingById m (rq_thingId rq) of
        Inl _ \<Rightarrow> Inl (ErrThingNotFound (rq_thingId rq))
      | Inr thing \<Rightarrow>
          (case t_TimeZone thing of
             None \<Rightarrow> Inl GoPanic
           | Some z \<Rightarrow>
               let loc = zone z; weekStart = (if rq_weekStartFromSunday rq then 0 else 1) in
               (case alignStartDate loc weekStart (iv_unit (rv_interval v)) (rv_start v) of
                  None \<Rightarrow> Inl (ErrRollupIntervalInvalid (rq_interval rq))
                | Some s \<Rightarrow>
                    (case alignEndDate loc weekStart (rv_interval v) (rv_end v) of
                       None \<Rightarrow> Inl (ErrRollupIntervalInvalid (rq_interval rq))
                     | Some e \<Rightarrow> Inr (v\<lparr>rv_start := s, rv_start_loc := loc, rv_end := e, rv_end_loc := loc\<rparr>)))))"

lemma alignStartDate_floor:
  assumes t: "\<bar>time_Unix t\<bar> \<le> 1000000000000000" and off: "\<bar>off\<bar> \<le> 86400"
    and u: "(unit, d) \<in> {(CHR ''D'', 86400), (CHR ''h'', 3600), (CHR ''m'', 60), (CHR ''s'', 1)}"
  shows "alignStartDate (fixed_zone off) weekStart unit t = Some (time_of_Unix (time_Unix t - (time_Unix t + off) mod d))"
proof -
  let ?n = "(time_Unix t + off) div 86400"
  have n: "near (time_Unix t)" using t by (simp add: near_def)
  obtain y m e where ymd: "date_of_days ?n = (y, m, e)" by (metis prod_cases3)
  then have "days_of_date y m e = ?n" using days_of_date_of_days [of ?n] by simp
  then show ?thesis
    using u by (auto simp: alignStartDate_def wall_clock_fixed [OF n] Let_def ymd time_Date_def date_floor_fixed [OF t off])
qed

text \<open>With weeks that start on Mondays, a query from Sunday the 7th of January 2024 starts on Monday the 8th, and with weeks that start on Sundays on the 7th.\<close>

lemma alignStartDate_sunday:
  "alignStartDate (fixed_zone 0) 1 (CHR ''W'') (time_of_Unix 1704585600) = Some (time_of_Unix (1704585600 + 86400))"
  "alignStartDate (fixed_zone 0) 0 (CHR ''W'') (time_of_Unix 1704585600) = Some (time_of_Unix 1704585600)"
  by code_simp+

subsection \<open>Selected fields\<close>

text \<open>The fields by their numbers, with their names as they are written; a request names them in any case.\<close>

definition numeric_fields :: "string list" where
  "numeric_fields = [''firstTime'', ''firstValue'', ''lastTime'', ''lastValue'', ''minTime'', ''minValue'', ''maxTime'', ''maxValue'', ''avg'', ''sum'', ''sd'',
     ''goodCnt'', ''badCnt'', ''uncertainCnt'']"

definition bool_fields :: "string list" where
  "bool_fields = [''firstTrueTime'', ''firstFalseTime'', ''lastTrueTime'', ''lastFalseTime'', ''lastValue'', ''trueCnt'', ''trueDuration'', ''falseCnt'', ''falseDuration'']"

definition lower_char :: "char \<Rightarrow> char" where
  "lower_char c = (if 65 \<le> (of_char c :: nat) \<and> of_char c \<le> (90 :: nat) then char_of (of_char c + 32 :: nat) else c)"

definition field_number :: "string list \<Rightarrow> string \<Rightarrow> nat option" where
  "field_number names s = map_option fst (find (\<lambda>(i, n). map lower_char n = map lower_char s) (enumerate 0 names))"

definition select_field :: "string list \<Rightarrow> string list \<Rightarrow> nat list \<Rightarrow> nat list" where
  "select_field names ss fs =
     (if length ss = 1 then [0..<length names]
      else case field_number names (ss ! 1) of None \<Rightarrow> fs | Some f \<Rightarrow> fs @ [f])"

definition fields_of :: "Property \<Rightarrow> string list option" where
  "fields_of p = (if p_DataType p \<in> {DataTypeInt, DataTypeDouble, DataTypeLong} then Some numeric_fields
     else if p_DataType p = DataTypeBoolean then Some bool_fields else None)"

definition add_select :: "Property list \<Rightarrow> (string, nat list) smap \<Rightarrow> string \<Rightarrow> (string, nat list) smap" where
  "add_select props legal s =
     (let ss = split_at (CHR ''.'') s; p = hd ss in
      case by_name p_Name props p of
        None \<Rightarrow> legal
      | Some property \<Rightarrow>
          let fs = (case cache_load legal p of None \<Rightarrow> [] | Some fs \<Rightarrow> fs) in
          cache_store p (case fields_of property of None \<Rightarrow> fs | Some names \<Rightarrow> select_field names ss fs) legal)"

definition GetPSTAndSelects :: "thing_manager \<Rightarrow> Request \<Rightarrow> go_error + (PropertySetType \<times> (string, nat list) smap option \<times> go_error option)" where
  "GetPSTAndSelects m rq =
     (case GetThingById m (rq_thingId rq) of
        Inl _ \<Rightarrow> Inl (ErrThingNotFound (rq_thingId rq))
      | Inr thing \<Rightarrow>
          (case cache_load (t_PropertySetByName thing) (rq_propertySetName rq) of
             None \<Rightarrow> Inl (ErrPropertySetTypeNotFound (rq_propertySetName rq))
           | Some j \<Rightarrow>
               (case Option.bind (type_set m j (rq_propertySetName rq)) (set_type m) of
                  None \<Rightarrow> Inl GoPanic
                | Some pst \<Rightarrow>
                    if rq_filter rq \<noteq> [] then
                      (let legal = foldl (add_select (pst_Properties pst)) [] (split_at (CHR '','') (rq_filter rq)) in
                       if legal = [] then Inr (pst, None, Some ErrAllSelectInvalid) else Inr (pst, Some legal, None))
                    else
                      Inr (pst, Some (foldl (\<lambda>legal p. case fields_of p of None \<Rightarrow> legal | Some names \<Rightarrow> cache_store (p_Name p) [0..<length names] legal) []
                             (pst_Properties pst)), None))))"

subsection \<open>The answer\<close>

datatype 'f field_value = FTime time | FVal "'f val" | FFloat 'f | FInt int | FBool bool

definition numericMapFuncs :: "nat \<Rightarrow> 'f RollupNumericItem \<Rightarrow> 'f field_value" where
  "numericMapFuncs f r =
     [FTime (n_FirstTime r), FVal (n_FirstValue r), FTime (n_LastTime r), FVal (n_LastValue r), FTime (n_MinTime r), FVal (n_MinValue r),
      FTime (n_MaxTime r), FVal (n_MaxValue r), FFloat (n_Avg r), FFloat (n_Sum r), FFloat (n_SD r), FInt (n_GoodCnt r), FInt (n_BadCnt r), FInt (n_UncertainCnt r)] ! f"

definition boolMapFuncs :: "nat \<Rightarrow> RollupBoolItem \<Rightarrow> 'f field_value" where
  "boolMapFuncs f r =
     [FTime (b_FirstTrueTime r), FTime (b_FirstFalseTime r), FTime (b_LastTrueTime r), FTime (b_LastFalseTime r), FBool (b_LastValue r), FInt (b_TrueCnt r),
      FInt (b_TrueDuration r), FInt (b_FalseCnt r), FInt (b_FalseDuration r)] ! f"

definition assemble :: "string list \<Rightarrow> (nat \<Rightarrow> 'i \<Rightarrow> 'f field_value) \<Rightarrow> nat list \<Rightarrow> 'i \<Rightarrow> (string, 'f field_value) smap" where
  "assemble names mapFuncs fs r = foldl (\<lambda>rr f. cache_store (names ! f) (mapFuncs f r) rr) [] fs"

text \<open>
  One column to its record. A stored column that did not decode leaves a nil record, which panics when its time is read; an item computed on the fly may be
  a nil pointer, which panics when a field of it is read.
\<close>

fun extract_item :: "nat list \<Rightarrow> 'f item \<Rightarrow> (string, 'f field_value) smap option" where
  "extract_item fs (NumericItem (Some r)) = Some (assemble numeric_fields numericMapFuncs fs r)"
| "extract_item fs (BoolItem (Some r)) = Some (assemble bool_fields boolMapFuncs fs r)"
| "extract_item fs (NumericItem None) = (if fs = [] then Some [] else None)"
| "extract_item fs (BoolItem None) = (if fs = [] then Some [] else None)"

fun column_items :: "'f columns \<Rightarrow> ('f item option \<times> time) list" where
  "column_items (NumericColumns cs) = map (\<lambda>c. (map_option (NumericItem \<circ> Some) (rc_Value c), rc_Time c)) cs"
| "column_items (BoolColumns cs) = map (\<lambda>c. (map_option (BoolItem \<circ> Some) (rc_Value c), rc_Time c)) cs"

type_synonym 'f answer = "(string, (string, 'f field_value) smap) smap"

definition group_item :: "string \<Rightarrow> nat list \<Rightarrow> (time, 'f answer) smap option \<Rightarrow> 'f item option \<times> time \<Rightarrow> (time, 'f answer) smap option" where
  "group_item k fs acc x =
     Option.bind acc (\<lambda>g. Option.bind (fst x) (\<lambda>i. map_option (\<lambda>rr.
       cache_store (snd x) (cache_store k rr (case cache_load g (snd x) of None \<Rightarrow> [] | Some a \<Rightarrow> a)) g) (extract_item fs i)))"

definition groupByTime :: "(string, nat list) smap \<Rightarrow> (string \<times> ('f item option \<times> time) list) list \<Rightarrow> (time, 'f answer) smap option" where
  "groupByTime selects rups =
     foldl (\<lambda>acc (k, xs). foldl (group_item k (case cache_load selects k of None \<Rightarrow> [] | Some fs \<Rightarrow> fs)) acc xs) (Some []) rups"

text \<open>The start of row \<open>i\<close>; months are taken \<open>i\<close> before the row's month, and the same one every time.\<close>

definition row_start :: "Location \<Rightarrow> Interval \<Rightarrow> nat \<Rightarrow> time \<Rightarrow> time option" where
  "row_start loc iv i t =
     (let ms = trunc_quot (toDuration iv) 1000000 in
      if ms \<noteq> 0 then Some (block_start t ms)
      else case date_in loc t of (year, month, _) \<Rightarrow>
        if iv_amount iv = 0 then Some (block_start t 0)
        else map_option (\<lambda>days. block_start t (int (iv_amount iv) * (days * TimeBlockUnitDuration TimeBlockUnitDay))) (month_days year (month - int i - 1)))"

definition extractData :: "Location \<Rightarrow> Interval \<Rightarrow> (string, nat list) smap \<Rightarrow> (string \<times> ('f item option \<times> time) list) list \<Rightarrow> go_error + (time \<times> time \<times> 'f answer) list" where
  "extractData loc iv selects rups =
     (case groupByTime selects rups of
        None \<Rightarrow> Inl GoPanic
      | Some g \<Rightarrow>
          (case those (map (\<lambda>(i, t). map_option (\<lambda>s. (s, t, case cache_load g t of None \<Rightarrow> [] | Some a \<Rightarrow> a)) (row_start loc iv i t))
                  (enumerate 0 (sort (map fst g)))) of
             None \<Rightarrow> Inl GoPanic | Some rows \<Rightarrow> Inr rows))"

definition block_unit :: "duration \<Rightarrow> TimeBlockUnit option" where
  "block_unit d = (if d \<ge> 24 * Hour \<or> d = 0 then Some TimeBlockUnitDay else if d \<ge> Hour then Some TimeBlockUnitHour
     else if d \<ge> Minute then Some TimeBlockUnitMinute else None)"

definition GetRollup ::
  "'f float_ops \<Rightarrow> 'f data_store \<Rightarrow> (string, TableDefinition) smap \<Rightarrow> Request \<Rightarrow> RequestValidator \<Rightarrow> (string, nat list) smap \<Rightarrow> PropertySetType
    \<Rightarrow> ((string, TableDefinition) smap \<times> (go_error + (time \<times> time \<times> 'f answer) list)) option" where
  "GetRollup ops ds cache rq v selects pst =
     (let iv = rv_interval v; d = toDuration iv in
      case block_unit d of
        None \<Rightarrow> Some (cache, Inr [])
      | Some tb \<Rightarrow>
          let properties = map fst selects; durationMs = trunc_quot d 1000000;
              (cache, td) = getCommandTableDefinition cache pst;
              unit = [TimeBlockUnitToString tb];
              date = (\<lambda>t. case date_in (rv_end_loc v) t of (y, m, _) \<Rightarrow> (y, m)) in
          if durationMs > TimeBlockUnitDuration tb \<or> durationMs = 0 then
            (case GetRollupsOnTheFly ops date ds (rq_thingId rq) (rq_propertySetName rq) (rv_start v) (rv_end v) unit durationMs (iv_amount iv) properties td pst of
               None \<Rightarrow> None
             | Some (Inl err) \<Rightarrow> Some (cache, Inl err)
             | Some (Inr rs) \<Rightarrow>
                 Some (cache, extractData (rv_end_loc v) iv selects (map (\<lambda>(k, xs). (k, map (\<lambda>(i, t). (Some i, t)) xs)) rs)))
          else
            Some (cache, extractData (rv_end_loc v) iv selects
              (map (\<lambda>(k, cs). (k, column_items cs)) (GetRollups ds (rq_thingId rq) (rq_propertySetName rq) (rv_start v) (rv_end v) unit properties td))))"

text \<open>The handler of a query; the status is 500 where a panic is recovered, and the loop may not return.\<close>

datatype 'f query_answer = BadRequest go_error | NotFound | Failed | Rollups "(time \<times> time \<times> 'f answer) list"

definition query_rollups ::
  "'f float_ops \<Rightarrow> (string \<Rightarrow> (time \<times> int) option) \<Rightarrow> (string \<Rightarrow> Location) \<Rightarrow> thing_manager \<Rightarrow> 'f data_store \<Rightarrow> (string, TableDefinition) smap \<Rightarrow> Request
    \<Rightarrow> 'f query_answer option" where
  "query_rollups ops parse zone m ds cache rq =
     (case CheckQueries parse rq of
        Inl err \<Rightarrow> Some (BadRequest err)
      | Inr v \<Rightarrow>
          (case GetPSTAndSelects m rq of
             Inl err \<Rightarrow> Some (if err = GoPanic then Failed else NotFound)
           | Inr (pst, None, err) \<Rightarrow> Some (BadRequest (case err of None \<Rightarrow> GoPanic | Some e \<Rightarrow> e))
           | Inr (pst, Some selects, _) \<Rightarrow>
               if selects = [] then Some (Rollups [])
               else (case alignDate zone m rq v of
                       Inl _ \<Rightarrow> Some Failed
                     | Inr v' \<Rightarrow>
                         (case GetRollup ops ds cache rq v' selects pst of
                            None \<Rightarrow> None
                          | Some (_, Inl _) \<Rightarrow> Some Failed
                          | Some (_, Inr rows) \<Rightarrow> Some (Rollups rows)))))"

subsection \<open>Which queries are answered\<close>

lemma ToInterval_amount: "ToInterval s = Some iv \<Longrightarrow> iv_amount iv \<le> 99 \<and> interval_unit (iv_unit iv)"
proof -
  have d: "digit_val d \<le> 9" if "is_digit d" for d using that by (auto simp: is_digit_def digit_val_def)
  show "ToInterval s = Some iv \<Longrightarrow> iv_amount iv \<le> 99 \<and> interval_unit (iv_unit iv)"
  proof (cases s rule: ToInterval.cases)
    case (1 a u)
    then show "ToInterval s = Some iv \<Longrightarrow> ?thesis" using d [of a] by (auto split: if_splits)
  next
    case (2 a b u)
    then show "ToInterval s = Some iv \<Longrightarrow> ?thesis" using d [of a] d [of b] by (auto split: if_splits)
  qed simp_all
qed

lemma toDuration_exact:
  assumes "iv_amount iv \<le> 99"
  shows "toDuration iv = int (iv_amount iv) * QueryIntervalUnitToDuration (iv_unit iv)" "0 \<le> toDuration iv" "toDuration iv \<le> max_int64"
    "1000000 dvd toDuration iv"
proof -
  have q: "0 \<le> QueryIntervalUnitToDuration u \<and> QueryIntervalUnitToDuration u \<le> 604800000000000 \<and> 1000000 dvd QueryIntervalUnitToDuration u" for u
    by (auto simp: QueryIntervalUnitToDuration_def duration_units)
  let ?q = "QueryIntervalUnitToDuration (iv_unit iv)"
  have b: "0 \<le> int (iv_amount iv) * ?q" "int (iv_amount iv) * ?q \<le> 99 * 604800000000000"
    using q assms mult_mono [of "int (iv_amount iv)" 99 ?q 604800000000000] by simp_all
  then have "in64 (int (iv_amount iv) * ?q)" by (simp add: in64_def min_int64_def max_int64_def)
  then show 1: "toDuration iv = int (iv_amount iv) * ?q" by (simp add: toDuration_def)
  show "0 \<le> toDuration iv" "toDuration iv \<le> max_int64" "1000000 dvd toDuration iv" using b q unfolding 1 by (auto simp: max_int64_def)
qed

lemma GetRollup_returns:
  assumes "iv_amount (rv_interval v) \<noteq> 0" "iv_amount (rv_interval v) \<le> 99"
  shows "GetRollup ops ds cache rq v selects pst \<noteq> None"
proof -
  note d = toDuration_exact [OF assms(2)]
  let ?ms = "trunc_quot (toDuration (rv_interval v)) 1000000"
  have ms: "?ms = toDuration (rv_interval v) div 1000000" using ms_exact [OF d(4)] by (simp add: dur_Milliseconds_def)
  have "?ms \<noteq> 0 \<Longrightarrow> 0 < ?ms \<and> ?ms * 1000000 \<le> max_int64" using d(2,3,4) ms by auto
  from on_the_fly_returns [OF this, of "iv_amount (rv_interval v)"] assms
  have no: "?ms = k \<Longrightarrow> on_the_fly_loop ops date fetch props k (iv_amount (rv_interval v)) s e rs \<noteq> None"
    for k date and fetch :: "time \<Rightarrow> time \<Rightarrow> (string \<times> 'a columns) list" and props s e rs
    by blast
  show ?thesis
    by (auto simp: GetRollup_def GetRollupsOnTheFly_def Let_def no [OF refl] no split: option.splits prod.splits sum.splits)
qed

lemma GetRollup_hangs:
  assumes "iv_amount (rv_interval v) = 0" "rv_start v < rv_end v" "\<And>td tb t ps. ds_list ds td (rq_thingId rq) (rq_propertySetName rq) tb t t ps = None"
  shows "GetRollup ops ds cache rq v selects pst = None"
proof -
  have z: "toDuration (rv_interval v) = 0" using assms(1) by (simp add: toDuration_def wrap64_def)
  have "on_the_fly_loop ops date (\<lambda>s e. GetRollups ds (rq_thingId rq) (rq_propertySetName rq) s e tb ps td) props 0 0 (rv_start v) (rv_end v) [] = None" for date tb ps td props
    by (rule on_the_fly_hangs) (simp_all add: GetRollups_def assms)
  then show ?thesis by (simp add: GetRollup_def z block_unit_def GetRollupsOnTheFly_def Let_def trunc_quot_def assms(1) split: prod.splits)
qed

lemma CheckQueries_interval: "CheckQueries parse rq = Inr v \<Longrightarrow> iv_amount (rv_interval v) \<le> 99"
proof -
  assume "CheckQueries parse rq = Inr v"
  then have "parseDates parse rq = Inr v" by (auto simp: CheckQueries_def split: sum.splits if_splits prod.splits)
  then have "ToInterval (rq_interval rq) = Some (rv_interval v)" by (auto simp: parseDates_def split: option.splits)
  with ToInterval_amount show ?thesis by blast
qed

lemma alignDate_interval: "alignDate zone m rq v = Inr v' \<Longrightarrow> rv_interval v' = rv_interval v"
  by (auto simp: alignDate_def Let_def split: sum.splits option.splits)

lemma GetRollup_done:
  assumes "iv_amount (rv_interval v) = 0" "\<not> rv_start v < rv_end v"
  shows "GetRollup ops ds cache rq v selects pst \<noteq> None"
proof -
  have z: "toDuration (rv_interval v) = 0" using assms(1) by (simp add: toDuration_def wrap64_def)
  then show ?thesis by (simp add: GetRollup_def block_unit_def GetRollupsOnTheFly_def Let_def trunc_quot_def on_the_fly_done [OF assms(2)] split: prod.splits)
qed

text \<open>
  C19: the queries that are never answered. When the storage has no rows in an empty range of time, a query does not return exactly when its interval has the amount
  zero, it passes the checks and selects a property, and its aligned start is before its end: every other query is answered.
\<close>

theorem query_unanswered_iff:
  assumes "\<And>td ti ps tb t props. ds_list ds td ti ps tb t t props = None"
  shows "query_rollups ops parse zone m ds cache rq = None \<longleftrightarrow>
    (\<exists>v pst selects e v'. CheckQueries parse rq = Inr v \<and> iv_amount (rv_interval v) = 0 \<and> GetPSTAndSelects m rq = Inr (pst, Some selects, e) \<and>
       selects \<noteq> [] \<and> alignDate zone m rq v = Inr v' \<and> rv_start v' < rv_end v')"
proof (cases "\<exists>v pst selects e v'. CheckQueries parse rq = Inr v \<and> GetPSTAndSelects m rq = Inr (pst, Some selects, e) \<and> selects \<noteq> [] \<and> alignDate zone m rq v = Inr v'")
  case True
  then obtain v pst selects e v' where q: "CheckQueries parse rq = Inr v" "GetPSTAndSelects m rq = Inr (pst, Some selects, e)" "selects \<noteq> []" "alignDate zone m rq v = Inr v'"
    by blast
  have iv: "rv_interval v' = rv_interval v" "iv_amount (rv_interval v) \<le> 99" using alignDate_interval [OF q(4)] CheckQueries_interval [OF q(1)] by auto
  have "query_rollups ops parse zone m ds cache rq = None \<longleftrightarrow> GetRollup ops ds cache rq v' selects pst = None"
    using q by (auto simp: query_rollups_def split: option.splits prod.splits sum.splits)
  moreover have "GetRollup ops ds cache rq v' selects pst = None \<longleftrightarrow> iv_amount (rv_interval v) = 0 \<and> rv_start v' < rv_end v'"
    using GetRollup_returns [of v'] GetRollup_hangs [of v' ds rq ops cache selects pst] GetRollup_done [of v' ops ds cache rq selects pst] assms iv by metis
  ultimately show ?thesis using q by auto
next
  case False
  then have "query_rollups ops parse zone m ds cache rq \<noteq> None"
    by (auto simp: query_rollups_def split: option.splits prod.splits sum.splits)
  with False show ?thesis by blast
qed

text \<open>A lamp in UTC with the property set of its type.\<close>

definition lamp_manager :: thing_manager where
  "lamp_manager = \<lparr>
     tm_types = [(''main.LampType'', \<lparr>om_Tenant = ''main'', om_Name = ''LampType'', om_ID = ''main.LampType'', om_Version = ''1'', om_ModTime = 1,
       tt_Description = None, tt_ParentTypeId = [], tt_Instantiable = Some True, tt_Characteristics = [],
       tt_PropertySets = [\<lparr>ps_Name = ''light'', ps_PropertySetType = OwnPst lamp_type\<rparr>]\<rparr>)],
     tm_type_files = [],
     tm_things = [(''lamp'', \<lparr>om_Tenant = ''main'', om_Name = ''lamp'', om_ID = ''lamp'', om_Version = ''1'', om_ModTime = 1,
       t_Description = None, t_Type = ''main.LampType'', t_Parent = None, t_TimeZone = Some ''UTC'', t_Characteristics = [], t_CharacteristicByName = [],
       t_PropertySetByName = [(''light'', ''main.LampType'')]\<rparr>)],
     tm_thing_files = [], tm_pstm = \<lparr>pm_cache = [], pm_files = []\<rparr>\<rparr>"

definition lamp_parse :: "string \<Rightarrow> (time \<times> int) option" where
  "lamp_parse s = Some (time_of_Unix (if s = ''a'' then 7200 else 14400), 0)"

definition lamp_request :: "string \<Rightarrow> Request" where
  "lamp_request iv = \<lparr>rq_thingId = ''lamp'', rq_propertySetName = ''light'', rq_start = ''a'', rq_end = ''b'', rq_interval = iv, rq_filter = [],
     rq_weekStartFromSunday = False\<rparr>"

text \<open>For two hours, a query with the interval of zero hours is not answered, and one with the interval of one hour is.\<close>

theorem query_unanswered_iff_witness:
  "query_rollups real_ops lamp_parse (\<lambda>_. fixed_zone 0) lamp_manager \<lparr>ds_raw = (\<lambda>_ _ _ _ _ _. []), ds_list = (\<lambda>_ _ _ _ _ _ _. None)\<rparr> [] (lamp_request ''0h'') = None \<and>
   query_rollups real_ops lamp_parse (\<lambda>_. fixed_zone 0) lamp_manager \<lparr>ds_raw = (\<lambda>_ _ _ _ _ _. []), ds_list = (\<lambda>_ _ _ _ _ _ _. None)\<rparr> [] (lamp_request ''1h'') \<noteq> None"
proof -
  have c: "CheckQueries lamp_parse (lamp_request ''0h'') = Inr \<lparr>rv_start = time_of_Unix 7200, rv_start_loc = fixed_zone 0, rv_end = time_of_Unix 14400,
      rv_end_loc = fixed_zone 0, rv_interval = \<lparr>iv_amount = 0, iv_unit = CHR ''h''\<rparr>\<rparr>"
    "map_sum id (iv_amount \<circ> rv_interval) (CheckQueries lamp_parse (lamp_request ''1h'')) = Inr 1"
    by code_simp+
  have g: "GetPSTAndSelects lamp_manager (lamp_request ''0h'') = Inr (lamp_type, Some [(''on'', [0..<9])], None)" by code_simp
  have a: "alignDate (\<lambda>_. fixed_zone 0) lamp_manager (lamp_request ''0h'') \<lparr>rv_start = time_of_Unix 7200, rv_start_loc = fixed_zone 0, rv_end = time_of_Unix 14400,
      rv_end_loc = fixed_zone 0, rv_interval = \<lparr>iv_amount = 0, iv_unit = CHR ''h''\<rparr>\<rparr> =
      Inr \<lparr>rv_start = time_of_Unix 7200, rv_start_loc = fixed_zone 0, rv_end = time_of_Unix 14400, rv_end_loc = fixed_zone 0,
      rv_interval = \<lparr>iv_amount = 0, iv_unit = CHR ''h''\<rparr>\<rparr>"
    by code_simp
  note iff = query_unanswered_iff [of "\<lparr>ds_raw = (\<lambda>_ _ _ _ _ _. []), ds_list = (\<lambda>_ _ _ _ _ _ _. None)\<rparr>" real_ops lamp_parse "\<lambda>_. fixed_zone 0" lamp_manager "[]"]
  have 1: "time_of_Unix 7200 < time_of_Unix 14400" by (simp add: time_of_Unix_def)
  show ?thesis using c(2) by (auto simp: iff c(1) g a 1)
qed

end
