(* ===== verification/Mappings.thy ===== *)
theory Mappings
  imports Agents Rollup_Query
begin

text \<open>
  Data point mappings (\<open>src/pkg/model/datapointmapping/{manager,rest}.go\<close>) and the agents and mappings together: the agent manager removes the mappings of an agent
  whenever it changes or removes the agent, which is the function it is given when the service starts.

  Shown: over every sequence of requests each mapping leads to a data point of a cached agent, of the type and unit it records, and a property
  is mapped once; every data source of an agent has an identifier; but the mappings to a thing outlive the thing.
\<close>

record v1_DataPointMapping =
  m1_AgentId :: string
  m1_DataSourceId :: string
  m1_DataPointId :: string
  m1_ThingId :: string
  m1_PropertySetName :: string
  m1_PropertyName :: string

text \<open>The loops over the data sources and property sets follow every pointer; a nil pointer panics.\<close>

definition find_data_point :: "agent_manager \<Rightarrow> v1_DataPointMapping \<Rightarrow> go_error + DataPoint" where
  "find_data_point am obj =
     (case GetAgentById am (m1_AgentId obj) of
        Inl _ \<Rightarrow> Inl (ErrAgentNotFound (m1_AgentId obj))
      | Inr a \<Rightarrow>
          if list_ex (\<lambda>ds. ds_Id ds = None) (ag_DataSources a) then Inl GoPanic
          else case by_name (the \<circ> ds_Id) (ag_DataSources a) (m1_DataSourceId obj) of
            None \<Rightarrow> Inl (ErrDataSourceNotFound (m1_DataSourceId obj))
          | Some ds \<Rightarrow>
              (case by_name dp_Id (ds_DataPoints ds) (m1_DataPointId obj) of
                 None \<Rightarrow> Inl (ErrDataPointNotFound (m1_DataPointId obj))
               | Some dp \<Rightarrow> Inr dp))"

definition find_property :: "thing_manager \<Rightarrow> v1_DataPointMapping \<Rightarrow> go_error + Thing \<times> Property" where
  "find_property tm obj =
     (case GetThingById tm (m1_ThingId obj) of
        Inl _ \<Rightarrow> Inl (ErrThingNotFound (m1_ThingId obj))
      | Inr t \<Rightarrow>
          if list_ex (\<lambda>(n, j). type_set tm j n = None) (t_PropertySetByName t) then Inl GoPanic
          else case Option.bind (cache_load (t_PropertySetByName t) (m1_PropertySetName obj)) (\<lambda>j. type_set tm j (m1_PropertySetName obj)) of
            None \<Rightarrow> Inl (ErrPropertySetNotFound (m1_PropertySetName obj))
          | Some ps \<Rightarrow>
              (case set_type tm ps of
                 None \<Rightarrow> Inl GoPanic
               | Some pst \<Rightarrow>
                   (case by_name p_Name (pst_Properties pst) (m1_PropertyName obj) of
                      None \<Rightarrow> Inl (ErrPropertyNotFound (m1_PropertyName obj))
                    | Some p \<Rightarrow> Inr (t, p))))"

definition same_property :: "v1_DataPointMapping \<Rightarrow> DataPointMapping \<Rightarrow> bool" where
  "same_property obj d = (dm_ThingId d = m1_ThingId obj \<and> dm_PropertySetName d = m1_PropertySetName obj \<and> dm_PropertyName d = m1_PropertyName obj)"

definition check_mapping :: "mapping_manager \<Rightarrow> v1_DataPointMapping \<Rightarrow> DataPoint \<Rightarrow> Property \<Rightarrow> go_error option" where
  "check_mapping mm obj dp p =
     (if dp_DataType dp \<noteq> p_DataType p then Some ErrDatatypeMismatch
      else if dp_Unit dp \<noteq> p_Unit p then Some ErrDataUnitMismatch
      else if dp_AccessMode dp < p_AccessMode p then Some ErrAccessModeMismatch
      else if list_ex (same_property obj) (cache_values (mm_mappings mm)) then Some ErrDataPointMappingExists
      else None)"

definition new_mapping :: "time \<Rightarrow> string \<Rightarrow> v1_DataPointMapping \<Rightarrow> DataPoint \<Rightarrow> Thing \<Rightarrow> Property \<Rightarrow> DataPointMapping" where
  "new_mapping now uuid obj dp t p =
     \<lparr>om_Tenant = GetTenant, om_Name = [], om_ID = uuid, om_Version = [], om_ModTime = now, dm_AgentId = m1_AgentId obj, dm_DataSourceId = m1_DataSourceId obj,
      dm_DataPointId = m1_DataPointId obj, dm_DataPointUnit = dp_Unit dp, dm_DataPointType = dp_DataType dp, dm_ThingId = m1_ThingId obj,
      dm_PropertySetName = m1_PropertySetName obj, dm_ThingName = om_Name t, dm_PropertyName = m1_PropertyName obj, dm_PropertyUnit = p_Unit p,
      dm_PropertyType = p_DataType p, dm_PropertyAccessMode = p_AccessMode p\<rparr>"

definition createDataPointMapping ::
  "persist_env \<Rightarrow> time \<Rightarrow> string \<Rightarrow> thing_manager \<Rightarrow> agent_manager \<Rightarrow> mapping_manager \<Rightarrow> v1_DataPointMapping \<Rightarrow> mapping_manager \<times> (go_error + DataPointMapping)" where
  "createDataPointMapping e now uuid tm am mm obj =
     (case find_data_point am obj of
        Inl err \<Rightarrow> (mm, Inl err)
      | Inr dp \<Rightarrow>
          (case find_property tm obj of
             Inl err \<Rightarrow> (mm, Inl err)
           | Inr (t, p) \<Rightarrow>
               (case check_mapping mm obj dp p of
                  Some err \<Rightarrow> (mm, Inl err)
                | None \<Rightarrow>
                    (case Store_persist mappings e (mm_files mm) (new_mapping now uuid obj dp t p) of
                       (fs, Inl err) \<Rightarrow> (mm\<lparr>mm_files := fs\<rparr>, Inl ErrInternal)
                     | (fs, Inr None) \<Rightarrow> (mm\<lparr>mm_files := fs\<rparr>, Inl GoPanic)
                     | (fs, Inr (Some saved)) \<Rightarrow> (\<lparr>mm_mappings = cache_store uuid saved (mm_mappings mm), mm_files = fs\<rparr>, Inr saved)))))"

definition mapping_load :: "DataPointMapping files \<Rightarrow> mapping_manager" where
  "mapping_load fs = \<lparr>mm_mappings = foldl (\<lambda>m d. cache_store (om_ID d) d m) [] (LoadResource mappings fs), mm_files = fs\<rparr>"

datatype mapping_event = MappingRemoved DataPointMapping | MappingCreated DataPointMapping

definition mapping_processEvent :: "mapping_manager \<Rightarrow> DataPointMapping \<Rightarrow> mapping_manager \<times> mapping_event list" where
  "mapping_processEvent mm d =
     (if time_IsZero (om_ModTime d) then
        (case cache_load (mm_mappings mm) (om_ID d) of
           None \<Rightarrow> (mm, [])
         | Some old \<Rightarrow> (mm\<lparr>mm_mappings := cache_delete (om_ID d) (mm_mappings mm)\<rparr>, [MappingRemoved old]))
      else (mm\<lparr>mm_mappings := cache_store (om_ID d) d (mm_mappings mm)\<rparr>, [MappingCreated d]))"

subsection \<open>Agents and mappings together\<close>

type_synonym devices = "agent_manager \<times> mapping_manager"

text \<open>The premises on a creation: the identifiers of things are plain path elements, and the random version is not the one that is stored.\<close>

definition things_plain :: "thing_manager \<Rightarrow> bool" where
  "things_plain tm \<longleftrightarrow> (\<forall>i t. cache_load (tm_things tm) i = Some t \<longrightarrow> plain_elem i)"

definition fresh_version :: "nat \<Rightarrow> agent_manager \<Rightarrow> v1_Agent \<Rightarrow> bool" where
  "fresh_version seed m obj \<longleftrightarrow> (\<forall>a. cache_load (am_agents m) (a1_ThingId obj) = Some a \<longrightarrow> om_Version a \<noteq> FormatInt (int seed))"

inductive device_step :: "devices \<Rightarrow> devices \<Rightarrow> bool" where
  create_type: "agenttype_REST_Create render e now seed am obj = (am', r) \<Longrightarrow> device_step (am, mm) (am', mm)"
| update_type: "agenttype_REST_Update render e now am i obj v = (am', r) \<Longrightarrow> device_step (am, mm) (am', mm)"
| delete_type: "deleteAgentType e am i v = (am', r) \<Longrightarrow> device_step (am, mm) (am', mm)"
| create_agent: "agent_REST_Create render e now seed uuid tm am obj = (am', r) \<Longrightarrow> env_ok e \<Longrightarrow> \<not> time_IsZero now \<Longrightarrow> things_plain tm \<Longrightarrow>
    fresh_version seed am obj \<Longrightarrow> device_step (am, mm) (am', mm)"
| update_agent: "agent_REST_Update render e es now uuid am mm i obj v = (s, r) \<Longrightarrow> env_ok e \<Longrightarrow> \<not> time_IsZero now \<Longrightarrow> device_step (am, mm) s"
| delete_agent: "deleteAgent e es am mm i v = (s, r) \<Longrightarrow> env_ok e \<Longrightarrow> device_step (am, mm) s"
| thing_deleted: "DeleteAgentByThingId e es am mm i = (s, r) \<Longrightarrow> env_ok e \<Longrightarrow> plain_elem i \<Longrightarrow> device_step (am, mm) s"
| create_mapping: "createDataPointMapping e now uuid tm am mm obj = (mm', r) \<Longrightarrow> device_step (am, mm) (am, mm')"
| delete_mapping: "deleteDataPointMappingsById e mm i = (mm', r) \<Longrightarrow> device_step (am, mm) (am, mm')"
| set_removed: "device_step (am, mm) (am, DeleteMappingByThingPSName es mm i psName)"

definition types_wf :: "agent_manager \<Rightarrow> bool" where
  "types_wf m \<longleftrightarrow> (\<forall>k ty. cache_load (am_types m) k = Some ty \<longrightarrow> distinct (map ds_Name (at_DataSources ty)))"

definition agents_ok :: "agent_manager \<Rightarrow> bool" where
  "agents_ok m \<longleftrightarrow> fs_store.coherent agents (am_agents m) (am_agent_files m) \<and>
     (\<forall>k a. cache_load (am_agents m) k = Some a \<longrightarrow> om_ID a = k \<and> plain_elem k \<and> sources_wf (ag_DataSources a))"

definition leads_to :: "agent_manager \<Rightarrow> DataPointMapping \<Rightarrow> DataPoint \<Rightarrow> bool" where
  "leads_to m d dp \<longleftrightarrow> (\<exists>a ds. cache_load (am_agents m) (dm_AgentId d) = Some a \<and> by_name (the \<circ> ds_Id) (ag_DataSources a) (dm_DataSourceId d) = Some ds \<and>
     by_name dp_Id (ds_DataPoints ds) (dm_DataPointId d) = Some dp)"

definition mapping_ok :: "agent_manager \<Rightarrow> DataPointMapping \<Rightarrow> bool" where
  "mapping_ok m d \<longleftrightarrow> (\<exists>dp. leads_to m d dp \<and> dp_DataType dp = dm_DataPointType d \<and> dp_Unit dp = dm_DataPointUnit d \<and>
     dm_PropertyType d = dm_DataPointType d \<and> dm_PropertyUnit d = dm_DataPointUnit d \<and> dm_PropertyAccessMode d \<le> dp_AccessMode dp)"

definition property_of :: "DataPointMapping \<Rightarrow> string \<times> string \<times> string" where
  "property_of d = (dm_ThingId d, dm_PropertySetName d, dm_PropertyName d)"

definition mappings_ok :: "devices \<Rightarrow> bool" where
  "mappings_ok s \<longleftrightarrow> (case s of (am, mm) \<Rightarrow> keyed (mm_mappings mm) \<and> (\<forall>d\<in>set (cache_values (mm_mappings mm)). mapping_ok am d) \<and>
     distinct (map property_of (cache_values (mm_mappings mm))))"

definition devices_ok :: "devices \<Rightarrow> bool" where
  "devices_ok s \<longleftrightarrow> types_wf (fst s) \<and> agents_ok (fst s) \<and> mappings_ok s"

subsection \<open>Steps keep the invariant\<close>

lemma types_step:
  assumes "types_wf am"
  shows "agenttype_REST_Create render e now seed am obj = (am', r) \<Longrightarrow> types_wf am' \<and> am_agents am' = am_agents am \<and> am_agent_files am' = am_agent_files am"
    and "agenttype_REST_Update render e now am i obj v = (am', r) \<Longrightarrow> types_wf am' \<and> am_agents am' = am_agents am \<and> am_agent_files am' = am_agent_files am"
    and "deleteAgentType e am i v = (am', r) \<Longrightarrow> types_wf am' \<and> am_agents am' = am_agents am \<and> am_agent_files am' = am_agent_files am"
proof -
  have st: "types_wf (am\<lparr>am_types := cache_store k ty (am_types am), am_type_files := fs\<rparr>)" if "distinct (map ds_Name (at_DataSources ty))" for k ty fs
    using assms that by (simp add: types_wf_def)
  have cr: "distinct (map ds_Name (at_DataSources (createTypeDataSources dss ty)))" if "at_DataSources ty = []" for dss ty
    using that by (simp add: createTypeDataSources_def add_new_distinct)
  have sv: "distinct (map ds_Name (at_DataSources saved))"
    if "Store_persist agenttypes e fs ty = (fs', Inr (Some saved))" "distinct (map ds_Name (at_DataSources ty))" for fs fs' ty saved
    using Store_persist_saved_fields [OF that(1)] that(2) by auto
  have other: "types_wf (am\<lparr>am_type_files := fs\<rparr>)" "types_wf (am\<lparr>am_types := cache_delete k (am_types am), am_type_files := fs\<rparr>)" for k fs
    using assms by (simp_all add: types_wf_def)
  show "agenttype_REST_Create render e now seed am obj = (am', r) \<Longrightarrow> types_wf am' \<and> am_agents am' = am_agents am \<and> am_agent_files am' = am_agent_files am"
    using assms by (auto simp: agenttype_REST_Create_def CreateAgentType_def Let_def other split: option.splits sum.splits prod.splits intro!: st dest!: sv intro: cr)
  show "agenttype_REST_Update render e now am i obj v = (am', r) \<Longrightarrow> types_wf am' \<and> am_agents am' = am_agents am \<and> am_agent_files am' = am_agent_files am"
    using assms by (auto simp: agenttype_REST_Update_def updateAgentType_def AgentType_DeepCopy_def Let_def other
        split: option.splits sum.splits prod.splits if_splits intro!: st dest!: sv intro: cr)
  show "deleteAgentType e am i v = (am', r) \<Longrightarrow> types_wf am' \<and> am_agents am' = am_agents am \<and> am_agent_files am' = am_agent_files am"
    using assms by (auto simp: deleteAgentType_def other split: option.splits sum.splits prod.splits if_splits)
qed

lemma agents_write:
  assumes ok: "agents_ok am" and e: "env_ok e" and a: "plain_elem (om_ID a)" "sources_wf (ag_DataSources a)" "\<not> time_IsZero (om_ModTime a)"
    and p: "Store_persist agents e (am_agent_files am) a = (fs, res)"
  shows "(\<exists>err. res = Inl err \<and> agents_ok (am\<lparr>am_agent_files := fs\<rparr>)) \<or>
    (\<exists>saved. res = Inr (Some saved) \<and> agents_ok (am\<lparr>am_agents := cache_store (om_ID a) saved (am_agents am), am_agent_files := fs\<rparr>))"
proof -
  have coh: "fs_store.coherent agents (am_agents am) (am_agent_files am)" and "plain_elem agents"
    using ok by (simp_all add: agents_ok_def plain_elem_def)
  from store_write [OF this(1) e this(2) a(1,3) p] consider
      err where "res = Inl err" "fs_store.coherent agents (am_agents am) fs"
    | v where "res = Inr (Some (a\<lparr>om_Version := v\<rparr>))" "fs_store.coherent agents (cache_store (om_ID a) (a\<lparr>om_Version := v\<rparr>) (am_agents am)) fs"
    by blast
  then show ?thesis using ok a by cases (simp_all add: agents_ok_def)
qed

lemma agents_remove:
  assumes ok: "agents_ok am" and e: "env_ok e" and i: "plain_elem i"
    and p: "Store_persist agents e (am_agent_files am) (zero_Agent\<lparr>om_ID := i, om_Version := v\<rparr>) = (fs, res)"
  shows "(\<exists>err. res = Inl err \<and> agents_ok (am\<lparr>am_agent_files := fs\<rparr>)) \<or>
    (res = Inr None \<and> agents_ok (am\<lparr>am_agents := cache_delete i (am_agents am), am_agent_files := fs\<rparr>))"
proof -
  have coh: "fs_store.coherent agents (am_agents am) (am_agent_files am)" and "plain_elem agents"
    using ok by (simp_all add: agents_ok_def plain_elem_def)
  have "plain_elem (om_ID (zero_Agent\<lparr>om_ID := i, om_Version := v\<rparr>))" "time_IsZero (om_ModTime (zero_Agent\<lparr>om_ID := i, om_Version := v\<rparr>))"
    using i by (simp_all add: zero_Agent_def time_IsZero_def)
  from store_remove [OF coh e \<open>plain_elem agents\<close> this p] ok show ?thesis by (auto simp: agents_ok_def)
qed

lemma agent_create_step:
  assumes "types_wf am" "agents_ok am" "env_ok e" "\<not> time_IsZero now" "things_plain tm" "fresh_version seed am obj"
    "agent_REST_Create render e now seed uuid tm am obj = (am', r)"
  shows "am_types am' = am_types am \<and> agents_ok am' \<and>
    (\<forall>k a. cache_load (am_agents am) k = Some a \<longrightarrow> cache_load (am_agents am') k = Some a)"
proof (cases "am' = am")
  case False
  let ?i = "a1_ThingId obj" and ?a = "new_agent now seed uuid (requested_type am obj) obj"
  from assms(7) False obtain t where t: "GetThingById tm ?i = Inr t"
    by (auto simp: agent_REST_Create_def CreateAgent_def Let_def split: option.splits if_splits sum.splits)
  obtain fs res where p: "Store_persist agents e (am_agent_files am) ?a = (fs, res)" by fastforce
  have res: "am' = (case res of Inr (Some saved) \<Rightarrow> am\<lparr>am_agents := cache_store ?i saved (am_agents am), am_agent_files := fs\<rparr>
      | _ \<Rightarrow> am\<lparr>am_agent_files := fs\<rparr>)"
    using assms(7) False t p by (auto simp: agent_REST_Create_def CreateAgent_def Let_def split: option.splits if_splits sum.splits)
  have id: "om_ID ?a = ?i" "om_Version ?a = FormatInt (int seed)" by (simp_all add: new_agent_def)
  have pl: "plain_elem (om_ID ?a)" using t assms(5) by (auto simp: id things_plain_def GetThingById_def split: option.splits)
  have "sources_wf []" by (simp add: sources_wf_def)
  then have wf: "sources_wf (ag_DataSources ?a)" using assms(1)
    by (auto simp: new_agent_def requested_type_def types_wf_def inherit_wf create_data_sources_wf split: option.splits if_splits)
  have nz: "\<not> time_IsZero (om_ModTime ?a)" using assms(4) by (simp add: new_agent_def)
  note wr = agents_write [OF assms(2,3) pl wf nz p]
  show ?thesis
  proof (cases "cache_load (am_agents am) ?i")
    case None
    with wr res show ?thesis by (auto simp: id)
  next
    case (Some old)
    have "plain_elem agents" "fs_store.coherent agents (am_agents am) (am_agent_files am)" using assms(2) by (simp_all add: agents_ok_def plain_elem_def)
    from store_other_version [OF this(2) assms(3) this(1) nz, of old] Some assms(6) obtain err where "res = Inl err"
      using p by (auto simp: id fresh_version_def)
    with wr res show ?thesis by auto
  qed
qed (use assms(2) in simp)

lemma mappings_filter: "mappings_ok (am, mm) \<Longrightarrow> mm_mappings mm' = filter P (mm_mappings mm) \<Longrightarrow> mappings_ok (am, mm')"
proof -
  have "distinct (map property_of (map snd (filter P m)))" if "distinct (map property_of (map snd m))" for m :: "DataPointMapping cache"
    using that by (induction m) (auto simp: image_iff)
  then show "mappings_ok (am, mm) \<Longrightarrow> mm_mappings mm' = filter P (mm_mappings mm) \<Longrightarrow> mappings_ok (am, mm')"
    by (auto simp: mappings_ok_def keyed_filter cache_values_def simp del: map_map)
qed

lemma mappings_agents:
  assumes "mappings_ok (am, mm)"
    and "\<And>d. d \<in> set (cache_values (mm_mappings mm)) \<Longrightarrow> cache_load (am_agents am') (dm_AgentId d) = cache_load (am_agents am) (dm_AgentId d)"
  shows "mappings_ok (am', mm)"
proof -
  have "mapping_ok am' d" if "d \<in> set (cache_values (mm_mappings mm))" for d
    using assms that by (auto simp: mappings_ok_def mapping_ok_def leads_to_def)
  then show ?thesis using assms(1) by (simp add: mappings_ok_def)
qed

lemma mappings_kept:
  assumes "mappings_ok (am, mm)" "\<And>k a. cache_load (am_agents am) k = Some a \<Longrightarrow> cache_load (am_agents am') k = Some a"
  shows "mappings_ok (am', mm)"
proof (rule mappings_agents [OF assms(1)])
  fix d
  assume "d \<in> set (cache_values (mm_mappings mm))"
  then obtain a where "cache_load (am_agents am) (dm_AgentId d) = Some a" using assms(1) by (auto simp: mappings_ok_def mapping_ok_def leads_to_def)
  with assms(2) show "cache_load (am_agents am') (dm_AgentId d) = cache_load (am_agents am) (dm_AgentId d)" by simp
qed

lemma mappings_removed:
  assumes "mappings_ok (am, mm)" "plain_elem i" "\<And>k. k \<noteq> i \<Longrightarrow> cache_load (am_agents am') k = cache_load (am_agents am) k"
  shows "mappings_ok (am', fst (DeleteMappingByAgentId es mm i))"
proof -
  have "keyed (mm_mappings mm)" "i \<noteq> []" using assms(1,2) by (auto simp: mappings_ok_def plain_elem_def)
  note f = DeleteMappingByAgentId_filter [OF this, of es]
  show ?thesis by (rule mappings_agents [OF mappings_filter [OF assms(1) f]]) (use assms(3) in \<open>auto simp: f cache_values_set\<close>)
qed

lemma agent_update_step:
  assumes ok: "agents_ok am" "mappings_ok (am, mm)" and e: "env_ok e" "\<not> time_IsZero now"
    and u: "agent_REST_Update render e es now uuid am mm i obj v = ((am', mm'), r)"
  shows "am_types am' = am_types am \<and> agents_ok am' \<and> mappings_ok (am', mm')"
proof (cases "am' = am \<and> mm' = mm")
  case False
  from u False obtain a where a: "cache_load (am_agents am) i = Some a" "v = om_Version a"
    by (auto simp: agent_REST_Update_def GetAgentById_def updateAgent_def Agent_DeepCopy_def split: option.splits if_splits sum.splits)
  let ?a = "(Agent_DeepCopy a)\<lparr>om_ModTime := now, ag_Description := a1_Description obj,
    ag_DataSources := update_data_sources uuid (ag_DataSources (Agent_DeepCopy a)) (a1_DataSources obj)\<rparr>"
  have id: "om_ID ?a = i" "plain_elem (om_ID ?a)" using ok(1) a(1) by (auto simp: agents_ok_def Agent_DeepCopy_def)
  have "sources_wf (ag_DataSources a)" using ok(1) a(1) by (simp add: agents_ok_def)
  then have wf: "sources_wf (ag_DataSources ?a)" using update_data_sources_wf [OF copy_wf] by simp
  obtain fs res where p: "Store_persist agents e (am_agent_files am) ?a = (fs, res)" by fastforce
  have res: "(am', mm') = (case res of
        Inr (Some saved) \<Rightarrow> (am\<lparr>am_agents := cache_store i saved (am_agents am), am_agent_files := fs\<rparr>, fst (DeleteMappingByAgentId es mm i))
      | _ \<Rightarrow> (am\<lparr>am_agent_files := fs\<rparr>, mm))"
    using u False a p by (auto simp: agent_REST_Update_def GetAgentById_def updateAgent_def Let_def split: option.splits if_splits sum.splits)
  have m: "mappings_ok (am\<lparr>am_agents := cache_store i saved (am_agents am), am_agent_files := fs\<rparr>, fst (DeleteMappingByAgentId es mm i))"
    "mappings_ok (am\<lparr>am_agent_files := fs\<rparr>, mm)" for saved
    by (rule mappings_removed [OF ok(2)]; use id in simp) (rule mappings_kept [OF ok(2)], simp)
  from agents_write [OF ok(1) e(1) id(2) wf _ p] e(2) res m show ?thesis unfolding id(1) by auto
qed (use ok in simp)

lemma agent_remove_step:
  assumes ok: "agents_ok am" "mappings_ok (am, mm)" and e: "env_ok e"
  shows "deleteAgent e es am mm i v = ((am', mm'), r) \<Longrightarrow> am_types am' = am_types am \<and> agents_ok am' \<and> mappings_ok (am', mm')"
    and "plain_elem i \<Longrightarrow> DeleteAgentByThingId e es am mm i = ((am', mm'), rt) \<Longrightarrow> am_types am' = am_types am \<and> agents_ok am' \<and> mappings_ok (am', mm')"
proof -
  have m: "mappings_ok (am\<lparr>am_agents := cache_delete i (am_agents am), am_agent_files := fs\<rparr>, fst (DeleteMappingByAgentId es mm i))" if "plain_elem i" for fs
    by (rule mappings_removed [OF ok(2) that]) simp
  have k: "mappings_ok (am\<lparr>am_agent_files := fs\<rparr>, mm)" for fs by (rule mappings_kept [OF ok(2)]) simp
  show "deleteAgent e es am mm i v = ((am', mm'), r) \<Longrightarrow> am_types am' = am_types am \<and> agents_ok am' \<and> mappings_ok (am', mm')"
  proof (cases "\<exists>a. cache_load (am_agents am) i = Some a \<and> om_Version a = v")
    case True
    obtain fs res where p: "Store_persist agents e (am_agent_files am) (zero_Agent\<lparr>om_ID := i, om_Version := v\<rparr>) = (fs, res)" by fastforce
    have pl: "plain_elem i" using ok(1) True by (auto simp: agents_ok_def)
    from agents_remove [OF ok(1) e pl p] True p m [OF pl] k
    show "deleteAgent e es am mm i v = ((am', mm'), r) \<Longrightarrow> ?thesis" by (auto simp: deleteAgent_def)
  qed (use ok in \<open>auto simp: deleteAgent_def split: option.splits if_splits\<close>)
  assume pl: "plain_elem i"
  obtain fs res where "Store_persist agents e (am_agent_files am) (zero_Agent\<lparr>om_ID := i, om_Version := []\<rparr>) = (fs, res)" by fastforce
  moreover have "zero_Agent\<lparr>om_ID := i, om_Version := []\<rparr> = zero_Agent\<lparr>om_ID := i\<rparr>" by (simp add: zero_Agent_def)
  ultimately show "DeleteAgentByThingId e es am mm i = ((am', mm'), rt) \<Longrightarrow> am_types am' = am_types am \<and> agents_ok am' \<and> mappings_ok (am', mm')"
    using agents_remove [OF ok(1) e pl, of "[]" fs res] m [OF pl] k by (auto simp: DeleteAgentByThingId_def)
qed

lemma find_data_point_leads:
  "find_data_point am obj = Inr dp \<Longrightarrow> dm_AgentId d = m1_AgentId obj \<Longrightarrow> dm_DataSourceId d = m1_DataSourceId obj \<Longrightarrow>
    dm_DataPointId d = m1_DataPointId obj \<Longrightarrow> leads_to am d dp"
  by (auto simp: find_data_point_def leads_to_def GetAgentById_def split: option.splits if_splits sum.splits)

lemma distinct_store:
  "distinct (map f (cache_values m)) \<Longrightarrow> f d \<notin> f ` set (cache_values m) \<Longrightarrow> distinct (map f (cache_values (cache_store k d m)))"
proof (induction k d m rule: cache_store.induct)
  case (2 k v k' v' m)
  have sub: "f ` snd ` set (cache_store k v m) \<subseteq> insert (f v) (f ` snd ` set m)" using set_cache_store [of k v m] by force
  show ?case
  proof (cases "k' = k")
    case False
    moreover have "f v' \<notin> f ` snd ` set (cache_store k v m)" using 2(2,3) sub by (auto simp: cache_values_def image_image)
    ultimately show ?thesis using 2 by (auto simp: cache_values_def image_image)
  qed (use 2(2,3) in \<open>auto simp: cache_values_def\<close>)
qed (simp add: cache_values_def)

lemma mapping_create_step:
  assumes ok: "mappings_ok (am, mm)" and c: "createDataPointMapping e now uuid tm am mm obj = (mm', r)"
  shows "mappings_ok (am, mm')"
proof (cases r)
  case (Inr saved)
  from c Inr obtain dp t p fs where dp: "find_data_point am obj = Inr dp" and chk: "check_mapping mm obj dp p = None"
    and p: "Store_persist mappings e (mm_files mm) (new_mapping now uuid obj dp t p) = (fs, Inr (Some saved))"
    and mm': "mm' = \<lparr>mm_mappings = cache_store uuid saved (mm_mappings mm), mm_files = fs\<rparr>"
    by (auto simp: createDataPointMapping_def split: sum.splits option.splits prod.splits)
  from Store_persist_saved_fields [OF p] obtain v where s: "saved = (new_mapping now uuid obj dp t p)\<lparr>om_Version := v\<rparr>" by blast
  have "mapping_ok am saved" unfolding mapping_ok_def
    using find_data_point_leads [OF dp, of saved] chk by (intro exI [of _ dp]) (auto simp: s new_mapping_def check_mapping_def split: if_splits)
  moreover have "property_of saved \<notin> property_of ` set (cache_values (mm_mappings mm))"
    using chk by (auto simp: s new_mapping_def check_mapping_def property_of_def same_property_def list_ex_iff split: if_splits)
  moreover have "set (cache_values (cache_store uuid saved (mm_mappings mm))) \<subseteq> insert saved (set (cache_values (mm_mappings mm)))"
    using set_cache_store [of uuid saved "mm_mappings mm"] by (force simp: cache_values_set)
  moreover have "om_ID saved = uuid" by (simp add: s new_mapping_def)
  ultimately show ?thesis using ok by (auto simp: mm' mappings_ok_def keyed_store distinct_store)
next
  case (Inl err)
  with c have "mm_mappings mm' = mm_mappings mm" by (auto simp: createDataPointMapping_def split: sum.splits option.splits prod.splits)
  then show ?thesis using mappings_filter [OF ok, of mm' "\<lambda>_. True"] by simp
qed

lemma devices_ok_step: "device_step s s' \<Longrightarrow> devices_ok s \<Longrightarrow> devices_ok s'"
proof (induction rule: device_step.induct)
  case (create_type render e now seed am obj am' r mm)
  then show ?case using types_step(1) [OF _ create_type(1)] mappings_kept [of am mm am'] by (auto simp: devices_ok_def agents_ok_def)
next
  case (update_type render e now am i obj v am' r mm)
  then show ?case using types_step(2) [OF _ update_type(1)] mappings_kept [of am mm am'] by (auto simp: devices_ok_def agents_ok_def)
next
  case (delete_type e am i v am' r mm)
  then show ?case using types_step(3) [OF _ delete_type(1)] mappings_kept [of am mm am'] by (auto simp: devices_ok_def agents_ok_def)
next
  case (create_agent render e now seed uuid tm am obj am' r mm)
  then show ?case using agent_create_step [of am e now tm seed obj render uuid am' r] mappings_kept [of am mm am'] by (auto simp: devices_ok_def types_wf_def)
next
  case (update_agent render e es now uuid am mm i obj v s r)
  then show ?case using agent_update_step [of am mm e now render es uuid i obj v "fst s" "snd s" r] by (auto simp: devices_ok_def types_wf_def)
next
  case (delete_agent e es am mm i v s r)
  then show ?case using agent_remove_step(1) [of am mm e es i v "fst s" "snd s" r] by (auto simp: devices_ok_def types_wf_def)
next
  case (thing_deleted e es am mm i s r)
  then show ?case using agent_remove_step(2) [of am mm e i es "fst s" "snd s" r] by (auto simp: devices_ok_def types_wf_def)
next
  case (create_mapping e now uuid tm am mm obj mm' r)
  then show ?case using mapping_create_step by (auto simp: devices_ok_def)
next
  case (delete_mapping e mm i mm' r am)
  then show ?case using mappings_filter [of am mm mm'] Agents.delete_mapping [OF delete_mapping(1)] by (auto simp: devices_ok_def cache_delete_def)
next
  case (set_removed am mm es i psName)
  then show ?case using mappings_filter [of am mm "DeleteMappingByThingPSName es mm i psName"] DeleteMappingByThingPSName_filter [of es mm i psName]
    by (auto simp: devices_ok_def)
qed

lemma devices_ok_steps: "device_step\<^sup>*\<^sup>* s s' \<Longrightarrow> devices_ok s \<Longrightarrow> devices_ok s'"
  by (induction rule: rtranclp_induct) (auto intro: devices_ok_step)

lemma devices_ok_empty: "devices_ok (\<lparr>am_types = [], am_type_files = [], am_agents = [], am_agent_files = []\<rparr>, \<lparr>mm_mappings = [], mm_files = []\<rparr>)"
  by (auto simp: devices_ok_def types_wf_def agents_ok_def mappings_ok_def keyed_def cache_values_def fs_store.coherent_def stored_obj_def fun_eq_iff)

text \<open>
  C7: mappings never dangle. Over every sequence of requests to the managers of agents and mappings, whatever happens to the things, every cached mapping leads to a
  data point of a data source of a cached agent, which has the type and unit that the mapping records for data point and property, and at least the access
  of the property; and no property of a thing is mapped twice.
\<close>

theorem mappings_never_dangle:
  assumes "device_step\<^sup>*\<^sup>* s (am, mm)" "devices_ok s"
  shows "(\<forall>d\<in>set (cache_values (mm_mappings mm)). \<exists>dp. leads_to am d dp \<and> dp_DataType dp = dm_DataPointType d \<and> dp_Unit dp = dm_DataPointUnit d \<and>
      dm_PropertyType d = dm_DataPointType d \<and> dm_PropertyUnit d = dm_DataPointUnit d \<and> dm_PropertyAccessMode d \<le> dp_AccessMode dp) \<and>
    distinct (map property_of (cache_values (mm_mappings mm)))"
  using devices_ok_steps [OF assms] by (simp add: devices_ok_def mappings_ok_def mapping_ok_def)


text \<open>The agent of the lamp, with the point that says whether it is on, and its mapping.\<close>

definition gateway :: v1_Agent where
  "gateway = \<lparr>a1_ThingId = ''lamp'', a1_Name = ''gateway'', a1_Description = None, a1_TypeId = None,
     a1_DataSources = [\<lparr>ds1_Name = ''plc'', ds1_Description = None,
       ds1_DataPoints = [\<lparr>dp1_Id = ''m1'', dp1_Name = ''on'', dp1_Description = None, dp1_Datatype = DataTypeBoolean, dp1_Unit = [], dp1_AccessMode = AccessModeReadOnly,
         dp1_CustomData = None\<rparr>], ds1_CustomData = None\<rparr>]\<rparr>"

definition gateway_mapping :: v1_DataPointMapping where
  "gateway_mapping = \<lparr>m1_AgentId = ''lamp'', m1_DataSourceId = ''u'', m1_DataPointId = ''m1'', m1_ThingId = ''lamp'', m1_PropertySetName = ''light'', m1_PropertyName = ''on''\<rparr>"

definition gateway_agent :: Agent where
  "gateway_agent = \<lparr>om_Tenant = ''main'', om_Name = ''gateway'', om_ID = ''lamp'', om_Version = ''7'', om_ModTime = 5, ag_ThingId = ''lamp'', ag_Description = None,
     ag_TypeId = None, ag_DataSources = [\<lparr>ds_Id = Some ''u'', ds_Name = ''plc'', ds_Description = None,
       ds_DataPoints = [\<lparr>dp_Id = ''m1'', dp_Name = ''on'', dp_Description = None, dp_DataType = DataTypeBoolean, dp_Unit = [], dp_AccessMode = AccessModeReadOnly,
         dp_CustomData = None\<rparr>], ds_CustomData = None\<rparr>], ag_Onboard = [], ag_Online = False\<rparr>"

definition gateway_agents :: agent_manager where
  "gateway_agents = \<lparr>am_types = [], am_type_files = [], am_agents = [(''lamp'', gateway_agent)],
     am_agent_files = [(''agents/lamp'', \<lparr>f_obj = Some gateway_agent, f_mtime = pe_now (env_at 1)\<rparr>)]\<rparr>"

definition gateway_mappings :: mapping_manager where
  "gateway_mappings = fst (createDataPointMapping (env_at 1) 6 ''x'' lamp_manager gateway_agents \<lparr>mm_mappings = [], mm_files = []\<rparr> gateway_mapping)"

lemma gateway_created:
  "agent_REST_Create (\<lambda>_. []) (env_at 1) 5 7 (\<lambda>_. ''u'') lamp_manager \<lparr>am_types = [], am_type_files = [], am_agents = [], am_agent_files = []\<rparr> gateway =
    (gateway_agents, Inr gateway_agent)"
proof -
  have t: "TrimSpace ''gateway'' = ''gateway''" "TrimSpace ''plc'' = ''plc''" "TrimSpace ''m1'' = ''m1''"
    by (simp_all add: TrimSpace_visible visible_def)
  have f: "FormatInt 7 = ''7''" by code_simp
  have "new_agent 5 7 (\<lambda>_. ''u'') None gateway = gateway_agent"
    by (simp add: new_agent_def gateway_def gateway_agent_def t f by_name_def agent_data_point_def GetTenant_def)
  moreover have "requested_type m gateway = None" "\<not> has_type gateway" for m by (simp_all add: requested_type_def has_type_def gateway_def)
  moreover have "ValidateAgent gateway = []" by code_simp
  then have "ValidateFunc (\<lambda>_. []) ValidateAgent gateway = None" by (simp add: ValidateFunc_def)
  moreover have "GetThingById lamp_manager ''lamp'' \<noteq> Inl x" for x by (simp add: GetThingById_def lamp_manager_def cache_load_def)
  moreover have "Store_persist agents (env_at 1) [] gateway_agent = (am_agent_files gateway_agents, Inr (Some gateway_agent))" by code_simp
  ultimately show ?thesis
    by (auto simp: agent_REST_Create_def CreateAgent_def Let_def gateway_agents_def gateway_def split: sum.splits)
qed

lemma gateway_run:
  "device_step\<^sup>*\<^sup>* (\<lparr>am_types = [], am_type_files = [], am_agents = [], am_agent_files = []\<rparr>, \<lparr>mm_mappings = [], mm_files = []\<rparr>) (gateway_agents, gateway_mappings)"
proof -
  let ?am = "\<lparr>am_types = [], am_type_files = [], am_agents = [], am_agent_files = []\<rparr>" and ?mm = "\<lparr>mm_mappings = [], mm_files = []\<rparr>"
  have "things_plain lamp_manager" by (simp add: things_plain_def lamp_manager_def cache_load_def plain_elem_def)
  with create_agent [OF gateway_created] have "device_step (?am, ?mm) (gateway_agents, ?mm)"
    by (simp add: env_ok_def env_at_def no_fault_def time_IsZero_def fresh_version_def)
  moreover have "device_step (gateway_agents, ?mm) (gateway_agents, gateway_mappings)"
    by (rule create_mapping [of "env_at 1" 6 "''x''" lamp_manager _ _ gateway_mapping _ "snd (createDataPointMapping (env_at 1) 6 ''x'' lamp_manager gateway_agents ?mm gateway_mapping)"])
      (simp add: gateway_mappings_def)
  ultimately show ?thesis by (meson converse_rtranclp_into_rtranclp r_into_rtranclp)
qed

lemma gateway_mapped: "map om_ID (cache_values (mm_mappings gateway_mappings)) = [''x'']"
  by code_simp

theorem mappings_never_dangle_witness:
  "\<exists>d dp. d \<in> set (cache_values (mm_mappings gateway_mappings)) \<and> leads_to gateway_agents d dp \<and> dp_DataType dp = dm_DataPointType d"
proof -
  obtain d where "d \<in> set (cache_values (mm_mappings gateway_mappings))" using gateway_mapped by (cases "cache_values (mm_mappings gateway_mappings)") auto
  with mappings_never_dangle [OF gateway_run devices_ok_empty] show ?thesis by blast
qed


text \<open>Deleting a thing removes the mappings of its own agent; those of other agents to the thing stay.\<close>

lemma mapping_outlives_thing:
  assumes "devices_ok (am, mm)" "cache_load (mm_mappings mm) k = Some d" "dm_ThingId d = i" "dm_AgentId d \<noteq> i" "i \<noteq> []"
    and "DeleteAgentByThingId e es am mm i = ((am', mm'), r)"
  shows "cache_load (mm_mappings mm') k = Some d"
proof -
  have k: "keyed (mm_mappings mm)" using assms(1) by (simp add: devices_ok_def mappings_ok_def)
  from assms(6) consider "mm' = mm" | "mm' = fst (DeleteMappingByAgentId es mm i)" by (auto simp: DeleteAgentByThingId_def split: prod.splits sum.splits)
  then show ?thesis
  proof cases
    case 2
    have "(k, d) \<in> set (mm_mappings mm')" using cache_load_in_set [OF assms(2)] assms(4) by (simp add: 2 DeleteMappingByAgentId_filter [OF k assms(5)])
    moreover have "cache_ok (mm_mappings mm')" using keyed_filter [OF k] by (simp add: 2 DeleteMappingByAgentId_filter [OF k assms(5)] keyed_def)
    ultimately show ?thesis by (rule cache_load_of_set [rotated])
  qed (use assms(2) in simp)
qed

end
