(* ===== verification/Event_Types.thy ===== *)
theory Event_Types
  imports Rollup_Worker
begin

text \<open>
  Event types (\<open>src/pkg/event/{v1,runtime}/types.go\<close>, \<open>event/validation/validation.go\<close>, \<open>event/event/{manager,rest,filter,defaults}.go\<close>, the table definitions of \<open>event/storage/store.go\<close>).

  The index \<open>FieldByName\<close> of a type holds pointers to its own fields and to those of the types above it, which are changed through these pointers; here it holds, for a
  name, the identifier of the type that owns the field. \<open>Parents\<close> are the identifiers of the chain from the fundamental type down. The decoding of the values of a field
  (mapstructure) is an argument.
\<close>

subsection \<open>Data\<close>

datatype ev_Datatype = DatatypeString | DatatypeInt | DatatypeDouble | DatatypeBool | DatatypeLink | DatatypeTimestamp | DatatypeUuid | DatatypeEnum | DatatypeMap

fun DatatypeToString :: "ev_Datatype \<Rightarrow> string" where
  "DatatypeToString DatatypeString = ''string''"
| "DatatypeToString DatatypeInt = ''int''"
| "DatatypeToString DatatypeDouble = ''double''"
| "DatatypeToString DatatypeBool = ''bool''"
| "DatatypeToString DatatypeLink = ''link''"
| "DatatypeToString DatatypeTimestamp = ''timestamp''"
| "DatatypeToString DatatypeUuid = ''uuid''"
| "DatatypeToString DatatypeEnum = ''enum''"
| "DatatypeToString DatatypeMap = ''map''"

definition DatatypeFromString :: "(string \<times> ev_Datatype) list" where
  "DatatypeFromString = [(''string'', DatatypeString), (''int'', DatatypeInt), (''double'', DatatypeDouble), (''bool'', DatatypeBool), (''link'', DatatypeLink),
     (''timestamp'', DatatypeTimestamp), (''uuid'', DatatypeUuid), (''enum'', DatatypeEnum), (''map'', DatatypeMap)]"

interpretation ev_dtypes: codec DatatypeToString "map_of DatatypeFromString"
proof unfold_locales
  show "map_of DatatypeFromString (DatatypeToString x) = Some x" for x
    by (cases x) (simp_all add: DatatypeFromString_def)
  show "DatatypeToString x = s" if "map_of DatatypeFromString s = Some x" for s x
    using that by (auto simp: DatatypeFromString_def split: if_splits)
qed

record 'j v1_Field =
  f1_Name :: string
  f1_Filterable :: bool
  f1_Required :: bool
  f1_Updatable :: bool
  f1_DataType :: ev_Datatype
  f1_Values :: "'j option"

record 'j v1_EventType =
  et1_Id :: string
  et1_Name :: string
  et1_ParentId :: "string option"
  et1_TTL :: "int option"
  et1_Fields :: "'j v1_Field list"

datatype field_values = NoValues | EnumValues "string list" | MapValues "(string, string) smap"

record Field =
  fd_Name :: string
  fd_Filterable :: bool
  fd_Required :: bool
  fd_Updatable :: bool
  fd_DataType :: ev_Datatype
  fd_Values :: field_values

record EventType = ObjectMeta +
  et_ParentId :: "string option"
  et_TTL :: int
  et_Fields :: "Field list"
  et_FieldByName :: "(string, string) smap"
  et_Parents :: "string list"
  et_RequiredCnt :: int

definition BaseEventTypeId :: string where "BaseEventTypeId = ''main.BaseEvent''"
definition StandardEventTypeId :: string where "StandardEventTypeId = ''main.StandardEvent''"

definition fundamental :: "string \<Rightarrow> bool" where
  "fundamental i = (i = BaseEventTypeId \<or> i = StandardEventTypeId)"

text \<open>The manager: the types, the files of their store and the table definitions of the event store.\<close>

record event_types =
  em_types :: "EventType cache"
  em_files :: "EventType files"
  em_tables :: "(string, TableDefinition) smap"

abbreviation eventtypes :: string where "eventtypes \<equiv> ''eventtypes''"

subsection \<open>Validation\<close>

definition ev_preservedColumns :: "string list" where
  "ev_preservedColumns = [''and'', ''import'', ''not'', ''return'', ''option'', ''test'', ''empty'', ''in'', ''or'', ''package'', ''builtin'', ''ttl'',
     ''id'', ''typeid'', ''correlationid'', ''_time'', ''thingid'', ''etag'']"

definition validateFieldName :: "string \<Rightarrow> string \<Rightarrow> field_error list" where
  "validateFieldName name path =
     (if name = [] then [Required path]
      else if \<not> ExcludesAll name illegalPropertyChars then [Invalid path]
      else if ToLower name \<in> set ev_preservedColumns then [Invalid path]
      else if \<not> IsColumnNameLengthInRange name 1 (255 - 4) then [TooLong path]
      else [])"

definition MaxTTLDay :: int where "MaxTTLDay = 106751"

definition ValidateTTL :: "int option \<Rightarrow> string \<Rightarrow> field_error list" where
  "ValidateTTL ttl path = (case ttl of None \<Rightarrow> [] | Some d \<Rightarrow> if d < 0 \<or> d > MaxTTLDay then [Invalid path] else [])"

definition ValidateFields :: "'j v1_Field list \<Rightarrow> string \<Rightarrow> field_error list" where
  "ValidateFields fds path =
     distinct_loop f1_Name (\<lambda>i. child (idx path i) ''name'')
       (\<lambda>i f. validateFieldName (f1_Name f) (child (idx path i) ''name'') @
              (if (f1_DataType f = DatatypeMap \<or> f1_DataType f = DatatypeEnum) \<and> f1_Values f = None then [Required (child (idx path i) ''values'')] else [])) [] 0 fds"

definition ValidateEventType :: "'j v1_EventType \<Rightarrow> field_error list" where
  "ValidateEventType et =
     ValidateObjectMeta (et1_Name et) ValidateTypeName @ ValidateTTL (et1_TTL et) ''ttl'' @ ValidateFields (et1_Fields et) ''fields''"

definition fieldUpdate_at :: "'j v1_Field list \<Rightarrow> string \<Rightarrow> Field \<Rightarrow> field_error list option" where
  "fieldUpdate_at newFields path old =
     (case find (\<lambda>(j, nf). f1_Name nf = fd_Name old) (enumerate 0 newFields) of
        None \<Rightarrow> None
      | Some (j, nf) \<Rightarrow> Some
          (ValidateImmutableField (f1_Filterable nf) (fd_Filterable old) (child (idx path j) ''filterable'') @
           ValidateImmutableField (f1_DataType nf) (fd_DataType old) (child (idx path j) ''datatype'')))"

definition ValidateFieldsUpdate :: "'j v1_Field list \<Rightarrow> Field list \<Rightarrow> string \<Rightarrow> field_error list" where
  "ValidateFieldsUpdate newFields oldFields path =
     (if length newFields < length oldFields then [Invalid path]
      else
        let rs = map (fieldUpdate_at newFields path) oldFields in
        concat (map (\<lambda>r. case r of None \<Rightarrow> [] | Some es \<Rightarrow> es) rs) @
        (if list_ex (\<lambda>r. r = None) rs then [Invalid path] else []))"

definition ValidateEventTypeUpdate :: "'j v1_EventType \<Rightarrow> EventType \<Rightarrow> field_error list" where
  "ValidateEventTypeUpdate new old =
     (if fundamental (om_ID old) then [Invalid ''id'']
      else ValidateImmutableField (et1_Id new) (om_ID old) ''id'' @
           ValidateImmutableField (et1_Name new) (om_Name old) ''name'' @
           ValidateImmutableField (et1_ParentId new) (et_ParentId old) ''parentId'' @
           ValidateFieldsUpdate (et1_Fields new) (et_Fields old) ''fields'')"

subsection \<open>Queries\<close>

definition getEventTypeById :: "event_types \<Rightarrow> string \<Rightarrow> go_error + EventType" where
  "getEventTypeById m i = (case cache_load (em_types m) i of None \<Rightarrow> Inl ErrNotExist | Some et \<Rightarrow> Inr et)"

text \<open>A type as it is shown: without its parents.\<close>

definition foldEventType :: "EventType \<Rightarrow> EventType" where
  "foldEventType et = et\<lparr>et_Parents := [], et_RequiredCnt := 0\<rparr>"

record 'v ev_TypeFilter =
  evf_Id :: string
  evf_Name :: "'v name_filter"
  evf_parentId :: string

definition event_parseTypeFilter :: "('v \<Rightarrow> NameFilterFunc) \<Rightarrow> 'v ev_TypeFilter \<Rightarrow> (EventType \<Rightarrow> bool) list" where
  "event_parseTypeFilter dec f =
     (if evf_Id f \<noteq> [] then [\<lambda>et. evf_Id f = om_ID et] else []) @
     type_name_predicates dec (evf_Name f) om_Name @
     (if evf_parentId f \<noteq> [] then [\<lambda>et. et_ParentId et = Some (evf_parentId f)] else [])"

definition listEventTypes :: "('v \<Rightarrow> NameFilterFunc) \<Rightarrow> event_types \<Rightarrow> 'v ev_TypeFilter \<Rightarrow> EventType list" where
  "listEventTypes dec m f = list_matching (event_parseTypeFilter dec f) (em_types m)"

text \<open>An exploded type is shown with its parents.\<close>

definition foldEventTypeParents :: "event_types \<Rightarrow> EventType list \<Rightarrow> (EventType \<times> EventType list) list" where
  "foldEventTypeParents m ets =
     map (\<lambda>et. (foldEventType et, map foldEventType (List.map_filter (cache_load (em_types m)) (et_Parents et)))) ets"

definition hasChildEventType :: "event_types \<Rightarrow> string \<Rightarrow> bool" where
  "hasChildEventType m i = list_ex (\<lambda>et. et_ParentId et = Some i) (cache_values (em_types m))"

definition child_types :: "event_types \<Rightarrow> string \<Rightarrow> string list" where
  "child_types m i = map om_ID (listEventTypes (\<lambda>_ :: unit. \<lparr>Eq = [], In = [], nf_Contains = [], StartsWith = [], EndsWith = []\<rparr>) m
     \<lparr>evf_Id = [], evf_Name = NoName, evf_parentId = i\<rparr>)"

text \<open>The loop over a list that grows while it is visited; \<open>None\<close>: it does not end.\<close>

partial_function (option) descendants_loop :: "event_types \<Rightarrow> string list \<Rightarrow> nat \<Rightarrow> string list option" where
  "descendants_loop m ets i =
     (if i < length ets then descendants_loop m (ets @ child_types m (ets ! i)) (Suc i) else Some ets)"

declare descendants_loop.simps [code]

definition getChildEventTypes :: "event_types \<Rightarrow> string \<Rightarrow> string list option" where
  "getChildEventTypes m i = descendants_loop m (child_types m i) 0"

text \<open>
  \<open>strings.EqualFold\<close> with an ASCII string: besides the letters, the long s (C5 BF) and the Kelvin sign (E2 84 AA) fold to ASCII.
\<close>

fun fold_case :: "string \<Rightarrow> string" where
  "fold_case [] = []"
| "fold_case (a # s) =
     (if of_char a = (197::nat) \<and> s \<noteq> [] \<and> of_char (hd s) = (191::nat) then CHR ''s'' # fold_case (tl s)
      else if of_char a = (226::nat) \<and> length s \<ge> 2 \<and> of_char (s ! 0) = (132::nat) \<and> of_char (s ! 1) = (170::nat) then CHR ''k'' # fold_case (drop 2 s)
      else (if 65 \<le> (of_char a :: nat) \<and> of_char a \<le> (90::nat) then char_of (of_char a + 32 :: nat) else a) # fold_case s)"

definition EqualFold :: "string \<Rightarrow> string \<Rightarrow> bool" where
  "EqualFold s ascii = (fold_case s = fold_case ascii)"

definition chain_ends :: "string \<Rightarrow> bool" where
  "chain_ends i = (EqualFold i BaseEventTypeId \<or> EqualFold i StandardEventTypeId)"

text \<open>The chain upwards from a parent; a parent that is missing is a nil pointer.\<close>

partial_function (option) chain_loop :: "event_types \<Rightarrow> string \<Rightarrow> string list \<Rightarrow> (go_error + string list) option" where
  "chain_loop m pid up =
     (case cache_load (em_types m) pid of
        None \<Rightarrow> Some (Inl GoPanic)
      | Some t \<Rightarrow>
          if chain_ends (om_ID t) then Some (Inr (up @ [om_ID t]))
          else case et_ParentId t of None \<Rightarrow> Some (Inr (up @ [om_ID t])) | Some p \<Rightarrow> chain_loop m p (up @ [om_ID t]))"

declare chain_loop.simps [code]

definition generateInheritanceChain :: "event_types \<Rightarrow> EventType \<Rightarrow> (go_error + EventType) option" where
  "generateInheritanceChain m et =
     (case et_ParentId et of
        None \<Rightarrow> Some (Inr (et\<lparr>et_Parents := rev (et_Parents et)\<rparr>))
      | Some p \<Rightarrow> map_option (map_sum id (\<lambda>up. et\<lparr>et_Parents := rev (et_Parents et @ up)\<rparr>)) (chain_loop m p []))"

definition type_fields :: "event_types \<Rightarrow> string \<Rightarrow> Field list" where
  "type_fields m i = (case cache_load (em_types m) i of None \<Rightarrow> [] | Some et \<Rightarrow> et_Fields et)"

text \<open>The field that the index of a type points to.\<close>

definition index_field :: "event_types \<Rightarrow> EventType \<Rightarrow> string \<Rightarrow> Field option" where
  "index_field m et n =
     Option.bind (cache_load (et_FieldByName et) n) (\<lambda>owner. by_name fd_Name (if owner = om_ID et then et_Fields et else type_fields m owner) n)"

definition index_fields :: "event_types \<Rightarrow> EventType \<Rightarrow> Field list" where
  "index_fields m et = List.map_filter (\<lambda>(n, _). index_field m et n) (et_FieldByName et)"

definition required_cnt :: "Field list \<Rightarrow> int" where
  "required_cnt fs = int (length (filter fd_Required fs))"

definition isFieldExists :: "event_types \<Rightarrow> string list \<Rightarrow> string \<Rightarrow> go_error option" where
  "isFieldExists m ets name =
     map_option (\<lambda>i. ErrFieldExists name i) (find (\<lambda>i. list_ex (\<lambda>f. fd_Name f = name) (type_fields m i)) ets)"

subsection \<open>Tables\<close>

fun convertDataType :: "ev_Datatype \<Rightarrow> ColumnDatatype" where
  "convertDataType DatatypeBool = ColumnDatatypeBoolean"
| "convertDataType DatatypeDouble = ColumnDatatypeDouble"
| "convertDataType DatatypeInt = ColumnDatatypeInt"
| "convertDataType DatatypeTimestamp = ColumnDatatypeTimestamp"
| "convertDataType _ = ColumnDatatypeString"

definition newTableDefinition :: "event_types \<Rightarrow> EventType \<Rightarrow> TableDefinition" where
  "newTableDefinition m et =
     foldl (\<lambda>td f. AddColumn (fd_Name f)
         (if fd_Name f = ''thingId'' then ColumnTypePrimaryKey else if fd_Filterable f then ColumnTypeSecondaryKey else ColumnTypeAttribute)
         (convertDataType (fd_DataType f)) td)
       \<lparr>td_name = om_ID et, td_columns = [], td_database = ''event-raw''\<rparr> (index_fields m et)"

definition getTableDefinition :: "event_types \<Rightarrow> EventType \<Rightarrow> TableDefinition" where
  "getTableDefinition m et = (case cache_load (em_tables m) (om_ID et) of Some td \<Rightarrow> td | None \<Rightarrow> newTableDefinition m et)"

definition store_Set :: "event_types \<Rightarrow> EventType \<Rightarrow> event_types" where
  "store_Set m et = m\<lparr>em_tables := cache_store (om_ID et) (newTableDefinition m et) (em_tables m)\<rparr>"

subsection \<open>Fields\<close>

text \<open>The decoders of the values: \<open>dec_enum\<close> for a list of strings, \<open>dec_map\<close> for a map; \<open>shown\<close> is the text of a value in an error.\<close>

record 'j value_decoder =
  dec_enum :: "'j option \<Rightarrow> string list option"
  dec_map :: "'j option \<Rightarrow> (string, string) smap option"
  shown :: "'j option \<Rightarrow> string"

definition parseFieldValues :: "'j value_decoder \<Rightarrow> 'j v1_Field \<Rightarrow> Field option" where
  "parseFieldValues dec f =
     (let rf = \<lparr>fd_Name = f1_Name f, fd_Filterable = f1_Filterable f, fd_Required = f1_Required f, fd_Updatable = f1_Updatable f,
                fd_DataType = f1_DataType f, fd_Values = NoValues\<rparr> in
      if f1_DataType f = DatatypeEnum then
        (case dec_enum dec (f1_Values f) of None \<Rightarrow> None | Some vs \<Rightarrow> if vs = [] then None else Some (rf\<lparr>fd_Values := EnumValues vs\<rparr>))
      else if f1_DataType f = DatatypeMap then
        (case dec_map dec (f1_Values f) of None \<Rightarrow> None | Some vs \<Rightarrow> if vs = [] then None else Some (rf\<lparr>fd_Values := MapValues vs\<rparr>))
      else Some rf)"

text \<open>The fields of a new type.\<close>

fun create_fields :: "'j value_decoder \<Rightarrow> event_types \<Rightarrow> 'j v1_Field list \<Rightarrow> EventType \<Rightarrow> go_error + EventType" where
  "create_fields dec m [] et = Inr et"
| "create_fields dec m (f # fs) et =
     (case isFieldExists m (et_Parents et) (f1_Name f) of
        Some err \<Rightarrow> Inl err
      | None \<Rightarrow>
          (case parseFieldValues dec f of
             None \<Rightarrow> Inl (ErrFieldInvalid (f1_Name f) (shown dec (f1_Values f)))
           | Some rf \<Rightarrow>
               create_fields dec m fs
                 (et\<lparr>et_Fields := et_Fields et @ [rf], et_FieldByName := cache_store (fd_Name rf) (om_ID et) (et_FieldByName et),
                     et_RequiredCnt := et_RequiredCnt et + (if fd_Required rf then 1 else 0)\<rparr>)))"

text \<open>The fields of the parents go into the index; two required fields belong to every event.\<close>

definition index_parent :: "event_types \<Rightarrow> EventType \<Rightarrow> string \<Rightarrow> EventType" where
  "index_parent m et i =
     foldl (\<lambda>et f. et\<lparr>et_FieldByName := cache_store (fd_Name f) i (et_FieldByName et), et_RequiredCnt := et_RequiredCnt et + (if fd_Required f then 1 else 0)\<rparr>)
       et (type_fields m i)"

definition index_parents :: "event_types \<Rightarrow> EventType \<Rightarrow> EventType" where
  "index_parents m et =
     (if et_Parents et = [] then et
      else let et = foldl (index_parent m) et (et_Parents et) in et\<lparr>et_RequiredCnt := et_RequiredCnt et - 2\<rparr>)"

subsection \<open>Creation\<close>

definition saveEventType :: "persist_env \<Rightarrow> event_types \<Rightarrow> EventType \<Rightarrow> event_types \<times> (go_error + EventType)" where
  "saveEventType e m et =
     (case Store_persist eventtypes e (em_files m) (et\<lparr>et_FieldByName := [], et_Parents := []\<rparr>) of
        (fs, Inl err) \<Rightarrow> (m\<lparr>em_files := fs\<rparr>, Inl err)
      | (fs, Inr None) \<Rightarrow> (m\<lparr>em_files := fs\<rparr>, Inl GoPanic)
      | (fs, Inr (Some saved)) \<Rightarrow> (m\<lparr>em_files := fs\<rparr>, Inr (saved\<lparr>et_FieldByName := et_FieldByName et, et_Parents := et_Parents et\<rparr>)))"

definition new_type_id :: "'j v1_EventType \<Rightarrow> string" where
  "new_type_id obj = (if et1_Id obj = [] \<or> \<not> HasPrefix (et1_Id obj) (GetTenant @ ''.'') then GetTenant @ ''.'' @ et1_Name obj else et1_Id obj)"

definition given_parent :: "'j v1_EventType \<Rightarrow> string option" where
  "given_parent obj = (case et1_ParentId obj of None \<Rightarrow> None | Some p \<Rightarrow> if p = [] then None else Some p)"

text \<open>The pointer to the time to live is followed before the default is set.\<close>

definition new_event_type :: "time \<Rightarrow> nat \<Rightarrow> 'j v1_EventType \<Rightarrow> go_error + EventType" where
  "new_event_type now seed obj =
     (case et1_TTL obj of
        None \<Rightarrow> Inl GoPanic
      | Some ttl \<Rightarrow>
          Inr \<lparr>om_Tenant = GetTenant, om_Name = et1_Name obj, om_ID = new_type_id obj, om_Version = FormatInt (int seed), om_ModTime = now,
               et_ParentId = Some (case given_parent obj of None \<Rightarrow> BaseEventTypeId | Some p \<Rightarrow> p), et_TTL = ttl, et_Fields = [], et_FieldByName = [],
               et_Parents = [], et_RequiredCnt = 0\<rparr>)"

definition create_type ::
  "'j value_decoder \<Rightarrow> persist_env \<Rightarrow> go_error option \<Rightarrow> time \<Rightarrow> nat \<Rightarrow> event_types \<Rightarrow> 'j v1_EventType \<Rightarrow> (event_types \<times> (go_error + EventType)) option" where
  "create_type dec e db now seed m obj =
     (case new_event_type now seed obj of
        Inl err \<Rightarrow> Some (m, Inl err)
      | Inr et \<Rightarrow>
          (case generateInheritanceChain m et of
             None \<Rightarrow> None
           | Some (Inl err) \<Rightarrow> Some (m, Inl err)
           | Some (Inr et) \<Rightarrow>
               (case create_fields dec m (et1_Fields obj) et of
                  Inl err \<Rightarrow> Some (m, Inl err)
                | Inr et \<Rightarrow>
                    (case saveEventType e m (index_parents m et) of
                       (m, Inl err) \<Rightarrow> Some (m, Inl err)
                     | (m, Inr saved) \<Rightarrow>
                         (case db of
                            Some err \<Rightarrow> Some (m, Inl err)
                          | None \<Rightarrow>
                              Some (m\<lparr>em_tables := cache_store (om_ID saved) (getTableDefinition m saved) (em_tables m),
                                      em_types := cache_store (om_ID saved) saved (em_types m)\<rparr>, Inr (foldEventType saved)))))))"

text \<open>\<open>db\<close> is the answer of the log storage that is asked to create the table.\<close>

definition CreateEventType ::
  "'j value_decoder \<Rightarrow> persist_env \<Rightarrow> go_error option \<Rightarrow> time \<Rightarrow> nat \<Rightarrow> event_types \<Rightarrow> 'j v1_EventType \<Rightarrow> (event_types \<times> (go_error + EventType)) option" where
  "CreateEventType dec e db now seed m obj =
     (let i = new_type_id obj in
      if cache_load (em_types m) i \<noteq> None then Some (m, Inl (ErrResourceExists i))
      else case given_parent obj of
        Some p \<Rightarrow> if cache_load (em_types m) p = None then Some (m, Inl (ErrResourceNotFound p)) else create_type dec e db now seed m obj
      | None \<Rightarrow> create_type dec e db now seed m obj)"

subsection \<open>Update\<close>

definition deleteEventTypeFields :: "EventType \<Rightarrow> string list \<Rightarrow> EventType" where
  "deleteEventTypeFields et del =
     (let gone = filter (\<lambda>f. fd_Name f \<in> set del) (et_Fields et) in
      et\<lparr>et_Fields := filter (\<lambda>f. fd_Name f \<notin> set del) (et_Fields et),
         et_FieldByName := foldl (\<lambda>ix f. cache_delete (fd_Name f) ix) (et_FieldByName et) gone,
         et_RequiredCnt := et_RequiredCnt et - required_cnt gone\<rparr>)"

text \<open>
  The fields of the request on the copy of the type. A name of the index that is not one of its own fields is one of a parent, and was refused.
\<close>

definition upsert_field :: "Field \<Rightarrow> Field list \<Rightarrow> Field list" where
  "upsert_field nf fs =
     (if by_name fd_Name fs (fd_Name nf) \<noteq> None
      then update_last fd_Name (fd_Name nf) (\<lambda>f. f\<lparr>fd_Required := fd_Required nf, fd_Updatable := fd_Updatable nf, fd_Values := fd_Values nf\<rparr>) fs
      else fs @ [nf])"

fun upsert_fields :: "'j value_decoder \<Rightarrow> event_types \<Rightarrow> string list \<Rightarrow> string list \<Rightarrow> 'j v1_Field list \<Rightarrow> Field list \<Rightarrow> go_error + Field list" where
  "upsert_fields dec m parents cets [] fs = Inr fs"
| "upsert_fields dec m parents cets (f # new) fs =
     (case isFieldExists m parents (f1_Name f) of
        Some err \<Rightarrow> Inl err
      | None \<Rightarrow>
          (case isFieldExists m cets (f1_Name f) of
             Some err \<Rightarrow> Inl err
           | None \<Rightarrow>
               (case parseFieldValues dec f of
                  None \<Rightarrow> Inl (ErrFieldInvalid (f1_Name f) (shown dec (f1_Values f)))
                | Some nf \<Rightarrow> upsert_fields dec m parents cets new (upsert_field nf fs))))"

text \<open>The cached type takes over what was saved, field by field; the names are those of fields that it and the saved type have.\<close>

definition update_field :: "EventType \<Rightarrow> EventType \<Rightarrow> string \<Rightarrow> EventType" where
  "update_field saved et name =
     (case (by_name fd_Name (et_Fields et) name, by_name fd_Name (et_Fields saved) name) of
        (Some f, Some nf) \<Rightarrow>
          et\<lparr>et_Fields := update_last fd_Name name (\<lambda>f. f\<lparr>fd_Required := fd_Required nf, fd_Updatable := fd_Updatable nf, fd_Values := fd_Values nf\<rparr>) (et_Fields et),
             et_RequiredCnt := et_RequiredCnt et + (if fd_Required f \<and> \<not> fd_Required nf then - 1 else if \<not> fd_Required f \<and> fd_Required nf then 1 else 0)\<rparr>
      | _ \<Rightarrow> et)"

definition insert_field :: "EventType \<Rightarrow> EventType \<Rightarrow> string \<Rightarrow> EventType" where
  "insert_field saved et name =
     (case by_name fd_Name (et_Fields saved) name of
        None \<Rightarrow> et
      | Some f \<Rightarrow>
          et\<lparr>et_Fields := et_Fields et @ [f], et_FieldByName := cache_store name (om_ID et) (et_FieldByName et),
             et_RequiredCnt := et_RequiredCnt et + (if fd_Required f then 1 else 0)\<rparr>)"

definition reindex_child :: "string \<Rightarrow> string list \<Rightarrow> string list \<Rightarrow> event_types \<Rightarrow> string \<Rightarrow> event_types" where
  "reindex_child parent ins del m i =
     (case cache_load (em_types m) i of
        None \<Rightarrow> m
      | Some et \<Rightarrow>
          let et = et\<lparr>et_FieldByName := foldl (\<lambda>ix n. cache_delete n ix) (foldl (\<lambda>ix n. cache_store n parent ix) (et_FieldByName et) ins) del\<rparr>;
              m = (if ins \<noteq> [] \<or> del \<noteq> [] then store_Set m et else m) in
          m\<lparr>em_types := cache_store i (et\<lparr>et_RequiredCnt := required_cnt (index_fields m et) - 2\<rparr>) (em_types m)\<rparr>)"

definition reindexChildEventType :: "string \<Rightarrow> string list \<Rightarrow> string list \<Rightarrow> event_types \<Rightarrow> string list \<Rightarrow> event_types" where
  "reindexChildEventType parent ins del m cets = foldl (reindex_child parent ins del) m cets"

definition take_over_type :: "EventType \<Rightarrow> string list \<Rightarrow> string list \<Rightarrow> string list \<Rightarrow> EventType \<Rightarrow> EventType" where
  "take_over_type saved del upd ins et =
     foldl (insert_field saved)
       (foldl (update_field saved)
          (deleteEventTypeFields (et\<lparr>et_TTL := et_TTL saved, om_Version := om_Version saved, om_ModTime := om_ModTime saved\<rparr>) del) upd) ins"

definition UpdateEventType ::
  "'j value_decoder \<Rightarrow> persist_env \<Rightarrow> time \<Rightarrow> event_types \<Rightarrow> string \<Rightarrow> 'j v1_EventType \<Rightarrow> EventType \<Rightarrow> (event_types \<times> (go_error + EventType)) option" where
  "UpdateEventType dec e now m version obj old =
     (if version \<noteq> om_Version old then Some (m, Inl ErrMismatch)
      else case DifferenceAndIntersectionObjects (et_Fields old) (et1_Fields obj) fd_Name f1_Name of (del, upd, ins) \<Rightarrow>
        (case getChildEventTypes m (om_ID old) of
           None \<Rightarrow> None
         | Some cets \<Rightarrow>
             let old = deleteEventTypeFields (old\<lparr>om_ModTime := now, et_TTL := (case et1_TTL obj of None \<Rightarrow> et_TTL old | Some d \<Rightarrow> d)\<rparr>) del in
             (case upsert_fields dec m (et_Parents old) cets (et1_Fields obj) (et_Fields old) of
                Inl err \<Rightarrow> Some (m, Inl err)
              | Inr fs \<Rightarrow>
                  (case saveEventType e m (old\<lparr>et_Fields := fs\<rparr>) of
                     (m, Inl err) \<Rightarrow> Some (m, Inl err)
                   | (m, Inr saved) \<Rightarrow>
                       (case cache_load (em_types m) (om_ID saved) of
                          None \<Rightarrow> Some (m, Inl GoPanic)
                        | Some et \<Rightarrow>
                            let et = take_over_type saved del upd ins et;
                                m = store_Set (m\<lparr>em_types := cache_store (om_ID saved) et (em_types m)\<rparr>) et in
                            Some (reindexChildEventType (om_ID et) ins del m cets, Inr (foldEventType et)))))))"

subsection \<open>Deletion\<close>

definition zero_EventType :: EventType where
  "zero_EventType = \<lparr>om_Tenant = [], om_Name = [], om_ID = [], om_Version = [], om_ModTime = 0, et_ParentId = None, et_TTL = 0, et_Fields = [],
     et_FieldByName = [], et_Parents = [], et_RequiredCnt = 0\<rparr>"

text \<open>The job that deletes the events of the type has the time to live and the identifier as its key.\<close>

definition event_DeleteEventType :: "persist_env \<Rightarrow> event_types \<Rightarrow> string \<Rightarrow> string \<Rightarrow> event_types \<times> string option \<times> (go_error + EventType)" where
  "event_DeleteEventType e m i eTag =
     (if fundamental i then (m, None, Inl (ErrDeleteFundamentalResourceFailed i))
      else case cache_load (em_types m) i of
        None \<Rightarrow> (m, None, Inl ErrNotExist)
      | Some et \<Rightarrow>
          if om_Version et \<noteq> eTag then (m, None, Inl ErrMismatch)
          else if hasChildEventType m (om_ID et) then (m, None, Inl (ErrChildTypeExist (om_ID et)))
          else case Store_persist eventtypes e (em_files m) (zero_EventType\<lparr>om_ID := om_ID et, om_Version := om_Version et\<rparr>) of
            (fs, Inl err) \<Rightarrow> (m\<lparr>em_files := fs\<rparr>, None, Inl err)
          | (fs, Inr _) \<Rightarrow>
              (\<lparr>em_types = cache_delete (om_ID et) (em_types m), em_files = fs, em_tables = cache_delete (om_ID et) (em_tables m)\<rparr>,
               Some (filepath_Join (FormatInt (et_TTL et)) (om_ID et)), Inr (foldEventType et)))"

subsection \<open>The start\<close>

definition plain_field :: "string \<Rightarrow> bool \<Rightarrow> bool \<Rightarrow> bool \<Rightarrow> ev_Datatype \<Rightarrow> Field" where
  "plain_field name filterable required updatable dt =
     \<lparr>fd_Name = name, fd_Filterable = filterable, fd_Required = required, fd_Updatable = updatable, fd_DataType = dt, fd_Values = NoValues\<rparr>"

definition baseFields :: "Field list" where
  "baseFields = [plain_field ''id'' True False False DatatypeString, plain_field ''typeId'' True False False DatatypeString,
     plain_field ''correlationId'' True False False DatatypeString, plain_field ''_time'' False True False DatatypeString,
     plain_field ''thingId'' True True False DatatypeString, plain_field ''eTag'' False False False DatatypeString]"

definition standardFields :: "Field list" where
  "standardFields = [plain_field ''severity'' True False False DatatypeInt, plain_field ''description'' False False False DatatypeString,
     plain_field ''code'' True False False DatatypeString, plain_field ''source'' True False False DatatypeString,
     plain_field ''acknowledged'' True False True DatatypeBool] @ baseFields"

definition fundamental_type :: "string \<Rightarrow> string \<Rightarrow> int \<Rightarrow> Field list \<Rightarrow> EventType" where
  "fundamental_type i name ttl fs =
     \<lparr>om_Tenant = GetTenant, om_Name = name, om_ID = i, om_Version = ''0'', om_ModTime = 0, et_ParentId = None, et_TTL = ttl, et_Fields = fs,
      et_FieldByName = foldl (\<lambda>ix f. cache_store (fd_Name f) i ix) [] fs, et_Parents = [], et_RequiredCnt = 0\<rparr>"

definition reindex_type :: "event_types \<Rightarrow> EventType \<Rightarrow> (go_error + EventType) option" where
  "reindex_type m et =
     map_option (map_sum id (\<lambda>et. index_parents m
         (foldl (\<lambda>et f. et\<lparr>et_FieldByName := cache_store (fd_Name f) (om_ID et) (et_FieldByName et),
                          et_RequiredCnt := et_RequiredCnt et + (if fd_Required f then 1 else 0)\<rparr>) et (et_Fields et))))
       (generateInheritanceChain m (et\<lparr>et_RequiredCnt := 0, et_FieldByName := []\<rparr>))"

text \<open>The types in the order of the map; a panic of one ends the service.\<close>

fun reindexEventType :: "event_types \<Rightarrow> string list \<Rightarrow> (go_error + event_types) option" where
  "reindexEventType m [] = Some (Inr m)"
| "reindexEventType m (i # is) =
     (case cache_load (em_types m) i of
        None \<Rightarrow> reindexEventType m is
      | Some et \<Rightarrow>
          (case reindex_type m et of
             None \<Rightarrow> None
           | Some (Inl err) \<Rightarrow> Some (Inl err)
           | Some (Inr et) \<Rightarrow> reindexEventType (m\<lparr>em_types := cache_store i et (em_types m)\<rparr>) is))"

definition event_Init :: "EventType files \<Rightarrow> (go_error + event_types) option" where
  "event_Init fs =
     (let ets = LoadResource eventtypes fs;
          fundamentals = [(BaseEventTypeId, fundamental_type BaseEventTypeId ''BaseEvent'' 30 baseFields),
                          (StandardEventTypeId, fundamental_type StandardEventTypeId ''StandardEvent'' 7 standardFields)];
          m = \<lparr>em_types = foldl (\<lambda>c et. cache_store (om_ID et) et c) fundamentals ets, em_files = fs, em_tables = []\<rparr> in
      if ets = [] then Some (Inr m) else reindexEventType m (map fst (em_types m)))"

subsection \<open>The resource\<close>

definition event_REST_Create where
  "event_REST_Create render dec e db now seed m obj =
     (case ValidateFunc render ValidateEventType obj of Some err \<Rightarrow> Some (m, Inl err) | None \<Rightarrow> CreateEventType dec e db now seed m obj)"

definition event_REST_Update where
  "event_REST_Update render dec e now m i obj version =
     (case getEventTypeById m i of
        Inl err \<Rightarrow> Some (m, Inl err)
      | Inr et \<Rightarrow>
          (case ValidateUpdateFunc render ValidateEventType ValidateEventTypeUpdate obj et of
             Some err \<Rightarrow> Some (m, Inl err)
           | None \<Rightarrow> UpdateEventType dec e now m version obj et))"

end
