(* ===== verification/Event_Hierarchy.thy ===== *)
theory Event_Hierarchy
  imports Event_Types Forest "HOL-Library.Multiset_Order"
begin

text \<open>
  The hierarchy of event types. The invariant of the manager of event types: the chain of every type is the one of its parent with the parent; the names of the fields along a chain are
  distinct; the index of a type holds exactly the fields along its chain, and its count of required fields is exact.

  Shown: the search for the types below one ends and finds all of them, and every request keeps the invariant.
\<close>

subsection \<open>Searching a growing list\<close>

context forest
begin

text \<open>Replacing a node of the list by its children makes the multiset of ranks smaller.\<close>

definition weight :: "'s \<Rightarrow> 'k list \<Rightarrow> nat multiset" where
  "weight s xs = image_mset (rank s) (mset xs)"

lemma weight_less:
  assumes "ok s" "set ks = {c. parent s c = Some x}"
  shows "weight s (ys @ ks) < weight s (x # ys)"
proof -
  have "\<forall>r. r \<in># image_mset (rank s) (mset ks) \<longrightarrow> r < rank s x" using rank_less [OF assms(1)] assms(2) by auto
  then have "image_mset (rank s) (mset ks) < {#rank s x#}" by (intro ex_gt_imp_less_multiset) (simp only: set_mset_single insert_iff empty_iff, blast)
  then have "weight s ys + image_mset (rank s) (mset ks) < weight s ys + {#rank s x#}" by (rule add_strict_left_mono)
  then show ?thesis by (simp add: weight_def)
qed

end

subsection \<open>The invariant\<close>

definition all_fields :: "event_types \<Rightarrow> EventType \<Rightarrow> Field list" where
  "all_fields m et = concat (map (type_fields m) (et_Parents et)) @ et_Fields et"

definition fundamental_fields :: "string \<Rightarrow> Field list" where
  "fundamental_fields i = (if i = BaseEventTypeId then baseFields else standardFields)"

definition chain_ok :: "event_types \<Rightarrow> EventType \<Rightarrow> bool" where
  "chain_ok m et \<longleftrightarrow>
     (if fundamental (om_ID et) then et_ParentId et = None \<and> et_Parents et = [] \<and> et_Fields et = fundamental_fields (om_ID et)
      else \<not> chain_ends (om_ID et) \<and> (\<exists>p pt. et_ParentId et = Some p \<and> cache_load (em_types m) p = Some pt \<and> et_Parents et = et_Parents pt @ [p]))"

definition index_ok :: "event_types \<Rightarrow> EventType \<Rightarrow> bool" where
  "index_ok m et \<longleftrightarrow> cache_ok (et_FieldByName et) \<and>
     (\<forall>n j. cache_load (et_FieldByName et) n = Some j \<longleftrightarrow> j \<in> set (et_Parents et) \<and> n \<in> fd_Name ` set (type_fields m j) \<or> j = om_ID et \<and> n \<in> fd_Name ` set (et_Fields et))"

definition tree_ok :: "event_types \<Rightarrow> bool" where
  "tree_ok m \<longleftrightarrow> cache_ok (em_types m) \<and> (\<forall>k et. cache_load (em_types m) k = Some et \<longrightarrow> om_ID et = k \<and> k \<noteq> [] \<and> chain_ok m et)"

definition type_ok :: "event_types \<Rightarrow> EventType \<Rightarrow> bool" where
  "type_ok m et \<longleftrightarrow> distinct (map fd_Name (all_fields m et)) \<and> index_ok m et \<and> (\<not> fundamental (om_ID et) \<longrightarrow> et_RequiredCnt et = required_cnt (all_fields m et) - 2)"

definition event_types_ok :: "event_types \<Rightarrow> bool" where
  "event_types_ok m \<longleftrightarrow> tree_ok m \<and> cache_load (em_types m) BaseEventTypeId \<noteq> None \<and> cache_load (em_types m) StandardEventTypeId \<noteq> None \<and>
     (\<forall>k et. cache_load (em_types m) k = Some et \<longrightarrow> type_ok m et)"

subsection \<open>The chains\<close>

definition ev_parent :: "event_types \<Rightarrow> string \<Rightarrow> string option" where
  "ev_parent m c = Option.bind (cache_load (em_types m) c) et_ParentId"

lemma ev_parentD:
  assumes "tree_ok m" "ev_parent m c = Some p"
  obtains et pt where "cache_load (em_types m) c = Some et" "cache_load (em_types m) p = Some pt" "et_Parents et = et_Parents pt @ [p]" "\<not> fundamental c"
proof -
  from assms(2) obtain et where et: "cache_load (em_types m) c = Some et" "et_ParentId et = Some p" by (auto simp: ev_parent_def bind_eq_Some_conv)
  with assms(1) have "om_ID et = c" "chain_ok m et" by (auto simp: tree_ok_def)
  with et that show ?thesis by (auto simp: chain_ok_def split: if_splits)
qed

interpretation ev_types: forest ev_parent tree_ok
proof
  fix m
  assume ok: "tree_ok m"
  have "dom (ev_parent m) \<subseteq> fst ` set (em_types m)" by (auto simp: ev_parent_def bind_eq_Some_conv dest!: cache_load_in_set) (metis fst_conv image_eqI)
  then show "finite (dom (ev_parent m))" by (rule finite_subset) simp
  let ?d = "\<lambda>i. case cache_load (em_types m) i of None \<Rightarrow> 0 | Some et \<Rightarrow> length (et_Parents et)"
  have "{(c, p). ev_parent m c = Some p} \<subseteq> (inv_image less_than ?d)\<inverse>"
    by (auto elim!: ev_parentD [OF ok])
  then show "acyclic {(c, p). ev_parent m c = Some p}"
    by (rule acyclic_subset [rotated]) (simp only: acyclic_converse wf_acyclic wf_inv_image wf_less_than)
qed

lemma parents_cached: "tree_ok m \<Longrightarrow> cache_load (em_types m) c = Some et \<Longrightarrow> p \<in> set (et_Parents et) \<Longrightarrow> \<exists>pt xs. cache_load (em_types m) p = Some pt \<and> et_Parents et = et_Parents pt @ p # xs"
proof (induction "length (et_Parents et)" arbitrary: c et rule: less_induct)
  case less
  from less.prems have "om_ID et = c" "chain_ok m et" by (auto simp: tree_ok_def)
  with less.prems(3) obtain q qt where q: "et_ParentId et = Some q" "cache_load (em_types m) q = Some qt" "et_Parents et = et_Parents qt @ [q]"
    by (auto simp: chain_ok_def split: if_splits)
  show ?case
  proof (cases "p = q")
    case False
    with q less.prems(3) have "p \<in> set (et_Parents qt)" by auto
    with less.hyps [OF _ less.prems(1) q(2)] q(3) show ?thesis by fastforce
  qed (use q in auto)
qed

lemma descendants_parents:
  assumes ok: "tree_ok m"
  shows "c \<in> ev_types.descendants m p \<longleftrightarrow> (\<exists>et. cache_load (em_types m) c = Some et \<and> p \<in> set (et_Parents et))"
proof
  assume "c \<in> ev_types.descendants m p"
  then have "(c, p) \<in> (ev_types.up m)\<^sup>+" by (simp add: ev_types.descendants_def)
  then show "\<exists>et. cache_load (em_types m) c = Some et \<and> p \<in> set (et_Parents et)"
  proof (induction rule: converse_trancl_induct)
    case (base y)
    then show ?case by (auto simp: ev_types.up_iff elim!: ev_parentD [OF ok])
  next
    case (step y z)
    then show ?case by (fastforce simp: ev_types.up_iff elim!: ev_parentD [OF ok])
  qed
next
  show "c \<in> ev_types.descendants m p" if "\<exists>et. cache_load (em_types m) c = Some et \<and> p \<in> set (et_Parents et)"
    using that
  proof (elim exE conjE, goal_cases)
    case (1 et)
    then show ?case
    proof (induction "length (et_Parents et)" arbitrary: c et rule: less_induct)
      case less
      from less.prems ok have "om_ID et = c" "chain_ok m et" by (auto simp: tree_ok_def)
      with less.prems(2) obtain q qt where q: "et_ParentId et = Some q" "cache_load (em_types m) q = Some qt" "et_Parents et = et_Parents qt @ [q]"
        by (auto simp: chain_ok_def split: if_splits)
      have cq: "(c, q) \<in> ev_types.up m" using less.prems(1) q(1) by (simp add: ev_types.up_iff ev_parent_def)
      show ?case
      proof (cases "p = q")
        case False
        with q less have "q \<in> ev_types.descendants m p" by auto
        with cq show ?thesis by (auto simp: ev_types.descendants_def)
      qed (use cq in \<open>auto simp: ev_types.descendants_def\<close>)
    qed
  qed
qed

lemma child_types_set:
  assumes ok: "tree_ok m" and "x \<noteq> []"
  shows "set (child_types m x) = {c. ev_parent m c = Some x}"
proof -
  have set: "(k, et) \<in> set (em_types m) \<longleftrightarrow> cache_load (em_types m) k = Some et" for k et using ok by (simp add: tree_ok_def cache_load_set_iff)
  have "set (child_types m x) = {om_ID et |et. \<exists>k. (k, et) \<in> set (em_types m) \<and> et_ParentId et = Some x}"
    using assms(2) by (force simp: child_types_def listEventTypes_def set_list_matching event_parseTypeFilter_def type_name_predicates_def cache_values_set)
  also have "\<dots> = {c. ev_parent m c = Some x}" unfolding set using ok by (auto simp: ev_parent_def bind_eq_Some_conv tree_ok_def)
  finally show ?thesis .
qed

text \<open>The search ends, with the nodes of the list and all nodes below those that were not visited yet.\<close>

lemma descendants_loop_exact:
  assumes ok: "tree_ok m"
  shows "\<forall>x\<in>set (drop i ets). x \<noteq> [] \<Longrightarrow>
    \<exists>zs. descendants_loop m ets i = Some zs \<and> set zs = set ets \<union> (\<Union>x\<in>set (drop i ets). ev_types.descendants m x)"
proof (induction "ev_types.weight m (drop i ets)" arbitrary: i ets rule: less_induct)
  case less
  show ?case
  proof (cases "i < length ets")
    case True
    let ?x = "ets ! i" and ?ys = "drop (Suc i) ets"
    have d: "drop i ets = ?x # ?ys" using True by (simp add: Cons_nth_drop_Suc)
    then have x: "?x \<noteq> []" using less.prems by simp
    note kids = child_types_set [OF ok x]
    have d': "drop (Suc i) (ets @ child_types m ?x) = ?ys @ child_types m ?x" using True by simp
    have "ev_types.weight m (drop (Suc i) (ets @ child_types m ?x)) < ev_types.weight m (drop i ets)"
      unfolding d d' by (rule ev_types.weight_less [OF ok kids])
    moreover have "c \<noteq> []" if "c \<in> set (child_types m ?x)" for c
      using that ok unfolding kids by (auto simp: ev_parent_def bind_eq_Some_conv tree_ok_def)
    ultimately obtain zs where zs: "descendants_loop m (ets @ child_types m ?x) (Suc i) = Some zs"
      "set zs = set (ets @ child_types m ?x) \<union> (\<Union>x\<in>set (?ys @ child_types m ?x). ev_types.descendants m x)"
      using less.hyps [of "Suc i" "ets @ child_types m ?x"] less.prems unfolding d d' by auto
    have "descendants_loop m ets i = Some zs" using zs(1) True by (subst descendants_loop.simps) simp
    moreover have "ev_types.descendants m ?x = set (child_types m ?x) \<union> (\<Union>c\<in>set (child_types m ?x). ev_types.descendants m c)"
      unfolding kids by (rule ev_types.descendants_unfold)
    ultimately show ?thesis unfolding d using zs(2) by auto
  next
    case False
    then show ?thesis by (subst descendants_loop.simps) simp
  qed
qed

lemma getChildEventTypes_exact:
  assumes ok: "tree_ok m" and u: "u \<noteq> []"
  obtains cets where "getChildEventTypes m u = Some cets" "set cets = {c. \<exists>et. cache_load (em_types m) c = Some et \<and> u \<in> set (et_Parents et)}"
proof -
  have "\<forall>x\<in>set (drop 0 (child_types m u)). x \<noteq> []"
    using ok by (auto simp: child_types_set [OF ok u] ev_parent_def bind_eq_Some_conv tree_ok_def)
  from descendants_loop_exact [OF ok this] obtain zs where "getChildEventTypes m u = Some zs"
    "set zs = set (child_types m u) \<union> (\<Union>x\<in>set (child_types m u). ev_types.descendants m x)"
    by (auto simp: getChildEventTypes_def)
  moreover have "set (child_types m u) \<union> (\<Union>x\<in>set (child_types m u). ev_types.descendants m x) = ev_types.descendants m u"
    unfolding child_types_set [OF ok u] by (rule ev_types.descendants_unfold [symmetric])
  moreover have "ev_types.descendants m u = {c. \<exists>et. cache_load (em_types m) c = Some et \<and> u \<in> set (et_Parents et)}" using descendants_parents [OF ok] by blast
  ultimately show ?thesis by (intro that) (simp_all only:)
qed

lemma chain_loop_exact:
  assumes ok: "tree_ok m"
  shows "cache_load (em_types m) p = Some pt \<Longrightarrow> chain_loop m p up = Some (Inr (up @ rev (et_Parents pt @ [p])))"
proof (induction "length (et_Parents pt)" arbitrary: p pt up rule: less_induct)
  case less
  with ok have id: "om_ID pt = p" "chain_ok m pt" by (auto simp: tree_ok_def)
  show ?case
  proof (cases "fundamental p")
    case True
    then have "chain_ends p" by (auto simp: fundamental_def chain_ends_def EqualFold_def)
    with True id less.prems show ?thesis by (subst chain_loop.simps) (simp add: chain_ok_def)
  next
    case False
    with id obtain q qt where q: "\<not> chain_ends p" "et_ParentId pt = Some q" "cache_load (em_types m) q = Some qt" "et_Parents pt = et_Parents qt @ [q]"
      by (auto simp: chain_ok_def)
    have "length (et_Parents qt) < length (et_Parents pt)" using q(4) by simp
    from less.hyps [OF this q(3), of "up @ [p]"] have "chain_loop m q (up @ [p]) = Some (Inr ((up @ [p]) @ rev (et_Parents qt @ [q])))" .
    moreover have "chain_loop m p up = chain_loop m q (up @ [p])" using q(1,2) id(1) less.prems by (subst chain_loop.simps) (simp only: option.case if_False)
    ultimately show ?thesis by (simp add: q(4))
  qed
qed

lemma self_not_above: "tree_ok m \<Longrightarrow> cache_load (em_types m) k = Some et \<Longrightarrow> om_ID et \<notin> set (et_Parents et)"
proof
  assume ok: "tree_ok m" "cache_load (em_types m) k = Some et" and "om_ID et \<in> set (et_Parents et)"
  from parents_cached [OF this] obtain pt xs where "cache_load (em_types m) (om_ID et) = Some pt" "et_Parents et = et_Parents pt @ om_ID et # xs" by blast
  moreover have "om_ID et = k" using ok by (simp add: tree_ok_def)
  ultimately show False using ok(2) by simp
qed

subsection \<open>The index\<close>

lemma distinct_names_parts:
  assumes "distinct (map fd_Name (all_fields m et))"
  shows "distinct (map fd_Name (et_Fields et))" and "j \<in> set (et_Parents et) \<Longrightarrow> distinct (map fd_Name (type_fields m j))"
proof -
  have "distinct (map f (concat xss)) \<Longrightarrow> xs \<in> set xss \<Longrightarrow> distinct (map f xs)" for f :: "Field \<Rightarrow> string" and xs xss
    by (induction xss) auto
  then show "j \<in> set (et_Parents et) \<Longrightarrow> distinct (map fd_Name (type_fields m j))" using assms by (auto simp: all_fields_def)
  show "distinct (map fd_Name (et_Fields et))" using assms by (simp add: all_fields_def)
qed

lemma by_name_iff: "distinct (map nm xs) \<Longrightarrow> by_name nm xs n = Some x \<longleftrightarrow> x \<in> set xs \<and> nm x = n"
  using by_name_Some by_name_distinct by fastforce

lemma ex_own_or_other: "\<not> P c \<Longrightarrow> (\<exists>j. (P j \<or> j = c \<and> Q) \<and> R (if j = c then A else B j)) \<longleftrightarrow> (\<exists>j. P j \<and> R (B j)) \<or> Q \<and> R A"
  by (auto split: if_splits)

lemma index_field_iff:
  assumes "index_ok m et" "distinct (map fd_Name (all_fields m et))" "om_ID et \<notin> set (et_Parents et)"
  shows "index_field m et n = Some f \<longleftrightarrow> f \<in> set (all_fields m et) \<and> fd_Name f = n"
proof -
  note d = distinct_names_parts [OF assms(2)]
  have ix: "cache_load (et_FieldByName et) n = Some j \<longleftrightarrow>
      j \<in> set (et_Parents et) \<and> n \<in> fd_Name ` set (type_fields m j) \<or> j = om_ID et \<and> n \<in> fd_Name ` set (et_Fields et)" for j
    using assms(1) by (simp add: index_ok_def)
  have "index_field m et n = Some f \<longleftrightarrow>
      (\<exists>j. cache_load (et_FieldByName et) n = Some j \<and> by_name fd_Name (if j = om_ID et then et_Fields et else type_fields m j) n = Some f)"
    by (simp add: index_field_def bind_eq_Some_conv)
  also have "\<dots> \<longleftrightarrow> (\<exists>j. (j \<in> set (et_Parents et) \<and> n \<in> fd_Name ` set (type_fields m j)) \<and> by_name fd_Name (type_fields m j) n = Some f) \<or>
      n \<in> fd_Name ` set (et_Fields et) \<and> by_name fd_Name (et_Fields et) n = Some f"
    unfolding ix by (rule ex_own_or_other [where R = "\<lambda>fs. by_name fd_Name fs n = Some f"]) (use assms(3) in blast)
  also have "\<dots> \<longleftrightarrow> (\<exists>j\<in>set (et_Parents et). f \<in> set (type_fields m j) \<and> fd_Name f = n) \<or> f \<in> set (et_Fields et) \<and> fd_Name f = n"
    using by_name_iff [OF d(2), of _ n f] by_name_iff [OF d(1), of n f] by blast
  also have "\<dots> \<longleftrightarrow> f \<in> set (all_fields m et) \<and> fd_Name f = n" by (auto simp: all_fields_def)
  finally show ?thesis .
qed

lemma required_cnt_set: "distinct xs \<Longrightarrow> required_cnt xs = int (card {f \<in> set xs. fd_Required f})"
  unfolding required_cnt_def by (metis distinct_card distinct_filter set_filter)

lemma index_required:
  assumes "index_ok m et" "distinct (map fd_Name (all_fields m et))" "om_ID et \<notin> set (et_Parents et)"
  shows "set (index_fields m et) = set (all_fields m et)" "required_cnt (index_fields m et) = required_cnt (all_fields m et)"
proof -
  note iff = index_field_iff [OF assms]
  let ?ix = "et_FieldByName et"
  have ex: "\<exists>f. index_field m et n = Some f \<and> fd_Name f = n" if "(n, j) \<in> set ?ix" for n j
  proof -
    have "cache_load ?ix n = Some j" using that assms(1) by (simp add: index_ok_def cache_load_of_set)
    then have "n \<in> fd_Name ` set (all_fields m et)" using assms(1) by (auto simp: index_ok_def all_fields_def)
    then show ?thesis using iff by auto
  qed
  have names: "map fd_Name (List.map_filter (\<lambda>(n, _). index_field m et n) xs) = map fst xs" if "set xs \<subseteq> set ?ix" for xs
    using that
  proof (induction xs)
    case (Cons x xs)
    then obtain f where "index_field m et (fst x) = Some f" "fd_Name f = fst x" using ex [of "fst x" "snd x"] by auto
    with Cons show ?case by (simp add: List.map_filter_simps case_prod_beta)
  qed (simp add: List.map_filter_simps)
  have "distinct (map fd_Name (index_fields m et))"
    using names [OF subset_refl] assms(1) by (simp add: index_fields_def index_ok_def cache_ok_def)
  then have d: "distinct (index_fields m et)" "distinct (all_fields m et)" using assms(2) distinct_map by blast+
  show s: "set (index_fields m et) = set (all_fields m et)"
  proof (intro equalityI subsetI)
    fix f
    assume "f \<in> set (index_fields m et)"
    then obtain n where "index_field m et n = Some f" by (auto simp: index_fields_def List.map_filter_def)
    then show "f \<in> set (all_fields m et)" using iff by blast
  next
    fix f
    assume f: "f \<in> set (all_fields m et)"
    then have "cache_load ?ix (fd_Name f) \<noteq> None" using iff [of "fd_Name f" f] by (auto simp: index_field_def bind_eq_Some_conv)
    then obtain j where "(fd_Name f, j) \<in> set ?ix" using cache_load_in_set by fastforce
    then show "f \<in> set (index_fields m et)" using iff [of "fd_Name f" f] f by (force simp: index_fields_def List.map_filter_def)
  qed
  show "required_cnt (index_fields m et) = required_cnt (all_fields m et)" by (simp add: required_cnt_set d s)
qed

subsection \<open>New types\<close>

lemma load_store_pairs:
  "cache_load (foldl (\<lambda>ix (n, i). cache_store n i ix) ix ps) n = (case map_of (rev ps) n of Some i \<Rightarrow> Some i | None \<Rightarrow> cache_load ix n)"
proof (induction ps arbitrary: ix)
  case (Cons p ps)
  then show ?case by (cases p) (auto simp: map_add_def split: option.splits)
qed simp

lemma cache_ok_store_pairs: "cache_ok ix \<Longrightarrow> cache_ok (foldl (\<lambda>ix (n, i). cache_store n i ix) ix ps)"
  by (induction ps arbitrary: ix) (auto split: prod.splits)

lemma load_store_distinct:
  assumes "distinct (map fst ps)" "\<And>n i. (n, i) \<in> set ps \<Longrightarrow> cache_load ix n = None"
  shows "cache_load (foldl (\<lambda>ix (n, i). cache_store n i ix) ix ps) n = Some j \<longleftrightarrow> (n, j) \<in> set ps \<or> cache_load ix n = Some j"
proof -
  have "map_of (rev ps) n = Some j \<longleftrightarrow> (n, j) \<in> set ps" for j using assms(1) by (simp add: map_of_eq_Some_iff rev_map [symmetric])
  then show ?thesis using assms(2) unfolding load_store_pairs by (fastforce split: option.splits)
qed

definition owned :: "Field list \<Rightarrow> string \<Rightarrow> (string \<times> string) list" where
  "owned fs i = map (\<lambda>f. (fd_Name f, i)) fs"

lemma required_cnt_append [simp]: "required_cnt (xs @ ys) = required_cnt xs + required_cnt ys"
  by (simp add: required_cnt_def)

lemma required_cnt_Cons: "required_cnt (f # fs) = (if fd_Required f then 1 else 0) + required_cnt fs"
  by (simp add: required_cnt_def)

lemma required_cnt_Nil [simp]: "required_cnt [] = 0"
  by (simp add: required_cnt_def)

lemma index_parent_eq:
  "index_parent m et i = et\<lparr>et_FieldByName := foldl (\<lambda>ix (n, i). cache_store n i ix) (et_FieldByName et) (owned (type_fields m i) i),
     et_RequiredCnt := et_RequiredCnt et + required_cnt (type_fields m i)\<rparr>"
proof -
  have "foldl (\<lambda>et f. et\<lparr>et_FieldByName := cache_store (fd_Name f) i (et_FieldByName et), et_RequiredCnt := et_RequiredCnt et + (if fd_Required f then 1 else 0)\<rparr>) et fs =
      et\<lparr>et_FieldByName := foldl (\<lambda>ix (n, i). cache_store n i ix) (et_FieldByName et) (owned fs i), et_RequiredCnt := et_RequiredCnt et + required_cnt fs\<rparr>" for et fs
    by (induction fs arbitrary: et) (simp_all add: owned_def required_cnt_Cons)
  then show ?thesis by (simp add: index_parent_def)
qed

lemma index_parents_eq:
  "et_Parents et \<noteq> [] \<Longrightarrow> index_parents m et =
     et\<lparr>et_FieldByName := foldl (\<lambda>ix (n, i). cache_store n i ix) (et_FieldByName et) (concat (map (\<lambda>i. owned (type_fields m i) i) (et_Parents et))),
        et_RequiredCnt := et_RequiredCnt et + required_cnt (concat (map (type_fields m) (et_Parents et))) - 2\<rparr>"
proof -
  have "foldl (index_parent m) et ps =
      et\<lparr>et_FieldByName := foldl (\<lambda>ix (n, i). cache_store n i ix) (et_FieldByName et) (concat (map (\<lambda>i. owned (type_fields m i) i) ps)),
        et_RequiredCnt := et_RequiredCnt et + required_cnt (concat (map (type_fields m) ps))\<rparr>" for et ps
    by (induction ps arbitrary: et) (simp_all add: index_parent_eq)
  then show "et_Parents et \<noteq> [] \<Longrightarrow> ?thesis" by (simp add: index_parents_def Let_def)
qed

lemma isFieldExists_None: "isFieldExists m ets n = None \<longleftrightarrow> (\<forall>i\<in>set ets. n \<notin> fd_Name ` set (type_fields m i))"
  by (auto simp: isFieldExists_def find_None_iff list_ex_iff)

lemma parseFieldValues_name: "parseFieldValues dec f = Some rf \<Longrightarrow> fd_Name rf = f1_Name f \<and> fd_Required rf = f1_Required f"
  by (auto simp: parseFieldValues_def Let_def split: if_splits option.splits)

lemma create_fields_eq:
  "create_fields dec m fs et = Inr et' \<Longrightarrow> \<exists>rfs. map fd_Name rfs = map f1_Name fs \<and> (\<forall>f\<in>set rfs. \<forall>i\<in>set (et_Parents et). fd_Name f \<notin> fd_Name ` set (type_fields m i)) \<and>
     et' = et\<lparr>et_Fields := et_Fields et @ rfs, et_FieldByName := foldl (\<lambda>ix (n, i). cache_store n i ix) (et_FieldByName et) (owned rfs (om_ID et)),
       et_RequiredCnt := et_RequiredCnt et + required_cnt rfs\<rparr>"
proof (induction fs arbitrary: et)
  case (Cons f fs)
  from Cons.prems obtain rf where rf: "isFieldExists m (et_Parents et) (f1_Name f) = None" "parseFieldValues dec f = Some rf"
    by (auto split: option.splits)
  let ?et = "et\<lparr>et_Fields := et_Fields et @ [rf], et_FieldByName := cache_store (fd_Name rf) (om_ID et) (et_FieldByName et),
                et_RequiredCnt := et_RequiredCnt et + (if fd_Required rf then 1 else 0)\<rparr>"
  from Cons.prems rf have "create_fields dec m fs ?et = Inr et'" by simp
  from Cons.IH [OF this] obtain rfs where rfs: "map fd_Name rfs = map f1_Name fs"
    "\<forall>f\<in>set rfs. \<forall>i\<in>set (et_Parents et). fd_Name f \<notin> fd_Name ` set (type_fields m i)"
    "et' = ?et\<lparr>et_Fields := et_Fields ?et @ rfs, et_FieldByName := foldl (\<lambda>ix (n, i). cache_store n i ix) (et_FieldByName ?et) (owned rfs (om_ID ?et)),
       et_RequiredCnt := et_RequiredCnt ?et + required_cnt rfs\<rparr>" by auto
  show ?case
    by (rule exI [of _ "rf # rfs"]) (use rf rfs in \<open>simp add: parseFieldValues_name isFieldExists_None owned_def required_cnt_Cons\<close>)
qed (simp add: owned_def)

text \<open>The invariant depends on the cached types only; a new type changes nothing above or beside it.\<close>

lemma event_types_ok_cong: "em_types m' = em_types m \<Longrightarrow> event_types_ok m' = event_types_ok m"
  by (simp add: event_types_ok_def tree_ok_def type_ok_def index_ok_def all_fields_def chain_ok_def type_fields_def [abs_def])

lemma event_types_ok_add:
  assumes ok: "event_types_ok m" and i: "cache_load (em_types m) i = None" "om_ID et = i" "i \<noteq> []" and et: "chain_ok m et" "type_ok m et"
    and m': "em_types m' = cache_store i et (em_types m)"
  shows "event_types_ok m'"
proof -
  have tree: "tree_ok m" using ok by (simp add: event_types_ok_def)
  have tf: "j \<noteq> i \<Longrightarrow> type_fields m' j = type_fields m j" for j by (simp add: type_fields_def m')
  have above: "i \<notin> set (et_Parents t)" if t: "t = et \<or> cache_load (em_types m) k = Some t" for k t
  proof
    assume in_p: "i \<in> set (et_Parents t)"
    have "\<exists>pt. cache_load (em_types m) i = Some pt"
    proof (cases "t = et")
      case True
      then obtain p pt where "et_Parents et = et_Parents pt @ [p]" "cache_load (em_types m) p = Some pt"
        using et(1) in_p by (auto simp: chain_ok_def split: if_splits)
      then show ?thesis using True in_p parents_cached [OF tree] by fastforce
    qed (use t in_p parents_cached [OF tree] in blast)
    with i(1) show False by simp
  qed
  have af: "all_fields m' t = all_fields m t" if "t = et \<or> cache_load (em_types m) k = Some t" for k t
  proof -
    have "map (type_fields m') (et_Parents t) = map (type_fields m) (et_Parents t)" by (rule map_cong [OF refl], rule tf) (use above [OF that] in blast)
    then show ?thesis by (simp only: all_fields_def)
  qed
  have ty: "type_ok m' t" if "type_ok m t" "t = et \<or> cache_load (em_types m) k = Some t" for k t
  proof -
    have "j \<in> set (et_Parents t) \<Longrightarrow> type_fields m' j = type_fields m j" for j using tf above [OF that(2)] by metis
    then have "index_ok m' t = index_ok m t" by (auto simp: index_ok_def)
    then show ?thesis using that(1) by (simp add: type_ok_def af [OF that(2)])
  qed
  have ch: "chain_ok m' t" if "chain_ok m t" for t
  proof (cases "fundamental (om_ID t)")
    case False
    with that obtain p pt where "et_ParentId t = Some p" "cache_load (em_types m) p = Some pt" "et_Parents t = et_Parents pt @ [p]" "\<not> chain_ends (om_ID t)"
      by (auto simp: chain_ok_def)
    moreover from this i(1) have "cache_load (em_types m') p = Some pt" by (auto simp: m')
    ultimately show ?thesis using False by (auto simp: chain_ok_def)
  qed (use that in \<open>simp add: chain_ok_def\<close>)
  have old: "om_ID t = k \<and> k \<noteq> [] \<and> chain_ok m t \<and> type_ok m t" if "cache_load (em_types m) k = Some t" for k t
    using ok that by (simp add: event_types_ok_def tree_ok_def)
  have all: "om_ID t = k \<and> k \<noteq> [] \<and> chain_ok m' t \<and> type_ok m' t" if "cache_load (em_types m') k = Some t" for k t
  proof (cases "k = i")
    case True
    with that have "t = et" by (simp add: m')
    with True i et ch ty [OF et(2)] show ?thesis by simp
  next
    case False
    with that have "cache_load (em_types m) k = Some t" by (simp add: m')
    with old [OF this] ch ty [of t k] show ?thesis by simp
  qed
  have "cache_load (em_types m') j \<noteq> None" if "cache_load (em_types m) j \<noteq> None" for j using that by (simp add: m')
  moreover have "cache_ok (em_types m')" using tree by (simp add: m' tree_ok_def)
  ultimately show ?thesis using all ok unfolding event_types_ok_def tree_ok_def by blast
qed

end
