(* ===== verification/Event_Steps.thy ===== *)
theory Event_Steps
  imports Event_Hierarchy
begin

text \<open>
  Every request to the manager of event types keeps its invariant and returns: the steps of creation, update and deletion, and the start.
\<close>

lemma save_type:
  assumes "saveEventType e m et = (m', res)"
  shows "em_types m' = em_types m" "res = Inr saved \<Longrightarrow> \<exists>v. saved = et\<lparr>om_Version := v\<rparr>"
proof -
  show "em_types m' = em_types m" using assms by (auto simp: saveEventType_def split: prod.splits sum.splits option.splits)
  assume "res = Inr saved"
  then obtain fs s where p: "Store_persist eventtypes e (em_files m) (et\<lparr>et_FieldByName := [], et_Parents := []\<rparr>) = (fs, Inr (Some s))"
    and s: "saved = s\<lparr>et_FieldByName := et_FieldByName et, et_Parents := et_Parents et\<rparr>"
    using assms by (auto simp: saveEventType_def split: prod.splits sum.splits option.splits)
  from Store_persist_saved_fields [OF p] s show "\<exists>v. saved = et\<lparr>om_Version := v\<rparr>" by auto
qed

lemma type_okD: "event_types_ok m \<Longrightarrow> cache_load (em_types m) k = Some et \<Longrightarrow> om_ID et = k \<and> k \<noteq> [] \<and> chain_ok m et \<and> type_ok m et"
  by (simp add: event_types_ok_def tree_ok_def)

lemma fundamental_ends: "fundamental i \<Longrightarrow> chain_ends i"
  by (auto simp: fundamental_def chain_ends_def EqualFold_def)

lemma parent_chain_fields: "cache_load (em_types m) p = Some pt \<Longrightarrow> concat (map (type_fields m) (et_Parents pt @ [p])) = all_fields m pt"
  by (simp add: all_fields_def type_fields_def)

subsection \<open>Creation\<close>

text \<open>A type that is built from its parent and new fields.\<close>

lemma built_type_ok:
  assumes ok: "event_types_ok m" and p: "cache_load (em_types m) p = Some pt" and new: "cache_load (em_types m) (om_ID et) = None"
    and names: "distinct (map fd_Name (et_Fields et))" "\<forall>f\<in>set (et_Fields et). \<forall>i\<in>set (et_Parents et). fd_Name f \<notin> fd_Name ` set (type_fields m i)"
    and par: "et_Parents et = et_Parents pt @ [p]"
    and ix: "et_FieldByName et = foldl (\<lambda>ix (n, i). cache_store n i ix) (foldl (\<lambda>ix (n, i). cache_store n i ix) [] (owned (et_Fields et) (om_ID et)))
        (concat (map (\<lambda>i. owned (type_fields m i) i) (et_Parents et)))"
    and cnt: "et_RequiredCnt et = required_cnt (et_Fields et) + required_cnt (concat (map (type_fields m) (et_Parents et))) - 2"
  shows "type_ok m et"
proof -
  have tree: "tree_ok m" using ok by (simp add: event_types_ok_def)
  let ?up = "concat (map (type_fields m) (et_Parents et))" and ?ps = "concat (map (\<lambda>i. owned (type_fields m i) i) (et_Parents et))"
  have "?up = all_fields m pt" unfolding par by (rule parent_chain_fields [OF p])
  then have up: "distinct (map fd_Name ?up)" using type_okD [OF ok p] by (simp add: type_ok_def)
  have dis: "distinct (map fd_Name (all_fields m et))" using up names by (simp add: all_fields_def disjoint_iff) blast
  have fst: "map fst ?ps = map fd_Name ?up" by (simp add: map_concat owned_def comp_def)
  have ps: "(n, j) \<in> set ?ps \<longleftrightarrow> j \<in> set (et_Parents et) \<and> n \<in> fd_Name ` set (type_fields m j)" for n j by (auto simp: owned_def)
  have own: "cache_load (foldl (\<lambda>ix (n, i). cache_store n i ix) [] (owned (et_Fields et) (om_ID et))) n = Some j \<longleftrightarrow> j = om_ID et \<and> n \<in> fd_Name ` set (et_Fields et)" for n j
    using load_store_distinct [of "owned (et_Fields et) (om_ID et)" "[]" n j] names(1) by (auto simp: owned_def comp_def)
  have none: "cache_load (foldl (\<lambda>ix (n, i). cache_store n i ix) [] (owned (et_Fields et) (om_ID et))) n = None" if "(n, j) \<in> set ?ps" for n j
  proof (rule ccontr)
    assume "cache_load (foldl (\<lambda>ix (n, i). cache_store n i ix) [] (owned (et_Fields et) (om_ID et))) n \<noteq> None"
    then have "n \<in> fd_Name ` set (et_Fields et)" using own by blast
    with that names(2) show False unfolding ps by auto
  qed
  have "distinct (map fst ?ps)" unfolding fst by (rule up)
  from load_store_distinct [OF this, of "foldl (\<lambda>ix (n, i). cache_store n i ix) [] (owned (et_Fields et) (om_ID et))"] none
  have load: "cache_load (et_FieldByName et) n = Some j \<longleftrightarrow> (n, j) \<in> set ?ps \<or> j = om_ID et \<and> n \<in> fd_Name ` set (et_Fields et)" for n j
    unfolding ix own by blast
  have "index_ok m et" unfolding index_ok_def load ps by (simp add: ix cache_ok_store_pairs)
  then show ?thesis using dis cnt by (simp add: type_ok_def all_fields_def)
qed

lemma create_type_step:
  assumes ok: "event_types_ok m" and new: "cache_load (em_types m) (new_type_id obj) = None" "\<not> chain_ends (new_type_id obj)"
    and par: "\<And>p. given_parent obj = Some p \<Longrightarrow> cache_load (em_types m) p \<noteq> None" and names: "distinct (map f1_Name (et1_Fields obj))"
  shows "\<exists>m' r. create_type dec e db now seed m obj = Some (m', r) \<and> event_types_ok m'"
proof (cases "new_event_type now seed obj")
  case (Inr et)
  have tree: "tree_ok m" using ok by (simp add: event_types_ok_def)
  define p where "p = (case given_parent obj of None \<Rightarrow> BaseEventTypeId | Some p \<Rightarrow> p)"
  have "cache_load (em_types m) p \<noteq> None" using par ok by (cases "given_parent obj") (auto simp: p_def event_types_ok_def)
  then obtain pt where pt: "cache_load (em_types m) p = Some pt" by blast
  have et: "et_ParentId et = Some p" "et_Parents et = []" "et_Fields et = []" "et_FieldByName et = []" "et_RequiredCnt et = 0" "om_ID et = new_type_id obj"
    using Inr by (auto simp: new_event_type_def p_def split: option.splits)
  let ?et = "et\<lparr>et_Parents := et_Parents pt @ [p]\<rparr>"
  have gen: "generateInheritanceChain m et = Some (Inr ?et)" using chain_loop_exact [OF tree pt, of "[]"] et by (simp add: generateInheritanceChain_def)
  have id: "new_type_id obj \<noteq> []" by (auto simp: new_type_id_def GetTenant_def)
  show ?thesis
  proof (cases "create_fields dec m (et1_Fields obj) ?et")
    case (Inl err)
    then show ?thesis using ok by (simp add: create_type_def Inr gen)
  next
    case cf: (Inr et2)
    from create_fields_eq [OF cf] et obtain rfs where rfs: "map fd_Name rfs = map f1_Name (et1_Fields obj)"
      "\<forall>f\<in>set rfs. \<forall>i\<in>set (et_Parents pt @ [p]). fd_Name f \<notin> fd_Name ` set (type_fields m i)"
      and et2: "et2 = ?et\<lparr>et_Fields := rfs, et_FieldByName := foldl (\<lambda>ix (n, i). cache_store n i ix) [] (owned rfs (new_type_id obj)), et_RequiredCnt := required_cnt rfs\<rparr>"
      by (auto simp del: set_append)
    have ips: "et_Parents et2 \<noteq> []" by (simp add: et2)
    obtain m1 res where s: "saveEventType e m (index_parents m et2) = (m1, res)" by fastforce
    show ?thesis
    proof (cases "\<exists>saved. res = Inr saved \<and> db = None")
      case False
      then have "\<exists>r. create_type dec e db now seed m obj = Some (m1, r)" by (cases res; cases db) (auto simp: create_type_def Inr gen cf s)
      then show ?thesis using event_types_ok_cong [OF save_type(1) [OF s]] ok by auto
    next
      case True
      then obtain saved where saved: "res = Inr saved" "db = None" by blast
      from save_type(2) [OF s saved(1)] obtain v where v: "saved = (index_parents m et2)\<lparr>om_Version := v\<rparr>" by blast
      let ?m = "m1\<lparr>em_tables := cache_store (om_ID saved) (getTableDefinition m1 saved) (em_tables m1), em_types := cache_store (om_ID saved) saved (em_types m1)\<rparr>"
      have create: "create_type dec e db now seed m obj = Some (?m, Inr (foldEventType saved))" by (simp add: create_type_def Inr gen cf s saved)
      have f: "om_ID saved = new_type_id obj" "et_Fields saved = rfs" "et_Parents saved = et_Parents pt @ [p]" "et_ParentId saved = Some p"
        by (simp_all add: v index_parents_eq [OF ips]) (simp_all add: et2 et)
      have "type_ok m saved"
        by (rule built_type_ok [OF ok pt]) (use f new rfs names in \<open>simp_all add: v index_parents_eq [OF ips]\<close>, simp_all add: et2 et)
      moreover have "chain_ok m saved" using new(2) fundamental_ends pt by (auto simp: chain_ok_def f)
      ultimately have "event_types_ok ?m"
        by (intro event_types_ok_add [OF ok new(1) f(1) id]) (simp_all add: f(1) save_type(1) [OF s])
      then show ?thesis using create by blast
    qed
  qed
qed (use ok in \<open>simp add: create_type_def\<close>)

subsection \<open>Deletion\<close>

lemma childless_not_above:
  assumes tree: "tree_ok m" and "\<not> hasChildEventType m i" and t: "cache_load (em_types m) k = Some t"
  shows "i \<notin> set (et_Parents t)"
proof
  assume "i \<in> set (et_Parents t)"
  then have "k \<in> ev_types.descendants m i" using t descendants_parents [OF tree] by blast
  from iffD1 [OF ev_types.descendants_iff this] obtain d where "ev_parent m d = Some i" by blast
  then obtain td where "cache_load (em_types m) d = Some td" "et_ParentId td = Some i" by (auto simp: ev_parent_def bind_eq_Some_conv)
  then have "hasChildEventType m i" unfolding hasChildEventType_def list_ex_iff cache_values_set using cache_load_in_set by force
  with assms(2) show False by simp
qed

lemma delete_type_step:
  assumes ok: "event_types_ok m" and d: "event_DeleteEventType e m i v = (m', job, r)"
  shows "event_types_ok m'"
proof (cases "em_types m' = em_types m")
  case False
  with d obtain et where et: "cache_load (em_types m) i = Some et" "\<not> fundamental i" "\<not> hasChildEventType m (om_ID et)" "em_types m' = cache_delete (om_ID et) (em_types m)"
    by (auto simp: event_DeleteEventType_def split: if_splits option.splits prod.splits sum.splits)
  have tree: "tree_ok m" and id: "om_ID et = i" using ok et(1) type_okD by (auto simp: event_types_ok_def)
  have l: "cache_load (em_types m') k = (if k = i then None else cache_load (em_types m) k)" for k by (simp add: et(4) id)
  have above: "i \<notin> set (et_Parents t)" if "cache_load (em_types m) k = Some t" for k t
    using childless_not_above [OF tree _ that] et(3) id by simp
  have tf: "j \<noteq> i \<Longrightarrow> type_fields m' j = type_fields m j" for j by (simp add: type_fields_def l)
  have all: "om_ID t = k \<and> k \<noteq> [] \<and> chain_ok m' t \<and> type_ok m' t" if t: "cache_load (em_types m') k = Some t" for k t
  proof -
    have k: "cache_load (em_types m) k = Some t" "k \<noteq> i" using t by (auto simp: l split: if_splits)
    note old = type_okD [OF ok k(1)]
    have same: "j \<in> set (et_Parents t) \<Longrightarrow> type_fields m' j = type_fields m j" for j using tf above [OF k(1)] by metis
    then have "map (type_fields m') (et_Parents t) = map (type_fields m) (et_Parents t)" by simp
    then have "all_fields m' t = all_fields m t" "index_ok m' t = index_ok m t" using same by (simp_all only: all_fields_def) (auto simp: index_ok_def)
    moreover have "chain_ok m' t"
    proof (cases "fundamental (om_ID t)")
      case False
      with old obtain p pt where "et_ParentId t = Some p" "cache_load (em_types m) p = Some pt" "et_Parents t = et_Parents pt @ [p]" "\<not> chain_ends (om_ID t)"
        by (auto simp: chain_ok_def)
      moreover from this above [OF k(1)] have "cache_load (em_types m') p = Some pt" by (auto simp: l)
      ultimately show ?thesis using False by (auto simp: chain_ok_def)
    qed (use old in \<open>simp add: chain_ok_def\<close>)
    ultimately show ?thesis using old by (simp add: type_ok_def)
  qed
  moreover have "cache_ok (em_types m')" using tree by (simp add: et(4) tree_ok_def)
  moreover have "cache_load (em_types m') BaseEventTypeId \<noteq> None" "cache_load (em_types m') StandardEventTypeId \<noteq> None"
    using ok et(2) by (auto simp: l fundamental_def event_types_ok_def)
  ultimately show ?thesis unfolding event_types_ok_def tree_ok_def by blast
qed (use ok event_types_ok_cong in blast)

end
