(* ===== verification/Event_Update.thy ===== *)
theory Event_Update
  imports Event_Steps
begin

text \<open>
  The update of an event type keeps the invariant: no field is dropped, the new fields clash with none above or below, and all types below the updated one are indexed again.
\<close>

subsection \<open>Congruence\<close>

definition link :: "EventType \<Rightarrow> string \<times> string option \<times> string list \<times> Field list" where
  "link et = (om_ID et, et_ParentId et, et_Parents et, if fundamental (om_ID et) then et_Fields et else [])"

definition links :: "event_types \<Rightarrow> string \<Rightarrow> (string \<times> string option \<times> string list \<times> Field list) option" where
  "links m k = map_option link (cache_load (em_types m) k)"

lemma links_load: "links m' = links m \<Longrightarrow> cache_load (em_types m') k = Some et' \<Longrightarrow>
    \<exists>et. cache_load (em_types m) k = Some et \<and> link et = link et'"
proof -
  assume eq: "links m' = links m" and et': "cache_load (em_types m') k = Some et'"
  have "links m k = Some (link et')" unfolding eq [symmetric] by (simp add: links_def et')
  then show ?thesis by (auto simp: links_def)
qed

lemma tree_ok_links:
  assumes tree: "tree_ok m" and eq: "links m' = links m" and ok: "cache_ok (em_types m')"
  shows "tree_ok m'"
proof -
  have "om_ID et' = k \<and> k \<noteq> [] \<and> chain_ok m' et'" if k: "cache_load (em_types m') k = Some et'" for k et'
  proof -
    from links_load [OF eq k] obtain et where et: "cache_load (em_types m) k = Some et" "link et = link et'" by blast
    with tree have old: "om_ID et = k" "k \<noteq> []" "chain_ok m et" by (auto simp: tree_ok_def)
    have "chain_ok m' et'"
    proof (cases "fundamental k")
      case False
      with old obtain p pt where p: "et_ParentId et = Some p" "cache_load (em_types m) p = Some pt" "et_Parents et = et_Parents pt @ [p]" "\<not> chain_ends k"
        by (auto simp: chain_ok_def)
      from links_load [OF eq [symmetric] p(2)] obtain pt' where pt': "cache_load (em_types m') p = Some pt'" "link pt' = link pt" by blast
      have "om_ID et' = k" "et_ParentId et' = Some p" "et_Parents et' = et_Parents pt' @ [p]" using et(2) pt'(2) p old by (simp_all add: link_def)
      with False p(4) pt'(1) show ?thesis by (simp add: chain_ok_def)
    next
      case True
      have "om_ID et' = k" using et(2) old by (simp add: link_def)
      with True et(2) old show ?thesis by (simp add: chain_ok_def link_def)
    qed
    then show ?thesis using et(2) old(1,2) by (simp add: link_def)
  qed
  with ok show ?thesis by (auto simp: tree_ok_def)
qed

lemma type_fields_cong:
  assumes "\<And>j. j \<in> set (et_Parents et) \<Longrightarrow> type_fields m' j = type_fields m j"
  shows "all_fields m' et = all_fields m et" "type_ok m' et = type_ok m et"
proof -
  have "map (type_fields m') (et_Parents et) = map (type_fields m) (et_Parents et)" using assms by simp
  then show "all_fields m' et = all_fields m et" by (simp only: all_fields_def)
  moreover have "index_ok m' et = index_ok m et" using assms by (auto simp: index_ok_def)
  ultimately show "type_ok m' et = type_ok m et" by (simp add: type_ok_def)
qed

lemma distinct_parents: "tree_ok m \<Longrightarrow> cache_load (em_types m) k = Some et \<Longrightarrow> distinct (et_Parents et)"
proof (induction "length (et_Parents et)" arbitrary: k et rule: less_induct)
  case less
  then have id: "om_ID et = k" "chain_ok m et" by (auto simp: tree_ok_def)
  show ?case
  proof (cases "fundamental k")
    case False
    with id obtain p pt where p: "cache_load (em_types m) p = Some pt" "et_Parents et = et_Parents pt @ [p]" by (auto simp: chain_ok_def)
    moreover have "p \<notin> set (et_Parents pt)" using self_not_above [OF less.prems(1) p(1)] less.prems(1) p(1) by (simp add: tree_ok_def)
    ultimately show ?thesis using less.hyps [OF _ less.prems(1) p(1)] by simp
  qed (use id in \<open>simp add: chain_ok_def\<close>)
qed

text \<open>A type above another that is below \<open>u\<close> is \<open>u\<close>, above it or below it.\<close>

lemma chain_split:
  assumes tree: "tree_ok m" and c: "cache_load (em_types m) c = Some et" and u: "u \<in> set (et_Parents et)" "cache_load (em_types m) u = Some ut"
    and j: "j \<in> set (et_Parents et)" "j \<noteq> u" "j \<notin> set (et_Parents ut)"
  obtains jt where "cache_load (em_types m) j = Some jt" "u \<in> set (et_Parents jt)"
proof -
  from parents_cached [OF tree c u(1)] u(2) obtain xs where xs: "et_Parents et = et_Parents ut @ u # xs" by auto
  from parents_cached [OF tree c j(1)] obtain jt ys where ys: "cache_load (em_types m) j = Some jt" "et_Parents et = et_Parents jt @ j # ys" by blast
  have "u \<in> set (et_Parents jt)"
  proof (rule ccontr)
    assume u: "u \<notin> set (et_Parents jt)"
    from xs ys(2) have "et_Parents ut @ u # xs = et_Parents jt @ j # ys" by simp
    then obtain zs where "et_Parents ut = et_Parents jt @ zs \<and> zs @ u # xs = j # ys \<or> et_Parents ut @ zs = et_Parents jt \<and> u # xs = zs @ j # ys"
      unfolding append_eq_append_conv2 by blast
    then show False
    proof
      assume "et_Parents ut = et_Parents jt @ zs \<and> zs @ u # xs = j # ys"
      with j(2,3) show False by (cases zs) auto
    next
      assume z: "et_Parents ut @ zs = et_Parents jt \<and> u # xs = zs @ j # ys"
      with j(2) have "u \<in> set zs" by (cases zs) auto
      moreover from z have "set zs \<subseteq> set (et_Parents jt)" by (metis set_append Un_upper2)
      ultimately show False using u by blast
    qed
  qed
  with ys(1) that show ?thesis by blast
qed

subsection \<open>The fields of the request\<close>

lemma required_update_first:
  "find P xs = Some x \<Longrightarrow> int (length (filter R (update_first P f xs))) = int (length (filter R xs)) - (if R x then 1 else 0) + (if R (f x) then 1 else 0)"
  by (induction xs) (auto split: if_splits)

lemma required_update_last:
  "by_name fd_Name fs n = Some x \<Longrightarrow> required_cnt (update_last fd_Name n f fs) = required_cnt fs - (if fd_Required x then 1 else 0) + (if fd_Required (f x) then 1 else 0)"
  using required_update_first [of "\<lambda>x. fd_Name x = n" "rev fs" x fd_Required f]
  by (simp add: required_cnt_def update_last_def by_name_def rev_filter [symmetric])

lemma update_last_field_names: "map fd_Name (update_last fd_Name n (\<lambda>f. f\<lparr>fd_Required := r, fd_Updatable := u, fd_Values := v\<rparr>) fs) = map fd_Name fs"
  by (rule map_update_last) simp

lemma upsert_field_names: "fd_Name ` set (upsert_field nf fs) = insert (fd_Name nf) (fd_Name ` set fs)"
proof -
  have "fd_Name ` set (update_last fd_Name n (\<lambda>f. f\<lparr>fd_Required := r, fd_Updatable := u, fd_Values := v\<rparr>) fs) = fd_Name ` set fs" for n r u v
    by (metis list.set_map update_last_field_names)
  then show ?thesis by (auto simp: upsert_field_def by_name_None_iff)
qed

lemma upsert_fields_names:
  "upsert_fields dec m ps cets new fs = Inr fs' \<Longrightarrow>
     fd_Name ` set fs' = fd_Name ` set fs \<union> f1_Name ` set new \<and> (\<forall>f\<in>set new. \<forall>i\<in>set ps \<union> set cets. f1_Name f \<notin> fd_Name ` set (type_fields m i))"
proof (induction new arbitrary: fs)
  case (Cons f new)
  from Cons.prems obtain nf where nf: "isFieldExists m ps (f1_Name f) = None" "isFieldExists m cets (f1_Name f) = None" "parseFieldValues dec f = Some nf"
    "upsert_fields dec m ps cets new (upsert_field nf fs) = Inr fs'" by (auto split: option.splits)
  from Cons.IH [OF nf(4)] nf(1,2) parseFieldValues_name [OF nf(3)] show ?case by (auto simp: upsert_field_names isFieldExists_None)
qed simp

subsection \<open>The updated type\<close>

definition grown :: "EventType \<Rightarrow> string list \<Rightarrow> EventType \<Rightarrow> bool" where
  "grown et ins et' \<longleftrightarrow> om_ID et' = om_ID et \<and> et_ParentId et' = et_ParentId et \<and> et_Parents et' = et_Parents et \<and> map fd_Name (et_Fields et') = map fd_Name (et_Fields et) @ ins \<and>
     et_FieldByName et' = foldl (\<lambda>ix n. cache_store n (om_ID et) ix) (et_FieldByName et) ins \<and>
     et_RequiredCnt et' - required_cnt (et_Fields et') = et_RequiredCnt et - required_cnt (et_Fields et)"

lemma grown_trans: "grown et a et' \<Longrightarrow> grown et' b et'' \<Longrightarrow> grown et (a @ b) et''"
  by (simp add: grown_def)

lemma grown_update: "grown et [] (update_field saved et n)"
proof (cases "by_name fd_Name (et_Fields et) n = None \<or> by_name fd_Name (et_Fields saved) n = None")
  case False
  then obtain f nf where f: "by_name fd_Name (et_Fields et) n = Some f" "by_name fd_Name (et_Fields saved) n = Some nf" by auto
  let ?fs = "update_last fd_Name n (\<lambda>f. f\<lparr>fd_Required := fd_Required nf, fd_Updatable := fd_Updatable nf, fd_Values := fd_Values nf\<rparr>) (et_Fields et)"
  have "map fd_Name ?fs = map fd_Name (et_Fields et)" by (rule update_last_field_names)
  moreover have "required_cnt ?fs = required_cnt (et_Fields et) + (if fd_Required f \<and> \<not> fd_Required nf then - 1 else if \<not> fd_Required f \<and> fd_Required nf then 1 else 0)"
    by (simp add: required_update_last [OF f(1)])
  ultimately show ?thesis unfolding grown_def update_field_def f by (simp only: prod.case option.case) simp
qed (auto simp: grown_def update_field_def split: option.splits)

lemma grown_updates: "grown et [] (foldl (update_field saved) et upd)"
proof (induction upd arbitrary: et)
  case (Cons n upd)
  from grown_trans [OF grown_update Cons.IH] show ?case by simp
qed (simp add: grown_def)

lemma grown_insert: "n \<in> fd_Name ` set (et_Fields saved) \<Longrightarrow> grown et [n] (insert_field saved et n)"
proof -
  assume "n \<in> fd_Name ` set (et_Fields saved)"
  then obtain f where f: "by_name fd_Name (et_Fields saved) n = Some f" using by_name_None_iff by fastforce
  with by_name_Some [OF f] show ?thesis by (simp add: grown_def insert_field_def required_cnt_Cons)
qed

lemma grown_inserts: "set ins \<subseteq> fd_Name ` set (et_Fields saved) \<Longrightarrow> grown et ins (foldl (insert_field saved) et ins)"
proof (induction ins arbitrary: et)
  case (Cons n ins)
  then have "grown et [n] (insert_field saved et n)" "grown (insert_field saved et n) ins (foldl (insert_field saved) (insert_field saved et n) ins)"
    by (auto intro: grown_insert)
  from grown_trans [OF this] show ?case by simp
qed (simp add: grown_def)

lemma take_over_grown:
  assumes "set ins \<subseteq> fd_Name ` set (et_Fields saved)"
  shows "grown et ins (take_over_type saved [] upd ins et)"
proof -
  let ?et = "et\<lparr>et_TTL := et_TTL saved, om_Version := om_Version saved, om_ModTime := om_ModTime saved\<rparr>"
  have "deleteEventTypeFields ?et [] = ?et" by (simp add: deleteEventTypeFields_def)
  then have t: "take_over_type saved [] upd ins et = foldl (insert_field saved) (foldl (update_field saved) ?et upd) ins" by (simp add: take_over_type_def)
  have "grown et [] ?et" by (simp add: grown_def)
  from grown_trans [OF grown_trans [OF this grown_updates] grown_inserts [OF assms]] show ?thesis by (simp add: t)
qed

subsection \<open>New names below\<close>

lemma load_store_names: "cache_load (foldl (\<lambda>ix n. cache_store n u ix) ix ins) n = (if n \<in> set ins then Some u else cache_load ix n)"
  by (induction ins arbitrary: ix) auto

lemma cache_ok_store_names: "cache_ok ix \<Longrightarrow> cache_ok (foldl (\<lambda>ix n. cache_store n u ix) ix ins)"
  by (induction ins arbitrary: ix) auto

lemma distinct_grow: "distinct (a @ u @ b) \<Longrightarrow> distinct i \<Longrightarrow> set i \<inter> set (a @ u @ b) = {} \<Longrightarrow> distinct (a @ (u @ i) @ b)"
  by auto

text \<open>\<open>u\<close> got the fields \<open>ins\<close>, which are new on the chain of a type; the type is \<open>u\<close> or one below it.\<close>

lemma index_ok_grow:
  assumes ix: "index_ok m et" and new: "set ins \<inter> fd_Name ` set (all_fields m et) = {}"
    and up: "\<And>j. j \<in> set (et_Parents et) \<Longrightarrow> fd_Name ` set (type_fields m' j) = fd_Name ` set (type_fields m j) \<union> (if j = u then set ins else {})"
    and own: "fd_Name ` set (et_Fields et') = fd_Name ` set (et_Fields et) \<union> (if om_ID et = u then set ins else {})"
    and u: "u \<in> set (et_Parents et) \<or> om_ID et = u"
    and et': "om_ID et' = om_ID et" "et_Parents et' = et_Parents et" "et_FieldByName et' = foldl (\<lambda>ix n. cache_store n u ix) (et_FieldByName et) ins"
  shows "index_ok m' et'"
proof -
  have old: "cache_load (et_FieldByName et) n = Some j \<longleftrightarrow> j \<in> set (et_Parents et) \<and> n \<in> fd_Name ` set (type_fields m j) \<or> j = om_ID et \<and> n \<in> fd_Name ` set (et_Fields et)" for n j
    using ix by (simp add: index_ok_def)
  have fresh: "n \<notin> fd_Name ` set (et_Fields et)" "j \<in> set (et_Parents et) \<Longrightarrow> n \<notin> fd_Name ` set (type_fields m j)" if "n \<in> set ins" for n j
    using new that by (auto simp: all_fields_def)
  have up': "n \<in> fd_Name ` set (type_fields m' j) \<longleftrightarrow> n \<in> fd_Name ` set (type_fields m j) \<or> j = u \<and> n \<in> set ins" if "j \<in> set (et_Parents et)" for n j
    unfolding up [OF that] by (cases "j = u") simp_all
  have "cache_load (et_FieldByName et') n = Some j \<longleftrightarrow>
      j \<in> set (et_Parents et) \<and> n \<in> fd_Name ` set (type_fields m' j) \<or> j = om_ID et \<and> n \<in> fd_Name ` set (et_Fields et')" for n j
  proof (cases "n \<in> set ins")
    case True
    have "j \<in> set (et_Parents et) \<and> n \<in> fd_Name ` set (type_fields m' j) \<longleftrightarrow> j \<in> set (et_Parents et) \<and> j = u" using up' fresh(2) [OF True] True by blast
    moreover have "n \<in> fd_Name ` set (et_Fields et') \<longleftrightarrow> om_ID et = u" unfolding own using fresh(1) True by auto
    ultimately show ?thesis using u True by (auto simp: et' load_store_names)
  next
    case False
    have "j \<in> set (et_Parents et) \<and> n \<in> fd_Name ` set (type_fields m' j) \<longleftrightarrow> j \<in> set (et_Parents et) \<and> n \<in> fd_Name ` set (type_fields m j)" using up' False by blast
    moreover have "n \<in> fd_Name ` set (et_Fields et') \<longleftrightarrow> n \<in> fd_Name ` set (et_Fields et)" unfolding own using False by auto
    ultimately show ?thesis using old False by (simp add: et' load_store_names)
  qed
  moreover have "cache_ok (et_FieldByName et')" using ix by (simp add: et' cache_ok_store_names index_ok_def)
  ultimately show ?thesis by (simp add: index_ok_def et')
qed

subsection \<open>Indexing again\<close>

definition reindexed :: "event_types \<Rightarrow> string \<Rightarrow> string list \<Rightarrow> EventType \<Rightarrow> EventType" where
  "reindexed m u ins et =
     (let et = et\<lparr>et_FieldByName := foldl (\<lambda>ix n. cache_store n u ix) (et_FieldByName et) ins\<rparr> in et\<lparr>et_RequiredCnt := required_cnt (index_fields m et) - 2\<rparr>)"

lemma reindex_child_types:
  "cache_load (em_types m) i = Some et \<Longrightarrow> em_types (reindex_child u ins [] m i) = cache_store i (reindexed m u ins et) (em_types m)"
proof -
  have "type_fields (store_Set m et) = type_fields m" for et by (simp add: fun_eq_iff type_fields_def store_Set_def)
  then have "index_fields (store_Set m et) et' = index_fields m et'" for et et' by (simp add: index_fields_def index_field_def cong: if_cong)
  moreover have "em_types (store_Set m et) = em_types m" for et by (simp add: store_Set_def)
  ultimately show "cache_load (em_types m) i = Some et \<Longrightarrow> ?thesis" by (simp add: reindex_child_def reindexed_def Let_def)
qed

lemma reindexed_ok:
  assumes et: "distinct (map fd_Name (all_fields m et))" "om_ID et \<notin> set (et_Parents et)"
    and ix: "index_ok m (et\<lparr>et_FieldByName := foldl (\<lambda>ix n. cache_store n u ix) (et_FieldByName et) ins\<rparr>)"
  shows "type_ok m (reindexed m u ins et)"
proof -
  let ?et = "et\<lparr>et_FieldByName := foldl (\<lambda>ix n. cache_store n u ix) (et_FieldByName et) ins\<rparr>"
  have "all_fields m ?et = all_fields m et" "all_fields m (reindexed m u ins et) = all_fields m et" by (simp_all add: all_fields_def reindexed_def Let_def)
  moreover from this index_required(2) [OF ix] et have "required_cnt (index_fields m ?et) = required_cnt (all_fields m et)" by simp
  moreover have "index_ok m (reindexed m u ins et)" using ix by (simp add: index_ok_def reindexed_def Let_def)
  ultimately show ?thesis using et by (simp add: type_ok_def) (simp add: reindexed_def Let_def)
qed

text \<open>What a type is while the types below \<open>u\<close> are indexed one after the other.\<close>

definition pending :: "string \<Rightarrow> string list \<Rightarrow> event_types \<Rightarrow> EventType \<Rightarrow> bool" where
  "pending u ins m et \<longleftrightarrow> distinct (map fd_Name (all_fields m et)) \<and>
     index_ok m (et\<lparr>et_FieldByName := foldl (\<lambda>ix n. cache_store n u ix) (et_FieldByName et) ins\<rparr>)"

definition reindex_inv :: "string \<Rightarrow> string list \<Rightarrow> string set \<Rightarrow> string list \<Rightarrow> event_types \<Rightarrow> bool" where
  "reindex_inv u ins below cets m \<longleftrightarrow> tree_ok m \<and>
     (\<forall>k et. cache_load (em_types m) k = Some et \<longrightarrow> (k \<in> below \<longrightarrow> pending u ins m et) \<and> (k \<notin> set cets \<longrightarrow> type_ok m et))"

lemma reindexed_same: "link (reindexed m u ins et) = link et" "et_Fields (reindexed m u ins et) = et_Fields et"
  by (simp_all add: reindexed_def link_def Let_def)

lemma pending_reindexed: "pending u ins m et \<Longrightarrow> pending u ins m (reindexed m' u ins et)"
proof -
  assume p: "pending u ins m et"
  have "all_fields m (reindexed m' u ins et) = all_fields m et" by (simp add: all_fields_def reindexed_def Let_def)
  moreover have "cache_load (foldl (\<lambda>ix n. cache_store n u ix) (foldl (\<lambda>ix n. cache_store n u ix) ix ins) ins) n = cache_load (foldl (\<lambda>ix n. cache_store n u ix) ix ins) n" for ix n
    by (simp add: load_store_names)
  ultimately show ?thesis using p by (simp add: pending_def index_ok_def cache_ok_store_names) (simp add: reindexed_def Let_def cache_ok_store_names)
qed

lemma reindex_step:
  assumes inv: "reindex_inv u ins below (i # cets) m" and i: "i \<in> below" "cache_load (em_types m) i \<noteq> None"
  shows "reindex_inv u ins below cets (reindex_child u ins [] m i)" "dom (cache_load (em_types (reindex_child u ins [] m i))) = dom (cache_load (em_types m))"
proof -
  let ?m = "reindex_child u ins [] m i"
  from i obtain et where et: "cache_load (em_types m) i = Some et" by blast
  note types = reindex_child_types [OF et, of u ins]
  have tree: "tree_ok m" using inv by (simp add: reindex_inv_def)
  have tf: "type_fields ?m = type_fields m" by (simp add: fun_eq_iff type_fields_def types et reindexed_same)
  have cong: "pending u ins ?m t = pending u ins m t" "type_ok ?m t = type_ok m t" for t
    by (simp_all add: pending_def type_ok_def index_ok_def all_fields_def tf)
  have "links ?m = links m" by (simp add: fun_eq_iff links_def types et reindexed_same)
  from tree_ok_links [OF tree this] have "tree_ok ?m" using tree by (simp add: types tree_ok_def)
  moreover have p: "pending u ins m et" using inv i et by (simp add: reindex_inv_def)
  moreover have "type_ok m (reindexed m u ins et)"
    by (rule reindexed_ok) (use p self_not_above [OF tree et] in \<open>simp_all add: pending_def\<close>)
  ultimately show "reindex_inv u ins below cets ?m" using inv unfolding reindex_inv_def cong types by (auto simp: pending_reindexed)
  show "dom (cache_load (em_types ?m)) = dom (cache_load (em_types m))" unfolding types using et by (auto simp: dom_def)
qed

lemma reindex_all:
  "reindex_inv u ins below cets m \<Longrightarrow> set cets \<subseteq> below \<Longrightarrow> set cets \<subseteq> dom (cache_load (em_types m)) \<Longrightarrow>
     reindex_inv u ins below [] (reindexChildEventType u ins [] m cets) \<and>
     dom (cache_load (em_types (reindexChildEventType u ins [] m cets))) = dom (cache_load (em_types m))"
proof (induction cets arbitrary: m)
  case (Cons i cets)
  let ?m = "reindex_child u ins [] m i"
  have "reindex_inv u ins below cets ?m" "dom (cache_load (em_types ?m)) = dom (cache_load (em_types m))"
    using reindex_step [of u ins below i cets m] Cons.prems by auto
  with Cons.IH [of ?m] Cons.prems show ?case by (simp add: reindexChildEventType_def)
qed (simp add: reindexChildEventType_def)

lemma reindex_inv_done:
  "reindex_inv u ins below [] m \<Longrightarrow> BaseEventTypeId \<in> dom (cache_load (em_types m)) \<Longrightarrow> StandardEventTypeId \<in> dom (cache_load (em_types m)) \<Longrightarrow> event_types_ok m"
  by (auto simp: reindex_inv_def event_types_ok_def)

subsection \<open>The step\<close>

text \<open>The names of a chain when one of its types, \<open>u\<close>, gets new fields at its end.\<close>

lemma chain_names_grow:
  assumes tf: "\<And>j. map fd_Name (type_fields m' j) = map fd_Name (type_fields m j) @ (if j = u then ins else [])" and ps: "distinct ps" "u \<in> set ps"
  shows "\<exists>a b. map fd_Name (concat (map (type_fields m) ps)) = a @ map fd_Name (type_fields m u) @ b \<and>
    map fd_Name (concat (map (type_fields m') ps)) = a @ (map fd_Name (type_fields m u) @ ins) @ b"
proof -
  from ps(2) obtain xs ys where xs: "ps = xs @ u # ys" by (auto dest: split_list)
  have same: "map fd_Name (concat (map (type_fields m') zs)) = map fd_Name (concat (map (type_fields m) zs))" if "u \<notin> set zs" for zs
    using that by (induction zs) (auto simp: tf)
  have "u \<notin> set xs" "u \<notin> set ys" using ps(1) by (auto simp: xs)
  then show ?thesis using same tf [of u]
    by (intro exI [of _ "map fd_Name (concat (map (type_fields m) xs))"] exI [of _ "map fd_Name (concat (map (type_fields m) ys))"]) (simp add: xs)
qed

lemma grown_types:
  assumes ok: "event_types_ok m" and et: "cache_load (em_types m) u = Some et" "\<not> fundamental u" "grown et ins T"
    and ins: "distinct ins" "set ins \<inter> fd_Name ` set (et_Fields et) = {}" "\<And>i. i \<in> set (et_Parents et) \<union> below \<Longrightarrow> set ins \<inter> fd_Name ` set (type_fields m i) = {}"
    and below: "below = {c. \<exists>t. cache_load (em_types m) c = Some t \<and> u \<in> set (et_Parents t)}" and m': "em_types m' = cache_store u T (em_types m)" and cets: "set cets = below"
  shows "reindex_inv u ins below cets m'"
proof -
  have tree: "tree_ok m" and id: "om_ID et = u" using ok et(1) type_okD by (auto simp: event_types_ok_def)
  have self: "u \<notin> set (et_Parents et)" using self_not_above [OF tree et(1)] id by simp
  note g = et(3) [unfolded grown_def]
  have "link T = link et" using g et(2) id by (simp add: link_def)
  then have "links m' = links m" by (simp add: fun_eq_iff links_def m' et(1))
  from tree_ok_links [OF tree this] have tree': "tree_ok m'" using tree by (simp add: m' tree_ok_def)
  have tf: "map fd_Name (type_fields m' j) = map fd_Name (type_fields m j) @ (if j = u then ins else [])" for j
    using g by (simp add: type_fields_def m' et(1))
  have tf_same: "j \<noteq> u \<Longrightarrow> type_fields m' j = type_fields m j" for j by (simp add: type_fields_def m')
  have tf_set: "fd_Name ` set (type_fields m' j) = fd_Name ` set (type_fields m j) \<union> (if j = u then set ins else {})" for j
    using arg_cong [OF tf [of j], of set] by (simp split: if_splits)
  have T: "type_ok m' T"
  proof -
    have old: "type_ok m et" using type_okD [OF ok et(1)] by simp
    have up: "concat (map (type_fields m') (et_Parents et)) = concat (map (type_fields m) (et_Parents et))"
      using self tf_same by (metis map_cong)
    have new: "set ins \<inter> fd_Name ` set (all_fields m et) = {}" using ins(2,3) by (fastforce simp: all_fields_def)
    have "fd_Name ` set (et_Fields T) = fd_Name ` set (et_Fields et) \<union> set ins" using g by (metis list.set_map set_append)
    then have own: "fd_Name ` set (et_Fields T) = fd_Name ` set (et_Fields et) \<union> (if om_ID et = u then set ins else {})" using id by simp
    have "index_ok m' T"
    proof (rule index_ok_grow [OF _ new tf_set own])
      show "index_ok m et" using old by (simp add: type_ok_def)
    qed (use g id in simp_all)
    moreover have "map fd_Name (all_fields m' T) = map fd_Name (concat (map (type_fields m) (et_Parents et))) @ (map fd_Name (et_Fields et) @ ins) @ []"
      using g up by (simp add: all_fields_def)
    moreover have "distinct \<dots>"
      by (rule distinct_grow) (use old ins(1) new in \<open>auto simp: type_ok_def all_fields_def\<close>)
    moreover have "et_RequiredCnt T = required_cnt (all_fields m' T) - 2"
      using old g up et(2) id by (simp add: type_ok_def all_fields_def)
    ultimately show ?thesis by (simp only: type_ok_def simp_thms)
  qed
  have pend: "pending u ins m' t" if k: "cache_load (em_types m) k = Some t" "u \<in> set (et_Parents t)" for k t
  proof -
    have old: "type_ok m t" "om_ID t = k" using type_okD [OF ok k(1)] by auto
    have k_u: "k \<noteq> u" using k et(1) self by auto
    have "set ins \<inter> fd_Name ` set (type_fields m j) = {}" if j: "j \<in> set (et_Parents t)" for j
    proof (cases "j = u \<or> j \<in> set (et_Parents et)")
      case False
      with chain_split [OF tree k(1,2) et(1) j] have "j \<in> below" unfolding below by blast
      then show ?thesis using ins(3) by blast
    next
      case True
      moreover have "type_fields m u = et_Fields et" by (simp add: type_fields_def et(1))
      ultimately show ?thesis using ins(2,3) by (elim disjE) simp_all
    qed
    moreover have "set ins \<inter> fd_Name ` set (et_Fields t) = {}" using ins(3) [of k] k unfolding below by (simp add: type_fields_def)
    ultimately have new: "set ins \<inter> fd_Name ` set (all_fields m t) = {}" by (fastforce simp: all_fields_def)
    have "index_ok m' (t\<lparr>et_FieldByName := foldl (\<lambda>ix n. cache_store n u ix) (et_FieldByName t) ins\<rparr>)"
      by (rule index_ok_grow [OF _ new, of m' u]) (use old k(2) k_u tf_set in \<open>auto simp: type_ok_def\<close>)
    moreover from chain_names_grow [OF tf distinct_parents [OF tree k(1)] k(2)] obtain a b where
      ab: "map fd_Name (concat (map (type_fields m) (et_Parents t))) = a @ map fd_Name (type_fields m u) @ b"
        "map fd_Name (concat (map (type_fields m') (et_Parents t))) = a @ (map fd_Name (type_fields m u) @ ins) @ b" by blast
    have names: "map fd_Name (all_fields m t) = a @ map fd_Name (type_fields m u) @ (b @ map fd_Name (et_Fields t))" by (simp add: all_fields_def ab)
    have "distinct (a @ (map fd_Name (type_fields m u) @ ins) @ (b @ map fd_Name (et_Fields t)))"
      by (rule distinct_grow) (use old(1) ins(1) new names in \<open>simp_all only: type_ok_def list.set_map [symmetric]\<close>)
    then have "distinct (map fd_Name (all_fields m' t))" by (simp add: all_fields_def ab)
    ultimately show ?thesis by (simp add: pending_def)
  qed
  have rest: "type_ok m' t" if "cache_load (em_types m) k = Some t" "u \<notin> set (et_Parents t)" for k t
    using type_okD [OF ok that(1)] type_fields_cong(2) [of t m' m] tf_same that(2) by metis
  have "(k \<in> below \<longrightarrow> pending u ins m' t) \<and> (k \<notin> set cets \<longrightarrow> type_ok m' t)" if "cache_load (em_types m') k = Some t" for k t
  proof (cases "k = u")
    case True
    with that have "t = T" by (simp add: m')
    moreover have "u \<notin> below" using self et(1) by (simp add: below)
    ultimately show ?thesis using T True by simp
  next
    case False
    with that have "cache_load (em_types m) k = Some t" by (simp add: m')
    with pend [OF this] rest [OF this] show ?thesis unfolding cets unfolding below by auto
  qed
  with tree' show ?thesis by (simp add: reindex_inv_def)
qed

lemma ValidateFields_distinct: "ValidateFields fds path = [] \<Longrightarrow> distinct (map f1_Name fds)"
  by (simp add: ValidateFields_def distinct_loop_nil_iff)

lemma ValidateEventTypeUpdate_nil:
  assumes "ValidateEventTypeUpdate obj old = []"
  shows "\<not> fundamental (om_ID old)" "fd_Name ` set (et_Fields old) \<subseteq> f1_Name ` set (et1_Fields obj)"
proof -
  show f: "\<not> fundamental (om_ID old)" using assms by (auto simp: ValidateEventTypeUpdate_def)
  have "fieldUpdate_at (et1_Fields obj) ''fields'' f \<noteq> None" if "f \<in> set (et_Fields old)" for f
    using assms f that by (force simp: ValidateEventTypeUpdate_def ValidateFieldsUpdate_def Let_def list_ex_iff split: if_splits)
  moreover have "fd_Name f \<in> f1_Name ` set (et1_Fields obj)" if "fieldUpdate_at (et1_Fields obj) path f \<noteq> None" for f path
  proof -
    from that obtain jn where "find (\<lambda>(j, nf). f1_Name nf = fd_Name f) (enumerate 0 (et1_Fields obj)) = Some jn"
      by (auto simp: fieldUpdate_at_def split: option.splits)
    then have "jn \<in> set (enumerate 0 (et1_Fields obj))" "f1_Name (snd jn) = fd_Name f" unfolding find_Some_iff by (metis nth_mem, auto)
    moreover have "set (map snd (enumerate 0 (et1_Fields obj))) = set (et1_Fields obj)" by simp
    ultimately show ?thesis by (metis image_eqI list.set_map)
  qed
  ultimately show "fd_Name ` set (et_Fields old) \<subseteq> f1_Name ` set (et1_Fields obj)" by blast
qed

lemma update_type_step:
  assumes ok: "event_types_ok m" and old: "cache_load (em_types m) i = Some old" and valid: "ValidateEventType obj = []" "ValidateEventTypeUpdate obj old = []"
  shows "\<exists>m' r. UpdateEventType dec e now m version obj old = Some (m', r) \<and> event_types_ok m'"
proof (cases "version = om_Version old")
  case version: True
  note v = ValidateEventTypeUpdate_nil [OF valid(2)]
  have tree: "tree_ok m" and id: "om_ID old = i" "i \<noteq> []" and tok: "type_ok m old" using ok old type_okD [OF ok old] by (auto simp: event_types_ok_def)
  obtain del upd ins where diff: "DifferenceAndIntersectionObjects (et_Fields old) (et1_Fields obj) fd_Name f1_Name = (del, upd, ins)" by (metis prod_cases3)
  then have "DifferenceAndIntersectionStrings (map fd_Name (et_Fields old)) (map f1_Name (et1_Fields obj)) = (del, upd, ins)"
    by (simp only: DifferenceAndIntersectionObjects_def)
  note d = differences [of "map fd_Name (et_Fields old)" "map f1_Name (et1_Fields obj)", unfolded this fst_conv snd_conv set_map]
  have "set del = {}" unfolding d(1) Diff_eq_empty_iff by (rule v(2))
  then have sets: "del = []" "set ins = f1_Name ` set (et1_Fields obj) - fd_Name ` set (et_Fields old)" "distinct ins" using d(3,6) by simp_all
  from getChildEventTypes_exact [OF tree id(2)] obtain cets where cets: "getChildEventTypes m (om_ID old) = Some cets"
    "set cets = {c. \<exists>et. cache_load (em_types m) c = Some et \<and> i \<in> set (et_Parents et)}" unfolding id by blast
  let ?old = "old\<lparr>om_ModTime := now, et_TTL := (case et1_TTL obj of None \<Rightarrow> et_TTL old | Some d \<Rightarrow> d)\<rparr>"
  have del: "deleteEventTypeFields ?old [] = ?old" by (simp add: deleteEventTypeFields_def)
  note unfold = UpdateEventType_def diff prod.case sets(1) del cets(1) option.case Let_def
  show ?thesis
  proof (cases "upsert_fields dec m (et_Parents old) cets (et1_Fields obj) (et_Fields old)")
    case (Inl err)
    then show ?thesis using ok version unfolding unfold by simp
  next
    case fs: (Inr fs)
    from upsert_fields_names [OF fs] have new: "set ins \<subseteq> fd_Name ` set fs" "set ins \<inter> fd_Name ` set (et_Fields old) = {}"
      "j \<in> set (et_Parents old) \<union> set cets \<Longrightarrow> set ins \<inter> fd_Name ` set (type_fields m j) = {}" for j
      unfolding sets(2) by blast+
    obtain m1 res where s: "saveEventType e m (?old\<lparr>et_Fields := fs\<rparr>) = (m1, res)" by fastforce
    note types = save_type(1) [OF s]
    show ?thesis
    proof (cases res)
      case (Inl err)
      then show ?thesis using ok version fs s event_types_ok_cong [OF types] unfolding unfold by simp
    next
      case saved: (Inr saved)
      from save_type(2) [OF s saved] obtain w where "saved = ?old\<lparr>et_Fields := fs, om_Version := w\<rparr>" by auto
      then have sv: "om_ID saved = i" "et_Fields saved = fs" using id by simp_all
      let ?T = "take_over_type saved [] upd ins old"
      have g: "grown old ins ?T" by (rule take_over_grown) (simp add: sv new(1))
      let ?m = "store_Set (m1\<lparr>em_types := cache_store i ?T (em_types m1)\<rparr>) ?T"
      have m_types: "em_types ?m = cache_store i ?T (em_types m)" by (simp add: store_Set_def types)
      have run: "UpdateEventType dec e now m version obj old = Some (reindexChildEventType i ins [] ?m cets, Inr (foldEventType ?T))"
        using version fs s saved sv old g id unfolding unfold by (simp add: types grown_def)
      have "reindex_inv i ins (set cets) cets ?m"
        by (rule grown_types [OF ok old _ g sets(3) new(2,3) _ m_types]) (use v(1) id cets(2) in auto)
      moreover have dom: "dom (cache_load (em_types ?m)) = insert i (dom (cache_load (em_types m)))" unfolding m_types by (auto simp: dom_def)
      moreover have "set cets \<subseteq> dom (cache_load (em_types m))" unfolding cets(2) by blast
      ultimately have inv: "reindex_inv i ins (set cets) [] (reindexChildEventType i ins [] ?m cets)"
        "dom (cache_load (em_types (reindexChildEventType i ins [] ?m cets))) = insert i (dom (cache_load (em_types m)))"
        using reindex_all [of i ins "set cets" cets ?m] by auto
      moreover have "BaseEventTypeId \<in> dom (cache_load (em_types m))" "StandardEventTypeId \<in> dom (cache_load (em_types m))" using ok by (auto simp: event_types_ok_def)
      ultimately have "event_types_ok (reindexChildEventType i ins [] ?m cets)" by (intro reindex_inv_done) simp_all
      with run show ?thesis by blast
    qed
  qed
qed (use ok in \<open>simp add: UpdateEventType_def\<close>)

end
