(* ===== verification/Events.thy ===== *)
theory Events
  imports Event_Update
begin

text \<open>
  Events (\<open>src/pkg/event/event/manager.go\<close>, \<open>event/storage/{store,type-store}.go\<close>): their creation, with the check of the required fields and the conversion of the values,
  the queries that are sent to the log storage, and the event types that a thing had events of.

  The arguments of the model: the decoding of JSON (a body is given by what it decodes to), the parsing of floating-point numbers, of times and of URLs, the text of a value (\<open>%v\<close>), the
  validator of standard events, and the answers of the log storage. The cache of the table definitions has no bound here: a definition that fell out of it is built again.
\<close>

subsection \<open>Data\<close>

datatype 'f json_val = JNull | JBool bool | JNumber 'f | JString string | JArray "'f json_val list" | JObject "(string \<times> 'f json_val) list"

datatype 'f ev_value = EvInt int | EvDouble 'f | EvBool bool | EvString string | EvTime time

record v1_BaseEvent =
  be_Id :: string
  be_TypeId :: string
  be_CorrelationId :: string
  be_Time :: string
  be_ThingId :: string

record v1_StandardEvent = v1_BaseEvent +
  se_Severity :: int
  se_Description :: string
  se_Code :: string
  se_Source :: string
  se_Acknowledged :: bool

text \<open>A request body, decoded as an event, as a standard event and as a map.\<close>

record 'f ev_body =
  bd_base :: "v1_BaseEvent option"
  bd_standard :: "v1_StandardEvent option"
  bd_fields :: "(string, 'f json_val) smap option"

record ActiveEventType = ObjectMeta +
  aet_ThingId :: string
  aet_EventTypes :: "string list"

record 'f ev_row =
  rw_table :: TableDefinition
  rw_thing :: string
  rw_cells :: "(string, 'f ev_value) smap"

text \<open>The manager: its types, the things with the types of their events (\<open>None\<close>: no event yet), the files of the latter and the rows given to the log storage.\<close>

record 'f events =
  es_types :: event_types
  es_things :: "(string, string list option) smap"
  es_active :: "ActiveEventType files"
  es_rows :: "'f ev_row list"

record 'f ev_env =
  ee_int :: "'f \<Rightarrow> int"
  ee_ParseFloat :: "string \<Rightarrow> 'f option"
  ee_url :: "string \<Rightarrow> bool"
  ee_Sprint :: "'f json_val \<Rightarrow> string"
  ee_time :: "string \<Rightarrow> time option"
  ee_validate :: "v1_StandardEvent \<Rightarrow> go_error option"

definition BaseEventFields :: "string list" where
  "BaseEventFields = [''id'', ''typeId'', ''correlationId'', ''_time'', ''thingId'', ''eTag'']"

subsection \<open>The fields of an event\<close>

definition ParseBool :: "string \<Rightarrow> bool option" where
  "ParseBool s =
     (if s \<in> set [''1'', ''t'', ''T'', ''true'', ''TRUE'', ''True''] then Some True
      else if s \<in> set [''0'', ''f'', ''F'', ''false'', ''FALSE'', ''False''] then Some False else None)"

definition convert_int :: "'f ev_env \<Rightarrow> 'f json_val \<Rightarrow> int option" where
  "convert_int ev v = (case v of JNumber x \<Rightarrow> Some (ee_int ev x) | JString s \<Rightarrow> ParseInt s | _ \<Rightarrow> None)"

definition convert_value :: "'f ev_env \<Rightarrow> Field \<Rightarrow> 'f json_val \<Rightarrow> go_error + 'f ev_value" where
  "convert_value ev f v =
     (let bad = Inl (ErrFieldInvalid (fd_Name f) (ee_Sprint ev v)) in
      case fd_DataType f of
        DatatypeInt \<Rightarrow> (case convert_int ev v of Some i \<Rightarrow> Inr (EvInt i) | None \<Rightarrow> bad)
      | DatatypeDouble \<Rightarrow>
          (case v of JNumber x \<Rightarrow> Inr (EvDouble x)
           | JString s \<Rightarrow> (case ee_ParseFloat ev s of Some x \<Rightarrow> Inr (EvDouble x) | None \<Rightarrow> bad)
           | _ \<Rightarrow> bad)
      | DatatypeBool \<Rightarrow>
          (case v of JBool b \<Rightarrow> Inr (EvBool b)
           | JString s \<Rightarrow> (case ParseBool s of Some b \<Rightarrow> Inr (EvBool b) | None \<Rightarrow> bad)
           | _ \<Rightarrow> bad)
      | DatatypeString \<Rightarrow> Inr (EvString (ee_Sprint ev v))
      | DatatypeUuid \<Rightarrow> Inr (EvString (ee_Sprint ev v))
      | DatatypeEnum \<Rightarrow>
          (case ParseInt (ee_Sprint ev v) of
             None \<Rightarrow> bad
           | Some i \<Rightarrow>
               (case fd_Values f of
                  EnumValues vs \<Rightarrow> if i < 0 \<or> i \<ge> int (length vs) then bad else Inr (EvString (vs ! nat i))
                | _ \<Rightarrow> Inl GoPanic))
      | DatatypeMap \<Rightarrow>
          (case fd_Values f of
             MapValues vs \<Rightarrow> (case cache_load vs (ee_Sprint ev v) of Some x \<Rightarrow> Inr (EvString x) | None \<Rightarrow> bad)
           | _ \<Rightarrow> Inl GoPanic)
      | DatatypeLink \<Rightarrow> (case v of JString s \<Rightarrow> if ee_url ev s then Inr (EvString s) else bad | _ \<Rightarrow> bad)
      | DatatypeTimestamp \<Rightarrow> (case convert_int ev v of Some i \<Rightarrow> Inr (EvInt i) | None \<Rightarrow> bad))"

definition is_required :: "event_types \<Rightarrow> EventType \<Rightarrow> string \<Rightarrow> bool" where
  "is_required m et k = (case index_field m et k of Some f \<Rightarrow> fd_Required f | None \<Rightarrow> False)"

text \<open>The fields that the type has, if the number of the required ones is right.\<close>

definition legal_fields :: "event_types \<Rightarrow> EventType \<Rightarrow> (string, 'f json_val) smap \<Rightarrow> go_error + (string, 'f json_val) smap" where
  "legal_fields m et fds =
     (let fds = filter (\<lambda>(k, _). k \<notin> set BaseEventFields) fds;
          legal = filter (\<lambda>(k, _). index_field m et k \<noteq> None) fds;
          cnt = int (length (filter (\<lambda>(k, _). is_required m et k) legal)) in
      if cnt \<noteq> et_RequiredCnt et
      then Inl (ErrRequiredFieldMissed
             (map fst (filter (\<lambda>(k, _). k \<noteq> ''thingId'' \<and> k \<noteq> ''_time'' \<and> cache_load legal k = None \<and> is_required m et k) (et_FieldByName et))))
      else Inr legal)"

text \<open>The values one after the other; the errors are collected, a panic ends the request.\<close>

fun convert_fields :: "'f ev_env \<Rightarrow> event_types \<Rightarrow> EventType \<Rightarrow> (string, 'f json_val) smap \<Rightarrow> go_error list + (string, 'f ev_value) smap" where
  "convert_fields ev m et [] = Inr []"
| "convert_fields ev m et ((k, v) # kvs) =
     (case (case index_field m et k of None \<Rightarrow> Inl GoPanic | Some f \<Rightarrow> convert_value ev f v, convert_fields ev m et kvs) of
        (Inr x, Inr xs) \<Rightarrow> Inr ((k, x) # xs)
      | (Inr x, Inl errs) \<Rightarrow> Inl errs
      | (Inl err, Inr xs) \<Rightarrow> Inl [err]
      | (Inl err, Inl errs) \<Rightarrow> Inl (err # errs))"

definition panics :: "go_error list \<Rightarrow> go_error list" where
  "panics errs = (if GoPanic \<in> set errs then [GoPanic] else errs)"

subsection \<open>Creation\<close>

definition defaultEventTTL :: int where "defaultEventTTL = 7"

text \<open>An event is stored with its time shifted by the time to live of its type, for the bucket has only one; \<open>_fire\<close> is its own time.\<close>

definition ttl_shift :: "int \<Rightarrow> duration" where
  "ttl_shift ttl = wrap64 ((ttl - defaultEventTTL) * 24 * Hour)"

definition base_cells :: "EventType \<Rightarrow> time \<Rightarrow> string \<Rightarrow> string \<Rightarrow> string \<Rightarrow> string \<Rightarrow> (string, 'f ev_value) smap" where
  "base_cells et t i cor eTag typeId =
     [(''_time'', EvTime (t + ttl_shift (et_TTL et))), (''_fire'', EvTime t), (''id'', EvString i), (''correlationId'', EvString cor), (''eTag'', EvString eTag),
      (''typeId'', EvString typeId)]"

definition CreateStandardEvent :: "'f ev_env \<Rightarrow> event_types \<Rightarrow> EventType \<Rightarrow> v1_StandardEvent \<Rightarrow> string \<Rightarrow> string \<Rightarrow> string \<Rightarrow> go_error + 'f ev_row" where
  "CreateStandardEvent ev m et se i cor eTag =
     (case ee_time ev (be_Time se) of
        None \<Rightarrow> Inl (ErrTimestampInvalid [be_Time se])
      | Some t \<Rightarrow> Inr \<lparr>rw_table = getTableDefinition m et, rw_thing = be_ThingId se,
          rw_cells = base_cells et t i cor eTag StandardEventTypeId @
            [(''severity'', EvInt (se_Severity se)), (''description'', EvString (se_Description se)), (''code'', EvString (se_Code se)),
             (''source'', EvString (se_Source se)), (''acknowledged'', EvBool (se_Acknowledged se))]\<rparr>)"

definition CreateCustomEvent ::
  "'f ev_env \<Rightarrow> event_types \<Rightarrow> EventType \<Rightarrow> v1_BaseEvent \<Rightarrow> string \<Rightarrow> string \<Rightarrow> string \<Rightarrow> (string, 'f ev_value) smap \<Rightarrow> go_error + 'f ev_row" where
  "CreateCustomEvent ev m et ce i cor eTag fds =
     (case ee_time ev (be_Time ce) of
        None \<Rightarrow> Inl (ErrTimestampInvalid [be_Time ce])
      | Some t \<Rightarrow> Inr \<lparr>rw_table = getTableDefinition m et, rw_thing = be_ThingId ce,
          rw_cells = foldl (\<lambda>cs (k, v). cache_store k v cs) (base_cells et t i cor eTag (be_TypeId ce)) fds\<rparr>)"

text \<open>The first event of a type for a thing: the types of the thing are saved, an error is only logged. The object has no version.\<close>

definition cacheActiveThing :: "persist_env \<Rightarrow> time \<Rightarrow> 'f events \<Rightarrow> string \<Rightarrow> string \<Rightarrow> 'f events" where
  "cacheActiveThing e now s thingId typeId =
     (case cache_load (es_things s) thingId of
        None \<Rightarrow> s
      | Some a \<Rightarrow>
          let active = (case a of None \<Rightarrow> [] | Some ts \<Rightarrow> ts) in
          if typeId \<in> set active then s
          else
            let active = active @ [typeId];
                aet = \<lparr>om_Tenant = GetTenant, om_Name = [], om_ID = thingId, om_Version = [], om_ModTime = now, aet_ThingId = thingId, aet_EventTypes = active\<rparr> in
            s\<lparr>es_active := fst (Store_persist things_resource e (es_active s) aet), es_things := cache_store thingId (Some active) (es_things s)\<rparr>)"

definition or_new :: "string \<Rightarrow> string \<Rightarrow> string" where
  "or_new s new = (if s = [] then new else s)"

definition add_row :: "string \<Rightarrow> string \<Rightarrow> 'f events \<Rightarrow> go_error + 'f ev_row \<Rightarrow> 'f events \<times> (go_error list + string \<times> string)" where
  "add_row eTag i s r = (case r of Inl err \<Rightarrow> (s, Inl [err]) | Inr row \<Rightarrow> (s\<lparr>es_rows := es_rows s @ [row]\<rparr>, Inr (eTag, i)))"

definition create_standard where
  "create_standard ev e now s body i cor eTag =
     (case bd_standard body of
        None \<Rightarrow> (s, Inl [ErrMalformedJSON])
      | Some se \<Rightarrow>
          (case ee_validate ev se of
             Some err \<Rightarrow> (s, Inl [err])
           | None \<Rightarrow>
               let s = cacheActiveThing e now s (be_ThingId se) StandardEventTypeId in
               (case getEventTypeById (es_types s) StandardEventTypeId of
                  Inl _ \<Rightarrow> (s, Inl [GoPanic])
                | Inr et \<Rightarrow> add_row eTag i s (CreateStandardEvent ev (es_types s) et se i cor eTag))))"

definition create_custom where
  "create_custom ev e now s body ce i cor eTag =
     (case getEventTypeById (es_types s) (be_TypeId ce) of
        Inl _ \<Rightarrow> (s, Inl [ErrResourceNotFound (be_TypeId ce)])
      | Inr et \<Rightarrow>
          (case bd_fields body of
             None \<Rightarrow> (s, Inl [ErrMalformedJSON])
           | Some fds \<Rightarrow>
               (case legal_fields (es_types s) et fds of
                  Inl err \<Rightarrow> (s, Inl [err])
                | Inr legal \<Rightarrow>
                    (case convert_fields ev (es_types s) et legal of
                       Inl errs \<Rightarrow> (s, Inl (panics errs))
                     | Inr vals \<Rightarrow>
                         let s = cacheActiveThing e now s (be_ThingId ce) (be_TypeId ce) in
                         add_row eTag i s (CreateCustomEvent ev (es_types s) et ce i cor eTag vals)))))"

text \<open>\<open>uuid1\<close> and \<open>uuid2\<close> are new identifiers, \<open>rnd\<close> a random number.\<close>

definition CreateEvent ::
  "'f ev_env \<Rightarrow> persist_env \<Rightarrow> time \<Rightarrow> nat \<Rightarrow> string \<Rightarrow> string \<Rightarrow> 'f events \<Rightarrow> 'f ev_body \<Rightarrow> 'f events \<times> (go_error list + string \<times> string)" where
  "CreateEvent ev e now rnd uuid1 uuid2 s body =
     (case bd_base body of
        None \<Rightarrow> (s, Inl [ErrMalformedJSON])
      | Some ce \<Rightarrow>
          if cache_load (es_things s) (be_ThingId ce) = None then (s, Inl [ErrThingNotFound (be_ThingId ce)])
          else
            let eTag = FormatInt (int rnd); i = or_new (be_Id ce) uuid1; cor = or_new (be_CorrelationId ce) uuid2 in
            if be_TypeId ce = [] \<or> EqualFold (be_TypeId ce) StandardEventTypeId then create_standard ev e now s body i cor eTag
            else create_custom ev e now s body ce i cor eTag)"

subsection \<open>Queries\<close>

text \<open>What is sent to the log storage.\<close>

datatype 'f ev_query =
    LatestQuery "TableDefinition list" time "string list" "(string, 'f json_val) smap"
  | RangeQuery "TableDefinition list" time time "string list" "(string, 'f json_val) smap" int bool
  | SingleQuery TableDefinition time "string list" "(string, string) smap"

definition list_range :: "time \<Rightarrow> time \<Rightarrow> time \<Rightarrow> time \<times> time" where
  "list_range now start stop =
     (if time_IsZero start \<or> start > now then now - 7 * 24 * Hour else start,
      if time_IsZero stop \<or> stop > now then now else stop)"

text \<open>A value of the filter that has to be a string.\<close>

definition string_filter :: "(string, 'f json_val) smap \<Rightarrow> string \<Rightarrow> go_error + string option" where
  "string_filter flt k = (case cache_load flt k of None \<Rightarrow> Inr None | Some (JString s) \<Rightarrow> Inr (Some s) | Some _ \<Rightarrow> Inl GoPanic)"

definition filterable :: "event_types \<Rightarrow> EventType \<Rightarrow> string \<Rightarrow> bool" where
  "filterable m et k = (case index_field m et k of Some f \<Rightarrow> fd_Filterable f | None \<Rightarrow> False)"

text \<open>The types that are asked: the one of the filter, the standard type if neither a thing nor a type is given, or those the thing had events of.\<close>

definition query_types :: "event_types \<Rightarrow> string \<Rightarrow> string list \<Rightarrow> string option \<Rightarrow> EventType list" where
  "query_types m thing active typ =
     (let et = Option.bind typ (cache_load (em_types m));
          et = (if thing = [] \<and> et = None then cache_load (em_types m) StandardEventTypeId else et) in
      case et of
        None \<Rightarrow> List.map_filter (cache_load (em_types m)) active
      | Some et \<Rightarrow> if active = [] \<or> om_ID et \<in> set active then [et] else [])"

definition query_fields :: "EventType list \<Rightarrow> string list \<Rightarrow> string list" where
  "query_fields ets selects =
     (if selects \<noteq> [] then filter (\<lambda>f. \<exists>et\<in>set ets. cache_load (et_FieldByName et) f \<noteq> None) selects @ [''id'', ''typeId'', ''correlationId'', ''eTag'']
      else concat (map (\<lambda>et. map fst (et_FieldByName et)) ets))"

text \<open>The range is shifted by the longest time to live of the types.\<close>

definition max_ttl :: "EventType list \<Rightarrow> int" where
  "max_ttl ets = foldl (\<lambda>t et. if et_TTL et > t then et_TTL et else t) 0 ets"

definition store_ListEvents ::
  "event_types \<Rightarrow> time \<Rightarrow> EventType list \<Rightarrow> time \<Rightarrow> time \<Rightarrow> string \<Rightarrow> (string, 'f json_val) smap \<Rightarrow> string list \<Rightarrow> bool \<Rightarrow> bool \<Rightarrow> int \<Rightarrow> 'f ev_query" where
  "store_ListEvents m now ets start stop thing flt fds desc latest limit =
     (let tds = map (getTableDefinition m) ets; shift = ttl_shift (max_ttl ets);
          flt = (if thing \<noteq> [] then cache_store ''thingId'' (JString thing) flt else flt); fds = remdups (fds @ [''_fire'']) in
      if latest then LatestQuery tds (now + shift) fds flt else RangeQuery tds (start + shift) (stop + shift) fds flt limit desc)"

text \<open>\<open>Inr None\<close> is the empty answer without a query; \<open>now2\<close> is the clock when the query is made.\<close>

definition ListEvents ::
  "time \<Rightarrow> time \<Rightarrow> 'f events \<Rightarrow> time \<Rightarrow> time \<Rightarrow> (string, 'f json_val) smap \<Rightarrow> string list \<Rightarrow> bool \<Rightarrow> bool \<Rightarrow> int \<Rightarrow> go_error + 'f ev_query option" where
  "ListEvents now now2 s start stop flt selects desc latest limit =
     (let (start, stop) = list_range now start stop; m = es_types s in
      if start \<ge> stop then Inr None
      else case string_filter flt ''thingId'' of
        Inl err \<Rightarrow> Inl err
      | Inr thing \<Rightarrow>
          (case (case thing of None \<Rightarrow> Some [] | Some t \<Rightarrow> Option.bind (cache_load (es_things s) t) id) of
             None \<Rightarrow> Inr None
           | Some active \<Rightarrow>
               (case string_filter flt ''typeId'' of
                  Inl err \<Rightarrow> Inl err
                | Inr typ \<Rightarrow>
                    let thing = (case thing of None \<Rightarrow> [] | Some t \<Rightarrow> t);
                        flt = cache_delete ''typeId'' (cache_delete ''thingId'' flt);
                        ets = query_types m thing active typ;
                        legal = (if flt = [] then ets else filter (\<lambda>et. \<exists>k\<in>fst ` set flt. filterable m et k) ets);
                        flt = filter (\<lambda>(k, _). \<exists>et\<in>set ets. filterable m et k) flt in
                    if legal = [] then Inr None
                    else Inr (Some (store_ListEvents m now2 legal start stop thing flt (query_fields legal selects) desc latest limit)))))"

text \<open>The answer of the log storage: the time of an event is the one at which it was fired.\<close>

definition fire_time :: "(string, 'f ev_value) smap \<Rightarrow> (string, 'f ev_value) smap" where
  "fire_time row = (case cache_load row ''_fire'' of None \<Rightarrow> row | Some t \<Rightarrow> cache_delete ''_fire'' (cache_store ''_time'' t row))"

definition GetEventById :: "time \<Rightarrow> 'f events \<Rightarrow> string \<Rightarrow> string \<Rightarrow> string \<Rightarrow> go_error + 'f ev_query" where
  "GetEventById now s i thing typeId =
     (if thing \<noteq> [] \<and> Option.bind (cache_load (es_things s) thing) id = None then Inl (ErrThingNotFound thing)
      else
        let m = es_types s in
        (case (case cache_load (em_types m) typeId of None \<Rightarrow> cache_load (em_types m) StandardEventTypeId | Some et \<Rightarrow> Some et) of
           None \<Rightarrow> Inl GoPanic
         | Some et \<Rightarrow>
             Inr (SingleQuery (getTableDefinition m et) (now + ttl_shift (et_TTL et)) (remdups (map fst (et_FieldByName et) @ [''_fire'']))
                    ((''id'', i) # (if thing \<noteq> [] then [(''thingId'', thing)] else [])))))"

text \<open>
  The deletion of an event: \<open>get\<close> is the log storage's answer to the query, with the times and tags as strings, and \<open>days\<close> its retention. The type is looked up
  again without the default.
\<close>

record ev_delete =
  dl_table :: TableDefinition
  dl_time :: time
  dl_id :: string
  dl_thing :: string

definition cell_string :: "(string, 'f ev_value) smap \<Rightarrow> string \<Rightarrow> string option" where
  "cell_string row k = (case cache_load row k of Some (EvString x) \<Rightarrow> Some x | _ \<Rightarrow> None)"

definition DeleteEvent ::
  "'f ev_env \<Rightarrow> ('f ev_query \<Rightarrow> go_error + (string, 'f ev_value) smap list) \<Rightarrow> int \<Rightarrow> time \<Rightarrow> 'f events \<Rightarrow> string \<Rightarrow> string \<Rightarrow> string \<Rightarrow> go_error + ev_delete" where
  "DeleteEvent ev get days now s i eTag typeId =
     (case GetEventById now s i [] typeId of
        Inl err \<Rightarrow> Inl err
      | Inr q \<Rightarrow>
          (case get q of
             Inl err \<Rightarrow> Inl err
           | Inr [] \<Rightarrow> Inl ErrNotExist
           | Inr (row # _) \<Rightarrow>
               let row = fire_time row in
               let tag = (case cell_string row ''eTag'' of None \<Rightarrow> ''<nil>'' | Some x \<Rightarrow> x) in
               if tag = [] then Inl ErrNotExist
               else if tag \<noteq> eTag then Inl ErrMismatch
               else
                 (case (cell_string row ''_time'', cell_string row ''id'', cell_string row ''thingId'', cache_load (em_types (es_types s)) typeId) of
                    (Some ts, Some rid, Some thing, Some et) \<Rightarrow>
                      Inr \<lparr>dl_table = getTableDefinition (es_types s) et,
                           dl_time = (case ee_time ev ts of Some t \<Rightarrow> t | None \<Rightarrow> 0) + wrap64 ((et_TTL et - days) * 24 * Hour),
                           dl_id = rid, dl_thing = thing\<rparr>
                  | _ \<Rightarrow> Inl GoPanic)))"

subsection \<open>Things\<close>

text \<open>A watch event of the things: deleted (no modification time) or seen.\<close>

definition event_processThing :: "'f events \<Rightarrow> string \<Rightarrow> time \<Rightarrow> 'f events" where
  "event_processThing s i modTime =
     (if time_IsZero modTime then s\<lparr>es_things := cache_delete i (es_things s)\<rparr>
      else if cache_load (es_things s) i = None then s\<lparr>es_things := cache_store i None (es_things s)\<rparr> else s)"

text \<open>The start: the things of the model with the saved types of their events.\<close>

definition load_active :: "string list \<Rightarrow> ActiveEventType files \<Rightarrow> (string, string list option) smap" where
  "load_active things fs =
     (let aets = foldl (\<lambda>c a. cache_store (aet_ThingId a) (aet_EventTypes a) c) [] (LoadResource things_resource fs) in
      foldl (\<lambda>c t. cache_store t (cache_load aets t) c) [] things)"

definition PruneThings :: "persist_env \<Rightarrow> string list \<Rightarrow> ActiveEventType files \<Rightarrow> ActiveEventType files" where
  "PruneThings e things fs =
     foldl (\<lambda>fs a. if aet_ThingId a \<in> set things then fs
         else fst (Store_persist things_resource e fs
                \<lparr>om_Tenant = [], om_Name = [], om_ID = aet_ThingId a, om_Version = [], om_ModTime = 0, aet_ThingId = [], aet_EventTypes = []\<rparr>))
       fs (LoadResource things_resource fs)"

end
