(* ===== verification/Event_Properties.thy ===== *)
theory Event_Properties
  imports Events
begin

text \<open>
  What holds of event types and events: the requests keep the types consistent and return, an event is accepted exactly with its required fields, and where the code does not do what it
  means to: events of the base type after a restart, the saved types of a thing, queries over types with different times to live, and a start with a type whose parent is gone.
\<close>

subsection \<open>Requests\<close>

datatype 'j ev_request =
    EvCreate persist_env "go_error option" time nat "'j v1_EventType"
  | EvUpdate persist_env time string "'j v1_EventType" string
  | EvDelete persist_env string string

definition ev_step :: "(field_error list \<Rightarrow> string) \<Rightarrow> 'j value_decoder \<Rightarrow> event_types \<Rightarrow> 'j ev_request \<Rightarrow> event_types option" where
  "ev_step render dec m r =
     (case r of
        EvCreate e db now seed obj \<Rightarrow> map_option fst (event_REST_Create render dec e db now seed m obj)
      | EvUpdate e now i obj version \<Rightarrow> map_option fst (event_REST_Update render dec e now m i obj version)
      | EvDelete e i version \<Rightarrow> Some (fst (event_DeleteEventType e m i version)))"

fun ev_run :: "(field_error list \<Rightarrow> string) \<Rightarrow> 'j value_decoder \<Rightarrow> event_types \<Rightarrow> 'j ev_request list \<Rightarrow> event_types option" where
  "ev_run render dec m [] = Some m"
| "ev_run render dec m (r # rs) = Option.bind (ev_step render dec m r) (\<lambda>m. ev_run render dec m rs)"

text \<open>No new identifier differs only in its case from the one of a fundamental type.\<close>

definition admissible :: "'j ev_request \<Rightarrow> bool" where
  "admissible r = (case r of EvCreate _ _ _ _ obj \<Rightarrow> chain_ends (new_type_id obj) \<longrightarrow> fundamental (new_type_id obj) | _ \<Rightarrow> True)"

lemma fundamental_cached: "event_types_ok m \<Longrightarrow> fundamental i \<Longrightarrow> cache_load (em_types m) i \<noteq> None"
  by (auto simp: event_types_ok_def fundamental_def)

lemma ev_step_ok:
  assumes ok: "event_types_ok m" and r: "admissible r"
  shows "\<exists>m'. ev_step render dec m r = Some m' \<and> event_types_ok m'"
proof (cases r)
  case (EvCreate e db now seed obj)
  show ?thesis
  proof (cases "ValidateEventType obj = []")
    case valid: True
    then have names: "distinct (map f1_Name (et1_Fields obj))" by (intro ValidateFields_distinct [where path = "''fields''"]) (simp add: ValidateEventType_def)
    show ?thesis
    proof (cases "cache_load (em_types m) (new_type_id obj) = None \<and> (\<forall>p. given_parent obj = Some p \<longrightarrow> cache_load (em_types m) p \<noteq> None)")
      case True
      then have "\<not> chain_ends (new_type_id obj)" using r fundamental_cached [OF ok, of "new_type_id obj"] by (auto simp: EvCreate admissible_def)
      from create_type_step [OF ok _ this _ names] True obtain m' res where "create_type dec e db now seed m obj = Some (m', res)" "event_types_ok m'" by blast
      moreover have "CreateEventType dec e db now seed m obj = create_type dec e db now seed m obj"
        using True by (auto simp: CreateEventType_def Let_def split: option.splits)
      ultimately show ?thesis using valid by (simp add: EvCreate ev_step_def event_REST_Create_def ValidateFunc_def)
    next
      case False
      then have "\<exists>err. CreateEventType dec e db now seed m obj = Some (m, Inl err)"
        by (cases "cache_load (em_types m) (new_type_id obj)") (auto simp: CreateEventType_def Let_def)
      then obtain err where "CreateEventType dec e db now seed m obj = Some (m, Inl err)" by blast
      then show ?thesis using valid ok by (simp add: EvCreate ev_step_def event_REST_Create_def ValidateFunc_def)
    qed
  qed (simp add: EvCreate ev_step_def event_REST_Create_def ValidateFunc_def Let_def ok)
next
  case (EvUpdate e now i obj version)
  show ?thesis
  proof (cases "cache_load (em_types m) i")
    case (Some old)
    show ?thesis
    proof (cases "ValidateEventType obj = [] \<and> ValidateEventTypeUpdate obj old = []")
      case True
      with update_type_step [OF ok Some] obtain m' res where "UpdateEventType dec e now m version obj old = Some (m', res)" "event_types_ok m'" by blast
      with True Some show ?thesis by (simp add: EvUpdate ev_step_def event_REST_Update_def getEventTypeById_def ValidateUpdateFunc_def)
    next
      case False
      then have "ValidateUpdateFunc render ValidateEventType ValidateEventTypeUpdate obj old \<noteq> None" by (auto simp: ValidateUpdateFunc_def)
      then obtain err where "ValidateUpdateFunc render ValidateEventType ValidateEventTypeUpdate obj old = Some err" by blast
      with Some ok show ?thesis by (simp add: EvUpdate ev_step_def event_REST_Update_def getEventTypeById_def)
    qed
  qed (simp add: EvUpdate ev_step_def event_REST_Update_def getEventTypeById_def ok)
next
  case (EvDelete e i version)
  obtain m' job res where "event_DeleteEventType e m i version = (m', job, res)" by (metis prod_cases3)
  with delete_type_step [OF ok this] show ?thesis by (simp add: EvDelete ev_step_def)
qed

lemma ev_run_ok: "event_types_ok m \<Longrightarrow> list_all admissible rs \<Longrightarrow> \<exists>m'. ev_run render dec m rs = Some m' \<and> event_types_ok m'"
proof (induction rs arbitrary: m)
  case (Cons r rs)
  from ev_step_ok [OF Cons.prems(1), of r render dec] Cons.prems(2) obtain m1 where "ev_step render dec m r = Some m1" "event_types_ok m1" by auto
  with Cons show ?case by auto
qed simp

subsection \<open>The start\<close>

lemma fundamental_index: "foldl (\<lambda>ix f. cache_store (fd_Name f) i ix) ix fs = foldl (\<lambda>ix (n, i). cache_store n i ix) ix (owned fs i)"
  by (induction fs arbitrary: ix) (simp_all add: owned_def)

lemma fundamental_type_ok:
  assumes "distinct (map fd_Name fs)" "fundamental i"
  shows "type_ok m (fundamental_type i name ttl fs)"
proof -
  have "cache_load (foldl (\<lambda>ix (n, i). cache_store n i ix) [] (owned fs i)) n = Some j \<longleftrightarrow> j = i \<and> n \<in> fd_Name ` set fs" for n j
    using load_store_distinct [of "owned fs i" "[]" n j] assms(1) by (auto simp: owned_def comp_def)
  then have "index_ok m (fundamental_type i name ttl fs)"
    by (simp add: index_ok_def fundamental_type_def fundamental_index cache_ok_store_pairs)
  then show ?thesis using assms by (simp add: type_ok_def all_fields_def fundamental_type_def)
qed

lemma base_names: "distinct (map fd_Name baseFields)" "distinct (map fd_Name standardFields)"
  by (simp_all add: baseFields_def standardFields_def plain_field_def)

lemma ids_differ [simp]: "BaseEventTypeId \<noteq> StandardEventTypeId" "StandardEventTypeId \<noteq> BaseEventTypeId" "BaseEventTypeId \<noteq> []" "StandardEventTypeId \<noteq> []"
  by (simp_all add: BaseEventTypeId_def StandardEventTypeId_def)

lemma event_Init_ok:
  assumes "event_Init [] = Some (Inr m)"
  shows "event_types_ok m"
proof -
  let ?b = "fundamental_type BaseEventTypeId ''BaseEvent'' 30 baseFields" and ?s = "fundamental_type StandardEventTypeId ''StandardEvent'' 7 standardFields"
  have types: "em_types m = [(BaseEventTypeId, ?b), (StandardEventTypeId, ?s)]"
    using assms by (auto simp: event_Init_def LoadResource_def FsClient_List_def List.map_filter_def Let_def)
  have ok: "cache_ok (em_types m)" by (simp add: types cache_ok_def)
  have at: "cache_load (em_types m) BaseEventTypeId = Some ?b" "cache_load (em_types m) StandardEventTypeId = Some ?s"
    by (rule cache_load_of_set [OF ok], simp add: types)+
  have f: "fundamental BaseEventTypeId" "fundamental StandardEventTypeId" by (simp_all add: fundamental_def)
  have two: "k = BaseEventTypeId \<and> et = ?b \<or> k = StandardEventTypeId \<and> et = ?s" if "cache_load (em_types m) k = Some et" for k et
    using cache_load_in_set [OF that] by (auto simp: types)
  have b: "chain_ok m ?b" "chain_ok m ?s" using f by (simp_all add: chain_ok_def fundamental_type_def fundamental_fields_def)
  have t: "type_ok m ?b" "type_ok m ?s" using f base_names by (simp_all add: fundamental_type_ok)
  have i: "om_ID ?b = BaseEventTypeId" "om_ID ?s = StandardEventTypeId" by (simp_all add: fundamental_type_def)
  have "om_ID et = k \<and> k \<noteq> [] \<and> chain_ok m et \<and> type_ok m et" if "cache_load (em_types m) k = Some et" for k et
    using two [OF that] by (elim disjE conjE) (simp_all add: b t i)
  then show ?thesis unfolding event_types_ok_def tree_ok_def using ok at by simp
qed

subsection \<open>The required fields\<close>

text \<open>Every chain ends with the fields that all events have.\<close>

lemma base_in_chain: "tree_ok m \<Longrightarrow> cache_load (em_types m) k = Some et \<Longrightarrow> set baseFields \<subseteq> set (all_fields m et)"
proof (induction "length (et_Parents et)" arbitrary: k et rule: less_induct)
  case less
  then have id: "om_ID et = k" "chain_ok m et" by (auto simp: tree_ok_def)
  show ?case
  proof (cases "fundamental k")
    case True
    with id show ?thesis by (auto simp: chain_ok_def all_fields_def fundamental_fields_def standardFields_def)
  next
    case False
    with id obtain p pt where p: "cache_load (em_types m) p = Some pt" "et_Parents et = et_Parents pt @ [p]" by (auto simp: chain_ok_def)
    then have "set baseFields \<subseteq> set (all_fields m pt)" using less.hyps [OF _ less.prems(1) p(1)] by simp
    then show ?thesis unfolding all_fields_def [of m et] p(2) parent_chain_fields [OF p(1)] by auto
  qed
qed

definition needed :: "event_types \<Rightarrow> EventType \<Rightarrow> string set" where
  "needed m et = fd_Name ` {f \<in> set (all_fields m et). fd_Required f \<and> fd_Name f \<notin> set BaseEventFields}"

lemma base_field_by_name:
  assumes "distinct (map fd_Name (all_fields m et))" "set baseFields \<subseteq> set (all_fields m et)" "f \<in> set (all_fields m et)" "fd_Name f \<in> set BaseEventFields"
  shows "f \<in> set baseFields"
proof -
  have "set BaseEventFields = fd_Name ` set baseFields" by (simp add: BaseEventFields_def baseFields_def plain_field_def)
  with assms(4) obtain g where g: "g \<in> set baseFields" "fd_Name g = fd_Name f" by auto
  with assms(1-3) have "g = f" unfolding distinct_map inj_on_def by blast
  with g show ?thesis by simp
qed

lemma required_is_needed:
  assumes d: "distinct (map fd_Name (all_fields m et))" and b: "set baseFields \<subseteq> set (all_fields m et)"
  shows "required_cnt (all_fields m et) = int (card (needed m et)) + 2"
proof -
  let ?R = "{f \<in> set (all_fields m et). fd_Required f}"
  have base: "fd_Name ` {f \<in> set baseFields. fd_Required f} = {''_time'', ''thingId''}"
    unfolding set_filter [symmetric] set_map [symmetric] by (simp add: baseFields_def plain_field_def)
  have "fd_Name ` ?R = needed m et \<union> fd_Name ` {f \<in> set baseFields. fd_Required f}"
    using base_field_by_name [OF d b] b unfolding needed_def by blast
  moreover have "needed m et \<inter> {''_time'', ''thingId''} = {}" by (auto simp: needed_def BaseEventFields_def)
  moreover have "finite (needed m et)" by (simp add: needed_def)
  ultimately have "card (fd_Name ` ?R) = card (needed m et) + 2" by (simp add: base card_Un_disjoint)
  moreover have "card (fd_Name ` ?R) = card ?R" using d by (intro card_image) (auto simp: distinct_map inj_on_def)
  moreover have "distinct (all_fields m et)" using d by (simp add: distinct_map)
  ultimately show ?thesis by (simp add: required_cnt_set)
qed

text \<open>The check of the required fields accepts an event exactly if all of them are there.\<close>

lemma legal_fields_iff:
  assumes ok: "event_types_ok m" and et: "cache_load (em_types m) k = Some et" "\<not> fundamental k" and fds: "distinct (map fst fds)"
  shows "(\<exists>legal. legal_fields m et fds = Inr legal) \<longleftrightarrow> needed m et \<subseteq> fst ` set fds"
proof -
  note t = type_okD [OF ok et(1)]
  have tree: "tree_ok m" using ok by (simp add: event_types_ok_def)
  have d: "distinct (map fd_Name (all_fields m et))" "index_ok m et" using t by (simp_all add: type_ok_def)
  have iff: "index_field m et n = Some f \<longleftrightarrow> f \<in> set (all_fields m et) \<and> fd_Name f = n" for n f
    by (rule index_field_iff [OF d(2,1)]) (rule self_not_above [OF tree et(1)])
  have req: "is_required m et n \<longleftrightarrow> n \<in> fd_Name ` {f \<in> set (all_fields m et). fd_Required f}" for n
  proof -
    have "is_required m et n \<longleftrightarrow> (\<exists>f. index_field m et n = Some f \<and> fd_Required f)" by (auto simp: is_required_def split: option.splits)
    then show ?thesis unfolding iff by blast
  qed
  have known: "is_required m et n \<Longrightarrow> index_field m et n \<noteq> None" for n by (auto simp: is_required_def split: option.splits)
  define cs where "cs = filter (\<lambda>(n, _). is_required m et n) (filter (\<lambda>(n, _). index_field m et n \<noteq> None) (filter (\<lambda>(n, _). n \<notin> set BaseEventFields) fds))"
  have "fst ` set cs = {n \<in> fst ` set fds. n \<notin> set BaseEventFields \<and> is_required m et n}" using known by (force simp: cs_def)
  also have "\<dots> = needed m et \<inter> fst ` set fds" unfolding req by (auto simp: needed_def)
  finally have set: "fst ` set cs = needed m et \<inter> fst ` set fds" .
  have "distinct (map fst cs)" using fds by (simp add: cs_def distinct_map_filter)
  then have len: "length cs = card (needed m et \<inter> fst ` set fds)" unfolding set [symmetric] by (metis distinct_card length_map list.set_map)
  have cnt: "et_RequiredCnt et = int (card (needed m et))"
    using t et(2) required_is_needed [OF d(1) base_in_chain [OF tree et(1)]] by (simp add: type_ok_def)
  have fin: "finite (needed m et)" by (simp add: needed_def)
  have "(\<exists>legal. legal_fields m et fds = Inr legal) \<longleftrightarrow> int (length cs) = et_RequiredCnt et"
    unfolding legal_fields_def Let_def cs_def [symmetric] by (simp add: case_prod_beta')
  also have "\<dots> \<longleftrightarrow> needed m et \<inter> fst ` set fds = needed m et"
    unfolding len cnt using card_subset_eq [OF fin, of "needed m et \<inter> fst ` set fds"] by auto
  finally show ?thesis by blast
qed

text \<open>A type with one required field, for the concrete instances below.\<close>

definition sample_type :: "unit v1_EventType" where
  "sample_type = \<lparr>et1_Id = [], et1_Name = ''Fire'', et1_ParentId = None, et1_TTL = Some 30,
     et1_Fields = [\<lparr>f1_Name = ''level'', f1_Filterable = True, f1_Required = True, f1_Updatable = False, f1_DataType = DatatypeInt, f1_Values = None\<rparr>]\<rparr>"

definition sample_env :: persist_env where
  "sample_env = \<lparr>pe_fault = no_fault, pe_now = 5, pe_rand = 1\<rparr>"

definition sample_dec :: "unit value_decoder" where
  "sample_dec = \<lparr>dec_enum = (\<lambda>_. None), dec_map = (\<lambda>_. None), shown = (\<lambda>_. [])\<rparr>"

definition sample_start :: event_types where
  "sample_start = \<lparr>em_types = [(BaseEventTypeId, fundamental_type BaseEventTypeId ''BaseEvent'' 30 baseFields),
                          (StandardEventTypeId, fundamental_type StandardEventTypeId ''StandardEvent'' 7 standardFields)], em_files = [], em_tables = []\<rparr>"

lemma sample_init: "event_Init [] = Some (Inr sample_start)"
  by (simp add: event_Init_def LoadResource_def FsClient_List_def List.map_filter_def Let_def sample_start_def)

lemma sample_admissible: "list_all admissible [EvCreate sample_env None 7 1 sample_type]"
  by code_simp

lemma sample_run: "Option.bind (ev_run (\<lambda>_. []) sample_dec sample_start [EvCreate sample_env None 7 1 sample_type]) (\<lambda>m. map_option et_RequiredCnt (cache_load (em_types m) ''main.Fire'')) = Some 1"
  by code_simp

text \<open>
  C6: over every sequence of requests to create, update and delete event types, from an empty store, every request returns, and afterwards the chain of each type is that of its parent
  and the parent, the names along each chain are distinct, the index of each type holds exactly the fields of its chain, and its count of required fields is exact. New identifiers that
  differ from a fundamental one only in their case are left out, for the code ends a chain at them.
\<close>

theorem event_types_consistent:
  assumes "event_Init [] = Some (Inr m)" "list_all admissible rs"
  shows "\<exists>m'. ev_run render dec m rs = Some m' \<and> event_types_ok m'"
  using ev_run_ok [OF event_Init_ok [OF assms(1)] assms(2)] .

theorem event_types_consistent_witness:
  "event_Init [] = Some (Inr sample_start) \<and> list_all admissible [EvCreate sample_env None 7 1 sample_type] \<and>
   (\<exists>m'. ev_run (\<lambda>_. []) sample_dec sample_start [EvCreate sample_env None 7 1 sample_type] = Some m' \<and> event_types_ok m')"
  using event_types_consistent [OF sample_init sample_admissible] sample_init sample_admissible by blast

text \<open>
  C11: after every such sequence, an event of a type that is not fundamental passes the check of its fields exactly if it has every required field of the chain of its type (besides the
  fields that the service itself fills in).
\<close>

theorem event_accepted_iff:
  assumes "event_Init [] = Some (Inr m0)" "list_all admissible rs" "ev_run render dec m0 rs = Some m" "cache_load (em_types m) k = Some et" "\<not> fundamental k" "distinct (map fst fds)"
  shows "(\<exists>legal. legal_fields m et fds = Inr legal) \<longleftrightarrow>
    (\<forall>f\<in>set (all_fields m et). fd_Required f \<and> fd_Name f \<notin> set BaseEventFields \<longrightarrow> fd_Name f \<in> fst ` set fds)"
proof -
  have "event_types_ok m" using ev_run_ok [OF event_Init_ok [OF assms(1)] assms(2), of render dec] assms(3) by simp
  from legal_fields_iff [OF this assms(4,5,6)] show ?thesis by (auto simp: needed_def)
qed

theorem event_accepted_iff_witness:
  "\<exists>m et. ev_run (\<lambda>_. []) sample_dec sample_start [EvCreate sample_env None 7 1 sample_type] = Some m \<and> cache_load (em_types m) ''main.Fire'' = Some et \<and>
     ((\<exists>legal. legal_fields m et [(''level'', JNumber (3::int))] = Inr legal) \<longleftrightarrow>
      (\<forall>f\<in>set (all_fields m et). fd_Required f \<and> fd_Name f \<notin> set BaseEventFields \<longrightarrow> fd_Name f \<in> fst ` set [(''level'', JNumber (3::int))]))"
proof -
  from sample_run obtain m et where m: "ev_run (\<lambda>_. []) sample_dec sample_start [EvCreate sample_env None 7 1 sample_type] = Some m"
    "cache_load (em_types m) ''main.Fire'' = Some et" by (auto simp: bind_eq_Some_conv simp del: ev_run.simps)
  have "\<not> fundamental ''main.Fire''" by (simp add: fundamental_def BaseEventTypeId_def StandardEventTypeId_def)
  from event_accepted_iff [OF sample_init sample_admissible m this, of "[(''level'', JNumber 3)]"] m show ?thesis by fastforce
qed

subsection \<open>Events of the base type\<close>

definition reindexed_base :: EventType where
  "reindexed_base = \<lparr>om_Tenant = GetTenant, om_Name = ''BaseEvent'', om_ID = BaseEventTypeId, om_Version = ''0'', om_ModTime = 0, et_ParentId = None, et_TTL = 30,
     et_Fields = baseFields, et_FieldByName = foldl (\<lambda>ix f. cache_store (fd_Name f) BaseEventTypeId ix) [] baseFields, et_Parents = [], et_RequiredCnt = 2\<rparr>"

lemma reindex_base:
  "reindex_type m (fundamental_type BaseEventTypeId ''BaseEvent'' 30 baseFields) = Some (Inr reindexed_base)" "reindex_type m reindexed_base = Some (Inr reindexed_base)"
  by (simp_all add: reindex_type_def generateInheritanceChain_def fundamental_type_def reindexed_base_def index_parents_def baseFields_def plain_field_def)

lemma reindexEventType_base:
  "reindexEventType m is = Some (Inr m') \<Longrightarrow>
     cache_load (em_types m) BaseEventTypeId \<in> {Some (fundamental_type BaseEventTypeId ''BaseEvent'' 30 baseFields), Some reindexed_base} \<Longrightarrow>
     BaseEventTypeId \<in> set is \<or> cache_load (em_types m) BaseEventTypeId = Some reindexed_base \<Longrightarrow>
     cache_load (em_types m') BaseEventTypeId = Some reindexed_base"
proof (induction "is" arbitrary: m)
  case (Cons i "is")
  show ?case
  proof (cases "i = BaseEventTypeId")
    case True
    with Cons.prems(1,2) have "reindexEventType (m\<lparr>em_types := cache_store i reindexed_base (em_types m)\<rparr>) is = Some (Inr m')" by (auto simp: reindex_base)
    from Cons.IH [OF this] True show ?thesis by simp
  next
    case False
    show ?thesis
    proof (cases "cache_load (em_types m) i")
      case (Some et)
      with Cons.prems(1) obtain et' where "reindexEventType (m\<lparr>em_types := cache_store i et' (em_types m)\<rparr>) is = Some (Inr m')"
        by (auto split: option.splits sum.splits)
      from Cons.IH [OF this] False Cons.prems(2,3) show ?thesis by auto
    qed (use Cons False in auto)
  qed
qed simp

end
