(* ===== verification/Event_Failures.thy ===== *)
theory Event_Failures
  imports Event_Properties
begin

text \<open>
  Where the event service does not do what it means to: events of the base type after a restart, a start with a type whose parent is gone, the saved types of a thing, and queries over
  types with different times to live.
\<close>

subsection \<open>Events of the base type\<close>

lemma load_stores_other: "k \<notin> om_ID ` set obs \<Longrightarrow> cache_load (foldl (\<lambda>c et. cache_store (om_ID et) et c) c obs) k = cache_load c k"
  by (induction obs arbitrary: c) auto

lemma cached_base:
  assumes "event_Init fs = Some (Inr m)" "LoadResource eventtypes fs \<noteq> []" "BaseEventTypeId \<notin> om_ID ` set (LoadResource eventtypes fs)"
  shows "cache_load (em_types m) BaseEventTypeId = Some reindexed_base"
proof -
  let ?fund = "[(BaseEventTypeId, fundamental_type BaseEventTypeId ''BaseEvent'' 30 baseFields), (StandardEventTypeId, fundamental_type StandardEventTypeId ''StandardEvent'' 7 standardFields)]"
  let ?m = "\<lparr>em_types = foldl (\<lambda>c et. cache_store (om_ID et) et c) ?fund (LoadResource eventtypes fs), em_files = fs, em_tables = []\<rparr>"
  have run: "reindexEventType ?m (map fst (em_types ?m)) = Some (Inr m)" using assms(1,2) by (simp add: event_Init_def Let_def)
  have load: "cache_load (em_types ?m) BaseEventTypeId = Some (fundamental_type BaseEventTypeId ''BaseEvent'' 30 baseFields)"
    using load_stores_other [OF assms(3), of ?fund] by (simp add: cache_load_def)
  then have "BaseEventTypeId \<in> set (map fst (em_types ?m))" using cache_load_in_set [OF load] by force
  with reindexEventType_base [OF run] load show ?thesis by blast
qed

lemma base_index: "index_field m reindexed_base k = by_name fd_Name baseFields k"
proof -
  have "cache_load (et_FieldByName reindexed_base) k = (if k \<in> fd_Name ` set baseFields then Some BaseEventTypeId else None)"
    by (simp add: reindexed_base_def baseFields_def plain_field_def cache_load_def)
  moreover have "by_name fd_Name baseFields k = None" if "k \<notin> fd_Name ` set baseFields" using that by (simp add: by_name_None_iff)
  ultimately show ?thesis by (cases "k \<in> fd_Name ` set baseFields") (simp_all add: index_field_def, simp add: reindexed_base_def)
qed

text \<open>
  After a start with at least one saved event type, every event of the base type is refused, with an empty list of missing fields: the two required fields of the base type are
  counted, but the fields that every event has are taken out of the event before it is checked.
\<close>

theorem base_events_refused:
  assumes init: "event_Init fs = Some (Inr m)" and saved: "LoadResource eventtypes fs \<noteq> []" "BaseEventTypeId \<notin> om_ID ` set (LoadResource eventtypes fs)"
    and s: "es_types s = m" and body: "bd_base body = Some ce" "be_TypeId ce = BaseEventTypeId" "bd_fields body = Some fds" and thing: "cache_load (es_things s) (be_ThingId ce) \<noteq> None"
  shows "CreateEvent ev e now rnd uuid1 uuid2 s body = (s, Inl [ErrRequiredFieldMissed []])"
proof -
  note base = cached_base [OF init saved]
  have names: "fd_Name ` set baseFields = set BaseEventFields" by (simp add: BaseEventFields_def baseFields_def plain_field_def)
  have none: "filter (\<lambda>(k, _). index_field m reindexed_base k \<noteq> None) (filter (\<lambda>(k, _). k \<notin> set BaseEventFields) fds) = []"
    by (auto simp: filter_empty_conv base_index by_name_None_iff names)
  have req: "k = ''_time'' \<or> k = ''thingId''" if "is_required m reindexed_base k" for k
  proof -
    from that obtain f where "by_name fd_Name baseFields k = Some f" "fd_Required f" by (auto simp: is_required_def base_index split: option.splits)
    with by_name_Some [OF this(1)] show ?thesis by (auto simp: baseFields_def plain_field_def)
  qed
  have missing: "filter (\<lambda>(k, _). k \<noteq> ''thingId'' \<and> k \<noteq> ''_time'' \<and> cache_load [] k = None \<and> is_required m reindexed_base k) (et_FieldByName reindexed_base) = []"
    using req by (auto simp: filter_empty_conv)
  have "legal_fields m reindexed_base fds = Inl (ErrRequiredFieldMissed [])"
    unfolding legal_fields_def Let_def none missing by (simp add: reindexed_base_def)
  moreover have "\<not> EqualFold BaseEventTypeId StandardEventTypeId" by code_simp
  ultimately show ?thesis using body thing s base by (auto simp: CreateEvent_def create_custom_def getEventTypeById_def Let_def)
qed

definition sample_ev :: "int ev_env" where
  "sample_ev = \<lparr>ee_int = (\<lambda>x. x), ee_ParseFloat = ParseInt, ee_url = (\<lambda>_. True), ee_Sprint = (\<lambda>_. []), ee_time = (\<lambda>_. Some 9), ee_validate = (\<lambda>_. None)\<rparr>"

definition sample_event :: v1_BaseEvent where
  "sample_event = \<lparr>be_Id = [], be_TypeId = BaseEventTypeId, be_CorrelationId = [], be_Time = ''9'', be_ThingId = ''t1''\<rparr>"

definition sample_events :: "event_types \<Rightarrow> int events" where
  "sample_events m = \<lparr>es_types = m, es_things = [(''t1'', None)], es_active = [], es_rows = []\<rparr>"

definition sample_files :: "EventType files" where
  "sample_files = [(''eventtypes/main.Fire'', \<lparr>f_obj = Some (zero_EventType\<lparr>om_ID := ''main.Fire'', et_ParentId := Some BaseEventTypeId\<rparr>), f_mtime = 5\<rparr>)]"

lemma sample_restart: "case event_Init sample_files of Some (Inr _) \<Rightarrow> True | _ \<Rightarrow> False"
  by code_simp

theorem base_events_refused_witness:
  "\<exists>m. event_Init sample_files = Some (Inr m) \<and>
     CreateEvent sample_ev sample_env 7 1 ''u1'' ''u2'' (sample_events m) \<lparr>bd_base = Some sample_event, bd_standard = None, bd_fields = Some []\<rparr> =
       (sample_events m, Inl [ErrRequiredFieldMissed []])"
proof -
  from sample_restart obtain m where m: "event_Init sample_files = Some (Inr m)" by (auto split: option.splits sum.splits)
  have l: "map om_ID (LoadResource eventtypes sample_files) = [''main.Fire'']" by code_simp
  then have "BaseEventTypeId \<notin> set (map om_ID (LoadResource eventtypes sample_files))" by (simp add: BaseEventTypeId_def)
  with l have "LoadResource eventtypes sample_files \<noteq> []" "BaseEventTypeId \<notin> om_ID ` set (LoadResource eventtypes sample_files)" by auto
  from base_events_refused [OF m this, of "sample_events m" _ sample_event] m show ?thesis by (simp add: sample_events_def sample_event_def cache_load_def)
qed

subsection \<open>A parent that is gone\<close>

definition sample_child :: "unit v1_EventType" where
  "sample_child = sample_type\<lparr>et1_Name := ''Smoke'', et1_ParentId := Some ''main.Fire'', et1_Fields := []\<rparr>"

definition failed_creation :: "unit ev_request list" where
  "failed_creation = [EvCreate sample_env None 7 1 sample_type, EvCreate sample_env (Some (OtherError ''log storage'')) 8 2 sample_child, EvDelete sample_env ''main.Fire'' ''1'']"

lemma failed_creation_run: "Option.bind (ev_run (\<lambda>_. []) sample_dec sample_start failed_creation) (\<lambda>m. event_Init (em_files m)) = Some (Inl GoPanic)"
  by code_simp

text \<open>
  A failing log storage and two requests can leave a store with which the service does not start again: a type is written before its table is created and stays when that fails, its
  parent can then be deleted, and the next start follows the missing parent.
\<close>

theorem failed_creation_blocks_start:
  "\<exists>rs m. list_all admissible rs \<and> ev_run (\<lambda>_. []) sample_dec sample_start rs = Some m \<and> event_Init (em_files m) = Some (Inl GoPanic)"
proof -
  from failed_creation_run obtain m where "ev_run (\<lambda>_. []) sample_dec sample_start failed_creation = Some m" "event_Init (em_files m) = Some (Inl GoPanic)"
    by (auto simp: bind_eq_Some_conv simp del: ev_run.simps)
  moreover have "list_all admissible failed_creation" by code_simp
  ultimately show ?thesis by blast
qed

subsection \<open>The types of a thing\<close>

lemma active_not_saved:
  assumes "cache_load (es_active s) (filepath_Join things_resource t) = Some f" "f_obj f = Some a" "om_Version a \<noteq> []" "now \<noteq> 0"
  shows "es_active (cacheActiveThing e now s t typ) = es_active s"
proof -
  have "fst (Store_persist things_resource e (es_active s) \<lparr>om_Tenant = GetTenant, om_Name = [], om_ID = t, om_Version = [], om_ModTime = now, aet_ThingId = t, aet_EventTypes = ts\<rparr>) = es_active s" for ts
    using assms by (auto simp: Store_persist_def Let_def time_IsZero_def FsClient_Get_def FsClient_Create_def FsClient_Update_def split: prod.splits sum.splits)
  then show ?thesis by (auto simp: cacheActiveThing_def Let_def split: option.splits)
qed

definition active_types :: "'f events \<Rightarrow> string \<Rightarrow> string list option" where
  "active_types s t = map_option aet_EventTypes (Option.bind (cache_load (es_active s) (filepath_Join things_resource t)) f_obj)"

lemma saved_types:
  assumes "cache_load (es_active s) (filepath_Join things_resource t) = Some f" "f_obj f = Some a" "om_Version a = []" "pe_fault e = no_fault" "now \<noteq> 0"
    "cache_load (es_things s) t = Some (Some ts)" "typ \<notin> set ts"
  shows "\<exists>f a. cache_load (es_active (cacheActiveThing e now s t typ)) (filepath_Join things_resource t) = Some f \<and> f_obj f = Some a \<and> om_Version a \<noteq> [] \<and> aet_EventTypes a = ts @ [typ]"
  using assms
  by (simp add: cacheActiveThing_def Let_def Store_persist_def time_IsZero_def FsClient_Get_def FsClient_Update_def no_fault_def next_version_def FormatInt_def)

text \<open>
  Of the types of the events of a thing only the first two are saved. The object that is written has no version, the second write gives the file one, and every later write is
  refused as outdated and only logged.
\<close>

theorem third_active_type_lost:
  assumes new: "cache_load (es_things s) t = Some None" "cache_load (es_active s) (filepath_Join things_resource t) = None"
    and env: "pe_fault e1 = no_fault" "pe_fault e2 = no_fault" "n1 \<noteq> 0" "n2 \<noteq> 0" "n3 \<noteq> 0" and d: "distinct [a, b, c]"
  shows "let s' = cacheActiveThing e3 n3 (cacheActiveThing e2 n2 (cacheActiveThing e1 n1 s t a) t b) t c in
    cache_load (es_things s') t = Some (Some [a, b, c]) \<and> active_types s' t = Some [a, b]"
proof -
  let ?s1 = "cacheActiveThing e1 n1 s t a"
  have th1: "cache_load (es_things ?s1) t = Some (Some [a])" by (simp add: cacheActiveThing_def new Let_def)
  have "\<exists>f x. cache_load (es_active ?s1) (filepath_Join things_resource t) = Some f \<and> f_obj f = Some x \<and> om_Version x = []"
    using new env by (simp add: cacheActiveThing_def Let_def Store_persist_def time_IsZero_def FsClient_Get_def FsClient_Create_def no_fault_def)
  then obtain f x where 1: "cache_load (es_active ?s1) (filepath_Join things_resource t) = Some f" "f_obj f = Some x" "om_Version x = []" by blast
  let ?s2 = "cacheActiveThing e2 n2 ?s1 t b"
  have th2: "cache_load (es_things ?s2) t = Some (Some [a, b])" using d unfolding cacheActiveThing_def [of e2] th1 by (auto simp: Let_def)
  from saved_types [OF 1 env(2,4) th1, of b] d obtain f2 x2 where
    2: "cache_load (es_active ?s2) (filepath_Join things_resource t) = Some f2" "f_obj f2 = Some x2" "om_Version x2 \<noteq> []" "aet_EventTypes x2 = [a, b]" by auto
  let ?s3 = "cacheActiveThing e3 n3 ?s2 t c"
  have "cache_load (es_things ?s3) t = Some (Some [a, b, c])" using d unfolding cacheActiveThing_def [of e3] th2 by (auto simp: Let_def)
  moreover have "es_active ?s3 = es_active ?s2" by (rule active_not_saved [OF 2(1,2,3) env(5)])
  ultimately show ?thesis using 2 by (simp add: Let_def active_types_def)
qed

theorem third_active_type_lost_witness:
  "let s' = cacheActiveThing sample_env 9 (cacheActiveThing sample_env 8 (cacheActiveThing sample_env 7 (sample_events sample_start) ''t1'' ''a'') ''t1'' ''b'') ''t1'' ''c'' in
    cache_load (es_things s') ''t1'' = Some (Some [''a'', ''b'', ''c'']) \<and> active_types s' ''t1'' = Some [''a'', ''b'']"
  by (rule third_active_type_lost) (simp_all add: sample_events_def cache_load_def sample_env_def)

subsection \<open>The shifted times\<close>

definition day :: duration where "day = 24 * Hour"

lemma ttl_shift_exact:
  assumes "ValidateTTL (Some ttl) path = []"
  shows "ttl_shift ttl = (ttl - 7) * day"
proof -
  have "0 \<le> ttl" "ttl \<le> 106751" using assms by (auto simp: ValidateTTL_def MaxTTLDay_def split: if_splits)
  then show ?thesis by (simp add: ttl_shift_def wrap64_def day_def duration_units defaultEventTTL_def)
qed

definition stored_time :: "'f ev_row \<Rightarrow> time option" where
  "stored_time row = (case cache_load (rw_cells row) ''_time'' of Some (EvTime t) \<Rightarrow> Some t | _ \<Rightarrow> None)"

lemma load_cells: "k \<notin> fst ` set kvs \<Longrightarrow> cache_load (foldl (\<lambda>cs (k, v). cache_store k v cs) cs kvs) k = cache_load cs k"
  by (induction kvs arbitrary: cs) auto

text \<open>
  C33: an event that was fired at \<open>t\<close> lies in the range that a query for a period sends to the log storage exactly if \<open>t\<close> lies in the period moved by the days that the longest time to
  live of the asked types exceeds the one of its own type: a query over types with the same time to live finds exactly the events of the period, one over different ones asks for the
  wrong days.
\<close>

theorem query_period_shifted:
  assumes row: "CreateCustomEvent ev m et ce i cor eTag fds = Inr row" "ee_time ev (be_Time ce) = Some t" "''_time'' \<notin> fst ` set fds"
    and q: "store_ListEvents m now ets start stop thing flt names desc False limit = RangeQuery tds lo hi sel flt' limit' desc'"
    and ttl: "ValidateTTL (Some (et_TTL et)) path = []" "ValidateTTL (Some (max_ttl ets)) path = []"
  shows "\<exists>x. stored_time row = Some x \<and> (lo \<le> x \<and> x \<le> hi \<longleftrightarrow> start + (max_ttl ets - et_TTL et) * day \<le> t \<and> t \<le> stop + (max_ttl ets - et_TTL et) * day)"
proof -
  have cells: "rw_cells row = foldl (\<lambda>cs (k, v). cache_store k v cs) (base_cells et t i cor eTag (be_TypeId ce)) fds"
    using row(1,2) by (auto simp: CreateCustomEvent_def)
  have "cache_load (rw_cells row) ''_time'' = Some (EvTime (t + ttl_shift (et_TTL et)))"
    unfolding cells load_cells [OF row(3)] by (simp add: base_cells_def cache_load_def)
  then have "stored_time row = Some (t + (et_TTL et - 7) * day)" by (simp add: stored_time_def ttl_shift_exact [OF ttl(1)])
  moreover have "lo = start + (max_ttl ets - 7) * day" "hi = stop + (max_ttl ets - 7) * day"
    using q ttl_shift_exact [OF ttl(2)] by (auto simp: store_ListEvents_def Let_def)
  ultimately show ?thesis by (intro exI [of _ "t + (et_TTL et - 7) * day"]) (auto simp: algebra_simps)
qed

definition short_lived :: EventType where
  "short_lived = fundamental_type ''main.Short'' ''Short'' 7 []"

theorem query_period_shifted_witness:
  "\<exists>row x tds lo hi sel flt lim d. CreateCustomEvent sample_ev sample_start short_lived sample_event ''i'' ''c'' ''1'' [] = Inr row \<and>
     ee_time sample_ev (be_Time sample_event) = Some 9 \<and> stored_time row = Some x \<and>
     store_ListEvents sample_start 0 [short_lived, short_lived\<lparr>et_TTL := 30\<rparr>] 5 10 [] ([] :: (string, int json_val) smap) [] True False 10 = RangeQuery tds lo hi sel flt lim d \<and>
     \<not> (lo \<le> x \<and> x \<le> hi)"
proof -
  let ?ets = "[short_lived, short_lived\<lparr>et_TTL := 30\<rparr>]"
  obtain row where row: "CreateCustomEvent sample_ev sample_start short_lived sample_event ''i'' ''c'' ''1'' [] = Inr row"
    by (simp add: CreateCustomEvent_def sample_ev_def)
  obtain tds lo hi sel flt lim d where q: "store_ListEvents sample_start 0 ?ets 5 10 [] ([] :: (string, int json_val) smap) [] True False 10 = RangeQuery tds lo hi sel flt lim d"
    by (simp add: store_ListEvents_def Let_def)
  have ttl: "max_ttl ?ets = 30" "et_TTL short_lived = 7" by (simp_all add: max_ttl_def short_lived_def fundamental_type_def)
  have t: "ee_time sample_ev (be_Time sample_event) = Some 9" by (simp add: sample_ev_def)
  have v: "ValidateTTL (Some (et_TTL short_lived)) [] = []" "ValidateTTL (Some (max_ttl ?ets)) [] = []" unfolding ttl by (simp_all add: ValidateTTL_def MaxTTLDay_def)
  from query_period_shifted [OF row t _ q v] obtain x where "stored_time row = Some x" "\<not> (lo \<le> x \<and> x \<le> hi)"
    by (auto simp: ttl day_def duration_units)
  with row q t show ?thesis by blast
qed

end
