(* ===== verification/Command_Types.thy ===== *)
theory Command_Types
  imports Events Thing_Inheritance
begin

text \<open>
  The command types of agents (\<open>src/pkg/control/{command,validation,runtime,v1}\<close>). A command type belongs to a thing type below the base agent; it inherits the options of the command type
  of the same name of the nearest thing type above.

  Command types share their options: the index of a type points to its own options and to those of the types above, and an update writes through the pointers. The options are therefore
  kept in a heap (a list; addresses are positions), and a cached type holds addresses. A file holds a copy, as \<open>gob\<close> encodes it: pointers to zero values decode as nil.
\<close>

subsection \<open>Data\<close>

datatype cmd_Datatype = CmdString | CmdInt | CmdDouble | CmdBool | CmdTimestamp | CmdEnum

fun cmd_DatatypeToString :: "cmd_Datatype \<Rightarrow> string" where
  "cmd_DatatypeToString CmdString = ''string''"
| "cmd_DatatypeToString CmdInt = ''int''"
| "cmd_DatatypeToString CmdDouble = ''double''"
| "cmd_DatatypeToString CmdBool = ''bool''"
| "cmd_DatatypeToString CmdTimestamp = ''timestamp''"
| "cmd_DatatypeToString CmdEnum = ''enum''"

definition cmd_DatatypeFromString :: "(string \<times> cmd_Datatype) list" where
  "cmd_DatatypeFromString = [(''string'', CmdString), (''int'', CmdInt), (''double'', CmdDouble), (''bool'', CmdBool), (''timestamp'', CmdTimestamp), (''enum'', CmdEnum)]"

interpretation cmd_dtypes: codec cmd_DatatypeToString "map_of cmd_DatatypeFromString"
proof unfold_locales
  show "map_of cmd_DatatypeFromString (cmd_DatatypeToString x) = Some x" for x
    by (cases x) (simp_all add: cmd_DatatypeFromString_def)
  show "cmd_DatatypeToString x = s" if "map_of cmd_DatatypeFromString s = Some x" for s x
    using that by (simp add: cmd_DatatypeFromString_def split: if_splits)
qed

type_synonym json = "float64 json_val"

text \<open>A default that is nil is \<open>None\<close>.\<close>

record v1_Option =
  o1_Name :: string
  o1_Description :: "string option"
  o1_Required :: bool
  o1_Filterable :: bool
  o1_Datatype :: cmd_Datatype
  o1_Values :: "string list"
  o1_Default :: "json option"
  o1_Min :: "float64 option"
  o1_Max :: "float64 option"

record v1_CommandType =
  ct1_Name :: string
  ct1_Description :: "string option"
  ct1_Ack :: bool
  ct1_Options :: "v1_Option list"

record cmd_Option =
  opt_Name :: string
  opt_Description :: "string option"
  opt_Required :: bool
  opt_Filterable :: bool
  opt_Datatype :: cmd_Datatype
  opt_Values :: "string list"
  opt_Default :: "json option"
  opt_Min :: "float64 option"
  opt_Max :: "float64 option"

type_synonym addr = nat
type_synonym heap = "cmd_Option list"

text \<open>A cached type, with addresses, and the object in a file.\<close>

record CommandType = ObjectMeta +
  ct_TypeId :: string
  ct_Description :: "string option"
  ct_Ack :: bool
  ct_User :: string
  ct_ThingTypeId :: string
  ct_Options :: "addr list"
  ct_OptionByName :: "(string, addr) smap"

record CommandTypeFile = ObjectMeta +
  cf_TypeId :: string
  cf_Description :: "string option"
  cf_Ack :: bool
  cf_User :: string
  cf_ThingTypeId :: string
  cf_Options :: "cmd_Option list"
  cf_OptionByName :: "(string, cmd_Option) smap"

record cmd_manager =
  cm_heap :: heap
  cm_types :: "CommandType cache"
  cm_files :: "CommandTypeFile files"

abbreviation commandtypes :: string where "commandtypes \<equiv> ''commandtypes''"

definition ThingTypeBaseAgent :: string where "ThingTypeBaseAgent = ''main.BaseAgent''"

definition cmd_key :: "string \<Rightarrow> string \<Rightarrow> string" where
  "cmd_key thingTypeId i = thingTypeId @ ''.'' @ i"

definition gob_pointer :: "'a \<Rightarrow> 'a option \<Rightarrow> 'a option" where
  "gob_pointer zero p = (if p = Some zero then None else p)"

definition gob_float :: "float64 option \<Rightarrow> float64 option" where
  "gob_float p = (if p = Some 0 \<or> p = Some 0x8000000000000000 then None else p)"

definition gob_option :: "cmd_Option \<Rightarrow> cmd_Option" where
  "gob_option op = op\<lparr>opt_Description := gob_pointer [] (opt_Description op), opt_Min := gob_float (opt_Min op), opt_Max := gob_float (opt_Max op)\<rparr>"

definition cmd_encode :: "heap \<Rightarrow> CommandType \<Rightarrow> CommandTypeFile" where
  "cmd_encode h ct =
     \<lparr>om_Tenant = om_Tenant ct, om_Name = om_Name ct, om_ID = om_ID ct, om_Version = om_Version ct, om_ModTime = om_ModTime ct,
      cf_TypeId = ct_TypeId ct, cf_Description = gob_pointer [] (ct_Description ct), cf_Ack = ct_Ack ct, cf_User = ct_User ct, cf_ThingTypeId = ct_ThingTypeId ct,
      cf_Options = map (\<lambda>a. gob_option (h ! a)) (ct_Options ct), cf_OptionByName = map (\<lambda>(n, a). (n, gob_option (h ! a))) (ct_OptionByName ct)\<rparr>"

text \<open>Decoding allocates every option of the list and of the map.\<close>

definition cmd_decode :: "heap \<Rightarrow> CommandTypeFile \<Rightarrow> heap \<times> CommandType" where
  "cmd_decode h f =
     (let n = length h; k = n + length (cf_Options f) in
      (h @ cf_Options f @ map snd (cf_OptionByName f),
       \<lparr>om_Tenant = om_Tenant f, om_Name = om_Name f, om_ID = om_ID f, om_Version = om_Version f, om_ModTime = om_ModTime f,
        ct_TypeId = cf_TypeId f, ct_Description = cf_Description f, ct_Ack = cf_Ack f, ct_User = cf_User f, ct_ThingTypeId = cf_ThingTypeId f,
        ct_Options = [n..<k], ct_OptionByName = zip (map fst (cf_OptionByName f)) [k..<k + length (cf_OptionByName f)]\<rparr>))"

subsection \<open>Validation\<close>

definition cmd_preservedColumns :: "string list" where
  "cmd_preservedColumns = [''and'', ''import'', ''not'', ''return'', ''option'', ''test'', ''empty'', ''in'', ''or'', ''package'', ''builtin'', ''ttl'',
     ''seq'', ''thingid'', ''_time'', ''state'', ''code'', ''message'', ''typeid'', ''psn'']"

definition illegalOptionChars :: string where "illegalOptionChars = [CHR 0x2E, CHR 0x2F, CHR 0x5C]"

definition validateOptionName :: "string \<Rightarrow> string \<Rightarrow> field_error list" where
  "validateOptionName name path =
     (if name = [] then [Required path]
      else if \<not> ExcludesAll name illegalOptionChars then [Invalid path]
      else if ToLower name \<in> set cmd_preservedColumns then [Invalid path]
      else if \<not> IsColumnNameLengthInRange name 1 (255 - 4) then [TooLong path]
      else [])"

definition validateOptions :: "v1_Option list \<Rightarrow> string \<Rightarrow> field_error list" where
  "validateOptions os path =
     distinct_loop o1_Name (\<lambda>i. child (idx path i) ''name'')
       (\<lambda>i op. validateOptionName (o1_Name op) (child (idx path i) ''name'') @ ValidateDescription (o1_Description op) (child (idx path i) ''description'') @
              (if o1_Datatype op = CmdEnum \<and> o1_Values op = [] then [Required (child (idx path i) ''values'')] else [])) [] 0 os"

definition ValidateCommandType :: "v1_CommandType \<Rightarrow> field_error list" where
  "ValidateCommandType ct =
     ValidateObjectMeta (ct1_Name ct) ValidateTypeName @ ValidateDescription (ct1_Description ct) ''description'' @ validateOptions (ct1_Options ct) ''options''"

definition validateInheritOptionUpdate :: "v1_Option list \<Rightarrow> string list \<Rightarrow> string list \<Rightarrow> string \<Rightarrow> field_error list" where
  "validateInheritOptionUpdate news own known path =
     concat (map (\<lambda>(i, op). if o1_Name op \<in> set known \<and> o1_Name op \<notin> set own then [Forbidden (idx path i)] else []) (enumerate 0 news))"

definition optionUpdate_at :: "v1_Option list \<Rightarrow> string \<Rightarrow> cmd_Option \<Rightarrow> field_error list option" where
  "optionUpdate_at news path old =
     (case find (\<lambda>(j, no). o1_Name no = opt_Name old) (enumerate 0 news) of
        None \<Rightarrow> None
      | Some (j, no) \<Rightarrow> Some
          (ValidateImmutableField (o1_Datatype no) (opt_Datatype old) (child (idx path j) ''datatype'') @
           ValidateImmutableField (o1_Filterable no) (opt_Filterable old) (child (idx path j) ''filterable'')))"

definition validateOptionUpdate :: "v1_Option list \<Rightarrow> cmd_Option list \<Rightarrow> string \<Rightarrow> field_error list" where
  "validateOptionUpdate news olds path =
     (if length news < length olds then [Invalid path]
      else
        let rs = map (optionUpdate_at news path) olds in
        concat (map (\<lambda>r. case r of None \<Rightarrow> [] | Some es \<Rightarrow> es) rs) @ (if list_ex (\<lambda>r. r = None) rs then [Invalid path] else []))"

definition own_options :: "heap \<Rightarrow> CommandType \<Rightarrow> cmd_Option list" where
  "own_options h ct = map (\<lambda>a. h ! a) (ct_Options ct)"

definition ValidateCommandTypeUpdate :: "heap \<Rightarrow> v1_CommandType \<Rightarrow> CommandType \<Rightarrow> field_error list" where
  "ValidateCommandTypeUpdate h ct old =
     ValidateImmutableField (ct1_Name ct) (om_Name old) ''name'' @
     validateInheritOptionUpdate (ct1_Options ct) (map opt_Name (own_options h old)) (map fst (ct_OptionByName old)) ''options'' @
     validateOptionUpdate (ct1_Options ct) (own_options h old) ''options''"

subsection \<open>Queries\<close>

definition getCommandTypeById :: "cmd_manager \<Rightarrow> string \<Rightarrow> string \<Rightarrow> go_error + CommandType" where
  "getCommandTypeById m thingTypeId i = (case cache_load (cm_types m) (cmd_key thingTypeId i) of None \<Rightarrow> Inl ErrNotExist | Some ct \<Rightarrow> Inr ct)"

text \<open>The copy of an explosion leaves \<open>Ack\<close> out.\<close>

definition explodedCmdType :: "CommandType \<Rightarrow> CommandType" where
  "explodedCmdType ct = ct\<lparr>ct_Ack := False, ct_Options := map snd (ct_OptionByName ct)\<rparr>"

record 'v cmd_TypeFilter =
  ctf_Id :: string
  ctf_Tenant :: string
  ctf_Name :: "'v name_filter"
  ctf_ThingTypeId :: string

definition cmd_parseTypeFilter :: "('v \<Rightarrow> NameFilterFunc) \<Rightarrow> 'v cmd_TypeFilter \<Rightarrow> (CommandType \<Rightarrow> bool) list" where
  "cmd_parseTypeFilter dec f =
     [\<lambda>ct. ctf_Tenant f = om_Tenant ct] @
     (if ctf_Id f \<noteq> [] then [\<lambda>ct. ctf_Id f = ct_TypeId ct] else []) @
     type_name_predicates dec (ctf_Name f) om_Name @
     (if ctf_ThingTypeId f \<noteq> [] then [\<lambda>ct. ctf_ThingTypeId f = ct_ThingTypeId ct] else [])"

definition listCommandTypes :: "('v \<Rightarrow> NameFilterFunc) \<Rightarrow> cmd_manager \<Rightarrow> 'v cmd_TypeFilter \<Rightarrow> bool \<Rightarrow> CommandType list" where
  "listCommandTypes dec m f exploded =
     (let cts = list_matching (cmd_parseTypeFilter dec (f\<lparr>ctf_Tenant := GetTenant\<rparr>)) (cm_types m) in if exploded then map explodedCmdType cts else cts)"

subsection \<open>The types below\<close>

text \<open>The loop over a list that grows: the types behind the counter, and those still to visit.\<close>

partial_function (option) below_loop :: "thing_manager \<Rightarrow> ThingType list \<Rightarrow> ThingType list \<Rightarrow> ThingType list option" where
  "below_loop tm seen todo =
     (case todo of [] \<Rightarrow> Some seen | tt # tts \<Rightarrow> below_loop tm (seen @ [tt]) (tts @ getTypeChildren tm (om_ID tt)))"

definition getChildThingType :: "thing_manager \<Rightarrow> string \<Rightarrow> ThingType list option" where
  "getChildThingType tm i = below_loop tm [] (getTypeChildren tm i)"

text \<open>Options that are not known yet are added to an index.\<close>

definition add_option :: "heap \<Rightarrow> (string, addr) smap \<Rightarrow> addr \<Rightarrow> (string, addr) smap" where
  "add_option h index a = (if cache_load index (opt_Name (h ! a)) = None then cache_store (opt_Name (h ! a)) a index else index)"

definition derive_into :: "CommandType \<Rightarrow> cmd_manager \<Rightarrow> ThingType \<Rightarrow> cmd_manager" where
  "derive_into ct m ctt =
     (let key = cmd_key (om_ID ctt) (ct_TypeId ct) in
      case cache_load (cm_types m) key of
        None \<Rightarrow> m
      | Some cct \<Rightarrow> m\<lparr>cm_types := cache_store key (cct\<lparr>ct_OptionByName := foldl (add_option (cm_heap m)) (ct_OptionByName cct) (ct_Options ct)\<rparr>) (cm_types m)\<rparr>)"

definition derivedChainCommandType :: "thing_manager \<Rightarrow> cmd_manager \<Rightarrow> CommandType \<Rightarrow> cmd_manager option" where
  "derivedChainCommandType tm m ct = map_option (foldl (derive_into ct) m) (getChildThingType tm (ct_ThingTypeId ct))"

subsection \<open>Creation\<close>

text \<open>The search for the command type to inherit from.\<close>

partial_function (option) parent_loop :: "thing_manager \<Rightarrow> cmd_manager \<Rightarrow> string \<Rightarrow> string \<Rightarrow> (go_error + CommandType option) option" where
  "parent_loop tm m i ptt =
     (if ptt = [] \<or> ptt = ThingTypeBaseAgent then Some (Inr None)
      else case getCommandTypeById m ptt i of
        Inr pct \<Rightarrow> Some (Inr (Some (explodedCmdType pct)))
      | Inl _ \<Rightarrow>
          (case cache_load (tm_types tm) ptt of
             None \<Rightarrow> Some (Inl (ErrParentTypeNotFound ptt))
           | Some tt \<Rightarrow> parent_loop tm m i (tt_ParentTypeId tt)))"

text \<open>A new option; on creation it is filterable if it is required.\<close>

definition new_option :: "bool \<Rightarrow> v1_Option \<Rightarrow> cmd_Option" where
  "new_option filt op =
     \<lparr>opt_Name = o1_Name op, opt_Description = o1_Description op, opt_Required = o1_Required op, opt_Filterable = filt, opt_Datatype = o1_Datatype op,
      opt_Values = o1_Values op, opt_Default = o1_Default op, opt_Min = o1_Min op, opt_Max = o1_Max op\<rparr>"

fun create_options :: "string list \<Rightarrow> v1_Option list \<Rightarrow> heap \<Rightarrow> addr list \<Rightarrow> (string, addr) smap \<Rightarrow> go_error + heap \<times> addr list \<times> (string, addr) smap" where
  "create_options upper [] h own index = Inr (h, own, index)"
| "create_options upper (op # ops) h own index =
     (if o1_Name op \<in> set upper \<or> cache_load index (o1_Name op) \<noteq> None then Inl (ErrCommandOptionExists (o1_Name op))
      else create_options upper ops (h @ [new_option (o1_Required op) op]) (own @ [length h]) (cache_store (o1_Name op) (length h) index))"

definition inherit_index :: "heap \<Rightarrow> CommandType option \<Rightarrow> (string, addr) smap \<Rightarrow> (string, addr) smap" where
  "inherit_index h pct index = (case pct of None \<Rightarrow> index | Some p \<Rightarrow> foldl (\<lambda>ix a. cache_store (opt_Name (h ! a)) a ix) index (ct_Options p))"

definition above_names :: "CommandType option \<Rightarrow> string list" where
  "above_names pct = (case pct of None \<Rightarrow> [] | Some p \<Rightarrow> map fst (ct_OptionByName p))"

definition saveCommandType :: "persist_env \<Rightarrow> cmd_manager \<Rightarrow> CommandType \<Rightarrow> cmd_manager \<times> (go_error + string)" where
  "saveCommandType e m ct =
     (case Store_persist commandtypes e (cm_files m) (cmd_encode (cm_heap m) ct) of
        (fs, Inl err) \<Rightarrow> (m\<lparr>cm_files := fs\<rparr>, Inl err)
      | (fs, Inr None) \<Rightarrow> (m\<lparr>cm_files := fs\<rparr>, Inl GoPanic)
      | (fs, Inr (Some saved)) \<Rightarrow> (m\<lparr>cm_files := fs\<rparr>, Inr (om_Version saved)))"

definition new_command_type :: "time \<Rightarrow> string \<Rightarrow> nat \<Rightarrow> string \<Rightarrow> v1_CommandType \<Rightarrow> addr list \<Rightarrow> (string, addr) smap \<Rightarrow> CommandType" where
  "new_command_type now uuid seed thingTypeId obj own index =
     \<lparr>om_Tenant = GetTenant, om_Name = ct1_Name obj, om_ID = uuid, om_Version = FormatInt (int seed), om_ModTime = now,
      ct_TypeId = GetTenant @ ''.'' @ ct1_Name obj, ct_Description = ct1_Description obj, ct_Ack = ct1_Ack obj, ct_User = [], ct_ThingTypeId = thingTypeId,
      ct_Options = own, ct_OptionByName = index\<rparr>"

definition store_type :: "cmd_manager \<Rightarrow> CommandType \<Rightarrow> cmd_manager" where
  "store_type m ct = m\<lparr>cm_types := cache_store (cmd_key (ct_ThingTypeId ct) (ct_TypeId ct)) ct (cm_types m)\<rparr>"

definition create_below ::
  "persist_env \<Rightarrow> time \<Rightarrow> string \<Rightarrow> nat \<Rightarrow> thing_manager \<Rightarrow> cmd_manager \<Rightarrow> string \<Rightarrow> v1_CommandType \<Rightarrow> CommandType option \<Rightarrow> (cmd_manager \<times> (go_error + CommandType)) option" where
  "create_below e now uuid seed tm m thingTypeId obj pct =
     (case create_options (above_names pct) (ct1_Options obj) (cm_heap m) [] [] of
        Inl err \<Rightarrow> Some (m, Inl err)
      | Inr (h, own, index) \<Rightarrow>
          let rct = new_command_type now uuid seed thingTypeId obj own (inherit_index h pct index) in
          (case saveCommandType e (m\<lparr>cm_heap := h\<rparr>) rct of
             (m, Inl err) \<Rightarrow> Some (m, Inl err)
           | (m, Inr version) \<Rightarrow>
               let saved = rct\<lparr>om_Version := version\<rparr> in
               map_option (\<lambda>m. (m, Inr saved)) (derivedChainCommandType tm (store_type m saved) saved)))"

definition createCommandType ::
  "persist_env \<Rightarrow> time \<Rightarrow> string \<Rightarrow> nat \<Rightarrow> thing_manager \<Rightarrow> cmd_manager \<Rightarrow> string \<Rightarrow> v1_CommandType \<Rightarrow> (cmd_manager \<times> (go_error + CommandType)) option" where
  "createCommandType e now uuid seed tm m thingTypeId obj =
     (case cache_load (tm_types tm) thingTypeId of
        None \<Rightarrow> Some (m, Inl (ErrThingTypeNotFound thingTypeId))
      | Some tt \<Rightarrow>
          (case GetRootThingType tm thingTypeId of
             None \<Rightarrow> None
           | Some rtt \<Rightarrow>
               if map_option om_ID rtt \<noteq> Some ThingTypeBaseAgent then Some (m, Inl ErrRootThingTypeNotBaseAgent)
               else
                 let i = GetTenant @ ''.'' @ ct1_Name obj in
                 (case getCommandTypeById m thingTypeId i of
                    Inr _ \<Rightarrow> Some (m, Inl (ErrResourceExists i))
                  | Inl _ \<Rightarrow>
                      (case parent_loop tm m i (tt_ParentTypeId tt) of
                         None \<Rightarrow> None
                       | Some (Inl err) \<Rightarrow> Some (m, Inl err)
                       | Some (Inr pct) \<Rightarrow> create_below e now uuid seed tm m thingTypeId obj pct))))"

subsection \<open>Update\<close>

text \<open>
  The request works on a deep copy of the type (\<open>DeepCopyObject\<close>), here the values of its own options; \<open>known\<close> are the names of its index, which grows with the new options. Of an own
  option five fields are taken over.
\<close>

definition renew_option :: "string option \<Rightarrow> bool \<Rightarrow> json option \<Rightarrow> float64 option \<Rightarrow> float64 option \<Rightarrow> cmd_Option \<Rightarrow> cmd_Option" where
  "renew_option d r def lo hi op = op\<lparr>opt_Min := lo, opt_Max := hi, opt_Description := d, opt_Default := def, opt_Required := r\<rparr>"

fun update_options :: "string list \<Rightarrow> string list \<Rightarrow> cmd_Option list \<Rightarrow> v1_Option list \<Rightarrow> cmd_Option list" where
  "update_options own known new [] = new"
| "update_options own known new (op # ops) =
     (if o1_Name op \<notin> set known then update_options own (known @ [o1_Name op]) (new @ [new_option (o1_Filterable op) op]) ops
      else if o1_Name op \<in> set own then
        update_options own known
          (map (\<lambda>ro. if opt_Name ro = o1_Name op then renew_option (o1_Description op) (o1_Required op) (o1_Default op) (o1_Min op) (o1_Max op) ro else ro) new) ops
      else update_options own known new ops)"

text \<open>The cached type takes the options over: new ones are appended, own ones written through their pointers.\<close>

fun take_options :: "string list \<Rightarrow> cmd_Option list \<Rightarrow> heap \<Rightarrow> addr list \<Rightarrow> (string, addr) smap \<Rightarrow> heap \<times> addr list \<times> (string, addr) smap" where
  "take_options own [] h as index = (h, as, index)"
| "take_options own (op # ops) h as index =
     (case cache_load index (opt_Name op) of
        None \<Rightarrow> take_options own ops (h @ [op]) (as @ [length h]) (cache_store (opt_Name op) (length h) index)
      | Some a \<Rightarrow>
          if opt_Name op \<in> set own then
            take_options own ops (h[a := renew_option (opt_Description op) (opt_Required op) (opt_Default op) (opt_Min op) (opt_Max op) (h ! a)]) as index
          else take_options own ops h as index)"

text \<open>The object that is written: the own options of the copy, and the inherited ones of its index.\<close>

definition copied_file :: "heap \<Rightarrow> CommandType \<Rightarrow> cmd_Option list \<Rightarrow> CommandTypeFile" where
  "copied_file h new ops =
     (cmd_encode h new)\<lparr>cf_Options := map gob_option ops,
        cf_OptionByName := foldl (\<lambda>ix op. cache_store (opt_Name op) (gob_option op) ix) (map (\<lambda>(n, a). (n, gob_option (h ! a))) (ct_OptionByName new)) ops\<rparr>"

definition updateCommandType ::
  "persist_env \<Rightarrow> time \<Rightarrow> thing_manager \<Rightarrow> cmd_manager \<Rightarrow> string \<Rightarrow> string \<Rightarrow> v1_CommandType \<Rightarrow> CommandType \<Rightarrow> (cmd_manager \<times> (go_error + CommandType)) option" where
  "updateCommandType e now tm m i version obj new =
     (if version \<noteq> om_Version new then Some (m, Inl ErrMismatch)
      else
        let new = new\<lparr>om_ModTime := now, ct_Ack := ct1_Ack obj, ct_Description := ct1_Description obj\<rparr>;
            own = map opt_Name (own_options (cm_heap m) new);
            ops = update_options own (map fst (ct_OptionByName new)) (own_options (cm_heap m) new) (ct1_Options obj) in
        case Store_persist commandtypes e (cm_files m) (copied_file (cm_heap m) new ops) of
          (fs, Inl err) \<Rightarrow> Some (m\<lparr>cm_files := fs\<rparr>, Inl err)
        | (fs, Inr None) \<Rightarrow> Some (m\<lparr>cm_files := fs\<rparr>, Inl GoPanic)
        | (fs, Inr (Some saved)) \<Rightarrow>
            let m = m\<lparr>cm_files := fs\<rparr> in
            (case getCommandTypeById m (ct_ThingTypeId new) i of
               Inl err \<Rightarrow> Some (m, Inl err)
             | Inr old \<Rightarrow>
                 (case take_options (map opt_Name (own_options (cm_heap m) old)) ops (cm_heap m) (ct_Options old) (ct_OptionByName old) of
                    (h, as, index) \<Rightarrow>
                      let old = old\<lparr>ct_Description := ct_Description new, ct_Ack := ct_Ack new, om_ModTime := now, ct_Options := as, ct_OptionByName := index, om_Version := om_Version saved\<rparr>;
                          m = m\<lparr>cm_heap := h, cm_types := cache_store (cmd_key (ct_ThingTypeId new) i) old (cm_types m)\<rparr> in
                      map_option (\<lambda>m. (m, Inr old)) (derivedChainCommandType tm m old))))"

subsection \<open>Deletion\<close>

definition zero_CommandType :: CommandTypeFile where
  "zero_CommandType = \<lparr>om_Tenant = [], om_Name = [], om_ID = [], om_Version = [], om_ModTime = 0, cf_TypeId = [], cf_Description = None, cf_Ack = False, cf_User = [],
     cf_ThingTypeId = [], cf_Options = [], cf_OptionByName = []\<rparr>"

definition delete_file :: "persist_env \<Rightarrow> cmd_manager \<Rightarrow> CommandType \<Rightarrow> cmd_manager \<times> go_error option" where
  "delete_file e m ct =
     (case Store_persist commandtypes e (cm_files m) (zero_CommandType\<lparr>om_ID := om_ID ct, om_Version := om_Version ct\<rparr>) of
        (fs, Inl err) \<Rightarrow> (m\<lparr>cm_files := fs\<rparr>, Some err)
      | (fs, Inr _) \<Rightarrow> (m\<lparr>cm_files := fs\<rparr>, None))"

text \<open>The second result are the keys of the deletion jobs that the job manager is asked for.\<close>

definition deleteCommandType :: "persist_env \<Rightarrow> thing_manager \<Rightarrow> cmd_manager \<Rightarrow> string \<Rightarrow> string \<Rightarrow> string \<Rightarrow> cmd_manager \<times> string list \<times> (go_error + CommandType)" where
  "deleteCommandType e tm m thingTypeId i eTag =
     (if list_ex (\<lambda>tt. \<not> isl (getCommandTypeById m (om_ID tt) i)) (getTypeChildren tm thingTypeId) then (m, [], Inl (ErrChildTypeExist i))
      else case cache_load (cm_types m) (cmd_key thingTypeId i) of
        None \<Rightarrow> (m, [], Inl ErrNotExist)
      | Some ct \<Rightarrow>
          if om_Version ct \<noteq> eTag then (m, [], Inl ErrMismatch)
          else
            (case delete_file e (m\<lparr>cm_types := cache_delete (cmd_key thingTypeId i) (cm_types m)\<rparr>) ct of
               (m, Some err) \<Rightarrow> (m, [i], Inl err)
             | (m, None) \<Rightarrow> (m, [i], Inr ct)))"

text \<open>When a thing type goes, the command types whose key begins with its identifier go.\<close>

definition delete_of_type :: "(string \<Rightarrow> persist_env) \<Rightarrow> string \<Rightarrow> cmd_manager \<times> string list \<Rightarrow> string \<times> CommandType \<Rightarrow> cmd_manager \<times> string list" where
  "delete_of_type es thingTypeId mj kct =
     (case mj of (m, jobs) \<Rightarrow>
        if HasPrefix (fst kct) thingTypeId then
          (fst (delete_file (es (fst kct)) (m\<lparr>cm_types := cache_delete (fst kct) (cm_types m)\<rparr>) (snd kct)), jobs @ [om_ID (snd kct)])
        else (m, jobs))"

definition DeleteCommandTypes :: "(string \<Rightarrow> persist_env) \<Rightarrow> cmd_manager \<Rightarrow> string \<Rightarrow> cmd_manager \<times> string list" where
  "DeleteCommandTypes es m thingTypeId = foldl (delete_of_type es thingTypeId) (m, []) (cm_types m)"

subsection \<open>Start\<close>

definition load_type :: "cmd_manager \<Rightarrow> CommandTypeFile \<Rightarrow> cmd_manager" where
  "load_type m f = (case cmd_decode (cm_heap m) f of (h, ct) \<Rightarrow> store_type (m\<lparr>cm_heap := h\<rparr>) ct)"

partial_function (option) inherit_options_loop :: "thing_manager \<Rightarrow> cmd_manager \<Rightarrow> string \<Rightarrow> string \<Rightarrow> (string, addr) smap \<Rightarrow> (string, addr) smap option" where
  "inherit_options_loop tm m i ttId index =
     (if ttId = [] \<or> ttId = ThingTypeBaseAgent then Some index
      else case cache_load (tm_types tm) ttId of
        None \<Rightarrow> Some index
      | Some tt \<Rightarrow>
          inherit_options_loop tm m i (tt_ParentTypeId tt)
            (case getCommandTypeById m ttId i of Inl _ \<Rightarrow> index | Inr pct \<Rightarrow> foldl (add_option (cm_heap m)) index (ct_Options pct)))"

text \<open>A missing thing type is a nil pointer, which ends the process (\<open>Inl GoPanic\<close>).\<close>

definition inheritOptions :: "thing_manager \<Rightarrow> cmd_manager \<Rightarrow> CommandType \<Rightarrow> (string, addr) smap \<Rightarrow> (go_error + (string, addr) smap) option" where
  "inheritOptions tm m ct index =
     (case cache_load (tm_types tm) (ct_ThingTypeId ct) of
        None \<Rightarrow> Some (Inl GoPanic)
      | Some tt \<Rightarrow> map_option Inr (inherit_options_loop tm m (ct_TypeId ct) (tt_ParentTypeId tt) index))"

fun reindexCommandType :: "thing_manager \<Rightarrow> cmd_manager \<Rightarrow> string list \<Rightarrow> (go_error + cmd_manager) option" where
  "reindexCommandType tm m [] = Some (Inr m)"
| "reindexCommandType tm m (k # ks) =
     (case cache_load (cm_types m) k of
        None \<Rightarrow> reindexCommandType tm m ks
      | Some ct \<Rightarrow>
          if ct_Options ct = [] then reindexCommandType tm m ks
          else
            (case inheritOptions tm m ct (foldl (\<lambda>ix a. cache_store (opt_Name (cm_heap m ! a)) a ix) [] (ct_Options ct)) of
               None \<Rightarrow> None
             | Some (Inl err) \<Rightarrow> Some (Inl err)
             | Some (Inr index) \<Rightarrow> reindexCommandType tm (m\<lparr>cm_types := cache_store k (ct\<lparr>ct_OptionByName := index\<rparr>) (cm_types m)\<rparr>) ks))"

definition command_load :: "thing_manager \<Rightarrow> CommandTypeFile files \<Rightarrow> (go_error + cmd_manager) option" where
  "command_load tm fs =
     (let m = foldl load_type \<lparr>cm_heap = [], cm_types = [], cm_files = fs\<rparr> (LoadResource commandtypes fs) in reindexCommandType tm m (map fst (cm_types m)))"

subsection \<open>REST\<close>

definition cmd_REST_Create where
  "cmd_REST_Create render e now uuid seed tm m thingTypeId obj =
     (case ValidateFunc render ValidateCommandType obj of Some err \<Rightarrow> Some (m, Inl err) | None \<Rightarrow> createCommandType e now uuid seed tm m thingTypeId obj)"

definition cmd_REST_Update where
  "cmd_REST_Update render e now tm m thingTypeId i obj version =
     (case getCommandTypeById m thingTypeId i of
        Inl err \<Rightarrow> Some (m, Inl err)
      | Inr ct \<Rightarrow>
          (case ValidateUpdateFunc render ValidateCommandType (ValidateCommandTypeUpdate (cm_heap m)) obj ct of
             Some err \<Rightarrow> Some (m, Inl err)
           | None \<Rightarrow> updateCommandType e now tm m i version obj ct))"

end
