(* ===== verification/Command_Hierarchy.thy ===== *)
theory Command_Hierarchy
  imports Command_Types Event_Hierarchy
begin

text \<open>
  The index of a command type holds for every name the option of the nearest type above. The invariant, and that it is kept when options are added to a type and handed to the types below.
\<close>

context forest
begin

lemma descendants_up: "parent s c = Some p \<Longrightarrow> c \<in> descendants s u \<longleftrightarrow> p = u \<or> p \<in> descendants s u"
proof -
  assume p: "parent s c = Some p"
  then have "(c, p) \<in> up s" by (simp add: up_iff)
  then have "p = u \<or> (p, u) \<in> (up s)\<^sup>+ \<Longrightarrow> (c, u) \<in> (up s)\<^sup>+" by (blast intro: trancl_into_trancl2)
  moreover have "p = u \<or> (p, u) \<in> (up s)\<^sup>+" if "(c, u) \<in> (up s)\<^sup>+"
    using that p up_iff [of c _ s] by (metis converse_tranclE option.inject)
  ultimately show ?thesis by (auto simp: descendants_def)
qed

end

subsection \<open>Keys\<close>

definition type_id_ok :: "string \<Rightarrow> bool" where
  "type_id_ok i \<longleftrightarrow> (\<exists>n. i = GetTenant @ ''.'' @ n \<and> CHR ''.'' \<notin> set n)"

lemma last_dot: "xs @ CHR ''.'' # n = ys @ CHR ''.'' # n' \<Longrightarrow> CHR ''.'' \<notin> set n \<Longrightarrow> CHR ''.'' \<notin> set n' \<Longrightarrow> xs = ys \<and> n = n'"
  by (auto simp: append_eq_append_conv2 append_eq_Cons_conv Cons_eq_append_conv)

lemma cmd_key_inj: "cmd_key t i = cmd_key t' i' \<Longrightarrow> type_id_ok i \<Longrightarrow> type_id_ok i' \<Longrightarrow> t = t' \<and> i = i'"
proof -
  assume eq: "cmd_key t i = cmd_key t' i'" and "type_id_ok i" "type_id_ok i'"
  then obtain n n' where i: "i = ''main.'' @ n" "CHR ''.'' \<notin> set n" "i' = ''main.'' @ n'" "CHR ''.'' \<notin> set n'" by (auto simp: type_id_ok_def GetTenant_def)
  have "(t @ ''.main'') @ CHR ''.'' # n = (t' @ ''.main'') @ CHR ''.'' # n'" using eq by (simp add: cmd_key_def i)
  from last_dot [OF this i(2,4)] show ?thesis by (simp add: i)
qed

subsection \<open>The types below\<close>

lemma below_loop_exact:
  assumes ok: "types_ok tm"
  shows "\<forall>tt\<in>set todo. om_ID tt \<noteq> [] \<Longrightarrow>
    \<exists>rs. below_loop tm seen todo = Some rs \<and> om_ID ` set rs = om_ID ` set seen \<union> (\<Union>tt\<in>set todo. insert (om_ID tt) (type_tree.descendants tm (om_ID tt)))"
proof (induction "type_tree.weight tm (map om_ID todo)" arbitrary: seen todo rule: less_induct)
  case less
  show ?case
  proof (cases todo)
    case Nil
    then show ?thesis by (subst below_loop.simps) simp
  next
    case (Cons tt tts)
    let ?ks = "getTypeChildren tm (om_ID tt)"
    have tt: "om_ID tt \<noteq> []" using less.prems Cons by simp
    have kids: "set (map om_ID ?ks) = {c. type_parent tm c = Some (om_ID tt)}" using getTypeChildren_ids [OF ok tt] by simp
    have "type_tree.weight tm (map om_ID (tts @ ?ks)) < type_tree.weight tm (map om_ID todo)"
      using type_tree.weight_less [OF ok kids, of "map om_ID tts"] by (simp add: Cons)
    moreover have "om_ID k \<noteq> []" if "k \<in> set ?ks" for k
      using that types_okD [OF ok] by (auto simp: getTypeChildren_set [OF ok tt])
    ultimately obtain rs where rs: "below_loop tm (seen @ [tt]) (tts @ ?ks) = Some rs"
      "om_ID ` set rs = om_ID ` set (seen @ [tt]) \<union> (\<Union>tt\<in>set (tts @ ?ks). insert (om_ID tt) (type_tree.descendants tm (om_ID tt)))"
      using less.hyps [of "tts @ ?ks" "seen @ [tt]"] less.prems Cons by auto
    have "below_loop tm seen todo = Some rs" using rs(1) by (subst below_loop.simps) (simp add: Cons)
    moreover have "type_tree.descendants tm (om_ID tt) = (\<Union>k\<in>set ?ks. insert (om_ID k) (type_tree.descendants tm (om_ID k)))"
      by (subst type_tree.descendants_unfold) (use kids [symmetric] in \<open>auto simp only: set_map image_iff UN_iff Un_iff insert_iff\<close>)
    ultimately show ?thesis using rs(2) by (auto simp: Cons)
  qed
qed

lemma getChildThingType_exact:
  assumes ok: "types_ok tm" "i \<noteq> []"
  obtains rs where "getChildThingType tm i = Some rs" "om_ID ` set rs = type_tree.descendants tm i"
proof -
  have kids: "om_ID ` set (getTypeChildren tm i) = {c. type_parent tm c = Some i}" using getTypeChildren_ids [OF ok] .
  have "\<forall>tt\<in>set (getTypeChildren tm i). om_ID tt \<noteq> []" using types_okD [OF ok(1)] by (auto simp: getTypeChildren_set [OF ok])
  from below_loop_exact [OF ok(1) this, of "[]"] obtain rs where rs: "getChildThingType tm i = Some rs"
    "om_ID ` set rs = (\<Union>tt\<in>set (getTypeChildren tm i). insert (om_ID tt) (type_tree.descendants tm (om_ID tt)))"
    by (auto simp: getChildThingType_def)
  moreover have "(\<Union>tt\<in>set (getTypeChildren tm i). insert (om_ID tt) (type_tree.descendants tm (om_ID tt))) = type_tree.descendants tm i"
    by (subst (2) type_tree.descendants_unfold) (use kids [symmetric] in \<open>auto simp only: image_iff UN_iff Un_iff insert_iff\<close>)
  ultimately show ?thesis by (intro that) simp_all
qed

subsection \<open>The nearest option\<close>

definition own_addr :: "cmd_manager \<Rightarrow> string \<Rightarrow> string \<Rightarrow> string \<Rightarrow> addr option" where
  "own_addr m i tt n = Option.bind (cache_load (cm_types m) (cmd_key tt i)) (\<lambda>ct. find (\<lambda>a. opt_Name (cm_heap m ! a) = n) (ct_Options ct))"

inductive visible :: "thing_manager \<Rightarrow> (string \<Rightarrow> string \<Rightarrow> addr option) \<Rightarrow> string \<Rightarrow> string \<Rightarrow> addr \<Rightarrow> bool" for tm own where
  here: "cache_load (tm_types tm) t = Some tt \<Longrightarrow> own t n = Some a \<Longrightarrow> visible tm own t n a"
| up: "cache_load (tm_types tm) t = Some tt \<Longrightarrow> own t n = None \<Longrightarrow> tt_ParentTypeId tt \<noteq> ThingTypeBaseAgent \<Longrightarrow> visible tm own (tt_ParentTypeId tt) n a \<Longrightarrow> visible tm own t n a"

inductive_cases visibleE: "visible tm own t n a"

lemma visible_stop: "cache_load (tm_types tm) t = None \<Longrightarrow> \<not> visible tm own t n a"
  by (auto elim: visibleE)

lemma visible_step:
  "cache_load (tm_types tm) t = Some tt \<Longrightarrow>
     visible tm own t n a \<longleftrightarrow> (case own t n of Some b \<Rightarrow> a = b | None \<Rightarrow> tt_ParentTypeId tt \<noteq> ThingTypeBaseAgent \<and> visible tm own (tt_ParentTypeId tt) n a)"
  by (auto elim: visibleE intro: visible.intros split: option.splits)

lemma visible_unique: "visible tm own t n a \<Longrightarrow> visible tm own t n b \<Longrightarrow> a = b"
  by (induction rule: visible.induct) (auto elim: visibleE)

lemma visible_own: "visible tm own t n a \<Longrightarrow> \<exists>t'. own t' n = Some a"
  by (induction rule: visible.induct) auto

text \<open>Options added to one type: they are seen from the types below that saw none of that name.\<close>

lemma visible_extend:
  assumes ok: "types_ok tm" and u: "u \<noteq> ThingTypeBaseAgent" "ThingTypeBaseAgent \<notin> type_tree.descendants tm u" "cache_load (tm_types tm) u \<noteq> None"
    and own': "\<And>t. own' t n = (if t = u \<and> own u n = None then new else own t n)"
    and fresh: "new \<noteq> None \<Longrightarrow> own u n = None \<Longrightarrow> \<nexists>b. visible tm own u n b"
  shows "visible tm own' t n a \<longleftrightarrow> visible tm own t n a \<or> (\<nexists>b. visible tm own t n b) \<and> t \<in> insert u (type_tree.descendants tm u) \<and> own u n = None \<and> new = Some a"
proof (induction t rule: type_walk [OF ok, consumes 0, case_names stop step])
  case (stop t)
  then have none: "cache_load (tm_types tm) t = None" using load_Nil [OF ok] by auto
  have "t \<notin> type_tree.descendants tm u"
  proof
    assume "t \<in> type_tree.descendants tm u"
    then have "(t, u) \<in> (type_tree.up tm)\<^sup>+" by (simp add: type_tree.descendants_def)
    then obtain p where "(t, p) \<in> type_tree.up tm" by (metis tranclD)
    with none show False by (simp add: type_tree.up_iff type_parent_def)
  qed
  with none u(3) show ?case by (auto simp: visible_stop)
next
  case (step t tt)
  let ?p = "tt_ParentTypeId tt"
  have below: "t \<in> type_tree.descendants tm u \<longleftrightarrow> ?p \<in> insert u (type_tree.descendants tm u)"
  proof (cases "?p = []")
    case True
    then have "type_parent tm t = None" using step(2) by (simp add: type_parent_def)
    then have "t \<notin> type_tree.descendants tm u" by (auto simp: type_tree.descendants_def type_tree.up_iff dest: tranclD)
    moreover have "[] \<notin> insert u (type_tree.descendants tm u)"
      using u(3) load_Nil [OF ok] by (auto simp: type_tree.descendants_def type_tree.up_iff type_parent_def dest!: tranclD)
    ultimately show ?thesis using True by simp
  next
    case False
    then have "type_parent tm t = Some ?p" using step(2) by (simp add: type_parent_def)
    then show ?thesis by (simp add: type_tree.descendants_up)
  qed
  show ?case
  proof (cases "t = u")
    case True
    have irr: "u \<notin> type_tree.descendants tm u" using type_tree.irrefl_up [OF ok] by (simp add: type_tree.descendants_def)
    have up: "visible tm own' ?p n a \<longleftrightarrow> visible tm own ?p n a" using step(3) below irr True by auto
    show ?thesis
    proof (cases "own t n")
      case (Some b)
      then have "own' t n = Some b" using True by (simp add: own')
      then have "visible tm own t n c \<longleftrightarrow> c = b" "visible tm own' t n c \<longleftrightarrow> c = b" for c using Some by (simp_all add: visible_step [OF step(2)])
      then show ?thesis by simp
    next
      case None
      then have own: "own' t n = new" "own u n = None" using True by (simp_all add: own')
      show ?thesis
      proof (cases new)
        case None
        with own \<open>own t n = None\<close> up show ?thesis by (simp add: visible_step [OF step(2)])
      next
        case (Some b)
        then have "visible tm own' t n a \<longleftrightarrow> a = b" using own by (simp add: visible_step [OF step(2)])
        moreover have "\<nexists>b. visible tm own t n b" using fresh own Some True by simp
        ultimately show ?thesis using Some own True by auto
      qed
    qed
  next
    case False
    have base: "ThingTypeBaseAgent \<notin> insert u (type_tree.descendants tm u)" using u by simp
    have own: "own' t n = own t n" using False by (simp add: own')
    show ?thesis
    proof (cases "own t n")
      case None
      have v: "visible tm own t n b \<longleftrightarrow> ?p \<noteq> ThingTypeBaseAgent \<and> visible tm own ?p n b" "visible tm own' t n b \<longleftrightarrow> ?p \<noteq> ThingTypeBaseAgent \<and> visible tm own' ?p n b" for b
        using None own by (simp_all add: visible_step [OF step(2)])
      show ?thesis unfolding v using False step(3) below base by auto
    next
      case (Some b)
      have v: "visible tm own t n c \<longleftrightarrow> c = b" "visible tm own' t n c \<longleftrightarrow> c = b" for c
        using Some own by (simp_all add: visible_step [OF step(2)])
      show ?thesis unfolding v by simp
    qed
  qed
qed


lemma visible_below:
  assumes ok: "types_ok tm" and u: "u \<noteq> ThingTypeBaseAgent" "ThingTypeBaseAgent \<notin> type_tree.descendants tm u" "visible tm own u n b"
  shows "t \<in> insert u (type_tree.descendants tm u) \<Longrightarrow> \<exists>b. visible tm own t n b"
proof (induction t rule: type_walk [OF ok, consumes 0, case_names stop step])
  case (stop t)
  then have none: "cache_load (tm_types tm) t = None" using load_Nil [OF ok] by auto
  have "t \<notin> type_tree.descendants tm u"
    using none by (auto simp: type_tree.descendants_def type_tree.up_iff type_parent_def dest!: tranclD)
  with stop.prems u(3) show ?case by auto
next
  case (step t tt)
  show ?case
  proof (cases "t = u")
    case False
    then have t: "t \<in> type_tree.descendants tm u" using step.prems by simp
    then have "tt_ParentTypeId tt \<noteq> []" using step(2) by (auto simp: type_tree.descendants_def type_tree.up_iff type_parent_def dest!: tranclD)
    from type_tree.descendants_up [OF type_parentI [OF step(2) this]] t have p: "tt_ParentTypeId tt \<in> insert u (type_tree.descendants tm u)" by simp
    with step.IH obtain b where "visible tm own (tt_ParentTypeId tt) n b" by blast
    moreover have "tt_ParentTypeId tt \<noteq> ThingTypeBaseAgent" using p u by auto
    ultimately show ?thesis by (cases "own t n") (auto simp: visible_step [OF step(2)])
  qed (use u(3) in blast)
qed

lemma unseen_own:
  assumes "types_ok tm" "u \<noteq> ThingTypeBaseAgent" "ThingTypeBaseAgent \<notin> type_tree.descendants tm u" "cache_load (tm_types tm) u \<noteq> None"
    "\<nexists>b. visible tm own t n b" "t \<in> insert u (type_tree.descendants tm u)"
  shows "own u n = None"
proof (rule ccontr)
  assume "own u n \<noteq> None"
  with assms(4) obtain b where "visible tm own u n b" by (auto intro: visible.here)
  from visible_below [OF assms(1-3) this assms(6)] assms(5) show False by blast
qed

subsection \<open>The invariant\<close>

definition agent_type :: "thing_manager \<Rightarrow> string \<Rightarrow> bool" where
  "agent_type tm t \<longleftrightarrow> cache_load (tm_types tm) t \<noteq> None \<and> t \<noteq> ThingTypeBaseAgent \<and> ThingTypeBaseAgent \<notin> type_tree.descendants tm t"

definition cmd_type_ok :: "thing_manager \<Rightarrow> cmd_manager \<Rightarrow> CommandType \<Rightarrow> bool" where
  "cmd_type_ok tm m ct \<longleftrightarrow> type_id_ok (ct_TypeId ct) \<and> agent_type tm (ct_ThingTypeId ct) \<and>
     (\<forall>a\<in>set (ct_Options ct). a < length (cm_heap m)) \<and> distinct (map (\<lambda>a. opt_Name (cm_heap m ! a)) (ct_Options ct)) \<and> cache_ok (ct_OptionByName ct) \<and>
     (\<forall>n a. cache_load (ct_OptionByName ct) n = Some a \<longleftrightarrow> visible tm (own_addr m (ct_TypeId ct)) (ct_ThingTypeId ct) n a)"

definition cmds_ok :: "thing_manager \<Rightarrow> cmd_manager \<Rightarrow> bool" where
  "cmds_ok tm m \<longleftrightarrow> cache_ok (cm_types m) \<and> (\<forall>k ct. cache_load (cm_types m) k = Some ct \<longrightarrow> k = cmd_key (ct_ThingTypeId ct) (ct_TypeId ct) \<and> cmd_type_ok tm m ct)"

lemma cmds_okD: "cmds_ok tm m \<Longrightarrow> cache_load (cm_types m) k = Some ct \<Longrightarrow> k = cmd_key (ct_ThingTypeId ct) (ct_TypeId ct) \<and> cmd_type_ok tm m ct"
  by (simp add: cmds_ok_def)

lemma cmds_ok_at: "cmds_ok tm m \<Longrightarrow> type_id_ok i \<Longrightarrow> cache_load (cm_types m) (cmd_key t i) = Some ct \<Longrightarrow> ct_ThingTypeId ct = t \<and> ct_TypeId ct = i"
  using cmd_key_inj cmds_okD by (metis cmd_type_ok_def)

lemma find_name: "distinct (map f xs) \<Longrightarrow> find (\<lambda>a. f a = n) xs = Some a \<longleftrightarrow> a \<in> set xs \<and> f a = n"
  by (induction xs) (auto simp: image_iff)

lemma find_append: "find P (xs @ ys) = (case find P xs of None \<Rightarrow> find P ys | Some x \<Rightarrow> Some x)"
  by (induction xs) simp_all

subsection \<open>Handing options down\<close>

lemma add_options_load: "cache_load (foldl (add_option h) ix as) n = (case cache_load ix n of Some a \<Rightarrow> Some a | None \<Rightarrow> find (\<lambda>a. opt_Name (h ! a) = n) as)"
  by (induction as arbitrary: ix) (auto simp: add_option_def split: option.splits)

lemma add_options_ok: "cache_ok ix \<Longrightarrow> cache_ok (foldl (add_option h) ix as)"
  by (induction as arbitrary: ix) (auto simp: add_option_def)

lemma add_options_known: "\<forall>a\<in>set as. cache_load ix (opt_Name (h ! a)) \<noteq> None \<Longrightarrow> foldl (add_option h) ix as = ix"
  by (induction as) (auto simp: add_option_def)

lemma add_options_idem: "foldl (add_option h) (foldl (add_option h) ix as) as = foldl (add_option h) ix as"
proof (rule add_options_known, rule ballI)
  fix a assume "a \<in> set as"
  then have "find (\<lambda>b. opt_Name (h ! b) = opt_Name (h ! a)) as \<noteq> None" by (auto simp: find_None_iff)
  then show "cache_load (foldl (add_option h) ix as) (opt_Name (h ! a)) \<noteq> None" by (auto simp: add_options_load split: option.splits)
qed

lemma derive_into_None: "cache_load (cm_types m) (cmd_key (om_ID tt) (ct_TypeId ct)) = None \<Longrightarrow> derive_into ct m tt = m"
  by (simp add: derive_into_def Let_def)

lemma derive_into_Some:
  "cache_load (cm_types m) (cmd_key (om_ID tt) (ct_TypeId ct)) = Some c \<Longrightarrow>
     derive_into ct m tt = m\<lparr>cm_types := cache_store (cmd_key (om_ID tt) (ct_TypeId ct)) (c\<lparr>ct_OptionByName := foldl (add_option (cm_heap m)) (ct_OptionByName c) (ct_Options ct)\<rparr>) (cm_types m)\<rparr>"
  by (simp add: derive_into_def Let_def)

lemma derive_fold:
  "cm_heap (foldl (derive_into ct) m tts) = cm_heap m \<and> cm_files (foldl (derive_into ct) m tts) = cm_files m \<and>
   (cache_ok (cm_types m) \<longrightarrow> cache_ok (cm_types (foldl (derive_into ct) m tts))) \<and>
   (\<forall>k. cache_load (cm_types (foldl (derive_into ct) m tts)) k = map_option (\<lambda>c. if k \<in> (\<lambda>tt. cmd_key (om_ID tt) (ct_TypeId ct)) ` set tts
      then c\<lparr>ct_OptionByName := foldl (add_option (cm_heap m)) (ct_OptionByName c) (ct_Options ct)\<rparr> else c) (cache_load (cm_types m) k))"
proof (induction tts rule: rev_induct)
  case Nil
  then show ?case by (simp add: option.map_ident)
next
  case (snoc tt tts)
  let ?m = "foldl (derive_into ct) m tts" and ?k = "cmd_key (om_ID tt) (ct_TypeId ct)"
  show ?case
  proof (cases "cache_load (cm_types m) ?k")
    case None
    then have "derive_into ct ?m tt = ?m" using snoc by (simp add: derive_into_None)
    with snoc None show ?thesis by (auto intro!: option.map_cong)
  next
    case (Some c)
    then obtain c' where c': "cache_load (cm_types ?m) ?k = Some c'"
      "c' = c \<or> c' = c\<lparr>ct_OptionByName := foldl (add_option (cm_heap m)) (ct_OptionByName c) (ct_Options ct)\<rparr>" using snoc by (simp split: if_splits)
    then have "c'\<lparr>ct_OptionByName := foldl (add_option (cm_heap m)) (ct_OptionByName c') (ct_Options ct)\<rparr> = c\<lparr>ct_OptionByName := foldl (add_option (cm_heap m)) (ct_OptionByName c) (ct_Options ct)\<rparr>"
      by (auto simp: add_options_idem)
    then have "derive_into ct ?m tt = ?m\<lparr>cm_types := cache_store ?k (c\<lparr>ct_OptionByName := foldl (add_option (cm_heap m)) (ct_OptionByName c) (ct_Options ct)\<rparr>) (cm_types ?m)\<rparr>"
      using c'(1) snoc by (simp add: derive_into_Some)
    with snoc Some show ?thesis by (auto intro!: option.map_cong)
  qed
qed

subsection \<open>Adding options\<close>

text \<open>
  A type \<open>ct\<close> takes the place of the cached type at its key (or is new), with the options \<open>news\<close> behind the old ones, of names that were not seen from its thing type; its index has the
  new options. The own options of all types are then as before, but for the new ones.
\<close>

definition extends :: "thing_manager \<Rightarrow> cmd_manager \<Rightarrow> heap \<Rightarrow> CommandType \<Rightarrow> addr list \<Rightarrow> bool" where
  "extends tm m h ct news \<longleftrightarrow>
     length (cm_heap m) \<le> length h \<and> (\<forall>a < length (cm_heap m). opt_Name (h ! a) = opt_Name (cm_heap m ! a)) \<and>
     agent_type tm (ct_ThingTypeId ct) \<and> type_id_ok (ct_TypeId ct) \<and>
     ct_Options ct = (case cache_load (cm_types m) (cmd_key (ct_ThingTypeId ct) (ct_TypeId ct)) of None \<Rightarrow> [] | Some c \<Rightarrow> ct_Options c) @ news \<and>
     (\<forall>a\<in>set news. a < length h) \<and> distinct (map (\<lambda>a. opt_Name (h ! a)) news) \<and>
     (\<forall>a\<in>set news. \<nexists>b. visible tm (own_addr m (ct_TypeId ct)) (ct_ThingTypeId ct) (opt_Name (h ! a)) b) \<and>
     cache_ok (ct_OptionByName ct) \<and>
     (\<forall>n a. cache_load (ct_OptionByName ct) n = Some a \<longleftrightarrow> visible tm (own_addr m (ct_TypeId ct)) (ct_ThingTypeId ct) n a \<or>
        (\<nexists>b. visible tm (own_addr m (ct_TypeId ct)) (ct_ThingTypeId ct) n b) \<and> a \<in> set news \<and> opt_Name (h ! a) = n)"

lemma find_cong: "(\<And>a. a \<in> set xs \<Longrightarrow> P a = Q a) \<Longrightarrow> find P xs = find Q xs"
  by (induction xs) simp_all

lemma own_addr_extended:
  assumes ok: "cmds_ok tm m" and e: "extends tm m h ct news" and i: "type_id_ok i"
    and m': "cm_heap m' = h" "\<And>k. map_option ct_Options (cache_load (cm_types m') k) = map_option ct_Options (cache_load (cache_store (cmd_key (ct_ThingTypeId ct) (ct_TypeId ct)) ct (cm_types m)) k)"
  shows "own_addr m' i t n =
    (if i = ct_TypeId ct \<and> t = ct_ThingTypeId ct \<and> own_addr m i t n = None then find (\<lambda>a. opt_Name (h ! a) = n) news else own_addr m i t n)"
proof -
  have own: "own_addr m' i t n = Option.bind (map_option ct_Options (cache_load (cm_types m') (cmd_key t i))) (find (\<lambda>a. opt_Name (h ! a) = n))"
    by (cases "cache_load (cm_types m') (cmd_key t i)") (simp_all add: own_addr_def m'(1))
  have old: "find (\<lambda>a. opt_Name (h ! a) = n) (ct_Options c) = find (\<lambda>a. opt_Name (cm_heap m ! a) = n) (ct_Options c)" if "cache_load (cm_types m) k = Some c" for k c
    by (rule find_cong) (use cmds_okD [OF ok that] e in \<open>auto simp: cmd_type_ok_def extends_def\<close>)
  have key: "cmd_key t i = cmd_key (ct_ThingTypeId ct) (ct_TypeId ct) \<longleftrightarrow> t = ct_ThingTypeId ct \<and> i = ct_TypeId ct"
    using cmd_key_inj [OF _ i] e by (auto simp: extends_def)
  show ?thesis
  proof (cases "t = ct_ThingTypeId ct \<and> i = ct_TypeId ct")
    case True
    have cts: "ct_Options ct = (case cache_load (cm_types m) (cmd_key t i) of None \<Rightarrow> [] | Some c \<Rightarrow> ct_Options c) @ news" using e True by (simp add: extends_def)
    show ?thesis using True cts unfolding own m'(2)
      by (cases "cache_load (cm_types m) (cmd_key t i)") (auto simp: own_addr_def find_append old split: option.splits)
  next
    case False
    then show ?thesis using key unfolding own m'(2) by (cases "cache_load (cm_types m) (cmd_key t i)") (auto simp: own_addr_def old)
  qed
qed

lemma extend_visible:
  assumes types: "types_ok tm" and ok: "cmds_ok tm m" and e: "extends tm m h ct news" and i: "type_id_ok i"
    and m': "cm_heap m' = h" "\<And>k. map_option ct_Options (cache_load (cm_types m') k) = map_option ct_Options (cache_load (cache_store (cmd_key (ct_ThingTypeId ct) (ct_TypeId ct)) ct (cm_types m)) k)"
  shows "visible tm (own_addr m' i) t n a \<longleftrightarrow> visible tm (own_addr m i) t n a \<or>
    i = ct_TypeId ct \<and> (\<nexists>b. visible tm (own_addr m i) t n b) \<and> t \<in> insert (ct_ThingTypeId ct) (type_tree.descendants tm (ct_ThingTypeId ct)) \<and> a \<in> set news \<and> opt_Name (h ! a) = n"
proof (cases "i = ct_TypeId ct")
  case True
  let ?u = "ct_ThingTypeId ct"
  let ?new = "find (\<lambda>a. opt_Name (h ! a) = n) news"
  have u: "?u \<noteq> ThingTypeBaseAgent" "ThingTypeBaseAgent \<notin> type_tree.descendants tm ?u" "cache_load (tm_types tm) ?u \<noteq> None"
    using e by (simp_all add: extends_def agent_type_def)
  have new: "?new = Some b \<longleftrightarrow> b \<in> set news \<and> opt_Name (h ! b) = n" for b using e by (simp add: extends_def find_name)
  have "visible tm (own_addr m' i) t n a \<longleftrightarrow> visible tm (own_addr m i) t n a \<or>
      (\<nexists>b. visible tm (own_addr m i) t n b) \<and> t \<in> insert ?u (type_tree.descendants tm ?u) \<and> own_addr m i ?u n = None \<and> ?new = Some a"
  proof (rule visible_extend [OF types u])
    show "own_addr m' i t n = (if t = ?u \<and> own_addr m i ?u n = None then ?new else own_addr m i t n)" for t
      unfolding own_addr_extended [OF ok e i m'] using True by auto
    show "\<nexists>b. visible tm (own_addr m i) ?u n b" if "?new \<noteq> None" using that new e True by (auto simp: extends_def)
  qed
  moreover note unseen_own [OF types u, of "own_addr m i" t n]
  ultimately show ?thesis using True new by blast
next
  case False
  then have "own_addr m' i = own_addr m i" by (intro ext) (simp add: own_addr_extended [OF ok e i m'])
  with False show ?thesis by simp
qed

lemma extended_type_ok:
  assumes ok: "cmds_ok tm m" and e: "extends tm m h ct news" and heap: "cm_heap m' = h"
  shows "\<forall>a\<in>set (ct_Options ct). a < length (cm_heap m')" "distinct (map (\<lambda>a. opt_Name (cm_heap m' ! a)) (ct_Options ct))"
proof -
  let ?k = "cmd_key (ct_ThingTypeId ct) (ct_TypeId ct)"
  define olds where "olds = (case cache_load (cm_types m) ?k of None \<Rightarrow> [] | Some c \<Rightarrow> ct_Options c)"
  have h: "length (cm_heap m) \<le> length h" "\<And>a. a < length (cm_heap m) \<Longrightarrow> opt_Name (h ! a) = opt_Name (cm_heap m ! a)" using e by (simp_all add: extends_def)
  have olds: "\<forall>a\<in>set olds. a < length (cm_heap m)" "distinct (map (\<lambda>a. opt_Name (cm_heap m ! a)) olds)"
  proof -
    show "\<forall>a\<in>set olds. a < length (cm_heap m)" using cmds_okD [OF ok, of ?k] by (cases "cache_load (cm_types m) ?k") (simp_all add: olds_def cmd_type_ok_def)
    show "distinct (map (\<lambda>a. opt_Name (cm_heap m ! a)) olds)" using cmds_okD [OF ok, of ?k] by (cases "cache_load (cm_types m) ?k") (simp_all add: olds_def cmd_type_ok_def)
  qed
  have names: "map (\<lambda>a. opt_Name (h ! a)) olds = map (\<lambda>a. opt_Name (cm_heap m ! a)) olds" using olds(1) h(2) by simp
  have cts: "ct_Options ct = olds @ news" using e by (simp add: extends_def olds_def)
  have "\<exists>b. visible tm (own_addr m (ct_TypeId ct)) (ct_ThingTypeId ct) (opt_Name (cm_heap m ! a)) b" if a: "a \<in> set olds" for a
  proof -
    obtain c where c: "cache_load (cm_types m) ?k = Some c" "ct_Options c = olds" using a by (cases "cache_load (cm_types m) ?k") (simp_all add: olds_def)
    then have "own_addr m (ct_TypeId ct) (ct_ThingTypeId ct) (opt_Name (cm_heap m ! a)) = Some a" using a olds(2) by (simp add: own_addr_def find_name)
    moreover obtain tt where "cache_load (tm_types tm) (ct_ThingTypeId ct) = Some tt" using e by (auto simp: extends_def agent_type_def)
    ultimately show ?thesis by (blast intro: visible.here)
  qed
  then have "opt_Name (h ! a) \<noteq> opt_Name (h ! b)" if "a \<in> set olds" "b \<in> set news" for a b
    using that e olds(1) h(2) unfolding extends_def by metis
  moreover have "distinct (map (\<lambda>a. opt_Name (h ! a)) news)" "\<forall>a\<in>set news. a < length h" using e by (simp_all add: extends_def)
  moreover have "distinct (map (\<lambda>a. opt_Name (h ! a)) olds)" unfolding names by (rule olds(2))
  ultimately show "distinct (map (\<lambda>a. opt_Name (cm_heap m' ! a)) (ct_Options ct))" "\<forall>a\<in>set (ct_Options ct). a < length (cm_heap m')"
    using olds(1) h(1) unfolding cts heap map_append distinct_append by auto
qed

lemma extend_ok:
  assumes types: "types_ok tm" and ok: "cmds_ok tm m" and e: "extends tm m h ct news"
    and m1: "cm_heap m1 = h" "cm_types m1 = cache_store (cmd_key (ct_ThingTypeId ct) (ct_TypeId ct)) ct (cm_types m)"
  obtains m' where "derivedChainCommandType tm m1 ct = Some m'" "cmds_ok tm m'" "cm_heap m' = h" "cm_files m' = cm_files m1"
    "cache_load (cm_types m') (cmd_key (ct_ThingTypeId ct) (ct_TypeId ct)) = Some ct"
proof -
  let ?u = "ct_ThingTypeId ct" and ?i = "ct_TypeId ct"
  let ?k = "cmd_key ?u ?i"
  have ne: "?u \<noteq> []" using e load_Nil [OF types] by (auto simp: extends_def agent_type_def)
  obtain tts where tts: "getChildThingType tm ?u = Some tts" "om_ID ` set tts = type_tree.descendants tm ?u" by (rule getChildThingType_exact [OF types ne])
  define m' where "m' = foldl (derive_into ct) m1 tts"
  have id: "type_id_ok ?i" using e by (simp add: extends_def)
  let ?add = "\<lambda>c. c\<lparr>ct_OptionByName := foldl (add_option h) (ct_OptionByName c) (ct_Options ct)\<rparr>"
  have heap: "cm_heap m' = h" and files: "cm_files m' = cm_files m1" and cok: "cache_ok (cm_types m')"
    and load: "cache_load (cm_types m') k = map_option (\<lambda>c. if k \<in> (\<lambda>t. cmd_key t ?i) ` type_tree.descendants tm ?u then ?add c else c) (cache_load (cm_types m1) k)" for k
    using derive_fold [of ct m1 tts] ok unfolding m'_def [symmetric] tts(2) [symmetric] m1 by (simp_all add: cmds_ok_def image_image)
  have opts: "map_option ct_Options (cache_load (cm_types m') k) = map_option ct_Options (cache_load (cache_store ?k ct (cm_types m)) k)" for k
    unfolding load m1(2) option.map_comp by (rule option.map_cong0) simp
  note vis = extend_visible [OF types ok e _ heap opts]
  have irr: "?u \<notin> type_tree.descendants tm ?u" using type_tree.irrefl_up [OF types] by (simp add: type_tree.descendants_def)
  have below: "cmd_key t i \<in> (\<lambda>t. cmd_key t ?i) ` type_tree.descendants tm ?u \<longleftrightarrow> i = ?i \<and> t \<in> type_tree.descendants tm ?u" if "type_id_ok i" for t i
    using cmd_key_inj [OF _ that id] by blast
  have here: "cache_load (cm_types m') ?k = Some ct" unfolding load m1(2) using below [OF id] irr by simp
  have "k = cmd_key (ct_ThingTypeId c) (ct_TypeId c) \<and> cmd_type_ok tm m' c" if c_at: "cache_load (cm_types m') k = Some c" for k c
  proof (cases "k = ?k")
    case True
    then have c: "c = ct" using c_at here by simp
    show ?thesis unfolding c using True extended_type_ok [OF ok e heap] vis [OF id, of ?u] e by (simp add: cmd_type_ok_def extends_def)
  next
    case False
    then obtain c0 where c0: "cache_load (cm_types m) k = Some c0" and c: "c = (if k \<in> (\<lambda>t. cmd_key t ?i) ` type_tree.descendants tm ?u then ?add c0 else c0)"
      using c_at load [of k] by (cases "cache_load (cm_types m) k") (simp_all add: m1(2))
    note c0_ok = cmds_okD [OF ok c0]
    let ?t = "ct_ThingTypeId c0" and ?j = "ct_TypeId c0"
    have j: "type_id_ok ?j" using c0_ok by (simp add: cmd_type_ok_def)
    have c': "c = (if ?j = ?i \<and> ?t \<in> type_tree.descendants tm ?u then ?add c0 else c0)" using c c0_ok below [OF j] by simp
    have index: "cache_load (ct_OptionByName c) n = Some a \<longleftrightarrow> visible tm (own_addr m' ?j) ?t n a" for n a
    proof -
      have own: "find (\<lambda>a. opt_Name (h ! a) = n) (ct_Options ct) = own_addr m' ?i ?u n" using here heap by (simp add: own_addr_def)
      have new: "find (\<lambda>a. opt_Name (h ! a) = n) news = Some a \<longleftrightarrow> a \<in> set news \<and> opt_Name (h ! a) = n" using e by (simp add: extends_def find_name)
      have old: "cache_load (ct_OptionByName c0) n = Some a \<longleftrightarrow> visible tm (own_addr m ?j) ?t n a" for a using c0_ok by (simp add: cmd_type_ok_def)
      have u: "?u \<noteq> ThingTypeBaseAgent" "ThingTypeBaseAgent \<notin> type_tree.descendants tm ?u" "cache_load (tm_types tm) ?u \<noteq> None" using e by (simp_all add: extends_def agent_type_def)
      have tu: "?j = ?i \<Longrightarrow> ?t \<noteq> ?u" using False c0_ok by auto
      show ?thesis
      proof (cases "cache_load (ct_OptionByName c0) n")
        case (Some b)
        then have "cache_load (ct_OptionByName c) n = Some b" by (simp add: c' add_options_load)
        moreover have "visible tm (own_addr m ?j) ?t n x \<longleftrightarrow> x = b" for x using old [of x] Some by auto
        ultimately show ?thesis using vis [OF j, of ?t n a] by auto
      next
        case None
        then have none: "\<nexists>b. visible tm (own_addr m ?j) ?t n b" using old by simp
        show ?thesis
        proof (cases "?j = ?i \<and> ?t \<in> type_tree.descendants tm ?u")
          case True
          then have "own_addr m ?j ?u n = None" using unseen_own [OF types u none] by blast
          then have "own_addr m' ?i ?u n = find (\<lambda>a. opt_Name (h ! a) = n) news" using own_addr_extended [OF ok e id heap opts] True by simp
          then show ?thesis using vis [OF j, of ?t n a] none None True new by (simp add: c' add_options_load own)
        next
          case False
          then show ?thesis using vis [OF j, of ?t n a] none None tu by (auto simp: c')
        qed
      qed
    qed
    have "length (cm_heap m) \<le> length h" "\<forall>a < length (cm_heap m). opt_Name (h ! a) = opt_Name (cm_heap m ! a)" using e by (simp_all add: extends_def)
    then have "\<forall>a\<in>set (ct_Options c0). a < length h" "distinct (map (\<lambda>a. opt_Name (h ! a)) (ct_Options c0))"
      using c0_ok by (auto simp: cmd_type_ok_def cong: map_cong) 
    moreover have "ct_TypeId c = ?j" "ct_ThingTypeId c = ?t" "ct_Options c = ct_Options c0" "cache_ok (ct_OptionByName c)"
      using c0_ok by (simp_all add: c' cmd_type_ok_def add_options_ok)
    ultimately show ?thesis using c0_ok index heap by (simp add: cmd_type_ok_def)
  qed
  then have "cmds_ok tm m'" using cok by (simp add: cmds_ok_def)
  then show ?thesis using that [of m'] tts(1) heap files here by (simp add: derivedChainCommandType_def m'_def)
qed

end
