(* ===== verification/Command_Steps.thy ===== *)
theory Command_Steps
  imports Command_Hierarchy
begin

text \<open>Creation, update and deletion of command types return and keep the invariant.\<close>

lemma cmds_ok_cong: "cm_heap m' = cm_heap m \<Longrightarrow> cm_types m' = cm_types m \<Longrightarrow> cmds_ok tm m' = cmds_ok tm m"
  by (simp add: cmds_ok_def cmd_type_ok_def own_addr_def [abs_def])

subsection \<open>Creation\<close>

lemma parent_loop_returns:
  assumes types: "types_ok tm" and ok: "cmds_ok tm m" and i: "type_id_ok i"
  shows "\<exists>r. parent_loop tm m i p = Some r \<and>
    (\<forall>pct. r = Inr pct \<longrightarrow>
      (case pct of None \<Rightarrow> \<forall>n a. \<not> (p \<noteq> ThingTypeBaseAgent \<and> visible tm (own_addr m i) p n a)
       | Some c \<Rightarrow> cache_ok (ct_OptionByName c) \<and> ct_Options c = map snd (ct_OptionByName c) \<and>
           (\<forall>n a. cache_load (ct_OptionByName c) n = Some a \<longleftrightarrow> p \<noteq> ThingTypeBaseAgent \<and> visible tm (own_addr m i) p n a)))"
proof (induction p rule: type_walk [OF types, consumes 0, case_names stop step])
  case (stop p)
  then have none: "cache_load (tm_types tm) p = None" using load_Nil [OF types] by auto
  show ?case
  proof (cases "p = [] \<or> p = ThingTypeBaseAgent")
    case True
    then show ?thesis using none by (subst parent_loop.simps) (auto simp: visible_stop)
  next
    case False
    have "False" if "cache_load (cm_types m) (cmd_key p i) = Some c" for c
      using cmds_ok_at [OF ok i that] cmds_okD [OF ok that] none by (simp add: cmd_type_ok_def agent_type_def)
    then have "getCommandTypeById m p i = Inl ErrNotExist" by (cases "cache_load (cm_types m) (cmd_key p i)") (auto simp: getCommandTypeById_def)
    then show ?thesis using False none by (subst parent_loop.simps) simp
  qed
next
  case (step p tt)
  show ?case
  proof (cases "p = ThingTypeBaseAgent")
    case True
    then show ?thesis by (subst parent_loop.simps) simp
  next
    case False
    show ?thesis
    proof (cases "cache_load (cm_types m) (cmd_key p i)")
      case (Some c)
      then have "parent_loop tm m i p = Some (Inr (Some (explodedCmdType c)))" using False step(1) by (subst parent_loop.simps) (simp add: getCommandTypeById_def)
      moreover have "ct_ThingTypeId c = p" "ct_TypeId c = i" "cmd_type_ok tm m c" using cmds_ok_at [OF ok i Some] cmds_okD [OF ok Some] by simp_all
      ultimately show ?thesis using False by (simp add: explodedCmdType_def cmd_type_ok_def)
    next
      case None
      then have loop: "parent_loop tm m i p = parent_loop tm m i (tt_ParentTypeId tt)" using False step(1,2) by (subst parent_loop.simps) (simp add: getCommandTypeById_def)
      have "own_addr m i p n = None" for n using None by (simp add: own_addr_def)
      then have "(p \<noteq> ThingTypeBaseAgent \<and> visible tm (own_addr m i) p n a) = (tt_ParentTypeId tt \<noteq> ThingTypeBaseAgent \<and> visible tm (own_addr m i) (tt_ParentTypeId tt) n a)" for n a
        using False by (simp add: visible_step [OF step(2)])
      then show ?thesis using step(3) unfolding loop by (simp only:)
    qed
  qed
qed

text \<open>A list of options and its index.\<close>

definition indexed :: "heap \<Rightarrow> addr list \<Rightarrow> (string, addr) smap \<Rightarrow> bool" where
  "indexed h as ix \<longleftrightarrow> cache_ok ix \<and> (\<forall>a\<in>set as. a < length h) \<and> distinct (map (\<lambda>a. opt_Name (h ! a)) as) \<and>
     (\<forall>n a. cache_load ix n = Some a \<longleftrightarrow> a \<in> set as \<and> opt_Name (h ! a) = n)"

lemma indexed_snoc:
  assumes "indexed h as ix" "cache_load ix (opt_Name op) = None"
  shows "indexed (h @ [op]) (as @ [length h]) (cache_store (opt_Name op) (length h) ix)"
proof -
  have lt: "a < length h" if "a \<in> set as" for a using assms(1) that by (simp add: indexed_def)
  have names: "map (\<lambda>a. opt_Name ((h @ [op]) ! a)) as = map (\<lambda>a. opt_Name (h ! a)) as" using lt by (simp add: nth_append)
  have load: "cache_load ix n = Some a \<longleftrightarrow> a \<in> set as \<and> opt_Name (h ! a) = n" for n a using assms(1) by (simp add: indexed_def)
  have other: "opt_Name (h ! a) \<noteq> opt_Name op" if "a \<in> set as" for a using load [of "opt_Name op" a] assms(2) that by simp
  have "cache_load (cache_store (opt_Name op) (length h) ix) n = Some a \<longleftrightarrow> a \<in> set (as @ [length h]) \<and> opt_Name ((h @ [op]) ! a) = n" for n a
  proof (cases "a = length h")
    case True
    have "cache_load ix n \<noteq> Some (length h)" using load [of n "length h"] lt by auto
    then show ?thesis using True by simp
  next
    case False
    have "a \<in> set as \<Longrightarrow> opt_Name ((h @ [op]) ! a) = opt_Name (h ! a)" using lt by (simp add: nth_append)
    then show ?thesis using False load [of n a] other by auto
  qed
  moreover have "opt_Name op \<notin> (\<lambda>a. opt_Name (h ! a)) ` set as"
  proof
    assume "opt_Name op \<in> (\<lambda>a. opt_Name (h ! a)) ` set as"
    then obtain a where a: "opt_Name op = opt_Name (h ! a)" "a \<in> set as" by (rule imageE)
    with other [OF a(2)] show False by simp
  qed
  then have "distinct (map (\<lambda>a. opt_Name ((h @ [op]) ! a)) (as @ [length h]))" unfolding map_append names using assms(1) by (simp add: indexed_def)
  moreover have "\<forall>a\<in>set (as @ [length h]). a < length (h @ [op])" using lt by (auto simp: less_Suc_eq)
  ultimately show ?thesis using assms(1) unfolding indexed_def by blast
qed

lemma create_options_indexed:
  "create_options upper ops h own ix = Inr (h', own', ix') \<Longrightarrow> indexed h own ix \<Longrightarrow>
     \<exists>new news. h' = h @ new \<and> own' = own @ news \<and> indexed h' own' ix' \<and> (\<forall>a\<in>set news. opt_Name (h' ! a) \<notin> set upper)"
proof (induction ops arbitrary: h own ix)
  case (Cons op ops)
  let ?op = "new_option (o1_Required op) op"
  have name: "opt_Name ?op = o1_Name op" by (simp add: new_option_def)
  from Cons.prems(1) have new: "o1_Name op \<notin> set upper" "cache_load ix (o1_Name op) = None"
    and rest: "create_options upper ops (h @ [?op]) (own @ [length h]) (cache_store (o1_Name op) (length h) ix) = Inr (h', own', ix')"
    by (auto split: if_splits)
  have "indexed (h @ [?op]) (own @ [length h]) (cache_store (o1_Name op) (length h) ix)"
    using indexed_snoc [OF Cons.prems(2), of ?op] new(2) name by simp
  from Cons.IH [OF rest this] obtain xs ys where r: "h' = (h @ [?op]) @ xs" "own' = (own @ [length h]) @ ys" "indexed h' own' ix'" "\<forall>a\<in>set ys. opt_Name (h' ! a) \<notin> set upper" by blast
  then have "opt_Name (h' ! length h) = o1_Name op" by (simp add: name)
  with r new(1) show ?case by (intro exI [of _ "?op # xs"] exI [of _ "length h # ys"]) simp
qed simp

lemma index_above:
  "cache_ok xs \<Longrightarrow> \<forall>(n, a)\<in>set xs. f a = n \<Longrightarrow>
     cache_load (foldl (\<lambda>ix a. cache_store (f a) a ix) ix (map snd xs)) n = (case cache_load xs n of Some a \<Rightarrow> Some a | None \<Rightarrow> cache_load ix n)"
proof (induction xs arbitrary: ix)
  case (Cons x xs)
  obtain k a where x: "x = (k, a)" by (cases x)
  have k: "cache_load xs k = None" using Cons.prems(1) by (auto simp: x cache_ok_def cache_load_def map_of_eq_None_iff)
  have head: "cache_load (x # xs) n = (if n = k then Some a else cache_load xs n)" by (simp add: x cache_load_def)
  have "cache_ok xs" "\<forall>(n, a)\<in>set xs. f a = n" "f a = k" using Cons.prems by (auto simp: x cache_ok_def)
  then have "cache_load (foldl (\<lambda>ix a. cache_store (f a) a ix) ix (map snd (x # xs))) n = (case cache_load xs n of Some a \<Rightarrow> Some a | None \<Rightarrow> cache_load (cache_store k a ix) n)"
    using Cons.IH [of "cache_store k a ix"] by (simp add: x)
  then show ?case unfolding head using k by (simp split: option.split)
qed simp

lemma index_above_ok: "cache_ok ix \<Longrightarrow> cache_ok (foldl (\<lambda>ix a. cache_store (f a) a ix) ix as)"
  by (induction as arbitrary: ix) simp_all


text \<open>A thing type with the base agent as its root is not above the base agent.\<close>

lemma root_agent_type:
  assumes types: "types_ok tm" and t: "cache_load (tm_types tm) t = Some tt" "t \<noteq> ThingTypeBaseAgent" and r: "GetRootThingType tm t = Some (Some rtt)" "om_ID rtt = ThingTypeBaseAgent"
  shows "agent_type tm t"
proof -
  have "(t, ThingTypeBaseAgent) \<in> (type_tree.up tm)\<^sup>+" using GetRootThingType_root [OF types t(1)] r t(2) by (auto simp: type_tree.up_def)
  then have "ThingTypeBaseAgent \<notin> type_tree.descendants tm t" using type_tree.irrefl_up [OF types, of t] by (auto simp: type_tree.descendants_def dest: trancl_trans)
  with t show ?thesis by (simp add: agent_type_def)
qed

lemma create_extends:
  assumes types: "types_ok tm" and ok: "cmds_ok tm m" and i: "type_id_ok (GetTenant @ ''.'' @ ct1_Name obj)"
    and tt: "cache_load (tm_types tm) t = Some tt" "agent_type tm t" and new: "cache_load (cm_types m) (cmd_key t (GetTenant @ ''.'' @ ct1_Name obj)) = None"
    and p: "parent_loop tm m (GetTenant @ ''.'' @ ct1_Name obj) (tt_ParentTypeId tt) = Some (Inr pct)"
    and opts: "create_options (above_names pct) (ct1_Options obj) (cm_heap m) [] [] = Inr (h, own, ix)"
  shows "extends tm m h ((new_command_type now uuid seed t obj own (inherit_index h pct ix))\<lparr>om_Version := v\<rparr>) own"
proof -
  define i where "i = GetTenant @ ''.'' @ ct1_Name obj"
  have "indexed (cm_heap m) [] []" by (simp add: indexed_def)
  from create_options_indexed [OF opts this] obtain xs where h: "h = cm_heap m @ xs" and ix: "indexed h own ix" and fresh: "\<forall>a\<in>set own. opt_Name (h ! a) \<notin> set (above_names pct)" by auto
  have "own_addr m i t n = None" for n using new by (simp add: own_addr_def i_def)
  then have vis: "visible tm (own_addr m i) t n a \<longleftrightarrow> tt_ParentTypeId tt \<noteq> ThingTypeBaseAgent \<and> visible tm (own_addr m i) (tt_ParentTypeId tt) n a" for n a
    by (simp add: visible_step [OF tt(1)])
  have parent: "case pct of None \<Rightarrow> \<forall>n a. \<not> visible tm (own_addr m i) t n a
      | Some c \<Rightarrow> cache_ok (ct_OptionByName c) \<and> ct_Options c = map snd (ct_OptionByName c) \<and> (\<forall>n a. cache_load (ct_OptionByName c) n = Some a \<longleftrightarrow> visible tm (own_addr m i) t n a)"
    using parent_loop_returns [OF types ok assms(3), of "tt_ParentTypeId tt"] p unfolding vis i_def [symmetric] by (auto split: option.splits)
  have names: "n \<in> set (above_names pct) \<longleftrightarrow> (\<exists>b. visible tm (own_addr m i) t n b)" for n
  proof (cases pct)
    case (Some c)
    have "n \<in> fst ` set (ct_OptionByName c) \<longleftrightarrow> (\<exists>a. cache_load (ct_OptionByName c) n = Some a)" by (metis cache_load_def map_of_eq_None_iff not_None_eq)
    with Some parent show ?thesis by (simp add: above_names_def)
  qed (use parent in \<open>simp add: above_names_def\<close>)
  have heap_name: "opt_Name (h ! a) = n" if v: "visible tm (own_addr m i) t n a" for n a
  proof -
    obtain t' where "own_addr m i t' n = Some a" using visible_own [OF v] by blast
    then obtain c where c: "cache_load (cm_types m) (cmd_key t' i) = Some c" and f: "find (\<lambda>a. opt_Name (cm_heap m ! a) = n) (ct_Options c) = Some a" by (auto simp: own_addr_def bind_eq_Some_conv)
    have "distinct (map (\<lambda>a. opt_Name (cm_heap m ! a)) (ct_Options c))" "\<forall>a\<in>set (ct_Options c). a < length (cm_heap m)" using cmds_okD [OF ok c] by (simp_all add: cmd_type_ok_def)
    with f show ?thesis by (simp add: find_name h nth_append)
  qed
  have index: "cache_load (inherit_index h pct ix) n = Some a \<longleftrightarrow> visible tm (own_addr m i) t n a \<or> (\<nexists>b. visible tm (own_addr m i) t n b) \<and> a \<in> set own \<and> opt_Name (h ! a) = n"
    and index_ok: "cache_ok (inherit_index h pct ix)" for n a
  proof -
    have own: "cache_load ix n = Some a \<longleftrightarrow> a \<in> set own \<and> opt_Name (h ! a) = n" for n a using ix by (simp add: indexed_def)
    show "cache_ok (inherit_index h pct ix)" using ix by (simp add: inherit_index_def indexed_def index_above_ok split: option.split)
    show "cache_load (inherit_index h pct ix) n = Some a \<longleftrightarrow> visible tm (own_addr m i) t n a \<or> (\<nexists>b. visible tm (own_addr m i) t n b) \<and> a \<in> set own \<and> opt_Name (h ! a) = n"
    proof (cases pct)
      case None
      then show ?thesis using parent own by (simp add: inherit_index_def)
    next
      case (Some c)
      then have c: "cache_ok (ct_OptionByName c)" "ct_Options c = map snd (ct_OptionByName c)" "\<And>n a. cache_load (ct_OptionByName c) n = Some a \<longleftrightarrow> visible tm (own_addr m i) t n a"
        using parent by simp_all
      have "\<forall>(n, a)\<in>set (ct_OptionByName c). opt_Name (h ! a) = n" using heap_name cache_load_of_set [OF c(1)] c(3) by blast
      then have "cache_load (inherit_index h pct ix) n = (case cache_load (ct_OptionByName c) n of Some a \<Rightarrow> Some a | None \<Rightarrow> cache_load ix n)"
        using index_above [OF c(1)] by (simp add: inherit_index_def Some c(2))
      then show ?thesis using c(3) [of n] own by (cases "cache_load (ct_OptionByName c) n") auto
    qed
  qed
  have "\<nexists>b. visible tm (own_addr m i) t (opt_Name (h ! a)) b" if "a \<in> set own" for a using fresh that names by blast
  moreover let ?ct = "(new_command_type now uuid seed t obj own (inherit_index h pct ix))\<lparr>om_Version := v\<rparr>"
  have ct: "ct_ThingTypeId ?ct = t" "ct_TypeId ?ct = i" "ct_Options ?ct = own" "ct_OptionByName ?ct = inherit_index h pct ix" by (simp_all add: new_command_type_def i_def)
  moreover have "length (cm_heap m) \<le> length h" "\<forall>a < length (cm_heap m). opt_Name (h ! a) = opt_Name (cm_heap m ! a)" by (simp_all add: h nth_append)
  moreover have "cache_load (cm_types m) (cmd_key t i) = None" "type_id_ok i" using new assms(3) by (simp_all add: i_def)
  ultimately show ?thesis using ix tt(2) index index_ok unfolding extends_def indexed_def ct by simp
qed

text \<open>New objects in the heap do not matter.\<close>

lemma heap_grown_ok:
  assumes ok: "cmds_ok tm m" and e: "extends tm m h ct news" and m': "cm_heap m' = h" "cm_types m' = cm_types m"
  shows "cmds_ok tm m'"
proof -
  have h: "length (cm_heap m) \<le> length h" "\<And>a. a < length (cm_heap m) \<Longrightarrow> opt_Name (h ! a) = opt_Name (cm_heap m ! a)" using e by (simp_all add: extends_def)
  have lt: "a < length (cm_heap m)" if "cache_load (cm_types m) k = Some c" "a \<in> set (ct_Options c)" for k c a using cmds_okD [OF ok that(1)] that(2) by (simp add: cmd_type_ok_def)
  have "own_addr m' i t n = own_addr m i t n" for i t n
  proof (cases "cache_load (cm_types m) (cmd_key t i)")
    case (Some c)
    have "find (\<lambda>a. opt_Name (h ! a) = n) (ct_Options c) = find (\<lambda>a. opt_Name (cm_heap m ! a) = n) (ct_Options c)" by (rule find_cong) (simp add: h(2) lt [OF Some])
    then show ?thesis by (simp add: own_addr_def m' Some)
  qed (simp add: own_addr_def m')
  then have own: "own_addr m' = own_addr m" by (intro ext)
  have "cmd_type_ok tm m' c" if c: "cache_load (cm_types m) k = Some c" for k c
  proof -
    have "map (\<lambda>a. opt_Name (h ! a)) (ct_Options c) = map (\<lambda>a. opt_Name (cm_heap m ! a)) (ct_Options c)" using h(2) lt [OF c] by simp
    then show ?thesis using cmds_okD [OF ok c] lt [OF c] h(1) unfolding cmd_type_ok_def own m'(1) by (metis order_less_le_trans)
  qed
  then show ?thesis using ok cmds_okD [OF ok] by (simp add: cmds_ok_def m'(2))
qed

lemma create_below_step:
  assumes types: "types_ok tm" and ok: "cmds_ok tm m" and i: "type_id_ok (GetTenant @ ''.'' @ ct1_Name obj)"
    and tt: "cache_load (tm_types tm) t = Some tt" "agent_type tm t" and new: "cache_load (cm_types m) (cmd_key t (GetTenant @ ''.'' @ ct1_Name obj)) = None"
    and p: "parent_loop tm m (GetTenant @ ''.'' @ ct1_Name obj) (tt_ParentTypeId tt) = Some (Inr pct)"
  shows "\<exists>m' r. create_below e now uuid seed tm m t obj pct = Some (m', r) \<and> cmds_ok tm m'"
proof (cases "create_options (above_names pct) (ct1_Options obj) (cm_heap m) [] []")
  case (Inl err)
  then show ?thesis using ok by (simp add: create_below_def)
next
  case (Inr r)
  obtain h own ix where r: "r = (h, own, ix)" by (cases r)
  let ?ct = "new_command_type now uuid seed t obj own (inherit_index h pct ix)"
  note ext = create_extends [OF types ok i tt new p Inr [unfolded r]]
  obtain m2 res where save: "saveCommandType e (m\<lparr>cm_heap := h\<rparr>) ?ct = (m2, res)" by fastforce
  then have m2: "cm_heap m2 = h" "cm_types m2 = cm_types m" by (auto simp: saveCommandType_def split: prod.splits sum.splits option.splits)
  show ?thesis
  proof (cases res)
    case (Inl err)
    have "cmds_ok tm m2" by (rule heap_grown_ok [OF ok ext m2])
    with Inl show ?thesis using save Inr r by (simp add: create_below_def)
  next
    case (Inr v)
    let ?saved = "?ct\<lparr>om_Version := v\<rparr>"
    obtain m' where "derivedChainCommandType tm (store_type m2 ?saved) ?saved = Some m'" "cmds_ok tm m'"
      by (rule extend_ok [OF types ok ext [where v = v and now = now and uuid = uuid and seed = seed], of "store_type m2 ?saved"]) (simp_all add: store_type_def m2)
    then show ?thesis using save Inr \<open>create_options _ _ _ _ _ = Inr r\<close> r by (simp add: create_below_def Let_def)
  qed
qed

lemma create_step:
  assumes types: "types_ok tm" and ok: "cmds_ok tm m" and i: "type_id_ok (GetTenant @ ''.'' @ ct1_Name obj)" and t: "t \<noteq> ThingTypeBaseAgent"
  shows "\<exists>m' r. createCommandType e now uuid seed tm m t obj = Some (m', r) \<and> cmds_ok tm m'"
proof (cases "cache_load (tm_types tm) t")
  case None
  then show ?thesis using ok by (simp add: createCommandType_def)
next
  case (Some tt)
  obtain rtt where root: "GetRootThingType tm t = Some (Some rtt)" using GetRootThingType_root [OF types Some] by blast
  show ?thesis
  proof (cases "om_ID rtt = ThingTypeBaseAgent \<and> cache_load (cm_types m) (cmd_key t (GetTenant @ ''.'' @ ct1_Name obj)) = None")
    case True
    then have agent: "agent_type tm t" using root_agent_type [OF types Some t root] by simp
    obtain r where r: "parent_loop tm m (GetTenant @ ''.'' @ ct1_Name obj) (tt_ParentTypeId tt) = Some r" using parent_loop_returns [OF types ok i] by blast
    show ?thesis
    proof (cases r)
      case (Inl err)
      then show ?thesis using ok True root r Some by (simp add: createCommandType_def Let_def getCommandTypeById_def)
    next
      case (Inr pct)
      then show ?thesis using create_below_step [OF types ok i Some agent conjunct2 [OF True], of pct] True root r Some by (simp add: createCommandType_def Let_def getCommandTypeById_def)
    qed
  qed (use ok root Some in \<open>auto simp: createCommandType_def Let_def getCommandTypeById_def split: option.splits\<close>)
qed

subsection \<open>Update\<close>

lemma renew_name [simp]: "opt_Name (renew_option d r def lo hi op) = opt_Name op"
  by (simp add: renew_option_def)

lemma update_name: "opt_Name (h[a := renew_option d r def lo hi (h ! a)] ! b) = opt_Name (h ! b)"
  by (cases "a < length h"; cases "a = b") (simp_all add: list_update_beyond)

lemma take_options_extends:
  "take_options own ops h as ix = (h', as', ix') \<Longrightarrow> cache_ok ix \<Longrightarrow>
     \<exists>news. as' = as @ news \<and> length h \<le> length h' \<and> (\<forall>a < length h. opt_Name (h' ! a) = opt_Name (h ! a)) \<and> (\<forall>a\<in>set news. a < length h') \<and>
       distinct (map (\<lambda>a. opt_Name (h' ! a)) news) \<and> cache_ok ix' \<and> (\<forall>a\<in>set news. cache_load ix (opt_Name (h' ! a)) = None) \<and>
       (\<forall>n a. cache_load ix' n = Some a \<longleftrightarrow> cache_load ix n = Some a \<or> cache_load ix n = None \<and> a \<in> set news \<and> opt_Name (h' ! a) = n)"
proof (induction ops arbitrary: h as ix)
  case Nil
  then show ?case by (intro exI [of _ "[]"]) simp
next
  case (Cons op ops)
  show ?case
  proof (cases "cache_load ix (opt_Name op)")
    case None
    let ?a = "length h"
    from None Cons.prems(1) have rest: "take_options own ops (h @ [op]) (as @ [?a]) (cache_store (opt_Name op) ?a ix) = (h', as', ix')" by simp
    from Cons.IH [OF rest cache_ok_store [OF Cons.prems(2)]] obtain news where
      n: "as' = (as @ [?a]) @ news" "length (h @ [op]) \<le> length h'" "\<forall>a < length (h @ [op]). opt_Name (h' ! a) = opt_Name ((h @ [op]) ! a)" "\<forall>a\<in>set news. a < length h'"
        "distinct (map (\<lambda>a. opt_Name (h' ! a)) news)" "cache_ok ix'" "\<forall>a\<in>set news. cache_load (cache_store (opt_Name op) ?a ix) (opt_Name (h' ! a)) = None"
      and load: "\<And>n a. cache_load ix' n = Some a \<longleftrightarrow> cache_load (cache_store (opt_Name op) ?a ix) n = Some a \<or> cache_load (cache_store (opt_Name op) ?a ix) n = None \<and> a \<in> set news \<and> opt_Name (h' ! a) = n"
      by blast
    have a: "opt_Name (h' ! ?a) = opt_Name op" using n(3) by simp
    have old: "\<forall>a < length h. opt_Name (h' ! a) = opt_Name (h ! a)" using n(3) by (simp add: nth_append)
    have fresh: "opt_Name (h' ! x) \<noteq> opt_Name op \<and> cache_load ix (opt_Name (h' ! x)) = None" if "x \<in> set news" for x using n(7) that by (auto split: if_splits)
    have "opt_Name op \<notin> (\<lambda>a. opt_Name (h' ! a)) ` set news" using fresh by (metis (no_types, lifting) imageE)
    then have "distinct (map (\<lambda>a. opt_Name (h' ! a)) (?a # news))" using n(5) a by simp
    moreover have "cache_load ix' m = Some x \<longleftrightarrow> cache_load ix m = Some x \<or> cache_load ix m = None \<and> x \<in> set (?a # news) \<and> opt_Name (h' ! x) = m" for m x
      using load [of m x] a None fresh by (cases "m = opt_Name op") auto
    ultimately show ?thesis using n a old fresh None by (intro exI [of _ "?a # news"]) auto
  next
    case (Some a)
    show ?thesis
    proof (cases "opt_Name op \<in> set own")
      case True
      let ?h = "h[a := renew_option (opt_Description op) (opt_Required op) (opt_Default op) (opt_Min op) (opt_Max op) (h ! a)]"
      from True Some Cons.prems(1) have "take_options own ops ?h as ix = (h', as', ix')" by simp
      from Cons.IH [OF this Cons.prems(2)] show ?thesis unfolding length_list_update update_name .
    next
      case False
      with Some Cons.prems have "take_options own ops h as ix = (h', as', ix')" by simp
      from Cons.IH [OF this Cons.prems(2)] show ?thesis .
    qed
  qed
qed

lemma update_step:
  assumes types: "types_ok tm" and ok: "cmds_ok tm m" and i: "type_id_ok i"
  shows "\<exists>m' r. updateCommandType e now tm m i version obj new = Some (m', r) \<and> cmds_ok tm m'"
proof -
  define new' where "new' = new\<lparr>om_ModTime := now, ct_Ack := ct1_Ack obj, ct_Description := ct1_Description obj\<rparr>"
  define ops where "ops = update_options (map opt_Name (own_options (cm_heap m) new')) (map fst (ct_OptionByName new')) (own_options (cm_heap m) new') (ct1_Options obj)"
  obtain fs res where save: "Store_persist commandtypes e (cm_files m) (copied_file (cm_heap m) new' ops) = (fs, res)" by fastforce
  let ?m = "m\<lparr>cm_files := fs\<rparr>"
  have same: "cmds_ok tm ?m" using ok cmds_ok_cong [of ?m m] by simp
  note def = updateCommandType_def [of e now tm m i version obj new, folded new'_def, unfolded Let_def, folded ops_def]
  show ?thesis
  proof (cases "version = om_Version new \<and> (\<exists>saved. res = Inr (Some saved)) \<and> cache_load (cm_types m) (cmd_key (ct_ThingTypeId new') i) \<noteq> None")
    case True
    then obtain saved old where saved: "res = Inr (Some saved)" and old: "cache_load (cm_types m) (cmd_key (ct_ThingTypeId new') i) = Some old" by auto
    have old_ok: "cmd_type_ok tm m old" "ct_ThingTypeId old = ct_ThingTypeId new'" "ct_TypeId old = i" using cmds_okD [OF ok old] cmds_ok_at [OF ok i old] by simp_all
    obtain h as ix where take: "take_options (map opt_Name (own_options (cm_heap m) old)) ops (cm_heap m) (ct_Options old) (ct_OptionByName old) = (h, as, ix)" by (metis prod_cases3)
    have "cache_ok (ct_OptionByName old)" using old_ok(1) by (simp add: cmd_type_ok_def)
    from take_options_extends [OF take this] obtain news where
      n: "as = ct_Options old @ news" "length (cm_heap m) \<le> length h" "\<forall>a < length (cm_heap m). opt_Name (h ! a) = opt_Name (cm_heap m ! a)" "\<forall>a\<in>set news. a < length h"
        "distinct (map (\<lambda>a. opt_Name (h ! a)) news)" "cache_ok ix" "\<forall>a\<in>set news. cache_load (ct_OptionByName old) (opt_Name (h ! a)) = None"
      and load: "\<And>n a. cache_load ix n = Some a \<longleftrightarrow> cache_load (ct_OptionByName old) n = Some a \<or> cache_load (ct_OptionByName old) n = None \<and> a \<in> set news \<and> opt_Name (h ! a) = n" by blast
    have vis: "cache_load (ct_OptionByName old) n = Some a \<longleftrightarrow> visible tm (own_addr m i) (ct_ThingTypeId new') n a" for n a using old_ok by (simp add: cmd_type_ok_def)
    then have none: "cache_load (ct_OptionByName old) n = None \<longleftrightarrow> (\<nexists>b. visible tm (own_addr m i) (ct_ThingTypeId new') n b)" for n by (metis not_Some_eq)
    define old' where "old' = old\<lparr>ct_Description := ct_Description new', ct_Ack := ct_Ack new', om_ModTime := now, ct_Options := as, ct_OptionByName := ix, om_Version := om_Version saved\<rparr>"
    have ct: "ct_ThingTypeId old' = ct_ThingTypeId new'" "ct_TypeId old' = i" "ct_Options old' = as" "ct_OptionByName old' = ix" using old_ok by (simp_all add: old'_def)
    have ext: "extends tm m h old' news"
      unfolding extends_def ct using n none load i old old_ok by (simp add: vis cmd_type_ok_def)
    let ?m1 = "?m\<lparr>cm_heap := h, cm_types := cache_store (cmd_key (ct_ThingTypeId new') i) old' (cm_types m)\<rparr>"
    obtain m' where m': "derivedChainCommandType tm ?m1 old' = Some m'" "cmds_ok tm m'" by (rule extend_ok [OF types ok ext, of ?m1]) (simp_all add: ct)
    have "updateCommandType e now tm m i version obj new = Some (m', Inr old')"
      unfolding def using True save saved old take m'(1) by (simp add: getCommandTypeById_def old'_def)
    with m'(2) show ?thesis by blast
  next
    case False
    then show ?thesis unfolding def using ok same save by (auto simp: getCommandTypeById_def split: option.splits sum.splits)
  qed
qed

subsection \<open>Deletion\<close>

lemma visible_elsewhere:
  assumes types: "types_ok tm" and own: "\<And>t. t \<noteq> u \<Longrightarrow> own' t n = own t n"
  shows "t \<notin> insert u (type_tree.descendants tm u) \<Longrightarrow> visible tm own' t n a \<longleftrightarrow> visible tm own t n a"
proof (induction t rule: type_walk [OF types, consumes 0, case_names stop step])
  case (stop t)
  then have "cache_load (tm_types tm) t = None" using load_Nil [OF types] by auto
  then show ?case by (simp add: visible_stop)
next
  case (step t tt)
  have same: "own' t n = own t n" using own step.prems by simp
  show ?case
  proof (cases "tt_ParentTypeId tt = []")
    case True
    then show ?thesis using same load_Nil [OF types] by (simp add: visible_step [OF step(2)] visible_stop split: option.split)
  next
    case False
    from type_tree.descendants_up [OF type_parentI [OF step(2) False]] step.prems have "tt_ParentTypeId tt \<notin> insert u (type_tree.descendants tm u)" by simp
    then show ?thesis using step.IH same by (simp add: visible_step [OF step(2)] split: option.split)
  qed
qed

lemma delete_type_ok:
  assumes types: "types_ok tm" and ok: "cmds_ok tm m" and i: "type_id_ok i" and none: "\<And>c. c \<in> type_tree.descendants tm u \<Longrightarrow> cache_load (cm_types m) (cmd_key c i) = None"
    and m': "cm_heap m' = cm_heap m" "cm_types m' = cache_delete (cmd_key u i) (cm_types m)"
  shows "cmds_ok tm m'"
proof -
  have own: "own_addr m' j t n = (if j = i \<and> t = u then None else own_addr m j t n)" if "type_id_ok j" for j t n
    using cmd_key_inj [OF _ that i, of t u] by (auto simp: own_addr_def m')
  have "cmd_type_ok tm m' c" if k: "k \<noteq> cmd_key u i" and c: "cache_load (cm_types m) k = Some c" for k c
  proof -
    note c_ok = cmds_okD [OF ok c]
    have j: "type_id_ok (ct_TypeId c)" using c_ok by (simp add: cmd_type_ok_def)
    have "visible tm (own_addr m' (ct_TypeId c)) (ct_ThingTypeId c) n a \<longleftrightarrow> visible tm (own_addr m (ct_TypeId c)) (ct_ThingTypeId c) n a" for n a
    proof (cases "ct_TypeId c = i")
      case True
      with k c c_ok none have "ct_ThingTypeId c \<notin> insert u (type_tree.descendants tm u)" by (metis insert_iff option.distinct(1))
      then show ?thesis by (rule visible_elsewhere [OF types, rotated]) (simp add: own [OF j])
    next
      case False
      then have "own_addr m' (ct_TypeId c) = own_addr m (ct_TypeId c)" by (intro ext) (simp add: own [OF j])
      then show ?thesis by simp
    qed
    then show ?thesis using c_ok by (simp add: cmd_type_ok_def m')
  qed
  then show ?thesis using ok cmds_okD [OF ok] by (auto simp: cmds_ok_def m' split: if_splits)
qed

lemma delete_step:
  assumes types: "types_ok tm" and ok: "cmds_ok tm m" and i: "type_id_ok i" and none: "\<And>c. c \<in> type_tree.descendants tm u \<Longrightarrow> cache_load (cm_types m) (cmd_key c i) = None"
  shows "cmds_ok tm (fst (deleteCommandType e tm m u i eTag))"
proof -
  have "fst (deleteCommandType e tm m u i eTag) = m \<or> cm_heap (fst (deleteCommandType e tm m u i eTag)) = cm_heap m \<and> cm_types (fst (deleteCommandType e tm m u i eTag)) = cache_delete (cmd_key u i) (cm_types m)"
    by (auto simp: deleteCommandType_def delete_file_def split: option.splits prod.splits sum.splits)
  then show ?thesis using ok delete_type_ok [OF types ok i none] by metis
qed

subsection \<open>Sequences of requests\<close>

datatype cmd_request =
    CmdCreate persist_env time string nat string v1_CommandType
  | CmdUpdate persist_env time string string v1_CommandType string
  | CmdDelete persist_env string string string

fun cmd_step :: "(field_error list \<Rightarrow> string) \<Rightarrow> thing_manager \<Rightarrow> cmd_manager \<Rightarrow> cmd_request \<Rightarrow> cmd_manager option" where
  "cmd_step render tm m (CmdCreate e now uuid seed t obj) = map_option fst (cmd_REST_Create render e now uuid seed tm m t obj)"
| "cmd_step render tm m (CmdUpdate e now t i obj version) = map_option fst (cmd_REST_Update render e now tm m t i obj version)"
| "cmd_step render tm m (CmdDelete e t i version) = Some (fst (deleteCommandType e tm m t i version))"

fun cmd_run :: "(field_error list \<Rightarrow> string) \<Rightarrow> thing_manager \<Rightarrow> cmd_manager \<Rightarrow> cmd_request list \<Rightarrow> cmd_manager option" where
  "cmd_run render tm m [] = Some m"
| "cmd_run render tm m (r # rs) = Option.bind (cmd_step render tm m r) (\<lambda>m'. cmd_run render tm m' rs)"

text \<open>
  Admissible requests: no type of the base agent itself; identifiers without further dots; and a deletion only where no type of the same name is below, over any number of levels (the
  code looks at one level).
\<close>

fun cmd_admissible :: "thing_manager \<Rightarrow> cmd_manager \<Rightarrow> cmd_request \<Rightarrow> bool" where
  "cmd_admissible tm m (CmdCreate e now uuid seed t obj) = (t \<noteq> ThingTypeBaseAgent)"
| "cmd_admissible tm m (CmdUpdate e now t i obj version) = type_id_ok i"
| "cmd_admissible tm m (CmdDelete e t i version) = (type_id_ok i \<and> (\<forall>c\<in>type_tree.descendants tm t. cache_load (cm_types m) (cmd_key c i) = None))"

fun cmd_run_admissible :: "(field_error list \<Rightarrow> string) \<Rightarrow> thing_manager \<Rightarrow> cmd_manager \<Rightarrow> cmd_request list \<Rightarrow> bool" where
  "cmd_run_admissible render tm m [] = True"
| "cmd_run_admissible render tm m (r # rs) = (cmd_admissible tm m r \<and> (\<forall>m'. cmd_step render tm m r = Some m' \<longrightarrow> cmd_run_admissible render tm m' rs))"

lemma valid_name_id: "ValidateCommandType obj = [] \<Longrightarrow> type_id_ok (GetTenant @ ''.'' @ ct1_Name obj)"
  by (auto simp: ValidateCommandType_def ValidateObjectMeta_def ValidateTypeName_def ExcludesAll_def illegalIDChars_def list_ex_iff type_id_ok_def split: if_splits)

lemma cmd_step_ok:
  assumes "types_ok tm" "cmds_ok tm m" "cmd_admissible tm m r"
  shows "\<exists>m'. cmd_step render tm m r = Some m' \<and> cmds_ok tm m'"
proof (cases r)
  case (CmdCreate e now uuid seed t obj)
  show ?thesis
  proof (cases "ValidateCommandType obj = []")
    case True
    then have "ValidateFunc render ValidateCommandType obj = None" by (simp add: ValidateFunc_def)
    then show ?thesis using create_step [OF assms(1,2) valid_name_id [OF True], of t e now uuid seed] assms(3) CmdCreate by (auto simp: cmd_REST_Create_def)
  next
    case False
    then show ?thesis using assms(2) CmdCreate by (simp add: cmd_REST_Create_def ValidateFunc_def)
  qed
next
  case (CmdUpdate e now t i obj version)
  show ?thesis
  proof (cases "getCommandTypeById m t i")
    case (Inr ct)
    show ?thesis
    proof (cases "ValidateUpdateFunc render ValidateCommandType (ValidateCommandTypeUpdate (cm_heap m)) obj ct")
      case None
      then show ?thesis using update_step [OF assms(1,2), of i e now version obj ct] assms(3) CmdUpdate Inr by (auto simp: cmd_REST_Update_def)
    qed (use assms(2) CmdUpdate Inr in \<open>simp add: cmd_REST_Update_def\<close>)
  qed (use assms(2) CmdUpdate in \<open>simp add: cmd_REST_Update_def\<close>)
next
  case (CmdDelete e t i version)
  then show ?thesis using delete_step [OF assms(1,2), of i t e version] assms(3) by simp
qed

lemma cmd_run_ok: "types_ok tm \<Longrightarrow> cmds_ok tm m \<Longrightarrow> cmd_run_admissible render tm m rs \<Longrightarrow> \<exists>m'. cmd_run render tm m rs = Some m' \<and> cmds_ok tm m'"
proof (induction rs arbitrary: m)
  case (Cons r rs)
  from cmd_step_ok [OF Cons.prems(1,2), of r render] Cons.prems(3) obtain m1 where "cmd_step render tm m r = Some m1" "cmds_ok tm m1" by auto
  then show ?case using Cons by simp
qed simp

end
