(* ===== verification/Exchange.thy ===== *)
theory Exchange
  imports Mappings Events
begin

text \<open>
  The exchange (\<open>src/pkg/exchange/{manager,dispatch}.go\<close>) between agents and things: upwards the values of data points, events and acknowledgements that agents send, downwards commands
  and actions. It follows the agents and mappings of the model manager through their watch events.

  A \<open>time.Time\<close> is an instant with a location, for it is a key of maps. The decoding of a payload (JSON, mapstructure) and the broker are arguments; messages and requests to the
  other services are outputs.
\<close>

subsection \<open>Data\<close>

record PropertySetInfo =
  psi_ThingId :: string
  psi_PropertySetName :: string

record PropertyInfo = PropertySetInfo +
  pi_PropertyName :: string

record DataPointInfo =
  di_AgentId :: string
  di_DataSourceId :: string
  di_DataPointId :: string

type_synonym zoned = "time \<times> string"

record 'f DataPointValue =
  dv_DataPointId :: string
  dv_Value :: "'f json_val"

record 'f TimeSeriesData =
  ts_Timestamp :: zoned
  ts_Values :: "'f DataPointValue list"

record 'f EventData =
  ed_Id :: string
  ed_CorrelationId :: string
  ed_Timestamp :: zoned
  ed_Type :: string
  ed_Fields :: "(string, 'f json_val) smap"

record AckData =
  ak_Seq :: string
  ak_Code :: int
  ak_Message :: "string option"

datatype AgentDataType = AgentDataTypeTimeSeries | AgentDataTypeEvent | AgentDataTypeCtrlAck

text \<open>A payload, with what its data decodes to as each kind of data.\<close>

record 'f AgentPayload =
  ap_Type :: AgentDataType
  ap_DataSourceId :: "string option"
  ap_series :: "'f TimeSeriesData list option"
  ap_events :: "'f EventData list option"
  ap_acks :: "AckData list option"

record 'f ControlData =
  cd_Seq :: int
  cd_ThingId :: string
  cd_PsName :: string
  cd_TypeId :: string
  cd_Ack :: bool
  cd_Timeout :: duration
  cd_Time :: time
  cd_Options :: "(string, 'f json_val) smap"

text \<open>
  The manager: for an agent and data source the properties that each data point is mapped to; for a thing the data points of its properties (the placeholder \<open>None\<close> marks an agent);
  the topics with a queue and the sequence numbers that are waited for.
\<close>

record exchange_manager =
  ex_up :: "(string, (string, PropertyInfo list) smap) smap"
  ex_down :: "(string, (string, DataPointInfo option) smap) smap"
  ex_biDirection :: bool
  ex_queues :: "(string, unit) smap"
  ex_wait :: "(string, unit) smap"
  ex_ackTimeout :: duration

datatype watch_kind = WatchCreate | WatchUpdate | WatchRemove

definition TopicDataPrefix :: string where "TopicDataPrefix = ''data/v1/''"
definition TopicCtrlPrefix :: string where "TopicCtrlPrefix = ''ctrl/v1/''"
definition placeholder :: string where "placeholder = ''command''"
definition TimeKey :: string where "TimeKey = ''_time''"

definition path_Join :: "string list \<Rightarrow> string" where
  "path_Join ws = (let ws = filter (\<lambda>w. w \<noteq> []) ws in if ws = [] then [] else filepath_Clean (join_with ''/'' ws))"

subsection \<open>Agents and mappings\<close>

definition subscribeMqttTopic :: "exchange_manager \<Rightarrow> string \<Rightarrow> exchange_manager" where
  "subscribeMqttTopic m topic = m\<lparr>ex_queues := cache_store topic () (ex_queues m)\<rparr>"

definition unSubscribeMqttTopic :: "exchange_manager \<Rightarrow> string \<Rightarrow> exchange_manager" where
  "unSubscribeMqttTopic m topic = m\<lparr>ex_queues := cache_delete topic (ex_queues m)\<rparr>"

definition downRoute :: "exchange_manager \<Rightarrow> string \<Rightarrow> watch_kind \<Rightarrow> exchange_manager" where
  "downRoute m agentId k =
     (if \<not> ex_biDirection m then m
      else case k of
        WatchCreate \<Rightarrow> if cache_load (ex_down m) agentId = None then m\<lparr>ex_down := cache_store agentId [(placeholder, None)] (ex_down m)\<rparr> else m
      | WatchRemove \<Rightarrow> m\<lparr>ex_down := cache_delete agentId (ex_down m)\<rparr>
      | WatchUpdate \<Rightarrow> m)"

text \<open>The identifiers of the data sources; one without identifier is a nil pointer, which ends the process (\<open>None\<close>).\<close>

definition source_ids :: "Agent \<Rightarrow> string list option" where
  "source_ids a = (if list_all (\<lambda>ds. ds_Id ds \<noteq> None) (ag_DataSources a) then Some (List.map_filter ds_Id (ag_DataSources a)) else None)"

definition OnAgentReceived :: "exchange_manager \<Rightarrow> Agent \<Rightarrow> Agent \<Rightarrow> watch_kind \<Rightarrow> exchange_manager option" where
  "OnAgentReceived m new old k =
     (let topic = path_Join [TopicDataPrefix, om_ID new];
          source_topic = (\<lambda>ds. path_Join [topic, ds]) in
      case k of
        WatchCreate \<Rightarrow>
          map_option (\<lambda>ids. downRoute (foldl subscribeMqttTopic m (topic # map source_topic ids)) (om_ID new) k) (source_ids new)
      | WatchUpdate \<Rightarrow>
          (case (source_ids old, source_ids new) of
             (Some os, Some ns) \<Rightarrow>
               (case DifferenceAndIntersectionStrings os ns of
                  (del, _, ins) \<Rightarrow>
                    Some (downRoute (foldl subscribeMqttTopic (foldl unSubscribeMqttTopic m (map source_topic del)) (map source_topic ins)) (om_ID new) k))
           | _ \<Rightarrow> None)
      | WatchRemove \<Rightarrow>
          map_option (\<lambda>ids. downRoute (foldl unSubscribeMqttTopic m (topic # map source_topic ids)) (om_ID new) k) (source_ids new))"

definition mapping_source :: "DataPointMapping \<Rightarrow> string" where
  "mapping_source d = path_Join [dm_AgentId d, dm_DataSourceId d]"

definition mapping_info :: "DataPointMapping \<Rightarrow> PropertyInfo" where
  "mapping_info d = \<lparr>psi_ThingId = dm_ThingId d, psi_PropertySetName = dm_PropertySetName d, pi_PropertyName = dm_PropertyName d\<rparr>"

definition add_up :: "(string, (string, PropertyInfo list) smap) smap \<Rightarrow> DataPointMapping \<Rightarrow> (string, (string, PropertyInfo list) smap) smap" where
  "add_up up d =
     (let ad = mapping_source d; info = mapping_info d in
      case cache_load up ad of
        Some dps \<Rightarrow>
          (case cache_load dps (dm_DataPointId d) of
             Some infos \<Rightarrow> cache_store ad (cache_store (dm_DataPointId d) (infos @ [info]) dps) up
           | None \<Rightarrow> cache_store ad (cache_store (dm_DataPointId d) [info] dps) up)
      | None \<Rightarrow> cache_store ad [(dm_DataPointId d, [info])] up)"

text \<open>The first occurrence is swapped with the last element, which is then cut off.\<close>

fun swap_out :: "'a list \<Rightarrow> 'a \<Rightarrow> 'a list" where
  "swap_out [] x = []"
| "swap_out (y # ys) x = (if y = x then (if ys = [] then [] else last ys # butlast ys) else y # swap_out ys x)"

definition remove_up :: "(string, (string, PropertyInfo list) smap) smap \<Rightarrow> DataPointMapping \<Rightarrow> (string, (string, PropertyInfo list) smap) smap" where
  "remove_up up d =
     (let ad = mapping_source d in
      case cache_load up ad of
        None \<Rightarrow> up
      | Some dps \<Rightarrow>
          (case cache_load dps (dm_DataPointId d) of
             None \<Rightarrow> up
           | Some infos \<Rightarrow>
               let infos = swap_out infos (mapping_info d) in
               if infos = [] then
                 let dps = cache_delete (dm_DataPointId d) dps in if dps = [] then cache_delete ad up else cache_store ad dps up
               else cache_store ad (cache_store (dm_DataPointId d) infos dps) up))"

definition downMapping :: "exchange_manager \<Rightarrow> DataPointMapping \<Rightarrow> watch_kind \<Rightarrow> exchange_manager" where
  "downMapping m d k =
     (if \<not> ex_biDirection m then m
      else
        let name = path_Join [dm_PropertySetName d, dm_PropertyName d]; t = dm_ThingId d in
        case k of
          WatchCreate \<Rightarrow>
            if dm_PropertyAccessMode d = AccessModeReadWrite then
              let dpis = (case cache_load (ex_down m) t of None \<Rightarrow> [] | Some x \<Rightarrow> x) in
              m\<lparr>ex_down := cache_store t
                  (cache_store name (Some \<lparr>di_AgentId = dm_AgentId d, di_DataSourceId = dm_DataSourceId d, di_DataPointId = dm_DataPointId d\<rparr>) dpis) (ex_down m)\<rparr>
            else m
        | WatchRemove \<Rightarrow>
            (case cache_load (ex_down m) t of
               None \<Rightarrow> m
             | Some dpis \<Rightarrow>
                 let dpis = cache_delete name dpis in
                 m\<lparr>ex_down := (if dpis = [] then cache_delete t (ex_down m) else cache_store t dpis (ex_down m))\<rparr>)
        | WatchUpdate \<Rightarrow> m)"

definition OnDataPointMappingReceived :: "exchange_manager \<Rightarrow> DataPointMapping \<Rightarrow> watch_kind \<Rightarrow> exchange_manager" where
  "OnDataPointMappingReceived m d k =
     downMapping
       (case k of
          WatchCreate \<Rightarrow> m\<lparr>ex_up := add_up (ex_up m) d\<rparr>
        | WatchRemove \<Rightarrow> m\<lparr>ex_up := remove_up (ex_up m) d\<rparr>
        | WatchUpdate \<Rightarrow> m) d k"

subsection \<open>Upwards\<close>

text \<open>An item of a time series: the time and the values of properties, as the collector gets it.\<close>

datatype 'f cell = CellTime zoned | CellValue "'f json_val"

type_synonym 'f series_item = "(string, 'f cell) smap"
type_synonym 'f RawData = "(zoned, 'f series_item) smap"

definition set_value :: "zoned \<Rightarrow> 'f json_val \<Rightarrow> (PropertySetInfo, 'f RawData) smap \<Rightarrow> PropertyInfo \<Rightarrow> (PropertySetInfo, 'f RawData) smap" where
  "set_value t v out info =
     (let key = PropertySetInfo.truncate info;
          raw = (case cache_load out key of None \<Rightarrow> [] | Some r \<Rightarrow> r);
          item = (case cache_load raw t of None \<Rightarrow> [(TimeKey, CellTime t)] | Some i \<Rightarrow> i) in
      cache_store key (cache_store t (cache_store (pi_PropertyName info) (CellValue v) item) raw) out)"

definition route_value :: "(string, PropertyInfo list) smap \<Rightarrow> zoned \<Rightarrow> (PropertySetInfo, 'f RawData) smap \<Rightarrow> 'f DataPointValue \<Rightarrow> (PropertySetInfo, 'f RawData) smap" where
  "route_value ds t out v = (case cache_load ds (dv_DataPointId v) of None \<Rightarrow> out | Some infos \<Rightarrow> foldl (set_value t (dv_Value v)) out infos)"

definition route_series :: "(string, PropertyInfo list) smap \<Rightarrow> 'f TimeSeriesData list \<Rightarrow> (PropertySetInfo, 'f RawData) smap" where
  "route_series ds series = foldl (\<lambda>out item. foldl (route_value ds (ts_Timestamp item)) out (ts_Values item)) [] series"

datatype 'f request =
    PutSeries string string "'f series_item list"
  | PostEvent "(string, 'f cell) smap"

definition exchangeTimeSeries :: "(string, PropertyInfo list) smap \<Rightarrow> 'f TimeSeriesData list \<Rightarrow> 'f request list" where
  "exchangeTimeSeries ds series =
     map (\<lambda>(key, raw). PutSeries (psi_ThingId key) (psi_PropertySetName key) (map snd raw)) (route_series ds series)"

definition event_request :: "string \<Rightarrow> 'f EventData \<Rightarrow> (string, 'f cell) smap" where
  "event_request agentId e =
     foldl (\<lambda>c (k, v). cache_store k (CellValue v) c)
       [(''id'', CellValue (JString (ed_Id e))), (''typeId'', CellValue (JString (ed_Type e))), (''correlationId'', CellValue (JString (ed_CorrelationId e))),
        (''_time'', CellTime (ed_Timestamp e)), (''thingId'', CellValue (JString agentId))] (ed_Fields e)"

definition exchangeEvent :: "string \<Rightarrow> 'f EventData list \<Rightarrow> 'f request list" where
  "exchangeEvent agentId es = map (\<lambda>e. PostEvent (event_request agentId e)) es"

text \<open>The acknowledgements that somebody waits for.\<close>

definition exchangeAck :: "exchange_manager \<Rightarrow> AckData list \<Rightarrow> AckData list" where
  "exchangeAck m acks = filter (\<lambda>a. cache_load (ex_wait m) (ak_Seq a) \<noteq> None) acks"

definition exchange :: "exchange_manager \<Rightarrow> string \<Rightarrow> 'f AgentPayload \<Rightarrow> go_error + ('f request list \<times> AckData list)" where
  "exchange m agentId p =
     (case ap_Type p of
        AgentDataTypeTimeSeries \<Rightarrow>
          (case ap_DataSourceId p of
             None \<Rightarrow> Inl GoPanic
           | Some ds \<Rightarrow>
               (case cache_load (ex_up m) (path_Join [agentId, ds]) of
                  None \<Rightarrow> Inl ErrDataPointMappingNotFound
                | Some dps \<Rightarrow> (case ap_series p of None \<Rightarrow> Inl ErrMalformedJSON | Some series \<Rightarrow> Inr (exchangeTimeSeries dps series, []))))
      | AgentDataTypeEvent \<Rightarrow> (case ap_events p of None \<Rightarrow> Inl ErrMalformedJSON | Some es \<Rightarrow> Inr (exchangeEvent agentId es, []))
      | AgentDataTypeCtrlAck \<Rightarrow> (case ap_acks p of None \<Rightarrow> Inl ErrMalformedJSON | Some acks \<Rightarrow> Inr ([], exchangeAck m acks)))"

text \<open>A message of the broker: the agent and the data source are in the topic. \<open>None\<close>: the payload is dropped.\<close>

definition path_Split :: "string \<Rightarrow> string \<times> string" where
  "path_Split p = (let file = rev (takeWhile (\<lambda>c. c \<noteq> CHR ''/'') (rev p)) in (take (length p - length file) p, file))"

definition path_Dir :: "string \<Rightarrow> string" where
  "path_Dir p = filepath_Clean (fst (path_Split p))"

definition TrimPrefix :: "string \<Rightarrow> string \<Rightarrow> string" where
  "TrimPrefix s p = (if HasPrefix s p then drop (length p) s else s)"

definition topic_source :: "string \<Rightarrow> string \<times> string" where
  "topic_source topic =
     (case path_Split (TrimPrefix topic TopicDataPrefix) of (dir, file) \<Rightarrow> if dir \<noteq> [] then (path_Dir dir, file) else (file, []))"

definition processMqttMessage :: "exchange_manager \<Rightarrow> string \<Rightarrow> 'f AgentPayload option \<Rightarrow> (go_error + ('f request list \<times> AckData list)) option" where
  "processMqttMessage m topic payload =
     (case topic_source topic of (agentId, ds) \<Rightarrow> map_option (\<lambda>p. exchange m agentId (p\<lparr>ap_DataSourceId := Some ds\<rparr>)) payload)"

subsection \<open>Downwards\<close>

text \<open>\<open>strconv.FormatInt(n, 16)\<close>.\<close>

definition hex_char :: "nat \<Rightarrow> char" where
  "hex_char d = (if d < 10 then char_of (48 + d) else char_of (87 + d))"

fun hex_digits :: "nat \<Rightarrow> string" where
  "hex_digits n = (if n < 16 then [hex_char n] else hex_digits (n div 16) @ [hex_char (n mod 16)])"

declare hex_digits.simps [simp del]

definition FormatInt16 :: "int \<Rightarrow> string" where
  "FormatInt16 n = (if n < 0 then CHR ''-'' # hex_digits (nat (- n)) else hex_digits (nat n))"

datatype 'f message =
    CommandData string string int string "(string, 'f json_val) smap"
  | ActionData string string int "'f DataPointValue list"

text \<open>The answer: at once, or after waiting for the acknowledgement of a sequence number.\<close>

datatype downlink = Delivered AckData | Waiting string duration

definition waitCtrlResult :: "exchange_manager \<Rightarrow> string \<Rightarrow> bool \<Rightarrow> duration \<Rightarrow> exchange_manager \<times> downlink" where
  "waitCtrlResult m seq ack timeout =
     (if \<not> ack then (m, Delivered \<lparr>ak_Seq = seq, ak_Code = 0, ak_Message = None\<rparr>)
      else (m\<lparr>ex_wait := cache_store seq () (ex_wait m)\<rparr>, Waiting seq (if timeout > ex_ackTimeout m then ex_ackTimeout m else timeout)))"

text \<open>The end of the wait: an acknowledgement, or the timer (\<open>None\<close>).\<close>

definition wait_done :: "exchange_manager \<Rightarrow> string \<Rightarrow> AckData option \<Rightarrow> exchange_manager \<times> AckData" where
  "wait_done m seq a =
     (m\<lparr>ex_wait := cache_delete seq (ex_wait m)\<rparr>,
      case a of
        Some ad \<Rightarrow> \<lparr>ak_Seq = seq, ak_Code = ak_Code ad, ak_Message = ak_Message ad\<rparr>
      | None \<Rightarrow> \<lparr>ak_Seq = seq, ak_Code = - 2147483648, ak_Message = Some ''time out''\<rparr>)"

text \<open>\<open>pub\<close> tells whether the broker takes a message on a topic.\<close>

definition exchangeCmd ::
  "(string \<Rightarrow> bool) \<Rightarrow> exchange_manager \<Rightarrow> 'f ControlData \<Rightarrow> exchange_manager \<times> 'f message list \<times> (go_error + downlink)" where
  "exchangeCmd pub m obj =
     (case Option.bind (cache_load (ex_down m) (cd_ThingId obj)) (\<lambda>dpis. cache_load dpis placeholder) of
        None \<Rightarrow> (m, [], Inl ErrDataPointMappingNotFound)
      | Some _ \<Rightarrow>
          let seq = FormatInt (cd_Seq obj); topic = path_Join [TopicCtrlPrefix, cd_ThingId obj];
              msg = CommandData topic seq (time_UnixMilli (cd_Time obj)) (cd_TypeId obj) (cd_Options obj) in
          if \<not> pub topic then (m, [msg], Inl ErrDeliverFailed)
          else case waitCtrlResult m seq (cd_Ack obj) (cd_Timeout obj) of (m, r) \<Rightarrow> (m, [msg], Inr r))"

text \<open>The values for each topic, and the message for the first topic: the loop over the topics returns after one.\<close>

definition values_by_topic :: "(string, DataPointInfo option) smap \<Rightarrow> string \<Rightarrow> (string, 'f json_val) smap \<Rightarrow> go_error + (string, 'f DataPointValue list) smap" where
  "values_by_topic dpis ps opts =
     foldl (\<lambda>acc (k, v). case acc of Inl err \<Rightarrow> Inl err | Inr vals \<Rightarrow>
         (case cache_load dpis (path_Join [ps, k]) of
            None \<Rightarrow> Inr vals
          | Some None \<Rightarrow> Inl GoPanic
          | Some (Some di) \<Rightarrow>
              let topic = path_Join [TopicCtrlPrefix, di_AgentId di, di_DataSourceId di];
                  old = (case cache_load vals topic of None \<Rightarrow> [] | Some vs \<Rightarrow> vs) in
              Inr (cache_store topic (old @ [\<lparr>dv_DataPointId = di_DataPointId di, dv_Value = v\<rparr>]) vals))) (Inr []) opts"

definition exchangeAction ::
  "(string \<Rightarrow> bool) \<Rightarrow> exchange_manager \<Rightarrow> 'f ControlData \<Rightarrow> exchange_manager \<times> 'f message list \<times> (go_error + downlink)" where
  "exchangeAction pub m obj =
     (case cache_load (ex_down m) (cd_ThingId obj) of
        None \<Rightarrow> (m, [], Inl ErrDataPointMappingNotFound)
      | Some dpis \<Rightarrow>
          let seq = FormatInt16 (cd_Seq obj) in
          (case values_by_topic dpis (cd_PsName obj) (cd_Options obj) of
             Inl err \<Rightarrow> (m, [], Inl err)
           | Inr [] \<Rightarrow> (m, [], Inl ErrDataPointMappingNotFound)
           | Inr ((topic, vals) # _) \<Rightarrow>
               let msg = ActionData topic seq (time_UnixMilli (cd_Time obj)) vals in
               if \<not> pub topic then (m, [msg], Inl ErrDeliverFailed)
               else case waitCtrlResult m seq (cd_Ack obj) (cd_Timeout obj) of (m, r) \<Rightarrow> (m, [msg], Inr r)))"

definition dispatch :: "(string \<Rightarrow> bool) \<Rightarrow> exchange_manager \<Rightarrow> 'f ControlData \<Rightarrow> exchange_manager \<times> 'f message list \<times> (go_error + downlink)" where
  "dispatch pub m obj = (if cd_TypeId obj \<noteq> [] then exchangeCmd pub m obj else exchangeAction pub m obj)"

subsection \<open>The HTTP handler\<close>

definition query_Get :: "(string, string) smap \<Rightarrow> string \<Rightarrow> string" where
  "query_Get q k = (case cache_load q k of None \<Rightarrow> [] | Some v \<Rightarrow> v)"

text \<open>
  \<open>up\<close> and \<open>down\<close> are what the body decodes to as data of an agent and as control data; the agent is named in a header. The answer is an error with its status, the requests to the other
  services and the acknowledgements, or the answer of the downlink. A panic is the status 500 of the router.
\<close>

definition exchange_handler ::
  "(string \<Rightarrow> bool) \<Rightarrow> exchange_manager \<Rightarrow> (string, string) smap \<Rightarrow> string \<Rightarrow> 'f AgentPayload option \<Rightarrow> 'f ControlData option \<Rightarrow>
     exchange_manager \<times> 'f message list \<times> ((nat \<times> go_error) + ('f request list \<times> AckData list) + downlink)" where
  "exchange_handler pub m q token up down =
     (let status = (\<lambda>err. if err = GoPanic then (500, GoPanic) else (400, err));
          downlink = (q \<noteq> [] \<and> ParseBool (query_Get q ''downlink'') = Some True) in
      if \<not> downlink then
        case up of
          None \<Rightarrow> (m, [], Inl (400, ErrMalformedJSON))
        | Some obj \<Rightarrow> (m, [], map_sum status Inl (exchange m token obj))
      else
        case down of
          None \<Rightarrow> (m, [], Inl (400, ErrMalformedJSON))
        | Some obj \<Rightarrow> (case dispatch pub m obj of (m, msgs, r) \<Rightarrow> (m, msgs, map_sum status Inr r)))"

end
