(* ===== verification/Collector.thy ===== *)
theory Collector
  imports Exchange Consumer
begin

text \<open>
  The collector of time series (\<open>src/pkg/data/storage/store.go\<close>, \<open>data/server.go\<close>): values that arrive for a property set of a thing are converted to the types of the properties, written
  as points, given to the rules, and announced to the job manager for the rollups; and the queries and deletions of time series.

  The parsing of numbers and times and the text of a value are arguments (\<open>ev_env\<close>); points, queries and predicates for the database are outputs.
\<close>

subsection \<open>Data\<close>

datatype 'f pvalue = PString string | PInt int | PDouble 'f | PBool bool

record 'f point =
  pt_measurement :: string
  pt_tags :: "(string, string) smap"
  pt_fields :: "(string, 'f pvalue) smap"
  pt_time :: time

subsection \<open>Conversion\<close>

text \<open>The runes of a valid UTF-8 string: a byte and the continuation bytes after it.\<close>

definition continuation :: "char \<Rightarrow> bool" where
  "continuation c = ((of_char c :: nat) div 64 = 2)"

fun runes :: "string \<Rightarrow> string list" where
  "runes [] = []"
| "runes (c # s) = (case runes s of [] \<Rightarrow> [[c]] | r # rs \<Rightarrow> if continuation (hd r) then (c # r) # rs else [c] # r # rs)"

definition convert_string :: "'f ev_env \<Rightarrow> Property \<Rightarrow> 'f json_val \<Rightarrow> string" where
  "convert_string ev p v =
     (let s = (case v of JString s \<Rightarrow> s | _ \<Rightarrow> ee_Sprint ev v) in
      if int (length (runes s)) > p_Length p then concat (take (nat (p_Length p)) (runes s)) else s)"

definition convert_number :: "'f ev_env \<Rightarrow> 'f json_val \<Rightarrow> int" where
  "convert_number ev v = (case convert_int ev v of Some i \<Rightarrow> i | None \<Rightarrow> 0)"

definition convert_double :: "'f \<Rightarrow> 'f ev_env \<Rightarrow> 'f json_val \<Rightarrow> 'f" where
  "convert_double zero ev v =
     (case v of JNumber x \<Rightarrow> x | JString s \<Rightarrow> (case ee_ParseFloat ev s of Some x \<Rightarrow> x | None \<Rightarrow> zero) | _ \<Rightarrow> zero)"

definition convert_bool :: "'f ev_env \<Rightarrow> 'f json_val \<Rightarrow> bool" where
  "convert_bool ev v =
     (case v of JBool b \<Rightarrow> b | JString s \<Rightarrow> (case ParseBool s of Some b \<Rightarrow> b | None \<Rightarrow> False) | JNumber x \<Rightarrow> ee_int ev x \<noteq> 0 | _ \<Rightarrow> False)"

text \<open>\<open>zero\<close> is the number 0.0.\<close>

definition convertDataAccordingToType :: "'f \<Rightarrow> 'f ev_env \<Rightarrow> Property \<Rightarrow> 'f json_val \<Rightarrow> 'f pvalue" where
  "convertDataAccordingToType zero ev p v =
     (case p_DataType p of
        DataTypeString \<Rightarrow> PString (convert_string ev p v)
      | DataTypeInt \<Rightarrow> PInt (convert_number ev v)
      | DataTypeLong \<Rightarrow> PInt (convert_number ev v)
      | DataTypeDouble \<Rightarrow> PDouble (convert_double zero ev v)
      | DataTypeBoolean \<Rightarrow> PBool (convert_bool ev v))"

subsection \<open>Writing\<close>

definition property_set :: "thing_manager \<Rightarrow> string \<Rightarrow> string \<Rightarrow> go_error + Thing \<times> PropertySetType" where
  "property_set tm thingId psName =
     (case GetThingById tm thingId of
        Inl _ \<Rightarrow> Inl (ErrThingNotFound thingId)
      | Inr t \<Rightarrow>
          (case cache_load (t_PropertySetByName t) psName of
             None \<Rightarrow> Inl (ErrPropertySetNotFound psName)
           | Some j \<Rightarrow> (case Option.bind (type_set tm j psName) (set_type tm) of None \<Rightarrow> Inl GoPanic | Some pst \<Rightarrow> Inr (t, pst))))"

text \<open>An item: the values of known properties, and its time if it has a legal one. A time that is not a string is a panic.\<close>

definition raw_fields :: "'f \<Rightarrow> 'f ev_env \<Rightarrow> Property list \<Rightarrow> (string, 'f json_val) smap \<Rightarrow> (string, 'f pvalue) smap" where
  "raw_fields zero ev props item =
     List.map_filter (\<lambda>(k, v). map_option (\<lambda>p. (k, convertDataAccordingToType zero ev p v)) (by_name p_Name props k)) item"

definition raw_time :: "'f ev_env \<Rightarrow> Property list \<Rightarrow> (string, 'f json_val) smap \<Rightarrow> go_error + time option" where
  "raw_time ev props item =
     (if by_name p_Name props TimeKey \<noteq> None then Inr None
      else case cache_load item TimeKey of
        None \<Rightarrow> Inr None
      | Some (JString s) \<Rightarrow> Inr (ee_time ev s)
      | Some _ \<Rightarrow> Inl GoPanic)"

fun raw_data :: "'f \<Rightarrow> 'f ev_env \<Rightarrow> Property list \<Rightarrow> (string, 'f json_val) smap list \<Rightarrow> (time, (string, 'f pvalue) smap) smap \<Rightarrow> go_error + (time, (string, 'f pvalue) smap) smap" where
  "raw_data zero ev props [] raw = Inr raw"
| "raw_data zero ev props (item # items) raw =
     (case raw_time ev props item of
        Inl err \<Rightarrow> Inl err
      | Inr None \<Rightarrow> raw_data zero ev props items raw
      | Inr (Some t) \<Rightarrow> raw_data zero ev props items (cache_store t (raw_fields zero ev props item) raw))"

definition series_point :: "PropertySetType \<Rightarrow> string \<Rightarrow> string \<Rightarrow> time \<times> (string, 'f pvalue) smap \<Rightarrow> 'f point" where
  "series_point pst thingId psName tv =
     \<lparr>pt_measurement = om_ID pst, pt_tags = [(''ps'', psName), (''ti'', thingId)], pt_fields = snd tv, pt_time = fst tv\<rparr>"

text \<open>The points that are written, in the order of the map; the same data goes to the rules.\<close>

definition SaveOrUpdateTimeSeries ::
  "'f \<Rightarrow> 'f ev_env \<Rightarrow> thing_manager \<Rightarrow> string \<Rightarrow> string \<Rightarrow> (string, 'f json_val) smap list \<Rightarrow> go_error + 'f point list" where
  "SaveOrUpdateTimeSeries zero ev tm thingId psName data =
     (case property_set tm thingId psName of
        Inl err \<Rightarrow> Inl err
      | Inr (t, pst) \<Rightarrow> map_sum id (map (series_point pst thingId psName)) (raw_data zero ev (pst_Properties pst) data []))"

text \<open>The goroutine that announces the rollups of the written times; \<open>None\<close> where a job is not built.\<close>

definition rollup_time :: "string \<Rightarrow> time \<Rightarrow> Location \<Rightarrow> JobManager \<times> job_stmt list \<Rightarrow> time \<Rightarrow> JobManager \<times> job_stmt list" where
  "rollup_time key now loc js t =
     foldl (\<lambda>(jm, stmts) f. case f jm key now t loc of None \<Rightarrow> (jm, stmts) | Some (jm', s) \<Rightarrow> (jm', stmts @ (case s of None \<Rightarrow> [] | Some x \<Rightarrow> [x])))
       js [Rollup1MinuteJob, Rollup1HourJob, Rollup1DayJob]"

definition announce_rollups :: "JobManager \<Rightarrow> string \<Rightarrow> string \<Rightarrow> time \<Rightarrow> Location \<Rightarrow> time list \<Rightarrow> JobManager \<times> job_stmt list" where
  "announce_rollups jm thingId psName now loc ts = foldl (rollup_time (filepath_Join thingId psName) now loc) (jm, []) ts"

definition SaveOrUpdateVirtualParameter :: "'f \<Rightarrow> 'f ev_env \<Rightarrow> string \<Rightarrow> string \<Rightarrow> Property \<Rightarrow> time \<Rightarrow> 'f \<Rightarrow> 'f point" where
  "SaveOrUpdateVirtualParameter zero ev thingId psName p t v =
     \<lparr>pt_measurement = thingId, pt_tags = [(''ps'', psName)], pt_fields = [(p_Name p, convertDataAccordingToType zero ev p (JNumber v))], pt_time = t\<rparr>"

subsection \<open>Queries\<close>

text \<open>The measurement and tags that a query selects, its fields, and its range (\<open>None\<close>: the latest values of the last seven days).\<close>

record series_query =
  sq_measurement :: string
  sq_thing :: string
  sq_ps :: string
  sq_fields :: "string list"
  sq_range :: "(time \<times> time \<times> bool \<times> int) option"

definition GetTimeSeries ::
  "thing_manager \<Rightarrow> string \<Rightarrow> string \<Rightarrow> time \<Rightarrow> time \<Rightarrow> string list \<Rightarrow> bool \<Rightarrow> bool \<Rightarrow> int \<Rightarrow> go_error + series_query" where
  "GetTimeSeries tm thingId psName from to selects desc latest limit =
     (case property_set tm thingId psName of
        Inl err \<Rightarrow> Inl err
      | Inr (t, pst) \<Rightarrow>
          let names = map p_Name (pst_Properties pst);
              legal = remdups (if selects \<noteq> [] then filter (\<lambda>s. s \<in> set names) selects else names) in
          if legal = [] then Inl ErrAllSelectInvalid
          else Inr \<lparr>sq_measurement = om_ID pst, sq_thing = thingId, sq_ps = psName, sq_fields = legal, sq_range = (if latest then None else Some (from, to, desc, limit))\<rparr>)"

text \<open>What the range and the filters of the query let through.\<close>

definition selects_point :: "time \<Rightarrow> series_query \<Rightarrow> 'f point \<Rightarrow> bool" where
  "selects_point now q p =
     (pt_measurement p = sq_measurement q \<and> cache_load (pt_tags p) ''ti'' = Some (sq_thing q) \<and> cache_load (pt_tags p) ''ps'' = Some (sq_ps q) \<and>
      (\<exists>f\<in>set (sq_fields q). cache_load (pt_fields p) f \<noteq> None) \<and>
      (case sq_range q of None \<Rightarrow> now - 168 * Hour \<le> pt_time p \<and> pt_time p < now | Some (from, to, _, _) \<Rightarrow> from \<le> pt_time p \<and> pt_time p < to))"

record series_predicate =
  sd_measurement :: string
  sd_ps :: string
  sd_thing :: string
  sd_start :: time
  sd_end :: time

definition DeleteTimeSeries :: "thing_manager \<Rightarrow> string \<Rightarrow> string \<Rightarrow> time \<Rightarrow> time \<Rightarrow> go_error + series_predicate" where
  "DeleteTimeSeries tm thingId psName start stop =
     map_sum id (\<lambda>(t, pst). \<lparr>sd_measurement = om_ID pst, sd_ps = psName, sd_thing = thingId, sd_start = start, sd_end = stop\<rparr>) (property_set tm thingId psName)"

subsection \<open>The HTTP handler of queries\<close>

text \<open>The query string as a map; \<open>parse\<close> reads a time. An error is the status 400, a panic the status 500 of the router.\<close>

definition failed :: "go_error \<Rightarrow> nat \<times> go_error" where
  "failed err = (if err = GoPanic then (500, GoPanic) else (400, err))"

record get_params =
  gp_start :: time
  gp_end :: time
  gp_selects :: "string list"
  gp_desc :: bool
  gp_latest :: bool
  gp_limit :: int

definition getTimeSeries_params :: "(string \<Rightarrow> time option) \<Rightarrow> (string, string) smap \<Rightarrow> go_error + get_params" where
  "getTimeSeries_params parse q =
     (let d = \<lparr>gp_start = 0, gp_end = 0, gp_selects = [], gp_desc = False, gp_latest = False, gp_limit = 2000\<rparr> in
      if q = [] then Inr d
      else
        let latest = (ParseBool (query_Get q ''latest'') = Some True); sel = query_Get q ''select'';
            d = d\<lparr>gp_latest := latest, gp_selects := (if sel \<noteq> [] then split_at (CHR '','') sel else [])\<rparr> in
        if latest then Inr d
        else case parse (query_Get q ''start'') of
          None \<Rightarrow> Inl (ErrTimeInvalid (query_Get q ''start''))
        | Some s \<Rightarrow>
            (case parse (query_Get q ''end'') of
               None \<Rightarrow> Inl (ErrTimeInvalid (query_Get q ''end''))
             | Some e \<Rightarrow>
                 Inr (d\<lparr>gp_start := s, gp_end := e, gp_desc := (ToLower (query_Get q ''sort'') = ''desc''),
                        gp_limit := (case ParseInt (query_Get q ''limit'') of None \<Rightarrow> 2000 | Some l \<Rightarrow> l)\<rparr>)))"

definition getTimeSeries :: "(string \<Rightarrow> time option) \<Rightarrow> thing_manager \<Rightarrow> string \<Rightarrow> string \<Rightarrow> (string, string) smap \<Rightarrow> (nat \<times> go_error) + series_query" where
  "getTimeSeries parse tm thingId psName q =
     (if thingId = [] \<or> psName = [] then Inl (404, ErrNotExist)
      else case getTimeSeries_params parse q of
        Inl err \<Rightarrow> Inl (400, err)
      | Inr g \<Rightarrow>
          (case GetTimeSeries tm thingId psName (gp_start g) (gp_end g) (gp_selects g) (gp_desc g) (gp_latest g) (gp_limit g) of
             Inl err \<Rightarrow> Inl (failed err)
           | Inr sq \<Rightarrow> Inr sq))"

text \<open>The handlers that write and delete; \<open>body\<close> is the decoded body.\<close>

definition saveOrUpdateTimeSeries ::
  "'f \<Rightarrow> 'f ev_env \<Rightarrow> thing_manager \<Rightarrow> string \<Rightarrow> string \<Rightarrow> (string, 'f json_val) smap list option \<Rightarrow> (nat \<times> go_error) + 'f point list" where
  "saveOrUpdateTimeSeries zero ev tm thingId psName body =
     (case body of None \<Rightarrow> Inl (400, ErrMalformedJSON) | Some data \<Rightarrow> map_sum failed id (SaveOrUpdateTimeSeries zero ev tm thingId psName data))"

definition deleteTimeSeries :: "(string \<Rightarrow> time option) \<Rightarrow> thing_manager \<Rightarrow> string \<Rightarrow> string \<Rightarrow> (string, string) smap \<Rightarrow> (nat \<times> go_error) + series_predicate" where
  "deleteTimeSeries parse tm thingId psName q =
     (case parse (query_Get q ''start'') of
        None \<Rightarrow> Inl (400, ErrTimeInvalid (query_Get q ''start''))
      | Some s \<Rightarrow>
          (case parse (query_Get q ''end'') of
             None \<Rightarrow> Inl (400, ErrTimeInvalid (query_Get q ''end''))
           | Some e \<Rightarrow> map_sum failed id (DeleteTimeSeries tm thingId psName s e)))"

end
