(* ===== verification/Go_Float.thy ===== *)
theory Go_Float
  imports Model_Types Complex_Main
begin

text \<open>
  What the control service uses of \<open>float64\<close>: the comparison of two numbers and the conversion to integers, on the bits of IEEE 754. A conversion whose result does not fit is
  left to the implementation (\<open>impl\<close>).
\<close>

definition f64_neg :: "float64 \<Rightarrow> bool" where
  "f64_neg w = (unat w \<ge> 2 ^ 63)"

definition f64_exp :: "float64 \<Rightarrow> nat" where
  "f64_exp w = (unat w div 2 ^ 52) mod 2 ^ 11"

definition f64_man :: "float64 \<Rightarrow> nat" where
  "f64_man w = unat w mod 2 ^ 52"

definition f64_nan :: "float64 \<Rightarrow> bool" where
  "f64_nan w = (f64_exp w = 2047 \<and> f64_man w \<noteq> 0)"

definition f64_key :: "float64 \<Rightarrow> int" where
  "f64_key w = (let k = int (unat w mod 2 ^ 63) in if f64_neg w then - k else k)"

definition f64_le :: "float64 \<Rightarrow> float64 \<Rightarrow> bool" where
  "f64_le a b = (\<not> f64_nan a \<and> \<not> f64_nan b \<and> f64_key a \<le> f64_key b)"

definition f64_trunc :: "float64 \<Rightarrow> int option" where
  "f64_trunc w =
     (if f64_exp w = 2047 then None
      else
        let m = (if f64_exp w = 0 then f64_man w else 2 ^ 52 + f64_man w);
            t = int (if f64_exp w \<ge> 1075 then m * 2 ^ (f64_exp w - 1075) else m div 2 ^ (1075 - f64_exp w)) in
        Some (if f64_neg w then - t else t))"

definition int_of_f64 :: "nat \<Rightarrow> (float64 \<Rightarrow> int) \<Rightarrow> float64 \<Rightarrow> int" where
  "int_of_f64 bits impl w =
     (case f64_trunc w of
        None \<Rightarrow> impl w
      | Some i \<Rightarrow> if - (2 ^ (bits - 1)) \<le> i \<and> i < 2 ^ (bits - 1) then i else impl w)"

definition MaxFloat64 :: float64 where "MaxFloat64 = 0x7FEFFFFFFFFFFFFF"
definition neg_MaxFloat64 :: float64 where "neg_MaxFloat64 = 0xFFEFFFFFFFFFFFFF"

text \<open>The magnitude of a finite number as a multiple of the smallest one: the order of the keys is the order of the numbers.\<close>

definition f64_units :: "float64 \<Rightarrow> nat" where
  "f64_units w = (if f64_exp w = 0 then f64_man w else (2 ^ 52 + f64_man w) * 2 ^ (f64_exp w - 1))"

definition f64_val :: "float64 \<Rightarrow> real" where
  "f64_val w = (if f64_neg w then - 1 else 1) * real (f64_units w) / 2 ^ 1074"

lemma f64_split: "unat w mod 2 ^ 63 = f64_exp w * 2 ^ 52 + f64_man w"
proof -
  have "unat w mod 2 ^ 63 = 2 ^ 52 * (unat w div 2 ^ 52 mod 2 ^ 11) + unat w mod 2 ^ 52" using mod_mult2_eq [of "unat w" "2 ^ 52" "2 ^ 11"] by (simp flip: power_add)
  then show ?thesis by (simp add: f64_exp_def f64_man_def mult.commute)
qed

lemma f64_man_less: "f64_man w < 2 ^ 52"
  by (simp add: f64_man_def)

lemma units_mono_aux:
  fixes e e' m m' :: nat
  assumes "m < 2 ^ 52" "m' < 2 ^ 52" "e * 2 ^ 52 + m < e' * 2 ^ 52 + m'"
  shows "(if e = 0 then m else (2 ^ 52 + m) * 2 ^ (e - 1)) < (if e' = 0 then m' else (2 ^ 52 + m') * 2 ^ (e' - 1))"
proof (cases "e = e'")
  case True
  then show ?thesis using assms by auto
next
  case False
  have less: "e < e'"
  proof (rule ccontr)
    assume "\<not> e < e'"
    with False have "Suc e' \<le> e" by simp
    then have "Suc e' * 2 ^ 52 \<le> e * 2 ^ 52" by (rule mult_le_mono1)
    with assms show False by simp
  qed
  have "(if e = 0 then m else (2 ^ 52 + m) * 2 ^ (e - 1)) < 2 ^ 52 * 2 ^ e"
  proof (cases e)
    case (Suc k)
    have "(2 ^ 52 + m) * 2 ^ k < (2 ^ 52 * 2) * 2 ^ k" using assms(1) by simp
    then show ?thesis using Suc by simp
  qed (use assms(1) in simp)
  also have "(2::nat) ^ 52 * 2 ^ e \<le> (2 ^ 52 + m') * 2 ^ (e' - 1)"
    by (rule mult_le_mono) (use less in \<open>auto intro: power_increasing\<close>)
  finally show ?thesis using less by simp
qed

lemma units_less: "unat a mod 2 ^ 63 < unat b mod 2 ^ 63 \<Longrightarrow> f64_units a < f64_units b"
  unfolding f64_split f64_units_def by (rule units_mono_aux [OF f64_man_less f64_man_less])

lemma units_eq: "unat a mod 2 ^ 63 = unat b mod 2 ^ 63 \<Longrightarrow> f64_units a = f64_units b"
proof -
  assume "unat a mod 2 ^ 63 = unat b mod 2 ^ 63"
  then have eq: "f64_exp a * 2 ^ 52 + f64_man a = f64_exp b * 2 ^ 52 + f64_man b" by (simp only: f64_split)
  have split: "(e * 2 ^ 52 + m) div 2 ^ 52 = e \<and> (e * 2 ^ 52 + m) mod 2 ^ 52 = m" if "m < 2 ^ 52" for e m :: nat using that by simp
  have "f64_exp a = f64_exp b" "f64_man a = f64_man b"
    using split [OF f64_man_less [of a], of "f64_exp a"] split [OF f64_man_less [of b], of "f64_exp b"] unfolding eq by simp_all
  then show ?thesis by (simp add: f64_units_def)
qed

lemma units_le: "unat a mod 2 ^ 63 \<le> unat b mod 2 ^ 63 \<longleftrightarrow> f64_units a \<le> f64_units b"
  using units_less units_eq by (metis linorder_le_less_linear linorder_not_le nat_less_le)

lemma units_0: "f64_units a = 0 \<longleftrightarrow> unat a mod 2 ^ 63 = 0"
proof -
  have "f64_units a = 0 \<longleftrightarrow> f64_exp a = 0 \<and> f64_man a = 0" by (simp add: f64_units_def)
  then show ?thesis unfolding f64_split by simp
qed

lemma sign_le:
  fixes u v x y :: nat
  assumes "(u \<le> v) = (x \<le> y)" "(v \<le> u) = (y \<le> x)" "(u = 0) = (x = 0)" "(v = 0) = (y = 0)"
  shows "(if p then - int u else int u) \<le> (if q then - int v else int v) \<longleftrightarrow> (if p then - int x else int x) \<le> (if q then - int y else int y)"
proof (cases p; cases q)
  assume "\<not> p" "q"
  moreover have "int u \<le> - int v \<longleftrightarrow> u = 0 \<and> v = 0" "int x \<le> - int y \<longleftrightarrow> x = 0 \<and> y = 0" by auto
  ultimately show ?thesis using assms(3,4) by simp
qed (use assms(1,2) in simp_all)

text \<open>The comparison of finite numbers is that of their values.\<close>

lemma f64_le_val:
  assumes "f64_exp a \<noteq> 2047" "f64_exp b \<noteq> 2047"
  shows "f64_le a b \<longleftrightarrow> f64_val a \<le> f64_val b"
proof -
  have nan: "\<not> f64_nan a" "\<not> f64_nan b" using assms by (simp_all add: f64_nan_def)
  let ?s = "\<lambda>w. (if f64_neg w then - int (f64_units w) else int (f64_units w))"
  have "f64_val w = real_of_int (?s w) / 2 ^ 1074" for w by (simp add: f64_val_def)
  then have "f64_val a \<le> f64_val b \<longleftrightarrow> ?s a \<le> ?s b" by (simp only: divide_le_cancel) simp
  also have "\<dots> \<longleftrightarrow> f64_key a \<le> f64_key b"
  proof -
    let ?a = "unat a mod 2 ^ 63" and ?b = "unat b mod 2 ^ 63"
    have "f64_key w = (if f64_neg w then - int (unat w mod 2 ^ 63) else int (unat w mod 2 ^ 63))" for w by (simp add: f64_key_def Let_def)
    note key = this [of a] this [of b]
    show ?thesis unfolding key by (rule sign_le) (rule units_le [symmetric] units_0)+
  qed
  finally show ?thesis using nan by (simp add: f64_le_def)
qed

end
