(* ===== verification/Commands.thy ===== *)
theory Commands
  imports Command_Types Collector Go_Float
begin

text \<open>
  Commands to agents and actions on properties (\<open>src/pkg/control/{command,action,storage}\<close>): the check and conversion of what a request gives, the delivery through the exchange, and
  the record in the log storage. The broker's answer, the text of a value and conversions that the language leaves open are arguments; statements for the log storage are outputs.
\<close>

subsection \<open>Data\<close>

datatype cmd_State = StateDelivering | StateDelivered | StateSuccess | StateFail

fun stateToString :: "cmd_State \<Rightarrow> string" where
  "stateToString StateDelivering = ''delivering''"
| "stateToString StateDelivered = ''delivered''"
| "stateToString StateSuccess = ''success''"
| "stateToString StateFail = ''fail''"

definition stateFromString :: "(string \<times> cmd_State) list" where
  "stateFromString = [(''delivering'', StateDelivering), (''delivered'', StateDelivered), (''success'', StateSuccess), (''fail'', StateFail)]"

interpretation states: codec stateToString "map_of stateFromString"
proof unfold_locales
  show "map_of stateFromString (stateToString x) = Some x" for x
    by (cases x) (simp_all add: stateFromString_def)
  show "stateToString x = s" if "map_of stateFromString s = Some x" for s x
    using that by (simp add: stateFromString_def split: if_splits)
qed

text \<open>The values of a command: converted ones, and defaults as they were given (\<open>OvDefault None\<close> is nil).\<close>

datatype opt_value = OvNull | OvString string | OvInt int | OvDouble float64 | OvBool bool | OvDefault "json option"

record Command =
  cmd_Seq :: int
  cmd_ThingId :: string
  cmd_TypeId :: string
  cmd_Time :: time
  cmd_State :: cmd_State
  cmd_Ack :: bool
  cmd_Timeout :: duration
  cmd_Code :: int
  cmd_Message :: "string option"
  cmd_Options :: "(string, opt_value) smap"

record Action =
  act_Seq :: int
  act_ThingId :: string
  act_PsName :: string
  act_Time :: time
  act_State :: cmd_State
  act_Ack :: bool
  act_Timeout :: duration
  act_Code :: int
  act_Message :: "string option"
  act_Actions :: "(string, opt_value) smap"

record ctl_env =
  ce_impl :: "float64 \<Rightarrow> int"
  ce_Sprint :: "json \<Rightarrow> string"

subsection \<open>Constraints\<close>

definition GetMinInt :: "ctl_env \<Rightarrow> cmd_Option \<Rightarrow> int" where
  "GetMinInt ev op = (case opt_Min op of None \<Rightarrow> - (2 ^ 63) | Some x \<Rightarrow> int_of_f64 64 (ce_impl ev) x)"

definition GetMaxInt :: "ctl_env \<Rightarrow> cmd_Option \<Rightarrow> int" where
  "GetMaxInt ev op = (case opt_Max op of None \<Rightarrow> 2 ^ 63 - 1 | Some x \<Rightarrow> int_of_f64 64 (ce_impl ev) x)"

definition GetMinFloat :: "cmd_Option \<Rightarrow> float64" where
  "GetMinFloat op = (case opt_Min op of None \<Rightarrow> neg_MaxFloat64 | Some x \<Rightarrow> x)"

definition GetMaxFloat :: "cmd_Option \<Rightarrow> float64" where
  "GetMaxFloat op = (case opt_Max op of None \<Rightarrow> MaxFloat64 | Some x \<Rightarrow> x)"

definition valid_range :: "string \<Rightarrow> string \<Rightarrow> string" where
  "valid_range lo hi = ''Valid range ['' @ lo @ '', '' @ hi @ '']''"

subsection \<open>Delivery of commands\<close>

definition convert_option :: "ctl_env \<Rightarrow> string \<Rightarrow> cmd_Option \<Rightarrow> json \<Rightarrow> go_error + opt_value" where
  "convert_option ev k op v =
     (if v = JNull then Inr OvNull
      else case opt_Datatype op of
        CmdString \<Rightarrow> Inr (OvString (ce_Sprint ev v))
      | CmdInt \<Rightarrow>
          (case v of
             JNumber x \<Rightarrow>
               let i = int_of_f64 64 (ce_impl ev) x in
               if i \<ge> GetMinInt ev op \<and> i \<le> GetMaxInt ev op then Inr (OvInt i)
               else Inl (ErrIntegerInvalid [k, valid_range (FormatInt (GetMinInt ev op)) (FormatInt (GetMaxInt ev op))])
           | _ \<Rightarrow> Inl (ErrIntegerInvalid [k]))
      | CmdDouble \<Rightarrow>
          (case v of
             JNumber x \<Rightarrow>
               if f64_le (GetMinFloat op) x \<and> f64_le x (GetMaxFloat op) then Inr (OvDouble x)
               else Inl (ErrDoubleInvalid [k, valid_range (ce_Sprint ev (JNumber (GetMinFloat op))) (ce_Sprint ev (JNumber (GetMaxFloat op)))])
           | _ \<Rightarrow> Inl (ErrDoubleInvalid [k]))
      | CmdBool \<Rightarrow>
          (case v of
             JBool b \<Rightarrow> Inr (OvBool b)
           | JString s \<Rightarrow> (case ParseBool s of Some b \<Rightarrow> Inr (OvBool b) | None \<Rightarrow> Inl (ErrBooleanInvalid [k]))
           | _ \<Rightarrow> Inl (ErrBooleanInvalid [k]))
      | CmdTimestamp \<Rightarrow>
          (case v of
             JNumber x \<Rightarrow> Inr (OvInt (int_of_f64 64 (ce_impl ev) x))
           | JString s \<Rightarrow> (case ParseInt s of Some t \<Rightarrow> Inr (OvInt t) | None \<Rightarrow> Inl (ErrTimestampInvalid [k]))
           | _ \<Rightarrow> Inl (ErrTimestampInvalid [k]))
      | CmdEnum \<Rightarrow>
          (case v of
             JString s \<Rightarrow> if s \<in> set (opt_Values op) then Inr (OvString s) else Inl (ErrEnumInvalid [k, ''Valid values ['' @ join_with ''|'' (opt_Values op) @ '']''])
           | _ \<Rightarrow> Inl (ErrEnumInvalid [k])))"

text \<open>The errors are collected, and the legal values.\<close>

fun convert_all :: "(string \<Rightarrow> json \<Rightarrow> go_error + opt_value) \<Rightarrow> (string, json) smap \<Rightarrow> go_error list \<times> (string, opt_value) smap" where
  "convert_all conv [] = ([], [])"
| "convert_all conv ((k, v) # kvs) =
     (case convert_all conv kvs of (errs, vals) \<Rightarrow> (case conv k v of Inl err \<Rightarrow> (err # errs, vals) | Inr x \<Rightarrow> (errs, (k, x) # vals)))"

text \<open>The options of a command: \<open>ops\<close> are the options of the exploded type.\<close>

definition named_option :: "heap \<Rightarrow> CommandType \<Rightarrow> string \<Rightarrow> cmd_Option option" where
  "named_option h ct k = map_option (\<lambda>a. h ! a) (cache_load (ct_OptionByName ct) k)"

definition option_errors :: "heap \<Rightarrow> CommandType \<Rightarrow> (string, json) smap \<Rightarrow> go_error list" where
  "option_errors h ct obj =
     (let unknown = filter (\<lambda>k. cache_load (ct_OptionByName ct) k = None) (map fst obj);
          missed = map opt_Name (filter (\<lambda>op. opt_Default op = None \<and> cache_load obj (opt_Name op) = Some JNull) (own_options h ct)) in
      (if unknown \<noteq> [] then [ErrCommandOptionNotFound unknown] else []) @ (if missed \<noteq> [] then [ErrCommandOptionValueMissed missed] else []))"

definition command_options :: "ctl_env \<Rightarrow> heap \<Rightarrow> CommandType \<Rightarrow> (string, json) smap \<Rightarrow> go_error list + (string, opt_value) smap" where
  "command_options ev h ct obj =
     (if option_errors h ct obj \<noteq> [] then Inl (option_errors h ct obj)
      else
        case convert_all (\<lambda>k v. case named_option h ct k of None \<Rightarrow> Inl GoPanic | Some op \<Rightarrow> convert_option ev k op v) obj of
          (errs, legal) \<Rightarrow>
            if errs \<noteq> [] then Inl errs
            else Inr (foldl (\<lambda>l op. if cache_load l (opt_Name op) = None then cache_store (opt_Name op) (OvDefault (opt_Default op)) l else l)
                        legal (filter opt_Required (own_options h ct))))"

text \<open>The answer of the broker: none, a status 200 with its body, or another status with the error text; a body that does not decode is \<open>None\<close>.\<close>

datatype broker_answer = NoAnswer | StatusOK "AckData option" | StatusOther "string option"

definition dispatchCmd :: "(Command \<Rightarrow> broker_answer) \<Rightarrow> Command \<Rightarrow> Command" where
  "dispatchCmd broker cmd =
     (case broker cmd of
        NoAnswer \<Rightarrow> cmd\<lparr>cmd_State := StateFail\<rparr>
      | StatusOK None \<Rightarrow> cmd\<lparr>cmd_State := StateFail\<rparr>
      | StatusOK (Some ad) \<Rightarrow> cmd\<lparr>cmd_Code := ak_Code ad, cmd_Message := ak_Message ad, cmd_State := (if ak_Code ad = 0 then StateSuccess else StateFail)\<rparr>
      | StatusOther None \<Rightarrow> cmd\<lparr>cmd_State := StateFail\<rparr>
      | StatusOther (Some s) \<Rightarrow> cmd\<lparr>cmd_State := StateFail, cmd_Message := Some s\<rparr>)"

text \<open>The command that is recorded, with the type of its record.\<close>

definition deliverCommand ::
  "ctl_env \<Rightarrow> (Command \<Rightarrow> broker_answer) \<Rightarrow> int \<Rightarrow> time \<Rightarrow> thing_manager \<Rightarrow> cmd_manager \<Rightarrow> string \<Rightarrow> string \<Rightarrow> (string, json) smap \<Rightarrow> go_error list + Command \<times> CommandType" where
  "deliverCommand ev broker seq now tm m thingId commandTypeId obj =
     (case GetThingById tm thingId of
        Inl _ \<Rightarrow> Inl [ErrThingNotFound thingId]
      | Inr thing \<Rightarrow>
          (case cache_load (tm_types tm) (t_Type thing) of
             None \<Rightarrow> Inl [ErrThingTypeNotFound (t_Type thing)]
           | Some tt \<Rightarrow>
               (case getCommandTypeById m (om_ID tt) commandTypeId of
                  Inl _ \<Rightarrow> Inl [ErrCommandTypeNotFound commandTypeId]
                | Inr ct \<Rightarrow>
                    let ct = explodedCmdType ct in
                    (case command_options ev (cm_heap m) ct obj of
                       Inl errs \<Rightarrow> Inl errs
                     | Inr legal \<Rightarrow>
                         Inr (dispatchCmd broker
                                \<lparr>cmd_Seq = seq, cmd_ThingId = thingId, cmd_TypeId = commandTypeId, cmd_Time = now, cmd_State = StateDelivering, cmd_Ack = False,
                                 cmd_Timeout = 0, cmd_Code = 0, cmd_Message = None, cmd_Options = legal\<rparr>, ct)))))"

text \<open>The handler: \<open>body\<close> is the decoded body, an empty one the empty map.\<close>

definition deliverCommand_handler ::
  "ctl_env \<Rightarrow> (Command \<Rightarrow> broker_answer) \<Rightarrow> int \<Rightarrow> time \<Rightarrow> thing_manager \<Rightarrow> cmd_manager \<Rightarrow> (string, string) smap \<Rightarrow> (string, json) smap option \<Rightarrow> (nat \<times> go_error list) + Command \<times> CommandType" where
  "deliverCommand_handler ev broker seq now tm m q body =
     (let thingId = query_Get q ''thingId''; commandTypeId = query_Get q ''commandTypeId'';
          errs = (if thingId = [] then [ErrThingNotFound []] else []) @ (if commandTypeId = [] then [ErrCommandTypeNotFound []] else []) @
                 (if body = None then [ErrMalformedJSON] else []) in
      if errs \<noteq> [] then Inl (400, errs)
      else map_sum (Pair 400) id (deliverCommand ev broker seq now tm m thingId commandTypeId (case body of None \<Rightarrow> [] | Some obj \<Rightarrow> obj)))"

subsection \<open>The record of commands\<close>

text \<open>The LRU cache of table definitions, most recent first.\<close>

definition lru_size :: nat where "lru_size = 128"

definition lru_Get :: "(string, 'v) smap \<Rightarrow> string \<Rightarrow> (string, 'v) smap \<times> 'v option" where
  "lru_Get c k = (case cache_load c k of None \<Rightarrow> (c, None) | Some v \<Rightarrow> ((k, v) # cache_delete k c, Some v))"

definition lru_Add :: "(string, 'v) smap \<Rightarrow> string \<Rightarrow> 'v \<Rightarrow> (string, 'v) smap" where
  "lru_Add c k v = take lru_size ((k, v) # cache_delete k c)"

fun convertOptionDatatype :: "cmd_Datatype \<Rightarrow> ColumnDatatype" where
  "convertOptionDatatype CmdInt = ColumnDatatypeInt"
| "convertOptionDatatype CmdDouble = ColumnDatatypeDouble"
| "convertOptionDatatype CmdBool = ColumnDatatypeBoolean"
| "convertOptionDatatype CmdTimestamp = ColumnDatatypeTimestamp"
| "convertOptionDatatype CmdString = ColumnDatatypeString"
| "convertOptionDatatype CmdEnum = ColumnDatatypeString"

definition option_column :: "TableDefinition \<Rightarrow> cmd_Option \<Rightarrow> TableDefinition" where
  "option_column td op = AddColumn (opt_Name op) (if opt_Filterable op then ColumnTypeSecondaryKey else ColumnTypeAttribute) (convertOptionDatatype (opt_Datatype op)) td"

definition command_table :: "heap \<Rightarrow> CommandType \<Rightarrow> TableDefinition" where
  "command_table h ct =
     foldl option_column
       (AddColumn ''message'' ColumnTypeAttribute ColumnDatatypeString
       (AddColumn ''code'' ColumnTypeAttribute ColumnDatatypeInt
       (AddColumn ''state'' ColumnTypeAttribute ColumnDatatypeString
       (AddColumn ''_time'' ColumnTypeAttribute ColumnDatatypeTimestamp
       (AddColumn ''seq'' ColumnTypeSecondaryKey ColumnDatatypeInt
       (AddColumn ''thingId'' ColumnTypePrimaryKey ColumnDatatypeString
         \<lparr>td_name = om_ID ct, td_columns = [], td_database = ''cmd-raw''\<rparr>)))))) (own_options h ct)"

definition cmd_getTableDefinition :: "(string, TableDefinition) smap \<Rightarrow> heap \<Rightarrow> CommandType \<Rightarrow> (string, TableDefinition) smap \<times> TableDefinition" where
  "cmd_getTableDefinition cache h ct =
     (let k = cmd_key (ct_ThingTypeId ct) (om_ID ct) in
      case lru_Get cache k of
        (cache, Some td) \<Rightarrow> (cache, td)
      | (cache, None) \<Rightarrow> let td = command_table h ct in (lru_Add cache k td, td))"

datatype ctl_cell = CcString string | CcInt int | CcTime time | CcState cmd_State | CcValue opt_value

record ctl_upsert =
  cu_table :: TableDefinition
  cu_keys :: "(string, ctl_cell) smap"
  cu_row :: "(string, ctl_cell) smap"

definition store_values :: "(string, ctl_cell) smap \<Rightarrow> (string, opt_value) smap \<Rightarrow> (string, ctl_cell) smap" where
  "store_values c vals = foldl (\<lambda>c (k, v). cache_store k (CcValue v) c) c vals"

definition is_filterable :: "heap \<Rightarrow> CommandType \<Rightarrow> string \<Rightarrow> bool" where
  "is_filterable h ct k = (case named_option h ct k of None \<Rightarrow> False | Some op \<Rightarrow> opt_Filterable op)"

text \<open>An option that the type does not have would be a nil pointer (\<open>None\<close>).\<close>

definition CreateCommand :: "(string, TableDefinition) smap \<Rightarrow> heap \<Rightarrow> Command \<Rightarrow> CommandType \<Rightarrow> ((string, TableDefinition) smap \<times> ctl_upsert) option" where
  "CreateCommand cache h cmd ct =
     (case cmd_getTableDefinition cache h ct of
        (cache, td) \<Rightarrow>
          if list_ex (\<lambda>(k, v). named_option h ct k = None) (cmd_Options cmd) then None
          else
            let keys = [(''thingId'', CcString (cmd_ThingId cmd)), (''seq'', CcInt (cmd_Seq cmd))];
                row = [(''_time'', CcTime (cmd_Time cmd)), (''state'', CcState (cmd_State cmd)), (''code'', CcInt (cmd_Code cmd))] @
                      (case cmd_Message cmd of None \<Rightarrow> [] | Some s \<Rightarrow> if s = [] then [] else [(''message'', CcString s)]) in
            Some (cache,
              \<lparr>cu_table = td, cu_keys = store_values keys (filter (\<lambda>(k, v). is_filterable h ct k) (cmd_Options cmd)),
               cu_row = store_values row (filter (\<lambda>(k, v). \<not> is_filterable h ct k) (cmd_Options cmd))\<rparr>))"

text \<open>Queries of the log storage: tables, columns, keys, and the range (\<open>None\<close>: the latest row).\<close>

record ctl_query =
  cq_tables :: "TableDefinition list"
  cq_selects :: "string list"
  cq_keys :: "(string, json) smap"
  cq_range :: "(time \<times> time \<times> int \<times> bool) option"

definition fixedCmdSelects :: "string list" where
  "fixedCmdSelects = [''seq'', ''state'', ''code'', ''message'', ''thingId'']"

fun command_tables :: "(string, TableDefinition) smap \<Rightarrow> heap \<Rightarrow> CommandType list \<Rightarrow> (string, TableDefinition) smap \<times> TableDefinition list" where
  "command_tables cache h [] = (cache, [])"
| "command_tables cache h (ct # cts) =
     (case cmd_getTableDefinition cache h ct of (cache, td) \<Rightarrow> (case command_tables cache h cts of (cache, tds) \<Rightarrow> (cache, td # tds)))"

definition ListCommandsWithFilter ::
  "(string, TableDefinition) smap \<Rightarrow> heap \<Rightarrow> string \<Rightarrow> CommandType list \<Rightarrow> (string, json) smap \<Rightarrow> time \<Rightarrow> time \<Rightarrow> bool \<Rightarrow> bool \<Rightarrow> int \<Rightarrow> (string, TableDefinition) smap \<times> ctl_query" where
  "ListCommandsWithFilter cache h thingId cts filt start stop desc latest limit =
     (case command_tables cache h cts of (cache, tds) \<Rightarrow>
        (cache, \<lparr>cq_tables = tds, cq_selects = remdups (fixedCmdSelects @ concat (map (\<lambda>ct. map fst (ct_OptionByName ct)) cts)),
                 cq_keys = foldl (\<lambda>c (k, v). cache_store k v c) [(''thingId'', JString thingId)] filt,
                 cq_range = (if latest then None else Some (start, stop, limit, desc))\<rparr>))"

definition ListCommands where
  "ListCommands cache h thingId cts start stop desc latest limit = ListCommandsWithFilter cache h thingId cts [] start stop desc latest limit"

definition listCommandHistory ::
  "(string, TableDefinition) smap \<Rightarrow> thing_manager \<Rightarrow> cmd_manager \<Rightarrow> string \<Rightarrow> string \<Rightarrow> time \<Rightarrow> time \<Rightarrow> (string, json) smap \<Rightarrow> bool \<Rightarrow> bool \<Rightarrow> int \<Rightarrow> ((string, TableDefinition) smap \<times> ctl_query) option" where
  "listCommandHistory cache tm m thingId commandTypeId start stop filt desc latest limit =
     (case GetThingById tm thingId of
        Inl _ \<Rightarrow> None
      | Inr thing \<Rightarrow>
          if cache_load (tm_types tm) (t_Type thing) = None then None
          else
            (case listCommandTypes no_names m \<lparr>ctf_Id = commandTypeId, ctf_Tenant = [], ctf_Name = NoName, ctf_ThingTypeId = t_Type thing\<rparr> True of
               [] \<Rightarrow> None
             | ct # cts \<Rightarrow>
                 Some (if commandTypeId = [] then ListCommands cache (cm_heap m) thingId (ct # cts) start stop desc latest limit
                       else ListCommandsWithFilter cache (cm_heap m) thingId [ct] (filter (\<lambda>(k, v). is_filterable (cm_heap m) ct k) filt) start stop desc latest limit)))"

subsection \<open>Actions\<close>

definition GetMinInt32 :: "ctl_env \<Rightarrow> Property \<Rightarrow> int" where
  "GetMinInt32 ev p = (case p_Min p of None \<Rightarrow> - (2 ^ 31) | Some x \<Rightarrow> int_of_f64 32 (ce_impl ev) x)"

definition GetMaxInt32 :: "ctl_env \<Rightarrow> Property \<Rightarrow> int" where
  "GetMaxInt32 ev p = (case p_Max p of None \<Rightarrow> 2 ^ 31 - 1 | Some x \<Rightarrow> int_of_f64 32 (ce_impl ev) x)"

definition GetMinLong :: "ctl_env \<Rightarrow> Property \<Rightarrow> int" where
  "GetMinLong ev p = (case p_Min p of None \<Rightarrow> - (2 ^ 63) | Some x \<Rightarrow> int_of_f64 64 (ce_impl ev) x)"

definition GetMaxLong :: "ctl_env \<Rightarrow> Property \<Rightarrow> int" where
  "GetMaxLong ev p = (case p_Max p of None \<Rightarrow> 2 ^ 63 - 1 | Some x \<Rightarrow> int_of_f64 64 (ce_impl ev) x)"

definition p_GetMinFloat :: "Property \<Rightarrow> float64" where
  "p_GetMinFloat p = (case p_Min p of None \<Rightarrow> neg_MaxFloat64 | Some x \<Rightarrow> x)"

definition p_GetMaxFloat :: "Property \<Rightarrow> float64" where
  "p_GetMaxFloat p = (case p_Max p of None \<Rightarrow> MaxFloat64 | Some x \<Rightarrow> x)"

definition convert_action :: "ctl_env \<Rightarrow> string \<Rightarrow> Property \<Rightarrow> json \<Rightarrow> go_error + opt_value" where
  "convert_action ev k p v =
     (case p_DataType p of
        DataTypeString \<Rightarrow>
          let s = ce_Sprint ev v in
          if int (length (runes s)) > p_Length p then Inl (ErrStringTooLong [k, ''Max length '' @ FormatInt (p_Length p)]) else Inr (OvString s)
      | DataTypeInt \<Rightarrow>
          (case v of
             JNumber x \<Rightarrow>
               let i = int_of_f64 32 (ce_impl ev) x in
               if i \<ge> GetMinInt32 ev p \<and> i \<le> GetMaxInt32 ev p then Inr (OvInt i)
               else Inl (ErrIntegerInvalid [k, valid_range (FormatInt (GetMinInt32 ev p)) (FormatInt (GetMaxInt32 ev p))])
           | _ \<Rightarrow> Inl (ErrIntegerInvalid [k]))
      | DataTypeLong \<Rightarrow>
          (case v of
             JNumber x \<Rightarrow>
               let i = int_of_f64 64 (ce_impl ev) x in
               if i \<ge> GetMinLong ev p \<and> i \<le> GetMaxLong ev p then Inr (OvInt i)
               else Inl (ErrLongInvalid [k, valid_range (FormatInt (GetMinLong ev p)) (FormatInt (GetMaxLong ev p))])
           | _ \<Rightarrow> Inl (ErrLongInvalid [k]))
      | DataTypeDouble \<Rightarrow>
          (case v of
             JNumber x \<Rightarrow>
               if f64_le (p_GetMinFloat p) x \<and> f64_le x (p_GetMaxFloat p) then Inr (OvDouble x)
               else Inl (ErrDoubleInvalid [k, valid_range (ce_Sprint ev (JNumber (p_GetMinFloat p))) (ce_Sprint ev (JNumber (p_GetMaxFloat p)))])
           | _ \<Rightarrow> Inl (ErrDoubleInvalid [k]))
      | DataTypeBoolean \<Rightarrow>
          (case v of
             JBool b \<Rightarrow> Inr (OvBool b)
           | JString s \<Rightarrow> (case ParseBool s of Some b \<Rightarrow> Inr (OvBool b) | None \<Rightarrow> Inl (ErrBooleanInvalid [k]))
           | _ \<Rightarrow> Inl (ErrBooleanInvalid [k])))"

fun legal_actions :: "ctl_env \<Rightarrow> Property list \<Rightarrow> (string, json) smap \<Rightarrow> go_error list \<Rightarrow> (string, opt_value) smap \<Rightarrow> go_error list \<times> (string, opt_value) smap" where
  "legal_actions ev props [] errs legal = (errs, legal)"
| "legal_actions ev props ((k, v) # kvs) errs legal =
     (if cache_load legal k \<noteq> None then legal_actions ev props kvs (errs @ [ErrResourceExists k]) legal
      else case by_name p_Name props k of
        None \<Rightarrow> legal_actions ev props kvs (errs @ [ErrPropertyNotFound k]) legal
      | Some p \<Rightarrow>
          if p_AccessMode p \<noteq> AccessModeReadWrite then legal_actions ev props kvs (errs @ [ErrPropertyNotWritable k]) legal
          else
            (case convert_action ev k p v of
               Inl err \<Rightarrow> legal_actions ev props kvs (errs @ [err]) legal
             | Inr x \<Rightarrow> legal_actions ev props kvs errs (cache_store k x legal)))"

definition dispatchAction :: "(Action \<Rightarrow> broker_answer) \<Rightarrow> Action \<Rightarrow> Action" where
  "dispatchAction broker act =
     (case broker act of
        NoAnswer \<Rightarrow> act\<lparr>act_State := StateFail\<rparr>
      | StatusOK None \<Rightarrow> act\<lparr>act_State := StateFail\<rparr>
      | StatusOK (Some ad) \<Rightarrow> act\<lparr>act_Code := ak_Code ad, act_Message := ak_Message ad, act_State := (if ak_Code ad = 0 then StateSuccess else StateFail)\<rparr>
      | StatusOther None \<Rightarrow> act\<lparr>act_State := StateFail\<rparr>
      | StatusOther (Some s) \<Rightarrow> act\<lparr>act_State := StateFail, act_Message := Some s\<rparr>)"

text \<open>The property set is one of the thing type itself.\<close>

definition action_set :: "thing_manager \<Rightarrow> string \<Rightarrow> string \<Rightarrow> go_error + PropertySetType" where
  "action_set tm thingId psName =
     (case GetThingById tm thingId of
        Inl _ \<Rightarrow> Inl (ErrThingNotFound thingId)
      | Inr thing \<Rightarrow>
          if cache_load (tm_types tm) (t_Type thing) = None then Inl (ErrThingTypeNotFound (t_Type thing))
          else
            (case type_set tm (t_Type thing) psName of
               None \<Rightarrow> Inl (ErrPropertySetNotFound psName)
             | Some ps \<Rightarrow> (case set_type tm ps of None \<Rightarrow> Inl GoPanic | Some pst \<Rightarrow> Inr pst)))"

definition deliverAction ::
  "ctl_env \<Rightarrow> (Action \<Rightarrow> broker_answer) \<Rightarrow> int \<Rightarrow> time \<Rightarrow> thing_manager \<Rightarrow> string \<Rightarrow> string \<Rightarrow> (string, json) smap list \<Rightarrow> go_error list + Action \<times> PropertySetType" where
  "deliverAction ev broker seq now tm thingId psName obj =
     (case action_set tm thingId psName of
        Inl err \<Rightarrow> Inl [err]
      | Inr pst \<Rightarrow>
          (case legal_actions ev (pst_Properties pst) (concat obj) [] [] of
             (errs, legal) \<Rightarrow>
               if errs \<noteq> [] then Inl errs
               else if legal = [] then Inl [ErrLegalActionNotFound]
               else
                 Inr (dispatchAction broker
                        \<lparr>act_Seq = seq, act_ThingId = thingId, act_PsName = psName, act_Time = now, act_State = StateDelivering, act_Ack = False, act_Timeout = 0,
                         act_Code = 0, act_Message = None, act_Actions = legal\<rparr>, pst)))"

fun convertPropertyDatatype :: "Datatype \<Rightarrow> ColumnDatatype" where
  "convertPropertyDatatype DataTypeInt = ColumnDatatypeInt"
| "convertPropertyDatatype DataTypeLong = ColumnDatatypeLong"
| "convertPropertyDatatype DataTypeDouble = ColumnDatatypeDouble"
| "convertPropertyDatatype DataTypeBoolean = ColumnDatatypeBoolean"
| "convertPropertyDatatype DataTypeString = ColumnDatatypeString"

definition action_table :: "PropertySetType \<Rightarrow> TableDefinition" where
  "action_table pst =
     foldl (\<lambda>td p. AddColumn (p_Name p) ColumnTypeAttribute (convertPropertyDatatype (p_DataType p)) td)
       (AddColumn ''message'' ColumnTypeAttribute ColumnDatatypeString
       (AddColumn ''code'' ColumnTypeAttribute ColumnDatatypeInt
       (AddColumn ''state'' ColumnTypeAttribute ColumnDatatypeString
       (AddColumn ''_time'' ColumnTypeAttribute ColumnDatatypeTimestamp
       (AddColumn ''seq'' ColumnTypeSecondaryKey ColumnDatatypeInt
       (AddColumn ''psn'' ColumnTypePrimaryKey ColumnDatatypeString
       (AddColumn ''thingId'' ColumnTypePrimaryKey ColumnDatatypeString
         \<lparr>td_name = om_ID pst, td_columns = [], td_database = ''act-raw''\<rparr>))))))) (pst_Properties pst)"

definition getActionTableDefinition :: "(string, TableDefinition) smap \<Rightarrow> PropertySetType \<Rightarrow> (string, TableDefinition) smap \<times> TableDefinition" where
  "getActionTableDefinition cache pst =
     (case lru_Get cache (om_ID pst) of
        (cache, Some td) \<Rightarrow> (cache, td)
      | (cache, None) \<Rightarrow> let td = action_table pst in (lru_Add cache (om_ID pst) td, td))"

definition CreateAction :: "(string, TableDefinition) smap \<Rightarrow> Action \<Rightarrow> PropertySetType \<Rightarrow> (string, TableDefinition) smap \<times> ctl_upsert" where
  "CreateAction cache act pst =
     (case getActionTableDefinition cache pst of (cache, td) \<Rightarrow>
        (cache,
         \<lparr>cu_table = td, cu_keys = [(''thingId'', CcString (act_ThingId act)), (''psn'', CcString (act_PsName act)), (''seq'', CcInt (act_Seq act))],
          cu_row = store_values
            ([(''_time'', CcTime (act_Time act)), (''state'', CcState (act_State act)), (''code'', CcInt (act_Code act))] @
             (case act_Message act of None \<Rightarrow> [] | Some s \<Rightarrow> if s = [] then [] else [(''message'', CcString s)])) (act_Actions act)\<rparr>))"

definition fixedActionSelects :: "string list" where
  "fixedActionSelects = [''seq'', ''state'', ''code'', ''message'']"

definition ListActions :: "(string, TableDefinition) smap \<Rightarrow> string \<Rightarrow> string \<Rightarrow> PropertySetType \<Rightarrow> time \<Rightarrow> time \<Rightarrow> bool \<Rightarrow> bool \<Rightarrow> int \<Rightarrow> (string, TableDefinition) smap \<times> ctl_query" where
  "ListActions cache thingId psName pst start stop desc latest limit =
     (case getActionTableDefinition cache pst of (cache, td) \<Rightarrow>
        (cache, \<lparr>cq_tables = [td], cq_selects = remdups (fixedActionSelects @ map p_Name (pst_Properties pst)), cq_keys = [(''thingId'', JString thingId), (''psn'', JString psName)],
                 cq_range = (if latest then None else Some (start, stop, limit, desc))\<rparr>))"

definition ListActionHistory where
  "ListActionHistory cache tm thingId psName start stop desc latest limit =
     (case action_set tm thingId psName of Inl _ \<Rightarrow> None | Inr pst \<Rightarrow> Some (ListActions cache thingId psName pst start stop desc latest limit))"

subsection \<open>The handlers of histories and actions\<close>

text \<open>The parameters of a listing; \<open>parse\<close> reads a time in the RFC 3339 format, and what does not parse is the zero time.\<close>

record history_params =
  hp_start :: time
  hp_end :: time
  hp_desc :: bool
  hp_latest :: bool
  hp_limit :: int

definition history_query :: "(string \<Rightarrow> time option) \<Rightarrow> (string, string) smap \<Rightarrow> history_params" where
  "history_query parse q =
     (let at_time = (\<lambda>k. case parse (query_Get q k) of None \<Rightarrow> 0 | Some t \<Rightarrow> t) in
      if q = [] then \<lparr>hp_start = 0, hp_end = 0, hp_desc = False, hp_latest = False, hp_limit = 2000\<rparr>
      else
        \<lparr>hp_start = at_time ''start'', hp_end = at_time ''end'', hp_desc = (ToLower (query_Get q ''sort'') = ''desc''),
         hp_latest = (ParseBool (query_Get q ''latest'') = Some True),
         hp_limit = (case ParseInt (query_Get q ''limit'') of None \<Rightarrow> 2000 | Some n \<Rightarrow> n)\<rparr>)"

text \<open>\<open>filt\<close> is what the filter decodes to; an answer without a query is an empty one.\<close>

definition listCommandHistory_handler ::
  "(string \<Rightarrow> time option) \<Rightarrow> (string \<Rightarrow> (string, json) smap option) \<Rightarrow> (string, TableDefinition) smap \<Rightarrow> thing_manager \<Rightarrow> cmd_manager \<Rightarrow> (string, string) smap \<Rightarrow>
     (nat \<times> go_error) + ((string, TableDefinition) smap \<times> ctl_query) option" where
  "listCommandHistory_handler parse decode cache tm m q =
     (let thingId = query_Get q ''thingId''; i = query_Get q ''commandTypeId''; v = query_Get q ''filter''; p = history_query parse q;
          list = (\<lambda>filt. Inr (listCommandHistory cache tm m thingId i (hp_start p) (hp_end p) filt (hp_desc p) (hp_latest p) (hp_limit p))) in
      if q \<noteq> [] \<and> thingId = [] then Inl (400, ErrThingNotFound [])
      else if v = [] \<or> i = [] then list []
      else case decode v of None \<Rightarrow> Inl (400, ErrMalformedJSON) | Some filt \<Rightarrow> list filt)"

definition deliverAction_handler ::
  "ctl_env \<Rightarrow> (Action \<Rightarrow> broker_answer) \<Rightarrow> int \<Rightarrow> time \<Rightarrow> thing_manager \<Rightarrow> string \<Rightarrow> string \<Rightarrow> (string, json) smap list option \<Rightarrow> (nat \<times> go_error list) + Action \<times> PropertySetType" where
  "deliverAction_handler ev broker seq now tm thingId psName body =
     (case body of None \<Rightarrow> Inl (400, [ErrMalformedJSON]) | Some obj \<Rightarrow> map_sum (Pair 400) id (deliverAction ev broker seq now tm thingId psName obj))"

definition listActionHistory_handler where
  "listActionHistory_handler parse cache tm thingId psName q =
     (if thingId = [] \<or> psName = [] then Inl (404 :: nat)
      else let p = history_query parse q in Inr (ListActionHistory cache tm thingId psName (hp_start p) (hp_end p) (hp_desc p) (hp_latest p) (hp_limit p)))"

end
