(* ===== verification/Exchange_Properties.thy ===== *)
theory Exchange_Properties
  imports Collector "HOL-Library.Multiset"
begin

text \<open>
  The routes of the exchange are those of the mappings that were announced; every value of an agent reaches the properties of its data point, up to the points of the collector; and where
  values and messages get lost.
\<close>

subsection \<open>Routes\<close>

text \<open>The abstract view: for a source and a data point the properties, as a multiset.\<close>

definition routes :: "exchange_manager \<Rightarrow> string \<Rightarrow> string \<Rightarrow> PropertyInfo list" where
  "routes m ad dp = (case Option.bind (cache_load (ex_up m) ad) (\<lambda>dps. cache_load dps dp) of None \<Rightarrow> [] | Some infos \<Rightarrow> infos)"

definition abs_routes :: "exchange_manager \<Rightarrow> string \<times> string \<Rightarrow> PropertyInfo multiset" where
  "abs_routes m = (\<lambda>(ad, dp). mset (routes m ad dp))"

definition mapping_key :: "DataPointMapping \<Rightarrow> string \<times> string" where
  "mapping_key d = (mapping_source d, dm_DataPointId d)"

lemma mset_rotate: "ys \<noteq> [] \<Longrightarrow> mset (last ys # butlast ys) = mset ys"
proof -
  assume "ys \<noteq> []"
  then have "mset ys = mset (butlast ys @ [last ys])" by simp
  then show ?thesis by (simp only: mset_append mset.simps) simp
qed

lemma mset_swap_out: "mset (swap_out xs x) = mset xs - {#x#}"
proof (induction xs)
  case (Cons y ys)
  show ?case
  proof (cases "y = x")
    case True
    then show ?thesis using mset_rotate [of ys] by (cases "ys = []") simp_all
  next
    case False
    then show ?thesis using Cons by simp
  qed
qed simp

lemma downMapping_up [simp]: "ex_up (downMapping m d k) = ex_up m"
  by (simp add: downMapping_def Let_def split: watch_kind.splits option.splits)

lemma routes_create:
  "routes (OnDataPointMappingReceived m d WatchCreate) ad dp = routes m ad dp @ (if (ad, dp) = mapping_key d then [mapping_info d] else [])"
proof (cases "cache_load (ex_up m) (mapping_source d)")
  case (Some dps)
  then show ?thesis
    by (cases "cache_load dps (dm_DataPointId d)") (auto simp: routes_def OnDataPointMappingReceived_def add_up_def mapping_key_def Let_def)
next
  case None
  moreover have "cache_load [(dm_DataPointId d, infos)] dp = (if dp = dm_DataPointId d then Some infos else None)" for infos :: "PropertyInfo list"
    by (simp add: cache_load_def)
  ultimately show ?thesis by (auto simp: routes_def OnDataPointMappingReceived_def add_up_def mapping_key_def Let_def)
qed

lemma delete_last: "cache_delete k c = [] \<Longrightarrow> k' \<noteq> k \<Longrightarrow> cache_load c k' = None"
  by (metis cache_load_Nil cache_load_delete)

lemma routes_remove:
  "routes (OnDataPointMappingReceived m d WatchRemove) ad dp = (if (ad, dp) = mapping_key d then swap_out (routes m ad dp) (mapping_info d) else routes m ad dp)"
proof (cases "cache_load (ex_up m) (mapping_source d)")
  case (Some dps)
  show ?thesis
  proof (cases "cache_load dps (dm_DataPointId d)")
    case infos: (Some infos)
    let ?infos = "swap_out infos (mapping_info d)"
    show ?thesis
    proof (cases "?infos = []")
      case True
      then show ?thesis using Some infos delete_last [of "dm_DataPointId d" dps dp]
        by (auto simp: routes_def OnDataPointMappingReceived_def remove_up_def mapping_key_def Let_def)
    qed (use Some infos in \<open>auto simp: routes_def OnDataPointMappingReceived_def remove_up_def mapping_key_def Let_def\<close>)
  qed (use Some in \<open>auto simp: routes_def OnDataPointMappingReceived_def remove_up_def mapping_key_def Let_def\<close>)
qed (auto simp: routes_def OnDataPointMappingReceived_def remove_up_def mapping_key_def Let_def)

text \<open>
  The routes upwards refine their specification: a mapping that is announced adds its property to its data point, one that is removed takes it away once, and nothing else changes.
\<close>

lemma abs_create: "abs_routes (OnDataPointMappingReceived m d WatchCreate) = (abs_routes m)(mapping_key d := add_mset (mapping_info d) (abs_routes m (mapping_key d)))"
  by (auto simp: fun_eq_iff abs_routes_def routes_create mapping_key_def)

lemma abs_remove: "abs_routes (OnDataPointMappingReceived m d WatchRemove) = (abs_routes m)(mapping_key d := abs_routes m (mapping_key d) - {#mapping_info d#})"
  by (auto simp: fun_eq_iff abs_routes_def routes_remove mset_swap_out mapping_key_def)

subsection \<open>The watch of the mappings\<close>

definition announce :: "exchange_manager \<Rightarrow> mapping_event \<Rightarrow> exchange_manager" where
  "announce m ev = (case ev of MappingCreated d \<Rightarrow> OnDataPointMappingReceived m d WatchCreate | MappingRemoved d \<Rightarrow> OnDataPointMappingReceived m d WatchRemove)"

definition mapping_watch :: "mapping_manager \<times> exchange_manager \<Rightarrow> DataPointMapping \<Rightarrow> mapping_manager \<times> exchange_manager" where
  "mapping_watch s d = (case mapping_processEvent (fst s) d of (mm, evs) \<Rightarrow> (mm, foldl announce (snd s) evs))"

text \<open>Each mapping is announced once: an object that is written has an identifier that is not cached.\<close>

fun announced_once :: "mapping_manager \<times> exchange_manager \<Rightarrow> DataPointMapping list \<Rightarrow> bool" where
  "announced_once s [] = True"
| "announced_once s (d # ds) = ((om_ModTime d \<noteq> 0 \<longrightarrow> cache_load (mm_mappings (fst s)) (om_ID d) = None) \<and> announced_once (mapping_watch s d) ds)"

definition mapped :: "mapping_manager \<Rightarrow> string \<times> string \<Rightarrow> PropertyInfo multiset" where
  "mapped mm key = image_mset mapping_info (filter_mset (\<lambda>d. mapping_key d = key) (mset (cache_values (mm_mappings mm))))"

lemma values_store: "cache_load c k = None \<Longrightarrow> mset (cache_values (cache_store k v c)) = add_mset v (mset (cache_values c))"
  by (induction c) (auto simp: cache_values_def cache_load_def split: if_splits)

lemma values_delete: "cache_ok c \<Longrightarrow> cache_load c k = Some v \<Longrightarrow> mset (cache_values c) = add_mset v (mset (cache_values (cache_delete k c)))"
proof (induction c)
  case (Cons e c)
  show ?case
  proof (cases "fst e = k")
    case True
    then have "cache_delete k c = c" using Cons.prems(1) by (auto simp: cache_ok_def cache_delete_def filter_id_conv image_iff)
    then show ?thesis using True Cons.prems(2) by (cases e) (simp add: cache_values_def cache_delete_def cache_load_def)
  next
    case False
    with Cons have "mset (cache_values c) = add_mset v (mset (cache_values (cache_delete k c)))" by (cases e) (simp add: cache_ok_def cache_load_def)
    then show ?thesis using False by (simp add: cache_values_def cache_delete_def)
  qed
qed simp

lemma mapping_watch_step:
  assumes "cache_ok (mm_mappings mm)" "\<And>key. abs_routes m key = mapped mm key" "om_ModTime d \<noteq> 0 \<longrightarrow> cache_load (mm_mappings mm) (om_ID d) = None"
    and s: "mapping_watch (mm, m) d = (mm', m')"
  shows "cache_ok (mm_mappings mm')" "abs_routes m' key = mapped mm' key"
proof -
  consider (none) "om_ModTime d = 0" "cache_load (mm_mappings mm) (om_ID d) = None" | (gone) old where "om_ModTime d = 0" "cache_load (mm_mappings mm) (om_ID d) = Some old"
    | (new) "om_ModTime d \<noteq> 0" by blast
  then show "cache_ok (mm_mappings mm')" using s assms(1) by cases (auto simp: mapping_watch_def mapping_processEvent_def time_IsZero_def)
  consider (none) "om_ModTime d = 0" "cache_load (mm_mappings mm) (om_ID d) = None" | (gone) old where "om_ModTime d = 0" "cache_load (mm_mappings mm) (om_ID d) = Some old"
    | (new) "om_ModTime d \<noteq> 0" by blast
  then show "abs_routes m' key = mapped mm' key"
  proof cases
    case none
    then show ?thesis using s assms(2) by (simp add: mapping_watch_def mapping_processEvent_def time_IsZero_def)
  next
    case gone
    then have m': "m' = OnDataPointMappingReceived m old WatchRemove" and mm': "mm_mappings mm' = cache_delete (om_ID d) (mm_mappings mm)"
      using s by (auto simp: mapping_watch_def mapping_processEvent_def time_IsZero_def announce_def)
    have "mapped mm key = mapped mm' key + (if mapping_key old = key then {#mapping_info old#} else {#})"
      unfolding mapped_def mm' values_delete [OF assms(1) gone(2)] by simp
    then show ?thesis unfolding m' using assms(2) [of key] by (auto simp: abs_remove)
  next
    case new
    then have m': "m' = OnDataPointMappingReceived m d WatchCreate" and mm': "mm_mappings mm' = cache_store (om_ID d) d (mm_mappings mm)"
      using s by (auto simp: mapping_watch_def mapping_processEvent_def time_IsZero_def announce_def)
    have "mapped mm' key = mapped mm key + (if mapping_key d = key then {#mapping_info d#} else {#})"
      unfolding mapped_def mm' using values_store [of "mm_mappings mm" "om_ID d" d] assms(3) new by simp
    then show ?thesis unfolding m' using assms(2) by (simp add: abs_create)
  qed
qed

lemma mapping_watch_run:
  "cache_ok (mm_mappings (fst s)) \<Longrightarrow> (\<And>key. abs_routes (snd s) key = mapped (fst s) key) \<Longrightarrow> announced_once s ds \<Longrightarrow>
     abs_routes (snd (foldl mapping_watch s ds)) key = mapped (fst (foldl mapping_watch s ds)) key"
proof (induction ds arbitrary: s)
  case (Cons d ds)
  obtain mm' m' where s': "mapping_watch (fst s, snd s) d = (mm', m')" by fastforce
  note step = mapping_watch_step [OF Cons.prems(1,2) _ s']
  have "mapping_watch s d = (mm', m')" using s' by simp
  then show ?case using Cons.IH [of "(mm', m')"] step Cons.prems(3) by simp
qed simp

definition sample_mapping :: DataPointMapping where
  "sample_mapping = \<lparr>om_Tenant = [], om_Name = [], om_ID = ''m1'', om_Version = [], om_ModTime = 1, dm_AgentId = ''lamp'', dm_DataSourceId = ''main'', dm_DataPointId = ''p1'',
     dm_DataPointUnit = [], dm_DataPointType = DataTypeInt, dm_ThingId = ''room'', dm_PropertySetName = ''state'', dm_ThingName = [], dm_PropertyName = ''level'', dm_PropertyUnit = [],
     dm_PropertyType = DataTypeInt, dm_PropertyAccessMode = AccessModeReadWrite\<rparr>"

definition sample_start_exchange :: exchange_manager where
  "sample_start_exchange = \<lparr>ex_up = [], ex_down = [], ex_biDirection = True, ex_queues = [], ex_wait = [], ex_ackTimeout = 10\<rparr>"

text \<open>
  C16: if each mapping is announced once, then after every sequence of watch events the routes are exactly the mappings of the model manager, each property as often as a mapping leads
  to it.
\<close>

theorem routes_follow_mappings:
  assumes "announced_once (\<lparr>mm_mappings = [], mm_files = []\<rparr>, m) ds" "ex_up m = []"
  shows "abs_routes (snd (foldl mapping_watch (\<lparr>mm_mappings = [], mm_files = []\<rparr>, m) ds)) key = mapped (fst (foldl mapping_watch (\<lparr>mm_mappings = [], mm_files = []\<rparr>, m) ds)) key"
  by (rule mapping_watch_run) (use assms in \<open>auto simp: abs_routes_def routes_def mapped_def cache_values_def split: prod.splits\<close>)

lemma sample_announced: "announced_once (\<lparr>mm_mappings = [], mm_files = []\<rparr>, sample_start_exchange) [sample_mapping, sample_mapping\<lparr>om_ModTime := 0\<rparr>]"
  by (simp add: cache_load_def sample_mapping_def)

theorem routes_follow_mappings_witness:
  "abs_routes (snd (foldl mapping_watch (\<lparr>mm_mappings = [], mm_files = []\<rparr>, sample_start_exchange) [sample_mapping, sample_mapping\<lparr>om_ModTime := 0\<rparr>])) (mapping_key sample_mapping) =
   mapped (fst (foldl mapping_watch (\<lparr>mm_mappings = [], mm_files = []\<rparr>, sample_start_exchange) [sample_mapping, sample_mapping\<lparr>om_ModTime := 0\<rparr>])) (mapping_key sample_mapping)"
  by (rule routes_follow_mappings [OF sample_announced]) (simp add: sample_start_exchange_def)

text \<open>
  A mapping whose file gives two events, a creation and a write, is routed twice; when it is deleted one of the routes stays, and the values of its data point still go to a property that
  is no longer mapped.
\<close>

theorem stale_route_after_delete:
  assumes "om_ModTime d \<noteq> 0" "om_ModTime z = 0" "om_ID z = om_ID d"
  shows "case foldl mapping_watch (mm, m) [d, d, z] of
    (mm', m') \<Rightarrow> cache_load (mm_mappings mm') (om_ID d) = None \<and> mapping_info d \<in> set (routes m' (mapping_source d) (dm_DataPointId d))"
proof -
  let ?m = "OnDataPointMappingReceived (OnDataPointMappingReceived m d WatchCreate) d WatchCreate"
  have "foldl mapping_watch (mm, m) [d, d, z] = (mm\<lparr>mm_mappings := cache_delete (om_ID d) (cache_store (om_ID d) d (cache_store (om_ID d) d (mm_mappings mm)))\<rparr>, OnDataPointMappingReceived ?m d WatchRemove)"
    using assms by (simp add: mapping_watch_def mapping_processEvent_def time_IsZero_def announce_def)
  moreover have "mapping_info d \<in># abs_routes (OnDataPointMappingReceived ?m d WatchRemove) (mapping_key d)"
    unfolding abs_remove fun_upd_same abs_create by simp
  ultimately show ?thesis by (simp add: abs_routes_def mapping_key_def)
qed

theorem stale_route_after_delete_witness:
  "case foldl mapping_watch (\<lparr>mm_mappings = [], mm_files = []\<rparr>, sample_start_exchange) [sample_mapping, sample_mapping, sample_mapping\<lparr>om_ModTime := 0\<rparr>] of
    (mm', m') \<Rightarrow> cache_load (mm_mappings mm') (om_ID sample_mapping) = None \<and> mapping_info sample_mapping \<in> set (routes m' (mapping_source sample_mapping) (dm_DataPointId sample_mapping))"
  by (rule stale_route_after_delete) (simp_all add: sample_mapping_def)

end
