(* ===== verification/Exchange_Series.thy ===== *)
theory Exchange_Series
  imports Exchange_Properties
begin

text \<open>
  The values of an agent on their way through the exchange to the points of the collector: for every property of a mapped data point the last value of each time arrives, if no two times of
  a message are the same instant in different zones; and what is lost otherwise, and on the way down.
\<close>

subsection \<open>The writes of a message\<close>

text \<open>The values of a message, in order, each with the properties it is mapped to.\<close>

definition value_writes :: "(string, PropertyInfo list) smap \<Rightarrow> zoned \<Rightarrow> 'f DataPointValue \<Rightarrow> (PropertyInfo \<times> zoned \<times> 'f json_val) list" where
  "value_writes ds t v = (case cache_load ds (dv_DataPointId v) of None \<Rightarrow> [] | Some infos \<Rightarrow> map (\<lambda>i. (i, t, dv_Value v)) infos)"

definition series_writes :: "(string, PropertyInfo list) smap \<Rightarrow> 'f TimeSeriesData list \<Rightarrow> (PropertyInfo \<times> zoned \<times> 'f json_val) list" where
  "series_writes ds series = concat (map (\<lambda>item. concat (map (value_writes ds (ts_Timestamp item)) (ts_Values item))) series)"

definition write_out :: "(PropertySetInfo, 'f RawData) smap \<Rightarrow> PropertyInfo \<times> zoned \<times> 'f json_val \<Rightarrow> (PropertySetInfo, 'f RawData) smap" where
  "write_out out w = (case w of (i, t, v) \<Rightarrow> set_value t v out i)"

lemma write_out_set: "write_out out (i, t, v) = set_value t v out i"
  by (simp add: write_out_def)

lemma foldl_concat_map: "foldl f a (concat (map g xs)) = foldl (\<lambda>a x. foldl f a (g x)) a xs"
  by (induction xs arbitrary: a) simp_all

lemma route_value_writes: "route_value ds t out v = foldl write_out out (value_writes ds t v)"
  by (cases "cache_load ds (dv_DataPointId v)") (simp_all add: route_value_def value_writes_def foldl_map write_out_def)

lemma route_value_writes': "route_value ds t = (\<lambda>out v. foldl write_out out (value_writes ds t v))"
  by (simp add: fun_eq_iff route_value_writes)

lemma route_series_writes: "route_series ds series = foldl write_out [] (series_writes ds series)"
  by (simp add: route_series_def series_writes_def foldl_concat_map route_value_writes')

definition out_cell :: "(PropertySetInfo, 'f RawData) smap \<Rightarrow> PropertySetInfo \<Rightarrow> zoned \<Rightarrow> string \<Rightarrow> 'f cell option" where
  "out_cell out key t n = Option.bind (cache_load out key) (\<lambda>raw. Option.bind (cache_load raw t) (\<lambda>item. cache_load item n))"

text \<open>The last value that was written for a property at a time.\<close>

definition last_write :: "(PropertyInfo \<times> zoned \<times> 'f json_val) list \<Rightarrow> PropertySetInfo \<Rightarrow> zoned \<Rightarrow> string \<Rightarrow> 'f json_val option" where
  "last_write ws key t n = map_option (snd \<circ> snd) (find (\<lambda>(i, t', v). PropertySetInfo.truncate i = key \<and> t' = t \<and> pi_PropertyName i = n) (rev ws))"

lemma last_write_snoc:
  "last_write (ws @ [(i, t', v)]) key t n = (if PropertySetInfo.truncate i = key \<and> t' = t \<and> pi_PropertyName i = n then Some v else last_write ws key t n)"
  by (simp add: last_write_def)

lemma out_cell_write:
  assumes "n \<noteq> TimeKey"
  shows "out_cell (write_out out (i, t', v)) key t n = (if PropertySetInfo.truncate i = key \<and> t' = t \<and> pi_PropertyName i = n then Some (CellValue v) else out_cell out key t n)"
proof -
  have single: "cache_load [(TimeKey, CellTime t')] n = (None :: 'a cell option)" using assms by (simp add: cache_load_def)
  show ?thesis
  proof (cases "cache_load out (PropertySetInfo.truncate i)")
    case None
    then show ?thesis using single by (auto simp: out_cell_def write_out_set set_value_def Let_def simp del: cache_store.simps)
  next
    case (Some raw)
    then show ?thesis using single by (cases "cache_load raw t'") (auto simp: out_cell_def write_out_set set_value_def Let_def simp del: cache_store.simps)
  qed
qed

lemma out_cell_exact: "n \<noteq> TimeKey \<Longrightarrow> out_cell (foldl write_out [] ws) key t n = map_option CellValue (last_write ws key t n)"
proof (induction ws rule: rev_induct)
  case Nil
  then show ?case by (simp add: out_cell_def last_write_def)
next
  case (snoc w ws)
  obtain i t' v where w: "w = (i, t', v)" by (cases w)
  show ?case using snoc by (simp add: w out_cell_write last_write_snoc)
qed

text \<open>Every item carries its time, and the keys of the maps are distinct.\<close>

definition raw_ok :: "'f RawData \<Rightarrow> bool" where
  "raw_ok raw \<longleftrightarrow> cache_ok raw \<and> (\<forall>t item. cache_load raw t = Some item \<longrightarrow> cache_ok item \<and> cache_load item TimeKey = Some (CellTime t))"

definition out_ok :: "(PropertySetInfo, 'f RawData) smap \<Rightarrow> bool" where
  "out_ok out \<longleftrightarrow> cache_ok out \<and> (\<forall>key raw. cache_load out key = Some raw \<longrightarrow> raw_ok raw)"

lemma raw_ok_store: "raw_ok raw \<Longrightarrow> cache_ok item \<Longrightarrow> cache_load item TimeKey = Some (CellTime t) \<Longrightarrow> raw_ok (cache_store t item raw)"
  by (auto simp: raw_ok_def)

lemma raw_ok_item: "raw_ok raw \<Longrightarrow> cache_load raw t = Some item \<Longrightarrow> cache_ok item \<and> cache_load item TimeKey = Some (CellTime t)"
  by (simp only: raw_ok_def)

lemma raw_ok_entry: "raw_ok raw \<Longrightarrow> zi \<in> set raw \<Longrightarrow> cache_load (snd zi) TimeKey = Some (CellTime (fst zi))"
  by (rule conjunct2, rule raw_ok_item, assumption) (simp add: raw_ok_def cache_load_of_set)

lemma out_ok_write:
  assumes "out_ok out" "pi_PropertyName i \<noteq> TimeKey"
  shows "out_ok (write_out out (i, t, v))"
proof -
  define raw where "raw = (case cache_load out (PropertySetInfo.truncate i) of None \<Rightarrow> [] | Some r \<Rightarrow> r)"
  define item where "item = (case cache_load raw t of None \<Rightarrow> [(TimeKey, CellTime t)] | Some i \<Rightarrow> i)"
  have raw: "raw_ok raw" using assms(1) by (auto simp: raw_def out_ok_def raw_ok_def split: option.splits)
  have single: "cache_ok [(TimeKey, CellTime t)]" "cache_load [(TimeKey, CellTime t)] TimeKey = Some (CellTime t)" by (simp_all add: cache_ok_def cache_load_def)
  have "cache_ok item \<and> cache_load item TimeKey = Some (CellTime t)"
    using raw_ok_item [OF raw] single by (cases "cache_load raw t") (simp_all add: item_def)
  then have "raw_ok (cache_store t (cache_store (pi_PropertyName i) (CellValue v) item) raw)" using raw assms(2) by (intro raw_ok_store) auto
  moreover have "write_out out (i, t, v) = cache_store (PropertySetInfo.truncate i) (cache_store t (cache_store (pi_PropertyName i) (CellValue v) item) raw) out"
    by (simp only: write_out_def set_value_def raw_def item_def Let_def prod.case)
  ultimately show ?thesis using assms(1) by (auto simp: out_ok_def)
qed

lemma out_ok_writes: "\<forall>(i, t, v) \<in> set ws. pi_PropertyName i \<noteq> TimeKey \<Longrightarrow> out_ok (foldl write_out [] ws)"
proof (induction ws rule: rev_induct)
  case (snoc w ws)
  obtain i t v where w: "w = (i, t, v)" by (cases w)
  show ?case using snoc by (simp add: w out_ok_write)
qed (simp add: out_ok_def)

text \<open>A time of the map comes from a write.\<close>

lemma out_times: "cache_load (foldl write_out [] ws) key = Some raw \<Longrightarrow> cache_load raw t = Some item \<Longrightarrow> \<exists>i v. (i, t, v) \<in> set ws \<and> PropertySetInfo.truncate i = key"
proof (induction ws arbitrary: raw item rule: rev_induct)
  case (snoc w ws)
  obtain i t' v where w: "w = (i, t', v)" by (cases w)
  show ?case
  proof (cases "PropertySetInfo.truncate i = key \<and> t' = t")
    case False
    let ?out = "foldl write_out [] ws"
    have "\<exists>raw' item'. cache_load ?out key = Some raw' \<and> cache_load raw' t = Some item'"
      using snoc.prems False by (auto simp: w write_out_set set_value_def Let_def simp del: cache_store.simps split: if_splits option.splits)
    with snoc.IH show ?thesis by fastforce
  qed (auto simp: w)
qed simp

subsection \<open>From the request to the points\<close>

text \<open>The request is JSON: \<open>fmt\<close> is the text of a time.\<close>

definition json_item :: "(zoned \<Rightarrow> string) \<Rightarrow> 'f series_item \<Rightarrow> (string, 'f json_val) smap" where
  "json_item fmt item = map (\<lambda>(k, c). (k, case c of CellTime z \<Rightarrow> JString (fmt z) | CellValue v \<Rightarrow> v)) item"

lemma json_item_load: "cache_load (json_item fmt item) k = map_option (\<lambda>c. case c of CellTime z \<Rightarrow> JString (fmt z) | CellValue v \<Rightarrow> v) (cache_load item k)"
  by (induction item) (auto simp: json_item_def cache_load_def)

lemma raw_fields_load: "by_name p_Name props k = Some p \<Longrightarrow> cache_load (raw_fields zero ev props item) k = map_option (convertDataAccordingToType zero ev p) (cache_load item k)"
  by (induction item) (auto simp: raw_fields_def cache_load_def map_filter_simps split: option.splits)

definition collect :: "'f \<Rightarrow> 'f ev_env \<Rightarrow> Property list \<Rightarrow> (zoned \<Rightarrow> string) \<Rightarrow> (time, (string, 'f pvalue) smap) smap \<Rightarrow> zoned \<times> 'f series_item \<Rightarrow> (time, (string, 'f pvalue) smap) smap" where
  "collect zero ev props fmt c zi = cache_store (fst (fst zi)) (raw_fields zero ev props (json_item fmt (snd zi))) c"

lemma raw_data_collect:
  assumes "\<And>z. ee_time ev (fmt z) = Some (fst z)" "by_name p_Name props TimeKey = None"
  shows "\<forall>zi\<in>set raw. cache_load (snd zi) TimeKey = Some (CellTime (fst zi)) \<Longrightarrow>
    raw_data zero ev props (map (json_item fmt) (map snd raw)) c = Inr (foldl (collect zero ev props fmt) c raw)"
  by (induction raw arbitrary: c) (simp_all add: raw_time_def json_item_load collect_def assms)

lemma collect_other: "t \<notin> set (map (fst \<circ> fst) raw) \<Longrightarrow> cache_load (foldl (collect zero ev props fmt) c raw) t = cache_load c t"
  by (induction raw arbitrary: c) (auto simp: collect_def)

lemma collect_ok: "cache_ok c \<Longrightarrow> cache_ok (foldl (collect zero ev props fmt) c raw)"
  by (induction raw arbitrary: c) (simp_all add: collect_def)

lemma collect_load:
  "distinct (map (fst \<circ> fst) raw) \<Longrightarrow> (z, item) \<in> set raw \<Longrightarrow>
     cache_load (foldl (collect zero ev props fmt) c raw) (fst z) = Some (raw_fields zero ev props (json_item fmt item))"
proof (induction raw arbitrary: c)
  case (Cons zi raw)
  show ?case
  proof (cases "zi = (z, item)")
    case True
    then show ?thesis using Cons.prems(1) by (simp add: collect_other) (simp add: collect_def)
  next
    case False
    then show ?thesis using Cons by simp
  qed
qed simp


text \<open>The times of a property set are different instants, if the message has no instant in two zones for it.\<close>

definition one_zone :: "(PropertyInfo \<times> zoned \<times> 'f json_val) list \<Rightarrow> bool" where
  "one_zone ws = (\<forall>(i, t, v)\<in>set ws. \<forall>(i', t', v')\<in>set ws. PropertySetInfo.truncate i = PropertySetInfo.truncate i' \<and> fst t = fst t' \<longrightarrow> t = t')"

lemma one_zone_distinct:
  assumes "one_zone ws" "cache_load (foldl write_out [] ws) key = Some raw" "raw_ok raw"
  shows "distinct (map (fst \<circ> fst) raw)"
proof -
  have ok: "cache_ok raw" using assms(3) by (simp add: raw_ok_def)
  have "inj_on (fst \<circ> fst) (set raw)"
  proof (rule inj_onI)
    fix x y assume xy: "x \<in> set raw" "y \<in> set raw" "(fst \<circ> fst) x = (fst \<circ> fst) y"
    have load: "cache_load raw (fst x) = Some (snd x)" "cache_load raw (fst y) = Some (snd y)" using xy(1,2) ok by (simp_all add: cache_load_of_set)
    obtain i v i' v' where "(i, fst x, v) \<in> set ws" "(i', fst y, v') \<in> set ws" "PropertySetInfo.truncate i = key" "PropertySetInfo.truncate i' = key"
      using out_times [OF assms(2) load(1)] out_times [OF assms(2) load(2)] by blast
    then have "fst x = fst y" using assms(1) xy(3) unfolding one_zone_def by fastforce
    then show "x = y" using load by (metis option.inject prod.collapse)
  qed
  then show ?thesis using ok by (simp add: distinct_map cache_ok_def)
qed



text \<open>A sensor in a room: the level is the data point \<open>p1\<close> of the source \<open>main\<close> of the agent \<open>lamp\<close>. Times are written as strokes.\<close>

definition sample_exchange :: exchange_manager where
  "sample_exchange = OnDataPointMappingReceived sample_start_exchange sample_mapping WatchCreate"

definition sample_level :: Property where
  "sample_level = \<lparr>p_Name = ''level'', p_Unit = [], p_Length = 0, p_DataType = DataTypeInt, p_AccessMode = AccessModeReadWrite, p_Min = None, p_Max = None\<rparr>"

definition sample_state :: PropertySetType where
  "sample_state = \<lparr>om_Tenant = [], om_Name = ''State'', om_ID = ''main.State'', om_Version = [], om_ModTime = 1, pst_Description = None, pst_Properties = [sample_level]\<rparr>"

definition sample_rooms :: thing_manager where
  "sample_rooms = \<lparr>tm_types = [(''main.Room'', \<lparr>om_Tenant = [], om_Name = ''Room'', om_ID = ''main.Room'', om_Version = [], om_ModTime = 1, tt_Description = None, tt_ParentTypeId = [],
       tt_Instantiable = None, tt_Characteristics = [], tt_PropertySets = [\<lparr>ps_Name = ''state'', ps_PropertySetType = OwnPst sample_state\<rparr>]\<rparr>)],
     tm_type_files = [], tm_things = [(''room'', \<lparr>om_Tenant = [], om_Name = ''room'', om_ID = ''room'', om_Version = [], om_ModTime = 1, t_Description = None, t_Type = ''main.Room'', t_Parent = None,
       t_TimeZone = None, t_Characteristics = [], t_CharacteristicByName = [], t_PropertySetByName = [(''state'', ''main.Room'')]\<rparr>)], tm_thing_files = [], tm_pstm = tm_pstm plant\<rparr>"

definition strokes :: "zoned \<Rightarrow> string" where
  "strokes z = (if fst z < 0 then replicate (nat (- fst z)) CHR ''-'' else replicate (nat (fst z)) CHR ''+'')"

definition read_strokes :: "string \<Rightarrow> time option" where
  "read_strokes s = Some (if s \<noteq> [] \<and> hd s = CHR ''-'' then - int (length s) else int (length s))"

lemma read_strokes: "read_strokes (strokes z) = Some (fst z)"
  by (cases "nat (fst z)") (auto simp: read_strokes_def strokes_def)

definition sample_ev :: "int ev_env" where
  "sample_ev = \<lparr>ee_int = id, ee_ParseFloat = (\<lambda>_. None), ee_url = (\<lambda>_. False), ee_Sprint = (\<lambda>_. []), ee_time = read_strokes, ee_validate = (\<lambda>_. None)\<rparr>"

definition sample_series :: "int TimeSeriesData list" where
  "sample_series = [\<lparr>ts_Timestamp = (3, ''UTC''), ts_Values = [\<lparr>dv_DataPointId = ''p1'', dv_Value = JNumber 7\<rparr>, \<lparr>dv_DataPointId = ''p9'', dv_Value = JNumber 1\<rparr>]\<rparr>,
     \<lparr>ts_Timestamp = (4, ''UTC''), ts_Values = [\<lparr>dv_DataPointId = ''p1'', dv_Value = JNumber 8\<rparr>]\<rparr>]"

definition sample_payload :: "int AgentPayload" where
  "sample_payload = \<lparr>ap_Type = AgentDataTypeTimeSeries, ap_DataSourceId = Some ''main'', ap_series = Some sample_series, ap_events = None, ap_acks = None\<rparr>"

definition sample_dps :: "(string, PropertyInfo list) smap" where
  "sample_dps = [(''p1'', [mapping_info sample_mapping])]"

lemma sample_routes: "cache_load (ex_up sample_exchange) (path_Join [''lamp'', ''main'']) = Some sample_dps"
  by (simp add: sample_exchange_def sample_start_exchange_def sample_dps_def OnDataPointMappingReceived_def add_up_def mapping_source_def Let_def cache_load_def) (simp add: sample_mapping_def)

lemma sample_writes: "series_writes sample_dps sample_series = [(mapping_info sample_mapping, (3, ''UTC''), JNumber 7), (mapping_info sample_mapping, (4, ''UTC''), JNumber 8)]"
  by (simp add: series_writes_def value_writes_def sample_dps_def sample_series_def cache_load_def)

lemma sample_set: "\<exists>th. property_set sample_rooms ''room'' ''state'' = Inr (th, sample_state)"
  by (simp add: property_set_def GetThingById_def sample_rooms_def cache_load_def type_set_def set_type_def by_name_def)

lemma sample_names: "by_name p_Name (pst_Properties sample_state) TimeKey = None" "by_name p_Name (pst_Properties sample_state) ''level'' = Some sample_level"
  by (simp_all add: sample_state_def sample_level_def by_name_def TimeKey_def)

lemma sample_query:
  "GetTimeSeries sample_rooms ''room'' ''state'' 0 10 [] False False 5 =
     Inr \<lparr>sq_measurement = ''main.State'', sq_thing = ''room'', sq_ps = ''state'', sq_fields = [''level''], sq_range = Some (0, 10, False, 5)\<rparr>"
  using sample_set by (auto simp: GetTimeSeries_def Let_def) (simp_all add: sample_state_def sample_level_def)


end
