(* ===== verification/Exchange_Losses.thy ===== *)
theory Exchange_Losses
  imports Exchange_Series
begin

text \<open>Where values and commands are lost between agents and things.\<close>

subsection \<open>Upwards\<close>

lemma single_dp: "cache_load [(dp1, infos1), (dp2, infos2)] dp = (if dp = dp1 then Some infos1 else if dp = dp2 then Some infos2 else None)"
  by (simp add: cache_load_def)

text \<open>
  An agent that reports two properties of a property set for one instant, but with the two times in different zones, loses the first value: the exchange keeps the times apart, for they
  are different values of Go, and the collector, which reads both as the same instant, overwrites the fields of the first item with those of the second.
\<close>

theorem same_instant_in_two_zones_loses:
  assumes "dp1 \<noteq> dp2" "n1 \<noteq> n2" "z1 \<noteq> z2" "n1 \<noteq> TimeKey" "n2 \<noteq> TimeKey"
    and i1: "i1 = \<lparr>psi_ThingId = thing, psi_PropertySetName = ps, pi_PropertyName = n1\<rparr>" and i2: "i2 = \<lparr>psi_ThingId = thing, psi_PropertySetName = ps, pi_PropertyName = n2\<rparr>"
    and model: "property_set tm thing ps = Inr (th, pst)" "by_name p_Name (pst_Properties pst) TimeKey = None" "by_name p_Name (pst_Properties pst) n2 = Some prop"
    and time: "\<And>z. ee_time ev (fmt z) = Some (fst z)"
  shows "\<exists>items. exchangeTimeSeries [(dp1, [i1]), (dp2, [i2])]
      [\<lparr>ts_Timestamp = (t, z1), ts_Values = [\<lparr>dv_DataPointId = dp1, dv_Value = v1\<rparr>]\<rparr>, \<lparr>ts_Timestamp = (t, z2), ts_Values = [\<lparr>dv_DataPointId = dp2, dv_Value = v2\<rparr>]\<rparr>] = [PutSeries thing ps items] \<and>
    SaveOrUpdateTimeSeries zero ev tm thing ps (map (json_item fmt) items) = Inr [series_point pst thing ps (t, [(n2, convertDataAccordingToType zero ev prop v2)])]"
proof -
  define items where "items = [[(TimeKey, CellTime (t, z1)), (n1, CellValue v1)], [(TimeKey, CellTime (t, z2)), (n2, CellValue v2)]]"
  have key: "PropertySetInfo.truncate i1 = \<lparr>psi_ThingId = thing, psi_PropertySetName = ps\<rparr>" "PropertySetInfo.truncate i2 = \<lparr>psi_ThingId = thing, psi_PropertySetName = ps\<rparr>"
    by (simp_all add: i1 i2 PropertySetInfo.truncate_def)
  have "exchangeTimeSeries [(dp1, [i1]), (dp2, [i2])]
      [\<lparr>ts_Timestamp = (t, z1), ts_Values = [\<lparr>dv_DataPointId = dp1, dv_Value = v1\<rparr>]\<rparr>, \<lparr>ts_Timestamp = (t, z2), ts_Values = [\<lparr>dv_DataPointId = dp2, dv_Value = v2\<rparr>]\<rparr>] = [PutSeries thing ps items]"
    using assms(1,3,4,5) by (simp add: exchangeTimeSeries_def route_series_def route_value_def set_value_def key single_dp Let_def items_def) (simp add: i1 i2 cache_load_def)
  moreover have "raw_time ev (pst_Properties pst) (json_item fmt i) = Inr (Some t)" if "i \<in> set items" for i
    using that model(2) time by (auto simp: raw_time_def json_item_def items_def cache_load_def)
  moreover have "raw_fields zero ev (pst_Properties pst) (json_item fmt [(TimeKey, CellTime (t, z2)), (n2, CellValue v2)]) = [(n2, convertDataAccordingToType zero ev prop v2)]"
    using model(2,3) by (simp add: raw_fields_def json_item_def map_filter_simps)
  ultimately show ?thesis using model(1) by (auto simp: SaveOrUpdateTimeSeries_def items_def)
qed

theorem same_instant_in_two_zones_loses_witness:
  "\<exists>items. exchangeTimeSeries
      [(''p0'', [\<lparr>psi_ThingId = ''room'', psi_PropertySetName = ''state'', pi_PropertyName = ''heat''\<rparr>]), (''p1'', [\<lparr>psi_ThingId = ''room'', psi_PropertySetName = ''state'', pi_PropertyName = ''level''\<rparr>])]
      [\<lparr>ts_Timestamp = (3, ''UTC''), ts_Values = [\<lparr>dv_DataPointId = ''p0'', dv_Value = JNumber 6\<rparr>]\<rparr>, \<lparr>ts_Timestamp = (3, ''CET''), ts_Values = [\<lparr>dv_DataPointId = ''p1'', dv_Value = JNumber 7\<rparr>]\<rparr>] =
      [PutSeries ''room'' ''state'' items] \<and>
    SaveOrUpdateTimeSeries 0 sample_ev sample_rooms ''room'' ''state'' (map (json_item strokes) items) =
      Inr [series_point sample_state ''room'' ''state'' (3, [(''level'', convertDataAccordingToType 0 sample_ev sample_level (JNumber 7))])]"
proof -
  obtain th where th: "property_set sample_rooms ''room'' ''state'' = Inr (th, sample_state)" using sample_set by blast
  have e: "ee_time sample_ev (strokes z) = Some (fst z)" for z by (simp add: sample_ev_def read_strokes)
  show ?thesis by (rule same_instant_in_two_zones_loses [OF _ _ _ _ _ refl refl th sample_names e]) (simp_all add: TimeKey_def)
qed

text \<open>A virtual parameter is written under the name of the thing and without the tag of the thing, so that no query of time series selects it.\<close>

lemma virtual_parameter_unreadable: "\<not> selects_point now q (SaveOrUpdateVirtualParameter zero ev thing ps prop t v)"
  by (simp add: selects_point_def SaveOrUpdateVirtualParameter_def cache_load_def)

subsection \<open>Downwards\<close>

text \<open>
  An action that sets two properties whose data points belong to different agents or sources reports success after it has sent one of the two values; the other is never sent.
\<close>

theorem action_sends_first_topic:
  assumes obj: "cd_Options obj = [(k1, v1), (k2, v2)]" "cd_TypeId obj = []" "\<not> cd_Ack obj"
    and down: "cache_load (ex_down m) (cd_ThingId obj) = Some dpis" "cache_load dpis (path_Join [cd_PsName obj, k1]) = Some (Some d1)" "cache_load dpis (path_Join [cd_PsName obj, k2]) = Some (Some d2)"
    and topics: "topic1 = path_Join [TopicCtrlPrefix, di_AgentId d1, di_DataSourceId d1]" "topic1 \<noteq> path_Join [TopicCtrlPrefix, di_AgentId d2, di_DataSourceId d2]" "pub topic1"
  shows "dispatch pub m obj =
    (m, [ActionData topic1 (FormatInt16 (cd_Seq obj)) (time_UnixMilli (cd_Time obj)) [\<lparr>dv_DataPointId = di_DataPointId d1, dv_Value = v1\<rparr>]],
     Inr (Delivered \<lparr>ak_Seq = FormatInt16 (cd_Seq obj), ak_Code = 0, ak_Message = None\<rparr>))"
proof -
  have "values_by_topic dpis (cd_PsName obj) (cd_Options obj) =
    Inr [(topic1, [\<lparr>dv_DataPointId = di_DataPointId d1, dv_Value = v1\<rparr>]),
         (path_Join [TopicCtrlPrefix, di_AgentId d2, di_DataSourceId d2], [\<lparr>dv_DataPointId = di_DataPointId d2, dv_Value = v2\<rparr>])]"
    using down topics(2) by (simp add: values_by_topic_def obj Let_def topics(1) cache_load_def)
  then show ?thesis using obj down(1) topics(3) by (simp add: dispatch_def exchangeAction_def waitCtrlResult_def Let_def)
qed

definition sample_control :: "string \<Rightarrow> (string, int json_val) smap \<Rightarrow> int ControlData" where
  "sample_control typeId opts = \<lparr>cd_Seq = 16, cd_ThingId = ''room'', cd_PsName = ''state'', cd_TypeId = typeId, cd_Ack = False, cd_Timeout = 5, cd_Time = 0, cd_Options = opts\<rparr>"

definition sample_points :: "(string, DataPointInfo option) smap" where
  "sample_points = [(''state/heat'', Some \<lparr>di_AgentId = ''oven'', di_DataSourceId = ''main'', di_DataPointId = ''p0''\<rparr>), (''state/level'', Some \<lparr>di_AgentId = ''lamp'', di_DataSourceId = ''main'', di_DataPointId = ''p1''\<rparr>)]"

lemma sample_paths: "path_Join [''state'', ''heat''] = ''state/heat''" "path_Join [''state'', ''level''] = ''state/level''"
  "path_Join [TopicCtrlPrefix, ''oven'', ''main''] = ''ctrl/v1/oven/main''" "path_Join [TopicCtrlPrefix, ''lamp'', ''main''] = ''ctrl/v1/lamp/main''"
  by code_simp+

theorem action_sends_first_topic_witness:
  "dispatch (\<lambda>_. True) (sample_start_exchange\<lparr>ex_down := [(''room'', sample_points)]\<rparr>) (sample_control [] [(''heat'', JNumber 20), (''level'', JNumber 5)]) =
    (sample_start_exchange\<lparr>ex_down := [(''room'', sample_points)]\<rparr>, [ActionData ''ctrl/v1/oven/main'' (FormatInt16 16) (time_UnixMilli 0) [\<lparr>dv_DataPointId = ''p0'', dv_Value = JNumber 20\<rparr>]],
     Inr (Delivered \<lparr>ak_Seq = FormatInt16 16, ak_Code = 0, ak_Message = None\<rparr>))"
proof -
  let ?obj = "sample_control [] [(''heat'', JNumber 20), (''level'', JNumber 5)]"
  let ?d1 = "\<lparr>di_AgentId = ''oven'', di_DataSourceId = ''main'', di_DataPointId = ''p0''\<rparr>"
  let ?d2 = "\<lparr>di_AgentId = ''lamp'', di_DataSourceId = ''main'', di_DataPointId = ''p1''\<rparr>"
  have "dispatch (\<lambda>_. True) (sample_start_exchange\<lparr>ex_down := [(''room'', sample_points)]\<rparr>) ?obj =
    (sample_start_exchange\<lparr>ex_down := [(''room'', sample_points)]\<rparr>, [ActionData ''ctrl/v1/oven/main'' (FormatInt16 (cd_Seq ?obj)) (time_UnixMilli (cd_Time ?obj)) [\<lparr>dv_DataPointId = di_DataPointId ?d1, dv_Value = JNumber 20\<rparr>]],
     Inr (Delivered \<lparr>ak_Seq = FormatInt16 (cd_Seq ?obj), ak_Code = 0, ak_Message = None\<rparr>))"
    by (rule action_sends_first_topic [where dpis = sample_points and ?d2.0 = ?d2 and ?k2.0 = "''level''" and ?k1.0 = "''heat''" and ?v2.0 = "JNumber 5"])
      (simp_all add: sample_control_def sample_paths, simp_all add: sample_points_def cache_load_def)
  then show ?thesis by (simp add: sample_control_def)
qed

text \<open>
  An agent whose thing already has a writable mapping when the agent is announced gets no command: the entry of the thing has no placeholder, and every command to the agent is refused.
\<close>

theorem late_agent_gets_no_command:
  assumes "ex_biDirection m" "dm_PropertyAccessMode d = AccessModeReadWrite" "dm_ThingId d = om_ID a" "path_Join [dm_PropertySetName d, dm_PropertyName d] \<noteq> placeholder"
    and "cache_load (ex_down m) (om_ID a) = None" "OnAgentReceived (OnDataPointMappingReceived m d WatchCreate) a old WatchCreate = Some m'" "cd_ThingId obj = om_ID a"
  shows "exchangeCmd pub m' obj = (m', [], Inl ErrDataPointMappingNotFound)"
proof -
  have sub: "ex_down (foldl subscribeMqttTopic n ts) = ex_down n \<and> ex_biDirection (foldl subscribeMqttTopic n ts) = ex_biDirection n" for n ts
    by (induction ts arbitrary: n) (simp_all add: subscribeMqttTopic_def)
  let ?m = "OnDataPointMappingReceived m d WatchCreate"
  have down: "cache_load (ex_down ?m) (om_ID a) = Some (cache_store (path_Join [dm_PropertySetName d, dm_PropertyName d]) (Some \<lparr>di_AgentId = dm_AgentId d, di_DataSourceId = dm_DataSourceId d, di_DataPointId = dm_DataPointId d\<rparr>) [])"
    using assms(1-5) by (simp add: OnDataPointMappingReceived_def downMapping_def Let_def del: cache_store.simps)
  obtain ts where m': "m' = downRoute (foldl subscribeMqttTopic ?m ts) (om_ID a) WatchCreate" using assms(6) by (auto simp: OnAgentReceived_def Let_def simp del: foldl_Cons)
  have "ex_down m' = ex_down ?m" using down by (simp add: m' downRoute_def sub)
  then show ?thesis using down assms(4,7) by (simp add: exchangeCmd_def cache_load_def)
qed

definition sample_agent :: Agent where
  "sample_agent = (gateway_agent\<lparr>om_ID := ''room'', ag_DataSources := []\<rparr>)"

theorem late_agent_gets_no_command_witness:
  "\<exists>m'. OnAgentReceived sample_exchange sample_agent sample_agent WatchCreate = Some m' \<and>
     exchangeCmd (\<lambda>_. True) m' (sample_control ''main.Reset'' []) = (m', [], Inl ErrDataPointMappingNotFound)"
proof -
  have "source_ids sample_agent = Some []" by (simp add: source_ids_def sample_agent_def map_filter_simps)
  then obtain m' where m': "OnAgentReceived sample_exchange sample_agent sample_agent WatchCreate = Some m'" by (simp add: OnAgentReceived_def Let_def)
  have "exchangeCmd (\<lambda>_. True) m' (sample_control ''main.Reset'' []) = (m', [], Inl ErrDataPointMappingNotFound)"
    by (rule late_agent_gets_no_command [where d = sample_mapping, OF _ _ _ _ _ m' [unfolded sample_exchange_def]])
      (simp_all add: sample_start_exchange_def sample_mapping_def sample_agent_def sample_control_def sample_paths placeholder_def)
  with m' show ?thesis by blast
qed

end
