(* ===== verification/Command_Properties.thy ===== *)
theory Command_Properties
  imports Command_Steps Commands Exchange_Losses Event_Properties
begin

text \<open>
  What holds of commands and actions over sequences of requests and through the exchange, and what goes wrong: at the start, in the deletion of types, and with acknowledgements.
\<close>

subsection \<open>The index of options\<close>

definition no_commands :: cmd_manager where
  "no_commands = \<lparr>cm_heap = [], cm_types = [], cm_files = []\<rparr>"

lemma no_commands_ok: "cmds_ok tm no_commands"
  by (simp add: cmds_ok_def no_commands_def)

text \<open>
  C3: over every sequence of creations, updates and deletions of command types, in which a deletion leaves no type of the same name below without its parent, every request returns, and
  the index of each cached type has for every name exactly the option of the nearest type of the same name upwards, below the base agent; own options have distinct names.
\<close>

theorem options_are_nearest:
  assumes "types_ok tm" "cmd_run_admissible render tm no_commands rs"
  shows "\<exists>m. cmd_run render tm no_commands rs = Some m \<and>
    (\<forall>k ct. cache_load (cm_types m) k = Some ct \<longrightarrow> k = cmd_key (ct_ThingTypeId ct) (ct_TypeId ct) \<and> distinct (map opt_Name (own_options (cm_heap m) ct)) \<and>
      (\<forall>n a. cache_load (ct_OptionByName ct) n = Some a \<longleftrightarrow> visible tm (own_addr m (ct_TypeId ct)) (ct_ThingTypeId ct) n a))"
proof -
  obtain m where m: "cmd_run render tm no_commands rs = Some m" "cmds_ok tm m" using cmd_run_ok [OF assms(1) no_commands_ok assms(2)] by blast
  have "k = cmd_key (ct_ThingTypeId ct) (ct_TypeId ct) \<and> distinct (map opt_Name (own_options (cm_heap m) ct)) \<and>
      (\<forall>n a. cache_load (ct_OptionByName ct) n = Some a \<longleftrightarrow> visible tm (own_addr m (ct_TypeId ct)) (ct_ThingTypeId ct) n a)" if "cache_load (cm_types m) k = Some ct" for k ct
    using cmds_okD [OF m(2) that] by (simp add: cmd_type_ok_def own_options_def comp_def)
  with m(1) show ?thesis by blast
qed

text \<open>Gateways and modems below the base agent; a command of both, with an option each.\<close>

definition sample_agents :: thing_manager where
  "sample_agents = pumps\<lparr>tm_types := [(ThingTypeBaseAgent, some_type ThingTypeBaseAgent [] []), (''Gateway'', some_type ''Gateway'' ThingTypeBaseAgent []), (''Modem'', some_type ''Modem'' ''Gateway'' [])],
     tm_things := [(''box'', (some_thing ''box'' None)\<lparr>t_Type := ''Modem''\<rparr>)]\<rparr>"

lemma sample_agents_load: "cache_load (tm_types sample_agents) k =
    (if k = ThingTypeBaseAgent then Some (some_type ThingTypeBaseAgent [] []) else if k = ''Gateway'' then Some (some_type ''Gateway'' ThingTypeBaseAgent [])
     else if k = ''Modem'' then Some (some_type ''Modem'' ''Gateway'' []) else None)"
  by (simp add: sample_agents_def cache_load_def)

lemma sample_agents_ok: "types_ok sample_agents"
proof -
  have "{(c, p). type_parent sample_agents c = Some p} = {(''Gateway'', ThingTypeBaseAgent), (''Modem'', ''Gateway'')}"
    by (auto simp: type_parent_def sample_agents_load some_type_def ThingTypeBaseAgent_def split: if_splits)
  moreover have "acyclic {(''Gateway'', ThingTypeBaseAgent), (''Modem'', ''Gateway'')}"
    by (rule acyclic_subset [OF wf_acyclic [OF wf_measure [of "\<lambda>s. length s"]]] | simp add: ThingTypeBaseAgent_def)+
  moreover have "cache_ok (tm_types sample_agents)" by (simp add: sample_agents_def cache_ok_def ThingTypeBaseAgent_def)
  ultimately show ?thesis unfolding types_ok_def sample_agents_load by (auto simp: some_type_def type_names_ok_def GetTenant_def ThingTypeBaseAgent_def split: if_splits)
qed

definition sample_option :: "string \<Rightarrow> v1_Option" where
  "sample_option n = \<lparr>o1_Name = n, o1_Description = None, o1_Required = True, o1_Filterable = False, o1_Datatype = CmdBool, o1_Values = [], o1_Default = Some (JBool False), o1_Min = None, o1_Max = None\<rparr>"

definition sample_command :: "string \<Rightarrow> v1_CommandType" where
  "sample_command n = \<lparr>ct1_Name = ''Reset'', ct1_Description = None, ct1_Ack = True, ct1_Options = [sample_option n]\<rparr>"

definition sample_commands :: "cmd_request list" where
  "sample_commands = [CmdCreate sample_env 7 ''u1'' 1 ''Modem'' (sample_command ''mode''), CmdCreate sample_env 8 ''u2'' 1 ''Gateway'' (sample_command ''delay'')]"

lemmas walks [code] = root_loop.simps parent_loop.simps below_loop.simps inherit_options_loop.simps

lemma sample_commands_run:
  "map_option (\<lambda>m. map (\<lambda>(k, ct). (k, ct_OptionByName ct)) (cm_types m)) (cmd_run (\<lambda>_. []) sample_agents no_commands sample_commands) =
     Some [(''Modem.main.Reset'', [(''mode'', 0), (''delay'', 1)]), (''Gateway.main.Reset'', [(''delay'', 1)])]"
  by code_simp

lemma sample_commands_admissible: "cmd_run_admissible (\<lambda>_. []) sample_agents no_commands sample_commands"
  by (simp add: sample_commands_def ThingTypeBaseAgent_def)

lemma cache_load_map: "cache_load (map (\<lambda>(k, v). (k, f v)) c) k = map_option f (cache_load c k)"
  by (simp add: cache_load_def map_of_map)

theorem options_are_nearest_witness:
  "\<exists>m ct. cmd_run (\<lambda>_. []) sample_agents no_commands sample_commands = Some m \<and> cache_load (cm_types m) ''Modem.main.Reset'' = Some ct \<and>
     visible sample_agents (own_addr m (ct_TypeId ct)) (ct_ThingTypeId ct) ''mode'' 0 \<and> visible sample_agents (own_addr m (ct_TypeId ct)) (ct_ThingTypeId ct) ''delay'' 1"
proof -
  obtain m where m: "cmd_run (\<lambda>_. []) sample_agents no_commands sample_commands = Some m"
    and index: "\<forall>k ct. cache_load (cm_types m) k = Some ct \<longrightarrow> k = cmd_key (ct_ThingTypeId ct) (ct_TypeId ct) \<and> distinct (map opt_Name (own_options (cm_heap m) ct)) \<and>
      (\<forall>n a. cache_load (ct_OptionByName ct) n = Some a \<longleftrightarrow> visible sample_agents (own_addr m (ct_TypeId ct)) (ct_ThingTypeId ct) n a)"
    using options_are_nearest [OF sample_agents_ok sample_commands_admissible] by (elim exE conjE)
  have "map (\<lambda>(k, ct). (k, ct_OptionByName ct)) (cm_types m) = [(''Modem.main.Reset'', [(''mode'', 0), (''delay'', 1)]), (''Gateway.main.Reset'', [(''delay'', 1)])]"
    using sample_commands_run by (simp add: m)
  then have "map_option ct_OptionByName (cache_load (cm_types m) ''Modem.main.Reset'') = Some [(''mode'', 0), (''delay'', 1)]"
    using cache_load_map [of ct_OptionByName "cm_types m" "''Modem.main.Reset''"] by (simp add: cache_load_def)
  then obtain ct where ct: "cache_load (cm_types m) ''Modem.main.Reset'' = Some ct" "ct_OptionByName ct = [(''mode'', 0), (''delay'', 1)]" by auto
  have "\<forall>n a. cache_load (ct_OptionByName ct) n = Some a \<longleftrightarrow> visible sample_agents (own_addr m (ct_TypeId ct)) (ct_ThingTypeId ct) n a" using index ct(1) by blast
  from this [THEN spec, THEN spec, of "''mode''" 0] this [THEN spec, THEN spec, of "''delay''" 1] m ct show ?thesis by (simp add: cache_load_def)
qed

subsection \<open>Start\<close>

lemma inherit_options_loop_exact:
  assumes types: "types_ok tm"
    and own: "\<And>t n. own t n = Option.bind (cache_load (cm_types m) (cmd_key t i)) (\<lambda>ct. find (\<lambda>a. opt_Name (cm_heap m ! a) = n) (ct_Options ct))"
  shows "\<exists>ix'. inherit_options_loop tm m i t ix = Some ix' \<and>
    (\<forall>n a. cache_load ix' n = Some a \<longleftrightarrow> cache_load ix n = Some a \<or> cache_load ix n = None \<and> t \<noteq> ThingTypeBaseAgent \<and> visible tm own t n a)"
proof (induction t arbitrary: ix rule: type_walk [OF types, consumes 0, case_names stop step])
  case (stop t)
  then have none: "cache_load (tm_types tm) t = None" using load_Nil [OF types] by auto
  then have "inherit_options_loop tm m i t ix = Some ix" by (subst inherit_options_loop.simps) simp
  then show ?case using visible_stop [OF none] by simp
next
  case (step t tt)
  show ?case
  proof (cases "t = ThingTypeBaseAgent")
    case True
    then show ?thesis by (subst inherit_options_loop.simps) simp
  next
    case False
    let ?ix = "case getCommandTypeById m t i of Inl _ \<Rightarrow> ix | Inr pct \<Rightarrow> foldl (add_option (cm_heap m)) ix (ct_Options pct)"
    obtain ix' where ix': "inherit_options_loop tm m i (tt_ParentTypeId tt) ?ix = Some ix'"
      "\<forall>n a. cache_load ix' n = Some a \<longleftrightarrow> cache_load ?ix n = Some a \<or> cache_load ?ix n = None \<and> tt_ParentTypeId tt \<noteq> ThingTypeBaseAgent \<and> visible tm own (tt_ParentTypeId tt) n a"
      using step(3) [of ?ix] by (elim exE conjE)
    have load: "cache_load ?ix n = (case cache_load ix n of Some a \<Rightarrow> Some a | None \<Rightarrow> own t n)" for n
      by (cases "cache_load (cm_types m) (cmd_key t i)") (auto simp: getCommandTypeById_def own add_options_load split: option.split)
    have "inherit_options_loop tm m i t ix = Some ix'" using ix'(1) False step(1,2) by (subst inherit_options_loop.simps) simp
    moreover have "cache_load ix' n = Some a \<longleftrightarrow> cache_load ix n = Some a \<or> cache_load ix n = None \<and> t \<noteq> ThingTypeBaseAgent \<and> visible tm own t n a" for n a
      unfolding ix'(2) [THEN spec, THEN spec] load using False by (cases "cache_load ix n"; cases "own t n") (auto simp: visible_step [OF step(2)])
    ultimately show ?thesis by blast
  qed
qed

text \<open>A step of the reindexing changes one index.\<close>

definition typed_ok :: "thing_manager \<Rightarrow> cmd_manager \<Rightarrow> bool" where
  "typed_ok tm m \<longleftrightarrow> cache_ok (cm_types m) \<and>
     (\<forall>k ct. cache_load (cm_types m) k = Some ct \<longrightarrow> k = cmd_key (ct_ThingTypeId ct) (ct_TypeId ct) \<and> cache_load (tm_types tm) (ct_ThingTypeId ct) \<noteq> None \<and>
        distinct (map (\<lambda>a. opt_Name (cm_heap m ! a)) (ct_Options ct)))"

definition same_but_index :: "cmd_manager \<Rightarrow> cmd_manager \<Rightarrow> bool" where
  "same_but_index m m' \<longleftrightarrow> cm_heap m' = cm_heap m \<and>
     (\<forall>k. map_option (\<lambda>ct. ct\<lparr>ct_OptionByName := []\<rparr>) (cache_load (cm_types m') k) = map_option (\<lambda>ct. ct\<lparr>ct_OptionByName := []\<rparr>) (cache_load (cm_types m) k))"

lemma same_but_index_load:
  "same_but_index m m' \<Longrightarrow> cache_load (cm_types m') k = Some ct' \<Longrightarrow>
     \<exists>ct. cache_load (cm_types m) k = Some ct \<and> ct_Options ct' = ct_Options ct \<and> ct_ThingTypeId ct' = ct_ThingTypeId ct \<and> ct_TypeId ct' = ct_TypeId ct"
  unfolding same_but_index_def by (cases "cache_load (cm_types m) k") (auto dest!: spec [of _ k] arg_cong [of _ _ "\<lambda>ct. (ct_Options ct, ct_ThingTypeId ct, ct_TypeId ct)"])

lemma same_but_index_trans: "same_but_index m1 m2 \<Longrightarrow> same_but_index m2 m3 \<Longrightarrow> same_but_index m1 m3"
  by (simp add: same_but_index_def)

lemma same_but_index_own: "same_but_index m m' \<Longrightarrow> own_addr m' = own_addr m"
proof (intro ext)
  fix i t n
  assume same: "same_but_index m m'"
  then have heap: "cm_heap m' = cm_heap m" by (simp add: same_but_index_def)
  have opts: "map_option ct_Options (cache_load (cm_types m') k) = map_option ct_Options (cache_load (cm_types m) k)" for k
    using same by (auto simp: same_but_index_def dest!: spec [of _ k] arg_cong [of _ _ "map_option ct_Options"] simp: option.map_comp comp_def)
  show "own_addr m' i t n = own_addr m i t n"
    using heap opts [of "cmd_key t i"] by (cases "cache_load (cm_types m) (cmd_key t i)"; cases "cache_load (cm_types m') (cmd_key t i)") (simp_all add: own_addr_def)
qed

lemma index_own:
  "distinct (map f as) \<Longrightarrow> cache_load (foldl (\<lambda>ix a. cache_store (f a) a ix) ix as) n = (case find (\<lambda>a. f a = n) as of Some a \<Rightarrow> Some a | None \<Rightarrow> cache_load ix n)"
proof (induction as arbitrary: ix)
  case (Cons a as)
  have "f b \<noteq> f a" if "b \<in> set as" for b using Cons.prems imageI [OF that, of f] by auto
  then have "find (\<lambda>b. f b = f a) as = None" by (simp add: find_None_iff)
  then show ?case using Cons by (cases "f a = n") (auto split: option.split)
qed simp

lemma reindexed_type:
  assumes types: "types_ok tm" and ok: "typed_ok tm m" and ct: "cache_load (cm_types m) k = Some ct"
  shows "\<exists>ix. inheritOptions tm m ct (foldl (\<lambda>ix a. cache_store (opt_Name (cm_heap m ! a)) a ix) [] (ct_Options ct)) = Some (Inr ix) \<and>
    (\<forall>n a. cache_load ix n = Some a \<longleftrightarrow> visible tm (own_addr m (ct_TypeId ct)) (ct_ThingTypeId ct) n a)"
proof -
  let ?own = "foldl (\<lambda>ix a. cache_store (opt_Name (cm_heap m ! a)) a ix) [] (ct_Options ct)"
  obtain tt where tt: "cache_load (tm_types tm) (ct_ThingTypeId ct) = Some tt" and k: "k = cmd_key (ct_ThingTypeId ct) (ct_TypeId ct)"
    and d: "distinct (map (\<lambda>a. opt_Name (cm_heap m ! a)) (ct_Options ct))" using ok ct by (auto simp: typed_ok_def)
  have own: "cache_load ?own n = own_addr m (ct_TypeId ct) (ct_ThingTypeId ct) n" for n
    using index_own [OF d, of "[]" n] ct k by (simp add: own_addr_def split: option.split)
  obtain ix where "inherit_options_loop tm m (ct_TypeId ct) (tt_ParentTypeId tt) ?own = Some ix"
    and ix: "\<forall>n a. cache_load ix n = Some a \<longleftrightarrow> cache_load ?own n = Some a \<or>
      cache_load ?own n = None \<and> tt_ParentTypeId tt \<noteq> ThingTypeBaseAgent \<and> visible tm (own_addr m (ct_TypeId ct)) (tt_ParentTypeId tt) n a"
    using inherit_options_loop_exact [OF types, of "own_addr m (ct_TypeId ct)" m "ct_TypeId ct" "tt_ParentTypeId tt" ?own] by (auto simp: own_addr_def)
  moreover have "cache_load ix n = Some a \<longleftrightarrow> visible tm (own_addr m (ct_TypeId ct)) (ct_ThingTypeId ct) n a" for n a
    unfolding ix [THEN spec, THEN spec] own visible_step [OF tt] by (auto split: option.split)
  ultimately show ?thesis using tt by (simp add: inheritOptions_def)
qed

lemma same_but_index_store:
  assumes "cache_load (cm_types m) k = Some ct"
  shows "same_but_index m (m\<lparr>cm_types := cache_store k (ct\<lparr>ct_OptionByName := ix\<rparr>) (cm_types m)\<rparr>)"
  using assms by (simp add: same_but_index_def)

lemma same_but_index_typed:
  assumes "same_but_index m m'" "typed_ok tm m" "cache_ok (cm_types m')"
  shows "typed_ok tm m'"
proof -
  have heap: "cm_heap m' = cm_heap m" using assms(1) by (simp add: same_but_index_def)
  have "k = cmd_key (ct_ThingTypeId ct) (ct_TypeId ct) \<and> cache_load (tm_types tm) (ct_ThingTypeId ct) \<noteq> None \<and> distinct (map (\<lambda>a. opt_Name (cm_heap m' ! a)) (ct_Options ct))"
    if "cache_load (cm_types m') k = Some ct" for k ct
    using same_but_index_load [OF assms(1) that] assms(2) heap by (auto simp: typed_ok_def)
  with assms(3) show ?thesis by (simp add: typed_ok_def)
qed

lemma reindex_exact:
  "types_ok tm \<Longrightarrow> typed_ok tm m \<Longrightarrow>
    \<exists>m'. reindexCommandType tm m ks = Some (Inr m') \<and> same_but_index m m' \<and> typed_ok tm m' \<and> (\<forall>k. k \<notin> set ks \<longrightarrow> cache_load (cm_types m') k = cache_load (cm_types m) k) \<and>
      (\<forall>k\<in>set ks. \<forall>ct. cache_load (cm_types m') k = Some ct \<longrightarrow> ct_Options ct \<noteq> [] \<longrightarrow>
         (\<forall>n a. cache_load (ct_OptionByName ct) n = Some a \<longleftrightarrow> visible tm (own_addr m' (ct_TypeId ct)) (ct_ThingTypeId ct) n a))"
proof (induction ks arbitrary: m)
  case Nil
  then show ?case by (simp add: same_but_index_def)
next
  case (Cons k ks)
  note types = Cons.prems(1) and ok = Cons.prems(2)
  define idx where "idx m' ct \<longleftrightarrow> (\<forall>n a. cache_load (ct_OptionByName ct) n = Some a \<longleftrightarrow> visible tm (own_addr m' (ct_TypeId ct)) (ct_ThingTypeId ct) n a)" for m' and ct :: CommandType
  have "\<exists>m1. reindexCommandType tm m (k # ks) = reindexCommandType tm m1 ks \<and> same_but_index m m1 \<and> typed_ok tm m1 \<and> (\<forall>j. j \<noteq> k \<longrightarrow> cache_load (cm_types m1) j = cache_load (cm_types m) j) \<and>
      (\<forall>ct. cache_load (cm_types m1) k = Some ct \<longrightarrow> ct_Options ct \<noteq> [] \<longrightarrow> idx m1 ct)"
  proof (cases "cache_load (cm_types m) k")
    case None
    then show ?thesis using ok by (intro exI [of _ m]) (simp add: same_but_index_def)
  next
    case (Some ct)
    show ?thesis
    proof (cases "ct_Options ct = []")
      case True
      then show ?thesis using Some ok by (intro exI [of _ m]) (simp add: same_but_index_def)
    next
      case False
      obtain ix where ix: "inheritOptions tm m ct (foldl (\<lambda>ix a. cache_store (opt_Name (cm_heap m ! a)) a ix) [] (ct_Options ct)) = Some (Inr ix)"
        "\<forall>n a. cache_load ix n = Some a \<longleftrightarrow> visible tm (own_addr m (ct_TypeId ct)) (ct_ThingTypeId ct) n a"
        using reindexed_type [OF types ok Some] by (elim exE conjE)
      define m1 where "m1 = m\<lparr>cm_types := cache_store k (ct\<lparr>ct_OptionByName := ix\<rparr>) (cm_types m)\<rparr>"
      have same: "same_but_index m m1" unfolding m1_def by (rule same_but_index_store [OF Some])
      have "reindexCommandType tm m (k # ks) = reindexCommandType tm m1 ks" using Some False ix(1) by (simp add: m1_def)
      moreover have "typed_ok tm m1" by (rule same_but_index_typed [OF same ok]) (use ok in \<open>simp add: m1_def typed_ok_def\<close>)
      moreover have "idx m1 (ct\<lparr>ct_OptionByName := ix\<rparr>)" using ix(2) by (simp add: idx_def same_but_index_own [OF same])
      ultimately show ?thesis using same by (intro exI [of _ m1]) (simp add: m1_def)
    qed
  qed
  then obtain m1 where m1: "reindexCommandType tm m (k # ks) = reindexCommandType tm m1 ks" "same_but_index m m1" "typed_ok tm m1"
    "\<forall>j. j \<noteq> k \<longrightarrow> cache_load (cm_types m1) j = cache_load (cm_types m) j" "\<forall>ct. cache_load (cm_types m1) k = Some ct \<longrightarrow> ct_Options ct \<noteq> [] \<longrightarrow> idx m1 ct"
    by (elim exE conjE)
  from Cons.IH [OF types m1(3)] obtain m2 where m2: "reindexCommandType tm m1 ks = Some (Inr m2)" "same_but_index m1 m2" "typed_ok tm m2"
    "\<forall>j. j \<notin> set ks \<longrightarrow> cache_load (cm_types m2) j = cache_load (cm_types m1) j" "\<forall>j\<in>set ks. \<forall>ct. cache_load (cm_types m2) j = Some ct \<longrightarrow> ct_Options ct \<noteq> [] \<longrightarrow> idx m2 ct"
    unfolding idx_def by (elim exE conjE)
  have "idx m2 ct" if "j \<in> set (k # ks)" "cache_load (cm_types m2) j = Some ct" "ct_Options ct \<noteq> []" for j ct
  proof (cases "j \<in> set ks")
    case True
    with m2(5) that show ?thesis by blast
  next
    case False
    with that m2(4) have "cache_load (cm_types m1) k = Some ct" by simp
    with m1(5) that(3) show ?thesis by (simp add: idx_def same_but_index_own [OF m2(2)])
  qed
  then show ?case using m1 m2 same_but_index_trans [OF m1(2) m2(2)] unfolding idx_def by (intro exI [of _ m2]) simp
qed

text \<open>Loading.\<close>

definition loaded :: "CommandTypeFile list \<Rightarrow> cmd_manager \<Rightarrow> bool" where
  "loaded L m \<longleftrightarrow> cache_ok (cm_types m) \<and> (\<forall>f\<in>set L. cache_load (cm_types m) (cmd_key (cf_ThingTypeId f) (cf_TypeId f)) \<noteq> None) \<and>
     (\<forall>k ct. cache_load (cm_types m) k = Some ct \<longrightarrow> (\<forall>a\<in>set (ct_Options ct). a < length (cm_heap m)) \<and>
        (\<exists>f\<in>set L. k = cmd_key (cf_ThingTypeId f) (cf_TypeId f) \<and> ct_ThingTypeId ct = cf_ThingTypeId f \<and> ct_TypeId ct = cf_TypeId f \<and> own_options (cm_heap m) ct = cf_Options f))"

lemma loadedD:
  "loaded L m \<Longrightarrow> cache_load (cm_types m) k = Some ct \<Longrightarrow>
     \<exists>f\<in>set L. k = cmd_key (cf_ThingTypeId f) (cf_TypeId f) \<and> ct_ThingTypeId ct = cf_ThingTypeId f \<and> ct_TypeId ct = cf_TypeId f \<and> own_options (cm_heap m) ct = cf_Options f"
  by (simp add: loaded_def)

lemma load_type_loaded:
  assumes "loaded L m"
  shows "loaded (L @ [f]) (load_type m f)"
proof -
  let ?k = "cmd_key (cf_ThingTypeId f) (cf_TypeId f)"
  obtain h ct where d: "cmd_decode (cm_heap m) f = (h, ct)" by (cases "cmd_decode (cm_heap m) f")
  then have h: "h = cm_heap m @ cf_Options f @ map snd (cf_OptionByName f)"
    and ct: "ct_ThingTypeId ct = cf_ThingTypeId f" "ct_TypeId ct = cf_TypeId f" "ct_Options ct = [length (cm_heap m)..<length (cm_heap m) + length (cf_Options f)]"
    by (auto simp: cmd_decode_def Let_def)
  have own: "own_options h ct = cf_Options f" unfolding own_options_def ct(3) h by (rule nth_equalityI) (simp_all add: nth_append)
  have old: "own_options h c = own_options (cm_heap m) c" if "cache_load (cm_types m) k = Some c" for k c
    using assms that by (auto simp: loaded_def own_options_def h nth_append)
  have "load_type m f = m\<lparr>cm_heap := h, cm_types := cache_store ?k ct (cm_types m)\<rparr>" by (simp add: load_type_def store_type_def d ct)
  moreover have "(\<forall>a\<in>set (ct_Options c). a < length h) \<and>
      (\<exists>f\<in>set (L @ [f]). k = cmd_key (cf_ThingTypeId f) (cf_TypeId f) \<and> ct_ThingTypeId c = cf_ThingTypeId f \<and> ct_TypeId c = cf_TypeId f \<and> own_options h c = cf_Options f)"
    if c: "cache_load (cache_store ?k ct (cm_types m)) k = Some c" for k c
  proof (cases "k = ?k")
    case True
    with c show ?thesis using own ct by (auto simp: h)
  next
    case False
    with c have "cache_load (cm_types m) k = Some c" by simp
    with assms old [OF this] show ?thesis unfolding loaded_def h by fastforce
  qed
  ultimately show ?thesis using assms unfolding loaded_def by auto
qed

lemma loads_loaded: "loaded L (foldl load_type \<lparr>cm_heap = [], cm_types = [], cm_files = fs\<rparr> L)"
  by (induction L rule: rev_induct) (simp_all add: load_type_loaded, simp add: loaded_def)

lemma loaded_typed:
  assumes "loaded L m" "\<forall>f\<in>set L. cache_load (tm_types tm) (cf_ThingTypeId f) \<noteq> None \<and> distinct (map opt_Name (cf_Options f))"
  shows "typed_ok tm m"
proof -
  have "k = cmd_key (ct_ThingTypeId ct) (ct_TypeId ct) \<and> cache_load (tm_types tm) (ct_ThingTypeId ct) \<noteq> None \<and> distinct (map (\<lambda>a. opt_Name (cm_heap m ! a)) (ct_Options ct))"
    if k: "cache_load (cm_types m) k = Some ct" for k ct
  proof -
    obtain f where f: "f \<in> set L" "k = cmd_key (cf_ThingTypeId f) (cf_TypeId f)" "ct_ThingTypeId ct = cf_ThingTypeId f" "ct_TypeId ct = cf_TypeId f" "own_options (cm_heap m) ct = cf_Options f"
      using loadedD [OF assms(1) k] by (elim bexE conjE)
    have "distinct (map opt_Name (own_options (cm_heap m) ct))" using assms(2) f by simp
    then show ?thesis using assms(2) f(1-4) by (simp add: own_options_def comp_def)
  qed
  then show ?thesis using assms(1) by (simp add: typed_ok_def loaded_def)
qed

text \<open>
  A start of the control service on files whose thing types exist returns with every type in the cache, its own options those of its file, and the index of every type that has own
  options rebuilt to the options of the nearest types upwards.
\<close>

theorem restart_rebuilds_index:
  assumes types: "types_ok tm" and known: "\<forall>f\<in>set (LoadResource commandtypes fs). cache_load (tm_types tm) (cf_ThingTypeId f) \<noteq> None \<and> distinct (map opt_Name (cf_Options f))"
  shows "\<exists>m. command_load tm fs = Some (Inr m) \<and>
    (\<forall>f\<in>set (LoadResource commandtypes fs). cache_load (cm_types m) (cmd_key (cf_ThingTypeId f) (cf_TypeId f)) \<noteq> None) \<and>
    (\<forall>k ct. cache_load (cm_types m) k = Some ct \<longrightarrow>
       (\<exists>f\<in>set (LoadResource commandtypes fs). k = cmd_key (cf_ThingTypeId f) (cf_TypeId f) \<and> own_options (cm_heap m) ct = cf_Options f) \<and>
       (ct_Options ct \<noteq> [] \<longrightarrow> (\<forall>n a. cache_load (ct_OptionByName ct) n = Some a \<longleftrightarrow> visible tm (own_addr m (ct_TypeId ct)) (ct_ThingTypeId ct) n a)))"
proof -
  let ?L = "LoadResource commandtypes fs"
  define m0 where "m0 = foldl load_type \<lparr>cm_heap = [], cm_types = [], cm_files = fs\<rparr> ?L"
  have l: "loaded ?L m0" unfolding m0_def by (rule loads_loaded)
  obtain m where m: "reindexCommandType tm m0 (map fst (cm_types m0)) = Some (Inr m)" "same_but_index m0 m"
    "\<forall>k. k \<notin> set (map fst (cm_types m0)) \<longrightarrow> cache_load (cm_types m) k = cache_load (cm_types m0) k"
    "\<forall>k\<in>set (map fst (cm_types m0)). \<forall>ct. cache_load (cm_types m) k = Some ct \<longrightarrow> ct_Options ct \<noteq> [] \<longrightarrow>
       (\<forall>n a. cache_load (ct_OptionByName ct) n = Some a \<longleftrightarrow> visible tm (own_addr m (ct_TypeId ct)) (ct_ThingTypeId ct) n a)"
    using reindex_exact [OF types loaded_typed [OF l known], of "map fst (cm_types m0)"] by (elim exE conjE)
  have heap: "cm_heap m = cm_heap m0" using m(2) by (simp add: same_but_index_def)
  have ends: "(\<exists>f\<in>set ?L. k = cmd_key (cf_ThingTypeId f) (cf_TypeId f) \<and> own_options (cm_heap m) ct = cf_Options f) \<and> k \<in> set (map fst (cm_types m0))"
    if k: "cache_load (cm_types m) k = Some ct" for k ct
  proof -
    obtain c where c: "cache_load (cm_types m0) k = Some c" "ct_Options ct = ct_Options c" using same_but_index_load [OF m(2) k] by blast
    then have "own_options (cm_heap m) ct = own_options (cm_heap m0) c" by (simp add: own_options_def heap)
    moreover have "k \<in> set (map fst (cm_types m0))" using c(1) by (force simp: cache_load_def dest: map_of_SomeD)
    moreover obtain f where "f \<in> set ?L" "k = cmd_key (cf_ThingTypeId f) (cf_TypeId f)" "own_options (cm_heap m0) c = cf_Options f" using loadedD [OF l c(1)] by (elim bexE conjE)
    ultimately show ?thesis by (intro conjI bexI [of _ f]) simp_all
  qed
  have present: "cache_load (cm_types m) (cmd_key (cf_ThingTypeId f) (cf_TypeId f)) \<noteq> None" if "f \<in> set ?L" for f
  proof -
    have "cache_load (cm_types m0) (cmd_key (cf_ThingTypeId f) (cf_TypeId f)) \<noteq> None" using l that by (simp add: loaded_def)
    moreover have "map_option (\<lambda>ct. ct\<lparr>ct_OptionByName := []\<rparr>) (cache_load (cm_types m) (cmd_key (cf_ThingTypeId f) (cf_TypeId f))) =
        map_option (\<lambda>ct. ct\<lparr>ct_OptionByName := []\<rparr>) (cache_load (cm_types m0) (cmd_key (cf_ThingTypeId f) (cf_TypeId f)))" using m(2) by (simp add: same_but_index_def)
    ultimately show ?thesis by auto
  qed
  have "command_load tm fs = Some (Inr m)" using m(1) by (simp add: command_load_def m0_def)
  then show ?thesis using ends present m(4) by blast
qed

definition sample_file :: "string \<Rightarrow> CommandTypeFile" where
  "sample_file t = \<lparr>om_Tenant = ''main'', om_Name = ''Reset'', om_ID = ''u1'', om_Version = ''1'', om_ModTime = 5, cf_TypeId = ''main.Reset'', cf_Description = None, cf_Ack = True,
     cf_User = [], cf_ThingTypeId = t, cf_Options = [new_option True (sample_option ''delay'')], cf_OptionByName = []\<rparr>"

definition sample_files :: "string \<Rightarrow> CommandTypeFile files" where
  "sample_files t = [(''commandtypes/u1'', \<lparr>f_obj = Some (sample_file t), f_mtime = 5\<rparr>)]"

lemma sample_files_load: "LoadResource commandtypes (sample_files t) = [sample_file t]"
  by (simp add: LoadResource_def FsClient_List_def List.map_filter_def sample_files_def HasPrefix_def cache_load_def sample_file_def)

theorem restart_rebuilds_index_witness:
  "\<exists>m. command_load sample_agents (sample_files ''Gateway'') = Some (Inr m) \<and> cache_load (cm_types m) ''Gateway.main.Reset'' \<noteq> None"
proof -
  have "\<forall>f\<in>set (LoadResource commandtypes (sample_files ''Gateway'')). cache_load (tm_types sample_agents) (cf_ThingTypeId f) \<noteq> None \<and> distinct (map opt_Name (cf_Options f))"
    by (simp add: sample_files_load sample_agents_load sample_file_def)
  from restart_rebuilds_index [OF sample_agents_ok this] show ?thesis by (auto simp: sample_files_load sample_file_def cmd_key_def)
qed

lemma reindex_panics:
  "types_ok tm \<Longrightarrow> k \<in> set ks \<Longrightarrow> cache_load (cm_types m) k = Some ct \<Longrightarrow> ct_Options ct \<noteq> [] \<Longrightarrow> cache_load (tm_types tm) (ct_ThingTypeId ct) = None \<Longrightarrow>
    reindexCommandType tm m ks = Some (Inl GoPanic)"
proof (induction ks arbitrary: m)
  case (Cons j ks)
  show ?case
  proof (cases "cache_load (cm_types m) j")
    case None
    with Cons show ?thesis by auto
  next
    case (Some c)
    let ?r = "inheritOptions tm m c (foldl (\<lambda>ix a. cache_store (opt_Name (cm_heap m ! a)) a ix) [] (ct_Options c))"
    have "?r = Some (Inl GoPanic) \<or> (\<exists>ix. ?r = Some (Inr ix)) \<and> cache_load (tm_types tm) (ct_ThingTypeId c) \<noteq> None"
      using inherit_options_loop_exact [OF Cons.prems(1), of "own_addr m (ct_TypeId c)" m "ct_TypeId c"] unfolding inheritOptions_def own_addr_def
      by (cases "cache_load (tm_types tm) (ct_ThingTypeId c)") (simp, metis (no_types, lifting) option.simps(3,5,9))
    moreover have "k \<noteq> j" if "cache_load (tm_types tm) (ct_ThingTypeId c) \<noteq> None" using that Cons.prems(3,5) Some by auto
    ultimately show ?thesis using Cons Some by (cases "ct_Options c = []") auto
  qed
qed simp

text \<open>
  A file of a command type with options whose thing type does not exist any more ends every start of the control service with a nil pointer.
\<close>

theorem orphan_blocks_start:
  assumes "types_ok tm" "f \<in> set (LoadResource commandtypes fs)" "cf_Options f \<noteq> []" "cache_load (tm_types tm) (cf_ThingTypeId f) = None"
    and "\<forall>g\<in>set (LoadResource commandtypes fs). cmd_key (cf_ThingTypeId g) (cf_TypeId g) = cmd_key (cf_ThingTypeId f) (cf_TypeId f) \<longrightarrow> g = f"
  shows "command_load tm fs = Some (Inl GoPanic)"
proof -
  let ?L = "LoadResource commandtypes fs" and ?k = "cmd_key (cf_ThingTypeId f) (cf_TypeId f)"
  define m0 where "m0 = foldl load_type \<lparr>cm_heap = [], cm_types = [], cm_files = fs\<rparr> ?L"
  have l: "loaded ?L m0" unfolding m0_def by (rule loads_loaded)
  then obtain ct where ct: "cache_load (cm_types m0) ?k = Some ct" using assms(2) by (auto simp: loaded_def)
  then obtain g where g: "g \<in> set ?L" "?k = cmd_key (cf_ThingTypeId g) (cf_TypeId g)" "ct_ThingTypeId ct = cf_ThingTypeId g" "own_options (cm_heap m0) ct = cf_Options g"
    using loadedD [OF l ct] by (elim bexE conjE)
  have "g = f" using assms(5) g(1,2) by auto
  then have "ct_Options ct \<noteq> []" "cache_load (tm_types tm) (ct_ThingTypeId ct) = None" using g(3,4) assms(3,4) by (auto simp: own_options_def)
  moreover have "?k \<in> set (map fst (cm_types m0))" using ct by (force simp: cache_load_def dest: map_of_SomeD)
  ultimately have "reindexCommandType tm m0 (map fst (cm_types m0)) = Some (Inl GoPanic)" using reindex_panics [OF assms(1) _ ct] by blast
  then show ?thesis by (simp add: command_load_def m0_def)
qed

theorem orphan_blocks_start_witness: "command_load sample_agents (sample_files ''Router'') = Some (Inl GoPanic)"
  by (rule orphan_blocks_start [OF sample_agents_ok, where f = "sample_file ''Router''"]) (simp_all add: sample_files_load sample_agents_load sample_file_def ThingTypeBaseAgent_def)

subsection \<open>Deletion with a thing type\<close>

lemma delete_of_types:
  "cm_types (fst (foldl (delete_of_type es t) (m, jobs) kcts)) = filter (\<lambda>(k, ct). \<not> (HasPrefix k t \<and> k \<in> fst ` set kcts)) (cm_types m) \<and>
   snd (foldl (delete_of_type es t) (m, jobs) kcts) = jobs @ map (\<lambda>(k, ct). om_ID ct) (filter (\<lambda>(k, ct). HasPrefix k t) kcts)"
proof (induction kcts arbitrary: m jobs)
  case (Cons kct kcts)
  obtain k ct where k: "kct = (k, ct)" by (cases kct)
  show ?case
  proof (cases "HasPrefix k t")
    case True
    let ?m = "fst (delete_file (es k) (m\<lparr>cm_types := cache_delete k (cm_types m)\<rparr>) ct)"
    have types: "cm_types ?m = filter (\<lambda>(j, c). j \<noteq> k) (cm_types m)"
      by (auto simp: delete_file_def cache_delete_def split: prod.splits sum.splits intro!: filter_cong)
    have "foldl (delete_of_type es t) (m, jobs) (kct # kcts) = foldl (delete_of_type es t) (?m, jobs @ [om_ID ct]) kcts" using True by (simp add: delete_of_type_def k)
    then show ?thesis using True Cons.IH [of ?m "jobs @ [om_ID ct]"] by (auto simp: k types intro!: filter_cong)
  next
    case False
    then show ?thesis using Cons.IH [of m jobs] by (auto simp: k delete_of_type_def intro!: filter_cong)
  qed
qed (simp add: case_prod_unfold)

text \<open>
  When a thing type is deleted, the command types whose key begins with its identifier are removed with their tables, and no others: besides those of the thing type also those of every
  thing type whose identifier continues it.
\<close>

theorem DeleteCommandTypes_prefix:
  "cm_types (fst (DeleteCommandTypes es m t)) = filter (\<lambda>(k, ct). \<not> HasPrefix k t) (cm_types m) \<and>
   snd (DeleteCommandTypes es m t) = map (\<lambda>(k, ct). om_ID ct) (filter (\<lambda>(k, ct). HasPrefix k t) (cm_types m))"
proof -
  have "filter (\<lambda>(k, ct). \<not> (HasPrefix k t \<and> k \<in> fst ` set (cm_types m))) (cm_types m) = filter (\<lambda>(k, ct). \<not> HasPrefix k t) (cm_types m)"
    by (rule filter_cong) force+
  then show ?thesis using delete_of_types [of es t m "[]" "cm_types m"] by (simp add: DeleteCommandTypes_def)
qed

subsection \<open>Delivery\<close>

lemma convert_all_exact:
  "convert_all conv obj = (errs, vals) \<Longrightarrow> errs = [] \<Longrightarrow>
     (\<forall>k v. cache_load obj k = Some v \<longrightarrow> (\<exists>x. conv k v = Inr x \<and> cache_load vals k = Some x)) \<and> (\<forall>k. cache_load obj k = None \<longrightarrow> cache_load vals k = None)"
proof (induction obj arbitrary: errs vals)
  case (Cons kv obj)
  obtain k v where kv: "kv = (k, v)" by (cases kv)
  obtain es vs where r: "convert_all conv obj = (es, vs)" by (cases "convert_all conv obj")
  then obtain x where x: "conv k v = Inr x" "vals = (k, x) # vs" "es = []" using Cons.prems by (auto simp: kv split: sum.splits)
  then show ?case using Cons.IH [OF r] by (simp add: kv cache_load_def)
qed (simp add: cache_load_def)

lemma defaults_load:
  "cache_load (foldl (\<lambda>l op. if cache_load l (opt_Name op) = None then cache_store (opt_Name op) (g op) l else l) legal ops) n =
     (case cache_load legal n of Some x \<Rightarrow> Some x | None \<Rightarrow> map_option g (find (\<lambda>op. opt_Name op = n) ops))"
  by (induction ops arbitrary: legal) (auto split: option.split)

lemma dispatchCmd_same: "cmd_Options (dispatchCmd broker cmd) = cmd_Options cmd" "cmd_ThingId (dispatchCmd broker cmd) = cmd_ThingId cmd" "cmd_TypeId (dispatchCmd broker cmd) = cmd_TypeId cmd"
  "cmd_Seq (dispatchCmd broker cmd) = cmd_Seq cmd" "cmd_Time (dispatchCmd broker cmd) = cmd_Time cmd" "cmd_Ack (dispatchCmd broker cmd) = cmd_Ack cmd" "cmd_Timeout (dispatchCmd broker cmd) = cmd_Timeout cmd"
  by (simp_all add: dispatchCmd_def split: broker_answer.split option.split)

lemma deliverCommand_Inr:
  assumes "deliverCommand ev broker seq now tm m thingId i obj = Inr (cmd, ct)"
  obtains thing tt ct0 legal where "GetThingById tm thingId = Inr thing" "cache_load (tm_types tm) (t_Type thing) = Some tt" "cache_load (cm_types m) (cmd_key (om_ID tt) i) = Some ct0"
    "ct = explodedCmdType ct0" "command_options ev (cm_heap m) ct obj = Inr legal"
    "cmd = dispatchCmd broker \<lparr>cmd_Seq = seq, cmd_ThingId = thingId, cmd_TypeId = i, cmd_Time = now, cmd_State = StateDelivering, cmd_Ack = False,
       cmd_Timeout = 0, cmd_Code = 0, cmd_Message = None, cmd_Options = legal\<rparr>"
  using assms by (auto simp: deliverCommand_def getCommandTypeById_def Let_def split: sum.splits option.splits)

lemma index_names:
  assumes "cmds_ok tm m" "cache_load (cm_types m) k = Some ct" "cache_load (ct_OptionByName ct) n = Some a"
  shows "opt_Name (cm_heap m ! a) = n"
proof -
  have "visible tm (own_addr m (ct_TypeId ct)) (ct_ThingTypeId ct) n a" using cmds_okD [OF assms(1,2)] assms(3) by (simp add: cmd_type_ok_def)
  from visible_own [OF this] obtain t where "own_addr m (ct_TypeId ct) t n = Some a" by blast
  then show ?thesis by (auto simp: own_addr_def bind_eq_Some_conv find_Some_iff)
qed

lemma find_indexed:
  assumes "cache_ok ix" "\<And>n a. cache_load ix n = Some a \<Longrightarrow> f (h a) = n"
  shows "find (\<lambda>op. f op = n) (filter P (map (\<lambda>a. h a) (map snd ix))) = (case cache_load ix n of Some a \<Rightarrow> if P (h a) then Some (h a) else None | None \<Rightarrow> None)"
  using assms
proof (induction ix)
  case (Cons ka ix)
  obtain k a where ka: "ka = (k, a)" by (cases ka)
  have k: "cache_load ix k = None" using Cons.prems(1) by (auto simp: ka cache_ok_def cache_load_def map_of_eq_None_iff)
  have name: "f (h a) = k" using Cons.prems(2) [of k a] by (simp add: ka cache_load_def)
  have "f (h b) = n" if "cache_load ix n = Some b" for n b using Cons.prems(2) [of n b] that k by (cases "n = k") (simp_all add: ka cache_load_def)
  then have IH: "find (\<lambda>op. f op = n) (filter P (map (\<lambda>a. h a) (map snd ix))) = (case cache_load ix n of Some a \<Rightarrow> if P (h a) then Some (h a) else None | None \<Rightarrow> None)"
    using Cons.IH Cons.prems(1) by (simp add: ka cache_ok_def)
  have "cache_load (ka # ix) n = (if n = k then Some a else cache_load ix n)" by (simp add: ka cache_load_def)
  then show ?case using IH name k by (auto simp: ka)
qed (simp add: cache_load_def)

text \<open>
  C10: after every admissible sequence of requests for command types, an accepted command has exactly the options that its type has: for an option that the request gives the converted
  value, for one that it leaves out the default if the option is required, and nothing otherwise; no option outside the type is given or sent.
\<close>

theorem accepted_command_complete:
  assumes "types_ok tm" "cmd_run_admissible render tm no_commands rs" "cmd_run render tm no_commands rs = Some m"
    and cmd: "deliverCommand ev broker seq now tm m thingId i obj = Inr (cmd, ct)"
  shows "case cache_load (ct_OptionByName ct) n of
      None \<Rightarrow> cache_load obj n = None \<and> cache_load (cmd_Options cmd) n = None
    | Some a \<Rightarrow>
        (case cache_load obj n of
           Some v \<Rightarrow> \<exists>x. convert_option ev n (cm_heap m ! a) v = Inr x \<and> cache_load (cmd_Options cmd) n = Some x
         | None \<Rightarrow> cache_load (cmd_Options cmd) n = (if opt_Required (cm_heap m ! a) then Some (OvDefault (opt_Default (cm_heap m ! a))) else None))"
proof -
  have ok: "cmds_ok tm m" using cmd_run_ok [OF assms(1) no_commands_ok assms(2)] assms(3) by simp
  from deliverCommand_Inr [OF cmd] obtain k ct0 legal where ct0: "cache_load (cm_types m) k = Some ct0" "ct = explodedCmdType ct0"
    and legal: "command_options ev (cm_heap m) ct obj = Inr legal" and opts: "cmd_Options cmd = legal" by (metis (no_types, lifting) Command.select_convs(10) dispatchCmd_same(1))
  have index: "ct_OptionByName ct = ct_OptionByName ct0" "ct_Options ct = map snd (ct_OptionByName ct0)" by (simp_all add: ct0(2) explodedCmdType_def)
  have cok: "cache_ok (ct_OptionByName ct0)" using cmds_okD [OF ok ct0(1)] by (simp add: cmd_type_ok_def)
  let ?conv = "\<lambda>k v. case named_option (cm_heap m) ct k of None \<Rightarrow> Inl GoPanic | Some op \<Rightarrow> convert_option ev k op v"
  obtain vals where vals: "convert_all ?conv obj = ([], vals)"
    and l: "legal = foldl (\<lambda>l op. if cache_load l (opt_Name op) = None then cache_store (opt_Name op) (OvDefault (opt_Default op)) l else l) vals (filter opt_Required (own_options (cm_heap m) ct))"
    using legal by (auto simp: command_options_def split: if_splits prod.splits)
  note conv = convert_all_exact [OF vals refl]
  have find: "find (\<lambda>op. opt_Name op = n) (filter opt_Required (own_options (cm_heap m) ct)) =
      (case cache_load (ct_OptionByName ct0) n of Some a \<Rightarrow> if opt_Required (cm_heap m ! a) then Some (cm_heap m ! a) else None | None \<Rightarrow> None)"
    unfolding own_options_def index(2) using find_indexed [OF cok, where f = opt_Name and h = "\<lambda>a. cm_heap m ! a"] index_names [OF ok ct0(1)] by blast
  show ?thesis
  proof (cases "cache_load obj n")
    case None
    then have "cache_load vals n = None" using conv by blast
    then show ?thesis using None by (simp add: opts l defaults_load find index(1) split: option.split)
  next
    case (Some v)
    then obtain x where x: "?conv n v = Inr x" "cache_load vals n = Some x" using conv by blast
    then show ?thesis using Some by (auto simp: opts l defaults_load index(1) named_option_def split: option.splits)
  qed
qed

definition sample_ctl :: ctl_env where
  "sample_ctl = \<lparr>ce_impl = (\<lambda>_. 0), ce_Sprint = (\<lambda>_. [])\<rparr>"

lemma sample_delivery:
  "Option.bind (cmd_run (\<lambda>_. []) sample_agents no_commands sample_commands)
     (\<lambda>m. case deliverCommand sample_ctl broker 9 10 sample_agents m ''box'' ''main.Reset'' [(''mode'', JBool True)] of
        Inl _ \<Rightarrow> None | Inr (cmd, ct) \<Rightarrow> Some (ct_OptionByName ct)) = Some [(''mode'', 0), (''delay'', 1)]"
  by code_simp

lemma sample_heap: "map_option (\<lambda>m. opt_Datatype (cm_heap m ! 0)) (cmd_run (\<lambda>_. []) sample_agents no_commands sample_commands) = Some CmdBool"
  by code_simp

theorem accepted_command_complete_witness:
  "\<exists>m cmd ct. cmd_run (\<lambda>_. []) sample_agents no_commands sample_commands = Some m \<and>
     deliverCommand sample_ctl (\<lambda>_. NoAnswer) 9 10 sample_agents m ''box'' ''main.Reset'' [(''mode'', JBool True)] = Inr (cmd, ct) \<and>
     cache_load (cmd_Options cmd) ''mode'' = Some (OvBool True) \<and>
     cache_load (cmd_Options cmd) ''delay'' = (if opt_Required (cm_heap m ! 1) then Some (OvDefault (opt_Default (cm_heap m ! 1))) else None)"
proof -
  obtain m where m: "cmd_run (\<lambda>_. []) sample_agents no_commands sample_commands = Some m" using sample_delivery [of undefined] by (cases "cmd_run (\<lambda>_. []) sample_agents no_commands sample_commands") simp_all
  obtain cmd ct where d: "deliverCommand sample_ctl (\<lambda>_. NoAnswer) 9 10 sample_agents m ''box'' ''main.Reset'' [(''mode'', JBool True)] = Inr (cmd, ct)"
    and ct: "ct_OptionByName ct = [(''mode'', 0), (''delay'', 1)]" using sample_delivery [of "\<lambda>_. NoAnswer"] by (auto simp: m split: sum.splits)
  have "opt_Datatype (cm_heap m ! 0) = CmdBool" using sample_heap by (simp add: m)
  then have "convert_option sample_ctl ''mode'' (cm_heap m ! 0) (JBool True) = Inr (OvBool True)" by (simp add: convert_option_def)
  moreover note accepted_command_complete [OF sample_agents_ok sample_commands_admissible m d]
  from this [of "''mode''"] this [of "''delay''"] ct have "\<exists>x. convert_option sample_ctl ''mode'' (cm_heap m ! 0) (JBool True) = Inr x \<and> cache_load (cmd_Options cmd) ''mode'' = Some x"
    "cache_load (cmd_Options cmd) ''delay'' = (if opt_Required (cm_heap m ! 1) then Some (OvDefault (opt_Default (cm_heap m ! 1))) else None)" by (simp_all add: cache_load_def)
  ultimately show ?thesis using m d by auto
qed

end
