(* ===== verification/Command_Losses.thy ===== *)
theory Command_Losses
  imports Command_Properties
begin

text \<open>Commands through the exchange, and what is lost: acknowledgements, the records of a deleted type, actions on inherited property sets, and columns of later options.\<close>

subsection \<open>Through the exchange\<close>

text \<open>What the broker decodes from the body of a request; \<open>enc\<close> is the JSON value of an option.\<close>

definition control_data :: "(opt_value \<Rightarrow> json) \<Rightarrow> Command \<Rightarrow> float64 ControlData" where
  "control_data enc cmd =
     \<lparr>cd_Seq = cmd_Seq cmd, cd_ThingId = cmd_ThingId cmd, cd_PsName = [], cd_TypeId = cmd_TypeId cmd, cd_Ack = cmd_Ack cmd, cd_Timeout = cmd_Timeout cmd, cd_Time = cmd_Time cmd,
      cd_Options = map (\<lambda>(k, v). (k, enc v)) (cmd_Options cmd)\<rparr>"

text \<open>The answer of the exchange: \<open>later\<close> is what a wait ends with, \<open>text\<close> the text of an error.\<close>

definition exchange_answer ::
  "(go_error \<Rightarrow> string) \<Rightarrow> (string \<Rightarrow> duration \<Rightarrow> broker_answer) \<Rightarrow> (opt_value \<Rightarrow> json) \<Rightarrow> (string \<Rightarrow> bool) \<Rightarrow> exchange_manager \<Rightarrow> Command \<Rightarrow> broker_answer" where
  "exchange_answer text later enc pub x cmd =
     (case dispatch pub x (control_data enc cmd) of
        (_, _, Inl err) \<Rightarrow> StatusOther (Some (text err))
      | (_, _, Inr (Delivered ad)) \<Rightarrow> StatusOK (Some ad)
      | (_, _, Inr (Waiting seq d)) \<Rightarrow> later seq d)"

text \<open>An agent is reachable: the exchange has its placeholder, and the broker takes its topic.\<close>

definition reachable_agent :: "(string \<Rightarrow> bool) \<Rightarrow> exchange_manager \<Rightarrow> string \<Rightarrow> bool" where
  "reachable_agent pub x i \<longleftrightarrow> Option.bind (cache_load (ex_down x) i) (\<lambda>dpis. cache_load dpis placeholder) \<noteq> None \<and> pub (path_Join [TopicCtrlPrefix, i])"

lemma dispatch_unacknowledged:
  assumes "cmd_TypeId cmd \<noteq> []" "\<not> cmd_Ack cmd"
  shows "\<exists>msgs r. dispatch pub x (control_data enc cmd) = (x, msgs, r) \<and>
    (if reachable_agent pub x (cmd_ThingId cmd) then r = Inr (Delivered \<lparr>ak_Seq = FormatInt (cmd_Seq cmd), ak_Code = 0, ak_Message = None\<rparr>) else isl r)"
  using assms by (cases "pub (path_Join [TopicCtrlPrefix, cmd_ThingId cmd])"; cases "Option.bind (cache_load (ex_down x) (cmd_ThingId cmd)) (\<lambda>dpis. cache_load dpis placeholder)")
    (simp_all add: dispatch_def exchangeCmd_def control_data_def reachable_agent_def waitCtrlResult_def Let_def)

text \<open>
  Whether or not its type asks for an acknowledgement, a command never waits for one: the exchange's table of waits does not change, and the command is recorded as a success as soon as
  the broker has taken the message for a known agent, and as a failure otherwise.
\<close>

theorem ack_never_awaited:
  assumes "deliverCommand ev (exchange_answer text later enc pub x) seq now tm m thingId i obj = Inr (cmd, ct)" "i \<noteq> []"
  shows "fst (dispatch pub x (control_data enc cmd)) = x \<and> cmd_State cmd = (if reachable_agent pub x thingId then StateSuccess else StateFail)"
proof -
  from deliverCommand_Inr [OF assms(1)] obtain legal where cmd: "cmd = dispatchCmd (exchange_answer text later enc pub x)
      \<lparr>cmd_Seq = seq, cmd_ThingId = thingId, cmd_TypeId = i, cmd_Time = now, cmd_State = StateDelivering, cmd_Ack = False,
       cmd_Timeout = 0, cmd_Code = 0, cmd_Message = None, cmd_Options = legal\<rparr>" (is "_ = dispatchCmd _ ?cmd") by metis
  have "control_data enc cmd = control_data enc ?cmd" by (simp add: cmd control_data_def dispatchCmd_same)
  moreover from dispatch_unacknowledged [of ?cmd pub x enc] assms(2) obtain msgs r where
    "dispatch pub x (control_data enc ?cmd) = (x, msgs, r)" "if reachable_agent pub x thingId then r = Inr (Delivered \<lparr>ak_Seq = FormatInt seq, ak_Code = 0, ak_Message = None\<rparr>) else isl r" by auto
  ultimately show ?thesis by (auto simp: cmd dispatchCmd_def exchange_answer_def isl_def split: if_splits)
qed

definition sample_gateway :: exchange_manager where
  "sample_gateway = sample_start_exchange\<lparr>ex_down := [(''box'', [(placeholder, None)])]\<rparr>"

theorem ack_never_awaited_witness:
  "\<exists>m cmd ct. cmd_run (\<lambda>_. []) sample_agents no_commands sample_commands = Some m \<and>
     deliverCommand sample_ctl (exchange_answer (\<lambda>_. []) (\<lambda>_ _. NoAnswer) (\<lambda>_. JNull) (\<lambda>_. True) sample_gateway) 9 10 sample_agents m ''box'' ''main.Reset'' [(''mode'', JBool True)] = Inr (cmd, ct) \<and>
     cmd_State cmd = StateSuccess"
proof -
  let ?b = "exchange_answer (\<lambda>_. []) (\<lambda>_ _. NoAnswer) (\<lambda>_. JNull) (\<lambda>_. True) sample_gateway"
  obtain m where m: "cmd_run (\<lambda>_. []) sample_agents no_commands sample_commands = Some m" using sample_delivery [of ?b] by (cases "cmd_run (\<lambda>_. []) sample_agents no_commands sample_commands") simp_all
  obtain cmd ct where d: "deliverCommand sample_ctl ?b 9 10 sample_agents m ''box'' ''main.Reset'' [(''mode'', JBool True)] = Inr (cmd, ct)" using sample_delivery [of ?b] by (auto simp: m split: sum.splits)
  from ack_never_awaited [OF d] m d show ?thesis by (auto simp: reachable_agent_def sample_gateway_def cache_load_def)
qed

subsection \<open>Deletion and records\<close>

text \<open>
  A successful deletion of a command type asks for the deletion of a table named by the identifier of the type, but the commands of the type are recorded in a table named by the
  object's identifier. With identifiers without a dot, as generated ones are, the records of the type stay.
\<close>

theorem deleted_type_keeps_records:
  assumes "type_id_ok i" "deleteCommandType e tm m t i eTag = (m', jobs, Inr ct)" "CHR ''.'' \<notin> set (om_ID ct)" "CreateCommand [] (cm_heap m) cmd ct = Some (tables, u)"
  shows "jobs = [i] \<and> td_name (cu_table u) \<notin> set jobs"
proof -
  have AddColumn_name: "td_name (AddColumn n ty dt td) = td_name td" for n ty dt td by (simp add: AddColumn_def)
  have "td_name (foldl option_column td ops) = td_name td" for td ops by (induction ops arbitrary: td) (simp_all add: option_column_def AddColumn_name)
  then have "td_name (command_table (cm_heap m) ct) = om_ID ct" by (simp add: command_table_def AddColumn_name)
  moreover have "cu_table u = command_table (cm_heap m) ct"
    using assms(4) by (auto simp: CreateCommand_def cmd_getTableDefinition_def lru_Get_def Let_def cache_load_def split: if_splits)
  moreover have "jobs = [i]" using assms(2) by (auto simp: deleteCommandType_def split: if_splits option.splits prod.splits)
  ultimately show ?thesis using assms(1,3) by (auto simp: type_id_ok_def)
qed

definition sample_cmd :: Command where
  "sample_cmd = \<lparr>cmd_Seq = 9, cmd_ThingId = ''box'', cmd_TypeId = ''main.Reset'', cmd_Time = 10, cmd_State = StateSuccess, cmd_Ack = False, cmd_Timeout = 0, cmd_Code = 0, cmd_Message = None, cmd_Options = []\<rparr>"

definition sample_cached :: "addr list \<Rightarrow> CommandType" where
  "sample_cached own = \<lparr>om_Tenant = ''main'', om_Name = ''Reset'', om_ID = ''u1'', om_Version = ''1'', om_ModTime = 5, ct_TypeId = ''main.Reset'', ct_Description = None, ct_Ack = True,
     ct_User = [], ct_ThingTypeId = ''Modem'', ct_Options = own, ct_OptionByName = map (\<lambda>a. ([CHR ''a''], a)) own\<rparr>"

theorem deleted_type_keeps_records_witness:
  "\<exists>m' tables u. deleteCommandType sample_env sample_agents \<lparr>cm_heap = [], cm_types = [(''Modem.main.Reset'', sample_cached [])], cm_files = [(''commandtypes/u1'', \<lparr>f_obj = Some (sample_file ''Modem''), f_mtime = 5\<rparr>)]\<rparr> ''Modem'' ''main.Reset'' ''1'' =
       (m', [''main.Reset''], Inr (sample_cached [])) \<and> CreateCommand [] [] sample_cmd (sample_cached []) = Some (tables, u) \<and> td_name (cu_table u) \<notin> {''main.Reset''}"
proof -
  let ?m = "\<lparr>cm_heap = [], cm_types = [(''Modem.main.Reset'', sample_cached [])], cm_files = [(''commandtypes/u1'', \<lparr>f_obj = Some (sample_file ''Modem''), f_mtime = 5\<rparr>)]\<rparr>"
  have "snd (deleteCommandType sample_env sample_agents ?m ''Modem'' ''main.Reset'' ''1'') = ([''main.Reset''], Inr (sample_cached []))" by code_simp
  then obtain m' where d: "deleteCommandType sample_env sample_agents ?m ''Modem'' ''main.Reset'' ''1'' = (m', [''main.Reset''], Inr (sample_cached []))"
    by (cases "deleteCommandType sample_env sample_agents ?m ''Modem'' ''main.Reset'' ''1''") simp
  obtain tables u where c: "CreateCommand [] (cm_heap ?m) sample_cmd (sample_cached []) = Some (tables, u)"
    by (simp add: CreateCommand_def cmd_getTableDefinition_def lru_Get_def sample_cmd_def Let_def)
  have "type_id_ok ''main.Reset''" by (auto simp: type_id_ok_def GetTenant_def)
  from deleted_type_keeps_records [OF this d _ c] d c show ?thesis by (auto simp: sample_cached_def)
qed

subsection \<open>Columns\<close>

text \<open>
  Options that a command type gets after its table definition was cached have no column in the records of later commands: while the definition is in the cache, it is used as it is,
  whatever the options of the type.
\<close>

theorem later_options_without_column:
  assumes "cmd_getTableDefinition tables h ct = (tables', td)" "ct_ThingTypeId ct' = ct_ThingTypeId ct" "om_ID ct' = om_ID ct"
  shows "\<exists>tables''. cmd_getTableDefinition tables' h' ct' = (tables'', td)"
proof -
  let ?k = "cmd_key (ct_ThingTypeId ct) (om_ID ct)"
  have "cache_load tables' ?k = Some td"
    using assms(1) by (auto simp: cmd_getTableDefinition_def lru_Get_def lru_Add_def lru_size_def Let_def cache_load_def split: option.splits)
  then show ?thesis using assms(2,3) by (simp add: cmd_getTableDefinition_def lru_Get_def Let_def)
qed

theorem later_options_without_column_witness:
  "\<exists>tables td tables'. cmd_getTableDefinition [] [] (sample_cached []) = (tables, td) \<and> cmd_getTableDefinition tables [new_option True (sample_option ''a'')] (sample_cached [0]) = (tables', td)"
proof -
  obtain tables td where t: "cmd_getTableDefinition [] [] (sample_cached []) = (tables, td)" by (cases "cmd_getTableDefinition [] [] (sample_cached [])")
  from later_options_without_column [OF t, of "sample_cached [0]" "[new_option True (sample_option ''a'')]"] t show ?thesis by (auto simp: sample_cached_def)
qed

end
