(* ===== verification/Secrets.thy ===== *)
theory Secrets
  imports Property_Set_Types "HOL-Library.Word"
begin

unbundle bit_operations_syntax

text \<open>
  The encryption of secrets (\<open>src/pkg/util/aesutil/cbc.go\<close>, \<open>GetAesKey\<close> of \<open>src/pkg/notification/config\<close>): AES in CBC mode with padding, over bytes. The block cipher itself is an
  argument, with the law that decryption undoes encryption on blocks.

  Shown: decryption restores the content for every key and vector; the key of every tenant with a name of one to sixteen bytes is the same constant, for its text is not hexadecimal.
\<close>

type_synonym bytes = "8 word list"

definition bytes_of :: "string \<Rightarrow> bytes" where
  "bytes_of s = map (\<lambda>c. of_nat (of_char c)) s"

definition string_of :: "bytes \<Rightarrow> string" where
  "string_of bs = map (\<lambda>b. char_of (unat b)) bs"

lemma string_of_bytes [simp]: "string_of (bytes_of s) = s"
proof -
  have "unat (of_nat (of_char c) :: 8 word) = of_char c" for c :: char unfolding unat_of_nat by (intro mod_less) simp
  then show ?thesis by (simp add: string_of_def bytes_of_def comp_def)
qed

subsection \<open>Keys\<close>

definition hex_val :: "char \<Rightarrow> nat option" where
  "hex_val c =
     (let n = of_char c :: nat in
      if 48 \<le> n \<and> n \<le> 57 then Some (n - 48) else if 97 \<le> n \<and> n \<le> 102 then Some (n - 87) else if 65 \<le> n \<and> n \<le> 70 then Some (n - 55) else None)"

text \<open>\<open>hex.DecodeString\<close> with its error dropped: the bytes before the first wrong character or the last odd one.\<close>

fun hex_DecodeString :: "string \<Rightarrow> bytes" where
  "hex_DecodeString (a # b # s) =
     (case (hex_val a, hex_val b) of (Some x, Some y) \<Rightarrow> of_nat (16 * x + y) # hex_DecodeString s | _ \<Rightarrow> [])"
| "hex_DecodeString _ = []"

definition formatKey :: "bytes \<Rightarrow> bytes" where
  "formatKey key =
     (if length key \<ge> 32 then take 32 key else let padding = 32 - length key in key @ replicate padding (of_nat padding))"

definition keyTmpl :: string where "keyTmpl = ''xxjwjjglxbwwjjxxk''"

definition GetAesKey :: "string \<Rightarrow> string" where
  "GetAesKey tenant =
     (let pos = (if length tenant \<ge> length keyTmpl then 0 else length tenant) in take pos keyTmpl @ tenant @ drop pos keyTmpl)"

subsection \<open>Padding and blocks\<close>

definition pkcs5Padding :: "bytes \<Rightarrow> nat \<Rightarrow> bytes" where
  "pkcs5Padding data blockSize = (let padding = blockSize - length data mod blockSize in data @ replicate padding (of_nat padding))"

text \<open>An empty slice, or a padding that is longer than the data, is an index out of range (\<open>None\<close>).\<close>

definition pkcs5UnPadding :: "bytes \<Rightarrow> bytes option" where
  "pkcs5UnPadding data =
     (if data = [] then None else let pad = unat (last data) in if pad > length data then None else Some (take (length data - pad) data))"

fun blocks16 :: "bytes \<Rightarrow> bytes list" where
  "blocks16 bs = (if bs = [] then [] else take 16 bs # blocks16 (drop 16 bs))"

declare blocks16.simps [simp del]

definition xor_block :: "bytes \<Rightarrow> bytes \<Rightarrow> bytes" where
  "xor_block a b = map2 (XOR) a b"

text \<open>\<open>cipher.NewCBCEncrypter\<close> and \<open>NewCBCDecrypter\<close>.\<close>

fun cbc_encrypt :: "(bytes \<Rightarrow> bytes) \<Rightarrow> bytes \<Rightarrow> bytes list \<Rightarrow> bytes list" where
  "cbc_encrypt E iv [] = []"
| "cbc_encrypt E iv (b # bs) = (let c = E (xor_block b iv) in c # cbc_encrypt E c bs)"

fun cbc_decrypt :: "(bytes \<Rightarrow> bytes) \<Rightarrow> bytes \<Rightarrow> bytes list \<Rightarrow> bytes list" where
  "cbc_decrypt D iv [] = []"
| "cbc_decrypt D iv (c # cs) = xor_block (D c) iv # cbc_decrypt D c cs"

definition EncryptCBC :: "(bytes \<Rightarrow> bytes \<Rightarrow> bytes) \<Rightarrow> bytes \<Rightarrow> string \<Rightarrow> string \<Rightarrow> bytes" where
  "EncryptCBC E iv content key =
     (let kb = formatKey (hex_DecodeString key); data = pkcs5Padding (bytes_of content) 16 in iv @ concat (cbc_encrypt (E kb) iv (blocks16 data)))"

definition DecryptCBC :: "(bytes \<Rightarrow> bytes \<Rightarrow> bytes) \<Rightarrow> bytes \<Rightarrow> string \<Rightarrow> bytes option" where
  "DecryptCBC D ciphertext key =
     (if length ciphertext < 16 \<or> length ciphertext mod 16 \<noteq> 0 then None
      else
        let kb = formatKey (hex_DecodeString key); iv = take 16 ciphertext; rest = drop 16 ciphertext in
        pkcs5UnPadding (concat (cbc_decrypt (D kb) iv (blocks16 rest))))"

subsection \<open>Round trip\<close>

lemma xor_block_twice: "length a = length b \<Longrightarrow> xor_block (xor_block a b) b = a"
  by (rule nth_equalityI) (simp_all add: xor_block_def xor.assoc)

lemma xor_block_length [simp]: "length (xor_block a b) = min (length a) (length b)"
  by (simp add: xor_block_def)

lemma blocks16_sizes: "length bs mod 16 = 0 \<Longrightarrow> \<forall>b\<in>set (blocks16 bs). length b = 16"
proof (induction bs rule: blocks16.induct)
  case (1 bs)
  show ?case
  proof (cases "bs = []")
    case False
    then have le: "16 \<le> length bs" using 1(2) by (metis length_0_conv linorder_not_less mod_less)
    have "length (drop 16 bs) mod 16 = 0" unfolding length_drop le_mod_geq [OF le, symmetric] by (rule 1(2))
    from 1(1) [OF False this] have rest: "\<forall>b\<in>set (blocks16 (drop 16 bs)). length b = 16" .
    have "blocks16 bs = take 16 bs # blocks16 (drop 16 bs)" using False by (subst blocks16.simps) (rule if_not_P)
    then show ?thesis using rest le by (simp only: set_simps ball_simps length_take min.absorb2 simp_thms)
  qed (simp add: blocks16.simps [of "[]"])
qed

lemma concat_blocks16: "concat (blocks16 bs) = bs"
proof (induction bs rule: blocks16.induct)
  case (1 bs)
  show ?case
  proof (cases "bs = []")
    case True
    then show ?thesis by (simp add: blocks16.simps [of "[]"])
  next
    case False
    then have "concat (blocks16 bs) = take 16 bs @ concat (blocks16 (drop 16 bs))" by (simp add: blocks16.simps [of bs])
    then show ?thesis using 1 [OF False] by simp
  qed
qed

lemma blocks16_concat: "\<forall>b\<in>set bss. length b = 16 \<Longrightarrow> blocks16 (concat bss) = bss"
proof (induction bss)
  case (Cons b bss)
  then have "b \<noteq> []" "length b = 16" by auto
  with Cons show ?case by (subst blocks16.simps) simp
qed (simp add: blocks16.simps [of "[]"])

lemma cbc_inverse:
  assumes "\<And>b. length b = 16 \<Longrightarrow> length (E b) = 16 \<and> D (E b) = b"
  shows "length iv = 16 \<Longrightarrow> \<forall>b\<in>set bss. length b = 16 \<Longrightarrow> cbc_decrypt D iv (cbc_encrypt E iv bss) = bss \<and> (\<forall>b\<in>set (cbc_encrypt E iv bss). length b = 16)"
proof (induction bss arbitrary: iv)
  case (Cons b bss)
  then have x: "length (E (xor_block b iv)) = 16" "D (E (xor_block b iv)) = xor_block b iv" using assms [of "xor_block b iv"] by simp_all
  with Cons show ?case by (simp add: Let_def xor_block_twice)
qed simp

lemma padding_length: "length (pkcs5Padding data 16) mod 16 = 0"
proof -
  have "n + (16 - n mod 16) = n div 16 * 16 + 16" for n :: nat using mod_less_divisor [of 16 n] div_mult_mod_eq [of n 16] by linarith
  then have "length (pkcs5Padding data 16) = length data div 16 * 16 + 16" unfolding pkcs5Padding_def Let_def length_append length_replicate by blast
  then show ?thesis by simp
qed

lemma unpadding: "pkcs5UnPadding (pkcs5Padding data 16) = Some data"
proof -
  let ?p = "16 - length data mod 16"
  have p: "0 < ?p" "?p \<le> 16" by simp_all
  then have "unat (of_nat ?p :: 8 word) = ?p" unfolding unat_of_nat by (intro mod_less) simp
  moreover have "last (data @ replicate ?p (of_nat ?p :: 8 word)) = of_nat ?p" using p by simp
  ultimately show ?thesis using p by (simp add: pkcs5Padding_def pkcs5UnPadding_def Let_def)
qed

lemma mod_concat: "\<forall>b\<in>set bss. length b = 16 \<Longrightarrow> length (concat bss) mod 16 = 0"
  by (induction bss) auto

text \<open>
  C28: decryption restores every secret: for a block cipher whose decryption undoes its encryption, every key, content and initial vector of one block.
\<close>

theorem DecryptCBC_EncryptCBC:
  assumes "\<And>k b. length b = 16 \<Longrightarrow> length (E k b) = 16 \<and> D k (E k b) = b" "length iv = 16"
  shows "map_option string_of (DecryptCBC D (EncryptCBC E iv content key) key) = Some content"
proof -
  define kb where "kb = formatKey (hex_DecodeString key)"
  define bss where "bss = blocks16 (pkcs5Padding (bytes_of content) 16)"
  define cs where "cs = cbc_encrypt (E kb) iv bss"
  have "\<forall>b\<in>set bss. length b = 16" unfolding bss_def by (rule blocks16_sizes [OF padding_length])
  then have cs: "cbc_decrypt (D kb) iv cs = bss" "\<forall>b\<in>set cs. length b = 16" using cbc_inverse [of "E kb" "D kb", OF assms(1) assms(2)] unfolding cs_def by blast+
  have enc: "EncryptCBC E iv content key = iv @ concat cs" by (simp add: EncryptCBC_def kb_def bss_def cs_def Let_def)
  have "length (iv @ concat cs) mod 16 = 0" using mod_concat [OF cs(2)] assms(2) by (simp add: mod_add_right_eq)
  then have "DecryptCBC D (EncryptCBC E iv content key) key = pkcs5UnPadding (concat bss)"
    using assms(2) cs by (simp add: DecryptCBC_def enc kb_def [symmetric] blocks16_concat Let_def)
  then show ?thesis by (simp add: bss_def concat_blocks16 unpadding)
qed

theorem DecryptCBC_EncryptCBC_witness:
  "map_option string_of (DecryptCBC (\<lambda>_. rev) (EncryptCBC (\<lambda>_. rev) (replicate 16 7) ''secret'' ''0a'') ''0a'') = Some ''secret''"
  by (rule DecryptCBC_EncryptCBC) simp_all

subsection \<open>The key\<close>

text \<open>
  The secrets of every tenant whose name has one to sixteen bytes are encrypted with one constant key, thirty-two bytes of value 32: the text of the key begins with a letter that is no
  hexadecimal digit, and the decoding error is dropped.
\<close>

theorem tenant_keys_constant:
  assumes "0 < length tenant" "length tenant < 17"
  shows "formatKey (hex_DecodeString (GetAesKey tenant)) = replicate 32 32"
proof -
  have "take (length tenant) keyTmpl \<noteq> []" "hd (take (length tenant) keyTmpl) = CHR ''x''" using assms by (simp_all add: keyTmpl_def)
  then obtain s where "take (length tenant) keyTmpl = CHR ''x'' # s" by (metis list.collapse)
  then have "GetAesKey tenant = CHR ''x'' # s @ tenant @ drop (length tenant) keyTmpl" using assms by (simp add: GetAesKey_def keyTmpl_def)
  moreover have "hex_DecodeString (CHR ''x'' # s') = []" for s' by (cases s') (simp_all add: hex_val_def)
  ultimately show ?thesis by (simp add: formatKey_def)
qed

theorem tenant_keys_constant_witness: "formatKey (hex_DecodeString (GetAesKey GetTenant)) = replicate 32 32"
  by (rule tenant_keys_constant) (simp_all add: GetTenant_def)

end
