(* ===== verification/Notifications.thy ===== *)
theory Notifications
  imports Commands Secrets
begin

text \<open>
  The notification service (\<open>src/pkg/notification\<close>): the configuration of mail and chat servers, recipients, message templates with placeholders, templates that refer to both,
  and the messages sent. The block cipher, the checks by long regular expressions, and the parsers of Go's template packages are arguments; a parsed template is represented by its text.
\<close>

subsection \<open>Data\<close>

text \<open>The value 0 of the two enumerations is what a missing field decodes to.\<close>

datatype ChannelType = ChannelTypeNone | ChannelTypeEmail | ChannelTypeWebhook | ChannelTypeWeCom | ChannelTypeWeChat
datatype ContentType = ContentTypeNone | ContentTypeText | ContentTypeHtml | ContentTypeMarkdown

fun ChannelTypeToString :: "ChannelType \<Rightarrow> string option" where
  "ChannelTypeToString ChannelTypeNone = None"
| "ChannelTypeToString ChannelTypeEmail = Some ''email''"
| "ChannelTypeToString ChannelTypeWebhook = Some ''webhook''"
| "ChannelTypeToString ChannelTypeWeCom = Some ''weCom''"
| "ChannelTypeToString ChannelTypeWeChat = Some ''weChat''"

definition ChannelTypeFromString :: "(string \<times> ChannelType) list" where
  "ChannelTypeFromString = [(''email'', ChannelTypeEmail), (''webhook'', ChannelTypeWebhook), (''weCom'', ChannelTypeWeCom), (''weChat'', ChannelTypeWeChat)]"

fun ContentTypeToString :: "ContentType \<Rightarrow> string option" where
  "ContentTypeToString ContentTypeNone = None"
| "ContentTypeToString ContentTypeText = Some ''text''"
| "ContentTypeToString ContentTypeHtml = Some ''html''"
| "ContentTypeToString ContentTypeMarkdown = Some ''markdown''"

definition ContentTypeFromString :: "(string \<times> ContentType) list" where
  "ContentTypeFromString = [(''text'', ContentTypeText), (''html'', ContentTypeHtml)]"

record RecipientItem =
  ri_Address :: string
  ri_Type :: ChannelType

record v1_Recipient =
  r1_Name :: string
  r1_Detail :: "RecipientItem list"

record Recipient = ObjectMeta +
  rc_Detail :: "RecipientItem list"

record PlaceholderItem =
  ph_Name :: string
  ph_DefaultValue :: "json option"

record TemplatePlaceholder =
  tp_ETag :: string
  tp_Placeholders :: "PlaceholderItem list"

record v1_MessageTmpl =
  mt1_Name :: string
  mt1_Type :: ContentType
  mt1_Content :: string

text \<open>\<open>mt_Parsed\<close> is the text of the parsed template, \<open>None\<close> the nil pointers; it is not saved.\<close>

record MessageTemplate = ObjectMeta +
  mt_Type :: ContentType
  mt_Content :: string
  mt_Parsed :: "string option"
  mt_Placeholder :: "TemplatePlaceholder option"

record v1_Template =
  t1_TmplName :: string
  t1_Subject :: string
  t1_From :: string
  t1_Recipients :: "string list"
  t1_MessageTemplates :: "string list"

record Template = ObjectMeta +
  tm_Subject :: string
  tm_From :: string
  tm_Recipients :: "string list"
  tm_MessageTemplates :: "string list"

record v1_Message =
  ms_Channel :: ChannelType
  ms_Subject :: string
  ms_From :: string
  ms_Payload :: "(string, json) smap"
  ms_To :: "string list"
  ms_TemplateId :: string

record Message = v1_Message +
  ms_MsgTmpls :: "MessageTemplate list"

record SMTPConfig =
  sm_Hostname :: string
  sm_Port :: string
  sm_Username :: string
  sm_Password :: string

record WeComConfig =
  wc_CorpId :: string
  wc_CorpSecret :: string
  wc_AgentId :: string

record WeChatConfig =
  wx_AppId :: string
  wx_AppSecret :: string

record v1_Config =
  s1_Email :: "SMTPConfig option"
  s1_WeCom :: "WeComConfig option"
  s1_WeChat :: "WeChatConfig option"

record Config = ObjectMeta +
  sc_Email :: "SMTPConfig option"
  sc_WeCom :: "WeComConfig option"
  sc_WeChat :: "WeChatConfig option"

record notify_env =
  ne_IsEmail :: "string \<Rightarrow> bool"
  ne_IsHostname :: "string \<Rightarrow> bool"
  ne_url_ok :: "string \<Rightarrow> bool"
  ne_text_ok :: "string \<Rightarrow> bool"
  ne_html_ok :: "string \<Rightarrow> bool"
  ne_encrypt :: "string \<Rightarrow> string \<Rightarrow> string"

subsection \<open>Placeholders\<close>

text \<open>The matches of \<open>{{(.*?)}}\<close> from the left: a dot matches no newline, and the shortest inside is taken.\<close>

fun close_braces :: "string \<Rightarrow> string \<Rightarrow> (string \<times> string) option" where
  "close_braces acc (c # d # s) =
     (if c = CHR 0x7D \<and> d = CHR 0x7D then Some (acc, s) else if c = CHR 0x0A then None else close_braces (acc @ [c]) (d # s))"
| "close_braces acc _ = None"

lemma close_braces_parts: "close_braces acc s = Some (ph, rest) \<Longrightarrow> acc @ s = ph @ [CHR 0x7D, CHR 0x7D] @ rest"
  by (induction acc s rule: close_braces.induct) (auto split: if_splits)

text \<open>A content as characters and placeholders.\<close>

function content_parts :: "string \<Rightarrow> (char + string) list" where
  "content_parts s =
     (case s of
        [] \<Rightarrow> []
      | c # s' \<Rightarrow>
          (case (if take 2 s = [CHR 0x7B, CHR 0x7B] then close_braces [] (drop 2 s) else None) of
             None \<Rightarrow> Inl c # content_parts s'
           | Some (ph, rest) \<Rightarrow> Inr ph # content_parts rest))"
  by pat_completeness auto

termination
proof (relation "measure length")
  show "wf (measure length)" by simp
next
  fix s :: string and c s'
  assume "s = c # s'"
  then show "(s', s) \<in> measure length" by simp
next
  fix s :: string and c s' x ph rest
  assume s: "s = c # s'" and x: "(if take 2 s = [CHR 0x7B, CHR 0x7B] then close_braces [] (drop 2 s) else None) = Some x" "(ph, rest) = x"
  then have "close_braces [] (drop 2 s) = Some (ph, rest)" by (auto split: if_splits)
  from close_braces_parts [OF this] have "length (drop 2 s) = length ph + 2 + length rest" by simp
  then show "(rest, s) \<in> measure length" by simp
qed

declare content_parts.simps [simp del]

definition replace_placeholders :: "(string \<Rightarrow> string) \<Rightarrow> string \<Rightarrow> string" where
  "replace_placeholders f s = concat (map (\<lambda>p. case p of Inl c \<Rightarrow> [c] | Inr ph \<Rightarrow> f ph) (content_parts s))"

definition placeholders_of :: "string \<Rightarrow> string list" where
  "placeholders_of s = List.map_filter (\<lambda>p. case p of Inl _ \<Rightarrow> None | Inr ph \<Rightarrow> Some ph) (content_parts s)"

text \<open>The text for the template parser and the names; \<open>None\<close> is the call of a missing function.\<close>

definition parseContent :: "ContentType \<Rightarrow> string \<Rightarrow> (string option \<times> string list) option" where
  "parseContent ct content =
     (case ct of
        ContentTypeNone \<Rightarrow> None
      | ContentTypeMarkdown \<Rightarrow> Some (None, [])
      | _ \<Rightarrow> Some (Some (replace_placeholders (\<lambda>ph. ''{{.Payload.'' @ TrimSpace ph @ ''}}'') content), map TrimSpace (placeholders_of content)))"

subsection \<open>Validation\<close>

definition IsNumber :: "string \<Rightarrow> bool" where "IsNumber s = (s \<noteq> [] \<and> list_all is_digit s)"

definition validateEmailServerConfig :: "notify_env \<Rightarrow> SMTPConfig option \<Rightarrow> string \<Rightarrow> field_error list" where
  "validateEmailServerConfig ev c path =
     (case c of
        None \<Rightarrow> []
      | Some e \<Rightarrow>
          let smtp = child path ''smtp'' in
          (if sm_Hostname e = [] then [Required (child smtp ''hostname'')] else if \<not> ne_IsHostname ev (sm_Hostname e) then [Invalid (child smtp ''hostname'')] else []) @
          (if sm_Port e = [] then [Required (child smtp ''port'')] else if \<not> IsNumber (sm_Port e) then [Invalid (child smtp ''port'')] else []) @
          (if sm_Username e = [] then [Required (child smtp ''username'')] else if \<not> ne_IsEmail ev (sm_Username e) then [Invalid (child smtp ''username'')] else []) @
          (if sm_Password e = [] then [Required (child smtp ''password'')] else []))"

definition validateWeComConfig :: "WeComConfig option \<Rightarrow> string \<Rightarrow> field_error list" where
  "validateWeComConfig c path =
     (case c of
        None \<Rightarrow> []
      | Some com \<Rightarrow>
          (if wc_CorpId com = [] then [Required (child path ''corpId'')] else []) @ (if wc_CorpSecret com = [] then [Required (child path ''corpSecret'')] else []) @
          (if wc_AgentId com = [] then [Required (child path ''agentId'')] else []))"

definition validateWeChatConfig :: "WeChatConfig option \<Rightarrow> string \<Rightarrow> field_error list" where
  "validateWeChatConfig c path =
     (case c of
        None \<Rightarrow> []
      | Some chat \<Rightarrow> (if wx_AppId chat = [] then [Required (child path ''appId'')] else []) @ (if wx_AppSecret chat = [] then [Required (child path ''appSecret'')] else []))"

definition ValidateServerConfig :: "notify_env \<Rightarrow> v1_Config \<Rightarrow> field_error list" where
  "ValidateServerConfig ev c =
     validateEmailServerConfig ev (s1_Email c) ''email'' @ validateWeComConfig (s1_WeCom c) ''weCom'' @ validateWeChatConfig (s1_WeChat c) ''weChat''"

definition validate_notify_name :: "string \<Rightarrow> bool" where
  "validate_notify_name name = (\<not> ExcludesAll name [CHR 0x2F, CHR 0x5C] \<or> \<not> IsStringLengthInRange name 1 64)"

definition recipientValidators :: "notify_env \<Rightarrow> ChannelType \<Rightarrow> string \<Rightarrow> string \<Rightarrow> field_error list option" where
  "recipientValidators ev ty address path =
     (case ty of
        ChannelTypeNone \<Rightarrow> None
      | ChannelTypeEmail \<Rightarrow> Some (if ne_IsEmail ev address then [] else [Invalid path])
      | ChannelTypeWebhook \<Rightarrow> Some (if ne_url_ok ev address then [] else [Invalid path])
      | _ \<Rightarrow> Some [])"

text \<open>A missing validator is a call of nil (\<open>None\<close>).\<close>

definition ValidateRecipient :: "notify_env \<Rightarrow> v1_Recipient \<Rightarrow> field_error list option" where
  "ValidateRecipient ev r =
     (let name = ValidateName_at (r1_Name r) validate_notify_name ''name'' in
      if r1_Detail r = [] then Some (name @ [Required ''detail''])
      else
        map_option (\<lambda>errs. name @ concat errs)
          (those (map (\<lambda>(i, d).
             let path = child (idx ''detail'' i) ''address'' in
             map_option (\<lambda>errs. ValidateName_at (ri_Address d) validate_notify_name path @ errs) (recipientValidators ev (ri_Type d) (ri_Address d) path))
           (enumerate 0 (r1_Detail r)))))"

definition validatePlaceholder :: "string \<Rightarrow> string \<Rightarrow> field_error list" where
  "validatePlaceholder ph path =
     (let ph = TrimSpace ph in if HasPrefix ph ''.'' then [Invalid path] else if length (runes ph) > 64 then [TooLong path] else [])"

definition messageTemplateValidators :: "notify_env \<Rightarrow> ContentType \<Rightarrow> string \<Rightarrow> string \<Rightarrow> field_error list option" where
  "messageTemplateValidators ev ty content path =
     (let errs = concat (map (\<lambda>ph. validatePlaceholder ph path) (placeholders_of content)); reps = replace_placeholders (\<lambda>_. []) content in
      case ty of
        ContentTypeNone \<Rightarrow> None
      | ContentTypeText \<Rightarrow> Some (errs @ (if ne_text_ok ev reps then [] else [Invalid path]))
      | ContentTypeHtml \<Rightarrow> Some (errs @ (if ne_html_ok ev reps then [] else [Invalid path]))
      | ContentTypeMarkdown \<Rightarrow> Some [])"

definition ValidateMessageTmpl :: "notify_env \<Rightarrow> v1_MessageTmpl \<Rightarrow> field_error list option" where
  "ValidateMessageTmpl ev mt =
     (let errs = ValidateName_at (mt1_Name mt) validate_notify_name ''name'' @ (if mt1_Type mt = ContentTypeNone then [Required ''type''] else []) in
      if mt1_Content mt = [] then Some (errs @ [Required ''content''])
      else map_option (\<lambda>es. errs @ es) (messageTemplateValidators ev (mt1_Type mt) (mt1_Content mt) ''content''))"

definition ValidateTemplate :: "v1_Template \<Rightarrow> field_error list" where
  "ValidateTemplate t =
     ValidateName_at (t1_TmplName t) validate_notify_name ''name'' @
     (if t1_Subject t = [] then [Required ''subject''] else if length (t1_Subject t) > 77 then [TooLong ''subject''] else []) @
     ValidateName_at (t1_From t) validate_notify_name ''from'' @
     (if t1_Recipients t = [] then [Required ''recipients''] else []) @ (if t1_MessageTemplates t = [] then [Required ''messageTemplates''] else [])"

definition ValidateMessage :: "v1_Message \<Rightarrow> field_error list" where
  "ValidateMessage msg =
     (if ms_Channel msg = ChannelTypeNone then [Required ''channel''] else []) @ (if length (ms_Subject msg) > 77 then [TooLong ''subject''] else []) @
     (if length (ms_From msg) > 64 then [TooLong ''from''] else []) @ (if ms_Payload msg = [] then [Required ''payload''] else []) @
     (if ms_To msg = [] \<and> ms_TemplateId msg = [] then [Required []] else [])"

subsection \<open>The state\<close>

text \<open>
  The caches and files of the four managers. \<open>nf_gone\<close> are templates that are no longer cached but that a goroutine may still hold, and \<open>nf_pending\<close> the identifiers for which a goroutine
  tries to save the template.
\<close>

record notifications =
  nf_servers :: "Config cache"
  nf_server_files :: "Config files"
  nf_recipients :: "Recipient cache"
  nf_recipient_files :: "Recipient files"
  nf_msgs :: "MessageTemplate cache"
  nf_msg_files :: "MessageTemplate files"
  nf_tmpls :: "Template cache"
  nf_tmpl_files :: "Template files"
  nf_pending :: "string list"
  nf_gone :: "Template cache"

subsection \<open>Configuration\<close>

abbreviation servers_resource :: string where "servers_resource \<equiv> ''servers''"

definition SecretPlaceholder :: string where "SecretPlaceholder = ''<secret>''"

definition encrypted :: "notify_env \<Rightarrow> string \<Rightarrow> string" where
  "encrypted ev s = ne_encrypt ev s (GetAesKey GetTenant)"

definition new_email :: "notify_env \<Rightarrow> SMTPConfig \<Rightarrow> SMTPConfig" where
  "new_email ev c = c\<lparr>sm_Password := encrypted ev (sm_Password c)\<rparr>"

definition new_wecom :: "notify_env \<Rightarrow> WeComConfig \<Rightarrow> WeComConfig" where
  "new_wecom ev c = c\<lparr>wc_CorpSecret := encrypted ev (wc_CorpSecret c)\<rparr>"

definition new_wechat :: "notify_env \<Rightarrow> WeChatConfig \<Rightarrow> WeChatConfig" where
  "new_wechat ev c = c\<lparr>wx_AppSecret := encrypted ev (wx_AppSecret c)\<rparr>"

definition createConfigs ::
  "notify_env \<Rightarrow> persist_env \<Rightarrow> time \<Rightarrow> string \<Rightarrow> nat \<Rightarrow> notifications \<Rightarrow> v1_Config \<Rightarrow> notifications \<times> (go_error + Config)" where
  "createConfigs ev e now uuid seed m obj =
     (if cache_load (nf_servers m) GetTenant \<noteq> None then (m, Inl (ErrResourceExists ''Config''))
      else
        let rc = \<lparr>om_Tenant = GetTenant, om_Name = [], om_ID = uuid, om_Version = FormatInt (int seed), om_ModTime = now,
                  sc_Email = map_option (new_email ev) (s1_Email obj), sc_WeCom = map_option (new_wecom ev) (s1_WeCom obj), sc_WeChat = map_option (new_wechat ev) (s1_WeChat obj)\<rparr> in
        case Store_persist servers_resource e (nf_server_files m) rc of
          (fs, Inl _) \<Rightarrow> (m\<lparr>nf_server_files := fs\<rparr>, Inl ErrInternal)
        | (fs, Inr None) \<Rightarrow> (m\<lparr>nf_server_files := fs\<rparr>, Inl GoPanic)
        | (fs, Inr (Some saved)) \<Rightarrow> (m\<lparr>nf_servers := cache_store GetTenant saved (nf_servers m), nf_server_files := fs\<rparr>, Inr saved))"

definition GetConfig :: "notifications \<Rightarrow> go_error + Config" where
  "GetConfig m = (case cache_load (nf_servers m) GetTenant of None \<Rightarrow> Inl ErrNotExist | Some c \<Rightarrow> Inr c)"

text \<open>A secret that is the placeholder keeps the stored one, if there is one.\<close>

definition kept_secret :: "notify_env \<Rightarrow> string \<Rightarrow> string \<Rightarrow> string" where
  "kept_secret ev old new = (if new \<noteq> SecretPlaceholder then encrypted ev new else old)"

definition update_email :: "notify_env \<Rightarrow> SMTPConfig option \<Rightarrow> SMTPConfig option \<Rightarrow> SMTPConfig option" where
  "update_email ev old new =
     map_option (\<lambda>c. case old of None \<Rightarrow> new_email ev c | Some oc \<Rightarrow> c\<lparr>sm_Password := kept_secret ev (sm_Password oc) (sm_Password c)\<rparr>) new"

definition update_wecom :: "notify_env \<Rightarrow> WeComConfig option \<Rightarrow> WeComConfig option \<Rightarrow> WeComConfig option" where
  "update_wecom ev old new =
     map_option (\<lambda>c. case old of None \<Rightarrow> new_wecom ev c | Some oc \<Rightarrow> c\<lparr>wc_CorpSecret := kept_secret ev (wc_CorpSecret oc) (wc_CorpSecret c)\<rparr>) new"

definition update_wechat :: "notify_env \<Rightarrow> WeChatConfig option \<Rightarrow> WeChatConfig option \<Rightarrow> WeChatConfig option" where
  "update_wechat ev old new =
     map_option (\<lambda>c. case old of None \<Rightarrow> new_wechat ev c | Some oc \<Rightarrow> c\<lparr>wx_AppSecret := kept_secret ev (wx_AppSecret oc) (wx_AppSecret c)\<rparr>) new"

text \<open>\<open>old\<close> is a deep copy; a configuration that is no longer cached is a failed type assertion.\<close>

definition updateConfigs :: "notify_env \<Rightarrow> persist_env \<Rightarrow> time \<Rightarrow> notifications \<Rightarrow> string \<Rightarrow> v1_Config \<Rightarrow> Config \<Rightarrow> notifications \<times> (go_error + Config)" where
  "updateConfigs ev e now m eTag obj old =
     (if om_Version old \<noteq> eTag then (m, Inl ErrMismatch)
      else
        let old = old\<lparr>om_ModTime := now, sc_Email := update_email ev (sc_Email old) (s1_Email obj), sc_WeCom := update_wecom ev (sc_WeCom old) (s1_WeCom obj),
                      sc_WeChat := update_wechat ev (sc_WeChat old) (s1_WeChat obj)\<rparr> in
        case Store_persist servers_resource e (nf_server_files m) old of
          (fs, Inl _) \<Rightarrow> (m\<lparr>nf_server_files := fs\<rparr>, Inl ErrInternal)
        | (fs, Inr None) \<Rightarrow> (m\<lparr>nf_server_files := fs\<rparr>, Inl GoPanic)
        | (fs, Inr (Some saved)) \<Rightarrow>
            (case cache_load (nf_servers m) (om_Tenant old) of
               None \<Rightarrow> (m\<lparr>nf_server_files := fs\<rparr>, Inl GoPanic)
             | Some _ \<Rightarrow> (m\<lparr>nf_servers := cache_store (om_Tenant old) saved (nf_servers m), nf_server_files := fs\<rparr>, Inr saved)))"

definition config_REST_Update where
  "config_REST_Update render ev e now m obj eTag =
     (case GetConfig m of
        Inl err \<Rightarrow> (m, Inl err)
      | Inr c \<Rightarrow> (case ValidateUpdateFunc render (ValidateServerConfig ev) (\<lambda>_ _. []) obj c of Some err \<Rightarrow> (m, Inl err) | None \<Rightarrow> updateConfigs ev e now m eTag obj c))"

definition config_REST_Create where
  "config_REST_Create render ev e now uuid seed m obj =
     (case ValidateFunc render (ValidateServerConfig ev) obj of Some err \<Rightarrow> (m, Inl err) | None \<Rightarrow> createConfigs ev e now uuid seed m obj)"

definition configured :: "notifications \<Rightarrow> (Config \<Rightarrow> 'c option) \<Rightarrow> bool" where
  "configured m f = (case cache_load (nf_servers m) GetTenant of None \<Rightarrow> False | Some c \<Rightarrow> f c \<noteq> None)"

definition IsEmailConfigured :: "notifications \<Rightarrow> bool" where "IsEmailConfigured m = configured m sc_Email"
definition IsWeComConfigured :: "notifications \<Rightarrow> bool" where "IsWeComConfigured m = configured m sc_WeCom"
definition IsWeChatConfigured :: "notifications \<Rightarrow> bool" where "IsWeChatConfigured m = configured m sc_WeChat"

definition validateServer :: "notifications \<Rightarrow> ChannelType \<Rightarrow> go_error option" where
  "validateServer m ch =
     (case ch of
        ChannelTypeEmail \<Rightarrow> if IsEmailConfigured m then None else Some ErrEmailServerUnconfigured
      | ChannelTypeWeCom \<Rightarrow> if IsWeComConfigured m then None else Some ErrWeComServerUnconfigured
      | ChannelTypeWeChat \<Rightarrow> if IsWeChatConfigured m then None else Some ErrWeChatServerUnconfigured
      | _ \<Rightarrow> None)"

subsection \<open>Templates: references\<close>

definition IsRecipientReferredByTemplate :: "notifications \<Rightarrow> string \<Rightarrow> bool" where
  "IsRecipientReferredByTemplate m i = list_ex (\<lambda>t. i \<in> set (tm_Recipients t)) (cache_values (nf_tmpls m))"

definition IsMessageTemplateReferredByTemplate :: "notifications \<Rightarrow> string \<Rightarrow> bool" where
  "IsMessageTemplateReferredByTemplate m i = list_ex (\<lambda>t. i \<in> set (tm_MessageTemplates t)) (cache_values (nf_tmpls m))"

abbreviation templates_resource :: string where "templates_resource \<equiv> ''templates''"

definition zero_Template :: Template where
  "zero_Template = \<lparr>om_Tenant = [], om_Name = [], om_ID = [], om_Version = [], om_ModTime = 0, tm_Subject = [], tm_From = [], tm_Recipients = [], tm_MessageTemplates = []\<rparr>"

text \<open>The cache forgets a template; a goroutine that tries to save it still holds it.\<close>

definition forget_template :: "notifications \<Rightarrow> Template \<Rightarrow> notifications" where
  "forget_template m t =
     m\<lparr>nf_tmpls := cache_delete (om_ID t) (nf_tmpls m), nf_gone := (if om_ID t \<in> set (nf_pending m) then cache_store (om_ID t) t (nf_gone m) else nf_gone m)\<rparr>"

text \<open>The templates that use a deleted object lose it in place; what is left without is deleted, the rest is saved by a goroutine.\<close>

definition strip_template :: "(string \<Rightarrow> persist_env) \<Rightarrow> (Template \<Rightarrow> Template) \<Rightarrow> (Template \<Rightarrow> bool) \<Rightarrow> notifications \<Rightarrow> Template \<Rightarrow> notifications" where
  "strip_template es f none m t =
     (let t = f t; m = m\<lparr>nf_tmpls := cache_store (om_ID t) t (nf_tmpls m)\<rparr> in
      if none t then
        case Store_persist templates_resource (es (om_ID t)) (nf_tmpl_files m) (zero_Template\<lparr>om_ID := om_ID t\<rparr>) of
          (fs, Inl _) \<Rightarrow> m\<lparr>nf_tmpl_files := fs\<rparr>
        | (fs, Inr _) \<Rightarrow> (forget_template m t)\<lparr>nf_tmpl_files := fs\<rparr>
      else m\<lparr>nf_pending := nf_pending m @ [om_ID t]\<rparr>)"

definition UpdateTemplateByMessageTmplDeletion :: "(string \<Rightarrow> persist_env) \<Rightarrow> notifications \<Rightarrow> string \<Rightarrow> notifications" where
  "UpdateTemplateByMessageTmplDeletion es m i =
     foldl (strip_template es (\<lambda>t. t\<lparr>tm_MessageTemplates := filter (\<lambda>j. j \<noteq> i) (tm_MessageTemplates t)\<rparr>) (\<lambda>t. tm_MessageTemplates t = [])) m
       (filter (\<lambda>t. i \<in> set (tm_MessageTemplates t)) (cache_values (nf_tmpls m)))"

definition UpdateTemplateByRecipientDeletion :: "(string \<Rightarrow> persist_env) \<Rightarrow> notifications \<Rightarrow> string \<Rightarrow> notifications" where
  "UpdateTemplateByRecipientDeletion es m i =
     foldl (strip_template es (\<lambda>t. t\<lparr>tm_Recipients := filter (\<lambda>j. j \<noteq> i) (tm_Recipients t)\<rparr>) (\<lambda>t. tm_Recipients t = [])) m
       (filter (\<lambda>t. i \<in> set (tm_Recipients t)) (cache_values (nf_tmpls m)))"

text \<open>The store changes the version of the object itself before it writes, so that a failing write leaves the new version behind.\<close>

definition version_left :: "string \<Rightarrow> persist_env \<Rightarrow> 'a ObjectMeta_scheme files \<Rightarrow> 'a ObjectMeta_scheme \<Rightarrow> string" where
  "version_left resource e fs t =
     (case FsClient_Get e fs (filepath_Join resource (om_ID t)) of
        Inr (Some old) \<Rightarrow> if \<not> flt_open (pe_fault e) \<and> \<not> flt_lock (pe_fault e) \<and> om_Version old = om_Version t then next_version e (om_Version t) else om_Version t
      | _ \<Rightarrow> om_Version t)"

text \<open>One attempt of such a goroutine.\<close>

definition save_template :: "persist_env \<Rightarrow> time \<Rightarrow> notifications \<Rightarrow> string \<Rightarrow> notifications" where
  "save_template e now m i =
     (if i \<notin> set (nf_pending m) then m
      else
        case (case cache_load (nf_tmpls m) i of None \<Rightarrow> cache_load (nf_gone m) i | Some t \<Rightarrow> Some t) of
          None \<Rightarrow> m
        | Some t \<Rightarrow>
            (case Store_persist templates_resource e (nf_tmpl_files m) t of
               (fs, Inr (Some saved)) \<Rightarrow>
                 m\<lparr>nf_tmpl_files := fs, nf_tmpls := cache_store i (saved\<lparr>om_ModTime := now\<rparr>) (nf_tmpls m), nf_pending := remove1 i (nf_pending m), nf_gone := cache_delete i (nf_gone m)\<rparr>
             | (fs, _) \<Rightarrow>
                 let t = t\<lparr>om_Version := version_left templates_resource e (nf_tmpl_files m) t\<rparr>; m = m\<lparr>nf_tmpl_files := fs\<rparr> in
                 if cache_load (nf_tmpls m) i = None then m\<lparr>nf_gone := cache_store i t (nf_gone m)\<rparr> else m\<lparr>nf_tmpls := cache_store i t (nf_tmpls m)\<rparr>))"

subsection \<open>Recipients\<close>

abbreviation recipients_resource :: string where "recipients_resource \<equiv> ''recipients''"

definition listRecipients :: "('v \<Rightarrow> NameFilterFunc) \<Rightarrow> notifications \<Rightarrow> 'v tenant_filter \<Rightarrow> Recipient list" where
  "listRecipients dec m f = list_matching (tenant_parseFilter dec f) (nf_recipients m)"

definition GetRecipientById :: "notifications \<Rightarrow> string \<Rightarrow> go_error + Recipient" where
  "GetRecipientById m i = (case cache_load (nf_recipients m) i of None \<Rightarrow> Inl ErrNotExist | Some r \<Rightarrow> Inr r)"

text \<open>The channels are visited in the order of the details (Go's order over a map is any).\<close>

definition createRecipient :: "persist_env \<Rightarrow> time \<Rightarrow> string \<Rightarrow> nat \<Rightarrow> notifications \<Rightarrow> v1_Recipient \<Rightarrow> notifications \<times> (go_error + Recipient)" where
  "createRecipient e now uuid seed m obj =
     (if listRecipients no_names m \<lparr>tf_Tenant = GetTenant, tf_Name = NameString (r1_Name obj)\<rparr> \<noteq> [] then (m, Inl (ErrResourceExists (r1_Name obj)))
      else case List.map_filter (validateServer m) (remdups (map ri_Type (r1_Detail obj))) of
        err # _ \<Rightarrow> (m, Inl err)
      | [] \<Rightarrow>
          let rr = \<lparr>om_Tenant = GetTenant, om_Name = r1_Name obj, om_ID = uuid, om_Version = FormatInt (int seed), om_ModTime = now, rc_Detail = r1_Detail obj\<rparr> in
          (case Store_persist recipients_resource e (nf_recipient_files m) rr of
             (fs, Inl _) \<Rightarrow> (m\<lparr>nf_recipient_files := fs\<rparr>, Inl ErrInternal)
           | (fs, Inr None) \<Rightarrow> (m\<lparr>nf_recipient_files := fs\<rparr>, Inl GoPanic)
           | (fs, Inr (Some saved)) \<Rightarrow> (m\<lparr>nf_recipients := cache_store uuid saved (nf_recipients m), nf_recipient_files := fs\<rparr>, Inr saved)))"

definition zero_Recipient :: Recipient where
  "zero_Recipient = \<lparr>om_Tenant = [], om_Name = [], om_ID = [], om_Version = [], om_ModTime = 0, rc_Detail = []\<rparr>"

definition DeleteRecipient ::
  "persist_env \<Rightarrow> (string \<Rightarrow> persist_env) \<Rightarrow> notifications \<Rightarrow> string \<Rightarrow> string \<Rightarrow> bool \<Rightarrow> notifications \<times> (go_error + Recipient)" where
  "DeleteRecipient e es m i eTag orphanRemoval =
     (case cache_load (nf_recipients m) i of
        None \<Rightarrow> (m, Inl ErrNotExist)
      | Some r \<Rightarrow>
          if om_Version r \<noteq> eTag then (m, Inl ErrMismatch)
          else if \<not> orphanRemoval \<and> IsRecipientReferredByTemplate m i then (m, Inl (ErrAssociateResourceExist i))
          else
            (case Store_persist recipients_resource e (nf_recipient_files m) (zero_Recipient\<lparr>om_ID := i, om_Version := eTag\<rparr>) of
               (fs, Inl err) \<Rightarrow> (m\<lparr>nf_recipient_files := fs\<rparr>, Inl err)
             | (fs, Inr _) \<Rightarrow>
                 let m = m\<lparr>nf_recipients := cache_delete i (nf_recipients m), nf_recipient_files := fs\<rparr> in
                 (if orphanRemoval then UpdateTemplateByRecipientDeletion es m i else m, Inr r)))"

definition recipient_REST_Create where
  "recipient_REST_Create render ev e now uuid seed m obj =
     (case ValidateRecipient ev obj of
        None \<Rightarrow> (m, Inl GoPanic)
      | Some errs \<Rightarrow> (case ValidateFunc render (\<lambda>_. errs) obj of Some err \<Rightarrow> (m, Inl err) | None \<Rightarrow> createRecipient e now uuid seed m obj))"

subsection \<open>Message templates\<close>

abbreviation msgs_resource :: string where "msgs_resource \<equiv> ''messagetmpls''"

text \<open>The parsed template is not written.\<close>

definition persist_msg :: "persist_env \<Rightarrow> MessageTemplate files \<Rightarrow> MessageTemplate \<Rightarrow> MessageTemplate files \<times> (go_error + string)" where
  "persist_msg e fs mt =
     (case Store_persist msgs_resource e fs (mt\<lparr>mt_Parsed := None\<rparr>) of
        (fs, Inl err) \<Rightarrow> (fs, Inl err) | (fs, Inr None) \<Rightarrow> (fs, Inl GoPanic) | (fs, Inr (Some saved)) \<Rightarrow> (fs, Inr (om_Version saved)))"

definition listMessageTmpls :: "('v \<Rightarrow> NameFilterFunc) \<Rightarrow> notifications \<Rightarrow> 'v tenant_filter \<Rightarrow> MessageTemplate list" where
  "listMessageTmpls dec m f = map (\<lambda>mt. mt\<lparr>mt_Placeholder := None\<rparr>) (list_matching (tenant_parseFilter dec f) (nf_msgs m))"

definition GetMessageTmplById :: "notifications \<Rightarrow> string \<Rightarrow> bool \<Rightarrow> go_error + MessageTemplate" where
  "GetMessageTmplById m i exploded =
     (case cache_load (nf_msgs m) i of None \<Rightarrow> Inl ErrNotExist | Some mt \<Rightarrow> Inr (if exploded then mt else mt\<lparr>mt_Placeholder := None\<rparr>))"

definition CreateMessageTmpls :: "persist_env \<Rightarrow> time \<Rightarrow> string \<Rightarrow> nat \<Rightarrow> notifications \<Rightarrow> v1_MessageTmpl \<Rightarrow> notifications \<times> (go_error + MessageTemplate)" where
  "CreateMessageTmpls e now uuid seed m obj =
     (if listMessageTmpls no_names m \<lparr>tf_Tenant = GetTenant, tf_Name = NameString (mt1_Name obj)\<rparr> \<noteq> [] then (m, Inl (ErrResourceExists (mt1_Name obj)))
      else case parseContent (mt1_Type obj) (mt1_Content obj) of
        None \<Rightarrow> (m, Inl GoPanic)
      | Some (text, phs) \<Rightarrow>
          let version = FormatInt (int seed);
              rmt = \<lparr>om_Tenant = GetTenant, om_Name = mt1_Name obj, om_ID = uuid, om_Version = version, om_ModTime = now, mt_Type = mt1_Type obj, mt_Content = mt1_Content obj, mt_Parsed = text,
                     mt_Placeholder = Some \<lparr>tp_ETag = version, tp_Placeholders = map (\<lambda>n. \<lparr>ph_Name = n, ph_DefaultValue = None\<rparr>) phs\<rparr>\<rparr> in
          (case persist_msg e (nf_msg_files m) rmt of
             (fs, Inl err) \<Rightarrow> (m\<lparr>nf_msg_files := fs\<rparr>, Inl (if err = GoPanic then GoPanic else ErrInternal))
           | (fs, Inr v) \<Rightarrow> (m\<lparr>nf_msgs := cache_store uuid (rmt\<lparr>om_Version := v\<rparr>) (nf_msgs m), nf_msg_files := fs\<rparr>, Inr (rmt\<lparr>om_Version := v, mt_Placeholder := None\<rparr>))))"

text \<open>The deletion sends the object itself, which has a modification time.\<close>

definition DeleteMsgTmpl ::
  "persist_env \<Rightarrow> (string \<Rightarrow> persist_env) \<Rightarrow> notifications \<Rightarrow> string \<Rightarrow> string \<Rightarrow> bool \<Rightarrow> notifications \<times> (go_error + MessageTemplate)" where
  "DeleteMsgTmpl e es m i eTag orphanRemoval =
     (case cache_load (nf_msgs m) i of
        None \<Rightarrow> (m, Inl ErrNotExist)
      | Some mt \<Rightarrow>
          if om_Version mt \<noteq> eTag then (m, Inl ErrMismatch)
          else if \<not> orphanRemoval \<and> IsMessageTemplateReferredByTemplate m i then (m, Inl (ErrAssociateResourceExist i))
          else
            (case Store_persist msgs_resource e (nf_msg_files m) (mt\<lparr>mt_Parsed := None\<rparr>) of
               (fs, Inl err) \<Rightarrow> (m\<lparr>nf_msgs := cache_store i (mt\<lparr>om_Version := version_left msgs_resource e (nf_msg_files m) mt\<rparr>) (nf_msgs m), nf_msg_files := fs\<rparr>, Inl err)
             | (fs, Inr saved) \<Rightarrow>
                 let m = m\<lparr>nf_msgs := cache_delete i (nf_msgs m), nf_msg_files := fs\<rparr> in
                 (if orphanRemoval then UpdateTemplateByMessageTmplDeletion es m (om_ID mt) else m, Inr (case saved of None \<Rightarrow> mt | Some s \<Rightarrow> mt\<lparr>om_Version := om_Version s\<rparr>))))"

definition getPlaceholders :: "notifications \<Rightarrow> string \<Rightarrow> go_error + TemplatePlaceholder option" where
  "getPlaceholders m i = (case cache_load (nf_msgs m) i of None \<Rightarrow> Inl ErrNotExist | Some mt \<Rightarrow> Inr (mt_Placeholder mt))"

fun set_default :: "PlaceholderItem list \<Rightarrow> PlaceholderItem \<Rightarrow> PlaceholderItem list" where
  "set_default [] new = []"
| "set_default (p # ps) new = (if ph_Name p = ph_Name new then p\<lparr>ph_DefaultValue := ph_DefaultValue new\<rparr> # ps else p # set_default ps new)"

text \<open>
  \<open>old\<close> is the placeholder object of the cached template itself (a nil one is \<open>None\<close>), so the defaults are changed before the store answers.
\<close>

definition updatePlaceholders :: "persist_env \<Rightarrow> time \<Rightarrow> notifications \<Rightarrow> string \<Rightarrow> string \<Rightarrow> TemplatePlaceholder \<Rightarrow> notifications \<times> (go_error + TemplatePlaceholder)" where
  "updatePlaceholders e now m i version obj =
     (case cache_load (nf_msgs m) i of
        None \<Rightarrow> (m, Inl ErrNotExist)
      | Some mt \<Rightarrow>
          (case mt_Placeholder mt of
             None \<Rightarrow> (m, Inl GoPanic)
           | Some old \<Rightarrow>
               if version \<noteq> tp_ETag old then (m, Inl ErrMismatch)
               else
                 let old = old\<lparr>tp_Placeholders := foldl set_default (tp_Placeholders old) (tp_Placeholders obj)\<rparr>; mt = mt\<lparr>mt_Placeholder := Some old\<rparr> in
                 (case persist_msg e (nf_msg_files m) mt of
                    (fs, Inl err) \<Rightarrow> (m\<lparr>nf_msgs := cache_store i mt (nf_msgs m), nf_msg_files := fs\<rparr>, Inl err)
                  | (fs, Inr v) \<Rightarrow>
                      let ph = old\<lparr>tp_ETag := v\<rparr> in
                      (m\<lparr>nf_msgs := cache_store i (mt\<lparr>om_ModTime := now, mt_Placeholder := Some ph, om_Version := v\<rparr>) (nf_msgs m), nf_msg_files := fs\<rparr>, Inr ph))))"

definition msg_REST_Create where
  "msg_REST_Create render ev e now uuid seed m obj =
     (case ValidateMessageTmpl ev obj of
        None \<Rightarrow> (m, Inl GoPanic)
      | Some errs \<Rightarrow> (case ValidateFunc render (\<lambda>_. errs) obj of Some err \<Rightarrow> (m, Inl err) | None \<Rightarrow> CreateMessageTmpls e now uuid seed m obj))"

subsection \<open>Templates\<close>

definition ListTmpls :: "('v \<Rightarrow> NameFilterFunc) \<Rightarrow> notifications \<Rightarrow> 'v tenant_filter \<Rightarrow> Template list" where
  "ListTmpls dec m f = list_matching (tenant_parseFilter dec f) (nf_tmpls m)"

definition GetTmplById :: "notifications \<Rightarrow> string \<Rightarrow> go_error + Template" where
  "GetTmplById m i = (case cache_load (nf_tmpls m) i of None \<Rightarrow> Inl ErrNotExist | Some t \<Rightarrow> Inr t)"

definition CreateTmpl :: "persist_env \<Rightarrow> time \<Rightarrow> string \<Rightarrow> nat \<Rightarrow> notifications \<Rightarrow> v1_Template \<Rightarrow> notifications \<times> (go_error + Template)" where
  "CreateTmpl e now uuid seed m obj =
     (let rs = filter (\<lambda>i. isl (GetRecipientById m i)) (t1_Recipients obj); mts = filter (\<lambda>i. isl (GetMessageTmplById m i True)) (t1_MessageTemplates obj) in
      if ListTmpls no_names m \<lparr>tf_Tenant = GetTenant, tf_Name = NameString (t1_TmplName obj)\<rparr> \<noteq> [] then (m, Inl (ErrResourceExists (t1_TmplName obj)))
      else if rs \<noteq> [] then (m, Inl (ErrRecipientNotFound rs))
      else if mts \<noteq> [] then (m, Inl (ErrMessageTmplNotFound mts))
      else
        let rt = \<lparr>om_Tenant = GetTenant, om_Name = t1_TmplName obj, om_ID = uuid, om_Version = FormatInt (int seed), om_ModTime = now, tm_Subject = t1_Subject obj, tm_From = t1_From obj,
                  tm_Recipients = t1_Recipients obj, tm_MessageTemplates = t1_MessageTemplates obj\<rparr> in
        case Store_persist templates_resource e (nf_tmpl_files m) rt of
          (fs, Inl _) \<Rightarrow> (m\<lparr>nf_tmpl_files := fs\<rparr>, Inl ErrInternal)
        | (fs, Inr None) \<Rightarrow> (m\<lparr>nf_tmpl_files := fs\<rparr>, Inl GoPanic)
        | (fs, Inr (Some saved)) \<Rightarrow> (m\<lparr>nf_tmpls := cache_store uuid saved (nf_tmpls m), nf_tmpl_files := fs\<rparr>, Inr saved))"

definition DeleteTmpl :: "persist_env \<Rightarrow> notifications \<Rightarrow> string \<Rightarrow> string \<Rightarrow> notifications \<times> (go_error + Template)" where
  "DeleteTmpl e m i eTag =
     (case cache_load (nf_tmpls m) i of
        None \<Rightarrow> (m, Inl ErrNotExist)
      | Some t \<Rightarrow>
          if om_Version t \<noteq> eTag then (m, Inl ErrMismatch)
          else
            (case Store_persist templates_resource e (nf_tmpl_files m) (zero_Template\<lparr>om_ID := i, om_Version := eTag\<rparr>) of
               (fs, Inl err) \<Rightarrow> (m\<lparr>nf_tmpl_files := fs\<rparr>, Inl err)
             | (fs, Inr _) \<Rightarrow> ((forget_template m t)\<lparr>nf_tmpl_files := fs\<rparr>, Inr t)))"

definition tmpl_REST_Create where
  "tmpl_REST_Create render e now uuid seed m obj =
     (case ValidateFunc render ValidateTemplate obj of Some err \<Rightarrow> (m, Inl err) | None \<Rightarrow> CreateTmpl e now uuid seed m obj)"

subsection \<open>Messages\<close>

datatype msgType = msgTypeUndefined | msgTypeSimple | msgTypeTemplate

definition parseMessageType :: "notifications \<Rightarrow> v1_Message \<Rightarrow> go_error + msgType" where
  "parseMessageType m obj =
     (if ms_To obj \<noteq> [] then (if cache_load (ms_Payload obj) ''content'' \<noteq> None then Inr msgTypeSimple else Inl ErrSimpleMessageContentNotFound)
      else if ms_TemplateId obj \<noteq> [] then (if isl (GetTmplById m (ms_TemplateId obj)) then Inl (ErrTemplateNotFound (ms_TemplateId obj)) else Inr msgTypeTemplate)
      else Inr msgTypeUndefined)"

text \<open>The sender when none is given: the user of the mail server; without one, a nil pointer.\<close>

definition default_from :: "notifications \<Rightarrow> string \<Rightarrow> go_error + string" where
  "default_from m from =
     (if from \<noteq> [] then Inr from
      else case GetConfig m of Inl _ \<Rightarrow> Inl GoPanic | Inr c \<Rightarrow> (case sc_Email c of None \<Rightarrow> Inl GoPanic | Some e \<Rightarrow> Inr (sm_Username e)))"

definition simpleMessageTmpl :: MessageTemplate where
  "simpleMessageTmpl = \<lparr>om_Tenant = [], om_Name = [], om_ID = [], om_Version = [], om_ModTime = 0, mt_Type = ContentTypeText, mt_Content = [], mt_Parsed = Some ''{{.Payload.content}}'',
     mt_Placeholder = None\<rparr>"

definition channel_addresses :: "notifications \<Rightarrow> ChannelType \<Rightarrow> string list \<Rightarrow> string list" where
  "channel_addresses m ch rs =
     remdups (concat (map (\<lambda>i. case GetRecipientById m i of Inl _ \<Rightarrow> [] | Inr r \<Rightarrow> map ri_Address (filter (\<lambda>d. ri_Type d = ch) (rc_Detail r))) rs))"

definition fill_defaults :: "(string, json) smap \<Rightarrow> MessageTemplate \<Rightarrow> (string, json) smap" where
  "fill_defaults payload mt =
     (case mt_Placeholder mt of
        None \<Rightarrow> payload
      | Some tp \<Rightarrow>
          foldl (\<lambda>p it. case ph_DefaultValue it of None \<Rightarrow> p | Some v \<Rightarrow> if cache_load p (ph_Name it) = None then cache_store (ph_Name it) v p else p) payload (tp_Placeholders tp))"

definition template_message :: "notifications \<Rightarrow> v1_Message \<Rightarrow> Template \<Rightarrow> go_error + Message" where
  "template_message m obj t =
     (let mts = List.map_filter (\<lambda>i. case GetMessageTmplById m i True of Inl _ \<Rightarrow> None | Inr mt \<Rightarrow> Some mt) (tm_MessageTemplates t) in
      case default_from m (if ms_From obj = [] then tm_From t else ms_From obj) of
        Inl err \<Rightarrow> Inl err
      | Inr from \<Rightarrow>
          Inr \<lparr>ms_Channel = ms_Channel obj, ms_Subject = (if ms_Subject obj = [] then tm_Subject t else ms_Subject obj), ms_From = from,
               ms_Payload = foldl fill_defaults (ms_Payload obj) mts, ms_To = ms_To obj @ channel_addresses m (ms_Channel obj) (tm_Recipients t), ms_TemplateId = ms_TemplateId obj, ms_MsgTmpls = mts\<rparr>)"

text \<open>The message that is handed to the notifier of the channel; \<open>None\<close>: there is none for it (webhooks).\<close>

definition SendMessage :: "notifications \<Rightarrow> v1_Message \<Rightarrow> go_error + Message option" where
  "SendMessage m obj =
     (case validateServer m (ms_Channel obj) of
        Some err \<Rightarrow> Inl err
      | None \<Rightarrow>
          (case parseMessageType m obj of
             Inl err \<Rightarrow> Inl err
           | Inr mt \<Rightarrow>
               map_sum id (\<lambda>rm. if ms_Channel obj \<in> {ChannelTypeEmail, ChannelTypeWeCom, ChannelTypeWeChat} then Some rm else None)
                 (case mt of
                    msgTypeSimple \<Rightarrow>
                      map_sum id (\<lambda>from. \<lparr>ms_Channel = ms_Channel obj, ms_Subject = ms_Subject obj, ms_From = from, ms_Payload = ms_Payload obj, ms_To = ms_To obj,
                                         ms_TemplateId = ms_TemplateId obj, ms_MsgTmpls = [simpleMessageTmpl]\<rparr>) (default_from m (ms_From obj))
                  | msgTypeTemplate \<Rightarrow> (case GetTmplById m (ms_TemplateId obj) of Inl _ \<Rightarrow> Inl GoPanic | Inr t \<Rightarrow> template_message m obj t)
                  | msgTypeUndefined \<Rightarrow>
                      Inr \<lparr>ms_Channel = ms_Channel obj, ms_Subject = ms_Subject obj, ms_From = ms_From obj, ms_Payload = ms_Payload obj, ms_To = ms_To obj, ms_TemplateId = ms_TemplateId obj, ms_MsgTmpls = []\<rparr>)))"

definition message_REST_Create where
  "message_REST_Create render m obj = (case ValidateFunc render ValidateMessage obj of Some err \<Rightarrow> Inl err | None \<Rightarrow> SendMessage m obj)"

subsection \<open>Start\<close>

definition load_msg :: "(string \<times> MessageTemplate) list option \<Rightarrow> MessageTemplate \<Rightarrow> (string \<times> MessageTemplate) list option" where
  "load_msg c mt =
     (case (c, parseContent (mt_Type mt) (mt_Content mt)) of (Some c, Some (text, _)) \<Rightarrow> Some (cache_store (om_ID mt) (mt\<lparr>mt_Parsed := text\<rparr>) c) | _ \<Rightarrow> None)"

text \<open>\<open>None\<close>: a message template without a type ends the start.\<close>

definition notification_load :: "Config files \<Rightarrow> Recipient files \<Rightarrow> MessageTemplate files \<Rightarrow> Template files \<Rightarrow> notifications option" where
  "notification_load cfs rfs mfs tfs =
     map_option (\<lambda>msgs.
       \<lparr>nf_servers = foldl (\<lambda>m c. cache_store (om_Tenant c) c m) [] (LoadResource servers_resource cfs), nf_server_files = cfs,
        nf_recipients = foldl (\<lambda>m r. cache_store (om_ID r) r m) [] (LoadResource recipients_resource rfs), nf_recipient_files = rfs,
        nf_msgs = msgs, nf_msg_files = mfs,
        nf_tmpls = foldl (\<lambda>m t. cache_store (om_ID t) t m) [] (LoadResource templates_resource tfs), nf_tmpl_files = tfs, nf_pending = [], nf_gone = []\<rparr>)
     (foldl load_msg (Some []) (LoadResource msgs_resource mfs))"

end
