(* ===== verification/Rules.thy ===== *)
theory Rules
  imports Notifications
begin

text \<open>
  The rule service (\<open>src/pkg/rule\<close>): rules with an expression over properties of a thing and the actions to take, their validation, creation, update and deletion, and their deactivation when
  things or thing types change. The parser of expressions and the answers of the model manager and of the notification service are arguments.
\<close>

subsection \<open>Data\<close>

datatype ActionType = ActionTypeVirtualParameter | ActionTypeEvent | ActionTypeEmail | ActionTypeWebhook | ActionTypeWeCom | ActionTypeWeChat

text \<open>The embedded pointer to the base of a requested action is nil when none of its fields is given. Durations are in nanoseconds.\<close>

record v1_BaseAction =
  b1_Active :: bool
  b1_Interval :: "int option"

record v1_VirtualParameterAction =
  vp1_Base :: "v1_BaseAction option"
  vp1_ThingId :: string
  vp1_PropertySetName :: string
  vp1_Property :: Property

record v1_EventAction =
  ev1_Base :: "v1_BaseAction option"
  ev1_Severity :: int
  ev1_Description :: string

record v1_NotifyAction =
  no1_Base :: "v1_BaseAction option"
  no1_Description :: string
  no1_Addresses :: "string list"
  no1_Severity :: int

record v1_Action =
  ac1_VirtualParameter :: "v1_VirtualParameterAction option"
  ac1_Event :: "v1_EventAction option"
  ac1_Email :: "v1_NotifyAction option"
  ac1_Webhook :: "v1_NotifyAction option"
  ac1_WeCom :: "v1_NotifyAction option"
  ac1_WeChat :: "v1_NotifyAction option"

record Evaluation =
  el_Template :: string
  el_Expression :: string

record v1_Rule =
  ru1_Name :: string
  ru1_Description :: "string option"
  ru1_ThingId :: string
  ru1_RealTime :: bool
  ru1_Active :: bool
  ru1_Evaluations :: "Evaluation list"
  ru1_Actions :: v1_Action

record BaseAction =
  ba_Active :: bool
  ba_Interval :: "int option"
  ba_lastSendAt :: time

datatype Actioner =
    VirtualParameter BaseAction string string Property
  | EventAction BaseAction int string
  | Webhook BaseAction int string "string list"
  | Notify BaseAction int string "string list"

text \<open>
  In the cache an action is an interface value, which may hold a nil pointer (\<open>None\<close>, of type \<open>Notify\<close>); in a file and in what is read from it there is none.
\<close>

record 'a RuleOf = ObjectMeta +
  ru_Description :: "string option"
  ru_ThingId :: string
  ru_RealTime :: bool
  ru_Active :: bool
  ru_Evaluations :: "Evaluation list"
  ru_Actions :: "(ActionType, 'a) smap"

type_synonym Rule = "Actioner option RuleOf"
type_synonym StoredRule = "Actioner RuleOf"

text \<open>The answer of a service: none, or a status and the body that was decoded, if it was.\<close>

datatype 'b reply = NoReply | Reply nat "'b option"

record rule_env =
  re_parses :: "string \<Rightarrow> bool"
  re_sets :: "string \<Rightarrow> (string \<times> Property list) list reply"
  re_things :: "string \<Rightarrow> string list reply"
  re_type_version :: "string \<Rightarrow> string reply"
  re_servers :: "nat \<Rightarrow> Config list reply"
  re_notify :: notify_env

subsection \<open>Expressions\<close>

definition OperandGS :: char where "OperandGS = CHR 0x1D"
definition OperandUS :: char where "OperandUS = CHR 0x1F"

text \<open>The matches of \<open>\x1D(.*?)\x1D\<close> from the left.\<close>

fun close_operand :: "string \<Rightarrow> string \<Rightarrow> (string \<times> string) option" where
  "close_operand acc [] = None"
| "close_operand acc (c # s) = (if c = OperandGS then Some (acc, s) else if c = CHR 0x0A then None else close_operand (acc @ [c]) s)"

lemma close_operand_length: "close_operand acc s = Some (op, rest) \<Longrightarrow> length rest < length s"
  by (induction acc s rule: close_operand.induct) (auto split: if_splits)

function expression_parts :: "string \<Rightarrow> (char + string) list" where
  "expression_parts s =
     (case s of
        [] \<Rightarrow> []
      | c # s' \<Rightarrow>
          (case (if c = OperandGS then close_operand [] s' else None) of
             None \<Rightarrow> Inl c # expression_parts s'
           | Some (op, rest) \<Rightarrow> Inr op # expression_parts rest))"
  by pat_completeness auto

termination
  by (relation "measure length") (auto dest!: close_operand_length split: if_splits)

declare expression_parts.simps [simp del]

definition expression_operands :: "string \<Rightarrow> string list" where
  "expression_operands s = List.map_filter (\<lambda>p. case p of Inl _ \<Rightarrow> None | Inr op \<Rightarrow> Some op) (expression_parts s)"

fun replace_operands :: "nat \<Rightarrow> (char + string) list \<Rightarrow> string" where
  "replace_operands i [] = []"
| "replace_operands i (Inl c # ps) = c # replace_operands i ps"
| "replace_operands i (Inr _ # ps) = (if i \<noteq> 0 then ''ignoring(o)'' else []) @ '' _'' @ FormatInt (int i) @ replace_operands (Suc i) ps"

text \<open>A parsed expression is represented by the text that was parsed; \<open>None\<close> is the error of the parser.\<close>

definition Parse :: "rule_env \<Rightarrow> string \<Rightarrow> (string \<times> string list) option" where
  "Parse ev s = (let reps = replace_operands 0 (expression_parts s) in if re_parses ev reps then Some (reps, expression_operands s) else None)"

definition parsed_operands :: "rule_env \<Rightarrow> string \<Rightarrow> string list" where
  "parsed_operands ev s = (case Parse ev s of None \<Rightarrow> [] | Some (_, ops) \<Rightarrow> ops)"

text \<open>
  The properties by property set, of which only the first is kept: the result of \<open>append\<close> is not stored. \<open>None\<close> is an index out of range.
\<close>

fun first_properties :: "(string, string list) smap \<Rightarrow> string list \<Rightarrow> (string, string list) smap option" where
  "first_properties m [] = Some m"
| "first_properties m (op # ops) =
     (case split_at OperandUS op of
        ps # p # _ \<Rightarrow> first_properties (if cache_load m ps = None then cache_store ps [p] m else m) ops
      | _ \<Rightarrow> None)"

subsection \<open>Validation\<close>

definition validateRuleName :: "string \<Rightarrow> bool" where "validateRuleName name = (\<not> IsStringLengthInRange name 1 64)"

definition validateEvaluations :: "rule_env \<Rightarrow> Evaluation list \<Rightarrow> string \<Rightarrow> field_error list option" where
  "validateEvaluations ev es path =
     (case es of
        [] \<Rightarrow> None
      | e # _ \<Rightarrow>
          let here = child (idx path 0) ''expression''; ops = parsed_operands ev (el_Expression e); legal = filter (\<lambda>op. length (split_at OperandUS op) = 2) ops in
          Some ((if Parse ev (el_Expression e) = None then [Invalid here] else []) @ map (\<lambda>_. Invalid here) (filter (\<lambda>op. length (split_at OperandUS op) \<noteq> 2) ops) @
            (if length (remdups (map (\<lambda>op. hd (split_at OperandUS op)) legal)) > 1 then [Invalid here] else [])))"

text \<open>\<open>None\<close>: the first evaluation is read although there is none.\<close>

definition ValidateRule :: "rule_env \<Rightarrow> v1_Rule \<Rightarrow> field_error list option" where
  "ValidateRule ev r =
     map_option (\<lambda>errs. ValidateObjectMeta (ru1_Name r) validateRuleName @ ValidateDescription (ru1_Description r) ''description'' @ errs)
       (validateEvaluations ev (ru1_Evaluations r) ''evaluations'')"

subsection \<open>Answers of the other services\<close>

definition getThingProperties :: "rule_env \<Rightarrow> string \<Rightarrow> string \<Rightarrow> go_error + (string, Property) smap" where
  "getThingProperties ev thingId psName =
     (case re_sets ev thingId of
        NoReply \<Rightarrow> Inl ErrInternal
      | Reply code body \<Rightarrow>
          if code = 404 then Inl (ErrThingNotFound thingId)
          else if code \<noteq> 200 then Inl ErrInternal
          else case body of
            None \<Rightarrow> Inl ErrInternal
          | Some pss \<Rightarrow> Inr (foldl (\<lambda>m (n, ps). if n = psName then foldl (\<lambda>m p. cache_store (p_Name p) p m) m ps else m) [] pss))"

text \<open>The status is not looked at, and the list is appended to itself.\<close>

definition getThings :: "rule_env \<Rightarrow> string \<Rightarrow> go_error + string list" where
  "getThings ev thingTypeId = (case re_things ev thingTypeId of Reply _ (Some ts) \<Rightarrow> Inr (ts @ ts) | _ \<Rightarrow> Inl ErrInternal)"

definition getThingTypeVersion :: "rule_env \<Rightarrow> string \<Rightarrow> go_error + string" where
  "getThingTypeVersion ev i =
     (case re_type_version ev i of
        NoReply \<Rightarrow> Inl ErrInternal
      | Reply code v \<Rightarrow> if code = 404 then Inl ErrNotExist else if code \<noteq> 200 then Inl ErrInternal else Inr (case v of None \<Rightarrow> [] | Some v \<Rightarrow> v))"

record notifyServer =
  ns_calls :: nat
  ns_finished :: bool
  ns_Email :: bool
  ns_WeCom :: bool
  ns_WeChat :: bool

definition new_notifyServer :: notifyServer where
  "new_notifyServer = \<lparr>ns_calls = 0, ns_finished = False, ns_Email = False, ns_WeCom = False, ns_WeChat = False\<rparr>"

definition ns_getConfig :: "rule_env \<Rightarrow> notifyServer \<Rightarrow> notifyServer" where
  "ns_getConfig ev ns =
     (if ns_finished ns then ns
      else
        let ns' = ns\<lparr>ns_calls := Suc (ns_calls ns)\<rparr> in
        case re_servers ev (ns_calls ns) of
          Reply code (Some (c # _)) \<Rightarrow>
            if code = 200 then
              ns'\<lparr>ns_Email := sc_Email c \<noteq> None, ns_WeCom := sc_WeCom c \<noteq> None, ns_WeChat := sc_WeChat c \<noteq> None,
                  ns_finished := sc_Email c \<noteq> None \<and> sc_WeCom c \<noteq> None \<and> sc_WeChat c \<noteq> None\<rparr>
            else ns'
        | _ \<Rightarrow> ns')"

subsection \<open>Actions\<close>

definition SetDefaults_BaseAction :: "v1_BaseAction \<Rightarrow> BaseAction" where
  "SetDefaults_BaseAction b = \<lparr>ba_Active = b1_Active b, ba_Interval = Some (case b1_Interval b of None \<Rightarrow> 2 * 60 * 10 ^ 9 | Some d \<Rightarrow> d), ba_lastSendAt = 0\<rparr>"

definition ErrVirtualParameterMismatchesProperty :: "Property \<Rightarrow> Property \<Rightarrow> go_error" where
  "ErrVirtualParameterMismatchesProperty vpp target =
     generateError 10019 [p_Name vpp, DataTypeToString (p_DataType vpp), DataTypeToString (p_DataType target), p_Unit vpp, p_Unit target, FormatInt (p_Length vpp), FormatInt (p_Length target)]"

definition validateVirtualParameterAndProperty :: "string \<Rightarrow> string \<Rightarrow> (string, Property) smap \<Rightarrow> Property \<Rightarrow> go_error + Property" where
  "validateVirtualParameterAndProperty thingId psName props vpp =
     (case cache_load props (p_Name vpp) of
        None \<Rightarrow> Inl (ErrPropertyOfThingNotFound (p_Name vpp) psName thingId)
      | Some target \<Rightarrow>
          if p_DataType target \<noteq> p_DataType vpp \<or> p_Unit target \<noteq> p_Unit vpp \<or> p_Length target \<noteq> p_Length vpp then Inl (ErrVirtualParameterMismatchesProperty vpp target)
          else Inr target)"

text \<open>The name of the property is compared with whole operands, which have the property set in front.\<close>

definition createVirtualParameterAction ::
  "rule_env \<Rightarrow> v1_VirtualParameterAction \<Rightarrow> string \<Rightarrow> string \<Rightarrow> (string, Property) smap \<Rightarrow> string list \<Rightarrow> go_error + Actioner" where
  "createVirtualParameterAction ev obj thingId psName props operands =
     (case (if vp1_ThingId obj = thingId \<and> vp1_PropertySetName obj = psName
            then if p_Name (vp1_Property obj) \<in> set operands then Inl (ErrVirtualParameterOverlapsOperand (p_Name (vp1_Property obj))) else Inr props
            else getThingProperties ev (vp1_ThingId obj) (vp1_PropertySetName obj)) of
        Inl err \<Rightarrow> Inl err
      | Inr props \<Rightarrow>
          (case validateVirtualParameterAndProperty (vp1_ThingId obj) (vp1_PropertySetName obj) props (vp1_Property obj) of
             Inl err \<Rightarrow> Inl err
           | Inr target \<Rightarrow>
               (case vp1_Base obj of
                  None \<Rightarrow> Inl GoPanic
                | Some b \<Rightarrow> Inr (VirtualParameter \<lparr>ba_Active = b1_Active b, ba_Interval = None, ba_lastSendAt = 0\<rparr> (vp1_ThingId obj) (vp1_PropertySetName obj) target))))"

definition createEventAction :: "v1_EventAction option \<Rightarrow> go_error + Actioner option" where
  "createEventAction ea =
     (case ea of
        None \<Rightarrow> Inr None
      | Some ea \<Rightarrow> (case ev1_Base ea of None \<Rightarrow> Inl GoPanic | Some b \<Rightarrow> Inr (Some (EventAction (SetDefaults_BaseAction b) (ev1_Severity ea) (ev1_Description ea)))))"

definition notify_of :: "v1_NotifyAction \<Rightarrow> go_error + Actioner option" where
  "notify_of a =
     (case no1_Base a of None \<Rightarrow> Inl GoPanic | Some b \<Rightarrow> Inr (Some (Notify (SetDefaults_BaseAction b) (no1_Severity a) (no1_Description a) (no1_Addresses a))))"

definition createWebhookAction :: "rule_env \<Rightarrow> v1_NotifyAction option \<Rightarrow> go_error + Actioner option" where
  "createWebhookAction ev wa =
     (case wa of
        None \<Rightarrow> Inr None
      | Some a \<Rightarrow>
          let bad = filter (\<lambda>ad. \<not> ne_url_ok (re_notify ev) ad) (no1_Addresses a) in
          if bad \<noteq> [] then Inl (ErrWebhookUriInvalid (join_with '';'' bad)) else notify_of a)"

definition createEmailAction :: "rule_env \<Rightarrow> v1_NotifyAction option \<Rightarrow> notifyServer \<Rightarrow> notifyServer \<times> (go_error + Actioner option)" where
  "createEmailAction ev ea ns =
     (case ea of
        None \<Rightarrow> (ns, Inr None)
      | Some a \<Rightarrow>
          let ns = ns_getConfig ev ns; bad = filter (\<lambda>ad. \<not> ne_IsEmail (re_notify ev) ad) (no1_Addresses a) in
          (ns, if \<not> ns_Email ns then Inl ErrEmailServerUnconfigured else if bad \<noteq> [] then Inl (ErrEmailAddressInvalid (join_with '';'' bad)) else notify_of a))"

definition createWeComAction :: "rule_env \<Rightarrow> v1_NotifyAction option \<Rightarrow> notifyServer \<Rightarrow> notifyServer \<times> (go_error + Actioner option)" where
  "createWeComAction ev wa ns =
     (case wa of None \<Rightarrow> (ns, Inr None) | Some a \<Rightarrow> let ns = ns_getConfig ev ns in (ns, if \<not> ns_WeCom ns then Inl ErrWeComServerUnconfigured else notify_of a))"

definition createWeChatAction :: "rule_env \<Rightarrow> v1_NotifyAction option \<Rightarrow> notifyServer \<Rightarrow> notifyServer \<times> (go_error + Actioner option)" where
  "createWeChatAction ev wa ns =
     (case wa of None \<Rightarrow> (ns, Inr None) | Some a \<Rightarrow> let ns = ns_getConfig ev ns in (ns, if \<not> ns_WeChat ns then Inl ErrWeChatServerUnconfigured else notify_of a))"

text \<open>The loop over the property sets of the operands; it may make the virtual parameter.\<close>

fun check_sets :: "rule_env \<Rightarrow> v1_Rule \<Rightarrow> string list \<Rightarrow> Actioner option \<Rightarrow> (string, string list) smap \<Rightarrow> go_error + Actioner option" where
  "check_sets ev obj operands vp [] = Inr vp"
| "check_sets ev obj operands vp ((k, v) # sets) =
     (case getThingProperties ev (ru1_ThingId obj) k of
        Inl err \<Rightarrow> Inl err
      | Inr props \<Rightarrow>
          (case find (\<lambda>p. cache_load props p = None) v of
             Some p \<Rightarrow> Inl (ErrPropertyOfThingNotFound p k (ru1_ThingId obj))
           | None \<Rightarrow>
               (case ac1_VirtualParameter (ru1_Actions obj) of
                  None \<Rightarrow> check_sets ev obj operands vp sets
                | Some a \<Rightarrow>
                    if ru1_ThingId obj = vp1_ThingId a \<and> k = vp1_PropertySetName a then
                      (case createVirtualParameterAction ev a (ru1_ThingId obj) k props operands of
                         Inl err \<Rightarrow> Inl err | Inr vp \<Rightarrow> check_sets ev obj operands (Some vp) sets)
                    else check_sets ev obj operands vp sets)))"

text \<open>
  The checks and actions of a request, the same for creation and update. The three notifying actions are stored also when they are nil: they are kept in variables of an interface type.
\<close>

definition virtual_parameter :: "rule_env \<Rightarrow> v1_Rule \<Rightarrow> go_error + Actioner option" where
  "virtual_parameter ev obj =
     (case ru1_Evaluations obj of
        [] \<Rightarrow> Inl GoPanic
      | e # _ \<Rightarrow>
          let operands = parsed_operands ev (el_Expression e) in
          (case first_properties [] operands of
             None \<Rightarrow> Inl GoPanic
           | Some sets \<Rightarrow>
               (case check_sets ev obj operands None sets of
                  Inl err \<Rightarrow> Inl err
                | Inr vp \<Rightarrow>
                    (case ac1_VirtualParameter (ru1_Actions obj) of
                       Some a \<Rightarrow> if vp = None then map_sum id Some (createVirtualParameterAction ev a [] [] [] operands) else Inr vp
                     | None \<Rightarrow> Inr vp))))"

definition notifying_actions :: "rule_env \<Rightarrow> v1_Action \<Rightarrow> go_error + (ActionType, Actioner option) smap" where
  "notifying_actions ev as =
     (case createEmailAction ev (ac1_Email as) new_notifyServer of
        (_, Inl err) \<Rightarrow> Inl err
      | (ns, Inr email) \<Rightarrow>
          (case createWeComAction ev (ac1_WeCom as) ns of
             (_, Inl err) \<Rightarrow> Inl err
           | (ns, Inr weCom) \<Rightarrow>
               (case createWeChatAction ev (ac1_WeChat as) ns of
                  (_, Inl err) \<Rightarrow> Inl err
                | (_, Inr weChat) \<Rightarrow> Inr [(ActionTypeEmail, email), (ActionTypeWeCom, weCom), (ActionTypeWeChat, weChat)])))"

definition entry :: "ActionType \<Rightarrow> Actioner option \<Rightarrow> (ActionType, Actioner option) smap" where
  "entry k a = (case a of None \<Rightarrow> [] | Some a \<Rightarrow> [(k, Some a)])"

definition rule_actions :: "rule_env \<Rightarrow> v1_Rule \<Rightarrow> go_error + (ActionType, Actioner option) smap" where
  "rule_actions ev obj =
     (case virtual_parameter ev obj of
        Inl err \<Rightarrow> Inl err
      | Inr vp \<Rightarrow>
          (case createEventAction (ac1_Event (ru1_Actions obj)) of
             Inl err \<Rightarrow> Inl err
           | Inr event \<Rightarrow>
               (case createWebhookAction ev (ac1_Webhook (ru1_Actions obj)) of
                  Inl err \<Rightarrow> Inl err
                | Inr webhook \<Rightarrow>
                    (case notifying_actions ev (ru1_Actions obj) of
                       Inl err \<Rightarrow> Inl err
                     | Inr ns \<Rightarrow> Inr (entry ActionTypeVirtualParameter vp @ entry ActionTypeEvent event @ entry ActionTypeWebhook webhook @ ns)))))"

subsection \<open>Encoding\<close>

text \<open>The type assertions of \<open>MarshalBinary\<close>: \<open>None\<close> is a failed one, \<open>Some None\<close> a nil pointer, which is not written. The time of the last sending is not exported.\<close>

fun unsent :: "Actioner \<Rightarrow> Actioner" where
  "unsent (VirtualParameter b t ps p) = VirtualParameter (b\<lparr>ba_lastSendAt := 0\<rparr>) t ps p"
| "unsent (EventAction b s d) = EventAction (b\<lparr>ba_lastSendAt := 0\<rparr>) s d"
| "unsent (Webhook b s d as) = Webhook (b\<lparr>ba_lastSendAt := 0\<rparr>) s d as"
| "unsent (Notify b s d as) = Notify (b\<lparr>ba_lastSendAt := 0\<rparr>) s d as"

definition assert_action :: "ActionType \<Rightarrow> Actioner option \<Rightarrow> Actioner option option" where
  "assert_action k v =
     (case (k, v) of
        (ActionTypeVirtualParameter, Some (VirtualParameter b t ps p)) \<Rightarrow> Some v
      | (ActionTypeEvent, Some (EventAction b s d)) \<Rightarrow> Some v
      | (ActionTypeWebhook, Some (Webhook b s d as)) \<Rightarrow> Some v
      | (ActionTypeEmail, Some (Notify b s d as)) \<Rightarrow> Some v
      | (ActionTypeWeCom, Some (Notify b s d as)) \<Rightarrow> Some v
      | (ActionTypeWeChat, Some (Notify b s d as)) \<Rightarrow> Some v
      | (ActionTypeEmail, None) \<Rightarrow> Some None
      | (ActionTypeWeCom, None) \<Rightarrow> Some None
      | (ActionTypeWeChat, None) \<Rightarrow> Some None
      | _ \<Rightarrow> None)"

fun MarshalBinary :: "(ActionType, Actioner option) smap \<Rightarrow> (ActionType, Actioner) smap option" where
  "MarshalBinary [] = Some []"
| "MarshalBinary ((k, v) # as) =
     (case (assert_action k v, MarshalBinary as) of
        (Some None, Some as') \<Rightarrow> Some as' | (Some (Some a), Some as') \<Rightarrow> Some ((k, unsent a) # as') | _ \<Rightarrow> None)"

definition stored_rule :: "(ActionType, Actioner) smap \<Rightarrow> Rule \<Rightarrow> StoredRule" where
  "stored_rule as r = \<lparr>om_Tenant = om_Tenant r, om_Name = om_Name r, om_ID = om_ID r, om_Version = om_Version r, om_ModTime = om_ModTime r, ru_Description = ru_Description r,
     ru_ThingId = ru_ThingId r, ru_RealTime = ru_RealTime r, ru_Active = ru_Active r, ru_Evaluations = ru_Evaluations r, ru_Actions = as\<rparr>"

definition UnmarshalBinary :: "StoredRule \<Rightarrow> Rule" where
  "UnmarshalBinary s = \<lparr>om_Tenant = om_Tenant s, om_Name = om_Name s, om_ID = om_ID s, om_Version = om_Version s, om_ModTime = om_ModTime s, ru_Description = ru_Description s,
     ru_ThingId = ru_ThingId s, ru_RealTime = ru_RealTime s, ru_Active = ru_Active s, ru_Evaluations = ru_Evaluations s, ru_Actions = map (\<lambda>(k, a). (k, Some a)) (ru_Actions s)\<rparr>"

subsection \<open>The manager\<close>

abbreviation rules_resource :: string where "rules_resource \<equiv> ''rules''"

text \<open>\<open>rm_pending\<close> has an entry for each goroutine that deactivates a rule; \<open>rm_gone\<close> are rules that only such a goroutine holds.\<close>

record rule_manager =
  rm_rules :: "Rule cache"
  rm_files :: "StoredRule files"
  rm_pending :: "string list"
  rm_gone :: "Rule cache"

text \<open>What a request ends with: an answer, the nil rule without an error, an error, or the end of the process by a panic in the goroutine of the store.\<close>

datatype rule_answer = Answered Rule | AnsweredNil | Refused go_error | ProcessEnds

text \<open>
  The store encodes the rule. When that panics, the file was opened or truncated before: it is left empty. The result is the new version, \<open>None\<close> the end of the process.
\<close>

definition with_encode :: "bool \<Rightarrow> persist_env \<Rightarrow> persist_env" where
  "with_encode b e = e\<lparr>pe_fault := (pe_fault e)\<lparr>flt_encode := b\<rparr>\<rparr>"

definition persist_rule :: "persist_env \<Rightarrow> StoredRule files \<Rightarrow> Rule \<Rightarrow> StoredRule files \<times> (go_error + string option) option" where
  "persist_rule e fs r =
     (case MarshalBinary (ru_Actions r) of
        Some as \<Rightarrow> (case Store_persist rules_resource e fs (stored_rule as r) of (fs, res) \<Rightarrow> (fs, Some (map_sum id (map_option om_Version) res)))
      | None \<Rightarrow>
          (case Store_persist rules_resource (with_encode False e) fs (stored_rule [] r) of
             (_, Inr (Some _)) \<Rightarrow> (fst (Store_persist rules_resource (with_encode True e) fs (stored_rule [] r)), None)
           | (fs, res) \<Rightarrow> (fs, Some (map_sum id (map_option om_Version) res))))"

record rule_filter =
  rf_Tenant :: string
  rf_ThingId :: string

definition rule_parseFilter :: "rule_filter \<Rightarrow> (Rule \<Rightarrow> bool) list" where
  "rule_parseFilter f = (\<lambda>r. rf_Tenant f = om_Tenant r) # (if rf_ThingId f \<noteq> [] then [\<lambda>r. rf_ThingId f = ru_ThingId r] else [])"

definition GetRules :: "rule_manager \<Rightarrow> rule_filter \<Rightarrow> Rule list" where
  "GetRules m f = list_matching (rule_parseFilter f) (rm_rules m)"

definition GetRuleById :: "rule_manager \<Rightarrow> string \<Rightarrow> go_error + Rule" where
  "GetRuleById m i = (case cache_load (rm_rules m) i of None \<Rightarrow> Inl ErrNotExist | Some r \<Rightarrow> Inr r)"

text \<open>After a failing write the error of the last check is returned, which is nil.\<close>

definition new_rule :: "time \<Rightarrow> string \<Rightarrow> nat \<Rightarrow> v1_Rule \<Rightarrow> Evaluation \<Rightarrow> (ActionType, Actioner option) smap \<Rightarrow> Rule" where
  "new_rule now uuid seed obj e as =
     \<lparr>om_Tenant = GetTenant, om_Name = TrimSpace (ru1_Name obj), om_ID = uuid, om_Version = FormatInt (int seed), om_ModTime = now, ru_Description = ru1_Description obj,
      ru_ThingId = ru1_ThingId obj, ru_RealTime = ru1_RealTime obj, ru_Active = ru1_Active obj, ru_Evaluations = [e], ru_Actions = as\<rparr>"

definition CreateRule :: "rule_env \<Rightarrow> persist_env \<Rightarrow> time \<Rightarrow> string \<Rightarrow> nat \<Rightarrow> rule_manager \<Rightarrow> v1_Rule \<Rightarrow> rule_manager \<times> rule_answer" where
  "CreateRule ev e now uuid seed m obj =
     (case rule_actions ev obj of
        Inl err \<Rightarrow> (m, Refused err)
      | Inr as \<Rightarrow>
          let rr = new_rule now uuid seed obj (hd (ru1_Evaluations obj)) as in
          (case persist_rule e (rm_files m) rr of
             (fs, None) \<Rightarrow> (m\<lparr>rm_files := fs\<rparr>, ProcessEnds)
           | (fs, Some (Inl _)) \<Rightarrow> (m\<lparr>rm_files := fs\<rparr>, AnsweredNil)
           | (fs, Some (Inr v)) \<Rightarrow>
               let rr = (case v of None \<Rightarrow> rr | Some v \<Rightarrow> rr\<lparr>om_Version := v\<rparr>) in
               (m\<lparr>rm_rules := cache_store uuid rr (rm_rules m), rm_files := fs\<rparr>, Answered rr)))"

text \<open>\<open>old\<close> is a copy of the cached rule.\<close>

definition UpdateRule :: "rule_env \<Rightarrow> persist_env \<Rightarrow> time \<Rightarrow> rule_manager \<Rightarrow> string \<Rightarrow> v1_Rule \<Rightarrow> Rule \<Rightarrow> rule_manager \<times> rule_answer" where
  "UpdateRule ev e now m version obj old =
     (if version \<noteq> om_Version old then (m, Refused ErrMismatch)
      else case rule_actions ev obj of
        Inl err \<Rightarrow> (m, Refused err)
      | Inr as \<Rightarrow>
          (case ru_Evaluations old of
             [] \<Rightarrow> (m, Refused GoPanic)
           | _ # es \<Rightarrow>
               let old = old\<lparr>om_Name := ru1_Name obj, om_ModTime := now, ru_Description := ru1_Description obj, ru_ThingId := ru1_ThingId obj, ru_RealTime := ru1_RealTime obj,
                             ru_Active := ru1_Active obj, ru_Evaluations := hd (ru1_Evaluations obj) # es, ru_Actions := as\<rparr> in
               (case persist_rule e (rm_files m) old of
                  (fs, None) \<Rightarrow> (m\<lparr>rm_files := fs\<rparr>, ProcessEnds)
                | (fs, Some (Inl err)) \<Rightarrow> (m\<lparr>rm_files := fs\<rparr>, Refused err)
                | (fs, Some (Inr None)) \<Rightarrow> (m\<lparr>rm_files := fs\<rparr>, Refused GoPanic)
                | (fs, Some (Inr (Some v))) \<Rightarrow>
                    let saved = old\<lparr>om_Version := v\<rparr> in
                    (case cache_load (rm_rules m) (om_ID saved) of
                       None \<Rightarrow> (m\<lparr>rm_files := fs\<rparr>, Refused GoPanic)
                     | Some _ \<Rightarrow> (m\<lparr>rm_rules := cache_store (om_ID saved) saved (rm_rules m), rm_files := fs\<rparr>, Answered saved)))))"

definition zero_Rule :: StoredRule where
  "zero_Rule = \<lparr>om_Tenant = [], om_Name = [], om_ID = [], om_Version = [], om_ModTime = 0, ru_Description = None, ru_ThingId = [], ru_RealTime = False, ru_Active = False,
     ru_Evaluations = [], ru_Actions = []\<rparr>"

definition DeleteRule :: "persist_env \<Rightarrow> rule_manager \<Rightarrow> string \<Rightarrow> string \<Rightarrow> rule_manager \<times> rule_answer" where
  "DeleteRule e m i version =
     (case cache_load (rm_rules m) i of
        None \<Rightarrow> (m, Refused ErrNotExist)
      | Some r \<Rightarrow>
          if om_Version r \<noteq> version then (m, Refused ErrMismatch)
          else
            (case Store_persist rules_resource e (rm_files m) (zero_Rule\<lparr>om_ID := om_ID r, om_Version := om_Version r\<rparr>) of
               (fs, Inl err) \<Rightarrow> (m\<lparr>rm_files := fs\<rparr>, Refused err)
             | (fs, Inr _) \<Rightarrow>
                 (m\<lparr>rm_rules := cache_delete i (rm_rules m), rm_files := fs, rm_gone := (if i \<in> set (rm_pending m) then cache_store i r (rm_gone m) else rm_gone m)\<rparr>, Answered r)))"

definition rule_REST_Create where
  "rule_REST_Create render ev e now uuid seed m obj =
     (case ValidateRule ev obj of
        None \<Rightarrow> (m, Refused GoPanic)
      | Some errs \<Rightarrow> (case ValidateFunc render (\<lambda>_. errs) obj of Some err \<Rightarrow> (m, Refused err) | None \<Rightarrow> CreateRule ev e now uuid seed m obj))"

definition rule_REST_Update where
  "rule_REST_Update render ev e now m i version obj =
     (case GetRuleById m i of
        Inl err \<Rightarrow> (m, Refused err)
      | Inr old \<Rightarrow>
          (case ValidateRule ev obj of
             None \<Rightarrow> (m, Refused GoPanic)
           | Some errs \<Rightarrow>
               (case ValidateUpdateFunc render (\<lambda>_. errs) (\<lambda>_ _. []) obj old of Some err \<Rightarrow> (m, Refused err) | None \<Rightarrow> UpdateRule ev e now m version obj old)))"

subsection \<open>Deactivation\<close>

definition deactivateRule :: "rule_manager \<Rightarrow> Rule \<Rightarrow> rule_manager" where
  "deactivateRule m r = m\<lparr>rm_pending := rm_pending m @ [om_ID r]\<rparr>"

text \<open>One attempt of the goroutine; it ends when the store answers without an error. \<open>None\<close> is the end of the process.\<close>

definition deactivate_attempt :: "persist_env \<Rightarrow> rule_manager \<Rightarrow> string \<Rightarrow> rule_manager option" where
  "deactivate_attempt e m i =
     (if i \<notin> set (rm_pending m) then Some m
      else case (case cache_load (rm_rules m) i of None \<Rightarrow> cache_load (rm_gone m) i | Some r \<Rightarrow> Some r) of
        None \<Rightarrow> Some m
      | Some r \<Rightarrow>
          let r = r\<lparr>ru_Active := False\<rparr>;
              put = (\<lambda>r m. if cache_load (rm_rules m) i = None then m\<lparr>rm_gone := cache_store i r (rm_gone m)\<rparr> else m\<lparr>rm_rules := cache_store i r (rm_rules m)\<rparr>) in
          (case persist_rule e (rm_files m) r of
             (fs, None) \<Rightarrow> None
           | (fs, Some (Inl _)) \<Rightarrow>
               Some (put (r\<lparr>om_Version := version_left rules_resource e (rm_files m) (stored_rule [] r)\<rparr>) (m\<lparr>rm_files := fs\<rparr>))
           | (fs, Some (Inr v)) \<Rightarrow>
               Some (put (case v of None \<Rightarrow> r | Some v \<Rightarrow> r\<lparr>om_Version := v\<rparr>) (m\<lparr>rm_files := fs, rm_pending := remove1 i (rm_pending m)\<rparr>))))"

text \<open>The event of a deleted thing.\<close>

definition process_thing :: "rule_manager \<Rightarrow> time \<Rightarrow> string \<Rightarrow> rule_manager" where
  "process_thing m modTime thingId =
     (if time_IsZero modTime then foldl deactivateRule m (GetRules m \<lparr>rf_Tenant = GetTenant, rf_ThingId = thingId\<rparr>) else m)"

text \<open>The rules of the things of a type that lost a property (of those looked at); \<open>None\<close> is a panic.\<close>

fun missing_sets :: "rule_env \<Rightarrow> string \<Rightarrow> Rule \<Rightarrow> (string, string list) smap \<Rightarrow> go_error + Rule list" where
  "missing_sets ev thingId r [] = Inr []"
| "missing_sets ev thingId r ((k, v) # sets) =
     (case getThingProperties ev thingId k of
        Inl err \<Rightarrow> Inl err
      | Inr props \<Rightarrow> map_sum id (\<lambda>rs. map (\<lambda>_. r) (filter (\<lambda>p. cache_load props p = None) v) @ rs) (missing_sets ev thingId r sets))"

fun invalid_rules :: "rule_env \<Rightarrow> (string \<times> Rule) list \<Rightarrow> go_error + Rule list" where
  "invalid_rules ev [] = Inr []"
| "invalid_rules ev ((thingId, r) # rs) =
     (case ru_Evaluations r of
        [] \<Rightarrow> Inl GoPanic
      | e # _ \<Rightarrow>
          (case first_properties [] (parsed_operands ev (el_Expression e)) of
             None \<Rightarrow> Inl GoPanic
           | Some sets \<Rightarrow>
               (case missing_sets ev thingId r sets of
                  Inl err \<Rightarrow> Inl err
                | Inr xs \<Rightarrow> map_sum id (\<lambda>ys. xs @ ys) (invalid_rules ev rs))))"

definition validateRules :: "rule_env \<Rightarrow> rule_manager \<Rightarrow> string \<Rightarrow> rule_manager \<times> go_error option" where
  "validateRules ev m thingTypeId =
     (case getThings ev thingTypeId of
        Inl err \<Rightarrow> (m, Some err)
      | Inr ts \<Rightarrow>
          (case invalid_rules ev (concat (map (\<lambda>t. map (\<lambda>r. (t, r)) (GetRules m \<lparr>rf_Tenant = GetTenant, rf_ThingId = t\<rparr>)) ts)) of
             Inl err \<Rightarrow> (m, Some err)
           | Inr rs \<Rightarrow> (foldl deactivateRule m rs, None)))"

text \<open>
  The event of a changed thing type: the attempts in the given environments, one per second. Only an attempt that does not find the version of the event counts; one whose check fails is
  repeated without a bound. A panic here ends the process.
\<close>

datatype type_event = StillWaiting | TypeHandled rule_manager | TypeCrashed

fun process_thing_type :: "rule_manager \<Rightarrow> string \<Rightarrow> string \<Rightarrow> nat \<Rightarrow> rule_env list \<Rightarrow> type_event" where
  "process_thing_type m i version left [] = StillWaiting"
| "process_thing_type m i version left (ev # evs) =
     (if left = 0 then TypeHandled m
      else case getThingTypeVersion ev i of
        Inl _ \<Rightarrow> process_thing_type m i version (left - 1) evs
      | Inr v \<Rightarrow>
          if v \<noteq> version then process_thing_type m i version (left - 1) evs
          else case validateRules ev m i of
            (m', None) \<Rightarrow> TypeHandled m'
          | (_, Some err) \<Rightarrow> if err = GoPanic then TypeCrashed else process_thing_type m i version left evs)"

definition thing_type_event :: "rule_manager \<Rightarrow> time \<Rightarrow> string \<Rightarrow> string \<Rightarrow> rule_env list \<Rightarrow> type_event" where
  "thing_type_event m modTime i version evs = (if time_IsZero modTime then TypeHandled m else process_thing_type m i version 3 evs)"

definition rule_load :: "StoredRule files \<Rightarrow> rule_manager" where
  "rule_load fs = \<lparr>rm_rules = foldl (\<lambda>m r. cache_store (om_ID r) (UnmarshalBinary r) m) [] (LoadResource rules_resource fs), rm_files = fs, rm_pending = [], rm_gone = []\<rparr>"

text \<open>A service that only watches the rules.\<close>

definition rule_processEvent :: "Rule cache \<Rightarrow> Rule \<Rightarrow> Rule cache" where
  "rule_processEvent c r = (if time_IsZero (om_ModTime r) then cache_delete (om_ID r) c else cache_store (om_ID r) r c)"

end
