(* ===== verification/Realtime.thy ===== *)
theory Realtime
  imports Rules
begin

text \<open>
  The evaluation of rules on incoming values (\<open>src/pkg/data/realtimecomputation\<close>): the expressions by thing and property set that the collector keeps from the watch events of rules, the
  data handed to the PromQL engine, and the actions sent. The engine itself is an argument.
\<close>

subsection \<open>Actions\<close>

fun base_action :: "Actioner \<Rightarrow> BaseAction" where
  "base_action (VirtualParameter b t ps p) = b"
| "base_action (EventAction b s d) = b"
| "base_action (Webhook b s d as) = b"
| "base_action (Notify b s d as) = b"

definition IsActive :: "Actioner \<Rightarrow> bool" where "IsActive a = ba_Active (base_action a)"

definition GetInterval :: "Actioner \<Rightarrow> int" where
  "GetInterval a = (case ba_Interval (base_action a) of None \<Rightarrow> 0 | Some d \<Rightarrow> d)"

definition GetLastSendAt :: "Actioner \<Rightarrow> time" where "GetLastSendAt a = ba_lastSendAt (base_action a)"

definition hasActiveAction :: "StoredRule \<Rightarrow> bool" where
  "hasActiveAction r = list_ex (\<lambda>(k, a). IsActive a) (ru_Actions r)"

definition MaxDuration :: int where "MaxDuration = 2 ^ 63 - 1"

definition min_interval :: "(ActionType, Actioner) smap \<Rightarrow> int" where
  "min_interval as =
     (if (case cache_load as ActionTypeVirtualParameter of None \<Rightarrow> False | Some vp \<Rightarrow> IsActive vp) then 0
      else foldl (\<lambda>m (k, a). if IsActive a \<and> m > GetInterval a then GetInterval a else m) MaxDuration as)"

subsection \<open>The expressions of the rules\<close>

record Expression =
  ex_RuleId :: string
  ex_RuleName :: string
  ex_Expr :: string
  ex_Properties :: "string list"
  ex_Actions :: "(ActionType, Actioner) smap"
  ex_MinInterval :: int
  ex_EvaluationTimestamp :: time

record realtime =
  rt_Rules :: "(string, Expression list) smap"
  rt_enabled :: "(string, unit) smap"

text \<open>The properties by property set; \<open>None\<close>: an operand is not a property set and a property.\<close>

fun all_properties :: "(string, string list) smap \<Rightarrow> string list \<Rightarrow> (string, string list) smap option" where
  "all_properties m [] = Some m"
| "all_properties m (op # ops) =
     (case split_at OperandUS op of
        [ps, p] \<Rightarrow> all_properties (cache_store ps ((case cache_load m ps of None \<Rightarrow> [] | Some xs \<Rightarrow> xs) @ [p]) m) ops
      | _ \<Rightarrow> None)"

definition usable :: "StoredRule \<Rightarrow> bool" where
  "usable r = (ru_Active r \<and> ru_RealTime r \<and> hasActiveAction r)"

text \<open>The parsed expression and the properties of a rule, if both are legal.\<close>

definition rule_sets :: "rule_env \<Rightarrow> Evaluation \<Rightarrow> (string \<times> (string, string list) smap) option" where
  "rule_sets ev e = (case Parse ev (el_Expression e) of None \<Rightarrow> None | Some (expr, ops) \<Rightarrow> map_option (\<lambda>sets. (expr, sets)) (all_properties [] ops))"

definition new_expression :: "StoredRule \<Rightarrow> string \<Rightarrow> string list \<Rightarrow> Expression" where
  "new_expression r expr v =
     \<lparr>ex_RuleId = om_ID r, ex_RuleName = om_Name r, ex_Expr = expr, ex_Properties = v, ex_Actions = ru_Actions r, ex_MinInterval = min_interval (ru_Actions r), ex_EvaluationTimestamp = 0\<rparr>"

definition exprs_at :: "(string, Expression list) smap \<Rightarrow> string \<Rightarrow> Expression list" where
  "exprs_at m k = (case cache_load m k of None \<Rightarrow> [] | Some xs \<Rightarrow> xs)"

text \<open>Operations on rules return \<open>None\<close> where a rule without an evaluation is an index out of range, which ends the process.\<close>

definition onRuleReceived :: "rule_env \<Rightarrow> realtime \<Rightarrow> StoredRule \<Rightarrow> realtime option" where
  "onRuleReceived ev rt r =
     (if \<not> usable r then Some rt
      else case ru_Evaluations r of
        [] \<Rightarrow> None
      | e # _ \<Rightarrow>
          (case rule_sets ev e of
             None \<Rightarrow> Some rt
           | Some (expr, sets) \<Rightarrow>
               Some \<lparr>rt_Rules = foldl (\<lambda>m (k, v). let key = filepath_Join (ru_ThingId r) k in cache_store key (exprs_at m key @ [new_expression r expr v]) m) (rt_Rules rt) sets,
                     rt_enabled = cache_store (om_ID r) () (rt_enabled rt)\<rparr>))"

text \<open>The loop that removes the expressions of a rule: the last one takes the place of a removed one.\<close>

function drop_rule :: "nat \<Rightarrow> string \<Rightarrow> Expression list \<Rightarrow> Expression list" where
  "drop_rule i ruleId xs =
     (if i < length xs then if ex_RuleId (xs ! i) = ruleId then drop_rule i ruleId (butlast (xs[i := last xs])) else drop_rule (Suc i) ruleId xs else xs)"
  by pat_completeness auto

termination
  by (relation "measure (\<lambda>(i, r, xs). length xs - i)") auto

declare drop_rule.simps [simp del]

definition getKeysByRuleID :: "realtime \<Rightarrow> string \<Rightarrow> string list" where
  "getKeysByRuleID rt ruleId = map fst (filter (\<lambda>(k, xs). list_ex (\<lambda>x. ex_RuleId x = ruleId) xs) (rt_Rules rt))"

definition put_exprs :: "(string, Expression list) smap \<Rightarrow> string \<Rightarrow> Expression list \<Rightarrow> (string, Expression list) smap" where
  "put_exprs m key xs = (if xs = [] then cache_delete key m else cache_store key xs m)"

definition drop_at :: "string \<Rightarrow> (string, Expression list) smap \<Rightarrow> string \<Rightarrow> (string, Expression list) smap" where
  "drop_at ruleId m key = (case cache_load m key of None \<Rightarrow> m | Some xs \<Rightarrow> put_exprs m key (drop_rule 0 ruleId xs))"

definition onRuleDeleted :: "realtime \<Rightarrow> StoredRule \<Rightarrow> realtime" where
  "onRuleDeleted rt r =
     (if cache_load (rt_enabled rt) (om_ID r) = None then rt
      else \<lparr>rt_Rules = foldl (drop_at (om_ID r)) (rt_Rules rt) (getKeysByRuleID rt (om_ID r)), rt_enabled = cache_delete (om_ID r) (rt_enabled rt)\<rparr>)"

text \<open>All new expressions go to every key of the rule.\<close>

definition add_at :: "Expression list \<Rightarrow> (string, Expression list) smap \<Rightarrow> string \<Rightarrow> (string, Expression list) smap" where
  "add_at news m key = cache_store key (exprs_at m key @ news) m"

definition replace_at :: "string \<Rightarrow> Expression list \<Rightarrow> (string, Expression list) smap \<Rightarrow> string \<Rightarrow> (string, Expression list) smap" where
  "replace_at ruleId news m key = cache_store key (drop_rule 0 ruleId (exprs_at m key) @ news) m"

definition onRuleUpdated :: "rule_env \<Rightarrow> realtime \<Rightarrow> StoredRule \<Rightarrow> realtime option" where
  "onRuleUpdated ev rt r =
     (if \<not> usable r then Some (onRuleDeleted rt r)
      else case ru_Evaluations r of
        [] \<Rightarrow> None
      | e # _ \<Rightarrow>
          (case rule_sets ev e of
             None \<Rightarrow> Some (onRuleDeleted rt r)
           | Some (expr, sets) \<Rightarrow>
               let newExprs = map (\<lambda>(k, v). new_expression r expr v) sets; newKeys = remdups (map (\<lambda>(k, v). filepath_Join (ru_ThingId r) k) sets) in
               (case DifferenceAndIntersectionStrings newKeys (getKeysByRuleID rt (om_ID r)) of
                  (inserts, updates, dels) \<Rightarrow>
                    Some (rt\<lparr>rt_Rules := foldl (drop_at (om_ID r)) (foldl (replace_at (om_ID r) newExprs) (foldl (add_at newExprs) (rt_Rules rt) inserts) updates) dels\<rparr>))))"

definition rt_processEvent :: "rule_env \<Rightarrow> realtime \<Rightarrow> StoredRule \<Rightarrow> realtime option" where
  "rt_processEvent ev rt r =
     (if time_IsZero (om_ModTime r) then Some (onRuleDeleted rt r)
      else if cache_load (rt_enabled rt) (om_ID r) \<noteq> None then onRuleUpdated ev rt r
      else onRuleReceived ev rt r)"

definition rt_Init :: "rule_env \<Rightarrow> StoredRule files \<Rightarrow> realtime option" where
  "rt_Init ev fs = foldl (\<lambda>rt r. Option.bind rt (\<lambda>rt. onRuleReceived ev rt r)) (Some \<lparr>rt_Rules = [], rt_enabled = []\<rparr>) (LoadResource rules_resource fs)"

subsection \<open>The data of an evaluation\<close>

type_synonym raw = "(time, (string, float64 pvalue) smap) smap"

record rt_env =
  te_rules :: rule_env
  te_engine :: "raw \<Rightarrow> string list \<Rightarrow> string \<Rightarrow> time \<Rightarrow> (int \<times> float64) list"
  te_format :: "time \<Rightarrow> string"
  te_float :: "int \<Rightarrow> float64"
  te_NaN :: float64
  te_values :: "float64 ev_env"

definition getFloat :: "rt_env \<Rightarrow> float64 pvalue \<Rightarrow> float64" where
  "getFloat env v = (case v of PDouble d \<Rightarrow> d | PInt i \<Rightarrow> te_float env i | PBool b \<Rightarrow> te_float env (if b then 1 else 0) | PString _ \<Rightarrow> te_NaN env)"

definition getLatestTimeFromRawData :: "raw \<Rightarrow> time" where
  "getLatestTimeFromRawData raw = foldl (\<lambda>m (k, v). if k > m then k else m) 0 raw"

record series =
  se_i :: string
  se_o :: string
  se_t :: int
  se_v :: float64

text \<open>\<open>None\<close>: an index out of range.\<close>

definition operand_at :: "string list \<Rightarrow> int \<Rightarrow> string option" where
  "operand_at ops i = (if 0 \<le> i \<and> nat i < length ops then Some (ops ! nat i) else None)"

fun select_matcher :: "rt_env \<Rightarrow> raw \<Rightarrow> string list \<Rightarrow> string \<Rightarrow> series list option" where
  "select_matcher env raw ops [] = None"
| "select_matcher env raw ops (c # operand) =
     (if raw = [] then Some []
      else map_option (\<lambda>op.
        map (\<lambda>(i, (k, v)). \<lparr>se_i = FormatInt (int i), se_o = c # operand, se_t = trunc_quot (wrap64 (k - time_of_Unix 0)) 1000000, se_v = getFloat env v\<rparr>)
          (enumerate 0 (List.map_filter (\<lambda>(k, fs). map_option (\<lambda>v. (k, v)) (cache_load fs op)) raw)))
      (operand_at ops (Atoi_val operand)))"

definition stream_Select :: "rt_env \<Rightarrow> raw \<Rightarrow> string list \<Rightarrow> string list \<Rightarrow> series list option" where
  "stream_Select env raw ops matchers = map_option concat (those (map (select_matcher env raw ops) matchers))"

subsection \<open>Evaluation\<close>

datatype sent = SentPoint "float64 point" | SentEvent v1_StandardEvent | SentMessage v1_Message | SentNothing

definition actionType2ChannelType :: "ActionType \<Rightarrow> ChannelType" where
  "actionType2ChannelType k =
     (case k of ActionTypeEmail \<Rightarrow> ChannelTypeEmail | ActionTypeWebhook \<Rightarrow> ChannelTypeWebhook | ActionTypeWeCom \<Rightarrow> ChannelTypeWeCom | ActionTypeWeChat \<Rightarrow> ChannelTypeWeChat | _ \<Rightarrow> ChannelTypeNone)"

definition StandardEventSeverity :: "int \<Rightarrow> string" where
  "StandardEventSeverity n = (if n = 20 then ''Critical'' else if n = 30 then ''Error'' else if n = 40 then ''Warning'' else if n = 50 then ''Information'' else [])"

fun action_Send :: "rt_env \<Rightarrow> Actioner \<Rightarrow> ChannelType \<Rightarrow> string \<Rightarrow> string \<Rightarrow> time \<Rightarrow> float64 \<Rightarrow> sent" where
  "action_Send env (VirtualParameter b t ps p) ct thingId ruleName ts v = SentPoint (SaveOrUpdateVirtualParameter 0 (te_values env) t ps p ts v)"
| "action_Send env (EventAction b s d) ct thingId ruleName ts v =
     SentEvent \<lparr>be_Id = [], be_TypeId = [], be_CorrelationId = [], be_Time = te_format env ts, be_ThingId = thingId, se_Severity = s, se_Description = d, se_Code = [],
       se_Source = ''Rule/'' @ ruleName, se_Acknowledged = False\<rparr>"
| "action_Send env (Webhook b s d as) ct thingId ruleName ts v = SentNothing"
| "action_Send env (Notify b s d as) ct thingId ruleName ts v =
     SentMessage \<lparr>ms_Channel = ct, ms_Subject = ''['' @ StandardEventSeverity s @ ''] '' @ ruleName, ms_From = [],
       ms_Payload = [(''content'', JString d), (''thingId'', JString thingId), (''evaluationValue'', JNumber v), (''fireAt'', JString (te_format env ts)),
         (''severity'', JNumber (te_float env s)), (''ruleName'', JString ruleName)],
       ms_To = as, ms_TemplateId = []\<rparr>"

definition due_action :: "time \<Rightarrow> Actioner \<Rightarrow> bool" where
  "due_action now a = (IsActive a \<and> GetLastSendAt a + GetInterval a < now)"

definition evaluation_sends :: "rt_env \<Rightarrow> time \<Rightarrow> string \<Rightarrow> raw \<Rightarrow> Expression \<Rightarrow> sent list" where
  "evaluation_sends env now key raw x =
     concat (map (\<lambda>(t, v). map (\<lambda>(k, a). action_Send env a (actionType2ChannelType k) (hd (split_at (CHR ''/'') key)) (ex_RuleName x) (time_of_Unix 0 + wrap64 (t * 1000000)) v)
         (filter (\<lambda>(k, a). due_action now a) (ex_Actions x)))
       (te_engine env raw (ex_Properties x) (ex_Expr x) (getLatestTimeFromRawData raw)))"

definition too_early :: "time \<Rightarrow> Expression \<Rightarrow> bool" where
  "too_early now x = (ex_EvaluationTimestamp x + ex_MinInterval x > now)"

text \<open>The expressions are evaluated by goroutines; here one after the other, at one time.\<close>

definition Evaluate :: "rt_env \<Rightarrow> time \<Rightarrow> realtime \<Rightarrow> string \<Rightarrow> raw \<Rightarrow> realtime \<times> sent list" where
  "Evaluate env now rt key raw =
     (case cache_load (rt_Rules rt) key of
        None \<Rightarrow> (rt, [])
      | Some xs \<Rightarrow>
          (rt\<lparr>rt_Rules := cache_store key (map (\<lambda>x. if too_early now x then x else x\<lparr>ex_EvaluationTimestamp := now\<rparr>) xs) (rt_Rules rt)\<rparr>,
           concat (map (\<lambda>x. if too_early now x then [] else evaluation_sends env now key raw x) xs)))"

text \<open>The collector evaluates the rules of a property set on the data that it has written.\<close>

definition collect_and_evaluate :: "rt_env \<Rightarrow> time \<Rightarrow> realtime \<Rightarrow> thing_manager \<Rightarrow> string \<Rightarrow> string \<Rightarrow> (string, json) smap list \<Rightarrow> realtime \<times> (go_error + float64 point list \<times> sent list)" where
  "collect_and_evaluate env now rt tm thingId psName data =
     (case property_set tm thingId psName of
        Inl err \<Rightarrow> (rt, Inl err)
      | Inr (t, pst) \<Rightarrow>
          (case raw_data 0 (te_values env) (pst_Properties pst) data [] of
             Inl err \<Rightarrow> (rt, Inl err)
           | Inr raw \<Rightarrow>
               (case Evaluate env now rt (filepath_Join thingId psName) raw of
                  (rt', ss) \<Rightarrow> (rt', Inr (map (series_point pst thingId psName) raw, ss)))))"

end
