(* ===== verification/Notification_Properties.thy ===== *)
theory Notification_Properties
  imports Notifications Event_Properties
begin

text \<open>What holds of the notification service over sequences of requests, of messages and of its configuration, and what goes wrong.\<close>

subsection \<open>References of templates\<close>

definition tmpl_refs :: "notifications \<Rightarrow> bool" where
  "tmpl_refs m \<longleftrightarrow> cache_ok (nf_tmpls m) \<and>
     (\<forall>k t. cache_load (nf_tmpls m) k = Some t \<longrightarrow> om_ID t = k \<and>
        (\<forall>i\<in>set (tm_Recipients t). cache_load (nf_recipients m) i \<noteq> None) \<and> (\<forall>i\<in>set (tm_MessageTemplates t). cache_load (nf_msgs m) i \<noteq> None))"

lemma tmpl_refsI:
  assumes "cache_ok (nf_tmpls m)"
    "\<And>k t. cache_load (nf_tmpls m) k = Some t \<Longrightarrow> om_ID t = k \<and>
       (\<forall>i\<in>set (tm_Recipients t). cache_load (nf_recipients m) i \<noteq> None) \<and> (\<forall>i\<in>set (tm_MessageTemplates t). cache_load (nf_msgs m) i \<noteq> None)"
  shows "tmpl_refs m"
  using assms by (simp add: tmpl_refs_def)

lemma tmpl_refsD:
  assumes "tmpl_refs m" "cache_load (nf_tmpls m) k = Some t"
  shows "om_ID t = k" "\<forall>i\<in>set (tm_Recipients t). cache_load (nf_recipients m) i \<noteq> None" "\<forall>i\<in>set (tm_MessageTemplates t). cache_load (nf_msgs m) i \<noteq> None"
  using assms by (simp_all add: tmpl_refs_def)

text \<open>More recipients and message templates, and other files, do not matter.\<close>

lemma tmpl_refs_grow:
  assumes "tmpl_refs m" "nf_tmpls m' = nf_tmpls m" "\<And>i. cache_load (nf_recipients m) i \<noteq> None \<Longrightarrow> cache_load (nf_recipients m') i \<noteq> None"
    "\<And>i. cache_load (nf_msgs m) i \<noteq> None \<Longrightarrow> cache_load (nf_msgs m') i \<noteq> None"
  shows "tmpl_refs m'"
  using assms unfolding tmpl_refs_def by metis

lemma tmpl_refs_store:
  assumes "tmpl_refs m" "om_ID t = k" "\<forall>i\<in>set (tm_Recipients t). cache_load (nf_recipients m) i \<noteq> None" "\<forall>i\<in>set (tm_MessageTemplates t). cache_load (nf_msgs m) i \<noteq> None"
    "nf_tmpls m' = cache_store k t (nf_tmpls m)" "nf_recipients m' = nf_recipients m" "nf_msgs m' = nf_msgs m"
  shows "tmpl_refs m'"
proof (rule tmpl_refsI)
  show "cache_ok (nf_tmpls m')" using assms(1,5) by (simp add: tmpl_refs_def)
  show "om_ID t' = k' \<and> (\<forall>i\<in>set (tm_Recipients t'). cache_load (nf_recipients m') i \<noteq> None) \<and> (\<forall>i\<in>set (tm_MessageTemplates t'). cache_load (nf_msgs m') i \<noteq> None)"
    if "cache_load (nf_tmpls m') k' = Some t'" for k' t'
    using that assms tmpl_refsD [OF assms(1), of k' t'] by (cases "k' = k") simp_all
qed

text \<open>Templates lose references.\<close>

lemma strip_fold:
  assumes f: "\<And>t. om_ID (f t) = om_ID t"
  shows "distinct (map om_ID ts) \<Longrightarrow> \<forall>t\<in>set ts. cache_load (nf_tmpls m) (om_ID t) = Some t \<Longrightarrow> cache_ok (nf_tmpls m) \<Longrightarrow>
    nf_recipients (foldl (strip_template es f none) m ts) = nf_recipients m \<and> nf_msgs (foldl (strip_template es f none) m ts) = nf_msgs m \<and>
    cache_ok (nf_tmpls (foldl (strip_template es f none) m ts)) \<and>
    (\<forall>k t'. cache_load (nf_tmpls (foldl (strip_template es f none) m ts)) k = Some t' \<longrightarrow>
       (\<exists>t. cache_load (nf_tmpls m) k = Some t \<and> t' = (if k \<in> om_ID ` set ts then f t else t)))"
proof (induction ts arbitrary: m)
  case (Cons t ts)
  define m1 where "m1 = strip_template es f none m t"
  have m1: "nf_recipients m1 = nf_recipients m" "nf_msgs m1 = nf_msgs m"
    "nf_tmpls m1 = cache_store (om_ID t) (f t) (nf_tmpls m) \<or> nf_tmpls m1 = cache_delete (om_ID t) (cache_store (om_ID t) (f t) (nf_tmpls m))"
    by (auto simp: m1_def strip_template_def forget_template_def f Let_def split: prod.split sum.split)
  have ok1: "cache_ok (nf_tmpls m1)" using m1(3) Cons.prems(3) by auto
  have load1: "k \<noteq> om_ID t \<Longrightarrow> cache_load (nf_tmpls m1) k = cache_load (nf_tmpls m) k" for k using m1(3) by auto
  have here: "cache_load (nf_tmpls m1) (om_ID t) = Some t' \<Longrightarrow> t' = f t" for t' using m1(3) by auto
  have "om_ID u \<noteq> om_ID t" if "u \<in> set ts" for u using Cons.prems(1) imageI [OF that, of om_ID] by auto
  then have "\<forall>u\<in>set ts. cache_load (nf_tmpls m1) (om_ID u) = Some u" using Cons.prems(2) load1 by simp
  from Cons.IH [OF _ this ok1] Cons.prems(1) have IH: "nf_recipients (foldl (strip_template es f none) m1 ts) = nf_recipients m1" "nf_msgs (foldl (strip_template es f none) m1 ts) = nf_msgs m1"
    "cache_ok (nf_tmpls (foldl (strip_template es f none) m1 ts))"
    "\<And>k t'. cache_load (nf_tmpls (foldl (strip_template es f none) m1 ts)) k = Some t' \<Longrightarrow> \<exists>u. cache_load (nf_tmpls m1) k = Some u \<and> t' = (if k \<in> om_ID ` set ts then f u else u)"
    by simp_all
  have "\<exists>u. cache_load (nf_tmpls m) k = Some u \<and> t' = (if k \<in> om_ID ` set (t # ts) then f u else u)"
    if at_k: "cache_load (nf_tmpls (foldl (strip_template es f none) m1 ts)) k = Some t'" for k t'
  proof -
    obtain u where u: "cache_load (nf_tmpls m1) k = Some u" "t' = (if k \<in> om_ID ` set ts then f u else u)" using IH(4) [OF at_k] by blast
    show ?thesis
    proof (cases "k = om_ID t")
      case True
      then have "k \<notin> om_ID ` set ts" using Cons.prems(1) by auto
      then show ?thesis using True u here [of u] Cons.prems(2) by simp
    next
      case False
      then show ?thesis using u load1 [of k] by simp
    qed
  qed
  then show ?case using IH m1 by (simp add: m1_def)
qed simp

lemma cached_ids:
  assumes "tmpl_refs m"
  shows "distinct (map om_ID (filter P (cache_values (nf_tmpls m))))" "\<forall>t\<in>set (filter P (cache_values (nf_tmpls m))). cache_load (nf_tmpls m) (om_ID t) = Some t"
proof -
  have ok: "cache_ok (nf_tmpls m)" using assms by (simp add: tmpl_refs_def)
  have id: "om_ID t = k \<and> cache_load (nf_tmpls m) k = Some t" if "(k, t) \<in> set (nf_tmpls m)" for k t
    using cache_load_of_set [OF ok that] tmpl_refsD(1) [OF assms] by blast
  then have "map om_ID (cache_values (nf_tmpls m)) = map fst (nf_tmpls m)" by (auto simp: cache_values_def)
  then have "distinct (map om_ID (cache_values (nf_tmpls m)))" using ok by (simp add: cache_ok_def)
  then show "distinct (map om_ID (filter P (cache_values (nf_tmpls m))))" by (rule distinct_map_filter)
  show "\<forall>t\<in>set (filter P (cache_values (nf_tmpls m))). cache_load (nf_tmpls m) (om_ID t) = Some t" using id by (fastforce simp: cache_values_set)
qed

lemma strip_references:
  fixes es none m m1 f g i
  assumes ok: "tmpl_refs m" and m1: "nf_tmpls m1 = nf_tmpls m" and f: "\<And>t. om_ID (f t) = om_ID t" "\<And>t. g (f t) = filter (\<lambda>j. j \<noteq> i) (g t)"
  defines "m' \<equiv> foldl (strip_template es f none) m1 (filter (\<lambda>t. i \<in> set (g t)) (cache_values (nf_tmpls m1)))"
  shows "nf_recipients m' = nf_recipients m1" "nf_msgs m' = nf_msgs m1" "cache_ok (nf_tmpls m')"
    "cache_load (nf_tmpls m') k = Some t' \<Longrightarrow> \<exists>t. cache_load (nf_tmpls m) k = Some t \<and> (t' = t \<or> t' = f t) \<and> i \<notin> set (g t')"
proof -
  let ?ts = "filter (\<lambda>t. i \<in> set (g t)) (cache_values (nf_tmpls m))"
  have cok: "cache_ok (nf_tmpls m)" using ok by (simp add: tmpl_refs_def)
  have S: "nf_recipients m' = nf_recipients m1" "nf_msgs m' = nf_msgs m1" "cache_ok (nf_tmpls m')"
    "\<And>k t'. cache_load (nf_tmpls m') k = Some t' \<Longrightarrow> \<exists>t. cache_load (nf_tmpls m) k = Some t \<and> t' = (if k \<in> om_ID ` set ?ts then f t else t)"
    using strip_fold [where f = f and m = m1 and ts = ?ts and es = es and none = none, OF f(1)] cached_ids [OF ok] cok unfolding m'_def m1 by simp_all
  then show "nf_recipients m' = nf_recipients m1" "nf_msgs m' = nf_msgs m1" "cache_ok (nf_tmpls m')" by simp_all
  assume "cache_load (nf_tmpls m') k = Some t'"
  then obtain t where t: "cache_load (nf_tmpls m) k = Some t" "t' = (if k \<in> om_ID ` set ?ts then f t else t)" using S(4) by blast
  have "i \<notin> set (g t')"
  proof (cases "i \<in> set (g t)")
    case True
    then have "t \<in> set ?ts" using cache_load_in_set [OF t(1)] by (force simp: cache_values_set)
    then have "k \<in> om_ID ` set ?ts" using tmpl_refsD(1) [OF ok t(1)] by blast
    then show ?thesis using t(2) f(2) by simp
  next
    case False
    then show ?thesis using t(2) f(2) by simp
  qed
  with t show "\<exists>t. cache_load (nf_tmpls m) k = Some t \<and> (t' = t \<or> t' = f t) \<and> i \<notin> set (g t')" by (auto split: if_splits)
qed

lemma strip_recipient_ok:
  assumes ok: "tmpl_refs m" and m1: "nf_tmpls m1 = nf_tmpls m" "nf_msgs m1 = nf_msgs m" "nf_recipients m1 = cache_delete i (nf_recipients m)"
  shows "tmpl_refs (UpdateTemplateByRecipientDeletion es m1 i)"
proof (rule tmpl_refsI)
  note S = strip_references [where f = "\<lambda>t. t\<lparr>tm_Recipients := filter (\<lambda>j. j \<noteq> i) (tm_Recipients t)\<rparr>" and g = tm_Recipients and i = i and es = es and none = "\<lambda>t. tm_Recipients t = []", OF ok m1(1),
      simplified, folded UpdateTemplateByRecipientDeletion_def]
  show "cache_ok (nf_tmpls (UpdateTemplateByRecipientDeletion es m1 i))" by (rule S(3))
  fix k t' assume "cache_load (nf_tmpls (UpdateTemplateByRecipientDeletion es m1 i)) k = Some t'"
  then obtain t where t: "cache_load (nf_tmpls m) k = Some t" "t' = t \<or> t' = t\<lparr>tm_Recipients := filter (\<lambda>j. j \<noteq> i) (tm_Recipients t)\<rparr>" "i \<notin> set (tm_Recipients t')" using S(4) by blast
  then have "set (tm_Recipients t') \<subseteq> set (tm_Recipients t)" "tm_MessageTemplates t' = tm_MessageTemplates t" "om_ID t' = om_ID t" by auto
  then show "om_ID t' = k \<and> (\<forall>j\<in>set (tm_Recipients t'). cache_load (nf_recipients (UpdateTemplateByRecipientDeletion es m1 i)) j \<noteq> None) \<and>
      (\<forall>j\<in>set (tm_MessageTemplates t'). cache_load (nf_msgs (UpdateTemplateByRecipientDeletion es m1 i)) j \<noteq> None)"
    using tmpl_refsD [OF ok t(1)] t(3) by (auto simp: S(1,2) m1)
qed

lemma strip_message_ok:
  assumes ok: "tmpl_refs m" and m1: "nf_tmpls m1 = nf_tmpls m" "nf_recipients m1 = nf_recipients m" "nf_msgs m1 = cache_delete i (nf_msgs m)"
  shows "tmpl_refs (UpdateTemplateByMessageTmplDeletion es m1 i)"
proof (rule tmpl_refsI)
  note S = strip_references [where f = "\<lambda>t. t\<lparr>tm_MessageTemplates := filter (\<lambda>j. j \<noteq> i) (tm_MessageTemplates t)\<rparr>" and g = tm_MessageTemplates and i = i and es = es
      and none = "\<lambda>t. tm_MessageTemplates t = []", OF ok m1(1), simplified, folded UpdateTemplateByMessageTmplDeletion_def]
  show "cache_ok (nf_tmpls (UpdateTemplateByMessageTmplDeletion es m1 i))" by (rule S(3))
  fix k t' assume "cache_load (nf_tmpls (UpdateTemplateByMessageTmplDeletion es m1 i)) k = Some t'"
  then obtain t where t: "cache_load (nf_tmpls m) k = Some t" "t' = t \<or> t' = t\<lparr>tm_MessageTemplates := filter (\<lambda>j. j \<noteq> i) (tm_MessageTemplates t)\<rparr>" "i \<notin> set (tm_MessageTemplates t')" using S(4) by blast
  then have "set (tm_MessageTemplates t') \<subseteq> set (tm_MessageTemplates t)" "tm_Recipients t' = tm_Recipients t" "om_ID t' = om_ID t" by auto
  then show "om_ID t' = k \<and> (\<forall>j\<in>set (tm_Recipients t'). cache_load (nf_recipients (UpdateTemplateByMessageTmplDeletion es m1 i)) j \<noteq> None) \<and>
      (\<forall>j\<in>set (tm_MessageTemplates t'). cache_load (nf_msgs (UpdateTemplateByMessageTmplDeletion es m1 i)) j \<noteq> None)"
    using tmpl_refsD [OF ok t(1)] t(3) by (auto simp: S(1,2) m1)
qed

subsection \<open>Sequences of requests\<close>

datatype nf_request =
    NfRecipient persist_env time string nat v1_Recipient
  | NfDeleteRecipient persist_env "string \<Rightarrow> persist_env" string string bool
  | NfMessage persist_env time string nat v1_MessageTmpl
  | NfDeleteMessage persist_env "string \<Rightarrow> persist_env" string string bool
  | NfPlaceholders persist_env time string string TemplatePlaceholder
  | NfTemplate persist_env time string nat v1_Template
  | NfDeleteTemplate persist_env string string
  | NfSave persist_env time string
  | NfConfig persist_env time string nat v1_Config
  | NfUpdateConfig persist_env time v1_Config string

fun nf_step :: "(field_error list \<Rightarrow> string) \<Rightarrow> notify_env \<Rightarrow> notifications \<Rightarrow> nf_request \<Rightarrow> notifications" where
  "nf_step render ev m (NfRecipient e now uuid seed obj) = fst (recipient_REST_Create render ev e now uuid seed m obj)"
| "nf_step render ev m (NfDeleteRecipient e es i eTag orphan) = fst (DeleteRecipient e es m i eTag orphan)"
| "nf_step render ev m (NfMessage e now uuid seed obj) = fst (msg_REST_Create render ev e now uuid seed m obj)"
| "nf_step render ev m (NfDeleteMessage e es i eTag orphan) = fst (DeleteMsgTmpl e es m i eTag orphan)"
| "nf_step render ev m (NfPlaceholders e now i version obj) = fst (updatePlaceholders e now m i version obj)"
| "nf_step render ev m (NfTemplate e now uuid seed obj) = fst (tmpl_REST_Create render e now uuid seed m obj)"
| "nf_step render ev m (NfDeleteTemplate e i eTag) = fst (DeleteTmpl e m i eTag)"
| "nf_step render ev m (NfSave e now i) = save_template e now m i"
| "nf_step render ev m (NfConfig e now uuid seed obj) = fst (config_REST_Create render ev e now uuid seed m obj)"
| "nf_step render ev m (NfUpdateConfig e now obj eTag) = fst (config_REST_Update render ev e now m obj eTag)"

text \<open>A goroutine that saves a template is taken to end before the template is deleted.\<close>

fun nf_admissible :: "notifications \<Rightarrow> nf_request \<Rightarrow> bool" where
  "nf_admissible m (NfSave e now i) = (cache_load (nf_tmpls m) i \<noteq> None)"
| "nf_admissible m _ = True"

fun nf_run_admissible :: "(field_error list \<Rightarrow> string) \<Rightarrow> notify_env \<Rightarrow> notifications \<Rightarrow> nf_request list \<Rightarrow> bool" where
  "nf_run_admissible render ev m [] = True"
| "nf_run_admissible render ev m (r # rs) = (nf_admissible m r \<and> nf_run_admissible render ev (nf_step render ev m r) rs)"

lemma tmpl_refs_files [simp]:
  "tmpl_refs (m\<lparr>nf_recipient_files := rfs\<rparr>) = tmpl_refs m" "tmpl_refs (m\<lparr>nf_msg_files := mfs\<rparr>) = tmpl_refs m" "tmpl_refs (m\<lparr>nf_tmpl_files := tfs\<rparr>) = tmpl_refs m"
  "tmpl_refs (m\<lparr>nf_pending := p\<rparr>) = tmpl_refs m" "tmpl_refs (m\<lparr>nf_gone := g\<rparr>) = tmpl_refs m"
  by (simp_all add: tmpl_refs_def)

lemma tmpl_refs_more [simp]:
  "tmpl_refs m \<Longrightarrow> tmpl_refs (m\<lparr>nf_recipients := cache_store k r (nf_recipients m)\<rparr>)" "tmpl_refs m \<Longrightarrow> tmpl_refs (m\<lparr>nf_msgs := cache_store k mt (nf_msgs m)\<rparr>)"
  by (erule tmpl_refs_grow; simp)+

lemma config_keeps_rest:
  "nf_tmpls (fst (config_REST_Create render ev e now uuid seed m obj)) = nf_tmpls m" "nf_recipients (fst (config_REST_Create render ev e now uuid seed m obj)) = nf_recipients m"
  "nf_msgs (fst (config_REST_Create render ev e now uuid seed m obj)) = nf_msgs m" "nf_tmpls (fst (config_REST_Update render ev e now m obj eTag)) = nf_tmpls m"
  "nf_recipients (fst (config_REST_Update render ev e now m obj eTag)) = nf_recipients m" "nf_msgs (fst (config_REST_Update render ev e now m obj eTag)) = nf_msgs m"
  by (auto simp: config_REST_Create_def createConfigs_def config_REST_Update_def updateConfigs_def Let_def split: prod.split sum.split option.split)

lemma create_recipient_ok: "tmpl_refs m \<Longrightarrow> tmpl_refs (fst (createRecipient e now uuid seed m obj))"
  by (simp add: createRecipient_def Let_def split: list.split prod.split sum.split option.split)

lemma create_message_ok: "tmpl_refs m \<Longrightarrow> tmpl_refs (fst (CreateMessageTmpls e now uuid seed m obj))"
  by (simp add: CreateMessageTmpls_def Let_def split: prod.split sum.split option.split)

lemma update_placeholders_ok: "tmpl_refs m \<Longrightarrow> tmpl_refs (fst (updatePlaceholders e now m i v obj))"
  by (simp add: updatePlaceholders_def Let_def split: prod.split sum.split option.split)

lemma create_template_ok:
  assumes "tmpl_refs m"
  shows "tmpl_refs (fst (CreateTmpl e now uuid seed m obj))"
proof -
  let ?m = "fst (CreateTmpl e now uuid seed m obj)"
  have "?m = m \<or> (\<exists>fs. ?m = m\<lparr>nf_tmpl_files := fs\<rparr>) \<or>
      (\<exists>t fs. ?m = m\<lparr>nf_tmpls := cache_store uuid t (nf_tmpls m), nf_tmpl_files := fs\<rparr> \<and> om_ID t = uuid \<and> tm_Recipients t = t1_Recipients obj \<and> tm_MessageTemplates t = t1_MessageTemplates obj \<and>
         (\<forall>i\<in>set (t1_Recipients obj). cache_load (nf_recipients m) i \<noteq> None) \<and> (\<forall>i\<in>set (t1_MessageTemplates obj). cache_load (nf_msgs m) i \<noteq> None))"
    by (auto simp: CreateTmpl_def Let_def GetRecipientById_def GetMessageTmplById_def filter_empty_conv dest!: Store_persist_saved_fields split: prod.split sum.split option.splits)
  then show ?thesis
  proof (elim disjE exE conjE)
    fix t fs
    assume "?m = m\<lparr>nf_tmpls := cache_store uuid t (nf_tmpls m), nf_tmpl_files := fs\<rparr>" "om_ID t = uuid" "tm_Recipients t = t1_Recipients obj" "tm_MessageTemplates t = t1_MessageTemplates obj"
      "\<forall>i\<in>set (t1_Recipients obj). cache_load (nf_recipients m) i \<noteq> None" "\<forall>i\<in>set (t1_MessageTemplates obj). cache_load (nf_msgs m) i \<noteq> None"
    then show ?thesis by (intro tmpl_refs_store [OF assms]) simp_all
  qed (use assms in simp_all)
qed

lemma delete_template_ok:
  assumes "tmpl_refs m"
  shows "tmpl_refs (fst (DeleteTmpl e m i eTag))"
proof -
  let ?m = "fst (DeleteTmpl e m i eTag)"
  have "nf_recipients ?m = nf_recipients m" "nf_msgs ?m = nf_msgs m" "\<exists>k. nf_tmpls ?m = nf_tmpls m \<or> nf_tmpls ?m = cache_delete k (nf_tmpls m)"
    by (auto simp: DeleteTmpl_def forget_template_def split: prod.split sum.split option.split)
  then show ?thesis using assms by (auto simp: tmpl_refs_def split: if_splits)
qed

lemma delete_recipient_ok:
  assumes ok: "tmpl_refs m"
  shows "tmpl_refs (fst (DeleteRecipient e es m i eTag orphan))"
proof -
  let ?m = "fst (DeleteRecipient e es m i eTag orphan)"
  have cases: "?m = m \<or> (\<exists>fs. ?m = m\<lparr>nf_recipient_files := fs\<rparr>) \<or>
      (\<exists>fs. let m1 = m\<lparr>nf_recipients := cache_delete i (nf_recipients m), nf_recipient_files := fs\<rparr> in
        if orphan then ?m = UpdateTemplateByRecipientDeletion es m1 i else ?m = m1 \<and> \<not> IsRecipientReferredByTemplate m i)"
    by (auto simp: DeleteRecipient_def Let_def split: prod.split sum.split option.split)
  have plain: "tmpl_refs (m\<lparr>nf_recipients := cache_delete i (nf_recipients m), nf_recipient_files := fs\<rparr>)" if "\<not> IsRecipientReferredByTemplate m i" for fs
  proof -
    have "i \<notin> set (tm_Recipients t)" if "cache_load (nf_tmpls m) k = Some t" for k t
      using \<open>\<not> IsRecipientReferredByTemplate m i\<close> cache_load_in_set [OF that] by (force simp: IsRecipientReferredByTemplate_def list_ex_iff cache_values_set)
    then show ?thesis using ok unfolding tmpl_refs_def by auto
  qed
  from cases show ?thesis
    using ok plain strip_recipient_ok [OF ok, of "m\<lparr>nf_recipients := cache_delete i (nf_recipients m), nf_recipient_files := _\<rparr>" i es] by (auto simp: Let_def split: if_splits)
qed

lemma delete_message_ok:
  assumes ok: "tmpl_refs m" and id: "\<And>k mt. cache_load (nf_msgs m) k = Some mt \<Longrightarrow> om_ID mt = k"
  shows "tmpl_refs (fst (DeleteMsgTmpl e es m i eTag orphan))"
proof -
  let ?m = "fst (DeleteMsgTmpl e es m i eTag orphan)"
  have cases: "?m = m \<or> (\<exists>fs mt. ?m = m\<lparr>nf_msgs := cache_store i mt (nf_msgs m), nf_msg_files := fs\<rparr>) \<or>
      (\<exists>fs. let m1 = m\<lparr>nf_msgs := cache_delete i (nf_msgs m), nf_msg_files := fs\<rparr> in
        if orphan then ?m = UpdateTemplateByMessageTmplDeletion es m1 i else ?m = m1 \<and> \<not> IsMessageTemplateReferredByTemplate m i)"
    by (auto simp: DeleteMsgTmpl_def Let_def id split: prod.split sum.split option.split)
  have plain: "tmpl_refs (m\<lparr>nf_msgs := cache_delete i (nf_msgs m), nf_msg_files := fs\<rparr>)" if "\<not> IsMessageTemplateReferredByTemplate m i" for fs
  proof -
    have "i \<notin> set (tm_MessageTemplates t)" if "cache_load (nf_tmpls m) k = Some t" for k t
      using \<open>\<not> IsMessageTemplateReferredByTemplate m i\<close> cache_load_in_set [OF that] by (force simp: IsMessageTemplateReferredByTemplate_def list_ex_iff cache_values_set)
    then show ?thesis using ok unfolding tmpl_refs_def by auto
  qed
  from cases show ?thesis
    using ok plain strip_message_ok [OF ok, of "m\<lparr>nf_msgs := cache_delete i (nf_msgs m), nf_msg_files := _\<rparr>" i es] by (auto simp: Let_def split: if_splits)
qed

lemma save_template_ok:
  assumes ok: "tmpl_refs m" and t: "cache_load (nf_tmpls m) i \<noteq> None"
  shows "tmpl_refs (save_template e now m i)"
proof -
  obtain t where t: "cache_load (nf_tmpls m) i = Some t" using t by auto
  note T = tmpl_refsD [OF ok t]
  have store: "tmpl_refs m'" if "nf_tmpls m' = cache_store i t' (nf_tmpls m)"
      "om_ID t' = om_ID t" "tm_Recipients t' = tm_Recipients t" "tm_MessageTemplates t' = tm_MessageTemplates t" "nf_recipients m' = nf_recipients m" "nf_msgs m' = nf_msgs m" for t' m'
    using T that by (intro tmpl_refs_store [OF ok, of t' i]) simp_all
  have stored: "tmpl_refs (m\<lparr>nf_tmpl_files := fs, nf_tmpls := cache_store i t' (nf_tmpls m)\<rparr>)"
      "tmpl_refs (m\<lparr>nf_tmpl_files := fs, nf_tmpls := cache_store i t' (nf_tmpls m), nf_pending := p, nf_gone := g\<rparr>)"
    if "om_ID t' = om_ID t" "tm_Recipients t' = tm_Recipients t" "tm_MessageTemplates t' = tm_MessageTemplates t" for t' fs p g
    by (rule store [OF _ that]; simp)+
  show ?thesis
  proof (cases "i \<in> set (nf_pending m)")
    case True
    show ?thesis
    proof (cases "Store_persist templates_resource e (nf_tmpl_files m) t")
      case (Pair fs r)
      then show ?thesis
        using True t Store_persist_saved_fields [of templates_resource e "nf_tmpl_files m" t fs]
        by (auto simp: save_template_def Let_def split: sum.split option.split intro!: stored)
    qed
  qed (simp add: save_template_def ok)
qed

definition msg_ids_ok :: "notifications \<Rightarrow> bool" where
  "msg_ids_ok m \<longleftrightarrow> (\<forall>k mt. cache_load (nf_msgs m) k = Some mt \<longrightarrow> om_ID mt = k)"

lemma strip_fold_msgs: "nf_msgs (foldl (strip_template es f none) m ts) = nf_msgs m"
proof (induction ts arbitrary: m)
  case (Cons t ts)
  have "nf_msgs (strip_template es f none m t) = nf_msgs m" by (auto simp: strip_template_def forget_template_def Let_def split: prod.split sum.split)
  with Cons show ?case by simp
qed simp

lemma msg_ids_step:
  assumes "msg_ids_ok m"
  shows "msg_ids_ok (nf_step render ev m r)"
proof (cases r)
  case (NfRecipient e now uuid seed obj)
  have "nf_msgs (nf_step render ev m r) = nf_msgs m"
    by (auto simp: NfRecipient recipient_REST_Create_def createRecipient_def Let_def split: list.split prod.split sum.split option.split)
  with assms show ?thesis by (simp add: msg_ids_ok_def)
next
  case (NfDeleteRecipient e es i eTag orphan)
  have "nf_msgs (nf_step render ev m r) = nf_msgs m"
    by (auto simp: NfDeleteRecipient DeleteRecipient_def UpdateTemplateByRecipientDeletion_def strip_fold_msgs Let_def split: prod.split sum.split option.split)
  with assms show ?thesis by (simp add: msg_ids_ok_def)
next
  case (NfMessage e now uuid seed obj)
  have "nf_msgs (nf_step render ev m r) = nf_msgs m \<or> (\<exists>mt. nf_msgs (nf_step render ev m r) = cache_store uuid mt (nf_msgs m) \<and> om_ID mt = uuid)"
    by (auto simp: NfMessage msg_REST_Create_def CreateMessageTmpls_def Let_def split: prod.split sum.split option.split intro!: exI conjI [OF refl])
  with assms show ?thesis by (auto simp: msg_ids_ok_def split: if_splits)
next
  case (NfDeleteMessage e es i eTag orphan)
  have "nf_msgs (nf_step render ev m r) = nf_msgs m \<or> nf_msgs (nf_step render ev m r) = cache_delete i (nf_msgs m) \<or>
      (\<exists>mt v. cache_load (nf_msgs m) i = Some mt \<and> nf_msgs (nf_step render ev m r) = cache_store i (mt\<lparr>om_Version := v\<rparr>) (nf_msgs m))"
    by (auto simp: NfDeleteMessage DeleteMsgTmpl_def UpdateTemplateByMessageTmplDeletion_def strip_fold_msgs Let_def split: prod.split sum.split option.split)
  with assms show ?thesis by (auto simp: msg_ids_ok_def split: if_splits)
next
  case (NfPlaceholders e now i v obj)
  have "nf_msgs (nf_step render ev m r) = nf_msgs m \<or>
      (\<exists>mt mt'. cache_load (nf_msgs m) i = Some mt \<and> nf_msgs (nf_step render ev m r) = cache_store i mt' (nf_msgs m) \<and> om_ID mt' = om_ID mt)"
    by (auto simp: NfPlaceholders updatePlaceholders_def Let_def split: prod.split sum.split option.split intro!: disjI2 exI conjI [OF refl])
  with assms show ?thesis by (auto simp: msg_ids_ok_def split: if_splits)
next
  case (NfTemplate e now uuid seed obj)
  have "nf_msgs (nf_step render ev m r) = nf_msgs m"
    by (auto simp: NfTemplate tmpl_REST_Create_def CreateTmpl_def Let_def split: prod.split sum.split option.split)
  with assms show ?thesis by (simp add: msg_ids_ok_def)
next
  case (NfDeleteTemplate e i eTag)
  have "nf_msgs (nf_step render ev m r) = nf_msgs m"
    by (auto simp: NfDeleteTemplate DeleteTmpl_def forget_template_def split: prod.split sum.split option.split)
  with assms show ?thesis by (simp add: msg_ids_ok_def)
next
  case (NfSave e now i)
  have "nf_msgs (nf_step render ev m r) = nf_msgs m"
    by (auto simp: NfSave save_template_def Let_def split: prod.split sum.split option.split)
  with assms show ?thesis by (simp add: msg_ids_ok_def)
qed (use assms in \<open>simp_all add: msg_ids_ok_def config_keeps_rest\<close>)

lemma tmpl_refs_step:
  assumes ok: "tmpl_refs m" and ids: "msg_ids_ok m" and adm: "nf_admissible m r"
  shows "tmpl_refs (nf_step render ev m r)"
proof (cases r)
  case (NfRecipient e now uuid seed obj)
  then show ?thesis using ok create_recipient_ok [OF ok, of e now uuid seed obj] by (simp add: recipient_REST_Create_def split: option.split)
next
  case (NfMessage e now uuid seed obj)
  then show ?thesis using ok create_message_ok [OF ok, of e now uuid seed obj] by (simp add: msg_REST_Create_def split: option.split)
next
  case (NfDeleteMessage e es i eTag orphan)
  then show ?thesis using delete_message_ok [OF ok, of e es i eTag orphan] ids by (simp add: msg_ids_ok_def)
next
  case (NfTemplate e now uuid seed obj)
  then show ?thesis using ok create_template_ok [OF ok, of e now uuid seed obj] by (simp add: tmpl_REST_Create_def split: option.split)
next
  case (NfConfig e now uuid seed obj)
  then show ?thesis using tmpl_refs_grow [OF ok] by (simp add: config_keeps_rest)
next
  case (NfUpdateConfig e now obj eTag)
  then show ?thesis using tmpl_refs_grow [OF ok] by (simp add: config_keeps_rest)
qed (use ok adm in \<open>simp_all add: delete_recipient_ok update_placeholders_ok delete_template_ok save_template_ok\<close>)

lemma tmpl_refs_run: "tmpl_refs m \<Longrightarrow> msg_ids_ok m \<Longrightarrow> nf_run_admissible render ev m rs \<Longrightarrow> tmpl_refs (foldl (nf_step render ev) m rs)"
  by (induction rs arbitrary: m) (simp_all add: tmpl_refs_step msg_ids_step)

definition no_notifications :: notifications where
  "no_notifications = \<lparr>nf_servers = [], nf_server_files = [], nf_recipients = [], nf_recipient_files = [], nf_msgs = [], nf_msg_files = [], nf_tmpls = [], nf_tmpl_files = [], nf_pending = [], nf_gone = []\<rparr>"

text \<open>
  C8: over every sequence of requests for servers, recipients, message templates, placeholders and templates, with and without removal of orphans and with the attempts to save templates, in which no
  template is deleted while it is being saved, every cached template refers to cached recipients and message templates only.
\<close>

theorem templates_never_dangle:
  assumes "nf_run_admissible render ev no_notifications rs" "cache_load (nf_tmpls (foldl (nf_step render ev) no_notifications rs)) k = Some t"
  shows "om_ID t = k \<and> (\<forall>i\<in>set (tm_Recipients t). \<exists>r. GetRecipientById (foldl (nf_step render ev) no_notifications rs) i = Inr r) \<and>
    (\<forall>i\<in>set (tm_MessageTemplates t). \<exists>mt. GetMessageTmplById (foldl (nf_step render ev) no_notifications rs) i True = Inr mt)"
proof -
  have "tmpl_refs no_notifications" "msg_ids_ok no_notifications" by (simp_all add: tmpl_refs_def msg_ids_ok_def no_notifications_def)
  from tmpl_refsD [OF tmpl_refs_run [OF this assms(1)] assms(2)] show ?thesis by (auto simp: GetRecipientById_def GetMessageTmplById_def)
qed

definition sample_notify :: notify_env where
  "sample_notify = \<lparr>ne_IsEmail = (\<lambda>s. CHR 0x40 \<in> set s), ne_IsHostname = (\<lambda>s. s \<noteq> []), ne_url_ok = (\<lambda>s. s \<noteq> []), ne_text_ok = (\<lambda>_. True), ne_html_ok = (\<lambda>_. True), ne_encrypt = (\<lambda>s k. s @ k)\<rparr>"

definition sample_mail :: "string \<Rightarrow> v1_Recipient" where
  "sample_mail n = \<lparr>r1_Name = n, r1_Detail = [\<lparr>ri_Address = ''a@b.c'', ri_Type = ChannelTypeEmail\<rparr>]\<rparr>"

definition sample_note :: v1_MessageTmpl where "sample_note = \<lparr>mt1_Name = ''Note'', mt1_Type = ContentTypeText, mt1_Content = ''hi''\<rparr>"

definition sample_alarm :: v1_Template where
  "sample_alarm = \<lparr>t1_TmplName = ''Alarm'', t1_Subject = ''S'', t1_From = ''me'', t1_Recipients = [''a''], t1_MessageTemplates = [''m'']\<rparr>"

definition sample_servers :: v1_Config where
  "sample_servers = \<lparr>s1_Email = Some \<lparr>sm_Hostname = ''h'', sm_Port = ''25'', sm_Username = ''u@h'', sm_Password = ''p''\<rparr>, s1_WeCom = None, s1_WeChat = None\<rparr>"

text \<open>A mail server, a recipient, a message template and a template that refers to them.\<close>

definition sample_requests :: "nf_request list" where
  "sample_requests = [NfConfig (env_at 1) 2 ''c'' 1 sample_servers, NfRecipient (env_at 1) 3 ''a'' 1 (sample_mail ''Ann''), NfMessage (env_at 1) 4 ''m'' 1 sample_note, NfTemplate (env_at 1) 5 ''t'' 1 sample_alarm]"

lemmas notify_checks = ValidateName_at_def validate_notify_name_def ExcludesAll_def IsStringLengthInRange_def ValidateFunc_def

lemma sample_checks:
  "recipient_REST_Create (\<lambda>_. []) sample_notify e now uuid seed m (sample_mail ''Ann'') = createRecipient e now uuid seed m (sample_mail ''Ann'')"
  "msg_REST_Create (\<lambda>_. []) sample_notify e now uuid seed m sample_note = CreateMessageTmpls e now uuid seed m sample_note"
  "tmpl_REST_Create (\<lambda>_. []) e now uuid seed m sample_alarm = CreateTmpl e now uuid seed m sample_alarm"
  "config_REST_Create (\<lambda>_. []) sample_notify e now uuid seed m sample_servers = createConfigs sample_notify e now uuid seed m sample_servers"
proof -
  have "ValidateRecipient sample_notify (sample_mail ''Ann'') = Some []"
    by (simp add: ValidateRecipient_def sample_mail_def recipientValidators_def sample_notify_def notify_checks)
  then show "recipient_REST_Create (\<lambda>_. []) sample_notify e now uuid seed m (sample_mail ''Ann'') = createRecipient e now uuid seed m (sample_mail ''Ann'')"
    by (simp add: recipient_REST_Create_def ValidateFunc_def)
  have "ValidateMessageTmpl sample_notify sample_note = Some []"
    by (simp add: ValidateMessageTmpl_def sample_note_def sample_notify_def messageTemplateValidators_def replace_placeholders_def placeholders_of_def content_parts.simps List.map_filter_def notify_checks)
  then show "msg_REST_Create (\<lambda>_. []) sample_notify e now uuid seed m sample_note = CreateMessageTmpls e now uuid seed m sample_note"
    by (simp add: msg_REST_Create_def ValidateFunc_def)
  show "tmpl_REST_Create (\<lambda>_. []) e now uuid seed m sample_alarm = CreateTmpl e now uuid seed m sample_alarm"
    by (simp add: tmpl_REST_Create_def ValidateTemplate_def sample_alarm_def notify_checks)
  show "config_REST_Create (\<lambda>_. []) sample_notify e now uuid seed m sample_servers = createConfigs sample_notify e now uuid seed m sample_servers"
    by (simp add: config_REST_Create_def ValidateServerConfig_def validateEmailServerConfig_def validateWeComConfig_def validateWeChatConfig_def sample_servers_def sample_notify_def IsNumber_def is_digit_def
        ValidateFunc_def)
qed

definition sample_notifications :: notifications where
  "sample_notifications =
     (let m = fst (createConfigs sample_notify (env_at 1) 2 ''c'' 1 no_notifications sample_servers); m = fst (createRecipient (env_at 1) 3 ''a'' 1 m (sample_mail ''Ann'')); m = fst (CreateMessageTmpls (env_at 1) 4 ''m'' 1 m sample_note) in
      fst (CreateTmpl (env_at 1) 5 ''t'' 1 m sample_alarm))"

lemma sample_requests_run:
  "foldl (nf_step (\<lambda>_. []) sample_notify) no_notifications sample_requests = sample_notifications" "nf_run_admissible (\<lambda>_. []) sample_notify no_notifications sample_requests"
  by (simp_all add: sample_requests_def sample_notifications_def sample_checks)

lemmas store_evaluation = Store_persist_def FsClient_Get_def FsClient_Create_def env_at_def no_fault_def time_IsZero_def cache_load_def cache_values_def list_matching_def

lemma sample_template: "map_option tm_Recipients (cache_load (nf_tmpls sample_notifications) ''t'') = Some [''a'']"
  by (simp add: sample_notifications_def sample_servers_def createConfigs_def IsEmailConfigured_def configured_def sample_mail_def sample_note_def sample_alarm_def no_notifications_def createRecipient_def CreateMessageTmpls_def persist_msg_def CreateTmpl_def listRecipients_def listMessageTmpls_def ListTmpls_def
     validateServer_def List.map_filter_def parseContent_def GetRecipientById_def GetMessageTmplById_def store_evaluation Let_def)
theorem templates_never_dangle_witness: "\<exists>t. cache_load (nf_tmpls sample_notifications) ''t'' = Some t \<and> tm_Recipients t = [''a''] \<and> isl (GetRecipientById sample_notifications ''a'') = False"
proof -
  obtain t where t: "cache_load (nf_tmpls sample_notifications) ''t'' = Some t" "tm_Recipients t = [''a'']" using sample_template by auto
  from templates_never_dangle [OF sample_requests_run(2), unfolded sample_requests_run(1), OF t(1)] t(2)
  have "\<exists>r. GetRecipientById sample_notifications ''a'' = Inr r" by simp
  with t show ?thesis by auto
qed

end
