(* ===== verification/Rule_Properties.thy ===== *)
theory Rule_Properties
  imports Rules Notification_Properties "HOL-Library.Multiset"
begin

text \<open>
  What holds of the rule service: over every sequence of requests the cache agrees with the files, up to the actions that are nil; and what its checks, its answers after failures and its
  reaction to changed thing types miss.
\<close>

subsection \<open>Cache and files\<close>

definition encoded :: "Rule \<Rightarrow> StoredRule option" where
  "encoded r = map_option (\<lambda>as. stored_rule as r) (MarshalBinary (ru_Actions r))"

definition rule_env_ok :: "persist_env \<Rightarrow> bool" where
  "rule_env_ok e = (\<not> flt_encode (pe_fault e) \<and> \<not> flt_seek (pe_fault e) \<and> \<not> flt_read (pe_fault e) \<and> \<not> flt_remove (pe_fault e))"

definition rule_agrees :: "string \<Rightarrow> Rule option \<Rightarrow> StoredRule option \<Rightarrow> bool" where
  "rule_agrees i c s \<longleftrightarrow> (case c of None \<Rightarrow> s = None | Some r \<Rightarrow> om_ID r = i \<and> plain_elem i \<and> \<not> time_IsZero (om_ModTime r) \<and> encoded r \<noteq> None \<and> s = encoded r)"

definition rules_ok :: "rule_manager \<Rightarrow> bool" where
  "rules_ok m \<longleftrightarrow> cache_ok (rm_rules m) \<and> files_ok rules_resource (rm_files m) \<and> (\<forall>i. rule_agrees i (cache_load (rm_rules m) i) (stored_obj rules_resource (rm_files m) i))"

lemma rule_agrees_simps [simp]:
  "rule_agrees i None s \<longleftrightarrow> s = None" "rule_agrees i (Some r) s \<longleftrightarrow> om_ID r = i \<and> plain_elem i \<and> \<not> time_IsZero (om_ModTime r) \<and> encoded r \<noteq> None \<and> s = encoded r"
  by (simp_all add: rule_agrees_def)

lemma rules_okD:
  assumes "rules_ok m" "cache_load (rm_rules m) i = Some r"
  shows "om_ID r = i" "plain_elem i" "\<not> time_IsZero (om_ModTime r)" "encoded r \<noteq> None" "stored_obj rules_resource (rm_files m) i = encoded r"
  using assms rule_agrees_simps(2) unfolding rules_ok_def by metis+

lemma plain_rules [simp]: "plain_elem rules_resource"
  by (simp add: plain_elem_def)

lemma stored_rule_simps [simp]:
  "om_ID (stored_rule as r) = om_ID r" "om_ModTime (stored_rule as r) = om_ModTime r" "om_Version (stored_rule as r) = om_Version r"
  "(stored_rule as r)\<lparr>om_Version := v\<rparr> = stored_rule as (r\<lparr>om_Version := v\<rparr>)"
  by (simp_all add: stored_rule_def)

lemma Store_persist_no_removal: "\<not> time_IsZero (om_ModTime ob) \<Longrightarrow> Store_persist r e fs ob = (fs', res) \<Longrightarrow> res \<noteq> Inr None"
  by (auto simp: Store_persist_def Let_def split: prod.splits sum.splits)

lemma persist_rule_cases:
  assumes ok: "rule_env_ok e" "plain_elem (om_ID r)" "\<not> time_IsZero (om_ModTime r)" and p: "persist_rule e fs r = (fs', Some res)"
  shows "(\<exists>err. res = Inl err \<and> stored_obj rules_resource fs' = stored_obj rules_resource fs) \<or>
    (\<exists>v s. res = Inr (Some v) \<and> encoded (r\<lparr>om_Version := v\<rparr>) = Some s \<and> stored_obj rules_resource fs' = (stored_obj rules_resource fs)(om_ID r \<mapsto> s))"
proof (cases "MarshalBinary (ru_Actions r)")
  case (Some as)
  let ?o = "stored_rule as r"
  obtain res' where s: "Store_persist rules_resource e fs ?o = (fs', res')" "res = map_sum id (map_option om_Version) res'" using p Some by (auto simp: persist_rule_def split: prod.splits)
  have adm: "store_admissible rules_resource e ?o" using ok by (simp add: store_admissible_def rule_env_ok_def)
  consider err where "res' = Inl err" | ob where "res' = Inr (Some ob)" using Store_persist_no_removal [OF _ s(1)] ok(3) by (cases res') auto
  then show ?thesis
  proof cases
    case 1
    then show ?thesis using fs_store.persist_failed [OF adm] s by auto
  next
    case (2 ob)
    obtain v where "ob = ?o\<lparr>om_Version := v\<rparr>" using Store_persist_saved_fields s(1) 2 by blast
    then show ?thesis using fs_store.persist_saved [OF adm s(1) [unfolded 2]] 2 s(2) Some by (auto simp: encoded_def)
  qed
next
  case None
  let ?o = "stored_rule [] r" and ?e = "with_encode False e"
  have adm: "store_admissible rules_resource ?e ?o" using ok by (simp add: store_admissible_def rule_env_ok_def with_encode_def)
  obtain fs1 res' where s: "Store_persist rules_resource ?e fs ?o = (fs1, res')" by fastforce
  then have "\<exists>err. res' = Inl err \<and> fs1 = fs' \<and> res = Inl err" using p None ok(3) Store_persist_no_removal [OF _ s]
    by (auto simp: persist_rule_def split: sum.splits option.splits)
  then show ?thesis using fs_store.persist_failed [OF adm] s by auto
qed

lemma persist_rule_files:
  assumes "files_ok rules_resource fs" "plain_elem (om_ID r)" "persist_rule e fs r = (fs', res)"
  shows "files_ok rules_resource fs'"
proof -
  have f: "files_ok rules_resource (fst (Store_persist rules_resource e fs (stored_rule as r)))" for e as
    using files_ok_persist [OF assms(1), of "stored_rule as r" e] assms(2) by (cases "Store_persist rules_resource e fs (stored_rule as r)") simp
  then have "Store_persist rules_resource e fs (stored_rule as r) = (fs1, x) \<Longrightarrow> files_ok rules_resource fs1" for e as fs1 x by (metis fst_conv)
  then show ?thesis using assms(3) f by (auto simp: persist_rule_def split: option.splits prod.splits sum.splits)
qed

lemma rules_ok_saved:
  assumes "rules_ok m" "rule_env_ok e" "plain_elem (om_ID r)" "\<not> time_IsZero (om_ModTime r)" "persist_rule e (rm_files m) r = (fs, Some res)"
  shows "res = Inl err \<Longrightarrow> rules_ok (m\<lparr>rm_files := fs\<rparr>)" "res \<noteq> Inr None"
    "res = Inr (Some v) \<Longrightarrow> rules_ok (m\<lparr>rm_rules := cache_store (om_ID r) (r\<lparr>om_Version := v\<rparr>) (rm_rules m), rm_files := fs\<rparr>)"
proof -
  note C = persist_rule_cases [OF assms(2-5)]
  have fs: "files_ok rules_resource fs" using persist_rule_files [OF _ assms(3,5)] assms(1) by (simp add: rules_ok_def)
  show "res \<noteq> Inr None" using C by auto
  show "rules_ok (m\<lparr>rm_files := fs\<rparr>)" if "res = Inl err" using C that assms(1) fs by (auto simp: rules_ok_def)
  show "rules_ok (m\<lparr>rm_rules := cache_store (om_ID r) (r\<lparr>om_Version := v\<rparr>) (rm_rules m), rm_files := fs\<rparr>)" if "res = Inr (Some v)"
    using C that assms(1,3,4) fs by (auto simp: rules_ok_def)
qed

lemma create_rule_ok:
  assumes "rules_ok m" "rule_env_ok e" "plain_elem uuid" "\<not> time_IsZero now" "CreateRule ev e now uuid seed m obj = (m', ans)" "ans \<noteq> ProcessEnds"
  shows "rules_ok m'"
proof (cases "rule_actions ev obj")
  case (Inr as)
  let ?r = "new_rule now uuid seed obj (hd (ru1_Evaluations obj)) as"
  obtain fs res where p: "persist_rule e (rm_files m) ?r = (fs, Some res)" using assms(5,6) Inr by (auto simp: CreateRule_def Let_def split: prod.splits option.splits)
  have r: "plain_elem (om_ID ?r)" "\<not> time_IsZero (om_ModTime ?r)" "om_ID ?r = uuid" using assms(3,4) by (simp_all add: new_rule_def)
  note S = rules_ok_saved [OF assms(1,2) r(1,2) p]
  show ?thesis using S assms(5) Inr p r(3) by (cases res) (auto simp: CreateRule_def Let_def split: option.splits)
qed (use assms in \<open>simp add: CreateRule_def\<close>)

lemma update_rule_ok:
  assumes "rules_ok m" "rule_env_ok e" "\<not> time_IsZero now" "cache_load (rm_rules m) i = Some old" "UpdateRule ev e now m version obj old = (m', ans)" "ans \<noteq> ProcessEnds"
  shows "rules_ok m'"
proof (cases "version = om_Version old")
  case True
  have i: "om_ID old = i" "plain_elem i" using rules_okD [OF assms(1,4)] by simp_all
  show ?thesis
  proof (cases "rule_actions ev obj")
    case (Inr as)
    show ?thesis
    proof (cases "ru_Evaluations old")
      case (Cons x es)
      let ?r = "old\<lparr>om_Name := ru1_Name obj, om_ModTime := now, ru_Description := ru1_Description obj, ru_ThingId := ru1_ThingId obj, ru_RealTime := ru1_RealTime obj,
          ru_Active := ru1_Active obj, ru_Evaluations := hd (ru1_Evaluations obj) # es, ru_Actions := as\<rparr>"
      obtain fs res where p: "persist_rule e (rm_files m) ?r = (fs, Some res)" using assms(5,6) Inr Cons True by (auto simp: UpdateRule_def Let_def split: prod.splits option.splits)
      have r: "plain_elem (om_ID ?r)" "\<not> time_IsZero (om_ModTime ?r)" "om_ID ?r = i" using assms(3) i by simp_all
      note S = rules_ok_saved [OF assms(1,2) r(1,2) p]
      show ?thesis using S assms(4,5) Inr Cons p True i by (cases res) (auto simp: UpdateRule_def Let_def split: option.splits)
    qed (use assms Inr True in \<open>simp add: UpdateRule_def\<close>)
  qed (use assms True in \<open>simp add: UpdateRule_def\<close>)
qed (use assms in \<open>simp add: UpdateRule_def\<close>)

lemma delete_rule_ok:
  assumes "rules_ok m" "rule_env_ok e" "DeleteRule e m i version = (m', ans)"
  shows "rules_ok m'"
proof (cases "cache_load (rm_rules m) i")
  case (Some r)
  have i: "om_ID r = i" "plain_elem i" using rules_okD [OF assms(1) Some] by simp_all
  show ?thesis
  proof (cases "om_Version r = version")
    case True
    let ?o = "zero_Rule\<lparr>om_ID := om_ID r, om_Version := om_Version r\<rparr>"
    have o: "om_ID ?o = i" "time_IsZero (om_ModTime ?o)" using i by (simp_all add: zero_Rule_def time_IsZero_def)
    have adm: "store_admissible rules_resource e ?o" using assms(2) i by (simp add: store_admissible_def rule_env_ok_def)
    obtain fs res where p: "Store_persist rules_resource e (rm_files m) ?o = (fs, res)" by fastforce
    have fs: "files_ok rules_resource fs" using files_ok_persist [OF _ _ p] assms(1) i by (simp add: rules_ok_def)
    have "res = Inr None \<or> (\<exists>err. res = Inl err)" using p o(2) by (auto simp: Store_persist_def Let_def split: prod.splits sum.splits)
    then show ?thesis
    proof (elim disjE exE)
      assume r: "res = Inr None"
      from fs_store.persist_removed [OF adm p [unfolded r]] have "stored_obj rules_resource fs = (stored_obj rules_resource (rm_files m))(i := None)" using o(1) by simp
      then show ?thesis using assms(1,3) Some True p r fs by (auto simp: DeleteRule_def rules_ok_def)
    next
      fix err assume r: "res = Inl err"
      from fs_store.persist_failed [OF adm p [unfolded r]] show ?thesis using assms(1,3) Some True p r fs by (auto simp: DeleteRule_def rules_ok_def)
    qed
  qed (use assms Some in \<open>simp add: DeleteRule_def\<close>)
qed (use assms in \<open>simp add: DeleteRule_def\<close>)

subsection \<open>Runs of requests\<close>

datatype rule_request =
    RuleCreate rule_env persist_env time string nat v1_Rule
  | RuleUpdate rule_env persist_env time string string v1_Rule
  | RuleDelete persist_env string string

fun rule_handle :: "(field_error list \<Rightarrow> string) \<Rightarrow> rule_manager \<Rightarrow> rule_request \<Rightarrow> rule_manager \<times> rule_answer" where
  "rule_handle render m (RuleCreate ev e now uuid seed obj) = rule_REST_Create render ev e now uuid seed m obj"
| "rule_handle render m (RuleUpdate ev e now i version obj) = rule_REST_Update render ev e now m i version obj"
| "rule_handle render m (RuleDelete e i version) = DeleteRule e m i version"

text \<open>No request is served after the end of the process.\<close>

definition rule_serve :: "(field_error list \<Rightarrow> string) \<Rightarrow> rule_manager option \<Rightarrow> rule_request \<Rightarrow> rule_manager option" where
  "rule_serve render m req = Option.bind m (\<lambda>m. case rule_handle render m req of (m', ans) \<Rightarrow> if ans = ProcessEnds then None else Some m')"

fun rule_request_ok :: "rule_request \<Rightarrow> bool" where
  "rule_request_ok (RuleCreate ev e now uuid seed obj) = (rule_env_ok e \<and> plain_elem uuid \<and> \<not> time_IsZero now)"
| "rule_request_ok (RuleUpdate ev e now i version obj) = (rule_env_ok e \<and> \<not> time_IsZero now)"
| "rule_request_ok (RuleDelete e i version) = rule_env_ok e"

lemma rules_ok_handle:
  assumes ok: "rules_ok m" and r: "rule_request_ok req" and h: "rule_handle render m req = (m', ans)" "ans \<noteq> ProcessEnds"
  shows "rules_ok m'"
proof (cases req)
  case (RuleCreate ev e now uuid seed obj)
  then show ?thesis using ok r h create_rule_ok [OF ok, of e uuid now ev seed obj m' ans] by (auto simp: rule_REST_Create_def split: option.splits)
next
  case (RuleUpdate ev e now i version obj)
  show ?thesis
  proof (cases "cache_load (rm_rules m) i")
    case (Some old)
    then show ?thesis using ok r h RuleUpdate update_rule_ok [OF ok _ _ Some, of e now ev version obj m' ans] by (auto simp: rule_REST_Update_def GetRuleById_def split: option.splits)
  qed (use ok h RuleUpdate in \<open>simp add: rule_REST_Update_def GetRuleById_def\<close>)
next
  case (RuleDelete e i version)
  then show ?thesis using delete_rule_ok [OF ok] r h by simp
qed

lemma rules_ok_run:
  assumes "rules_ok m" "\<forall>r\<in>set rs. rule_request_ok r" "foldl (rule_serve render) (Some m) rs = Some m'"
  shows "rules_ok m'"
  using assms
proof (induction rs arbitrary: m)
  case (Cons r rs)
  have none: "foldl (rule_serve render) None xs = None" for xs by (induction xs) (simp_all add: rule_serve_def)
  obtain m1 where m1: "rule_serve render (Some m) r = Some m1" using Cons.prems(3) none by (cases "rule_serve render (Some m) r") auto
  then have "rules_ok m1" using rules_ok_handle [OF Cons.prems(1), of r render] Cons.prems(2) by (auto simp: rule_serve_def split: prod.splits if_splits)
  with Cons.IH [OF this] Cons.prems(2,3) m1 show ?case by simp
qed simp

definition no_rules :: rule_manager where "no_rules = \<lparr>rm_rules = [], rm_files = [], rm_pending = [], rm_gone = []\<rparr>"

lemma rules_ok_empty: "rules_ok no_rules"
  by (simp add: rules_ok_def no_rules_def stored_obj_def)


definition rule_level :: Property where
  "rule_level = \<lparr>p_Name = ''a'', p_Unit = [], p_Length = 0, p_DataType = DataTypeInt, p_AccessMode = AccessModeReadWrite, p_Min = None, p_Max = None\<rparr>"

text \<open>A rule on two properties, of which the thing has one.\<close>

definition level_rule :: "v1_NotifyAction option \<Rightarrow> v1_Rule" where
  "level_rule w = \<lparr>ru1_Name = ''R'', ru1_Description = None, ru1_ThingId = ''t'', ru1_RealTime = True, ru1_Active = True,
     ru1_Evaluations = [\<lparr>el_Template = [], el_Expression = [OperandGS, CHR ''p'', OperandUS, CHR ''a'', OperandGS, CHR ''+'', OperandGS, CHR ''p'', OperandUS, CHR ''b'', OperandGS]\<rparr>],
     ru1_Actions = \<lparr>ac1_VirtualParameter = None, ac1_Event = Some \<lparr>ev1_Base = Some \<lparr>b1_Active = True, b1_Interval = Some 60\<rparr>, ev1_Severity = 20, ev1_Description = ''x''\<rparr>,
       ac1_Email = None, ac1_Webhook = w, ac1_WeCom = None, ac1_WeChat = None\<rparr>\<rparr>"

definition rule_world :: rule_env where
  "rule_world = \<lparr>re_parses = (\<lambda>_. True), re_sets = (\<lambda>_. Reply 200 (Some [(''p'', [rule_level])])), re_things = (\<lambda>_. NoReply), re_type_version = (\<lambda>_. Reply 200 (Some ''1'')),
     re_servers = (\<lambda>_. NoReply), re_notify = sample_notify\<rparr>"

definition level_action :: Actioner where "level_action = EventAction \<lparr>ba_Active = True, ba_Interval = Some 60, ba_lastSendAt = 0\<rparr> 20 ''x''"

lemma level_operands: "parsed_operands rule_world (el_Expression (hd (ru1_Evaluations (level_rule w)))) = [[CHR ''p'', OperandUS, CHR ''a''], [CHR ''p'', OperandUS, CHR ''b'']]"
  by (simp add: parsed_operands_def Parse_def expression_operands_def level_rule_def expression_parts.simps rule_world_def OperandGS_def OperandUS_def List.map_filter_def)

lemma level_checks:
  "ValidateRule rule_world (level_rule w) = Some []"
  "rule_actions rule_world (level_rule w) = map_sum id (\<lambda>h. (ActionTypeEvent, Some level_action) # entry ActionTypeWebhook h @
     [(ActionTypeEmail, None), (ActionTypeWeCom, None), (ActionTypeWeChat, None)]) (createWebhookAction rule_world w)"
  "cache_load (case getThingProperties rule_world t [CHR ''p''] of Inl _ \<Rightarrow> [] | Inr props \<Rightarrow> props) [CHR ''a''] = Some rule_level"
proof -
  have ops: "parsed_operands rule_world [OperandGS, CHR ''p'', OperandUS, CHR ''a'', OperandGS, CHR ''+'', OperandGS, CHR ''p'', OperandUS, CHR ''b'', OperandGS] =
      [[CHR ''p'', OperandUS, CHR ''a''], [CHR ''p'', OperandUS, CHR ''b'']]" using level_operands by (simp add: level_rule_def)
  have "Parse rule_world x \<noteq> None" for x by (simp add: Parse_def rule_world_def Let_def)
  then show "ValidateRule rule_world (level_rule w) = Some []"
    by (simp add: ValidateRule_def level_rule_def validateEvaluations_def ops [unfolded OperandUS_def] ValidateObjectMeta_def ValidateDescription_def validateRuleName_def IsStringLengthInRange_def Let_def OperandUS_def)
  have props: "getThingProperties rule_world t [CHR ''p''] = Inr [(''a'', rule_level)]" for t by (simp add: getThingProperties_def rule_world_def rule_level_def)
  then show "cache_load (case getThingProperties rule_world t [CHR ''p''] of Inl _ \<Rightarrow> [] | Inr props \<Rightarrow> props) [CHR ''a''] = Some rule_level" by (simp add: cache_load_def)
  show "rule_actions rule_world (level_rule w) = map_sum id (\<lambda>h. (ActionTypeEvent, Some level_action) # entry ActionTypeWebhook h @
     [(ActionTypeEmail, None), (ActionTypeWeCom, None), (ActionTypeWeChat, None)]) (createWebhookAction rule_world w)"
    by (simp split: sum.split add: rule_actions_def virtual_parameter_def level_rule_def ops [unfolded OperandUS_def] props cache_load_def OperandUS_def createEventAction_def SetDefaults_BaseAction_def notifying_actions_def
      createEmailAction_def createWeComAction_def createWeChatAction_def entry_def level_action_def Let_def)
qed

definition level_requests :: "rule_request list" where
  "level_requests = [RuleCreate rule_world (env_at 1) 5 ''r'' 2 (level_rule None)]"

definition level_saved :: Rule where
  "level_saved = \<lparr>om_Tenant = GetTenant, om_Name = TrimSpace ''R'', om_ID = ''r'', om_Version = FormatInt 2, om_ModTime = 5, ru_Description = None, ru_ThingId = ''t'', ru_RealTime = True, ru_Active = True,
     ru_Evaluations = ru1_Evaluations (level_rule None), ru_Actions = [(ActionTypeEvent, Some level_action), (ActionTypeEmail, None), (ActionTypeWeCom, None), (ActionTypeWeChat, None)]\<rparr>"

definition level_manager :: rule_manager where
  "level_manager = \<lparr>rm_rules = [(''r'', level_saved)],
     rm_files = [(filepath_Join rules_resource ''r'', \<lparr>f_obj = Some (stored_rule [(ActionTypeEvent, level_action)] level_saved), f_mtime = 7\<rparr>)], rm_pending = [], rm_gone = []\<rparr>"

lemma level_run: "\<forall>r\<in>set level_requests. rule_request_ok r" "foldl (rule_serve (\<lambda>_. [])) (Some no_rules) level_requests = Some level_manager"
proof -
  show "\<forall>r\<in>set level_requests. rule_request_ok r" by (simp add: level_requests_def rule_env_ok_def env_at_def no_fault_def plain_elem_def time_IsZero_def)
  have new: "new_rule 5 ''r'' 2 (level_rule None) (hd (ru1_Evaluations (level_rule None)))
      [(ActionTypeEvent, Some level_action), (ActionTypeEmail, None), (ActionTypeWeCom, None), (ActionTypeWeChat, None)] = level_saved"
    by (simp add: new_rule_def level_saved_def level_rule_def)
  have enc: "MarshalBinary (ru_Actions level_saved) = Some [(ActionTypeEvent, level_action)]" by (simp add: level_saved_def assert_action_def level_action_def)
  have "om_ID level_saved = ''r''" "om_ModTime level_saved = 5" "level_saved\<lparr>om_Version := om_Version level_saved\<rparr> = level_saved" by (simp_all add: level_saved_def)
  then have "CreateRule rule_world (env_at 1) 5 ''r'' 2 no_rules (level_rule None) = (level_manager, Answered level_saved)"
    by (simp add: CreateRule_def level_checks(2) createWebhookAction_def entry_def new persist_rule_def enc Store_persist_def FsClient_Get_def FsClient_Create_def env_at_def no_fault_def time_IsZero_def no_rules_def cache_load_def
      level_manager_def Let_def)
  then show "foldl (rule_serve (\<lambda>_. [])) (Some no_rules) level_requests = Some level_manager"
    by (simp add: level_requests_def rule_serve_def rule_REST_Create_def level_checks(1) ValidateFunc_def)
qed

lemma level_cached: "cache_load (rm_rules level_manager) ''r'' = Some level_saved" "om_Tenant level_saved = GetTenant" "ru_ThingId level_saved = ''t''"
  by (simp_all add: level_manager_def cache_load_def level_saved_def)


subsection \<open>Deactivation\<close>

lemma rules_ok_pending [simp]: "rules_ok (m\<lparr>rm_pending := p\<rparr>) = rules_ok m"
  by (simp add: rules_ok_def)

lemma encoded_inactive: "MarshalBinary (ru_Actions r) = Some as \<Longrightarrow> stored_rule as (r\<lparr>ru_Active := False\<rparr>) = (stored_rule as r)\<lparr>ru_Active := False\<rparr>"
  by (simp add: stored_rule_def)

text \<open>An attempt that the store does not fail deactivates the rule in the cache and in its file.\<close>

lemma attempt_succeeds:
  assumes ok: "rules_ok m" and r: "cache_load (rm_rules m) i = Some r" and i: "i \<in> set (rm_pending m)" and e: "pe_fault e = no_fault"
  shows "\<exists>m' v. deactivate_attempt e m i = Some m' \<and> rules_ok m' \<and> cache_load (rm_rules m') = (cache_load (rm_rules m))(i \<mapsto> r\<lparr>ru_Active := False, om_Version := v\<rparr>) \<and>
    rm_pending m' = remove1 i (rm_pending m)"
proof -
  note K = rules_okD [OF ok r]
  obtain as where as: "MarshalBinary (ru_Actions r) = Some as" "stored_obj rules_resource (rm_files m) i = Some (stored_rule as r)" using K by (auto simp: encoded_def)
  let ?r = "r\<lparr>ru_Active := False\<rparr>" and ?v = "next_version e (om_Version r)"
  obtain fs where "Store_persist rules_resource e (rm_files m) (stored_rule as ?r) = (fs, Inr (Some ((stored_rule as ?r)\<lparr>om_Version := ?v\<rparr>)))"
    using Store_persist_update [of rules_resource "stored_rule as ?r" e "rm_files m" "stored_rule as r"] K as(2) e by simp
  then have p: "persist_rule e (rm_files m) ?r = (fs, Some (Inr (Some ?v)))" using as(1) by (simp add: persist_rule_def)
  have env: "rule_env_ok e" using e by (simp add: rule_env_ok_def no_fault_def)
  have saved: "rules_ok (m\<lparr>rm_rules := cache_store i (?r\<lparr>om_Version := ?v\<rparr>) (rm_rules m), rm_files := fs\<rparr>)"
    using rules_ok_saved(3) [OF ok env _ _ p] K by simp
  have "deactivate_attempt e m i = Some (m\<lparr>rm_rules := cache_store i (?r\<lparr>om_Version := ?v\<rparr>) (rm_rules m), rm_files := fs\<rparr>\<lparr>rm_pending := remove1 i (rm_pending m)\<rparr>)"
    using i r p by (simp add: deactivate_attempt_def Let_def)
  then show ?thesis using saved by (intro exI conjI) (assumption, simp_all add: fun_eq_iff)
qed

definition attempts :: "persist_env \<Rightarrow> rule_manager option \<Rightarrow> string list \<Rightarrow> rule_manager option" where
  "attempts e = foldl (\<lambda>m i. Option.bind m (\<lambda>m. deactivate_attempt e m i))"

lemma attempts_succeed:
  assumes "rules_ok m" "mset is \<subseteq># mset (rm_pending m)" "\<forall>i\<in>set is. cache_load (rm_rules m) i \<noteq> None" "pe_fault e = no_fault"
  shows "\<exists>m'. attempts e (Some m) is = Some m' \<and> rules_ok m' \<and> mset (rm_pending m') = mset (rm_pending m) - mset is \<and>
    (\<forall>i. i \<notin> set is \<longrightarrow> cache_load (rm_rules m') i = cache_load (rm_rules m) i) \<and>
    (\<forall>i\<in>set is. \<exists>v. cache_load (rm_rules m') i = map_option (\<lambda>r. r\<lparr>ru_Active := False, om_Version := v\<rparr>) (cache_load (rm_rules m) i))"
  using assms
proof (induction "is" arbitrary: m)
  case (Cons i "is")
  obtain r where r: "cache_load (rm_rules m) i = Some r" using Cons.prems(3) by auto
  have i: "i \<in> set (rm_pending m)" using Cons.prems(2) by (metis in_multiset_in_set insert_subset_eq_iff mset.simps(2))
  obtain m1 v where m1: "deactivate_attempt e m i = Some m1" "rules_ok m1" "cache_load (rm_rules m1) = (cache_load (rm_rules m))(i \<mapsto> r\<lparr>ru_Active := False, om_Version := v\<rparr>)"
      "rm_pending m1 = remove1 i (rm_pending m)"
    using attempt_succeeds [OF Cons.prems(1) r i Cons.prems(4)] by blast
  have sub: "mset is \<subseteq># mset (rm_pending m1)" using Cons.prems(2) by (simp add: m1(4) insert_subset_eq_iff)
  have "\<forall>j\<in>set is. cache_load (rm_rules m1) j \<noteq> None" using Cons.prems(3) by (simp add: m1(3))
  from Cons.IH [OF m1(2) sub this Cons.prems(4)] obtain m' where m': "attempts e (Some m1) is = Some m'" "rules_ok m'" "mset (rm_pending m') = mset (rm_pending m1) - mset is"
      "\<forall>j. j \<notin> set is \<longrightarrow> cache_load (rm_rules m') j = cache_load (rm_rules m1) j"
      "\<forall>j\<in>set is. \<exists>v. cache_load (rm_rules m') j = map_option (\<lambda>r. r\<lparr>ru_Active := False, om_Version := v\<rparr>) (cache_load (rm_rules m1) j)"
    by blast
  have "\<exists>v. cache_load (rm_rules m') j = map_option (\<lambda>r. r\<lparr>ru_Active := False, om_Version := v\<rparr>) (cache_load (rm_rules m) j)" if "j \<in> set (i # is)" for j
  proof (cases "j \<in> set is")
    case True
    then obtain w where "cache_load (rm_rules m') j = map_option (\<lambda>r. r\<lparr>ru_Active := False, om_Version := w\<rparr>) (cache_load (rm_rules m1) j)" using m'(5) by blast
    then show ?thesis using m1(3) r by (cases "j = i") auto
  next
    case False
    then show ?thesis using m'(4) m1(3) r that by auto
  qed
  moreover have "attempts e (Some m) (i # is) = Some m'" using m1(1) m'(1) by (simp add: attempts_def)
  moreover have "mset (rm_pending m') = mset (rm_pending m) - mset (i # is)" by (simp add: m'(3) m1(4))
  ultimately show ?case using m'(2,4) m1(3) by (intro exI [of _ m']) auto
qed (simp add: attempts_def)

lemma deactivate_all: "foldl deactivateRule m rs = m\<lparr>rm_pending := rm_pending m @ map om_ID rs\<rparr>"
  by (induction rs arbitrary: m) (simp_all add: deactivateRule_def)

lemma GetRules_set:
  assumes "rules_ok m"
  shows "r \<in> set (GetRules m \<lparr>rf_Tenant = tn, rf_ThingId = t\<rparr>) \<longleftrightarrow> cache_load (rm_rules m) (om_ID r) = Some r \<and> om_Tenant r = tn \<and> (t = [] \<or> ru_ThingId r = t)"
proof -
  have "r \<in> snd ` set (rm_rules m) \<longleftrightarrow> cache_load (rm_rules m) (om_ID r) = Some r"
    using assms rules_okD(1) [OF assms] by (force simp: rules_ok_def cache_load_set_iff)
  then show ?thesis by (auto simp: GetRules_def set_list_matching cache_values_set rule_parseFilter_def)
qed

text \<open>
  C34: after any sequence of requests, the event that a thing was deleted, followed by one attempt per rule that the store does not fail, leaves every rule of the thing inactive, in the cache
  and in its file, and the rules of other things as they were.
\<close>

theorem deleted_thing_deactivates:
  assumes "\<forall>r\<in>set rs. rule_request_ok r" "foldl (rule_serve render) (Some no_rules) rs = Some m" "pe_fault e = no_fault" "t \<noteq> []"
  shows "\<exists>m'. attempts e (Some (process_thing m 0 t)) (map om_ID (GetRules m \<lparr>rf_Tenant = GetTenant, rf_ThingId = t\<rparr>)) = Some m' \<and>
    (\<forall>i r. cache_load (rm_rules m) i = Some r \<longrightarrow>
       (if om_Tenant r = GetTenant \<and> ru_ThingId r = t
        then \<exists>v s. cache_load (rm_rules m') i = Some (r\<lparr>ru_Active := False, om_Version := v\<rparr>) \<and> stored_obj rules_resource (rm_files m') i = Some s \<and> \<not> ru_Active s
        else cache_load (rm_rules m') i = Some r))"
proof -
  have ok: "rules_ok m" by (rule rules_ok_run [OF rules_ok_empty assms(1,2)])
  define G where "G = GetRules m \<lparr>rf_Tenant = GetTenant, rf_ThingId = t\<rparr>"
  note G_iff = GetRules_set [OF ok, of _ GetTenant t, folded G_def]
  have p: "process_thing m 0 t = m\<lparr>rm_pending := rm_pending m @ map om_ID G\<rparr>" by (simp add: process_thing_def time_IsZero_def deactivate_all G_def)
  have cached: "\<forall>i\<in>set (map om_ID G). cache_load (rm_rules m) i \<noteq> None" using G_iff by auto
  obtain m' where m': "attempts e (Some (process_thing m 0 t)) (map om_ID G) = Some m'" "rules_ok m'"
      "\<forall>i. i \<notin> set (map om_ID G) \<longrightarrow> cache_load (rm_rules m') i = cache_load (rm_rules m) i"
      "\<forall>i\<in>set (map om_ID G). \<exists>v. cache_load (rm_rules m') i = map_option (\<lambda>r. r\<lparr>ru_Active := False, om_Version := v\<rparr>) (cache_load (rm_rules m) i)"
    using attempts_succeed [of "process_thing m 0 t" "map om_ID G" e] ok cached assms(3) unfolding p by auto
  have stored: "\<exists>s. stored_obj rules_resource (rm_files m') i = Some s \<and> ru_Active s = ru_Active r" if "cache_load (rm_rules m') i = Some r" for i r
    using rules_okD(4,5) [OF m'(2) that] by (auto simp: encoded_def stored_rule_def)
  have "if om_Tenant r = GetTenant \<and> ru_ThingId r = t
      then \<exists>v s. cache_load (rm_rules m') i = Some (r\<lparr>ru_Active := False, om_Version := v\<rparr>) \<and> stored_obj rules_resource (rm_files m') i = Some s \<and> \<not> ru_Active s
      else cache_load (rm_rules m') i = Some r" if r: "cache_load (rm_rules m) i = Some r" for i r
  proof (cases "om_Tenant r = GetTenant \<and> ru_ThingId r = t")
    case True
    then have "i \<in> set (map om_ID G)" using r rules_okD(1) [OF ok r] by (force simp: G_iff)
    then obtain v where v: "cache_load (rm_rules m') i = Some (r\<lparr>ru_Active := False, om_Version := v\<rparr>)" using m'(4) r by force
    from stored [OF v] show ?thesis using True v by auto
  next
    case False
    then have "i \<notin> set (map om_ID G)" using r assms(4) by (auto simp: G_iff)
    then show ?thesis using m'(3) r False by auto
  qed
  then show ?thesis using m'(1) by (intro exI [of _ m'] conjI allI impI) (simp_all only: G_def)
qed

theorem deleted_thing_deactivates_witness:
  "\<exists>m' v. attempts (env_at 1) (Some (process_thing level_manager 0 ''t'')) (map om_ID (GetRules level_manager \<lparr>rf_Tenant = GetTenant, rf_ThingId = ''t''\<rparr>)) = Some m' \<and>
    cache_load (rm_rules m') ''r'' = Some (level_saved\<lparr>ru_Active := False, om_Version := v\<rparr>)"
proof -
  have "pe_fault (env_at 1) = no_fault" "''t'' \<noteq> []" by (simp_all add: env_at_def)
  from deleted_thing_deactivates [OF level_run this] level_cached show ?thesis by metis
qed

lemma Store_persist_removes:
  assumes "plain_elem r" "plain_elem (om_ID ob)" "time_IsZero (om_ModTime ob)" "pe_fault e = no_fault" "stored_obj r fs (om_ID ob) = Some old" "om_Version ob = om_Version old"
  shows "Store_persist r e fs ob = (cache_delete (filepath_Join r (om_ID ob)) fs, Inr None)"
  using assms by (auto simp: Store_persist_def FsClient_Delete_def no_fault_def stored_obj_def bind_eq_Some_conv Let_def split: if_splits)

lemma restarted_with:
  assumes "files_ok rules_resource fs" "stored_obj rules_resource fs i = Some s" "om_ID s = i"
  shows "cache_load (rm_rules (rule_load fs)) i \<noteq> None"
proof -
  obtain f where f: "plain_elem i" "cache_load fs (filepath_Join rules_resource i) = Some f" "f_obj f = Some s" using assms(2) by (auto simp: stored_obj_def bind_eq_Some_conv split: if_splits)
  then have "s\<lparr>om_ModTime := f_mtime f\<rparr> \<in> set (LoadResource rules_resource fs)" unfolding LoadResource_set [OF assms(1) plain_rules] by blast
  then have "\<exists>x\<in>set (LoadResource rules_resource fs). om_ID x = i" by (rule rev_bexI) (use assms(3) in simp)
  moreover have "(\<exists>x\<in>set xs. om_ID x = i) \<or> cache_load c i \<noteq> None \<Longrightarrow> cache_load (foldl (\<lambda>m r. cache_store (om_ID r) (UnmarshalBinary r) m) c xs) i \<noteq> None" for xs c
    by (induction xs arbitrary: c) auto
  ultimately show ?thesis unfolding rule_load_def by simp
qed

text \<open>
  C35: a rule that is deleted while its deactivation is pending comes back: the deletion is answered, then the next attempt of the deactivation writes the file again. The running service no
  longer has the rule, after a restart it does.
\<close>

theorem deleted_rule_returns:
  assumes "\<forall>r\<in>set rs. rule_request_ok r" "foldl (rule_serve render) (Some no_rules) rs = Some m" "cache_load (rm_rules m) i = Some r" "pe_fault e = no_fault" "pe_fault e' = no_fault"
  shows "\<exists>m1 m2. DeleteRule e (deactivateRule m r) i (om_Version r) = (m1, Answered r) \<and> deactivate_attempt e' m1 i = Some m2 \<and>
    cache_load (rm_rules m2) i = None \<and> cache_load (rm_rules (rule_load (rm_files m2))) i \<noteq> None"
proof -
  have ok: "rules_ok m" by (rule rules_ok_run [OF rules_ok_empty assms(1,2)])
  note K = rules_okD [OF ok assms(3)]
  obtain as where as: "MarshalBinary (ru_Actions r) = Some as" "stored_obj rules_resource (rm_files m) i = Some (stored_rule as r)" using K by (auto simp: encoded_def)
  let ?fs = "cache_delete (filepath_Join rules_resource i) (rm_files m)" and ?r = "r\<lparr>ru_Active := False\<rparr>"
  let ?o = "zero_Rule\<lparr>om_ID := om_ID r, om_Version := om_Version r\<rparr>"
  have del: "Store_persist rules_resource e (rm_files m) ?o = (?fs, Inr None)"
    using Store_persist_removes [of rules_resource ?o e "rm_files m" "stored_rule as r"] K(1,2) as(2) assms(4) by (simp add: zero_Rule_def time_IsZero_def)
  then obtain m1 where m1: "DeleteRule e (deactivateRule m r) i (om_Version r) = (m1, Answered r)" "rm_rules m1 = cache_delete i (rm_rules m)" "rm_files m1 = ?fs"
      "i \<in> set (rm_pending m1)" "cache_load (rm_gone m1) i = Some r"
    using assms(3) K(1) by (simp add: DeleteRule_def deactivateRule_def)
  let ?fs' = "cache_store (filepath_Join rules_resource i) \<lparr>f_obj = Some (stored_rule as ?r), f_mtime = pe_now e'\<rparr> ?fs"
  have s: "Store_persist rules_resource e' ?fs (stored_rule as ?r) = (?fs', Inr (Some (stored_rule as ?r)))"
    using K assms(5) by (simp add: Store_persist_def FsClient_Get_def FsClient_Create_def no_fault_def Let_def)
  then have "persist_rule e' ?fs ?r = (?fs', Some (Inr (Some (om_Version r))))" using as(1) by (simp add: persist_rule_def)
  then obtain m2 where m2: "deactivate_attempt e' m1 i = Some m2" "rm_rules m2 = rm_rules m1" "rm_files m2 = ?fs'"
    using m1 by (simp add: deactivate_attempt_def Let_def)
  have "files_ok rules_resource ?fs" using files_ok_persist [OF _ _ del] ok K by (simp add: rules_ok_def)
  then have "files_ok rules_resource ?fs'" using files_ok_persist [OF _ _ s] K by simp
  then have "cache_load (rm_rules (rule_load ?fs')) i \<noteq> None" using restarted_with [of ?fs' i "stored_rule as ?r"] K by (simp add: stored_obj_def)
  then show ?thesis using m1 m2 by auto
qed

theorem deleted_rule_returns_witness:
  "\<exists>m1 m2. DeleteRule (env_at 1) (deactivateRule level_manager level_saved) ''r'' (om_Version level_saved) = (m1, Answered level_saved) \<and> deactivate_attempt (env_at 2) m1 ''r'' = Some m2 \<and>
    cache_load (rm_rules m2) ''r'' = None \<and> cache_load (rm_rules (rule_load (rm_files m2))) ''r'' \<noteq> None"
  by (rule deleted_rule_returns [OF level_run level_cached(1)]) (simp_all add: env_at_def)

subsection \<open>What the checks miss\<close>

lemma split_operand: "OperandUS \<notin> set ps \<Longrightarrow> OperandUS \<notin> set p \<Longrightarrow> split_at OperandUS (ps @ OperandUS # p) = [ps, p]"
  by (induction ps) (auto simp: split_at_plain)

lemma first_properties_kept:
  "cache_load m ps \<noteq> None \<Longrightarrow> OperandUS \<notin> set ps \<Longrightarrow> \<forall>op\<in>set ops. \<exists>q. op = ps @ OperandUS # q \<and> OperandUS \<notin> set q \<Longrightarrow> first_properties m ops = Some m"
  by (induction ops) (auto simp: split_operand)

text \<open>The properties of the later operands are not looked at.\<close>

lemma later_operands_unchecked:
  assumes "ru1_Evaluations obj = e # es" "parsed_operands ev (el_Expression e) = (ps @ OperandUS # p) # ops" "OperandUS \<notin> set ps" "OperandUS \<notin> set p"
    "\<forall>op\<in>set ops. \<exists>q. op = ps @ OperandUS # q \<and> OperandUS \<notin> set q" "getThingProperties ev (ru1_ThingId obj) ps = Inr props" "cache_load props p \<noteq> None"
    "ac1_VirtualParameter (ru1_Actions obj) = None"
  shows "virtual_parameter ev obj = Inr None"
proof -
  have "first_properties [] ((ps @ OperandUS # p) # ops) = Some [(ps, [p])]"
    using assms(3-5) first_properties_kept [of "[(ps, [p])]" ps ops] by (simp add: split_operand cache_load_def)
  then show ?thesis using assms by (simp add: virtual_parameter_def)
qed

text \<open>
  A rule over several properties of one property set is accepted as soon as the first of them exists; that the others exist is not asked.
\<close>

theorem unknown_properties_accepted:
  assumes "ru1_Evaluations obj = e # es" "parsed_operands ev (el_Expression e) = (ps @ OperandUS # p) # ops" "OperandUS \<notin> set ps" "OperandUS \<notin> set p"
    "\<forall>op\<in>set ops. \<exists>q. op = ps @ OperandUS # q \<and> OperandUS \<notin> set q" "getThingProperties ev (ru1_ThingId obj) ps = Inr props" "cache_load props p \<noteq> None"
    "ru1_Actions obj = \<lparr>ac1_VirtualParameter = None, ac1_Event = Some ea, ac1_Email = None, ac1_Webhook = None, ac1_WeCom = None, ac1_WeChat = None\<rparr>" "ev1_Base ea = Some b"
    "pe_fault env = no_fault" "plain_elem uuid" "\<not> time_IsZero now" "cache_load (rm_files m) (filepath_Join rules_resource uuid) = None"
  shows "\<exists>m' r. CreateRule ev env now uuid seed m obj = (m', Answered r) \<and> ru_ThingId r = ru1_ThingId obj \<and> cache_load (rm_rules m') uuid = Some r"
proof -
  have "virtual_parameter ev obj = Inr None" using later_operands_unchecked [OF assms(1-7)] assms(8) by simp
  then have "\<exists>as st. rule_actions ev obj = Inr as \<and> MarshalBinary as = Some st"
    using assms(8,9) by (simp add: rule_actions_def createEventAction_def createWebhookAction_def notifying_actions_def createEmailAction_def createWeComAction_def createWeChatAction_def entry_def
        assert_action_def)
  then obtain as st where as: "rule_actions ev obj = Inr as" "MarshalBinary as = Some st" by blast
  let ?r = "new_rule now uuid seed obj e as"
  have r: "om_ID ?r = uuid" "om_ModTime ?r = now" "ru_Actions ?r = as" "ru_ThingId ?r = ru1_ThingId obj" "?r\<lparr>om_Version := om_Version ?r\<rparr> = ?r" by (simp_all add: new_rule_def)
  have "Store_persist rules_resource env (rm_files m) (stored_rule st ?r) =
      (cache_store (filepath_Join rules_resource uuid) \<lparr>f_obj = Some (stored_rule st ?r), f_mtime = pe_now env\<rparr> (rm_files m), Inr (Some (stored_rule st ?r)))"
    using assms(10,12,13) r by (simp add: Store_persist_def FsClient_Get_def FsClient_Create_def no_fault_def)
  then show ?thesis using as r assms(1) by (simp add: CreateRule_def persist_rule_def Let_def)
qed

theorem unknown_properties_accepted_witness:
  "\<exists>m' r. CreateRule rule_world (env_at 1) 5 ''r'' 2 no_rules (level_rule None) = (m', Answered r) \<and> ru_ThingId r = ru1_ThingId (level_rule None) \<and> cache_load (rm_rules m') ''r'' = Some r"
proof (rule unknown_properties_accepted [where es = "[]" and ps = "''p''" and p = "''a''" and ops = "[[CHR ''p'', OperandUS, CHR ''b'']]" and props = "[(''a'', rule_level)]"])
  show "ru1_Evaluations (level_rule None) = [hd (ru1_Evaluations (level_rule None))]" by (simp add: level_rule_def)
  show "parsed_operands rule_world (el_Expression (hd (ru1_Evaluations (level_rule None)))) = (''p'' @ OperandUS # ''a'') # [[CHR ''p'', OperandUS, CHR ''b'']]" by (simp add: level_operands)
  show "getThingProperties rule_world (ru1_ThingId (level_rule None)) ''p'' = Inr [(''a'', rule_level)]" by (simp add: getThingProperties_def rule_world_def rule_level_def)
  show "ru1_Actions (level_rule None) = \<lparr>ac1_VirtualParameter = None, ac1_Event = Some \<lparr>ev1_Base = Some \<lparr>b1_Active = True, b1_Interval = Some 60\<rparr>, ev1_Severity = 20, ev1_Description = ''x''\<rparr>,
      ac1_Email = None, ac1_Webhook = None, ac1_WeCom = None, ac1_WeChat = None\<rparr>" by (simp add: level_rule_def)
qed (simp_all add: OperandUS_def cache_load_def env_at_def plain_elem_def time_IsZero_def no_rules_def)

text \<open>An operand has the property set in front, so the name of a virtual parameter is never one: a virtual parameter may be computed from itself.\<close>

lemma overlap_never_found:
  assumes "\<forall>op\<in>set operands. OperandUS \<in> set op" "OperandUS \<notin> set (p_Name (vp1_Property a))"
  shows "createVirtualParameterAction ev a (vp1_ThingId a) (vp1_PropertySetName a) props operands \<noteq> Inl (ErrVirtualParameterOverlapsOperand x)"
  using assms by (auto simp: createVirtualParameterAction_def validateVirtualParameterAndProperty_def ErrVirtualParameterOverlapsOperand_def ErrPropertyOfThingNotFound_def
      ErrVirtualParameterMismatchesProperty_def generateError_def split: option.splits)

subsection \<open>Failures\<close>

lemma marshal_webhook: "(ActionTypeWebhook, Some (Notify b s d as)) \<in> set xs \<Longrightarrow> MarshalBinary xs = None"
proof (induction xs)
  case (Cons x xs)
  then show ?case by (cases x) (auto simp: assert_action_def split: option.splits)
qed simp

text \<open>
  Creating a rule with a webhook action that passes all checks ends the rule service: the action is made as one type and asserted as another when the store encodes it. The file of the
  rule is left behind empty.
\<close>

theorem webhook_ends_process:
  assumes "rule_actions ev obj = Inr as" "ac1_Webhook (ru1_Actions obj) = Some w" "pe_fault e = no_fault" "\<not> time_IsZero now"
    "cache_load (rm_files m) (filepath_Join rules_resource uuid) = None"
  shows "\<exists>m' f. CreateRule ev e now uuid seed m obj = (m', ProcessEnds) \<and> cache_load (rm_files m') (filepath_Join rules_resource uuid) = Some f \<and> f_obj f = None"
proof -
  obtain b where b: "no1_Base w = Some b"
    using assms(1,2) by (cases "no1_Base w") (auto simp: rule_actions_def createWebhookAction_def notify_of_def Let_def split: sum.splits if_splits)
  then have "(ActionTypeWebhook, Some (Notify (SetDefaults_BaseAction b) (no1_Severity w) (no1_Description w) (no1_Addresses w))) \<in> set as"
    using assms(1,2) by (auto simp: rule_actions_def createWebhookAction_def notify_of_def entry_def Let_def split: sum.splits option.splits if_splits)
  then have none: "MarshalBinary as = None" using marshal_webhook by blast
  let ?r = "new_rule now uuid seed obj (hd (ru1_Evaluations obj)) as"
  have r: "om_ID ?r = uuid" "om_ModTime ?r = now" "ru_Actions ?r = as" by (simp_all add: new_rule_def)
  have "Store_persist rules_resource (with_encode False e) (rm_files m) (stored_rule [] ?r) =
      (cache_store (filepath_Join rules_resource uuid) \<lparr>f_obj = Some (stored_rule [] ?r), f_mtime = pe_now e\<rparr> (rm_files m), Inr (Some (stored_rule [] ?r)))"
    "fst (Store_persist rules_resource (with_encode True e) (rm_files m) (stored_rule [] ?r)) = cache_store (filepath_Join rules_resource uuid) \<lparr>f_obj = None, f_mtime = pe_now e\<rparr> (rm_files m)"
    using assms(3-5) r by (simp_all add: Store_persist_def FsClient_Get_def FsClient_Create_def no_fault_def with_encode_def)
  then show ?thesis using assms(1) none r by (simp add: CreateRule_def persist_rule_def)
qed

definition level_hook :: v1_NotifyAction where
  "level_hook = \<lparr>no1_Base = Some \<lparr>b1_Active = True, b1_Interval = None\<rparr>, no1_Description = ''x'', no1_Addresses = [''http://h''], no1_Severity = 20\<rparr>"

theorem webhook_ends_process_witness:
  "\<exists>m' f. CreateRule rule_world (env_at 1) 5 ''r'' 2 no_rules (level_rule (Some level_hook)) = (m', ProcessEnds) \<and>
    cache_load (rm_files m') (filepath_Join rules_resource ''r'') = Some f \<and> f_obj f = None"
proof -
  have "\<exists>as. rule_actions rule_world (level_rule (Some level_hook)) = Inr as" unfolding level_checks(2)
    by (simp add: createWebhookAction_def level_hook_def notify_of_def rule_world_def sample_notify_def)
  then obtain as where "rule_actions rule_world (level_rule (Some level_hook)) = Inr as" by blast
  then show ?thesis by (rule webhook_ends_process [where w = level_hook]) (simp_all add: level_rule_def env_at_def time_IsZero_def no_rules_def cache_load_def)
qed

text \<open>A rule that could not be written is answered like a created one, without an object.\<close>

lemma failed_write_answered:
  "rule_actions ev obj = Inr as \<Longrightarrow> persist_rule e (rm_files m) (new_rule now uuid seed obj (hd (ru1_Evaluations obj)) as) = (fs, Some (Inl err)) \<Longrightarrow>
    CreateRule ev e now uuid seed m obj = (m\<lparr>rm_files := fs\<rparr>, AnsweredNil)"
  by (simp add: CreateRule_def)

text \<open>
  While the model manager answers the version of a thing type, but not the question for its things, the rule service repeats the check of the type without a bound: after any number of
  attempts it is still waiting, and handles no other event of things and types.
\<close>

theorem type_event_never_ends:
  assumes "\<not> time_IsZero modTime" "\<forall>ev\<in>set evs. getThingTypeVersion ev i = Inr version \<and> isl (getThings ev i)"
  shows "thing_type_event m modTime i version evs = StillWaiting"
proof -
  have "process_thing_type m i version 3 evs = StillWaiting" using assms(2)
    by (induction evs) (auto simp: validateRules_def getThings_def isl_def split: reply.splits option.splits sum.splits)
  then show ?thesis using assms(1) by (simp add: thing_type_event_def)
qed

theorem type_event_never_ends_witness: "thing_type_event level_manager 9 ''T'' ''1'' (replicate 5 rule_world) = StillWaiting"
  by (rule type_event_never_ends) (simp_all add: time_IsZero_def rule_world_def getThingTypeVersion_def getThings_def)

end
