(* ===== verification/Realtime_Properties.thy ===== *)
theory Realtime_Properties
  imports Realtime Rule_Properties
begin

text \<open>
  The expressions that the collector keeps are those of the rules that it was told of: a refinement of the map from identifiers to usable rules. Evaluations only note their times.
\<close>

subsection \<open>Removing the expressions of a rule\<close>

lemma mset_move_last:
  assumes "i < length xs"
  shows "mset (butlast (xs[i := last xs])) = mset xs - {#xs ! i#}"
proof -
  have ne: "xs \<noteq> []" using assms by auto
  show ?thesis
  proof (cases "i = length xs - 1")
    case True
    then have "xs[i := last xs] = xs" "xs ! i = last xs" using ne by (simp_all add: last_conv_nth)
    then show ?thesis using ne append_butlast_last_id [OF ne] by (metis add_diff_cancel_right' mset.simps(1,2) mset_append)
  next
    case False
    then have i: "i < length xs - 1" using assms by simp
    then have "xs[i := last xs] = (butlast xs)[i := last xs] @ [last xs]" using append_butlast_last_id [OF ne] by (metis length_butlast list_update_append1)
    then have "mset (butlast (xs[i := last xs])) = mset ((butlast xs)[i := last xs])" by simp
    also have "\<dots> = add_mset (last xs) (mset (butlast xs) - {#butlast xs ! i#})" using i by (simp add: mset_update)
    also have "butlast xs ! i = xs ! i" using i by (simp add: nth_butlast)
    also have "add_mset (last xs) (mset (butlast xs) - {#xs ! i#}) = mset xs - {#xs ! i#}"
    proof -
      have "mset xs = add_mset (last xs) (mset (butlast xs))" using append_butlast_last_id [OF ne] by (metis add.commute add_mset_add_single mset.simps(1,2) mset_append)
      moreover have "xs ! i \<in># mset (butlast xs)" using i by (metis \<open>butlast xs ! i = xs ! i\<close> length_butlast nth_mem set_mset_mset)
      ultimately show ?thesis by simp
    qed
    finally show ?thesis .
  qed
qed

lemma mset_drop_rule:
  "\<forall>j<i. j < length xs \<longrightarrow> ex_RuleId (xs ! j) \<noteq> r \<Longrightarrow> mset (drop_rule i r xs) = {#x \<in># mset xs. ex_RuleId x \<noteq> r#}"
proof (induction i r xs rule: drop_rule.induct)
  case (1 i r xs)
  show ?case
  proof (cases "i < length xs")
    case False
    then have "\<forall>x\<in>set xs. ex_RuleId x \<noteq> r" using "1.prems" by (auto simp: all_set_conv_all_nth)
    then have "filter (\<lambda>x. ex_RuleId x \<noteq> r) xs = xs" by (simp add: filter_id_conv)
    then have "mset xs = {#x \<in># mset xs. ex_RuleId x \<noteq> r#}" using mset_filter [of "\<lambda>x. ex_RuleId x \<noteq> r" xs] by simp
    moreover have "drop_rule i r xs = xs" using False drop_rule.simps [of i r xs] by simp
    ultimately show ?thesis by simp
  next
    case True
    show ?thesis
    proof (cases "ex_RuleId (xs ! i) = r")
      case eq: True
      let ?ys = "butlast (xs[i := last xs])"
      have "\<forall>j<i. j < length ?ys \<longrightarrow> ex_RuleId (?ys ! j) \<noteq> r" using "1.prems" by (auto simp: nth_butlast)
      from "1.IH"(1) [OF True eq this] have "mset (drop_rule i r xs) = {#x \<in># mset xs - {#xs ! i#}. ex_RuleId x \<noteq> r#}"
        using True eq drop_rule.simps [of i r xs] by (simp add: mset_move_last)
      also have "\<dots> = {#x \<in># mset xs. ex_RuleId x \<noteq> r#}" using eq by (simp add: filter_diff_mset)
      finally show ?thesis .
    next
      case ne: False
      then have "\<forall>j<Suc i. j < length xs \<longrightarrow> ex_RuleId (xs ! j) \<noteq> r" using "1.prems" by (auto simp: less_Suc_eq)
      from "1.IH"(2) [OF True ne this] show ?thesis using True ne drop_rule.simps [of i r xs] by simp
    qed
  qed
qed

lemma mset_drop_rule_0: "mset (drop_rule 0 r xs) = {#x \<in># mset xs. ex_RuleId x \<noteq> r#}"
  by (rule mset_drop_rule) simp

subsection \<open>What is kept at a key\<close>

lemma exprs_at_store [simp]: "exprs_at (cache_store k xs m) k' = (if k' = k then xs else exprs_at m k')"
  by (simp add: exprs_at_def)

lemma exprs_at_delete [simp]: "exprs_at (cache_delete k m) k' = (if k' = k then [] else exprs_at m k')"
  by (simp add: exprs_at_def)

lemma drop_rule_Nil [simp]: "drop_rule i r [] = []"
  by (subst drop_rule.simps) simp

lemma exprs_drop_at: "mset (exprs_at (drop_at r m k) k') = (if k' = k then {#x \<in># mset (exprs_at m k'). ex_RuleId x \<noteq> r#} else mset (exprs_at m k'))"
proof -
  have "mset (drop_rule 0 r xs) = {#} \<longleftrightarrow> drop_rule 0 r xs = []" for xs by simp
  then show ?thesis by (auto simp: drop_at_def put_exprs_def mset_drop_rule_0 [symmetric] exprs_at_def split: option.split)
qed

lemma exprs_drop_all:
  "mset (exprs_at (foldl (drop_at r) m ks) k') = (if k' \<in> set ks then {#x \<in># mset (exprs_at m k'). ex_RuleId x \<noteq> r#} else mset (exprs_at m k'))"
  by (induction ks arbitrary: m) (auto simp: exprs_drop_at filter_filter_mset conj_commute)

lemma exprs_replace_all:
  "distinct ks \<Longrightarrow> mset (exprs_at (foldl (replace_at r news) m ks) k') = (if k' \<in> set ks then {#x \<in># mset (exprs_at m k'). ex_RuleId x \<noteq> r#} + mset news else mset (exprs_at m k'))"
  by (induction ks arbitrary: m) (auto simp: replace_at_def mset_drop_rule_0)

lemma exprs_add_all:
  "distinct ks \<Longrightarrow> exprs_at (foldl (add_at news) m ks) k' = (if k' \<in> set ks then exprs_at m k' @ news else exprs_at m k')"
  by (induction ks arbitrary: m) (auto simp: add_at_def)

lemma cache_ok_folds:
  "cache_ok m \<Longrightarrow> cache_ok (foldl (drop_at r) m ks)" "cache_ok m \<Longrightarrow> cache_ok (foldl (replace_at r news) m ks)" "cache_ok m \<Longrightarrow> cache_ok (foldl (add_at news) m ks)"
proof -
  show "cache_ok m \<Longrightarrow> cache_ok (foldl (drop_at r) m ks)" by (induction ks arbitrary: m) (simp_all add: drop_at_def put_exprs_def split: option.split)
  show "cache_ok m \<Longrightarrow> cache_ok (foldl (replace_at r news) m ks)" by (induction ks arbitrary: m) (simp_all add: replace_at_def)
  show "cache_ok m \<Longrightarrow> cache_ok (foldl (add_at news) m ks)" by (induction ks arbitrary: m) (simp_all add: add_at_def)
qed

lemma no_rule_filter: "\<forall>x\<in>set xs. ex_RuleId x \<noteq> r \<Longrightarrow> {#x \<in># mset xs. ex_RuleId x \<noteq> r#} = mset xs"
  by (induction xs) simp_all

lemma getKeys_set:
  assumes "cache_ok (rt_Rules rt)"
  shows "set (getKeysByRuleID rt r) = {k. \<exists>x\<in>set (exprs_at (rt_Rules rt) k). ex_RuleId x = r}" "distinct (getKeysByRuleID rt r)"
proof -
  show "set (getKeysByRuleID rt r) = {k. \<exists>x\<in>set (exprs_at (rt_Rules rt) k). ex_RuleId x = r}"
    unfolding getKeysByRuleID_def exprs_at_def
  proof (intro set_eqI iffI)
    fix k assume "k \<in> set (map fst (filter (\<lambda>(k, xs). list_ex (\<lambda>x. ex_RuleId x = r) xs) (rt_Rules rt)))"
    then obtain xs where "(k, xs) \<in> set (rt_Rules rt)" "\<exists>x\<in>set xs. ex_RuleId x = r" unfolding list_ex_iff by auto blast
    then show "k \<in> {k. \<exists>x\<in>set (case cache_load (rt_Rules rt) k of None \<Rightarrow> [] | Some xs \<Rightarrow> xs). ex_RuleId x = r}" using cache_load_set_iff [OF assms, of k xs] by auto
  next
    fix k assume "k \<in> {k. \<exists>x\<in>set (case cache_load (rt_Rules rt) k of None \<Rightarrow> [] | Some xs \<Rightarrow> xs). ex_RuleId x = r}"
    then obtain xs where "cache_load (rt_Rules rt) k = Some xs" "\<exists>x\<in>set xs. ex_RuleId x = r" by (cases "cache_load (rt_Rules rt) k") auto
    then have "(k, xs) \<in> set (rt_Rules rt)" "list_ex (\<lambda>x. ex_RuleId x = r) xs" using cache_load_set_iff [OF assms, of k xs] by (simp_all add: list_ex_iff)
    then show "k \<in> set (map fst (filter (\<lambda>(k, xs). list_ex (\<lambda>x. ex_RuleId x = r) xs) (rt_Rules rt)))" by force
  qed
  show "distinct (getKeysByRuleID rt r)" using assms unfolding getKeysByRuleID_def cache_ok_def by (rule distinct_map_filter)
qed

text \<open>The deletion and the update of a rule, at every key.\<close>

lemma deleted_at:
  assumes "cache_ok (rt_Rules rt)" "cache_load (rt_enabled rt) (om_ID r) \<noteq> None"
  shows "mset (exprs_at (rt_Rules (onRuleDeleted rt r)) k) = {#x \<in># mset (exprs_at (rt_Rules rt) k). ex_RuleId x \<noteq> om_ID r#}"
proof (cases "k \<in> set (getKeysByRuleID rt (om_ID r))")
  case True
  then show ?thesis using assms(2) by (simp add: onRuleDeleted_def exprs_drop_all)
next
  case False
  then have "\<forall>x\<in>set (exprs_at (rt_Rules rt) k). ex_RuleId x \<noteq> om_ID r" unfolding getKeys_set(1) [OF assms(1)] by simp
  from no_rule_filter [OF this] show ?thesis using False assms(2) by (simp add: onRuleDeleted_def exprs_drop_all)
qed

lemma updated_at:
  assumes ok: "cache_ok (rt_Rules rt)" and r: "usable r" "ru_Evaluations r = e # es" "rule_sets ev e = Some (expr, sets)" and up: "onRuleUpdated ev rt r = Some rt'"
  shows "mset (exprs_at (rt_Rules rt') k) = {#x \<in># mset (exprs_at (rt_Rules rt) k). ex_RuleId x \<noteq> om_ID r#} +
    (if k \<in> (\<lambda>(s, v). filepath_Join (ru_ThingId r) s) ` set sets then mset (map (\<lambda>(s, v). new_expression r expr v) sets) else {#})"
    "cache_ok (rt_Rules rt')" "rt_enabled rt' = rt_enabled rt"
proof -
  let ?news = "map (\<lambda>(s, v). new_expression r expr v) sets" and ?keys = "remdups (map (\<lambda>(s, v). filepath_Join (ru_ThingId r) s) sets)"
  obtain ins upd del where d: "DifferenceAndIntersectionStrings ?keys (getKeysByRuleID rt (om_ID r)) = (ins, upd, del)" by (metis prod_cases3)
  note D = differences [of ?keys "getKeysByRuleID rt (om_ID r)", unfolded d fst_conv snd_conv]
  have rt': "rt' = rt\<lparr>rt_Rules := foldl (drop_at (om_ID r)) (foldl (replace_at (om_ID r) ?news) (foldl (add_at ?news) (rt_Rules rt) ins) upd) del\<rparr>"
    using up r d by (simp add: onRuleUpdated_def Let_def)
  show "cache_ok (rt_Rules rt')" "rt_enabled rt' = rt_enabled rt" using ok by (simp_all add: rt' cache_ok_folds)
  note G = getKeys_set(1) [OF ok, of "om_ID r"]
  have none: "{#x \<in># mset (exprs_at (rt_Rules rt) k). ex_RuleId x \<noteq> om_ID r#} = mset (exprs_at (rt_Rules rt) k)" if "k \<notin> set (getKeysByRuleID rt (om_ID r))"
    using that G no_rule_filter by auto
  have "k \<in> (\<lambda>(s, v). filepath_Join (ru_ThingId r) s) ` set sets \<longleftrightarrow> k \<in> set ?keys" by (simp add: image_iff)
  moreover have "k \<in> set ins \<longleftrightarrow> k \<in> set ?keys \<and> k \<notin> set (getKeysByRuleID rt (om_ID r))" "k \<in> set upd \<longleftrightarrow> k \<in> set ?keys \<and> k \<in> set (getKeysByRuleID rt (om_ID r))"
    "k \<in> set del \<longleftrightarrow> k \<notin> set ?keys \<and> k \<in> set (getKeysByRuleID rt (om_ID r))" using D(1-3) by auto
  ultimately show "mset (exprs_at (rt_Rules rt') k) = {#x \<in># mset (exprs_at (rt_Rules rt) k). ex_RuleId x \<noteq> om_ID r#} +
      (if k \<in> (\<lambda>(s, v). filepath_Join (ru_ThingId r) s) ` set sets then mset ?news else {#})"
    using none by (simp add: rt' exprs_drop_all exprs_replace_all [OF D(5)] exprs_add_all [OF D(4)])
qed

lemma received_all:
  "exprs_at (foldl (\<lambda>m (k, v). let key = filepath_Join t k in cache_store key (exprs_at m key @ [new_expression r expr v]) m) m sets) k =
     exprs_at m k @ map (\<lambda>(s, v). new_expression r expr v) (filter (\<lambda>(s, v). filepath_Join t s = k) sets)"
  by (induction sets arbitrary: m) (auto simp: Let_def)

lemma received_ok:
  "cache_ok m \<Longrightarrow> cache_ok (foldl (\<lambda>m (k, v). let key = filepath_Join t k in cache_store key (exprs_at m key @ [new_expression r expr v]) m) m sets)"
  by (induction sets arbitrary: m) (auto simp: Let_def)

subsection \<open>The specification\<close>

text \<open>A rule that is evaluated: it is active, evaluated in real time, has an active action, and its expression and operands are legal.\<close>

definition evaluated :: "rule_env \<Rightarrow> StoredRule \<Rightarrow> bool" where
  "evaluated ev r = (usable r \<and> (case ru_Evaluations r of [] \<Rightarrow> False | e # _ \<Rightarrow> rule_sets ev e \<noteq> None))"

definition rule_exprs :: "rule_env \<Rightarrow> StoredRule \<Rightarrow> string \<Rightarrow> Expression list" where
  "rule_exprs ev r key =
     (case ru_Evaluations r of
        [] \<Rightarrow> []
      | e # _ \<Rightarrow>
          (case rule_sets ev e of
             None \<Rightarrow> []
           | Some (expr, sets) \<Rightarrow> map (\<lambda>(s, v). new_expression r expr v) (filter (\<lambda>(s, v). filepath_Join (ru_ThingId r) s = key) sets)))"

definition rt_spec :: "rule_env \<Rightarrow> (string \<rightharpoonup> StoredRule) \<Rightarrow> StoredRule \<Rightarrow> (string \<rightharpoonup> StoredRule)" where
  "rt_spec ev S r = S(om_ID r := if \<not> time_IsZero (om_ModTime r) \<and> evaluated ev r then Some r else None)"

text \<open>A deletion, or a rule as the rule service accepts it: with an evaluation, over at most one property set.\<close>

definition accepted_rule :: "rule_env \<Rightarrow> StoredRule \<Rightarrow> bool" where
  "accepted_rule ev r =
     (time_IsZero (om_ModTime r) \<or> (case ru_Evaluations r of [] \<Rightarrow> False | e # _ \<Rightarrow> (case rule_sets ev e of None \<Rightarrow> True | Some (_, sets) \<Rightarrow> length sets \<le> 1)))"

definition untouched :: "Expression \<Rightarrow> Expression" where "untouched x = x\<lparr>ex_EvaluationTimestamp := 0\<rparr>"

definition kept :: "realtime \<Rightarrow> string \<Rightarrow> string \<Rightarrow> Expression multiset" where
  "kept rt k i = {#x \<in># image_mset untouched (mset (exprs_at (rt_Rules rt) k)). ex_RuleId x = i#}"

definition refines :: "rule_env \<Rightarrow> realtime \<Rightarrow> (string \<rightharpoonup> StoredRule) \<Rightarrow> bool" where
  "refines ev rt S \<longleftrightarrow> cache_ok (rt_Rules rt) \<and> (\<forall>i. cache_load (rt_enabled rt) i = None \<longleftrightarrow> S i = None) \<and>
     (\<forall>k i. kept rt k i = (case S i of None \<Rightarrow> {#} | Some r \<Rightarrow> mset (rule_exprs ev r k)))"

lemma untouched_simps [simp]: "ex_RuleId (untouched x) = ex_RuleId x" "untouched (new_expression r expr v) = new_expression r expr v" "ex_RuleId (new_expression r expr v) = om_ID r"
  by (simp_all add: untouched_def new_expression_def)

lemma rule_exprs_own [simp]: "image_mset untouched (mset (rule_exprs ev r k)) = mset (rule_exprs ev r k)"
  "{#x \<in># mset (rule_exprs ev r k). ex_RuleId x = i#} = (if i = om_ID r then mset (rule_exprs ev r k) else {#})"
proof -
  have "untouched x = x \<and> ex_RuleId x = om_ID r" if "x \<in> set (rule_exprs ev r k)" for x
    using that by (auto simp: rule_exprs_def split: list.splits option.splits)
  moreover have "image_mset untouched (mset xs) = mset xs" if "\<forall>x\<in>set xs. untouched x = x" for xs using that by (induction xs) simp_all
  moreover have "{#x \<in># mset xs. ex_RuleId x = i#} = (if i = om_ID r then mset xs else {#})" if "\<forall>x\<in>set xs. ex_RuleId x = om_ID r" for xs using that by (induction xs) auto
  ultimately show "image_mset untouched (mset (rule_exprs ev r k)) = mset (rule_exprs ev r k)"
    "{#x \<in># mset (rule_exprs ev r k). ex_RuleId x = i#} = (if i = om_ID r then mset (rule_exprs ev r k) else {#})" by blast+
qed

lemma filtered_other:
  "{#x \<in># image_mset untouched {#x \<in># M. ex_RuleId x \<noteq> r#}. ex_RuleId x = i#} = (if i = r then {#} else {#x \<in># image_mset untouched M. ex_RuleId x = i#})"
proof (cases "i = r")
  case False
  then show ?thesis by (induction M) simp_all
qed auto

text \<open>A step that drops the expressions of one rule everywhere and adds new ones.\<close>

lemma refines_step:
  assumes ref: "refines ev rt S" and ok: "cache_ok (rt_Rules rt')"
    and at_k: "\<And>k. mset (exprs_at (rt_Rules rt') k) = {#x \<in># mset (exprs_at (rt_Rules rt) k). ex_RuleId x \<noteq> om_ID r#} + (if new then mset (rule_exprs ev r k) else {#})"
    and en: "\<And>i. cache_load (rt_enabled rt') i = None \<longleftrightarrow> (if i = om_ID r then \<not> new else cache_load (rt_enabled rt) i = None)"
  shows "refines ev rt' (S(om_ID r := if new then Some r else None))"
proof -
  have keep: "kept rt' k i = (if i = om_ID r then (if new then mset (rule_exprs ev r k) else {#}) else kept rt k i)" for k i
  proof -
    have "kept rt' k i = {#x \<in># image_mset untouched {#x \<in># mset (exprs_at (rt_Rules rt) k). ex_RuleId x \<noteq> om_ID r#}. ex_RuleId x = i#} +
        {#x \<in># (if new then mset (rule_exprs ev r k) else {#}). ex_RuleId x = i#}"
      by (simp add: kept_def at_k)
    then show ?thesis unfolding filtered_other by (simp add: kept_def del: filter_mset_eq_mempty_iff)
  qed
  show ?thesis unfolding refines_def
  proof (intro conjI allI)
    show "cache_ok (rt_Rules rt')" by (rule ok)
    show "cache_load (rt_enabled rt') i = None \<longleftrightarrow> (S(om_ID r := if new then Some r else None)) i = None" for i
      using en [of i] ref by (simp add: refines_def)
    show "kept rt' k i = (case (S(om_ID r := if new then Some r else None)) i of None \<Rightarrow> {#} | Some r \<Rightarrow> mset (rule_exprs ev r k))" for k i
      using keep [of k i] ref by (simp add: refines_def)
  qed
qed

lemma refines_none:
  assumes "refines ev rt S" "S (om_ID r) = None"
  shows "{#x \<in># mset (exprs_at (rt_Rules rt) k). ex_RuleId x \<noteq> om_ID r#} = mset (exprs_at (rt_Rules rt) k)"
proof (rule no_rule_filter)
  have "kept rt k (om_ID r) = {#}" using assms by (simp add: refines_def)
  then show "\<forall>x\<in>set (exprs_at (rt_Rules rt) k). ex_RuleId x \<noteq> om_ID r" by (auto simp: kept_def)
qed

lemma deleted_refines:
  assumes "refines ev rt S"
  shows "refines ev (onRuleDeleted rt r) (S(om_ID r := None))"
proof (cases "cache_load (rt_enabled rt) (om_ID r)")
  case None
  then have "S (om_ID r) = None" using assms unfolding refines_def by blast
  then have "S(om_ID r := None) = S" by auto
  with None assms show ?thesis by (simp add: onRuleDeleted_def)
next
  case (Some u)
  have ok: "cache_ok (rt_Rules rt)" using assms by (simp add: refines_def)
  then have ok': "cache_ok (rt_Rules (onRuleDeleted rt r))" using Some by (simp add: onRuleDeleted_def cache_ok_folds)
  have "mset (exprs_at (rt_Rules (onRuleDeleted rt r)) k) = {#x \<in># mset (exprs_at (rt_Rules rt) k). ex_RuleId x \<noteq> om_ID r#}" for k
    using deleted_at [OF ok] Some by simp
  then show ?thesis using refines_step [OF assms ok', of r False] Some by (simp add: onRuleDeleted_def)
qed

lemma received_step:
  assumes ref: "refines ev rt S" and none: "S (om_ID r) = None" and e: "ru_Evaluations r = e # es"
  shows "\<exists>rt'. onRuleReceived ev rt r = Some rt' \<and> refines ev rt' (S(om_ID r := if evaluated ev r then Some r else None))"
proof (cases "usable r \<and> rule_sets ev e \<noteq> None")
  case False
  then have "S(om_ID r := if evaluated ev r then Some r else None) = S" using none by (auto simp: evaluated_def e)
  moreover have "onRuleReceived ev rt r = Some rt" using False by (cases "rule_sets ev e") (auto simp: onRuleReceived_def e)
  ultimately show ?thesis using ref by simp
next
  case True
  then obtain expr sets where sets: "rule_sets ev e = Some (expr, sets)" by auto
  let ?m = "foldl (\<lambda>m (k, v). let key = filepath_Join (ru_ThingId r) k in cache_store key (exprs_at m key @ [new_expression r expr v]) m) (rt_Rules rt) sets"
  let ?rt = "\<lparr>rt_Rules = ?m, rt_enabled = cache_store (om_ID r) () (rt_enabled rt)\<rparr>"
  have "onRuleReceived ev rt r = Some ?rt" using True sets by (simp add: onRuleReceived_def e)
  moreover have "refines ev ?rt (S(om_ID r := if True then Some r else None))"
  proof (rule refines_step [OF ref])
    show "cache_ok (rt_Rules ?rt)" using ref received_ok by (simp add: refines_def)
    show "mset (exprs_at (rt_Rules ?rt) k) = {#x \<in># mset (exprs_at (rt_Rules rt) k). ex_RuleId x \<noteq> om_ID r#} + (if True then mset (rule_exprs ev r k) else {#})" for k
      by (simp add: received_all refines_none [OF ref none] rule_exprs_def e sets)
  qed simp
  moreover have "evaluated ev r" using True by (simp add: evaluated_def e)
  ultimately show ?thesis by simp
qed

lemma received_refines:
  assumes ref: "refines ev rt S" and r: "accepted_rule ev r" "\<not> time_IsZero (om_ModTime r)" "cache_load (rt_enabled rt) (om_ID r) = None"
  shows "\<exists>rt'. onRuleReceived ev rt r = Some rt' \<and> refines ev rt' (rt_spec ev S r)"
proof -
  have none: "S (om_ID r) = None" using ref r(3) unfolding refines_def by blast
  obtain e es where e: "ru_Evaluations r = e # es" using r(1,2) by (auto simp: accepted_rule_def split: list.splits)
  show ?thesis using received_step [OF ref none e] r(2) by (simp add: rt_spec_def)
qed

lemma updated_refines:
  assumes ref: "refines ev rt S" and r: "accepted_rule ev r" "\<not> time_IsZero (om_ModTime r)" "cache_load (rt_enabled rt) (om_ID r) \<noteq> None"
  shows "\<exists>rt'. onRuleUpdated ev rt r = Some rt' \<and> refines ev rt' (rt_spec ev S r)"
proof -
  obtain e es where e: "ru_Evaluations r = e # es" using r(1,2) by (auto simp: accepted_rule_def split: list.splits)
  show ?thesis
  proof (cases "usable r \<and> rule_sets ev e \<noteq> None")
    case False
    then have "rt_spec ev S r = S(om_ID r := None)" by (auto simp: rt_spec_def evaluated_def e)
    moreover have "onRuleUpdated ev rt r = Some (onRuleDeleted rt r)" using False by (cases "rule_sets ev e") (auto simp: onRuleUpdated_def e)
    ultimately show ?thesis using deleted_refines [OF ref] by simp
  next
    case True
    then obtain expr sets where sets: "rule_sets ev e = Some (expr, sets)" by auto
    with r(1,2) have one: "length sets \<le> 1" by (simp add: accepted_rule_def e)
    have ok: "cache_ok (rt_Rules rt)" using ref by (simp add: refines_def)
    have "onRuleUpdated ev rt r \<noteq> None" using True sets by (simp add: onRuleUpdated_def e Let_def split: prod.split)
    then obtain rt' where rt': "onRuleUpdated ev rt r = Some rt'" by blast
    note U = updated_at [OF ok _ e sets rt']
    have "(if k \<in> (\<lambda>(s, v). filepath_Join (ru_ThingId r) s) ` set sets then mset (map (\<lambda>(s, v). new_expression r expr v) sets) else {#}) = mset (rule_exprs ev r k)" for k
      using one by (cases sets) (auto simp: rule_exprs_def e sets)
    then have "refines ev rt' (S(om_ID r := if True then Some r else None))" using True U r(3) by (intro refines_step [OF ref]) simp_all
    moreover have "rt_spec ev S r = S(om_ID r := Some r)" using True r(2) by (simp add: rt_spec_def evaluated_def e)
    ultimately show ?thesis using rt' by simp
  qed
qed

lemma event_refines:
  assumes "refines ev rt S" "accepted_rule ev r"
  shows "\<exists>rt'. rt_processEvent ev rt r = Some rt' \<and> refines ev rt' (rt_spec ev S r)"
proof (cases "time_IsZero (om_ModTime r)")
  case True
  then show ?thesis using deleted_refines [OF assms(1)] by (simp add: rt_processEvent_def rt_spec_def)
next
  case False
  then show ?thesis using received_refines [OF assms] updated_refines [OF assms]
    by (cases "cache_load (rt_enabled rt) (om_ID r)") (simp_all add: rt_processEvent_def)
qed

lemma evaluation_refines:
  assumes "refines ev rt S"
  shows "refines ev (fst (Evaluate env now rt key raw)) S"
proof -
  let ?rt = "fst (Evaluate env now rt key raw)"
  have "image_mset untouched (mset (exprs_at (rt_Rules ?rt) k)) = image_mset untouched (mset (exprs_at (rt_Rules rt) k))" for k
  proof (cases "cache_load (rt_Rules rt) key")
    case (Some xs)
    have "image_mset untouched (mset (map (\<lambda>x. if too_early now x then x else x\<lparr>ex_EvaluationTimestamp := now\<rparr>) xs)) = image_mset untouched (mset xs)"
      by (induction xs) (simp_all add: untouched_def)
    then show ?thesis using Some by (auto simp: Evaluate_def exprs_at_def)
  qed (simp add: Evaluate_def)
  then have "kept ?rt k i = kept rt k i" for k i by (simp add: kept_def)
  moreover have "cache_ok (rt_Rules ?rt)" "rt_enabled ?rt = rt_enabled rt" using assms by (auto simp: Evaluate_def refines_def split: option.split)
  ultimately show ?thesis using assms by (simp add: refines_def)
qed

subsection \<open>Runs\<close>

datatype rt_event = RuleEvent StoredRule | DataEvent time string raw

fun rt_step :: "rt_env \<Rightarrow> realtime option \<Rightarrow> rt_event \<Rightarrow> realtime option" where
  "rt_step env rt (RuleEvent r) = Option.bind rt (\<lambda>rt. rt_processEvent (te_rules env) rt r)"
| "rt_step env rt (DataEvent now key raw) = map_option (\<lambda>rt. fst (Evaluate env now rt key raw)) rt"

fun spec_step :: "rule_env \<Rightarrow> (string \<rightharpoonup> StoredRule) \<Rightarrow> rt_event \<Rightarrow> (string \<rightharpoonup> StoredRule)" where
  "spec_step ev S (RuleEvent r) = rt_spec ev S r"
| "spec_step ev S (DataEvent now key raw) = S"

definition accepted_event :: "rule_env \<Rightarrow> rt_event \<Rightarrow> bool" where
  "accepted_event ev x = (case x of RuleEvent r \<Rightarrow> accepted_rule ev r | DataEvent _ _ _ \<Rightarrow> True)"

lemma run_refines:
  assumes "refines (te_rules env) rt S" "\<forall>x\<in>set xs. accepted_event (te_rules env) x"
  shows "\<exists>rt'. foldl (rt_step env) (Some rt) xs = Some rt' \<and> refines (te_rules env) rt' (foldl (spec_step (te_rules env)) S xs)"
  using assms
proof (induction xs arbitrary: rt S)
  case (Cons x xs)
  have "\<exists>rt1. rt_step env (Some rt) x = Some rt1 \<and> refines (te_rules env) rt1 (spec_step (te_rules env) S x)"
    using Cons.prems event_refines evaluation_refines by (cases x) (auto simp: accepted_event_def)
  then show ?case using Cons.IH Cons.prems(2) by fastforce
qed simp

definition no_expressions :: realtime where "no_expressions = \<lparr>rt_Rules = [], rt_enabled = []\<rparr>"

text \<open>
  C4: after every sequence of watch events of rules over at most one property set each, with evaluations of incoming data in between, the collector has not crashed, and keeps at every key
  exactly the expressions, as they were made, of those rules whose last event left them active, in real time, with an active action and a legal expression.
\<close>

theorem realtime_follows_rules:
  assumes "\<forall>x\<in>set xs. accepted_event (te_rules env) x" "S = foldl (spec_step (te_rules env)) Map.empty xs"
  shows "\<exists>rt. foldl (rt_step env) (Some no_expressions) xs = Some rt \<and>
    (\<forall>k i. kept rt k i = (case S i of None \<Rightarrow> {#} | Some r \<Rightarrow> mset (rule_exprs (te_rules env) r k)))"
proof -
  have "refines (te_rules env) no_expressions Map.empty" by (simp add: refines_def no_expressions_def kept_def exprs_at_def)
  from run_refines [OF this assms(1)] assms(2) show ?thesis unfolding refines_def by blast
qed

definition level_stored :: StoredRule where "level_stored = stored_rule [(ActionTypeEvent, level_action)] level_saved"

definition alert_env :: rt_env where
  "alert_env = \<lparr>te_rules = rule_world, te_engine = (\<lambda>raw ps expr t. [(1000, 1)]), te_format = (\<lambda>_. ''now''), te_float = word_of_int, te_NaN = 0,
     te_values = \<lparr>ee_int = sint, ee_ParseFloat = (\<lambda>_. None), ee_url = (\<lambda>_. True), ee_Sprint = (\<lambda>_. []), ee_time = (\<lambda>_. None), ee_validate = (\<lambda>_. None)\<rparr>\<rparr>"

lemma level_sets: "\<exists>expr. rule_sets rule_world (hd (ru1_Evaluations (level_rule None))) = Some (expr, [(''p'', [''a'', ''b''])])"
proof -
  obtain expr where "Parse rule_world (el_Expression (hd (ru1_Evaluations (level_rule None)))) = Some (expr, [[CHR ''p'', OperandUS, CHR ''a''], [CHR ''p'', OperandUS, CHR ''b'']])"
    using level_operands [of None] by (auto simp: parsed_operands_def split: option.splits)
  then show ?thesis by (simp add: rule_sets_def OperandUS_def cache_load_def)
qed

lemma level_stored_facts: "accepted_rule rule_world level_stored" "evaluated rule_world level_stored" "\<not> time_IsZero (om_ModTime level_stored)" "om_ID level_stored = ''r''"
proof -
  have e: "ru_Evaluations level_stored = [hd (ru1_Evaluations (level_rule None))]" by (simp add: level_stored_def stored_rule_def level_saved_def level_rule_def)
  show "accepted_rule rule_world level_stored" using level_sets by (auto simp: accepted_rule_def e)
  have "usable level_stored" by (simp add: usable_def level_stored_def stored_rule_def level_saved_def hasActiveAction_def IsActive_def level_action_def)
  then show "evaluated rule_world level_stored" using level_sets by (auto simp: evaluated_def e)
qed (simp_all add: level_stored_def level_saved_def time_IsZero_def)

theorem realtime_follows_rules_witness:
  "\<exists>rt. foldl (rt_step alert_env) (Some no_expressions) [RuleEvent level_stored] = Some rt \<and> (\<forall>k. kept rt k ''r'' = mset (rule_exprs rule_world level_stored k))"
proof -
  have "\<forall>x\<in>set [RuleEvent level_stored]. accepted_event (te_rules alert_env) x" by (simp add: accepted_event_def alert_env_def level_stored_facts)
  from realtime_follows_rules [OF this refl] show ?thesis by (auto simp: rt_spec_def level_stored_facts alert_env_def)
qed

end
