(* ===== verification/Notification_Losses.thy ===== *)
theory Notification_Losses
  imports Notification_Properties
begin

text \<open>Messages, secrets and deletions of the notification service: what a message made from a template contains, that no secret is stored in clear text, and what deletions and missing servers lead to.\<close>

subsection \<open>Messages from templates\<close>

abbreviation fill_item :: "(string, json) smap \<Rightarrow> PlaceholderItem \<Rightarrow> (string, json) smap" where
  "fill_item \<equiv> \<lambda>p it. case ph_DefaultValue it of None \<Rightarrow> p | Some v \<Rightarrow> if cache_load p (ph_Name it) = None then cache_store (ph_Name it) v p else p"

lemma fill_items_keep: "cache_load p k = Some v \<Longrightarrow> cache_load (foldl fill_item p its) k = Some v"
proof (induction its arbitrary: p)
  case (Cons x its)
  have "cache_load (fill_item p x) k = Some v" using Cons.prems by (auto split: option.split)
  from Cons.IH [OF this] show ?case by simp
qed simp

lemma fill_defaults_keeps: "cache_load payload k = Some v \<Longrightarrow> cache_load (fill_defaults payload mt) k = Some v"
  by (simp add: fill_defaults_def fill_items_keep split: option.split)

lemma fill_all_keeps: "cache_load payload k = Some v \<Longrightarrow> cache_load (foldl fill_defaults payload mts) k = Some v"
  by (induction mts arbitrary: payload) (auto intro: fill_defaults_keeps)

lemma fill_defaults_fills:
  assumes "mt_Placeholder mt = Some tp" "it \<in> set (tp_Placeholders tp)" "ph_DefaultValue it \<noteq> None"
  shows "cache_load (fill_defaults payload mt) (ph_Name it) \<noteq> None"
proof -
  have "it \<in> set its \<Longrightarrow> cache_load (foldl fill_item p its) (ph_Name it) \<noteq> None" for p its
  proof (induction its arbitrary: p)
    case (Cons x its)
    show ?case
    proof (cases "x = it")
      case True
      then obtain v where "cache_load (fill_item p x) (ph_Name it) = Some v" using assms(3) by (fastforce split: option.split)
      from fill_items_keep [OF this] show ?thesis by simp
    next
      case False
      with Cons show ?thesis by simp
    qed
  qed simp
  with assms show ?thesis by (simp add: fill_defaults_def)
qed

lemma fill_all_fills:
  assumes "mt \<in> set mts" "mt_Placeholder mt = Some tp" "it \<in> set (tp_Placeholders tp)" "ph_DefaultValue it \<noteq> None"
  shows "cache_load (foldl fill_defaults payload mts) (ph_Name it) \<noteq> None"
  using assms(1)
proof (induction mts arbitrary: payload)
  case (Cons x mts)
  show ?case
  proof (cases "x = mt")
    case True
    then obtain v where "cache_load (fill_defaults payload x) (ph_Name it) = Some v" using fill_defaults_fills [OF assms(2-4), of payload] by auto
    from fill_all_keeps [OF this, of mts] show ?thesis by simp
  qed (use Cons in simp)
qed simp

lemma channel_addresses_set:
  "set (channel_addresses m ch rs) = {ri_Address d |d. \<exists>i\<in>set rs. \<exists>r. GetRecipientById m i = Inr r \<and> d \<in> set (rc_Detail r) \<and> ri_Type d = ch}"
  by (force simp: channel_addresses_def split: sum.splits)

lemma all_messages_found:
  assumes "\<forall>i\<in>set is. cache_load (nf_msgs m) i \<noteq> None" "msg_ids_ok m"
  shows "map om_ID (List.map_filter (\<lambda>i. case GetMessageTmplById m i True of Inl _ \<Rightarrow> None | Inr mt \<Rightarrow> Some mt) is) = is"
  using assms by (induction "is") (auto simp: List.map_filter_simps GetMessageTmplById_def msg_ids_ok_def)

lemma msg_ids_run: "msg_ids_ok m \<Longrightarrow> msg_ids_ok (foldl (nf_step render ev) m rs)"
  by (induction rs arbitrary: m) (simp_all add: msg_ids_step)

text \<open>
  C15: a message that a template request sends in a reachable state goes, once each, to exactly the addresses that the template's recipients have for the channel, carries all of the template's
  message templates in their order, keeps every value of the request, and has a value for every placeholder with a default.
\<close>

theorem template_message_complete:
  assumes "nf_run_admissible render ev no_notifications rs" "m = foldl (nf_step render ev) no_notifications rs" "ms_To obj = []" "GetTmplById m (ms_TemplateId obj) = Inr t" "ms_TemplateId obj \<noteq> []"
    "SendMessage m obj = Inr (Some msg)"
  shows "distinct (ms_To msg) \<and> set (ms_To msg) = {ri_Address d |d. \<exists>i\<in>set (tm_Recipients t). \<exists>r. GetRecipientById m i = Inr r \<and> d \<in> set (rc_Detail r) \<and> ri_Type d = ms_Channel obj} \<and>
    map om_ID (ms_MsgTmpls msg) = tm_MessageTemplates t \<and> (\<forall>k v. cache_load (ms_Payload obj) k = Some v \<longrightarrow> cache_load (ms_Payload msg) k = Some v) \<and>
    (\<forall>mt\<in>set (ms_MsgTmpls msg). \<forall>tp it. mt_Placeholder mt = Some tp \<longrightarrow> it \<in> set (tp_Placeholders tp) \<longrightarrow> ph_DefaultValue it \<noteq> None \<longrightarrow> cache_load (ms_Payload msg) (ph_Name it) \<noteq> None)"
proof -
  have "tmpl_refs no_notifications" "msg_ids_ok no_notifications" by (simp_all add: tmpl_refs_def msg_ids_ok_def no_notifications_def)
  then have ok: "tmpl_refs m" "msg_ids_ok m" using tmpl_refs_run assms(1,2) msg_ids_run by blast+
  let ?mts = "List.map_filter (\<lambda>i. case GetMessageTmplById m i True of Inl _ \<Rightarrow> None | Inr mt \<Rightarrow> Some mt) (tm_MessageTemplates t)"
  have "cache_load (nf_tmpls m) (ms_TemplateId obj) = Some t" using assms(4) by (simp add: GetTmplById_def split: option.splits)
  note T = tmpl_refsD [OF ok(1) this]
  have "template_message m obj t = Inr msg"
    using assms(3-6) by (cases "template_message m obj t") (auto simp: SendMessage_def parseMessageType_def split: option.splits sum.splits if_splits)
  then have "ms_To msg = channel_addresses m (ms_Channel obj) (tm_Recipients t)" "ms_MsgTmpls msg = ?mts" "ms_Payload msg = foldl fill_defaults (ms_Payload obj) ?mts"
    using assms(3) by (auto simp: template_message_def Let_def split: sum.splits)
  then show ?thesis using all_messages_found [OF T(3) ok(2)] fill_all_keeps fill_all_fills [of _ ?mts] channel_addresses_set [of m]
    by (simp add: channel_addresses_def)
qed

lemmas sample_evaluation = sample_notifications_def sample_servers_def createConfigs_def IsEmailConfigured_def configured_def sample_mail_def sample_note_def sample_alarm_def no_notifications_def
  createRecipient_def CreateMessageTmpls_def persist_msg_def CreateTmpl_def listRecipients_def listMessageTmpls_def ListTmpls_def validateServer_def List.map_filter_def parseContent_def GetRecipientById_def
  GetMessageTmplById_def store_evaluation Let_def

definition sample_alert :: v1_Message where
  "sample_alert = \<lparr>ms_Channel = ChannelTypeEmail, ms_Subject = [], ms_From = [], ms_Payload = [(''x'', JNull)], ms_To = [], ms_TemplateId = ''t''\<rparr>"

lemma sample_alert_sent: "\<exists>t msg. GetTmplById sample_notifications ''t'' = Inr t \<and> SendMessage sample_notifications sample_alert = Inr (Some msg) \<and> tm_MessageTemplates t = [''m'']"
  by (simp add: sample_evaluation sample_alert_def SendMessage_def parseMessageType_def GetTmplById_def template_message_def default_from_def)

theorem template_message_complete_witness:
  "\<exists>msg. SendMessage sample_notifications sample_alert = Inr (Some msg) \<and> distinct (ms_To msg) \<and> map om_ID (ms_MsgTmpls msg) = [''m'']"
proof -
  obtain t msg where m: "GetTmplById sample_notifications ''t'' = Inr t" "SendMessage sample_notifications sample_alert = Inr (Some msg)" "tm_MessageTemplates t = [''m'']" using sample_alert_sent by blast
  from template_message_complete [OF sample_requests_run(2) sample_requests_run(1) [symmetric] _ _ _ m(2)] m show ?thesis by (simp add: sample_alert_def)
qed

subsection \<open>Secrets\<close>

definition secrets_ok :: "notify_env \<Rightarrow> Config \<Rightarrow> bool" where
  "secrets_ok ev c \<longleftrightarrow> (\<forall>x. sc_Email c = Some x \<longrightarrow> sm_Password x \<in> range (encrypted ev)) \<and> (\<forall>x. sc_WeCom c = Some x \<longrightarrow> wc_CorpSecret x \<in> range (encrypted ev)) \<and>
     (\<forall>x. sc_WeChat c = Some x \<longrightarrow> wx_AppSecret x \<in> range (encrypted ev))"

lemma secrets_ok_version [simp]: "secrets_ok ev (c\<lparr>om_Version := v\<rparr>) = secrets_ok ev c"
  by (simp add: secrets_ok_def)

definition configs_ok :: "notify_env \<Rightarrow> notifications \<Rightarrow> bool" where
  "configs_ok ev m \<longleftrightarrow> (\<forall>k c. cache_load (nf_servers m) k = Some c \<longrightarrow> secrets_ok ev c) \<and> (\<forall>(p, f)\<in>set (nf_server_files m). \<forall>c. f_obj f = Some c \<longrightarrow> secrets_ok ev c)"

lemma Store_persist_content:
  assumes "Store_persist r e fs ob = (fs', res)" "(p, f) \<in> set fs'" "f_obj f = Some c"
  shows "(p, f) \<in> set fs \<or> (\<exists>v. c = ob\<lparr>om_Version := v\<rparr>)"
proof -
  have own: "\<exists>v. ob = ob\<lparr>om_Version := v\<rparr>" by (rule exI [of _ "om_Version ob"]) simp
  have step: "(p, f) \<in> set fs \<or> f = g" if "(p, f) \<in> set (cache_store k g fs)" for k g using that set_cache_store by fastforce
  show ?thesis
    using assms own
    by (auto simp: Store_persist_def FsClient_Get_def FsClient_Create_def FsClient_Update_def FsClient_Delete_def Let_def cache_delete_def split: if_splits option.splits dest!: step)
qed

lemma configs_ok_persist:
  assumes "configs_ok ev m" "secrets_ok ev c" "Store_persist servers_resource e (nf_server_files m) c = (fs, res)"
  shows "configs_ok ev (m\<lparr>nf_server_files := fs\<rparr>)" "res = Inr (Some s) \<Longrightarrow> configs_ok ev (m\<lparr>nf_servers := cache_store k s (nf_servers m), nf_server_files := fs\<rparr>)"
proof -
  have files: "\<forall>(p, f)\<in>set fs. \<forall>c. f_obj f = Some c \<longrightarrow> secrets_ok ev c"
    using assms(1,2) by (auto simp: configs_ok_def dest!: Store_persist_content [OF assms(3)])
  with assms(1) show "configs_ok ev (m\<lparr>nf_server_files := fs\<rparr>)" by (simp add: configs_ok_def)
  assume "res = Inr (Some s)"
  with assms(3) have "secrets_ok ev s" using assms(2) Store_persist_saved_fields [of servers_resource e "nf_server_files m" c fs s] by auto
  with files assms(1) show "configs_ok ev (m\<lparr>nf_servers := cache_store k s (nf_servers m), nf_server_files := fs\<rparr>)" by (simp add: configs_ok_def)
qed

lemma create_secrets:
  assumes "configs_ok ev m"
  shows "configs_ok ev (fst (createConfigs ev e now uuid seed m obj))"
proof -
  let ?c = "\<lparr>om_Tenant = GetTenant, om_Name = [], om_ID = uuid, om_Version = FormatInt (int seed), om_ModTime = now,
      sc_Email = map_option (new_email ev) (s1_Email obj), sc_WeCom = map_option (new_wecom ev) (s1_WeCom obj), sc_WeChat = map_option (new_wechat ev) (s1_WeChat obj)\<rparr>"
  have "secrets_ok ev ?c" by (auto simp: secrets_ok_def new_email_def new_wecom_def new_wechat_def)
  from configs_ok_persist [OF assms this] show ?thesis using assms
    by (auto simp: createConfigs_def Let_def split: prod.split sum.split option.split)
qed

lemma kept_secret_ok [simp]: "kept_secret ev (encrypted ev old) new \<in> range (encrypted ev)"
  by (simp add: kept_secret_def)

lemma update_secrets:
  assumes "configs_ok ev m" "secrets_ok ev old"
  shows "configs_ok ev (fst (updateConfigs ev e now m eTag obj old))"
proof -
  let ?c = "old\<lparr>om_ModTime := now, sc_Email := update_email ev (sc_Email old) (s1_Email obj), sc_WeCom := update_wecom ev (sc_WeCom old) (s1_WeCom obj), sc_WeChat := update_wechat ev (sc_WeChat old) (s1_WeChat obj)\<rparr>"
  have "secrets_ok ev ?c" using assms(2)
    by (auto simp: secrets_ok_def update_email_def update_wecom_def update_wechat_def new_email_def new_wecom_def new_wechat_def split: option.splits)
  from configs_ok_persist [OF assms(1) this] show ?thesis using assms
    by (auto simp: updateConfigs_def Let_def split: prod.split sum.split option.split)
qed

lemma strip_fold_servers: "nf_servers (foldl (strip_template es f none) m ts) = nf_servers m \<and> nf_server_files (foldl (strip_template es f none) m ts) = nf_server_files m"
proof (induction ts arbitrary: m)
  case (Cons t ts)
  have "nf_servers (strip_template es f none m t) = nf_servers m \<and> nf_server_files (strip_template es f none m t) = nf_server_files m"
    by (auto simp: strip_template_def forget_template_def Let_def split: prod.split sum.split)
  with Cons show ?case by simp
qed simp

lemma other_requests_keep_servers:
  assumes "\<And>e now uuid seed obj. r \<noteq> NfConfig e now uuid seed obj" "\<And>e now obj eTag. r \<noteq> NfUpdateConfig e now obj eTag"
  shows "nf_servers (nf_step render ev m r) = nf_servers m \<and> nf_server_files (nf_step render ev m r) = nf_server_files m"
proof (cases r)
  case (NfDeleteMessage e es i eTag orphan)
  then show ?thesis
    by (auto simp: DeleteMsgTmpl_def UpdateTemplateByMessageTmplDeletion_def strip_fold_servers Let_def split: prod.split sum.split option.split)
next
  case (NfDeleteRecipient e es i eTag orphan)
  then show ?thesis by (auto simp: DeleteRecipient_def UpdateTemplateByRecipientDeletion_def strip_fold_servers Let_def split: prod.split sum.split option.split)
qed (use assms in \<open>auto simp: recipient_REST_Create_def createRecipient_def msg_REST_Create_def CreateMessageTmpls_def updatePlaceholders_def tmpl_REST_Create_def CreateTmpl_def
    DeleteTmpl_def forget_template_def save_template_def Let_def split: list.split prod.split sum.split option.split\<close>)

lemma secrets_step:
  assumes "configs_ok ev m"
  shows "configs_ok ev (nf_step render ev m r)"
proof (cases r)
  case (NfConfig e now uuid seed obj)
  then show ?thesis using assms create_secrets [OF assms] by (simp add: config_REST_Create_def split: option.split)
next
  case (NfUpdateConfig e now obj eTag)
  show ?thesis
  proof (cases "GetConfig m")
    case (Inr c)
    then have "secrets_ok ev c" using assms by (simp add: configs_ok_def GetConfig_def split: option.splits)
    then show ?thesis using Inr assms update_secrets [OF assms] by (simp add: NfUpdateConfig config_REST_Update_def split: option.split)
  qed (use assms NfUpdateConfig in \<open>simp add: config_REST_Update_def\<close>)
qed (use assms other_requests_keep_servers [of r render ev m] in \<open>simp_all add: configs_ok_def\<close>)

text \<open>
  C22: over every sequence of requests to the notification service, with failing and successful writes, every secret that the cache or a file holds (the password of the mail server, the
  secrets of the two chat services) is the result of an encryption.
\<close>

theorem secrets_stay_encrypted:
  assumes "m = foldl (nf_step render ev) no_notifications rs"
  shows "(\<forall>k c. cache_load (nf_servers m) k = Some c \<longrightarrow> secrets_ok ev c) \<and> (\<forall>(p, f)\<in>set (nf_server_files m). \<forall>c. f_obj f = Some c \<longrightarrow> secrets_ok ev c)"
proof -
  have run: "configs_ok ev (foldl (nf_step render ev) m0 rs)" if "configs_ok ev m0" for m0
    using that by (induction rs arbitrary: m0) (simp_all add: secrets_step)
  have "configs_ok ev no_notifications" by (simp add: configs_ok_def no_notifications_def)
  from run [OF this] show ?thesis unfolding assms configs_ok_def .
qed

lemma sample_config: "map_option (\<lambda>c. map_option sm_Password (sc_Email c)) (cache_load (nf_servers sample_notifications) GetTenant) = Some (Some (encrypted sample_notify ''p''))"
  by (simp add: sample_evaluation new_email_def)

theorem secrets_stay_encrypted_witness:
  "\<exists>c x. cache_load (nf_servers sample_notifications) GetTenant = Some c \<and> sc_Email c = Some x \<and> sm_Password x \<in> range (encrypted sample_notify)"
proof -
  obtain c x where c: "cache_load (nf_servers sample_notifications) GetTenant = Some c" "sc_Email c = Some x" using sample_config by (auto simp: map_option_eq_Some)
  from secrets_stay_encrypted [of sample_notifications "\<lambda>_. []" sample_notify sample_requests, unfolded sample_requests_run(1), OF refl] c(1)
  have "secrets_ok sample_notify c" by simp
  then show ?thesis using c by (auto simp: secrets_ok_def)
qed

subsection \<open>A deleted message template\<close>

lemma strip_fold_msg_files: "nf_msg_files (foldl (strip_template es f none) m ts) = nf_msg_files m"
proof (induction ts arbitrary: m)
  case (Cons t ts)
  have "nf_msg_files (strip_template es f none m t) = nf_msg_files m" by (auto simp: strip_template_def forget_template_def Let_def split: prod.split sum.split)
  with Cons show ?case by simp
qed simp

lemma load_msgs_keeps: "foldl load_msg (Some c) xs = Some c' \<Longrightarrow> cache_load c k \<noteq> None \<or> (\<exists>x\<in>set xs. om_ID x = k) \<Longrightarrow> cache_load c' k \<noteq> None"
proof (induction xs arbitrary: c)
  case (Cons x xs)
  have none: "foldl load_msg None ys = None" for ys by (induction ys) (simp_all add: load_msg_def)
  obtain c1 where c1: "load_msg (Some c) x = Some c1" using Cons.prems(1) none by (cases "load_msg (Some c) x") auto
  then have "cache_load c1 k \<noteq> None \<or> (\<exists>y\<in>set xs. om_ID y = k)" using Cons.prems(2) by (auto simp: load_msg_def split: option.splits if_splits)
  with Cons.IH [of c1] Cons.prems(1) c1 show ?case by simp
qed simp

text \<open>
  A message template that was deleted, which the store answered without a failure, is in no list any more, but it is back after the next start of the service: the deletion wrote the object
  again instead of removing its file.
\<close>

theorem deleted_message_template_returns:
  assumes files: "files_ok msgs_resource (nf_msg_files m)" "plain_elem i" "cache_load (nf_msgs m) i = Some mt" "om_ID mt = i" "\<not> time_IsZero (om_ModTime mt)"
    and stored: "stored_obj msgs_resource (nf_msg_files m) i = Some old" "om_Version old = om_Version mt" and ok: "pe_fault e = no_fault"
    and del: "DeleteMsgTmpl e es m i (om_Version mt) orphan = (m', Inr r)" and start: "notification_load cfs rfs (nf_msg_files m') tfs = Some m2"
  shows "GetMessageTmplById m' i True = Inl ErrNotExist \<and> (\<exists>mt2. GetMessageTmplById m2 i True = Inr mt2)"
proof -
  let ?o = "mt\<lparr>mt_Parsed := None\<rparr>"
  let ?f = "\<lparr>f_obj = Some (?o\<lparr>om_Version := next_version e (om_Version mt)\<rparr>), f_mtime = pe_now e\<rparr>"
  have r: "plain_elem msgs_resource" by (simp add: plain_elem_def)
  have "Store_persist msgs_resource e (nf_msg_files m) ?o = (cache_store (filepath_Join msgs_resource i) ?f (nf_msg_files m), Inr (Some (?o\<lparr>om_Version := next_version e (om_Version mt)\<rparr>)))"
    using Store_persist_update [OF r, of ?o e "nf_msg_files m" old] files stored ok by simp
  then have m': "nf_msgs m' = cache_delete i (nf_msgs m)" "nf_msg_files m' = cache_store (filepath_Join msgs_resource i) ?f (nf_msg_files m)"
    using del files(3) by (auto simp: DeleteMsgTmpl_def UpdateTemplateByMessageTmplDeletion_def strip_fold_msgs strip_fold_msg_files Let_def split: if_splits)
  have "files_ok msgs_resource (nf_msg_files m')" using files_ok_persist [OF files(1) _ \<open>Store_persist _ _ _ _ = _\<close>] files(2,4) m'(2) by simp
  from LoadResource_set [OF this r] have "\<exists>x\<in>set (LoadResource msgs_resource (nf_msg_files m')). om_ID x = i"
    using files(2,4) m'(2) by (intro bexI [of _ "?o\<lparr>om_Version := next_version e (om_Version mt), om_ModTime := pe_now e\<rparr>"]) force+
  moreover obtain c where "foldl load_msg (Some []) (LoadResource msgs_resource (nf_msg_files m')) = Some c" "nf_msgs m2 = c" using start by (auto simp: notification_load_def)
  ultimately have "cache_load (nf_msgs m2) i \<noteq> None" using load_msgs_keeps by blast
  then show ?thesis using m'(1) by (auto simp: GetMessageTmplById_def)
qed

definition sample_stored :: MessageTemplate where
  "sample_stored = \<lparr>om_Tenant = GetTenant, om_Name = ''Note'', om_ID = ''m'', om_Version = ''1'', om_ModTime = 4, mt_Type = ContentTypeText, mt_Content = ''hi'', mt_Parsed = None, mt_Placeholder = None\<rparr>"

definition sample_deletion :: notifications where
  "sample_deletion = no_notifications\<lparr>nf_msgs := [(''m'', sample_stored)], nf_msg_files := [(''messagetmpls/m'', \<lparr>f_obj = Some sample_stored, f_mtime = 4\<rparr>)]\<rparr>"

lemma msg_file: "filepath_Join msgs_resource ''m'' = ''messagetmpls/m''"
  by (subst filepath_Join_plain) (simp_all add: plain_elem_def)

theorem deleted_message_template_returns_witness:
  "\<exists>m' m2 r. DeleteMsgTmpl (env_at 3) (\<lambda>_. env_at 3) sample_deletion ''m'' ''1'' False = (m', Inr r) \<and> notification_load [] [] (nf_msg_files m') [] = Some m2 \<and> (\<exists>mt. GetMessageTmplById m2 ''m'' True = Inr mt)"
proof -
  let ?f = "\<lparr>f_obj = Some (sample_stored\<lparr>om_Version := next_version (env_at 3) ''1''\<rparr>), f_mtime = 7\<rparr>"
  obtain m' r where d: "DeleteMsgTmpl (env_at 3) (\<lambda>_. env_at 3) sample_deletion ''m'' ''1'' False = (m', Inr r)" "nf_msg_files m' = [(''messagetmpls/m'', ?f)]"
    by (simp add: DeleteMsgTmpl_def sample_deletion_def sample_stored_def no_notifications_def IsMessageTemplateReferredByTemplate_def cache_load_def cache_values_def cache_delete_def env_at_def no_fault_def
        Store_persist_def FsClient_Get_def FsClient_Update_def time_IsZero_def msg_file Let_def)
  have "LoadResource msgs_resource (nf_msg_files m') = [sample_stored\<lparr>om_Version := next_version (env_at 3) ''1'', om_ModTime := 7\<rparr>]"
    by (simp add: d(2) LoadResource_def FsClient_List_def List.map_filter_def HasPrefix_def cache_load_def)
  then obtain m2 where l: "notification_load [] [] (nf_msg_files m') [] = Some m2"
    by (simp add: notification_load_def load_msg_def sample_stored_def parseContent_def)
  have "files_ok msgs_resource (nf_msg_files sample_deletion)"
    by (auto simp: files_ok_def sample_deletion_def cache_ok_def no_notifications_def msg_file plain_elem_def intro!: exI [of _ "''m''"])
  then show ?thesis
    using deleted_message_template_returns [OF _ _ _ _ _ _ _ _ _ l, of sample_deletion "''m''" sample_stored sample_stored "env_at 3" "\<lambda>_. env_at 3" False r] d(1) l
    by (auto simp: plain_elem_def sample_deletion_def sample_stored_def no_notifications_def cache_load_def time_IsZero_def stored_obj_def msg_file env_at_def)
qed

subsection \<open>Servers and types that are missing\<close>

text \<open>
  A text message for a chat channel without a sender, for which the chat server is configured but no mail server, passes the validation and then dereferences the missing mail
  configuration.
\<close>

theorem chat_message_needs_mail_server:
  assumes "cache_load (nf_servers m) GetTenant = Some c" "sc_Email c = None" "ms_From obj = []" "ms_To obj \<noteq> []" "cache_load (ms_Payload obj) ''content'' \<noteq> None" "length (ms_Subject obj) \<le> 77"
    and "ms_Channel obj = ChannelTypeWeCom \<and> sc_WeCom c \<noteq> None \<or> ms_Channel obj = ChannelTypeWeChat \<and> sc_WeChat c \<noteq> None"
  shows "message_REST_Create render m obj = Inl GoPanic"
proof -
  have "ms_Payload obj \<noteq> []" using assms(5) by (auto simp: cache_load_def)
  then have "ValidateMessage obj = []" using assms by (auto simp: ValidateMessage_def)
  then have "message_REST_Create render m obj = SendMessage m obj" by (simp add: message_REST_Create_def ValidateFunc_def)
  moreover have "validateServer m (ms_Channel obj) = None" using assms by (auto simp: validateServer_def IsWeComConfigured_def IsWeChatConfigured_def configured_def)
  moreover have "parseMessageType m obj = Inr msgTypeSimple" using assms by (simp add: parseMessageType_def)
  ultimately show ?thesis using assms by (simp add: SendMessage_def default_from_def GetConfig_def)
qed

definition sample_wecom_config :: Config where
  "sample_wecom_config = \<lparr>om_Tenant = GetTenant, om_Name = [], om_ID = ''c'', om_Version = ''1'', om_ModTime = 2, sc_Email = None,
     sc_WeCom = Some \<lparr>wc_CorpId = ''corp'', wc_CorpSecret = ''x'', wc_AgentId = ''7''\<rparr>, sc_WeChat = None\<rparr>"

definition sample_wecom :: notifications where "sample_wecom = no_notifications\<lparr>nf_servers := [(GetTenant, sample_wecom_config)]\<rparr>"

definition sample_chat :: v1_Message where
  "sample_chat = \<lparr>ms_Channel = ChannelTypeWeCom, ms_Subject = ''S'', ms_From = [], ms_Payload = [(''content'', JNull)], ms_To = [''bob''], ms_TemplateId = []\<rparr>"

theorem chat_message_needs_mail_server_witness: "message_REST_Create (\<lambda>_. []) sample_wecom sample_chat = Inl GoPanic"
  using chat_message_needs_mail_server [of sample_wecom sample_wecom_config sample_chat] by (simp add: sample_wecom_def sample_wecom_config_def sample_chat_def cache_load_def)

text \<open>A recipient's address or a message template without a type calls a validator that does not exist, although the missing type is what the check is there to report.\<close>

lemma missing_type_panics:
  "d \<in> set (r1_Detail obj) \<Longrightarrow> ri_Type d = ChannelTypeNone \<Longrightarrow> recipient_REST_Create render ev e now uuid seed m obj = (m, Inl GoPanic)"
  "mt1_Type mt = ContentTypeNone \<Longrightarrow> mt1_Content mt \<noteq> [] \<Longrightarrow> msg_REST_Create render ev e now uuid seed m mt = (m, Inl GoPanic)"
proof -
  assume d: "d \<in> set (r1_Detail obj)" "ri_Type d = ChannelTypeNone"
  then obtain j where "j < length (r1_Detail obj)" "r1_Detail obj ! j = d" by (auto simp: in_set_conv_nth)
  then have j: "(j, d) \<in> set (enumerate 0 (r1_Detail obj))" by (simp add: in_set_enumerate_eq)
  have none: "those (map f xs) = None" if "x \<in> set xs" "f x = None" for f :: "nat \<times> RecipientItem \<Rightarrow> field_error list option" and x xs
    using that by (induction xs) (auto split: option.split)
  have "r1_Detail obj \<noteq> []" using d(1) by auto
  moreover have "those (map (\<lambda>(i, d). let path = child (idx ''detail'' i) ''address'' in
      map_option (\<lambda>errs. ValidateName_at (ri_Address d) validate_notify_name path @ errs) (recipientValidators ev (ri_Type d) (ri_Address d) path)) (enumerate 0 (r1_Detail obj))) = None"
    by (rule none [OF j]) (simp add: d(2) recipientValidators_def)
  ultimately have "ValidateRecipient ev obj = None" by (simp add: ValidateRecipient_def)
  then show "recipient_REST_Create render ev e now uuid seed m obj = (m, Inl GoPanic)" by (simp add: recipient_REST_Create_def)
next
  assume "mt1_Type mt = ContentTypeNone" "mt1_Content mt \<noteq> []"
  then show "msg_REST_Create render ev e now uuid seed m mt = (m, Inl GoPanic)" by (simp add: msg_REST_Create_def ValidateMessageTmpl_def messageTemplateValidators_def Let_def)
qed

end
