(* ===== verification/Rule_Composition.thy ===== *)
theory Rule_Composition
  imports Realtime_Properties Notification_Losses
begin

text \<open>
  The rule service together with its neighbours: the collector that loads and watches the files of the rules, the actions that evaluations send, and the notification service that receives
  their messages.
\<close>

subsection \<open>Accepted rules are over one property set\<close>

definition one_set :: "rule_env \<Rightarrow> Evaluation \<Rightarrow> bool" where
  "one_set ev e = (case rule_sets ev e of None \<Rightarrow> True | Some (_, sets) \<Rightarrow> length sets \<le> 1)"

lemma all_properties_keys:
  "all_properties m ops = Some sets \<Longrightarrow> cache_ok m \<Longrightarrow> cache_ok sets \<and> fst ` set sets \<subseteq> fst ` set m \<union> (\<lambda>op. hd (split_at OperandUS op)) ` set ops"
proof (induction m ops rule: all_properties.induct)
  case (2 m op ops)
  then obtain ps p where sp: "split_at OperandUS op = [ps, p]" by (auto split: list.splits)
  show ?case using "2.IH" [OF sp refl refl] "2.prems" sp by (force simp: fst_set_cache_store)
qed simp

lemma validated_one_set:
  assumes "validateEvaluations ev (e # es) path = Some []"
  shows "one_set ev e"
proof -
  let ?f = "\<lambda>op. hd (split_at OperandUS op)"
  obtain expr ops where p: "Parse ev (el_Expression e) = Some (expr, ops)" using assms by (cases "Parse ev (el_Expression e)") (auto simp: validateEvaluations_def Let_def)
  then have "parsed_operands ev (el_Expression e) = ops" by (simp add: parsed_operands_def)
  with assms have v: "filter (\<lambda>op. length (split_at OperandUS op) \<noteq> 2) ops = []"
      "length (remdups (map ?f (filter (\<lambda>op. length (split_at OperandUS op) = 2) ops))) \<le> 1"
    by (auto simp: validateEvaluations_def Let_def split: if_splits)
  then have "filter (\<lambda>op. length (split_at OperandUS op) = 2) ops = ops" by (simp add: filter_empty_conv filter_id_conv)
  with v(2) have one: "card (?f ` set ops) \<le> 1" by (simp add: length_remdups_card_conv)
  have "length sets \<le> 1" if "all_properties [] ops = Some sets" for sets
  proof -
    from all_properties_keys [OF that] have k: "cache_ok sets" "fst ` set sets \<subseteq> ?f ` set ops" by simp_all
    have "length sets = card (fst ` set sets)" using distinct_card [of "map fst sets"] k(1) by (simp add: cache_ok_def)
    also have "\<dots> \<le> card (?f ` set ops)" using k(2) by (intro card_mono) simp_all
    finally show ?thesis using one by simp
  qed
  then show ?thesis by (auto simp: one_set_def rule_sets_def p split: option.splits)
qed

definition served_rule :: "rule_env \<Rightarrow> Evaluation list \<Rightarrow> bool" where
  "served_rule ev es = (case es of [] \<Rightarrow> False | e # _ \<Rightarrow> one_set ev e)"

definition all_served :: "rule_env \<Rightarrow> rule_manager \<Rightarrow> bool" where
  "all_served ev m \<longleftrightarrow> (\<forall>i r. cache_load (rm_rules m) i = Some r \<longrightarrow> served_rule ev (ru_Evaluations r))"

text \<open>The rule service and the collector parse expressions alike.\<close>

fun same_parser :: "rule_env \<Rightarrow> rule_request \<Rightarrow> bool" where
  "same_parser ev (RuleCreate ev' e now uuid seed obj) = (re_parses ev' = re_parses ev)"
| "same_parser ev (RuleUpdate ev' e now i version obj) = (re_parses ev' = re_parses ev)"
| "same_parser ev (RuleDelete e i version) = True"

lemma one_set_parser: "re_parses ev' = re_parses ev \<Longrightarrow> one_set ev' = one_set ev"
  by (simp add: fun_eq_iff one_set_def rule_sets_def Parse_def)

lemma validated_rule:
  assumes "ValidateRule ev' obj = Some []" "re_parses ev' = re_parses ev"
  shows "served_rule ev (hd (ru1_Evaluations obj) # es)"
proof -
  obtain e es' where e: "ru1_Evaluations obj = e # es'" using assms(1) by (cases "ru1_Evaluations obj") (auto simp: ValidateRule_def validateEvaluations_def)
  then have "validateEvaluations ev' (e # es') ''evaluations'' = Some []" using assms(1) by (auto simp: ValidateRule_def)
  from validated_one_set [OF this] show ?thesis by (simp add: served_rule_def e one_set_parser [OF assms(2)])
qed

lemma created_rules:
  "CreateRule ev e now uuid seed m obj = (m', ans) \<Longrightarrow>
    rm_rules m' = rm_rules m \<or> (\<exists>r. rm_rules m' = cache_store uuid r (rm_rules m) \<and> ru_Evaluations r = [hd (ru1_Evaluations obj)])"
  by (auto simp: CreateRule_def Let_def new_rule_def split: sum.splits prod.splits option.splits)

lemma updated_rules:
  "UpdateRule ev e now m version obj old = (m', ans) \<Longrightarrow>
    rm_rules m' = rm_rules m \<or> (\<exists>r es. ans = Answered r \<and> rm_rules m' = cache_store (om_ID r) r (rm_rules m) \<and> ru_Evaluations r = hd (ru1_Evaluations obj) # es)"
  by (auto simp: UpdateRule_def Let_def split: sum.splits prod.splits option.splits list.splits if_splits)

lemma served_handle:
  assumes "all_served ev m" "same_parser ev req" "rule_handle render m req = (m', ans)"
  shows "all_served ev m'"
proof (cases req)
  case (RuleCreate ev' e now uuid seed obj)
  show ?thesis
  proof (cases "ValidateRule ev' obj = Some []")
    case True
    then have "CreateRule ev' e now uuid seed m obj = (m', ans)" using assms(3) RuleCreate by (simp add: rule_REST_Create_def ValidateFunc_def)
    from created_rules [OF this] validated_rule [OF True, of ev] show ?thesis using assms(1,2) RuleCreate by (auto simp: all_served_def split: if_splits)
  qed (use assms RuleCreate in \<open>auto simp: rule_REST_Create_def ValidateFunc_def split: option.splits\<close>)
next
  case (RuleUpdate ev' e now i version obj)
  show ?thesis
  proof (cases "ValidateRule ev' obj = Some []")
    case True
    then have "m' = m \<or> (\<exists>old. UpdateRule ev' e now m version obj old = (m', ans))"
      using assms(3) RuleUpdate by (auto simp: rule_REST_Update_def ValidateUpdateFunc_def split: sum.splits)
    then show ?thesis using updated_rules validated_rule [OF True, of ev] assms(1,2) RuleUpdate by (fastforce simp: all_served_def split: if_splits)
  qed (use assms RuleUpdate in \<open>auto simp: rule_REST_Update_def ValidateUpdateFunc_def split: option.splits sum.splits\<close>)
next
  case (RuleDelete e i version)
  then show ?thesis using assms by (auto simp: all_served_def DeleteRule_def split: option.splits prod.splits sum.splits if_splits)
qed

lemma served_run:
  assumes "all_served ev m" "\<forall>r\<in>set rs. same_parser ev r" "foldl (rule_serve render) (Some m) rs = Some m'"
  shows "all_served ev m'"
  using assms
proof (induction rs arbitrary: m)
  case (Cons r rs)
  have none: "foldl (rule_serve render) None xs = None" for xs by (induction xs) (simp_all add: rule_serve_def)
  obtain m1 where m1: "rule_serve render (Some m) r = Some m1" using Cons.prems(3) none by (cases "rule_serve render (Some m) r") auto
  then have "all_served ev m1" using served_handle [OF Cons.prems(1), of r render] Cons.prems(2) by (auto simp: rule_serve_def split: prod.splits if_splits)
  with Cons.IH [OF this] Cons.prems(2,3) m1 show ?case by simp
qed simp

subsection \<open>Loading\<close>

lemma distinct_map_filter_ids:
  assumes "distinct (map fst xs)" "\<And>p t ob. (p, t) \<in> set xs \<Longrightarrow> g (p, t) = Some ob \<Longrightarrow> p = k (om_ID ob)"
  shows "distinct (map om_ID (List.map_filter g xs))"
  using assms
proof (induction xs)
  case (Cons x xs)
  obtain p t where x: "x = (p, t)" by fastforce
  have IH: "distinct (map om_ID (List.map_filter g xs))" using Cons by auto
  show ?case
  proof (cases "g x")
    case (Some ob)
    have "om_ID ob \<notin> om_ID ` set (List.map_filter g xs)"
    proof
      assume "om_ID ob \<in> om_ID ` set (List.map_filter g xs)"
      then obtain p' t' ob' where "(p', t') \<in> set xs" "g (p', t') = Some ob'" "om_ID ob' = om_ID ob" by (auto simp: List.map_filter_def)
      then have "p' = p" using Cons.prems(2) Some x by (metis list.set_intros)
      then show False using Cons.prems(1) \<open>(p', t') \<in> set xs\<close> x by force
    qed
    then show ?thesis using IH Some by (simp add: List.map_filter_simps)
  qed (use IH in \<open>simp add: List.map_filter_simps\<close>)
qed (simp add: List.map_filter_simps)

lemma LoadResource_distinct:
  assumes "files_ok r fs" "plain_elem r" "\<And>i ob. stored_obj r fs i = Some ob \<Longrightarrow> om_ID ob = i"
  shows "distinct (map om_ID (LoadResource r fs))"
  unfolding LoadResource_def
proof (rule distinct_map_filter_ids [where k = "filepath_Join r"])
  have "distinct (map fst fs)" using assms(1) by (simp add: files_ok_def cache_ok_def)
  then show "distinct (map fst (FsClient_List fs r))" by (simp add: FsClient_List_def case_prod_beta' comp_def distinct_map_filter)
  fix p t ob assume p: "(p, t) \<in> set (FsClient_List fs r)" and g: "(case (p, t) of (path, mtime) \<Rightarrow> map_option (\<lambda>obj. obj\<lparr>om_ModTime := mtime\<rparr>) (Option.bind (cache_load fs path) f_obj)) = Some ob"
  obtain i where i: "plain_elem i" "p = filepath_Join r i" using p assms(1) by (auto simp: FsClient_List_def files_ok_def)
  have "\<exists>ob'. stored_obj r fs i = Some ob' \<and> om_ID ob = om_ID ob'" using g i by (auto simp: stored_obj_def)
  then show "p = filepath_Join r (om_ID ob)" using assms(3) i(2) by auto
qed

definition load_step :: "rule_env \<Rightarrow> (string \<rightharpoonup> StoredRule) \<Rightarrow> StoredRule \<Rightarrow> (string \<rightharpoonup> StoredRule)" where
  "load_step ev S r = S(om_ID r := if evaluated ev r then Some r else None)"

lemma init_refines:
  assumes "refines ev rt S" "\<forall>r\<in>set L. ru_Evaluations r \<noteq> [] \<and> S (om_ID r) = None" "distinct (map om_ID L)"
  shows "\<exists>rt'. foldl (\<lambda>rt r. Option.bind rt (\<lambda>rt. onRuleReceived ev rt r)) (Some rt) L = Some rt' \<and>
    refines ev rt' (foldl (load_step ev) S L)"
  using assms
proof (induction L arbitrary: rt S)
  case (Cons r L)
  obtain e es where "ru_Evaluations r = e # es" using Cons.prems(2) by (cases "ru_Evaluations r") auto
  from received_step [OF Cons.prems(1) _ this] Cons.prems(2)
  obtain rt1 where rt1: "onRuleReceived ev rt r = Some rt1" "refines ev rt1 (load_step ev S r)" by (auto simp only: load_step_def list.set_intros)
  have "\<forall>x\<in>set L. ru_Evaluations x \<noteq> [] \<and> load_step ev S r (om_ID x) = None" using Cons.prems(2,3) by (auto simp: load_step_def image_iff)
  from Cons.IH [OF rt1(2) this] Cons.prems(3) rt1(1) show ?case by simp
qed simp

lemma loaded_spec:
  "distinct (map om_ID L) \<Longrightarrow> foldl (load_step ev) S L i =
    (case find (\<lambda>r. om_ID r = i) L of None \<Rightarrow> S i | Some r \<Rightarrow> if evaluated ev r then Some r else None)"
proof (induction L arbitrary: S)
  case (Cons r L)
  show ?case
  proof (cases "om_ID r = i")
    case True
    then have "find (\<lambda>r. om_ID r = i) L = None" using Cons.prems by (auto simp: find_None_iff image_iff)
    then show ?thesis using True Cons by (simp add: load_step_def)
  qed (use Cons in \<open>simp add: load_step_def\<close>)
qed simp

text \<open>The times of rules do not matter.\<close>

lemma untimed_rule: "evaluated ev (s\<lparr>om_ModTime := t\<rparr>) = evaluated ev s" "rule_exprs ev (s\<lparr>om_ModTime := t\<rparr>) k = rule_exprs ev s k"
proof -
  have "new_expression (s\<lparr>om_ModTime := t\<rparr>) = new_expression s" by (simp add: fun_eq_iff new_expression_def)
  then show "rule_exprs ev (s\<lparr>om_ModTime := t\<rparr>) k = rule_exprs ev s k" by (auto simp: rule_exprs_def split: list.split option.split)
qed (simp add: evaluated_def usable_def hasActiveAction_def)

lemma stored_encoded:
  assumes "rules_ok m"
  shows "stored_obj rules_resource (rm_files m) i = Option.bind (cache_load (rm_rules m) i) encoded"
proof -
  have "rule_agrees i (cache_load (rm_rules m) i) (stored_obj rules_resource (rm_files m) i)" using assms by (simp add: rules_ok_def)
  then show ?thesis by (cases "cache_load (rm_rules m) i") auto
qed

lemma stored_served:
  assumes "rules_ok m" "all_served ev m" "stored_obj rules_resource (rm_files m) i = Some ob"
  shows "om_ID ob = i" "ru_Evaluations ob \<noteq> []"
proof -
  obtain r where r: "cache_load (rm_rules m) i = Some r" "encoded r = Some ob" using assms(3) stored_encoded [OF assms(1)] by (auto simp: bind_eq_Some_conv)
  have "om_ID ob = om_ID r" "ru_Evaluations ob = ru_Evaluations r" using r(2) by (auto simp: encoded_def stored_rule_def)
  moreover have "served_rule ev (ru_Evaluations r)" using assms(2) r(1) unfolding all_served_def by blast
  ultimately show "om_ID ob = i" "ru_Evaluations ob \<noteq> []" using rules_okD(1) [OF assms(1) r(1)] by (cases "ru_Evaluations r"; simp add: served_rule_def)+
qed

text \<open>The object loaded for an identifier is the stored one, but for its time.\<close>

lemma find_loaded:
  fixes fs :: "'a ObjectMeta_scheme files"
  assumes "files_ok r fs" "plain_elem r" "\<And>i ob. stored_obj r fs i = Some ob \<Longrightarrow> om_ID ob = i"
  shows "case find (\<lambda>x. om_ID x = i) (LoadResource r fs) of None \<Rightarrow> stored_obj r fs i = None | Some x \<Rightarrow> \<exists>ob t. stored_obj r fs i = Some ob \<and> x = ob\<lparr>om_ModTime := t\<rparr>"
proof (cases "find (\<lambda>x. om_ID x = i) (LoadResource r fs)")
  case None
  have "stored_obj r fs i \<noteq> Some ob" for ob
  proof
    assume ob: "stored_obj r fs i = Some ob"
    then obtain f where f: "plain_elem i" "cache_load fs (filepath_Join r i) = Some f" "f_obj f = Some ob" by (auto simp: stored_obj_def bind_eq_Some_conv split: if_splits)
    then have "ob\<lparr>om_ModTime := f_mtime f\<rparr> \<in> set (LoadResource r fs)" unfolding LoadResource_set [OF assms(1,2)] by blast
    then show False using None assms(3) [OF ob] by (auto simp: find_None_iff)
  qed
  then have "stored_obj r fs i = None" by (cases "stored_obj r fs i") blast+
  then show ?thesis using None by simp
next
  case (Some x)
  then have x: "x \<in> set (LoadResource r fs)" "om_ID x = i" by (auto simp: find_Some_iff)
  then obtain j f ob where j: "plain_elem j" "cache_load fs (filepath_Join r j) = Some f" "f_obj f = Some ob" "x = ob\<lparr>om_ModTime := f_mtime f\<rparr>"
    unfolding LoadResource_set [OF assms(1,2)] by blast
  then have s: "stored_obj r fs j = Some ob" by (simp add: stored_obj_def)
  then have "j = i" using assms(3) [OF s] x(2) j(4) by simp
  then show ?thesis using s j(4) Some by auto
qed

lemma loaded_stored:
  assumes "files_ok r fs" "plain_elem r" "\<And>i ob. stored_obj r fs i = Some ob \<Longrightarrow> om_ID ob = i" "x \<in> set (LoadResource r fs)"
  shows "\<exists>ob t. stored_obj r fs (om_ID x) = Some ob \<and> x = ob\<lparr>om_ModTime := t\<rparr>"
proof -
  obtain j f ob where j: "plain_elem j" "cache_load fs (filepath_Join r j) = Some f" "f_obj f = Some ob" "x = ob\<lparr>om_ModTime := f_mtime f\<rparr>"
    using assms(4) unfolding LoadResource_set [OF assms(1,2)] by blast
  then have s: "stored_obj r fs j = Some ob" by (simp add: stored_obj_def)
  then show ?thesis using assms(3) [OF s] j(4) by auto
qed



subsection \<open>What evaluations send\<close>

lemma evaluation_sends_due:
  assumes "cache_load (rt_Rules rt) key = Some xs" "x \<in> set xs" "\<not> too_early now x" "(k, a) \<in> set (ex_Actions x)" "due_action now a"
    and "(t, v) \<in> set (te_engine env raw (ex_Properties x) (ex_Expr x) (getLatestTimeFromRawData raw))"
  shows "action_Send env a (actionType2ChannelType k) (hd (split_at (CHR ''/'') key)) (ex_RuleName x) (time_of_Unix 0 + wrap64 (t * 1000000)) v \<in> set (snd (Evaluate env now rt key raw))"
proof -
  have "action_Send env a (actionType2ChannelType k) (hd (split_at (CHR ''/'') key)) (ex_RuleName x) (time_of_Unix 0 + wrap64 (t * 1000000)) v \<in> set (evaluation_sends env now key raw x)"
    using assms(4-6) unfolding evaluation_sends_def by (force intro!: bexI [of _ "(t, v)"] bexI [of _ "(k, a)"])
  then show ?thesis using assms(1-3) by (auto simp: Evaluate_def)
qed

text \<open>
  C36: an action is not held back by its own interval: the time at which it was sent is never noted, so two evaluations that the shortest interval of the rule's actions lets pass send it
  twice, however short of the action's interval they are apart.
\<close>

theorem action_interval_ignored:
  assumes "cache_load (rt_Rules rt) key = Some xs" "x \<in> set xs" "ex_EvaluationTimestamp x + ex_MinInterval x \<le> now" "0 \<le> ex_MinInterval x" "now + ex_MinInterval x \<le> now'"
    and "(k, a) \<in> set (ex_Actions x)" "IsActive a" "GetLastSendAt a = 0" "now' < now + GetInterval a" "GetInterval a < now"
    and "(t, v) \<in> set (te_engine env raw (ex_Properties x) (ex_Expr x) (getLatestTimeFromRawData raw))"
    and "(t', v') \<in> set (te_engine env raw' (ex_Properties x) (ex_Expr x) (getLatestTimeFromRawData raw'))"
  shows "\<exists>rt' ss ss'. Evaluate env now rt key raw = (rt', ss) \<and> snd (Evaluate env now' rt' key raw') = ss' \<and>
    action_Send env a (actionType2ChannelType k) (hd (split_at (CHR ''/'') key)) (ex_RuleName x) (time_of_Unix 0 + wrap64 (t * 1000000)) v \<in> set ss \<and>
    action_Send env a (actionType2ChannelType k) (hd (split_at (CHR ''/'') key)) (ex_RuleName x) (time_of_Unix 0 + wrap64 (t' * 1000000)) v' \<in> set ss'"
proof -
  obtain rt' ss where E: "Evaluate env now rt key raw = (rt', ss)" by fastforce
  have first: "action_Send env a (actionType2ChannelType k) (hd (split_at (CHR ''/'') key)) (ex_RuleName x) (time_of_Unix 0 + wrap64 (t * 1000000)) v \<in> set ss"
    using evaluation_sends_due [OF assms(1,2) _ assms(6) _ assms(11), of now] assms(3,7,8,10) by (simp add: E too_early_def due_action_def)
  let ?x = "x\<lparr>ex_EvaluationTimestamp := now\<rparr>" and ?xs = "map (\<lambda>x. if too_early now x then x else x\<lparr>ex_EvaluationTimestamp := now\<rparr>) xs"
  have "cache_load (rt_Rules rt') key = Some ?xs" using E assms(1) by (auto simp: Evaluate_def)
  moreover have "?x \<in> set ?xs" using assms(2,3) by (force simp: too_early_def image_iff)
  ultimately obtain ys where ys: "cache_load (rt_Rules rt') key = Some ys" "?x \<in> set ys" by blast
  have "\<not> too_early now' ?x" "due_action now' a" using assms(4,5,7,8,10) by (simp_all add: too_early_def due_action_def)
  with evaluation_sends_due [OF ys, of now' k a t' v' env raw'] assms(6,12)
  have "action_Send env a (actionType2ChannelType k) (hd (split_at (CHR ''/'') key)) (ex_RuleName x) (time_of_Unix 0 + wrap64 (t' * 1000000)) v' \<in> set (snd (Evaluate env now' rt' key raw'))" by simp
  then show ?thesis using E first by simp
qed

text \<open>An event every hour next to a mail every minute.\<close>

definition hourly :: Actioner where "hourly = EventAction \<lparr>ba_Active = True, ba_Interval = Some 3600, ba_lastSendAt = 0\<rparr> 20 ''x''"

definition hourly_expression :: Expression where
  "hourly_expression = \<lparr>ex_RuleId = ''r'', ex_RuleName = ''R'', ex_Expr = '' _0'', ex_Properties = [''a''],
     ex_Actions = [(ActionTypeEvent, hourly), (ActionTypeEmail, Notify \<lparr>ba_Active = True, ba_Interval = Some 60, ba_lastSendAt = 0\<rparr> 20 ''x'' [''a@b.c''])], ex_MinInterval = 60, ex_EvaluationTimestamp = 0\<rparr>"

theorem action_interval_ignored_witness:
  "\<exists>rt' ss ss'. Evaluate alert_env 5000 \<lparr>rt_Rules = [(''t/p'', [hourly_expression])], rt_enabled = [(''r'', ())]\<rparr> ''t/p'' [] = (rt', ss) \<and> snd (Evaluate alert_env 5060 rt' ''t/p'' []) = ss' \<and>
    action_Send alert_env hourly ChannelTypeNone ''t'' ''R'' (time_of_Unix 0 + 1000000000) 1 \<in> set ss \<and> action_Send alert_env hourly ChannelTypeNone ''t'' ''R'' (time_of_Unix 0 + 1000000000) 1 \<in> set ss'"
  using action_interval_ignored [where rt = "\<lparr>rt_Rules = [(''t/p'', [hourly_expression])], rt_enabled = [(''r'', ())]\<rparr>" and key = "''t/p''" and x = hourly_expression and xs = "[hourly_expression]"
      and env = alert_env and now = 5000 and now' = 5060 and a = hourly and k = ActionTypeEvent and t = 1000 and t' = 1000 and v = 1 and v' = 1 and raw = "[]" and raw' = "[]"]
  by (simp add: cache_load_def hourly_expression_def hourly_def alert_env_def IsActive_def GetLastSendAt_def GetInterval_def actionType2ChannelType_def wrap64_def)

subsection \<open>Alerts on chat channels\<close>

text \<open>
  A rule with an active WeCom action that is due, evaluated by the collector with a result, on a system whose only configured server is WeCom (which the rule service accepts), sends a
  message that the notification service cannot handle: it dereferences the missing mail configuration.
\<close>

theorem wecom_alert_fails:
  assumes "cache_load (rt_Rules rt) key = Some xs" "x \<in> set xs" "\<not> too_early now x" "(ActionTypeWeCom, Notify b s d ads) \<in> set (ex_Actions x)" "due_action now (Notify b s d ads)"
    and "te_engine env raw (ex_Properties x) (ex_Expr x) (getLatestTimeFromRawData raw) \<noteq> []" "ads \<noteq> []" "length (ex_RuleName x) \<le> 63"
    and "cache_load (nf_servers m) GetTenant = Some c" "sc_Email c = None" "sc_WeCom c \<noteq> None"
  shows "\<exists>msg. SentMessage msg \<in> set (snd (Evaluate env now rt key raw)) \<and> message_REST_Create render m msg = Inl GoPanic"
proof -
  obtain t v where "(t, v) \<in> set (te_engine env raw (ex_Properties x) (ex_Expr x) (getLatestTimeFromRawData raw))" using assms(6) by (metis list.set_intros(1) neq_Nil_conv prod.exhaust)
  from evaluation_sends_due [OF assms(1-5) this] obtain msg where msg: "SentMessage msg \<in> set (snd (Evaluate env now rt key raw))" "ms_Channel msg = ChannelTypeWeCom" "ms_From msg = []" "ms_To msg = ads"
      "cache_load (ms_Payload msg) ''content'' = Some (JString d)" "ms_Subject msg = ''['' @ StandardEventSeverity s @ ''] '' @ ex_RuleName x"
    by (auto simp: actionType2ChannelType_def cache_load_def)
  have "length (StandardEventSeverity s) \<le> 11" by (simp add: StandardEventSeverity_def)
  with msg(6) assms(8) have "length (ms_Subject msg) \<le> 77" by simp
  then have "message_REST_Create render m msg = Inl GoPanic" using chat_message_needs_mail_server [OF assms(9,10), of msg render] msg assms(7,11) by simp
  with msg(1) show ?thesis by blast
qed

definition chat_expression :: Expression where
  "chat_expression = hourly_expression\<lparr>ex_Actions := [(ActionTypeWeCom, Notify \<lparr>ba_Active = True, ba_Interval = Some 60, ba_lastSendAt = 0\<rparr> 20 ''x'' [''bob''])]\<rparr>"

theorem wecom_alert_fails_witness:
  "\<exists>msg. SentMessage msg \<in> set (snd (Evaluate alert_env 5000 \<lparr>rt_Rules = [(''t/p'', [chat_expression])], rt_enabled = [(''r'', ())]\<rparr> ''t/p'' [])) \<and>
    message_REST_Create (\<lambda>_. []) sample_wecom msg = Inl GoPanic"
  by (rule wecom_alert_fails [where x = chat_expression and xs = "[chat_expression]" and b = "\<lparr>ba_Active = True, ba_Interval = Some 60, ba_lastSendAt = 0\<rparr>" and s = 20 and d = "''x''" and ads = "[''bob'']" and c = sample_wecom_config])
    (simp_all add: cache_load_def chat_expression_def hourly_expression_def too_early_def due_action_def IsActive_def GetLastSendAt_def GetInterval_def alert_env_def sample_wecom_def sample_wecom_config_def)

end
