(* ===== verification/Log_Storage.thy ===== *)
theory Log_Storage
  imports Commands Events
begin

text \<open>
  The log storage (\<open>src/pkg/logstorage\<close>): table definitions and statements, the Flux queries, points and predicates for InfluxDB, and the SQL statements for ClickHouse, with what is made
  of the rows that come back. The servers themselves are not modelled.
\<close>

subsection \<open>Tables and statements\<close>

datatype EngineType = TypeDistributed | TypeReplicatedCollapsingMergeTree

record log_table = TableDefinition +
  td_TTL :: "int option"
  td_engine :: "EngineType option"
  td_partitions :: "string list option"
  td_sharding :: "string option"

definition plain_table :: "TableDefinition \<Rightarrow> log_table" where
  "plain_table td = \<lparr>td_name = td_name td, td_columns = td_columns td, td_database = td_database td, td_TTL = None, td_engine = None, td_partitions = None, td_sharding = None\<rparr>"

definition math_MaxInt :: int where "math_MaxInt = 2 ^ 63 - 1"

definition td_IsPrimaryKey :: "log_table \<Rightarrow> string \<Rightarrow> bool" where
  "td_IsPrimaryKey td c = (case cache_load (td_columns td) c of None \<Rightarrow> False | Some (ct, _) \<Rightarrow> ct = ColumnTypePrimaryKey)"

definition td_IsSecondaryKey :: "log_table \<Rightarrow> string \<Rightarrow> bool" where
  "td_IsSecondaryKey td c = (case cache_load (td_columns td) c of None \<Rightarrow> False | Some (ct, _) \<Rightarrow> ct = ColumnTypeSecondaryKey)"

definition td_GetTTL :: "log_table \<Rightarrow> int" where
  "td_GetTTL td = (case td_TTL td of None \<Rightarrow> math_MaxInt | Some t \<Rightarrow> t)"

definition GetTableDefinition :: "log_table list \<Rightarrow> string \<Rightarrow> log_table option" where
  "GetTableDefinition tds t = find (\<lambda>td. td_name td = t) tds"

fun tds_GetTTL :: "int \<Rightarrow> log_table list \<Rightarrow> int" where
  "tds_GetTTL m [] = m"
| "tds_GetTTL m (td # tds) = (case td_TTL td of None \<Rightarrow> tds_GetTTL m tds | Some t \<Rightarrow> tds_GetTTL (if m = math_MaxInt then t else m) tds)"

definition GetTTL :: "log_table list \<Rightarrow> int" where "GetTTL tds = tds_GetTTL math_MaxInt tds"

definition IsPrimaryKey :: "log_table list \<Rightarrow> string \<Rightarrow> bool" where "IsPrimaryKey tds c = list_ex (\<lambda>td. td_IsPrimaryKey td c) tds"
definition IsSecondaryKey :: "log_table list \<Rightarrow> string \<Rightarrow> bool" where "IsSecondaryKey tds c = list_ex (\<lambda>td. td_IsSecondaryKey td c) tds"

fun GetColumnDatatype :: "log_table list \<Rightarrow> string \<Rightarrow> ColumnDatatype" where
  "GetColumnDatatype [] c = ColumnDatatypeString"
| "GetColumnDatatype (td # tds) c = (case cache_load (td_columns td) c of None \<Rightarrow> GetColumnDatatype tds c | Some (_, dt) \<Rightarrow> dt)"

record 'v log_Single =
  sg_tables :: "log_table list"
  sg_end :: "time option"
  sg_selects :: "string list"
  sg_keys :: "(string, 'v) smap"
  sg_latest :: bool

record 'v log_Range =
  rg_tables :: "log_table list"
  rg_start :: time
  rg_end :: time
  rg_selects :: "string list"
  rg_keys :: "(string, 'v) smap"
  rg_limit :: int
  rg_desc :: bool
  rg_byTime :: bool
  rg_replace :: "string option"

record 'v log_Upsert =
  up_table :: log_table
  up_keys :: "(string, 'v) smap"
  up_rows :: "(string, 'v) smap list"
  up_sync :: bool

record 'v log_Delete =
  dl_table :: log_table
  dl_keys :: "(string, 'v) smap"
  dl_start :: time
  dl_end :: time

text \<open>
  Values and their texts: the dynamic type of a value, its text under \<open>%v\<close>, times in the two formats, and a text that is used as a format without arguments. \<open>KOther\<close> has the text
  under \<open>%d\<close>.
\<close>

datatype vkind = KString string | KTime time | KBool bool | KOther string

record 'v log_env =
  le_kind :: "'v \<Rightarrow> vkind"
  le_show :: "'v \<Rightarrow> string"
  le_RFC3339Nano :: "time \<Rightarrow> string"
  le_micros :: "time \<Rightarrow> string"
  le_format :: "string \<Rightarrow> string"
  le_of_time :: "time \<Rightarrow> 'v"
  le_of_string :: "string \<Rightarrow> 'v"
  le_of_bool :: "bool \<Rightarrow> 'v"
  le_is_zero :: "'v \<Rightarrow> bool"

definition GetRPName :: "int \<Rightarrow> string" where "GetRPName ttl = (if ttl = math_MaxInt then [] else ''-'' @ FormatInt ttl)"
definition GetTTLDay :: "int \<Rightarrow> int" where "GetTTLDay ttl = (if ttl = math_MaxInt then MaxTTLDay else ttl)"

subsection \<open>Flux\<close>

definition quoted :: "string \<Rightarrow> string" where "quoted s = CHR 0x22 # s @ [CHR 0x22]"
definition newline :: string where "newline = [CHR 0x0A]"

text \<open>A slice \<open>s[:len(s)-n]\<close>; \<open>None\<close> is a negative bound.\<close>

definition cut_end :: "nat \<Rightarrow> string \<Rightarrow> string option" where
  "cut_end n s = (if length s < n then None else Some (take (length s - n) s))"

definition key_tag :: "'v log_env \<Rightarrow> string \<times> 'v \<Rightarrow> string" where
  "key_tag env kv = '' and r['' @ quoted (fst kv) @ ''] == '' @ quoted (le_show env (snd kv))"

definition key_filter :: "'v log_env \<Rightarrow> log_table list \<Rightarrow> string \<times> 'v \<Rightarrow> string" where
  "key_filter env tds kv =
     '' r['' @ quoted (fst kv) @ ''] == '' @ (if GetColumnDatatype tds (fst kv) = ColumnDatatypeString then quoted (le_show env (snd kv)) else le_show env (snd kv)) @ '' and''"

definition primary_tags :: "'v log_env \<Rightarrow> log_table list \<Rightarrow> (string, 'v) smap \<Rightarrow> string" where
  "primary_tags env tds keys = concat (map (key_tag env) (filter (\<lambda>(k, v). IsPrimaryKey tds k) keys))"

definition secondary_filters :: "'v log_env \<Rightarrow> log_table list \<Rightarrow> (string, 'v) smap \<Rightarrow> string" where
  "secondary_filters env tds keys = concat (map (key_filter env tds) (filter (\<lambda>(k, v). \<not> IsPrimaryKey tds k \<and> IsSecondaryKey tds k) keys))"

definition add_field :: "string \<Rightarrow> string \<Rightarrow> string" where
  "add_field q f = (if q = [] then [] else q @ '' or'') @ '' r._field == '' @ quoted f"

definition pivot :: string where
  "pivot = ''|> pivot(rowKey:['' @ quoted ''_time'' @ ''], columnKey: ['' @ quoted ''_field'' @ ''], valueColumn: '' @ quoted ''_value'' @ '')''"

definition filter_stage :: "string \<Rightarrow> string" where "filter_stage cond = ''|> filter(fn: (r) => '' @ cond @ '')''"

definition from_stage :: "string \<Rightarrow> int \<Rightarrow> string \<Rightarrow> string \<Rightarrow> string" where
  "from_stage bucket ttl start stop = ''from(bucket:'' @ quoted (bucket @ GetRPName ttl) @ '')'' @ newline @ ''|> range(start: '' @ start @ '', stop: '' @ stop @ '')''"

text \<open>
  The text of a query for one row. \<open>None\<close> is a panic: without tables. When the latest row is wanted, the condition on secondary keys becomes part of the format of the query.
\<close>

definition single_tags :: "log_table list \<Rightarrow> string option" where
  "single_tags tds = cut_end 4 (concat (map (\<lambda>td. ''r._measurement == '' @ quoted (td_name td) @ '' and'') tds))"

definition influx_Get_query :: "'v log_env \<Rightarrow> time \<Rightarrow> 'v log_Single \<Rightarrow> string option" where
  "influx_Get_query env now q =
     (case (sg_tables q, single_tags (sg_tables q)) of
        (td # _, Some tags) \<Rightarrow>
          let tds = sg_tables q; ttl = GetTTL tds; stop = le_RFC3339Nano env (case sg_end q of None \<Rightarrow> now | Some t \<Rightarrow> t); start = ''-'' @ FormatInt (GetTTLDay ttl) @ ''d'';
              tags = tags @ primary_tags env tds (sg_keys q);
              flt = (let s = secondary_filters env tds (sg_keys q) in if s = [] then [] else take (length s - 4) s);
              fields = foldl add_field [] (sg_selects q) in
          if sg_latest q \<or> flt = [] then
            let fields = (if fields = [] then ''true'' else fields);
                limit = (if sg_latest q then ''|> last()'' else ''|> limit(n:1)'') in
            Some (from_stage (td_database td) ttl start stop @ newline @ filter_stage tags @ newline @ filter_stage fields @ newline @ limit @ newline @ pivot @ newline @
              (if flt = [] then [] else le_format env (filter_stage flt @ newline)))
          else
            let fields = foldl add_field fields (filter (\<lambda>k. k \<notin> set (sg_selects q)) (map fst (sg_keys q))) in
            Some (from_stage (td_database td) ttl start stop @ newline @ filter_stage tags @ newline @ filter_stage fields @ newline @ pivot @ newline @ filter_stage flt @ newline @ ''|> limit(n:1)'')
      | _ \<Rightarrow> None)"

text \<open>Without grouping by time the condition on secondary keys stays as it is, with its last connective.\<close>

definition range_tags :: "log_table list \<Rightarrow> string option" where
  "range_tags tds = cut_end 3 (concat (map (\<lambda>td. '' r._measurement == '' @ quoted (td_name td) @ '' or'') tds))"

definition range_filter :: "'v log_env \<Rightarrow> 'v log_Range \<Rightarrow> string" where
  "range_filter env q =
     (let s = secondary_filters env (rg_tables q) (rg_keys q) in
      if rg_byTime q then if s = [] then pivot else pivot @ newline @ filter_stage (take (length s - 4) s) else s)"

definition influx_List_query :: "'v log_env \<Rightarrow> 'v log_Range \<Rightarrow> string option" where
  "influx_List_query env q =
     (case (rg_tables q, range_tags (rg_tables q)) of
        (td # _, Some tags) \<Rightarrow>
          let tds = rg_tables q; fields = foldl add_field (foldl add_field [] (rg_selects q)) (filter (\<lambda>k. k \<notin> set (rg_selects q)) (map fst (rg_keys q))) in
          Some (from_stage (td_database td) (GetTTL tds) (le_RFC3339Nano env (rg_start q)) (le_RFC3339Nano env (rg_end q)) @ newline @ filter_stage (tags @ primary_tags env tds (rg_keys q)) @ newline @
            filter_stage fields @ newline @ range_filter env q @ newline @
            ''|> sort(columns:['' @ quoted ''_time'' @ ''], desc: '' @ (if rg_desc q then ''true'' else ''false'') @ '')'' @ newline @ ''|> limit(n:'' @ FormatInt (rg_limit q) @ '')'')
      | _ \<Rightarrow> None)"

text \<open>Of several primary keys the last one visited counts.\<close>

definition influx_ListTables_query :: "'v log_env \<Rightarrow> 'v log_Range \<Rightarrow> string option" where
  "influx_ListTables_query env q =
     (case rg_tables q of
        [] \<Rightarrow> None
      | td # _ \<Rightarrow>
          let dialect = foldl (\<lambda>d (k, v). if IsPrimaryKey (rg_tables q) k then ''r['' @ quoted k @ ''] == '' @ quoted (le_show env v) else d) ''true'' (rg_keys q) in
          Some (newline @ ''  from(bucket: '' @ quoted (td_database td @ GetRPName (GetTTL (rg_tables q))) @ '')'' @ newline @
            ''  |> range(start: '' @ le_RFC3339Nano env (rg_start q) @ '', stop: '' @ le_RFC3339Nano env (rg_end q) @ '')'' @ newline @ ''  '' @ filter_stage dialect @ newline @
            ''  |> keep(columns: ['' @ quoted ''_measurement'' @ ''])'' @ newline @ ''  |> limit(n: 1)'' @ newline))"

subsection \<open>Rows of InfluxDB\<close>

record 'v flux_record =
  fr_time :: time
  fr_measurement :: string
  fr_field :: string
  fr_value :: 'v
  fr_values :: "(string, 'v) smap"

definition add_selected :: "string list \<Rightarrow> (string, 'v) smap \<Rightarrow> (string, 'v) smap \<Rightarrow> (string, 'v) smap" where
  "add_selected selects item vals = foldl (\<lambda>m (k, v). if k \<in> set selects then cache_store k v m else m) item vals"

definition influx_Get_rows :: "'v log_env \<Rightarrow> 'v log_Single \<Rightarrow> 'v flux_record list \<Rightarrow> (string, 'v) smap list" where
  "influx_Get_rows env q rs = map (\<lambda>r. add_selected (sg_selects q) [(TimeKey, le_of_time env (fr_time r))] (fr_values r)) rs"

definition extractDataByTime :: "'v log_env \<Rightarrow> 'v log_Range \<Rightarrow> 'v flux_record \<Rightarrow> (string, 'v) smap" where
  "extractDataByTime env q r =
     add_selected (rg_selects q)
       (case rg_replace q of
          None \<Rightarrow> [(TimeKey, le_of_time env (fr_time r))]
        | Some name \<Rightarrow> cache_store name (le_of_string env (fr_measurement r)) [(TimeKey, le_of_time env (fr_time r))]) (fr_values r)"

definition extractDataByColumn :: "(string, ('v \<times> time) list) smap \<Rightarrow> 'v flux_record \<Rightarrow> (string, ('v \<times> time) list) smap" where
  "extractDataByColumn m r =
     cache_store (fr_field r) ((case cache_load m (fr_field r) of None \<Rightarrow> [] | Some xs \<Rightarrow> xs) @ [(fr_value r, fr_time r)]) m"

datatype 'v log_rows = RowsByTime "(string, 'v) smap list" | RowsByColumn "(string, ('v \<times> time) list) smap list"

definition influx_List_rows :: "'v log_env \<Rightarrow> 'v log_Range \<Rightarrow> 'v flux_record list \<Rightarrow> 'v log_rows" where
  "influx_List_rows env q rs =
     (if rg_byTime q then RowsByTime (map (extractDataByTime env q) rs) else RowsByColumn (if rs = [] then [] else [foldl extractDataByColumn [] rs]))"

record 'v log_point =
  lp_bucket :: string
  lp_measurement :: string
  lp_tags :: "(string, string) smap"
  lp_fields :: "(string, 'v) smap"
  lp_time :: time
  lp_sync :: bool

definition insert_point :: "'v log_env \<Rightarrow> 'v log_Upsert \<Rightarrow> time \<Rightarrow> (string, 'v) smap \<Rightarrow> 'v log_point" where
  "insert_point env u now row =
     (let td = up_table u;
          f = foldl (\<lambda>f (k, v). cache_store k v f) row (filter (\<lambda>(k, v). \<not> td_IsPrimaryKey td k) (up_keys u));
          t = (case map_option (le_kind env) (cache_load f TimeKey) of Some (KTime t) \<Rightarrow> Some t | _ \<Rightarrow> None) in
      \<lparr>lp_bucket = td_database td @ GetRPName (td_GetTTL td), lp_measurement = td_name td,
       lp_tags = map (\<lambda>(k, v). (k, le_show env v)) (filter (\<lambda>(k, v). td_IsPrimaryKey td k) (up_keys u)),
       lp_fields = (if t = None then f else cache_delete TimeKey f), lp_time = (case t of None \<Rightarrow> now | Some t \<Rightarrow> t), lp_sync = up_sync u\<rparr>)"

text \<open>\<open>nows\<close> is the clock for each row.\<close>

definition influx_Insert :: "'v log_env \<Rightarrow> 'v log_Upsert \<Rightarrow> time list \<Rightarrow> 'v log_point list" where
  "influx_Insert env u nows = map2 (insert_point env u) nows (up_rows u)"

definition influx_Delete_predicate :: "'v log_env \<Rightarrow> 'v log_Delete \<Rightarrow> string" where
  "influx_Delete_predicate env d =
     ''_measurement='' @ quoted (td_name (dl_table d)) @ concat (map (\<lambda>(k, v). '' AND '' @ k @ ''='' @ quoted (le_show env v)) (filter (\<lambda>(k, v). td_IsPrimaryKey (dl_table d) k) (dl_keys d)))"

text \<open>The databases by name, with their times to live; the retention rules of a bucket are read at index 0 (\<open>None\<close>: there is none).\<close>

fun influx_databases :: "(string, int) smap \<Rightarrow> (string \<times> int list) list \<Rightarrow> (string, int) smap option" where
  "influx_databases m [] = Some m"
| "influx_databases m ((name, rules) # bs) =
     (if name = ''_tasks'' \<or> name = ''_monitoring'' then influx_databases m bs
      else case rules of [] \<Rightarrow> None | ttl # _ \<Rightarrow> influx_databases (cache_store name ttl m) bs)"

definition MaxTTLSeconds :: int where "MaxTTLSeconds = 9223372036"

definition influx_GetTTLSeconds :: "(string, int) smap \<Rightarrow> string \<Rightarrow> int" where
  "influx_GetTTLSeconds dbs db = (case cache_load dbs db of None \<Rightarrow> 0 | Some t \<Rightarrow> if t = 0 then MaxTTLSeconds else t)"

definition influx_GetTTLDays :: "(string, int) smap \<Rightarrow> string \<Rightarrow> int" where
  "influx_GetTTLDays dbs db = (case cache_load dbs db of None \<Rightarrow> 0 | Some t \<Rightarrow> if t = 0 then MaxTTLDay else trunc_quot t 86400)"

end
