(* ===== verification/Click_House.thy ===== *)
theory Click_House
  imports Log_Storage
begin

text \<open>
  The ClickHouse implementation of the log storage (\<open>src/pkg/logstorage/store_clickhouse.go\<close>, \<open>src/pkg/logstorage/clickhouse\<close>): the SQL statements that create tables, insert rows and query
  them, and the division of joined rows into those of the tables.
\<close>

subsection \<open>Queries\<close>

datatype compare = Equal | greaterAndEqual | lessAndEqual

record 'v Where =
  wh_field :: string
  wh_value :: 'v
  wh_cond :: compare

record 'v Query =
  qu_selects :: "string list"
  qu_database :: string
  qu_table :: string
  qu_where :: "'v Where list"
  qu_desc :: bool
  qu_limit :: int

definition ch_Eq :: "string \<Rightarrow> 'v \<Rightarrow> 'v Where" where "ch_Eq f v = \<lparr>wh_field = f, wh_value = v, wh_cond = Equal\<rparr>"
definition ch_GE :: "string \<Rightarrow> 'v \<Rightarrow> 'v Where" where "ch_GE f v = \<lparr>wh_field = f, wh_value = v, wh_cond = greaterAndEqual\<rparr>"
definition ch_LE :: "string \<Rightarrow> 'v \<Rightarrow> 'v Where" where "ch_LE f v = \<lparr>wh_field = f, wh_value = v, wh_cond = lessAndEqual\<rparr>"

definition Where_string :: "'v log_env \<Rightarrow> 'v Where \<Rightarrow> string" where
  "Where_string env w =
     quoted (wh_field w) @ '' '' @ (case wh_cond w of Equal \<Rightarrow> ''='' | greaterAndEqual \<Rightarrow> ''>='' | lessAndEqual \<Rightarrow> ''<='') @ '' '' @
     (case le_kind env (wh_value w) of
        KString s \<Rightarrow> [CHR 0x27] @ s @ [CHR 0x27]
      | KTime t \<Rightarrow> ''toDateTime64('' @ [CHR 0x27] @ le_micros env t @ [CHR 0x27] @ '', 6, '' @ [CHR 0x27] @ ''UTC'' @ [CHR 0x27] @ '')''
      | KBool b \<Rightarrow> (if b then ''1'' else ''0'')
      | KOther s \<Rightarrow> s)"

definition dot :: string where "dot = [CHR 0x22] @ ''.'' @ [CHR 0x22]"

definition Query_String :: "'v log_env \<Rightarrow> 'v Query \<Rightarrow> string" where
  "Query_String env q =
     ''SELECT '' @ quoted (join_with ([CHR 0x22] @ '','' @ [CHR 0x22]) (qu_selects q)) @ '' FROM '' @ quoted ((if qu_database q = [] then [] else qu_database q @ dot) @ qu_table q) @ '' FINAL '' @
     (if qu_where q = [] then [] else ''WHERE ('' @ join_with '') AND ('' (map (Where_string env) (qu_where q)) @ '') '') @
     ''ORDER BY _time '' @ (if qu_desc q then ''DESC '' else ''ASC '') @ ''LIMIT '' @ FormatInt (qu_limit q)"

text \<open>The header of a joined table, as it stands between two columns.\<close>

definition alias_name :: "nat \<Rightarrow> string" where "alias_name i = ''a'' @ FormatInt (int i)"

definition alias_header :: "nat \<Rightarrow> string" where
  "alias_header i = [CHR 0x22] @ '', '' @ quoted (alias_name i) @ ''.'' @ [CHR 0x22]"

text \<open>\<open>None\<close>: there is no query. The order is descending if it should not be.\<close>

definition MultiQuery_String :: "'v log_env \<Rightarrow> 'v Query list \<Rightarrow> bool \<Rightarrow> int \<Rightarrow> string option" where
  "MultiQuery_String env qs desc limit =
     (case qs of
        [] \<Rightarrow> None
      | q0 # qn \<Rightarrow>
          Some (''SELECT '' @ drop 3 (alias_header 0) @ join_with (alias_header 0) (qu_selects q0) @
            concat (map (\<lambda>(i, q). alias_header i @ join_with (alias_header i) (qu_selects q)) (enumerate 1 qn)) @ [CHR 0x22] @ '' '' @ '' FROM ('' @
            Query_String env q0 @ '') AS '' @ alias_name 0 @
            concat (map (\<lambda>(i, q). '' FULL OUTER JOIN ('' @ Query_String env q @ '') AS '' @ alias_name i @ '' ON '' @ alias_name 0 @ ''._time = '' @ alias_name i @ ''._time'') (enumerate 1 qn)) @
            '' ORDER BY '' @ alias_name 0 @ (if desc then ''._time  ASC '' else ''._time  DESC '') @ '' LIMIT '' @ FormatInt limit))"

subsection \<open>Tables\<close>

datatype engineer = Distributed string string string string | ReplicatedCollapsingMergeTree string string

fun eng_inject :: "engineer \<Rightarrow> string" where
  "eng_inject (Distributed c d t k) = []"
| "eng_inject (ReplicatedCollapsingMergeTree t v) = quoted v @ '' Int8, ''"

fun eng_engine :: "engineer \<Rightarrow> string" where
  "eng_engine (Distributed c d t k) = '' ENGINE = Distributed('' @ quoted c @ '', '' @ quoted d @ '', '' @ quoted t @ '', halfMD5('' @ quoted k @ '')) ''"
| "eng_engine (ReplicatedCollapsingMergeTree t v) =
     '' ENGINE = ReplicatedCollapsingMergeTree('' @ [CHR 0x27] @ ''/clickhouse/tables/{shard}/'' @ t @ [CHR 0x27] @ '', '' @ [CHR 0x27] @ ''{replica}'' @ [CHR 0x27] @ '', '' @ quoted v @ '') ''"

fun eng_setting :: "engineer \<Rightarrow> string" where
  "eng_setting (Distributed c d t k) = []"
| "eng_setting (ReplicatedCollapsingMergeTree t v) = ''SETTINGS min_rows_for_compact_part = 100, merge_with_ttl_timeout = 10''"

fun eng_engineType :: "engineer \<Rightarrow> EngineType" where
  "eng_engineType (Distributed c d t k) = TypeDistributed"
| "eng_engineType (ReplicatedCollapsingMergeTree t v) = TypeReplicatedCollapsingMergeTree"

record Create =
  cr_engine :: "engineer option"
  cr_cluster :: string
  cr_database :: string
  cr_table :: string
  cr_asTable :: string
  cr_ttl :: int
  cr_pk :: "(string \<times> string) list"
  cr_sk :: "string list"
  cr_att :: "(string \<times> string \<times> bool) list"
  cr_partitions :: "string list"

definition NewCreate :: Create where
  "NewCreate = \<lparr>cr_engine = None, cr_cluster = [], cr_database = [], cr_table = [], cr_asTable = [], cr_ttl = 0, cr_pk = [], cr_sk = [], cr_att = [], cr_partitions = []\<rparr>"

definition cr_Attribute :: "string \<Rightarrow> string \<Rightarrow> bool \<Rightarrow> Create \<Rightarrow> Create" where "cr_Attribute n dt nullable c = c\<lparr>cr_att := cr_att c @ [(n, dt, nullable)]\<rparr>"
definition cr_PrimaryKey :: "string \<Rightarrow> string \<Rightarrow> Create \<Rightarrow> Create" where "cr_PrimaryKey n dt c = c\<lparr>cr_pk := cr_pk c @ [(n, dt)]\<rparr>"
definition cr_SecondaryKey :: "string \<Rightarrow> string \<Rightarrow> Create \<Rightarrow> Create" where "cr_SecondaryKey n dt c = (cr_Attribute n dt False c)\<lparr>cr_sk := cr_sk c @ [n]\<rparr>"

definition pk_text :: "string \<times> string \<Rightarrow> string" where "pk_text p = quoted (fst p) @ '' '' @ snd p"
definition att_text :: "string \<times> string \<times> bool \<Rightarrow> string" where
  "att_text a = (case a of (n, dt, nullable) \<Rightarrow> quoted n @ '' '' @ (if nullable then ''Nullable('' @ dt @ '')'' else dt))"
definition sk_text :: "string \<Rightarrow> string" where
  "sk_text s = ''INDEX '' @ quoted (s @ ''_idx'') @ '' '' @ quoted s @ '' TYPE set(0) GRANULARITY 1''"

text \<open>A key is followed by a comma if there are attributes, an attribute if there are secondary keys.\<close>

definition column_list :: "Create \<Rightarrow> string" where
  "column_list c =
     concat (map (\<lambda>p. pk_text p @ (if cr_att c \<noteq> [] then '', '' else [])) (cr_pk c)) @ concat (map (\<lambda>a. att_text a @ (if cr_sk c \<noteq> [] then '', '' else [])) (cr_att c)) @
     join_with '', '' (map sk_text (cr_sk c))"

text \<open>\<open>None\<close>: a call on the nil engine.\<close>

definition Create_String :: "Create \<Rightarrow> string option" where
  "Create_String c =
     map_option (\<lambda>en.
       ''CREATE TABLE IF NOT EXISTS '' @ quoted ((if cr_database c = [] then [] else cr_database c @ dot) @ cr_table c) @ (if cr_cluster c = [] then [] else '' ON CLUSTER '' @ quoted (cr_cluster c)) @
       (if cr_asTable c \<noteq> [] then '' AS '' @ cr_asTable c else '' ('' @ eng_inject en @ column_list c @ '' )'') @ eng_engine en @
       (if eng_engineType en \<noteq> TypeDistributed then
          (if cr_partitions c = [] then [] else '' PARTITION BY ('' @ quoted (join_with ([CHR 0x22] @ '', '' @ [CHR 0x22]) (cr_partitions c)) @ '')'') @
          '' ORDER BY ('' @ [CHR 0x22] @ concat (map (\<lambda>p. fst p @ [CHR 0x22] @ '', '' @ [CHR 0x22]) (cr_pk c)) @ ''_time'' @ [CHR 0x22] @ '' )'' @
          (if cr_ttl c > 0 then '' TTL toDateTime(_time) + toIntervalDay('' @ FormatInt (cr_ttl c) @ '') '' else [])
        else []) @ eng_setting en) (cr_engine c)"

fun convertDatatype :: "ColumnDatatype \<Rightarrow> string" where
  "convertDatatype ColumnDatatypeString = ''String''"
| "convertDatatype ColumnDatatypeInt = ''Int32''"
| "convertDatatype ColumnDatatypeLong = ''Int64''"
| "convertDatatype ColumnDatatypeDouble = ''Float64''"
| "convertDatatype ColumnDatatypeBoolean = ''UInt8''"
| "convertDatatype ColumnDatatypeTimestamp = ''DateTime64(6)''"

definition localTableName :: "string \<Rightarrow> string" where "localTableName n = n @ ''_local''"
definition allTableName :: "string \<Rightarrow> string" where "allTableName n = n @ ''_all''"

fun add_column :: "Create \<Rightarrow> string \<times> ColumnType \<times> ColumnDatatype \<Rightarrow> Create" where
  "add_column c (n, ColumnTypePrimaryKey, dt) = cr_PrimaryKey n (convertDatatype dt) c"
| "add_column c (n, ColumnTypeSecondaryKey, dt) = cr_SecondaryKey n (convertDatatype dt) c"
| "add_column c (n, ColumnTypeAttribute, dt) = cr_Attribute n (convertDatatype dt) (n \<noteq> TimeKey) c"
| "add_column c (n, ColumnTypeUniqueKey, dt) = c"

definition createLocalTable :: "string \<Rightarrow> log_table \<Rightarrow> Create" where
  "createLocalTable cluster td =
     (let local = localTableName (td_name td); c = foldl add_column (NewCreate\<lparr>cr_cluster := cluster, cr_database := td_database td, cr_table := local\<rparr>) (td_columns td) in
      c\<lparr>cr_engine := (if td_engine td = Some TypeReplicatedCollapsingMergeTree then Some (ReplicatedCollapsingMergeTree local ''_sign'') else None),
        cr_partitions := (case td_partitions td of None \<Rightarrow> [] | Some ps \<Rightarrow> ps), cr_ttl := (if td_GetTTL td \<noteq> math_MaxInt then td_GetTTL td else 0)\<rparr>)"

definition createAllTable :: "string \<Rightarrow> log_table \<Rightarrow> Create" where
  "createAllTable cluster td =
     (let local = localTableName (td_name td) in
      NewCreate\<lparr>cr_cluster := cluster, cr_database := td_database td, cr_table := allTableName (td_name td), cr_asTable := quoted (td_database td @ dot @ local),
        cr_engine := Some (Distributed cluster (td_database td) local (case td_sharding td of None \<Rightarrow> [] | Some k \<Rightarrow> k))\<rparr>)"

text \<open>The statements executed, and whether they succeeded; \<open>exec\<close> is the answer of the server.\<close>

definition ch_Create :: "(string \<Rightarrow> bool) \<Rightarrow> string \<Rightarrow> log_table \<Rightarrow> (string list \<times> bool) option" where
  "ch_Create exec cluster td =
     (case Create_String (createLocalTable cluster td) of
        None \<Rightarrow> None
      | Some s \<Rightarrow> if \<not> exec s then Some ([s], False) else map_option (\<lambda>s'. ([s, s'], exec s')) (Create_String (createAllTable cluster td)))"

subsection \<open>Reading\<close>

definition querySingleTable :: "'v log_env \<Rightarrow> string \<Rightarrow> log_table \<Rightarrow> (string, 'v) smap \<Rightarrow> string list \<Rightarrow> time \<Rightarrow> time \<Rightarrow> bool \<Rightarrow> int \<Rightarrow> 'v Query" where
  "querySingleTable env database td filters selects start stop desc limit =
     (let has = (\<lambda>c. cache_load (td_columns td) c \<noteq> None) in
      \<lparr>qu_selects = filter has selects, qu_database = database, qu_table = allTableName (td_name td),
       qu_where = map (\<lambda>(k, v). ch_Eq k v) (filter (\<lambda>(k, v). has k) filters) @ [ch_GE TimeKey (le_of_time env start), ch_LE TimeKey (le_of_time env stop)],
       qu_desc = desc, qu_limit = limit\<rparr>)"

text \<open>
  The columns of a joined row, from the one at \<open>ix\<close>, as those of one table; \<open>None\<close> is a panic. A table that has no row at this time has the epoch as its time: then the index moves on to
  the table with the number of the column, if there is one.
\<close>

fun row_columns :: "'v log_env \<Rightarrow> nat list \<Rightarrow> nat list \<Rightarrow> nat list \<Rightarrow> 'v list \<Rightarrow> nat \<Rightarrow> nat \<Rightarrow> nat \<Rightarrow> string list \<Rightarrow> (string, 'v) smap \<Rightarrow> (nat \<times> (string, 'v) smap) option" where
  "row_columns env tms bools skip results n j ix [] tmp = Some (ix, tmp)"
| "row_columns env tms bools skip results n j ix (s # ss) tmp =
     (let store = (\<lambda>v. row_columns env tms bools skip results n (Suc j) (Suc ix) ss (cache_store s v tmp)); v = results ! ix;
          rest = (\<lambda>_. if ix \<in> set bools then store (le_of_bool env (\<not> le_is_zero env v)) else store v) in
      if length results \<le> ix then None
      else if ix \<in> set tms then
        (case le_kind env v of
           KTime t \<Rightarrow>
             if t = time_of_Unix 0 then (if Suc j < n then if Suc j < length skip then Some (skip ! Suc j, tmp) else None else Some (ix, tmp)) else rest ()
         | _ \<Rightarrow> None)
      else rest ())"

fun row_tables :: "'v log_env \<Rightarrow> nat list \<Rightarrow> nat list \<Rightarrow> nat list \<Rightarrow> 'v list \<Rightarrow> int \<Rightarrow> nat \<Rightarrow> string list list \<Rightarrow> (string, 'v) smap list \<Rightarrow> (bool \<times> (string, 'v) smap list) option" where
  "row_tables env tms bools skip results limit ix [] ret = Some (False, ret)"
| "row_tables env tms bools skip results limit ix (ss # sss) ret =
     (case row_columns env tms bools skip results (length ss) 0 ix ss [] of
        None \<Rightarrow> None
      | Some (ix, tmp) \<Rightarrow>
          if int (length ret) + 1 = limit then Some (True, ret @ [tmp]) else row_tables env tms bools skip results limit ix sss (ret @ [tmp]))"

fun read_rows :: "'v log_env \<Rightarrow> nat list \<Rightarrow> nat list \<Rightarrow> nat list \<Rightarrow> int \<Rightarrow> string list list \<Rightarrow> 'v list list \<Rightarrow> (string, 'v) smap list \<Rightarrow> (string, 'v) smap list option" where
  "read_rows env tms bools skip limit sss [] ret = Some ret"
| "read_rows env tms bools skip limit sss (r # rs) ret =
     (case row_tables env tms bools skip r limit 0 sss ret of
        None \<Rightarrow> None
      | Some (enough, ret) \<Rightarrow> if enough then Some ret else read_rows env tms bools skip limit sss rs ret)"

text \<open>The places of times and truth values among the columns, and the first column of each table.\<close>

definition column_types :: "(log_table \<times> string list) list \<Rightarrow> (string \<times> ColumnDatatype) list" where
  "column_types ts = concat (map (\<lambda>(td, ss). map (\<lambda>s. (s, GetColumnDatatype [td] s)) ss) ts)"

definition places :: "(string \<times> ColumnDatatype \<Rightarrow> bool) \<Rightarrow> (log_table \<times> string list) list \<Rightarrow> nat list" where
  "places P ts = map fst (filter (\<lambda>(i, c). P c) (enumerate 0 (column_types ts)))"

definition first_columns :: "(log_table \<times> string list) list \<Rightarrow> nat list" where
  "first_columns ts = map (\<lambda>i. length (column_types (take i ts))) [0..<length ts]"

definition queryDB :: "'v log_env \<Rightarrow> (log_table \<times> string list) list \<Rightarrow> int \<Rightarrow> 'v list list \<Rightarrow> (string, 'v) smap list option" where
  "queryDB env ts limit rows =
     read_rows env (places (\<lambda>(s, dt). s = TimeKey) ts) (places (\<lambda>(s, dt). dt = ColumnDatatypeBoolean) ts) (first_columns ts) limit (map snd ts) rows []"

text \<open>The text of a query and, from the rows of the server, the answer. A table is looked up by its name.\<close>

definition table_named :: "log_table list \<Rightarrow> log_table \<Rightarrow> log_table" where
  "table_named tds td = (case GetTableDefinition tds (td_name td) of None \<Rightarrow> td | Some t \<Rightarrow> t)"

definition queryRange ::
  "'v log_env \<Rightarrow> log_table list \<Rightarrow> (string, 'v) smap \<Rightarrow> string list \<Rightarrow> time \<Rightarrow> time \<Rightarrow> int \<Rightarrow> bool \<Rightarrow> (string \<times> ('v list list \<Rightarrow> (string, 'v) smap list option)) option" where
  "queryRange env tds filters selects start stop limit desc =
     (case tds of
        [] \<Rightarrow> None
      | td # _ \<Rightarrow>
          let tables = map (table_named tds) tds; qs = map (\<lambda>td. querySingleTable env (td_database (hd tds)) td filters selects start stop desc limit) tables in
          map_option (\<lambda>s. (s, queryDB env (zip tables (map qu_selects qs)) limit)) (if length tds = 1 then Some (Query_String env (hd qs)) else MultiQuery_String env qs desc limit))"

definition ch_Get where
  "ch_Get env now q =
     queryRange env (sg_tables q) (sg_keys q) (sg_selects q)
       (now - wrap64 (wrap64 (GetTTLDay (case sg_tables q of [] \<Rightarrow> 0 | td # _ \<Rightarrow> td_GetTTL td) * Hour) * 24)) now (if sg_latest q \<or> sg_keys q = [] then 1 else 2000) True"

definition ch_List where
  "ch_List env q = queryRange env (rg_tables q) (rg_keys q) (rg_selects q) (rg_start q) (rg_end q) (rg_limit q) (rg_desc q)"

subsection \<open>Writing\<close>

definition Insert_String :: "string \<Rightarrow> string \<Rightarrow> string list \<Rightarrow> string" where
  "Insert_String database table vals =
     ''INSERT INTO '' @ quoted ((if database = [] then [] else database @ dot) @ table) @ '' ('' @ quoted (join_with ([CHR 0x22] @ '', '' @ [CHR 0x22]) vals) @ '') VALUES (?'' @
     concat (replicate (length vals - 1) '', ?'') @ '')''"

text \<open>The prepared statement and the values of each row, nil where the row has none, with the sign at the end. The keys of the statement are not written.\<close>

definition ch_Insert :: "'v \<Rightarrow> 'v log_Upsert \<Rightarrow> string \<times> 'v option list list" where
  "ch_Insert one u =
     (let cs = map fst (td_columns (up_table u)) in
      (Insert_String (td_database (up_table u)) (allTableName (td_name (up_table u))) (cs @ [''_sign'']), map (\<lambda>row. map (cache_load row) cs @ [Some one]) (up_rows u)))"

end
