(* ===== verification/Log_Properties.thy ===== *)
theory Log_Properties
  imports Click_House
begin

text \<open>
  What the texts sent to the log storage mean. Conditions of Flux are read as sequences of comparisons with connectives, of which \<open>and\<close> binds more tightly than \<open>or\<close>.
\<close>

subsection \<open>Conditions\<close>

datatype flux_atom = Measurement string | Column string string
datatype flux_conn = FluxAnd | FluxOr

type_synonym flux_condition = "flux_atom \<times> (flux_conn \<times> flux_atom) list"

fun atom_text :: "flux_atom \<Rightarrow> string" where
  "atom_text (Measurement n) = ''r._measurement == '' @ quoted n"
| "atom_text (Column k v) = ''r['' @ quoted k @ ''] == '' @ quoted v"

fun conn_text :: "flux_conn \<Rightarrow> string" where "conn_text FluxAnd = '' and ''" | "conn_text FluxOr = '' or ''"

definition rest_text :: "(flux_conn \<times> flux_atom) list \<Rightarrow> string" where "rest_text ps = concat (map (\<lambda>(c, a). conn_text c @ atom_text a) ps)"
definition flux_text :: "flux_condition \<Rightarrow> string" where "flux_text c = atom_text (fst c) @ rest_text (snd c)"

record flux_row =
  fx_measurement :: string
  fx_tag :: "string \<Rightarrow> string option"

fun atom_holds :: "flux_row \<Rightarrow> flux_atom \<Rightarrow> bool" where
  "atom_holds r (Measurement n) = (fx_measurement r = n)"
| "atom_holds r (Column k v) = (fx_tag r k = Some v)"

fun rest_holds :: "flux_row \<Rightarrow> bool \<Rightarrow> (flux_conn \<times> flux_atom) list \<Rightarrow> bool" where
  "rest_holds r b [] = b"
| "rest_holds r b ((FluxAnd, a) # ps) = rest_holds r (b \<and> atom_holds r a) ps"
| "rest_holds r b ((FluxOr, a) # ps) = (b \<or> rest_holds r (atom_holds r a) ps)"

definition flux_holds :: "flux_row \<Rightarrow> flux_condition \<Rightarrow> bool" where "flux_holds r c = rest_holds r (atom_holds r (fst c)) (snd c)"

subsection \<open>The condition of a listing\<close>

definition table_tags :: "'v log_env \<Rightarrow> log_table list \<Rightarrow> (string, 'v) smap \<Rightarrow> (string \<times> string) list" where
  "table_tags env tds keys = map (\<lambda>(k, v). (k, le_show env v)) (filter (\<lambda>(k, v). IsPrimaryKey tds k) keys)"

definition list_condition :: "'v log_env \<Rightarrow> log_table list \<Rightarrow> (string, 'v) smap \<Rightarrow> flux_condition" where
  "list_condition env tds keys =
     (Measurement (td_name (hd tds)), map (\<lambda>td. (FluxOr, Measurement (td_name td))) (tl tds) @ map (\<lambda>(k, s). (FluxAnd, Column k s)) (table_tags env tds keys))"

lemma rest_text_simps [simp]: "rest_text [] = []" "rest_text ((c, a) # ps) = conn_text c @ atom_text a @ rest_text ps" "rest_text (xs @ ys) = rest_text xs @ rest_text ys"
  by (simp_all add: rest_text_def)

lemma primary_tags_text: "primary_tags env tds keys = rest_text (map (\<lambda>(k, s). (FluxAnd, Column k s)) (table_tags env tds keys))"
  by (auto simp: primary_tags_def table_tags_def rest_text_def key_tag_def comp_def case_prod_beta' intro!: arg_cong [of _ _ concat] map_cong)

lemma range_tags_text: "range_tags (td # tds) = Some ('' '' @ flux_text (Measurement (td_name td), map (\<lambda>td. (FluxOr, Measurement (td_name td))) tds))"
proof -
  have "concat (map (\<lambda>td. '' r._measurement == '' @ quoted (td_name td) @ '' or'') (td # tds)) =
      ('' '' @ atom_text (Measurement (td_name td)) @ rest_text (map (\<lambda>td. (FluxOr, Measurement (td_name td))) tds)) @ '' or''" for td
  proof (induction tds arbitrary: td)
    case (Cons t tds)
    then show ?case using Cons.IH [of t] by simp
  qed simp
  then show ?thesis by (simp add: range_tags_def cut_end_def flux_text_def)
qed

lemma list_condition_from:
  assumes t: "rg_tables q = td # tds"
  shows "\<exists>pre post. influx_List_query env q =
    Some (''from(bucket:'' @ quoted (td_database td @ GetRPName (GetTTL (td # tds))) @ pre @ filter_stage ('' '' @ flux_text (list_condition env (td # tds) (rg_keys q))) @ post)"
proof -
  have T: "('' '' @ flux_text (Measurement (td_name td), map (\<lambda>td. (FluxOr, Measurement (td_name td))) tds)) @ primary_tags env (td # tds) (rg_keys q) =
      '' '' @ flux_text (list_condition env (td # tds) (rg_keys q))"
    by (simp add: list_condition_def flux_text_def primary_tags_text)
  show ?thesis unfolding influx_List_query_def t range_tags_text list.case option.case prod.case Let_def T from_stage_def
    by (intro exI [of _ "'')'' @ newline @ ''|> range(start: '' @ _ @ '', stop: '' @ _ @ '')'' @ newline"] exI) (simp only: append.assoc)
qed

lemma list_condition_text:
  assumes "rg_tables q \<noteq> []"
  shows "\<exists>pre post. influx_List_query env q = Some (pre @ filter_stage ('' '' @ flux_text (list_condition env (rg_tables q) (rg_keys q))) @ post)"
proof -
  obtain td tds where t: "rg_tables q = td # tds" using assms by (cases "rg_tables q") auto
  from list_condition_from [OF t, of env] show ?thesis unfolding t by (metis append.assoc)
qed

lemma range_filter_stage:
  assumes "rg_tables q \<noteq> []"
  shows "\<exists>x y. influx_List_query env q = Some (x @ range_filter env q @ y)"
proof -
  obtain td tds where t: "rg_tables q = td # tds" using assms by (cases "rg_tables q") auto
  show ?thesis unfolding influx_List_query_def t range_tags_text list.case option.case prod.case Let_def
    by (intro exI [of _ "from_stage _ _ _ _ @ newline @ filter_stage _ @ newline @ filter_stage _ @ newline"] exI) (simp only: append.assoc)
qed

lemma tags_hold: "rest_holds r b (map (\<lambda>(k, s). (FluxAnd, Column k s)) ts) \<longleftrightarrow> b \<and> (\<forall>(k, s)\<in>set ts. fx_tag r k = Some s)"
  by (induction ts arbitrary: b) (simp_all add: case_prod_beta' conj_assoc)

lemma tables_hold:
  "rest_holds r (fx_measurement r = n) (map (\<lambda>m. (FluxOr, Measurement m)) ns @ map (\<lambda>(k, s). (FluxAnd, Column k s)) ts) \<longleftrightarrow>
    fx_measurement r \<in> set (butlast (n # ns)) \<or> fx_measurement r = last (n # ns) \<and> (\<forall>(k, s)\<in>set ts. fx_tag r k = Some s)"
  by (induction ns arbitrary: n) (simp_all add: tags_hold)

lemma list_condition_holds:
  assumes "tds \<noteq> []"
  shows "flux_holds r (list_condition env tds keys) \<longleftrightarrow>
    fx_measurement r \<in> td_name ` set (butlast tds) \<or> fx_measurement r = td_name (last tds) \<and> (\<forall>(k, s)\<in>set (table_tags env tds keys). fx_tag r k = Some s)"
proof (cases tds)
  case (Cons td ts)
  then show ?thesis using tables_hold [of r "td_name td" "map td_name ts" "table_tags env tds keys"]
    by (simp add: flux_holds_def list_condition_def comp_def map_butlast [symmetric] last_map)
qed (use assms in simp)

text \<open>
  C14: the condition of a listing, read with the precedence of Flux, accepts every row of all tables but the last, whatever its keys; only the rows of the last table have to have the keys that
  were asked for.
\<close>

theorem list_filter_meaning:
  assumes "rg_tables q \<noteq> []"
  shows "\<exists>pre c post. influx_List_query env q = Some (pre @ filter_stage ('' '' @ flux_text c) @ post) \<and>
    (\<forall>r. flux_holds r c \<longleftrightarrow> fx_measurement r \<in> td_name ` set (butlast (rg_tables q)) \<or>
       fx_measurement r = td_name (last (rg_tables q)) \<and> (\<forall>(k, s)\<in>set (table_tags env (rg_tables q) (rg_keys q)). fx_tag r k = Some s))"
proof -
  have "flux_holds r (list_condition env (rg_tables q) (rg_keys q)) \<longleftrightarrow> fx_measurement r \<in> td_name ` set (butlast (rg_tables q)) \<or>
       fx_measurement r = td_name (last (rg_tables q)) \<and> (\<forall>(k, s)\<in>set (table_tags env (rg_tables q) (rg_keys q)). fx_tag r k = Some s)" for r
    by (rule list_condition_holds [OF assms])
  then show ?thesis using list_condition_text [OF assms, of env] by blast
qed

definition text_env :: "string log_env" where
  "text_env = \<lparr>le_kind = KString, le_show = id, le_RFC3339Nano = (\<lambda>_. ''t''), le_micros = (\<lambda>_. ''t''), le_format = id, le_of_time = (\<lambda>_. ''t''), le_of_string = id,
     le_of_bool = (\<lambda>b. if b then ''true'' else ''false''), le_is_zero = (\<lambda>s. s = ''0'')\<rparr>"

definition log_sample :: "string \<Rightarrow> log_table" where
  "log_sample n = \<lparr>td_name = n, td_columns = [(''thingId'', ColumnTypePrimaryKey, ColumnDatatypeString), (''code'', ColumnTypeSecondaryKey, ColumnDatatypeString)], td_database = ''event-raw'',
     td_TTL = None, td_engine = None, td_partitions = None, td_sharding = None\<rparr>"

definition sample_listing :: "string list \<Rightarrow> (string, string) smap \<Rightarrow> string log_Range" where
  "sample_listing ns keys = \<lparr>rg_tables = map log_sample ns, rg_start = 1, rg_end = 2, rg_selects = [''code''], rg_keys = keys, rg_limit = 10, rg_desc = False, rg_byTime = True, rg_replace = None\<rparr>"

theorem list_filter_meaning_witness:
  "\<exists>pre c post. influx_List_query text_env (sample_listing [''A'', ''B''] [(''thingId'', ''x'')]) = Some (pre @ filter_stage ('' '' @ flux_text c) @ post) \<and>
    flux_holds \<lparr>fx_measurement = ''A'', fx_tag = (\<lambda>_. Some ''y'')\<rparr> c"
proof -
  obtain pre c post where c: "influx_List_query text_env (sample_listing [''A'', ''B''] [(''thingId'', ''x'')]) = Some (pre @ filter_stage ('' '' @ flux_text c) @ post)"
    "\<forall>r. flux_holds r c \<longleftrightarrow> fx_measurement r \<in> td_name ` set (butlast (rg_tables (sample_listing [''A'', ''B''] [(''thingId'', ''x'')]))) \<or>
       fx_measurement r = td_name (last (rg_tables (sample_listing [''A'', ''B''] [(''thingId'', ''x'')]))) \<and>
       (\<forall>(k, s)\<in>set (table_tags text_env (rg_tables (sample_listing [''A'', ''B''] [(''thingId'', ''x'')])) (rg_keys (sample_listing [''A'', ''B''] [(''thingId'', ''x'')]))). fx_tag r k = Some s)"
    using list_filter_meaning [of "sample_listing [''A'', ''B''] [(''thingId'', ''x'')]" text_env] by (auto simp: sample_listing_def)
  have "''A'' \<in> td_name ` set (butlast (rg_tables (sample_listing [''A'', ''B''] [(''thingId'', ''x'')])))" by (simp add: sample_listing_def log_sample_def)
  with c(2) have "flux_holds \<lparr>fx_measurement = ''A'', fx_tag = (\<lambda>_. Some ''y'')\<rparr> c" by simp
  with c(1) show ?thesis by blast
qed

subsection \<open>Unique texts\<close>

fun plain_atom :: "flux_atom \<Rightarrow> bool" where
  "plain_atom (Measurement n) = (CHR 0x22 \<notin> set n)"
| "plain_atom (Column k v) = (CHR 0x22 \<notin> set k \<and> CHR 0x22 \<notin> set v)"

lemma quoted_unique: "CHR 0x22 \<notin> set s \<Longrightarrow> CHR 0x22 \<notin> set s' \<Longrightarrow> quoted s @ x = quoted s' @ y \<longleftrightarrow> s = s' \<and> x = y"
proof (induction s arbitrary: s')
  case Nil
  then show ?case by (cases s') (auto simp: quoted_def)
next
  case (Cons c s)
  then show ?case by (cases s') (auto simp: quoted_def)
qed

lemma atom_unique: "plain_atom a \<Longrightarrow> plain_atom a' \<Longrightarrow> atom_text a @ x = atom_text a' @ y \<longleftrightarrow> a = a' \<and> x = y"
  by (cases a; cases a') (auto simp: quoted_unique)

lemma rest_unique: "\<forall>(c, a)\<in>set ps. plain_atom a \<Longrightarrow> \<forall>(c, a)\<in>set ps'. plain_atom a \<Longrightarrow> rest_text ps = rest_text ps' \<Longrightarrow> ps = ps'"
proof (induction ps arbitrary: ps')
  case Nil
  then show ?case by (cases ps') (auto elim: conn_text.elims)
next
  case (Cons p ps)
  obtain c a where p: "p = (c, a)" by fastforce
  with Cons.prems(3) obtain c' a' ps1 where ps': "ps' = (c', a') # ps1" by (cases ps') (auto elim: conn_text.elims)
  have eq: "conn_text c @ atom_text a @ rest_text ps = conn_text c' @ atom_text a' @ rest_text ps1" using Cons.prems(3) by (simp add: p ps')
  then have "c = c'" by (cases c; cases c') auto
  with eq Cons.prems(1,2) have "a = a'" "rest_text ps = rest_text ps1" by (auto simp: p ps' atom_unique)
  then show ?case using Cons.IH [of ps1] Cons.prems(1,2) \<open>c = c'\<close> by (simp add: p ps')
qed

text \<open>
  As long as names and values have no quotes, the text of a condition determines it: two conditions with the same text have the same comparisons and connectives.
\<close>

theorem condition_text_injective:
  assumes "plain_atom a" "plain_atom a'" "\<forall>(c, b)\<in>set ps. plain_atom b" "\<forall>(c, b)\<in>set ps'. plain_atom b" "flux_text (a, ps) = flux_text (a', ps')"
  shows "a = a' \<and> ps = ps'"
  using assms atom_unique [OF assms(1,2)] rest_unique [OF assms(3,4)] by (simp add: flux_text_def)

text \<open>
  C38: a value with a quote is not protected: in a listing by time with a condition on one secondary key of type string, a client that chooses the value can put any text into the query, between
  two stages that are well formed.
\<close>

theorem filter_value_injects:
  assumes "rg_tables q \<noteq> []" "rg_byTime q" "rg_keys q = [(k, v)]" "\<not> IsPrimaryKey (rg_tables q) k" "IsSecondaryKey (rg_tables q) k" "GetColumnDatatype (rg_tables q) k = ColumnDatatypeString"
    and "le_show env v = a @ [CHR 0x22] @ '')'' @ p @ ''|> filter(fn: (r) => r['' @ quoted k @ ''] == '' @ [CHR 0x22] @ a"
  shows "\<exists>pre post. influx_List_query env q = Some (pre @ filter_stage ('' '' @ atom_text (Column k a)) @ p @ filter_stage (atom_text (Column k a)) @ post)"
proof -
  obtain td tds where t: "rg_tables q = td # tds" using assms(1) by (cases "rg_tables q") auto
  have s: "secondary_filters env (rg_tables q) (rg_keys q) = ('' '' @ atom_text (Column k (le_show env v))) @ '' and''"
    using assms(3-6) by (simp add: secondary_filters_def key_filter_def)
  have "take (length (x @ '' and'') - 4) (x @ '' and'') = x" for x by simp
  then have "range_filter env q = pivot @ newline @ filter_stage ('' '' @ atom_text (Column k (le_show env v)))" using assms(2) unfolding range_filter_def s Let_def by (simp del: atom_text.simps)
  also have "filter_stage ('' '' @ atom_text (Column k (le_show env v))) = filter_stage ('' '' @ atom_text (Column k a)) @ p @ filter_stage (atom_text (Column k a))"
    by (simp add: filter_stage_def assms(7) quoted_def)
  finally have f: "range_filter env q = pivot @ newline @ filter_stage ('' '' @ atom_text (Column k a)) @ p @ filter_stage (atom_text (Column k a))" .
  obtain x y where "influx_List_query env q = Some (x @ range_filter env q @ y)" using range_filter_stage [OF assms(1)] by blast
  then show ?thesis unfolding f by (intro exI [of _ "x @ pivot @ newline"] exI [of _ y]) simp
qed

theorem filter_value_injects_witness:
  "\<exists>pre post. influx_List_query text_env (sample_listing [''A''] [(''code'', ''c'' @ [CHR 0x22] @ '')'' @ ''|> drop()'' @ ''|> filter(fn: (r) => r['' @ quoted ''code'' @ ''] == '' @ [CHR 0x22] @ ''c'')]) =
    Some (pre @ filter_stage ('' '' @ atom_text (Column ''code'' ''c'')) @ ''|> drop()'' @ filter_stage (atom_text (Column ''code'' ''c'')) @ post)"
  by (rule filter_value_injects) (simp_all add: sample_listing_def IsPrimaryKey_def IsSecondaryKey_def td_IsPrimaryKey_def td_IsSecondaryKey_def log_sample_def cache_load_def text_env_def)

subsection \<open>Events and commands\<close>

text \<open>The listing that the event service and the control service hand to the log storage.\<close>

definition event_range :: "'f ev_query \<Rightarrow> 'f json_val log_Range option" where
  "event_range q =
     (case q of
        RangeQuery tds start stop fds flt limit desc \<Rightarrow>
          Some \<lparr>rg_tables = map plain_table tds, rg_start = start, rg_end = stop, rg_selects = fds, rg_keys = flt, rg_limit = limit, rg_desc = desc, rg_byTime = True, rg_replace = None\<rparr>
      | _ \<Rightarrow> None)"

definition command_range :: "ctl_query \<Rightarrow> json log_Range option" where
  "command_range q =
     map_option (\<lambda>(start, stop, limit, desc).
       \<lparr>rg_tables = map plain_table (cq_tables q), rg_start = start, rg_end = stop, rg_selects = cq_selects q, rg_keys = cq_keys q, rg_limit = limit, rg_desc = desc, rg_byTime = True,
        rg_replace = Some ''typeId''\<rparr>) (cq_range q)"

lemma other_tables_listed:
  assumes "td \<in> set (butlast (rg_tables q))" "fx_measurement r = td_name td"
  shows "\<exists>pre c post. influx_List_query env q = Some (pre @ filter_stage ('' '' @ flux_text c) @ post) \<and> flux_holds r c"
proof -
  have "rg_tables q \<noteq> []" using assms(1) by auto
  from list_condition_text [OF this, of env] list_condition_holds [OF this, of r env "rg_keys q"] assms show ?thesis by blast
qed

text \<open>
  C37: the listing of the events of a thing over several event types accepts the events of every other thing, of all these types but the last.
\<close>

theorem events_of_other_things:
  assumes "store_ListEvents m now ets start stop thing flt fds desc False limit = q" "et \<in> set (butlast ets)" "fx_measurement r = td_name (getTableDefinition m et)"
  shows "\<exists>g pre c post. event_range q = Some g \<and> influx_List_query env g = Some (pre @ filter_stage ('' '' @ flux_text c) @ post) \<and> flux_holds r c"
proof -
  obtain s e k fs where "q = RangeQuery (map (getTableDefinition m) ets) s e fs k limit desc" using assms(1) by (auto simp: store_ListEvents_def Let_def)
  then obtain g where g: "event_range q = Some g" "rg_tables g = map (\<lambda>et. plain_table (getTableDefinition m et)) ets" by (simp add: event_range_def comp_def)
  then have "plain_table (getTableDefinition m et) \<in> set (butlast (rg_tables g))" using assms(2) by (simp add: map_butlast [symmetric])
  from other_tables_listed [OF this, of r env] g(1) assms(3) show ?thesis by (simp add: plain_table_def)
qed

definition log_types :: "EventType list" where
  "log_types = [zero_EventType\<lparr>om_ID := ''main.Fire''\<rparr>, zero_EventType\<lparr>om_ID := ''main.Flood''\<rparr>]"

definition json_env :: "string json_val log_env" where
  "json_env = \<lparr>le_kind = (\<lambda>v. case v of JString s \<Rightarrow> KString s | _ \<Rightarrow> KOther ''0''), le_show = (\<lambda>v. case v of JString s \<Rightarrow> s | _ \<Rightarrow> ''0''), le_RFC3339Nano = (\<lambda>_. ''t''), le_micros = (\<lambda>_. ''t''), le_format = id,
     le_of_time = (\<lambda>_. JString ''t''), le_of_string = JString, le_of_bool = (\<lambda>b. JString (if b then ''true'' else ''false'')), le_is_zero = (\<lambda>_. False)\<rparr>"

theorem events_of_other_things_witness:
  "\<exists>g pre c post. event_range (store_ListEvents \<lparr>em_types = [], em_files = [], em_tables = [(''main.Fire'', \<lparr>td_name = ''main.Fire'', td_columns = [], td_database = ''event-raw''\<rparr>)]\<rparr> 5 log_types 1 2 ''x''
      ([] :: (string, string json_val) smap) [] False False 10) = Some g \<and>
    influx_List_query json_env g = Some (pre @ filter_stage ('' '' @ flux_text c) @ post) \<and>
    flux_holds \<lparr>fx_measurement = ''main.Fire'', fx_tag = (\<lambda>_. Some ''y'')\<rparr> c"
  by (rule events_of_other_things [OF refl, where et = "zero_EventType\<lparr>om_ID := ''main.Fire''\<rparr>"]) (simp_all add: log_types_def getTableDefinition_def cache_load_def)



subsection \<open>ClickHouse\<close>

lemma length_join: "length (join_with sep ws) = sum_list (map length ws) + length sep * (length ws - 1)"
  by (induction sep ws rule: join_with.induct) simp_all

lemma concat_separated: "ws \<noteq> [] \<Longrightarrow> concat (map (\<lambda>w. f w @ sep) vs) @ join_with sep ws = join_with sep (map f vs @ ws)"
proof (induction vs)
  case (Cons v vs)
  obtain u us where u: "map f vs @ ws = u # us" using Cons.prems by (cases "map f vs @ ws") auto
  with Cons show ?case by simp
qed simp

lemma length_separated: "length (concat (map (\<lambda>w. f w @ s) vs)) = sum_list (map length (map f vs)) + length s * length vs"
  by (induction vs) simp_all

lemma columns_of_table:
  assumes "cr_sk c \<noteq> [] \<longrightarrow> cr_att c \<noteq> []"
  shows "cr_sk (foldl add_column c cs) \<noteq> [] \<longrightarrow> cr_att (foldl add_column c cs) \<noteq> []"
  using assms
proof (induction cs arbitrary: c)
  case (Cons x cs)
  have "cr_sk (add_column c x) \<noteq> [] \<longrightarrow> cr_att (add_column c x) \<noteq> []"
    using Cons.prems by (cases "(c, x)" rule: add_column.cases) (auto simp: cr_PrimaryKey_def cr_SecondaryKey_def cr_Attribute_def)
  with Cons.IH show ?case by simp
qed simp

text \<open>
  C39: the columns in the statement that creates a table are separated by commas exactly if the table has a secondary key, or at most one attribute and, without attributes, at most one primary
  key; otherwise they run together and the statement is not one of SQL.
\<close>

theorem create_columns_separated:
  assumes "c = createLocalTable cluster td"
  shows "column_list c = join_with '', '' (map pk_text (cr_pk c) @ map att_text (cr_att c) @ map sk_text (cr_sk c)) \<longleftrightarrow>
    cr_sk c \<noteq> [] \<or> length (cr_att c) \<le> 1 \<and> (cr_att c \<noteq> [] \<or> length (cr_pk c) \<le> 1)"
proof -
  have sk: "cr_sk c \<noteq> [] \<longrightarrow> cr_att c \<noteq> []"
    using columns_of_table [of "NewCreate\<lparr>cr_cluster := cluster, cr_database := td_database td, cr_table := localTableName (td_name td)\<rparr>" "td_columns td"]
    by (simp add: assms createLocalTable_def Let_def NewCreate_def)
  show ?thesis
  proof (cases "cr_sk c = []")
    case False
    then have "column_list c = concat (map (\<lambda>p. pk_text p @ '', '') (cr_pk c)) @ concat (map (\<lambda>a. att_text a @ '', '') (cr_att c)) @ join_with '', '' (map sk_text (cr_sk c))"
      using sk by (simp add: column_list_def)
    then show ?thesis using False by (simp add: concat_separated)
  next
    case True
    let ?R = "join_with '', '' (map pk_text (cr_pk c) @ map att_text (cr_att c))"
    have len: "length (column_list c) = sum_list (map length (map pk_text (cr_pk c))) + (if cr_att c = [] then 0 else 2) * length (cr_pk c) + sum_list (map length (map att_text (cr_att c)))"
      using True length_separated [of pk_text "'', ''" "cr_pk c"] length_separated [of pk_text "[]" "cr_pk c"] length_separated [of att_text "[]" "cr_att c"] by (simp add: column_list_def)
    have ref: "length ?R = sum_list (map length (map pk_text (cr_pk c))) + sum_list (map length (map att_text (cr_att c))) + 2 * (length (cr_pk c) + length (cr_att c) - 1)"
      by (simp add: length_join)
    show ?thesis
    proof (cases "length (cr_att c) \<le> 1 \<and> (cr_att c \<noteq> [] \<or> length (cr_pk c) \<le> 1)")
      case ok: True
      then consider "cr_att c = []" "cr_pk c = []" | p where "cr_att c = []" "cr_pk c = [p]" | a where "cr_att c = [a]"
        by (cases "cr_att c"; cases "cr_pk c") auto
      then have "column_list c = ?R" using True concat_separated [of "[att_text (hd (cr_att c))]" pk_text "'', ''" "cr_pk c"] by cases (simp_all add: column_list_def)
      then show ?thesis using True ok by simp
    next
      case bad: False
      then have "length (column_list c) \<noteq> length ?R" unfolding len ref by (cases "cr_att c") auto
      then show ?thesis using True bad by auto
    qed
  qed
qed

theorem create_columns_separated_witness:
  "column_list (createLocalTable ''c'' (log_sample ''A'')) =
    join_with '', '' (map pk_text (cr_pk (createLocalTable ''c'' (log_sample ''A''))) @ map att_text (cr_att (createLocalTable ''c'' (log_sample ''A''))) @ map sk_text (cr_sk (createLocalTable ''c'' (log_sample ''A''))))"
proof -
  have "cr_sk (createLocalTable ''c'' (log_sample ''A'')) \<noteq> []"
    by (simp add: createLocalTable_def log_sample_def Let_def cr_PrimaryKey_def cr_SecondaryKey_def cr_Attribute_def NewCreate_def)
  then show ?thesis using create_columns_separated [OF refl, of "''c''" "log_sample ''A''"] by simp
qed

text \<open>A column that is only among the keys of a statement is written as nil.\<close>

lemma clickhouse_drops_keys:
  assumes "(k, v) \<in> set (td_columns (up_table u))" "row \<in> set (up_rows u)" "cache_load row k = None"
  shows "\<exists>vals\<in>set (snd (ch_Insert one u)). None \<in> set vals"
  using assms by (force simp: ch_Insert_def Let_def)

text \<open>The order of a joined query is the opposite of the one asked for.\<close>

lemma joined_order_inverted:
  "MultiQuery_String env (q # qs) desc limit = Some s \<Longrightarrow> \<exists>pre. s = pre @ (if desc then ''._time  ASC '' else ''._time  DESC '') @ '' LIMIT '' @ FormatInt limit"
  by (auto simp: MultiQuery_String_def)

definition column_value :: "'v log_env \<Rightarrow> nat list \<Rightarrow> 'v list \<Rightarrow> nat \<Rightarrow> 'v" where
  "column_value env bools results i = (if i \<in> set bools then le_of_bool env (\<not> le_is_zero env (results ! i)) else results ! i)"

definition ordinary_row :: "'v log_env \<Rightarrow> nat list \<Rightarrow> 'v list \<Rightarrow> bool" where
  "ordinary_row env tms results = (\<forall>i<length results. i \<in> set tms \<longrightarrow> (\<exists>t. le_kind env (results ! i) = KTime t \<and> t \<noteq> time_of_Unix 0))"

lemma ordinary_columns:
  assumes "ordinary_row env tms results" "ix + length ss \<le> length results"
  shows "row_columns env tms bools skip results n j ix ss tmp =
    Some (ix + length ss, foldl (\<lambda>m (s, v). cache_store s v m) tmp (zip ss (map (column_value env bools results) [ix..<ix + length ss])))"
  using assms(2)
proof (induction ss arbitrary: j ix tmp)
  case (Cons s ss)
  then have lt: "ix < length results" by simp
  have up: "[ix..<ix + length (s # ss)] = ix # [Suc ix..<Suc ix + length ss]" using upt_conv_Cons [of ix "ix + length (s # ss)"] by simp
  have step: "row_columns env tms bools skip results n j ix (s # ss) tmp =
      row_columns env tms bools skip results n (Suc j) (Suc ix) ss (cache_store s (column_value env bools results ix) tmp)"
    using assms(1) lt by (auto simp: ordinary_row_def column_value_def Let_def)
  have "Suc ix + length ss \<le> length results" using Cons.prems by simp
  from Cons.IH [OF this, of "Suc j" "cache_store s (column_value env bools results ix) tmp"] show ?case
    unfolding step up list.map zip_Cons_Cons foldl_Cons by simp
qed simp

text \<open>The answer for one table: each row as a map, at most as many as asked for.\<close>

definition row_map :: "'v log_env \<Rightarrow> nat list \<Rightarrow> string list \<Rightarrow> 'v list \<Rightarrow> (string, 'v) smap" where
  "row_map env bools ss r = foldl (\<lambda>m (s, v). cache_store s v m) [] (zip ss (map (column_value env bools r) [0..<length ss]))"

lemma read_ordinary:
  assumes "\<forall>r\<in>set rows. ordinary_row env tms r \<and> length r = length ss" "int (length ret) < limit"
  shows "read_rows env tms bools skip limit [ss] rows ret = Some (ret @ map (row_map env bools ss) (take (nat limit - length ret) rows))"
  using assms
proof (induction rows arbitrary: ret)
  case (Cons r rows)
  have "row_columns env tms bools skip r (length ss) 0 0 ss [] = Some (length ss, row_map env bools ss r)"
    using ordinary_columns [of env tms r 0 ss bools skip "length ss" 0 "[]"] Cons.prems(1) by (simp add: row_map_def)
  then have t: "row_tables env tms bools skip r limit 0 [ss] ret = Some (int (length ret) + 1 = limit, ret @ [row_map env bools ss r])" by simp
  show ?case
  proof (cases "int (length ret) + 1 = limit")
    case True
    then have "nat limit - length ret = 1" by linarith
    then show ?thesis using t True by simp
  next
    case False
    then have lt: "int (length (ret @ [row_map env bools ss r])) < limit" using Cons.prems(2) by simp
    have n: "nat limit - length ret = Suc (nat limit - Suc (length ret))" using Cons.prems(2) by linarith
    have "read_rows env tms bools skip limit [ss] rows (ret @ [row_map env bools ss r]) =
        Some ((ret @ [row_map env bools ss r]) @ map (row_map env bools ss) (take (nat limit - length (ret @ [row_map env bools ss r])) rows))"
      using Cons.IH [OF _ lt] Cons.prems(1) by simp
    then show ?thesis using t False by (simp add: n)
  qed
qed simp

text \<open>
  C40: a listing of one table with ClickHouse answers with the first rows of the server, at most as many as asked for, each with exactly the selected columns and with truth values converted, as
  long as no row has the epoch as its time.
\<close>

theorem one_table_rows:
  assumes "\<forall>r\<in>set rows. length r = length ss \<and> ordinary_row env (places (\<lambda>(s, dt). s = TimeKey) [(td, ss)]) r" "0 < limit"
  shows "queryDB env [(td, ss)] limit rows = Some (map (row_map env (places (\<lambda>(s, dt). dt = ColumnDatatypeBoolean) [(td, ss)]) ss) (take (nat limit) rows))"
  using read_ordinary [of rows env _ ss "[]" limit] assms by (simp add: queryDB_def)

theorem one_table_rows_witness:
  "queryDB text_env [(log_sample ''A'', [''code''])] 1 [[''7''], [''8'']] = Some [row_map text_env (places (\<lambda>(s, dt). dt = ColumnDatatypeBoolean) [(log_sample ''A'', [''code''])]) [''code''] [''7'']]"
proof -
  have "places (\<lambda>(s, dt). s = TimeKey) [(log_sample ''A'', [''code''])] = []" by (simp add: places_def column_types_def TimeKey_def)
  then show ?thesis using one_table_rows [of "[[''7''], [''8'']]" "[''code'']" text_env "log_sample ''A''" 1] by (simp add: ordinary_row_def)
qed

end
