(* ===== verification/Spec2Isabelle.thy ===== *)
theory Spec2Isabelle
  imports Consumer Model_Manager Mappings Event_Failures Command_Losses Rule_Composition Log_Properties
begin

text \<open>
  A verification development of the IoT platform in \<open>src/\<close> (Go packages under \<open>src/pkg\<close>).

  \<^bold>\<open>The program.\<close> The platform is a set of services. The model manager (\<open>src/pkg/model\<close>) keeps property set types,
  thing types, things, agents and data point mappings; each manager holds a cache, writes through a store that compares versions
  (\<open>src/pkg/generic/store.go\<close>, \<open>src/pkg/storage\<close>) and is served by the same HTTP handlers (\<open>src/pkg/generic/endpoints/handlers\<close>). The consumer
  (\<open>src/pkg/consumer\<close>) runs in several instances that share out numeric identifiers, and works off jobs, to roll up
  time series and to delete data, which the job manager writes and retrieves. Deleting a thing in the model manager asks the job manager for a
  deletion job. Agents send values and events to the exchange (\<open>src/pkg/exchange\<close>), which turns them, along the mappings, into requests to the collector
  (\<open>src/pkg/data\<close>) and the event service (\<open>src/pkg/event\<close>); the collector announces the rollups of what it wrote to the job manager.
  The control service (\<open>src/pkg/control\<close>) sends commands and actions through the exchange to the agents and records them.
  The notification service (\<open>src/pkg/notification\<close>) sends messages by mail and chat.
  The rule service (\<open>src/pkg/rule\<close>) keeps rules over the properties of things; the collector evaluates them on the values it writes (\<open>src/pkg/data/realtimecomputation\<close>) and sends events,
  messages and computed values.

  \<^bold>\<open>Shared theories.\<close>
  \<^item> \<open>Harns_Prelude\<close>: association lists for the \<open>sync.Map\<close> caches, 64-bit wrap-around, the named collections.
  \<^item> \<open>Interfaces\<close>: the locales. \<open>id_set\<close> (bit set), \<open>codec\<close> and \<open>prefix_codec\<close> (tables of names and string forms), \<open>object_store\<close> (what a manager
    relies on of its store), \<open>weak_order\<close> (sorted insertion). \<open>Forest\<close>: the locale of a parent relation without cycles. \<open>Handlers\<close>: the locale
    \<open>versioned_resource\<close>. Each is interpreted on the model's definitions in the theory of the component that provides them.
  \<^item> \<open>Go_Strconv\<close>, \<open>Go_Strings\<close>, \<open>Go_Time\<close>: what the code uses of Go's \<open>strconv\<close>, \<open>strings\<close>, \<open>path/filepath\<close> and \<open>time\<close>.

  \<^bold>\<open>The consumer.\<close>
  \<^item> \<open>Bitset\<close> (\<open>util/bitset/bits.go\<close>): the bit set on 64-bit words; the searches for the next set and clear bit meet their contract.
  \<^item> \<open>Registry\<close> (\<open>consumer/instance/registry.go\<close>): a round of collation and allocation keeps the identifiers of the instances distinct and in range; the shares;
    two ways in which the code gives out wrong identifiers.
  \<^item> \<open>Job\<close> (\<open>consumer/job/{job,constants}.go\<close>): time blocks, processing times and the string form, with its round trip.
  \<^item> \<open>Job_Manager\<close> (\<open>consumer/job/manager.go\<close>, \<open>util/strutil/path.go\<close>): over every run of rollup requests and sweeps each job is written once; what is
    retrieved is what was written.
  \<^item> \<open>Consumer\<close> (\<open>consumer/instance/consumer.go\<close> and the deletion handlers): the interleaved steps of the two workers; an identifier is locked exactly while one of its jobs
    is processed; the deletion handlers.
  \<^item> \<open>Rollup\<close>, \<open>Rollup_Worker\<close> (\<open>consumer/data\<close>): the aggregation of samples and the rollup of its items, over exact arithmetic equal to the aggregation
    of all samples; the rollup jobs; rollups on the fly, whose durations are wrong. \<open>Rollup_Query\<close> (\<open>rollup/data\<close>): the queries, with Go's calendar; which of them
    are never answered.

  \<^bold>\<open>The model manager.\<close>
  \<^item> \<open>Responses\<close> (\<open>apis/response\<close>): the coded errors and their messages.
  \<^item> \<open>Store\<close> (\<open>storage/store_fs.go\<close>, \<open>generic/store.go\<close>): files, versions, faults of the operating system; a stale writer is rejected.
  \<^item> \<open>Filters\<close> (\<open>generic/filter.go\<close>, the \<open>filter.go\<close> of the managers): predicates and sorted listings.
  \<^item> \<open>Handlers\<close> (\<open>generic/endpoints/handlers\<close>, \<open>generic/rest\<close>): status codes and the \<open>If-Match\<close> discipline.
  \<^item> \<open>Model_Types\<close>, \<open>Model_Validation\<close>, \<open>Thing_Validation\<close> (\<open>model/v1\<close>, \<open>model/runtime\<close>, \<open>model/validation\<close>): data and validation; \<open>Differences\<close>
    (\<open>generic/utils.go\<close>): comparison of name lists.
  \<^item> \<open>Property_Set_Types\<close> (\<open>model/propertysettype\<close>): the whole manager; cache and store agree over every sequence of requests, a restart restores the objects, updates keep properties.
  \<^item> \<open>Thing_Queries\<close>, \<open>Thing_Inheritance\<close>, \<open>Things\<close> (\<open>model/thing\<close>): listings, the two hierarchies and the operations on things; no thing is ever above
    itself, so the unbounded searches end; types and things inherit the nearest definition.
  \<^item> \<open>Thing_Types\<close> (\<open>model/thing\<close>): the operations on thing types and the propagation of their updates. \<open>Model_Manager\<close>: the three managers together; over
    every sequence of requests no reference to a parent type or to a shared property set type dangles, and every request returns.
  \<^item> \<open>Agents\<close>, \<open>Mappings\<close> (\<open>model/agent\<close>, \<open>model/datapointmapping\<close>): agent types, agents and data point mappings; over every sequence of requests
    mappings lead to data points of the recorded type, a property is mapped once, and the data sources of agents have identifiers.

  \<^bold>\<open>The event service\<close> (\<open>event\<close>).
  \<^item> \<open>Event_Types\<close>: event types with their fields, validation, chains of parents and operations. \<open>Event_Hierarchy\<close>, \<open>Event_Steps\<close>, \<open>Event_Update\<close>: the invariant (chains,
    field indexes and counts of required fields are exact) and that creation, deletion and update keep it; the search for the types below one ends.
  \<^item> \<open>Events\<close>: events with the check and conversion of their fields, and the queries sent to the log storage. \<open>Event_Properties\<close>: every sequence of requests keeps the
    invariant and returns, and an event is accepted exactly with its required fields. \<open>Event_Failures\<close>: what goes wrong after a restart, in the saved types of a thing and in
    queries over types with different times to live.

  \<^bold>\<open>From agents to data and back\<close> (\<open>exchange\<close>, \<open>data\<close>).
  \<^item> \<open>Exchange\<close>: the routes kept from the watch events of agents and mappings; what becomes of the messages of agents, and of commands and actions to them. \<open>Collector\<close>: the
    conversion of values, the points written, the rollups announced to the job manager, queries and deletions.
  \<^item> \<open>Exchange_Properties\<close>: the routes refine a multiset of mappings and follow the model manager. \<open>Exchange_Series\<close>: through both services every value becomes a point that queries find.
    \<open>Exchange_Losses\<close>: the values and commands that are lost.

  \<^bold>\<open>The control service\<close> (\<open>control\<close>).
  \<^item> \<open>Command_Types\<close>: command types; their options are shared by pointers and kept in a heap. \<open>Command_Hierarchy\<close>, \<open>Command_Steps\<close>: which option a type sees, the invariant that the
    indexes have exactly these, and that creation, update and deletion keep it.
  \<^item> \<open>Go_Float\<close>: the comparison and truncation of 64-bit floating-point numbers on their bits. \<open>Commands\<close>: the check and conversion of options and property values, the delivery, the
    records and their queries.
  \<^item> \<open>Command_Properties\<close>: every admissible sequence of requests keeps the indexes, a restart rebuilds them (or ends in a nil pointer), and an accepted command is complete.
    \<open>Command_Losses\<close>: through the exchange no acknowledgement is awaited; records of deleted types stay.

  \<^bold>\<open>The notification service\<close> (\<open>notification\<close>).
  \<^item> \<open>Secrets\<close> (\<open>util/aesutil/cbc.go\<close>): padding, key formatting and block chaining over an arbitrary block cipher; decryption inverts encryption, and the key is the same for all tenants.
  \<^item> \<open>Notifications\<close>: server configuration, recipients, message templates with placeholders, templates and messages, with validation, deletion of orphans and the goroutines that save
    stripped templates. \<open>Notification_Properties\<close>: over every sequence of requests templates refer to existing objects. \<open>Notification_Losses\<close>: messages from templates are complete and
    secrets stay encrypted; what deletions of message templates and missing servers lead to.

  \<^bold>\<open>Rules\<close> (\<open>rule\<close>, \<open>data/realtimecomputation\<close>).
  \<^item> \<open>Rules\<close>: rules with their expressions and actions, validation, the checks against things and servers, creation, update, deletion, and the goroutines that deactivate rules of deleted
    things and changed types. \<open>Rule_Properties\<close>: over every sequence of requests cache and files agree; the rules of a deleted thing become inactive; what the checks miss, the panic of webhook
    actions, deleted rules that return and the check that is repeated for ever.
  \<^item> \<open>Realtime\<close>: the expressions that the collector keeps from watch events, the data for the PromQL engine, the actions that are due and what they send. \<open>Realtime_Properties\<close>: the kept
    expressions refine the map of active rules. \<open>Rule_Composition\<close>: a collector that starts on the files of the rule service has exactly its active rules; intervals of actions that are ignored;
    alerts that the notification service cannot send.

  \<^bold>\<open>The log storage\<close> (\<open>logstorage\<close>), which the services above use for rows by time.
  \<^item> \<open>Log_Storage\<close>: table definitions and statements, the Flux queries, points and predicates for InfluxDB. \<open>Click_House\<close>: the SQL statements for ClickHouse and the division of joined rows.
  \<^item> \<open>Log_Properties\<close>: what the conditions mean under the precedence of Flux; written rows are found by listings of one table, listings over several tables lose the keys (so the events of a
    thing come with those of others); values that inject text; which tables ClickHouse can create and what a listing of one table answers.

  \<^bold>\<open>Modelling.\<close> Structs are records, \<open>sync.Map\<close>s association lists in the order of their iteration, pointers between cached objects
  the identifiers of the objects. An operation takes the state and returns it; the clock, random numbers, UUIDs and the faults of the operating system are arguments, so the theorems
  hold for all of them. Errors are values of \<open>go_error\<close>; a panic that the HTTP server recovers is \<open>GoPanic\<close>. A loop that Go may run for ever is a
  \<open>partial_function\<close> whose value \<open>None\<close> means that it does not return; no fuel is used, and returning is proved (\<open>query_unanswered_iff\<close>, \<open>things_stay_forest\<close>, \<open>model_requests_return\<close>, \<open>explode_nearest\<close>, \<open>hasType_exact\<close>). The goroutine of
  a store serves one object at a time, which is the call \<open>Store_persist\<close>; goroutines that retry are operations of their own that may come at any time. Floating-point operations
  are an argument of the rollups; the theorems on their values take exact arithmetic (\<open>real_ops\<close>), so they do not bound rounding errors.

  \<^bold>\<open>Not modelled.\<close> Network and database clients, the encodings of whole objects (a file holds the decoded object), the third-party libraries (JSON patch, mapstructure, cron:
  parameters), the clients of mail and chat servers, and the vendored PromQL engine with its parser and storage (parameters of the rules). Requests to one
  manager are taken one after the other; races between two requests on one cache are not covered. The services' command lines, the installers and the boot
  resources only start processes, run scripts and read files.
\<close>

end
